(* ===== verification/Prelude.thy ===== *)
theory Prelude
  imports Main "HOL-Library.Char_ord" "HOL-Library.List_Lexorder"
begin

text \<open>
  What every component of the development shares: the reading of Go's maps, the
  iteration over them, named collections of simplification rules, and facts about
  lists and maps that are not in the library.

  A Go map is a partial function.  Reading a missing key gives the zero value of the
  element type, which \<^verbatim>\<open>get0\<close> writes out.  A \<^verbatim>\<open>range\<close> loop over a map visits
  every key once, in an order the language leaves open: the model takes that order as
  an argument, a list that \<^verbatim>\<open>enumerates\<close> the domain of the map, so a fact proved for
  every enumeration holds for every run of the program.
\<close>

named_theorems repo_simps \<open>unfolding rules for the operations of a repository\<close>
named_theorems wf_intros \<open>introduction rules for well-formedness of stored data\<close>

subsection \<open>Reading maps\<close>

definition get0 :: "'v \<Rightarrow> ('k \<rightharpoonup> 'v) \<Rightarrow> 'k \<Rightarrow> 'v" where
  "get0 z m k = (case m k of None \<Rightarrow> z | Some v \<Rightarrow> v)"

lemma get0_Some [simp]: "m k = Some v \<Longrightarrow> get0 z m k = v"
  by (simp add: get0_def)

lemma get0_None [simp]: "m k = None \<Longrightarrow> get0 z m k = z"
  by (simp add: get0_def)

lemma get0_upd [simp]: "get0 z (m(k \<mapsto> v)) k' = (if k' = k then v else get0 z m k')"
  by (simp add: get0_def)

subsection \<open>Iterating over maps\<close>

definition enumerates :: "'k list \<Rightarrow> ('k \<rightharpoonup> 'v) \<Rightarrow> bool" where
  "enumerates ks m \<longleftrightarrow> distinct ks \<and> set ks = dom m"

lemma enumeratesD:
  assumes "enumerates ks m"
  shows "distinct ks" and "set ks = dom m"
  using assms by (simp_all add: enumerates_def)

lemma enumerates_empty [simp]: "enumerates [] Map.empty"
  by (simp add: enumerates_def)

lemma enumerates_fresh:
  "enumerates ks m \<Longrightarrow> m k = None \<Longrightarrow> enumerates (k # ks) (m(k \<mapsto> v))"
  by (auto simp: enumerates_def)

lemma enumerates_overwrite:
  "enumerates ks m \<Longrightarrow> m k = Some w \<Longrightarrow> enumerates ks (m(k \<mapsto> v))"
  by (auto simp: enumerates_def)

lemma enumerates_length:
  assumes "enumerates ks m"
  shows "length ks = card (dom m)"
  using assms distinct_card by (force simp: enumerates_def)

text \<open>Two enumerations of one map filter to the same keys, up to order.\<close>

lemma enumerates_filter_set:
  "enumerates ks m \<Longrightarrow> enumerates ks' m \<Longrightarrow> set (filter P ks) = set (filter P ks')"
  by (simp add: enumerates_def)

lemma enumerates_filter_length:
  assumes "enumerates ks m" and "enumerates ks' m"
  shows "length (filter P ks) = length (filter P ks')"
proof -
  have "distinct (filter P ks)" and "distinct (filter P ks')"
    using assms by (auto simp: enumerates_def)
  then have "length (filter P ks) = card (set (filter P ks))"
    and "length (filter P ks') = card (set (filter P ks'))"
    using distinct_card by force+
  then show ?thesis
    using enumerates_filter_set [OF assms] by simp
qed

lemma filter_singleton_order:
  assumes "enumerates ks m" and "enumerates ks' m" and "filter P ks = [k]"
  shows "filter P ks' = [k]"
proof -
  have "length (filter P ks') = 1"
    using enumerates_filter_length [OF assms(1,2), of P] assms(3) by simp
  then obtain k' where k': "filter P ks' = [k']"
    by (metis One_nat_def length_0_conv length_Suc_conv)
  moreover have "set (filter P ks) = set (filter P ks')"
    by (rule enumerates_filter_set [OF assms(1,2)])
  ultimately show ?thesis
    using assms(3) by simp
qed

text \<open>The last iteration that meets a condition decides a value the loop overwrites.\<close>

lemma find_unique:
  assumes ks: "set ks = dom m" and k: "P k" "k \<in> dom m"
    and uniq: "\<And>j. j \<in> dom m \<Longrightarrow> P j \<Longrightarrow> j = k"
  shows "find P ks = Some k"
proof (cases "find P ks")
  case None
  then have "k \<notin> set ks"
    using k(1) by (auto simp: find_None_iff)
  with ks k(2) show ?thesis by simp
next
  case (Some j)
  then obtain i where "i < length ks" and "P (ks ! i)" and "j = ks ! i"
    by (auto simp: find_Some_iff)
  then have "P j" and "j \<in> dom m"
    using ks nth_mem by blast+
  with Some uniq show ?thesis by blast
qed

subsection \<open>Lists\<close>

lemma filter_gt_sorted_split:
  fixes f :: "'a \<Rightarrow> 'b::linorder"
  assumes "sorted (map f xs)"
  shows "filter (\<lambda>x. a < f x) xs = dropWhile (\<lambda>x. f x \<le> a) xs"
  using assms
proof (induction xs)
  case Nil
  then show ?case by simp
next
  case (Cons x xs)
  show ?case
  proof (cases "f x \<le> a")
    case True
    with Cons show ?thesis by simp
  next
    case False
    have "filter (\<lambda>x. a < f x) xs = xs"
      using Cons.prems False by (auto simp: filter_id_conv)
    with False show ?thesis by simp
  qed
qed

lemma sort_key_sorted_id:
  "sorted (map f xs) \<Longrightarrow> sort_key f xs = xs"
  by (simp add: sort_key_id_if_sorted)

lemma find_SomeD:
  "find P xs = Some x \<Longrightarrow> P x \<and> x \<in> set xs"
  by (induction xs) (auto split: if_splits)

end
