(* ===== verification/GoConv.thy ===== *)
theory GoConv
  imports GoStd
begin

text \<open>
  Conversions between numbers, bytes and text as \<^verbatim>\<open>strconv\<close>, \<^verbatim>\<open>fmt\<close> and
  \<^verbatim>\<open>encoding/hex\<close> do them, with their round trips: printing a number in decimal and
  parsing it back, zero padding (\<^verbatim>\<open>%06d\<close>) and its lexicographic order, and hexadecimal
  encoding and decoding.
\<close>

subsection \<open>Decimal digits\<close>

definition digit_char :: "nat \<Rightarrow> char" where
  "digit_char d = ''0123456789'' ! d"

definition digit_val :: "char \<Rightarrow> nat option" where
  "digit_val c = (if CHR ''0'' \<le> c \<and> c \<le> CHR ''9'' then Some (of_char c - 48) else None)"

fun dec :: "nat \<Rightarrow> string" where
  "dec n = (if n < 10 then [digit_char n] else dec (n div 10) @ [digit_char (n mod 10)])"

declare dec.simps [simp del]

text \<open>\<^verbatim>\<open>%d\<close> of a signed integer.\<close>

definition fmt_d :: "int \<Rightarrow> string" where
  "fmt_d i = (if i < 0 then CHR ''-'' # dec (nat (- i)) else dec (nat i))"

text \<open>\<^verbatim>\<open>%0wd\<close>: the width counts the sign.\<close>

definition pad0 :: "nat \<Rightarrow> string \<Rightarrow> string" where
  "pad0 w s = replicate (w - length s) (CHR ''0'') @ s"

definition fmt_0d :: "nat \<Rightarrow> int \<Rightarrow> string" where
  "fmt_0d w i = (if i < 0 then CHR ''-'' # pad0 (w - 1) (dec (nat (- i))) else pad0 w (dec (nat i)))"

definition digits_val :: "nat list \<Rightarrow> nat" where
  "digits_val ds = foldl (\<lambda>n d. 10 * n + d) 0 ds"

fun digit_vals :: "string \<Rightarrow> nat list option" where
  "digit_vals [] = Some []"
| "digit_vals (c # cs) =
     (case digit_val c of None \<Rightarrow> None | Some d \<Rightarrow> map_option ((#) d) (digit_vals cs))"

text \<open>
  \<^verbatim>\<open>strconv.ParseUint(s, 10, bits)\<close> and \<^verbatim>\<open>strconv.ParseInt(s, 10, bits)\<close>: a non-empty string
  of decimal digits (an optional sign before it for \<^verbatim>\<open>ParseInt\<close>) whose value fits; \<^verbatim>\<open>None\<close>
  for either of Go's two errors.  \<^verbatim>\<open>Atoi\<close> is \<^verbatim>\<open>ParseInt\<close> at the width of \<^verbatim>\<open>int\<close>.
\<close>

definition ParseUint :: "nat \<Rightarrow> string \<Rightarrow> nat option" where
  "ParseUint bits s =
     (if s = [] then None
      else (case digit_vals s of
              None \<Rightarrow> None
            | Some ds \<Rightarrow> if digits_val ds < 2 ^ bits then Some (digits_val ds) else None))"

definition ParseInt :: "nat \<Rightarrow> string \<Rightarrow> int option" where
  "ParseInt bits s =
     (case s of
        [] \<Rightarrow> None
      | c # cs \<Rightarrow>
          (let neg = (c = CHR ''-''); body = (if c = CHR ''-'' \<or> c = CHR ''+'' then cs else s)
           in case ParseUint 64 body of
                None \<Rightarrow> None
              | Some u \<Rightarrow>
                  if neg then (if u \<le> 2 ^ (bits - 1) then Some (- int u) else None)
                  else (if u < 2 ^ (bits - 1) then Some (int u) else None)))"

definition Atoi :: "string \<Rightarrow> int option" where
  "Atoi s = ParseInt 64 s"

subsection \<open>Printing and parsing decimals\<close>

lemma digit_cases: "d < 10 \<Longrightarrow> d \<in> {0, 1, 2, 3, 4, 5, 6, 7, 8, 9::nat}"
  by auto

lemma digit_val_digit_char [simp]: "d < 10 \<Longrightarrow> digit_val (digit_char d) = Some d"
  by (drule digit_cases) (auto simp: digit_val_def digit_char_def)

lemma digit_char_inj: "a < 10 \<Longrightarrow> b < 10 \<Longrightarrow> digit_char a = digit_char b \<longleftrightarrow> a = b"
  by (metis digit_val_digit_char option.inject)

lemma digit_vals_append:
  "digit_vals (s @ t) =
     (case digit_vals s of None \<Rightarrow> None | Some ds \<Rightarrow> map_option ((@) ds) (digit_vals t))"
  by (induction s; cases "digit_vals t") (auto split: option.splits)

lemma digits_val_snoc: "digits_val (ds @ [d]) = 10 * digits_val ds + d"
  by (simp add: digits_val_def)

lemma dec_nonempty [simp]: "dec n \<noteq> []"
  by (subst dec.simps) simp

lemma digit_vals_dec: "\<exists>ds. digit_vals (dec n) = Some ds \<and> digits_val ds = n"
proof (induction n rule: dec.induct)
  case (1 n)
  show ?case
  proof (cases "n < 10")
    case True
    then show ?thesis
      by (subst dec.simps) (simp add: digits_val_def)
  next
    case False
    with 1 obtain ds where ds: "digit_vals (dec (n div 10)) = Some ds" "digits_val ds = n div 10"
      by blast
    have "digit_vals (dec n) = Some (ds @ [n mod 10])"
      by (subst dec.simps) (use False ds in \<open>simp add: digit_vals_append\<close>)
    moreover have "digits_val (ds @ [n mod 10]) = n"
      using ds by (simp add: digits_val_snoc)
    ultimately show ?thesis by blast
  qed
qed

lemma ParseUint_dec: "n < 2 ^ bits \<Longrightarrow> ParseUint bits (dec n) = Some n"
  using digit_vals_dec [of n] by (auto simp: ParseUint_def)

lemma digit_vals_set: "digit_vals s = Some ds \<Longrightarrow> \<forall>c \<in> set s. \<exists>d < 10. c = digit_char d"
proof (induction s arbitrary: ds)
  case Nil
  then show ?case by simp
next
  case (Cons c cs)
  then obtain d where d: "digit_val c = Some d" and IH: "\<forall>c \<in> set cs. \<exists>d < 10. c = digit_char d"
    by (auto split: option.splits)
  have "c = digit_char d \<and> d < 10"
  proof -
    have "CHR ''0'' \<le> c" "c \<le> CHR ''9''" and dv: "d = of_char c - 48"
      using d by (auto simp: digit_val_def split: if_splits)
    then have "48 \<le> (of_char c :: nat)" "(of_char c :: nat) \<le> 57"
      by (simp_all add: less_eq_char_def)
    then have "(of_char c :: nat) \<in> {48, 49, 50, 51, 52, 53, 54, 55, 56, 57}"
      unfolding insert_iff empty_iff by arith
    then have "c \<in> set ''0123456789''"
      by (auto simp: of_char_eq_iff [symmetric, where 'a = nat, of c])
    with dv show ?thesis
      by (auto simp: digit_char_def)
  qed
  with IH show ?case by auto
qed

lemma dec_digits: "c \<in> set (dec n) \<Longrightarrow> \<exists>d < 10. c = digit_char d"
  using digit_vals_dec [of n] digit_vals_set by blast

lemma digit_char_not_sign: "d < 10 \<Longrightarrow> digit_char d \<noteq> CHR ''-'' \<and> digit_char d \<noteq> CHR ''+''"
  by (drule digit_cases) (auto simp: digit_char_def)

lemma ParseInt_digits:
  assumes "digit_vals s = Some ds" and "s \<noteq> []" and "digits_val ds < 2 ^ (bits - 1)"
    and "digits_val ds < 2 ^ 64"
  shows "ParseInt bits s = Some (int (digits_val ds))"
proof (cases s)
  case Nil
  with assms show ?thesis by simp
next
  case (Cons c cs)
  then have "c \<noteq> CHR ''-'' \<and> c \<noteq> CHR ''+''"
    using digit_vals_set [OF assms(1)] digit_char_not_sign by auto
  with assms Cons show ?thesis
    by (auto simp: ParseInt_def ParseUint_def Let_def split: option.splits)
qed

lemma ParseInt_fmt_d:
  assumes "- (2 ^ 63) \<le> i" and "i < 2 ^ 63"
  shows "ParseInt 64 (fmt_d i) = Some i"
proof (cases "i < 0")
  case True
  then have "nat (- i) \<le> 2 ^ 63"
    using assms by (simp add: nat_le_iff)
  then have "ParseUint 64 (dec (nat (- i))) = Some (nat (- i))" and "nat (- i) \<le> 2 ^ 63"
    by (auto intro!: ParseUint_dec)
  with True show ?thesis
    by (simp add: ParseInt_def fmt_d_def Let_def)
next
  case False
  obtain ds where ds: "digit_vals (dec (nat i)) = Some ds" "digits_val ds = nat i"
    using digit_vals_dec by blast
  have "nat i < 2 ^ 63"
    using assms False by (simp add: nat_less_iff)
  with ds False show ?thesis
    by (simp add: fmt_d_def ParseInt_digits)
qed

lemma dec_inj: "dec m = dec n \<longleftrightarrow> m = n"
  by (metis digit_vals_dec option.inject)

lemma fmt_d_inj:
  assumes "fmt_d i = fmt_d j"
  shows "i = j"
proof -
  have nosign: "dec n \<noteq> CHR ''-'' # s" for n s
    using dec_digits [of "CHR ''-''" n] digit_char_not_sign
    by (metis list.set_intros(1))
  show ?thesis
    using assms nosign nosign [symmetric]
    by (auto simp: fmt_d_def dec_inj split: if_splits)
qed

subsection \<open>Zero padding\<close>

lemma digit_vals_zeros: "digit_vals (replicate k (CHR ''0'')) = Some (replicate k 0)"
  by (induction k) (simp_all add: digit_val_def)

lemma digits_val_leading_zeros: "digits_val (replicate k 0 @ ds) = digits_val ds"
  by (induction k) (simp_all add: digits_val_def)

lemma pad0_vals:
  "\<exists>ds. digit_vals (pad0 w (dec n)) = Some ds \<and> digits_val ds = n"
  using digit_vals_dec [of n]
  by (auto simp: pad0_def digit_vals_append digit_vals_zeros digits_val_leading_zeros)

lemma pad0_nonempty [simp]: "pad0 w (dec n) \<noteq> []"
  by (simp add: pad0_def)

lemma Atoi_fmt_0d:
  assumes "0 \<le> i" and "i < 2 ^ 63"
  shows "Atoi (fmt_0d w i) = Some i"
proof -
  obtain ds where "digit_vals (pad0 w (dec (nat i))) = Some ds" "digits_val ds = nat i"
    using pad0_vals by blast
  moreover have "nat i < 2 ^ 63"
    using assms by (simp add: nat_less_iff)
  ultimately show ?thesis
    using assms by (simp add: Atoi_def fmt_0d_def ParseInt_digits)
qed

lemma fmt_0d_inj: "0 \<le> i \<Longrightarrow> 0 \<le> j \<Longrightarrow> fmt_0d w i = fmt_0d w j \<longleftrightarrow> i = j"
  using pad0_vals [of w "nat i"] pad0_vals [of w "nat j"]
  by (auto simp: fmt_0d_def)

text \<open>
  The value of a digit string bounds its length, and digit strings of one length are
  ordered by their values: the order of \<^verbatim>\<open>sort.Strings\<close> on padded numbers is numeric as
  long as no number outgrows the padding.
\<close>

lemma length_dec: "0 < w \<Longrightarrow> n < 10 ^ w \<Longrightarrow> length (dec n) \<le> w"
proof (induction n arbitrary: w rule: dec.induct)
  case (1 n)
  show ?case
  proof (cases "n < 10")
    case True
    with 1(2) show ?thesis by (subst dec.simps) simp
  next
    case False
    with 1(3) have "w \<noteq> 1" by (metis power_one_right)
    with 1(2) obtain w' where w': "w = Suc w'" "0 < w'"
      by (metis One_nat_def Suc_pred neq0_conv)
    then have "n div 10 < 10 ^ w'"
      using 1(3) by (simp add: less_mult_imp_div_less mult.commute)
    then have "length (dec (n div 10)) \<le> w'"
      using 1(1) False w'(2) by blast
    with False w' show ?thesis by (subst dec.simps) simp
  qed
qed

lemma length_pad0: "0 < w \<Longrightarrow> n < 10 ^ w \<Longrightarrow> length (pad0 w (dec n)) = w"
  using length_dec [of w n] by (simp add: pad0_def)

lemma digits_val_Cons: "digits_val (d # ds) = d * 10 ^ length ds + digits_val ds"
proof (induction ds rule: rev_induct)
  case Nil
  then show ?case by (simp add: digits_val_def)
next
  case (snoc e ds)
  have "digits_val (d # ds @ [e]) = 10 * digits_val (d # ds) + e"
    using digits_val_snoc [of "d # ds" e] by simp
  with snoc show ?case
    by (simp add: digits_val_snoc algebra_simps)
qed

lemma digits_val_bound: "\<forall>d \<in> set ds. d < 10 \<Longrightarrow> digits_val ds < 10 ^ length ds"
proof (induction ds)
  case Nil
  then show ?case by (simp add: digits_val_def)
next
  case (Cons d ds)
  then have "digits_val ds < 10 ^ length ds" and "d \<le> 9" by auto
  then have "d * 10 ^ length ds \<le> 9 * 10 ^ length ds"
    by (intro mult_le_mono1)
  with \<open>digits_val ds < 10 ^ length ds\<close>
  have "d * 10 ^ length ds + digits_val ds < 10 * 10 ^ length ds"
    by linarith
  then show ?case
    by (simp add: digits_val_Cons)
qed

lemma digit_val_bound: "digit_val c = Some d \<Longrightarrow> d < 10"
  using digit_vals_set [of "[c]" "[d]"] by auto

lemma digit_vals_bound: "digit_vals s = Some ds \<Longrightarrow> (\<forall>d \<in> set ds. d < 10) \<and> length ds = length s"
  by (induction s arbitrary: ds) (auto split: option.splits dest: digit_val_bound)

lemma digit_char_less: "a < 10 \<Longrightarrow> b < 10 \<Longrightarrow> digit_char a < digit_char b \<longleftrightarrow> a < b"
  by (drule digit_cases, drule digit_cases) (auto simp: digit_char_def)

lemma digit_val_char: "digit_val c = Some d \<Longrightarrow> c = digit_char d"
  using digit_vals_set [of "[c]" "[d]"] by auto

lemma digit_strings_less:
  assumes "digit_vals s = Some ds" and "digit_vals t = Some es" and "length s = length t"
  shows "s < t \<longleftrightarrow> digits_val ds < digits_val es"
  using assms
proof (induction s arbitrary: t ds es)
  case Nil
  then show ?case by simp
next
  case (Cons c cs)
  then obtain c' cs' where t: "t = c' # cs'" "length cs = length cs'"
    by (metis length_Suc_conv)
  with Cons.prems obtain d ds' e es' where
    dd: "digit_val c = Some d" "digit_vals cs = Some ds'" "ds = d # ds'" and
    ee: "digit_val c' = Some e" "digit_vals cs' = Some es'" "es = e # es'"
    by (auto split: option.splits)
  have IH: "cs < cs' \<longleftrightarrow> digits_val ds' < digits_val es'"
    using Cons.IH dd(2) ee(2) t(2) by blast
  have len: "length ds' = length es'" and b: "digits_val ds' < 10 ^ length es'"
    "digits_val es' < 10 ^ length es'"
    using digit_vals_bound [OF dd(2)] digit_vals_bound [OF ee(2)] t(2)
      digits_val_bound [of ds'] digits_val_bound [of es'] by auto
  have lt: "c < c' \<longleftrightarrow> d < e" and eq: "c = c' \<longleftrightarrow> d = e"
    using digit_val_char dd(1) ee(1) digit_val_bound digit_char_less digit_char_inj by metis+
  have step: "a < b' \<Longrightarrow> a * m + x < b' * m + y" if "x < m" for a b' m x y :: nat
  proof -
    assume "a < b'"
    then have "(a + 1) * m \<le> b' * m" by (intro mult_le_mono1) simp
    with that show ?thesis by (simp add: algebra_simps)
  qed
  show ?case
    using IH lt eq len b step [of "digits_val ds'" "10 ^ length es'" d e "digits_val es'"]
      step [of "digits_val es'" "10 ^ length es'" e d "digits_val ds'"]
    by (cases d e rule: linorder_cases) (auto simp: t dd ee digits_val_Cons list_less_def)
qed

lemma fmt_0d_less:
  assumes "0 \<le> i" "0 \<le> j" "i < 10 ^ w" "j < 10 ^ w" "0 < w"
  shows "fmt_0d w i < fmt_0d w j \<longleftrightarrow> i < j"
proof -
  obtain ds es where
    "digit_vals (pad0 w (dec (nat i))) = Some ds" "digits_val ds = nat i"
    "digit_vals (pad0 w (dec (nat j))) = Some es" "digits_val es = nat j"
    using pad0_vals by meson
  moreover have "nat i < 10 ^ w" "nat j < 10 ^ w"
    using assms by (simp_all add: nat_less_iff)
  ultimately show ?thesis
    using assms digit_strings_less [of "pad0 w (dec (nat i))" ds "pad0 w (dec (nat j))" es]
    by (auto simp: fmt_0d_def length_pad0)
qed

subsection \<open>Hexadecimal\<close>

text \<open>\<^verbatim>\<open>hex.EncodeToString\<close> writes lower-case digits; \<^verbatim>\<open>hex.DecodeString\<close> reads both cases.\<close>

definition hex_digit :: "nat \<Rightarrow> char" where
  "hex_digit d = ''0123456789abcdef'' ! d"

definition hex_val :: "char \<Rightarrow> nat option" where
  "hex_val c =
     (if CHR ''0'' \<le> c \<and> c \<le> CHR ''9'' then Some (of_char c - 48)
      else if CHR ''a'' \<le> c \<and> c \<le> CHR ''f'' then Some (of_char c - 87)
      else if CHR ''A'' \<le> c \<and> c \<le> CHR ''F'' then Some (of_char c - 55)
      else None)"

definition hex_byte :: "char \<Rightarrow> string" where
  "hex_byte b = [hex_digit (of_char b div 16), hex_digit (of_char b mod 16)]"

definition hex_encode :: "string \<Rightarrow> string" where
  "hex_encode bs = concat (map hex_byte bs)"

fun hex_decode :: "string \<Rightarrow> string option" where
  "hex_decode [] = Some []"
| "hex_decode [c] = None"
| "hex_decode (a # b # cs) =
     (case (hex_val a, hex_val b) of
        (Some x, Some y) \<Rightarrow> map_option ((#) (char_of (16 * x + y))) (hex_decode cs)
      | _ \<Rightarrow> None)"

lemma hex_val_table: "\<forall>d \<in> set [0..<16]. hex_val (hex_digit d) = Some d"
  by code_simp

lemma hex_val_hex_digit [simp]: "d < 16 \<Longrightarrow> hex_val (hex_digit d) = Some d"
  using hex_val_table by simp

lemma of_char_bound: "(of_char c :: nat) < 256"
  using nat_of_char_less_256 [of c] by simp

lemma hex_decode_encode [simp]: "hex_decode (hex_encode bs) = Some bs"
proof (induction bs)
  case Nil
  then show ?case by (simp add: hex_encode_def)
next
  case (Cons b bs)
  have "(of_char b :: nat) div 16 < 16"
    using of_char_bound [of b] by (simp add: less_mult_imp_div_less)
  moreover have "16 * ((of_char b :: nat) div 16) + of_char b mod 16 = of_char b"
    by simp
  ultimately show ?case
    using Cons by (simp add: hex_encode_def hex_byte_def)
qed

lemma hex_encode_inj: "hex_encode a = hex_encode b \<longleftrightarrow> a = b"
  by (metis hex_decode_encode option.inject)

lemma length_hex_encode [simp]: "length (hex_encode bs) = 2 * length bs"
  by (induction bs) (simp_all add: hex_encode_def hex_byte_def)

definition is_hex_lower :: "char \<Rightarrow> bool" where
  "is_hex_lower c \<longleftrightarrow> c \<in> set ''0123456789abcdef''"

lemma is_hex_lower_digit: "d < 16 \<Longrightarrow> is_hex_lower (hex_digit d)"
  by (simp add: is_hex_lower_def hex_digit_def del: set_simps)

lemma hex_encode_chars: "c \<in> set (hex_encode bs) \<Longrightarrow> is_hex_lower c"
  using of_char_bound
  by (auto simp: hex_encode_def hex_byte_def less_mult_imp_div_less intro!: is_hex_lower_digit)

end
