(* ===== verification/Domain.thy ===== *)
theory Domain
  imports GoConv
begin

text \<open>
  The data of \<^verbatim>\<open>internal/domain\<close>: scenarios, runs, events, assertions, findings, reports,
  the overview and API errors, one record per struct with the struct's name as a prefix
  of the field names.  \<^verbatim>\<open>Fault\<close> is a string because clients send it; the other string
  types only ever hold the constants the code gives them and are datatypes with a
  constructor for Go's zero value.
\<close>

subsection \<open>Models (models.go)\<close>

type_synonym Fault = string

abbreviation FaultNone :: Fault where "FaultNone \<equiv> ''none''"
abbreviation FaultDuplicate :: Fault where "FaultDuplicate \<equiv> ''duplicate''"
abbreviation FaultReorder :: Fault where "FaultReorder \<equiv> ''reorder''"
abbreviation FaultTimeout :: Fault where "FaultTimeout \<equiv> ''timeout''"
abbreviation FaultTamper :: Fault where "FaultTamper \<equiv> ''tamper''"

record Scenario =
  scn_ID :: string
  scn_Name :: string
  scn_Description :: string
  scn_Category :: string
  scn_DurationMS :: int
  scn_SupportedFaults :: "Fault list"
  scn_Assertions :: "string list"
  scn_Difficulty :: string
  scn_Recommended :: bool
  scn_EstimatedEventCount :: int

datatype RunStatus = RunStatusZero | RunRunning | RunPassed | RunFailed

record Run =
  run_ID :: string
  run_ScenarioID :: string
  run_ScenarioName :: string
  run_Fault :: Fault
  run_Status :: RunStatus
  run_Score :: int
  run_StartedAt :: time
  run_CompletedAt :: time
  run_DurationMS :: int
  run_EventCount :: int
  run_FindingCount :: int
  run_Recovered :: bool
  run_Environment :: string
  run_StripeObjectID :: string
  run_MerchantOrderID :: string

datatype EventStatus = EventStatusZero | EventHealthy | EventDiverged | EventRecovered | EventBlocked

text \<open>The values \<^verbatim>\<open>map[string]any\<close> evidence holds.\<close>

datatype any = AnyInt int | AnyBool bool | AnyString string

type_synonym evidence = "string \<rightharpoonup> any"

record Event =
  ev_ID :: string
  ev_RunID :: string
  ev_Sequence :: int
  ev_At :: time
  ev_Source :: string
  ev_Target :: string
  ev_Type :: string
  ev_Title :: string
  ev_Detail :: string
  ev_Status :: EventStatus
  ev_LatencyMS :: int
  ev_Checkpoint :: string
  ev_TraceID :: string
  ev_Evidence :: evidence
  ev_IsDuplicate :: bool

record Assertion =
  as_ID :: string
  as_Name :: string
  as_Passed :: bool
  as_Expected :: string
  as_Observed :: string
  as_Evidence :: string

record Finding =
  fd_ID :: string
  fd_Severity :: string
  fd_Title :: string
  fd_Summary :: string
  fd_Cause :: string
  fd_Remediation :: string
  fd_Checkpoint :: string
  fd_Resolved :: bool

record StateSnapshot =
  st_Stripe :: string
  st_Webhook :: string
  st_Merchant :: string
  st_Balanced :: bool

record Report =
  rp_Run :: Run
  rp_Summary :: string
  rp_Verdict :: string
  rp_Assertions :: "Assertion list"
  rp_Findings :: "Finding list"
  rp_State :: StateSnapshot
  rp_Generated :: time

record OverviewStats =
  os_TotalRuns :: int
  os_PassedRuns :: int
  os_EventsProcessed :: int
  os_DuplicatesCaught :: int
  os_P95LatencyMS :: int

record CategoryReadiness =
  cr_ID :: string
  cr_Label :: string
  cr_Score :: int

record Overview =
  ov_ReadinessScore :: int
  ov_Grade :: string
  ov_Environment :: string
  ov_LastVerifiedAt :: time
  ov_Stats :: OverviewStats
  ov_Categories :: "CategoryReadiness list"
  ov_RecentRuns :: "Run list"
  ov_Critical :: "Finding option"

text \<open>The zero values Go returns beside a false or an error.\<close>

definition zero_Run :: Run where
  "zero_Run = \<lparr>run_ID = [], run_ScenarioID = [], run_ScenarioName = [], run_Fault = [],
     run_Status = RunStatusZero, run_Score = 0, run_StartedAt = zero_time,
     run_CompletedAt = zero_time, run_DurationMS = 0, run_EventCount = 0, run_FindingCount = 0,
     run_Recovered = False, run_Environment = [], run_StripeObjectID = [],
     run_MerchantOrderID = []\<rparr>"

definition zero_Report :: Report where
  "zero_Report = \<lparr>rp_Run = zero_Run, rp_Summary = [], rp_Verdict = [], rp_Assertions = [],
     rp_Findings = [],
     rp_State = \<lparr>st_Stripe = [], st_Webhook = [], st_Merchant = [], st_Balanced = False\<rparr>,
     rp_Generated = zero_time\<rparr>"

subsection \<open>API errors (errors.go)\<close>

text \<open>
  A message is kept as its format and arguments: rendering it (in particular \<^verbatim>\<open>%q\<close>) is
  presentation only.
\<close>

datatype message = Msg string | Sprintf string "string list"

record Error =
  er_Type :: string
  er_Code :: string
  er_Message :: message
  er_Param :: string
  er_RequestID :: string
  er_HTTPStatus :: int

definition Invalid :: "string \<Rightarrow> message \<Rightarrow> string \<Rightarrow> Error" where
  "Invalid code msg param =
     \<lparr>er_Type = ''invalid_request_error'', er_Code = code, er_Message = msg, er_Param = param,
      er_RequestID = [], er_HTTPStatus = 400\<rparr>"

definition NotFound :: "string \<Rightarrow> string \<Rightarrow> Error" where
  "NotFound resource ident =
     \<lparr>er_Type = ''invalid_request_error'', er_Code = resource @ ''_not_found'',
      er_Message = Sprintf ''No %s exists with id %q.'' [resource, ident],
      er_Param = resource @ ''_id'', er_RequestID = [], er_HTTPStatus = 404\<rparr>"

definition Conflict :: "string \<Rightarrow> message \<Rightarrow> string \<Rightarrow> Error" where
  "Conflict code msg param =
     \<lparr>er_Type = ''idempotency_error'', er_Code = code, er_Message = msg, er_Param = param,
      er_RequestID = [], er_HTTPStatus = 409\<rparr>"

definition Internal :: "string \<Rightarrow> message \<Rightarrow> Error" where
  "Internal code msg =
     \<lparr>er_Type = ''api_error'', er_Code = code, er_Message = msg, er_Param = [],
      er_RequestID = [], er_HTTPStatus = 500\<rparr>"

definition Unauthorized :: "string \<Rightarrow> message \<Rightarrow> Error" where
  "Unauthorized code msg =
     \<lparr>er_Type = ''authentication_error'', er_Code = code, er_Message = msg, er_Param = [],
      er_RequestID = [], er_HTTPStatus = 401\<rparr>"

definition Forbidden :: "string \<Rightarrow> message \<Rightarrow> Error" where
  "Forbidden code msg =
     \<lparr>er_Type = ''permission_error'', er_Code = code, er_Message = msg, er_Param = [],
      er_RequestID = [], er_HTTPStatus = 403\<rparr>"

lemma error_status [simp]:
  "er_HTTPStatus (Invalid c m p) = 400" "er_HTTPStatus (NotFound r i) = 404"
  "er_HTTPStatus (Conflict c m p) = 409" "er_HTTPStatus (Internal c m) = 500"
  "er_HTTPStatus (Unauthorized c m) = 401" "er_HTTPStatus (Forbidden c m) = 403"
  by (simp_all add: Invalid_def NotFound_def Conflict_def Internal_def Unauthorized_def Forbidden_def)

lemma error_code [simp]:
  "er_Code (Invalid c m p) = c" "er_Code (NotFound r i) = r @ ''_not_found''"
  "er_Code (Conflict c m p) = c" "er_Code (Internal c m) = c"
  "er_Code (Unauthorized c m) = c" "er_Code (Forbidden c m) = c"
  by (simp_all add: Invalid_def NotFound_def Conflict_def Internal_def Unauthorized_def Forbidden_def)

text \<open>
  Values of Go's \<^verbatim>\<open>error\<close> interface: the sentinels the code compares with \<^verbatim>\<open>errors.Is\<close>,
  errors made on the spot, \<^verbatim>\<open>%w\<close> wrapping, the worker's \<^verbatim>\<open>permanentJobError\<close> with its
  code, and what the database driver returns: \<^verbatim>\<open>pgx.ErrNoRows\<close> for a missing row, and an error
  of the server by its SQLSTATE code.
\<close>

datatype goerr =
    ErrIdempotencyConflict
  | ErrWebhookConflict
  | ErrAccountExists
  | ErrNew string
  | ErrFmt string "string list"
  | ErrWrap string goerr
  | ErrPermanent string goerr
  | ErrNoRows
  | ErrPg string

fun errors_Is :: "goerr \<Rightarrow> goerr \<Rightarrow> bool" where
  "errors_Is (ErrWrap m e) t \<longleftrightarrow> ErrWrap m e = t \<or> errors_Is e t"
| "errors_Is (ErrPermanent c e) t \<longleftrightarrow> ErrPermanent c e = t \<or> errors_Is e t"
| "errors_Is e t \<longleftrightarrow> e = t"

text \<open>\<^verbatim>\<open>errors.As\<close> to a \<^verbatim>\<open>*permanentJobError\<close>: its code, if one is in the chain.\<close>

fun errors_As_permanent :: "goerr \<Rightarrow> string option" where
  "errors_As_permanent (ErrPermanent c e) = Some c"
| "errors_As_permanent (ErrWrap m e) = errors_As_permanent e"
| "errors_As_permanent e = None"

subsection \<open>Hash functions\<close>

text \<open>
  The digest functions the program calls, as parameters: \<^verbatim>\<open>sha256.Sum256\<close> and HMAC-SHA256
  (key, then message).  A theorem that needs collision freedom says so for the inputs it
  is about.
\<close>

record crypto =
  sha256 :: "string \<Rightarrow> string"
  hmac_sha256 :: "string \<Rightarrow> string \<Rightarrow> string"

end
