(* ===== verification/Verification.thy ===== *)
theory Verification
  imports Domain "HOL-Library.FSet"
begin

text \<open>
  The verification contract (\<^verbatim>\<open>internal/verification/contract.go\<close>): signed deliveries, the
  bundled reference merchant and the relay that injects a fault into a delivery.  The
  merchant's methods run under its mutex, so a call is one step of its state.  The
  relay works against any target: the locale \<^verbatim>\<open>verification_target\<close> says what it needs
  of one, and the relay's behaviour under every fault is proved once from it.
\<close>

subsection \<open>Deliveries and signatures\<close>

definition ContractVersion :: string where
  "ContractVersion = ''paritylab.verification.v1''"

record Delivery =
  dl_Version :: string
  dl_EventID :: string
  dl_EffectID :: string
  dl_RunID :: string
  dl_Sequence :: int
  dl_PayloadHash :: string
  dl_Signature :: string

record Receipt =
  rc_Accepted :: bool
  rc_Duplicate :: bool
  rc_SignatureValid :: bool
  rc_BusinessEffects :: int

record Result =
  rs_Fault :: Fault
  rs_Attempts :: int
  rs_Accepted :: int
  rs_Duplicates :: int
  rs_Rejected :: int
  rs_BusinessEffects :: int

definition zero_Result :: Result where
  "zero_Result = \<lparr>rs_Fault = [], rs_Attempts = 0, rs_Accepted = 0, rs_Duplicates = 0,
     rs_Rejected = 0, rs_BusinessEffects = 0\<rparr>"

lemma zero_Result_fields [simp]:
  "rs_Fault zero_Result = []" "rs_Attempts zero_Result = 0" "rs_Accepted zero_Result = 0"
  "rs_Duplicates zero_Result = 0" "rs_Rejected zero_Result = 0" "rs_BusinessEffects zero_Result = 0"
  by (simp_all add: zero_Result_def)

record Signer =
  sg_secret :: string

definition NewSigner :: "string \<Rightarrow> goerr + Signer" where
  "NewSigner secret =
     (if length secret < 16
      then Inl (ErrNew ''verification signing secret must contain at least 16 bytes'')
      else Inr \<lparr>sg_secret = secret\<rparr>)"

definition newline :: string where
  "newline = [CHR 0x0A]"

definition signingInput :: "Delivery \<Rightarrow> string" where
  "signingInput d =
     dl_Version d @ newline @ dl_EventID d @ newline @ dl_EffectID d @ newline @ dl_RunID d @
     newline @ fmt_d (dl_Sequence d) @ newline @ dl_PayloadHash d"

definition Sign :: "crypto \<Rightarrow> Signer \<Rightarrow> Delivery \<Rightarrow> string" where
  "Sign C sg d = hex_encode (hmac_sha256 C (sg_secret sg) (signingInput d))"

definition Verify :: "crypto \<Rightarrow> Signer \<Rightarrow> Delivery \<Rightarrow> bool" where
  "Verify C sg d =
     (case hex_decode (dl_Signature d) of
        None \<Rightarrow> False
      | Some provided \<Rightarrow>
          (case hex_decode (Sign C sg d) of
             None \<Rightarrow> provided = []
           | Some want \<Rightarrow> provided = want))"

lemma signingInput_signature [simp]: "signingInput (d\<lparr>dl_Signature := x\<rparr>) = signingInput d"
  by (simp add: signingInput_def)

lemma Sign_signature [simp]: "Sign C sg (d\<lparr>dl_Signature := x\<rparr>) = Sign C sg d"
  by (simp add: Sign_def)

lemma Verify_iff:
  "Verify C sg d \<longleftrightarrow> hex_decode (dl_Signature d) = Some (hmac_sha256 C (sg_secret sg) (signingInput d))"
  by (auto simp: Verify_def Sign_def split: option.splits)

lemma Verify_Sign [simp]: "Verify C sg (d\<lparr>dl_Signature := Sign C sg d\<rparr>)"
  by (simp add: Verify_iff Sign_def)

subsection \<open>The reference merchant\<close>

record ReferenceMerchant =
  rm_signer :: Signer
  rm_effects :: "string fset"
  rm_sequence :: "string \<rightharpoonup> int"

definition NewReferenceMerchant :: "Signer \<Rightarrow> ReferenceMerchant" where
  "NewReferenceMerchant sg = \<lparr>rm_signer = sg, rm_effects = {||}, rm_sequence = Map.empty\<rparr>"

definition genuine :: "crypto \<Rightarrow> Signer \<Rightarrow> Delivery \<Rightarrow> bool" where
  "genuine C sg d \<longleftrightarrow> dl_Version d = ContractVersion \<and> Verify C sg d"

definition ReferenceMerchant_Deliver ::
  "crypto \<Rightarrow> ReferenceMerchant \<Rightarrow> Delivery \<Rightarrow> ReferenceMerchant \<times> (goerr + Receipt)" where
  "ReferenceMerchant_Deliver C m d =
     (if dl_Version d \<noteq> ContractVersion \<or> \<not> Verify C (rm_signer m) d
      then (m, Inr \<lparr>rc_Accepted = False, rc_Duplicate = False, rc_SignatureValid = False,
                    rc_BusinessEffects = int (fcard (rm_effects m))\<rparr>)
      else if dl_Sequence d < get0 0 (rm_sequence m) (dl_EffectID d)
      then (m, Inr \<lparr>rc_Accepted = True, rc_Duplicate = True, rc_SignatureValid = True,
                    rc_BusinessEffects = int (fcard (rm_effects m))\<rparr>)
      else
        (let m1 = m\<lparr>rm_sequence := (rm_sequence m)(dl_EffectID d \<mapsto> dl_Sequence d)\<rparr>
         in if dl_EffectID d |\<in>| rm_effects m1
            then (m1, Inr \<lparr>rc_Accepted = True, rc_Duplicate = True, rc_SignatureValid = True,
                           rc_BusinessEffects = int (fcard (rm_effects m1))\<rparr>)
            else
              (let m2 = m1\<lparr>rm_effects := finsert (dl_EffectID d) (rm_effects m1)\<rparr>
               in (m2, Inr \<lparr>rc_Accepted = True, rc_Duplicate = False, rc_SignatureValid = True,
                            rc_BusinessEffects = int (fcard (rm_effects m2))\<rparr>))))"

subsection \<open>The relay\<close>

definition stringsOfZero :: "nat \<Rightarrow> string" where
  "stringsOfZero n = replicate n (CHR ''0'')"

text \<open>
  One pass over the deliveries.  The argument \<^verbatim>\<open>ctx\<close> says what \<^verbatim>\<open>ctx.Err()\<close> returns at its
  \<^verbatim>\<open>i\<close>-th call.  As in Go, the partial result is returned beside an error.
\<close>

fun execute_loop ::
  "('s \<Rightarrow> Delivery \<Rightarrow> 's \<times> (goerr + Receipt)) \<Rightarrow> (nat \<Rightarrow> goerr option) \<Rightarrow> nat \<Rightarrow>
   Delivery list \<Rightarrow> 's \<Rightarrow> Result \<Rightarrow> 's \<times> Result \<times> goerr option" where
  "execute_loop deliver ctx i [] s r = (s, r, None)"
| "execute_loop deliver ctx i (d # ds) s r =
     (case ctx i of
        Some e \<Rightarrow> (s, r, Some e)
      | None \<Rightarrow>
          (let r1 = r\<lparr>rs_Attempts := rs_Attempts r + 1\<rparr>
           in case deliver s d of
                (s', Inl e) \<Rightarrow> (s', r1, Some e)
              | (s', Inr rc) \<Rightarrow>
                  (let r2 = r1\<lparr>rs_BusinessEffects := rc_BusinessEffects rc\<rparr>;
                       r3 = (if rc_Accepted rc then r2\<lparr>rs_Accepted := rs_Accepted r2 + 1\<rparr>
                             else r2\<lparr>rs_Rejected := rs_Rejected r2 + 1\<rparr>);
                       r4 = (if rc_Duplicate rc then r3\<lparr>rs_Duplicates := rs_Duplicates r3 + 1\<rparr>
                             else r3)
                   in execute_loop deliver ctx (Suc i) ds s' r4)))"

definition Execute ::
  "crypto \<Rightarrow> Signer \<Rightarrow> ('s \<Rightarrow> Delivery \<Rightarrow> 's \<times> (goerr + Receipt)) \<Rightarrow> (nat \<Rightarrow> goerr option) \<Rightarrow>
   Delivery \<Rightarrow> Fault \<Rightarrow> 's \<Rightarrow> 's \<times> Result \<times> goerr option" where
  "Execute C sg deliver ctx base0 fault s =
     (let base1 = base0\<lparr>dl_Version := ContractVersion\<rparr>;
          base = base1\<lparr>dl_Signature := Sign C sg base1\<rparr>;
          result = zero_Result\<lparr>rs_Fault := fault\<rparr>
      in if fault = FaultNone then execute_loop deliver ctx 0 [base] s result
         else if fault = FaultDuplicate then execute_loop deliver ctx 0 [base, base] s result
         else if fault = FaultReorder then
           (let newer0 = base\<lparr>dl_EventID := dl_EventID base @ ''_newer'',
                              dl_Sequence := int64 (dl_Sequence base + 1)\<rparr>;
                newer = newer0\<lparr>dl_Signature := Sign C sg newer0\<rparr>
            in execute_loop deliver ctx 0 [newer, base] s result)
         else if fault = FaultTimeout then
           execute_loop deliver ctx 0 [base] s (result\<lparr>rs_Attempts := rs_Attempts result + 1\<rparr>)
         else if fault = FaultTamper then
           execute_loop deliver ctx 0
             [base\<lparr>dl_PayloadHash := stringsOfZero (length (dl_PayloadHash base))\<rparr>] s result
         else (s, zero_Result, Some (ErrFmt ''unsupported verification fault %q'' [fault])))"

text \<open>A history of deliveries to one target, with the answers in order.\<close>

fun deliver_all ::
  "('s \<Rightarrow> Delivery \<Rightarrow> 's \<times> (goerr + Receipt)) \<Rightarrow> 's \<Rightarrow> Delivery list \<Rightarrow>
   's \<times> (goerr + Receipt) list" where
  "deliver_all deliver s [] = (s, [])"
| "deliver_all deliver s (d # ds) =
     (let (s', rc) = deliver s d; (s'', rcs) = deliver_all deliver s' ds in (s'', rc # rcs))"

definition fresh_receipt :: "goerr + Receipt \<Rightarrow> bool" where
  "fresh_receipt x =
     (case x of Inl _ \<Rightarrow> False | Inr rc \<Rightarrow> rc_Accepted rc \<and> \<not> rc_Duplicate rc)"

subsection \<open>What the relay needs of a target\<close>

text \<open>
  A target keeps a set of applied business effects.  It refuses a delivery that is not
  genuine without changing, and accepts a genuine one, applying its effect and saying
  whether the effect had been applied before.  What it reports as its number of business
  effects is a function of the state after the call and of whether the call was accepted.
\<close>

locale verification_target =
  fixes deliver :: "'s \<Rightarrow> Delivery \<Rightarrow> 's \<times> (goerr + Receipt)"
    and applied :: "'s \<Rightarrow> string set"
    and accepts :: "Delivery \<Rightarrow> bool"
    and count :: "'s \<Rightarrow> bool \<Rightarrow> int"
    and wf :: "'s \<Rightarrow> bool"
  assumes refuse:
      "wf s \<Longrightarrow> \<not> accepts d \<Longrightarrow>
         \<exists>rc. deliver s d = (s, Inr rc) \<and> \<not> rc_Accepted rc \<and> \<not> rc_Duplicate rc \<and>
           rc_BusinessEffects rc = count s False"
    and accept:
      "wf s \<Longrightarrow> accepts d \<Longrightarrow> 0 \<le> dl_Sequence d \<Longrightarrow>
         \<exists>s' rc. deliver s d = (s', Inr rc) \<and> rc_Accepted rc \<and>
           rc_Duplicate rc = (dl_EffectID d \<in> applied s) \<and>
           rc_BusinessEffects rc = count s' True \<and>
           applied s' = insert (dl_EffectID d) (applied s) \<and> wf s'"
begin

lemma deliver_total: "wf s \<Longrightarrow> 0 \<le> dl_Sequence d \<Longrightarrow> \<exists>s' rc. deliver s d = (s', Inr rc) \<and> wf s'"
  using refuse accept by meson

lemma loop_genuine:
  assumes "wf s" and "\<forall>d \<in> set ds. accepts d \<and> 0 \<le> dl_Sequence d \<and> dl_EffectID d = e"
  shows "\<exists>s' r'. execute_loop deliver (\<lambda>_. None) i ds s r = (s', r', None) \<and> wf s' \<and>
     applied s' = (if ds = [] then applied s else insert e (applied s)) \<and>
     rs_Fault r' = rs_Fault r \<and>
     (ds \<noteq> [] \<longrightarrow> rs_BusinessEffects r' = count s' True) \<and>
     rs_Attempts r' = rs_Attempts r + int (length ds) \<and>
     rs_Accepted r' = rs_Accepted r + int (length ds) \<and>
     rs_Rejected r' = rs_Rejected r \<and>
     rs_Duplicates r' = rs_Duplicates r +
       int (if e \<in> applied s then length ds else length ds - 1)"
  using assms
proof (induction ds arbitrary: i s r)
  case Nil
  then show ?case by simp
next
  case (Cons d ds)
  then have e: "dl_EffectID d = e" by simp
  obtain s1 rc where s1: "deliver s d = (s1, Inr rc)" "rc_Accepted rc"
      "rc_Duplicate rc = (e \<in> applied s)" "applied s1 = insert e (applied s)" "wf s1"
      "rc_BusinessEffects rc = count s1 True"
    using accept [of s d] Cons.prems e by auto
  have ds: "\<forall>d \<in> set ds. accepts d \<and> 0 \<le> dl_Sequence d \<and> dl_EffectID d = e"
    using Cons.prems by simp
  define r4 where "r4 = (let r2 = r\<lparr>rs_Attempts := rs_Attempts r + 1,
      rs_BusinessEffects := rc_BusinessEffects rc, rs_Accepted := rs_Accepted r + 1\<rparr>
    in if e \<in> applied s then r2\<lparr>rs_Duplicates := rs_Duplicates r + 1\<rparr> else r2)"
  have step: "execute_loop deliver (\<lambda>_. None) i (d # ds) s r =
      execute_loop deliver (\<lambda>_. None) (Suc i) ds s1 r4"
    using s1 by (simp add: Let_def r4_def)
  have r4: "rs_Attempts r4 = rs_Attempts r + 1" "rs_Accepted r4 = rs_Accepted r + 1"
      "rs_Rejected r4 = rs_Rejected r" "rs_Fault r4 = rs_Fault r"
      "rs_Duplicates r4 = rs_Duplicates r + (if e \<in> applied s then 1 else 0)"
      "rs_BusinessEffects r4 = count s1 True"
    using s1(6) by (simp_all add: r4_def Let_def)
  show ?case
  proof (cases ds)
    case Nil
    with step r4 s1 show ?thesis by simp
  next
    case (Cons d' ds')
    with Cons.IH [OF s1(5) ds, of "Suc i" r4] show ?thesis
      unfolding step by (auto simp: r4 s1(4))
  qed
qed

lemma refused_once:
  assumes "wf s" and "\<not> accepts d"
  shows "\<exists>r'. execute_loop deliver (\<lambda>_. None) i [d] s r = (s, r', None) \<and>
     rs_Fault r' = rs_Fault r \<and> rs_Attempts r' = rs_Attempts r + 1 \<and>
     rs_Accepted r' = rs_Accepted r \<and> rs_Rejected r' = rs_Rejected r + 1 \<and>
     rs_BusinessEffects r' = count s False \<and> rs_Duplicates r' = rs_Duplicates r"
  using refuse [OF assms] by (auto simp: Let_def)

end

text \<open>
  A target that takes a genuine delivery with a negative sequence number for a late one applies
  nothing for it and answers it as a duplicate.
\<close>

locale late_target = verification_target +
  assumes late:
      "wf s \<Longrightarrow> accepts d \<Longrightarrow> dl_Sequence d < 0 \<Longrightarrow>
         \<exists>s' rc. deliver s d = (s', Inr rc) \<and> rc_Accepted rc \<and> rc_Duplicate rc \<and>
           applied s' = applied s \<and> wf s'"
begin

abbreviation effective :: "Delivery list \<Rightarrow> string set" where
  "effective ds \<equiv> dl_EffectID ` {d \<in> set ds. accepts d \<and> 0 \<le> dl_Sequence d}"

text \<open>
  Whatever the order and however often each delivery arrives, the applied effects are those
  of the accepted deliveries that are not late, and each new one is answered once as not a duplicate.
\<close>

lemma deliver_all_exactly_once:
  assumes "wf s"
  shows "\<exists>s' rcs. deliver_all deliver s ds = (s', rcs) \<and> wf s' \<and>
     applied s' = applied s \<union> effective ds \<and>
     length (filter fresh_receipt rcs) = card (effective ds - applied s)"
  using assms
proof (induction ds arbitrary: s)
  case Nil
  then show ?case by simp
next
  case (Cons d ds)
  have fin: "finite (effective ds)" by simp
  show ?case
  proof (cases "accepts d \<and> 0 \<le> dl_Sequence d")
    case False
    then have E: "effective (d # ds) = effective ds" by auto
    obtain s1 rc where "deliver s d = (s1, Inr rc)" "\<not> fresh_receipt (Inr rc)" "wf s1" "applied s1 = applied s"
    proof (cases "accepts d")
      case True
      with False late [OF Cons.prems True] that show ?thesis by (auto simp: fresh_receipt_def)
    next
      case no: False
      with refuse [OF Cons.prems no] that Cons.prems show ?thesis by (auto simp: fresh_receipt_def)
    qed
    with Cons.IH [of s1] show ?thesis
      unfolding E by auto
  next
    case True
    let ?e = "dl_EffectID d"
    have E: "effective (d # ds) = insert ?e (effective ds)" using True by auto
    obtain s1 rc where s1: "deliver s d = (s1, Inr rc)" "wf s1"
        "applied s1 = insert ?e (applied s)" "fresh_receipt (Inr rc) = (?e \<notin> applied s)"
      using accept [OF Cons.prems, of d] True by (auto simp: fresh_receipt_def)
    obtain s2 rcs where s2: "deliver_all deliver s1 ds = (s2, rcs)" "wf s2"
        "applied s2 = applied s1 \<union> effective ds"
        "length (filter fresh_receipt rcs) = card (effective ds - applied s1)"
      using Cons.IH [OF s1(2)] by blast
    have "card (insert ?e (effective ds) - applied s) =
        (if ?e \<notin> applied s then 1 else 0) + card (effective ds - insert ?e (applied s))"
    proof (cases "?e \<in> applied s")
      case True
      then show ?thesis by (simp add: insert_absorb)
    next
      case False
      then have "insert ?e (effective ds) - applied s = insert ?e (effective ds - insert ?e (applied s))" by auto
      with False fin show ?thesis by simp
    qed
    with s1 s2 show ?thesis
      unfolding E by (auto simp: Let_def)
  qed
qed

end

text \<open>
  The relay's client lemmas: with a signature check as the acceptance test, every
  delivery the relay signs itself is accepted, and a delivery whose payload hash it
  zeroes afterwards is refused unless the two signing inputs collide under the MAC.
\<close>

definition faults_converging :: "Fault list" where
  "faults_converging = [FaultNone, FaultDuplicate, FaultReorder, FaultTimeout]"

definition signed_base :: "crypto \<Rightarrow> Signer \<Rightarrow> Delivery \<Rightarrow> Delivery" where
  "signed_base C sg d =
     (let v = d\<lparr>dl_Version := ContractVersion\<rparr> in v\<lparr>dl_Signature := Sign C sg v\<rparr>)"

definition signed_newer :: "crypto \<Rightarrow> Signer \<Rightarrow> Delivery \<Rightarrow> Delivery" where
  "signed_newer C sg d =
     (let n = (signed_base C sg d)\<lparr>dl_EventID := dl_EventID d @ ''_newer'',
                dl_Sequence := int64 (dl_Sequence d + 1)\<rparr>
      in n\<lparr>dl_Signature := Sign C sg n\<rparr>)"

definition tampered_base :: "crypto \<Rightarrow> Signer \<Rightarrow> Delivery \<Rightarrow> Delivery" where
  "tampered_base C sg d =
     (signed_base C sg d)\<lparr>dl_PayloadHash := stringsOfZero (length (dl_PayloadHash d))\<rparr>"

definition relay_deliveries :: "crypto \<Rightarrow> Signer \<Rightarrow> Delivery \<Rightarrow> Fault \<Rightarrow> Delivery list" where
  "relay_deliveries C sg d fault =
     (if fault = FaultDuplicate then [signed_base C sg d, signed_base C sg d]
      else if fault = FaultReorder then [signed_newer C sg d, signed_base C sg d]
      else if fault = FaultTamper then [tampered_base C sg d]
      else [signed_base C sg d])"

lemma Execute_deliveries:
  "fault \<in> set (FaultTamper # faults_converging) \<Longrightarrow>
   Execute C sg deliver ctx d fault s =
     execute_loop deliver ctx 0 (relay_deliveries C sg d fault) s
       (zero_Result\<lparr>rs_Fault := fault, rs_Attempts := if fault = FaultTimeout then 1 else 0\<rparr>)"
  by (auto simp: Execute_def relay_deliveries_def signed_base_def signed_newer_def
      tampered_base_def faults_converging_def Let_def zero_Result_def simp del: execute_loop.simps)

lemma genuine_base:
  "genuine C sg (signed_base C sg d)" "dl_EffectID (signed_base C sg d) = dl_EffectID d"
  "dl_Sequence (signed_base C sg d) = dl_Sequence d"
  by (simp_all add: genuine_def signed_base_def Verify_iff Sign_def signingInput_def)

lemma genuine_newer:
  "genuine C sg (signed_newer C sg d)" "dl_EffectID (signed_newer C sg d) = dl_EffectID d"
  "dl_Sequence (signed_newer C sg d) = int64 (dl_Sequence d + 1)"
  by (simp_all add: genuine_def signed_newer_def signed_base_def Let_def Verify_iff Sign_def
      signingInput_def)

text \<open>The bytes under the signature, before and after the payload hash is zeroed.\<close>

definition collides :: "crypto \<Rightarrow> Signer \<Rightarrow> Delivery \<Rightarrow> bool" where
  "collides C sg d \<longleftrightarrow>
     hmac_sha256 C (sg_secret sg) (signingInput (tampered_base C sg d)) =
     hmac_sha256 C (sg_secret sg) (signingInput (signed_base C sg d))"

lemma genuine_tampered: "genuine C sg (tampered_base C sg d) \<longleftrightarrow> collides C sg d"
  by (auto simp: genuine_def tampered_base_def collides_def signed_base_def Let_def Verify_iff
      Sign_def signingInput_def)

lemma signingInput_tampered:
  "signingInput (tampered_base C sg d) = signingInput (signed_base C sg d) \<longleftrightarrow>
     dl_PayloadHash d = stringsOfZero (length (dl_PayloadHash d))"
  by (auto simp: tampered_base_def signed_base_def Let_def signingInput_def)

locale relay_target = verification_target deliver applied "genuine C sg" count wf
  for deliver :: "'s \<Rightarrow> Delivery \<Rightarrow> 's \<times> (goerr + Receipt)"
    and applied count wf C sg
begin

lemma relay_deliveries_genuine:
  assumes "fault \<in> set faults_converging" and "0 \<le> dl_Sequence d" and "dl_Sequence d < max_int64"
  shows "\<forall>x \<in> set (relay_deliveries C sg d fault).
    genuine C sg x \<and> 0 \<le> dl_Sequence x \<and> dl_EffectID x = dl_EffectID d"
proof -
  have "int64 (dl_Sequence d + 1) = dl_Sequence d + 1"
    using assms(2,3) by (intro int64_id) (simp_all add: min_int64_def)
  then show ?thesis
    using assms by (auto simp: relay_deliveries_def faults_converging_def genuine_base genuine_newer)
qed

lemma execute_converges:
  assumes "wf s" and "fault \<in> set faults_converging"
    and "0 \<le> dl_Sequence d" and "dl_Sequence d < max_int64"
  shows "\<exists>s' r'. Execute C sg deliver (\<lambda>_. None) d fault s = (s', r', None) \<and> wf s' \<and>
     applied s' = insert (dl_EffectID d) (applied s) \<and> rs_Fault r' = fault \<and>
     rs_BusinessEffects r' = count s' True \<and> rs_Rejected r' = 0 \<and>
     rs_Attempts r' = (if fault = FaultNone then 1 else 2) \<and>
     rs_Accepted r' = (if fault \<in> {FaultDuplicate, FaultReorder} then 2 else 1) \<and>
     rs_Duplicates r' = (if fault \<in> {FaultDuplicate, FaultReorder} then 1 else 0) +
       (if dl_EffectID d \<in> applied s then 1 else 0)"
proof -
  let ?ds = "relay_deliveries C sg d fault"
  let ?r = "zero_Result\<lparr>rs_Fault := fault, rs_Attempts := if fault = FaultTimeout then 1 else 0\<rparr>"
  have ex: "Execute C sg deliver (\<lambda>_. None) d fault s = execute_loop deliver (\<lambda>_. None) 0 ?ds s ?r"
    using assms(2) by (intro Execute_deliveries) simp
  have ne: "?ds \<noteq> []" and len: "length ?ds = (if fault \<in> {FaultDuplicate, FaultReorder} then 2 else 1)"
    using assms(2) by (auto simp: relay_deliveries_def faults_converging_def)
  have att: "(if fault = FaultTimeout then 1 else 0) + int (length ?ds) = (if fault = FaultNone then 1 else 2)"
    using assms(2) len by (auto simp: faults_converging_def)
  obtain s' r' where *: "execute_loop deliver (\<lambda>_. None) 0 ?ds s ?r = (s', r', None)" "wf s'"
     "applied s' = insert (dl_EffectID d) (applied s)" "rs_Fault r' = fault"
     "rs_BusinessEffects r' = count s' True" "rs_Rejected r' = 0"
     "rs_Attempts r' = rs_Attempts ?r + int (length ?ds)" "rs_Accepted r' = int (length ?ds)"
     "rs_Duplicates r' = int (if dl_EffectID d \<in> applied s then length ?ds else length ?ds - 1)"
    using loop_genuine [OF assms(1) relay_deliveries_genuine [OF assms(2,3,4)], of 0 ?r] ne
    by auto
  show ?thesis
    unfolding ex by (intro exI [of _ s'] exI [of _ r']) (use * att len in auto)
qed

text \<open>A context that is cancelled at a check stops the deliveries from there on.\<close>

lemma execute_cancelled:
  assumes "wf s" and "fault \<in> set faults_converging"
    and "0 \<le> dl_Sequence d" and "dl_Sequence d < max_int64"
  shows "ctx 0 = Some e \<Longrightarrow> \<exists>r'. Execute C sg deliver ctx d fault s = (s, r', Some e)"
    and "ctx 0 = None \<Longrightarrow> ctx (Suc 0) = Some e \<Longrightarrow> fault \<in> {FaultDuplicate, FaultReorder} \<Longrightarrow>
      \<exists>s' r'. Execute C sg deliver ctx d fault s = (s', r', Some e) \<and> wf s' \<and>
        applied s' = insert (dl_EffectID d) (applied s)"
    and "ctx 0 = None \<Longrightarrow> (fault \<in> {FaultDuplicate, FaultReorder} \<Longrightarrow> ctx (Suc 0) = None) \<Longrightarrow>
      Execute C sg deliver ctx d fault s = Execute C sg deliver (\<lambda>_. None) d fault s"
proof -
  let ?ds = "relay_deliveries C sg d fault"
  let ?r = "zero_Result\<lparr>rs_Fault := fault, rs_Attempts := if fault = FaultTimeout then 1 else 0\<rparr>"
  have ex: "Execute C sg deliver ctx d fault s = execute_loop deliver ctx 0 ?ds s ?r" for ctx
    using assms(2) by (intro Execute_deliveries) simp
  note genuine = relay_deliveries_genuine [OF assms(2,3,4)]
  obtain x xs where ds: "?ds = x # xs" and xs: "xs = [] \<or> (\<exists>y. xs = [y] \<and> fault \<in> {FaultDuplicate, FaultReorder})"
    and two: "fault \<in> {FaultDuplicate, FaultReorder} \<Longrightarrow> xs \<noteq> []"
    using assms(2) by (auto simp: relay_deliveries_def faults_converging_def)
  obtain s1 rc where s1: "deliver s x = (s1, Inr rc)" "wf s1"
      "applied s1 = insert (dl_EffectID d) (applied s)"
    using accept [OF assms(1), of x] genuine ds by auto
  show "ctx 0 = Some e \<Longrightarrow> \<exists>r'. Execute C sg deliver ctx d fault s = (s, r', Some e)"
    by (simp add: ex ds)
  show "ctx 0 = None \<Longrightarrow> ctx (Suc 0) = Some e \<Longrightarrow> fault \<in> {FaultDuplicate, FaultReorder} \<Longrightarrow>
      \<exists>s' r'. Execute C sg deliver ctx d fault s = (s', r', Some e) \<and> wf s' \<and>
        applied s' = insert (dl_EffectID d) (applied s)"
    using xs two s1 by (auto simp: ex ds Let_def)
  show "ctx 0 = None \<Longrightarrow> (fault \<in> {FaultDuplicate, FaultReorder} \<Longrightarrow> ctx (Suc 0) = None) \<Longrightarrow>
      Execute C sg deliver ctx d fault s = Execute C sg deliver (\<lambda>_. None) d fault s"
    using xs s1 by (auto simp: ex ds Let_def split: prod.splits sum.splits)
qed

lemma execute_tampered:
  assumes "wf s" and "\<not> collides C sg d"
  shows "\<exists>r'. Execute C sg deliver (\<lambda>_. None) d FaultTamper s = (s, r', None) \<and>
     rs_Fault r' = FaultTamper \<and> rs_Attempts r' = 1 \<and> rs_Accepted r' = 0 \<and>
     rs_Rejected r' = 1 \<and> rs_Duplicates r' = 0 \<and> rs_BusinessEffects r' = count s False"
proof -
  have "\<not> genuine C sg (tampered_base C sg d)"
    using assms(2) by (simp add: genuine_tampered)
  from refused_once [OF assms(1) this, of 0 "zero_Result\<lparr>rs_Fault := FaultTamper, rs_Attempts := 0\<rparr>"]
  show ?thesis
    by (auto simp: Execute_deliveries relay_deliveries_def simp del: execute_loop.simps)
qed

end

subsection \<open>The reference merchant is such a target\<close>

text \<open>The merchant's invariant: a sequence number is kept for exactly the applied effects.\<close>

definition merchant_wf :: "Signer \<Rightarrow> ReferenceMerchant \<Rightarrow> bool" where
  "merchant_wf sg m \<longleftrightarrow> rm_signer m = sg \<and> dom (rm_sequence m) = fset (rm_effects m)"

lemma merchant_wf_new: "merchant_wf sg (NewReferenceMerchant sg)"
  by (simp add: merchant_wf_def NewReferenceMerchant_def)

lemma merchant_refuse:
  "merchant_wf sg m \<Longrightarrow> \<not> genuine C sg d \<Longrightarrow>
     \<exists>rc. ReferenceMerchant_Deliver C m d = (m, Inr rc) \<and> \<not> rc_Accepted rc \<and> \<not> rc_Duplicate rc \<and>
       rc_BusinessEffects rc = int (fcard (rm_effects m))"
  by (auto simp: ReferenceMerchant_Deliver_def merchant_wf_def genuine_def)

lemma merchant_accept:
  assumes "merchant_wf sg m" and "genuine C sg d" and "0 \<le> dl_Sequence d"
  shows "\<exists>m' rc. ReferenceMerchant_Deliver C m d = (m', Inr rc) \<and> rc_Accepted rc \<and>
    rc_Duplicate rc = (dl_EffectID d \<in> fset (rm_effects m)) \<and>
    rc_BusinessEffects rc = int (fcard (rm_effects m')) \<and>
    fset (rm_effects m') = insert (dl_EffectID d) (fset (rm_effects m)) \<and> merchant_wf sg m'"
proof (cases "dl_Sequence d < get0 0 (rm_sequence m) (dl_EffectID d)")
  case True
  then have "dl_EffectID d \<in> dom (rm_sequence m)"
    using assms(3) by (auto simp: get0_def split: option.splits)
  then have "dl_EffectID d \<in> fset (rm_effects m)"
    using assms(1) by (simp add: merchant_wf_def)
  with True assms show ?thesis
    by (auto simp: ReferenceMerchant_Deliver_def genuine_def merchant_wf_def)
next
  case False
  with assms show ?thesis
    by (auto simp: ReferenceMerchant_Deliver_def genuine_def merchant_wf_def Let_def)
qed

lemma merchant_late:
  assumes "merchant_wf sg m" and "genuine C sg d" and "dl_Sequence d < 0"
  shows "\<exists>m' rc. ReferenceMerchant_Deliver C m d = (m', Inr rc) \<and> rc_Accepted rc \<and> rc_Duplicate rc \<and>
    fset (rm_effects m') = fset (rm_effects m) \<and> merchant_wf sg m'"
proof (cases "dl_Sequence d < get0 0 (rm_sequence m) (dl_EffectID d)")
  case True
  with assms show ?thesis
    by (auto simp: ReferenceMerchant_Deliver_def genuine_def merchant_wf_def)
next
  case False
  then have "dl_EffectID d \<in> dom (rm_sequence m)"
    using assms(3) by (auto simp: get0_def split: option.splits)
  then have "dl_EffectID d \<in> fset (rm_effects m)"
    using assms(1) by (simp add: merchant_wf_def)
  with False assms show ?thesis
    by (auto simp: ReferenceMerchant_Deliver_def genuine_def merchant_wf_def Let_def)
qed

interpretation merchant: relay_target
    "ReferenceMerchant_Deliver C" "\<lambda>m. fset (rm_effects m)" "\<lambda>m _. int (fcard (rm_effects m))"
    "merchant_wf sg" C sg
  for C sg
  by unfold_locales (use merchant_refuse merchant_accept in blast)+

interpretation late_merchant: late_target
    "ReferenceMerchant_Deliver C" "\<lambda>m. fset (rm_effects m)" "genuine C sg" "\<lambda>m _. int (fcard (rm_effects m))"
    "merchant_wf sg"
  for C sg
  by unfold_locales (use merchant_late in blast)

subsection \<open>Properties of the contract\<close>

text \<open>
  A line feed separates the signed fields, so within the identifiers the program uses
  (none contains one) the bytes under the signature determine every field.
\<close>

lemma newline_append_inj:
  assumes "CHR 0x0A \<notin> set a" and "CHR 0x0A \<notin> set a'"
  shows "a @ newline @ b = a' @ newline @ b' \<longleftrightarrow> a = a' \<and> b = b'"
proof
  assume eq: "a @ newline @ b = a' @ newline @ b'"
  have tw: "takeWhile (\<lambda>c. c \<noteq> CHR 0x0A) (x @ newline @ y) = x" if "CHR 0x0A \<notin> set x" for x y
    using that by (subst takeWhile_append2) (auto simp: newline_def)
  have "a = a'"
    using tw [OF assms(1), of b] tw [OF assms(2), of b'] eq by simp
  with eq show "a = a' \<and> b = b'" by simp
qed simp

lemma fmt_d_no_newline: "CHR 0x0A \<notin> set (fmt_d i)"
proof -
  have "CHR 0x0A \<notin> set (dec n)" for n
  proof
    assume "CHR 0x0A \<in> set (dec n)"
    then obtain d where "d < 10" "CHR 0x0A = digit_char d"
      using dec_digits by blast
    then show False
      using digit_cases [of d] by (auto simp: digit_char_def)
  qed
  then show ?thesis by (simp add: fmt_d_def)
qed

definition line_fields :: "Delivery \<Rightarrow> string list" where
  "line_fields d = [dl_Version d, dl_EventID d, dl_EffectID d, dl_RunID d]"

text \<open>
  The signed bytes are unambiguous: two deliveries whose version and identifiers hold no
  line feed have the same signing input only if all their signed fields agree.
\<close>

theorem signingInput_injective:
  assumes "\<forall>s \<in> set (line_fields d @ line_fields d'). CHR 0x0A \<notin> set s"
    and "signingInput d = signingInput d'"
  shows "d\<lparr>dl_Signature := []\<rparr> = d'\<lparr>dl_Signature := []\<rparr>"
  using assms by (auto simp: signingInput_def line_fields_def newline_append_inj fmt_d_no_newline
      dest: fmt_d_inj intro!: Delivery.equality)

theorem signingInput_injective_witness:
  "signingInput \<lparr>dl_Version = ''v'', dl_EventID = ''e'', dl_EffectID = ''x'', dl_RunID = ''r'',
       dl_Sequence = 7, dl_PayloadHash = ''00'', dl_Signature = ''a''\<rparr> \<noteq>
   signingInput \<lparr>dl_Version = ''v'', dl_EventID = ''e'', dl_EffectID = ''x'', dl_RunID = ''r'',
       dl_Sequence = 8, dl_PayloadHash = ''00'', dl_Signature = ''a''\<rparr>"
  using signingInput_injective [of
      "\<lparr>dl_Version = ''v'', dl_EventID = ''e'', dl_EffectID = ''x'', dl_RunID = ''r'',
        dl_Sequence = 7, dl_PayloadHash = ''00'', dl_Signature = ''a''\<rparr>"
      "\<lparr>dl_Version = ''v'', dl_EventID = ''e'', dl_EffectID = ''x'', dl_RunID = ''r'',
        dl_Sequence = 8, dl_PayloadHash = ''00'', dl_Signature = ''a''\<rparr>"]
  by (auto simp: line_fields_def)

text \<open>A digest for the witnesses: it keeps its input, so it has no collisions.\<close>

definition plain_crypto :: crypto where
  "plain_crypto = \<lparr>sha256 = \<lambda>m. m, hmac_sha256 = \<lambda>k m. k @ m\<rparr>"

definition sample_signer :: Signer where
  "sample_signer = \<lparr>sg_secret = ''0123456789abcdef''\<rparr>"

definition sample_delivery :: Delivery where
  "sample_delivery = \<lparr>dl_Version = [], dl_EventID = ''evt_1'', dl_EffectID = ''effect_1'',
     dl_RunID = ''run_000001'', dl_Sequence = 1, dl_PayloadHash = ''ab'', dl_Signature = []\<rparr>"

lemma sample_facts [simp]:
  "dl_EffectID sample_delivery = ''effect_1''" "dl_Sequence sample_delivery = 1"
  "dl_PayloadHash sample_delivery = ''ab''"
  "rm_effects (NewReferenceMerchant sg) = {||}"
  by (simp_all add: sample_delivery_def NewReferenceMerchant_def)

text \<open>
  C25. Under no fault, duplication, reordering or a retried timeout, for a sequence number from 0 on
  that has a successor, the relay drives the reference merchant to exactly one application of the
  business effect unless its context is cancelled: the execution returns no error, nothing is
  rejected, the applied effects grow by the delivery's effect alone, and the counters are those of
  the fault (two accepted deliveries, one of them a duplicate, for duplication and reordering).  A
  context that is cancelled before the first delivery leaves the merchant as it was, and one that is
  cancelled between two deliveries leaves the effect applied once; both return the context's error.
\<close>

theorem reference_merchant_converges:
  assumes "merchant_wf sg m" and "fault \<in> {FaultNone, FaultDuplicate, FaultReorder, FaultTimeout}"
    and "0 \<le> dl_Sequence d" and "dl_Sequence d < max_int64"
    and "two \<longleftrightarrow> fault \<in> {FaultDuplicate, FaultReorder}"
  shows "case (ctx 0, ctx 1) of
      (Some e, _) \<Rightarrow> \<exists>r. Execute C sg (ReferenceMerchant_Deliver C) ctx d fault m = (m, r, Some e)
    | (None, cancelled) \<Rightarrow>
        (\<exists>m' r. Execute C sg (ReferenceMerchant_Deliver C) ctx d fault m =
             (m', r, if two then cancelled else None) \<and>
           fset (rm_effects m') = insert (dl_EffectID d) (fset (rm_effects m)) \<and>
           (two \<and> cancelled \<noteq> None \<or>
              rs_Fault r = fault \<and> rs_BusinessEffects r = int (fcard (rm_effects m')) \<and> rs_Rejected r = 0 \<and>
              rs_Attempts r = (if fault = FaultNone then 1 else 2) \<and> rs_Accepted r = (if two then 2 else 1) \<and>
              rs_Duplicates r = (if two then 1 else 0) + (if dl_EffectID d |\<in>| rm_effects m then 1 else 0)))"
proof -
  have fault: "fault \<in> set faults_converging"
    using assms(2) by (auto simp: faults_converging_def)
  note cancelled = merchant.execute_cancelled [OF assms(1) fault assms(3,4)]
  note converges = merchant.execute_converges [OF assms(1) fault assms(3,4), of C]
  show ?thesis
  proof (cases "ctx 0")
    case (Some e)
    with cancelled(1) show ?thesis by simp
  next
    case None
    show ?thesis
    proof (cases "two \<and> ctx 1 \<noteq> None")
      case True
      then obtain e where e: "ctx (Suc 0) = Some e" by (auto simp: One_nat_def)
      from True assms(5) have "fault \<in> {FaultDuplicate, FaultReorder}" by blast
      from cancelled(2) [OF None e this, of C] obtain m' r where
        "Execute C sg (ReferenceMerchant_Deliver C) ctx d fault m = (m', r, Some e)"
        "fset (rm_effects m') = insert (dl_EffectID d) (fset (rm_effects m))"
        by blast
      with True None e show ?thesis by (auto simp: One_nat_def)
    next
      case False
      then have "Execute C sg (ReferenceMerchant_Deliver C) ctx d fault m =
          Execute C sg (ReferenceMerchant_Deliver C) (\<lambda>_. None) d fault m"
        using None assms(5) by (intro cancelled(3)) (auto simp: One_nat_def)
      with converges None False assms(5) show ?thesis by (auto split: option.splits)
    qed
  qed
qed

theorem reference_merchant_converges_witness:
  "\<exists>m' r. Execute plain_crypto sample_signer (ReferenceMerchant_Deliver plain_crypto) (\<lambda>_. None)
      sample_delivery FaultReorder (NewReferenceMerchant sample_signer) = (m', r, None) \<and>
     fset (rm_effects m') = {''effect_1''} \<and> rs_Accepted r = 2"
  using reference_merchant_converges [where sg = sample_signer and m = "NewReferenceMerchant sample_signer"
      and fault = FaultReorder and d = sample_delivery and two = True and ctx = "\<lambda>_. None" and C = plain_crypto]
  by (auto simp: merchant_wf_new max_int64_def)

text \<open>
  A tampered delivery is refused and has no effect: when the payload hash is not already
  all zeros and the MAC does not collide on the two signing inputs, the relay's tampering
  is rejected by the reference merchant, which keeps its state.
\<close>

theorem reference_merchant_rejects_tampering:
  assumes "merchant_wf sg m" and "dl_PayloadHash d \<noteq> stringsOfZero (length (dl_PayloadHash d))"
    and "signingInput (tampered_base C sg d) \<noteq> signingInput (signed_base C sg d) \<Longrightarrow> \<not> collides C sg d"
  shows "\<exists>r. Execute C sg (ReferenceMerchant_Deliver C) (\<lambda>_. None) d FaultTamper m = (m, r, None) \<and>
     rs_Attempts r = 1 \<and> rs_Accepted r = 0 \<and> rs_Rejected r = 1 \<and> rs_Duplicates r = 0 \<and>
     rs_BusinessEffects r = int (fcard (rm_effects m))"
proof -
  have "\<not> collides C sg d"
    using assms(2,3) by (simp add: signingInput_tampered)
  then show ?thesis
    using merchant.execute_tampered [OF assms(1)] by blast
qed

theorem reference_merchant_rejects_tampering_witness:
  "\<exists>r. Execute plain_crypto sample_signer (ReferenceMerchant_Deliver plain_crypto) (\<lambda>_. None)
      sample_delivery FaultTamper (NewReferenceMerchant sample_signer) =
        (NewReferenceMerchant sample_signer, r, None) \<and> rs_Rejected r = 1"
  using reference_merchant_rejects_tampering [of sample_signer "NewReferenceMerchant sample_signer"
      sample_delivery plain_crypto]
  by (auto simp: merchant_wf_new stringsOfZero_def collides_def plain_crypto_def numeral_2_eq_2)

text \<open>
  C24. The reference merchant applies each effect exactly once for every history: however
  deliveries are ordered, repeated or mixed with forged ones, the applied effects are the
  effects of the genuine deliveries whose sequence number is not negative (a negative one counts as
  late and applies nothing), and the deliveries answered as accepted and not duplicate are as many as
  the effects that became applied.
\<close>

theorem reference_merchant_exactly_once:
  assumes "merchant_wf sg m"
  shows "\<exists>m' rcs. deliver_all (ReferenceMerchant_Deliver C) m ds = (m', rcs) \<and>
     fset (rm_effects m') =
       fset (rm_effects m) \<union> dl_EffectID ` {d \<in> set ds. genuine C sg d \<and> 0 \<le> dl_Sequence d} \<and>
     length (filter fresh_receipt rcs) =
       card (dl_EffectID ` {d \<in> set ds. genuine C sg d \<and> 0 \<le> dl_Sequence d} - fset (rm_effects m))"
  using late_merchant.deliver_all_exactly_once [OF assms] by blast

theorem reference_merchant_exactly_once_witness:
  "\<exists>m' rcs. deliver_all (ReferenceMerchant_Deliver plain_crypto) (NewReferenceMerchant sample_signer)
        [sample_delivery, signed_base plain_crypto sample_signer sample_delivery,
         signed_base plain_crypto sample_signer sample_delivery] = (m', rcs) \<and>
      fset (rm_effects m') = {''effect_1''} \<and> length (filter fresh_receipt rcs) = 1"
proof -
  have "\<not> genuine plain_crypto sample_signer sample_delivery"
    by (simp add: genuine_def sample_delivery_def ContractVersion_def)
  then show ?thesis
    using reference_merchant_exactly_once [of sample_signer "NewReferenceMerchant sample_signer" plain_crypto
        "[sample_delivery, signed_base plain_crypto sample_signer sample_delivery,
          signed_base plain_crypto sample_signer sample_delivery]"]
    by (auto simp: merchant_wf_new genuine_base conj_disj_distribR Collect_disj_eq
        cong: conj_cong)
qed

end
