(* ===== verification/EngineTypes.thy ===== *)
theory EngineTypes
  imports Verification
begin

text \<open>
  The types of the engine's persistence port (\<^verbatim>\<open>internal/engine/repository.go\<close>) and the pure
  functions beside them: the bundle a run is persisted as, webhook receipts and their
  projection into events and assertions, Stripe connections, outbox messages, and the
  \<^verbatim>\<open>Repository\<close> interface as a record of operations on a provider's state.
\<close>

subsection \<open>Persisted values\<close>

record RunBundle =
  rb_Run :: Run
  rb_Events :: "Event list"
  rb_Report :: Report
  rb_OutboxTopic :: string
  rb_StripeCorrelationID :: string
  rb_VerificationFault :: Fault

text \<open>\<^verbatim>\<open>[32]byte\<close> digests are strings of the digest's bytes.\<close>

type_synonym digest = string

record WebhookReceipt =
  wr_EventID :: string
  wr_EventType :: string
  wr_EndpointTokenSHA :: digest
  wr_BodySHA :: digest
  wr_StripeCreatedAt :: time
  wr_StripeObjectID :: string
  wr_ObjectStatus :: string
  wr_CorrelationID :: string

datatype WebhookProcessingStatus =
  WebhookStatusZero | WebhookPending | WebhookMatched | WebhookUnmatched | WebhookIgnored

record WebhookProcessingResult =
  wp_EventID :: string
  wp_EventType :: string
  wp_Status :: WebhookProcessingStatus
  wp_RunID :: string
  wp_ProjectID :: string
  wp_ProcessingCode :: string
  wp_AlreadyProcessed :: bool

record EventStreamBatch =
  eb_Run :: Run
  eb_Events :: "Event list"
  eb_HighWater :: int

record StripeConnection =
  sc_ID :: string
  sc_StripeAccountID :: string
  sc_SandboxName :: string
  sc_Status :: string
  sc_CreatedAt :: time
  sc_SecretCiphertext :: string
  sc_SecretEncryptionKeyID :: int

text \<open>
  The payload of an outbox message is JSON text.  The model keeps what the text denotes:
  an object, by its members, or text that is not a JSON object.
\<close>

datatype RawMessage = Malformed | JSONObject "string \<rightharpoonup> any"

record OutboxMessage =
  om_ID :: string
  om_Topic :: string
  om_AggregateID :: string
  om_Payload :: RawMessage
  om_Attempts :: int
  om_LockedBy :: string
  om_LockedAt :: time

record VerificationEvidence =
  ve_RunID :: string
  ve_Assertion :: Assertion
  ve_Checkpoint :: string

definition zero_OutboxMessage :: OutboxMessage where
  "zero_OutboxMessage = \<lparr>om_ID = [], om_Topic = [], om_AggregateID = [], om_Payload = Malformed,
     om_Attempts = 0, om_LockedBy = [], om_LockedAt = zero_time\<rparr>"

definition zero_StripeConnection :: StripeConnection where
  "zero_StripeConnection = \<lparr>sc_ID = [], sc_StripeAccountID = [], sc_SandboxName = [],
     sc_Status = [], sc_CreatedAt = zero_time, sc_SecretCiphertext = [],
     sc_SecretEncryptionKeyID = 0\<rparr>"

definition zero_EventStreamBatch :: EventStreamBatch where
  "zero_EventStreamBatch = \<lparr>eb_Run = zero_Run, eb_Events = [], eb_HighWater = 0\<rparr>"

subsection \<open>Projections of a webhook\<close>

text \<open>The argument \<^verbatim>\<open>now\<close> is the value of \<^verbatim>\<open>time.Now().UTC()\<close>, read when Stripe sent no time.\<close>

definition BuildWebhookRunEvent ::
  "crypto \<Rightarrow> time \<Rightarrow> WebhookReceipt \<Rightarrow> string \<Rightarrow> int \<Rightarrow> Event" where
  "BuildWebhookRunEvent C now receipt run sequence =
     (let digest = sha256 C (wr_EventID receipt);
          occurredAt = (if IsZero (wr_StripeCreatedAt receipt) then now
                        else wr_StripeCreatedAt receipt)
      in \<lparr>ev_ID = ''stripe_webhook_'' @ hex_encode (take 12 digest),
          ev_RunID = run, ev_Sequence = sequence, ev_At = occurredAt,
          ev_Source = ''stripe'', ev_Target = ''webhook-ingress'', ev_Type = wr_EventType receipt,
          ev_Title = ''Stripe webhook correlated'',
          ev_Detail = ''A verified sandbox event was correlated to this run using sanitized Stripe metadata.'',
          ev_Status = EventHealthy, ev_LatencyMS = 0, ev_Checkpoint = ''stripe-webhook'',
          ev_TraceID = ''stripe-event-'' @ hex_encode (take 8 digest),
          ev_Evidence =
            [''stripe_event_id'' \<mapsto> AnyString (wr_EventID receipt),
             ''stripe_event_type'' \<mapsto> AnyString (wr_EventType receipt),
             ''stripe_payment_intent_id'' \<mapsto> AnyString (wr_StripeObjectID receipt),
             ''stripe_payment_intent_status'' \<mapsto> AnyString (wr_ObjectStatus receipt),
             ''paritylab_correlation_id'' \<mapsto> AnyString (wr_CorrelationID receipt)],
          ev_IsDuplicate = False\<rparr>)"

lemma BuildWebhookRunEvent_fields [simp]:
  "ev_Sequence (BuildWebhookRunEvent C now w r n) = n"
  "ev_RunID (BuildWebhookRunEvent C now w r n) = r"
  "ev_IsDuplicate (BuildWebhookRunEvent C now w r n) = False"
  by (simp_all add: BuildWebhookRunEvent_def Let_def)

definition WebhookCorrelationAssertion :: "WebhookReceipt \<Rightarrow> Assertion" where
  "WebhookCorrelationAssertion receipt =
     \<lparr>as_ID = ''assert_stripe_webhook_correlated'',
      as_Name = ''Verified Stripe webhook correlated to the originating run'',
      as_Passed = True,
      as_Expected = ''matching PaymentIntent and ParityLab correlation metadata'',
      as_Observed = ''PaymentIntent and correlation metadata matched'',
      as_Evidence = ''stripe_object:'' @ wr_StripeObjectID receipt\<rparr>"

fun HasAssertion :: "Assertion list \<Rightarrow> string \<Rightarrow> bool" where
  "HasAssertion [] i \<longleftrightarrow> False"
| "HasAssertion (a # as) i \<longleftrightarrow> (if as_ID a = i then True else HasAssertion as i)"

lemma HasAssertion_iff: "HasAssertion as i \<longleftrightarrow> i \<in> as_ID ` set as"
  by (induction as) auto

definition IsSupportedStripeWebhookType :: "string \<Rightarrow> bool" where
  "IsSupportedStripeWebhookType eventType \<longleftrightarrow>
     eventType \<in> set [''payment_intent.created'', ''payment_intent.processing'',
       ''payment_intent.succeeded'', ''payment_intent.payment_failed'',
       ''payment_intent.canceled'']"

fun passedCount :: "Assertion list \<Rightarrow> int" where
  "passedCount [] = 0"
| "passedCount (a # as) = (if as_Passed a then 1 else 0) + passedCount as"

lemma passedCount_append [simp]: "passedCount (as @ bs) = passedCount as + passedCount bs"
  by (induction as) simp_all

lemma passedCount_filter: "passedCount as = int (length (filter as_Passed as))"
  by (induction as) simp_all

text \<open>The summaries \<^verbatim>\<open>fmt.Sprintf("%d of %d <kind> assertions passed.", ...)\<close> writes.\<close>

definition assertion_summary :: "string \<Rightarrow> Assertion list \<Rightarrow> string" where
  "assertion_summary kind as =
     fmt_d (passedCount as) @ '' of '' @ fmt_d (int (length as)) @ '' '' @ kind @
     '' assertions passed.''"

subsection \<open>The persistence port\<close>

text \<open>
  An operation changes the provider's state and returns an error or a value; \<^verbatim>\<open>(T, bool, error)\<close>
  is an error or a pair.  Operations whose providers read the clock take its value.  The
  tenant and public boundaries are separate interfaces the service reaches by a type
  assertion, which succeeds when the provider has them.
\<close>

type_synonym ('s, 'a) op = "'s \<Rightarrow> 's \<times> (goerr + 'a)"

record 's TenantRepository =
  t_ReplayRunForProject :: "string \<Rightarrow> digest \<Rightarrow> digest \<Rightarrow> ('s, Run \<times> bool) op"
  t_CreateRunForProject :: "time \<Rightarrow> string \<Rightarrow> digest \<Rightarrow> digest \<Rightarrow> RunBundle \<Rightarrow> ('s, Run \<times> bool) op"
  t_RunForProject :: "string \<Rightarrow> string \<Rightarrow> ('s, Run \<times> bool) op"
  t_EventsForProject :: "string \<Rightarrow> string \<Rightarrow> ('s, Event list \<times> bool) op"
  t_EventsAfterForProject :: "string \<Rightarrow> string \<Rightarrow> int \<Rightarrow> int \<Rightarrow> ('s, EventStreamBatch \<times> bool) op"
  t_ReportForProject :: "string \<Rightarrow> string \<Rightarrow> ('s, Report \<times> bool) op"
  t_ListRunsForProject :: "string \<Rightarrow> ('s, Run list) op"
  t_SaveStripeConnectionForProject :: "string \<Rightarrow> StripeConnection \<Rightarrow> ('s, StripeConnection) op"
  t_StripeConnectionForProject :: "string \<Rightarrow> string \<Rightarrow> ('s, StripeConnection \<times> bool) op"
  t_ListStripeConnectionsForProject :: "string \<Rightarrow> ('s, StripeConnection list) op"

record 's PublicRepository =
  p_PublicRun :: "string \<Rightarrow> ('s, Run \<times> bool) op"
  p_PublicEvents :: "string \<Rightarrow> ('s, Event list \<times> bool) op"
  p_PublicEventsAfter :: "string \<Rightarrow> int \<Rightarrow> int \<Rightarrow> ('s, EventStreamBatch \<times> bool) op"
  p_PublicReport :: "string \<Rightarrow> ('s, Report \<times> bool) op"
  p_ListPublicRuns :: "('s, Run list) op"

record 's Repository =
  r_NextRunID :: "('s, string) op"
  r_ReplayRun :: "digest \<Rightarrow> digest \<Rightarrow> ('s, Run \<times> bool) op"
  r_CreateRun :: "time \<Rightarrow> digest \<Rightarrow> digest \<Rightarrow> RunBundle \<Rightarrow> ('s, Run \<times> bool) op"
  r_Run :: "string \<Rightarrow> ('s, Run \<times> bool) op"
  r_Events :: "string \<Rightarrow> ('s, Event list \<times> bool) op"
  r_EventsAfter :: "string \<Rightarrow> int \<Rightarrow> int \<Rightarrow> ('s, EventStreamBatch \<times> bool) op"
  r_Report :: "string \<Rightarrow> ('s, Report \<times> bool) op"
  r_ListRuns :: "('s, Run list) op"
  r_MarkWebhookSeen :: "time \<Rightarrow> WebhookReceipt \<Rightarrow> ('s, bool) op"
  r_ProcessStripeWebhook :: "time \<Rightarrow> string \<Rightarrow> ('s, WebhookProcessingResult) op"
  r_SaveStripeConnection :: "StripeConnection \<Rightarrow> ('s, StripeConnection) op"
  r_StripeConnection :: "string \<Rightarrow> ('s, StripeConnection \<times> bool) op"
  r_ClaimOutbox :: "time \<Rightarrow> string \<Rightarrow> duration \<Rightarrow> string list \<Rightarrow> ('s, OutboxMessage \<times> bool) op"
  r_HeartbeatOutbox :: "time \<Rightarrow> string \<Rightarrow> string \<Rightarrow> duration \<Rightarrow> ('s, bool) op"
  r_CompleteOutbox :: "string \<Rightarrow> string \<Rightarrow> ('s, unit) op"
  r_RetryOutbox :: "time \<Rightarrow> string \<Rightarrow> string \<Rightarrow> duration \<Rightarrow> string \<Rightarrow> ('s, unit) op"
  r_FailOutbox :: "string \<Rightarrow> string \<Rightarrow> string \<Rightarrow> ('s, unit) op"
  r_RecordVerification :: "VerificationEvidence \<Rightarrow> ('s, unit) op"
  r_ApplyReferenceMerchantEffect :: "string \<Rightarrow> int \<Rightarrow> ('s, bool) op"
  r_Tenant :: "'s TenantRepository option"
  r_Public :: "'s PublicRepository option"

end
