(* ===== verification/Timeline.thy ===== *)
theory Timeline
  imports EngineTypes
begin

text \<open>
  The deterministic run builder: the seeded scenarios (\<^verbatim>\<open>scenarios.go\<close>), the event timeline and
  report of a run under each fault (\<^verbatim>\<open>timeline.go\<close>) and \<^verbatim>\<open>buildRunBundle\<close> with its helpers
  (\<^verbatim>\<open>service.go\<close>).  A slice expression \<^verbatim>\<open>id[4:]\<close> panics on a shorter string: the functions
  that use it return \<^verbatim>\<open>None\<close> for the panic.
\<close>

subsection \<open>Scenarios\<close>

definition seededScenarios :: "Scenario list" where
  "seededScenarios =
     [\<lparr>scn_ID = ''checkout-duplicate'', scn_Name = ''Duplicate checkout submission'',
       scn_Description = ''Proves repeated customer submissions produce one PaymentIntent and one merchant order.'',
       scn_Category = ''idempotency'', scn_DurationMS = 4200,
       scn_SupportedFaults = [FaultNone, FaultDuplicate],
       scn_Assertions = [''one Stripe object'', ''one merchant order'', ''stable response replay''],
       scn_Difficulty = ''essential'', scn_Recommended = True, scn_EstimatedEventCount = 8\<rparr>,
      \<lparr>scn_ID = ''webhook-disorder'', scn_Name = ''Out-of-order webhooks'',
       scn_Description = ''Delivers lifecycle events in reverse order and verifies current-state convergence.'',
       scn_Category = ''webhooks'', scn_DurationMS = 5800,
       scn_SupportedFaults = [FaultNone, FaultReorder, FaultTamper],
       scn_Assertions = [''signature verified'', ''delivery order independent'', ''state converged''],
       scn_Difficulty = ''advanced'', scn_Recommended = True, scn_EstimatedEventCount = 9\<rparr>,
      \<lparr>scn_ID = ''endpoint-recovery'', scn_Name = ''Endpoint outage and recovery'',
       scn_Description = ''Injects a temporary timeout, observes retry behavior, and proves exactly-once business effects.'',
       scn_Category = ''resilience'', scn_DurationMS = 7200,
       scn_SupportedFaults = [FaultNone, FaultTimeout],
       scn_Assertions = [''fast acknowledgement'', ''retry recovered'', ''no event loss''],
       scn_Difficulty = ''advanced'', scn_Recommended = False, scn_EstimatedEventCount = 10\<rparr>,
      \<lparr>scn_ID = ''subscription-renewal'', scn_Name = ''Subscription renewal recovery'',
       scn_Description = ''Advances a test clock through renewal failure and successful payment recovery.'',
       scn_Category = ''subscriptions'', scn_DurationMS = 8600,
       scn_SupportedFaults = [FaultNone, FaultReorder, FaultTimeout],
       scn_Assertions = [''entitlement state correct'', ''invoice reconciled'', ''recovery communicated''],
       scn_Difficulty = ''advanced'', scn_Recommended = False, scn_EstimatedEventCount = 12\<rparr>,
      \<lparr>scn_ID = ''refund-convergence'', scn_Name = ''Partial refund convergence'',
       scn_Description = ''Compares Stripe, webhook-derived, and merchant refund state down to integer minor units.'',
       scn_Category = ''reconciliation'', scn_DurationMS = 6100,
       scn_SupportedFaults = [FaultNone, FaultDuplicate, FaultReorder],
       scn_Assertions = [''minor units exact'', ''refund idempotent'', ''three-way state balanced''],
       scn_Difficulty = ''intermediate'', scn_Recommended = False, scn_EstimatedEventCount = 9\<rparr>]"

subsection \<open>The timeline\<close>

text \<open>The fields of \<^verbatim>\<open>eventSeed\<close> in the order of the struct.\<close>

datatype eventSeed =
  EventSeed (seed_offset: int) (seed_source: string) (seed_target: string)
    (seed_typeName: string) (seed_title: string) (seed_detail: string)
    (seed_status: EventStatus) (seed_latency: int) (seed_checkpoint: string)
    (seed_duplicate: bool)

definition base_seeds :: "eventSeed list" where
  "base_seeds =
     [EventSeed 0 ''browser'' ''merchant-api'' ''checkout.submitted''
       ''Checkout submitted''
       ''The customer confirms a sandbox payment.''
       EventHealthy 34 ''request'' False,
      EventSeed 420 ''merchant-api'' ''stripe'' ''payment_intent.created''
       ''PaymentIntent created''
       ''Stripe accepted the idempotent create request.''
       EventHealthy 118 ''stripe-object'' False,
      EventSeed 980 ''stripe'' ''customer'' ''payment_intent.succeeded''
       ''Payment confirmed''
       ''The sandbox payment reached a terminal success state.''
       EventHealthy 146 ''payment'' False,
      EventSeed 1460 ''stripe'' ''webhook-ingress'' ''webhook.delivered''
       ''Webhook delivered''
       ''The signature is verified against the untouched request body.''
       EventHealthy 82 ''signature'' False,
      EventSeed 1840 ''webhook-ingress'' ''outbox'' ''event.persisted''
       ''Event persisted''
       ''Raw metadata and the transactional outbox record commit together.''
       EventHealthy 24 ''durability'' False]"

definition fault_seeds :: "Fault \<Rightarrow> eventSeed list" where
  "fault_seeds fault =
     (if fault = FaultDuplicate then
     [EventSeed 2260 ''stripe'' ''webhook-ingress'' ''webhook.duplicate''
       ''Duplicate delivery detected''
       ''The event identifier already exists; no second business effect is created.''
       EventDiverged 76 ''deduplication'' True,
      EventSeed 2680 ''webhook-ingress'' ''worker'' ''duplicate.suppressed''
       ''Duplicate suppressed''
       ''The consumer checkpoint advances without replaying the order mutation.''
       EventRecovered 31 ''deduplication'' True]
      else if fault = FaultReorder then
     [EventSeed 2260 ''stripe'' ''worker'' ''webhook.reordered''
       ''Older event arrived late''
       ''An earlier lifecycle snapshot arrives after the terminal event.''
       EventDiverged 92 ''ordering'' False,
      EventSeed 2840 ''worker'' ''stripe'' ''state.hydrated''
       ''Current state hydrated''
       ''The worker fetches the current Stripe object instead of trusting delivery order.''
       EventRecovered 134 ''ordering'' False]
      else if fault = FaultTimeout then
     [EventSeed 2260 ''stripe'' ''webhook-ingress'' ''endpoint.timeout''
       ''Endpoint timed out''
       ''The first delivery exceeds the injected response deadline.''
       EventDiverged 500 ''delivery'' False,
      EventSeed 3260 ''stripe'' ''webhook-ingress'' ''webhook.retried''
       ''Delivery retried''
       ''The retry enters the same durable idempotent pipeline.''
       EventRecovered 88 ''delivery'' False]
      else if fault = FaultTamper then
     [EventSeed 2260 ''stripe'' ''webhook-ingress'' ''signature.invalid''
       ''Tampered payload blocked''
       ''The computed signature does not match the signed payload.''
       EventBlocked 12 ''signature'' False]
      else [])"

definition closing_seeds :: "eventSeed list" where
  "closing_seeds =
     [EventSeed 3720 ''worker'' ''merchant-db'' ''order.reconciled''
       ''Merchant state reconciled''
       ''Stripe, webhook-derived, and merchant state agree.''
       EventRecovered 43 ''convergence'' False,
      EventSeed 4200 ''grader'' ''report'' ''run.completed''
       ''All invariants verified''
       ''Deterministic assertions produce a passing report.''
       EventHealthy 19 ''verdict'' False]"

definition timeline_seeds :: "Fault \<Rightarrow> eventSeed list" where
  "timeline_seeds fault =
     base_seeds @ fault_seeds fault @ (if fault \<noteq> FaultTamper then closing_seeds else [])"

text \<open>\<^verbatim>\<open>s[4:]\<close>.\<close>

definition slice4 :: "string \<Rightarrow> string option" where
  "slice4 s = (if length s < 4 then None else Some (drop 4 s))"

definition seed_event :: "string \<Rightarrow> string \<Rightarrow> time \<Rightarrow> nat \<times> eventSeed \<Rightarrow> Event" where
  "seed_event run suffix started = (\<lambda>(i, seed).
     \<lparr>ev_ID = ''evt_'' @ suffix @ ''_'' @ fmt_0d 2 (int i + 1), ev_RunID = run,
      ev_Sequence = int i + 1, ev_At = started + int64 (seed_offset seed * Millisecond),
      ev_Source = seed_source seed, ev_Target = seed_target seed, ev_Type = seed_typeName seed,
      ev_Title = seed_title seed, ev_Detail = seed_detail seed, ev_Status = seed_status seed,
      ev_LatencyMS = seed_latency seed, ev_Checkpoint = seed_checkpoint seed,
      ev_TraceID = ''trace_'' @ suffix,
      ev_Evidence = [''attempt'' \<mapsto> AnyInt 1, ''livemode'' \<mapsto> AnyBool False,
        ''api_version'' \<mapsto> AnyString ''2026-06-30.basil'', ''payload_saved'' \<mapsto> AnyBool False],
      ev_IsDuplicate = seed_duplicate seed\<rparr>)"

definition buildEvents :: "string \<Rightarrow> Fault \<Rightarrow> time \<Rightarrow> Event list option" where
  "buildEvents run fault started =
     (case slice4 run of
        None \<Rightarrow> None
      | Some suffix \<Rightarrow>
          Some (map (seed_event run suffix started) (List.enumerate 0 (timeline_seeds fault))))"

subsection \<open>The report\<close>

definition stateForFault :: "Fault \<Rightarrow> string" where
  "stateForFault fault = (if fault = FaultTamper then ''unchanged'' else ''succeeded'')"

definition findingTitle :: "Fault \<Rightarrow> string" where
  "findingTitle fault =
     (if fault = FaultDuplicate then ''Duplicate delivery safely suppressed''
      else if fault = FaultReorder then ''Out-of-order event reconciled''
      else if fault = FaultTimeout then ''Endpoint recovered on retry''
      else if fault = FaultTamper then ''Tampered payload rejected''
      else ''Injected condition observed'')"

definition findingCheckpoint :: "Fault \<Rightarrow> string" where
  "findingCheckpoint fault =
     (if fault = FaultDuplicate then ''deduplication''
      else if fault = FaultReorder then ''ordering''
      else if fault = FaultTimeout then ''delivery''
      else if fault = FaultTamper then ''signature''
      else ''verdict'')"

definition report_assertions :: "Run \<Rightarrow> Fault \<Rightarrow> Assertion list" where
  "report_assertions run fault =
     (let tamper = (fault = FaultTamper) in
      [\<lparr>as_ID = ''assert_stripe_state'', as_Name = ''Stripe state reached terminal success'',
        as_Passed = \<not> tamper, as_Expected = ''succeeded'',
        as_Observed = if tamper then ''blocked before processing'' else ''succeeded'',
        as_Evidence = run_StripeObjectID run\<rparr>,
       \<lparr>as_ID = ''assert_single_effect'', as_Name = ''Exactly one merchant business effect'',
        as_Passed = True, as_Expected = ''1 order'', as_Observed = ''1 order'',
        as_Evidence = run_MerchantOrderID run\<rparr>,
       \<lparr>as_ID = ''assert_convergence'', as_Name = ''All state projections converge'',
        as_Passed = \<not> tamper, as_Expected = ''balanced'',
        as_Observed = if tamper then ''not evaluated'' else ''balanced'',
        as_Evidence = ''stripe = webhook = merchant''\<rparr>])"

definition report_findings :: "string \<Rightarrow> Fault \<Rightarrow> Finding list option" where
  "report_findings run fault =
     (if fault = FaultNone then Some []
      else case slice4 run of
        None \<Rightarrow> None
      | Some suffix \<Rightarrow>
          (let finding =
             \<lparr>fd_ID = ''finding_'' @ suffix, fd_Severity = ''info'', fd_Title = findingTitle fault,
              fd_Summary = ''ParityLab observed the injected fault and captured the recovery evidence.'',
              fd_Cause = ''A deterministic sandbox fault was inserted at the '' @
                findingCheckpoint fault @ '' checkpoint.'',
              fd_Remediation = ''No action required. Keep the demonstrated invariant covered in continuous verification.'',
              fd_Checkpoint = findingCheckpoint fault, fd_Resolved = fault \<noteq> FaultTamper\<rparr>
           in Some [if fault = FaultTamper
                    then finding\<lparr>fd_Severity := ''critical'',
                      fd_Summary := ''The signature invariant prevented an untrusted payload from entering the event pipeline.'',
                      fd_Remediation := ''Rotate any exposed webhook secret and preserve raw-body signature verification.''\<rparr>
                    else finding]))"

definition buildReport :: "Run \<Rightarrow> Fault \<Rightarrow> Report option" where
  "buildReport run fault =
     (case report_findings (run_ID run) fault of
        None \<Rightarrow> None
      | Some findings \<Rightarrow>
          (let assertions = report_assertions run fault
           in Some \<lparr>rp_Run = run,
              rp_Summary = assertion_summary ''deterministic'' assertions,
              rp_Verdict = if fault = FaultTamper
                then ''The tampered request was blocked. Downstream convergence was intentionally not evaluated.''
                else ''Integration survived the injected condition and converged without data loss.'',
              rp_Assertions = assertions, rp_Findings = findings,
              rp_State = \<lparr>st_Stripe = ''succeeded'', st_Webhook = stateForFault fault,
                st_Merchant = stateForFault fault, st_Balanced = fault \<noteq> FaultTamper\<rparr>,
              rp_Generated = run_CompletedAt run + int64 (20 * Millisecond)\<rparr>))"

subsection \<open>Bundles\<close>

definition demoEpoch :: time where
  "demoEpoch = 1784367000 * Second"

definition scoreForFault :: "Fault \<Rightarrow> int" where
  "scoreForFault fault =
     (if fault = FaultTamper then 72 else if fault = FaultNone then 100 else 96)"

definition findingCount :: "Fault \<Rightarrow> int" where
  "findingCount fault = (if fault = FaultNone then 0 else 1)"

definition runID :: "int \<Rightarrow> string" where
  "runID number = ''run_'' @ fmt_0d 6 number"

definition numberFromRunID :: "string \<Rightarrow> int" where
  "numberFromRunID i = (case Atoi (TrimPrefix i ''run_'') of None \<Rightarrow> 0 | Some v \<Rightarrow> v)"

definition supportsFault :: "Scenario \<Rightarrow> Fault \<Rightarrow> bool" where
  "supportsFault scenario fault \<longleftrightarrow> fault \<in> set (scn_SupportedFaults scenario)"

definition buildRunBundle ::
  "string \<Rightarrow> int \<Rightarrow> Scenario \<Rightarrow> Fault \<Rightarrow> time \<Rightarrow> RunBundle option" where
  "buildRunBundle i number scenario fault started =
     (case buildEvents i fault started of
        None \<Rightarrow> None
      | Some events \<Rightarrow>
          (let duration = Sub (ev_At (last events)) (ev_At (hd events));
               run =
                 \<lparr>run_ID = i, run_ScenarioID = scn_ID scenario, run_ScenarioName = scn_Name scenario,
                  run_Fault = fault,
                  run_Status = if fault = FaultTamper then RunFailed else RunPassed,
                  run_Score = scoreForFault fault, run_StartedAt = started,
                  run_CompletedAt = started + duration, run_DurationMS = Milliseconds duration,
                  run_EventCount = int (length events), run_FindingCount = findingCount fault,
                  run_Recovered = fault \<noteq> FaultTamper, run_Environment = ''sandbox'',
                  run_StripeObjectID = ''pi_demo_'' @ fmt_0d 6 number,
                  run_MerchantOrderID = ''ord_'' @ fmt_0d 6 number\<rparr>
           in case buildReport run fault of
                None \<Rightarrow> None
              | Some report \<Rightarrow>
                  Some \<lparr>rb_Run = run, rb_Events = events, rb_Report = report, rb_OutboxTopic = [],
                        rb_StripeCorrelationID = [], rb_VerificationFault = fault\<rparr>))"

subsection \<open>Run identifiers\<close>

lemma slice4_runID: "slice4 (runID n) = Some (fmt_0d 6 n)"
  by (simp add: slice4_def runID_def)

lemma TrimPrefix_runID [simp]: "TrimPrefix (runID n) ''run_'' = fmt_0d 6 n"
  unfolding runID_def by (rule TrimPrefix_append)

lemma runID_inj: "0 \<le> m \<Longrightarrow> 0 \<le> n \<Longrightarrow> runID m = runID n \<longleftrightarrow> m = n"
  by (simp add: runID_def fmt_0d_inj)

lemma numberFromRunID_runID: "0 \<le> n \<Longrightarrow> n < 2 ^ 63 \<Longrightarrow> numberFromRunID (runID n) = n"
  by (simp add: numberFromRunID_def Atoi_fmt_0d)

text \<open>
  Run identifiers and numbers are inverse: \<^verbatim>\<open>numberFromRunID\<close> reads back the number of every
  identifier \<^verbatim>\<open>runID\<close> prints, so two numbers never share an identifier, and a string that is
  not such an identifier gives 0.
\<close>

theorem run_id_roundtrip:
  assumes "0 \<le> n" and "n < 2 ^ 63" and "0 \<le> m" and "Atoi (TrimPrefix s ''run_'') = None"
  shows "numberFromRunID (runID n) = n \<and> (runID m = runID n \<longleftrightarrow> m = n) \<and> numberFromRunID s = 0"
  using assms by (simp add: numberFromRunID_runID runID_inj) (simp add: numberFromRunID_def)

theorem run_id_roundtrip_witness:
  "numberFromRunID (runID 42) = 42 \<and> runID 41 \<noteq> runID 42 \<and> numberFromRunID ''run_x'' = 0"
proof -
  have "Atoi (TrimPrefix ''run_x'' ''run_'') = None"
    by code_simp
  then show ?thesis
    using run_id_roundtrip [of 42 41 "''run_x''"] by simp
qed

subsection \<open>Timelines are ordered evidence\<close>

text \<open>The events of a run are numbered from 1 without a gap.\<close>

definition sequenced :: "Event list \<Rightarrow> bool" where
  "sequenced evs \<longleftrightarrow> map ev_Sequence evs = map (\<lambda>i. int i + 1) [0..<length evs]"

lemma sequenced_Nil [simp]: "sequenced []"
  by (simp add: sequenced_def)

lemma sequenced_snoc:
  "sequenced (evs @ [e]) \<longleftrightarrow> sequenced evs \<and> ev_Sequence e = int (length evs) + 1"
  by (auto simp: sequenced_def)

lemma sequenced_nth: "sequenced evs \<Longrightarrow> i < length evs \<Longrightarrow> ev_Sequence (evs ! i) = int i + 1"
  by (metis (no_types, lifting) add.left_neutral diff_zero length_map length_upt nth_map nth_upt
      sequenced_def)

lemma sequenced_bounds:
  "sequenced evs \<Longrightarrow> e \<in> set evs \<Longrightarrow> 1 \<le> ev_Sequence e \<and> ev_Sequence e \<le> int (length evs)"
  by (auto simp: in_set_conv_nth sequenced_nth)

lemma seed_offsets:
  "sorted_wrt (<) (map seed_offset (timeline_seeds fault))"
  "list_all (\<lambda>s. 0 \<le> seed_offset s \<and> seed_offset s \<le> 4200) (timeline_seeds fault)"
  by (simp_all add: timeline_seeds_def base_seeds_def fault_seeds_def closing_seeds_def)

lemma seed_offset_ns:
  "s \<in> set (timeline_seeds fault) \<Longrightarrow>
     int64 (seed_offset s * Millisecond) = seed_offset s * Millisecond"
  using seed_offsets(2) [of fault]
  by (intro int64_id) (auto simp: list_all_iff Millisecond_def min_int64_def max_int64_def)

lemma length_timeline_seeds:
  "length (timeline_seeds fault) =
     (if fault = FaultTamper then 6
      else if fault \<in> {FaultDuplicate, FaultReorder, FaultTimeout} then 9 else 7)"
  by (simp add: timeline_seeds_def base_seeds_def fault_seeds_def closing_seeds_def)

lemma buildEvents_Some:
  assumes "slice4 r = Some suffix"
  shows "buildEvents r fault started =
    Some (map (seed_event r suffix started) (List.enumerate 0 (timeline_seeds fault)))"
  using assms by (simp add: buildEvents_def)

lemma nth_seed_event:
  assumes "i < length (timeline_seeds fault)"
  shows "map (seed_event r suffix started) (List.enumerate 0 (timeline_seeds fault)) ! i =
    seed_event r suffix started (i, timeline_seeds fault ! i)"
  using assms by (simp add: nth_enumerate_eq)

lemma seed_event_fields [simp]:
  "ev_ID (seed_event r suffix started (i, s)) = ''evt_'' @ suffix @ ''_'' @ fmt_0d 2 (int i + 1)"
  "ev_RunID (seed_event r suffix started (i, s)) = r"
  "ev_Sequence (seed_event r suffix started (i, s)) = int i + 1"
  "ev_At (seed_event r suffix started (i, s)) = started + int64 (seed_offset s * Millisecond)"
  "ev_IsDuplicate (seed_event r suffix started (i, s)) = seed_duplicate s"
  "ev_Status (seed_event r suffix started (i, s)) = seed_status s"
  by (simp_all add: seed_event_def)

lemma buildEvents_sequenced:
  assumes "buildEvents r fault started = Some evs"
  shows "sequenced evs" and "length evs = length (timeline_seeds fault)"
proof -
  obtain suffix where
    evs: "evs = map (seed_event r suffix started) (List.enumerate 0 (timeline_seeds fault))"
    using assms by (auto simp: buildEvents_def split: option.splits)
  show len: "length evs = length (timeline_seeds fault)"
    by (simp add: evs)
  show "sequenced evs"
    unfolding sequenced_def
    by (intro nth_equalityI) (simp_all add: len, simp add: evs nth_seed_event nth_enumerate_eq)
qed

text \<open>
  For a run identifier of at least four bytes the timeline is built without a panic under
  any fault: its events belong to the run, are numbered 1 to n without a gap, have distinct
  identifiers and strictly increasing times starting at the run's start, and their number
  is fixed by the fault (6 for tampering, 9 for the recovered faults, 7 otherwise).
\<close>

theorem buildEvents_timeline:
  assumes "4 \<le> length r"
  shows "\<exists>evs. buildEvents r fault started = Some evs \<and> sequenced evs \<and>
     length evs = (if fault = FaultTamper then 6
       else if fault \<in> {FaultDuplicate, FaultReorder, FaultTimeout} then 9 else 7) \<and>
     list_all (\<lambda>e. ev_RunID e = r) evs \<and> distinct (map ev_ID evs) \<and>
     sorted_wrt (<) (map ev_At evs) \<and> ev_At (hd evs) = started"
proof -
  define suffix where "suffix = drop 4 r"
  have s4: "slice4 r = Some suffix"
    using assms by (simp add: slice4_def suffix_def)
  let ?seeds = "timeline_seeds fault"
  let ?evs = "map (seed_event r suffix started) (List.enumerate 0 ?seeds)"
  have ev: "buildEvents r fault started = Some ?evs"
    by (rule buildEvents_Some [OF s4])
  have at: "ev_At (?evs ! i) = started + seed_offset (?seeds ! i) * Millisecond"
    if "i < length ?seeds" for i
    using that seed_offset_ns [OF nth_mem [OF that]] by (simp add: nth_enumerate_eq)
  have "sorted_wrt (<) (map ev_At ?evs)"
    unfolding sorted_wrt_iff_nth_less
  proof (intro allI impI)
    fix i j assume "i < j" and j: "j < length (map ev_At ?evs)"
    then have "seed_offset (?seeds ! i) < seed_offset (?seeds ! j)"
      using seed_offsets(1) [of fault] by (simp add: sorted_wrt_iff_nth_less)
    with \<open>i < j\<close> j at [of i] at [of j] show "map ev_At ?evs ! i < map ev_At ?evs ! j"
      by (simp add: Millisecond_def del: nth_map) (simp add: Millisecond_def)
  qed
  moreover have "distinct (map ev_ID ?evs)"
    by (simp add: distinct_conv_nth nth_enumerate_eq fmt_0d_inj)
  moreover have "list_all (\<lambda>e. ev_RunID e = r) ?evs"
    by (auto simp: list_all_iff)
  moreover have "ev_At (hd ?evs) = started"
    by (simp add: timeline_seeds_def base_seeds_def seed_event_def int64_id min_int64_def max_int64_def)
  ultimately show ?thesis
    using ev buildEvents_sequenced [OF ev] by (simp add: length_timeline_seeds)
qed

theorem buildEvents_timeline_witness:
  "\<exists>evs. buildEvents (runID 7) FaultTamper demoEpoch = Some evs \<and> length evs = 6 \<and> sequenced evs"
  using buildEvents_timeline [of "runID 7" FaultTamper demoEpoch] by (auto simp: runID_def)

subsection \<open>Reports agree with their runs\<close>

lemma report_assertions_passed:
  "passedCount (report_assertions run fault) = (if fault = FaultTamper then 1 else 3)"
  "list_all as_Passed (report_assertions run fault) \<longleftrightarrow> fault \<noteq> FaultTamper"
  "length (report_assertions run fault) = 3"
  by (simp_all add: report_assertions_def Let_def)

lemma report_assertions_not_webhook:
  "\<not> HasAssertion (report_assertions run fault) ''assert_stripe_webhook_correlated''"
  by (simp add: report_assertions_def Let_def)

lemma report_findings_Some:
  assumes "slice4 r = Some suffix"
  shows "\<exists>fs. report_findings r fault = Some fs \<and> int (length fs) = findingCount fault \<and>
    list_all (\<lambda>f. fd_Resolved f = (fault \<noteq> FaultTamper) \<and>
      fd_Severity f = (if fault = FaultTamper then ''critical'' else ''info'')) fs"
  using assms by (simp add: report_findings_def findingCount_def Let_def)

text \<open>What makes a bundle consistent: its run, its timeline and its report tell one story.\<close>

definition bundle_consistent :: "RunBundle \<Rightarrow> bool" where
  "bundle_consistent b \<longleftrightarrow>
     (let run = rb_Run b; evs = rb_Events b; rep = rb_Report b in
      sequenced evs \<and> list_all (\<lambda>e. ev_RunID e = run_ID run) evs \<and>
      run_EventCount run = int (length evs) \<and>
      run_StartedAt run = ev_At (hd evs) \<and> run_CompletedAt run = ev_At (last evs) \<and>
      rp_Run rep = run \<and> run_FindingCount run = int (length (rp_Findings rep)) \<and>
      (run_Status run = RunPassed) = list_all as_Passed (rp_Assertions rep) \<and>
      (run_Status run = RunPassed) = st_Balanced (rp_State rep) \<and>
      (run_Status run = RunPassed \<or> run_Status run = RunFailed) \<and>
      run_Recovered run = st_Balanced (rp_State rep) \<and>
      rp_Verdict rep = (if run_Status run = RunPassed
        then ''Integration survived the injected condition and converged without data loss.''
        else ''The tampered request was blocked. Downstream convergence was intentionally not evaluated.'') \<and>
      rp_Generated rep = run_CompletedAt run + 20 * Millisecond \<and>
      rp_Summary rep = assertion_summary ''deterministic'' (rp_Assertions rep))"

lemma last_offset:
  "seed_offset (last (timeline_seeds fault)) = (if fault = FaultTamper then 2260 else 4200)"
  by (simp add: timeline_seeds_def base_seeds_def fault_seeds_def closing_seeds_def)

lemma timeline_seeds_nonempty [simp]: "timeline_seeds fault \<noteq> []"
  by (simp add: timeline_seeds_def base_seeds_def)

lemma buildEvents_ends:
  assumes "buildEvents r fault started = Some evs"
  shows "evs \<noteq> []" and "ev_At (hd evs) = started"
    and "ev_At (last evs) = started + (if fault = FaultTamper then 2260 else 4200) * Millisecond"
proof -
  obtain suffix where
    evs: "evs = map (seed_event r suffix started) (List.enumerate 0 (timeline_seeds fault))"
    using assms by (auto simp: buildEvents_def split: option.splits)
  let ?n = "length (timeline_seeds fault) - 1"
  have n: "?n < length (timeline_seeds fault)"
    by (simp add: length_timeline_seeds)
  show ne: "evs \<noteq> []"
    using buildEvents_sequenced(2) [OF assms] n by auto
  show "ev_At (hd evs) = started"
    by (simp add: evs timeline_seeds_def base_seeds_def seed_event_def int64_id min_int64_def
        max_int64_def)
  have "last evs = seed_event r suffix started (?n, last (timeline_seeds fault))"
    using ne buildEvents_sequenced(2) [OF assms] nth_seed_event [OF n, of r suffix started]
    by (simp add: last_conv_nth) (simp add: evs)
  then show "ev_At (last evs) = started + (if fault = FaultTamper then 2260 else 4200) * Millisecond"
    using seed_offset_ns [OF last_in_set [OF timeline_seeds_nonempty], of fault]
    by (simp add: last_offset)
qed

lemma buildRunBundle_facts:
  assumes "4 \<le> length i"
  shows "\<exists>b. buildRunBundle i number scenario fault started = Some b \<and> bundle_consistent b \<and>
     run_ID (rb_Run b) = i \<and> run_ScenarioID (rb_Run b) = scn_ID scenario \<and>
     run_StartedAt (rb_Run b) = started \<and> rb_VerificationFault b = fault \<and>
     (run_Status (rb_Run b) = RunPassed \<longleftrightarrow> fault \<noteq> FaultTamper) \<and>
     run_DurationMS (rb_Run b) = (if fault = FaultTamper then 2260 else 4200) \<and>
     run_Score (rb_Run b) =
       (if fault = FaultTamper then 72 else if fault = FaultNone then 100 else 96) \<and>
     passedCount (rp_Assertions (rb_Report b)) = (if fault = FaultTamper then 1 else 3)"
proof -
  obtain suffix where s4: "slice4 i = Some suffix"
    using assms by (auto simp: slice4_def)
  obtain evs where evs: "buildEvents i fault started = Some evs" "sequenced evs"
      "list_all (\<lambda>e. ev_RunID e = i) evs"
    using buildEvents_Some [OF s4, of fault started] buildEvents_sequenced(1)
    by (auto simp: list_all_iff split_paired_all)
  obtain fs where fs: "report_findings i fault = Some fs" "int (length fs) = findingCount fault"
    using report_findings_Some [OF s4] by blast
  let ?ms = "if fault = FaultTamper then 2260 else 4200 :: int"
  have sub: "Sub (ev_At (last evs)) (ev_At (hd evs)) = ?ms * Millisecond"
    by (simp add: buildEvents_ends [OF evs(1)] Sub_def Millisecond_def min_int64_def max_int64_def)
  have ms: "Milliseconds (?ms * Millisecond) = ?ms"
    by (simp add: Milliseconds_def Millisecond_def)
  show ?thesis
    unfolding buildRunBundle_def evs(1) option.case Let_def sub ms
    by (auto simp: buildReport_def fs bundle_consistent_def report_assertions_passed Let_def
        evs(2,3) buildEvents_ends [OF evs(1)] scoreForFault_def int64_def Millisecond_def)
qed

text \<open>
  C28. A bundle is consistent under every fault: the run's status, recovery flag, finding and
  event counts, start and completion time are those its report and timeline show; a run
  passes exactly when all its assertions pass, which is when the fault is not tampering; the
  verdict is the one of a converged integration for a passed run and the one of a blocked
  request otherwise; the report is generated 20 ms after completion; and the score and the
  duration are the fault's.
\<close>

theorem buildRunBundle_consistent:
  assumes "4 \<le> length i"
  shows "\<exists>b. buildRunBundle i number scenario fault started = Some b \<and> bundle_consistent b \<and>
     run_ID (rb_Run b) = i \<and> run_ScenarioID (rb_Run b) = scn_ID scenario \<and>
     run_StartedAt (rb_Run b) = started \<and> rb_VerificationFault b = fault \<and>
     (run_Status (rb_Run b) = RunPassed \<longleftrightarrow> fault \<noteq> FaultTamper) \<and>
     run_DurationMS (rb_Run b) = (if fault = FaultTamper then 2260 else 4200) \<and>
     run_Score (rb_Run b) =
       (if fault = FaultTamper then 72 else if fault = FaultNone then 100 else 96) \<and>
     passedCount (rp_Assertions (rb_Report b)) = (if fault = FaultTamper then 1 else 3)"
  by (rule buildRunBundle_facts [OF assms])

theorem buildRunBundle_consistent_witness:
  "\<exists>b. buildRunBundle (runID 1) 1 (hd seededScenarios) FaultDuplicate demoEpoch = Some b \<and>
     bundle_consistent b \<and> run_DurationMS (rb_Run b) = 4200"
  using buildRunBundle_consistent [of "runID 1" 1 "hd seededScenarios" FaultDuplicate demoEpoch]
  by (auto simp: runID_def)

subsection \<open>The scenario catalogue\<close>

definition all_faults :: "Fault list" where
  "all_faults = [FaultNone, FaultDuplicate, FaultReorder, FaultTimeout, FaultTamper]"

text \<open>
  The catalogue is sound: the scenarios have distinct identifiers, each supports a run
  without a fault, and every fault a scenario supports is one the timeline, the report and
  the verification relay have a case for; only \<^verbatim>\<open>webhook-disorder\<close> supports tampering.
\<close>

theorem scenario_catalogue:
  "distinct (map scn_ID seededScenarios) \<and>
   list_all (\<lambda>s. supportsFault s FaultNone \<and> set (scn_SupportedFaults s) \<subseteq> set all_faults \<and>
     supportsFault s FaultTamper = (scn_ID s = ''webhook-disorder'')) seededScenarios"
  by (simp add: seededScenarios_def supportsFault_def all_faults_def)

end
