(* ===== verification/MemoryState.thy ===== *)
theory MemoryState
  imports Timeline
begin

text \<open>
  The state of the in-memory repository (\<^verbatim>\<open>internal/engine/memory_repository.go\<close>), its
  constructor, and the internal operation that puts a message into the outbox, which both
  the run store and the webhook store call.  Every exported method holds the repository's
  mutex for its whole body, so a method is one atomic function of this state.  Where a
  method reads \<^verbatim>\<open>time.Now()\<close> the model takes the time as an argument \<^verbatim>\<open>now\<close>.
\<close>

record memoryIdempotencyRecord =
  mi_requestHash :: digest
  mi_runID :: string

record memoryOutbox =
  mo_message :: OutboxMessage
  mo_availableAt :: time
  mo_published :: bool
  mo_failed :: bool

record MemoryRepository =
  mr_runs :: "string \<rightharpoonup> Run"
  mr_events :: "string \<rightharpoonup> Event list"
  mr_reports :: "string \<rightharpoonup> Report"
  mr_idempotency :: "digest \<rightharpoonup> memoryIdempotencyRecord"
  mr_tenantIdempotency :: "string \<rightharpoonup> memoryIdempotencyRecord"
  mr_projectByRun :: "string \<rightharpoonup> string"
  mr_correlationByRun :: "string \<rightharpoonup> string"
  mr_projectByConnection :: "string \<rightharpoonup> string"
  mr_webhooks :: "string \<rightharpoonup> WebhookReceipt"
  mr_webhookResults :: "string \<rightharpoonup> WebhookProcessingResult"
  mr_connections :: "string \<rightharpoonup> StripeConnection"
  mr_nextRun :: int
  mr_outbox :: "string \<rightharpoonup> memoryOutbox"
  mr_nextOutbox :: int
  mr_merchantEffects :: "string \<rightharpoonup> int"

definition NewMemoryRepository :: MemoryRepository where
  "NewMemoryRepository =
     \<lparr>mr_runs = Map.empty, mr_events = Map.empty, mr_reports = Map.empty,
      mr_idempotency = Map.empty, mr_tenantIdempotency = Map.empty, mr_projectByRun = Map.empty,
      mr_correlationByRun = Map.empty, mr_projectByConnection = Map.empty,
      mr_webhooks = Map.empty, mr_webhookResults = Map.empty, mr_connections = Map.empty,
      mr_nextRun = 4, mr_outbox = Map.empty, mr_nextOutbox = 1, mr_merchantEffects = Map.empty\<rparr>"

definition outboxID :: "int \<Rightarrow> string" where
  "outboxID n = ''outbox_'' @ fmt_0d 6 n"

lemma outboxID_inj: "0 \<le> m \<Longrightarrow> 0 \<le> n \<Longrightarrow> outboxID m = outboxID n \<longleftrightarrow> m = n"
  by (simp add: outboxID_def fmt_0d_inj)

definition new_outbox_item :: "time \<Rightarrow> string \<Rightarrow> string \<Rightarrow> string \<Rightarrow> RawMessage \<Rightarrow> memoryOutbox" where
  "new_outbox_item now i topic aggregateID payload =
     \<lparr>mo_message = \<lparr>om_ID = i, om_Topic = topic, om_AggregateID = aggregateID,
        om_Payload = payload, om_Attempts = 0, om_LockedBy = [], om_LockedAt = zero_time\<rparr>,
      mo_availableAt = now, mo_published = False, mo_failed = False\<rparr>"

definition putOutboxLocked ::
  "time \<Rightarrow> string \<Rightarrow> string \<Rightarrow> RawMessage \<Rightarrow> MemoryRepository \<Rightarrow> MemoryRepository" where
  "putOutboxLocked now topic aggregateID payload r =
     (let i = outboxID (mr_nextOutbox r)
      in r\<lparr>mr_nextOutbox := mr_nextOutbox r + 1,
           mr_outbox := (mr_outbox r)(i \<mapsto> new_outbox_item now i topic aggregateID payload)\<rparr>)"

definition run_status_string :: "RunStatus \<Rightarrow> string" where
  "run_status_string s =
     (case s of RunStatusZero \<Rightarrow> [] | RunRunning \<Rightarrow> ''running'' | RunPassed \<Rightarrow> ''passed''
      | RunFailed \<Rightarrow> ''failed'')"

definition bundle_payload :: "RunBundle \<Rightarrow> RawMessage" where
  "bundle_payload b = JSONObject
     [''run_id'' \<mapsto> AnyString (run_ID (rb_Run b)),
      ''scenario_id'' \<mapsto> AnyString (run_ScenarioID (rb_Run b)),
      ''status'' \<mapsto> AnyString (run_status_string (run_Status (rb_Run b))),
      ''environment'' \<mapsto> AnyString (run_Environment (rb_Run b)),
      ''verification_fault'' \<mapsto> AnyString (rb_VerificationFault b)]"

definition enqueueLocked :: "time \<Rightarrow> RunBundle \<Rightarrow> MemoryRepository \<Rightarrow> MemoryRepository" where
  "enqueueLocked now b r =
     (let topic = (if rb_OutboxTopic b = [] then ''run.persisted'' else rb_OutboxTopic b)
      in putOutboxLocked now topic (run_ID (rb_Run b)) (bundle_payload b) r)"

text \<open>What putting a message leaves alone.\<close>

lemma putOutboxLocked_fields [simp]:
  "mr_runs (putOutboxLocked now t a p r) = mr_runs r"
  "mr_events (putOutboxLocked now t a p r) = mr_events r"
  "mr_reports (putOutboxLocked now t a p r) = mr_reports r"
  "mr_idempotency (putOutboxLocked now t a p r) = mr_idempotency r"
  "mr_tenantIdempotency (putOutboxLocked now t a p r) = mr_tenantIdempotency r"
  "mr_projectByRun (putOutboxLocked now t a p r) = mr_projectByRun r"
  "mr_correlationByRun (putOutboxLocked now t a p r) = mr_correlationByRun r"
  "mr_projectByConnection (putOutboxLocked now t a p r) = mr_projectByConnection r"
  "mr_webhooks (putOutboxLocked now t a p r) = mr_webhooks r"
  "mr_webhookResults (putOutboxLocked now t a p r) = mr_webhookResults r"
  "mr_connections (putOutboxLocked now t a p r) = mr_connections r"
  "mr_nextRun (putOutboxLocked now t a p r) = mr_nextRun r"
  "mr_nextOutbox (putOutboxLocked now t a p r) = mr_nextOutbox r + 1"
  "mr_merchantEffects (putOutboxLocked now t a p r) = mr_merchantEffects r"
  by (simp_all add: putOutboxLocked_def Let_def)

lemma enqueueLocked_put:
  "enqueueLocked now b r =
     putOutboxLocked now (if rb_OutboxTopic b = [] then ''run.persisted'' else rb_OutboxTopic b)
       (run_ID (rb_Run b)) (bundle_payload b) r"
  by (simp add: enqueueLocked_def Let_def)

lemma new_outbox_item_fields [simp]:
  "om_ID (mo_message (new_outbox_item now i t a p)) = i"
  "om_Topic (mo_message (new_outbox_item now i t a p)) = t"
  "om_AggregateID (mo_message (new_outbox_item now i t a p)) = a"
  "om_Payload (mo_message (new_outbox_item now i t a p)) = p"
  "om_Attempts (mo_message (new_outbox_item now i t a p)) = 0"
  "om_LockedBy (mo_message (new_outbox_item now i t a p)) = []"
  "mo_published (new_outbox_item now i t a p) = False"
  "mo_failed (new_outbox_item now i t a p) = False"
  "mo_availableAt (new_outbox_item now i t a p) = now"
  by (simp_all add: new_outbox_item_def)

end
