(* ===== verification/MemoryOutbox.thy ===== *)
theory MemoryOutbox
  imports MemoryState
begin

text \<open>
  The outbox of the in-memory repository: claiming with a lease, heartbeats, completion,
  retry and failure.  The operations are composed into a step relation for the actions of
  any number of workers at non-decreasing times, over which the lease protocol is proved:
  first in line first served, a running lease excludes other owners, a settled message stays
  settled, and the attempts counter counts the claims.
\<close>

subsection \<open>Operations\<close>

definition zero_memoryOutbox :: memoryOutbox where
  "zero_memoryOutbox = \<lparr>mo_message = zero_OutboxMessage, mo_availableAt = zero_time,
     mo_published = False, mo_failed = False\<rparr>"

fun containsTopic :: "string list \<Rightarrow> string \<Rightarrow> bool" where
  "containsTopic [] candidate \<longleftrightarrow> False"
| "containsTopic (topic # topics) candidate \<longleftrightarrow>
     (if topic = candidate then True else containsTopic topics candidate)"

lemma containsTopic_iff: "containsTopic topics c \<longleftrightarrow> c \<in> set topics"
  by (induction topics) auto

text \<open>The loop of \<^verbatim>\<open>ClaimOutbox\<close> over the sorted identifiers.\<close>

fun claim_scan ::
  "time \<Rightarrow> string \<Rightarrow> duration \<Rightarrow> string list \<Rightarrow> string list \<Rightarrow> MemoryRepository \<Rightarrow>
   MemoryRepository \<times> (goerr + OutboxMessage \<times> bool)" where
  "claim_scan now owner lease topics [] r = (r, Inr (zero_OutboxMessage, False))"
| "claim_scan now owner lease topics (i # is) r =
     (let item = get0 zero_memoryOutbox (mr_outbox r) i; m = mo_message item
      in if \<not> containsTopic topics (om_Topic m) then claim_scan now owner lease topics is r
         else
           (let expired = om_LockedBy m \<noteq> [] \<and> Before (om_LockedAt m + lease) now
            in if mo_published item \<or> mo_failed item \<or> After (mo_availableAt item) now \<or>
                 (om_LockedBy m \<noteq> [] \<and> \<not> expired)
               then claim_scan now owner lease topics is r
               else
                 (let m' = m\<lparr>om_LockedBy := owner, om_LockedAt := now,
                             om_Attempts := om_Attempts m + 1\<rparr>
                  in (r\<lparr>mr_outbox := (mr_outbox r)(i \<mapsto> item\<lparr>mo_message := m'\<rparr>)\<rparr>,
                      Inr (m', True)))))"

definition ClaimOutbox ::
  "string list \<Rightarrow> time \<Rightarrow> string \<Rightarrow> duration \<Rightarrow> string list \<Rightarrow> MemoryRepository \<Rightarrow>
   MemoryRepository \<times> (goerr + OutboxMessage \<times> bool)" where
  "ClaimOutbox ids now owner lease topics r = claim_scan now owner lease topics (sort ids) r"

definition HeartbeatOutbox ::
  "time \<Rightarrow> string \<Rightarrow> string \<Rightarrow> duration \<Rightarrow> MemoryRepository \<Rightarrow> MemoryRepository \<times> (goerr + bool)" where
  "HeartbeatOutbox now i owner lease r =
     (case mr_outbox r i of
        None \<Rightarrow> (r, Inr False)
      | Some item \<Rightarrow>
          if mo_published item \<or> mo_failed item \<or> om_LockedBy (mo_message item) \<noteq> owner
          then (r, Inr False)
          else (r\<lparr>mr_outbox := (mr_outbox r)
                   (i \<mapsto> item\<lparr>mo_message := (mo_message item)\<lparr>om_LockedAt := now\<rparr>\<rparr>)\<rparr>, Inr True))"

definition CompleteOutbox ::
  "string \<Rightarrow> string \<Rightarrow> MemoryRepository \<Rightarrow> MemoryRepository \<times> (goerr + unit)" where
  "CompleteOutbox i owner r =
     (case mr_outbox r i of
        None \<Rightarrow> (r, Inl (ErrNew ''outbox lease lost''))
      | Some item \<Rightarrow>
          if om_LockedBy (mo_message item) \<noteq> owner then (r, Inl (ErrNew ''outbox lease lost''))
          else (r\<lparr>mr_outbox := (mr_outbox r)
                   (i \<mapsto> item\<lparr>mo_published := True,
                       mo_message := (mo_message item)\<lparr>om_LockedBy := []\<rparr>\<rparr>)\<rparr>, Inr ()))"

definition RetryOutbox ::
  "time \<Rightarrow> string \<Rightarrow> string \<Rightarrow> duration \<Rightarrow> string \<Rightarrow> MemoryRepository \<Rightarrow>
   MemoryRepository \<times> (goerr + unit)" where
  "RetryOutbox now i owner delay code r =
     (case mr_outbox r i of
        None \<Rightarrow> (r, Inl (ErrNew ''outbox lease lost''))
      | Some item \<Rightarrow>
          if om_LockedBy (mo_message item) \<noteq> owner then (r, Inl (ErrNew ''outbox lease lost''))
          else (r\<lparr>mr_outbox := (mr_outbox r)
                   (i \<mapsto> item\<lparr>mo_message := (mo_message item)\<lparr>om_LockedBy := [],
                         om_LockedAt := zero_time\<rparr>,
                       mo_availableAt := now + delay\<rparr>)\<rparr>, Inr ()))"

definition FailOutbox ::
  "string \<Rightarrow> string \<Rightarrow> string \<Rightarrow> MemoryRepository \<Rightarrow> MemoryRepository \<times> (goerr + unit)" where
  "FailOutbox i owner code r =
     (case mr_outbox r i of
        None \<Rightarrow> (r, Inl (ErrNew ''outbox lease lost''))
      | Some item \<Rightarrow>
          if om_LockedBy (mo_message item) \<noteq> owner then (r, Inl (ErrNew ''outbox lease lost''))
          else (r\<lparr>mr_outbox := (mr_outbox r)
                   (i \<mapsto> item\<lparr>mo_failed := True,
                       mo_message := (mo_message item)\<lparr>om_LockedBy := []\<rparr>\<rparr>)\<rparr>, Inr ()))"

subsection \<open>Claiming takes the first message in line\<close>

definition settled :: "memoryOutbox \<Rightarrow> bool" where
  "settled item \<longleftrightarrow> mo_published item \<or> mo_failed item"

definition claimable :: "time \<Rightarrow> duration \<Rightarrow> string list \<Rightarrow> memoryOutbox \<Rightarrow> bool" where
  "claimable now lease topics item \<longleftrightarrow>
     om_Topic (mo_message item) \<in> set topics \<and> \<not> settled item \<and> mo_availableAt item \<le> now \<and>
     (om_LockedBy (mo_message item) = [] \<or> om_LockedAt (mo_message item) + lease < now)"

definition claimed :: "time \<Rightarrow> string \<Rightarrow> memoryOutbox \<Rightarrow> memoryOutbox" where
  "claimed now owner item =
     item\<lparr>mo_message := (mo_message item)\<lparr>om_LockedBy := owner, om_LockedAt := now,
            om_Attempts := om_Attempts (mo_message item) + 1\<rparr>\<rparr>"

definition claim_result ::
  "time \<Rightarrow> string \<Rightarrow> string option \<Rightarrow> MemoryRepository \<Rightarrow>
   MemoryRepository \<times> (goerr + OutboxMessage \<times> bool)" where
  "claim_result now owner choice r =
     (case choice of
        None \<Rightarrow> (r, Inr (zero_OutboxMessage, False))
      | Some i \<Rightarrow>
          (let item = claimed now owner (get0 zero_memoryOutbox (mr_outbox r) i)
           in (r\<lparr>mr_outbox := (mr_outbox r)(i \<mapsto> item)\<rparr>, Inr (mo_message item, True))))"

lemma claim_scan_find:
  "claim_scan now owner lease topics is r =
     claim_result now owner
       (find (\<lambda>i. claimable now lease topics (get0 zero_memoryOutbox (mr_outbox r) i)) is) r"
  by (induction "is")
    (auto simp: claim_result_def claimable_def claimed_def settled_def containsTopic_iff Let_def
      After_def Before_def not_less)

lemma sort_enumerates: "enumerates ks m \<Longrightarrow> sort ks = sorted_list_of_set (dom m)"
  using sorted_list_of_set_sort_remdups [of ks] by (simp add: enumerates_def distinct_remdups_id)

lemma find_sorted_least:
  assumes "sorted is" and "i \<in> set is" and "P i" and "\<And>j. j \<in> set is \<Longrightarrow> j < i \<Longrightarrow> \<not> P j"
  shows "find P is = Some i"
  using assms
proof (induction "is")
  case Nil
  then show ?case by simp
next
  case (Cons x xs)
  show ?case
  proof (cases "P x")
    case True
    then have "\<not> x < i" using Cons.prems(4) by auto
    moreover have "x \<le> i" using Cons.prems(1,2) by auto
    ultimately show ?thesis using True by simp
  next
    case False
    with Cons show ?thesis by auto
  qed
qed

lemma ClaimOutbox_none:
  assumes "enumerates ks (mr_outbox r)"
    and "\<And>i item. mr_outbox r i = Some item \<Longrightarrow> \<not> claimable now lease topics item"
  shows "ClaimOutbox ks now owner lease topics r = (r, Inr (zero_OutboxMessage, False))"
proof -
  have "find (\<lambda>i. claimable now lease topics (get0 zero_memoryOutbox (mr_outbox r) i)) (sort ks) = None"
    using assms by (auto simp: find_None_iff enumerates_def)
  then show ?thesis
    by (simp add: ClaimOutbox_def claim_scan_find claim_result_def)
qed

lemma ClaimOutbox_least:
  assumes "enumerates ks (mr_outbox r)" and "mr_outbox r i = Some item"
    and "claimable now lease topics item"
    and "\<And>j item'. j < i \<Longrightarrow> mr_outbox r j = Some item' \<Longrightarrow> \<not> claimable now lease topics item'"
  shows "ClaimOutbox ks now owner lease topics r =
    (r\<lparr>mr_outbox := (mr_outbox r)(i \<mapsto> claimed now owner item)\<rparr>,
     Inr (mo_message (claimed now owner item), True))"
proof -
  have "find (\<lambda>i. claimable now lease topics (get0 zero_memoryOutbox (mr_outbox r) i)) (sort ks)
      = Some i"
    using assms by (intro find_sorted_least) (auto simp: enumerates_def)
  then show ?thesis
    using assms(2) by (simp add: ClaimOutbox_def claim_scan_find claim_result_def Let_def)
qed

lemma ClaimOutbox_cases:
  assumes "enumerates ks (mr_outbox r)"
  obtains (none) "ClaimOutbox ks now owner lease topics r = (r, Inr (zero_OutboxMessage, False))"
      "\<And>i item. mr_outbox r i = Some item \<Longrightarrow> \<not> claimable now lease topics item"
  | (some) i item where "mr_outbox r i = Some item" "claimable now lease topics item"
      "\<And>j item'. j < i \<Longrightarrow> mr_outbox r j = Some item' \<Longrightarrow> \<not> claimable now lease topics item'"
      "ClaimOutbox ks now owner lease topics r =
        (r\<lparr>mr_outbox := (mr_outbox r)(i \<mapsto> claimed now owner item)\<rparr>,
         Inr (mo_message (claimed now owner item), True))"
proof (cases "\<exists>i item. mr_outbox r i = Some item \<and> claimable now lease topics item")
  case False
  then show ?thesis
    using none ClaimOutbox_none [OF assms] by blast
next
  case True
  let ?S = "{i. \<exists>item. mr_outbox r i = Some item \<and> claimable now lease topics item}"
  have "?S \<subseteq> set ks" using assms by (auto simp: enumerates_def)
  then have "finite ?S" by (rule finite_subset) simp
  moreover have "?S \<noteq> {}" using True by auto
  ultimately have "Min ?S \<in> ?S" and least: "\<And>j. j \<in> ?S \<Longrightarrow> Min ?S \<le> j"
    using Min_in [of ?S] Min_le [of ?S] by blast+
  then obtain item where *: "mr_outbox r (Min ?S) = Some item" "claimable now lease topics item"
    by blast
  have **: "\<not> claimable now lease topics item'" if "j < Min ?S" "mr_outbox r j = Some item'" for j item'
    using that least [of j] by (auto simp: not_le [symmetric])
  have "ClaimOutbox ks now owner lease topics r =
      (r\<lparr>mr_outbox := (mr_outbox r)(Min ?S \<mapsto> claimed now owner item)\<rparr>,
       Inr (mo_message (claimed now owner item), True))"
    using ** by (intro ClaimOutbox_least [OF assms *])
  with some [OF *] ** show ?thesis by blast
qed

subsection \<open>The lease protocol\<close>

text \<open>
  The actions of the producers and of any number of workers, with their answers.  An owner
  is never the empty string: the worker's constructor replaces it.
\<close>

datatype outbox_action =
    Put string string RawMessage
  | Claim string duration "string list"
  | Heartbeat string string duration
  | Complete string string
  | Retry string string duration string
  | FailJob string string string

datatype outbox_answer =
    Queued string
  | Claimed OutboxMessage
  | NothingToClaim
  | Alive bool
  | Done
  | LeaseLost

fun lease_answer :: "goerr + unit \<Rightarrow> outbox_answer" where
  "lease_answer (Inl e) = LeaseLost"
| "lease_answer (Inr u) = Done"

fun alive_answer :: "goerr + bool \<Rightarrow> outbox_answer" where
  "alive_answer (Inl e) = LeaseLost"
| "alive_answer (Inr b) = Alive b"

fun claim_answer :: "goerr + OutboxMessage \<times> bool \<Rightarrow> outbox_answer" where
  "claim_answer (Inr (m, True)) = Claimed m"
| "claim_answer _ = NothingToClaim"

inductive outbox_step ::
  "MemoryRepository \<Rightarrow> time \<Rightarrow> outbox_action \<Rightarrow> outbox_answer \<Rightarrow> MemoryRepository \<Rightarrow> bool" where
  step_put:
    "outbox_step r now (Put t a p) (Queued (outboxID (mr_nextOutbox r))) (putOutboxLocked now t a p r)"
| step_claim:
    "enumerates ks (mr_outbox r) \<Longrightarrow> owner \<noteq> [] \<Longrightarrow>
     ClaimOutbox ks now owner lease topics r = (r', x) \<Longrightarrow>
     outbox_step r now (Claim owner lease topics) (claim_answer x) r'"
| step_heartbeat:
    "owner \<noteq> [] \<Longrightarrow> HeartbeatOutbox now i owner lease r = (r', x) \<Longrightarrow>
     outbox_step r now (Heartbeat i owner lease) (alive_answer x) r'"
| step_complete:
    "owner \<noteq> [] \<Longrightarrow> CompleteOutbox i owner r = (r', x) \<Longrightarrow>
     outbox_step r now (Complete i owner) (lease_answer x) r'"
| step_retry:
    "owner \<noteq> [] \<Longrightarrow> RetryOutbox now i owner delay code r = (r', x) \<Longrightarrow>
     outbox_step r now (Retry i owner delay code) (lease_answer x) r'"
| step_fail:
    "owner \<noteq> [] \<Longrightarrow> FailOutbox i owner code r = (r', x) \<Longrightarrow>
     outbox_step r now (FailJob i owner code) (lease_answer x) r'"

text \<open>A history is a sequence of steps; its log lists each action with its answer.\<close>

type_synonym outbox_log = "(time \<times> outbox_action \<times> outbox_answer) list"

inductive outbox_history :: "MemoryRepository \<Rightarrow> outbox_log \<Rightarrow> MemoryRepository \<Rightarrow> bool" where
  history_start: "outbox_history r [] r"
| history_step:
    "outbox_history r log r1 \<Longrightarrow> outbox_step r1 now act ans r2 \<Longrightarrow>
     outbox_history r (log @ [(now, act, ans)]) r2"

text \<open>
  What holds of every stored message: it sits under its own identifier, which a counter
  below the next one printed; it is unlocked once settled, is settled in one way only, and
  a locked message has been claimed.
\<close>

definition item_ok :: "string \<Rightarrow> memoryOutbox \<Rightarrow> bool" where
  "item_ok i item \<longleftrightarrow>
     om_ID (mo_message item) = i \<and> (settled item \<longrightarrow> om_LockedBy (mo_message item) = []) \<and>
     \<not> (mo_published item \<and> mo_failed item) \<and> 0 \<le> om_Attempts (mo_message item) \<and>
     (om_LockedBy (mo_message item) \<noteq> [] \<longrightarrow> 1 \<le> om_Attempts (mo_message item))"

definition outbox_ok :: "MemoryRepository \<Rightarrow> bool" where
  "outbox_ok r \<longleftrightarrow> 1 \<le> mr_nextOutbox r \<and>
     dom (mr_outbox r) = {outboxID n | n. 1 \<le> n \<and> n < mr_nextOutbox r} \<and>
     (\<forall>i item. mr_outbox r i = Some item \<longrightarrow> item_ok i item)"

lemma outbox_okD: "outbox_ok r \<Longrightarrow> mr_outbox r i = Some item \<Longrightarrow> item_ok i item"
  by (simp add: outbox_ok_def)

lemma outbox_ok_fresh: "outbox_ok r \<Longrightarrow> mr_outbox r (outboxID (mr_nextOutbox r)) = None"
proof -
  assume ok: "outbox_ok r"
  then have "1 \<le> mr_nextOutbox r" by (simp add: outbox_ok_def)
  then have "outboxID (mr_nextOutbox r) \<notin> {outboxID n | n. 1 \<le> n \<and> n < mr_nextOutbox r}"
    by (auto simp: outboxID_inj)
  with ok show ?thesis by (auto simp: outbox_ok_def)
qed

lemma outbox_ok_new: "outbox_ok NewMemoryRepository"
  by (simp add: outbox_ok_def NewMemoryRepository_def)

lemma outbox_ok_cong:
  "mr_outbox r' = mr_outbox r \<Longrightarrow> mr_nextOutbox r' = mr_nextOutbox r \<Longrightarrow> outbox_ok r' = outbox_ok r"
  by (simp add: outbox_ok_def)

lemma outbox_ok_put:
  assumes "outbox_ok r"
  shows "outbox_ok (putOutboxLocked now t a p r)"
proof -
  have "{outboxID n | n. 1 \<le> n \<and> n < mr_nextOutbox r + 1} =
      insert (outboxID (mr_nextOutbox r)) {outboxID n | n. 1 \<le> n \<and> n < mr_nextOutbox r}"
    using assms by (auto simp: outbox_ok_def order.order_iff_strict)
  moreover have "dom (mr_outbox (putOutboxLocked now t a p r)) =
      insert (outboxID (mr_nextOutbox r)) (dom (mr_outbox r))"
    by (simp add: putOutboxLocked_def Let_def)
  ultimately have "dom (mr_outbox (putOutboxLocked now t a p r)) =
      {outboxID n | n. 1 \<le> n \<and> n < mr_nextOutbox (putOutboxLocked now t a p r)}"
    using assms by (simp add: outbox_ok_def)
  moreover have "item_ok i item" if "mr_outbox (putOutboxLocked now t a p r) i = Some item" for i item
    using that assms
    by (auto simp: outbox_ok_def putOutboxLocked_def Let_def item_ok_def settled_def split: if_splits)
  ultimately show ?thesis
    using assms by (simp add: outbox_ok_def)
qed

text \<open>An update of one present message keeps the invariant if the new message has it.\<close>

lemma outbox_ok_update:
  assumes "outbox_ok r" and "mr_outbox r i = Some item" and "item_ok i item'"
  shows "outbox_ok (r\<lparr>mr_outbox := (mr_outbox r)(i \<mapsto> item')\<rparr>)"
  using assms by (auto simp: outbox_ok_def insert_absorb)

text \<open>Every step puts one message, changes one present message, or changes nothing.\<close>

definition changes_to :: "MemoryRepository \<Rightarrow> time \<Rightarrow> outbox_action \<Rightarrow> string \<Rightarrow> memoryOutbox \<Rightarrow>
    memoryOutbox \<Rightarrow> outbox_answer \<Rightarrow> bool" where
  "changes_to r now act i item item' ans \<longleftrightarrow>
     (case act of
        Claim owner lease topics \<Rightarrow>
          owner \<noteq> [] \<and> claimable now lease topics item \<and> item' = claimed now owner item \<and>
          ans = Claimed (mo_message item')
      | Heartbeat j owner lease \<Rightarrow>
          j = i \<and> owner \<noteq> [] \<and> om_LockedBy (mo_message item) = owner \<and> \<not> settled item \<and>
          item' = item\<lparr>mo_message := (mo_message item)\<lparr>om_LockedAt := now\<rparr>\<rparr> \<and> ans = Alive True
      | Complete j owner \<Rightarrow>
          j = i \<and> owner \<noteq> [] \<and> om_LockedBy (mo_message item) = owner \<and> ans = Done \<and>
          item' = item\<lparr>mo_published := True, mo_message := (mo_message item)\<lparr>om_LockedBy := []\<rparr>\<rparr>
      | Retry j owner delay code \<Rightarrow>
          j = i \<and> owner \<noteq> [] \<and> om_LockedBy (mo_message item) = owner \<and> ans = Done \<and>
          item' = item\<lparr>mo_message := (mo_message item)\<lparr>om_LockedBy := [], om_LockedAt := zero_time\<rparr>,
                       mo_availableAt := now + delay\<rparr>
      | FailJob j owner code \<Rightarrow>
          j = i \<and> owner \<noteq> [] \<and> om_LockedBy (mo_message item) = owner \<and> ans = Done \<and>
          item' = item\<lparr>mo_failed := True, mo_message := (mo_message item)\<lparr>om_LockedBy := []\<rparr>\<rparr>
      | Put t a p \<Rightarrow> False)"

definition idle_answer :: "outbox_answer \<Rightarrow> bool" where
  "idle_answer ans \<longleftrightarrow> ans = NothingToClaim \<or> ans = Alive False \<or> ans = LeaseLost"

lemma outbox_step_cases:
  assumes "outbox_step r now act ans r'"
  obtains (put) t a p where "act = Put t a p" "ans = Queued (outboxID (mr_nextOutbox r))"
      "r' = putOutboxLocked now t a p r"
  | (idle) "r' = r" "idle_answer ans"
  | (change) i item item' where "mr_outbox r i = Some item" "changes_to r now act i item item' ans"
      "r' = r\<lparr>mr_outbox := (mr_outbox r)(i \<mapsto> item')\<rparr>"
  using assms
proof (cases rule: outbox_step.cases)
  case (step_put t a p)
  then show ?thesis using put by blast
next
  case (step_claim ks owner lease topics x)
  from step_claim(3) show ?thesis
  proof (cases rule: ClaimOutbox_cases [where now = now and owner = owner and lease = lease
        and topics = topics])
    case none
    with step_claim idle show ?thesis by (auto simp: idle_answer_def)
  next
    case (some i item)
    with step_claim show ?thesis
      by (intro change [of i item "claimed now owner item"]) (auto simp: changes_to_def)
  qed
next
  case (step_heartbeat owner i lease x)
  then show ?thesis
    using idle change [of i _ _]
    by (auto simp: HeartbeatOutbox_def changes_to_def idle_answer_def settled_def
        split: option.splits if_splits)
next
  case (step_complete owner i x)
  then show ?thesis
    using idle change [of i _ _]
    by (auto simp: CompleteOutbox_def changes_to_def idle_answer_def split: option.splits if_splits)
next
  case (step_retry owner i delay code x)
  then show ?thesis
    using idle change [of i _ _]
    by (auto simp: RetryOutbox_def changes_to_def idle_answer_def split: option.splits if_splits)
next
  case (step_fail owner i code x)
  then show ?thesis
    using idle change [of i _ _]
    by (auto simp: FailOutbox_def changes_to_def idle_answer_def split: option.splits if_splits)
qed

lemma changes_ok: "item_ok i item \<Longrightarrow> changes_to r now act i item item' ans \<Longrightarrow> item_ok i item'"
  by (cases act)
    (auto simp: changes_to_def item_ok_def claimed_def settled_def claimable_def)

lemma outbox_step_ok: "outbox_step r now act ans r' \<Longrightarrow> outbox_ok r \<Longrightarrow> outbox_ok r'"
  by (erule outbox_step_cases)
    (auto intro: outbox_ok_put intro!: outbox_ok_update elim: changes_ok dest: outbox_okD)

lemma outbox_history_ok: "outbox_history r log r' \<Longrightarrow> outbox_ok r \<Longrightarrow> outbox_ok r'"
  by (induction rule: outbox_history.induct) (auto intro: outbox_step_ok)

subsection \<open>Properties of the protocol\<close>

text \<open>
  A claim serves the first message in line.  Whatever order the map is iterated in, the
  repository hands out the unsettled, due and unlocked (or expired) message of a requested
  topic with the least identifier, locks it to the caller and counts the attempt; it hands
  out nothing, and changes nothing, exactly when there is no such message.
\<close>

theorem claim_first_in_line:
  assumes "enumerates ks (mr_outbox r)"
  shows "(\<forall>i item. mr_outbox r i = Some item \<longrightarrow> \<not> claimable now lease topics item) \<and>
      ClaimOutbox ks now owner lease topics r = (r, Inr (zero_OutboxMessage, False)) \<or>
    (\<exists>i item. mr_outbox r i = Some item \<and> claimable now lease topics item \<and>
      (\<forall>j item'. j < i \<longrightarrow> mr_outbox r j = Some item' \<longrightarrow> \<not> claimable now lease topics item') \<and>
      ClaimOutbox ks now owner lease topics r =
        (r\<lparr>mr_outbox := (mr_outbox r)(i \<mapsto> claimed now owner item)\<rparr>,
         Inr (mo_message (claimed now owner item), True)))"
  by (rule ClaimOutbox_cases
      [OF assms, where now = now and lease = lease and topics = topics and owner = owner]) blast+

text \<open>A repository with one queued message, for the witnesses.\<close>

definition one_job :: MemoryRepository where
  "one_job = putOutboxLocked 0 ''run.persisted'' ''run_000004'' Malformed NewMemoryRepository"

lemma one_job_outbox:
  "mr_outbox one_job = [outboxID 1 \<mapsto> new_outbox_item 0 (outboxID 1) ''run.persisted'' ''run_000004'' Malformed]"
  by (simp add: one_job_def putOutboxLocked_def NewMemoryRepository_def Let_def)

lemma outbox_ok_one_job: "outbox_ok one_job"
  by (simp add: one_job_def outbox_ok_put outbox_ok_new)

theorem claim_first_in_line_witness:
  "snd (ClaimOutbox [outboxID 1] 5 ''w'' 10 [''run.persisted''] one_job) \<noteq>
     Inr (zero_OutboxMessage, False)"
proof -
  have en: "enumerates [outboxID 1] (mr_outbox one_job)"
    by (simp add: enumerates_def one_job_outbox)
  have "claimable 5 10 [''run.persisted'']
      (new_outbox_item 0 (outboxID 1) ''run.persisted'' ''run_000004'' Malformed)"
    by (simp add: claimable_def settled_def)
  then show ?thesis
    using claim_first_in_line [OF en, of 5 10 "[''run.persisted'']" "''w''"]
    by (auto simp: one_job_outbox)
qed

text \<open>
  Jobs are served in the order they were queued while the identifiers fit their padding:
  with at most 999999 jobs ever queued, a claim never returns a job while an older one of
  the topics is claimable.
\<close>

theorem claim_fifo:
  assumes "outbox_ok r" and "mr_nextOutbox r \<le> 1000000" and "enumerates ks (mr_outbox r)"
    and "1 \<le> m" and "m < n" and "n < mr_nextOutbox r"
    and "mr_outbox r (outboxID m) = Some older" and "claimable now lease topics older"
    and "ClaimOutbox ks now owner lease topics r = (r', Inr (job, True))"
  shows "om_ID job \<noteq> outboxID n"
proof -
  from assms(3) have "\<exists>i item. mr_outbox r i = Some item \<and> job = mo_message (claimed now owner item) \<and>
      \<not> outboxID m < i"
    using assms(7,8,9)
    by (elim ClaimOutbox_cases [where now = now and lease = lease and topics = topics and owner = owner])
      auto
  then obtain i item where i: "mr_outbox r i = Some item" "job = mo_message (claimed now owner item)"
    "\<not> outboxID m < i" by blast
  then have "om_ID job = i"
    using outbox_okD [OF assms(1)] by (simp add: item_ok_def claimed_def)
  moreover have "outboxID m < outboxID n"
    using assms(2,4,5,6) fmt_0d_less [of m n 6] by (simp add: outboxID_def)
  ultimately show ?thesis
    using i(3) by auto
qed

definition two_jobs :: MemoryRepository where
  "two_jobs = putOutboxLocked 1 ''run.persisted'' ''run_000005'' Malformed one_job"

theorem claim_fifo_witness:
  "om_ID (fst (projr (snd (ClaimOutbox [outboxID 2, outboxID 1] 5 ''w'' 10 [''run.persisted''] two_jobs))))
     \<noteq> outboxID 2"
proof -
  have next1: "mr_nextOutbox one_job = 2" and next2: "mr_nextOutbox two_jobs = 3"
    by (simp_all add: two_jobs_def one_job_def NewMemoryRepository_def)
  have box: "mr_outbox two_jobs = (mr_outbox one_job)(outboxID 2 \<mapsto>
      new_outbox_item 1 (outboxID 2) ''run.persisted'' ''run_000005'' Malformed)"
    using next1 by (simp add: two_jobs_def putOutboxLocked_def Let_def)
  have en: "enumerates [outboxID 2, outboxID 1] (mr_outbox two_jobs)"
    by (auto simp: enumerates_def box one_job_outbox outboxID_inj)
  have cl: "claimable 5 10 [''run.persisted'']
      (new_outbox_item 0 (outboxID 1) ''run.persisted'' ''run_000004'' Malformed)"
    by (simp add: claimable_def settled_def)
  have at: "mr_outbox two_jobs (outboxID 1) =
      Some (new_outbox_item 0 (outboxID 1) ''run.persisted'' ''run_000004'' Malformed)"
    by (simp add: box one_job_outbox outboxID_inj)
  from en show ?thesis
  proof (cases rule: ClaimOutbox_cases [where now = 5 and lease = 10
        and topics = "[''run.persisted'']" and owner = "''w''"])
    case none
    with at cl show ?thesis by blast
  next
    case (some i item)
    have "outbox_ok two_jobs"
      unfolding two_jobs_def by (rule outbox_ok_put [OF outbox_ok_one_job])
    from claim_fifo [OF this _ en _ _ _ at cl some(4), of 2] show ?thesis
      by (simp add: next2 some(4))
  qed
qed

text \<open>Who acts, and whether the action comes before the lease it would break has expired.\<close>

fun actor :: "outbox_action \<Rightarrow> string" where
  "actor (Put t a p) = []"
| "actor (Claim owner lease topics) = owner"
| "actor (Heartbeat i owner lease) = owner"
| "actor (Complete i owner) = owner"
| "actor (Retry i owner delay code) = owner"
| "actor (FailJob i owner code) = owner"

fun lease_running :: "outbox_action \<Rightarrow> time \<Rightarrow> memoryOutbox \<Rightarrow> bool" where
  "lease_running (Claim owner lease topics) now item \<longleftrightarrow>
     now \<le> om_LockedAt (mo_message item) + lease"
| "lease_running act now item \<longleftrightarrow> True"

text \<open>
  A running lease excludes everyone else: as long as the lease on a locked message has
  not expired, no step of the protocol by another owner (claiming, a heartbeat, completing,
  retrying, failing) or by a producer changes that message, and no claim returns it.
\<close>

theorem lease_exclusive:
  assumes "outbox_step r now act ans r'" and "outbox_ok r" and "mr_outbox r i = Some item"
    and "om_LockedBy (mo_message item) \<noteq> []" and "actor act \<noteq> om_LockedBy (mo_message item)"
    and "lease_running act now item"
  shows "mr_outbox r' i = Some item \<and> (\<forall>m. ans = Claimed m \<longrightarrow> om_ID m \<noteq> i)"
proof -
  have fresh: "mr_outbox r (outboxID (mr_nextOutbox r)) = None"
    by (rule outbox_ok_fresh [OF assms(2)])
  from assms(1) show ?thesis
  proof (cases rule: outbox_step_cases)
    case (put t a p)
    with assms(3) fresh show ?thesis
      by (auto simp: putOutboxLocked_def Let_def)
  next
    case idle
    with assms(3) show ?thesis by (auto simp: idle_answer_def)
  next
    case (change k it it')
    then have "item_ok k it" using assms(2) by (blast dest: outbox_okD)
    moreover have "k \<noteq> i"
      using change assms(3-6) by (cases act) (auto simp: changes_to_def claimable_def)
    ultimately show ?thesis
      using change assms(3) by (cases act) (auto simp: changes_to_def claimed_def item_ok_def)
  qed
qed

text \<open>One job claimed by one worker, for the witnesses.\<close>

definition job_claimed :: MemoryRepository where
  "job_claimed = fst (ClaimOutbox [outboxID 1] 5 ''w'' 10 [''run.persisted''] one_job)"

lemma job_claimed_step:
  "\<exists>item. outbox_step one_job 5 (Claim ''w'' 10 [''run.persisted'']) (Claimed (mo_message item)) job_claimed \<and>
     mr_outbox job_claimed (outboxID 1) = Some item \<and> om_LockedBy (mo_message item) = ''w'' \<and>
     om_LockedAt (mo_message item) = 5"
proof -
  have en: "enumerates [outboxID 1] (mr_outbox one_job)"
    by (simp add: enumerates_def one_job_outbox)
  let ?item = "new_outbox_item 0 (outboxID 1) ''run.persisted'' ''run_000004'' Malformed"
  have cl: "claimable 5 10 [''run.persisted''] ?item"
    by (simp add: claimable_def settled_def)
  have eq: "ClaimOutbox [outboxID 1] 5 ''w'' 10 [''run.persisted''] one_job =
      (one_job\<lparr>mr_outbox := (mr_outbox one_job)(outboxID 1 \<mapsto> claimed 5 ''w'' ?item)\<rparr>,
       Inr (mo_message (claimed 5 ''w'' ?item), True))"
    by (rule ClaimOutbox_least [OF en _ cl]) (auto simp: one_job_outbox split: if_splits)
  show ?thesis
    using step_claim [OF en _ eq]
    by (intro exI [of _ "claimed 5 ''w'' ?item"]) (simp add: job_claimed_def eq claimed_def)
qed

lemma outbox_ok_job_claimed: "outbox_ok job_claimed"
  using job_claimed_step outbox_step_ok outbox_ok_one_job by blast

theorem lease_exclusive_witness:
  "\<exists>item r'. outbox_step job_claimed 9 (Complete (outboxID 1) ''thief'') LeaseLost r' \<and>
     mr_outbox r' (outboxID 1) = Some item \<and> om_LockedBy (mo_message item) = ''w''"
proof -
  obtain item where item: "mr_outbox job_claimed (outboxID 1) = Some item"
      "om_LockedBy (mo_message item) = ''w''" "om_LockedAt (mo_message item) = 5"
    using job_claimed_step by blast
  have step: "outbox_step job_claimed 9 (Complete (outboxID 1) ''thief'')
      (lease_answer (Inl (ErrNew ''outbox lease lost''))) job_claimed"
    by (rule step_complete) (simp_all add: CompleteOutbox_def item)
  show ?thesis
    using lease_exclusive [OF step outbox_ok_job_claimed item(1)] step item by auto
qed

text \<open>The log entries that settle a message, and those that hand it out.\<close>

fun settles :: "string \<Rightarrow> time \<times> outbox_action \<times> outbox_answer \<Rightarrow> bool" where
  "settles i (now, Complete j owner, Done) \<longleftrightarrow> j = i"
| "settles i (now, FailJob j owner code, Done) \<longleftrightarrow> j = i"
| "settles i entry \<longleftrightarrow> False"

fun hands_out :: "string \<Rightarrow> time \<times> outbox_action \<times> outbox_answer \<Rightarrow> bool" where
  "hands_out i (now, act, Claimed m) \<longleftrightarrow> om_ID m = i"
| "hands_out i entry \<longleftrightarrow> False"

lemma settles_not_idle [simp]: "idle_answer ans \<Longrightarrow> \<not> settles i (now, act, ans)"
  by (cases act) (auto simp: idle_answer_def)

lemma hands_out_not_idle [simp]: "idle_answer ans \<Longrightarrow> \<not> hands_out i (now, act, ans)"
  by (auto simp: idle_answer_def)

definition attempts_of :: "MemoryRepository \<Rightarrow> string \<Rightarrow> int" where
  "attempts_of r i = (case mr_outbox r i of None \<Rightarrow> 0 | Some item \<Rightarrow> om_Attempts (mo_message item))"

definition settled_in :: "MemoryRepository \<Rightarrow> string \<Rightarrow> bool" where
  "settled_in r i \<longleftrightarrow> (case mr_outbox r i of None \<Rightarrow> False | Some item \<Rightarrow> settled item)"

lemma changes_own:
  assumes "item_ok i item" and "changes_to r now act i item item' ans"
  shows "om_Attempts (mo_message item') =
      om_Attempts (mo_message item) + (if hands_out i (now, act, ans) then 1 else 0)"
    and "\<not> settled item" and "settled item' \<longleftrightarrow> settles i (now, act, ans)"
  using assms
  by (cases act; simp add: changes_to_def claimed_def item_ok_def claimable_def settled_def; fastforce)+

lemma changes_other:
  assumes "item_ok k item" and "changes_to r now act k item item' ans" and "i \<noteq> k"
  shows "\<not> hands_out i (now, act, ans)" and "\<not> settles i (now, act, ans)"
  using assms by (cases act; auto simp: changes_to_def claimed_def item_ok_def)+

text \<open>What one step does to the counters of one message.\<close>

lemma step_counters:
  assumes "outbox_step r now act ans r'" and "outbox_ok r"
  shows "attempts_of r' i = attempts_of r i + (if hands_out i (now, act, ans) then 1 else 0)"
    and "settled_in r' i \<longleftrightarrow> settled_in r i \<or> settles i (now, act, ans)"
    and "settled_in r i \<Longrightarrow> \<not> settles i (now, act, ans) \<and> \<not> hands_out i (now, act, ans) \<and>
           mr_outbox r' i = mr_outbox r i"
proof -
  have fresh: "mr_outbox r (outboxID (mr_nextOutbox r)) = None"
    by (rule outbox_ok_fresh [OF assms(2)])
  have all: "attempts_of r' i = attempts_of r i + (if hands_out i (now, act, ans) then 1 else 0) \<and>
     (settled_in r' i \<longleftrightarrow> settled_in r i \<or> settles i (now, act, ans)) \<and>
     (settled_in r i \<longrightarrow> \<not> settles i (now, act, ans) \<and> \<not> hands_out i (now, act, ans) \<and>
        mr_outbox r' i = mr_outbox r i)"
    using assms(1)
  proof (cases rule: outbox_step_cases)
    case (put t a p)
    with fresh show ?thesis
      by (auto simp: putOutboxLocked_def Let_def attempts_of_def settled_in_def settled_def)
  next
    case idle
    then show ?thesis by simp
  next
    case (change k it it')
    then have ok: "item_ok k it" using assms(2) by (blast dest: outbox_okD)
    have r': "mr_outbox r' k = Some it'" "\<And>j. j \<noteq> k \<Longrightarrow> mr_outbox r' j = mr_outbox r j"
      using change by simp_all
    show ?thesis
      using changes_own [OF ok change(2)] changes_other [OF ok change(2), of i] change(1) r'
      by (cases "k = i") (simp_all add: attempts_of_def settled_in_def)
  qed
  then show "attempts_of r' i = attempts_of r i + (if hands_out i (now, act, ans) then 1 else 0)"
    and "settled_in r' i \<longleftrightarrow> settled_in r i \<or> settles i (now, act, ans)"
    and "settled_in r i \<Longrightarrow> \<not> settles i (now, act, ans) \<and> \<not> hands_out i (now, act, ans) \<and>
           mr_outbox r' i = mr_outbox r i"
    by blast+
qed

lemma history_counters:
  assumes "outbox_history r log r'" and "outbox_ok r"
  shows "attempts_of r' i = attempts_of r i + int (length (filter (hands_out i) log)) \<and>
    (if settled_in r i then filter (settles i) log = [] \<and> filter (hands_out i) log = [] \<and>
        mr_outbox r' i = mr_outbox r i
     else length (filter (settles i) log) = (if settled_in r' i then 1 else 0))"
  using assms
proof (induction rule: outbox_history.induct)
  case (history_start r)
  then show ?case by simp
next
  case (history_step r log r1 now act ans r2)
  then have ok: "outbox_ok r1" by (blast intro: outbox_history_ok)
  have same: "settled_in r1 i = settled_in r i" if "mr_outbox r1 i = mr_outbox r i"
    using that by (simp add: settled_in_def)
  show ?case
    using history_step.IH [OF history_step.prems] same
      step_counters [OF history_step.hyps(2) ok, of i]
    by (auto split: if_splits)
qed

text \<open>
  Settled is final: over any history of puts, claims, heartbeats, completions, retries and
  failures by any workers, a published or failed message is never handed out again, never
  settled a second time, and is left exactly as it was.
\<close>

theorem settled_is_final:
  assumes "outbox_history r log r'" and "outbox_ok r" and "settled_in r i"
  shows "mr_outbox r' i = mr_outbox r i \<and> filter (settles i) log = [] \<and>
    filter (hands_out i) log = []"
  using history_counters [OF assms(1,2), of i] assms(3) by simp

text \<open>
  C20. Exactly-once settlement and an honest attempts counter: over any history that starts with
  an empty repository, each message is successfully completed or failed at most once, and
  exactly once when it ends settled, and its attempts counter is the number of times it was
  handed to a worker.
\<close>

theorem settled_exactly_once:
  assumes "outbox_history NewMemoryRepository log r"
  shows "length (filter (settles i) log) = (if settled_in r i then 1 else 0) \<and>
    attempts_of r i = int (length (filter (hands_out i) log))"
  using history_counters [OF assms outbox_ok_new, of i]
  by (simp_all add: settled_in_def attempts_of_def NewMemoryRepository_def)

text \<open>A history of one job: queued, claimed, completed.\<close>

definition job_done :: MemoryRepository where
  "job_done = fst (CompleteOutbox (outboxID 1) ''w'' job_claimed)"

lemma job_history:
  "\<exists>m. om_ID m = outboxID 1 \<and> settled_in job_done (outboxID 1) \<and> outbox_history NewMemoryRepository
     [(0, Put ''run.persisted'' ''run_000004'' Malformed, Queued (outboxID 1)),
      (5, Claim ''w'' 10 [''run.persisted''], Claimed m),
      (7, Complete (outboxID 1) ''w'', Done)] job_done"
proof -
  have h1: "outbox_history NewMemoryRepository
      [(0, Put ''run.persisted'' ''run_000004'' Malformed, Queued (outboxID 1))] one_job"
    using history_step [OF history_start step_put, of NewMemoryRepository 0 "''run.persisted''" "''run_000004''" Malformed]
    by (simp add: one_job_def [symmetric]) (simp add: NewMemoryRepository_def)
  obtain item where item: "outbox_step one_job 5 (Claim ''w'' 10 [''run.persisted''])
        (Claimed (mo_message item)) job_claimed"
      "mr_outbox job_claimed (outboxID 1) = Some item" "om_LockedBy (mo_message item) = ''w''"
    using job_claimed_step by blast
  have "outbox_step job_claimed 7 (Complete (outboxID 1) ''w'') (lease_answer (Inr ())) job_done"
    by (rule step_complete) (simp_all add: CompleteOutbox_def item job_done_def)
  then have "outbox_step job_claimed 7 (Complete (outboxID 1) ''w'') Done job_done" by simp
  from history_step [OF history_step [OF h1 item(1)] this]
  have "outbox_history NewMemoryRepository
     [(0, Put ''run.persisted'' ''run_000004'' Malformed, Queued (outboxID 1)),
      (5, Claim ''w'' 10 [''run.persisted''], Claimed (mo_message item)),
      (7, Complete (outboxID 1) ''w'', Done)] job_done" by simp
  moreover have "om_ID (mo_message item) = outboxID 1"
    using outbox_okD [OF outbox_ok_job_claimed item(2)] by (simp add: item_ok_def)
  moreover have "settled_in job_done (outboxID 1)"
    using item by (simp add: job_done_def CompleteOutbox_def settled_in_def settled_def)
  ultimately show ?thesis by blast
qed

theorem settled_is_final_witness:
  "\<exists>ans r'. outbox_history job_done [(20, Claim ''v'' 10 [''run.persisted''], ans)] r' \<and>
     mr_outbox r' (outboxID 1) = mr_outbox job_done (outboxID 1)"
proof -
  have "dom (mr_outbox job_done) = {outboxID 1}"
    using job_claimed_step
    by (auto simp: job_done_def CompleteOutbox_def job_claimed_def ClaimOutbox_def one_job_outbox
        containsTopic_iff Let_def After_def)
  then have en: "enumerates [outboxID 1] (mr_outbox job_done)"
    by (simp add: enumerates_def)
  obtain r' x where "ClaimOutbox [outboxID 1] 20 ''v'' 10 [''run.persisted''] job_done = (r', x)"
    by fastforce
  from step_claim [OF en _ this]
  have step: "outbox_step job_done 20 (Claim ''v'' 10 [''run.persisted'']) (claim_answer x) r'" by simp
  obtain m log where "outbox_history NewMemoryRepository log job_done"
      and final: "settled_in job_done (outboxID 1)"
    using job_history by blast
  then have "outbox_ok job_done"
    using outbox_history_ok outbox_ok_new by blast
  from settled_is_final [OF history_step [OF history_start step] this final]
    history_step [OF history_start step]
  show ?thesis by auto
qed

theorem settled_exactly_once_witness:
  "attempts_of job_done (outboxID 1) = 1"
  using job_history settled_exactly_once [where i = "outboxID 1" and r = job_done]
  by (auto)

end
