(* ===== verification/MemoryRuns.thy ===== *)
theory MemoryRuns
  imports MemoryOutbox
begin

text \<open>
  The run store of the in-memory repository: idempotent creation and replay for the public
  demo and for tenants, the reads of the three scopes (unscoped, project, public), event
  paging, and the evidence the worker records.  Idempotent creation is an interface, the
  locale \<^verbatim>\<open>idempotent_store\<close>, interpreted for the public and for every tenant scope.

  A method that only reads is a function of the state; the composite reads
  (\<^verbatim>\<open>EventsForProject\<close>, \<^verbatim>\<open>ReportForProject\<close> and the public ones) take the read lock twice
  in the code and are modelled on one state: between the two the owner of a run does not
  change.
\<close>

subsection \<open>Creation and replay\<close>

definition tenantIdempotencyKey :: "string \<Rightarrow> digest \<Rightarrow> string" where
  "tenantIdempotencyKey projectID keyHash = projectID @ '':'' @ hex_encode keyHash"

definition ReplayRunForProject ::
  "string \<Rightarrow> digest \<Rightarrow> digest \<Rightarrow> MemoryRepository \<Rightarrow> goerr + Run \<times> bool" where
  "ReplayRunForProject projectID keyHash requestHash r =
     (case mr_tenantIdempotency r (tenantIdempotencyKey projectID keyHash) of
        None \<Rightarrow> Inr (zero_Run, False)
      | Some previous \<Rightarrow>
          if mi_requestHash previous \<noteq> requestHash then Inl ErrIdempotencyConflict
          else Inr (get0 zero_Run (mr_runs r) (mi_runID previous), True))"

definition CreateRunForProject ::
  "time \<Rightarrow> string \<Rightarrow> digest \<Rightarrow> digest \<Rightarrow> RunBundle \<Rightarrow> MemoryRepository \<Rightarrow>
   MemoryRepository \<times> (goerr + Run \<times> bool)" where
  "CreateRunForProject now projectID keyHash requestHash b r =
     (let key = tenantIdempotencyKey projectID keyHash; i = run_ID (rb_Run b)
      in case mr_tenantIdempotency r key of
           Some previous \<Rightarrow>
             if mi_requestHash previous \<noteq> requestHash then (r, Inl ErrIdempotencyConflict)
             else (r, Inr (get0 zero_Run (mr_runs r) (mi_runID previous), True))
         | None \<Rightarrow>
             (enqueueLocked now b
                (r\<lparr>mr_runs := (mr_runs r)(i \<mapsto> rb_Run b),
                   mr_events := (mr_events r)(i \<mapsto> rb_Events b),
                   mr_reports := (mr_reports r)(i \<mapsto> rb_Report b),
                   mr_projectByRun := (mr_projectByRun r)(i \<mapsto> projectID),
                   mr_correlationByRun := (mr_correlationByRun r)(i \<mapsto> rb_StripeCorrelationID b),
                   mr_tenantIdempotency := (mr_tenantIdempotency r)
                     (key \<mapsto> \<lparr>mi_requestHash = requestHash, mi_runID = i\<rparr>)\<rparr>),
              Inr (rb_Run b, False)))"

definition NextRunID :: "MemoryRepository \<Rightarrow> MemoryRepository \<times> (goerr + string)" where
  "NextRunID r = (r\<lparr>mr_nextRun := mr_nextRun r + 1\<rparr>, Inr (runID (mr_nextRun r)))"

definition ReplayRun ::
  "digest \<Rightarrow> digest \<Rightarrow> MemoryRepository \<Rightarrow> goerr + Run \<times> bool" where
  "ReplayRun keyHash requestHash r =
     (case mr_idempotency r keyHash of
        None \<Rightarrow> Inr (zero_Run, False)
      | Some previous \<Rightarrow>
          if mi_requestHash previous \<noteq> requestHash then Inl ErrIdempotencyConflict
          else Inr (get0 zero_Run (mr_runs r) (mi_runID previous), True))"

definition CreateRun ::
  "time \<Rightarrow> digest \<Rightarrow> digest \<Rightarrow> RunBundle \<Rightarrow> MemoryRepository \<Rightarrow>
   MemoryRepository \<times> (goerr + Run \<times> bool)" where
  "CreateRun now keyHash requestHash b r =
     (let i = run_ID (rb_Run b)
      in case mr_idempotency r keyHash of
           Some previous \<Rightarrow>
             if mi_requestHash previous \<noteq> requestHash then (r, Inl ErrIdempotencyConflict)
             else (r, Inr (get0 zero_Run (mr_runs r) (mi_runID previous), True))
         | None \<Rightarrow>
             (enqueueLocked now b
                (r\<lparr>mr_runs := (mr_runs r)(i \<mapsto> rb_Run b),
                   mr_events := (mr_events r)(i \<mapsto> rb_Events b),
                   mr_reports := (mr_reports r)(i \<mapsto> rb_Report b),
                   mr_correlationByRun := (mr_correlationByRun r)(i \<mapsto> rb_StripeCorrelationID b),
                   mr_idempotency := (mr_idempotency r)
                     (keyHash \<mapsto> \<lparr>mi_requestHash = requestHash, mi_runID = i\<rparr>)\<rparr>),
              Inr (rb_Run b, False)))"

definition putSeed :: "RunBundle \<Rightarrow> MemoryRepository \<Rightarrow> MemoryRepository" where
  "putSeed b r =
     (let i = run_ID (rb_Run b)
      in r\<lparr>mr_runs := (mr_runs r)(i \<mapsto> rb_Run b), mr_events := (mr_events r)(i \<mapsto> rb_Events b),
           mr_reports := (mr_reports r)(i \<mapsto> rb_Report b)\<rparr>)"

subsection \<open>Reads\<close>

text \<open>
  \<^verbatim>\<open>eventsAfterLocked\<close>: the high water mark of all events, and the first \<^verbatim>\<open>limit\<close> events after
  the given sequence number, in sequence order.
\<close>

fun events_after_loop :: "int \<Rightarrow> int \<Rightarrow> Event list \<Rightarrow> EventStreamBatch \<Rightarrow> EventStreamBatch" where
  "events_after_loop after limit [] batch = batch"
| "events_after_loop after limit (e # es) batch =
     (let batch1 = (if ev_Sequence e > eb_HighWater batch
                    then batch\<lparr>eb_HighWater := ev_Sequence e\<rparr> else batch)
      in if ev_Sequence e \<le> after \<or> int (length (eb_Events batch1)) \<ge> limit
         then events_after_loop after limit es batch1
         else events_after_loop after limit es (batch1\<lparr>eb_Events := eb_Events batch1 @ [e]\<rparr>))"

definition eventsAfterLocked :: "Run \<Rightarrow> int \<Rightarrow> int \<Rightarrow> MemoryRepository \<Rightarrow> EventStreamBatch" where
  "eventsAfterLocked run after limit0 r =
     (let limit = (if limit0 \<le> 0 \<or> limit0 > 500 then 100 else limit0);
          batch = events_after_loop after limit (get0 [] (mr_events r) (run_ID run))
            \<lparr>eb_Run = run, eb_Events = [], eb_HighWater = 0\<rparr>
      in batch\<lparr>eb_Events := sort_key ev_Sequence (eb_Events batch)\<rparr>)"

text \<open>\<^verbatim>\<open>sort.Slice\<close> by start time, latest first, of what a range loop collected.\<close>

definition by_start_desc :: "Run list \<Rightarrow> Run list" where
  "by_start_desc rs = sort_key (\<lambda>x. - run_StartedAt x) rs"

definition Run_get :: "string \<Rightarrow> MemoryRepository \<Rightarrow> goerr + Run \<times> bool" where
  "Run_get i r = Inr (get0 zero_Run (mr_runs r) i, mr_runs r i \<noteq> None)"

definition Events_get :: "string \<Rightarrow> MemoryRepository \<Rightarrow> goerr + Event list \<times> bool" where
  "Events_get i r = Inr (get0 [] (mr_events r) i, mr_events r i \<noteq> None)"

definition Report_get :: "string \<Rightarrow> MemoryRepository \<Rightarrow> goerr + Report \<times> bool" where
  "Report_get i r = Inr (get0 zero_Report (mr_reports r) i, mr_reports r i \<noteq> None)"

definition EventsAfter ::
  "string \<Rightarrow> int \<Rightarrow> int \<Rightarrow> MemoryRepository \<Rightarrow> goerr + EventStreamBatch \<times> bool" where
  "EventsAfter i after limit r =
     (case mr_runs r i of
        None \<Rightarrow> Inr (zero_EventStreamBatch, False)
      | Some run \<Rightarrow> Inr (eventsAfterLocked run after limit r, True))"

definition ListRuns :: "string list \<Rightarrow> MemoryRepository \<Rightarrow> goerr + Run list" where
  "ListRuns ids r = Inr (by_start_desc (map (get0 zero_Run (mr_runs r)) ids))"

definition RunForProject ::
  "string \<Rightarrow> string \<Rightarrow> MemoryRepository \<Rightarrow> goerr + Run \<times> bool" where
  "RunForProject projectID i r =
     Inr (get0 zero_Run (mr_runs r) i,
          mr_runs r i \<noteq> None \<and> get0 [] (mr_projectByRun r) i = projectID)"

definition EventsForProject ::
  "string \<Rightarrow> string \<Rightarrow> MemoryRepository \<Rightarrow> goerr + Event list \<times> bool" where
  "EventsForProject projectID i r =
     (case RunForProject projectID i r of
        Inl e \<Rightarrow> Inl e
      | Inr (_, ok) \<Rightarrow> if \<not> ok then Inr ([], False) else Events_get i r)"

definition EventsAfterForProject ::
  "string \<Rightarrow> string \<Rightarrow> int \<Rightarrow> int \<Rightarrow> MemoryRepository \<Rightarrow> goerr + EventStreamBatch \<times> bool" where
  "EventsAfterForProject projectID i after limit r =
     (case mr_runs r i of
        None \<Rightarrow> Inr (zero_EventStreamBatch, False)
      | Some run \<Rightarrow>
          if get0 [] (mr_projectByRun r) i \<noteq> projectID then Inr (zero_EventStreamBatch, False)
          else Inr (eventsAfterLocked run after limit r, True))"

definition ReportForProject ::
  "string \<Rightarrow> string \<Rightarrow> MemoryRepository \<Rightarrow> goerr + Report \<times> bool" where
  "ReportForProject projectID i r =
     (case RunForProject projectID i r of
        Inl e \<Rightarrow> Inl e
      | Inr (_, ok) \<Rightarrow> if \<not> ok then Inr (zero_Report, False) else Report_get i r)"

definition ListRunsForProject ::
  "string list \<Rightarrow> string \<Rightarrow> MemoryRepository \<Rightarrow> goerr + Run list" where
  "ListRunsForProject ids projectID r =
     Inr (by_start_desc (map (get0 zero_Run (mr_runs r))
       (filter (\<lambda>i. get0 [] (mr_projectByRun r) i = projectID) ids)))"

definition PublicRun :: "string \<Rightarrow> MemoryRepository \<Rightarrow> goerr + Run \<times> bool" where
  "PublicRun i r =
     Inr (get0 zero_Run (mr_runs r) i, mr_runs r i \<noteq> None \<and> mr_projectByRun r i = None)"

definition PublicEvents :: "string \<Rightarrow> MemoryRepository \<Rightarrow> goerr + Event list \<times> bool" where
  "PublicEvents i r =
     (case PublicRun i r of
        Inl e \<Rightarrow> Inl e
      | Inr (_, ok) \<Rightarrow> if \<not> ok then Inr ([], False) else Events_get i r)"

definition PublicEventsAfter ::
  "string \<Rightarrow> int \<Rightarrow> int \<Rightarrow> MemoryRepository \<Rightarrow> goerr + EventStreamBatch \<times> bool" where
  "PublicEventsAfter i after limit r =
     (case mr_runs r i of
        None \<Rightarrow> Inr (zero_EventStreamBatch, False)
      | Some run \<Rightarrow>
          if mr_projectByRun r i \<noteq> None then Inr (zero_EventStreamBatch, False)
          else Inr (eventsAfterLocked run after limit r, True))"

definition PublicReport :: "string \<Rightarrow> MemoryRepository \<Rightarrow> goerr + Report \<times> bool" where
  "PublicReport i r =
     (case PublicRun i r of
        Inl e \<Rightarrow> Inl e
      | Inr (_, ok) \<Rightarrow> if \<not> ok then Inr (zero_Report, False) else Report_get i r)"

definition ListPublicRuns :: "string list \<Rightarrow> MemoryRepository \<Rightarrow> goerr + Run list" where
  "ListPublicRuns ids r =
     Inr (by_start_desc (map (get0 zero_Run (mr_runs r))
       (filter (\<lambda>i. mr_projectByRun r i = None) ids)))"

subsection \<open>Evidence recorded by the worker\<close>

definition RecordVerification ::
  "VerificationEvidence \<Rightarrow> MemoryRepository \<Rightarrow> MemoryRepository \<times> (goerr + unit)" where
  "RecordVerification evidence r =
     (case mr_reports r (ve_RunID evidence) of
        None \<Rightarrow> (r, Inl (ErrNew ''run report not found''))
      | Some report \<Rightarrow>
          if HasAssertion (rp_Assertions report) (as_ID (ve_Assertion evidence)) then (r, Inr ())
          else
            (let assertions = rp_Assertions report @ [ve_Assertion evidence];
                 report' = report\<lparr>rp_Assertions := assertions,
                             rp_Summary := assertion_summary ''verification'' assertions\<rparr>
             in (r\<lparr>mr_reports := (mr_reports r)(ve_RunID evidence \<mapsto> report')\<rparr>, Inr ())))"

definition ApplyReferenceMerchantEffect ::
  "string \<Rightarrow> int \<Rightarrow> MemoryRepository \<Rightarrow> MemoryRepository \<times> (goerr + bool)" where
  "ApplyReferenceMerchantEffect effectID sequence r =
     (case mr_merchantEffects r effectID of
        None \<Rightarrow> (r\<lparr>mr_merchantEffects := (mr_merchantEffects r)(effectID \<mapsto> sequence)\<rparr>, Inr False)
      | Some previous \<Rightarrow>
          if sequence > previous
          then (r\<lparr>mr_merchantEffects := (mr_merchantEffects r)(effectID \<mapsto> sequence)\<rparr>, Inr True)
          else (r, Inr True))"

subsection \<open>The contract of idempotent creation\<close>

text \<open>
  What a client of idempotent creation relies on.  A store records for each key the request
  it was first used with and the run it made.  A replay answers from the record; a creation
  under a recorded key answers the same and changes nothing; under a new key it stores the
  bundle and records it, keeping every other record.
\<close>

definition idempotent_answer :: "(digest \<times> Run) option \<Rightarrow> digest \<Rightarrow> goerr + Run \<times> bool" where
  "idempotent_answer known h =
     (case known of
        None \<Rightarrow> Inr (zero_Run, False)
      | Some (h', run) \<Rightarrow> if h' \<noteq> h then Inl ErrIdempotencyConflict else Inr (run, True))"

type_synonym create_request = "time \<times> digest \<times> digest \<times> RunBundle"

fun create_all ::
  "(time \<Rightarrow> digest \<Rightarrow> digest \<Rightarrow> RunBundle \<Rightarrow> 's \<Rightarrow> 's \<times> (goerr + Run \<times> bool)) \<Rightarrow>
   create_request list \<Rightarrow> 's \<Rightarrow> 's \<times> (goerr + Run \<times> bool) list" where
  "create_all create [] s = (s, [])"
| "create_all create ((now, k, h, b) # reqs) s =
     (let (s1, x) = create now k h b s; (s2, xs) = create_all create reqs s1 in (s2, x # xs))"

definition request_key :: "create_request \<Rightarrow> digest" where
  "request_key = (\<lambda>(now, k, h, b). k)"

definition request_hash :: "create_request \<Rightarrow> digest" where
  "request_hash = (\<lambda>(now, k, h, b). h)"

definition request_run :: "create_request \<Rightarrow> string" where
  "request_run = (\<lambda>(now, k, h, b). run_ID (rb_Run b))"

definition request_bundle :: "create_request \<Rightarrow> RunBundle" where
  "request_bundle = (\<lambda>(now, k, h, b). b)"

lemma request_simps [simp]:
  "request_key (now, k, h, b) = k" "request_hash (now, k, h, b) = h"
  "request_run (now, k, h, b) = run_ID (rb_Run b)" "request_bundle (now, k, h, b) = b"
  by (simp_all add: request_key_def request_hash_def request_run_def request_bundle_def)

definition created_now :: "goerr + Run \<times> bool \<Rightarrow> bool" where
  "created_now x = (case x of Inl _ \<Rightarrow> False | Inr (_, replayed) \<Rightarrow> \<not> replayed)"

text \<open>The answer a request must get when its key is recorded with a request hash and a run.\<close>

definition answers_as :: "(digest \<times> Run) option \<Rightarrow> digest \<Rightarrow> goerr + Run \<times> bool \<Rightarrow> bool" where
  "answers_as known h x \<longleftrightarrow>
     (case known of
        None \<Rightarrow> False
      | Some (h', run) \<Rightarrow> if h' = h then \<exists>replayed. x = Inr (run, replayed)
                        else x = Inl ErrIdempotencyConflict)"

locale idempotent_store =
  fixes replay :: "digest \<Rightarrow> digest \<Rightarrow> 's \<Rightarrow> goerr + Run \<times> bool"
    and create :: "time \<Rightarrow> digest \<Rightarrow> digest \<Rightarrow> RunBundle \<Rightarrow> 's \<Rightarrow> 's \<times> (goerr + Run \<times> bool)"
    and recorded :: "'s \<Rightarrow> digest \<Rightarrow> (digest \<times> Run) option"
    and admits :: "'s \<Rightarrow> RunBundle \<Rightarrow> bool"
    and key_ok :: "digest \<Rightarrow> bool"
    and wf :: "'s \<Rightarrow> bool"
  assumes replay_answer: "wf s \<Longrightarrow> replay k h s = idempotent_answer (recorded s k) h"
    and create_known: "wf s \<Longrightarrow> recorded s k = Some known \<Longrightarrow>
      create now k h b s = (s, idempotent_answer (Some known) h)"
    and create_new: "wf s \<Longrightarrow> recorded s k = None \<Longrightarrow> admits s b \<Longrightarrow> key_ok k \<Longrightarrow>
      \<exists>s'. create now k h b s = (s', Inr (rb_Run b, False)) \<and> wf s' \<and>
        recorded s' = (recorded s)(k \<mapsto> (h, rb_Run b))"
    and admits_later: "wf s \<Longrightarrow> admits s b \<Longrightarrow> run_ID (rb_Run b') \<noteq> run_ID (rb_Run b) \<Longrightarrow>
      recorded s k = None \<Longrightarrow> admits s b' \<Longrightarrow> create now k h b' s = (s', x) \<Longrightarrow> admits s' b"
begin

lemma create_answer:
  assumes "wf s" and "admits s b" and "key_ok k"
  shows "\<exists>s' x. create now k h b s = (s', x) \<and> wf s' \<and> answers_as (recorded s' k) h x \<and>
    (created_now x \<longleftrightarrow> recorded s k = None) \<and>
    (\<forall>j. recorded s' j = (if j = k \<and> recorded s k = None then Some (h, rb_Run b) else recorded s j))"
proof (cases "recorded s k")
  case None
  with create_new [OF assms(1) None assms(2,3)] show ?thesis
    by (fastforce simp: answers_as_def created_now_def)
next
  case (Some known)
  with create_known [OF assms(1) Some] assms(1) show ?thesis
    by (auto simp: answers_as_def created_now_def idempotent_answer_def split: prod.splits)
qed

text \<open>After a creation every further request with its key gets the same run or a conflict.\<close>

lemma create_then_replay:
  assumes "wf s" and "admits s b" and "key_ok k" and "create now k h b s = (s', Inr (run, replayed))"
  shows "replay k h s' = Inr (run, True)"
    and "h' \<noteq> h \<Longrightarrow> replay k h' s' = Inl ErrIdempotencyConflict"
    and "create now' k h b' s' = (s', Inr (run, True))"
    and "h' \<noteq> h \<Longrightarrow> create now' k h' b' s' = (s', Inl ErrIdempotencyConflict)"
proof -
  have "wf s'" and "recorded s' k = Some (h, run)"
    using create_answer [OF assms(1,2,3), of now h] assms(4)
    by (auto simp: answers_as_def split: option.splits prod.splits if_splits)
  then show "replay k h s' = Inr (run, True)"
    and "h' \<noteq> h \<Longrightarrow> replay k h' s' = Inl ErrIdempotencyConflict"
    and "create now' k h b' s' = (s', Inr (run, True))"
    and "h' \<noteq> h \<Longrightarrow> create now' k h' b' s' = (s', Inl ErrIdempotencyConflict)"
    using replay_answer create_known by (auto simp: idempotent_answer_def)
qed

text \<open>
  Any sequence of atomic creations, as concurrent requests make: each key ends with one
  record, every request under the key is answered from that record, and one request at most
  is told that it created the run.
\<close>

lemma create_all_once:
  assumes "wf s" and "\<forall>q \<in> set reqs. admits s (request_bundle q) \<and> key_ok (request_key q)"
    and "distinct (map request_run reqs)"
  shows "\<exists>s' xs. create_all create reqs s = (s', xs) \<and> wf s' \<and> length xs = length reqs \<and>
    (\<forall>j. recorded s j \<noteq> None \<longrightarrow> recorded s' j = recorded s j) \<and>
    (\<forall>(q, x) \<in> set (zip reqs xs). answers_as (recorded s' (request_key q)) (request_hash q) x) \<and>
    (\<forall>k. length (filter (\<lambda>(q, x). request_key q = k \<and> created_now x) (zip reqs xs)) =
       (if recorded s k = None \<and> k \<in> request_key ` set reqs then 1 else 0))"
  using assms
proof (induction reqs arbitrary: s)
  case Nil
  then show ?case by simp
next
  case (Cons q reqs)
  obtain now k h b where q: "q = (now, k, h, b)" by (cases q)
  have b: "admits s b" "key_ok k" using Cons.prems(2) q by auto
  obtain s1 x where s1: "create now k h b s = (s1, x)" "wf s1" "answers_as (recorded s1 k) h x"
      "created_now x \<longleftrightarrow> recorded s k = None"
      "\<forall>j. recorded s1 j = (if j = k \<and> recorded s k = None then Some (h, rb_Run b) else recorded s j)"
    using create_answer [OF Cons.prems(1) b, of now h] by (elim exE conjE) (rule that)
  have "\<forall>q' \<in> set reqs. admits s1 (request_bundle q') \<and> key_ok (request_key q')"
  proof
    fix q' assume q': "q' \<in> set reqs"
    then have "admits s (request_bundle q')" and "key_ok (request_key q')"
      using Cons.prems(2) by auto
    moreover have "run_ID (rb_Run b) \<noteq> run_ID (rb_Run (request_bundle q'))"
      using Cons.prems(3) q' q by (cases q') force
    ultimately show "admits s1 (request_bundle q') \<and> key_ok (request_key q')"
      using s1(1) create_known [OF Cons.prems(1), of k] b(1) Cons.prems(1)
        admits_later [of s "request_bundle q'" b k now h s1 x]
      by (cases "recorded s k") auto
  qed
  with Cons.IH [OF s1(2)] Cons.prems(3) obtain s2 xs where
    s2: "create_all create reqs s1 = (s2, xs)" "wf s2" "length xs = length reqs"
      "\<And>j. recorded s1 j \<noteq> None \<Longrightarrow> recorded s2 j = recorded s1 j"
      "\<forall>(q, x) \<in> set (zip reqs xs). answers_as (recorded s2 (request_key q)) (request_hash q) x"
      "\<And>k. length (filter (\<lambda>(q, x). request_key q = k \<and> created_now x) (zip reqs xs)) =
         (if recorded s1 k = None \<and> k \<in> request_key ` set reqs then 1 else 0)"
    by auto
  have k: "recorded s1 k \<noteq> None"
    using s1(5) by auto
  have kept: "recorded s2 j = recorded s j" if "recorded s j \<noteq> None" for j
    using that s1(5) s2(4) [of j] by auto
  have count: "length (filter (\<lambda>(q, x). request_key q = j \<and> created_now x) (zip (q # reqs) (x # xs))) =
       (if recorded s j = None \<and> j \<in> request_key ` set (q # reqs) then 1 else 0)" for j
    using s2(6) [of j] s1(4) s1(5) by (cases "j = k") (auto simp: q)
  have "create_all create (q # reqs) s = (s2, x # xs)"
    using s1(1) s2(1) by (simp add: q)
  then show ?case
    using s2(2,3,5) s1(3) s2(4) [OF k] kept count
    by (intro exI [of _ s2] exI [of _ "x # xs"]) (simp add: q)
qed

end

subsection \<open>The invariant of the run store\<close>

definition bundle_ok :: "RunBundle \<Rightarrow> bool" where
  "bundle_ok b \<longleftrightarrow>
     sequenced (rb_Events b) \<and> list_all (\<lambda>e. ev_RunID e = run_ID (rb_Run b)) (rb_Events b) \<and>
     run_EventCount (rb_Run b) = int (length (rb_Events b)) \<and> rp_Run (rb_Report b) = rb_Run b"

lemma bundle_consistent_ok: "bundle_consistent b \<Longrightarrow> bundle_ok b"
  by (simp add: bundle_consistent_def bundle_ok_def Let_def)

text \<open>
  A stored run sits under its identifier, its events are numbered without a gap and counted
  in the run, and its report holds the same run.
\<close>

definition story_ok :: "MemoryRepository \<Rightarrow> string \<Rightarrow> bool" where
  "story_ok r i \<longleftrightarrow>
     (\<exists>run evs rep. mr_runs r i = Some run \<and> mr_events r i = Some evs \<and> mr_reports r i = Some rep \<and>
        run_ID run = i \<and> sequenced evs \<and> list_all (\<lambda>e. ev_RunID e = i) evs \<and>
        run_EventCount run = int (length evs) \<and> rp_Run rep = run)"

definition digest_ok :: "digest \<Rightarrow> bool" where
  "digest_ok k \<longleftrightarrow> length k = 32"

definition runs_ok :: "MemoryRepository \<Rightarrow> bool" where
  "runs_ok r \<longleftrightarrow>
     finite (dom (mr_runs r)) \<and> dom (mr_events r) = dom (mr_runs r) \<and>
     dom (mr_reports r) = dom (mr_runs r) \<and> (\<forall>i \<in> dom (mr_runs r). story_ok r i) \<and>
     dom (mr_projectByRun r) \<subseteq> dom (mr_runs r) \<and>
     (\<forall>k rec. mr_idempotency r k = Some rec \<longrightarrow> mi_runID rec \<in> dom (mr_runs r)) \<and>
     (\<forall>key rec. mr_tenantIdempotency r key = Some rec \<longrightarrow> mi_runID rec \<in> dom (mr_runs r) \<and>
        (\<exists>p k. digest_ok k \<and> key = tenantIdempotencyKey p k \<and>
           mr_projectByRun r (mi_runID rec) = Some p)) \<and>
     4 \<le> mr_nextRun r \<and> (\<forall>n. 0 \<le> n \<and> runID n \<in> dom (mr_runs r) \<longrightarrow> n < mr_nextRun r)"

definition memory_ok :: "MemoryRepository \<Rightarrow> bool" where
  "memory_ok r \<longleftrightarrow> runs_ok r \<and> outbox_ok r"

text \<open>
  A bundle is admitted when it is consistent, its identifier is new and, if it is one that
  \<^verbatim>\<open>NextRunID\<close> hands out, it has been handed out.
\<close>

definition admits_bundle :: "MemoryRepository \<Rightarrow> RunBundle \<Rightarrow> bool" where
  "admits_bundle r b \<longleftrightarrow>
     bundle_ok b \<and> run_ID (rb_Run b) \<notin> dom (mr_runs r) \<and>
     (\<forall>n. 0 \<le> n \<and> run_ID (rb_Run b) = runID n \<longrightarrow> n < mr_nextRun r)"

lemma runs_okD:
  assumes "runs_ok r"
  shows "finite (dom (mr_runs r))" "dom (mr_events r) = dom (mr_runs r)"
    "dom (mr_reports r) = dom (mr_runs r)" "i \<in> dom (mr_runs r) \<Longrightarrow> story_ok r i"
    "dom (mr_projectByRun r) \<subseteq> dom (mr_runs r)"
    "mr_idempotency r k = Some rec \<Longrightarrow> mi_runID rec \<in> dom (mr_runs r)"
    "mr_tenantIdempotency r key = Some rec \<Longrightarrow> mi_runID rec \<in> dom (mr_runs r)"
    "mr_tenantIdempotency r key = Some rec \<Longrightarrow>
       \<exists>p k. digest_ok k \<and> key = tenantIdempotencyKey p k \<and> mr_projectByRun r (mi_runID rec) = Some p"
    "4 \<le> mr_nextRun r" "0 \<le> n \<Longrightarrow> runID n \<in> dom (mr_runs r) \<Longrightarrow> n < mr_nextRun r"
  using assms unfolding runs_ok_def by blast+

lemma runs_ok_story:
  assumes "runs_ok r" and "mr_runs r i = Some run"
  obtains evs rep where "mr_events r i = Some evs" "mr_reports r i = Some rep" "run_ID run = i"
    "sequenced evs" "list_all (\<lambda>e. ev_RunID e = i) evs" "run_EventCount run = int (length evs)"
    "rp_Run rep = run"
proof -
  have "story_ok r i"
    using assms by (intro runs_okD(4)) auto
  with assms(2) that show ?thesis by (auto simp: story_ok_def)
qed

lemma runs_ok_run_ID: "runs_ok r \<Longrightarrow> mr_runs r i = Some run \<Longrightarrow> run_ID run = i"
  using runs_ok_story by metis

lemma memory_ok_new: "memory_ok NewMemoryRepository"
  using outbox_ok_new by (simp add: memory_ok_def runs_ok_def NewMemoryRepository_def)

text \<open>The invariant reads only these fields.\<close>

lemma runs_ok_cong:
  assumes "mr_runs r' = mr_runs r" "mr_events r' = mr_events r" "mr_reports r' = mr_reports r"
    "mr_projectByRun r' = mr_projectByRun r" "mr_idempotency r' = mr_idempotency r"
    "mr_tenantIdempotency r' = mr_tenantIdempotency r" "mr_nextRun r' = mr_nextRun r"
  shows "runs_ok r' = runs_ok r"
  using assms by (simp add: runs_ok_def story_ok_def)

lemma story_ok_cong:
  "mr_runs r' i = mr_runs r i \<Longrightarrow> mr_events r' i = mr_events r i \<Longrightarrow> mr_reports r' i = mr_reports r i \<Longrightarrow>
     story_ok r' i = story_ok r i"
  by (simp add: story_ok_def)

text \<open>Storing a bundle, as both creations do, keeps every run's story.\<close>

lemma putSeed_fields [simp]:
  "mr_runs (putSeed b r) = (mr_runs r)(run_ID (rb_Run b) \<mapsto> rb_Run b)"
  "mr_events (putSeed b r) = (mr_events r)(run_ID (rb_Run b) \<mapsto> rb_Events b)"
  "mr_reports (putSeed b r) = (mr_reports r)(run_ID (rb_Run b) \<mapsto> rb_Report b)"
  "mr_projectByRun (putSeed b r) = mr_projectByRun r"
  "mr_idempotency (putSeed b r) = mr_idempotency r"
  "mr_tenantIdempotency (putSeed b r) = mr_tenantIdempotency r"
  "mr_nextRun (putSeed b r) = mr_nextRun r" "mr_outbox (putSeed b r) = mr_outbox r"
  "mr_nextOutbox (putSeed b r) = mr_nextOutbox r"
  by (simp_all add: putSeed_def Let_def)

lemma putSeed_story:
  assumes "runs_ok r" and "bundle_ok b" and "i \<in> dom (mr_runs (putSeed b r))"
  shows "story_ok (putSeed b r) i"
proof (cases "i = run_ID (rb_Run b)")
  case True
  with assms(2) show ?thesis by (simp add: story_ok_def bundle_ok_def)
next
  case False
  then have "story_ok (putSeed b r) i = story_ok r i"
    by (intro story_ok_cong) simp_all
  with assms False runs_okD(4) [OF assms(1), of i] show ?thesis by simp
qed

lemma runs_ok_putSeed:
  assumes "runs_ok r" and "admits_bundle r b"
  shows "runs_ok (putSeed b r)"
proof -
  have "\<forall>i \<in> dom (mr_runs (putSeed b r)). story_ok (putSeed b r) i"
    using putSeed_story [OF assms(1)] assms(2) by (simp add: admits_bundle_def)
  with assms show ?thesis
    unfolding runs_ok_def admits_bundle_def by (simp (no_asm_simp)) (auto 0 4)
qed

subsection \<open>Every operation keeps the invariant\<close>

lemma runs_ok_unrelated [simp]:
  "runs_ok (mr_outbox_update f1 r) = runs_ok r" "runs_ok (mr_nextOutbox_update f2 r) = runs_ok r"
  "runs_ok (mr_correlationByRun_update f3 r) = runs_ok r"
  "runs_ok (mr_projectByConnection_update f4 r) = runs_ok r"
  "runs_ok (mr_webhooks_update f5 r) = runs_ok r"
  "runs_ok (mr_webhookResults_update f6 r) = runs_ok r"
  "runs_ok (mr_connections_update f7 r) = runs_ok r"
  "runs_ok (mr_merchantEffects_update f8 r) = runs_ok r"
  "runs_ok (putOutboxLocked now t a p r) = runs_ok r"
  by (rule runs_ok_cong; simp)+

lemma outbox_ok_unrelated [simp]:
  "outbox_ok (mr_runs_update f1 r) = outbox_ok r" "outbox_ok (mr_events_update f2 r) = outbox_ok r"
  "outbox_ok (mr_reports_update f3 r) = outbox_ok r"
  "outbox_ok (mr_idempotency_update f4 r) = outbox_ok r"
  "outbox_ok (mr_tenantIdempotency_update f5 r) = outbox_ok r"
  "outbox_ok (mr_projectByRun_update f6 r) = outbox_ok r"
  "outbox_ok (mr_correlationByRun_update f7 r) = outbox_ok r"
  "outbox_ok (mr_projectByConnection_update f8 r) = outbox_ok r"
  "outbox_ok (mr_webhooks_update f9 r) = outbox_ok r"
  "outbox_ok (mr_webhookResults_update f10 r) = outbox_ok r"
  "outbox_ok (mr_connections_update f11 r) = outbox_ok r"
  "outbox_ok (mr_nextRun_update f12 r) = outbox_ok r"
  "outbox_ok (mr_merchantEffects_update f13 r) = outbox_ok r"
  "outbox_ok (putSeed b r) = outbox_ok r"
  by (simp_all add: outbox_ok_def)

lemma outbox_ok_enqueue: "outbox_ok r \<Longrightarrow> outbox_ok (enqueueLocked now b r)"
  by (simp add: enqueueLocked_put outbox_ok_put)

lemma runs_ok_enqueue [simp]: "runs_ok (enqueueLocked now b r) = runs_ok r"
  by (rule runs_ok_cong) (simp_all add: enqueueLocked_put)

lemma CreateRun_new:
  assumes "mr_idempotency r k = None"
  shows "CreateRun now k h b r =
    (enqueueLocked now b ((putSeed b r)\<lparr>
       mr_correlationByRun := (mr_correlationByRun r)(run_ID (rb_Run b) \<mapsto> rb_StripeCorrelationID b),
       mr_idempotency := (mr_idempotency r)
         (k \<mapsto> \<lparr>mi_requestHash = h, mi_runID = run_ID (rb_Run b)\<rparr>)\<rparr>), Inr (rb_Run b, False))"
  using assms by (simp add: CreateRun_def putSeed_def Let_def)

lemma CreateRunForProject_new:
  assumes "mr_tenantIdempotency r (tenantIdempotencyKey p k) = None"
  shows "CreateRunForProject now p k h b r =
    (enqueueLocked now b ((putSeed b r)\<lparr>
       mr_projectByRun := (mr_projectByRun r)(run_ID (rb_Run b) \<mapsto> p),
       mr_correlationByRun := (mr_correlationByRun r)(run_ID (rb_Run b) \<mapsto> rb_StripeCorrelationID b),
       mr_tenantIdempotency := (mr_tenantIdempotency r)
         (tenantIdempotencyKey p k \<mapsto> \<lparr>mi_requestHash = h, mi_runID = run_ID (rb_Run b)\<rparr>)\<rparr>),
     Inr (rb_Run b, False))"
  using assms by (simp add: CreateRunForProject_def putSeed_def Let_def)

lemma runs_ok_public_record:
  assumes "runs_ok r" and "i \<in> dom (mr_runs r)"
  shows "runs_ok (r\<lparr>mr_correlationByRun := c, mr_idempotency := (mr_idempotency r)
    (k \<mapsto> \<lparr>mi_requestHash = h, mi_runID = i\<rparr>)\<rparr>)"
  using assms by (simp add: runs_ok_def story_ok_def)

lemma runs_ok_tenant_record:
  assumes "runs_ok r" and "i \<in> dom (mr_runs r)" and "digest_ok k"
    and "\<forall>key rec. mr_tenantIdempotency r key = Some rec \<longrightarrow> mi_runID rec \<noteq> i"
  shows "runs_ok (r\<lparr>mr_projectByRun := (mr_projectByRun r)(i \<mapsto> p), mr_correlationByRun := c,
     mr_tenantIdempotency := (mr_tenantIdempotency r)
       (tenantIdempotencyKey p k \<mapsto> \<lparr>mi_requestHash = h, mi_runID = i\<rparr>)\<rparr>)"
  using assms unfolding runs_ok_def story_ok_def by (simp (no_asm_simp)) blast

lemma memory_ok_CreateRun:
  assumes "memory_ok r" and "admits_bundle r b"
  shows "memory_ok (fst (CreateRun now k h b r))"
proof (cases "mr_idempotency r k")
  case None
  have "runs_ok (putSeed b r)" and "run_ID (rb_Run b) \<in> dom (mr_runs (putSeed b r))"
    using assms runs_ok_putSeed by (auto simp: memory_ok_def)
  from runs_ok_public_record [OF this] assms(1) show ?thesis
    by (simp add: memory_ok_def CreateRun_new [OF None] outbox_ok_enqueue)
next
  case (Some rec)
  with assms show ?thesis by (simp add: CreateRun_def Let_def)
qed

lemma memory_ok_CreateRunForProject:
  assumes "memory_ok r" and "admits_bundle r b" and "digest_ok k"
  shows "memory_ok (fst (CreateRunForProject now p k h b r))"
proof (cases "mr_tenantIdempotency r (tenantIdempotencyKey p k)")
  case None
  have ok: "runs_ok r" and new: "run_ID (rb_Run b) \<notin> dom (mr_runs r)"
    using assms by (simp_all add: memory_ok_def admits_bundle_def)
  have stored: "runs_ok (putSeed b r)" "run_ID (rb_Run b) \<in> dom (mr_runs (putSeed b r))"
    using ok assms(2) runs_ok_putSeed by auto
  have "\<forall>key rec. mr_tenantIdempotency (putSeed b r) key = Some rec \<longrightarrow>
      mi_runID rec \<noteq> run_ID (rb_Run b)"
    using runs_okD(7) [OF ok] new by (metis putSeed_fields(6))
  from runs_ok_tenant_record [OF stored assms(3) this] show ?thesis
    using assms(1) by (simp add: memory_ok_def CreateRunForProject_new [OF None] outbox_ok_enqueue)
next
  case (Some rec)
  with assms show ?thesis by (simp add: CreateRunForProject_def Let_def)
qed

lemma memory_ok_NextRunID:
  assumes "memory_ok r"
  shows "memory_ok (fst (NextRunID r))"
proof -
  have "n < mr_nextRun r + 1" if "0 \<le> n" "runID n \<in> dom (mr_runs r)" for n
    using assms runs_okD(10) [of r, OF _ that] by (simp add: memory_ok_def)
  then have "runs_ok (r\<lparr>mr_nextRun := mr_nextRun r + 1\<rparr>)"
    using assms by (simp add: memory_ok_def runs_ok_def story_ok_def)
  then show ?thesis
    using assms by (simp add: memory_ok_def NextRunID_def)
qed

text \<open>A fresh identifier: the one \<^verbatim>\<open>NextRunID\<close> returns names no stored run.\<close>

lemma NextRunID_fresh:
  assumes "memory_ok r"
  shows "runID (mr_nextRun r) \<notin> dom (mr_runs r)"
  using assms runs_okD(9) [of r] runs_okD(10) [of r "mr_nextRun r"] by (force simp: memory_ok_def)

lemma admits_next:
  assumes "memory_ok r" and "bundle_ok b" and "run_ID (rb_Run b) = runID (mr_nextRun r)"
  shows "admits_bundle (fst (NextRunID r)) b"
proof -
  have "4 \<le> mr_nextRun r"
    using assms(1) runs_okD(9) by (simp add: memory_ok_def)
  then show ?thesis
    using assms NextRunID_fresh [OF assms(1)] by (auto simp: admits_bundle_def NextRunID_def runID_inj)
qed

text \<open>A report may change in all but its run.\<close>

lemma runs_ok_report:
  assumes "runs_ok r" and "mr_reports r i = Some rep" and "rp_Run rep' = rp_Run rep"
  shows "runs_ok (r\<lparr>mr_reports := (mr_reports r)(i \<mapsto> rep')\<rparr>)"
proof -
  let ?r = "r\<lparr>mr_reports := (mr_reports r)(i \<mapsto> rep')\<rparr>"
  have i: "i \<in> dom (mr_runs r)"
    using runs_okD(3) [OF assms(1)] assms(2) by blast
  have "story_ok ?r j" if "j \<in> dom (mr_runs r)" for j
    using runs_okD(4) [OF assms(1) that] assms(2,3)
    by (cases "j = i") (auto simp: story_ok_def)
  moreover have "dom (mr_reports ?r) = dom (mr_runs r)"
    using runs_okD(3) [OF assms(1)] i by auto
  ultimately show ?thesis
    using assms(1) unfolding runs_ok_def by simp
qed

lemma memory_ok_RecordVerification:
  assumes "memory_ok r"
  shows "memory_ok (fst (RecordVerification ev r))"
  using assms
  by (auto simp: RecordVerification_def memory_ok_def Let_def intro!: runs_ok_report
      split: option.splits)

lemma memory_ok_ApplyEffect:
  "memory_ok r \<Longrightarrow> memory_ok (fst (ApplyReferenceMerchantEffect e n r))"
  by (auto simp: ApplyReferenceMerchantEffect_def memory_ok_def split: option.splits)

lemma memory_ok_outbox_step:
  assumes "outbox_step r now act ans r'" and "memory_ok r"
  shows "memory_ok r'"
proof -
  have "runs_ok r' = runs_ok r"
    using assms(1) by (cases rule: outbox_step_cases) simp_all
  then show ?thesis
    using assms outbox_step_ok by (simp add: memory_ok_def)
qed

subsection \<open>The two scopes are idempotent stores\<close>

definition recorded_public :: "MemoryRepository \<Rightarrow> digest \<Rightarrow> (digest \<times> Run) option" where
  "recorded_public r k =
     map_option (\<lambda>rec. (mi_requestHash rec, get0 zero_Run (mr_runs r) (mi_runID rec)))
       (mr_idempotency r k)"

definition recorded_tenant :: "string \<Rightarrow> MemoryRepository \<Rightarrow> digest \<Rightarrow> (digest \<times> Run) option" where
  "recorded_tenant p r k =
     map_option (\<lambda>rec. (mi_requestHash rec, get0 zero_Run (mr_runs r) (mi_runID rec)))
       (mr_tenantIdempotency r (tenantIdempotencyKey p k))"

lemma tenant_key_same_project [simp]:
  "tenantIdempotencyKey p k = tenantIdempotencyKey p k' \<longleftrightarrow> k = k'"
  by (simp add: tenantIdempotencyKey_def hex_encode_inj)

lemma tenant_key_inj:
  assumes "digest_ok k" and "digest_ok k'"
  shows "tenantIdempotencyKey p k = tenantIdempotencyKey p' k' \<longleftrightarrow> p = p' \<and> k = k'"
proof -
  have "length ('':'' @ hex_encode k) = length ('':'' @ hex_encode k')"
    using assms by (simp add: digest_ok_def)
  then show ?thesis
    unfolding tenantIdempotencyKey_def by (subst append_eq_append_conv) (auto simp: hex_encode_inj)
qed

lemma enqueueLocked_runs [simp]:
  "mr_runs (enqueueLocked now b r) = mr_runs r" "mr_events (enqueueLocked now b r) = mr_events r"
  "mr_reports (enqueueLocked now b r) = mr_reports r"
  "mr_idempotency (enqueueLocked now b r) = mr_idempotency r"
  "mr_tenantIdempotency (enqueueLocked now b r) = mr_tenantIdempotency r"
  "mr_projectByRun (enqueueLocked now b r) = mr_projectByRun r"
  "mr_correlationByRun (enqueueLocked now b r) = mr_correlationByRun r"
  "mr_nextRun (enqueueLocked now b r) = mr_nextRun r"
  by (simp_all add: enqueueLocked_put)

lemma recorded_public_new:
  assumes "memory_ok r" and "mr_idempotency r k = None" and "admits_bundle r b"
  shows "recorded_public (fst (CreateRun now k h b r)) = (recorded_public r)(k \<mapsto> (h, rb_Run b))"
proof
  fix j
  have "mi_runID rec \<noteq> run_ID (rb_Run b)" if "mr_idempotency r j = Some rec" for rec
    using runs_okD(6) [OF _ that] assms(1,3) by (auto simp: memory_ok_def admits_bundle_def)
  then show "recorded_public (fst (CreateRun now k h b r)) j =
      ((recorded_public r)(k \<mapsto> (h, rb_Run b))) j"
    by (cases "mr_idempotency r j")
      (auto simp: recorded_public_def CreateRun_new [OF assms(2)])
qed

lemma recorded_tenant_new:
  assumes "memory_ok r" and "mr_tenantIdempotency r (tenantIdempotencyKey p k) = None"
    and "admits_bundle r b"
  shows "recorded_tenant p (fst (CreateRunForProject now p k h b r)) =
    (recorded_tenant p r)(k \<mapsto> (h, rb_Run b))"
proof
  fix j
  have "mi_runID rec \<noteq> run_ID (rb_Run b)"
    if "mr_tenantIdempotency r (tenantIdempotencyKey p j) = Some rec" for rec
    using runs_okD(7) [OF _ that] assms(1,3) by (auto simp: memory_ok_def admits_bundle_def)
  then show "recorded_tenant p (fst (CreateRunForProject now p k h b r)) j =
      ((recorded_tenant p r)(k \<mapsto> (h, rb_Run b))) j"
    by (cases "mr_tenantIdempotency r (tenantIdempotencyKey p j)")
      (auto simp: recorded_tenant_def CreateRunForProject_new [OF assms(2)])
qed

interpretation public_store: idempotent_store ReplayRun CreateRun recorded_public admits_bundle
  "\<lambda>_. True" memory_ok
proof unfold_locales
  fix r k h now b known b' r' x
  show "ReplayRun k h r = idempotent_answer (recorded_public r k) h"
    by (auto simp: ReplayRun_def idempotent_answer_def recorded_public_def split: option.splits)
  show "CreateRun now k h b r = (r, idempotent_answer (Some known) h)"
    if "recorded_public r k = Some known"
    using that by (auto simp: CreateRun_def idempotent_answer_def recorded_public_def Let_def)
  show "\<exists>r'. CreateRun now k h b r = (r', Inr (rb_Run b, False)) \<and> memory_ok r' \<and>
      recorded_public r' = (recorded_public r)(k \<mapsto> (h, rb_Run b))"
    if ok: "memory_ok r" and none: "recorded_public r k = None" and "admits_bundle r b"
  proof -
    have k: "mr_idempotency r k = None"
      using none by (simp add: recorded_public_def)
    show ?thesis
      using memory_ok_CreateRun [OF ok that(3), of now k h] recorded_public_new [OF ok k that(3), of now h]
      by (simp add: CreateRun_new [OF k])
  qed
  show "admits_bundle r' b"
    if "admits_bundle r b" and "run_ID (rb_Run b') \<noteq> run_ID (rb_Run b)"
      and "recorded_public r k = None" and "CreateRun now k h b' r = (r', x)"
  proof -
    have k: "mr_idempotency r k = None"
      using that(3) by (simp add: recorded_public_def)
    show ?thesis
      using that by (auto simp: CreateRun_new [OF k] admits_bundle_def)
  qed
qed

interpretation tenant_store: idempotent_store "ReplayRunForProject p"
  "\<lambda>now. CreateRunForProject now p" "recorded_tenant p" admits_bundle digest_ok memory_ok
  for p
proof unfold_locales
  fix r k h now b known b' r' x
  show "ReplayRunForProject p k h r = idempotent_answer (recorded_tenant p r k) h"
    by (auto simp: ReplayRunForProject_def idempotent_answer_def recorded_tenant_def
        split: option.splits)
  show "CreateRunForProject now p k h b r = (r, idempotent_answer (Some known) h)"
    if "recorded_tenant p r k = Some known"
    using that
    by (auto simp: CreateRunForProject_def idempotent_answer_def recorded_tenant_def Let_def)
  show "\<exists>r'. CreateRunForProject now p k h b r = (r', Inr (rb_Run b, False)) \<and> memory_ok r' \<and>
      recorded_tenant p r' = (recorded_tenant p r)(k \<mapsto> (h, rb_Run b))"
    if ok: "memory_ok r" and none: "recorded_tenant p r k = None" and "admits_bundle r b"
      and key: "digest_ok k"
  proof -
    have k: "mr_tenantIdempotency r (tenantIdempotencyKey p k) = None"
      using none by (simp add: recorded_tenant_def)
    show ?thesis
      using memory_ok_CreateRunForProject [OF ok that(3) key, of now p h]
        recorded_tenant_new [OF ok k that(3), of now h]
      by (simp add: CreateRunForProject_new [OF k])
  qed
  show "admits_bundle r' b"
    if "admits_bundle r b" and "run_ID (rb_Run b') \<noteq> run_ID (rb_Run b)"
      and "recorded_tenant p r k = None" and "CreateRunForProject now p k h b' r = (r', x)"
  proof -
    have k: "mr_tenantIdempotency r (tenantIdempotencyKey p k) = None"
      using that(3) by (simp add: recorded_tenant_def)
    show ?thesis
      using that by (auto simp: CreateRunForProject_new [OF k] admits_bundle_def)
  qed
qed

subsection \<open>Paging through events\<close>

lemma events_after_loop_events:
  assumes "int (length (eb_Events batch)) \<le> limit"
  shows "eb_Events (events_after_loop after limit evs batch) =
    eb_Events batch @ take (nat limit - length (eb_Events batch)) (filter (\<lambda>e. after < ev_Sequence e) evs)"
  using assms
proof (induction evs arbitrary: batch)
  case Nil
  then show ?case by simp
next
  case (Cons e evs)
  show ?case
  proof (cases "ev_Sequence e \<le> after \<or> limit \<le> int (length (eb_Events batch))")
    case True
    with Cons show ?thesis by (auto simp: Let_def)
  next
    case False
    then have "nat limit - length (eb_Events batch) = Suc (nat limit - Suc (length (eb_Events batch)))"
      by linarith
    with False Cons show ?thesis by (simp add: Let_def)
  qed
qed

lemma events_after_loop_high:
  assumes "sequenced (pre @ evs)" and "eb_HighWater batch = int (length pre)"
  shows "eb_HighWater (events_after_loop after limit evs batch) = int (length (pre @ evs))"
  using assms
proof (induction evs arbitrary: pre batch)
  case Nil
  then show ?case by simp
next
  case (Cons e evs)
  then have e: "ev_Sequence e = int (length pre) + 1"
    using sequenced_nth [of "pre @ e # evs" "length pre"] by simp
  from Cons.prems have "sequenced ((pre @ [e]) @ evs)" by simp
  note IH = Cons.IH [OF this]
  show ?case
    using Cons.prems(2) e by (simp add: Let_def IH)
qed

lemma events_after_loop_run [simp]: "eb_Run (events_after_loop after limit evs batch) = eb_Run batch"
  by (induction evs arbitrary: batch) (simp_all add: Let_def)

lemma sequenced_sorted: "sequenced evs \<Longrightarrow> sorted (map ev_Sequence evs)"
  by (simp add: sequenced_def sorted_iff_nth_mono)

lemma sequenced_filter:
  assumes "sequenced evs"
  shows "filter (\<lambda>e. after < ev_Sequence e) evs = drop (nat after) evs"
proof -
  have "filter (\<lambda>e. after < ev_Sequence e) evs = dropWhile (\<lambda>e. ev_Sequence e \<le> after) evs"
    by (rule filter_gt_sorted_split [OF sequenced_sorted [OF assms]])
  also have "\<dots> = drop (nat after) evs"
    using assms
  proof (induction evs rule: rev_induct)
    case Nil
    then show ?case by simp
  next
    case (snoc e evs)
    then have e: "ev_Sequence e = int (length evs) + 1" and evs: "sequenced evs"
      by (simp_all add: sequenced_snoc)
    show ?case
    proof (cases "int (length evs) \<le> after")
      case True
      then have "dropWhile (\<lambda>e. ev_Sequence e \<le> after) (evs @ [e]) = dropWhile (\<lambda>e. ev_Sequence e \<le> after) [e]"
        using sequenced_bounds [OF evs] by (intro dropWhile_append2) force
      with True e show ?thesis by auto
    next
      case False
      show ?thesis
      proof (cases "evs = []")
        case True
        with False e show ?thesis by simp
      next
        case ne: False
        with False have "nat after < length evs" by (cases evs) auto
        then have "dropWhile (\<lambda>e. ev_Sequence e \<le> after) evs \<noteq> []"
          using snoc.IH [OF evs] by simp
        then obtain x where "x \<in> set evs" "\<not> ev_Sequence x \<le> after"
          by (auto simp: dropWhile_eq_Nil_conv)
        then show ?thesis
          using snoc.IH [OF evs] \<open>nat after < length evs\<close> by (simp add: dropWhile_append1)
      qed
    qed
  qed
  finally show ?thesis .
qed

definition page_limit :: "int \<Rightarrow> nat" where
  "page_limit limit = (if limit \<le> 0 \<or> limit > 500 then 100 else nat limit)"

lemma eventsAfterLocked_page:
  assumes "mr_events r (run_ID run) = Some evs" and "sequenced evs"
  shows "eventsAfterLocked run after limit r =
    \<lparr>eb_Run = run, eb_Events = take (page_limit limit) (drop (nat after) evs),
     eb_HighWater = int (length evs)\<rparr>"
proof -
  let ?L = "if limit \<le> 0 \<or> limit > 500 then 100 else limit"
  let ?b = "\<lparr>eb_Run = run, eb_Events = [], eb_HighWater = 0\<rparr>"
  have "eb_Events (events_after_loop after ?L evs ?b) = take (page_limit limit) (drop (nat after) evs)"
    by (subst events_after_loop_events) (simp_all add: page_limit_def sequenced_filter [OF assms(2)])
  moreover have "eb_HighWater (events_after_loop after ?L evs ?b) = int (length evs)"
    using events_after_loop_high [of "[]" evs ?b] assms(2) by simp
  moreover have "sorted (map ev_Sequence (take (page_limit limit) (drop (nat after) evs)))"
    using sequenced_sorted [OF assms(2)] by (simp flip: take_map drop_map add: sorted_wrt_take sorted_wrt_drop)
  ultimately show ?thesis
    using assms(1) by (simp add: eventsAfterLocked_def Let_def sort_key_sorted_id)
qed

subsection \<open>Properties of creation\<close>

text \<open>
  Public runs are created once per idempotency key.  However concurrent \<^verbatim>\<open>CreateRun\<close> calls
  are ordered, with runs that are consistent and have their own fresh identifiers, the
  repository stays well formed, every call under a key gets the one run recorded for the key
  or, with other parameters, the idempotency conflict, exactly one call per new key is told
  it created the run, and keys recorded before keep their runs.
\<close>

theorem public_create_once:
  assumes "memory_ok r" and "\<forall>q \<in> set reqs. admits_bundle r (request_bundle q)"
    and "distinct (map request_run reqs)"
  shows "\<exists>r' xs. create_all CreateRun reqs r = (r', xs) \<and> memory_ok r' \<and>
    (\<forall>k. recorded_public r k \<noteq> None \<longrightarrow> recorded_public r' k = recorded_public r k) \<and>
    (\<forall>(q, x) \<in> set (zip reqs xs).
       answers_as (recorded_public r' (request_key q)) (request_hash q) x) \<and>
    (\<forall>k. length (filter (\<lambda>(q, x). request_key q = k \<and> created_now x) (zip reqs xs)) =
       (if recorded_public r k = None \<and> k \<in> request_key ` set reqs then 1 else 0))"
proof -
  have "\<forall>q \<in> set reqs. admits_bundle r (request_bundle q) \<and> True"
    using assms(2) by simp
  from public_store.create_all_once [OF assms(1) this assms(3)] show ?thesis
    by (elim exE conjE) (intro exI conjI)
qed

text \<open>
  The same holds in every project: \<^verbatim>\<open>CreateRunForProject\<close> creates one run per key and
  project, and all calls under the key agree on it.
\<close>

theorem tenant_create_once:
  assumes "memory_ok r" and "\<forall>q \<in> set reqs. admits_bundle r (request_bundle q) \<and> digest_ok (request_key q)"
    and "distinct (map request_run reqs)"
  shows "\<exists>r' xs. create_all (\<lambda>now. CreateRunForProject now p) reqs r = (r', xs) \<and> memory_ok r' \<and>
    (\<forall>k. recorded_tenant p r k \<noteq> None \<longrightarrow> recorded_tenant p r' k = recorded_tenant p r k) \<and>
    (\<forall>(q, x) \<in> set (zip reqs xs).
       answers_as (recorded_tenant p r' (request_key q)) (request_hash q) x) \<and>
    (\<forall>k. length (filter (\<lambda>(q, x). request_key q = k \<and> created_now x) (zip reqs xs)) =
       (if recorded_tenant p r k = None \<and> k \<in> request_key ` set reqs then 1 else 0))"
  using tenant_store.create_all_once [OF assms, of p] by (elim exE conjE) (intro exI conjI)

text \<open>Two bundles for the witnesses.\<close>

definition sample_bundle :: "int \<Rightarrow> RunBundle" where
  "sample_bundle n =
     the (buildRunBundle (runID n) n (hd seededScenarios) FaultDuplicate demoEpoch)"

lemma sample_bundle_facts:
  "bundle_ok (sample_bundle n)" "run_ID (rb_Run (sample_bundle n)) = runID n"
proof -
  have "4 \<le> length (runID n)" by (simp add: runID_def)
  from buildRunBundle_facts [OF this, of n "hd seededScenarios" FaultDuplicate demoEpoch]
  show "bundle_ok (sample_bundle n)" "run_ID (rb_Run (sample_bundle n)) = runID n"
    by (auto simp: sample_bundle_def bundle_consistent_ok)
qed

lemma admits_sample:
  assumes "1 \<le> n" and "n \<le> 3"
  shows "admits_bundle NewMemoryRepository (sample_bundle n)"
  using assms by (auto simp: admits_bundle_def sample_bundle_facts NewMemoryRepository_def runID_inj)

definition sample_requests :: "create_request list" where
  "sample_requests =
     [(0, replicate 32 CHR ''k'', ''h'', sample_bundle 1), (1, replicate 32 CHR ''k'', ''h'', sample_bundle 2),
      (2, replicate 32 CHR ''k'', ''other'', sample_bundle 3)]"

lemma sample_requests_facts:
  "\<forall>q \<in> set sample_requests. admits_bundle NewMemoryRepository (request_bundle q) \<and>
     digest_ok (request_key q)"
  "distinct (map request_run sample_requests)"
  "request_key ` set sample_requests = {replicate 32 CHR ''k''}"
  by (auto simp: sample_requests_def admits_sample sample_bundle_facts runID_inj digest_ok_def)

lemma recorded_new [simp]:
  "recorded_public NewMemoryRepository k = None" "recorded_tenant p NewMemoryRepository k = None"
  by (simp_all add: recorded_public_def recorded_tenant_def NewMemoryRepository_def)

theorem public_create_once_witness:
  "\<exists>r' xs. create_all CreateRun sample_requests NewMemoryRepository = (r', xs) \<and> memory_ok r' \<and>
     length (filter (\<lambda>(q, x). request_key q = replicate 32 CHR ''k'' \<and> created_now x)
       (zip sample_requests xs)) = 1"
  using public_create_once [OF memory_ok_new, of sample_requests] sample_requests_facts by auto

theorem tenant_create_once_witness:
  "\<exists>r' xs. create_all (\<lambda>now. CreateRunForProject now ''p'') sample_requests NewMemoryRepository =
       (r', xs) \<and> memory_ok r' \<and>
     length (filter (\<lambda>(q, x). request_key q = replicate 32 CHR ''k'' \<and> created_now x)
       (zip sample_requests xs)) = 1"
  using tenant_create_once [OF memory_ok_new, of sample_requests "''p''"] sample_requests_facts by auto

end
