(* ===== verification/MemoryScopes.thy ===== *)
theory MemoryScopes
  imports MemoryRuns "HOL-Library.Multiset"
begin

text \<open>
  What the scopes of the run store promise: a project sees its own runs only, the public demo
  sees the runs no project owns, a creation in one project is invisible to every other
  reader, lists hold each run of the scope once with the latest first, and pages of events
  are contiguous.
\<close>

subsection \<open>What a reader sees\<close>

definition visible :: "goerr + 'a \<times> bool \<Rightarrow> 'a option" where
  "visible x = (case x of Inl _ \<Rightarrow> None | Inr (v, ok) \<Rightarrow> if ok then Some v else None)"

lemma visible_simps [simp]:
  "visible (Inl e) = None" "visible (Inr (v, ok)) = (if ok then Some v else None)"
  by (simp_all add: visible_def)

definition owned_by :: "string \<Rightarrow> MemoryRepository \<Rightarrow> string \<Rightarrow> bool" where
  "owned_by p r i \<longleftrightarrow> mr_runs r i \<noteq> None \<and> get0 [] (mr_projectByRun r) i = p"

definition public_run :: "MemoryRepository \<Rightarrow> string \<Rightarrow> bool" where
  "public_run r i \<longleftrightarrow> mr_runs r i \<noteq> None \<and> mr_projectByRun r i = None"

lemma visible_project:
  assumes "runs_ok r"
  shows "visible (RunForProject p i r) = (if owned_by p r i then mr_runs r i else None)"
    and "visible (EventsForProject p i r) = (if owned_by p r i then mr_events r i else None)"
    and "visible (ReportForProject p i r) = (if owned_by p r i then mr_reports r i else None)"
    and "visible (EventsAfterForProject p i after limit r) =
      (if owned_by p r i then Some (eventsAfterLocked (the (mr_runs r i)) after limit r) else None)"
proof -
  have "mr_runs r i \<noteq> None \<Longrightarrow> mr_events r i \<noteq> None \<and> mr_reports r i \<noteq> None"
    using runs_okD(2,3) [OF assms] by blast
  then show "visible (RunForProject p i r) = (if owned_by p r i then mr_runs r i else None)"
    and "visible (EventsForProject p i r) = (if owned_by p r i then mr_events r i else None)"
    and "visible (ReportForProject p i r) = (if owned_by p r i then mr_reports r i else None)"
    and "visible (EventsAfterForProject p i after limit r) =
      (if owned_by p r i then Some (eventsAfterLocked (the (mr_runs r i)) after limit r) else None)"
    by (auto simp: owned_by_def RunForProject_def EventsForProject_def ReportForProject_def
        EventsAfterForProject_def Events_get_def Report_get_def split: option.splits)
qed

lemma visible_public:
  assumes "runs_ok r"
  shows "visible (PublicRun i r) = (if public_run r i then mr_runs r i else None)"
    and "visible (PublicEvents i r) = (if public_run r i then mr_events r i else None)"
    and "visible (PublicReport i r) = (if public_run r i then mr_reports r i else None)"
    and "visible (PublicEventsAfter i after limit r) =
      (if public_run r i then Some (eventsAfterLocked (the (mr_runs r i)) after limit r) else None)"
proof -
  have "mr_runs r i \<noteq> None \<Longrightarrow> mr_events r i \<noteq> None \<and> mr_reports r i \<noteq> None"
    using runs_okD(2,3) [OF assms] by blast
  then show "visible (PublicRun i r) = (if public_run r i then mr_runs r i else None)"
    and "visible (PublicEvents i r) = (if public_run r i then mr_events r i else None)"
    and "visible (PublicReport i r) = (if public_run r i then mr_reports r i else None)"
    and "visible (PublicEventsAfter i after limit r) =
      (if public_run r i then Some (eventsAfterLocked (the (mr_runs r i)) after limit r) else None)"
    by (auto simp: public_run_def PublicRun_def PublicEvents_def PublicReport_def
        PublicEventsAfter_def Events_get_def Report_get_def split: option.splits)
qed

subsection \<open>Creating in one project\<close>

text \<open>All a creation changes: the new run, owned by its project, and one record.\<close>

lemma CreateRunForProject_frame:
  assumes "CreateRunForProject now p k h b r = (r', x)" and "memory_ok r" and "admits_bundle r b"
  shows "i \<noteq> run_ID (rb_Run b) \<Longrightarrow> mr_runs r' i = mr_runs r i \<and> mr_events r' i = mr_events r i \<and>
      mr_reports r' i = mr_reports r i \<and> mr_projectByRun r' i = mr_projectByRun r i"
    and "mr_runs r (run_ID (rb_Run b)) = None"
    and "mr_runs r' (run_ID (rb_Run b)) \<noteq> None \<Longrightarrow> mr_projectByRun r' (run_ID (rb_Run b)) = Some p"
    and "mr_idempotency r' = mr_idempotency r"
    and "key \<noteq> tenantIdempotencyKey p k \<Longrightarrow> mr_tenantIdempotency r' key = mr_tenantIdempotency r key"
proof -
  have fresh: "mr_runs r (run_ID (rb_Run b)) = None"
    using assms(3) by (auto simp: admits_bundle_def)
  then show "mr_runs r (run_ID (rb_Run b)) = None" .
  show "i \<noteq> run_ID (rb_Run b) \<Longrightarrow> mr_runs r' i = mr_runs r i \<and> mr_events r' i = mr_events r i \<and>
      mr_reports r' i = mr_reports r i \<and> mr_projectByRun r' i = mr_projectByRun r i"
    and "mr_runs r' (run_ID (rb_Run b)) \<noteq> None \<Longrightarrow> mr_projectByRun r' (run_ID (rb_Run b)) = Some p"
    and "mr_idempotency r' = mr_idempotency r"
    and "key \<noteq> tenantIdempotencyKey p k \<Longrightarrow> mr_tenantIdempotency r' key = mr_tenantIdempotency r key"
    using assms(1) fresh
    by (auto simp: CreateRunForProject_def Let_def split: option.splits if_splits)
qed

lemma eventsAfterLocked_cong:
  "mr_events r' (run_ID run) = mr_events r (run_ID run) \<Longrightarrow>
     eventsAfterLocked run after limit r' = eventsAfterLocked run after limit r"
  by (simp add: eventsAfterLocked_def get0_def)

text \<open>
  Tenant isolation: creating a run in one project changes no answer to another project or to
  the public demo.  For every other project \<^verbatim>\<open>q\<close> and every run identifier, the run, events,
  event pages and report it sees, and every replay of its keys, are as before, and so are
  all public reads and replays.
\<close>

theorem tenant_isolation:
  assumes "memory_ok r" and "admits_bundle r b" and "digest_ok k" and "q \<noteq> p"
    and "CreateRunForProject now p k h b r = (r', x)" and "digest_ok k'"
  shows "visible (RunForProject q i r') = visible (RunForProject q i r) \<and>
    visible (EventsForProject q i r') = visible (EventsForProject q i r) \<and>
    visible (EventsAfterForProject q i after limit r') = visible (EventsAfterForProject q i after limit r) \<and>
    visible (ReportForProject q i r') = visible (ReportForProject q i r) \<and>
    ReplayRunForProject q k' h' r' = ReplayRunForProject q k' h' r \<and>
    visible (PublicRun i r') = visible (PublicRun i r) \<and>
    visible (PublicEvents i r') = visible (PublicEvents i r) \<and>
    visible (PublicEventsAfter i after limit r') = visible (PublicEventsAfter i after limit r) \<and>
    visible (PublicReport i r') = visible (PublicReport i r) \<and>
    ReplayRun k' h' r' = ReplayRun k' h' r"
proof -
  note frame = CreateRunForProject_frame [OF assms(5,1,2)]
  have ok: "runs_ok r" "runs_ok r'"
    using assms(1) memory_ok_CreateRunForProject [OF assms(1-3), of now p h] assms(5)
    by (simp_all add: memory_ok_def)
  have own: "owned_by q r' j = owned_by q r j" and pub: "public_run r' j = public_run r j" for j
    using frame(1) [of j] frame(2,3) assms(4)
    by (cases "j = run_ID (rb_Run b)"; auto simp: owned_by_def public_run_def get0_def)+
  have same: "mr_runs r' j = mr_runs r j" "mr_events r' j = mr_events r j" "mr_reports r' j = mr_reports r j"
    if "owned_by q r j \<or> public_run r j" for j
  proof -
    have "j \<noteq> run_ID (rb_Run b)"
      using that frame(2) by (auto simp: owned_by_def public_run_def)
    from frame(1) [OF this] show "mr_runs r' j = mr_runs r j" "mr_events r' j = mr_events r j"
      "mr_reports r' j = mr_reports r j" by simp_all
  qed
  have page: "eventsAfterLocked (the (mr_runs r' i)) after limit r' =
      eventsAfterLocked (the (mr_runs r i)) after limit r" if vis: "owned_by q r i \<or> public_run r i"
  proof -
    obtain run where run: "mr_runs r i = Some run"
      using vis by (auto simp: owned_by_def public_run_def)
    have "eventsAfterLocked run after limit r' = eventsAfterLocked run after limit r"
      by (rule eventsAfterLocked_cong) (simp add: runs_ok_run_ID [OF ok(1) run] same [OF vis])
    then show ?thesis
      using run same(1) [OF vis] by simp
  qed
  have kept: "get0 zero_Run (mr_runs r') j = get0 zero_Run (mr_runs r) j" if "j \<in> dom (mr_runs r)" for j
  proof -
    have "j \<noteq> run_ID (rb_Run b)" using that frame(2) by auto
    from frame(1) [OF this] show ?thesis by (simp add: get0_def)
  qed
  have "tenantIdempotencyKey q k' \<noteq> tenantIdempotencyKey p k"
    using assms(3,4,6) by (simp add: tenant_key_inj)
  then have "ReplayRunForProject q k' h' r' = ReplayRunForProject q k' h' r"
    and "ReplayRun k' h' r' = ReplayRun k' h' r"
    using frame(4,5) kept runs_okD(6,7) [OF ok(1)]
    by (auto simp: ReplayRunForProject_def ReplayRun_def split: option.splits)
  then show ?thesis
    using same page
    by (auto simp: visible_project [OF ok(1)] visible_project [OF ok(2)] visible_public [OF ok(1)]
        visible_public [OF ok(2)] own pub)
qed

definition tenant_sample :: MemoryRepository where
  "tenant_sample =
     fst (CreateRunForProject 0 ''p'' (replicate 32 CHR ''k'') ''h'' (sample_bundle 1) NewMemoryRepository)"

lemma memory_ok_tenant_sample: "memory_ok tenant_sample"
  unfolding tenant_sample_def
  by (rule memory_ok_CreateRunForProject) (simp_all add: memory_ok_new admits_sample digest_ok_def)

theorem tenant_isolation_witness:
  "visible (RunForProject ''q'' (runID 1) tenant_sample) =
     visible (RunForProject ''q'' (runID 1) NewMemoryRepository)"
  using tenant_isolation [OF memory_ok_new admits_sample [of 1], of "replicate 32 CHR ''k''" "''q''" "''p''" 0 "''h''"
      "fst (CreateRunForProject 0 ''p'' (replicate 32 CHR ''k'') ''h'' (sample_bundle 1) NewMemoryRepository)"
      "snd (CreateRunForProject 0 ''p'' (replicate 32 CHR ''k'') ''h'' (sample_bundle 1) NewMemoryRepository)"
      "replicate 32 CHR ''k''" "runID 1" 0 0]
  by (simp add: digest_ok_def tenant_sample_def)

subsection \<open>Ownership\<close>

text \<open>
  Readers see what is theirs and nothing else: a run, its events, its report and its event
  pages are visible to a project exactly when the project owns the run, and to the public
  exactly when no project does; so a run a named project owns is never public, and never
  visible to another project.
\<close>

theorem scope_visibility:
  assumes "memory_ok r" and "mr_runs r i = Some run" and "mr_events r i = Some evs"
    and "mr_reports r i = Some rep"
  shows "visible (RunForProject p i r) = (if owned_by p r i then Some run else None) \<and>
    visible (EventsForProject p i r) = (if owned_by p r i then Some evs else None) \<and>
    visible (ReportForProject p i r) = (if owned_by p r i then Some rep else None) \<and>
    visible (PublicRun i r) = (if public_run r i then Some run else None) \<and>
    visible (PublicEvents i r) = (if public_run r i then Some evs else None) \<and>
    visible (PublicReport i r) = (if public_run r i then Some rep else None) \<and>
    \<not> (owned_by p r i \<and> owned_by q r i \<and> p \<noteq> q) \<and> \<not> (owned_by p r i \<and> p \<noteq> [] \<and> public_run r i)"
  using assms
  by (auto simp: visible_project visible_public memory_ok_def owned_by_def public_run_def)

lemma tenant_sample_run:
  "mr_runs tenant_sample (runID 1) = Some (rb_Run (sample_bundle 1))"
  "mr_events tenant_sample (runID 1) = Some (rb_Events (sample_bundle 1))"
  "mr_reports tenant_sample (runID 1) = Some (rb_Report (sample_bundle 1))"
  "owned_by ''p'' tenant_sample (runID 1)" "\<not> owned_by ''q'' tenant_sample (runID 1)"
  "dom (mr_runs tenant_sample) = {runID 1}"
proof -
  have "mr_tenantIdempotency NewMemoryRepository k = None" for k
    by (simp add: NewMemoryRepository_def)
  note new = CreateRunForProject_new [OF this]
  show "mr_runs tenant_sample (runID 1) = Some (rb_Run (sample_bundle 1))"
    "mr_events tenant_sample (runID 1) = Some (rb_Events (sample_bundle 1))"
    "mr_reports tenant_sample (runID 1) = Some (rb_Report (sample_bundle 1))"
    "owned_by ''p'' tenant_sample (runID 1)" "\<not> owned_by ''q'' tenant_sample (runID 1)"
    "dom (mr_runs tenant_sample) = {runID 1}"
    by (simp_all add: tenant_sample_def new sample_bundle_facts owned_by_def)
      (simp add: NewMemoryRepository_def)
qed

theorem scope_visibility_witness:
  "visible (RunForProject ''p'' (runID 1) tenant_sample) = Some (rb_Run (sample_bundle 1)) \<and>
   visible (RunForProject ''q'' (runID 1) tenant_sample) = None"
  using scope_visibility [OF memory_ok_tenant_sample tenant_sample_run(1-3)]
  by (simp add: tenant_sample_run)

subsection \<open>Lists\<close>

lemma mset_by_start_desc [simp]: "mset (by_start_desc rs) = mset rs"
  by (simp add: by_start_desc_def)

lemma sorted_by_start_desc: "sorted_wrt (\<lambda>x y. run_StartedAt y \<le> run_StartedAt x) (by_start_desc rs)"
proof -
  have "sorted (map (\<lambda>x. - run_StartedAt x) (by_start_desc rs))"
    by (simp add: by_start_desc_def)
  then show ?thesis by (simp add: sorted_map)
qed

lemma enumerates_filter_mset:
  assumes "enumerates ks m"
  shows "mset (filter P ks) = mset_set {k \<in> dom m. P k}"
proof -
  have "mset (filter P ks) = mset_set (set (filter P ks))"
    using assms by (intro mset_set_set [symmetric]) (simp add: enumerates_def)
  also have "set (filter P ks) = {k \<in> dom m. P k}"
    using assms by (auto simp: enumerates_def)
  finally show ?thesis .
qed

text \<open>The runs of a scope, one each, for the identifiers a predicate selects.\<close>

definition runs_where :: "MemoryRepository \<Rightarrow> (string \<Rightarrow> bool) \<Rightarrow> Run multiset" where
  "runs_where r P = image_mset (\<lambda>i. the (mr_runs r i)) (mset_set {i \<in> dom (mr_runs r). P i})"

lemma list_scope:
  assumes "enumerates ks (mr_runs r)"
  shows "mset (map (get0 zero_Run (mr_runs r)) (filter P ks)) = runs_where r P"
proof -
  have "map (get0 zero_Run (mr_runs r)) (filter P ks) = map (\<lambda>i. the (mr_runs r i)) (filter P ks)"
    using assms by (auto simp: enumerates_def get0_def)
  then show ?thesis
    by (simp only: runs_where_def enumerates_filter_mset [OF assms, symmetric] mset_map)
qed

text \<open>
  The lists are complete and ordered: in whatever order the map is iterated, \<^verbatim>\<open>ListRuns\<close>
  returns every stored run once, \<^verbatim>\<open>ListRunsForProject\<close> those the project owns and
  \<^verbatim>\<open>ListPublicRuns\<close> those no project owns, each with the latest start first.
\<close>

theorem lists_complete:
  assumes "enumerates ks (mr_runs r)"
  shows "\<exists>xs ys zs. ListRuns ks r = Inr xs \<and> ListRunsForProject ks p r = Inr ys \<and>
    ListPublicRuns ks r = Inr zs \<and>
    mset xs = runs_where r (\<lambda>i. True) \<and> mset ys = runs_where r (owned_by p r) \<and>
    mset zs = runs_where r (public_run r) \<and>
    list_all (sorted_wrt (\<lambda>x y. run_StartedAt y \<le> run_StartedAt x)) [xs, ys, zs]"
proof -
  have eq: "runs_where r (\<lambda>i. get0 [] (mr_projectByRun r) i = p) = runs_where r (owned_by p r)"
    "runs_where r (\<lambda>i. mr_projectByRun r i = None) = runs_where r (public_run r)"
    by (auto simp: runs_where_def owned_by_def public_run_def intro!: arg_cong [of _ _ mset_set]
        arg_cong [of _ _ "image_mset _"])
  show ?thesis
    using list_scope [OF assms, of "\<lambda>i. True"] list_scope [OF assms, of "\<lambda>i. get0 [] (mr_projectByRun r) i = p"]
      list_scope [OF assms, of "\<lambda>i. mr_projectByRun r i = None"]
    by (simp add: ListRuns_def ListRunsForProject_def ListPublicRuns_def sorted_by_start_desc eq)
qed

theorem lists_complete_witness:
  "\<exists>ys. ListRunsForProject [runID 1] ''p'' tenant_sample = Inr ys \<and> size (mset ys) = 1"
proof -
  have en: "enumerates [runID 1] (mr_runs tenant_sample)"
    by (simp add: enumerates_def tenant_sample_run)
  have "{i \<in> {runID 1}. owned_by ''p'' tenant_sample i} = {runID 1}"
    using tenant_sample_run(4) by auto
  then show ?thesis
    using lists_complete [OF en, of "''p''"] by (auto simp: runs_where_def tenant_sample_run(6))
qed

subsection \<open>Pages of events\<close>

text \<open>
  Event pages are contiguous: reading after sequence number \<^verbatim>\<open>a\<close> returns the run and the
  events numbered \<^verbatim>\<open>a+1, a+2, ...\<close> up to the limit (100 when the limit is not between 1 and
  500) or the end, and the high water mark is the number of events; reading on after the
  last event of a page gives the next page, so the pages of a run are its events without a
  gap or a repetition.
\<close>

theorem events_page:
  assumes "memory_ok r" and "mr_runs r i = Some run" and "mr_events r i = Some evs" and "0 \<le> a"
  shows "EventsAfter i a limit r =
      Inr (\<lparr>eb_Run = run, eb_Events = take (page_limit limit) (drop (nat a) evs),
            eb_HighWater = int (length evs)\<rparr>, True) \<and>
    (\<forall>j < length (take (page_limit limit) (drop (nat a) evs)).
       ev_Sequence (take (page_limit limit) (drop (nat a) evs) ! j) = a + int j + 1) \<and>
    run_EventCount run = int (length evs)"
proof -
  have ok: "runs_ok r" using assms(1) by (simp add: memory_ok_def)
  obtain evs' where evs: "mr_events r i = Some evs'" "run_ID run = i" "sequenced evs'"
      "run_EventCount run = int (length evs')"
    using runs_ok_story [OF ok assms(2)] by metis
  then have seq: "sequenced evs" and count: "run_EventCount run = int (length evs)"
    using assms(3) by simp_all
  let ?page = "take (page_limit limit) (drop (nat a) evs)"
  have "\<forall>j < length ?page. ev_Sequence (?page ! j) = a + int j + 1"
  proof (intro allI impI)
    fix j assume j: "j < length ?page"
    then have "nat a \<le> length evs" and "nat a + j < length evs"
      by (simp_all add: less_diff_conv add.commute)
    with j show "ev_Sequence (?page ! j) = a + int j + 1"
      using assms(4) sequenced_nth [OF seq, of "nat a + j"] by simp
  qed
  moreover have "EventsAfter i a limit r =
      Inr (\<lparr>eb_Run = run, eb_Events = ?page, eb_HighWater = int (length evs)\<rparr>, True)"
    using assms(2,3) evs(2) seq by (simp add: EventsAfter_def eventsAfterLocked_page)
  ultimately show ?thesis
    using count by blast
qed

theorem events_page_witness:
  "EventsAfter (runID 1) 2 3 tenant_sample =
     Inr (\<lparr>eb_Run = rb_Run (sample_bundle 1),
            eb_Events = take 3 (drop 2 (rb_Events (sample_bundle 1))),
            eb_HighWater = int (length (rb_Events (sample_bundle 1)))\<rparr>, True)"
  using events_page [OF memory_ok_tenant_sample tenant_sample_run(1,2), of 2 3]
  by (simp add: page_limit_def)

end
