(* ===== verification/MemoryWebhooks.thy ===== *)
theory MemoryWebhooks
  imports MemoryScopes
begin

text \<open>
  The webhook store of the in-memory repository: the durable deduplication of deliveries
  and the correlation of a received event with the run it belongs to.  The loop over the
  runs map takes the order of its iteration as an argument; that the outcome does not
  depend on it is proved.
\<close>

subsection \<open>Operations\<close>

definition webhook_payload :: "WebhookReceipt \<Rightarrow> RawMessage" where
  "webhook_payload receipt = JSONObject
     [''stripe_event_id'' \<mapsto> AnyString (wr_EventID receipt),
      ''event_type'' \<mapsto> AnyString (wr_EventType receipt)]"

definition MarkWebhookSeen ::
  "time \<Rightarrow> WebhookReceipt \<Rightarrow> MemoryRepository \<Rightarrow> MemoryRepository \<times> (goerr + bool)" where
  "MarkWebhookSeen now receipt r =
     (case mr_webhooks r (wr_EventID receipt) of
        Some previous \<Rightarrow>
          if wr_EventType previous \<noteq> wr_EventType receipt \<or>
             wr_EndpointTokenSHA previous \<noteq> wr_EndpointTokenSHA receipt \<or>
             wr_BodySHA previous \<noteq> wr_BodySHA receipt
          then (r, Inl ErrWebhookConflict) else (r, Inr True)
      | None \<Rightarrow>
          (putOutboxLocked now ''stripe.webhook.received'' (wr_EventID receipt)
             (webhook_payload receipt)
             (r\<lparr>mr_webhooks := (mr_webhooks r)(wr_EventID receipt \<mapsto> receipt)\<rparr>), Inr False))"

definition webhook_result ::
  "WebhookReceipt \<Rightarrow> WebhookProcessingStatus \<Rightarrow> string \<Rightarrow> WebhookProcessingResult" where
  "webhook_result receipt status code =
     \<lparr>wp_EventID = wr_EventID receipt, wp_EventType = wr_EventType receipt, wp_Status = status,
      wp_RunID = [], wp_ProjectID = [], wp_ProcessingCode = code, wp_AlreadyProcessed = False\<rparr>"

text \<open>\<^verbatim>\<open>r.webhookResults[eventID] = result; return result, nil\<close>\<close>

definition finish_webhook ::
  "string \<Rightarrow> WebhookProcessingResult \<Rightarrow> MemoryRepository \<Rightarrow>
   MemoryRepository \<times> (goerr + WebhookProcessingResult)" where
  "finish_webhook eventID res r =
     (r\<lparr>mr_webhookResults := (mr_webhookResults r)(eventID \<mapsto> res)\<rparr>, Inr res)"

definition next_sequence :: "Event list \<Rightarrow> int" where
  "next_sequence evs =
     foldl (\<lambda>n e. if n \<le> ev_Sequence e then ev_Sequence e + 1 else n) 1 evs"

text \<open>The projection of a correlated event into its run.\<close>

definition project_webhook ::
  "crypto \<Rightarrow> time \<Rightarrow> WebhookReceipt \<Rightarrow> string \<Rightarrow> MemoryRepository \<Rightarrow> MemoryRepository" where
  "project_webhook C now receipt i r =
     (let events = get0 [] (mr_events r) i;
          event = BuildWebhookRunEvent C now receipt i (next_sequence events);
          events' = events @ [event];
          run = (get0 zero_Run (mr_runs r) i)\<lparr>run_EventCount := int (length events')\<rparr>;
          report0 = (get0 zero_Report (mr_reports r) i)\<lparr>rp_Run := run\<rparr>;
          report =
            (if \<not> HasAssertion (rp_Assertions report0) ''assert_stripe_webhook_correlated''
             then (let assertions = rp_Assertions report0 @ [WebhookCorrelationAssertion receipt]
                   in report0\<lparr>rp_Assertions := assertions,
                              rp_Summary := assertion_summary ''verification'' assertions\<rparr>)
             else report0)
      in r\<lparr>mr_events := (mr_events r)(i \<mapsto> events'), mr_runs := (mr_runs r)(i \<mapsto> run),
           mr_reports := (mr_reports r)(i \<mapsto> report)\<rparr>)"

definition object_matches :: "string list \<Rightarrow> WebhookReceipt \<Rightarrow> MemoryRepository \<Rightarrow> string list" where
  "object_matches ids receipt r =
     filter (\<lambda>i. run_StripeObjectID (get0 zero_Run (mr_runs r) i) = wr_StripeObjectID receipt) ids"

definition correlated_matches ::
  "string list \<Rightarrow> WebhookReceipt \<Rightarrow> MemoryRepository \<Rightarrow> string list" where
  "correlated_matches ids receipt r =
     filter (\<lambda>i. get0 [] (mr_correlationByRun r) i = wr_CorrelationID receipt)
       (object_matches ids receipt r)"

definition ProcessStripeWebhook ::
  "crypto \<Rightarrow> string list \<Rightarrow> time \<Rightarrow> string \<Rightarrow> MemoryRepository \<Rightarrow>
   MemoryRepository \<times> (goerr + WebhookProcessingResult)" where
  "ProcessStripeWebhook C ids now eventID r =
     (case mr_webhookResults r eventID of
        Some previous \<Rightarrow> (r, Inr (previous\<lparr>wp_AlreadyProcessed := True\<rparr>))
      | None \<Rightarrow>
     (case mr_webhooks r eventID of
        None \<Rightarrow> (r, Inl (ErrNew ''webhook receipt not found''))
      | Some receipt \<Rightarrow>
          if \<not> IsSupportedStripeWebhookType (wr_EventType receipt)
          then finish_webhook eventID (webhook_result receipt WebhookIgnored ''unsupported_event_type'') r
          else if wr_StripeObjectID receipt = []
          then finish_webhook eventID (webhook_result receipt WebhookUnmatched ''missing_stripe_object_id'') r
          else if wr_CorrelationID receipt = []
          then finish_webhook eventID (webhook_result receipt WebhookUnmatched ''missing_correlation_id'') r
          else if object_matches ids receipt r = []
          then finish_webhook eventID (webhook_result receipt WebhookUnmatched ''run_not_found'') r
          else if correlated_matches ids receipt r = []
          then finish_webhook eventID (webhook_result receipt WebhookUnmatched ''correlation_mismatch'') r
          else if 1 < length (correlated_matches ids receipt r)
          then finish_webhook eventID (webhook_result receipt WebhookUnmatched ''ambiguous_run_match'') r
          else
            (let i = hd (correlated_matches ids receipt r);
                 res = (webhook_result receipt WebhookMatched [])\<lparr>wp_RunID := i,
                         wp_ProjectID := get0 [] (mr_projectByRun r) i\<rparr>
             in finish_webhook eventID res (project_webhook C now receipt i r))))"

subsection \<open>The outcome does not depend on the iteration\<close>

lemma correlated_matches_filter:
  "correlated_matches ids receipt r =
     filter (\<lambda>i. run_StripeObjectID (get0 zero_Run (mr_runs r) i) = wr_StripeObjectID receipt \<and>
       get0 [] (mr_correlationByRun r) i = wr_CorrelationID receipt) ids"
  by (simp add: correlated_matches_def object_matches_def conj_commute)

lemma ProcessStripeWebhook_order:
  assumes "enumerates ids (mr_runs r)" and "enumerates ids' (mr_runs r)"
  shows "ProcessStripeWebhook C ids now eventID r = ProcessStripeWebhook C ids' now eventID r"
proof -
  have obj: "object_matches ids receipt r = [] \<longleftrightarrow> object_matches ids' receipt r = []" for receipt
    unfolding object_matches_def using enumerates_filter_length [OF assms]
    by (metis length_0_conv)
  have len: "length (correlated_matches ids receipt r) = length (correlated_matches ids' receipt r)" for receipt
    unfolding correlated_matches_filter by (rule enumerates_filter_length [OF assms])
  have hd: "hd (correlated_matches ids receipt r) = hd (correlated_matches ids' receipt r)"
    if one: "correlated_matches ids receipt r \<noteq> []" "\<not> 1 < length (correlated_matches ids receipt r)"
    for receipt
  proof -
    obtain i where "correlated_matches ids receipt r = [i]"
      using one by (cases "correlated_matches ids receipt r") auto
    then show ?thesis
      unfolding correlated_matches_filter by (simp add: filter_singleton_order [OF assms])
  qed
  have nil: "correlated_matches ids receipt r = [] \<longleftrightarrow> correlated_matches ids' receipt r = []" for receipt
    using len [of receipt] by (metis length_0_conv)
  show ?thesis
  proof (cases "mr_webhookResults r eventID")
    case (Some x)
    then show ?thesis by (simp add: ProcessStripeWebhook_def)
  next
    case none: None
    show ?thesis
    proof (cases "mr_webhooks r eventID")
      case None
      with none show ?thesis by (simp add: ProcessStripeWebhook_def)
    next
      case (Some receipt)
      show ?thesis
        unfolding ProcessStripeWebhook_def none Some option.case obj [of receipt] nil [of receipt]
          len [of receipt]
        using hd [of receipt] len [of receipt] nil [of receipt] by (simp add: Let_def)
    qed
  qed
qed

subsection \<open>Decision and projection\<close>

text \<open>
  The result a receipt gets, apart from the state change it causes.  It reads only which
  runs are stored, their Stripe objects, correlations and owners.
\<close>

definition webhook_decision ::
  "string list \<Rightarrow> WebhookReceipt \<Rightarrow> MemoryRepository \<Rightarrow> WebhookProcessingResult" where
  "webhook_decision ids receipt r =
     (let matches = correlated_matches ids receipt r in
      if \<not> IsSupportedStripeWebhookType (wr_EventType receipt)
      then webhook_result receipt WebhookIgnored ''unsupported_event_type''
      else if wr_StripeObjectID receipt = []
      then webhook_result receipt WebhookUnmatched ''missing_stripe_object_id''
      else if wr_CorrelationID receipt = []
      then webhook_result receipt WebhookUnmatched ''missing_correlation_id''
      else if object_matches ids receipt r = []
      then webhook_result receipt WebhookUnmatched ''run_not_found''
      else if matches = [] then webhook_result receipt WebhookUnmatched ''correlation_mismatch''
      else if 1 < length matches then webhook_result receipt WebhookUnmatched ''ambiguous_run_match''
      else (webhook_result receipt WebhookMatched [])\<lparr>wp_RunID := hd matches,
              wp_ProjectID := get0 [] (mr_projectByRun r) (hd matches)\<rparr>)"

lemma webhook_result_fields [simp]:
  "wp_Status (webhook_result rc s c) = s" "wp_ProcessingCode (webhook_result rc s c) = c"
  "wp_EventID (webhook_result rc s c) = wr_EventID rc" "wp_RunID (webhook_result rc s c) = []"
  by (simp_all add: webhook_result_def)

lemma ProcessStripeWebhook_decision:
  assumes "mr_webhookResults r e = None" and "mr_webhooks r e = Some receipt"
  shows "ProcessStripeWebhook C ids now e r =
    finish_webhook e (webhook_decision ids receipt r)
      (if wp_Status (webhook_decision ids receipt r) = WebhookMatched
       then project_webhook C now receipt (wp_RunID (webhook_decision ids receipt r)) r else r)"
  using assms by (simp add: ProcessStripeWebhook_def webhook_decision_def Let_def)

lemma webhook_decision_matched:
  assumes "wp_Status (webhook_decision ids receipt r) = WebhookMatched" and "set ids = dom (mr_runs r)"
  shows "\<exists>run. mr_runs r (wp_RunID (webhook_decision ids receipt r)) = Some run \<and>
    run_StripeObjectID run = wr_StripeObjectID receipt"
proof -
  let ?m = "correlated_matches ids receipt r"
  have "?m \<noteq> []" and id: "wp_RunID (webhook_decision ids receipt r) = hd ?m"
    using assms(1) by (auto simp: webhook_decision_def Let_def split: if_splits)
  then have "hd ?m \<in> set ?m" by simp
  then show ?thesis
    unfolding id using assms(2) by (auto simp: correlated_matches_filter get0_def)
qed

lemma webhook_decision_cong:
  assumes "\<And>i. get0 zero_Run (mr_runs r') i\<lparr>run_EventCount := 0\<rparr> =
      get0 zero_Run (mr_runs r) i\<lparr>run_EventCount := 0\<rparr>"
    and "mr_correlationByRun r' = mr_correlationByRun r" and "mr_projectByRun r' = mr_projectByRun r"
  shows "webhook_decision ids receipt r' = webhook_decision ids receipt r"
proof -
  have "run_StripeObjectID (get0 zero_Run (mr_runs r') i) = run_StripeObjectID (get0 zero_Run (mr_runs r) i)" for i
    using arg_cong [OF assms(1) [of i], of run_StripeObjectID] by simp
  then have eqs: "object_matches ids receipt r' = object_matches ids receipt r"
    "correlated_matches ids receipt r' = correlated_matches ids receipt r"
    by (simp_all add: object_matches_def correlated_matches_filter assms(2))
  show ?thesis
    unfolding webhook_decision_def eqs assms(3) by (rule refl)
qed

lemma next_sequence_snoc:
  "next_sequence (evs @ [e]) =
     (if next_sequence evs \<le> ev_Sequence e then ev_Sequence e + 1 else next_sequence evs)"
  by (simp add: next_sequence_def)

lemma next_sequence_sequenced: "sequenced evs \<Longrightarrow> next_sequence evs = int (length evs) + 1"
proof (induction evs rule: rev_induct)
  case Nil
  then show ?case by (simp add: next_sequence_def)
next
  case (snoc e evs)
  then show ?case by (simp add: sequenced_snoc next_sequence_snoc)
qed

text \<open>The report after a projection, and what the projection leaves alone.\<close>

definition correlated_report :: "WebhookReceipt \<Rightarrow> Run \<Rightarrow> Report \<Rightarrow> Report" where
  "correlated_report receipt run rep =
     (if HasAssertion (rp_Assertions rep) ''assert_stripe_webhook_correlated'' then rep\<lparr>rp_Run := run\<rparr>
      else rep\<lparr>rp_Run := run, rp_Assertions := rp_Assertions rep @ [WebhookCorrelationAssertion receipt],
             rp_Summary := assertion_summary ''verification''
               (rp_Assertions rep @ [WebhookCorrelationAssertion receipt])\<rparr>)"

lemma project_webhook_eq:
  assumes "mr_runs r i = Some run" and "mr_events r i = Some evs" and "mr_reports r i = Some rep"
    and "sequenced evs"
  shows "project_webhook C now receipt i r =
    (let run' = run\<lparr>run_EventCount := int (length evs) + 1\<rparr>
     in r\<lparr>mr_events := (mr_events r)
            (i \<mapsto> evs @ [BuildWebhookRunEvent C now receipt i (int (length evs) + 1)]),
          mr_runs := (mr_runs r)(i \<mapsto> run'),
          mr_reports := (mr_reports r)(i \<mapsto> correlated_report receipt run' rep)\<rparr>)"
  using assms by (simp add: project_webhook_def correlated_report_def next_sequence_sequenced Let_def
      add.commute)

lemma correlated_report_run [simp]: "rp_Run (correlated_report receipt run rep) = run"
  by (simp add: correlated_report_def)

lemma runs_ok_project_webhook:
  assumes "runs_ok r" and "mr_runs r i = Some run"
  shows "runs_ok (project_webhook C now receipt i r)"
proof -
  obtain evs rep where s: "mr_events r i = Some evs" "mr_reports r i = Some rep" "run_ID run = i"
      "sequenced evs" "list_all (\<lambda>e. ev_RunID e = i) evs" "run_EventCount run = int (length evs)"
      "rp_Run rep = run"
    using runs_ok_story [OF assms] by metis
  let ?r = "project_webhook C now receipt i r"
  note eq = project_webhook_eq [OF assms(2) s(1,2,4), of C now receipt]
  have i: "i \<in> dom (mr_runs r)" using assms(2) by auto
  have doms: "dom (mr_runs ?r) = dom (mr_runs r)" "dom (mr_events ?r) = dom (mr_runs r)"
      "dom (mr_reports ?r) = dom (mr_runs r)"
    using i runs_okD(2,3) [OF assms(1)] by (auto simp: eq Let_def)
  have same: "mr_projectByRun ?r = mr_projectByRun r" "mr_idempotency ?r = mr_idempotency r"
      "mr_tenantIdempotency ?r = mr_tenantIdempotency r" "mr_nextRun ?r = mr_nextRun r"
    by (simp_all add: eq Let_def)
  have "story_ok ?r j" if "j \<in> dom (mr_runs r)" for j
  proof (cases "j = i")
    case True
    with s show ?thesis by (simp add: story_ok_def eq Let_def sequenced_snoc)
  next
    case False
    then have "story_ok ?r j = story_ok r j"
      by (intro story_ok_cong) (simp_all add: eq Let_def)
    with runs_okD(4) [OF assms(1) that] show ?thesis by simp
  qed
  then show ?thesis
    using assms(1) unfolding runs_ok_def by (simp add: doms same)
qed

lemma outbox_ok_project_webhook [simp]: "outbox_ok (project_webhook C now receipt i r) = outbox_ok r"
  by (simp add: project_webhook_def Let_def)

lemma memory_ok_ProcessStripeWebhook:
  assumes "memory_ok r" and "enumerates ids (mr_runs r)"
  shows "memory_ok (fst (ProcessStripeWebhook C ids now e r))"
proof (cases "mr_webhookResults r e")
  case (Some x)
  with assms show ?thesis by (simp add: ProcessStripeWebhook_def)
next
  case none: None
  show ?thesis
  proof (cases "mr_webhooks r e")
    case None
    with none assms show ?thesis by (simp add: ProcessStripeWebhook_def)
  next
    case (Some receipt)
    have "wp_Status (webhook_decision ids receipt r) = WebhookMatched \<Longrightarrow>
        runs_ok (project_webhook C now receipt (wp_RunID (webhook_decision ids receipt r)) r)"
      using webhook_decision_matched assms runs_ok_project_webhook
      by (metis enumeratesD(2) memory_ok_def)
    with assms(1) show ?thesis
      by (simp add: ProcessStripeWebhook_decision [OF none Some] finish_webhook_def memory_ok_def)
  qed
qed

lemma memory_ok_MarkWebhookSeen: "memory_ok r \<Longrightarrow> memory_ok (fst (MarkWebhookSeen now receipt r))"
  by (simp add: MarkWebhookSeen_def memory_ok_def outbox_ok_put split: option.splits)

subsection \<open>Properties of webhook processing\<close>

definition same_envelope :: "WebhookReceipt \<Rightarrow> WebhookReceipt \<Rightarrow> bool" where
  "same_envelope a b \<longleftrightarrow>
     wr_EventType a = wr_EventType b \<and> wr_EndpointTokenSHA a = wr_EndpointTokenSHA b \<and>
     wr_BodySHA a = wr_BodySHA b"

definition sample_receipt :: "string \<Rightarrow> WebhookReceipt" where
  "sample_receipt e = \<lparr>wr_EventID = e, wr_EventType = ''payment_intent.succeeded'',
     wr_EndpointTokenSHA = ''t'', wr_BodySHA = ''b'', wr_StripeCreatedAt = 5,
     wr_StripeObjectID = ''pi_demo_000001'', wr_ObjectStatus = ''succeeded'',
     wr_CorrelationID = ''plcorr_1''\<rparr>"

text \<open>
  An event is processed once: whenever \<^verbatim>\<open>ProcessStripeWebhook\<close> has returned a result for an
  event, every further call for the event, with whatever iteration order and at whatever
  time, returns that result marked as already processed and changes nothing.
\<close>

theorem webhook_processed_once:
  assumes "ProcessStripeWebhook C ids now e r = (r', Inr res)"
  shows "ProcessStripeWebhook C ids' now' e r' = (r', Inr (res\<lparr>wp_AlreadyProcessed := True\<rparr>))"
proof (cases "mr_webhookResults r e")
  case (Some x)
  with assms show ?thesis by (auto simp: ProcessStripeWebhook_def)
next
  case none: None
  then obtain receipt where rc: "mr_webhooks r e = Some receipt"
    using assms by (cases "mr_webhooks r e") (auto simp: ProcessStripeWebhook_def)
  have "mr_webhookResults r' e = Some res"
    using assms by (auto simp: ProcessStripeWebhook_decision [OF none rc] finish_webhook_def)
  then show ?thesis by (simp add: ProcessStripeWebhook_def)
qed

text \<open>The runs an event could belong to.\<close>

definition candidates :: "MemoryRepository \<Rightarrow> WebhookReceipt \<Rightarrow> string set" where
  "candidates r receipt =
     {i. \<exists>run. mr_runs r i = Some run \<and> run_StripeObjectID run = wr_StripeObjectID receipt \<and>
        get0 [] (mr_correlationByRun r) i = wr_CorrelationID receipt}"

definition correlatable :: "WebhookReceipt \<Rightarrow> bool" where
  "correlatable receipt \<longleftrightarrow> IsSupportedStripeWebhookType (wr_EventType receipt) \<and>
     wr_StripeObjectID receipt \<noteq> [] \<and> wr_CorrelationID receipt \<noteq> []"

lemma correlated_set:
  assumes "enumerates ids (mr_runs r)"
  shows "set (correlated_matches ids receipt r) = candidates r receipt"
    and "distinct (correlated_matches ids receipt r)"
  using assms by (auto simp: correlated_matches_filter candidates_def enumerates_def get0_def)

lemma webhook_decision_candidates:
  assumes "enumerates ids (mr_runs r)"
  shows "wp_Status (webhook_decision ids receipt r) = WebhookMatched \<longleftrightarrow>
      correlatable receipt \<and> (\<exists>i. candidates r receipt = {i})"
    and "correlatable receipt \<Longrightarrow> candidates r receipt = {i} \<Longrightarrow>
      wp_RunID (webhook_decision ids receipt r) = i \<and>
      wp_ProjectID (webhook_decision ids receipt r) = get0 [] (mr_projectByRun r) i"
proof -
  let ?m = "correlated_matches ids receipt r"
  note m = correlated_set [OF assms, of receipt]
  have obj: "?m \<noteq> [] \<Longrightarrow> object_matches ids receipt r \<noteq> []"
    by (auto simp: correlated_matches_def)
  have one: "(\<exists>i. candidates r receipt = {i}) \<longleftrightarrow> ?m \<noteq> [] \<and> \<not> 1 < length ?m"
  proof
    assume "\<exists>i. candidates r receipt = {i}"
    with m have "length ?m = 1" by (metis distinct_card is_singletonI' is_singleton_altdef is_singletonI)
    then show "?m \<noteq> [] \<and> \<not> 1 < length ?m" by auto
  next
    assume "?m \<noteq> [] \<and> \<not> 1 < length ?m"
    then obtain i where "?m = [i]" by (cases ?m) auto
    with m(1) show "\<exists>i. candidates r receipt = {i}" by (intro exI [of _ i]) simp
  qed
  show "wp_Status (webhook_decision ids receipt r) = WebhookMatched \<longleftrightarrow>
      correlatable receipt \<and> (\<exists>i. candidates r receipt = {i})"
    unfolding one using obj by (auto simp: webhook_decision_def correlatable_def Let_def)
  assume c: "correlatable receipt" "candidates r receipt = {i}"
  then have ne: "?m \<noteq> []" and le: "\<not> 1 < length ?m" using one by blast+
  then have "hd ?m = i"
    using m(1) c(2) hd_in_set [OF ne] by blast
  with c ne le obj [OF ne] show "wp_RunID (webhook_decision ids receipt r) = i \<and>
      wp_ProjectID (webhook_decision ids receipt r) = get0 [] (mr_projectByRun r) i"
    by (simp add: webhook_decision_def correlatable_def)
qed

lemma webhook_correlated:
  assumes "memory_ok r" and "enumerates ids (mr_runs r)" and "mr_webhookResults r e = None"
    and "mr_webhooks r e = Some rc" and "ProcessStripeWebhook C ids now e r = (r', Inr res)"
  shows "memory_ok r' \<and> mr_webhookResults r' = (mr_webhookResults r)(e \<mapsto> res) \<and>
    (if correlatable rc \<and> (\<exists>i. candidates r rc = {i})
     then \<exists>i run evs. candidates r rc = {i} \<and> mr_runs r i = Some run \<and> mr_events r i = Some evs \<and>
       wp_Status res = WebhookMatched \<and> wp_RunID res = i \<and>
       wp_ProjectID res = get0 [] (mr_projectByRun r) i \<and>
       mr_runs r' = (mr_runs r)(i \<mapsto> run\<lparr>run_EventCount := run_EventCount run + 1\<rparr>) \<and>
       mr_events r' = (mr_events r)
         (i \<mapsto> evs @ [BuildWebhookRunEvent C now rc i (int (length evs) + 1)]) \<and>
       rp_Verdict (the (mr_reports r' i)) = rp_Verdict (the (mr_reports r i)) \<and>
       rp_Run (the (mr_reports r' i)) = the (mr_runs r' i) \<and>
       HasAssertion (rp_Assertions (the (mr_reports r' i))) ''assert_stripe_webhook_correlated'' \<and>
       (\<forall>j. j \<noteq> i \<longrightarrow> mr_reports r' j = mr_reports r j)
     else wp_Status res \<noteq> WebhookMatched \<and> mr_runs r' = mr_runs r \<and> mr_events r' = mr_events r \<and>
       mr_reports r' = mr_reports r)"
proof -
  let ?d = "webhook_decision ids rc r"
  note run = assms(5) [unfolded ProcessStripeWebhook_decision [OF assms(3,4)] finish_webhook_def]
  have res: "res = ?d" and
    r': "r' = (let r1 = if wp_Status ?d = WebhookMatched then project_webhook C now rc (wp_RunID ?d) r else r
               in r1\<lparr>mr_webhookResults := (mr_webhookResults r1)(e \<mapsto> ?d)\<rparr>)"
    using run by (auto simp: Let_def)
  have ok: "memory_ok r'"
    using memory_ok_ProcessStripeWebhook [OF assms(1,2), of C now e] assms(5) by simp
  have results: "mr_webhookResults (project_webhook C now rc i r) = mr_webhookResults r" for i
    by (simp add: project_webhook_def Let_def)
  show ?thesis
  proof (cases "correlatable rc \<and> (\<exists>i. candidates r rc = {i})")
    case False
    then have "wp_Status ?d \<noteq> WebhookMatched"
      using webhook_decision_candidates(1) [OF assms(2)] by simp
    with False ok show ?thesis by (simp add: r' res Let_def)
  next
    case True
    then obtain i where c: "correlatable rc" "candidates r rc = {i}" by blast
    then have d: "wp_Status ?d = WebhookMatched" "wp_RunID ?d = i"
        "wp_ProjectID ?d = get0 [] (mr_projectByRun r) i"
      using webhook_decision_candidates [OF assms(2)] by blast+
    obtain run where i: "mr_runs r i = Some run"
      using c(2) by (auto simp: candidates_def)
    obtain evs rep where s: "mr_events r i = Some evs" "mr_reports r i = Some rep" "sequenced evs"
        "run_EventCount run = int (length evs)"
      using runs_ok_story [OF _ i] assms(1) by (metis memory_ok_def)
    have "HasAssertion (rp_Assertions (correlated_report rc run' rep)) ''assert_stripe_webhook_correlated''"
        "rp_Verdict (correlated_report rc run' rep) = rp_Verdict rep" for run'
      by (auto simp: correlated_report_def HasAssertion_iff WebhookCorrelationAssertion_def)
    then show ?thesis
      using ok True c(2) d i s
      by (simp add: r' res results Let_def project_webhook_eq [OF i s(1-3)])
  qed
qed

text \<open>
  C27. A received event is correlated with a run exactly when it is of a supported type, names
  both a Stripe object and a correlation, and one single run carries both.  Then the run
  gains one event, numbered after its last, its report holds the updated run, and its
  status, score and verdict are untouched; the owner of the run is reported.  In every
  other case the runs, events and reports are untouched and the result says unmatched or
  ignored.  The outcome does not depend on the iteration order, and the repository stays
  well formed.
\<close>

theorem webhook_correlation:
  assumes "memory_ok r" and "enumerates ids (mr_runs r)" and "mr_webhookResults r e = None"
    and "mr_webhooks r e = Some rc" and "ProcessStripeWebhook C ids now e r = (r', Inr res)"
  shows "memory_ok r' \<and> mr_webhookResults r' = (mr_webhookResults r)(e \<mapsto> res) \<and>
    (if correlatable rc \<and> (\<exists>i. candidates r rc = {i})
     then \<exists>i run evs. candidates r rc = {i} \<and> mr_runs r i = Some run \<and> mr_events r i = Some evs \<and>
       wp_Status res = WebhookMatched \<and> wp_RunID res = i \<and>
       wp_ProjectID res = get0 [] (mr_projectByRun r) i \<and>
       mr_runs r' = (mr_runs r)(i \<mapsto> run\<lparr>run_EventCount := run_EventCount run + 1\<rparr>) \<and>
       mr_events r' = (mr_events r)
         (i \<mapsto> evs @ [BuildWebhookRunEvent C now rc i (int (length evs) + 1)]) \<and>
       rp_Verdict (the (mr_reports r' i)) = rp_Verdict (the (mr_reports r i)) \<and>
       rp_Run (the (mr_reports r' i)) = the (mr_runs r' i) \<and>
       HasAssertion (rp_Assertions (the (mr_reports r' i))) ''assert_stripe_webhook_correlated'' \<and>
       (\<forall>j. j \<noteq> i \<longrightarrow> mr_reports r' j = mr_reports r j)
     else wp_Status res \<noteq> WebhookMatched \<and> mr_runs r' = mr_runs r \<and> mr_events r' = mr_events r \<and>
       mr_reports r' = mr_reports r)"
  by (rule webhook_correlated [OF assms])

subsection \<open>A correlated event for the witnesses\<close>

lemma buildRunBundle_object:
  "buildRunBundle i n scn fault started = Some b \<Longrightarrow>
     run_StripeObjectID (rb_Run b) = ''pi_demo_'' @ fmt_0d 6 n"
  by (auto simp: buildRunBundle_def Let_def split: option.splits)

definition linked_bundle :: RunBundle where
  "linked_bundle = (sample_bundle 1)\<lparr>rb_StripeCorrelationID := ''plcorr_1''\<rparr>"

definition linked_receipt :: "string \<Rightarrow> WebhookReceipt" where
  "linked_receipt e = (sample_receipt e)\<lparr>wr_StripeObjectID := run_StripeObjectID (rb_Run linked_bundle)\<rparr>"

definition linked_run :: MemoryRepository where
  "linked_run = fst (CreateRun 0 (replicate 32 CHR ''k'') ''h'' linked_bundle NewMemoryRepository)"

definition linked_world :: MemoryRepository where
  "linked_world = fst (MarkWebhookSeen 4 (linked_receipt ''evt_2'')
     (fst (MarkWebhookSeen 3 (linked_receipt ''evt_1'') linked_run)))"

lemma linked_facts:
  "memory_ok linked_world" "enumerates [runID 1] (mr_runs linked_world)"
  "mr_webhookResults linked_world e = None"
  "mr_webhooks linked_world ''evt_1'' = Some (linked_receipt ''evt_1'')"
  "mr_webhooks linked_world ''evt_2'' = Some (linked_receipt ''evt_2'')"
  "correlatable (linked_receipt e)" "candidates linked_world (linked_receipt e) = {runID 1}"
proof -
  have "4 \<le> length (runID 1)" by (simp add: runID_def)
  from buildRunBundle_facts [OF this, of 1 "hd seededScenarios" FaultDuplicate demoEpoch]
  have obj: "run_StripeObjectID (rb_Run linked_bundle) \<noteq> []"
    by (auto simp: linked_bundle_def sample_bundle_def buildRunBundle_object)
  have admit: "admits_bundle NewMemoryRepository linked_bundle"
    using admits_sample [of 1] by (simp add: admits_bundle_def linked_bundle_def bundle_ok_def)
  have none: "mr_idempotency NewMemoryRepository k = None" for k
    by (simp add: NewMemoryRepository_def)
  have w: "mr_webhooks linked_run = Map.empty" "mr_webhookResults linked_run = Map.empty"
    by (simp_all add: linked_run_def CreateRun_def enqueueLocked_put NewMemoryRepository_def Let_def)
  have id: "run_ID (rb_Run linked_bundle) = runID 1"
    by (simp add: linked_bundle_def sample_bundle_facts)
  have runs: "mr_runs linked_run = [runID 1 \<mapsto> rb_Run linked_bundle]"
    "mr_correlationByRun linked_run = [runID 1 \<mapsto> ''plcorr_1'']"
    using id by (simp_all add: linked_run_def CreateRun_new [OF none] linked_bundle_def)
      (simp_all add: NewMemoryRepository_def)
  have world: "mr_runs linked_world = mr_runs linked_run"
    "mr_correlationByRun linked_world = mr_correlationByRun linked_run"
    "mr_webhookResults linked_world = mr_webhookResults linked_run"
    "mr_webhooks linked_world =
      [''evt_1'' \<mapsto> linked_receipt ''evt_1'', ''evt_2'' \<mapsto> linked_receipt ''evt_2'']"
    using w by (simp_all add: linked_world_def MarkWebhookSeen_def linked_receipt_def sample_receipt_def)
  show "memory_ok linked_world"
    using memory_ok_CreateRun [OF memory_ok_new admit]
    by (simp add: linked_world_def linked_run_def memory_ok_MarkWebhookSeen)
  show "enumerates [runID 1] (mr_runs linked_world)"
    by (simp add: enumerates_def world runs)
  show "mr_webhookResults linked_world e = None"
    "mr_webhooks linked_world ''evt_1'' = Some (linked_receipt ''evt_1'')"
    "mr_webhooks linked_world ''evt_2'' = Some (linked_receipt ''evt_2'')"
    using w by (simp_all add: world)
  show "correlatable (linked_receipt e)"
    using obj by (simp add: correlatable_def linked_receipt_def sample_receipt_def
        IsSupportedStripeWebhookType_def)
  show "candidates linked_world (linked_receipt e) = {runID 1}"
    by (auto simp: candidates_def world runs linked_receipt_def sample_receipt_def split: if_splits)
qed

lemma linked_process:
  "\<exists>r' res. ProcessStripeWebhook plain_crypto [runID 1] 7 ''evt_1'' linked_world = (r', Inr res)"
  using ProcessStripeWebhook_decision [OF linked_facts(3,4), of plain_crypto "[runID 1]" 7]
  by (simp add: finish_webhook_def)

theorem webhook_processed_once_witness:
  "\<exists>r' res. ProcessStripeWebhook plain_crypto [runID 1] 7 ''evt_1'' linked_world = (r', Inr res) \<and>
     ProcessStripeWebhook plain_crypto [runID 1] 8 ''evt_1'' r' =
       (r', Inr (res\<lparr>wp_AlreadyProcessed := True\<rparr>))"
  using linked_process webhook_processed_once [of plain_crypto "[runID 1]" 7 "''evt_1''" linked_world]
  by blast

theorem webhook_correlation_witness:
  "\<exists>r' res. ProcessStripeWebhook plain_crypto [runID 1] 7 ''evt_1'' linked_world = (r', Inr res) \<and>
     memory_ok r' \<and> wp_Status res = WebhookMatched \<and> wp_RunID res = runID 1"
proof -
  obtain r' res where p: "ProcessStripeWebhook plain_crypto [runID 1] 7 ''evt_1'' linked_world = (r', Inr res)"
    using linked_process by blast
  from webhook_correlation [OF linked_facts(1,2,3,4) p] p show ?thesis
    by (auto simp: linked_facts(6,7))
qed

subsection \<open>Order of delivery\<close>

lemma project_webhook_reports:
  assumes "runs_ok r" and "mr_runs r i = Some run" and "mr_reports r i = Some rep"
  shows "mr_runs (project_webhook C now rc i r) =
      (mr_runs r)(i \<mapsto> run\<lparr>run_EventCount := run_EventCount run + 1\<rparr>)"
    and "mr_reports (project_webhook C now rc i r) = (mr_reports r)
      (i \<mapsto> correlated_report rc (run\<lparr>run_EventCount := run_EventCount run + 1\<rparr>) rep)"
proof -
  obtain evs where s: "mr_events r i = Some evs" "sequenced evs" "run_EventCount run = int (length evs)"
    using runs_ok_story [OF assms(1,2)] by metis
  show "mr_runs (project_webhook C now rc i r) =
      (mr_runs r)(i \<mapsto> run\<lparr>run_EventCount := run_EventCount run + 1\<rparr>)"
    and "mr_reports (project_webhook C now rc i r) = (mr_reports r)
      (i \<mapsto> correlated_report rc (run\<lparr>run_EventCount := run_EventCount run + 1\<rparr>) rep)"
    by (simp_all add: project_webhook_eq [OF assms(2) s(1) assms(3) s(2)] s(3) Let_def)
qed

lemma correlated_report_swap:
  assumes "wr_StripeObjectID a = wr_StripeObjectID b"
  shows "correlated_report a run (correlated_report b run' rep) =
    correlated_report b run (correlated_report a run' rep)"
proof -
  have "WebhookCorrelationAssertion a = WebhookCorrelationAssertion b"
    using assms by (simp add: WebhookCorrelationAssertion_def)
  moreover have "HasAssertion (as @ [WebhookCorrelationAssertion b]) ''assert_stripe_webhook_correlated''" for as
    by (simp add: HasAssertion_iff WebhookCorrelationAssertion_def)
  ultimately show ?thesis
    by (cases "HasAssertion (rp_Assertions rep) ''assert_stripe_webhook_correlated''")
      (simp_all add: correlated_report_def)
qed

lemma project_webhook_frame:
  assumes "runs_ok r" and "mr_runs r i = Some run"
  shows "\<And>j. get0 zero_Run (mr_runs (project_webhook C now rc i r)) j\<lparr>run_EventCount := 0\<rparr> =
      get0 zero_Run (mr_runs r) j\<lparr>run_EventCount := 0\<rparr>"
    and "mr_correlationByRun (project_webhook C now rc i r) = mr_correlationByRun r"
    and "mr_projectByRun (project_webhook C now rc i r) = mr_projectByRun r"
    and "mr_webhooks (project_webhook C now rc i r) = mr_webhooks r"
    and "mr_webhookResults (project_webhook C now rc i r) = mr_webhookResults r"
proof -
  obtain rep where "mr_reports r i = Some rep"
    using runs_ok_story [OF assms] by metis
  from project_webhook_reports(1) [OF assms this, of C now rc]
  show "\<And>j. get0 zero_Run (mr_runs (project_webhook C now rc i r)) j\<lparr>run_EventCount := 0\<rparr> =
      get0 zero_Run (mr_runs r) j\<lparr>run_EventCount := 0\<rparr>"
    by (simp add: assms(2))
  show "mr_correlationByRun (project_webhook C now rc i r) = mr_correlationByRun r"
    and "mr_projectByRun (project_webhook C now rc i r) = mr_projectByRun r"
    and "mr_webhooks (project_webhook C now rc i r) = mr_webhooks r"
    and "mr_webhookResults (project_webhook C now rc i r) = mr_webhookResults r"
    by (simp_all add: project_webhook_def Let_def)
qed

text \<open>The effect of a decision on runs and reports.\<close>

definition decide :: "string \<Rightarrow> WebhookReceipt \<Rightarrow> WebhookProcessingResult \<Rightarrow> crypto \<Rightarrow> time \<Rightarrow>
    MemoryRepository \<Rightarrow> MemoryRepository" where
  "decide e rc d C now r =
     (let r1 = if wp_Status d = WebhookMatched then project_webhook C now rc (wp_RunID d) r else r
      in r1\<lparr>mr_webhookResults := (mr_webhookResults r1)(e \<mapsto> d)\<rparr>)"

lemma ProcessStripeWebhook_decide:
  assumes "memory_ok r" and "enumerates ids (mr_runs r)" and "mr_webhookResults r e = None"
    and "mr_webhooks r e = Some rc" and "ProcessStripeWebhook C ids now e r = (r', x)"
  shows "r' = decide e rc (webhook_decision ids rc r) C now r" and "memory_ok r'"
    and "enumerates ids (mr_runs r')" and "mr_webhooks r' = mr_webhooks r"
    and "webhook_decision ids rc' r' = webhook_decision ids rc' r"
    and "mr_webhookResults r' = (mr_webhookResults r)(e \<mapsto> webhook_decision ids rc r)"
proof -
  let ?d = "webhook_decision ids rc r"
  show r': "r' = decide e rc ?d C now r"
    using assms(5) ProcessStripeWebhook_decision [OF assms(3,4), of C ids now]
    by (simp add: decide_def finish_webhook_def Let_def)
  show "memory_ok r'"
    using memory_ok_ProcessStripeWebhook [OF assms(1,2), of C now e] assms(5) by simp
  have ok: "runs_ok r" using assms(1) by (simp add: memory_ok_def)
  have all: "enumerates ids (mr_runs r') \<and> mr_webhooks r' = mr_webhooks r \<and>
    webhook_decision ids rc' r' = webhook_decision ids rc' r \<and>
    mr_webhookResults r' = (mr_webhookResults r)(e \<mapsto> ?d)"
  proof (cases "wp_Status ?d = WebhookMatched")
    case False
    have "webhook_decision ids rc' r' = webhook_decision ids rc' r"
      by (rule webhook_decision_cong) (simp_all add: r' decide_def False)
    with False assms(2) show ?thesis by (simp add: r' decide_def)
  next
    case True
    obtain run where run: "mr_runs r (wp_RunID ?d) = Some run"
      using webhook_decision_matched [OF True enumeratesD(2) [OF assms(2)]] by blast
    obtain rep where rep: "mr_reports r (wp_RunID ?d) = Some rep"
      using runs_ok_story [OF ok run] by metis
    note frame = project_webhook_frame [OF ok run, of C now rc]
    have "webhook_decision ids rc' r' = webhook_decision ids rc' r"
      by (rule webhook_decision_cong) (simp_all add: r' decide_def True frame Let_def)
    moreover have "enumerates ids (mr_runs r')"
      using enumerates_overwrite [OF assms(2) run]
      by (simp add: r' decide_def True project_webhook_reports(1) [OF ok run rep] Let_def)
    ultimately show ?thesis
      by (simp add: r' decide_def True frame Let_def)
  qed
  then show "enumerates ids (mr_runs r')" and "mr_webhooks r' = mr_webhooks r"
    and "webhook_decision ids rc' r' = webhook_decision ids rc' r"
    and "mr_webhookResults r' = (mr_webhookResults r)(e \<mapsto> webhook_decision ids rc r)"
    by blast+
qed

lemma decide_reports:
  assumes "runs_ok r" and "wp_Status d = WebhookMatched" and "mr_runs r (wp_RunID d) = Some run"
    and "mr_reports r (wp_RunID d) = Some rep"
  shows "mr_runs (decide e rc d C now r) =
      (mr_runs r)(wp_RunID d \<mapsto> run\<lparr>run_EventCount := run_EventCount run + 1\<rparr>)"
    and "mr_reports (decide e rc d C now r) = (mr_reports r)
      (wp_RunID d \<mapsto> correlated_report rc (run\<lparr>run_EventCount := run_EventCount run + 1\<rparr>) rep)"
  using project_webhook_reports [OF assms(1,3,4), of C now rc] assms(2) by (simp_all add: decide_def Let_def)

lemma decide_unmatched:
  assumes "wp_Status d \<noteq> WebhookMatched"
  shows "mr_runs (decide e rc d C now r) = mr_runs r"
    and "mr_reports (decide e rc d C now r) = mr_reports r"
  using assms by (simp_all add: decide_def)

text \<open>
  Delivery order cannot change a report: processing two received events in either order
  leaves the same runs, the same reports (status, score, verdict, assertions and summary)
  and the same results for both events, also when both belong to one run.
\<close>

theorem webhook_order_neutral:
  assumes "memory_ok r" and "enumerates ids (mr_runs r)" and "e1 \<noteq> e2"
    and "mr_webhookResults r e1 = None" and "mr_webhookResults r e2 = None"
    and "mr_webhooks r e1 = Some rc1" and "mr_webhooks r e2 = Some rc2"
    and "ProcessStripeWebhook C ids t1 e1 r = (ra, x1)" and "ProcessStripeWebhook C ids t2 e2 ra = (rab, x2)"
    and "ProcessStripeWebhook C ids t3 e2 r = (rb, y2)" and "ProcessStripeWebhook C ids t4 e1 rb = (rba, y1)"
  shows "mr_runs rab = mr_runs rba \<and> mr_reports rab = mr_reports rba \<and>
    mr_webhookResults rab = mr_webhookResults rba"
proof -
  let ?d1 = "webhook_decision ids rc1 r" and ?d2 = "webhook_decision ids rc2 r"
  note a = ProcessStripeWebhook_decide [OF assms(1,2,4,6,8)]
  note b = ProcessStripeWebhook_decide [OF assms(1,2,5,7,10)]
  note ab = ProcessStripeWebhook_decide [OF a(2,3) _ _ assms(9), of rc2]
  note ba = ProcessStripeWebhook_decide [OF b(2,3) _ _ assms(11), of rc1]
  have ra: "mr_webhookResults ra e2 = None" "mr_webhooks ra e2 = Some rc2"
    using assms(3,5,7) a(4,6) by simp_all
  have rb: "mr_webhookResults rb e1 = None" "mr_webhooks rb e1 = Some rc1"
    using assms(3,4,6) b(4,6) by simp_all
  have eqs: "ra = decide e1 rc1 ?d1 C t1 r" "rab = decide e2 rc2 ?d2 C t2 ra"
    "rb = decide e2 rc2 ?d2 C t3 r" "rba = decide e1 rc1 ?d1 C t4 rb"
    using a(1) b(1) ab(1) [OF ra] ba(1) [OF rb] a(5) [of rc2] b(5) [of rc1] by simp_all
  have ok: "runs_ok r" "runs_ok ra" "runs_ok rb"
    using assms(1) a(2) b(2) by (simp_all add: memory_ok_def)
  have results: "mr_webhookResults rab = mr_webhookResults rba"
    using ab(6) [OF ra] ba(6) [OF rb] a(5,6) b(5,6) assms(3) by (simp add: fun_upd_twist)
  have stored: "\<exists>run rep. mr_runs r (wp_RunID d) = Some run \<and> mr_reports r (wp_RunID d) = Some rep \<and>
      run_StripeObjectID run = wr_StripeObjectID rc"
    if "d = webhook_decision ids rc r" "wp_Status d = WebhookMatched" for d rc
    using webhook_decision_matched [OF _ enumeratesD(2) [OF assms(2)], of rc] that
      runs_ok_story [OF ok(1)] by metis
  have "mr_runs rab = mr_runs rba \<and> mr_reports rab = mr_reports rba"
  proof (cases "wp_Status ?d1 = WebhookMatched \<and> wp_Status ?d2 = WebhookMatched")
    case False
    then show ?thesis
      using decide_unmatched [of ?d1] decide_unmatched [of ?d2] stored [OF refl, of rc1]
        stored [OF refl, of rc2] decide_reports [OF ok(1), of ?d1] decide_reports [OF ok(1), of ?d2]
        decide_reports [OF ok(2), of ?d2] decide_reports [OF ok(3), of ?d1]
      unfolding eqs(2,4) unfolding eqs(1,3) by (cases "wp_Status ?d1 = WebhookMatched") fastforce+
  next
    case True
    then obtain run1 rep1 run2 rep2 where
      m1: "mr_runs r (wp_RunID ?d1) = Some run1" "mr_reports r (wp_RunID ?d1) = Some rep1"
        "run_StripeObjectID run1 = wr_StripeObjectID rc1" and
      m2: "mr_runs r (wp_RunID ?d2) = Some run2" "mr_reports r (wp_RunID ?d2) = Some rep2"
        "run_StripeObjectID run2 = wr_StripeObjectID rc2"
      using stored [OF refl, of rc1] stored [OF refl, of rc2] by blast
    note A = decide_reports [OF ok(1) True [THEN conjunct1] m1(1,2), of e1 rc1 C t1, folded eqs(1)]
    note B = decide_reports [OF ok(1) True [THEN conjunct2] m2(1,2), of e2 rc2 C t3, folded eqs(3)]
    show ?thesis
    proof (cases "wp_RunID ?d1 = wp_RunID ?d2")
      case False
      then have "mr_runs ra (wp_RunID ?d2) = Some run2" "mr_reports ra (wp_RunID ?d2) = Some rep2"
        "mr_runs rb (wp_RunID ?d1) = Some run1" "mr_reports rb (wp_RunID ?d1) = Some rep1"
        using A B m1 m2 by simp_all
      then show ?thesis
        using False True decide_reports [OF ok(2), of ?d2] decide_reports [OF ok(3), of ?d1]
        unfolding eqs(2,4) by (simp add: A B fun_upd_twist)
    next
      case same: True
      then have "run2 = run1" "rep2 = rep1" using m1 m2 by simp_all
      moreover have "wr_StripeObjectID rc1 = wr_StripeObjectID rc2"
        using m1(3) m2(3) calculation by simp
      ultimately show ?thesis
        using same True decide_reports [OF ok(2), of ?d2] decide_reports [OF ok(3), of ?d1]
        unfolding eqs(2,4) by (simp add: A B correlated_report_swap)
    qed
  qed
  with results show ?thesis by blast
qed

theorem webhook_order_neutral_witness:
  "mr_reports (fst (ProcessStripeWebhook plain_crypto [runID 1] 8 ''evt_2''
      (fst (ProcessStripeWebhook plain_crypto [runID 1] 7 ''evt_1'' linked_world)))) =
   mr_reports (fst (ProcessStripeWebhook plain_crypto [runID 1] 8 ''evt_1''
      (fst (ProcessStripeWebhook plain_crypto [runID 1] 7 ''evt_2'' linked_world))))"
proof -
  have p: "ProcessStripeWebhook plain_crypto [runID 1] t e r =
      (fst (ProcessStripeWebhook plain_crypto [runID 1] t e r),
       snd (ProcessStripeWebhook plain_crypto [runID 1] t e r))" for t e r
    by simp
  have "''evt_1'' \<noteq> ''evt_2''" by simp
  from webhook_order_neutral [OF linked_facts(1,2) this linked_facts(3,3,4,5) p p p p]
  show ?thesis by blast
qed

end
