(* ===== verification/MemoryConnections.thy ===== *)
theory MemoryConnections
  imports MemoryWebhooks
begin

text \<open>
  The Stripe connections of the in-memory repository, unscoped and per project.  Saving a
  connection looks for one of the same account in a loop over the map whose last match
  wins; in a project an account has at most one connection, so the match is unique and the
  iteration order does not matter.
\<close>

subsection \<open>Operations\<close>

text \<open>The loop of both saves: \<^verbatim>\<open>same\<close> says which stored connections it matches.\<close>

definition adopt_identity ::
  "(string \<Rightarrow> StripeConnection \<Rightarrow> bool) \<Rightarrow> (string \<rightharpoonup> StripeConnection) \<Rightarrow> string list \<Rightarrow>
   StripeConnection \<Rightarrow> StripeConnection" where
  "adopt_identity same connections ids c0 =
     foldl (\<lambda>c i. let existing = get0 zero_StripeConnection connections i
                  in if same i existing
                     then c\<lparr>sc_ID := i, sc_CreatedAt := sc_CreatedAt existing\<rparr> else c) c0 ids"

definition SaveStripeConnection ::
  "string list \<Rightarrow> StripeConnection \<Rightarrow> MemoryRepository \<Rightarrow>
   MemoryRepository \<times> (goerr + StripeConnection)" where
  "SaveStripeConnection ids connection r =
     (let c = adopt_identity
                (\<lambda>i existing. sc_StripeAccountID existing = sc_StripeAccountID connection)
                (mr_connections r) ids connection
      in (r\<lparr>mr_connections := (mr_connections r)(sc_ID c \<mapsto> c)\<rparr>, Inr c))"

definition StripeConnection_get ::
  "string \<Rightarrow> MemoryRepository \<Rightarrow> goerr + StripeConnection \<times> bool" where
  "StripeConnection_get i r =
     Inr (get0 zero_StripeConnection (mr_connections r) i, mr_connections r i \<noteq> None)"

definition SaveStripeConnectionForProject ::
  "string list \<Rightarrow> string \<Rightarrow> StripeConnection \<Rightarrow> MemoryRepository \<Rightarrow>
   MemoryRepository \<times> (goerr + StripeConnection)" where
  "SaveStripeConnectionForProject ids projectID connection r =
     (let c = adopt_identity
                (\<lambda>i existing. get0 [] (mr_projectByConnection r) i = projectID \<and>
                   sc_StripeAccountID existing = sc_StripeAccountID connection)
                (mr_connections r) ids connection
      in (r\<lparr>mr_connections := (mr_connections r)(sc_ID c \<mapsto> c),
            mr_projectByConnection := (mr_projectByConnection r)(sc_ID c \<mapsto> projectID)\<rparr>, Inr c))"

definition StripeConnectionForProject ::
  "string \<Rightarrow> string \<Rightarrow> MemoryRepository \<Rightarrow> goerr + StripeConnection \<times> bool" where
  "StripeConnectionForProject projectID i r =
     (if get0 [] (mr_projectByConnection r) i \<noteq> projectID then Inr (zero_StripeConnection, False)
      else StripeConnection_get i r)"

definition ListStripeConnectionsForProject ::
  "string list \<Rightarrow> string \<Rightarrow> MemoryRepository \<Rightarrow> goerr + StripeConnection list" where
  "ListStripeConnectionsForProject ids projectID r =
     Inr (sort_key (\<lambda>c. - sc_CreatedAt c)
       (map (\<lambda>i. (get0 zero_StripeConnection (mr_connections r) i)\<lparr>sc_SecretCiphertext := []\<rparr>)
         (filter (\<lambda>i. get0 [] (mr_projectByConnection r) i = projectID) ids)))"

subsection \<open>One connection per account and project\<close>

definition owns_connection :: "string \<Rightarrow> MemoryRepository \<Rightarrow> string \<Rightarrow> StripeConnection \<Rightarrow> bool" where
  "owns_connection p r i c \<longleftrightarrow>
     mr_connections r i = Some c \<and> get0 [] (mr_projectByConnection r) i = p"

definition connections_ok :: "MemoryRepository \<Rightarrow> bool" where
  "connections_ok r \<longleftrightarrow>
     (\<forall>i c. mr_connections r i = Some c \<longrightarrow> sc_ID c = i) \<and>
     (\<forall>p i j c d. owns_connection p r i c \<and> owns_connection p r j d \<and>
        sc_StripeAccountID c = sc_StripeAccountID d \<longrightarrow> i = j)"

lemma adopt_identity_none:
  assumes "\<And>i. i \<in> set ids \<Longrightarrow> \<not> same i (get0 zero_StripeConnection m i)"
  shows "adopt_identity same m ids c = c"
  using assms unfolding adopt_identity_def by (induction ids arbitrary: c) (simp_all add: Let_def)

lemma adopt_identity_one:
  assumes "i \<in> set ids" and "\<And>j. j \<in> set ids \<Longrightarrow> same j (get0 zero_StripeConnection m j) \<longleftrightarrow> j = i"
  shows "adopt_identity same m ids c =
    c\<lparr>sc_ID := i, sc_CreatedAt := sc_CreatedAt (get0 zero_StripeConnection m i)\<rparr>"
  using assms
proof (induction ids rule: rev_induct)
  case Nil
  then show ?case by simp
next
  case (snoc j ids)
  have step: "adopt_identity same m (ids @ [j]) c =
      (if j = i then (adopt_identity same m ids c)\<lparr>sc_ID := i,
          sc_CreatedAt := sc_CreatedAt (get0 zero_StripeConnection m i)\<rparr>
       else adopt_identity same m ids c)"
    using snoc.prems(2) [of j] by (simp add: adopt_identity_def Let_def)
  show ?case
  proof (cases "i \<in> set ids")
    case True
    with snoc show ?thesis by (simp add: step)
  next
    case False
    then have "adopt_identity same m ids c = c"
      using snoc.prems(2) by (intro adopt_identity_none) auto
    with False snoc.prems(1) show ?thesis by (simp add: step)
  qed
qed

lemma save_connection:
  assumes "connections_ok r" and "enumerates ids (mr_connections r)"
    and "mr_connections r (sc_ID connection) = None"
    and "SaveStripeConnectionForProject ids p connection r = (r', Inr saved)"
  shows "connections_ok r' \<and> owns_connection p r' (sc_ID saved) saved \<and>
    (\<forall>i c. owns_connection p r' i c \<and> sc_StripeAccountID c = sc_StripeAccountID connection \<longrightarrow> c = saved) \<and>
    sc_SecretCiphertext saved = sc_SecretCiphertext connection \<and>
    (\<forall>i c. owns_connection p r i c \<and> sc_StripeAccountID c = sc_StripeAccountID connection \<longrightarrow>
       saved = connection\<lparr>sc_ID := i, sc_CreatedAt := sc_CreatedAt c\<rparr>) \<and>
    ((\<forall>i c. \<not> (owns_connection p r i c \<and> sc_StripeAccountID c = sc_StripeAccountID connection)) \<longrightarrow>
       saved = connection) \<and>
    (\<forall>j. j \<noteq> sc_ID saved \<longrightarrow> mr_connections r' j = mr_connections r j \<and>
       mr_projectByConnection r' j = mr_projectByConnection r j)"
proof -
  let ?same = "\<lambda>i existing. get0 [] (mr_projectByConnection r) i = p \<and>
    sc_StripeAccountID existing = sc_StripeAccountID connection"
  let ?c = "adopt_identity ?same (mr_connections r) ids connection"
  have r': "r' = r\<lparr>mr_connections := (mr_connections r)(sc_ID saved \<mapsto> saved),
      mr_projectByConnection := (mr_projectByConnection r)(sc_ID saved \<mapsto> p)\<rparr>" and c: "saved = ?c"
    using assms(4) by (auto simp: SaveStripeConnectionForProject_def Let_def)
  have sid: "\<And>i c. mr_connections r i = Some c \<Longrightarrow> sc_ID c = i"
    and uniq: "\<And>p i j c d. owns_connection p r i c \<Longrightarrow> owns_connection p r j d \<Longrightarrow>
        sc_StripeAccountID c = sc_StripeAccountID d \<Longrightarrow> i = j"
    using assms(1) unfolding connections_ok_def by blast+
  have dom: "set ids = dom (mr_connections r)"
    using assms(2) by (simp add: enumerates_def)
  have match: "?same i (get0 zero_StripeConnection (mr_connections r) i) \<longleftrightarrow>
      (\<exists>c. owns_connection p r i c \<and> sc_StripeAccountID c = sc_StripeAccountID connection)"
    if "i \<in> set ids" for i
    using that dom by (auto simp: owns_connection_def)
  have own': "owns_connection q r' j d \<longleftrightarrow>
      (if j = sc_ID saved then q = p \<and> d = saved else owns_connection q r j d)" for q j d
    by (auto simp: r' owns_connection_def)
  have others: "\<forall>j. j \<noteq> sc_ID saved \<longrightarrow> mr_connections r' j = mr_connections r j \<and>
       mr_projectByConnection r' j = mr_projectByConnection r j"
    by (simp add: r')
  have sid': "\<forall>i c. mr_connections r' i = Some c \<longrightarrow> sc_ID c = i"
    using sid by (simp add: r')
  show ?thesis
  proof (cases "\<exists>i c. owns_connection p r i c \<and> sc_StripeAccountID c = sc_StripeAccountID connection")
    case False
    then have saved: "saved = connection"
      unfolding c using match by (intro adopt_identity_none) blast
    have acct: "sc_StripeAccountID saved = sc_StripeAccountID connection"
      by (simp add: saved)
    have "\<forall>q i j c d. owns_connection q r' i c \<and> owns_connection q r' j d \<and>
        sc_StripeAccountID c = sc_StripeAccountID d \<longrightarrow> i = j"
      unfolding own' using False acct uniq by (metis (no_types, lifting))
    then have "connections_ok r'"
      unfolding connections_ok_def using sid' by blast
    moreover have "\<forall>i c. owns_connection p r' i c \<and>
        sc_StripeAccountID c = sc_StripeAccountID connection \<longrightarrow> c = saved"
      unfolding own' using False by metis
    moreover have "owns_connection p r' (sc_ID saved) saved"
      unfolding own' by simp
    ultimately show ?thesis
      using False others saved by blast
  next
    case True
    then obtain i c where i: "owns_connection p r i c"
        "sc_StripeAccountID c = sc_StripeAccountID connection" by blast
    then have mem: "i \<in> set ids" and get: "mr_connections r i = Some c"
      using dom by (auto simp: owns_connection_def)
    have only: "?same j (get0 zero_StripeConnection (mr_connections r) j) \<longleftrightarrow> j = i" if "j \<in> set ids" for j
      using match [OF that] i uniq [of p j _ i c] by metis
    have saved: "saved = connection\<lparr>sc_ID := i, sc_CreatedAt := sc_CreatedAt c\<rparr>"
      unfolding c
      using adopt_identity_one [where same = ?same and i = i and m = "mr_connections r", OF mem only] get
      by simp
    have keep: "\<And>j d. owns_connection p r j d \<Longrightarrow>
        sc_StripeAccountID d = sc_StripeAccountID connection \<Longrightarrow> j = i \<and> d = c"
      using uniq i get by (metis owns_connection_def option.inject)
    have acct: "sc_StripeAccountID saved = sc_StripeAccountID connection" "sc_ID saved = i"
        "sc_SecretCiphertext saved = sc_SecretCiphertext connection"
      by (simp_all add: saved)
    have "\<forall>q i j c d. owns_connection q r' i c \<and> owns_connection q r' j d \<and>
        sc_StripeAccountID c = sc_StripeAccountID d \<longrightarrow> i = j"
      unfolding own' using keep acct uniq by (metis (no_types, lifting))
    then have "connections_ok r'"
      unfolding connections_ok_def using sid' by blast
    moreover have "\<forall>i c. owns_connection p r' i c \<and>
        sc_StripeAccountID c = sc_StripeAccountID connection \<longrightarrow> c = saved"
      unfolding own' using keep acct by metis
    moreover have "owns_connection p r' (sc_ID saved) saved"
      unfolding own' by simp
    moreover have "\<forall>i c. owns_connection p r i c \<and>
        sc_StripeAccountID c = sc_StripeAccountID connection \<longrightarrow>
       saved = connection\<lparr>sc_ID := i, sc_CreatedAt := sc_CreatedAt c\<rparr>"
      using keep saved by blast
    ultimately show ?thesis
      using True others acct(3) by blast
  qed
qed

text \<open>
  Saving a connection in a project is an update per account: when the project already has a
  connection of the account, that connection keeps its identifier and creation time and
  takes the new name, status and secret; otherwise the connection is stored under its own
  identifier.  Either way the project has the saved connection as the only one of the
  account, connections of other identifiers are untouched, and the invariant that an
  account has at most one connection in a project is kept.
\<close>

theorem save_connection_per_account:
  assumes "connections_ok r" and "enumerates ids (mr_connections r)"
    and "mr_connections r (sc_ID connection) = None"
    and "SaveStripeConnectionForProject ids p connection r = (r', Inr saved)"
  shows "connections_ok r' \<and> owns_connection p r' (sc_ID saved) saved \<and>
    (\<forall>i c. owns_connection p r' i c \<and> sc_StripeAccountID c = sc_StripeAccountID connection \<longrightarrow> c = saved) \<and>
    sc_SecretCiphertext saved = sc_SecretCiphertext connection \<and>
    (\<forall>i c. owns_connection p r i c \<and> sc_StripeAccountID c = sc_StripeAccountID connection \<longrightarrow>
       saved = connection\<lparr>sc_ID := i, sc_CreatedAt := sc_CreatedAt c\<rparr>) \<and>
    ((\<forall>i c. \<not> (owns_connection p r i c \<and> sc_StripeAccountID c = sc_StripeAccountID connection)) \<longrightarrow>
       saved = connection) \<and>
    (\<forall>j. j \<noteq> sc_ID saved \<longrightarrow> mr_connections r' j = mr_connections r j \<and>
       mr_projectByConnection r' j = mr_projectByConnection r j)"
  by (rule save_connection [OF assms])

definition sample_connection :: "string \<Rightarrow> StripeConnection" where
  "sample_connection i = \<lparr>sc_ID = i, sc_StripeAccountID = ''acct_1'', sc_SandboxName = ''sandbox'',
     sc_Status = ''connected'', sc_CreatedAt = 10, sc_SecretCiphertext = ''secret'',
     sc_SecretEncryptionKeyID = 1\<rparr>"

definition connected :: MemoryRepository where
  "connected = fst (SaveStripeConnectionForProject [] ''p'' (sample_connection ''c1'') NewMemoryRepository)"

lemma connected_facts:
  "mr_connections connected = [''c1'' \<mapsto> sample_connection ''c1'']"
  "mr_projectByConnection connected = [''c1'' \<mapsto> ''p'']" "connections_ok connected"
  by (simp_all add: connected_def SaveStripeConnectionForProject_def adopt_identity_def
      NewMemoryRepository_def connections_ok_def owns_connection_def Let_def sample_connection_def)

theorem save_connection_per_account_witness:
  "\<exists>r' saved. SaveStripeConnectionForProject [''c1''] ''p''
       ((sample_connection ''c2'')\<lparr>sc_SecretCiphertext := ''rotated''\<rparr>) connected = (r', Inr saved) \<and>
     sc_ID saved = ''c1'' \<and> sc_SecretCiphertext saved = ''rotated''"
proof -
  let ?c = "(sample_connection ''c2'')\<lparr>sc_SecretCiphertext := ''rotated''\<rparr>"
  obtain r' saved where save: "SaveStripeConnectionForProject [''c1''] ''p'' ?c connected = (r', Inr saved)"
    by (auto simp: SaveStripeConnectionForProject_def Let_def)
  have en: "enumerates [''c1''] (mr_connections connected)"
    by (simp add: enumerates_def connected_facts)
  have none: "mr_connections connected (sc_ID ?c) = None"
    by (simp add: connected_facts sample_connection_def)
  have "owns_connection ''p'' connected ''c1'' (sample_connection ''c1'')"
    by (simp add: owns_connection_def connected_facts)
  then have "saved = ?c\<lparr>sc_ID := ''c1'', sc_CreatedAt := sc_CreatedAt (sample_connection ''c1'')\<rparr>"
    using save_connection_per_account [OF connected_facts(3) en none save]
    by (elim conjE allE [of _ "''c1''"] allE [of _ "sample_connection ''c1''"])
      (simp add: sample_connection_def)
  with save show ?thesis by auto
qed

text \<open>
  Connections stay in their project and lists carry no secrets: a project reads a connection
  exactly when it owns it, and every element of its list is one of its connections with the
  ciphertext removed, each once, the latest first.
\<close>

theorem connections_scoped:
  assumes "enumerates ids (mr_connections r)" and "p \<noteq> []"
    and "dom (mr_projectByConnection r) \<subseteq> dom (mr_connections r)"
  shows "visible (StripeConnectionForProject p i r) =
      (if mr_projectByConnection r i = Some p then mr_connections r i else None) \<and>
    (\<exists>cs. ListStripeConnectionsForProject ids p r = Inr cs \<and>
      mset cs = image_mset (\<lambda>i. (the (mr_connections r i))\<lparr>sc_SecretCiphertext := []\<rparr>)
        (mset_set {i. mr_projectByConnection r i = Some p}) \<and>
      sorted_wrt (\<lambda>x y. sc_CreatedAt y \<le> sc_CreatedAt x) cs \<and>
      list_all (\<lambda>c. sc_SecretCiphertext c = []) cs)"
proof -
  have own: "get0 [] (mr_projectByConnection r) j = p \<longleftrightarrow> mr_projectByConnection r j = Some p" for j
    using assms(2) by (auto simp: get0_def split: option.splits)
  have sub: "{j \<in> dom (mr_connections r). mr_projectByConnection r j = Some p} =
      {j. mr_projectByConnection r j = Some p}"
    using assms(3) by blast
  let ?f = "\<lambda>i. (get0 zero_StripeConnection (mr_connections r) i)\<lparr>sc_SecretCiphertext := []\<rparr>"
  let ?ids = "filter (\<lambda>i. mr_projectByConnection r i = Some p) ids"
  have mset: "mset ?ids = mset_set {j. mr_projectByConnection r j = Some p}"
    using enumerates_filter_mset [OF assms(1), of "\<lambda>i. mr_projectByConnection r i = Some p"] sub by simp
  have map: "map ?f ?ids = map (\<lambda>i. (the (mr_connections r i))\<lparr>sc_SecretCiphertext := []\<rparr>) ?ids"
    using assms(1) by (auto simp: enumerates_def)
  let ?cs = "sort_key (\<lambda>c. - sc_CreatedAt c) (map ?f ?ids)"
  have "mset ?cs = image_mset (\<lambda>i. (the (mr_connections r i))\<lparr>sc_SecretCiphertext := []\<rparr>)
      (mset_set {i. mr_projectByConnection r i = Some p})"
    by (simp only: map mset_sort mset_map mset)
  moreover have "sorted (map (\<lambda>c. - sc_CreatedAt c) ?cs)" by simp
  then have "sorted_wrt (\<lambda>x y. sc_CreatedAt y \<le> sc_CreatedAt x) ?cs" by (simp add: sorted_map)
  moreover have "list_all (\<lambda>c. sc_SecretCiphertext c = []) ?cs" by (auto simp: list_all_iff)
  moreover have "visible (StripeConnectionForProject p i r) =
      (if mr_projectByConnection r i = Some p then mr_connections r i else None)"
    by (auto simp: StripeConnectionForProject_def StripeConnection_get_def own)
  ultimately show ?thesis
    by (auto simp: ListStripeConnectionsForProject_def own)
qed

theorem connections_scoped_witness:
  "visible (StripeConnectionForProject ''q'' ''c1'' connected) = None \<and>
   visible (StripeConnectionForProject ''p'' ''c1'' connected) = Some (sample_connection ''c1'')"
proof -
  have "enumerates [''c1''] (mr_connections connected)"
    "dom (mr_projectByConnection connected) \<subseteq> dom (mr_connections connected)"
    by (simp_all add: enumerates_def connected_facts)
  from connections_scoped [OF this(1) _ this(2), of "''p''" "''c1''"]
    connections_scoped [OF this(1) _ this(2), of "''q''" "''c1''"]
  show ?thesis by (simp add: connected_facts)
qed

end
