(* ===== verification/MemoryRepo.thy ===== *)
theory MemoryRepo
  imports MemoryConnections "HOL-Library.Sublist"
begin

text \<open>
  The in-memory repository as a whole: its methods collected into the records of the
  persistence port, and the relation of all its atomic steps, over which the invariant and
  the append-only nature of the evidence are proved.  The record takes the iteration orders
  of the maps as functions; the facts about the port hold for every choice of them.
\<close>

subsection \<open>The repository as a persistence port\<close>

record iteration =
  it_runs :: "(string \<rightharpoonup> Run) \<Rightarrow> string list"
  it_connections :: "(string \<rightharpoonup> StripeConnection) \<Rightarrow> string list"
  it_outbox :: "(string \<rightharpoonup> memoryOutbox) \<Rightarrow> string list"

definition iteration_ok :: "iteration \<Rightarrow> bool" where
  "iteration_ok it \<longleftrightarrow>
     (\<forall>m. finite (dom m) \<longrightarrow> enumerates (it_runs it m) m) \<and>
     (\<forall>m. finite (dom m) \<longrightarrow> enumerates (it_connections it m) m) \<and>
     (\<forall>m. finite (dom m) \<longrightarrow> enumerates (it_outbox it m) m)"

definition reads :: "('s \<Rightarrow> goerr + 'a) \<Rightarrow> ('s, 'a) op" where
  "reads f s = (s, f s)"

definition memory_tenant :: "iteration \<Rightarrow> MemoryRepository TenantRepository" where
  "memory_tenant it =
     \<lparr>t_ReplayRunForProject = \<lambda>p k h. reads (ReplayRunForProject p k h),
      t_CreateRunForProject = CreateRunForProject,
      t_RunForProject = \<lambda>p i. reads (RunForProject p i),
      t_EventsForProject = \<lambda>p i. reads (EventsForProject p i),
      t_EventsAfterForProject = \<lambda>p i after limit. reads (EventsAfterForProject p i after limit),
      t_ReportForProject = \<lambda>p i. reads (ReportForProject p i),
      t_ListRunsForProject = \<lambda>p. reads (\<lambda>r. ListRunsForProject (it_runs it (mr_runs r)) p r),
      t_SaveStripeConnectionForProject =
        \<lambda>p c r. SaveStripeConnectionForProject (it_connections it (mr_connections r)) p c r,
      t_StripeConnectionForProject = \<lambda>p i. reads (StripeConnectionForProject p i),
      t_ListStripeConnectionsForProject =
        \<lambda>p. reads (\<lambda>r. ListStripeConnectionsForProject (it_connections it (mr_connections r)) p r)\<rparr>"

definition memory_public :: "iteration \<Rightarrow> MemoryRepository PublicRepository" where
  "memory_public it =
     \<lparr>p_PublicRun = \<lambda>i. reads (PublicRun i), p_PublicEvents = \<lambda>i. reads (PublicEvents i),
      p_PublicEventsAfter = \<lambda>i after limit. reads (PublicEventsAfter i after limit),
      p_PublicReport = \<lambda>i. reads (PublicReport i),
      p_ListPublicRuns = reads (\<lambda>r. ListPublicRuns (it_runs it (mr_runs r)) r)\<rparr>"

definition memory_port :: "crypto \<Rightarrow> iteration \<Rightarrow> MemoryRepository Repository" where
  "memory_port C it =
     \<lparr>r_NextRunID = NextRunID,
      r_ReplayRun = \<lambda>k h. reads (ReplayRun k h),
      r_CreateRun = CreateRun,
      r_Run = \<lambda>i. reads (Run_get i), r_Events = \<lambda>i. reads (Events_get i),
      r_EventsAfter = \<lambda>i after limit. reads (EventsAfter i after limit),
      r_Report = \<lambda>i. reads (Report_get i),
      r_ListRuns = reads (\<lambda>r. ListRuns (it_runs it (mr_runs r)) r),
      r_MarkWebhookSeen = MarkWebhookSeen,
      r_ProcessStripeWebhook = \<lambda>now e r. ProcessStripeWebhook C (it_runs it (mr_runs r)) now e r,
      r_SaveStripeConnection = \<lambda>c r. SaveStripeConnection (it_connections it (mr_connections r)) c r,
      r_StripeConnection = \<lambda>i. reads (StripeConnection_get i),
      r_ClaimOutbox = \<lambda>now owner lease topics r.
        ClaimOutbox (it_outbox it (mr_outbox r)) now owner lease topics r,
      r_HeartbeatOutbox = HeartbeatOutbox, r_CompleteOutbox = CompleteOutbox,
      r_RetryOutbox = RetryOutbox, r_FailOutbox = FailOutbox,
      r_RecordVerification = RecordVerification,
      r_ApplyReferenceMerchantEffect = ApplyReferenceMerchantEffect,
      r_Tenant = Some (memory_tenant it), r_Public = Some (memory_public it)\<rparr>"

subsection \<open>All steps\<close>

text \<open>
  One atomic call that may change the state, under what its callers guarantee: bundles are
  admitted (built consistently under an identifier of their own), key hashes are digests,
  a new connection has a new identifier, and workers have a name.
\<close>

inductive repo_step :: "crypto \<Rightarrow> MemoryRepository \<Rightarrow> MemoryRepository \<Rightarrow> bool" for C where
  repo_next: "repo_step C r (fst (NextRunID r))"
| repo_create: "admits_bundle r b \<Longrightarrow> repo_step C r (fst (CreateRun now k h b r))"
| repo_create_project: "admits_bundle r b \<Longrightarrow> digest_ok k \<Longrightarrow>
    repo_step C r (fst (CreateRunForProject now p k h b r))"
| repo_mark: "repo_step C r (fst (MarkWebhookSeen now rc r))"
| repo_process: "enumerates ids (mr_runs r) \<Longrightarrow> repo_step C r (fst (ProcessStripeWebhook C ids now e r))"
| repo_save: "enumerates ids (mr_connections r) \<Longrightarrow> mr_connections r (sc_ID c) = None \<Longrightarrow>
    repo_step C r (fst (SaveStripeConnection ids c r))"
| repo_save_project: "enumerates ids (mr_connections r) \<Longrightarrow> mr_connections r (sc_ID c) = None \<Longrightarrow>
    repo_step C r (fst (SaveStripeConnectionForProject ids p c r))"
| repo_outbox: "outbox_step r now act ans r' \<Longrightarrow> repo_step C r r'"
| repo_verify: "repo_step C r (fst (RecordVerification ev r))"
| repo_effect: "repo_step C r (fst (ApplyReferenceMerchantEffect e n r))"

lemma memory_ok_connections [simp]:
  "memory_ok (mr_connections_update f r) = memory_ok r"
  "memory_ok (mr_projectByConnection_update g r) = memory_ok r"
  by (simp_all add: memory_ok_def)

lemma repo_step_memory_ok: "repo_step C r r' \<Longrightarrow> memory_ok r \<Longrightarrow> memory_ok r'"
  by (induction rule: repo_step.induct)
    (auto intro: memory_ok_NextRunID memory_ok_CreateRun memory_ok_CreateRunForProject
      memory_ok_MarkWebhookSeen memory_ok_ProcessStripeWebhook memory_ok_outbox_step
      memory_ok_RecordVerification memory_ok_ApplyEffect
      simp: SaveStripeConnection_def SaveStripeConnectionForProject_def Let_def)

subsection \<open>Evidence only grows\<close>

text \<open>
  How a stored run may change: it keeps everything but its event count, which never goes
  down, its events and its assertions are only appended to, its verdict, findings and state
  snapshot stay, and its owner and correlation stay.
\<close>

definition run_evolves :: "Run \<Rightarrow> Run \<Rightarrow> bool" where
  "run_evolves run run' \<longleftrightarrow>
     run' = run\<lparr>run_EventCount := run_EventCount run'\<rparr> \<and> run_EventCount run \<le> run_EventCount run'"

definition report_evolves :: "Report \<Rightarrow> Report \<Rightarrow> bool" where
  "report_evolves rep rep' \<longleftrightarrow>
     prefix (rp_Assertions rep) (rp_Assertions rep') \<and> rp_Verdict rep' = rp_Verdict rep \<and>
     rp_Findings rep' = rp_Findings rep \<and> rp_State rep' = rp_State rep \<and>
     rp_Generated rep' = rp_Generated rep \<and> run_evolves (rp_Run rep) (rp_Run rep')"

definition evidence_grows :: "MemoryRepository \<Rightarrow> MemoryRepository \<Rightarrow> bool" where
  "evidence_grows r r' \<longleftrightarrow>
     (\<forall>i run. mr_runs r i = Some run \<longrightarrow> (\<exists>run'. mr_runs r' i = Some run' \<and> run_evolves run run')) \<and>
     (\<forall>i evs. mr_events r i = Some evs \<longrightarrow> (\<exists>evs'. mr_events r' i = Some evs' \<and> prefix evs evs')) \<and>
     (\<forall>i rep. mr_reports r i = Some rep \<longrightarrow> (\<exists>rep'. mr_reports r' i = Some rep' \<and> report_evolves rep rep')) \<and>
     (\<forall>i \<in> dom (mr_runs r). mr_projectByRun r' i = mr_projectByRun r i)"

lemma run_evolves_refl [simp]: "run_evolves run run"
  by (simp add: run_evolves_def)

lemma report_evolves_refl [simp]: "report_evolves rep rep"
  by (simp add: report_evolves_def)

lemma run_evolves_trans: "run_evolves a b \<Longrightarrow> run_evolves b c \<Longrightarrow> run_evolves a c"
  unfolding run_evolves_def by (metis Run.surjective Run.update_convs(10) order_trans)

lemma report_evolves_trans: "report_evolves a b \<Longrightarrow> report_evolves b c \<Longrightarrow> report_evolves a c"
  unfolding report_evolves_def using run_evolves_trans prefix_order.trans by metis

lemma evidence_grows_same:
  assumes "mr_runs r' = mr_runs r" and "mr_events r' = mr_events r" and "mr_reports r' = mr_reports r"
    and "mr_projectByRun r' = mr_projectByRun r"
  shows "evidence_grows r r'"
  using assms by (simp add: evidence_grows_def)

lemma evidence_grows_trans:
  assumes "evidence_grows a b" and "evidence_grows b c"
  shows "evidence_grows a c"
  unfolding evidence_grows_def
proof (intro conjI allI impI ballI)
  fix i run assume "mr_runs a i = Some run"
  then obtain run1 where "mr_runs b i = Some run1" "run_evolves run run1"
    using assms(1) unfolding evidence_grows_def by blast
  moreover then obtain run2 where "mr_runs c i = Some run2" "run_evolves run1 run2"
    using assms(2) unfolding evidence_grows_def by blast
  ultimately show "\<exists>run'. mr_runs c i = Some run' \<and> run_evolves run run'"
    using run_evolves_trans by blast
next
  fix i evs assume "mr_events a i = Some evs"
  then obtain evs1 where "mr_events b i = Some evs1" "prefix evs evs1"
    using assms(1) unfolding evidence_grows_def by blast
  moreover then obtain evs2 where "mr_events c i = Some evs2" "prefix evs1 evs2"
    using assms(2) unfolding evidence_grows_def by blast
  ultimately show "\<exists>evs'. mr_events c i = Some evs' \<and> prefix evs evs'"
    using prefix_order.trans by blast
next
  fix i rep assume "mr_reports a i = Some rep"
  then obtain rep1 where "mr_reports b i = Some rep1" "report_evolves rep rep1"
    using assms(1) unfolding evidence_grows_def by blast
  moreover then obtain rep2 where "mr_reports c i = Some rep2" "report_evolves rep1 rep2"
    using assms(2) unfolding evidence_grows_def by blast
  ultimately show "\<exists>rep'. mr_reports c i = Some rep' \<and> report_evolves rep rep'"
    using report_evolves_trans by blast
next
  fix i assume i: "i \<in> dom (mr_runs a)"
  then obtain run where "mr_runs a i = Some run" by blast
  then have "i \<in> dom (mr_runs b)"
    using assms(1) unfolding evidence_grows_def by blast
  with i show "mr_projectByRun c i = mr_projectByRun a i"
    using assms unfolding evidence_grows_def by metis
qed

lemma evidence_grows_fresh:
  assumes "runs_ok r" and "i \<notin> dom (mr_runs r)"
    and "\<And>j. j \<noteq> i \<Longrightarrow> mr_runs r' j = mr_runs r j \<and> mr_events r' j = mr_events r j \<and>
      mr_reports r' j = mr_reports r j \<and> mr_projectByRun r' j = mr_projectByRun r j"
  shows "evidence_grows r r'"
proof -
  have other: "j \<in> dom (mr_runs r) \<Longrightarrow> mr_runs r' j = mr_runs r j \<and> mr_events r' j = mr_events r j \<and>
      mr_reports r' j = mr_reports r j \<and> mr_projectByRun r' j = mr_projectByRun r j" for j
    using assms(2,3) by metis
  have doms: "dom (mr_events r) = dom (mr_runs r)" "dom (mr_reports r) = dom (mr_runs r)"
    using runs_okD(2,3) [OF assms(1)] by simp_all
  show ?thesis
    unfolding evidence_grows_def
  proof (intro conjI allI impI ballI)
    fix j run assume "mr_runs r j = Some run"
    then show "\<exists>run'. mr_runs r' j = Some run' \<and> run_evolves run run'"
      using other [OF domI] by (metis run_evolves_refl)
  next
    fix j evs assume "mr_events r j = Some evs"
    moreover then have "j \<in> dom (mr_runs r)" using doms by blast
    ultimately show "\<exists>evs'. mr_events r' j = Some evs' \<and> prefix evs evs'"
      using other [of j] by auto
  next
    fix j rep assume "mr_reports r j = Some rep"
    moreover then have "j \<in> dom (mr_runs r)" using doms by blast
    ultimately show "\<exists>rep'. mr_reports r' j = Some rep' \<and> report_evolves rep rep'"
      using other [of j] by auto
  next
    fix j assume "j \<in> dom (mr_runs r)"
    then show "mr_projectByRun r' j = mr_projectByRun r j" using other by blast
  qed
qed

lemma evidence_grows_create:
  assumes "memory_ok r" and "admits_bundle r b"
  shows "evidence_grows r (fst (CreateRun now k h b r))"
    and "evidence_grows r (fst (CreateRunForProject now p k h b r))"
proof -
  have ok: "runs_ok r" and fresh: "run_ID (rb_Run b) \<notin> dom (mr_runs r)"
    using assms by (simp_all add: memory_ok_def admits_bundle_def)
  show "evidence_grows r (fst (CreateRun now k h b r))"
    by (rule evidence_grows_fresh [OF ok fresh])
      (auto simp: CreateRun_def Let_def split: option.splits)
  show "evidence_grows r (fst (CreateRunForProject now p k h b r))"
    by (rule evidence_grows_fresh [OF ok fresh])
      (auto simp: CreateRunForProject_def Let_def split: option.splits)
qed

lemma report_evolves_correlated:
  assumes "run_evolves (rp_Run rep) run"
  shows "report_evolves rep (correlated_report rc run rep)"
  using assms by (simp add: report_evolves_def correlated_report_def)

lemma evidence_grows_project:
  assumes "runs_ok r" and "mr_runs r i = Some run"
  shows "evidence_grows r (project_webhook C now rc i r)"
proof -
  obtain evs rep where s: "mr_events r i = Some evs" "mr_reports r i = Some rep" "sequenced evs"
      "run_EventCount run = int (length evs)" "rp_Run rep = run"
    using runs_ok_story [OF assms] by metis
  let ?run = "run\<lparr>run_EventCount := int (length evs) + 1\<rparr>"
  have run: "run_evolves run ?run"
    using s(4) by (simp add: run_evolves_def)
  then have rep: "report_evolves rep (correlated_report rc ?run rep)"
    using report_evolves_correlated s(5) by blast
  show ?thesis
    unfolding project_webhook_eq [OF assms(2) s(1-3)] evidence_grows_def Let_def
    using run rep assms(2) s(1,2) by simp
qed

lemma evidence_grows_process:
  assumes "memory_ok r" and "enumerates ids (mr_runs r)"
  shows "evidence_grows r (fst (ProcessStripeWebhook C ids now e r))"
proof (cases "mr_webhookResults r e")
  case (Some x)
  then show ?thesis by (simp add: ProcessStripeWebhook_def evidence_grows_same)
next
  case none: None
  show ?thesis
  proof (cases "mr_webhooks r e")
    case None
    with none show ?thesis by (simp add: ProcessStripeWebhook_def evidence_grows_same)
  next
    case (Some rc)
    let ?d = "webhook_decision ids rc r"
    let ?r = "if wp_Status ?d = WebhookMatched then project_webhook C now rc (wp_RunID ?d) r else r"
    have "evidence_grows r ?r"
    proof (cases "wp_Status ?d = WebhookMatched")
      case True
      then obtain run where "mr_runs r (wp_RunID ?d) = Some run"
        using webhook_decision_matched [OF True enumeratesD(2) [OF assms(2)]] by blast
      with True assms(1) show ?thesis
        using evidence_grows_project by (simp add: memory_ok_def)
    qed (simp add: evidence_grows_same)
    moreover have "evidence_grows ?r (fst (ProcessStripeWebhook C ids now e r))"
      by (rule evidence_grows_same)
        (simp_all add: ProcessStripeWebhook_decision [OF none Some] finish_webhook_def)
    ultimately show ?thesis by (rule evidence_grows_trans)
  qed
qed

lemma evidence_grows_verify: "evidence_grows r (fst (RecordVerification ev r))"
proof (cases "mr_reports r (ve_RunID ev)")
  case None
  then show ?thesis by (simp add: RecordVerification_def evidence_grows_same)
next
  case (Some rep)
  then show ?thesis
    by (simp add: RecordVerification_def evidence_grows_def report_evolves_def Let_def)
qed

lemma evidence_grows_outbox:
  assumes "outbox_step r now act ans r'"
  shows "evidence_grows r r'"
  using assms by (cases rule: outbox_step_cases) (auto intro!: evidence_grows_same)

lemma repo_step_grows: "repo_step C r r' \<Longrightarrow> memory_ok r \<Longrightarrow> evidence_grows r r'"
proof (induction rule: repo_step.induct)
  case (repo_outbox r now act ans r')
  from repo_outbox(1) show ?case by (rule evidence_grows_outbox)
next
  case (repo_mark r now rc)
  show ?case by (rule evidence_grows_same) (simp_all add: MarkWebhookSeen_def split: option.splits)
next
  case (repo_effect r e n)
  show ?case
    by (rule evidence_grows_same) (simp_all add: ApplyReferenceMerchantEffect_def split: option.splits)
qed (simp_all add: evidence_grows_create evidence_grows_process evidence_grows_verify
      NextRunID_def SaveStripeConnection_def SaveStripeConnectionForProject_def Let_def
      evidence_grows_same)

text \<open>
  C18. The repository keeps its invariant over every history of atomic calls: from the empty
  repository, whatever the calls and their interleaving, as long as new runs are consistent bundles
  under identifiers not used before and keys are 32-byte digests, as the service makes them, every run sits under its
  identifier with its events numbered 1 to n and counted, its report holds the same run,
  idempotency records name stored runs, tenant records runs of their project, identifiers
  that were not handed out are free, and the outbox is consistent.
\<close>

theorem memory_invariant:
  assumes "(repo_step C)\<^sup>*\<^sup>* NewMemoryRepository r"
  shows "memory_ok r"
  using assms by (induction rule: rtranclp_induct) (auto intro: memory_ok_new repo_step_memory_ok)

lemma repo_steps_grow:
  assumes "(repo_step C)\<^sup>*\<^sup>* r r'" and "memory_ok r"
  shows "evidence_grows r r' \<and> memory_ok r'"
  using assms
proof (induction rule: rtranclp_induct)
  case base
  then show ?case by (simp add: evidence_grows_same)
next
  case (step r1 r2)
  then show ?case
    using repo_step_grows repo_step_memory_ok evidence_grows_trans by blast
qed

text \<open>
  C19. Evidence is append-only: over every history of atomic calls on a well-formed repository,
  a stored run keeps its status, score, times and every other field but its event count,
  its events and the assertions of its report are only appended to, the verdict, findings
  and state snapshot do not change, and no run is removed or changes its owner.
\<close>

theorem evidence_append_only:
  assumes "(repo_step C)\<^sup>*\<^sup>* r r'" and "memory_ok r" and "mr_runs r i = Some run"
    and "mr_events r i = Some evs" and "mr_reports r i = Some rep"
  shows "\<exists>run' evs' rep'. mr_runs r' i = Some run' \<and> mr_events r' i = Some evs' \<and>
    mr_reports r' i = Some rep' \<and> run_evolves run run' \<and> prefix evs evs' \<and>
    report_evolves rep rep' \<and> mr_projectByRun r' i = mr_projectByRun r i"
  using repo_steps_grow [OF assms(1,2)] assms(3-5) unfolding evidence_grows_def by blast

subsection \<open>A received event stays received\<close>

lemma process_keeps_receipts:
  "mr_webhooks (fst (ProcessStripeWebhook C ids now e r)) = mr_webhooks r"
  by (simp add: ProcessStripeWebhook_def finish_webhook_def project_webhook_def Let_def
      split: option.splits)

lemma mark_runs [simp]: "mr_runs (fst (MarkWebhookSeen now rc r)) = mr_runs r"
  by (simp add: MarkWebhookSeen_def putOutboxLocked_def Let_def split: option.splits)

lemma mark_keeps_receipt:
  "mr_webhooks r e = Some rc \<Longrightarrow> mr_webhooks (fst (MarkWebhookSeen now rc' r)) e = Some rc"
  by (auto simp: MarkWebhookSeen_def putOutboxLocked_def Let_def split: option.splits)

lemma create_keeps_receipts:
  "mr_webhooks (fst (CreateRun now k h b r)) = mr_webhooks r"
  "mr_webhooks (fst (CreateRunForProject now p k h b r)) = mr_webhooks r"
  by (simp_all add: CreateRun_def CreateRunForProject_def enqueueLocked_put putOutboxLocked_def Let_def
      split: option.splits)

lemma outbox_keeps_receipts: "outbox_step r now act ans r' \<Longrightarrow> mr_webhooks r' = mr_webhooks r"
  by (erule outbox_step_cases) (simp_all add: putOutboxLocked_def Let_def)

lemma repo_step_keeps_receipt:
  "repo_step C r r' \<Longrightarrow> mr_webhooks r e = Some rc \<Longrightarrow> mr_webhooks r' e = Some rc"
  by (induction rule: repo_step.induct)
    (auto simp: process_keeps_receipts create_keeps_receipts outbox_keeps_receipts mark_keeps_receipt
      NextRunID_def SaveStripeConnection_def SaveStripeConnectionForProject_def RecordVerification_def
      ApplyReferenceMerchantEffect_def Let_def split: option.splits)

lemma repo_steps_keep_receipt:
  "(repo_step C)\<^sup>*\<^sup>* r r' \<Longrightarrow> mr_webhooks r e = Some rc \<Longrightarrow> mr_webhooks r' e = Some rc"
  by (induction rule: rtranclp_induct) (auto intro: repo_step_keeps_receipt)

lemma mark_known:
  "mr_webhooks r (wr_EventID rc') = Some rc \<Longrightarrow>
     MarkWebhookSeen now rc' r = (r, if same_envelope rc rc' then Inr True else Inl ErrWebhookConflict)"
  by (auto simp: MarkWebhookSeen_def same_envelope_def)

text \<open>
  C26. Webhook deliveries are deduplicated.  The first delivery of an event stores its receipt
  and queues exactly one job for it, and changes nothing else.  After it, whatever else the
  repository is asked to do (processing the event, further deliveries, claims and settlements
  of its job, new runs), the receipt is kept, and every later delivery of the event changes
  nothing: it is answered as a duplicate when its type, endpoint and body agree with the
  first delivery, and as a conflict otherwise.
\<close>

theorem webhook_deduplicated:
  assumes "mr_webhooks r (wr_EventID rc) = None" and "wr_EventID rc' = wr_EventID rc"
  shows "\<exists>r1. MarkWebhookSeen now rc r = (r1, Inr False) \<and>
    r1 = r\<lparr>mr_webhooks := (mr_webhooks r)(wr_EventID rc \<mapsto> rc),
      mr_nextOutbox := mr_nextOutbox r + 1,
      mr_outbox := (mr_outbox r)(outboxID (mr_nextOutbox r) \<mapsto>
        new_outbox_item now (outboxID (mr_nextOutbox r)) ''stripe.webhook.received''
          (wr_EventID rc) (webhook_payload rc))\<rparr> \<and>
    (\<forall>r2 now'. (repo_step C)\<^sup>*\<^sup>* r1 r2 \<longrightarrow>
      mr_webhooks r2 (wr_EventID rc) = Some rc \<and>
      MarkWebhookSeen now' rc' r2 =
        (r2, if same_envelope rc rc' then Inr True else Inl ErrWebhookConflict))"
proof -
  obtain r1 where r1: "MarkWebhookSeen now rc r = (r1, Inr False)"
      "r1 = r\<lparr>mr_webhooks := (mr_webhooks r)(wr_EventID rc \<mapsto> rc),
        mr_nextOutbox := mr_nextOutbox r + 1,
        mr_outbox := (mr_outbox r)(outboxID (mr_nextOutbox r) \<mapsto>
          new_outbox_item now (outboxID (mr_nextOutbox r)) ''stripe.webhook.received''
            (wr_EventID rc) (webhook_payload rc))\<rparr>"
    using assms(1) by (simp add: MarkWebhookSeen_def putOutboxLocked_def Let_def)
  then have "mr_webhooks r1 (wr_EventID rc) = Some rc" by simp
  with r1 assms(2) show ?thesis
    using repo_steps_keep_receipt mark_known by (metis (no_types, lifting))
qed

lemma linked_steps:
  "(repo_step C)\<^sup>*\<^sup>* linked_world (fst (ProcessStripeWebhook C [runID 1] 7 ''evt_1'' linked_world))"
  by (rule r_into_rtranclp) (rule repo_process [OF linked_facts(2)])

lemma create_steps:
  "(repo_step C)\<^sup>*\<^sup>* NewMemoryRepository (fst (CreateRun 0 k h (sample_bundle 1) NewMemoryRepository))"
  by (rule r_into_rtranclp, rule repo_create) (simp add: admits_sample)

theorem memory_invariant_witness:
  "memory_ok (fst (CreateRun 0 ''k'' ''h'' (sample_bundle 1) NewMemoryRepository))"
  by (rule memory_invariant [OF create_steps])

theorem evidence_append_only_witness:
  "\<exists>run' evs'. mr_runs (fst (ProcessStripeWebhook plain_crypto [runID 1] 7 ''evt_1'' linked_world)) (runID 1) = Some run' \<and>
     mr_events (fst (ProcessStripeWebhook plain_crypto [runID 1] 7 ''evt_1'' linked_world)) (runID 1) = Some evs' \<and>
     run_Status run' = run_Status (the (mr_runs linked_world (runID 1))) \<and>
     prefix (the (mr_events linked_world (runID 1))) evs'"
proof -
  have ok: "runs_ok linked_world"
    using linked_facts(1) by (simp add: memory_ok_def)
  obtain run where run: "mr_runs linked_world (runID 1) = Some run"
    using linked_facts(2) by (auto simp: enumerates_def)
  obtain evs rep where s: "mr_events linked_world (runID 1) = Some evs" "mr_reports linked_world (runID 1) = Some rep"
    using runs_ok_story [OF ok run] by metis
  obtain run' evs' where *: "mr_runs (fst (ProcessStripeWebhook plain_crypto [runID 1] 7 ''evt_1'' linked_world)) (runID 1) = Some run'"
      "mr_events (fst (ProcessStripeWebhook plain_crypto [runID 1] 7 ''evt_1'' linked_world)) (runID 1) = Some evs'"
      "run_evolves run run'" "prefix evs evs'"
    using evidence_append_only [OF linked_steps linked_facts(1) run s] by blast
  then have "run_Status run' = run_Status run"
    by (metis run_evolves_def Run.update_convs(10) Run.select_convs(5) Run.surjective)
  with * run s show ?thesis by simp
qed

text \<open>
  A delivery repeated after the event was processed, with the same body and with another one.
\<close>

theorem webhook_deduplicated_witness:
  "(let r1 = fst (MarkWebhookSeen 3 (linked_receipt ''evt_1'') linked_run);
        r2 = fst (ProcessStripeWebhook plain_crypto [runID 1] 7 ''evt_1'' r1)
    in mr_webhookResults r2 ''evt_1'' \<noteq> None \<and>
      MarkWebhookSeen 9 (linked_receipt ''evt_1'') r2 = (r2, Inr True) \<and>
      MarkWebhookSeen 9 ((linked_receipt ''evt_1'')\<lparr>wr_BodySHA := ''x''\<rparr>) r2 =
        (r2, Inl ErrWebhookConflict))"
proof -
  let ?r1 = "fst (MarkWebhookSeen 3 (linked_receipt ''evt_1'') linked_run)"
  let ?r2 = "fst (ProcessStripeWebhook plain_crypto [runID 1] 7 ''evt_1'' ?r1)"
  have id: "wr_EventID (linked_receipt ''evt_1'') = ''evt_1''"
    by (simp add: linked_receipt_def sample_receipt_def)
  have new: "mr_webhooks linked_run = Map.empty" "mr_webhookResults linked_run = Map.empty"
    by (simp_all add: linked_run_def CreateRun_def enqueueLocked_put NewMemoryRepository_def Let_def)
  have runs: "enumerates [runID 1] (mr_runs linked_run)"
    using linked_facts(2) by (simp add: linked_world_def)
  have r1: "mr_webhooks ?r1 ''evt_1'' = Some (linked_receipt ''evt_1'')"
      "mr_webhookResults ?r1 ''evt_1'' = None"
    using id new by (simp_all add: MarkWebhookSeen_def putOutboxLocked_def Let_def)
  have steps: "(repo_step plain_crypto)\<^sup>*\<^sup>* ?r1 ?r2"
    by (rule r_into_rtranclp) (rule repo_process, simp add: runs)
  have processed: "mr_webhookResults ?r2 ''evt_1'' \<noteq> None"
    by (simp add: ProcessStripeWebhook_decision [OF r1(2,1)] finish_webhook_def)
  have none: "mr_webhooks linked_run (wr_EventID (linked_receipt ''evt_1'')) = None"
    by (simp add: new(1))
  from webhook_deduplicated [OF none refl, of 3 plain_crypto]
    webhook_deduplicated [OF none, of "(linked_receipt ''evt_1'')\<lparr>wr_BodySHA := ''x''\<rparr>" 3 plain_crypto]
  have "MarkWebhookSeen 9 (linked_receipt ''evt_1'') ?r2 = (?r2, Inr True)"
      "MarkWebhookSeen 9 ((linked_receipt ''evt_1'')\<lparr>wr_BodySHA := ''x''\<rparr>) ?r2 =
        (?r2, Inl ErrWebhookConflict)"
    using steps by (auto simp: same_envelope_def linked_receipt_def sample_receipt_def)
  with processed show ?thesis by (simp add: Let_def)
qed

end
