(* ===== verification/Worker.thy ===== *)
theory Worker
  imports MemoryRepo Verification
begin

text \<open>
  The outbox worker (\<^verbatim>\<open>internal/worker/worker.go\<close>) and the merchant that keeps its effects in
  the repository (\<^verbatim>\<open>reference_merchant.go\<close>).  The worker is written against the persistence
  port and a relay, both of which act on the same state.  The clock readings of one
  iteration are an argument: the claim, the heartbeats before and after the job's own work,
  the work, and the retry.
\<close>

subsection \<open>The merchant backed by the repository\<close>

definition RepositoryMerchant_Deliver ::
  "crypto \<Rightarrow> 's Repository \<Rightarrow> Signer \<Rightarrow> 's \<Rightarrow> Delivery \<Rightarrow> 's \<times> (goerr + Receipt)" where
  "RepositoryMerchant_Deliver C R sg s d =
     (if dl_Version d \<noteq> ContractVersion \<or> \<not> Verify C sg d
      then (s, Inr \<lparr>rc_Accepted = False, rc_Duplicate = False, rc_SignatureValid = False,
                    rc_BusinessEffects = 0\<rparr>)
      else (case r_ApplyReferenceMerchantEffect R (dl_EffectID d) (dl_Sequence d) s of
              (s', Inl e) \<Rightarrow> (s', Inl e)
            | (s', Inr duplicate) \<Rightarrow>
                (s', Inr \<lparr>rc_Accepted = True, rc_Duplicate = duplicate, rc_SignatureValid = True,
                          rc_BusinessEffects = 1\<rparr>)))"

subsection \<open>The worker's state\<close>

record Config =
  cf_ID :: string
  cf_Lease :: duration
  cf_Poll :: duration
  cf_MaxAttempts :: int

record 's Relay =
  rl_signer :: Signer
  rl_target :: "'s \<Rightarrow> Delivery \<Rightarrow> 's \<times> (goerr + Receipt)"

record 's Worker =
  wk_repo :: "'s Repository"
  wk_relay :: "'s Relay"
  wk_config :: Config

definition New :: "'s Repository \<Rightarrow> 's Relay \<Rightarrow> Config \<Rightarrow> 's Worker" where
  "New repo relay config0 =
     (let config1 = (if cf_ID config0 = [] then config0\<lparr>cf_ID := ''worker-local''\<rparr> else config0);
          config2 = (if cf_Lease config1 \<le> 0 then config1\<lparr>cf_Lease := 30 * Second\<rparr> else config1);
          config3 = (if cf_Poll config2 \<le> 0 then config2\<lparr>cf_Poll := 500 * Millisecond\<rparr> else config2);
          config4 = (if cf_MaxAttempts config3 \<le> 0 then config3\<lparr>cf_MaxAttempts := 5\<rparr> else config3)
      in \<lparr>wk_repo = repo, wk_relay = relay, wk_config = config4\<rparr>)"

text \<open>The relay of a repository merchant, as the worker's \<^verbatim>\<open>main\<close> wires it.\<close>

definition repository_relay :: "crypto \<Rightarrow> 's Repository \<Rightarrow> Signer \<Rightarrow> 's Relay" where
  "repository_relay C R sg = \<lparr>rl_signer = sg, rl_target = RepositoryMerchant_Deliver C R sg\<rparr>"

subsection \<open>Failures and delays\<close>

definition workerErrorCode :: "string \<Rightarrow> bool \<Rightarrow> string" where
  "workerErrorCode topic retry =
     (if topic = ''stripe.webhook.received''
      then (if retry then ''webhook_processing_retry'' else ''webhook_processing_failed'')
      else if retry then ''verification_retry'' else ''verification_failed'')"

definition retryDelay :: "int \<Rightarrow> duration" where
  "retryDelay attempt0 =
     (let attempt1 = (if attempt0 < 1 then 1 else attempt0);
          attempt = (if attempt1 > 6 then 6 else attempt1)
      in int64 (push_bit (nat (attempt - 1)) 1 * Second))"

subsection \<open>Jobs\<close>

text \<open>
  \<^verbatim>\<open>json.Unmarshal\<close> of a payload into a struct of two string fields: a missing member leaves
  the field empty, and a member of another type is an error.
\<close>

definition json_string :: "(string \<rightharpoonup> any) \<Rightarrow> string \<Rightarrow> string option" where
  "json_string members name =
     (case members name of None \<Rightarrow> Some [] | Some (AnyString v) \<Rightarrow> Some v | Some _ \<Rightarrow> None)"

fun unmarshal_pair :: "RawMessage \<Rightarrow> string \<Rightarrow> string \<Rightarrow> (string \<times> string) option" where
  "unmarshal_pair Malformed a b = None"
| "unmarshal_pair (JSONObject members) a b =
     (case (json_string members a, json_string members b) of
        (Some x, Some y) \<Rightarrow> Some (x, y) | _ \<Rightarrow> None)"

definition verification_delivery :: "crypto \<Rightarrow> Run \<Rightarrow> Delivery" where
  "verification_delivery C run =
     \<lparr>dl_Version = [], dl_EventID = ''verify_'' @ run_ID run,
      dl_EffectID = ''merchant_effect_'' @ run_ID run, dl_RunID = run_ID run, dl_Sequence = 1,
      dl_PayloadHash = hex_encode (sha256 C
        (run_ID run @ newline @ run_StripeObjectID run @ newline @ run_Environment run)),
      dl_Signature = []\<rparr>"

definition verification_verdict :: "Result \<Rightarrow> bool \<times> string" where
  "verification_verdict result =
     (if rs_Fault result = FaultDuplicate \<or> rs_Fault result = FaultReorder then
        (rs_BusinessEffects result = 1 \<and> rs_Duplicates result \<ge> 1 \<and> rs_Rejected result = 0,
         ''one business effect with duplicate suppression'')
      else if rs_Fault result = FaultTimeout then
        (rs_BusinessEffects result = 1 \<and> rs_Rejected result = 0, ''one business effect after retry'')
      else if rs_Fault result = FaultTamper then
        (rs_BusinessEffects result = 0 \<and> rs_Rejected result \<ge> 1, ''blocked before business effect'')
      else (rs_BusinessEffects result = 1 \<and> rs_Rejected result = 0, ''one business effect''))"

definition verification_assertion :: "Result \<Rightarrow> Fault \<Rightarrow> Assertion" where
  "verification_assertion result fault =
     (case verification_verdict result of (passed, expected) \<Rightarrow>
        \<lparr>as_ID = ''assert_reference_merchant_exactly_once'',
         as_Name = ''Verification relay converged safely'', as_Passed = passed,
         as_Expected = expected,
         as_Observed = ''fault='' @ rs_Fault result @ '' attempts='' @ fmt_d (rs_Attempts result) @
           '' effects='' @ fmt_d (rs_BusinessEffects result) @
           '' duplicates='' @ fmt_d (rs_Duplicates result) @
           '' rejected='' @ fmt_d (rs_Rejected result),
         as_Evidence = ContractVersion @ '':'' @ fault\<rparr>)"

definition verification_fault :: "Fault \<Rightarrow> Run \<Rightarrow> Fault" where
  "verification_fault requested run =
     (let fault1 = (if requested = [] then run_Fault run else requested)
      in if fault1 = [] then FaultDuplicate else fault1)"

definition processVerification ::
  "crypto \<Rightarrow> 's Worker \<Rightarrow> (nat \<Rightarrow> goerr option) \<Rightarrow> OutboxMessage \<Rightarrow> 's \<Rightarrow> 's \<times> goerr option" where
  "processVerification C w ctx message s =
     (case unmarshal_pair (om_Payload message) ''run_id'' ''verification_fault'' of
        None \<Rightarrow> (s, Some (ErrNew ''invalid verification job payload''))
      | Some (runId, requested) \<Rightarrow>
          if runId = [] then (s, Some (ErrNew ''invalid verification job payload''))
          else
            (case r_Run (wk_repo w) runId s of
               (s1, Inl e) \<Rightarrow> (s1, Some (ErrNew ''verification run unavailable''))
             | (s1, Inr (run, ok)) \<Rightarrow>
                 if \<not> ok then (s1, Some (ErrNew ''verification run unavailable''))
                 else
                   (let fault = verification_fault requested run
                    in case Execute C (rl_signer (wk_relay w)) (rl_target (wk_relay w)) ctx
                              (verification_delivery C run) fault s1 of
                         (s2, result, Some e) \<Rightarrow> (s2, Some e)
                       | (s2, result, None) \<Rightarrow>
                           (case r_RecordVerification (wk_repo w)
                                   \<lparr>ve_RunID = run_ID run,
                                    ve_Assertion = verification_assertion result fault,
                                    ve_Checkpoint = ''reference-merchant-v1''\<rparr> s2 of
                              (s3, Inl e) \<Rightarrow> (s3, Some e)
                            | (s3, Inr _) \<Rightarrow> (s3, None)))))"

definition processStripeWebhook ::
  "'s Worker \<Rightarrow> time \<Rightarrow> OutboxMessage \<Rightarrow> 's \<Rightarrow> 's \<times> goerr option" where
  "processStripeWebhook w now message s =
     (let invalid = ErrPermanent ''webhook_job_invalid''
            (ErrNew ''invalid Stripe webhook job payload'')
      in case unmarshal_pair (om_Payload message) ''stripe_event_id'' ''event_type'' of
           None \<Rightarrow> (s, Some invalid)
         | Some (eventID, eventType) \<Rightarrow>
             if eventID = [] \<or> eventType = [] \<or> eventID \<noteq> om_AggregateID message
             then (s, Some invalid)
             else (case r_ProcessStripeWebhook (wk_repo w) now eventID s of
                     (s1, Inl e) \<Rightarrow> (s1, Some e)
                   | (s1, Inr _) \<Rightarrow> (s1, None)))"

definition process ::
  "crypto \<Rightarrow> 's Worker \<Rightarrow> (nat \<Rightarrow> goerr option) \<Rightarrow> time \<Rightarrow> OutboxMessage \<Rightarrow> 's \<Rightarrow>
   's \<times> goerr option" where
  "process C w ctx now message s =
     (if om_Topic message = ''run.persisted'' then processVerification C w ctx message s
      else if om_Topic message = ''verification.run.queued'' then processVerification C w ctx message s
      else if om_Topic message = ''stripe.webhook.received'' then processStripeWebhook w now message s
      else (s, None))"

subsection \<open>The lease while a job runs\<close>

text \<open>
  \<^verbatim>\<open>withHeartbeat\<close> runs the job beside a loop that renews the lease at every tick and stops at
  the first renewal that fails, cancelling the job.  Renewals and the job act on different
  parts of the state, so the ticks during the job are split into those before and those
  after its work.  A lost lease wins over the job's own result.
\<close>

fun heartbeats :: "'s Worker \<Rightarrow> OutboxMessage \<Rightarrow> time list \<Rightarrow> 's \<Rightarrow> 's \<times> goerr option" where
  "heartbeats w message [] s = (s, None)"
| "heartbeats w message (now # ticks) s =
     (case r_HeartbeatOutbox (wk_repo w) now (om_ID message) (cf_ID (wk_config w))
             (cf_Lease (wk_config w)) s of
        (s', Inl e) \<Rightarrow> (s', Some e)
      | (s', Inr alive) \<Rightarrow>
          if \<not> alive then (s', Some (ErrNew ''outbox lease lost'')) else heartbeats w message ticks s')"

definition ctx_canceled :: goerr where
  "ctx_canceled = ErrNew ''context canceled''"

definition withHeartbeat ::
  "'s Worker \<Rightarrow> OutboxMessage \<Rightarrow> time list \<Rightarrow>
   ((nat \<Rightarrow> goerr option) \<Rightarrow> 's \<Rightarrow> 's \<times> goerr option) \<Rightarrow> time list \<Rightarrow> 's \<Rightarrow> 's \<times> goerr option" where
  "withHeartbeat w message before operation after s =
     (case heartbeats w message before s of
        (s1, Some lost) \<Rightarrow>
          (case operation (\<lambda>_. Some ctx_canceled) s1 of (s2, _) \<Rightarrow> (s2, Some lost))
      | (s1, None) \<Rightarrow>
          (case operation (\<lambda>_. None) s1 of
             (s2, operationErr) \<Rightarrow>
               (case heartbeats w message after s2 of
                  (s3, Some lost) \<Rightarrow> (s3, Some lost)
                | (s3, None) \<Rightarrow> (s3, operationErr))))"

subsection \<open>One iteration\<close>

record clock =
  ck_claim :: time
  ck_before :: "time list"
  ck_work :: time
  ck_after :: "time list"
  ck_settle :: time

definition outbox_topics :: "string list" where
  "outbox_topics = [''run.persisted'', ''verification.run.queued'', ''stripe.webhook.received'']"

text \<open>
  How a claimed job is settled after its processing ended with \<^verbatim>\<open>processErr\<close>, and the whole
  iteration.  As in Go both a flag and an error are returned.
\<close>

definition RunOnce_settle ::
  "'s Worker \<Rightarrow> time \<Rightarrow> OutboxMessage \<Rightarrow> goerr option \<Rightarrow> 's \<Rightarrow> 's \<times> (goerr + unit)" where
  "RunOnce_settle w now message processErr s =
     (let config = wk_config w; repo = wk_repo w
      in case processErr of
           None \<Rightarrow> r_CompleteOutbox repo (om_ID message) (cf_ID config) s
         | Some e \<Rightarrow>
             (case errors_As_permanent e of
                Some code \<Rightarrow> r_FailOutbox repo (om_ID message) (cf_ID config) code s
              | None \<Rightarrow>
                  if om_Attempts message \<ge> cf_MaxAttempts config
                  then r_FailOutbox repo (om_ID message) (cf_ID config)
                         (workerErrorCode (om_Topic message) False) s
                  else r_RetryOutbox repo now (om_ID message) (cf_ID config)
                         (retryDelay (om_Attempts message))
                         (workerErrorCode (om_Topic message) True) s))"

definition RunOnce :: "crypto \<Rightarrow> 's Worker \<Rightarrow> clock \<Rightarrow> 's \<Rightarrow> 's \<times> bool \<times> goerr option" where
  "RunOnce C w ck s =
     (case r_ClaimOutbox (wk_repo w) (ck_claim ck) (cf_ID (wk_config w)) (cf_Lease (wk_config w))
             outbox_topics s of
        (s1, Inl e) \<Rightarrow> (s1, False, Some e)
      | (s1, Inr (message, ok)) \<Rightarrow>
          if \<not> ok then (s1, False, None)
          else
            (case withHeartbeat w message (ck_before ck)
                    (\<lambda>ctx. process C w ctx (ck_work ck) message) (ck_after ck) s1 of
               (s2, processErr) \<Rightarrow>
                 (case RunOnce_settle w (ck_settle ck) message processErr s2 of
                    (s3, Inl e) \<Rightarrow> (s3, True, Some e)
                  | (s3, Inr _) \<Rightarrow> (s3, True, None))))"

text \<open>
  \<^verbatim>\<open>Run\<close> iterates until an iteration fails or its context ends while it waits for work.  The
  list gives for each iteration its clock and whether the context has ended by the time it
  would wait; the result is \<^verbatim>\<open>None\<close> while the loop still runs at the end of the list.
\<close>

fun Worker_Run :: "crypto \<Rightarrow> 's Worker \<Rightarrow> (clock \<times> bool) list \<Rightarrow> 's \<Rightarrow> 's \<times> goerr option" where
  "Worker_Run C w [] s = (s, None)"
| "Worker_Run C w ((ck, ended) # rounds) s =
     (case RunOnce C w ck s of
        (s', processed, Some e) \<Rightarrow> (s', Some e)
      | (s', processed, None) \<Rightarrow>
          if processed then Worker_Run C w rounds s'
          else if ended then (s', Some ctx_canceled) else Worker_Run C w rounds s')"

subsection \<open>The repository merchant is a verification target\<close>

lemma memory_port_worker [simp]:
  "r_ApplyReferenceMerchantEffect (memory_port C it) = ApplyReferenceMerchantEffect"
  "r_RecordVerification (memory_port C it) = RecordVerification"
  "r_HeartbeatOutbox (memory_port C it) = HeartbeatOutbox"
  "r_CompleteOutbox (memory_port C it) = CompleteOutbox"
  "r_RetryOutbox (memory_port C it) = RetryOutbox"
  "r_FailOutbox (memory_port C it) = FailOutbox"
  "r_ClaimOutbox (memory_port C it) now owner lease topics r =
     ClaimOutbox (it_outbox it (mr_outbox r)) now owner lease topics r"
  "r_Run (memory_port C it) i r = (r, Run_get i r)"
  "r_ProcessStripeWebhook (memory_port C it) now e r =
     ProcessStripeWebhook C (it_runs it (mr_runs r)) now e r"
  by (simp_all add: memory_port_def reads_def)

abbreviation memory_merchant :: "crypto \<Rightarrow> iteration \<Rightarrow> Signer \<Rightarrow> MemoryRepository \<Rightarrow> Delivery \<Rightarrow>
    MemoryRepository \<times> (goerr + Receipt)" where
  "memory_merchant C it sg \<equiv> RepositoryMerchant_Deliver C (memory_port C it) sg"

interpretation repository_merchant: relay_target
    "memory_merchant C it sg" "\<lambda>r. dom (mr_merchantEffects r)" "\<lambda>r accepted. if accepted then 1 else 0"
    "\<lambda>r. True" C sg
  for C it sg
  by unfold_locales
    (auto simp: RepositoryMerchant_Deliver_def genuine_def ApplyReferenceMerchantEffect_def
      split: option.splits)

text \<open>
  The merchant changes nothing but the recorded effects, and a delivery that has been made
  changes nothing when it is made again.
\<close>

definition absorbed :: "crypto \<Rightarrow> Signer \<Rightarrow> MemoryRepository \<Rightarrow> Delivery \<Rightarrow> bool" where
  "absorbed C sg r d \<longleftrightarrow>
     (genuine C sg d \<longrightarrow> (\<exists>q. mr_merchantEffects r (dl_EffectID d) = Some q \<and> dl_Sequence d \<le> q))"

text \<open>What a delivery does to the repository.\<close>

lemma memory_merchant_deliver:
  "memory_merchant C it sg r d =
     (if genuine C sg d
      then (case ApplyReferenceMerchantEffect (dl_EffectID d) (dl_Sequence d) r of
              (r', Inl e) \<Rightarrow> (r', Inl e)
            | (r', Inr duplicate) \<Rightarrow> (r', Inr \<lparr>rc_Accepted = True, rc_Duplicate = duplicate,
                rc_SignatureValid = True, rc_BusinessEffects = 1\<rparr>))
      else (r, Inr \<lparr>rc_Accepted = False, rc_Duplicate = False, rc_SignatureValid = False,
                    rc_BusinessEffects = 0\<rparr>))"
  by (simp add: RepositoryMerchant_Deliver_def genuine_def)

lemma apply_effect:
  "ApplyReferenceMerchantEffect e n r =
     (r\<lparr>mr_merchantEffects := (mr_merchantEffects r)
        (e := Some (case mr_merchantEffects r e of None \<Rightarrow> n | Some q \<Rightarrow> max n q))\<rparr>,
      Inr (mr_merchantEffects r e \<noteq> None))"
  by (auto simp: ApplyReferenceMerchantEffect_def fun_upd_idem split: option.splits)

lemma memory_merchant_state:
  "fst (memory_merchant C it sg r d) =
     (if genuine C sg d
      then r\<lparr>mr_merchantEffects := (mr_merchantEffects r)
        (dl_EffectID d := Some (case mr_merchantEffects r (dl_EffectID d) of None \<Rightarrow> dl_Sequence d
                                | Some q \<Rightarrow> max (dl_Sequence d) q))\<rparr>
      else r)"
  by (simp add: memory_merchant_deliver apply_effect)

lemma memory_merchant_frame:
  "\<exists>m. fst (memory_merchant C it sg r d) = r\<lparr>mr_merchantEffects := m\<rparr>"
  by (rule exI [of _ "mr_merchantEffects (fst (memory_merchant C it sg r d))"])
    (simp add: memory_merchant_state)

lemma absorbed_idle: "absorbed C sg r d \<Longrightarrow> fst (memory_merchant C it sg r d) = r"
  by (auto simp: absorbed_def memory_merchant_state max_def fun_upd_idem)

lemma absorbed_deliver: "absorbed C sg (fst (memory_merchant C it sg r d)) d"
  by (simp add: absorbed_def memory_merchant_state split: option.splits)

lemma absorbed_keep: "absorbed C sg r d \<Longrightarrow> absorbed C sg (fst (memory_merchant C it sg r d')) d"
  by (cases "dl_EffectID d' = dl_EffectID d") (auto simp: absorbed_def memory_merchant_state)

lemma memory_merchant_total: "\<exists>rc. memory_merchant C it sg r d = (fst (memory_merchant C it sg r d), Inr rc)"
  by (simp add: memory_merchant_deliver apply_effect)

lemma execute_loop_step:
  assumes "deliver s d = (s', Inr rc)"
  shows "\<exists>x. execute_loop deliver (\<lambda>_. None) i (d # ds) s r = execute_loop deliver (\<lambda>_. None) (Suc i) ds s' x"
  unfolding execute_loop.simps assms option.case prod.case sum.case Let_def by (rule exI) (rule refl)

lemma memory_loop_Cons:
  "\<exists>x. execute_loop (memory_merchant C it sg) (\<lambda>_. None) i (d # ds) r res =
     execute_loop (memory_merchant C it sg) (\<lambda>_. None) (Suc i) ds (fst (memory_merchant C it sg r d)) x"
  using memory_merchant_total [of C it sg r d] execute_loop_step by metis

lemma memory_loop_absorbs:
  "d \<in> set ds \<or> absorbed C sg r d \<Longrightarrow>
     absorbed C sg (fst (execute_loop (memory_merchant C it sg) (\<lambda>_. None) i ds r res)) d"
proof (induction ds arbitrary: i r res)
  case Nil
  then show ?case by simp
next
  case (Cons d' ds)
  obtain x where x: "execute_loop (memory_merchant C it sg) (\<lambda>_. None) i (d' # ds) r res =
     execute_loop (memory_merchant C it sg) (\<lambda>_. None) (Suc i) ds (fst (memory_merchant C it sg r d')) x"
    using memory_loop_Cons by blast
  have "d \<in> set ds \<or> absorbed C sg (fst (memory_merchant C it sg r d')) d"
    using Cons.prems absorbed_deliver absorbed_keep by auto
  from Cons.IH [OF this] show ?case unfolding x .
qed

lemma memory_loop_idle:
  "(\<And>d. d \<in> set ds \<Longrightarrow> absorbed C sg r d) \<Longrightarrow>
     fst (execute_loop (memory_merchant C it sg) (\<lambda>_. None) i ds r res) = r"
proof (induction ds arbitrary: i res)
  case Nil
  then show ?case by simp
next
  case (Cons d ds)
  obtain x where "execute_loop (memory_merchant C it sg) (\<lambda>_. None) i (d # ds) r res =
     execute_loop (memory_merchant C it sg) (\<lambda>_. None) (Suc i) ds (fst (memory_merchant C it sg r d)) x"
    using memory_loop_Cons by blast
  then show ?case
    using Cons absorbed_idle by simp
qed

text \<open>What holds of the target's state whatever it is sent holds after the relay.\<close>

lemma execute_loop_invariant:
  assumes "\<And>s d. P s \<Longrightarrow> P (fst (deliver s d))" and "P s"
  shows "P (fst (execute_loop deliver ctx i ds s r))"
  using assms(2)
proof (induction ds arbitrary: i s r)
  case Nil
  then show ?case by simp
next
  case (Cons d ds)
  have "P (fst (deliver s d))" by (rule assms(1)) (rule Cons.prems)
  then show ?case
    using Cons by (auto simp: Let_def split: option.splits prod.splits sum.splits)
qed

lemma Execute_invariant:
  assumes "\<And>s d. P s \<Longrightarrow> P (fst (deliver s d))" and "P s"
  shows "P (fst (Execute C sg deliver ctx d fault s))"
  unfolding Execute_def Let_def
  by (auto intro!: execute_loop_invariant [of P] assms simp del: execute_loop.simps)

lemma memory_Execute_frame:
  "\<exists>m. fst (Execute C sg (memory_merchant C' it sg') ctx d fault r) = r\<lparr>mr_merchantEffects := m\<rparr>"
proof (rule Execute_invariant [where P = "\<lambda>s. \<exists>m. s = r\<lparr>mr_merchantEffects := m\<rparr>"])
  fix s d
  assume "\<exists>m. s = r\<lparr>mr_merchantEffects := m\<rparr>"
  then obtain m where "s = r\<lparr>mr_merchantEffects := m\<rparr>" by blast
  with memory_merchant_frame [of C' it sg' s d]
  show "\<exists>m. fst (memory_merchant C' it sg' s d) = r\<lparr>mr_merchantEffects := m\<rparr>" by auto
next
  have "r = r\<lparr>mr_merchantEffects := mr_merchantEffects r\<rparr>" by simp
  then show "\<exists>m. r = r\<lparr>mr_merchantEffects := m\<rparr>" by blast
qed

end
