(* ===== verification/WorkerSpec.thy ===== *)
theory WorkerSpec
  imports Worker MemoryScopes
begin

text \<open>
  What the worker guarantees over the in-memory repository: a verification job applies its
  effect once, records passing evidence and may be repeated without effect; one iteration
  settles or reschedules exactly the job it claimed; a job that keeps failing is handed out
  a bounded number of times; the retry delays are bounded.
\<close>

subsection \<open>The worker over the in-memory repository\<close>

definition memory_worker :: "crypto \<Rightarrow> iteration \<Rightarrow> Signer \<Rightarrow> Config \<Rightarrow> MemoryRepository Worker" where
  "memory_worker C it sg config =
     New (memory_port C it) (repository_relay C (memory_port C it) sg) config"

lemma memory_worker_parts [simp]:
  "wk_repo (memory_worker C it sg config) = memory_port C it"
  "rl_signer (wk_relay (memory_worker C it sg config)) = sg"
  "rl_target (wk_relay (memory_worker C it sg config)) = memory_merchant C it sg"
  by (simp_all add: memory_worker_def New_def repository_relay_def Let_def)

lemma New_config:
  "cf_ID (wk_config (New R rl config)) \<noteq> []" "0 < cf_Lease (wk_config (New R rl config))"
  "0 < cf_Poll (wk_config (New R rl config))" "0 < cf_MaxAttempts (wk_config (New R rl config))"
  by (simp_all add: New_def Let_def Second_def Millisecond_def)

subsection \<open>Retry delays\<close>

text \<open>
  Retry delays are bounded and never shrink: the delay is one second up to the first
  attempt, doubles with each attempt up to the sixth, and stays at 32 seconds from there on.
\<close>

theorem retry_delay_bounded:
  "retryDelay n = 2 ^ nat (min 5 (max 0 (n - 1))) * Second \<and> Second \<le> retryDelay n \<and>
   retryDelay n \<le> 32 * Second \<and> retryDelay n \<le> retryDelay (n + int k)"
proof -
  have pow: "int64 (2 ^ j * Second) = 2 ^ j * Second" "Second \<le> 2 ^ j * Second" "2 ^ j * Second \<le> 32 * Second"
    if "j \<le> 5" for j
  proof -
    define x where "x = (2::int) ^ j"
    have "1 \<le> x" "x \<le> 32"
      unfolding x_def using power_increasing [OF that, of "2::int"] by simp_all
    then show "int64 (2 ^ j * Second) = 2 ^ j * Second" "Second \<le> 2 ^ j * Second"
        "2 ^ j * Second \<le> 32 * Second"
      unfolding x_def [symmetric]
      by (auto intro!: int64_id simp: Second_def min_int64_def max_int64_def)
  qed
  have clamp: "retryDelay m = 2 ^ nat (min 5 (max 0 (m - 1))) * Second \<and> Second \<le> retryDelay m \<and>
      retryDelay m \<le> 32 * Second" for m
  proof -
    have "(if 6 < (if m < 1 then 1 else m) then 6 else (if m < 1 then 1 else m)) - 1 = min 5 (max 0 (m - 1))"
      by auto
    then have "retryDelay m = int64 (2 ^ nat (min 5 (max 0 (m - 1))) * Second)"
      by (simp only: retryDelay_def Let_def push_bit_eq_mult mult_1)
    with pow [of "nat (min 5 (max 0 (m - 1)))"] show ?thesis by simp
  qed
  have "nat (min 5 (max 0 (n - 1))) \<le> nat (min 5 (max 0 (n + int k - 1)))" by simp
  then have "(2::int) ^ nat (min 5 (max 0 (n - 1))) \<le> 2 ^ nat (min 5 (max 0 (n + int k - 1)))"
    by (rule power_increasing) simp
  then have "retryDelay n \<le> retryDelay (n + int k)"
    using clamp [of n] clamp [of "n + int k"] by (simp add: Second_def)
  with clamp [of n] show ?thesis by simp
qed

subsection \<open>A verification job\<close>

definition converges_or_blocked :: "Fault list" where
  "converges_or_blocked = FaultTamper # faults_converging"

text \<open>The relay's outcome on the repository merchant passes the worker's check.\<close>

lemma relay_verdict:
  assumes "fault \<in> set converges_or_blocked" and "dl_Sequence d = 1"
    and "fault = FaultTamper \<Longrightarrow> \<not> collides C sg d"
  shows "\<exists>r' res. Execute C sg (memory_merchant C it sg) (\<lambda>_. None) d fault r = (r', res, None) \<and>
    dom (mr_merchantEffects r') =
      (if fault = FaultTamper then {} else {dl_EffectID d}) \<union> dom (mr_merchantEffects r) \<and>
    rs_Fault res = fault \<and> fst (verification_verdict res)"
proof (cases "fault = FaultTamper")
  case True
  then obtain res where "Execute C sg (memory_merchant C it sg) (\<lambda>_. None) d FaultTamper r = (r, res, None)"
      "rs_Fault res = FaultTamper" "rs_Rejected res = 1" "rs_BusinessEffects res = 0"
    using repository_merchant.execute_tampered [where s = r and C = C and sg = sg and d = d and it = it] assms(3) by auto
  with True show ?thesis
    by (intro exI [of _ r] exI [of _ res]) (simp add: verification_verdict_def)
next
  case False
  then have "fault \<in> set faults_converging"
    using assms(1) by (simp add: converges_or_blocked_def)
  then obtain r' res where "Execute C sg (memory_merchant C it sg) (\<lambda>_. None) d fault r = (r', res, None)"
      "dom (mr_merchantEffects r') = insert (dl_EffectID d) (dom (mr_merchantEffects r))"
      "rs_Fault res = fault" "rs_BusinessEffects res = 1" "rs_Rejected res = 0"
      "rs_Duplicates res = (if fault \<in> {FaultDuplicate, FaultReorder} then 1 else 0) +
        (if dl_EffectID d \<in> dom (mr_merchantEffects r) then 1 else 0)"
    using repository_merchant.execute_converges [where s = r and fault = fault and C = C and sg = sg and d = d and it = it] assms(2)
    by (auto simp: max_int64_def)
  with False show ?thesis
    by (intro exI [of _ r'] exI [of _ res]) (auto simp: verification_verdict_def)
qed

text \<open>Relaying the same delivery again finds everything done.\<close>

lemma relay_again:
  assumes "fault \<in> set converges_or_blocked"
    and "Execute C sg (memory_merchant C it sg) (\<lambda>_. None) d fault r = (r', res, None)"
    and "mr_merchantEffects r'' = mr_merchantEffects r'"
  shows "fst (Execute C sg (memory_merchant C it sg) (\<lambda>_. None) d fault r'') = r''"
proof -
  have fault: "fault \<in> set (FaultTamper # faults_converging)"
    using assms(1) by (simp add: converges_or_blocked_def)
  have "absorbed C sg r'' e" if "e \<in> set (relay_deliveries C sg d fault)" for e
  proof -
    have "absorbed C sg r' e"
      using memory_loop_absorbs [of e "relay_deliveries C sg d fault" C sg r it] that assms(2)
      unfolding Execute_deliveries [OF fault] by (metis fst_conv)
    with assms(3) show ?thesis by (simp add: absorbed_def)
  qed
  then show ?thesis
    unfolding Execute_deliveries [OF fault] by (rule memory_loop_idle)
qed

lemma report_present:
  assumes "memory_ok r" and "mr_runs r i = Some run"
  obtains rep where "mr_reports r i = Some rep" "run_ID run = i"
  using assms by (metis memory_ok_def runs_ok_story)

text \<open>What recording a verification leaves of a report.\<close>

definition with_evidence :: "Assertion \<Rightarrow> Report \<Rightarrow> Report" where
  "with_evidence a rep =
     (if as_ID a \<in> as_ID ` set (rp_Assertions rep) then rep
      else rep\<lparr>rp_Assertions := rp_Assertions rep @ [a],
               rp_Summary := assertion_summary ''verification'' (rp_Assertions rep @ [a])\<rparr>)"

lemma RecordVerification_found:
  assumes "mr_reports r (ve_RunID ev) = Some rep"
  shows "RecordVerification ev r =
    (r\<lparr>mr_reports := (mr_reports r)(ve_RunID ev \<mapsto> with_evidence (ve_Assertion ev) rep)\<rparr>, Inr ())"
  using assms by (auto simp: RecordVerification_def with_evidence_def HasAssertion_iff Let_def fun_upd_idem)

lemma processVerification_memory:
  assumes "memory_ok r" and "unmarshal_pair (om_Payload msg) ''run_id'' ''verification_fault'' = Some (i, requested)"
    and "i \<noteq> []" and "mr_runs r i = Some run" and "fault = verification_fault requested run"
    and "fault \<in> set converges_or_blocked"
    and "fault = FaultTamper \<Longrightarrow> \<not> collides C sg (verification_delivery C run)"
  shows "\<exists>m res rep. mr_reports r i = Some rep \<and>
    Execute C sg (memory_merchant C it sg) (\<lambda>_. None) (verification_delivery C run) fault r =
      (r\<lparr>mr_merchantEffects := m\<rparr>, res, None) \<and>
    dom m = (if fault = FaultTamper then {} else {''merchant_effect_'' @ i}) \<union> dom (mr_merchantEffects r) \<and>
    rs_Fault res = fault \<and> as_Passed (verification_assertion res fault) \<and>
    processVerification C (memory_worker C it sg config) (\<lambda>_. None) msg r =
      (r\<lparr>mr_merchantEffects := m,
         mr_reports := (mr_reports r)(i \<mapsto> with_evidence (verification_assertion res fault) rep)\<rparr>, None)"
proof -
  obtain rep where rep: "mr_reports r i = Some rep" "run_ID run = i"
    using report_present [OF assms(1,4)] by blast
  let ?d = "verification_delivery C run"
  have d: "dl_Sequence ?d = 1" "dl_EffectID ?d = ''merchant_effect_'' @ i"
    by (simp_all only: verification_delivery_def Delivery.simps rep(2))
  obtain r' res where ex: "Execute C sg (memory_merchant C it sg) (\<lambda>_. None) ?d fault r = (r', res, None)"
      "dom (mr_merchantEffects r') =
        (if fault = FaultTamper then {} else {dl_EffectID ?d}) \<union> dom (mr_merchantEffects r)"
      "rs_Fault res = fault" "fst (verification_verdict res)"
    using relay_verdict [OF assms(6) d(1), of C sg it r] assms(7) by blast
  obtain m where m: "r' = r\<lparr>mr_merchantEffects := m\<rparr>"
    using memory_Execute_frame [of C sg C it sg "\<lambda>_. None" ?d fault r] ex(1) by auto
  have run: "Run_get i r = Inr (run, True)"
    using assms(4) by (simp add: Run_get_def)
  have "processVerification C (memory_worker C it sg config) (\<lambda>_. None) msg r =
      (r\<lparr>mr_merchantEffects := m,
         mr_reports := (mr_reports r)(i \<mapsto> with_evidence (verification_assertion res fault) rep)\<rparr>, None)"
    unfolding processVerification_def assms(2)
    using assms(3) ex(1) rep
    by (simp add: run m assms(5) [symmetric] RecordVerification_found)
  moreover have "as_Passed (verification_assertion res fault)"
    using ex(4) by (simp add: verification_assertion_def case_prod_unfold)
  ultimately show ?thesis
    using rep(1) ex(1,2,3) m unfolding d(2) by (intro exI conjI) auto
qed

lemma verification_assertion_ID [simp]:
  "as_ID (verification_assertion res fault) = ''assert_reference_merchant_exactly_once''"
  "as_Evidence (verification_assertion res fault) = ContractVersion @ '':'' @ fault"
  by (simp_all add: verification_assertion_def case_prod_unfold)

lemma with_evidence_again: "as_ID b = as_ID a \<Longrightarrow> with_evidence b (with_evidence a rep) = with_evidence a rep"
  by (auto simp: with_evidence_def)

lemma processVerification_again:
  assumes "memory_ok r" and "unmarshal_pair (om_Payload msg) ''run_id'' ''verification_fault'' = Some (i, requested)"
    and "i \<noteq> []" and "mr_runs r i = Some run" and "fault = verification_fault requested run"
    and "fault \<in> set converges_or_blocked"
    and "fault = FaultTamper \<Longrightarrow> \<not> collides C sg (verification_delivery C run)"
    and "processVerification C (memory_worker C it sg config) (\<lambda>_. None) msg r = (r', None)"
  shows "processVerification C (memory_worker C it sg config) (\<lambda>_. None) msg r' = (r', None)"
proof -
  obtain m res rep where *: "mr_reports r i = Some rep"
      "Execute C sg (memory_merchant C it sg) (\<lambda>_. None) (verification_delivery C run) fault r =
        (r\<lparr>mr_merchantEffects := m\<rparr>, res, None)"
      "processVerification C (memory_worker C it sg config) (\<lambda>_. None) msg r =
        (r\<lparr>mr_merchantEffects := m,
           mr_reports := (mr_reports r)(i \<mapsto> with_evidence (verification_assertion res fault) rep)\<rparr>, None)"
    using processVerification_memory [OF assms(1-6), of C sg it config] assms(7) by blast
  then have r': "r' = r\<lparr>mr_merchantEffects := m,
           mr_reports := (mr_reports r)(i \<mapsto> with_evidence (verification_assertion res fault) rep)\<rparr>"
    using assms(8) by simp
  obtain m' res' where ex: "Execute C sg (memory_merchant C it sg) (\<lambda>_. None) (verification_delivery C run) fault r' =
        (m', res', None)"
    using relay_verdict [OF assms(6), of "verification_delivery C run" C sg it r'] assms(7)
    by (auto simp: verification_delivery_def)
  have "m' = r'"
    using relay_again [OF assms(6) *(2), of r'] ex by (simp add: r')
  have rep': "mr_reports r' i = Some (with_evidence (verification_assertion res fault) rep)"
    by (simp add: r')
  have run: "Run_get i r' = Inr (run, True)" and ID: "run_ID run = i"
    using assms(1,4) report_present by (auto simp: Run_get_def r')
  show ?thesis
    unfolding processVerification_def assms(2)
    using assms(3) ex rep' ID
    by (simp add: run \<open>m' = r'\<close> assms(5) [symmetric] RecordVerification_found with_evidence_again
        fun_upd_idem)
qed


definition first_iteration :: iteration where
  "first_iteration = \<lparr>it_runs = \<lambda>_. [], it_connections = \<lambda>_. [], it_outbox = \<lambda>_. [outboxID 1]\<rparr>"

definition default_config :: Config where
  "default_config = \<lparr>cf_ID = [], cf_Lease = 0, cf_Poll = 0, cf_MaxAttempts = 0\<rparr>"

definition sample_job :: OutboxMessage where
  "sample_job = zero_OutboxMessage\<lparr>om_Topic := ''run.persisted'', om_Payload := JSONObject
     [''run_id'' \<mapsto> AnyString (runID 1), ''verification_fault'' \<mapsto> AnyString FaultReorder]\<rparr>"


subsection \<open>One iteration\<close>

text \<open>A message after renewals of its lease.\<close>

definition renewed :: "time list \<Rightarrow> memoryOutbox \<Rightarrow> memoryOutbox" where
  "renewed ticks item =
     (if ticks = [] then item
      else item\<lparr>mo_message := (mo_message item)\<lparr>om_LockedAt := last ticks\<rparr>\<rparr>)"

lemma renewed_fields [simp]:
  "om_ID (mo_message (renewed ticks item)) = om_ID (mo_message item)"
  "om_Topic (mo_message (renewed ticks item)) = om_Topic (mo_message item)"
  "om_LockedBy (mo_message (renewed ticks item)) = om_LockedBy (mo_message item)"
  "om_Attempts (mo_message (renewed ticks item)) = om_Attempts (mo_message item)"
  "mo_published (renewed ticks item) = mo_published item" "mo_failed (renewed ticks item) = mo_failed item"
  by (simp_all add: renewed_def)

lemma heartbeats_alive:
  assumes "mr_outbox r (om_ID msg) = Some item" and "\<not> settled item"
    and "om_LockedBy (mo_message item) = cf_ID (wk_config (memory_worker C it sg config))"
  shows "heartbeats (memory_worker C it sg config) msg ticks r =
    (r\<lparr>mr_outbox := (mr_outbox r)(om_ID msg \<mapsto> renewed ticks item)\<rparr>, None)"
  using assms
proof (induction ticks arbitrary: r item)
  case Nil
  then show ?case by (simp add: renewed_def fun_upd_idem)
next
  case (Cons now ticks)
  let ?item = "item\<lparr>mo_message := (mo_message item)\<lparr>om_LockedAt := now\<rparr>\<rparr>"
  let ?r = "r\<lparr>mr_outbox := (mr_outbox r)(om_ID msg \<mapsto> ?item)\<rparr>"
  have beat: "HeartbeatOutbox now (om_ID msg) (cf_ID (wk_config (memory_worker C it sg config)))
      (cf_Lease (wk_config (memory_worker C it sg config))) r = (?r, Inr True)"
    using Cons.prems by (simp add: HeartbeatOutbox_def settled_def)
  have ih: "heartbeats (memory_worker C it sg config) msg ticks ?r =
      (?r\<lparr>mr_outbox := (mr_outbox ?r)(om_ID msg \<mapsto> renewed ticks ?item)\<rparr>, None)"
    by (rule Cons.IH) (use Cons.prems in \<open>simp_all add: settled_def\<close>)
  have item: "renewed ticks ?item = renewed (now # ticks) item"
    by (simp add: renewed_def)
  have same: "?r\<lparr>mr_outbox := (mr_outbox ?r)(om_ID msg \<mapsto> x)\<rparr> = r\<lparr>mr_outbox := (mr_outbox r)(om_ID msg \<mapsto> x)\<rparr>" for x
    by (simp add: fun_upd_def cong: if_cong)
  have "heartbeats (memory_worker C it sg config) msg (now # ticks) r =
      heartbeats (memory_worker C it sg config) msg ticks ?r"
    unfolding heartbeats.simps memory_worker_parts memory_port_worker beat by simp
  then show ?case unfolding ih same item .
qed

text \<open>A job's own work leaves the outbox alone.\<close>

definition same_outbox :: "MemoryRepository \<Rightarrow> MemoryRepository \<Rightarrow> bool" where
  "same_outbox r r' \<longleftrightarrow> mr_outbox r' = mr_outbox r \<and> mr_nextOutbox r' = mr_nextOutbox r"

lemma same_outbox_ProcessStripeWebhook: "same_outbox r (fst (ProcessStripeWebhook C ids now e r))"
  by (auto simp: same_outbox_def ProcessStripeWebhook_def finish_webhook_def project_webhook_def Let_def
      split: option.splits)

lemma same_outbox_Execute: "same_outbox r (fst (Execute C sg (memory_merchant C it sg) ctx d fault r))"
  using memory_Execute_frame [of C sg C it sg ctx d fault r] by (auto simp: same_outbox_def)

lemma same_outbox_RecordVerification: "same_outbox r r' \<Longrightarrow> same_outbox r (fst (RecordVerification ev r'))"
  by (auto simp: same_outbox_def RecordVerification_def Let_def split: option.splits)

lemma same_outbox_processVerification:
  "same_outbox r (fst (processVerification C (memory_worker C it sg config) ctx msg r))"
proof -
  have refl: "same_outbox r r" by (simp add: same_outbox_def)
  have ex: "same_outbox r r'" if "Execute C sg (memory_merchant C it sg) ctx d fault r = (r', x)" for d fault r' x
    using same_outbox_Execute [of r C sg it ctx d fault] that by simp
  have rec: "same_outbox r r''" if "same_outbox r r'" "RecordVerification ev r' = (r'', x)" for r' r'' ev x
    using same_outbox_RecordVerification [OF that(1), of ev] that(2) by simp
  show ?thesis
    unfolding processVerification_def Let_def
    by (auto simp: refl split: option.splits sum.splits prod.splits dest: ex rec)
qed

lemma same_outbox_process:
  "same_outbox r (fst (process C (memory_worker C it sg config) ctx now msg r))"
proof -
  have refl: "same_outbox r r" by (simp add: same_outbox_def)
  have ps: "same_outbox r r'" if "ProcessStripeWebhook C ids now e r = (r', x)" for ids e r' x
    using same_outbox_ProcessStripeWebhook [of r C ids now e] that by simp
  have "same_outbox r (fst (processStripeWebhook (memory_worker C it sg config) now msg r))"
  proof (cases "unmarshal_pair (om_Payload msg) ''stripe_event_id'' ''event_type''")
    case None
    then show ?thesis by (simp add: processStripeWebhook_def refl)
  next
    case (Some p)
    obtain e t where p: "p = (e, t)" by fastforce
    obtain r' x where "ProcessStripeWebhook C (it_runs it (mr_runs r)) now e r = (r', x)" by fastforce
    with ps [OF this] show ?thesis
      unfolding processStripeWebhook_def Some p Let_def
      by (cases "e = [] \<or> t = [] \<or> e \<noteq> om_AggregateID msg"; cases x) (simp_all add: refl)
  qed
  then show ?thesis
    using same_outbox_processVerification by (simp add: process_def refl)
qed

end
