(* ===== verification/WorkerLoop.thy ===== *)
theory WorkerLoop
  imports WorkerSpec
begin

text \<open>
  The worker's loop over the in-memory repository: what one iteration does to the job it
  claims, and how often a job can be handed out to a fleet of workers that interleave, lose
  their leases and crash.
\<close>

subsection \<open>One iteration settles or reschedules its job\<close>

text \<open>The stored message after its processing ended with an error or none.\<close>

definition after_processing :: "Config \<Rightarrow> time \<Rightarrow> goerr option \<Rightarrow> memoryOutbox \<Rightarrow> memoryOutbox" where
  "after_processing config now err item =
     (case err of
        None \<Rightarrow> item\<lparr>mo_published := True, mo_message := (mo_message item)\<lparr>om_LockedBy := []\<rparr>\<rparr>
      | Some e \<Rightarrow>
          if errors_As_permanent e \<noteq> None \<or> cf_MaxAttempts config \<le> om_Attempts (mo_message item)
          then item\<lparr>mo_failed := True, mo_message := (mo_message item)\<lparr>om_LockedBy := []\<rparr>\<rparr>
          else item\<lparr>mo_message := (mo_message item)\<lparr>om_LockedBy := [], om_LockedAt := zero_time\<rparr>,
                    mo_availableAt := now + retryDelay (om_Attempts (mo_message item))\<rparr>)"

lemma RunOnce_settle_memory:
  assumes "mr_outbox r (om_ID msg) = Some item" and "wk_repo w = memory_port C it"
    and "om_LockedBy (mo_message item) = cf_ID (wk_config w)"
    and "om_Attempts (mo_message item) = om_Attempts msg"
  shows "RunOnce_settle w now msg err r =
    (r\<lparr>mr_outbox := (mr_outbox r)(om_ID msg \<mapsto> after_processing (wk_config w) now err item)\<rparr>, Inr ())"
  using assms
  by (auto simp: RunOnce_settle_def after_processing_def Let_def CompleteOutbox_def FailOutbox_def
      RetryOutbox_def split: option.splits)

lemma RunOnce_settle_lost:
  assumes "wk_repo w = memory_port C it"
    and "\<And>item. mr_outbox r (om_ID msg) = Some item \<Longrightarrow> om_LockedBy (mo_message item) \<noteq> cf_ID (wk_config w)"
  shows "fst (RunOnce_settle w now msg err r) = r"
  using assms
  by (auto simp: RunOnce_settle_def Let_def CompleteOutbox_def FailOutbox_def RetryOutbox_def
      split: option.splits)

lemma withHeartbeat_memory:
  assumes "mr_outbox r (om_ID msg) = Some item" and "\<not> settled item"
    and "om_LockedBy (mo_message item) = cf_ID (wk_config (memory_worker C it sg config))"
    and "\<And>r'. same_outbox r' (fst (operation (\<lambda>_. None) r'))"
    and "operation (\<lambda>_. None) (r\<lparr>mr_outbox := (mr_outbox r)(om_ID msg \<mapsto> renewed before item)\<rparr>) = (r2, err)"
  shows "withHeartbeat (memory_worker C it sg config) msg before operation after r =
    (r2\<lparr>mr_outbox := (mr_outbox r)(om_ID msg \<mapsto> renewed after (renewed before item))\<rparr>, err)"
proof -
  let ?r1 = "r\<lparr>mr_outbox := (mr_outbox r)(om_ID msg \<mapsto> renewed before item)\<rparr>"
  have o2: "mr_outbox r2 = (mr_outbox r)(om_ID msg \<mapsto> renewed before item)"
    using assms(4) [of ?r1] assms(5) by (simp add: same_outbox_def)
  have before: "heartbeats (memory_worker C it sg config) msg before r = (?r1, None)"
    by (rule heartbeats_alive [OF assms(1-3)])
  have after: "heartbeats (memory_worker C it sg config) msg after r2 =
      (r2\<lparr>mr_outbox := (mr_outbox r2)(om_ID msg \<mapsto> renewed after (renewed before item))\<rparr>, None)"
    by (rule heartbeats_alive) (use assms(2,3) in \<open>simp_all add: o2 settled_def\<close>)
  have outbox: "(mr_outbox r2)(om_ID msg \<mapsto> x) = (mr_outbox r)(om_ID msg \<mapsto> x)" for x
    by (simp add: o2)
  show ?thesis
    unfolding withHeartbeat_def before prod.case option.case assms(5) after outbox ..
qed

lemma claimed_fields [simp]:
  "om_ID (mo_message (claimed now w item)) = om_ID (mo_message item)"
  "om_LockedBy (mo_message (claimed now w item)) = w"
  "om_Attempts (mo_message (claimed now w item)) = om_Attempts (mo_message item) + 1"
  "mo_published (claimed now w item) = mo_published item" "mo_failed (claimed now w item) = mo_failed item"
  by (simp_all add: claimed_def)

lemma outbox_again:
  "r\<lparr>mr_outbox := m, mr_outbox := (mr_outbox (r\<lparr>mr_outbox := m\<rparr>))(i \<mapsto> x)\<rparr> = r\<lparr>mr_outbox := m(i \<mapsto> x)\<rparr>"
  "mr_outbox (r\<lparr>mr_outbox := m\<rparr>) = m"
  by simp_all

text \<open>
  C21. One iteration handles exactly the first claimable job, or reports that there is none: the
  least claimable message is locked with its attempt counted, processed while its lease is
  renewed, and then published when the processing succeeded, failed for good when the error
  is permanent or the attempts are used up, and otherwise released for a retry after the
  delay of its attempt.  Every other message is untouched and the iteration returns no error.
\<close>

theorem run_once_settles:
  assumes "outbox_ok r" and "enumerates (it_outbox it (mr_outbox r)) (mr_outbox r)"
    and "w = memory_worker C it sg config" and "lease = cf_Lease (wk_config w)"
  shows "(if \<forall>i item. mr_outbox r i = Some item \<longrightarrow> \<not> claimable (ck_claim ck) lease outbox_topics item
     then RunOnce C w ck r = (r, False, None)
     else \<exists>i item r2 err. mr_outbox r i = Some item \<and> claimable (ck_claim ck) lease outbox_topics item \<and>
       (\<forall>j item'. j < i \<longrightarrow> mr_outbox r j = Some item' \<longrightarrow> \<not> claimable (ck_claim ck) lease outbox_topics item') \<and>
       process C w (\<lambda>_. None) (ck_work ck) (mo_message (claimed (ck_claim ck) (cf_ID (wk_config w)) item))
         (r\<lparr>mr_outbox := (mr_outbox r)(i \<mapsto>
            renewed (ck_before ck) (claimed (ck_claim ck) (cf_ID (wk_config w)) item))\<rparr>) = (r2, err) \<and>
       RunOnce C w ck r =
         (r2\<lparr>mr_outbox := (mr_outbox r)(i \<mapsto> after_processing (wk_config w) (ck_settle ck) err
            (renewed (ck_after ck) (renewed (ck_before ck)
              (claimed (ck_claim ck) (cf_ID (wk_config w)) item))))\<rparr>, True, None))"
proof -
  let ?now = "ck_claim ck" and ?id = "cf_ID (wk_config w)"
  have port: "wk_repo w = memory_port C it" by (simp add: assms(3))
  have claim: "r_ClaimOutbox (wk_repo w) ?now ?id lease outbox_topics r =
      ClaimOutbox (it_outbox it (mr_outbox r)) ?now ?id lease outbox_topics r" by (simp add: port)
  show ?thesis
  proof (cases rule: ClaimOutbox_cases [OF assms(2), where now = ?now and owner = ?id and lease = lease
        and topics = outbox_topics])
    case 1
    then show ?thesis
      unfolding RunOnce_def assms(4) [symmetric] claim by simp
  next
    case some: (2 i item)
    let ?item = "claimed ?now ?id item"
    let ?r1 = "r\<lparr>mr_outbox := (mr_outbox r)(i \<mapsto> ?item)\<rparr>"
    have ID: "om_ID (mo_message item) = i"
      using outbox_okD [OF assms(1) some(1)] by (simp add: item_ok_def)
    obtain r2 err where work: "process C w (\<lambda>_. None) (ck_work ck) (mo_message ?item)
        (r\<lparr>mr_outbox := (mr_outbox r)(i \<mapsto> renewed (ck_before ck) ?item)\<rparr>) = (r2, err)" by fastforce
    have IDc: "om_ID (mo_message ?item) = i" by (simp add: ID)
    have beat: "withHeartbeat w (mo_message ?item) (ck_before ck)
        (\<lambda>ctx. process C w ctx (ck_work ck) (mo_message ?item)) (ck_after ck) ?r1 =
      (r2\<lparr>mr_outbox := (mr_outbox r)(i \<mapsto> renewed (ck_after ck) (renewed (ck_before ck) ?item))\<rparr>, err)"
    proof -
      have "withHeartbeat w (mo_message ?item) (ck_before ck)
          (\<lambda>ctx. process C w ctx (ck_work ck) (mo_message ?item)) (ck_after ck) ?r1 =
        (r2\<lparr>mr_outbox := (mr_outbox ?r1)(om_ID (mo_message ?item) \<mapsto>
           renewed (ck_after ck) (renewed (ck_before ck) ?item))\<rparr>, err)"
        unfolding assms(3)
      proof (rule withHeartbeat_memory)
        show "mr_outbox (r\<lparr>mr_outbox := (mr_outbox r)(i \<mapsto> claimed ?now (cf_ID (wk_config (memory_worker C it sg config))) item)\<rparr>)
            (om_ID (mo_message (claimed ?now (cf_ID (wk_config (memory_worker C it sg config))) item))) =
          Some (claimed ?now (cf_ID (wk_config (memory_worker C it sg config))) item)"
          by (simp add: ID)
        show "\<not> settled (claimed ?now (cf_ID (wk_config (memory_worker C it sg config))) item)"
          using some(2) by (simp add: claimable_def settled_def)
      qed (use work in \<open>simp_all only: outbox_again(1) fun_upd_upd claimed_fields ID same_outbox_process assms(3)\<close>)
      then show ?thesis by (simp only: IDc fun_upd_upd outbox_again(2))
    qed
    let ?r3 = "r2\<lparr>mr_outbox := (mr_outbox r)(i \<mapsto> renewed (ck_after ck) (renewed (ck_before ck) ?item))\<rparr>"
    have "RunOnce_settle w (ck_settle ck) (mo_message ?item) err ?r3 =
        (?r3\<lparr>mr_outbox := (mr_outbox ?r3)(om_ID (mo_message ?item) \<mapsto> after_processing (wk_config w) (ck_settle ck) err
           (renewed (ck_after ck) (renewed (ck_before ck) ?item)))\<rparr>, Inr ())"
      by (rule RunOnce_settle_memory [OF _ port]) (simp_all add: ID)
    then have settle: "RunOnce_settle w (ck_settle ck) (mo_message ?item) err ?r3 =
        (r2\<lparr>mr_outbox := (mr_outbox r)(i \<mapsto> after_processing (wk_config w) (ck_settle ck) err
           (renewed (ck_after ck) (renewed (ck_before ck) ?item)))\<rparr>, Inr ())"
      by (simp only: IDc outbox_again(1) fun_upd_upd)
    have "RunOnce C w ck r = (r2\<lparr>mr_outbox := (mr_outbox r)(i \<mapsto> after_processing (wk_config w) (ck_settle ck) err
           (renewed (ck_after ck) (renewed (ck_before ck) ?item)))\<rparr>, True, None)"
      unfolding RunOnce_def assms(4) [symmetric] claim some(4) by (simp add: beat settle)
    moreover have "\<not> (\<forall>i item. mr_outbox r i = Some item \<longrightarrow> \<not> claimable ?now lease outbox_topics item)"
      using some(1,2) by blast
    ultimately show ?thesis
      using some(1-3) work by (simp only: if_False) blast
  qed
qed

theorem run_once_settles_witness:
  "\<exists>r'. RunOnce plain_crypto (memory_worker plain_crypto first_iteration sample_signer default_config)
     \<lparr>ck_claim = 5, ck_before = [6, 7], ck_work = 8, ck_after = [9], ck_settle = 10\<rparr> one_job = (r', True, None)"
proof -
  let ?w = "memory_worker plain_crypto first_iteration sample_signer default_config"
  have en: "enumerates (it_outbox first_iteration (mr_outbox one_job)) (mr_outbox one_job)"
    by (simp add: enumerates_def first_iteration_def one_job_outbox)
  have "\<not> (\<forall>i item. mr_outbox one_job i = Some item \<longrightarrow>
      \<not> claimable 5 (cf_Lease (wk_config ?w)) outbox_topics item)"
    by (auto simp: one_job_outbox claimable_def settled_def outbox_topics_def)
  then show ?thesis
    using run_once_settles [OF outbox_ok_one_job en refl refl, where C = plain_crypto
        and sg = sample_signer and config = default_config
        and ck = "\<lparr>ck_claim = 5, ck_before = [6, 7], ck_work = 8, ck_after = [9], ck_settle = 10\<rparr>"]
    by (auto split: if_splits)
qed

subsection \<open>A fleet of workers\<close>

text \<open>
  Any number of workers with different identifiers share the repository.  Between a worker's
  claim and its settlement the others may do anything: the jobs in progress are kept by
  worker.  A claim of a message that is still locked takes over an expired lease; the ghost
  counter \<^verbatim>\<open>fl_takeovers\<close> counts these per message.
\<close>

record fleet =
  fl_repo :: MemoryRepository
  fl_jobs :: "string \<rightharpoonup> OutboxMessage"
  fl_takeovers :: "string \<Rightarrow> int"

definition empty_fleet :: fleet where
  "empty_fleet = \<lparr>fl_repo = NewMemoryRepository, fl_jobs = Map.empty, fl_takeovers = \<lambda>_. 0\<rparr>"

definition locked_in :: "MemoryRepository \<Rightarrow> string \<Rightarrow> bool" where
  "locked_in r i \<longleftrightarrow> (case mr_outbox r i of None \<Rightarrow> False | Some item \<Rightarrow> om_LockedBy (mo_message item) \<noteq> [])"

inductive fleet_step :: "int \<Rightarrow> fleet \<Rightarrow> fleet \<Rightarrow> bool" for N where
  fleet_put: "fleet_step N f (f\<lparr>fl_repo := putOutboxLocked now t a p (fl_repo f)\<rparr>)"
| fleet_claim: "who \<noteq> [] \<Longrightarrow> fl_jobs f who = None \<Longrightarrow> enumerates ks (mr_outbox (fl_repo f)) \<Longrightarrow>
    ClaimOutbox ks now who lease topics (fl_repo f) = (r', Inr (msg, True)) \<Longrightarrow>
    fleet_step N f \<lparr>fl_repo = r', fl_jobs = (fl_jobs f)(who \<mapsto> msg),
      fl_takeovers = (fl_takeovers f)(om_ID msg := fl_takeovers f (om_ID msg) +
        (if locked_in (fl_repo f) (om_ID msg) then 1 else 0))\<rparr>"
| fleet_beat: "fl_jobs f who = Some msg \<Longrightarrow>
    fleet_step N f (f\<lparr>fl_repo := fst (HeartbeatOutbox now (om_ID msg) who lease (fl_repo f))\<rparr>)"
| fleet_work: "same_outbox (fl_repo f) r' \<Longrightarrow> fleet_step N f (f\<lparr>fl_repo := r'\<rparr>)"
| fleet_settle: "fl_jobs f (cf_ID (wk_config w)) = Some msg \<Longrightarrow> wk_repo w = memory_port C it \<Longrightarrow>
    cf_MaxAttempts (wk_config w) \<le> N \<Longrightarrow>
    fleet_step N f (f\<lparr>fl_repo := fst (RunOnce_settle w now msg err (fl_repo f)),
      fl_jobs := (fl_jobs f)(cf_ID (wk_config w) := None)\<rparr>)"
| fleet_crash: "fleet_step N f (f\<lparr>fl_jobs := (fl_jobs f)(who := None)\<rparr>)"

text \<open>
  The invariant.  A message is unlocked or its attempts are those of the claim its owner
  holds; a message free to be claimed without a takeover has attempts to spare.
\<close>

definition fleet_item_ok :: "int \<Rightarrow> fleet \<Rightarrow> string \<Rightarrow> memoryOutbox \<Rightarrow> bool" where
  "fleet_item_ok N f i item \<longleftrightarrow>
     om_ID (mo_message item) = i \<and> 0 \<le> om_Attempts (mo_message item) \<and> 0 \<le> fl_takeovers f i \<and>
     om_Attempts (mo_message item) \<le> N + fl_takeovers f i \<and>
     (\<not> settled item \<and> om_LockedBy (mo_message item) = [] \<longrightarrow>
        om_Attempts (mo_message item) < N + fl_takeovers f i) \<and>
     (\<forall>who msg. fl_jobs f who = Some msg \<and> om_ID msg = i \<and> om_LockedBy (mo_message item) = who \<longrightarrow>
        om_Attempts msg = om_Attempts (mo_message item))"

lemma fleet_itemD:
  assumes "fleet_item_ok N f i item"
  shows "om_ID (mo_message item) = i" "0 \<le> om_Attempts (mo_message item)" "0 \<le> fl_takeovers f i"
    "om_Attempts (mo_message item) \<le> N + fl_takeovers f i"
    "settled item \<or> om_LockedBy (mo_message item) \<noteq> [] \<or> om_Attempts (mo_message item) < N + fl_takeovers f i"
    "fl_jobs f who = Some msg \<Longrightarrow> om_ID msg = i \<Longrightarrow> om_LockedBy (mo_message item) = who \<Longrightarrow>
       om_Attempts msg = om_Attempts (mo_message item)"
  using assms unfolding fleet_item_ok_def by blast+

definition fleet_ok :: "int \<Rightarrow> fleet \<Rightarrow> bool" where
  "fleet_ok N f \<longleftrightarrow>
     (\<forall>i. 0 \<le> fl_takeovers f i) \<and> fl_jobs f [] = None \<and>
     (\<forall>i item. mr_outbox (fl_repo f) i = Some item \<longrightarrow> fleet_item_ok N f i item)"

lemma fleet_okD: "fleet_ok N f \<Longrightarrow> mr_outbox (fl_repo f) i = Some item \<Longrightarrow> fleet_item_ok N f i item"
  by (simp add: fleet_ok_def)

lemma fleet_ok_empty: "fleet_ok N empty_fleet"
  by (simp add: fleet_ok_def empty_fleet_def NewMemoryRepository_def)

text \<open>A step that keeps the takeovers, drops jobs at most and changes one message at most.\<close>

lemma fleet_ok_change:
  assumes "fleet_ok N f" and "fl_takeovers f' = fl_takeovers f"
    and "\<And>who. fl_jobs f' who = fl_jobs f who \<or> fl_jobs f' who = None"
    and "\<And>i item. mr_outbox (fl_repo f') i = Some item \<Longrightarrow>
      mr_outbox (fl_repo f) i = Some item \<or> fleet_item_ok N f i item"
  shows "fleet_ok N f'"
proof -
  have "fleet_item_ok N f' i item" if "mr_outbox (fl_repo f') i = Some item" for i item
  proof -
    have "fleet_item_ok N f i item"
      using assms(4) [OF that] fleet_okD [OF assms(1)] by blast
    moreover have "fl_jobs f' who = Some msg \<Longrightarrow> fl_jobs f who = Some msg" for who msg
      using assms(3) [of who] by auto
    ultimately show ?thesis
      unfolding fleet_item_ok_def assms(2) by blast
  qed
  moreover have "fl_jobs f' [] = None"
    using assms(1) assms(3) [of "[]"] by (auto simp: fleet_ok_def)
  ultimately show ?thesis
    using assms(1,2) by (simp add: fleet_ok_def)
qed

lemma fleet_ok_claim:
  assumes "fleet_ok N f" and "who \<noteq> []" and "fl_jobs f who = None"
    and "mr_outbox (fl_repo f) i = Some item" and "\<not> settled item"
  shows "fleet_ok N \<lparr>fl_repo = (fl_repo f)\<lparr>mr_outbox := (mr_outbox (fl_repo f))(i \<mapsto> claimed now who item)\<rparr>,
      fl_jobs = (fl_jobs f)(who \<mapsto> mo_message (claimed now who item)),
      fl_takeovers = (fl_takeovers f)(i := fl_takeovers f i + (if locked_in (fl_repo f) i then 1 else 0))\<rparr>"
    (is "fleet_ok N ?f'")
proof -
  have ok: "fleet_item_ok N f i item" by (rule fleet_okD [OF assms(1,4)])
  have locked: "locked_in (fl_repo f) i \<longleftrightarrow> om_LockedBy (mo_message item) \<noteq> []"
    using assms(4) by (simp add: locked_in_def)
  note bounds = fleet_itemD [OF ok]
  have "om_Attempts (mo_message item) < N + fl_takeovers f i \<or> om_LockedBy (mo_message item) \<noteq> []"
    using bounds(5) assms(5) by blast
  then have "fleet_item_ok N ?f' i (claimed now who item)"
    unfolding fleet_item_ok_def using bounds(1-4) assms(2) by (auto simp: locked)
  moreover have "fleet_item_ok N ?f' j item'" if "j \<noteq> i" "mr_outbox (fl_repo f) j = Some item'" for j item'
    unfolding fleet_item_ok_def
    using fleet_itemD [OF fleet_okD [OF assms(1) that(2)]] bounds(1) that(1)
    by (simp, blast)
  ultimately show ?thesis
    using assms(1,2) by (auto simp: fleet_ok_def)
qed

lemma after_processing_ok:
  assumes "fleet_item_ok N f i item" and "fl_jobs f [] = None" and "cf_MaxAttempts config \<le> N"
  shows "fleet_item_ok N f i (after_processing config now err item)"
  using assms by (cases err) (simp_all add: fleet_item_ok_def after_processing_def settled_def)

lemma fleet_step_ok: "fleet_step N f f' \<Longrightarrow> fleet_ok N f \<Longrightarrow> 1 \<le> N \<Longrightarrow> fleet_ok N f'"
proof (induction rule: fleet_step.induct)
  case (fleet_put f now t a p)
  let ?i = "outboxID (mr_nextOutbox (fl_repo f))"
  have t: "0 \<le> fl_takeovers f ?i" and none: "fl_jobs f [] = None"
    using fleet_put by (simp_all add: fleet_ok_def)
  have "fleet_item_ok N f ?i (new_outbox_item now ?i t a p)"
    using t none fleet_put(2) by (simp add: fleet_item_ok_def)
  then show ?case
    by (intro fleet_ok_change [OF fleet_put(1)])
      (auto simp: putOutboxLocked_def Let_def split: if_splits)
next
  case (fleet_claim who f ks now lease topics r' msg)
  show ?case
  proof (cases rule: ClaimOutbox_cases [OF fleet_claim(3), where now = now and owner = who and lease = lease
        and topics = topics])
    case 1
    with fleet_claim(4) show ?thesis by simp
  next
    case (2 i item)
    have "om_ID (mo_message item) = i"
      using fleet_okD [OF fleet_claim(5) 2(1)] by (simp add: fleet_item_ok_def)
    with 2 fleet_claim show ?thesis
      using fleet_ok_claim [OF fleet_claim(5,1,2) 2(1), of now] by (simp add: claimable_def)
  qed
next
  case (fleet_beat f who msg now lease)
  show ?case
    by (rule fleet_ok_change [OF fleet_beat(2)])
      (use fleet_beat(2) in \<open>auto simp: HeartbeatOutbox_def fleet_ok_def fleet_item_ok_def settled_def
        split: option.splits if_splits\<close>)
next
  case (fleet_work f r')
  then show ?case
    by (intro fleet_ok_change [OF fleet_work(2)]) (auto simp: same_outbox_def)
next
  case (fleet_settle f w msg C it now err)
  let ?i = "om_ID msg"
  show ?case
  proof (cases "\<exists>item. mr_outbox (fl_repo f) ?i = Some item \<and> om_LockedBy (mo_message item) = cf_ID (wk_config w)")
    case False
    then have "fst (RunOnce_settle w now msg err (fl_repo f)) = fl_repo f"
      using RunOnce_settle_lost [OF fleet_settle(2)] by blast
    then show ?thesis
      by (intro fleet_ok_change [OF fleet_settle(4)]) auto
  next
    case True
    then obtain item where item: "mr_outbox (fl_repo f) ?i = Some item"
        "om_LockedBy (mo_message item) = cf_ID (wk_config w)" by blast
    have ok: "fleet_item_ok N f ?i item" by (rule fleet_okD [OF fleet_settle(4) item(1)])
    have "om_Attempts (mo_message item) = om_Attempts msg"
      using ok fleet_settle(1) item(2) by (simp add: fleet_item_ok_def)
    note settle = RunOnce_settle_memory [OF item(1) fleet_settle(2) item(2) this, of now err]
    have "fleet_item_ok N f ?i (after_processing (wk_config w) now err item)"
      using after_processing_ok [OF ok _ fleet_settle(3)] fleet_settle(4) by (simp add: fleet_ok_def)
    then show ?thesis
      unfolding settle by (intro fleet_ok_change [OF fleet_settle(4)]) (auto split: if_splits)
  qed
next
  case (fleet_crash f who)
  then show ?case
    by (intro fleet_ok_change [OF fleet_crash(1)]) auto
qed

lemma fleet_reachable_ok: "(fleet_step N)\<^sup>*\<^sup>* empty_fleet f \<Longrightarrow> 1 \<le> N \<Longrightarrow> fleet_ok N f"
  by (induction rule: rtranclp_induct) (auto intro: fleet_ok_empty fleet_step_ok)

text \<open>
  C23. No job is retried for ever: whatever a fleet of workers configured with at most \<^verbatim>\<open>N\<close> attempts
  does, in any interleaving and with any processing results, lost leases and crashes, a message
  is handed out at most \<^verbatim>\<open>N\<close> times plus the times an expired lease on it was taken over, and
  one that is waiting to be claimed has been handed out fewer times than that, so after that
  many claims it is published or failed for good.
\<close>

theorem attempts_bounded:
  assumes "(fleet_step N)\<^sup>*\<^sup>* empty_fleet f" and "1 \<le> N" and "mr_outbox (fl_repo f) i = Some item"
  shows "om_Attempts (mo_message item) \<le> N + fl_takeovers f i \<and>
    (om_LockedBy (mo_message item) = [] \<and> N + fl_takeovers f i \<le> om_Attempts (mo_message item) \<longrightarrow>
       settled item)"
proof -
  note bounds = fleet_itemD [OF fleet_okD [OF fleet_reachable_ok [OF assms(1,2)] assms(3)]]
  show ?thesis using bounds(4,5) by linarith
qed

text \<open>
  A history with one attempt per worker: a worker claims the job and crashes, another takes the job over
  when its lease has expired, fails to process it and settles it.
\<close>

definition claimed_job :: "string \<Rightarrow> time \<Rightarrow> int \<Rightarrow> memoryOutbox" where
  "claimed_job who now n =
     (let item = new_outbox_item 0 (outboxID 1) ''run.persisted'' ''run_000004'' Malformed
      in item\<lparr>mo_message := (mo_message item)\<lparr>om_LockedBy := who, om_LockedAt := now, om_Attempts := n\<rparr>\<rparr>)"

lemma claimed_job_fields [simp]:
  "om_ID (mo_message (claimed_job who now n)) = outboxID 1"
  "om_LockedBy (mo_message (claimed_job who now n)) = who"
  "om_Attempts (mo_message (claimed_job who now n)) = n"
  by (simp_all add: claimed_job_def Let_def)

definition taken_over :: fleet where
  "taken_over = \<lparr>fl_repo = one_job\<lparr>mr_outbox := [outboxID 1 \<mapsto> claimed_job ''w2'' 20 2]\<rparr>,
     fl_jobs = [''w2'' \<mapsto> mo_message (claimed_job ''w2'' 20 2)], fl_takeovers = (\<lambda>_. 0)(outboxID 1 := 1)\<rparr>"

definition one_attempt :: "MemoryRepository Worker" where
  "one_attempt = memory_worker plain_crypto first_iteration sample_signer
     (default_config\<lparr>cf_ID := ''w2'', cf_MaxAttempts := 1\<rparr>)"

lemma one_attempt_config:
  "wk_repo one_attempt = memory_port plain_crypto first_iteration" "cf_ID (wk_config one_attempt) = ''w2''"
  "cf_MaxAttempts (wk_config one_attempt) = 1"
  by (simp_all add: one_attempt_def memory_worker_def New_def Let_def)

lemma taken_over_reached: "(fleet_step 1)\<^sup>*\<^sup>* empty_fleet taken_over"
proof -
  let ?f1 = "empty_fleet\<lparr>fl_repo := one_job\<rparr>"
  let ?r2 = "one_job\<lparr>mr_outbox := [outboxID 1 \<mapsto> claimed_job ''w1'' 5 1]\<rparr>"
  let ?f2 = "\<lparr>fl_repo = ?r2, fl_jobs = [''w1'' \<mapsto> mo_message (claimed_job ''w1'' 5 1)], fl_takeovers = \<lambda>_. 0\<rparr>"
  let ?f3 = "?f2\<lparr>fl_jobs := Map.empty\<rparr>"
  have "fleet_step 1 empty_fleet ?f1"
    using fleet_put [of 1 empty_fleet 0 "''run.persisted''" "''run_000004''" Malformed]
    by (simp add: one_job_def empty_fleet_def)
  moreover have "ClaimOutbox [outboxID 1] 5 ''w1'' 10 [''run.persisted''] one_job =
      (?r2, Inr (mo_message (claimed_job ''w1'' 5 1), True))"
    by (simp add: ClaimOutbox_def claimed_job_def one_job_outbox Let_def After_def)
  then have "fleet_step 1 ?f1 ?f2"
    using fleet_claim [of "''w1''" ?f1 "[outboxID 1]" 5 10 "[''run.persisted'']" ?r2]
    by (simp add: empty_fleet_def enumerates_def one_job_outbox locked_in_def fun_upd_idem)
  moreover have "fleet_step 1 ?f2 ?f3"
    using fleet_crash [of 1 ?f2 "''w1''"] by simp
  moreover have "ClaimOutbox [outboxID 1] 20 ''w2'' 10 [''run.persisted''] ?r2 =
      (fl_repo taken_over, Inr (mo_message (claimed_job ''w2'' 20 2), True))"
    by (simp add: ClaimOutbox_def claimed_job_def taken_over_def Let_def After_def Before_def)
  then have "fleet_step 1 ?f3 taken_over"
    using fleet_claim [where who = "''w2''" and f = ?f3 and ks = "[outboxID 1]" and now = 20 and lease = 10
        and topics = "[''run.persisted'']" and r' = "fl_repo taken_over"
        and msg = "mo_message (claimed_job ''w2'' 20 2)" and N = 1]
    by (simp add: enumerates_def locked_in_def taken_over_def)
  ultimately show ?thesis
    by (meson converse_rtranclp_into_rtranclp rtranclp.rtrancl_refl)
qed

theorem attempts_bounded_witness:
  "\<exists>f item. (fleet_step 1)\<^sup>*\<^sup>* taken_over f \<and> fl_takeovers f (outboxID 1) = 1 \<and> fl_jobs f ''w2'' = None \<and>
     mr_outbox (fl_repo f) (outboxID 1) = Some item \<and> om_Attempts (mo_message item) = 2 \<and>
     om_LockedBy (mo_message item) = [] \<and> settled item"
proof -
  let ?item = "claimed_job ''w2'' 20 2" and ?err = "Some (ErrNew ''merchant unavailable'')"
  let ?f = "taken_over\<lparr>fl_repo := fst (RunOnce_settle one_attempt 25 (mo_message ?item) ?err (fl_repo taken_over)),
      fl_jobs := (fl_jobs taken_over)(cf_ID (wk_config one_attempt) := None)\<rparr>"
  let ?done = "after_processing (wk_config one_attempt) 25 ?err ?item"
  have step: "fleet_step 1 taken_over ?f"
    by (rule fleet_settle [where C = plain_crypto and it = first_iteration])
      (simp_all add: taken_over_def one_attempt_config)
  have item: "mr_outbox (fl_repo ?f) (outboxID 1) = Some ?done"
    by (simp add: RunOnce_settle_memory [where item = ?item and C = plain_crypto and it = first_iteration]
        taken_over_def one_attempt_config)
  have "(fleet_step 1)\<^sup>*\<^sup>* empty_fleet ?f"
    using taken_over_reached step by (rule rtranclp.rtrancl_into_rtrancl)
  from attempts_bounded [OF this _ item]
  have "om_LockedBy (mo_message ?done) = [] \<Longrightarrow> om_Attempts (mo_message ?done) = 2 \<Longrightarrow> settled ?done"
    by (simp add: taken_over_def)
  moreover have "om_LockedBy (mo_message ?done) = []" "om_Attempts (mo_message ?done) = 2"
    by (auto simp: after_processing_def)
  ultimately show ?thesis
    using step item by (intro exI [of _ ?f] exI [of _ ?done]) (simp add: taken_over_def one_attempt_config)
qed

end
