(* ===== verification/EngineService.thy ===== *)
theory EngineService
  imports MemoryRepo
begin

text \<open>
  The engine's service (\<^verbatim>\<open>internal/engine/service.go\<close>), over any provider of the persistence
  port: creating a run in the public demo or in a project, the scoped reads, recording a
  webhook, the overview and the seeding of the demo runs.  A function that may panic returns
  \<^verbatim>\<open>None\<close> for the panic.  The scenarios are the seeded ones.
\<close>

subsection \<open>Creating runs\<close>

fun find_scenario :: "Scenario list \<Rightarrow> string \<Rightarrow> Scenario option" where
  "find_scenario [] i = None"
| "find_scenario (s # ss) i = (if scn_ID s = i then Some s else find_scenario ss i)"

definition Service_Scenario :: "string \<Rightarrow> Scenario option" where
  "Service_Scenario i = find_scenario seededScenarios i"

definition idempotency_conflict :: Error where
  "idempotency_conflict =
     Conflict ''idempotency_key_in_use''
       (Msg ''This idempotency key was already used with different request parameters.'')
       ''Idempotency-Key''"

text \<open>The start of the \<^verbatim>\<open>n\<close>-th run: \<^verbatim>\<open>demoEpoch.Add(time.Duration(n)*23*time.Minute)\<close>.\<close>

definition run_start :: "int \<Rightarrow> time" where
  "run_start number = demoEpoch + int64 (number * 23 * Minute)"

text \<open>From the replay to the stored run, with the operations of the chosen scope.\<close>

definition create_or_replay ::
  "(digest \<Rightarrow> digest \<Rightarrow> ('s, Run \<times> bool) op) \<Rightarrow>
   (digest \<Rightarrow> digest \<Rightarrow> RunBundle \<Rightarrow> ('s, Run \<times> bool) op) \<Rightarrow> ('s, string) op \<Rightarrow>
   Scenario \<Rightarrow> Fault \<Rightarrow> digest \<Rightarrow> digest \<Rightarrow> 's \<Rightarrow> ('s \<times> (Error + Run \<times> bool)) option" where
  "create_or_replay replayRun createRun nextID scenario fault keyHash requestHash s0 =
     (case replayRun keyHash requestHash s0 of
        (s1, Inl err) \<Rightarrow>
          if errors_Is err ErrIdempotencyConflict then Some (s1, Inl idempotency_conflict)
          else Some (s1, Inl (Internal ''persistence_failed'' (Msg ''The idempotency record could not be read.'')))
      | (s1, Inr (replay, True)) \<Rightarrow> Some (s1, Inr (replay, True))
      | (s1, Inr (_, False)) \<Rightarrow>
     (case nextID s1 of
        (s2, Inl err) \<Rightarrow>
          Some (s2, Inl (Internal ''persistence_unavailable'' (Msg ''The run could not be durably allocated.'')))
      | (s2, Inr i) \<Rightarrow>
          (let number = numberFromRunID i
           in case buildRunBundle i number scenario fault (run_start number) of
                None \<Rightarrow> None
              | Some bundle \<Rightarrow>
     (case createRun keyHash requestHash bundle s2 of
        (s3, Inl err) \<Rightarrow>
          if errors_Is err ErrIdempotencyConflict then Some (s3, Inl idempotency_conflict)
          else Some (s3, Inl (Internal ''persistence_failed'' (Msg ''The run could not be durably persisted.'')))
      | (s3, Inr (run, replayed)) \<Rightarrow> Some (s3, Inr (run, replayed))))))"

definition createRun ::
  "crypto \<Rightarrow> 's Repository \<Rightarrow> time \<Rightarrow> string \<Rightarrow> string \<Rightarrow> Fault \<Rightarrow> string \<Rightarrow> string \<Rightarrow> 's \<Rightarrow>
   ('s \<times> (Error + Run \<times> bool)) option" where
  "createRun C R now projectID scenarioID fault0 idempotencyKey requestBody s =
     (if idempotencyKey = []
      then Some (s, Inl (Invalid ''idempotency_key_missing''
        (Msg ''An Idempotency-Key header is required for this request.'') ''Idempotency-Key''))
      else case Service_Scenario scenarioID of
        None \<Rightarrow> Some (s, Inl (NotFound ''scenario'' scenarioID))
      | Some scenario \<Rightarrow>
          (let fault = (if fault0 = [] then FaultNone else fault0)
           in if \<not> supportsFault scenario fault
              then Some (s, Inl (Invalid ''fault_not_supported''
                (Sprintf ''Scenario %q does not support fault %q.'' [scenarioID, fault]) ''fault''))
              else
                (let keyHash = sha256 C idempotencyKey; requestHash = sha256 C requestBody
                 in if projectID \<noteq> []
                    then (case r_Tenant R of
                        None \<Rightarrow> Some (s, Inl (Internal ''tenant_storage_unavailable''
                          (Msg ''Project-scoped run storage is unavailable.'')))
                      | Some T \<Rightarrow>
                          create_or_replay (t_ReplayRunForProject T projectID)
                            (t_CreateRunForProject T now projectID) (r_NextRunID R)
                            scenario fault keyHash requestHash s)
                    else create_or_replay (r_ReplayRun R) (r_CreateRun R now) (r_NextRunID R)
                           scenario fault keyHash requestHash s)))"

definition Service_CreateRun ::
  "crypto \<Rightarrow> 's Repository \<Rightarrow> time \<Rightarrow> string \<Rightarrow> Fault \<Rightarrow> string \<Rightarrow> string \<Rightarrow> 's \<Rightarrow>
   ('s \<times> (Error + Run \<times> bool)) option" where
  "Service_CreateRun C R now scenarioID fault key body s =
     createRun C R now [] scenarioID fault key body s"

definition Service_CreateRunForProject ::
  "crypto \<Rightarrow> 's Repository \<Rightarrow> time \<Rightarrow> string \<Rightarrow> string \<Rightarrow> Fault \<Rightarrow> string \<Rightarrow> string \<Rightarrow> 's \<Rightarrow>
   ('s \<times> (Error + Run \<times> bool)) option" where
  "Service_CreateRunForProject C R now projectID scenarioID fault key body s =
     (if projectID = []
      then Some (s, Inl (Forbidden ''project_required'' (Msg ''A project session is required.'')))
      else createRun C R now projectID scenarioID fault key body s)"

subsection \<open>Reads\<close>

text \<open>A read through an optional interface: \<^verbatim>\<open>found && err == nil\<close>, and a fallback without it.\<close>

definition read_ok :: "'a \<Rightarrow> goerr + 'a \<times> bool \<Rightarrow> 'a \<times> bool" where
  "read_ok zero x = (case x of Inl _ \<Rightarrow> (zero, False) | Inr (v, found) \<Rightarrow> (v, found))"

definition Service_RunForProject :: "'s Repository \<Rightarrow> string \<Rightarrow> string \<Rightarrow> 's \<Rightarrow> 's \<times> (Run \<times> bool)" where
  "Service_RunForProject R projectID i s =
     (case r_Tenant R of None \<Rightarrow> (s, (zero_Run, False))
      | Some T \<Rightarrow> map_prod id (read_ok zero_Run) (t_RunForProject T projectID i s))"

definition Service_RunsForProject :: "'s Repository \<Rightarrow> string \<Rightarrow> 's \<Rightarrow> 's \<times> Run list" where
  "Service_RunsForProject R projectID s =
     (case r_Tenant R of None \<Rightarrow> (s, [])
      | Some T \<Rightarrow> map_prod id (case_sum (\<lambda>_. []) id) (t_ListRunsForProject T projectID s))"

definition Service_EventsForProject ::
  "'s Repository \<Rightarrow> string \<Rightarrow> string \<Rightarrow> 's \<Rightarrow> 's \<times> (Event list \<times> bool)" where
  "Service_EventsForProject R projectID i s =
     (case r_Tenant R of None \<Rightarrow> (s, ([], False))
      | Some T \<Rightarrow> map_prod id (read_ok []) (t_EventsForProject T projectID i s))"

definition Service_EventsAfterForProject ::
  "'s Repository \<Rightarrow> string \<Rightarrow> string \<Rightarrow> int \<Rightarrow> int \<Rightarrow> ('s, EventStreamBatch \<times> bool) op" where
  "Service_EventsAfterForProject R projectID i after limit s =
     (case r_Tenant R of None \<Rightarrow> (s, Inl (ErrNew ''tenant event storage unavailable''))
      | Some T \<Rightarrow> t_EventsAfterForProject T projectID i after limit s)"

definition Service_ReportForProject ::
  "'s Repository \<Rightarrow> string \<Rightarrow> string \<Rightarrow> 's \<Rightarrow> 's \<times> (Report \<times> bool)" where
  "Service_ReportForProject R projectID i s =
     (case r_Tenant R of None \<Rightarrow> (s, (zero_Report, False))
      | Some T \<Rightarrow> map_prod id (read_ok zero_Report) (t_ReportForProject T projectID i s))"

definition Service_PublicRun :: "'s Repository \<Rightarrow> string \<Rightarrow> 's \<Rightarrow> 's \<times> (Run \<times> bool)" where
  "Service_PublicRun R i s =
     (case r_Public R of None \<Rightarrow> (s, (zero_Run, False))
      | Some P \<Rightarrow> map_prod id (read_ok zero_Run) (p_PublicRun P i s))"

definition Service_PublicRuns :: "'s Repository \<Rightarrow> 's \<Rightarrow> 's \<times> Run list" where
  "Service_PublicRuns R s =
     (case r_Public R of None \<Rightarrow> (s, [])
      | Some P \<Rightarrow> map_prod id (case_sum (\<lambda>_. []) id) (p_ListPublicRuns P s))"

definition Service_PublicEvents :: "'s Repository \<Rightarrow> string \<Rightarrow> 's \<Rightarrow> 's \<times> (Event list \<times> bool)" where
  "Service_PublicEvents R i s =
     (case r_Public R of None \<Rightarrow> (s, ([], False))
      | Some P \<Rightarrow> map_prod id (read_ok []) (p_PublicEvents P i s))"

definition Service_PublicEventsAfter ::
  "'s Repository \<Rightarrow> string \<Rightarrow> int \<Rightarrow> int \<Rightarrow> ('s, EventStreamBatch \<times> bool) op" where
  "Service_PublicEventsAfter R i after limit s =
     (case r_Public R of None \<Rightarrow> (s, Inl (ErrNew ''public event storage unavailable''))
      | Some P \<Rightarrow> p_PublicEventsAfter P i after limit s)"

definition Service_PublicReport :: "'s Repository \<Rightarrow> string \<Rightarrow> 's \<Rightarrow> 's \<times> (Report \<times> bool)" where
  "Service_PublicReport R i s =
     (case r_Public R of None \<Rightarrow> (s, (zero_Report, False))
      | Some P \<Rightarrow> map_prod id (read_ok zero_Report) (p_PublicReport P i s))"

definition Service_Run :: "'s Repository \<Rightarrow> string \<Rightarrow> 's \<Rightarrow> 's \<times> (Run \<times> bool)" where
  "Service_Run R i s = map_prod id (read_ok zero_Run) (r_Run R i s)"

definition Service_EventsAfter ::
  "'s Repository \<Rightarrow> string \<Rightarrow> int \<Rightarrow> int \<Rightarrow> ('s, EventStreamBatch \<times> bool) op" where
  "Service_EventsAfter R i after limit = r_EventsAfter R i after limit"

definition Service_Runs :: "'s Repository \<Rightarrow> 's \<Rightarrow> 's \<times> Run list" where
  "Service_Runs R s = map_prod id (case_sum (\<lambda>_. []) id) (r_ListRuns R s)"

definition Service_Events :: "'s Repository \<Rightarrow> string \<Rightarrow> 's \<Rightarrow> 's \<times> (Event list \<times> bool)" where
  "Service_Events R i s = map_prod id (read_ok []) (r_Events R i s)"

definition Service_Report :: "'s Repository \<Rightarrow> string \<Rightarrow> 's \<Rightarrow> 's \<times> (Report \<times> bool)" where
  "Service_Report R i s = map_prod id (read_ok zero_Report) (r_Report R i s)"

subsection \<open>Recording webhooks\<close>

text \<open>
  The envelope \<^verbatim>\<open>json.Unmarshal\<close> fills from the body; what it makes of a body is a parameter,
  since a decoding error leaves the fields decoded so far.
\<close>

record webhook_envelope =
  env_Created :: int
  env_ObjectID :: string
  env_ObjectStatus :: string
  env_Metadata :: "string \<rightharpoonup> string"

definition identifier_char :: "char \<Rightarrow> bool" where
  "identifier_char c \<longleftrightarrow>
     \<not> ((c < CHR ''a'' \<or> CHR ''z'' < c) \<and> (c < CHR ''A'' \<or> CHR ''Z'' < c) \<and>
        (c < CHR ''0'' \<or> CHR ''9'' < c) \<and> c \<noteq> CHR ''_'' \<and> c \<noteq> CHR ''-'')"

definition safeWebhookIdentifier :: "string \<Rightarrow> string \<Rightarrow> nat \<Rightarrow> string" where
  "safeWebhookIdentifier v pre maxLength =
     (if length v = 0 \<or> maxLength < length v \<or> \<not> HasPrefix v pre then []
      else if list_all identifier_char v then v else [])"

definition safeWebhookStatus :: "string \<Rightarrow> string" where
  "safeWebhookStatus v =
     (if 64 < length v then []
      else if list_all (\<lambda>c. CHR ''a'' \<le> c \<and> c \<le> CHR ''z'' \<or> c = CHR ''_'') v then v else [])"

definition webhook_receipt ::
  "crypto \<Rightarrow> (string \<Rightarrow> webhook_envelope) \<Rightarrow> string \<Rightarrow> string \<Rightarrow> string \<Rightarrow> string \<Rightarrow> WebhookReceipt" where
  "webhook_receipt C unmarshal eventID eventType endpointToken body =
     (let envelope = unmarshal body in
      \<lparr>wr_EventID = eventID, wr_EventType = eventType,
       wr_EndpointTokenSHA = sha256 C endpointToken, wr_BodySHA = sha256 C body,
       wr_StripeCreatedAt = if env_Created envelope > 0 then Unix (env_Created envelope) else zero_time,
       wr_StripeObjectID = safeWebhookIdentifier (env_ObjectID envelope) ''pi_'' 255,
       wr_ObjectStatus = safeWebhookStatus (env_ObjectStatus envelope),
       wr_CorrelationID =
         safeWebhookIdentifier (get0 [] (env_Metadata envelope) ''paritylab_correlation_id'') ''plcorr_'' 128\<rparr>)"

definition Service_RecordWebhook ::
  "crypto \<Rightarrow> (string \<Rightarrow> webhook_envelope) \<Rightarrow> 's Repository \<Rightarrow> time \<Rightarrow>
   string \<Rightarrow> string \<Rightarrow> string \<Rightarrow> string \<Rightarrow> ('s, bool) op" where
  "Service_RecordWebhook C unmarshal R now eventID eventType endpointToken body s =
     r_MarkWebhookSeen R now (webhook_receipt C unmarshal eventID eventType endpointToken body) s"

definition Service_MarkWebhookSeen ::
  "crypto \<Rightarrow> (string \<Rightarrow> webhook_envelope) \<Rightarrow> 's Repository \<Rightarrow> time \<Rightarrow> string \<Rightarrow> 's \<Rightarrow> 's \<times> bool" where
  "Service_MarkWebhookSeen C unmarshal R now eventID s =
     (case Service_RecordWebhook C unmarshal R now eventID ''unknown'' [] [] s of
        (s', Inl err) \<Rightarrow> (s', True)
      | (s', Inr duplicate) \<Rightarrow> (s', duplicate))"

subsection \<open>The overview\<close>

fun overview_stats :: "'s Repository \<Rightarrow> Run list \<Rightarrow> OverviewStats \<Rightarrow> 's \<Rightarrow> 's \<times> OverviewStats" where
  "overview_stats R [] stats s = (s, stats)"
| "overview_stats R (run # runs) stats s =
     (let stats1 = stats\<lparr>os_TotalRuns := os_TotalRuns stats + 1,
                         os_EventsProcessed := os_EventsProcessed stats + run_EventCount run\<rparr>;
          stats2 = (if run_Status run = RunPassed
                    then stats1\<lparr>os_PassedRuns := os_PassedRuns stats1 + 1\<rparr> else stats1)
      in case r_Events R (run_ID run) s of
           (s', x) \<Rightarrow>
             (let events = (case x of Inl _ \<Rightarrow> [] | Inr (evs, _) \<Rightarrow> evs);
                  stats3 = stats2\<lparr>os_DuplicatesCaught := os_DuplicatesCaught stats2 +
                    int (length (filter ev_IsDuplicate events))\<rparr>
              in overview_stats R runs stats3 s'))"

definition zero_stats :: OverviewStats where
  "zero_stats = \<lparr>os_TotalRuns = 0, os_PassedRuns = 0, os_EventsProcessed = 0,
     os_DuplicatesCaught = 0, os_P95LatencyMS = 0\<rparr>"

definition Service_Overview :: "'s Repository \<Rightarrow> 's \<Rightarrow> 's \<times> Overview" where
  "Service_Overview R s0 =
     (case r_ListRuns R s0 of (s1, x) \<Rightarrow>
        (let runs0 = (case x of Inl _ \<Rightarrow> [] | Inr rs \<Rightarrow> rs) in
         case overview_stats R runs0 zero_stats s1 of (s2, stats) \<Rightarrow>
           (let runs = take 5 (by_start_desc runs0);
                lastVerified = (case runs of [] \<Rightarrow> demoEpoch | run # _ \<Rightarrow> run_CompletedAt run)
            in (s2, \<lparr>ov_ReadinessScore = 96, ov_Grade = ''production_ready'',
                  ov_Environment = ''sandbox'', ov_LastVerifiedAt = lastVerified,
                  ov_Stats = stats\<lparr>os_P95LatencyMS := 184\<rparr>,
                  ov_Categories =
                    [\<lparr>cr_ID = ''idempotency'', cr_Label = ''Idempotency'', cr_Score = 100\<rparr>,
                     \<lparr>cr_ID = ''webhooks'', cr_Label = ''Webhook resilience'', cr_Score = 98\<rparr>,
                     \<lparr>cr_ID = ''subscriptions'', cr_Label = ''Subscription lifecycle'', cr_Score = 94\<rparr>,
                     \<lparr>cr_ID = ''reconciliation'', cr_Label = ''State convergence'', cr_Score = 93\<rparr>],
                  ov_RecentRuns = runs, ov_Critical = None\<rparr>))))"

subsection \<open>Seeding\<close>

definition seed_table :: "(string \<times> Fault) list" where
  "seed_table = [(''checkout-duplicate'', FaultDuplicate), (''webhook-disorder'', FaultReorder),
     (''endpoint-recovery'', FaultTimeout)]"

definition zero_Scenario :: Scenario where
  "zero_Scenario = \<lparr>scn_ID = [], scn_Name = [], scn_Description = [], scn_Category = [],
     scn_DurationMS = 0, scn_SupportedFaults = [], scn_Assertions = [], scn_Difficulty = [],
     scn_Recommended = False, scn_EstimatedEventCount = 0\<rparr>"

text \<open>The loop, from the index of the next seed: the state and the error it ended with.\<close>

fun seed_loop ::
  "crypto \<Rightarrow> 's Repository \<Rightarrow> time \<Rightarrow> int \<Rightarrow> (string \<times> Fault) list \<Rightarrow> 's \<Rightarrow> ('s \<times> goerr option) option" where
  "seed_loop C R now index [] s = Some (s, None)"
| "seed_loop C R now index ((scenarioID, fault) # seeds) s =
     (let i = runID (index + 1) in
      case r_Run R i s of
        (s1, Inl err) \<Rightarrow> Some (s1, Some err)
      | (s1, Inr (_, True)) \<Rightarrow> seed_loop C R now (index + 1) seeds s1
      | (s1, Inr (_, False)) \<Rightarrow>
          (let scenario = (case Service_Scenario scenarioID of None \<Rightarrow> zero_Scenario | Some x \<Rightarrow> x)
           in case buildRunBundle i (numberFromRunID i) scenario fault
                     (demoEpoch + int64 (index * 17 * Minute)) of
                None \<Rightarrow> None
              | Some bundle \<Rightarrow>
                  (case r_CreateRun R now (sha256 C (''paritylab:seed:'' @ scenarioID))
                          (sha256 C (scenarioID @ '':'' @ fault)) bundle s1 of
                     (s2, Inl err) \<Rightarrow> Some (s2, Some err)
                   | (s2, Inr _) \<Rightarrow> seed_loop C R now (index + 1) seeds s2)))"

definition ensureSeedRuns ::
  "crypto \<Rightarrow> 's Repository \<Rightarrow> time \<Rightarrow> 's \<Rightarrow> ('s \<times> goerr option) option" where
  "ensureSeedRuns C R now s = seed_loop C R now 0 seed_table s"

definition NewServiceWithRepository ::
  "crypto \<Rightarrow> 's Repository \<Rightarrow> time \<Rightarrow> 's \<Rightarrow> ('s \<times> (goerr + unit)) option" where
  "NewServiceWithRepository C R now s =
     (case ensureSeedRuns C R now s of
        None \<Rightarrow> None
      | Some (s', Some err) \<Rightarrow> Some (s', Inl (ErrWrap ''seed deterministic runs: '' err))
      | Some (s', None) \<Rightarrow> Some (s', Inr ()))"

end
