(* ===== verification/Base64.thy ===== *)
theory Base64
  imports GoConv
begin

text \<open>
  The encodings of Go's \<^verbatim>\<open>encoding/base64\<close> that the program uses: the standard alphabet with
  and without padding (\<^verbatim>\<open>StdEncoding\<close>, \<^verbatim>\<open>RawStdEncoding\<close>) and the URL alphabet without
  padding (\<^verbatim>\<open>RawURLEncoding\<close>), with their round trips.  Decoding is Go's: carriage returns
  and line feeds are skipped, and the unused low bits of the last digit are not checked.
\<close>

subsection \<open>Digits\<close>

definition base64_std :: string where
  "base64_std = ''ABCDEFGHIJKLMNOPQRSTUVWXYZabcdefghijklmnopqrstuvwxyz0123456789+/''"

definition base64_url :: string where
  "base64_url = ''ABCDEFGHIJKLMNOPQRSTUVWXYZabcdefghijklmnopqrstuvwxyz0123456789-_''"

fun position :: "'a list \<Rightarrow> 'a \<Rightarrow> nat option" where
  "position [] x = None"
| "position (y # ys) x = (if x = y then Some 0 else map_option Suc (position ys x))"

lemma position_nth: "distinct xs \<Longrightarrow> n < length xs \<Longrightarrow> position xs (xs ! n) = Some n"
proof (induction xs arbitrary: n)
  case Nil
  then show ?case by simp
next
  case (Cons x xs)
  then show ?case by (cases n) auto
qed

lemma position_bound: "position xs x = Some n \<Longrightarrow> n < length xs \<and> xs ! n = x"
  by (induction xs arbitrary: n) (auto split: if_splits)

subsection \<open>Encoding\<close>

fun sextets :: "nat list \<Rightarrow> nat list" where
  "sextets [] = []"
| "sextets [a] = [a div 4, a mod 4 * 16]"
| "sextets [a, b] = [a div 4, a mod 4 * 16 + b div 16, b mod 16 * 4]"
| "sextets (a # b # c # bs) =
     a div 4 # (a mod 4 * 16 + b div 16) # (b mod 16 * 4 + c div 64) # c mod 64 # sextets bs"

definition raw_encode :: "string \<Rightarrow> string \<Rightarrow> string" where
  "raw_encode alphabet bs = map (\<lambda>d. alphabet ! d) (sextets (map of_char bs))"

text \<open>The padding \<^verbatim>\<open>StdEncoding\<close> adds.\<close>

definition padding :: "string \<Rightarrow> string" where
  "padding s = (if length s mod 4 = 2 then ''=='' else if length s mod 4 = 3 then ''='' else [])"

definition std_encode :: "string \<Rightarrow> string" where
  "std_encode bs = raw_encode base64_std bs @ padding (raw_encode base64_std bs)"

subsection \<open>Decoding\<close>

fun octets :: "nat list \<Rightarrow> nat list option" where
  "octets [] = Some []"
| "octets [a] = None"
| "octets [a, b] = Some [a * 4 + b div 16]"
| "octets [a, b, c] = Some [a * 4 + b div 16, b mod 16 * 16 + c div 4]"
| "octets (a # b # c # d # ds) =
     map_option (\<lambda>bs. (a * 4 + b div 16) # (b mod 16 * 16 + c div 4) # (c mod 4 * 64 + d) # bs) (octets ds)"

fun digits_of :: "string \<Rightarrow> string \<Rightarrow> nat list option" where
  "digits_of alphabet [] = Some []"
| "digits_of alphabet (c # cs) =
     (case position alphabet c of None \<Rightarrow> None | Some d \<Rightarrow> map_option ((#) d) (digits_of alphabet cs))"

definition skip_newlines :: "string \<Rightarrow> string" where
  "skip_newlines s = filter (\<lambda>c. c \<noteq> CHR 0x0A \<and> c \<noteq> CHR 0x0D) s"

definition decode_digits :: "string \<Rightarrow> string \<Rightarrow> string option" where
  "decode_digits alphabet s =
     (case digits_of alphabet s of
        None \<Rightarrow> None | Some ds \<Rightarrow> map_option (map char_of) (octets ds))"

definition raw_decode :: "string \<Rightarrow> string \<Rightarrow> string option" where
  "raw_decode alphabet s = decode_digits alphabet (skip_newlines s)"

definition std_decode :: "string \<Rightarrow> string option" where
  "std_decode s0 =
     (let s = skip_newlines s0
      in if length s mod 4 \<noteq> 0 then None
         else if HasSuffix s ''=='' then decode_digits base64_std (take (length s - 2) s)
         else if HasSuffix s ''='' then decode_digits base64_std (take (length s - 1) s)
         else decode_digits base64_std s)"

subsection \<open>Round trips\<close>

lemma sextets_bound: "\<forall>b \<in> set bs. b < 256 \<Longrightarrow> d \<in> set (sextets bs) \<Longrightarrow> d < 64"
  by (induction bs rule: sextets.induct) (auto simp: less_mult_imp_div_less)

lemma octets_sextets: "\<forall>b \<in> set bs. b < 256 \<Longrightarrow> octets (sextets bs) = Some bs"
proof (induction bs rule: sextets.induct)
  case (4 a b c bs)
  have "a div 4 * 4 + (a mod 4 * 16 + b div 16) div 16 = a"
    and "(a mod 4 * 16 + b div 16) mod 16 * 16 + (b mod 16 * 4 + c div 64) div 4 = b"
    and "(b mod 16 * 4 + c div 64) mod 4 * 64 + c mod 64 = c"
  proof -
    have "b div 16 < 16" "c div 64 < 4" using 4(2) by (auto simp: less_mult_imp_div_less)
    then have "(a mod 4 * 16 + b div 16) div 16 = a mod 4" "(a mod 4 * 16 + b div 16) mod 16 = b div 16"
        "(b mod 16 * 4 + c div 64) div 4 = b mod 16" "(b mod 16 * 4 + c div 64) mod 4 = c div 64"
      by simp_all
    then show "a div 4 * 4 + (a mod 4 * 16 + b div 16) div 16 = a"
        "(a mod 4 * 16 + b div 16) mod 16 * 16 + (b mod 16 * 4 + c div 64) div 4 = b"
        "(b mod 16 * 4 + c div 64) mod 4 * 64 + c mod 64 = c"
      by simp_all
  qed
  with 4 show ?case by simp
next
  case (3 a b)
  then have "b div 16 < 16" by (auto simp: less_mult_imp_div_less)
  then show ?case by simp
qed simp_all

lemma digits_of_encode:
  assumes "distinct alphabet" and "length alphabet = 64" and "\<forall>d \<in> set ds. d < 64"
  shows "digits_of alphabet (map (\<lambda>d. alphabet ! d) ds) = Some ds"
  using assms(3) by (induction ds) (simp_all add: position_nth assms(1,2))

lemma decode_raw_encode:
  assumes "distinct alphabet" and "length alphabet = 64"
  shows "decode_digits alphabet (raw_encode alphabet bs) = Some bs"
proof -
  have b: "\<forall>b \<in> set (map of_char bs :: nat list). b < 256"
    using of_char_bound by auto
  have "digits_of alphabet (raw_encode alphabet bs) = Some (sextets (map of_char bs))"
    unfolding raw_encode_def by (rule digits_of_encode [OF assms]) (use sextets_bound [OF b] in blast)
  then show ?thesis
    by (simp add: decode_digits_def octets_sextets [OF b] comp_def map_idI)
qed

lemma base64_alphabets:
  "distinct base64_std" "length base64_std = 64" "distinct base64_url" "length base64_url = 64"
  "CHR ''='' \<notin> set base64_std" "CHR ''$'' \<notin> set base64_std" "CHR '','' \<notin> set base64_std"
  "\<forall>c \<in> set base64_std. c \<noteq> CHR 0x0A \<and> c \<noteq> CHR 0x0D"
  "\<forall>c \<in> set base64_url. c \<noteq> CHR 0x0A \<and> c \<noteq> CHR 0x0D"
  by (code_simp)+

lemma raw_encode_chars:
  assumes "length alphabet = 64"
  shows "set (raw_encode alphabet bs) \<subseteq> set alphabet"
proof -
  have "\<forall>b \<in> set (map of_char bs :: nat list). b < 256"
    using of_char_bound by auto
  from sextets_bound [OF this] show ?thesis
    using assms by (auto simp: raw_encode_def intro!: nth_mem)
qed

lemma skip_newlines_id: "(\<forall>c \<in> set s. c \<noteq> CHR 0x0A \<and> c \<noteq> CHR 0x0D) \<Longrightarrow> skip_newlines s = s"
  by (simp add: skip_newlines_def filter_id_conv)

lemma raw_decode_std [simp]: "raw_decode base64_std (raw_encode base64_std bs) = Some bs"
proof -
  have "skip_newlines (raw_encode base64_std bs) = raw_encode base64_std bs"
    using raw_encode_chars base64_alphabets by (intro skip_newlines_id) blast
  then show ?thesis
    by (simp add: raw_decode_def decode_raw_encode base64_alphabets)
qed

lemma raw_decode_url [simp]: "raw_decode base64_url (raw_encode base64_url bs) = Some bs"
proof -
  have "skip_newlines (raw_encode base64_url bs) = raw_encode base64_url bs"
    using raw_encode_chars base64_alphabets by (intro skip_newlines_id) blast
  then show ?thesis
    by (simp add: raw_decode_def decode_raw_encode base64_alphabets)
qed

lemma raw_encode_url_inj: "raw_encode base64_url a = raw_encode base64_url b \<longleftrightarrow> a = b"
  by (metis raw_decode_url option.inject)

text \<open>The length of an encoding decides its padding, which never looks like a digit.\<close>

lemma length_sextets: "length (sextets bs) mod 4 = (if length bs mod 3 = 0 then 0 else length bs mod 3 + 1)"
proof (induction bs rule: sextets.induct)
  case (4 a b c bs)
  have "length (a # b # c # bs) mod 3 = length bs mod 3" by simp
  with 4 show ?case by simp
qed simp_all

lemma HasSuffix_append: "HasSuffix (s @ t) u \<longleftrightarrow> (if length u \<le> length t then HasSuffix t u else HasSuffix (s @ t) u)"
  by (auto simp: HasSuffix_def HasPrefix_def)

lemma no_suffix: "c \<notin> set s \<Longrightarrow> \<not> HasSuffix s (cs @ [c])"
proof
  assume c: "c \<notin> set s" and "HasSuffix s (cs @ [c])"
  then obtain u where "rev s = c # rev cs @ u"
    by (auto simp: HasSuffix_def HasPrefix_decomp)
  then have "c \<in> set (rev s)" by simp
  with c show False by simp
qed

lemma std_decode_encode: "std_decode (std_encode bs) = Some bs"
proof -
  let ?e = "raw_encode base64_std bs"
  have sub: "set ?e \<subseteq> set base64_std" using raw_encode_chars base64_alphabets by blast
  then have neq: "CHR ''='' \<notin> set ?e" using base64_alphabets by blast
  have skip: "skip_newlines (std_encode bs) = std_encode bs"
    using sub base64_alphabets(8) by (intro skip_newlines_id) (auto simp: std_encode_def padding_def)
  have len: "length ?e mod 4 \<noteq> 1"
    unfolding raw_encode_def length_map length_sextets by simp
  have dec: "decode_digits base64_std ?e = Some bs"
    by (rule decode_raw_encode [OF base64_alphabets(1,2)])
  have four: "length ?e mod 4 = 0 \<or> length ?e mod 4 = 2 \<or> length ?e mod 4 = 3"
    using len by presburger
  show ?thesis
  proof (cases "length ?e mod 4 = 0")
    case True
    then have "std_encode bs = ?e" by (simp add: std_encode_def padding_def)
    moreover have "\<not> HasSuffix ?e ''==''" "\<not> HasSuffix ?e ''=''"
      using no_suffix [OF neq, of "''=''"] no_suffix [OF neq, of "[]"] by simp_all
    ultimately show ?thesis
      using skip True dec by (simp add: std_decode_def Let_def)
  next
    case False
    show ?thesis
    proof (cases "length ?e mod 4 = 2")
      case True
      then have e: "std_encode bs = ?e @ ''==''" by (simp add: std_encode_def padding_def)
      moreover have "HasSuffix (?e @ ''=='') ''==''" by (simp add: HasSuffix_def HasPrefix_def)
      moreover have "length (?e @ ''=='') mod 4 = 0" using True by simp presburger
      ultimately show ?thesis
        using skip dec by (simp add: std_decode_def Let_def)
    next
      case False
      with four \<open>length ?e mod 4 \<noteq> 0\<close> have three: "length ?e mod 4 = 3" by blast
      then have e: "std_encode bs = ?e @ ''=''" by (simp add: std_encode_def padding_def)
      have "\<not> HasSuffix (?e @ ''='') ''==''"
      proof
        assume "HasSuffix (?e @ ''='') ''==''"
        then have "HasSuffix ?e ''=''" by (simp add: HasSuffix_def HasPrefix_def)
        then show False using no_suffix [OF neq, of "[]"] by simp
      qed
      moreover have "HasSuffix (?e @ ''='') ''=''" by (simp add: HasSuffix_def HasPrefix_def)
      moreover have "length (?e @ ''='') mod 4 = 0" using three by simp presburger
      ultimately show ?thesis
        using e skip dec by (simp add: std_decode_def Let_def)
    qed
  qed
qed

end
