(* ===== verification/Secrets.thy ===== *)
theory Secrets
  imports Domain Base64
begin

text \<open>
  The cipher that keeps Stripe keys and email addresses at rest (\<^verbatim>\<open>internal/secrets/cipher.go\<close>).
  AES-GCM is a parameter: sealing and opening under a key, a nonce and associated data.  Random
  bytes are drawn from a source given as an argument.
\<close>

subsection \<open>Authenticated encryption and randomness\<close>

record aead =
  ad_Seal :: "string \<Rightarrow> string \<Rightarrow> string \<Rightarrow> string \<Rightarrow> string"
  ad_Open :: "string \<Rightarrow> string \<Rightarrow> string \<Rightarrow> string \<Rightarrow> string option"

text \<open>
  What AES-GCM guarantees: opening succeeds exactly on the sealed texts of the key, nonce and
  associated data, and gives back what was sealed.
\<close>

definition aead_ok :: "aead \<Rightarrow> bool" where
  "aead_ok A \<longleftrightarrow> (\<forall>k n p a c. ad_Open A k n c a = Some p \<longleftrightarrow> c = ad_Seal A k n p a)"

definition NonceSize :: nat where
  "NonceSize = 12"

text \<open>A source answers a request for \<^verbatim>\<open>n\<close> bytes with an error or that many bytes.\<close>

type_synonym random = "nat \<Rightarrow> goerr + string"

definition random_ok :: "random \<Rightarrow> bool" where
  "random_ok rnd \<longleftrightarrow> (\<forall>n bs. rnd n = Inr bs \<longrightarrow> length bs = n)"

subsection \<open>The cipher\<close>

record Cipher =
  ci_key :: string
  ci_indexKey :: string

definition New_Cipher :: "crypto \<Rightarrow> string \<Rightarrow> goerr + Cipher" where
  "New_Cipher C encodedKey =
     (if encodedKey = [] then Inl (ErrNew ''PARITYLAB_ENCRYPTION_KEY is required'')
      else
        (let decoded = (case std_decode encodedKey of
               Some key \<Rightarrow> Some key | None \<Rightarrow> raw_decode base64_std encodedKey)
         in case decoded of
              None \<Rightarrow> Inl (ErrNew ''PARITYLAB_ENCRYPTION_KEY must be base64-encoded 32 bytes'')
            | Some key \<Rightarrow>
                if length key \<noteq> 32
                then Inl (ErrNew ''PARITYLAB_ENCRYPTION_KEY must be base64-encoded 32 bytes'')
                else Inr \<lparr>ci_key = key,
                          ci_indexKey = sha256 C (''paritylab:blind-index:v1:'' @ key)\<rparr>))"

definition BlindIndex :: "crypto \<Rightarrow> Cipher \<Rightarrow> string \<Rightarrow> string" where
  "BlindIndex C c v = hmac_sha256 C (ci_indexKey c) v"

definition Encrypt :: "aead \<Rightarrow> Cipher \<Rightarrow> random \<Rightarrow> string \<Rightarrow> string \<Rightarrow> goerr + string" where
  "Encrypt A c rnd plaintext associatedData =
     (case rnd NonceSize of
        Inl e \<Rightarrow> Inl (ErrWrap ''generate encryption nonce: %w'' e)
      | Inr nonce \<Rightarrow> Inr (nonce @ ad_Seal A (ci_key c) nonce plaintext associatedData))"

definition Decrypt :: "aead \<Rightarrow> Cipher \<Rightarrow> string \<Rightarrow> string \<Rightarrow> goerr + string" where
  "Decrypt A c ciphertext associatedData =
     (if length ciphertext < NonceSize then Inl (ErrNew ''encrypted secret is truncated'')
      else
        (let nonce = take NonceSize ciphertext; payload = drop NonceSize ciphertext
         in case ad_Open A (ci_key c) nonce payload associatedData of
              None \<Rightarrow> Inl (ErrNew ''encrypted secret authentication failed'')
            | Some plaintext \<Rightarrow> Inr plaintext))"

subsection \<open>What the cipher promises\<close>

lemma Decrypt_iff:
  assumes "aead_ok A"
  shows "Decrypt A c t a = Inr p \<longleftrightarrow>
    (\<exists>nonce. length nonce = NonceSize \<and> t = nonce @ ad_Seal A (ci_key c) nonce p a)"
proof
  assume dec: "Decrypt A c t a = Inr p"
  then have len: "NonceSize \<le> length t"
    and "ad_Open A (ci_key c) (take NonceSize t) (drop NonceSize t) a = Some p"
    by (auto simp: Decrypt_def Let_def split: if_splits option.splits)
  with assms have seal: "drop NonceSize t = ad_Seal A (ci_key c) (take NonceSize t) p a"
    by (simp add: aead_ok_def)
  have "t = take NonceSize t @ ad_Seal A (ci_key c) (take NonceSize t) p a"
    unfolding seal [symmetric] by simp
  with len show "\<exists>nonce. length nonce = NonceSize \<and> t = nonce @ ad_Seal A (ci_key c) nonce p a"
    by (intro exI [of _ "take NonceSize t"]) simp
next
  have "ad_Open A (ci_key c) n (ad_Seal A (ci_key c) n p a) a = Some p" for n
    using assms by (simp add: aead_ok_def)
  moreover assume "\<exists>nonce. length nonce = NonceSize \<and> t = nonce @ ad_Seal A (ci_key c) nonce p a"
  ultimately show "Decrypt A c t a = Inr p"
    by (auto simp: Decrypt_def Let_def)
qed

lemma Decrypt_Encrypt:
  assumes "aead_ok A" and "random_ok rnd" and "Encrypt A c rnd p a = Inr t"
  shows "Decrypt A c t a = Inr p"
proof -
  from assms(3) obtain nonce where nonce: "rnd NonceSize = Inr nonce"
      "t = nonce @ ad_Seal A (ci_key c) nonce p a"
    by (auto simp: Encrypt_def split: sum.splits)
  with assms(2) have "length nonce = NonceSize" by (simp add: random_ok_def)
  with nonce(2) show ?thesis
    unfolding Decrypt_iff [OF assms(1)] by blast
qed

text \<open>
  C38. The cipher keeps secrets and rejects everything else: what was encrypted decrypts, under the
  same associated data, to what it was; a text decrypts only if it is the sealed text of its
  own nonce, the result and the associated data, so one that is truncated, altered or moved
  to other data without being resealed is refused.  A key is accepted, padded or not, exactly
  when it decodes to 32 bytes, and its encoding is accepted.
\<close>

theorem cipher_roundtrip:
  assumes "aead_ok A" and "random_ok rnd" and "length key = 32"
  shows "(\<exists>c. New_Cipher C (std_encode key) = Inr c \<and> New_Cipher C (raw_encode base64_std key) = Inr c \<and>
      ci_key c = key \<and>
      (\<forall>p a t. Encrypt A c rnd p a = Inr t \<longrightarrow> Decrypt A c t a = Inr p) \<and>
      (\<forall>t a p. Decrypt A c t a = Inr p \<longleftrightarrow> NonceSize \<le> length t \<and>
         drop NonceSize t = ad_Seal A key (take NonceSize t) p a))"
proof -
  have three: "length (sextets (map of_char key)) mod 4 = 3"
    using length_sextets [of "map of_char key"] assms(3) by simp
  then have "raw_encode base64_std key \<noteq> []"
    by (auto simp: raw_encode_def)
  then have ne: "std_encode key \<noteq> []" "raw_encode base64_std key \<noteq> []"
    by (simp_all add: std_encode_def)
  define c where "c = \<lparr>ci_key = key, ci_indexKey = sha256 C (''paritylab:blind-index:v1:'' @ key)\<rparr>"
  have "New_Cipher C (std_encode key) = Inr c"
    using ne(1) assms(3) by (simp add: New_Cipher_def std_decode_encode c_def)
  moreover have "New_Cipher C (raw_encode base64_std key) = Inr c"
  proof -
    let ?e = "raw_encode base64_std key"
    have sub: "set ?e \<subseteq> set base64_std" by (rule raw_encode_chars [OF base64_alphabets(2)])
    have skip: "skip_newlines ?e = ?e"
      using sub base64_alphabets(8) by (intro skip_newlines_id) blast
    have "length ?e mod 4 \<noteq> 0"
      using three by (simp add: raw_encode_def)
    then have "std_decode ?e = None"
      unfolding std_decode_def Let_def skip by simp
    then show ?thesis
      using ne(2) assms(3) by (simp add: New_Cipher_def c_def)
  qed
  moreover have "Decrypt A c t a = Inr p \<longleftrightarrow> NonceSize \<le> length t \<and>
      drop NonceSize t = ad_Seal A key (take NonceSize t) p a" for t a p
  proof -
    have "Decrypt A c t a = Inr p \<longleftrightarrow> NonceSize \<le> length t \<and>
        ad_Open A key (take NonceSize t) (drop NonceSize t) a = Some p"
      by (auto simp: Decrypt_def Let_def c_def split: option.splits)
    with assms(1) show ?thesis by (simp add: aead_ok_def)
  qed
  moreover have "ci_key c = key" by (simp add: c_def)
  ultimately show ?thesis
    using Decrypt_Encrypt [OF assms(1,2)] by blast
qed

text \<open>A toy cipher for the witnesses: it writes the associated data and the text one after the other.\<close>

definition plain_aead :: aead where
  "plain_aead =
     \<lparr>ad_Seal = \<lambda>k n p a. hex_encode a @ ''.'' @ p,
      ad_Open = \<lambda>k n c a. if HasPrefix c (hex_encode a @ ''.'')
        then Some (drop (length (hex_encode a @ ''.'')) c) else None\<rparr>"

lemma aead_ok_plain: "aead_ok plain_aead"
  by (auto simp: aead_ok_def plain_aead_def HasPrefix_decomp)

definition zero_random :: random where
  "zero_random n = Inr (replicate n (CHR ''0''))"

lemma random_ok_zero: "random_ok zero_random"
  by (simp add: random_ok_def zero_random_def)

definition echo_crypto :: crypto where
  "echo_crypto = \<lparr>sha256 = \<lambda>m. m, hmac_sha256 = \<lambda>k m. k @ m\<rparr>"

theorem cipher_roundtrip_witness:
  "\<exists>c t. New_Cipher echo_crypto (std_encode (replicate 32 (CHR ''k''))) = Inr c \<and>
     Encrypt plain_aead c zero_random ''sk_test_1'' ''acct_1'' = Inr t \<and>
     Decrypt plain_aead c t ''acct_1'' = Inr ''sk_test_1''"
proof -
  obtain c where c: "New_Cipher echo_crypto (std_encode (replicate 32 (CHR ''k''))) = Inr c"
      "\<forall>p a t. Encrypt plain_aead c zero_random p a = Inr t \<longrightarrow> Decrypt plain_aead c t a = Inr p"
    using cipher_roundtrip [OF aead_ok_plain random_ok_zero, of "replicate 32 (CHR ''k'')" echo_crypto]
    by auto
  obtain t where "Encrypt plain_aead c zero_random ''sk_test_1'' ''acct_1'' = Inr t"
    by (simp add: Encrypt_def zero_random_def)
  with c show ?thesis by blast
qed

end
