(* ===== verification/StripeService.thy ===== *)
theory StripeService
  imports EngineService Secrets
begin

text \<open>
  The Stripe service (\<^verbatim>\<open>internal/engine/stripe_service.go\<close>): sandbox keys, encrypted connections
  and runs made from a real PaymentIntent.  The gateway to Stripe is an interface with a state
  of its own; the service acts on the pair of the repository's and the gateway's states.
\<close>

unbundle bit_operations_syntax

subsection \<open>The gateway\<close>

record StripePaymentIntent =
  pi_ID :: string
  pi_Status :: string
  pi_Amount :: int
  pi_Currency :: string

record StripePaymentIntentParams =
  pp_AmountMinor :: int
  pp_Currency :: string
  pp_IdempotencyKey :: string
  pp_Metadata :: "string \<rightharpoonup> string"

text \<open>\<^verbatim>\<open>ValidateAccount\<close> returns a \<^verbatim>\<open>StripeAccount\<close>, whose one field is the account identifier.\<close>

record 'g StripeGateway =
  gw_ValidateAccount :: "string \<Rightarrow> ('g, string) op"
  gw_CreatePaymentIntent :: "string \<Rightarrow> StripePaymentIntentParams \<Rightarrow> ('g, StripePaymentIntent) op"

text \<open>A service whose gateway or cipher is missing answers that it is not configured.\<close>

record ('s, 'g) StripeService =
  ss_repo :: "'s Repository"
  ss_gateway :: "'g StripeGateway option"
  ss_cipher :: "Cipher option"

definition connection_storage_not_configured :: Error where
  "connection_storage_not_configured =
     \<lparr>er_Type = ''api_error'', er_Code = ''connection_storage_not_configured'',
      er_Message = Msg ''Encrypted Stripe connection storage is not configured.'',
      er_Param = [], er_RequestID = [], er_HTTPStatus = 503\<rparr>"

subsection \<open>Sandbox keys\<close>

definition ValidateSandboxSecret :: "string \<Rightarrow> goerr option" where
  "ValidateSandboxSecret secret0 =
     (let secret = TrimSpace secret0
      in if HasPrefix secret ''sk_live_'' \<or> HasPrefix secret ''rk_live_'' \<or> HasPrefix secret ''pk_live_''
         then Some (ErrNew ''live Stripe keys are not supported'')
         else if \<not> HasPrefix secret ''sk_test_'' \<and> \<not> HasPrefix secret ''rk_test_''
         then Some (ErrNew ''a Stripe sandbox secret or restricted key is required'')
         else None)"

fun error_text :: "goerr \<Rightarrow> string" where
  "error_text (ErrNew m) = m"
| "error_text e = []"

subsection \<open>Identifiers and patterns\<close>

definition newUUID :: "random \<Rightarrow> goerr + string" where
  "newUUID rnd =
     (case rnd 16 of
        Inl e \<Rightarrow> Inl e
      | Inr v0 \<Rightarrow>
          (let v1 = v0[6 := char_of ((of_char (v0 ! 6) AND 0x0F) OR 0x40 :: nat)];
               v = v1[8 := char_of ((of_char (v1 ! 8) AND 0x3F) OR 0x80 :: nat)]
           in Inr (hex_encode (take 4 v) @ ''-'' @ hex_encode (take 2 (drop 4 v)) @ ''-'' @
                   hex_encode (take 2 (drop 6 v)) @ ''-'' @ hex_encode (take 2 (drop 8 v)) @ ''-'' @
                   hex_encode (drop 10 v))))"

definition hex_class :: string where "hex_class = ''0123456789abcdef''"

definition uuid_classes :: "string list" where
  "uuid_classes =
     replicate 8 hex_class @ [''-''] @ replicate 4 hex_class @ [''-''] @
     ''12345678'' # replicate 3 hex_class @ [''-''] @ ''89ab'' # replicate 3 hex_class @ [''-''] @
     replicate 12 hex_class"

definition uuidPattern :: "string \<Rightarrow> bool" where
  "uuidPattern s \<longleftrightarrow> list_all2 (\<lambda>cls c. c \<in> set cls) uuid_classes s"

definition currencyPattern :: "string \<Rightarrow> bool" where
  "currencyPattern s \<longleftrightarrow> length s = 3 \<and> list_all (\<lambda>c. CHR ''a'' \<le> c \<and> c \<le> CHR ''z'') s"

definition scenarioByID :: "Scenario list \<Rightarrow> string \<Rightarrow> Scenario option" where
  "scenarioByID scenarios i = find_scenario scenarios i"

subsection \<open>Validating a connection\<close>

definition validateConnection ::
  "aead \<Rightarrow> ('s, 'g) StripeService \<Rightarrow> time \<Rightarrow> random \<Rightarrow> random \<Rightarrow> string \<Rightarrow> string \<Rightarrow> string \<Rightarrow>
   's \<times> 'g \<Rightarrow> ('s \<times> 'g) \<times> (Error + StripeConnection)" where
  "validateConnection A S now uuidBytes nonceBytes projectID secret sandboxName0 sg =
     (case (ss_gateway S, ss_cipher S) of
        (Some gateway, Some cipher) \<Rightarrow>
     (case ValidateSandboxSecret secret of
        Some e \<Rightarrow> (sg, Inl (Invalid ''sandbox_key_required'' (Msg (error_text e)) ''secret_key''))
      | None \<Rightarrow>
     (case gw_ValidateAccount gateway (TrimSpace secret) (snd sg) of
        (g1, Inl e) \<Rightarrow> ((fst sg, g1), Inl (Invalid ''stripe_connection_failed''
          (Msg ''Stripe could not validate this sandbox key.'') ''secret_key''))
      | (g1, Inr accountID) \<Rightarrow>
          if \<not> HasPrefix accountID ''acct_''
          then ((fst sg, g1), Inl (Invalid ''stripe_connection_failed''
            (Msg ''Stripe could not validate this sandbox key.'') ''secret_key''))
          else
     (let sandboxName = (if TrimSpace sandboxName0 = [] then ''Stripe Sandbox'' else sandboxName0)
      in case newUUID uuidBytes of
        Inl e \<Rightarrow> ((fst sg, g1), Inl (Internal ''connection_id_failed''
          (Msg ''The connection could not be created.'')))
      | Inr i \<Rightarrow>
     (case Encrypt A cipher nonceBytes (TrimSpace secret) accountID of
        Inl e \<Rightarrow> ((fst sg, g1), Inl (Internal ''connection_encryption_failed''
          (Msg ''The connection secret could not be encrypted.'')))
      | Inr ciphertext \<Rightarrow>
          (let connection =
             \<lparr>sc_ID = i, sc_StripeAccountID = accountID, sc_SandboxName = TrimSpace sandboxName,
              sc_Status = ''connected'', sc_CreatedAt = now, sc_SecretCiphertext = ciphertext,
              sc_SecretEncryptionKeyID = 1\<rparr>;
            finish = (\<lambda>x. case x of
                (s2, Inl e) \<Rightarrow> ((s2, g1), Inl (Internal ''connection_persistence_failed''
                  (Msg ''The validated connection could not be stored.'')))
              | (s2, Inr stored) \<Rightarrow> ((s2, g1), Inr stored))
           in if projectID \<noteq> []
              then (case r_Tenant (ss_repo S) of
                  None \<Rightarrow> ((fst sg, g1), Inl (Internal ''tenant_storage_unavailable''
                    (Msg ''Project-scoped connection storage is unavailable.'')))
                | Some T \<Rightarrow> finish (t_SaveStripeConnectionForProject T projectID connection (fst sg)))
              else finish (r_SaveStripeConnection (ss_repo S) connection (fst sg)))))))
      | _ \<Rightarrow> (sg, Inl connection_storage_not_configured))"

definition ValidateConnection ::
  "aead \<Rightarrow> ('s, 'g) StripeService \<Rightarrow> time \<Rightarrow> random \<Rightarrow> random \<Rightarrow> string \<Rightarrow> string \<Rightarrow>
   's \<times> 'g \<Rightarrow> ('s \<times> 'g) \<times> (Error + StripeConnection)" where
  "ValidateConnection A S now uuidBytes nonceBytes secret sandboxName sg =
     validateConnection A S now uuidBytes nonceBytes [] secret sandboxName sg"

definition ValidateConnectionForProject ::
  "aead \<Rightarrow> ('s, 'g) StripeService \<Rightarrow> time \<Rightarrow> random \<Rightarrow> random \<Rightarrow> string \<Rightarrow> string \<Rightarrow> string \<Rightarrow>
   's \<times> 'g \<Rightarrow> ('s \<times> 'g) \<times> (Error + StripeConnection)" where
  "ValidateConnectionForProject A S now uuidBytes nonceBytes projectID secret sandboxName sg =
     (if projectID = []
      then (sg, Inl (Forbidden ''project_required'' (Msg ''A project session is required.'')))
      else validateConnection A S now uuidBytes nonceBytes projectID secret sandboxName sg)"

subsection \<open>Payment runs\<close>

definition stripe_digest :: "crypto \<Rightarrow> string \<Rightarrow> string" where
  "stripe_digest C idempotencyKey = sha256 C (''paritylab:stripe:'' @ idempotencyKey)"

definition stripe_correlation :: "crypto \<Rightarrow> string \<Rightarrow> string" where
  "stripe_correlation C idempotencyKey = ''plcorr_'' @ hex_encode (take 12 (stripe_digest C idempotencyKey))"

definition intent_params :: "crypto \<Rightarrow> int \<Rightarrow> string \<Rightarrow> string \<Rightarrow> StripePaymentIntentParams" where
  "intent_params C amountMinor currency idempotencyKey =
     \<lparr>pp_AmountMinor = amountMinor, pp_Currency = currency,
      pp_IdempotencyKey = ''pl_'' @ hex_encode (stripe_digest C idempotencyKey),
      pp_Metadata = [''paritylab_correlation_id'' \<mapsto> stripe_correlation C idempotencyKey,
                     ''paritylab_scenario_id'' \<mapsto> ''checkout-duplicate'']\<rparr>"

definition intent_evidence :: "int \<Rightarrow> string \<Rightarrow> string \<Rightarrow> string \<Rightarrow> Event \<Rightarrow> Event" where
  "intent_evidence amountMinor currency intentID correlationID e =
     e\<lparr>ev_Evidence := (ev_Evidence e)
         (''amount_minor'' \<mapsto> AnyInt amountMinor, ''currency'' \<mapsto> AnyString currency,
          ''stripe_payment_intent_id'' \<mapsto> AnyString intentID,
          ''paritylab_correlation_id'' \<mapsto> AnyString correlationID)\<rparr>"

definition minor_units_assertion :: "int \<Rightarrow> string \<Rightarrow> StripePaymentIntent \<Rightarrow> Assertion" where
  "minor_units_assertion amountMinor currency intent =
     \<lparr>as_ID = ''assert_minor_units'', as_Name = ''Amount persisted in integer minor units'',
      as_Passed = (pi_Amount intent = amountMinor \<and> pi_Currency intent = currency),
      as_Expected = fmt_d amountMinor @ '' '' @ currency,
      as_Observed = fmt_d (pi_Amount intent) @ '' '' @ pi_Currency intent,
      as_Evidence = pi_ID intent\<rparr>"

definition payment_bundle ::
  "time \<Rightarrow> string \<Rightarrow> int \<Rightarrow> string \<Rightarrow> StripePaymentIntent \<Rightarrow> string \<Rightarrow> RunBundle option" where
  "payment_bundle now i amountMinor currency intent correlationID =
     (let scenario = (case scenarioByID seededScenarios ''checkout-duplicate'' of
            None \<Rightarrow> zero_Scenario | Some x \<Rightarrow> x)
      in case buildRunBundle i (numberFromRunID i) scenario FaultDuplicate now of
           None \<Rightarrow> None
         | Some b0 \<Rightarrow>
             (let run = (rb_Run b0)\<lparr>run_StripeObjectID := pi_ID intent\<rparr>;
                  events = map (intent_evidence amountMinor currency (pi_ID intent) correlationID) (rb_Events b0)
              in case buildReport run FaultDuplicate of
                   None \<Rightarrow> None
                 | Some report0 \<Rightarrow>
                     (let assertions = rp_Assertions report0 @ [minor_units_assertion amountMinor currency intent]
                      in Some (b0\<lparr>rb_OutboxTopic := ''verification.run.queued'',
                           rb_StripeCorrelationID := correlationID, rb_Run := run, rb_Events := events,
                           rb_Report := report0\<lparr>rp_Assertions := assertions,
                             rp_Summary := assertion_summary ''deterministic'' assertions\<rparr>\<rparr>))))"

definition stripe_payment_intent_failed :: Error where
  "stripe_payment_intent_failed =
     \<lparr>er_Type = ''api_error'', er_Code = ''stripe_payment_intent_failed'',
      er_Message = Msg ''Stripe could not create the sandbox PaymentIntent.'',
      er_Param = [], er_RequestID = [], er_HTTPStatus = 502\<rparr>"

text \<open>From the created intent to the stored run.\<close>

definition store_payment_run ::
  "(digest \<Rightarrow> digest \<Rightarrow> RunBundle \<Rightarrow> ('s, Run \<times> bool) op) \<Rightarrow> digest \<Rightarrow> digest \<Rightarrow> RunBundle \<Rightarrow>
   's \<times> 'g \<Rightarrow> ('s \<times> 'g) \<times> (Error + Run \<times> bool)" where
  "store_payment_run create keyHash requestHash bundle sg =
     (case create keyHash requestHash bundle (fst sg) of
        (s', Inl err) \<Rightarrow>
          ((s', snd sg), Inl (if errors_Is err ErrIdempotencyConflict then idempotency_conflict
             else Internal ''persistence_failed'' (Msg ''The Stripe run could not be durably persisted.'')))
      | (s', Inr (run, replayed)) \<Rightarrow> ((s', snd sg), Inr (run, replayed)))"

text \<open>From the loaded connection on: decryption, allocation, the call to Stripe and the run.\<close>

definition pay_and_store ::
  "crypto \<Rightarrow> aead \<Rightarrow> 'g StripeGateway \<Rightarrow> Cipher \<Rightarrow> ('s, string) op \<Rightarrow>
   (digest \<Rightarrow> digest \<Rightarrow> RunBundle \<Rightarrow> ('s, Run \<times> bool) op) \<Rightarrow> time \<Rightarrow> StripeConnection \<Rightarrow> int \<Rightarrow>
   string \<Rightarrow> string \<Rightarrow> digest \<Rightarrow> 's \<times> 'g \<Rightarrow> (('s \<times> 'g) \<times> (Error + Run \<times> bool)) option" where
  "pay_and_store C A gateway cipher nextID create now connection amountMinor currency idempotencyKey
       requestHash sg =
     (case Decrypt A cipher (sc_SecretCiphertext connection) (sc_StripeAccountID connection) of
        Inl e \<Rightarrow> Some (sg, Inl (Internal ''connection_decryption_failed''
          (Msg ''The Stripe connection could not be decrypted.'')))
      | Inr secret \<Rightarrow>
          if ValidateSandboxSecret secret \<noteq> None
          then Some (sg, Inl (Invalid ''sandbox_key_required''
            (Msg ''The stored Stripe connection is not a sandbox key.'') ''connection_id''))
          else
     (case nextID (fst sg) of
        (s1, Inl e) \<Rightarrow> Some ((s1, snd sg), Inl (Internal ''persistence_unavailable''
          (Msg ''The run could not be durably allocated.'')))
      | (s1, Inr i) \<Rightarrow>
     (case gw_CreatePaymentIntent gateway secret (intent_params C amountMinor currency idempotencyKey) (snd sg) of
        (g1, Inl e) \<Rightarrow> Some ((s1, g1), Inl stripe_payment_intent_failed)
      | (g1, Inr intent) \<Rightarrow>
          if \<not> HasPrefix (pi_ID intent) ''pi_'' then Some ((s1, g1), Inl stripe_payment_intent_failed)
          else
     (case payment_bundle now i amountMinor currency intent (stripe_correlation C idempotencyKey) of
        None \<Rightarrow> None
      | Some bundle \<Rightarrow>
          Some (store_payment_run create (sha256 C idempotencyKey) requestHash bundle (s1, g1))))))"

text \<open>The replay and the connection, with the operations of the chosen scope.\<close>

definition replay_or_pay ::
  "crypto \<Rightarrow> aead \<Rightarrow> 'g StripeGateway \<Rightarrow> Cipher \<Rightarrow> (digest \<Rightarrow> digest \<Rightarrow> ('s, Run \<times> bool) op) \<Rightarrow>
   (digest \<Rightarrow> digest \<Rightarrow> RunBundle \<Rightarrow> ('s, Run \<times> bool) op) \<Rightarrow>
   (string \<Rightarrow> ('s, StripeConnection \<times> bool) op) \<Rightarrow> ('s, string) op \<Rightarrow> time \<Rightarrow> string \<Rightarrow> int \<Rightarrow>
   string \<Rightarrow> string \<Rightarrow> digest \<Rightarrow> 's \<times> 'g \<Rightarrow> (('s \<times> 'g) \<times> (Error + Run \<times> bool)) option" where
  "replay_or_pay C A gateway cipher replayRun create loadConnection nextID now connectionID amountMinor
       currency idempotencyKey requestHash sg =
     (case replayRun (sha256 C idempotencyKey) requestHash (fst sg) of
        (s1, Inl err) \<Rightarrow>
          Some ((s1, snd sg), Inl (if errors_Is err ErrIdempotencyConflict then idempotency_conflict
            else Internal ''persistence_failed'' (Msg ''The idempotency record could not be read.'')))
      | (s1, Inr (replay, True)) \<Rightarrow> Some ((s1, snd sg), Inr (replay, True))
      | (s1, Inr (_, False)) \<Rightarrow>
          if \<not> uuidPattern connectionID
          then Some ((s1, snd sg), Inl (NotFound ''stripe_connection'' connectionID))
          else
     (case loadConnection connectionID s1 of
        (s2, Inl e) \<Rightarrow> Some ((s2, snd sg), Inl (Internal ''connection_lookup_failed''
          (Msg ''The Stripe connection could not be loaded.'')))
      | (s2, Inr (connection, ok)) \<Rightarrow>
          if \<not> ok \<or> sc_Status connection \<noteq> ''connected''
          then Some ((s2, snd sg), Inl (NotFound ''stripe_connection'' connectionID))
          else pay_and_store C A gateway cipher nextID create now connection amountMinor currency
                 idempotencyKey requestHash (s2, snd sg)))"

definition createPaymentIntentRun ::
  "crypto \<Rightarrow> aead \<Rightarrow> ('s, 'g) StripeService \<Rightarrow> time \<Rightarrow> string \<Rightarrow> string \<Rightarrow> int \<Rightarrow> string \<Rightarrow>
   string \<Rightarrow> string \<Rightarrow> 's \<times> 'g \<Rightarrow> (('s \<times> 'g) \<times> (Error + Run \<times> bool)) option" where
  "createPaymentIntentRun C A S now projectID connectionID amountMinor currency idempotencyKey requestBody sg =
     (case (ss_gateway S, ss_cipher S) of
        (Some gateway, Some cipher) \<Rightarrow>
          if idempotencyKey = []
          then Some (sg, Inl (Invalid ''idempotency_key_missing''
            (Msg ''An Idempotency-Key header is required for this request.'') ''Idempotency-Key''))
          else if amountMinor \<le> 0 \<or> amountMinor > 99999999
          then Some (sg, Inl (Invalid ''invalid_amount_minor''
            (Msg ''amount_minor must be an integer between 1 and 99999999.'') ''amount_minor''))
          else if \<not> currencyPattern currency
          then Some (sg, Inl (Invalid ''invalid_currency''
            (Msg ''currency must be a lowercase three-letter ISO code.'') ''currency''))
          else
            (let requestHash = sha256 C requestBody; repo = ss_repo S
             in if projectID \<noteq> []
                then (case r_Tenant repo of
                    None \<Rightarrow> Some (sg, Inl (Internal ''tenant_storage_unavailable''
                      (Msg ''Project-scoped Stripe storage is unavailable.'')))
                  | Some T \<Rightarrow>
                      replay_or_pay C A gateway cipher (t_ReplayRunForProject T projectID)
                        (t_CreateRunForProject T now projectID) (t_StripeConnectionForProject T projectID)
                        (r_NextRunID repo) now connectionID amountMinor currency idempotencyKey requestHash sg)
                else replay_or_pay C A gateway cipher (r_ReplayRun repo) (r_CreateRun repo now)
                       (r_StripeConnection repo) (r_NextRunID repo) now connectionID amountMinor currency
                       idempotencyKey requestHash sg)
      | _ \<Rightarrow> Some (sg, Inl connection_storage_not_configured))"

definition CreatePaymentIntentRun ::
  "crypto \<Rightarrow> aead \<Rightarrow> ('s, 'g) StripeService \<Rightarrow> time \<Rightarrow> string \<Rightarrow> int \<Rightarrow> string \<Rightarrow> string \<Rightarrow>
   string \<Rightarrow> 's \<times> 'g \<Rightarrow> (('s \<times> 'g) \<times> (Error + Run \<times> bool)) option" where
  "CreatePaymentIntentRun C A S now connectionID amountMinor currency idempotencyKey requestBody sg =
     createPaymentIntentRun C A S now [] connectionID amountMinor currency idempotencyKey requestBody sg"

definition CreatePaymentIntentRunForProject ::
  "crypto \<Rightarrow> aead \<Rightarrow> ('s, 'g) StripeService \<Rightarrow> time \<Rightarrow> string \<Rightarrow> string \<Rightarrow> int \<Rightarrow> string \<Rightarrow>
   string \<Rightarrow> string \<Rightarrow> 's \<times> 'g \<Rightarrow> (('s \<times> 'g) \<times> (Error + Run \<times> bool)) option" where
  "CreatePaymentIntentRunForProject C A S now projectID connectionID amountMinor currency idempotencyKey
       requestBody sg =
     (if projectID = []
      then Some (sg, Inl (Forbidden ''project_required'' (Msg ''A project session is required.'')))
      else createPaymentIntentRun C A S now projectID connectionID amountMinor currency idempotencyKey
             requestBody sg)"

end
