(* ===== verification/ServiceSpec.thy ===== *)
theory ServiceSpec
  imports EngineService
begin

text \<open>
  What the engine's service promises.  The interface \<^verbatim>\<open>run_service\<close> extends the idempotent
  store by the allocation of run identifiers; from it follow the behaviour of one request
  and of any number of concurrent requests, each made of a replay, an allocation and a
  creation that other requests may interleave.
\<close>

subsection \<open>Concurrent requests\<close>

text \<open>
  Requests that have passed validation, by their number: key, request hash, and the bundle
  built from the identifier the request is allocated.  Each goes through the phases of
  \<^verbatim>\<open>createRun\<close>: replay, allocation, creation.
\<close>

record pending =
  pq_key :: digest
  pq_hash :: digest
  pq_build :: "string \<Rightarrow> RunBundle"

datatype phase = Arrived | Missed | Allocated string | Finished "goerr + Run \<times> bool"

inductive request_step ::
  "(digest \<Rightarrow> digest \<Rightarrow> 's \<Rightarrow> goerr + Run \<times> bool) \<Rightarrow>
   (time \<Rightarrow> digest \<Rightarrow> digest \<Rightarrow> RunBundle \<Rightarrow> 's \<Rightarrow> 's \<times> (goerr + Run \<times> bool)) \<Rightarrow>
   ('s \<Rightarrow> 's \<times> (goerr + string)) \<Rightarrow> (nat \<Rightarrow> pending) \<Rightarrow>
   's \<times> (nat \<Rightarrow> phase) \<Rightarrow> 's \<times> (nat \<Rightarrow> phase) \<Rightarrow> bool"
  for replay create next_id reqs where
  replay_hit:
    "pcs j = Arrived \<Longrightarrow> replay (pq_key (reqs j)) (pq_hash (reqs j)) s = Inr (run, True) \<Longrightarrow>
     request_step replay create next_id reqs (s, pcs) (s, pcs(j := Finished (Inr (run, True))))"
| replay_conflict:
    "pcs j = Arrived \<Longrightarrow> replay (pq_key (reqs j)) (pq_hash (reqs j)) s = Inl err \<Longrightarrow>
     request_step replay create next_id reqs (s, pcs) (s, pcs(j := Finished (Inl err)))"
| replay_miss:
    "pcs j = Arrived \<Longrightarrow> replay (pq_key (reqs j)) (pq_hash (reqs j)) s = Inr (run, False) \<Longrightarrow>
     request_step replay create next_id reqs (s, pcs) (s, pcs(j := Missed))"
| allocate:
    "pcs j = Missed \<Longrightarrow> next_id s = (s', Inr i) \<Longrightarrow>
     request_step replay create next_id reqs (s, pcs) (s', pcs(j := Allocated i))"
| store_run:
    "pcs j = Allocated i \<Longrightarrow>
     create now (pq_key (reqs j)) (pq_hash (reqs j)) (pq_build (reqs j) i) s = (s', x) \<Longrightarrow>
     request_step replay create next_id reqs (s, pcs) (s', pcs(j := Finished x))"

subsection \<open>The outcome of a request\<close>

definition effective_fault :: "Fault \<Rightarrow> Fault" where
  "effective_fault fault = (if fault = [] then FaultNone else fault)"

definition valid_request :: "string \<Rightarrow> string \<Rightarrow> Fault \<Rightarrow> bool" where
  "valid_request key sid fault \<longleftrightarrow> key \<noteq> [] \<and>
     (case Service_Scenario sid of None \<Rightarrow> False | Some scn \<Rightarrow> supportsFault scn (effective_fault fault))"

text \<open>What a creation in a scope must do, from the records of the scope before and after.\<close>

definition creation_outcome ::
  "('s \<Rightarrow> string \<Rightarrow> bool) \<Rightarrow> string \<Rightarrow> Fault \<Rightarrow> string \<Rightarrow> digest \<Rightarrow> digest \<Rightarrow>
   (digest \<Rightarrow> (digest \<times> Run) option) \<Rightarrow> (digest \<Rightarrow> (digest \<times> Run) option) \<Rightarrow> 's \<Rightarrow> 's \<Rightarrow>
   Error + Run \<times> bool \<Rightarrow> bool" where
  "creation_outcome allocated sid fault key k h before after s s' x \<longleftrightarrow>
     (if key = [] then s' = s \<and> (\<exists>m. x = Inl (Invalid ''idempotency_key_missing'' m ''Idempotency-Key''))
      else case Service_Scenario sid of
        None \<Rightarrow> s' = s \<and> x = Inl (NotFound ''scenario'' sid)
      | Some scenario \<Rightarrow>
          if \<not> supportsFault scenario (effective_fault fault)
          then s' = s \<and> (\<exists>m. x = Inl (Invalid ''fault_not_supported'' m ''fault''))
          else case before k of
            Some (h', run) \<Rightarrow>
              s' = s \<and> x = (if h' = h then Inr (run, True) else Inl idempotency_conflict)
          | None \<Rightarrow>
              (\<exists>b. x = Inr (rb_Run b, False) \<and> bundle_consistent b \<and>
                 \<not> allocated s (run_ID (rb_Run b)) \<and> allocated s' (run_ID (rb_Run b)) \<and>
                 run_ScenarioID (rb_Run b) = sid \<and> rb_VerificationFault b = effective_fault fault \<and>
                 after = before(k \<mapsto> (h, rb_Run b))))"

lemma find_scenario_Some: "find_scenario ss i = Some s \<Longrightarrow> scn_ID s = i \<and> s \<in> set ss"
  by (induction ss) (auto split: if_splits)

lemma valid_requestE:
  assumes "valid_request key sid fault"
  obtains scn where "key \<noteq> []" "Service_Scenario sid = Some scn" "scn_ID scn = sid"
    "supportsFault scn (effective_fault fault)"
  using assms find_scenario_Some
  by (auto simp: valid_request_def Service_Scenario_def split: option.splits)

lemma createRun_rejects:
  assumes "\<not> valid_request key sid fault"
  shows "\<exists>x. createRun C R now p sid fault key body s = Some (s, x) \<and>
    creation_outcome allocated sid fault key k h before before s s x"
  using assms
  by (cases "Service_Scenario sid")
    (auto simp: createRun_def creation_outcome_def valid_request_def effective_fault_def Let_def)

subsection \<open>Allocation and creation\<close>

locale run_service = idempotent_store replay create recorded admits key_ok wf
  for replay :: "digest \<Rightarrow> digest \<Rightarrow> 's \<Rightarrow> goerr + Run \<times> bool"
    and create :: "time \<Rightarrow> digest \<Rightarrow> digest \<Rightarrow> RunBundle \<Rightarrow> 's \<Rightarrow> 's \<times> (goerr + Run \<times> bool)"
    and recorded admits key_ok wf +
  fixes next_id :: "'s \<Rightarrow> 's \<times> (goerr + string)"
    and allocated :: "'s \<Rightarrow> string \<Rightarrow> bool"
  assumes next_id_new: "wf s \<Longrightarrow> \<exists>s' i. next_id s = (s', Inr i) \<and> wf s' \<and> recorded s' = recorded s \<and>
      4 \<le> length i \<and> \<not> allocated s i \<and> allocated s' i"
    and next_id_admits: "wf s \<Longrightarrow> next_id s = (s', Inr i) \<Longrightarrow> bundle_ok b \<Longrightarrow> run_ID (rb_Run b) = i \<Longrightarrow>
      admits s' b"
    and next_id_keeps: "wf s \<Longrightarrow> next_id s = (s', Inr i) \<Longrightarrow>
      (allocated s j \<longrightarrow> allocated s' j) \<and> (admits s b \<longrightarrow> admits s' b)"
    and allocated_length: "allocated s i \<Longrightarrow> 4 \<le> length i"
    and create_keeps: "wf s \<Longrightarrow> admits s b \<Longrightarrow> create now k h b s = (s', x) \<Longrightarrow> allocated s j \<Longrightarrow>
      allocated s' j"
begin

text \<open>One request, running alone.\<close>

lemma create_or_replay_known:
  assumes "wf s" and "recorded s k = Some (h', run)"
  shows "create_or_replay (\<lambda>k h. reads (replay k h)) (create now) next_id scn fault k h s =
    Some (s, if h' = h then Inr (run, True) else Inl idempotency_conflict)"
  using replay_answer [OF assms(1), of k h] assms(2)
  by (simp add: create_or_replay_def reads_def idempotent_answer_def)

lemma create_or_replay_new:
  assumes "wf s" and "recorded s k = None" and "key_ok k"
  shows "\<exists>s1 s' i b. next_id s = (s1, Inr i) \<and>
    buildRunBundle i (numberFromRunID i) scn fault (run_start (numberFromRunID i)) = Some b \<and>
    create_or_replay (\<lambda>k h. reads (replay k h)) (create now) next_id scn fault k h s =
      Some (s', Inr (rb_Run b, False)) \<and>
    wf s' \<and> recorded s' = (recorded s)(k \<mapsto> (h, rb_Run b)) \<and> bundle_consistent b \<and>
    run_ID (rb_Run b) = i \<and> run_ScenarioID (rb_Run b) = scn_ID scn \<and>
    rb_VerificationFault b = fault \<and> \<not> allocated s i \<and> allocated s' i"
proof -
  obtain s1 i where n: "next_id s = (s1, Inr i)" "wf s1" "recorded s1 = recorded s" "4 \<le> length i"
      "\<not> allocated s i" "allocated s1 i"
    using next_id_new [OF assms(1)] by blast
  obtain b where b: "buildRunBundle i (numberFromRunID i) scn fault (run_start (numberFromRunID i)) = Some b"
      "bundle_consistent b" "run_ID (rb_Run b) = i" "run_ScenarioID (rb_Run b) = scn_ID scn"
      "rb_VerificationFault b = fault"
    using buildRunBundle_facts [OF n(4), of "numberFromRunID i" scn fault
        "run_start (numberFromRunID i)"]
    by (elim exE conjE) (rule that)
  have ad: "admits s1 b"
    using next_id_admits [OF assms(1) n(1)] bundle_consistent_ok b(2,3) by blast
  obtain s' where c: "create now k h b s1 = (s', Inr (rb_Run b, False))" "wf s'"
      "recorded s' = (recorded s1)(k \<mapsto> (h, rb_Run b))"
    using create_new [OF n(2) _ ad assms(3)] n(3) assms(2) by metis
  have p: "create_or_replay (\<lambda>k h. reads (replay k h)) (create now) next_id scn fault k h s =
      Some (s', Inr (rb_Run b, False))"
  proof -
    have "reads (replay k h) s = (s, Inr (zero_Run, False))"
      using replay_answer [OF assms(1), of k h] assms(2) by (simp add: reads_def idempotent_answer_def)
    then show ?thesis
      by (simp only: create_or_replay_def prod.case sum.case bool.case option.case n(1) b(1) c(1) Let_def)
  qed
  have a: "allocated s' i"
    by (rule create_keeps [OF n(2) ad c(1) n(6)])
  have rec: "recorded s' = (recorded s)(k \<mapsto> (h, rb_Run b))"
    using c(3) n(3) by simp
  show ?thesis
    by (rule exI [of _ s1], rule exI [of _ s'], rule exI [of _ i], rule exI [of _ b])
      (intro conjI n(1,5) b(1-5) p c(2) rec a)
qed

text \<open>Both cases together.\<close>

lemma create_outcome:
  assumes "wf s" and "key_ok k" and "valid_request key sid fault"
  shows "\<exists>s' x. create_or_replay (\<lambda>k h. reads (replay k h)) (create now) next_id
      (the (Service_Scenario sid)) (effective_fault fault) k h s = Some (s', x) \<and> wf s' \<and>
    creation_outcome allocated sid fault key k h (recorded s) (recorded s') s s' x"
proof -
  obtain scn where scn: "key \<noteq> []" "Service_Scenario sid = Some scn" "scn_ID scn = sid"
      "supportsFault scn (effective_fault fault)"
    using valid_requestE [OF assms(3)] by blast
  show ?thesis
  proof (cases "recorded s k")
    case (Some y)
    obtain h' run where y: "y = (h', run)" by fastforce
    have "creation_outcome allocated sid fault key k h (recorded s) (recorded s) s s
        (if h' = h then Inr (run, True) else Inl idempotency_conflict)"
      using scn Some y by (simp add: creation_outcome_def)
    then show ?thesis
      using create_or_replay_known [OF assms(1) Some [unfolded y]] assms(1) scn(2) by simp
  next
    case None
    obtain s1 s' i b where new: "create_or_replay (\<lambda>k h. reads (replay k h)) (create now) next_id scn
          (effective_fault fault) k h s = Some (s', Inr (rb_Run b, False))"
        "wf s'" "recorded s' = (recorded s)(k \<mapsto> (h, rb_Run b))" "bundle_consistent b"
        "run_ID (rb_Run b) = i" "run_ScenarioID (rb_Run b) = scn_ID scn"
        "rb_VerificationFault b = effective_fault fault" "\<not> allocated s i" "allocated s' i"
      using create_or_replay_new [OF assms(1) None assms(2), of scn "effective_fault fault" now h]
      by (elim exE conjE) (rule that, simp_all)
    have "creation_outcome allocated sid fault key k h (recorded s) (recorded s') s s'
        (Inr (rb_Run b, False))"
      using scn None new(3-9) by (simp add: creation_outcome_def) blast
    then show ?thesis
      using new(1,2) scn(2) by simp
  qed
qed

text \<open>
  Any number of concurrent requests.  Throughout, allocated identifiers are distinct and
  usable, every finished request has the answer its key's record demands, and per key that
  was new at the start one request at most has created the run, one exactly once the key is
  recorded.
\<close>

definition requests_ok :: "'s \<Rightarrow> (nat \<Rightarrow> pending) \<Rightarrow> 's \<times> (nat \<Rightarrow> phase) \<Rightarrow> bool" where
  "requests_ok s0 reqs = (\<lambda>(s, pcs).
     wf s \<and> (\<forall>k. recorded s0 k \<noteq> None \<longrightarrow> recorded s k = recorded s0 k) \<and>
     (\<forall>j i. pcs j = Allocated i \<longrightarrow> allocated s i \<and> admits s (pq_build (reqs j) i)) \<and>
     (\<forall>j j' i. pcs j = Allocated i \<and> pcs j' = Allocated i \<longrightarrow> j = j') \<and>
     (\<forall>j x. pcs j = Finished x \<longrightarrow> answers_as (recorded s (pq_key (reqs j))) (pq_hash (reqs j)) x) \<and>
     (\<forall>j j' x x'. pcs j = Finished x \<and> pcs j' = Finished x' \<and> created_now x \<and> created_now x' \<and>
        pq_key (reqs j) = pq_key (reqs j') \<longrightarrow> j = j') \<and>
     (\<forall>j x. pcs j = Finished x \<and> created_now x \<longrightarrow> recorded s0 (pq_key (reqs j)) = None) \<and>
     (\<forall>k. recorded s k \<noteq> None \<and> recorded s0 k = None \<longrightarrow>
        (\<exists>j x. pcs j = Finished x \<and> created_now x \<and> pq_key (reqs j) = k)))"

lemma requests_ok_start:
  "wf s \<Longrightarrow> requests_ok s reqs (s, \<lambda>_. Arrived)"
  by (auto simp: requests_ok_def)

lemma answers_as_kept:
  assumes "\<And>k. recorded s k \<noteq> None \<Longrightarrow> recorded s' k = recorded s k" and "answers_as (recorded s k) h x"
  shows "answers_as (recorded s' k) h x"
  using assms(1) [of k] assms(2) by (cases "recorded s k") (auto simp: answers_as_def)

lemma requests_ok_replayed:
  assumes ok: "requests_ok s0 reqs (s, pcs)" and j: "pcs j = Arrived"
    and x: "answers_as (recorded s (pq_key (reqs j))) (pq_hash (reqs j)) x" "\<not> created_now x"
  shows "requests_ok s0 reqs (s, pcs(j := Finished x))"
  using assms unfolding requests_ok_def by (auto split: if_splits) (metis phase.distinct(5))+

lemma requests_ok_missed:
  assumes ok: "requests_ok s0 reqs (s, pcs)" and j: "pcs j = Arrived"
  shows "requests_ok s0 reqs (s, pcs(j := Missed))"
  using assms unfolding requests_ok_def by (auto split: if_splits) (metis phase.distinct(5))+

lemma requests_ok_allocate:
  assumes ok: "requests_ok s0 reqs (s, pcs)" and j: "pcs j = Missed"
    and n: "next_id s = (s', Inr i)"
    and build: "\<And>i. 4 \<le> length i \<Longrightarrow> bundle_ok (pq_build (reqs j) i) \<and> run_ID (rb_Run (pq_build (reqs j) i)) = i"
  shows "requests_ok s0 reqs (s', pcs(j := Allocated i))"
proof -
  have wf: "wf s" using ok by (simp add: requests_ok_def)
  have i: "wf s'" "recorded s' = recorded s" "4 \<le> length i" "\<not> allocated s i" "allocated s' i"
    using next_id_new [OF wf] n by auto
  have ad: "admits s' (pq_build (reqs j) i)"
    using next_id_admits [OF wf n] build [OF i(3)] by blast
  have keep: "allocated s l \<Longrightarrow> allocated s' l" "admits s b \<Longrightarrow> admits s' b" for l b
    using next_id_keeps [OF wf n] by blast+
  have old: "pcs l = Allocated i \<Longrightarrow> False" for l
    using ok i(4) by (auto simp: requests_ok_def)
  show ?thesis
    using ok j i(1,2,5) ad keep old unfolding requests_ok_def
    by (auto split: if_splits) (metis phase.distinct)+
qed

lemma requests_ok_store:
  assumes ok: "requests_ok s0 reqs (s, pcs)" and j: "pcs j = Allocated i"
    and c: "create now (pq_key (reqs j)) (pq_hash (reqs j)) (pq_build (reqs j) i) s = (s', x)"
    and key: "key_ok (pq_key (reqs j))"
    and build: "\<And>l i. allocated s i \<Longrightarrow> run_ID (rb_Run (pq_build (reqs l) i)) = i"
  shows "requests_ok s0 reqs (s', pcs(j := Finished x))"
proof -
  let ?k = "pq_key (reqs j)" and ?b = "pq_build (reqs j) i"
  have wf: "wf s" and ad: "admits s ?b" and al: "allocated s i"
    using ok j by (auto simp: requests_ok_def)
  have s': "wf s'" "answers_as (recorded s' ?k) (pq_hash (reqs j)) x" "created_now x \<longleftrightarrow> recorded s ?k = None"
      "\<forall>l. recorded s' l = (if l = ?k \<and> recorded s ?k = None then Some (pq_hash (reqs j), rb_Run ?b) else recorded s l)"
    using create_answer [OF wf ad key, of now "pq_hash (reqs j)"] c by (auto simp del: split_paired_All)
  have kept: "recorded s l \<noteq> None \<Longrightarrow> recorded s' l = recorded s l" for l
    using s'(4) by auto
  have alloc: "allocated s l \<Longrightarrow> allocated s' l" for l
    by (rule create_keeps [OF wf ad c])
  have admit: "admits s' (pq_build (reqs l) n)" if "pcs l = Allocated n" "l \<noteq> j" for l n
  proof -
    have n: "allocated s n" "admits s (pq_build (reqs l) n)" "n \<noteq> i"
      using ok that j by (auto simp: requests_ok_def)
    show ?thesis
    proof (cases "recorded s ?k")
      case None
      have "run_ID (rb_Run ?b) \<noteq> run_ID (rb_Run (pq_build (reqs l) n))"
        using build [OF n(1), of l] build [OF al, of j] n(3) by simp
      from admits_later [OF wf n(2) this None ad c] show ?thesis .
    next
      case (Some y)
      with create_known [OF wf Some] c n(2) show ?thesis by auto
    qed
  qed
  have start: "recorded s0 l \<noteq> None \<Longrightarrow> recorded s l = recorded s0 l" for l
    using ok by (auto simp: requests_ok_def)
  have fin: "pcs l = Finished y \<Longrightarrow> answers_as (recorded s (pq_key (reqs l))) (pq_hash (reqs l)) y" for l y
    using ok by (auto simp: requests_ok_def)
  have one: "pcs l = Finished y \<Longrightarrow> pcs l' = Finished y' \<Longrightarrow> created_now y \<Longrightarrow> created_now y' \<Longrightarrow>
      pq_key (reqs l) = pq_key (reqs l') \<Longrightarrow> l = l'" for l l' y y'
    using ok unfolding requests_ok_def by blast
  have new: "pcs l = Finished y \<Longrightarrow> created_now y \<Longrightarrow> recorded s0 (pq_key (reqs l)) = None" for l y
    using ok unfolding requests_ok_def by blast
  have made: "recorded s k \<noteq> None \<Longrightarrow> recorded s0 k = None \<Longrightarrow>
      \<exists>l y. pcs l = Finished y \<and> created_now y \<and> pq_key (reqs l) = k" for k
    using ok unfolding requests_ok_def by blast
  have has: "answers_as (recorded s k) h y \<Longrightarrow> recorded s k \<noteq> None" for k h y
    by (cases "recorded s k") (simp_all add: answers_as_def)
  have notdone: "recorded s (pq_key (reqs l)) = None \<Longrightarrow> pcs l = Finished y \<Longrightarrow> False" for l y
    using fin has by blast
  let ?p = "pcs(j := Finished x)"
  show ?thesis
    unfolding requests_ok_def prod.case
  proof (intro conjI)
    show "wf s'" by (rule s'(1))
    show "\<forall>k. recorded s0 k \<noteq> None \<longrightarrow> recorded s' k = recorded s0 k"
      using start kept by metis
    show "\<forall>l n. ?p l = Allocated n \<longrightarrow> allocated s' n \<and> admits s' (pq_build (reqs l) n)"
      using alloc admit ok by (auto simp: requests_ok_def split: if_splits)
    show "\<forall>l l' n. ?p l = Allocated n \<and> ?p l' = Allocated n \<longrightarrow> l = l'"
      using ok by (auto simp: requests_ok_def split: if_splits)
    show "\<forall>l y. ?p l = Finished y \<longrightarrow> answers_as (recorded s' (pq_key (reqs l))) (pq_hash (reqs l)) y"
      using s'(2) fin answers_as_kept [of s s'] kept by (auto split: if_splits)
    show "\<forall>l l' y y'. ?p l = Finished y \<and> ?p l' = Finished y' \<and> created_now y \<and> created_now y' \<and>
        pq_key (reqs l) = pq_key (reqs l') \<longrightarrow> l = l'"
      using one s'(3) notdone by (auto split: if_splits) metis+
    show "\<forall>l y. ?p l = Finished y \<and> created_now y \<longrightarrow> recorded s0 (pq_key (reqs l)) = None"
    proof (intro allI impI)
      fix l y assume l: "?p l = Finished y \<and> created_now y"
      show "recorded s0 (pq_key (reqs l)) = None"
      proof (cases "l = j")
        case True
        with l s'(3) have "recorded s (pq_key (reqs l)) = None" by simp
        then show ?thesis
          using start [of "pq_key (reqs l)"] by (cases "recorded s0 (pq_key (reqs l))") simp_all
      next
        case False
        with l new show ?thesis by simp
      qed
    qed
    show "\<forall>k. recorded s' k \<noteq> None \<and> recorded s0 k = None \<longrightarrow>
        (\<exists>l y. ?p l = Finished y \<and> created_now y \<and> pq_key (reqs l) = k)"
    proof (intro allI impI)
      fix k assume k: "recorded s' k \<noteq> None \<and> recorded s0 k = None"
      show "\<exists>l y. ?p l = Finished y \<and> created_now y \<and> pq_key (reqs l) = k"
      proof (cases "recorded s k")
        case None
        with k s'(4) have "k = ?k" by (auto split: if_splits)
        with None s'(3) show ?thesis by (intro exI [of _ j] exI [of _ x]) simp
      next
        case (Some y)
        then obtain l z where "pcs l = Finished z" "created_now z" "pq_key (reqs l) = k"
          using made k by blast
        moreover from this j have "l \<noteq> j" by auto
        ultimately show ?thesis by (intro exI [of _ l] exI [of _ z]) simp
      qed
    qed
  qed
qed

lemma requests_ok_step:
  assumes "request_step replay create next_id reqs x y" and "requests_ok s0 reqs x"
    and build: "\<And>l i. 4 \<le> length i \<Longrightarrow> bundle_ok (pq_build (reqs l) i) \<and> run_ID (rb_Run (pq_build (reqs l) i)) = i"
    and key: "\<And>l. key_ok (pq_key (reqs l))"
  shows "requests_ok s0 reqs y"
  using assms(1,2)
proof (induction rule: request_step.induct)
  case (replay_hit pcs j s run)
  then have "wf s" by (simp add: requests_ok_def)
  with replay_hit have "idempotent_answer (recorded s (pq_key (reqs j))) (pq_hash (reqs j)) = Inr (run, True)"
    using replay_answer by simp
  then have "answers_as (recorded s (pq_key (reqs j))) (pq_hash (reqs j)) (Inr (run, True))"
    by (auto simp: idempotent_answer_def answers_as_def split: option.splits if_splits)
  with replay_hit show ?case
    by (intro requests_ok_replayed) (simp_all add: created_now_def)
next
  case (replay_conflict pcs j s err)
  then have "wf s" by (simp add: requests_ok_def)
  with replay_conflict have "idempotent_answer (recorded s (pq_key (reqs j))) (pq_hash (reqs j)) = Inl err"
    using replay_answer by simp
  then have "answers_as (recorded s (pq_key (reqs j))) (pq_hash (reqs j)) (Inl err)"
    by (auto simp: idempotent_answer_def answers_as_def split: option.splits if_splits)
  with replay_conflict show ?case
    by (intro requests_ok_replayed) (simp_all add: created_now_def)
next
  case (replay_miss pcs j s run)
  then show ?case by (intro requests_ok_missed)
next
  case (allocate pcs j s s' i)
  then show ?case by (intro requests_ok_allocate [OF _ _ _ build])
next
  case (store_run pcs j i now s s' x)
  show ?case
    by (rule requests_ok_store [OF store_run(3,1,2) key]) (use build allocated_length in blast)
qed

lemma requests_ok_reachable:
  assumes "(request_step replay create next_id reqs)\<^sup>*\<^sup>* (s0, \<lambda>_. Arrived) y" and "wf s0"
    and "\<And>l i. 4 \<le> length i \<Longrightarrow> bundle_ok (pq_build (reqs l) i) \<and> run_ID (rb_Run (pq_build (reqs l) i)) = i"
    and "\<And>l. key_ok (pq_key (reqs l))"
  shows "requests_ok s0 reqs y"
  using assms(1)
proof (induction rule: rtranclp_induct)
  case base
  show ?case by (rule requests_ok_start [OF assms(2)])
next
  case (step y z)
  show ?case by (rule requests_ok_step [OF step(2,3) assms(3,4)])
qed

end

subsection \<open>The in-memory scopes provide the interface\<close>

definition allocated_id :: "MemoryRepository \<Rightarrow> string \<Rightarrow> bool" where
  "allocated_id r i \<longleftrightarrow> (\<exists>n. 0 \<le> n \<and> n < mr_nextRun r \<and> i = runID n)"

lemma length_runID: "4 \<le> length (runID n)"
  by (simp add: runID_def)

lemma NextRunID_spec:
  assumes "memory_ok r"
  shows "\<exists>i. NextRunID r = (r\<lparr>mr_nextRun := mr_nextRun r + 1\<rparr>, Inr i) \<and>
    memory_ok (r\<lparr>mr_nextRun := mr_nextRun r + 1\<rparr>) \<and> i = runID (mr_nextRun r) \<and> 4 \<le> length i \<and>
    \<not> allocated_id r i \<and> allocated_id (r\<lparr>mr_nextRun := mr_nextRun r + 1\<rparr>) i"
proof -
  have "4 \<le> mr_nextRun r"
    using assms runs_okD(9) by (simp add: memory_ok_def)
  then have "allocated_id (r\<lparr>mr_nextRun := mr_nextRun r + 1\<rparr>) (runID (mr_nextRun r))"
    unfolding allocated_id_def by (intro exI [of _ "mr_nextRun r"]) simp
  moreover have "\<not> allocated_id r (runID (mr_nextRun r))"
    using \<open>4 \<le> mr_nextRun r\<close> by (auto simp: allocated_id_def runID_inj)
  ultimately show ?thesis
    using memory_ok_NextRunID [OF assms] by (simp add: NextRunID_def length_runID)
qed

lemma allocated_id_length: "allocated_id r i \<Longrightarrow> 4 \<le> length i"
  by (auto simp: allocated_id_def length_runID)

lemma NextRunID_keeps:
  "NextRunID r = (r', Inr i) \<Longrightarrow>
     (allocated_id r j \<longrightarrow> allocated_id r' j) \<and> (admits_bundle r b \<longrightarrow> admits_bundle r' b)"
  by (fastforce simp: NextRunID_def allocated_id_def admits_bundle_def)

lemma admits_NextRunID:
  "memory_ok r \<Longrightarrow> NextRunID r = (r', Inr i) \<Longrightarrow> bundle_ok b \<Longrightarrow> run_ID (rb_Run b) = i \<Longrightarrow> admits_bundle r' b"
  using admits_next [of r b] by (simp add: NextRunID_def)

lemma recorded_NextRunID [simp]:
  "recorded_public (r\<lparr>mr_nextRun := n\<rparr>) = recorded_public r"
  "recorded_tenant p (r\<lparr>mr_nextRun := n\<rparr>) = recorded_tenant p r"
  by (simp_all add: fun_eq_iff recorded_public_def recorded_tenant_def)

lemma create_nextRun:
  "mr_nextRun (fst (CreateRun now k h b r)) = mr_nextRun r"
  "mr_nextRun (fst (CreateRunForProject now p k h b r)) = mr_nextRun r"
  by (simp_all add: CreateRun_def CreateRunForProject_def Let_def split: option.splits)

interpretation public_service: run_service ReplayRun CreateRun recorded_public admits_bundle
  "\<lambda>_. True" memory_ok NextRunID allocated_id
proof unfold_locales
  fix r
  assume "memory_ok r"
  from NextRunID_spec [OF this]
  show "\<exists>r' i. NextRunID r = (r', Inr i) \<and> memory_ok r' \<and> recorded_public r' = recorded_public r \<and>
      4 \<le> length i \<and> \<not> allocated_id r i \<and> allocated_id r' i" by auto
next
  fix r now k h b r' x j
  assume "CreateRun now k h b r = (r', x)" and "allocated_id r j"
  then show "allocated_id r' j"
    using create_nextRun(1) [of now k h b r] by (simp add: allocated_id_def)
qed (use admits_NextRunID NextRunID_keeps allocated_id_length in blast)+

interpretation tenant_service: run_service "ReplayRunForProject p"
  "\<lambda>now. CreateRunForProject now p" "recorded_tenant p" admits_bundle digest_ok memory_ok
  NextRunID allocated_id
  for p
proof unfold_locales
  fix r
  assume "memory_ok r"
  from NextRunID_spec [OF this]
  show "\<exists>r' i. NextRunID r = (r', Inr i) \<and> memory_ok r' \<and> recorded_tenant p r' = recorded_tenant p r \<and>
      4 \<le> length i \<and> \<not> allocated_id r i \<and> allocated_id r' i" by auto
next
  fix r now k h b r' x j
  assume "CreateRunForProject now p k h b r = (r', x)" and "allocated_id r j"
  then show "allocated_id r' j"
    using create_nextRun(2) [of now p k h b r] by (simp add: allocated_id_def)
qed (use admits_NextRunID NextRunID_keeps allocated_id_length in blast)+

subsection \<open>Properties of the service\<close>

lemma memory_port_simps [simp]:
  "r_ReplayRun (memory_port C it) = (\<lambda>k h. reads (ReplayRun k h))"
  "r_CreateRun (memory_port C it) = CreateRun" "r_NextRunID (memory_port C it) = NextRunID"
  "r_Tenant (memory_port C it) = Some (memory_tenant it)"
  "t_ReplayRunForProject (memory_tenant it) = (\<lambda>p k h. reads (ReplayRunForProject p k h))"
  "t_CreateRunForProject (memory_tenant it) = CreateRunForProject"
  by (simp_all add: memory_port_def memory_tenant_def)

lemma createRun_public_scope:
  assumes "valid_request key sid fault"
  shows "Service_CreateRun C (memory_port C it) now sid fault key body r =
    create_or_replay (\<lambda>k h. reads (ReplayRun k h)) (CreateRun now) NextRunID
      (the (Service_Scenario sid)) (effective_fault fault) (sha256 C key) (sha256 C body) r"
  using assms
  by (elim valid_requestE) (simp add: Service_CreateRun_def createRun_def effective_fault_def [symmetric] Let_def)

lemma createRun_tenant_scope:
  assumes "valid_request key sid fault" and "p \<noteq> []"
  shows "Service_CreateRunForProject C (memory_port C it) now p sid fault key body r =
    create_or_replay (\<lambda>k h. reads (ReplayRunForProject p k h)) (CreateRunForProject now p) NextRunID
      (the (Service_Scenario sid)) (effective_fault fault) (sha256 C key) (sha256 C body) r"
  using assms
  by (elim valid_requestE)
    (simp add: Service_CreateRunForProject_def createRun_def effective_fault_def [symmetric] Let_def)

text \<open>
  Creating a public run does what it promises on every branch, over the in-memory
  repository: it never panics; a missing key, an unknown scenario or an unsupported fault is
  refused with its error and changes nothing; a key seen before gives its run back, or a
  conflict when the request differs, and changes nothing; a new key creates one consistent
  run of the scenario and fault under a newly allocated identifier and records it.
\<close>

theorem create_run_public:
  assumes "memory_ok r"
  shows "\<exists>r' x. Service_CreateRun C (memory_port C it) now sid fault key body r = Some (r', x) \<and>
    memory_ok r' \<and> creation_outcome allocated_id sid fault key (sha256 C key) (sha256 C body)
      (recorded_public r) (recorded_public r') r r' x"
proof (cases "valid_request key sid fault")
  case False
  from createRun_rejects [OF this, of C "memory_port C it" now "[]" body r] assms
  show ?thesis unfolding Service_CreateRun_def by blast
next
  case True
  from public_service.create_outcome [OF assms TrueI True]
  show ?thesis unfolding createRun_public_scope [OF True] .
qed

text \<open>
  C2. The same holds in a project: over the in-memory repository a request without a project is
  refused as forbidden and changes nothing; otherwise the run is created, or replayed, or refused
  on exactly the conditions of a public run, from the records of that project alone.
\<close>

theorem create_run_tenant:
  assumes "memory_ok r" and "digest_ok (sha256 C key)"
  shows "\<exists>r' x. Service_CreateRunForProject C (memory_port C it) now p sid fault key body r = Some (r', x) \<and>
    memory_ok r' \<and>
    (if p = [] then r' = r \<and> (\<exists>m. x = Inl (Forbidden ''project_required'' m))
     else creation_outcome allocated_id sid fault key (sha256 C key) (sha256 C body)
       (recorded_tenant p r) (recorded_tenant p r') r r' x)"
proof (cases "p = []")
  case True
  with assms(1) show ?thesis by (auto simp: Service_CreateRunForProject_def)
next
  case p: False
  show ?thesis
  proof (cases "valid_request key sid fault")
    case False
    from createRun_rejects [OF this, of C "memory_port C it" now p body r] assms
    show ?thesis
      unfolding Service_CreateRunForProject_def if_not_P [OF p] by blast
  next
    case True
    from tenant_service.create_outcome [OF assms True]
    show ?thesis
      unfolding createRun_tenant_scope [OF True p] if_not_P [OF p] .
  qed
qed

definition wide_crypto :: crypto where
  "wide_crypto = \<lparr>sha256 = \<lambda>m. take 32 (m @ replicate 32 CHR ''.''), hmac_sha256 = \<lambda>k m. k @ m\<rparr>"

definition some_iteration :: iteration where
  "some_iteration = \<lparr>it_runs = \<lambda>_. [], it_connections = \<lambda>_. [], it_outbox = \<lambda>_. []\<rparr>"

lemma valid_sample: "valid_request ''key'' ''checkout-duplicate'' FaultDuplicate"
  by (simp add: valid_request_def Service_Scenario_def seededScenarios_def supportsFault_def
      effective_fault_def)

theorem create_run_public_witness:
  "\<exists>r' run. Service_CreateRun wide_crypto (memory_port wide_crypto some_iteration) 0
      ''checkout-duplicate'' FaultDuplicate ''key'' ''body'' NewMemoryRepository =
        Some (r', Inr (run, False)) \<and> memory_ok r'"
  using create_run_public [OF memory_ok_new, of wide_crypto some_iteration 0 "''checkout-duplicate''"
      FaultDuplicate "''key''" "''body''"] valid_sample
  by (elim valid_requestE) (auto simp: creation_outcome_def)

theorem create_run_tenant_witness:
  "(\<exists>r' run. Service_CreateRunForProject wide_crypto (memory_port wide_crypto some_iteration) 0 ''p''
      ''checkout-duplicate'' FaultDuplicate ''key'' ''body'' NewMemoryRepository =
        Some (r', Inr (run, False)) \<and> memory_ok r') \<and>
   (\<exists>m. Service_CreateRunForProject wide_crypto (memory_port wide_crypto some_iteration) 0 []
      ''checkout-duplicate'' FaultDuplicate ''key'' ''body'' NewMemoryRepository =
        Some (NewMemoryRepository, Inl (Forbidden ''project_required'' m)))"
  using create_run_tenant [OF memory_ok_new, of wide_crypto "''key''" some_iteration 0 "''p''"
      "''checkout-duplicate''" FaultDuplicate "''body''"]
    create_run_tenant [OF memory_ok_new, of wide_crypto "''key''" some_iteration 0 "[]"
      "''checkout-duplicate''" FaultDuplicate "''body''"] valid_sample
  by (elim valid_requestE) (auto simp: creation_outcome_def digest_ok_def wide_crypto_def)

subsection \<open>Concurrent requests to the service\<close>

text \<open>A validated request of the service as the concurrent model sees it.\<close>

definition service_request :: "crypto \<Rightarrow> Scenario \<Rightarrow> Fault \<Rightarrow> string \<Rightarrow> string \<Rightarrow> pending" where
  "service_request C scn fault key body =
     \<lparr>pq_key = sha256 C key, pq_hash = sha256 C body,
      pq_build = \<lambda>i. the (buildRunBundle i (numberFromRunID i) scn fault
        (run_start (numberFromRunID i)))\<rparr>"

lemma service_request_build:
  assumes "4 \<le> length i"
  shows "bundle_ok (pq_build (service_request C scn fault key body) i) \<and>
    run_ID (rb_Run (pq_build (service_request C scn fault key body) i)) = i"
  using buildRunBundle_facts [OF assms, of "numberFromRunID i" scn fault "run_start (numberFromRunID i)"]
  by (elim exE conjE) (simp add: service_request_def bundle_consistent_ok)

text \<open>
  C1. Concurrent requests create one run per key: let any number of public requests interleave
  their replays, allocations and creations in any way.  Whenever a request has finished, its
  answer is the run recorded for its key or, if its body differs from the first, the
  conflict; two requests that share a key never both create; a key recorded since the start
  was created by exactly one of them; and the repository is well formed.
\<close>

theorem concurrent_creation:
  assumes "memory_ok r"
    and "(request_step ReplayRun CreateRun NextRunID
            (\<lambda>j. service_request C (scn j) (fault j) (key j) (body j)))\<^sup>*\<^sup>* (r, \<lambda>_. Arrived) (r', pcs)"
  shows "memory_ok r' \<and>
    (\<forall>j x. pcs j = Finished x \<longrightarrow>
       answers_as (recorded_public r' (sha256 C (key j))) (sha256 C (body j)) x) \<and>
    (\<forall>i j x y. pcs i = Finished x \<and> pcs j = Finished y \<and> created_now x \<and> created_now y \<and>
       sha256 C (key i) = sha256 C (key j) \<longrightarrow> i = j) \<and>
    (\<forall>k. recorded_public r' k \<noteq> None \<and> recorded_public r k = None \<longrightarrow>
       (\<exists>j x. pcs j = Finished x \<and> created_now x \<and> sha256 C (key j) = k))"
  using public_service.requests_ok_reachable [OF assms(2,1) service_request_build]
  by (simp add: public_service.requests_ok_def service_request_def)

text \<open>
  Concurrent requests of one project create one run per key in the same sense.
\<close>

theorem concurrent_creation_tenant:
  assumes "memory_ok r" and "\<And>j. digest_ok (sha256 C (key j))"
    and "(request_step (ReplayRunForProject p) (\<lambda>now. CreateRunForProject now p) NextRunID
            (\<lambda>j. service_request C (scn j) (fault j) (key j) (body j)))\<^sup>*\<^sup>* (r, \<lambda>_. Arrived) (r', pcs)"
  shows "memory_ok r' \<and>
    (\<forall>j x. pcs j = Finished x \<longrightarrow>
       answers_as (recorded_tenant p r' (sha256 C (key j))) (sha256 C (body j)) x) \<and>
    (\<forall>i j x y. pcs i = Finished x \<and> pcs j = Finished y \<and> created_now x \<and> created_now y \<and>
       sha256 C (key i) = sha256 C (key j) \<longrightarrow> i = j)"
proof -
  have key: "digest_ok (pq_key (service_request C (scn j) (fault j) (key j) (body j)))" for j
    using assms(2) by (simp add: service_request_def)
  show ?thesis
    using tenant_service.requests_ok_reachable [OF assms(3,1) service_request_build key]
    by (simp add: tenant_service.requests_ok_def service_request_def)
qed

text \<open>One request that runs from its arrival to its end, for the witnesses.\<close>

lemma first_steps:
  assumes "replay (pq_key (reqs 0)) (pq_hash (reqs 0)) s = Inr (zero_Run, False)"
    and "next_id s = (s1, Inr i)"
    and "create 0 (pq_key (reqs 0)) (pq_hash (reqs 0)) (pq_build (reqs 0) i) s1 = (s2, x)"
  shows "\<exists>pcs. (request_step replay create next_id reqs)\<^sup>*\<^sup>* (s, \<lambda>_. Arrived) (s2, pcs) \<and> pcs 0 = Finished x"
proof -
  let ?step = "request_step replay create next_id reqs"
  let ?p1 = "(\<lambda>_. Arrived)(0 := Missed)"
  let ?p2 = "?p1(0 := Allocated i)"
  have s1: "?step (s, \<lambda>_. Arrived) (s, ?p1)"
    by (rule replay_miss [where replay = replay and reqs = reqs and j = 0 and s = s, OF _ assms(1)]) simp
  have s2: "?step (s, ?p1) (s1, ?p2)"
    by (rule allocate [where next_id = next_id and j = 0 and s = s, OF _ assms(2)]) simp
  have s3: "?step (s1, ?p2) (s2, ?p2(0 := Finished x))"
    by (rule store_run [where create = create and reqs = reqs and j = 0 and i = i and now = 0 and s = s1, OF _ assms(3)]) simp
  have "?step\<^sup>*\<^sup>* (s, \<lambda>_. Arrived) (s2, ?p2(0 := Finished x))"
    by (rule converse_rtranclp_into_rtranclp [where r = ?step, OF s1],
        rule converse_rtranclp_into_rtranclp [where r = ?step, OF s2],
        rule r_into_rtranclp [where r = ?step, OF s3])
  then show ?thesis by fastforce
qed

theorem concurrent_creation_witness:
  "\<exists>r' pcs x. (request_step ReplayRun CreateRun NextRunID
      (\<lambda>j. service_request wide_crypto (hd seededScenarios) FaultDuplicate ''key'' ''body''))\<^sup>*\<^sup>*
        (NewMemoryRepository, \<lambda>_. Arrived) (r', pcs) \<and> pcs 0 = Finished x \<and>
    answers_as (recorded_public r' (sha256 wide_crypto ''key'')) (sha256 wide_crypto ''body'') x"
proof -
  define reqs where "reqs = (\<lambda>j::nat. service_request wide_crypto (hd seededScenarios) FaultDuplicate ''key'' ''body'')"
  have miss: "ReplayRun (pq_key (reqs 0)) (pq_hash (reqs 0)) NewMemoryRepository = Inr (zero_Run, False)"
    by (simp add: ReplayRun_def NewMemoryRepository_def)
  obtain s1 i where next1: "NextRunID NewMemoryRepository = (s1, Inr i)"
    by (simp add: NextRunID_def)
  obtain r' x where create: "CreateRun 0 (pq_key (reqs 0)) (pq_hash (reqs 0)) (pq_build (reqs 0) i) s1 = (r', x)"
    by fastforce
  obtain pcs where steps: "(request_step ReplayRun CreateRun NextRunID reqs)\<^sup>*\<^sup>*
        (NewMemoryRepository, \<lambda>_. Arrived) (r', pcs)" "pcs 0 = Finished x"
    using first_steps [of ReplayRun reqs NewMemoryRepository NextRunID s1 i CreateRun,
        OF miss next1 create] by blast
  from concurrent_creation [OF memory_ok_new steps(1) [unfolded reqs_def]] steps(2)
  have "answers_as (recorded_public r' (sha256 wide_crypto ''key'')) (sha256 wide_crypto ''body'') x"
    by blast
  with steps show ?thesis unfolding reqs_def by blast
qed

theorem concurrent_creation_tenant_witness:
  "\<exists>r' pcs x. (request_step (ReplayRunForProject ''p'') (\<lambda>now. CreateRunForProject now ''p'') NextRunID
      (\<lambda>j. service_request wide_crypto (hd seededScenarios) FaultDuplicate ''key'' ''body''))\<^sup>*\<^sup>*
        (NewMemoryRepository, \<lambda>_. Arrived) (r', pcs) \<and> pcs 0 = Finished x \<and>
    answers_as (recorded_tenant ''p'' r' (sha256 wide_crypto ''key'')) (sha256 wide_crypto ''body'') x"
proof -
  define reqs where "reqs = (\<lambda>j::nat. service_request wide_crypto (hd seededScenarios) FaultDuplicate ''key'' ''body'')"
  have key: "digest_ok (sha256 wide_crypto ''key'')"
    by (simp add: digest_ok_def wide_crypto_def)
  have miss: "ReplayRunForProject ''p'' (pq_key (reqs 0)) (pq_hash (reqs 0)) NewMemoryRepository =
      Inr (zero_Run, False)"
    by (simp add: ReplayRunForProject_def NewMemoryRepository_def)
  obtain s1 i where next1: "NextRunID NewMemoryRepository = (s1, Inr i)"
    by (simp add: NextRunID_def)
  obtain r' x where create: "CreateRunForProject 0 ''p'' (pq_key (reqs 0)) (pq_hash (reqs 0)) (pq_build (reqs 0) i) s1 = (r', x)"
    by fastforce
  obtain pcs where steps: "(request_step (ReplayRunForProject ''p'') (\<lambda>now. CreateRunForProject now ''p'') NextRunID reqs)\<^sup>*\<^sup>*
        (NewMemoryRepository, \<lambda>_. Arrived) (r', pcs)" "pcs 0 = Finished x"
    using first_steps [of "ReplayRunForProject ''p''" reqs NewMemoryRepository NextRunID s1 i
        "\<lambda>now. CreateRunForProject now ''p''", OF miss next1 create] by blast
  from concurrent_creation_tenant [OF memory_ok_new key steps(1) [unfolded reqs_def]] steps(2)
  have "answers_as (recorded_tenant ''p'' r' (sha256 wide_crypto ''key'')) (sha256 wide_crypto ''body'') x"
    by blast
  with steps show ?thesis unfolding reqs_def by blast
qed

end
