(* ===== verification/StripeSpec.thy ===== *)
theory StripeSpec
  imports StripeService ServiceSpec
begin

text \<open>
  What the Stripe service promises: identifiers match the pattern that guards them, a
  validated connection is stored encrypted and opens to the sandbox key it was made from, and a
  payment run calls Stripe at most once, only with a sandbox key, and is stored as one
  consistent run that names the PaymentIntent.
\<close>

subsection \<open>Identifiers\<close>

lemma hex_digit_class: "d < 16 \<Longrightarrow> hex_digit d \<in> set hex_class"
proof -
  have "\<forall>d \<in> set [0..<16]. hex_digit d \<in> set hex_class" by code_simp
  then show "d < 16 \<Longrightarrow> hex_digit d \<in> set hex_class" by simp
qed

lemma hex_encode_class: "list_all2 (\<lambda>cls c. c \<in> set cls) (replicate (2 * length bs) hex_class) (hex_encode bs)"
proof -
  have "c \<in> set hex_class" if "c \<in> set (hex_encode bs)" for c
    using that by (auto simp: hex_encode_def hex_byte_def less_mult_imp_div_less intro!: hex_digit_class)
  then show ?thesis
    by (simp add: list_all2_conv_all_nth)
qed

lemma mask_bytes: "n AND 0x0F = n mod (16::nat)" "n AND 0x3F = n mod (64::nat)"
proof -
  have "0x0F = (mask 4 :: nat)" "0x3F = (mask 6 :: nat)" by (simp_all add: mask_eq_exp_minus_1)
  then show "n AND 0x0F = n mod (16::nat)" "n AND 0x3F = n mod (64::nat)"
    by (simp_all only: take_bit_eq_mask [symmetric] take_bit_eq_mod) simp_all
qed

lemma set_bits: "m < 16 \<Longrightarrow> m OR 0x40 = m + (64::nat)" "m < 64 \<Longrightarrow> m OR 0x80 = m + (128::nat)"
proof -
  have "\<forall>m \<in> set [0..<16]. m OR 0x40 = m + (64::nat)" "\<forall>m \<in> set [0..<64]. m OR 0x80 = m + (128::nat)"
    by code_simp+
  then show "m < 16 \<Longrightarrow> m OR 0x40 = m + (64::nat)" "m < 64 \<Longrightarrow> m OR 0x80 = m + (128::nat)"
    by simp_all
qed

lemma version_byte:
  "\<exists>d < 16. hex_byte (char_of ((of_char c AND 0x0F) OR 0x40 :: nat)) = [CHR ''4'', hex_digit d]"
proof -
  define d :: nat where "d = of_char c mod 16"
  have d: "d < 16" by (simp add: d_def)
  have "(d + 64) div 16 = 4" "(d + 64) mod 16 = d"
    using d div_mult_self1 [of 16 d 4] mod_mult_self1 [of d 4 16] by simp_all
  then have "hex_byte (char_of (d + 64)) = [hex_digit 4, hex_digit d]"
    using d by (simp add: hex_byte_def)
  moreover have "(of_char c AND 0x0F) OR 0x40 = d + (64::nat)"
    using d by (simp add: mask_bytes set_bits d_def)
  ultimately show ?thesis
    using d by (intro exI [of _ d]) (simp add: hex_digit_def)
qed

lemma variant_byte:
  "\<exists>x d. x \<in> set ''89ab'' \<and> d < 16 \<and> hex_byte (char_of ((of_char c AND 0x3F) OR 0x80 :: nat)) = [x, hex_digit d]"
proof -
  define m :: nat where "m = of_char c mod 64"
  have m: "m < 64" by (simp add: m_def)
  have "(m + 128) div 16 = 8 + m div 16" "(m + 128) mod 16 = m mod 16"
    using div_mult_self1 [of 16 m 8] mod_mult_self1 [of m 8 16] by simp_all
  then have "hex_byte (char_of (m + 128)) = [hex_digit (8 + m div 16), hex_digit (m mod 16)]"
    using m by (simp add: hex_byte_def)
  moreover have "(of_char c AND 0x3F) OR 0x80 = m + (128::nat)"
    using m by (simp add: mask_bytes set_bits m_def)
  moreover have "hex_digit (8 + m div 16) \<in> set ''89ab''"
  proof -
    have "\<forall>q \<in> set [0..<4]. hex_digit (8 + q) \<in> set ''89ab''" by code_simp
    moreover have "m div 16 < 4" using m by (simp add: less_mult_imp_div_less)
    ultimately show ?thesis by simp
  qed
  ultimately show ?thesis
    by (intro exI [of _ "hex_digit (8 + m div 16)"] exI [of _ "m mod 16"]) simp
qed

lemma uuid_facts:
  assumes "random_ok rnd" and "newUUID rnd = Inr i"
  shows "uuidPattern i \<and> length i = 36 \<and> i ! 14 = CHR ''4''"
proof -
  from assms(2) obtain v0 where v0: "rnd 16 = Inr v0"
    by (auto simp: newUUID_def split: sum.splits)
  with assms(1) have len: "length v0 = 16" by (simp add: random_ok_def)
  define b6 where "b6 = char_of ((of_char (v0 ! 6) AND 0x0F) OR 0x40 :: nat)"
  define b8 where "b8 = char_of ((of_char (v0 ! 8) AND 0x3F) OR 0x80 :: nat)"
  obtain d6 where d6: "hex_byte b6 = [CHR ''4'', hex_digit d6]" "d6 < 16"
    using version_byte [of "v0 ! 6"] unfolding b6_def by blast
  obtain x8 d8 where d8: "hex_byte b8 = [x8, hex_digit d8]" "x8 \<in> set ''89ab''" "d8 < 16"
    using variant_byte [of "v0 ! 8"] unfolding b8_def by blast
  define v where "v = v0[6 := b6, 8 := b8]"
  have lv: "length v = 16" by (simp add: v_def len)
  have v8: "(v0[6 := b6]) ! 8 = v0 ! 8" by simp
  have i: "i = hex_encode (take 4 v) @ ''-'' @ hex_encode (take 2 (drop 4 v)) @ ''-'' @
      hex_encode (take 2 (drop 6 v)) @ ''-'' @ hex_encode (take 2 (drop 8 v)) @ ''-'' @
      hex_encode (drop 10 v)"
    using assms(2) unfolding newUUID_def v0 sum.case Let_def v_def b6_def b8_def v8 [unfolded b6_def] by simp
  have t6: "take 2 (drop 6 v) = [b6, v ! 7]" and t8: "take 2 (drop 8 v) = [b8, v ! 9]"
    using lv by (auto simp: list_eq_iff_nth_eq nth_Cons' v_def len numeral_2_eq_2 less_Suc_eq)
  have h6: "hex_encode [b6, v ! 7] = CHR ''4'' # hex_digit d6 # hex_encode [v ! 7]"
    and h8: "hex_encode [b8, v ! 9] = x8 # hex_digit d8 # hex_encode [v ! 9]"
    by (simp_all add: hex_encode_def d6(1) d8(1))
  let ?P = "list_all2 (\<lambda>cls c. c \<in> set cls)"
  have a1: "?P (replicate 8 hex_class) (hex_encode (take 4 v))"
    and a2: "?P (replicate 4 hex_class) (hex_encode (take 2 (drop 4 v)))"
    and a5: "?P (replicate 12 hex_class) (hex_encode (drop 10 v))"
    using hex_encode_class [of "take 4 v"] hex_encode_class [of "take 2 (drop 4 v)"]
      hex_encode_class [of "drop 10 v"] by (simp_all add: lv)
  have two: "?P (replicate 2 hex_class) (hex_encode [x])" for x
    using hex_encode_class [of "[x]"] by simp
  have a3: "?P (''12345678'' # replicate 3 hex_class) (hex_encode [b6, v ! 7])"
    using two [of "v ! 7"] hex_digit_class [OF d6(2)] unfolding h6 by (simp add: numeral_eq_Suc)
  have a4: "?P (''89ab'' # replicate 3 hex_class) (hex_encode [b8, v ! 9])"
    using two [of "v ! 9"] hex_digit_class [OF d8(3)] d8(2) unfolding h8 by (simp add: numeral_eq_Suc)
  have dash: "?P [''-''] ''-''" by simp
  have classes: "uuid_classes = replicate 8 hex_class @ [''-''] @ replicate 4 hex_class @ [''-''] @
      (''12345678'' # replicate 3 hex_class) @ [''-''] @ (''89ab'' # replicate 3 hex_class) @ [''-''] @
      replicate 12 hex_class"
    by (simp add: uuid_classes_def)
  have pat: "uuidPattern i"
    unfolding uuidPattern_def classes i t6 t8
    by (intro list_all2_appendI a1 a2 a3 a4 a5 dash)
  moreover from this have "length i = 36"
    unfolding uuidPattern_def by (drule_tac list_all2_lengthD) (simp add: uuid_classes_def)
  moreover have "i ! 14 = CHR ''4''"
    unfolding i t6 h6 by (simp add: nth_append lv)
  ultimately show ?thesis by simp
qed

lemma uuid_pattern: "random_ok rnd \<Longrightarrow> newUUID rnd = Inr i \<Longrightarrow> uuidPattern i"
  using uuid_facts by blast

text \<open>
  Every identifier the service draws is a UUID of version 4: it has the shape that
  \<^verbatim>\<open>createPaymentIntentRun\<close> requires of a connection identifier, is 36 bytes long
  and its version digit is 4.
\<close>

theorem newUUID_pattern:
  assumes "random_ok rnd" and "newUUID rnd = Inr i"
  shows "uuidPattern i \<and> length i = 36 \<and> i ! 14 = CHR ''4''"
  by (rule uuid_facts [OF assms])

theorem newUUID_pattern_witness:
  "\<exists>i. newUUID zero_random = Inr i \<and> uuidPattern i"
proof -
  obtain i where "newUUID zero_random = Inr i"
    by (simp add: newUUID_def zero_random_def Let_def)
  with newUUID_pattern [OF random_ok_zero this] show ?thesis by blast
qed

subsection \<open>Connections\<close>

lemma TrimSpace_idem [simp]: "TrimSpace (TrimSpace s) = TrimSpace s"
proof -
  define u where "u = trim_front space_encodings s"
  define v where "v = trim_front (map rev space_encodings) (rev u)"
  obtain w where w: "rev u = w @ v"
    using trim_front_suffix [of "rev u" "map rev space_encodings"] unfolding v_def by blast
  then have u: "u = rev v @ rev w"
    by (metis rev_append rev_rev_ident)
  have "trim_front space_encodings (rev v) = rev v"
  proof (rule trim_front_fixed)
    fix e assume e: "e \<in> set space_encodings" "e \<noteq> []"
    show "\<not> HasPrefix (rev v) e"
    proof
      assume "HasPrefix (rev v) e"
      then have pre: "HasPrefix u e" by (auto simp: u HasPrefix_decomp)
      have none: "find (\<lambda>w. w \<noteq> [] \<and> HasPrefix u w) space_encodings = None"
      proof (rule ccontr)
        assume "find (\<lambda>w. w \<noteq> [] \<and> HasPrefix u w) space_encodings \<noteq> None"
        then obtain x where x: "find (\<lambda>w. w \<noteq> [] \<and> HasPrefix u w) space_encodings = Some x" by blast
        then have ne: "x \<noteq> []" "HasPrefix u x" by (auto simp: find_Some_iff)
        have "u = trim_front space_encodings (drop (length x) u)"
          using trim_front_idem [of space_encodings s] trim_front.simps [of space_encodings u] x
          by (simp add: u_def [symmetric])
        then have "length u \<le> length (drop (length x) u)"
          using trim_front_suffix [of "drop (length x) u" space_encodings] by (metis length_append le_add2)
        with ne show False by (auto simp: HasPrefix_decomp)
      qed
      with pre e show False by (auto simp: find_None_iff)
    qed
  qed
  then have "TrimSpace (rev v) = rev (trim_front (map rev space_encodings) v)"
    by (simp add: TrimSpace_def)
  also have "trim_front (map rev space_encodings) v = v"
    by (simp add: v_def trim_front_idem)
  finally show ?thesis
    by (simp add: TrimSpace_def u_def v_def)
qed

text \<open>
  Independently of the code: which keys are sandbox keys (after trimming, a secret or restricted test
  key), and what Stripe is asked to create for a request.
\<close>

definition sandbox_key :: "string \<Rightarrow> bool" where
  "sandbox_key secret \<longleftrightarrow> take 8 (TrimSpace secret) \<in> {''sk_test_'', ''rk_test_''}"

definition sent_correlation :: "crypto \<Rightarrow> string \<Rightarrow> string" where
  "sent_correlation C key = ''plcorr_'' @ hex_encode (take 12 (sha256 C (''paritylab:stripe:'' @ key)))"

definition charged_intent :: "crypto \<Rightarrow> int \<Rightarrow> string \<Rightarrow> string \<Rightarrow> StripePaymentIntentParams" where
  "charged_intent C amt cur key =
     \<lparr>pp_AmountMinor = amt, pp_Currency = cur,
      pp_IdempotencyKey = ''pl_'' @ hex_encode (sha256 C (''paritylab:stripe:'' @ key)),
      pp_Metadata = [''paritylab_correlation_id'' \<mapsto> sent_correlation C key,
                     ''paritylab_scenario_id'' \<mapsto> ''checkout-duplicate'']\<rparr>"

lemma sandbox_key_code: "sandbox_key secret \<longleftrightarrow> ValidateSandboxSecret secret = None"
proof -
  have "take 8 s = p \<longleftrightarrow> HasPrefix s p" if "length p = 8" for s p
    using that by (simp add: HasPrefix_def)
  then have pre: "take 8 (TrimSpace secret) = ''sk_test_'' \<longleftrightarrow> HasPrefix (TrimSpace secret) ''sk_test_''"
      "take 8 (TrimSpace secret) = ''rk_test_'' \<longleftrightarrow> HasPrefix (TrimSpace secret) ''rk_test_''"
    by simp_all
  show ?thesis
    unfolding sandbox_key_def insert_iff pre
    by (auto simp: ValidateSandboxSecret_def HasPrefix_decomp Let_def)
qed

lemma sent_correlation_code: "sent_correlation C key = stripe_correlation C key"
  by (simp add: sent_correlation_def stripe_correlation_def stripe_digest_def)

lemma charged_intent_code: "charged_intent C amt cur key = intent_params C amt cur key"
  by (simp add: charged_intent_def intent_params_def sent_correlation_code stripe_digest_def)

text \<open>
  Whether a connection may be charged, and with which key: the decision of
  \<^verbatim>\<open>createPaymentIntentRun\<close> between the replay and the allocation.
\<close>

definition payment_admission ::
  "aead \<Rightarrow> Cipher \<Rightarrow> StripeConnection option \<Rightarrow> string \<Rightarrow> Error + string" where
  "payment_admission A c conn cid =
     (case (if uuidPattern cid then conn else None) of
        None \<Rightarrow> Inl (NotFound ''stripe_connection'' cid)
      | Some connection \<Rightarrow>
          if sc_Status connection \<noteq> ''connected'' then Inl (NotFound ''stripe_connection'' cid)
          else case Decrypt A c (sc_SecretCiphertext connection) (sc_StripeAccountID connection) of
            Inl e \<Rightarrow> Inl (Internal ''connection_decryption_failed''
              (Msg ''The Stripe connection could not be decrypted.''))
          | Inr secret \<Rightarrow>
              if sandbox_key secret then Inr secret
              else Inl (Invalid ''sandbox_key_required''
                (Msg ''The stored Stripe connection is not a sandbox key.'') ''connection_id''))"

lemmas payment_admission_code = payment_admission_def [unfolded sandbox_key_code]

lemma memory_port_connections [simp]:
  "r_StripeConnection (memory_port C it) = (\<lambda>i. reads (StripeConnection_get i))"
  "t_StripeConnectionForProject (memory_tenant it) = (\<lambda>p i. reads (StripeConnectionForProject p i))"
  "t_SaveStripeConnectionForProject (memory_tenant it) =
     (\<lambda>p c r. SaveStripeConnectionForProject (it_connections it (mr_connections r)) p c r)"
  by (simp_all add: memory_port_def memory_tenant_def)

lemma validateConnection_cases:
  assumes "validateConnection A S now ub nb p secret name (s, g) = ((s', g'), x)" and "p \<noteq> []"
    and "ss_gateway S = Some gw" and "ss_cipher S = Some c" and "r_Tenant (ss_repo S) = Some T"
  obtains e where "x = Inl e" "ValidateSandboxSecret secret \<noteq> None" "s' = s" "g' = g"
  | e where "x = Inl e" "ValidateSandboxSecret secret = None"
      "s' = s \<or> (\<exists>y i. t_SaveStripeConnectionForProject T p y s = (s', Inl i))"
  | accountID i t y where "x = Inr y" "ValidateSandboxSecret secret = None"
      "gw_ValidateAccount gw (TrimSpace secret) g = (g', Inr accountID)" "HasPrefix accountID ''acct_''"
      "newUUID ub = Inr i" "Encrypt A c nb (TrimSpace secret) accountID = Inr t"
      "t_SaveStripeConnectionForProject T p
         \<lparr>sc_ID = i, sc_StripeAccountID = accountID,
          sc_SandboxName = TrimSpace (if TrimSpace name = [] then ''Stripe Sandbox'' else name),
          sc_Status = ''connected'', sc_CreatedAt = now, sc_SecretCiphertext = t,
          sc_SecretEncryptionKeyID = 1\<rparr> s = (s', Inr y)"
  using assms
  by (auto simp: validateConnection_def Let_def split: option.splits sum.splits prod.splits if_splits)
    blast+

lemma SaveStripeConnectionForProject_total:
  "\<exists>r' saved. SaveStripeConnectionForProject ids p y r = (r', Inr saved)"
  by (simp add: SaveStripeConnectionForProject_def Let_def)

lemma SaveStripeConnectionForProject_frame:
  assumes "SaveStripeConnectionForProject ids p y r = (r', x)"
  shows "\<exists>m1 m2. r' = r\<lparr>mr_connections := m1, mr_projectByConnection := m2\<rparr>"
    and "x = Inr saved \<Longrightarrow> \<exists>i t. saved = y\<lparr>sc_ID := i, sc_CreatedAt := t\<rparr>"
proof -
  show "\<exists>m1 m2. r' = r\<lparr>mr_connections := m1, mr_projectByConnection := m2\<rparr>"
    using assms by (auto simp: SaveStripeConnectionForProject_def Let_def)
  have "\<exists>i t. adopt_identity same m ids c = c\<lparr>sc_ID := i, sc_CreatedAt := t\<rparr>" for same m c
  proof (induction ids rule: rev_induct)
    case Nil
    show ?case
      by (intro exI [of _ "sc_ID c"] exI [of _ "sc_CreatedAt c"]) (simp add: adopt_identity_def)
  next
    case (snoc j js)
    then obtain i t where "adopt_identity same m js c = c\<lparr>sc_ID := i, sc_CreatedAt := t\<rparr>" by blast
    then show ?case
      by (auto simp: adopt_identity_def Let_def)
  qed
  from this [of "\<lambda>i existing. get0 [] (mr_projectByConnection r) i = p \<and>
      sc_StripeAccountID existing = sc_StripeAccountID y" "mr_connections r" y]
  show "x = Inr saved \<Longrightarrow> \<exists>i t. saved = y\<lparr>sc_ID := i, sc_CreatedAt := t\<rparr>"
    using assms by (auto simp: SaveStripeConnectionForProject_def Let_def)
qed

text \<open>
  Validating a connection for a project keeps the key safe and makes it usable.  A key that
  is not a sandbox key is refused before Stripe or the repository are touched, and no failure changes
  the repository.  After a success Stripe was asked once, with the trimmed key, and named the account of
  the connection; the repository holds the connection for the project alone, as the only one of that
  account, with the runs untouched; its ciphertext opens, under the account, to exactly the
  trimmed sandbox key, and when the connection keeps a drawn identifier a payment is
  admitted with that key.
\<close>

theorem connection_validated:
  assumes "aead_ok A" and "random_ok ub" and "random_ok nb"
    and en: "enumerates (it_connections it (mr_connections r)) (mr_connections r)"
    and "connections_ok r" and "p \<noteq> []"
    and "ss_repo S = memory_port C it" and "ss_gateway S = Some gw" and "ss_cipher S = Some c"
    and "\<forall>i. newUUID ub = Inr i \<longrightarrow> mr_connections r i = None"
    and "ValidateConnectionForProject A S now ub nb p secret name (r, g) = ((r', g'), x)"
  shows "case x of
      Inl e \<Rightarrow> r' = r \<and> (ValidateSandboxSecret secret \<noteq> None \<longrightarrow> g' = g)
    | Inr saved \<Rightarrow>
        ValidateSandboxSecret (TrimSpace secret) = None \<and>
        gw_ValidateAccount gw (TrimSpace secret) g = (g', Inr (sc_StripeAccountID saved)) \<and>
        HasPrefix (sc_StripeAccountID saved) ''acct_'' \<and> sc_Status saved = ''connected'' \<and>
        Decrypt A c (sc_SecretCiphertext saved) (sc_StripeAccountID saved) = Inr (TrimSpace secret) \<and>
        connections_ok r' \<and> StripeConnectionForProject p (sc_ID saved) r' = Inr (saved, True) \<and>
        (\<forall>q. q \<noteq> p \<longrightarrow> visible (StripeConnectionForProject q (sc_ID saved) r') = None) \<and>
        (\<forall>i d. owns_connection p r' i d \<and> sc_StripeAccountID d = sc_StripeAccountID saved \<longrightarrow> d = saved) \<and>
        r' = r\<lparr>mr_connections := mr_connections r', mr_projectByConnection := mr_projectByConnection r'\<rparr> \<and>
        (newUUID ub = Inr (sc_ID saved) \<longrightarrow>
           payment_admission A c (Some saved) (sc_ID saved) = Inr (TrimSpace secret))"
proof -
  have v: "validateConnection A S now ub nb p secret name (r, g) = ((r', g'), x)"
    using assms(6,11) by (simp add: ValidateConnectionForProject_def)
  have tenant: "r_Tenant (ss_repo S) = Some (memory_tenant it)"
    by (simp add: assms(7))
  show ?thesis
  proof (cases rule: validateConnection_cases [OF v assms(6,8,9) tenant])
    case (1 e)
    then show ?thesis by simp
  next
    case (2 e)
    moreover have "t_SaveStripeConnectionForProject (memory_tenant it) p y r \<noteq> (r', Inl i)" for y i
      using SaveStripeConnectionForProject_total [of "it_connections it (mr_connections r)" p y r] by auto
    ultimately show ?thesis by auto
  next
    case (3 accountID i t y)
    define conn where "conn = \<lparr>sc_ID = i, sc_StripeAccountID = accountID,
          sc_SandboxName = TrimSpace (if TrimSpace name = [] then ''Stripe Sandbox'' else name),
          sc_Status = ''connected'', sc_CreatedAt = now, sc_SecretCiphertext = t,
          sc_SecretEncryptionKeyID = 1\<rparr>"
    have save: "SaveStripeConnectionForProject (it_connections it (mr_connections r)) p conn r = (r', Inr y)"
      using 3(7) by (simp add: conn_def)
    have new: "mr_connections r (sc_ID conn) = None"
      using assms(10) 3(5) by (simp add: conn_def)
    note kept = save_connection [OF assms(5) en new save]
    have fields: "sc_StripeAccountID y = accountID" "sc_Status y = ''connected''"
        "sc_SecretCiphertext y = t"
      using SaveStripeConnectionForProject_frame(2) [OF save refl] by (auto simp: conn_def)
    have dec: "Decrypt A c t accountID = Inr (TrimSpace secret)"
      by (rule Decrypt_Encrypt [OF assms(1,3) 3(6)])
    have val: "ValidateSandboxSecret (TrimSpace secret) = None"
      using 3(2) by (simp add: ValidateSandboxSecret_def)
    have own: "owns_connection p r' (sc_ID y) y"
      using kept by blast
    then have found: "StripeConnectionForProject p (sc_ID y) r' = Inr (y, True)"
      "\<forall>q. q \<noteq> p \<longrightarrow> visible (StripeConnectionForProject q (sc_ID y) r') = None"
      by (auto simp: owns_connection_def StripeConnectionForProject_def StripeConnection_get_def get0_def)
    have frame: "r' = r\<lparr>mr_connections := mr_connections r', mr_projectByConnection := mr_projectByConnection r'\<rparr>"
      using SaveStripeConnectionForProject_frame(1) [OF save] by auto
    have adm: "payment_admission A c (Some y) (sc_ID y) = Inr (TrimSpace secret)" if "newUUID ub = Inr (sc_ID y)"
    proof -
      have "uuidPattern (sc_ID y)" by (rule uuid_pattern [OF assms(2) that])
      then show ?thesis by (simp add: payment_admission_code fields dec val)
    qed
    have sole: "\<forall>i d. owns_connection p r' i d \<and> sc_StripeAccountID d = sc_StripeAccountID y \<longrightarrow> d = y"
      using kept fields(1) by (simp add: conn_def)
    have ok: "connections_ok r'" using kept by blast
    show ?thesis
      unfolding 3(1) sum.case fields
      by (intro conjI impI val 3(3,4) refl dec ok found frame sole [unfolded fields(1)] adm)
  qed
qed

subsection \<open>Payment runs\<close>

text \<open>What a payment run's bundle shows of its PaymentIntent.\<close>

definition payment_evidence ::
  "crypto \<Rightarrow> int \<Rightarrow> string \<Rightarrow> string \<Rightarrow> StripePaymentIntent \<Rightarrow> RunBundle \<Rightarrow> bool" where
  "payment_evidence C amountMinor currency key intent b \<longleftrightarrow>
     bundle_ok b \<and> run_StripeObjectID (rb_Run b) = pi_ID intent \<and>
     rb_StripeCorrelationID b = sent_correlation C key \<and> rb_VerificationFault b = FaultDuplicate \<and>
     rb_OutboxTopic b = ''verification.run.queued'' \<and>
     list_all (\<lambda>e. ev_Evidence e ''amount_minor'' = Some (AnyInt amountMinor) \<and>
       ev_Evidence e ''currency'' = Some (AnyString currency) \<and>
       ev_Evidence e ''stripe_payment_intent_id'' = Some (AnyString (pi_ID intent))) (rb_Events b) \<and>
     (list_all as_Passed (rp_Assertions (rb_Report b)) \<longleftrightarrow>
       pi_Amount intent = amountMinor \<and> pi_Currency intent = currency) \<and>
     rp_Summary (rb_Report b) = assertion_summary ''deterministic'' (rp_Assertions (rb_Report b))"

lemmas payment_evidence_code = payment_evidence_def [unfolded sent_correlation_code]

lemma payment_bundle_facts:
  assumes "4 \<le> length i"
  shows "\<exists>b. payment_bundle now i amt cur intent (stripe_correlation C key) = Some b \<and>
    run_ID (rb_Run b) = i \<and> payment_evidence C amt cur key intent b"
proof -
  define scn where "scn = (case scenarioByID seededScenarios ''checkout-duplicate'' of
      None \<Rightarrow> zero_Scenario | Some x \<Rightarrow> x)"
  obtain b0 where b0: "buildRunBundle i (numberFromRunID i) scn FaultDuplicate now = Some b0"
      "bundle_consistent b0" "run_ID (rb_Run b0) = i" "rb_VerificationFault b0 = FaultDuplicate"
    using buildRunBundle_facts [OF assms, of "numberFromRunID i" scn FaultDuplicate now]
    by (elim exE conjE) (rule that)
  have ok: "bundle_ok b0" by (rule bundle_consistent_ok [OF b0(2)])
  define run where "run = (rb_Run b0)\<lparr>run_StripeObjectID := pi_ID intent\<rparr>"
  have run: "run_ID run = i" by (simp add: run_def b0(3))
  obtain suffix where "slice4 i = Some suffix" using assms by (auto simp: slice4_def)
  then obtain fs where fs: "report_findings i FaultDuplicate = Some fs"
    using report_findings_Some by blast
  obtain rep where rep: "buildReport run FaultDuplicate = Some rep" "rp_Run rep = run"
      "rp_Assertions rep = report_assertions run FaultDuplicate"
    by (simp add: buildReport_def run fs Let_def)
  define as where "as = rp_Assertions rep @ [minor_units_assertion amt cur intent]"
  define b where "b = b0\<lparr>rb_OutboxTopic := ''verification.run.queued'',
      rb_StripeCorrelationID := stripe_correlation C key, rb_Run := run,
      rb_Events := map (intent_evidence amt cur (pi_ID intent) (stripe_correlation C key)) (rb_Events b0),
      rb_Report := rep\<lparr>rp_Assertions := as, rp_Summary := assertion_summary ''deterministic'' as\<rparr>\<rparr>"
  have pb: "payment_bundle now i amt cur intent (stripe_correlation C key) = Some b"
    unfolding payment_bundle_def scn_def [symmetric] b0(1) option.case Let_def run_def [symmetric] rep(1)
    by (simp add: b_def as_def)
  have seq: "map ev_Sequence (map (intent_evidence amt cur x y) es) = map ev_Sequence es"
    "list_all (\<lambda>e. ev_RunID e = i) (map (intent_evidence amt cur x y) es) = list_all (\<lambda>e. ev_RunID e = i) es"
    for x y es
    by (simp_all add: intent_evidence_def list_all_iff)
  have "bundle_ok b"
    using ok unfolding bundle_ok_def
    by (simp add: b_def rep(2) run seq sequenced_def run_def b0(3) del: map_map)
  moreover have "list_all as_Passed as \<longleftrightarrow> pi_Amount intent = amt \<and> pi_Currency intent = cur"
    by (simp add: as_def rep(3) report_assertions_passed(2) minor_units_assertion_def)
  ultimately have "payment_evidence C amt cur key intent b"
    unfolding payment_evidence_code
    by (simp add: b_def run_def b0(4) list_all_iff intent_evidence_def)
  with pb show ?thesis by (auto simp: b_def run)
qed

text \<open>
  The outcome of a payment request that passed validation, from the records of its scope before and
  after: a key already used is answered from its record; a refusal changes nothing; otherwise Stripe is called
  once, with the admitted key, and either it fails and nothing is recorded, or one new run
  is recorded that names the intent.
\<close>

definition payment_outcome ::
  "crypto \<Rightarrow> aead \<Rightarrow> 'g StripeGateway \<Rightarrow> Cipher \<Rightarrow> ('s \<Rightarrow> string \<Rightarrow> bool) \<Rightarrow> StripeConnection option \<Rightarrow>
   string \<Rightarrow> int \<Rightarrow> string \<Rightarrow> string \<Rightarrow> digest \<Rightarrow> (digest \<Rightarrow> (digest \<times> Run) option) \<Rightarrow>
   (digest \<Rightarrow> (digest \<times> Run) option) \<Rightarrow> 's \<times> 'g \<Rightarrow> 's \<times> 'g \<Rightarrow> Error + Run \<times> bool \<Rightarrow> bool" where
  "payment_outcome C A gw c allocated conn cid amt cur key h before after sg sg' x \<longleftrightarrow>
     (case before (sha256 C key) of
        Some (h', run) \<Rightarrow> sg' = sg \<and> x = (if h' = h then Inr (run, True) else Inl idempotency_conflict)
      | None \<Rightarrow>
     (case payment_admission A c conn cid of
        Inl e \<Rightarrow> sg' = sg \<and> x = Inl e
      | Inr secret \<Rightarrow>
          sandbox_key secret \<and>
     (case gw_CreatePaymentIntent gw secret (charged_intent C amt cur key) (snd sg) of
        (g', Inl e) \<Rightarrow> snd sg' = g' \<and> after = before \<and> x = Inl stripe_payment_intent_failed
      | (g', Inr intent) \<Rightarrow>
          snd sg' = g' \<and>
          (if HasPrefix (pi_ID intent) ''pi_''
           then \<exists>b. x = Inr (rb_Run b, False) \<and> after = before(sha256 C key \<mapsto> (h, rb_Run b)) \<and>
             payment_evidence C amt cur key intent b \<and> \<not> allocated (fst sg) (run_ID (rb_Run b)) \<and>
             allocated (fst sg') (run_ID (rb_Run b))
           else after = before \<and> x = Inl stripe_payment_intent_failed))))"

lemmas payment_outcome_code = payment_outcome_def [unfolded sandbox_key_code charged_intent_code]

context run_service
begin

lemma pay_outcome:
  assumes "wf s" and "key_ok (sha256 C key)" and load: "load cid s = (s, Inr (conn, found))"
  shows "\<exists>s' g' x. replay_or_pay C A gw c (\<lambda>k h. reads (replay k h)) (create now) load next_id now cid
      amt cur key h (s, g) = Some ((s', g'), x) \<and> wf s' \<and>
    payment_outcome C A gw c allocated (if found then Some conn else None) cid amt cur key h
      (recorded s) (recorded s') (s, g) (s', g') x"
proof (cases "recorded s (sha256 C key)")
  case (Some y)
  obtain h' run where y: "y = (h', run)" by fastforce
  have "reads (replay (sha256 C key) h) s =
      (s, if h' = h then Inr (run, True) else Inl ErrIdempotencyConflict)"
    using replay_answer [OF assms(1), of "sha256 C key" h] Some
    by (simp add: reads_def idempotent_answer_def y)
  then show ?thesis
    using Some assms(1) by (simp add: replay_or_pay_def payment_outcome_code y)
next
  case None
  have miss: "reads (replay (sha256 C key) h) s = (s, Inr (zero_Run, False))"
    using replay_answer [OF assms(1), of "sha256 C key" h] None
    by (simp add: reads_def idempotent_answer_def)
  let ?conn = "if found then Some conn else None"
  show ?thesis
  proof (cases "payment_admission A c ?conn cid")
    case (Inl e)
    then have "replay_or_pay C A gw c (\<lambda>k h. reads (replay k h)) (create now) load next_id now cid
        amt cur key h (s, g) = Some ((s, g), Inl e)"
      by (auto simp: replay_or_pay_def miss load payment_admission_code pay_and_store_def
          split: if_splits sum.splits option.splits)
    then show ?thesis
      using None assms(1) Inl by (simp add: payment_outcome_code)
  next
    case (Inr secret)
    then have adm: "uuidPattern cid" "found" "sc_Status conn = ''connected''"
        "Decrypt A c (sc_SecretCiphertext conn) (sc_StripeAccountID conn) = Inr secret"
        "ValidateSandboxSecret secret = None"
      by (auto simp: payment_admission_code split: if_splits sum.splits option.splits)
    obtain s1 i where n: "next_id s = (s1, Inr i)" "wf s1" "recorded s1 = recorded s" "4 \<le> length i"
        "\<not> allocated s i" "allocated s1 i"
      using next_id_new [OF assms(1)] by blast
    have start: "replay_or_pay C A gw c (\<lambda>k h. reads (replay k h)) (create now) load next_id now cid
        amt cur key h (s, g) =
      (case gw_CreatePaymentIntent gw secret (intent_params C amt cur key) g of
        (g1, Inl e) \<Rightarrow> Some ((s1, g1), Inl stripe_payment_intent_failed)
      | (g1, Inr intent) \<Rightarrow>
          if \<not> HasPrefix (pi_ID intent) ''pi_'' then Some ((s1, g1), Inl stripe_payment_intent_failed)
          else case payment_bundle now i amt cur intent (stripe_correlation C key) of
            None \<Rightarrow> None
          | Some bundle \<Rightarrow> Some (store_payment_run (create now) (sha256 C key) h bundle (s1, g1)))"
      by (simp add: replay_or_pay_def miss load adm pay_and_store_def n(1))
    obtain g1 y where call: "gw_CreatePaymentIntent gw secret (intent_params C amt cur key) g = (g1, y)"
      by fastforce
    show ?thesis
    proof (cases "\<exists>intent. y = Inr intent \<and> HasPrefix (pi_ID intent) ''pi_''")
      case False
      then have "replay_or_pay C A gw c (\<lambda>k h. reads (replay k h)) (create now) load next_id now cid
          amt cur key h (s, g) = Some ((s1, g1), Inl stripe_payment_intent_failed)"
        unfolding start call by (auto split: sum.splits)
      with False show ?thesis
        using None Inr n(2,3) adm(5) call by (auto simp: payment_outcome_code split: sum.splits)
    next
      case True
      then obtain intent where y: "y = Inr intent" "HasPrefix (pi_ID intent) ''pi_''" by blast
      obtain b where b: "payment_bundle now i amt cur intent (stripe_correlation C key) = Some b"
          "run_ID (rb_Run b) = i" "payment_evidence C amt cur key intent b"
        using payment_bundle_facts [OF n(4)] by blast
      have ad: "admits s1 b"
        using next_id_admits [OF assms(1) n(1)] b(2,3) by (simp add: payment_evidence_code)
      obtain s' where cr: "create now (sha256 C key) h b s1 = (s', Inr (rb_Run b, False))" "wf s'"
          "recorded s' = (recorded s1)(sha256 C key \<mapsto> (h, rb_Run b))"
        using create_new [OF n(2) _ ad assms(2)] n(3) None by metis
      have "allocated s' i" by (rule create_keeps [OF n(2) ad cr(1) n(6)])
      moreover have "replay_or_pay C A gw c (\<lambda>k h. reads (replay k h)) (create now) load next_id now cid
          amt cur key h (s, g) = Some ((s', g1), Inr (rb_Run b, False))"
        unfolding start call by (simp add: y b(1) store_payment_run_def cr(1))
      moreover have "\<exists>b. Inr (rb_Run b', False) = (Inr (rb_Run b, False) :: Error + Run \<times> bool) \<and>
          recorded s' = (recorded s)(sha256 C key \<mapsto> (h, rb_Run b)) \<and>
          payment_evidence C amt cur key intent b \<and> \<not> allocated s (run_ID (rb_Run b)) \<and>
          allocated s' (run_ID (rb_Run b))" if "b' = b" for b'
        using that b(2,3) n(3,5) cr(3) calculation(1) by auto
      ultimately show ?thesis
        using None Inr adm(5) call cr(2) y by (simp add: payment_outcome_code)
    qed
  qed
qed

end

text \<open>What the service does before it looks at the repository.\<close>

definition payment_valid :: "string \<Rightarrow> int \<Rightarrow> string \<Rightarrow> bool" where
  "payment_valid key amt cur \<longleftrightarrow> key \<noteq> [] \<and> 1 \<le> amt \<and> amt \<le> 99999999 \<and>
     length cur = 3 \<and> list_all (\<lambda>c. CHR ''a'' \<le> c \<and> c \<le> CHR ''z'') cur"

lemma payment_valid_code:
  "payment_valid key amt cur \<longleftrightarrow> key \<noteq> [] \<and> 1 \<le> amt \<and> amt \<le> 99999999 \<and> currencyPattern cur"
  by (simp add: payment_valid_def currencyPattern_def)

lemma createPaymentIntentRun_rejects:
  assumes "ss_gateway S = Some gw" and "ss_cipher S = Some c" and "\<not> payment_valid key amt cur"
  shows "\<exists>e. createPaymentIntentRun C A S now p cid amt cur key body sg = Some (sg, Inl e) \<and>
    er_HTTPStatus e = 400 \<and> er_Code e = (if key = [] then ''idempotency_key_missing''
      else if amt < 1 \<or> 99999999 < amt then ''invalid_amount_minor'' else ''invalid_currency'')"
  using assms by (auto simp: createPaymentIntentRun_def payment_valid_code Invalid_def)

lemma createPaymentIntentRun_tenant:
  assumes "ss_repo S = memory_port C it" and "ss_gateway S = Some gw" and "ss_cipher S = Some c"
    and "payment_valid key amt cur" and "p \<noteq> []"
  shows "createPaymentIntentRun C A S now p cid amt cur key body sg =
    replay_or_pay C A gw c (\<lambda>k h. reads (ReplayRunForProject p k h)) (CreateRunForProject now p)
      (\<lambda>i. reads (StripeConnectionForProject p i)) NextRunID now cid amt cur key (sha256 C body) sg"
  using assms by (simp add: createPaymentIntentRun_def payment_valid_code Let_def)

lemma payment_project_outcome:
  assumes "memory_ok r" and "digest_ok (sha256 C key)" and "p \<noteq> []"
    and "ss_repo S = memory_port C it" and "ss_gateway S = Some gw" and "ss_cipher S = Some c"
    and "payment_valid key amt cur"
  shows "\<exists>r' g' x. createPaymentIntentRun C A S now p cid amt cur key body (r, g) = Some ((r', g'), x) \<and>
    memory_ok r' \<and> payment_outcome C A gw c allocated_id (visible (StripeConnectionForProject p cid r)) cid
      amt cur key (sha256 C body) (recorded_tenant p r) (recorded_tenant p r') (r, g) (r', g') x"
proof -
  obtain conn found where found: "StripeConnectionForProject p cid r = Inr (conn, found)"
    by (cases "get0 [] (mr_projectByConnection r) cid = p")
      (auto simp: StripeConnectionForProject_def StripeConnection_get_def)
  then have load: "reads (StripeConnectionForProject p cid) r = (r, Inr (conn, found))"
    by (simp add: reads_def)
  show ?thesis
    unfolding createPaymentIntentRun_tenant [OF assms(4-7,3)] found visible_simps
    by (rule tenant_service.pay_outcome [where load = "\<lambda>i. reads (StripeConnectionForProject p i)",
          OF assms(1,2) load])
qed

lemma createPaymentIntentRun_unconfigured:
  assumes "ss_gateway S = None \<or> ss_cipher S = None"
  shows "createPaymentIntentRun C A S now p cid amt cur key body sg =
    Some (sg, Inl connection_storage_not_configured)"
  using assms by (auto simp: createPaymentIntentRun_def split: option.splits)

text \<open>A refusal: nothing was touched, and the answer has this code and status.\<close>

definition refused_with ::
  "string \<Rightarrow> int \<Rightarrow> 'a \<times> 'g \<Rightarrow> 'a \<times> 'g \<Rightarrow> Error + 'b \<Rightarrow> bool" where
  "refused_with code status sg sg' x \<longleftrightarrow>
     sg' = sg \<and> (case x of Inl e \<Rightarrow> er_Code e = code \<and> er_HTTPStatus e = status | Inr _ \<Rightarrow> False)"

lemma refused_with_iff:
  "refused_with code status sg sg' x \<longleftrightarrow>
     sg' = sg \<and> (\<exists>e. x = Inl e \<and> er_Code e = code \<and> er_HTTPStatus e = status)"
  by (auto simp: refused_with_def split: sum.splits)

text \<open>
  C35. A payment run in a project does what it promises on every branch, over the in-memory
  repository, whose keys are hashed to 32 bytes.  Without a project the request is refused with 403
  \<^verbatim>\<open>project_required\<close>; without a gateway or a cipher with 503
  \<^verbatim>\<open>connection_storage_not_configured\<close>; an empty key, an amount outside 1 to 99999999 or a
  currency that is not three lower-case letters with 400 and its code: all before anything is
  touched.  Otherwise the key's record decides first; a new key needs a connection the
  project owns, under a well-formed identifier, connected and opening to a sandbox key.  Then Stripe is called
  exactly once with that key, the amount and an idempotency key derived from the request's; if it fails
  nothing is recorded, else one run under a fresh identifier is recorded whose evidence,
  correlation and assertions show the intent, all of them passing exactly when Stripe
  confirmed the amount and currency.  It never panics and keeps the repository well formed.
\<close>

theorem payment_run_project:
  assumes "memory_ok r" and "digest_ok (sha256 C key)" and "ss_repo S = memory_port C it"
  shows "\<exists>r' g' x. CreatePaymentIntentRunForProject C A S now p cid amt cur key body (r, g) =
      Some ((r', g'), x) \<and> memory_ok r' \<and>
    (if p = [] then refused_with ''project_required'' 403 (r, g) (r', g') x
     else case (ss_gateway S, ss_cipher S) of
       (Some gw, Some c) \<Rightarrow>
         if key = [] then refused_with ''idempotency_key_missing'' 400 (r, g) (r', g') x
         else if amt < 1 \<or> 99999999 < amt then refused_with ''invalid_amount_minor'' 400 (r, g) (r', g') x
         else if \<not> payment_valid key amt cur then refused_with ''invalid_currency'' 400 (r, g) (r', g') x
         else payment_outcome C A gw c allocated_id (visible (StripeConnectionForProject p cid r)) cid
           amt cur key (sha256 C body) (recorded_tenant p r) (recorded_tenant p r') (r, g) (r', g') x
     | _ \<Rightarrow> refused_with ''connection_storage_not_configured'' 503 (r, g) (r', g') x)"
proof (cases "p = []")
  case True
  with assms(1) show ?thesis
    by (simp add: CreatePaymentIntentRunForProject_def refused_with_def Forbidden_def)
next
  case p: False
  then have same: "CreatePaymentIntentRunForProject C A S now p cid amt cur key body (r, g) =
      createPaymentIntentRun C A S now p cid amt cur key body (r, g)"
    by (simp add: CreatePaymentIntentRunForProject_def)
  show ?thesis
  proof (cases "\<exists>gw c. ss_gateway S = Some gw \<and> ss_cipher S = Some c")
    case False
    then have none: "ss_gateway S = None \<or> ss_cipher S = None" by auto
    then show ?thesis
      unfolding same createPaymentIntentRun_unconfigured [OF none]
      using p assms(1) by (auto simp: refused_with_def connection_storage_not_configured_def split: option.splits)
  next
    case True
    then obtain gw c where conf: "ss_gateway S = Some gw" "ss_cipher S = Some c" by blast
    show ?thesis
    proof (cases "payment_valid key amt cur")
      case True
      then have "key \<noteq> []" "\<not> (amt < 1 \<or> 99999999 < amt)" by (auto simp: payment_valid_def)
      with payment_project_outcome [OF assms(1,2) p assms(3) conf True] True p conf show ?thesis
        unfolding same by simp
    next
      case False
      from createPaymentIntentRun_rejects [OF conf False] obtain e where
        "createPaymentIntentRun C A S now p cid amt cur key body (r, g) = Some ((r, g), Inl e)"
        "er_HTTPStatus e = 400" "er_Code e = (if key = [] then ''idempotency_key_missing''
          else if amt < 1 \<or> 99999999 < amt then ''invalid_amount_minor'' else ''invalid_currency'')"
        by blast
      with False assms(1) p conf show ?thesis
        unfolding same by (simp add: refused_with_def)
    qed
  qed
qed

subsection \<open>Calls to Stripe\<close>

text \<open>A gateway that also keeps the list of the payments it was asked for.\<close>

definition logged ::
  "'g StripeGateway \<Rightarrow> ('g \<times> (string \<times> StripePaymentIntentParams) list) StripeGateway" where
  "logged gw =
     \<lparr>gw_ValidateAccount = \<lambda>secret (g, calls). (case gw_ValidateAccount gw secret g of (g', x) \<Rightarrow> ((g', calls), x)),
      gw_CreatePaymentIntent = \<lambda>secret params (g, calls).
        (case gw_CreatePaymentIntent gw secret params g of (g', x) \<Rightarrow> ((g', calls @ [(secret, params)]), x))\<rparr>"

text \<open>
  C36. A request charges Stripe at most once and never outside the sandbox: whatever the
  gateway answers, the payments it was asked for grow by nothing or by a single one, made with a key that
  starts with \<^verbatim>\<open>sk_test_\<close> or \<^verbatim>\<open>rk_test_\<close> (so not with \<^verbatim>\<open>sk_live_\<close>, \<^verbatim>\<open>rk_live_\<close> or \<^verbatim>\<open>pk_live_\<close>), for
  the requested amount between 1 and 99999999 in a currency of three lower-case letters, under the
  idempotency key \<^verbatim>\<open>pl_\<close> followed by the hexadecimal digest of the client's key under its own
  label; a key the project has used before is never charged again, and a run is created only by a
  request that charged.
\<close>

theorem payment_charges_once:
  assumes "memory_ok r" and "digest_ok (sha256 C key)" and "p \<noteq> []"
    and "ss_repo S = memory_port C it" and "ss_gateway S = Some (logged gw)" and "ss_cipher S = Some c"
    and "CreatePaymentIntentRunForProject C A S now p cid amt cur key body (r, (g, calls)) =
      Some ((r', (g', calls')), x)"
  shows "(calls' = calls \<or> (\<exists>secret params. calls' = calls @ [(secret, params)] \<and>
      take 8 (TrimSpace secret) \<in> {''sk_test_'', ''rk_test_''} \<and>
      pp_AmountMinor params = amt \<and> 1 \<le> amt \<and> amt \<le> 99999999 \<and>
      pp_Currency params = cur \<and> length cur = 3 \<and> list_all (\<lambda>c. CHR ''a'' \<le> c \<and> c \<le> CHR ''z'') cur \<and>
      pp_IdempotencyKey params = ''pl_'' @ hex_encode (sha256 C (''paritylab:stripe:'' @ key)) \<and>
      pp_Metadata params ''paritylab_correlation_id'' =
        Some (''plcorr_'' @ hex_encode (take 12 (sha256 C (''paritylab:stripe:'' @ key)))) \<and>
      recorded_tenant p r (sha256 C key) = None)) \<and>
    (\<forall>run. x = Inr (run, False) \<longrightarrow> calls' \<noteq> calls)"
proof (cases "payment_valid key amt cur")
  case False
  from createPaymentIntentRun_rejects [OF assms(5,6) False, of C A now p cid body "(r, (g, calls))"]
    assms(3,7) show ?thesis
    by (auto simp: CreatePaymentIntentRunForProject_def)
next
  case True
  have out: "payment_outcome C A (logged gw) c allocated_id (visible (StripeConnectionForProject p cid r)) cid
       amt cur key (sha256 C body) (recorded_tenant p r) (recorded_tenant p r') (r, (g, calls)) (r', (g', calls')) x"
    using payment_project_outcome [OF assms(1-6) True, of A now cid body "(g, calls)"] assms(3,7)
    by (simp add: CreatePaymentIntentRunForProject_def)
  have amt: "1 \<le> amt" "amt \<le> 99999999" "length cur = 3" "list_all (\<lambda>c. CHR ''a'' \<le> c \<and> c \<le> CHR ''z'') cur"
    using True by (simp_all add: payment_valid_def)
  show ?thesis
  proof (cases "recorded_tenant p r (sha256 C key)")
    case (Some y)
    with out show ?thesis
      by (cases y) (auto simp: payment_outcome_code split: if_splits)
  next
    case None
    show ?thesis
    proof (cases "payment_admission A c (visible (StripeConnectionForProject p cid r)) cid")
      case (Inl e)
      with out None show ?thesis by (auto simp: payment_outcome_code)
    next
      case (Inr secret)
      obtain g1 y where call: "gw_CreatePaymentIntent gw secret (charged_intent C amt cur key) g = (g1, y)"
        by fastforce
      with out None Inr have "sandbox_key secret" "calls' = calls @ [(secret, charged_intent C amt cur key)]"
        by (cases y; auto simp: payment_outcome_def logged_def split: if_splits)+
      with None amt show ?thesis
        by (simp add: sandbox_key_def charged_intent_def sent_correlation_def)
    qed
  qed
qed

subsection \<open>From the payment to its webhook\<close>

lemma pay_and_store_created:
  assumes "pay_and_store C A gw c next_id create now conn amt cur key h (s, g) = Some ((s', g'), Inr (run, False))"
  shows "\<exists>s1 i intent b. next_id s = (s1, Inr i) \<and>
    payment_bundle now i amt cur intent (stripe_correlation C key) = Some b \<and>
    create (sha256 C key) h b s1 = (s', Inr (run, False))"
  using assms
  by (auto simp: pay_and_store_def store_payment_run_def split: sum.splits prod.splits if_splits option.splits)

lemma replay_or_pay_created:
  assumes "replay_or_pay C A gw c (\<lambda>k h. reads (replay k h)) create (\<lambda>i. reads (load i)) next_id now cid
      amt cur key h (s, g) = Some ((s', g'), Inr (run, False))"
  shows "\<exists>s1 i intent b. next_id s = (s1, Inr i) \<and>
    payment_bundle now i amt cur intent (stripe_correlation C key) = Some b \<and>
    create (sha256 C key) h b s1 = (s', Inr (run, False))"
  using assms
  by (auto simp: replay_or_pay_def reads_def split: sum.splits prod.splits if_splits bool.splits)
    (drule pay_and_store_created, blast)

lemma payment_created:
  assumes "memory_ok r" and "digest_ok (sha256 C key)" and "p \<noteq> []"
    and "ss_repo S = memory_port C it" and "ss_gateway S = Some gw" and "ss_cipher S = Some c"
    and pay: "CreatePaymentIntentRunForProject C A S t0 p cid amt cur key body (r, g) =
      Some ((r', g'), Inr (run, False))"
  shows "memory_ok r' \<and> run_ID run = runID (mr_nextRun r) \<and> mr_runs r' = (mr_runs r)(run_ID run \<mapsto> run) \<and>
    mr_correlationByRun r' = (mr_correlationByRun r)(run_ID run \<mapsto> stripe_correlation C key) \<and>
    mr_projectByRun r' = (mr_projectByRun r)(run_ID run \<mapsto> p) \<and>
    mr_webhooks r' = mr_webhooks r \<and> mr_webhookResults r' = mr_webhookResults r"
proof -
  have valid: "payment_valid key amt cur"
    using createPaymentIntentRun_rejects [OF assms(5,6), of key amt cur C A t0 p cid body "(r, g)"] pay assms(3)
    by (auto simp: CreatePaymentIntentRunForProject_def)
  have run: "replay_or_pay C A gw c (\<lambda>k h. reads (ReplayRunForProject p k h)) (CreateRunForProject t0 p)
      (\<lambda>i. reads (StripeConnectionForProject p i)) NextRunID t0 cid amt cur key (sha256 C body) (r, g) =
      Some ((r', g'), Inr (run, False))"
    using pay assms(3) createPaymentIntentRun_tenant [OF assms(4-6) valid assms(3), of A t0 cid body "(r, g)"]
    by (simp add: CreatePaymentIntentRunForProject_def)
  obtain s1 i intent b where n: "NextRunID r = (s1, Inr i)"
      and b: "payment_bundle t0 i amt cur intent (stripe_correlation C key) = Some b"
      and cr: "CreateRunForProject t0 p (sha256 C key) (sha256 C body) b s1 = (r', Inr (run, False))"
    using replay_or_pay_created [OF run] by (elim exE conjE) (rule that)
  have s1: "s1 = r\<lparr>mr_nextRun := mr_nextRun r + 1\<rparr>" and i: "i = runID (mr_nextRun r)"
    using n by (simp_all add: NextRunID_def)
  have b': "run_ID (rb_Run b) = i" "payment_evidence C amt cur key intent b"
    using payment_bundle_facts [of i t0 amt cur intent C key] b by (auto simp: i length_runID)
  have ok1: "memory_ok s1" using memory_ok_NextRunID [OF assms(1)] n by simp
  have ad: "admits_bundle s1 b"
    using admits_NextRunID [OF assms(1) n] b' by (simp add: payment_evidence_code)
  have ok': "memory_ok r'"
    using memory_ok_CreateRunForProject [OF ok1 ad assms(2), of t0 p "sha256 C body"] cr by simp
  have new: "mr_tenantIdempotency s1 (tenantIdempotencyKey p (sha256 C key)) = None"
    using cr by (auto simp: CreateRunForProject_def Let_def split: option.splits if_splits)
  have r': "r' = enqueueLocked t0 b ((putSeed b s1)\<lparr>
       mr_projectByRun := (mr_projectByRun s1)(i \<mapsto> p),
       mr_correlationByRun := (mr_correlationByRun s1)(i \<mapsto> stripe_correlation C key),
       mr_tenantIdempotency := (mr_tenantIdempotency s1)
         (tenantIdempotencyKey p (sha256 C key) \<mapsto> \<lparr>mi_requestHash = sha256 C body, mi_runID = i\<rparr>)\<rparr>)"
    and runb: "run = rb_Run b"
    using cr CreateRunForProject_new [OF new, of t0 "sha256 C body" b] b' by (simp_all add: payment_evidence_code)
  have maps: "mr_runs r' = (mr_runs r)(i \<mapsto> run)" "mr_correlationByRun r' = (mr_correlationByRun r)(i \<mapsto> stripe_correlation C key)"
      "mr_projectByRun r' = (mr_projectByRun r)(i \<mapsto> p)" "mr_webhooks r' = mr_webhooks r"
      "mr_webhookResults r' = mr_webhookResults r"
    by (simp_all add: r' s1 runb b'(1) enqueueLocked_put putSeed_def)
  show ?thesis
    using ok' b'(1) i maps by (simp add: runb)
qed

text \<open>
  C37. The webhook of a payment finds its run.  After a project's payment created a run, a first received event of a
  supported type that names the run's PaymentIntent and the correlation identifier sent to
  Stripe in the intent's metadata is recorded as new, matched to that run and reported for that project, and
  appended to the run's evidence; no other run gains an event.  The intent must be the run's own: no
  run stored before the payment carries the same intent under the same correlation (two projects
  that use one client key on one Stripe account do, and their events are ambiguous).
\<close>

theorem payment_webhook_matched:
  assumes "memory_ok r" and "enumerates (it_runs it (mr_runs r')) (mr_runs r')"
    and "digest_ok (sha256 C key)" and "p \<noteq> []"
    and "ss_repo S = memory_port C it" and "ss_gateway S = Some gw" and "ss_cipher S = Some c"
    and pay: "CreatePaymentIntentRunForProject C A S t0 p cid amt cur key body (r, g) =
      Some ((r', g'), Inr (run, False))"
    and single: "\<forall>i old. mr_runs r i = Some old \<and> run_StripeObjectID old = run_StripeObjectID run \<longrightarrow>
      get0 [] (mr_correlationByRun r) i \<noteq> stripe_correlation C key"
    and "wr_EventID rc = e" and "mr_webhooks r e = None" and "mr_webhookResults r e = None"
    and "IsSupportedStripeWebhookType (wr_EventType rc)"
    and "wr_StripeObjectID rc = run_StripeObjectID run" and "run_StripeObjectID run \<noteq> []"
    and "wr_CorrelationID rc = stripe_correlation C key"
    and mark: "r_MarkWebhookSeen (memory_port C it) t1 rc r' = (r1, seen)"
    and proc: "r_ProcessStripeWebhook (memory_port C it) t2 e r1 = (r2, Inr res)"
  shows "seen = Inr False \<and> wp_Status res = WebhookMatched \<and> wp_RunID res = run_ID run \<and> wp_ProjectID res = p \<and>
    (\<exists>evs. mr_events r' (run_ID run) = Some evs \<and>
       mr_events r2 = (mr_events r')(run_ID run \<mapsto> evs @
         [BuildWebhookRunEvent C t2 rc (run_ID run) (int (length evs) + 1)]))"
proof -
  define i where "i = run_ID run"
  have runid: "run_ID run = i" by (simp add: i_def)
  note made = payment_created [OF assms(1,3-7) pay, unfolded runid]
  then have ok': "memory_ok r'" and maps: "mr_runs r' = (mr_runs r)(i \<mapsto> run)"
      "mr_correlationByRun r' = (mr_correlationByRun r)(i \<mapsto> stripe_correlation C key)"
      "mr_projectByRun r' = (mr_projectByRun r)(i \<mapsto> p)" "mr_webhooks r' = mr_webhooks r"
      "mr_webhookResults r' = mr_webhookResults r"
    by blast+
  have mk: "MarkWebhookSeen t1 rc r' = (r1, seen)" using mark by (simp add: memory_port_def)
  then have r1: "r1 = putOutboxLocked t1 ''stripe.webhook.received'' e (webhook_payload rc)
      (r'\<lparr>mr_webhooks := (mr_webhooks r')(e \<mapsto> rc)\<rparr>)" and seen: "seen = Inr False"
    using assms(10,11) maps(4) by (auto simp: MarkWebhookSeen_def)
  have same: "mr_runs r1 = mr_runs r'" "mr_events r1 = mr_events r'" "mr_correlationByRun r1 = mr_correlationByRun r'"
      "mr_projectByRun r1 = mr_projectByRun r'" "mr_webhooks r1 e = Some rc" "mr_webhookResults r1 e = None"
    using assms(12) by (simp_all add: r1 maps(5))
  have ok_r1: "memory_ok r1"
    using memory_ok_MarkWebhookSeen [OF ok', of t1 rc] mk by simp
  have en: "enumerates (it_runs it (mr_runs r1)) (mr_runs r1)"
    using assms(2) by (simp add: same)
  have pr: "ProcessStripeWebhook C (it_runs it (mr_runs r1)) t2 e r1 = (r2, Inr res)"
    using proc by (simp add: memory_port_def)
  have cand: "candidates r1 rc = {i}"
    using single by (auto simp: candidates_def same maps assms(14,16) get0_def split: if_splits)
  have cor: "correlatable rc"
    using assms(13-16) by (simp add: correlatable_def stripe_correlation_def)
  note res = webhook_correlated [OF ok_r1 en same(6,5) pr]
  show ?thesis
    using res cor cand by (simp add: same maps runid seen get0_def) blast
qed

subsection \<open>A payment for the witnesses\<close>

definition pay_cipher :: Cipher where
  "pay_cipher = \<lparr>ci_key = [], ci_indexKey = []\<rparr>"

definition pay_uuid :: string where
  "pay_uuid = ''30303030-3030-4030-b030-303030303030''"

definition echo_gateway :: "unit StripeGateway" where
  "echo_gateway =
     \<lparr>gw_ValidateAccount = \<lambda>secret g. (g, Inr ''acct_1''),
      gw_CreatePaymentIntent = \<lambda>secret params g. (g, Inr
        \<lparr>pi_ID = ''pi_1'', pi_Status = ''succeeded'', pi_Amount = pp_AmountMinor params,
         pi_Currency = pp_Currency params\<rparr>)\<rparr>"

definition pay_iteration :: iteration where
  "pay_iteration = some_iteration\<lparr>it_runs := \<lambda>m. [runID 4]\<rparr>"

definition pay_service ::
  "(MemoryRepository, unit \<times> (string \<times> StripePaymentIntentParams) list) StripeService" where
  "pay_service = \<lparr>ss_repo = memory_port wide_crypto pay_iteration,
     ss_gateway = Some (logged echo_gateway), ss_cipher = Some pay_cipher\<rparr>"

lemma TrimSpace_sample: "TrimSpace ''sk_test_1'' = ''sk_test_1''" "TrimSpace '' sk_test_1'' = ''sk_test_1''"
  "TrimSpace ''Main'' = ''Main''"
  by code_simp+

lemma newUUID_zero: "newUUID zero_random = Inr pay_uuid"
  by code_simp

definition pay_connection :: StripeConnection where
  "pay_connection =
     \<lparr>sc_ID = pay_uuid, sc_StripeAccountID = ''acct_1'', sc_SandboxName = ''Main'',
      sc_Status = ''connected'', sc_CreatedAt = 3,
      sc_SecretCiphertext = replicate 12 (CHR ''0'') @ ad_Seal plain_aead [] [] ''sk_test_1'' ''acct_1'',
      sc_SecretEncryptionKeyID = 1\<rparr>"

definition pay_world :: MemoryRepository where
  "pay_world = NewMemoryRepository\<lparr>mr_connections := [pay_uuid \<mapsto> pay_connection],
     mr_projectByConnection := [pay_uuid \<mapsto> ''p'']\<rparr>"

lemma validate_pay_connection:
  "ValidateConnectionForProject plain_aead pay_service 3 zero_random zero_random ''p'' '' sk_test_1''
     ''Main'' (NewMemoryRepository, ((), [])) = ((pay_world, ((), [])), Inr pay_connection)"
proof -
  have "ValidateSandboxSecret '' sk_test_1'' = None"
    by (simp add: ValidateSandboxSecret_def TrimSpace_sample HasPrefix_decomp)
  moreover have "Encrypt plain_aead pay_cipher zero_random ''sk_test_1'' ''acct_1'' =
      Inr (sc_SecretCiphertext pay_connection)"
    by (simp add: Encrypt_def zero_random_def NonceSize_def pay_connection_def plain_aead_def pay_cipher_def)
  moreover have "HasPrefix ''acct_1'' ''acct_''" by (simp add: HasPrefix_def)
  ultimately show ?thesis
    by (simp add: ValidateConnectionForProject_def validateConnection_def pay_service_def logged_def
        echo_gateway_def TrimSpace_sample newUUID_zero SaveStripeConnectionForProject_def
        pay_iteration_def some_iteration_def adopt_identity_def pay_world_def)
      (simp add: pay_connection_def NewMemoryRepository_def Let_def)
qed

theorem connection_validated_witness:
  "\<exists>r' g' saved. ValidateConnectionForProject plain_aead pay_service 3 zero_random zero_random ''p''
      '' sk_test_1'' ''Main'' (NewMemoryRepository, ((), [])) = ((r', g'), Inr saved) \<and>
     payment_admission plain_aead pay_cipher (Some saved) (sc_ID saved) = Inr ''sk_test_1''"
proof -
  have world: "enumerates (it_connections pay_iteration (mr_connections NewMemoryRepository))
      (mr_connections NewMemoryRepository)" "connections_ok NewMemoryRepository"
    by (simp_all add: NewMemoryRepository_def connections_ok_def owns_connection_def pay_iteration_def
        some_iteration_def)
  have "newUUID zero_random = Inr (sc_ID pay_connection)"
    by (simp add: newUUID_zero pay_connection_def)
  with connection_validated [OF aead_ok_plain random_ok_zero random_ok_zero world, of "''p''" pay_service
      wide_crypto "logged echo_gateway" pay_cipher 3 "'' sk_test_1''" "''Main''" "((), [])" pay_world "((), [])"
      "Inr pay_connection"] validate_pay_connection
  show ?thesis
    by (simp add: pay_service_def TrimSpace_sample NewMemoryRepository_def)
qed

lemma pay_world_ok: "memory_ok pay_world" "digest_ok (sha256 wide_crypto ''key'')"
  "ss_repo pay_service = memory_port wide_crypto pay_iteration"
  "ss_gateway pay_service = Some (logged echo_gateway)" "ss_cipher pay_service = Some pay_cipher"
  using memory_ok_new
  by (simp_all add: pay_world_def digest_ok_def wide_crypto_def pay_service_def)

lemma pay_valid: "payment_valid ''key'' 500 ''usd''"
  by (simp add: payment_valid_code currencyPattern_def)

lemma pay_admitted:
  "payment_admission plain_aead pay_cipher (visible (StripeConnectionForProject ''p'' pay_uuid pay_world)) pay_uuid =
     Inr ''sk_test_1''"
proof -
  have "uuidPattern pay_uuid" by (rule uuid_pattern [OF random_ok_zero newUUID_zero])
  moreover have "visible (StripeConnectionForProject ''p'' pay_uuid pay_world) = Some pay_connection"
    by (simp add: StripeConnectionForProject_def StripeConnection_get_def pay_world_def)
  moreover have "Decrypt plain_aead pay_cipher (sc_SecretCiphertext pay_connection) ''acct_1'' = Inr ''sk_test_1''"
    by (simp add: Decrypt_def pay_connection_def NonceSize_def plain_aead_def HasPrefix_decomp)
  moreover have "ValidateSandboxSecret ''sk_test_1'' = None"
    by (simp add: ValidateSandboxSecret_def TrimSpace_sample HasPrefix_decomp)
  ultimately show ?thesis
    by (simp add: payment_admission_code) (simp add: pay_connection_def)
qed

lemma pay_outcome_sample:
  assumes "payment_outcome wide_crypto plain_aead (logged echo_gateway) pay_cipher allocated_id
      (visible (StripeConnectionForProject ''p'' pay_uuid pay_world)) pay_uuid 500 ''usd'' ''key'' h
      (recorded_tenant ''p'' pay_world) after (pay_world, ((), [])) (r', g') x"
  shows "\<exists>run. x = Inr (run, False) \<and> run_StripeObjectID run = ''pi_1''"
proof -
  have "recorded_tenant ''p'' pay_world k = None" for k
    by (simp add: recorded_tenant_def pay_world_def NewMemoryRepository_def)
  with assms show ?thesis
    by (auto simp: payment_outcome_code pay_admitted logged_def echo_gateway_def HasPrefix_def payment_evidence_code)
qed

lemma pay_sample:
  "\<exists>r' g' run. CreatePaymentIntentRunForProject wide_crypto plain_aead pay_service 9 ''p'' pay_uuid 500 ''usd''
      ''key'' ''body'' (pay_world, ((), [])) = Some ((r', g'), Inr (run, False)) \<and> run_StripeObjectID run = ''pi_1''"
proof -
  obtain r' g' x where run: "createPaymentIntentRun wide_crypto plain_aead pay_service 9 ''p'' pay_uuid 500 ''usd''
      ''key'' ''body'' (pay_world, ((), [])) = Some ((r', g'), x)"
    and out: "payment_outcome wide_crypto plain_aead (logged echo_gateway) pay_cipher allocated_id
      (visible (StripeConnectionForProject ''p'' pay_uuid pay_world)) pay_uuid 500 ''usd'' ''key''
      (sha256 wide_crypto ''body'') (recorded_tenant ''p'' pay_world) (recorded_tenant ''p'' r')
      (pay_world, ((), [])) (r', g') x"
    using payment_project_outcome [OF pay_world_ok(1,2) _ pay_world_ok(3-5) pay_valid, of "''p''" plain_aead 9
        pay_uuid "''body''" "((), [])"] by blast
  obtain y where "x = Inr (y, False)" "run_StripeObjectID y = ''pi_1''"
    using pay_outcome_sample [OF out] by blast
  with run show ?thesis
    by (intro exI [of _ r'] exI [of _ g'] exI [of _ y]) (simp add: CreatePaymentIntentRunForProject_def)
qed

text \<open>A payment, a request without a project, and one to a service without a gateway.\<close>

theorem payment_run_project_witness:
  "(\<exists>r' g' run. CreatePaymentIntentRunForProject wide_crypto plain_aead pay_service 9 ''p'' pay_uuid 500 ''usd''
      ''key'' ''body'' (pay_world, ((), [])) = Some ((r', g'), Inr (run, False)) \<and> memory_ok r') \<and>
   (\<exists>sg e. CreatePaymentIntentRunForProject wide_crypto plain_aead pay_service 9 [] pay_uuid 500 ''usd''
      ''key'' ''body'' (pay_world, ((), [])) = Some (sg, Inl e) \<and> er_Code e = ''project_required'') \<and>
   (\<exists>sg e. CreatePaymentIntentRunForProject wide_crypto plain_aead (pay_service\<lparr>ss_gateway := None\<rparr>) 9
      ''p'' pay_uuid 500 ''usd'' ''key'' ''body'' (pay_world, ((), [])) = Some (sg, Inl e) \<and> er_HTTPStatus e = 503)"
proof -
  obtain r' g' run where pay: "CreatePaymentIntentRunForProject wide_crypto plain_aead pay_service 9 ''p'' pay_uuid
      500 ''usd'' ''key'' ''body'' (pay_world, ((), [])) = Some ((r', g'), Inr (run, False))"
    using pay_sample by blast
  note use = payment_run_project [OF pay_world_ok(1,2), of _ pay_iteration plain_aead 9 _ pay_uuid 500
      "''usd''" "''body''" "((), [])"]
  from use [OF pay_world_ok(3), of "''p''"] pay have "memory_ok r'" by simp
  moreover from use [OF pay_world_ok(3), of "[]"]
  have "\<exists>sg e. CreatePaymentIntentRunForProject wide_crypto plain_aead pay_service 9 [] pay_uuid 500 ''usd''
      ''key'' ''body'' (pay_world, ((), [])) = Some (sg, Inl e) \<and> er_Code e = ''project_required''"
    by (auto simp: refused_with_iff)
  moreover have "ss_repo (pay_service\<lparr>ss_gateway := None\<rparr>) = memory_port wide_crypto pay_iteration"
    using pay_world_ok(3) by simp
  from use [OF this, of "''p''"]
  have "\<exists>sg e. CreatePaymentIntentRunForProject wide_crypto plain_aead (pay_service\<lparr>ss_gateway := None\<rparr>) 9
      ''p'' pay_uuid 500 ''usd'' ''key'' ''body'' (pay_world, ((), [])) = Some (sg, Inl e) \<and> er_HTTPStatus e = 503"
    by (auto simp: refused_with_iff)
  ultimately show ?thesis using pay by blast
qed

theorem payment_charges_once_witness:
  "\<exists>r' secret params run. CreatePaymentIntentRunForProject wide_crypto plain_aead pay_service 9 ''p'' pay_uuid 500 ''usd''
      ''key'' ''body'' (pay_world, ((), [])) =
      Some ((r', ((), [(secret, params)])), Inr (run, False)) \<and>
    take 8 (TrimSpace secret) \<in> {''sk_test_'', ''rk_test_''} \<and> pp_AmountMinor params = 500"
proof -
  obtain r' g' run where pay: "CreatePaymentIntentRunForProject wide_crypto plain_aead pay_service 9 ''p'' pay_uuid
      500 ''usd'' ''key'' ''body'' (pay_world, ((), [])) = Some ((r', g'), Inr (run, False))"
    using pay_sample by blast
  obtain calls where g': "g' = ((), calls)" by (cases g') simp
  from payment_charges_once [OF pay_world_ok(1,2) _ pay_world_ok(3-5) pay [unfolded g']]
  obtain secret params where "calls = [(secret, params)]"
      "take 8 (TrimSpace secret) \<in> {''sk_test_'', ''rk_test_''}" "pp_AmountMinor params = 500"
    by auto
  with pay show ?thesis unfolding g' by blast
qed

theorem payment_webhook_matched_witness:
  "\<exists>rc r0 r1 r2 res. r_MarkWebhookSeen (memory_port wide_crypto pay_iteration) 10 rc r0 = (r1, Inr False) \<and>
     r_ProcessStripeWebhook (memory_port wide_crypto pay_iteration) 11 ''evt_1'' r1 = (r2, Inr res) \<and>
     wp_Status res = WebhookMatched \<and> wp_RunID res = runID 4 \<and> wp_ProjectID res = ''p''"
proof -
  obtain r' g' run where pay: "CreatePaymentIntentRunForProject wide_crypto plain_aead pay_service 9 ''p'' pay_uuid
      500 ''usd'' ''key'' ''body'' (pay_world, ((), [])) = Some ((r', g'), Inr (run, False))"
      and obj: "run_StripeObjectID run = ''pi_1''"
    using pay_sample by blast
  have empty: "mr_runs pay_world = Map.empty" "mr_nextRun pay_world = 4" "mr_webhooks pay_world = Map.empty"
      "mr_webhookResults pay_world = Map.empty"
    by (simp_all add: pay_world_def NewMemoryRepository_def)
  have made: "mr_runs r' = [runID 4 \<mapsto> run]" "run_ID run = runID 4" "mr_webhooks r' = Map.empty"
      "mr_webhookResults r' = Map.empty"
    using payment_created [OF pay_world_ok(1,2) _ pay_world_ok(3-5) pay] by (simp_all add: empty)
  have en: "enumerates (it_runs pay_iteration (mr_runs r')) (mr_runs r')"
    by (simp add: made enumerates_def pay_iteration_def)
  define rc where "rc = (sample_receipt ''evt_1'')\<lparr>wr_EventType := ''payment_intent.succeeded'',
      wr_StripeObjectID := ''pi_1'', wr_CorrelationID := stripe_correlation wide_crypto ''key''\<rparr>"
  obtain r1 seen where mark: "r_MarkWebhookSeen (memory_port wide_crypto pay_iteration) 10 rc r' = (r1, seen)"
    by fastforce
  have ev: "wr_EventID rc = ''evt_1''" by (simp add: rc_def sample_receipt_def)
  have r1: "mr_webhooks r1 ''evt_1'' = Some rc" "mr_webhookResults r1 ''evt_1'' = None"
    using mark by (auto simp: memory_port_def MarkWebhookSeen_def ev made)
  obtain r2 res where proc: "r_ProcessStripeWebhook (memory_port wide_crypto pay_iteration) 11 ''evt_1'' r1 = (r2, Inr res)"
    using ProcessStripeWebhook_decision [OF r1(2,1), of wide_crypto "it_runs pay_iteration (mr_runs r1)" 11]
    by (simp add: memory_port_def finish_webhook_def)
  have "IsSupportedStripeWebhookType (wr_EventType rc)"
    by (simp add: rc_def IsSupportedStripeWebhookType_def)
  with payment_webhook_matched [OF pay_world_ok(1) en pay_world_ok(2) _ pay_world_ok(3-5) pay _ ev _ _ _ _ _ _
      mark proc]
  have "seen = Inr False \<and> wp_Status res = WebhookMatched \<and> wp_RunID res = run_ID run \<and> wp_ProjectID res = ''p''"
    by (simp add: empty obj rc_def)
  then have "r_MarkWebhookSeen (memory_port wide_crypto pay_iteration) 10 rc r' = (r1, Inr False) \<and>
      wp_Status res = WebhookMatched \<and> wp_RunID res = runID 4 \<and> wp_ProjectID res = ''p''"
    using mark made(2) by simp
  with proc show ?thesis by blast
qed

end
