(* ===== verification/AuthMemory.thy ===== *)
theory AuthMemory
  imports EngineTypes
begin

text \<open>
  Accounts, sessions and project settings: the types and the persistence port of
  \<^verbatim>\<open>internal/auth/models.go\<close> and the in-memory repository of
  \<^verbatim>\<open>internal/auth/memory_repository.go\<close>.  As in the engine, a method holds the mutex for its
  whole body and is one atomic function of the state, and a \<^verbatim>\<open>range\<close> over a map takes the list
  of its keys in the order of the iteration.
\<close>

subsection \<open>Types\<close>

record User =
  us_ID :: string
  us_EmailCiphertext :: string
  us_EmailHash :: digest
  us_PasswordHash :: string

record SessionRecord =
  se_TokenHash :: digest
  se_UserID :: string
  se_ProjectID :: string
  se_ExpiresAt :: time

record Registration =
  rg_User :: User
  rg_OrganizationID :: string
  rg_OrganizationName :: string
  rg_ProjectID :: string
  rg_ProjectName :: string
  rg_RetentionDays :: int
  rg_Session :: SessionRecord

record IdentityRecord =
  id_UserID :: string
  id_EmailCiphertext :: string
  id_PasswordHash :: string
  id_OrganizationID :: string
  id_OrganizationName :: string
  id_Role :: string
  id_ProjectID :: string
  id_ProjectName :: string
  id_RetentionDays :: int
  id_SessionExpiresAt :: time

definition zero_Identity :: IdentityRecord where
  "zero_Identity =
     \<lparr>id_UserID = [], id_EmailCiphertext = [], id_PasswordHash = [], id_OrganizationID = [],
      id_OrganizationName = [], id_Role = [], id_ProjectID = [], id_ProjectName = [],
      id_RetentionDays = 0, id_SessionExpiresAt = zero_time\<rparr>"

record UserView =
  uv_ID :: string
  uv_Email :: string

record OrganizationView =
  ov_ID :: string
  ov_Name :: string
  ov_Role :: string

record ProjectView =
  pv_ID :: string
  pv_Name :: string
  pv_RetentionDays :: int

definition zero_Project :: ProjectView where
  "zero_Project = \<lparr>pv_ID = [], pv_Name = [], pv_RetentionDays = 0\<rparr>"

record SessionView =
  sv_Authenticated :: bool
  sv_User :: UserView
  sv_Organization :: OrganizationView
  sv_Project :: ProjectView
  sv_ExpiresAt :: time

record Environment =
  en_ID :: string
  en_Name :: string
  en_Kind :: string
  en_IsDefault :: bool

definition zero_Environment :: Environment where
  "zero_Environment = \<lparr>en_ID = [], en_Name = [], en_Kind = [], en_IsDefault = False\<rparr>"

record Notification =
  nt_ID :: string
  nt_RunID :: string
  nt_Kind :: string
  nt_Payload :: "string \<rightharpoonup> any"
  nt_ReadAt :: "time option"
  nt_CreatedAt :: time

definition zero_Notification :: Notification where
  "zero_Notification = \<lparr>nt_ID = [], nt_RunID = [], nt_Kind = [], nt_Payload = Map.empty,
     nt_ReadAt = None, nt_CreatedAt = zero_time\<rparr>"

definition zero_Finding :: Finding where
  "zero_Finding = \<lparr>fd_ID = [], fd_Severity = [], fd_Title = [], fd_Summary = [], fd_Cause = [],
     fd_Remediation = [], fd_Checkpoint = [], fd_Resolved = False\<rparr>"

text \<open>
  The port.  The argument after a name that an implementation may ignore, such as the acting
  user, is kept, but for the metadata of an audit record, which every caller leaves nil;
  operations that read the clock take the time.
\<close>

record 's AuthRepository =
  ar_Register :: "Registration \<Rightarrow> ('s, unit) op"
  ar_UserByEmailHash :: "digest \<Rightarrow> ('s, IdentityRecord \<times> bool) op"
  ar_CreateSession :: "SessionRecord \<Rightarrow> ('s, unit) op"
  ar_Session :: "digest \<Rightarrow> ('s, IdentityRecord \<times> bool) op"
  ar_RevokeSession :: "digest \<Rightarrow> ('s, unit) op"
  ar_Project :: "string \<Rightarrow> ('s, ProjectView \<times> bool) op"
  ar_UpdateProject :: "string \<Rightarrow> string \<Rightarrow> int \<Rightarrow> string \<Rightarrow> ('s, ProjectView \<times> bool) op"
  ar_Environments :: "string \<Rightarrow> ('s, Environment list) op"
  ar_SelectEnvironment :: "string \<Rightarrow> string \<Rightarrow> string \<Rightarrow> ('s, Environment \<times> bool) op"
  ar_Findings :: "string \<Rightarrow> string \<Rightarrow> ('s, Finding list) op"
  ar_SetFindingResolved :: "string \<Rightarrow> string \<Rightarrow> bool \<Rightarrow> string \<Rightarrow> ('s, Finding \<times> bool) op"
  ar_Notifications :: "string \<Rightarrow> ('s, Notification list) op"
  ar_MarkNotificationRead :: "time \<Rightarrow> string \<Rightarrow> string \<Rightarrow> string \<Rightarrow> ('s, Notification \<times> bool) op"
  ar_MarkAllNotificationsRead :: "time \<Rightarrow> string \<Rightarrow> string \<Rightarrow> ('s, int) op"
  ar_Connections :: "string \<Rightarrow> ('s, StripeConnection list) op"
  ar_RecordAudit :: "string \<Rightarrow> string \<Rightarrow> string \<Rightarrow> string \<Rightarrow> string \<Rightarrow> ('s, unit) op"

subsection \<open>The in-memory repository\<close>

record AuthMemory =
  am_users :: "digest \<rightharpoonup> IdentityRecord"
  am_sessions :: "digest \<rightharpoonup> SessionRecord"
  am_projects :: "string \<rightharpoonup> ProjectView"
  am_environments :: "string \<rightharpoonup> Environment list"
  am_findings :: "string \<rightharpoonup> (string \<rightharpoonup> Finding)"
  am_notifications :: "string \<rightharpoonup> (string \<rightharpoonup> Notification)"

definition NewAuthMemory :: AuthMemory where
  "NewAuthMemory = \<lparr>am_users = Map.empty, am_sessions = Map.empty, am_projects = Map.empty,
     am_environments = Map.empty, am_findings = Map.empty, am_notifications = Map.empty\<rparr>"

definition registered_identity :: "Registration \<Rightarrow> IdentityRecord" where
  "registered_identity input =
     \<lparr>id_UserID = us_ID (rg_User input), id_EmailCiphertext = us_EmailCiphertext (rg_User input),
      id_PasswordHash = us_PasswordHash (rg_User input), id_OrganizationID = rg_OrganizationID input,
      id_OrganizationName = rg_OrganizationName input, id_Role = ''owner'',
      id_ProjectID = rg_ProjectID input, id_ProjectName = rg_ProjectName input,
      id_RetentionDays = rg_RetentionDays input, id_SessionExpiresAt = zero_time\<rparr>"

definition default_environments :: "string \<Rightarrow> Environment list" where
  "default_environments projectID =
     [\<lparr>en_ID = projectID @ '':local'', en_Name = ''Local'', en_Kind = ''local'', en_IsDefault = False\<rparr>,
      \<lparr>en_ID = projectID @ '':sandbox'', en_Name = ''Sandbox'', en_Kind = ''sandbox'', en_IsDefault = True\<rparr>,
      \<lparr>en_ID = projectID @ '':staging'', en_Name = ''Staging'', en_Kind = ''staging'', en_IsDefault = False\<rparr>]"

definition Auth_Register :: "Registration \<Rightarrow> AuthMemory \<Rightarrow> AuthMemory \<times> (goerr + unit)" where
  "Auth_Register input r =
     (if am_users r (us_EmailHash (rg_User input)) \<noteq> None then (r, Inl ErrAccountExists)
      else
        (r\<lparr>am_users := (am_users r)(us_EmailHash (rg_User input) \<mapsto> registered_identity input),
           am_sessions := (am_sessions r)(se_TokenHash (rg_Session input) \<mapsto> rg_Session input),
           am_projects := (am_projects r)(rg_ProjectID input \<mapsto>
             \<lparr>pv_ID = rg_ProjectID input, pv_Name = rg_ProjectName input,
              pv_RetentionDays = rg_RetentionDays input\<rparr>),
           am_environments := (am_environments r)
             (rg_ProjectID input \<mapsto> default_environments (rg_ProjectID input))\<rparr>, Inr ()))"

definition Auth_UserByEmailHash :: "digest \<Rightarrow> AuthMemory \<Rightarrow> goerr + IdentityRecord \<times> bool" where
  "Auth_UserByEmailHash hash r =
     Inr (get0 zero_Identity (am_users r) hash, am_users r hash \<noteq> None)"

definition Auth_CreateSession :: "SessionRecord \<Rightarrow> AuthMemory \<Rightarrow> AuthMemory \<times> (goerr + unit)" where
  "Auth_CreateSession session r =
     (r\<lparr>am_sessions := (am_sessions r)(se_TokenHash session \<mapsto> session)\<rparr>, Inr ())"

text \<open>The first user of the iteration that has the session's user and project.\<close>

definition Auth_Session ::
  "digest list \<Rightarrow> digest \<Rightarrow> AuthMemory \<Rightarrow> goerr + IdentityRecord \<times> bool" where
  "Auth_Session keys hash r =
     (case am_sessions r hash of
        None \<Rightarrow> Inr (zero_Identity, False)
      | Some s \<Rightarrow>
          (case find (\<lambda>u. id_UserID u = se_UserID s \<and> id_ProjectID u = se_ProjectID s)
                  (map (get0 zero_Identity (am_users r)) keys) of
             None \<Rightarrow> Inr (zero_Identity, False)
           | Some u \<Rightarrow> Inr (u\<lparr>id_SessionExpiresAt := se_ExpiresAt s\<rparr>, True)))"

definition Auth_RevokeSession :: "digest \<Rightarrow> AuthMemory \<Rightarrow> AuthMemory \<times> (goerr + unit)" where
  "Auth_RevokeSession hash r = (r\<lparr>am_sessions := (am_sessions r)(hash := None)\<rparr>, Inr ())"

definition Auth_Project :: "string \<Rightarrow> AuthMemory \<Rightarrow> goerr + ProjectView \<times> bool" where
  "Auth_Project i r = Inr (get0 zero_Project (am_projects r) i, am_projects r i \<noteq> None)"

text \<open>The loop that copies a project's new settings to its users.\<close>

definition rename_users ::
  "string \<Rightarrow> ProjectView \<Rightarrow> digest list \<Rightarrow> (digest \<rightharpoonup> IdentityRecord) \<Rightarrow> digest \<rightharpoonup> IdentityRecord" where
  "rename_users projectID v keys users =
     foldl (\<lambda>m key. let u = get0 zero_Identity m key
                    in if id_ProjectID u = projectID
                       then m(key \<mapsto> u\<lparr>id_ProjectName := pv_Name v, id_RetentionDays := pv_RetentionDays v\<rparr>)
                       else m) users keys"

definition Auth_UpdateProject ::
  "digest list \<Rightarrow> string \<Rightarrow> string \<Rightarrow> int \<Rightarrow> string \<Rightarrow> AuthMemory \<Rightarrow>
   AuthMemory \<times> (goerr + ProjectView \<times> bool)" where
  "Auth_UpdateProject keys i name retention actor r =
     (case am_projects r i of
        None \<Rightarrow> (r, Inr (zero_Project, False))
      | Some v0 \<Rightarrow>
          (let v1 = (if name \<noteq> [] then v0\<lparr>pv_Name := name\<rparr> else v0);
               v = (if retention > 0 then v1\<lparr>pv_RetentionDays := retention\<rparr> else v1)
           in (r\<lparr>am_projects := (am_projects r)(i \<mapsto> v),
                 am_users := rename_users i v keys (am_users r)\<rparr>, Inr (v, True))))"

definition Auth_Environments :: "string \<Rightarrow> AuthMemory \<Rightarrow> goerr + Environment list" where
  "Auth_Environments i r = Inr (get0 [] (am_environments r) i)"

definition Auth_SelectEnvironment ::
  "string \<Rightarrow> string \<Rightarrow> string \<Rightarrow> AuthMemory \<Rightarrow> AuthMemory \<times> (goerr + Environment \<times> bool)" where
  "Auth_SelectEnvironment projectID i actor r =
     (let items = get0 [] (am_environments r) projectID
      in if \<not> list_ex (\<lambda>item. en_ID item = i) items then (r, Inr (zero_Environment, False))
         else
           (let items' = map (\<lambda>item. item\<lparr>en_IsDefault := en_ID item = i\<rparr>) items;
                r' = r\<lparr>am_environments := (am_environments r)(projectID \<mapsto> items')\<rparr>
            in case find (\<lambda>item. en_ID item = i) items' of
                 Some item \<Rightarrow> (r', Inr (item, True))
               | None \<Rightarrow> (r', Inr (zero_Environment, False))))"

definition Auth_Findings ::
  "string list \<Rightarrow> string \<Rightarrow> string \<Rightarrow> AuthMemory \<Rightarrow> goerr + Finding list" where
  "Auth_Findings keys projectID status r =
     Inr (filter (\<lambda>v. status = [] \<or> (status = ''resolved'') = fd_Resolved v)
       (map (get0 zero_Finding (get0 Map.empty (am_findings r) projectID)) keys))"

definition Auth_SetFindingResolved ::
  "string \<Rightarrow> string \<Rightarrow> bool \<Rightarrow> string \<Rightarrow> AuthMemory \<Rightarrow> AuthMemory \<times> (goerr + Finding \<times> bool)" where
  "Auth_SetFindingResolved projectID i resolved actor r =
     (let items = get0 Map.empty (am_findings r) projectID
      in case items i of
           None \<Rightarrow> (r, Inr (zero_Finding, False))
         | Some v0 \<Rightarrow>
             (let v = v0\<lparr>fd_Resolved := resolved\<rparr>
              in (r\<lparr>am_findings := (am_findings r)(projectID \<mapsto> items(i \<mapsto> v))\<rparr>, Inr (v, True))))"

definition Auth_Notifications ::
  "string list \<Rightarrow> string \<Rightarrow> AuthMemory \<Rightarrow> goerr + Notification list" where
  "Auth_Notifications keys projectID r =
     Inr (map (get0 zero_Notification (get0 Map.empty (am_notifications r) projectID)) keys)"

definition Auth_MarkNotificationRead ::
  "time \<Rightarrow> string \<Rightarrow> string \<Rightarrow> string \<Rightarrow> AuthMemory \<Rightarrow> AuthMemory \<times> (goerr + Notification \<times> bool)" where
  "Auth_MarkNotificationRead now projectID i actor r =
     (let items = get0 Map.empty (am_notifications r) projectID
      in case items i of
           None \<Rightarrow> (r, Inr (zero_Notification, False))
         | Some v0 \<Rightarrow>
             (let v = v0\<lparr>nt_ReadAt := Some now\<rparr>
              in (r\<lparr>am_notifications := (am_notifications r)(projectID \<mapsto> items(i \<mapsto> v))\<rparr>, Inr (v, True))))"

text \<open>The loop over a project's notifications: the notifications after it and how many it marked.\<close>

definition mark_all ::
  "time \<Rightarrow> string list \<Rightarrow> (string \<rightharpoonup> Notification) \<Rightarrow> (string \<rightharpoonup> Notification) \<times> int" where
  "mark_all now keys items =
     foldl (\<lambda>(m, count) i. let v = get0 zero_Notification m i
                           in if nt_ReadAt v = None
                              then (m(i \<mapsto> v\<lparr>nt_ReadAt := Some now\<rparr>), count + 1) else (m, count))
       (items, 0) keys"

definition Auth_MarkAllNotificationsRead ::
  "string list \<Rightarrow> time \<Rightarrow> string \<Rightarrow> string \<Rightarrow> AuthMemory \<Rightarrow> AuthMemory \<times> (goerr + int)" where
  "Auth_MarkAllNotificationsRead keys now projectID actor r =
     (case am_notifications r projectID of
        None \<Rightarrow> (r, Inr 0)
      | Some items \<Rightarrow>
          (case mark_all now keys items of (items', count) \<Rightarrow>
             (r\<lparr>am_notifications := (am_notifications r)(projectID \<mapsto> items')\<rparr>, Inr count)))"

text \<open>The connections come from the lister the repository was built with, if any.\<close>

definition Auth_Connections ::
  "(string \<Rightarrow> goerr + StripeConnection list) option \<Rightarrow> string \<Rightarrow> goerr + StripeConnection list" where
  "Auth_Connections lister projectID =
     (case lister of None \<Rightarrow> Inr [] | Some connections \<Rightarrow> connections projectID)"

definition Auth_RecordAudit ::
  "string \<Rightarrow> string \<Rightarrow> string \<Rightarrow> string \<Rightarrow> string \<Rightarrow> AuthMemory \<Rightarrow> AuthMemory \<times> (goerr + unit)" where
  "Auth_RecordAudit projectID actor action resourceType resourceID r = (r, Inr ())"

subsection \<open>The provider of the port\<close>

text \<open>In which order the maps are iterated.\<close>

record auth_iteration =
  ai_users :: "(digest \<rightharpoonup> IdentityRecord) \<Rightarrow> digest list"
  ai_findings :: "(string \<rightharpoonup> Finding) \<Rightarrow> string list"
  ai_notifications :: "(string \<rightharpoonup> Notification) \<Rightarrow> string list"

definition auth_reads :: "('s \<Rightarrow> goerr + 'a) \<Rightarrow> ('s, 'a) op" where
  "auth_reads f s = (s, f s)"

definition auth_memory_port ::
  "auth_iteration \<Rightarrow> (string \<Rightarrow> goerr + StripeConnection list) option \<Rightarrow> AuthMemory AuthRepository" where
  "auth_memory_port it lister =
     \<lparr>ar_Register = Auth_Register,
      ar_UserByEmailHash = \<lambda>h. auth_reads (Auth_UserByEmailHash h),
      ar_CreateSession = Auth_CreateSession,
      ar_Session = \<lambda>h. auth_reads (\<lambda>r. Auth_Session (ai_users it (am_users r)) h r),
      ar_RevokeSession = Auth_RevokeSession,
      ar_Project = \<lambda>i. auth_reads (Auth_Project i),
      ar_UpdateProject = \<lambda>i name retention actor r.
        Auth_UpdateProject (ai_users it (am_users r)) i name retention actor r,
      ar_Environments = \<lambda>i. auth_reads (Auth_Environments i),
      ar_SelectEnvironment = Auth_SelectEnvironment,
      ar_Findings = \<lambda>p status. auth_reads (\<lambda>r.
        Auth_Findings (ai_findings it (get0 Map.empty (am_findings r) p)) p status r),
      ar_SetFindingResolved = Auth_SetFindingResolved,
      ar_Notifications = \<lambda>p. auth_reads (\<lambda>r.
        Auth_Notifications (ai_notifications it (get0 Map.empty (am_notifications r) p)) p r),
      ar_MarkNotificationRead = Auth_MarkNotificationRead,
      ar_MarkAllNotificationsRead = \<lambda>now p actor r.
        Auth_MarkAllNotificationsRead (ai_notifications it (get0 Map.empty (am_notifications r) p)) now p actor r,
      ar_Connections = \<lambda>p. auth_reads (\<lambda>r. Auth_Connections lister p),
      ar_RecordAudit = Auth_RecordAudit\<rparr>"

end
