(* ===== verification/AuthService.thy ===== *)
theory AuthService
  imports AuthMemory Secrets
begin

text \<open>
  The authentication service (\<^verbatim>\<open>internal/auth/service.go\<close>): credentials, sessions and project
  settings over the persistence port.  Argon2 and the case tables of Unicode are parameters,
  next to the digests and the cipher; the random bytes of a request are drawn from a source
  that is told how many draws came before.
\<close>

unbundle bit_operations_syntax

subsection \<open>Parameters and library functions\<close>

text \<open>
  \<^verbatim>\<open>argon2.IDKey\<close> of password, salt, time, memory, threads and key length; \<^verbatim>\<open>strings.ToLower\<close> on
  text that is not all ASCII.
\<close>

record auth_host =
  ah_crypto :: crypto
  ah_aead :: aead
  ah_argon2 :: "string \<Rightarrow> string \<Rightarrow> nat \<Rightarrow> nat \<Rightarrow> nat \<Rightarrow> nat \<Rightarrow> string"
  ah_unicodeLower :: "string \<Rightarrow> string"

type_synonym draws = "nat \<Rightarrow> random"

definition lower_ascii :: "char \<Rightarrow> char" where
  "lower_ascii c = (if CHR ''A'' \<le> c \<and> c \<le> CHR ''Z'' then char_of (of_char c + 32 :: nat) else c)"

definition ToLower :: "auth_host \<Rightarrow> string \<Rightarrow> string" where
  "ToLower H s = (if list_all (\<lambda>c. of_char c < (128 :: nat)) s then map lower_ascii s
     else ah_unicodeLower H s)"

definition SessionTTL :: duration where
  "SessionTTL = 24 * Hour"

subsection \<open>The service\<close>

record 's AuthService =
  au_repo :: "'s AuthRepository option"
  au_cipher :: "Cipher option"

definition unavailable :: Error where
  "unavailable = \<lparr>er_Type = ''api_error'', er_Code = ''auth_not_configured'',
     er_Message = Msg ''Authentication storage is not configured.'', er_Param = [],
     er_RequestID = [], er_HTTPStatus = 503\<rparr>"

definition normalize_email :: "auth_host \<Rightarrow> string \<Rightarrow> string" where
  "normalize_email H email = ToLower H (TrimSpace email)"

definition validateCredentials :: "auth_host \<Rightarrow> string \<Rightarrow> string \<Rightarrow> Error + string" where
  "validateCredentials H email password =
     (let normalized = normalize_email H email
      in if length normalized < 3 \<or> length normalized > 254 \<or> CHR ''@'' \<notin> set normalized
         then Inl (Invalid ''invalid_email'' (Msg ''A valid email is required.'') ''email'')
         else if length password < 12 \<or> length password > 256
         then Inl (Invalid ''weak_password''
           (Msg ''Password must contain between 12 and 256 characters.'') ''password'')
         else Inr normalized)"

definition password_text :: "string \<Rightarrow> string \<Rightarrow> string" where
  "password_text salt hash =
     ''$argon2id$v=19$m=65536,t=1,p=4$'' @ raw_encode base64_std salt @ ''$'' @ raw_encode base64_std hash"

definition hashPassword :: "auth_host \<Rightarrow> random \<Rightarrow> string \<Rightarrow> goerr + string" where
  "hashPassword H rnd password =
     (case rnd 16 of
        Inl e \<Rightarrow> Inl e
      | Inr salt \<Rightarrow> Inr (password_text salt (ah_argon2 H password salt 1 (64 * 1024) 4 32)))"

definition dummyPasswordHash :: "auth_host \<Rightarrow> string" where
  "dummyPasswordHash H =
     (let salt = ''paritylab-dummy!''; hash = ah_argon2 H ''not-a-user-password'' salt 1 (64 * 1024) 4 32
      in password_text salt hash)"

text \<open>The parameters of an encoded hash: memory, iterations and threads, 0 where not given.\<close>

fun password_params :: "string list \<Rightarrow> nat \<times> nat \<times> nat \<Rightarrow> (nat \<times> nat \<times> nat) option" where
  "password_params [] mtp = Some mtp"
| "password_params (item # items) (m, t, p) =
     (case Cut item (CHR ''='') of
        None \<Rightarrow> None
      | Some (key, v) \<Rightarrow>
          (case ParseUint 32 v of
             None \<Rightarrow> None
           | Some parsed \<Rightarrow>
               password_params items
                 (if key = ''m'' then (parsed, t, p)
                  else if key = ''t'' then (m, parsed, p)
                  else if key = ''p'' then (m, t, parsed)
                  else (m, t, p))))"

definition verifyPassword :: "auth_host \<Rightarrow> string \<Rightarrow> string \<Rightarrow> bool" where
  "verifyPassword H encoded password =
     (let parts = Split encoded (CHR ''$'')
      in if length parts \<noteq> 6 \<or> parts ! 1 \<noteq> ''argon2id'' \<or> parts ! 2 \<noteq> ''v=19'' then False
         else
     (case password_params (Split (parts ! 3) (CHR '','')) (0, 0, 0) of
        None \<Rightarrow> False
      | Some (memory, iterations, threads) \<Rightarrow>
          if memory \<noteq> 65536 \<or> iterations \<noteq> 1 \<or> threads \<noteq> 4 then False
          else
     (case raw_decode base64_std (parts ! 4) of
        None \<Rightarrow> False
      | Some salt \<Rightarrow>
     (case raw_decode base64_std (parts ! 5) of
        None \<Rightarrow> False
      | Some want \<Rightarrow>
          if length want \<noteq> 32 then False
          else ah_argon2 H password salt iterations memory threads 32 = want))))"

definition newSessionToken :: "crypto \<Rightarrow> random \<Rightarrow> goerr + string \<times> digest" where
  "newSessionToken C rnd =
     (case rnd 32 of
        Inl e \<Rightarrow> Inl e
      | Inr raw \<Rightarrow> (let token = raw_encode base64_url raw in Inr (token, sha256 C token)))"

definition randomUUID :: "random \<Rightarrow> goerr + string" where
  "randomUUID rnd =
     (case rnd 16 of
        Inl e \<Rightarrow> Inl e
      | Inr v0 \<Rightarrow>
          (let v1 = v0[6 := char_of ((of_char (v0 ! 6) AND 0x0F) OR 0x40 :: nat)];
               v = v1[8 := char_of ((of_char (v1 ! 8) AND 0x3F) OR 0x80 :: nat)]
           in Inr (hex_encode (take 4 v) @ ''-'' @ hex_encode (take 2 (drop 4 v)) @ ''-'' @
                   hex_encode (take 2 (drop 6 v)) @ ''-'' @ hex_encode (take 2 (drop 8 v)) @ ''-'' @
                   hex_encode (drop 10 v))))"

definition sessionView :: "IdentityRecord \<Rightarrow> string \<Rightarrow> SessionView" where
  "sessionView identity email =
     \<lparr>sv_Authenticated = True, sv_User = \<lparr>uv_ID = id_UserID identity, uv_Email = email\<rparr>,
      sv_Organization = \<lparr>ov_ID = id_OrganizationID identity, ov_Name = id_OrganizationName identity,
        ov_Role = id_Role identity\<rparr>,
      sv_Project = \<lparr>pv_ID = id_ProjectID identity, pv_Name = id_ProjectName identity,
        pv_RetentionDays = id_RetentionDays identity\<rparr>,
      sv_ExpiresAt = id_SessionExpiresAt identity\<rparr>"

subsection \<open>Registration\<close>

text \<open>The account of a request whose random values have been drawn.\<close>

definition new_registration ::
  "auth_host \<Rightarrow> Cipher \<Rightarrow> time \<Rightarrow> string \<Rightarrow> string \<Rightarrow> string \<Rightarrow> string \<Rightarrow> string \<Rightarrow> string \<Rightarrow> string \<Rightarrow>
   string \<Rightarrow> digest \<Rightarrow> Registration" where
  "new_registration H cipher expires normalized organizationName projectName userID organizationID
       projectID passwordHash emailCiphertext tokenHash =
     \<lparr>rg_User = \<lparr>us_ID = userID, us_EmailCiphertext = emailCiphertext,
        us_EmailHash = BlindIndex (ah_crypto H) cipher normalized, us_PasswordHash = passwordHash\<rparr>,
      rg_OrganizationID = organizationID, rg_OrganizationName = TrimSpace organizationName,
      rg_ProjectID = projectID, rg_ProjectName = TrimSpace projectName, rg_RetentionDays = 30,
      rg_Session = \<lparr>se_TokenHash = tokenHash, se_UserID = userID, se_ProjectID = projectID,
        se_ExpiresAt = expires\<rparr>\<rparr>"

definition store_registration ::
  "'s AuthRepository \<Rightarrow> Registration \<Rightarrow> string \<Rightarrow> string \<Rightarrow> 's \<Rightarrow>
   's \<times> (Error + SessionView \<times> string)" where
  "store_registration R registration normalized token s =
     (case ar_Register R registration s of
        (s', Inl err) \<Rightarrow>
          (s', Inl (if errors_Is err ErrAccountExists
             then Conflict ''account_exists'' (Msg ''An account with this email already exists.'') ''email''
             else Internal ''registration_persistence_failed'' (Msg ''The account could not be stored.'')))
      | (s', Inr _) \<Rightarrow>
          (s', Inr (sessionView
             \<lparr>id_UserID = us_ID (rg_User registration),
              id_EmailCiphertext = us_EmailCiphertext (rg_User registration), id_PasswordHash = [],
              id_OrganizationID = rg_OrganizationID registration,
              id_OrganizationName = rg_OrganizationName registration, id_Role = ''owner'',
              id_ProjectID = rg_ProjectID registration, id_ProjectName = rg_ProjectName registration,
              id_RetentionDays = 30, id_SessionExpiresAt = se_ExpiresAt (rg_Session registration)\<rparr>
             normalized, token)))"

definition AuthService_Register ::
  "auth_host \<Rightarrow> 's AuthService \<Rightarrow> time \<Rightarrow> draws \<Rightarrow> string \<Rightarrow> string \<Rightarrow> string \<Rightarrow> string \<Rightarrow> 's \<Rightarrow>
   's \<times> (Error + SessionView \<times> string)" where
  "AuthService_Register H S now rnd email password organizationName projectName s =
     (case (au_repo S, au_cipher S) of
        (Some R, Some cipher) \<Rightarrow>
     (case validateCredentials H email password of
        Inl e \<Rightarrow> (s, Inl e)
      | Inr normalized \<Rightarrow>
          if TrimSpace organizationName = [] \<or> TrimSpace projectName = []
          then (s, Inl (Invalid ''parameter_missing''
            (Msg ''workspace_name and project_name are required.'') ''workspace_name''))
          else
     (case (randomUUID (rnd 0), randomUUID (rnd 1), randomUUID (rnd 2)) of
        (Inr userID, Inr organizationID, Inr projectID) \<Rightarrow>
     (case hashPassword H (rnd 3) password of
        Inl e \<Rightarrow> (s, Inl (Internal ''password_hash_failed'' (Msg ''The account could not be created.'')))
      | Inr passwordHash \<Rightarrow>
     (case Encrypt (ah_aead H) cipher (rnd 4) normalized userID of
        Inl e \<Rightarrow> (s, Inl (Internal ''email_encryption_failed'' (Msg ''The account could not be created.'')))
      | Inr emailCiphertext \<Rightarrow>
     (case newSessionToken (ah_crypto H) (rnd 5) of
        Inl e \<Rightarrow> (s, Inl (Internal ''session_creation_failed'' (Msg ''The session could not be created.'')))
      | Inr (token, tokenHash) \<Rightarrow>
          store_registration R
            (new_registration H cipher (now + SessionTTL) normalized organizationName projectName userID
               organizationID projectID passwordHash emailCiphertext tokenHash)
            normalized token s)))
      | _ \<Rightarrow> (s, Inl (Internal ''identity_creation_failed'' (Msg ''The account could not be created.'')))))
      | _ \<Rightarrow> (s, Inl unavailable))"

subsection \<open>Sessions\<close>

text \<open>A login that has found its account and checked the password.\<close>

definition start_session ::
  "auth_host \<Rightarrow> 's AuthRepository \<Rightarrow> Cipher \<Rightarrow> time \<Rightarrow> random \<Rightarrow> IdentityRecord \<Rightarrow> 's \<Rightarrow>
   's \<times> (Error + SessionView \<times> string)" where
  "start_session H R cipher now rnd identity0 s =
     (case newSessionToken (ah_crypto H) rnd of
        Inl e \<Rightarrow> (s, Inl (Internal ''session_creation_failed'' (Msg ''The session could not be created.'')))
      | Inr (token, tokenHash) \<Rightarrow>
     (let identity = identity0\<lparr>id_SessionExpiresAt := now + SessionTTL\<rparr>
      in case ar_CreateSession R \<lparr>se_TokenHash = tokenHash, se_UserID = id_UserID identity,
             se_ProjectID = id_ProjectID identity, se_ExpiresAt = id_SessionExpiresAt identity\<rparr> s of
        (s1, Inl e) \<Rightarrow> (s1, Inl (Internal ''session_persistence_failed'' (Msg ''The session could not be stored.'')))
      | (s1, Inr _) \<Rightarrow>
     (case ar_RecordAudit R (id_ProjectID identity) (id_UserID identity) ''auth.login'' ''session'' ''current'' s1 of
        (s2, Inl e) \<Rightarrow> (fst (ar_RevokeSession R tokenHash s2),
          Inl (Internal ''audit_persistence_failed'' (Msg ''The session could not be stored.'')))
      | (s2, Inr _) \<Rightarrow>
     (case Decrypt (ah_aead H) cipher (id_EmailCiphertext identity) (id_UserID identity) of
        Inl e \<Rightarrow> (s2, Inl (Internal ''identity_decryption_failed'' (Msg ''The account could not be loaded.'')))
      | Inr decrypted \<Rightarrow> (s2, Inr (sessionView identity decrypted, token))))))"

definition AuthService_Login ::
  "auth_host \<Rightarrow> 's AuthService \<Rightarrow> time \<Rightarrow> random \<Rightarrow> string \<Rightarrow> string \<Rightarrow> 's \<Rightarrow>
   's \<times> (Error + SessionView \<times> string)" where
  "AuthService_Login H S now rnd email password s =
     (case (au_repo S, au_cipher S) of
        (Some R, Some cipher) \<Rightarrow>
          (let normalized = normalize_email H email
           in case ar_UserByEmailHash R (BlindIndex (ah_crypto H) cipher normalized) s of
                (s1, lookup) \<Rightarrow>
                  (let ok = (case lookup of Inl _ \<Rightarrow> False | Inr (_, ok) \<Rightarrow> ok);
                       identity = (case lookup of Inl _ \<Rightarrow> zero_Identity | Inr (i, _) \<Rightarrow> i);
                       passwordHash = (if ok then id_PasswordHash identity else dummyPasswordHash H);
                       passwordValid = verifyPassword H passwordHash password
                   in if \<not> ok \<or> \<not> passwordValid
                      then (s1, Inl (Unauthorized ''invalid_credentials'' (Msg ''The email or password is incorrect.'')))
                      else start_session H R cipher now rnd identity s1))
      | _ \<Rightarrow> (s, Inl unavailable))"

definition AuthService_Session ::
  "auth_host \<Rightarrow> 's AuthService \<Rightarrow> time \<Rightarrow> string \<Rightarrow> 's \<Rightarrow> 's \<times> (Error + SessionView)" where
  "AuthService_Session H S now token s =
     (case (au_repo S, au_cipher S) of
        (Some R, Some cipher) \<Rightarrow>
          if token = []
          then (s, Inl (Unauthorized ''session_required'' (Msg ''Authentication is required.'')))
          else
     (case ar_Session R (sha256 (ah_crypto H) token) s of
        (s1, Inr (identity, True)) \<Rightarrow>
          if \<not> After (id_SessionExpiresAt identity) now
          then (s1, Inl (Unauthorized ''session_invalid'' (Msg ''The session is invalid or expired.'')))
          else
     (case Decrypt (ah_aead H) cipher (id_EmailCiphertext identity) (id_UserID identity) of
        Inl e \<Rightarrow> (s1, Inl (Unauthorized ''session_invalid'' (Msg ''The session is invalid or expired.'')))
      | Inr decrypted \<Rightarrow> (s1, Inr (sessionView identity decrypted)))
      | (s1, _) \<Rightarrow> (s1, Inl (Unauthorized ''session_invalid'' (Msg ''The session is invalid or expired.''))))
      | _ \<Rightarrow> (s, Inl (Unauthorized ''session_required'' (Msg ''Authentication is required.''))))"

definition AuthService_Logout ::
  "auth_host \<Rightarrow> 's AuthService \<Rightarrow> string \<Rightarrow> 's \<Rightarrow> 's \<times> (goerr + unit)" where
  "AuthService_Logout H S token s =
     (case au_repo S of
        None \<Rightarrow> (s, Inr ())
      | Some R \<Rightarrow>
          if token = [] then (s, Inr ())
          else
            (let hash = sha256 (ah_crypto H) token
             in case ar_Session R hash s of
                  (s1, found) \<Rightarrow>
                    (case ar_RevokeSession R hash s1 of
                       (s2, Inl err) \<Rightarrow> (s2, Inl err)
                     | (s2, Inr _) \<Rightarrow>
                         (case found of
                            Inr (identity, True) \<Rightarrow>
                              ar_RecordAudit R (id_ProjectID identity) (id_UserID identity) ''auth.logout''
                                ''session'' ''current'' s2
                          | _ \<Rightarrow> (s2, Inr ())))))"

definition LoginThrottleKey :: "auth_host \<Rightarrow> 's AuthService \<Rightarrow> string \<Rightarrow> string" where
  "LoginThrottleKey H S email =
     (case au_cipher S of
        None \<Rightarrow> []
      | Some cipher \<Rightarrow>
          raw_encode base64_url (BlindIndex (ah_crypto H) cipher (normalize_email H email)))"

subsection \<open>Project settings\<close>

text \<open>
  These operations use the service's repository without asking whether it is there; the
  model takes the repository they use.
\<close>

definition found_or :: "Error \<Rightarrow> Error \<Rightarrow> 's \<times> (goerr + 'a \<times> bool) \<Rightarrow> 's \<times> (Error + 'a)" where
  "found_or failed missing x =
     (case x of
        (s', Inl _) \<Rightarrow> (s', Inl failed)
      | (s', Inr (item, ok)) \<Rightarrow> (s', if ok then Inr item else Inl missing))"

definition all_or :: "Error \<Rightarrow> 's \<times> (goerr + 'a) \<Rightarrow> 's \<times> (Error + 'a)" where
  "all_or failed x = (case x of (s', Inl _) \<Rightarrow> (s', Inl failed) | (s', Inr items) \<Rightarrow> (s', Inr items))"

definition AuthService_Project :: "'s AuthRepository \<Rightarrow> string \<Rightarrow> 's \<Rightarrow> 's \<times> (Error + ProjectView)" where
  "AuthService_Project R projectID s =
     found_or (Internal ''project_lookup_failed'' (Msg ''The project could not be loaded.''))
       (NotFound ''project'' projectID) (ar_Project R projectID s)"

definition AuthService_UpdateProject ::
  "'s AuthRepository \<Rightarrow> SessionView \<Rightarrow> string \<Rightarrow> int \<Rightarrow> 's \<Rightarrow> 's \<times> (Error + ProjectView)" where
  "AuthService_UpdateProject R identity name0 retentionDays s =
     (let name = TrimSpace name0
      in if name = [] \<and> retentionDays = 0
         then (s, Inl (Invalid ''parameter_missing'' (Msg ''name or retention_days is required.'') []))
         else if length name > 120
         then (s, Inl (Invalid ''invalid_project_name'' (Msg ''name must be at most 120 characters.'') ''name''))
         else if retentionDays \<noteq> 0 \<and> (retentionDays < 1 \<or> retentionDays > 3650)
         then (s, Inl (Invalid ''invalid_retention_days''
           (Msg ''retention_days must be between 1 and 3650.'') ''retention_days''))
         else found_or (Internal ''project_update_failed'' (Msg ''The project could not be updated.''))
                (NotFound ''project'' (pv_ID (sv_Project identity)))
                (ar_UpdateProject R (pv_ID (sv_Project identity)) name retentionDays
                   (uv_ID (sv_User identity)) s))"

definition AuthService_Environments ::
  "'s AuthRepository \<Rightarrow> string \<Rightarrow> 's \<Rightarrow> 's \<times> (Error + Environment list)" where
  "AuthService_Environments R projectID s =
     all_or (Internal ''environment_lookup_failed'' (Msg ''Environments could not be loaded.''))
       (ar_Environments R projectID s)"

definition AuthService_SelectEnvironment ::
  "'s AuthRepository \<Rightarrow> SessionView \<Rightarrow> string \<Rightarrow> 's \<Rightarrow> 's \<times> (Error + Environment)" where
  "AuthService_SelectEnvironment R identity i s =
     found_or (Internal ''environment_update_failed'' (Msg ''The environment could not be selected.''))
       (NotFound ''environment'' i)
       (ar_SelectEnvironment R (pv_ID (sv_Project identity)) i (uv_ID (sv_User identity)) s)"

definition AuthService_Findings ::
  "'s AuthRepository \<Rightarrow> string \<Rightarrow> string \<Rightarrow> 's \<Rightarrow> 's \<times> (Error + Finding list)" where
  "AuthService_Findings R projectID status0 s =
     (let status = (if status0 = ''all'' then [] else status0)
      in if status \<noteq> [] \<and> status \<noteq> ''open'' \<and> status \<noteq> ''resolved''
         then (s, Inl (Invalid ''invalid_status'' (Msg ''status must be open, resolved, or all.'') ''status''))
         else all_or (Internal ''finding_lookup_failed'' (Msg ''Findings could not be loaded.''))
                (ar_Findings R projectID status s))"

definition AuthService_SetFindingResolved ::
  "'s AuthRepository \<Rightarrow> SessionView \<Rightarrow> string \<Rightarrow> bool \<Rightarrow> 's \<Rightarrow> 's \<times> (Error + Finding)" where
  "AuthService_SetFindingResolved R identity i resolved s =
     found_or (Internal ''finding_update_failed'' (Msg ''The finding could not be updated.''))
       (NotFound ''finding'' i)
       (ar_SetFindingResolved R (pv_ID (sv_Project identity)) i resolved (uv_ID (sv_User identity)) s)"

definition AuthService_Notifications ::
  "'s AuthRepository \<Rightarrow> string \<Rightarrow> 's \<Rightarrow> 's \<times> (Error + Notification list)" where
  "AuthService_Notifications R projectID s =
     all_or (Internal ''notification_lookup_failed'' (Msg ''Notifications could not be loaded.''))
       (ar_Notifications R projectID s)"

definition AuthService_MarkNotificationRead ::
  "'s AuthRepository \<Rightarrow> time \<Rightarrow> SessionView \<Rightarrow> string \<Rightarrow> 's \<Rightarrow> 's \<times> (Error + Notification)" where
  "AuthService_MarkNotificationRead R now identity i s =
     found_or (Internal ''notification_update_failed'' (Msg ''The notification could not be updated.''))
       (NotFound ''notification'' i)
       (ar_MarkNotificationRead R now (pv_ID (sv_Project identity)) i (uv_ID (sv_User identity)) s)"

definition AuthService_MarkAllNotificationsRead ::
  "'s AuthRepository \<Rightarrow> time \<Rightarrow> SessionView \<Rightarrow> 's \<Rightarrow> 's \<times> (Error + int)" where
  "AuthService_MarkAllNotificationsRead R now identity s =
     all_or (Internal ''notification_update_failed'' (Msg ''Notifications could not be updated.''))
       (ar_MarkAllNotificationsRead R now (pv_ID (sv_Project identity)) (uv_ID (sv_User identity)) s)"

definition AuthService_Connections ::
  "'s AuthRepository \<Rightarrow> string \<Rightarrow> 's \<Rightarrow> 's \<times> (Error + StripeConnection list)" where
  "AuthService_Connections R projectID s =
     all_or (Internal ''connection_lookup_failed'' (Msg ''Connections could not be loaded.''))
       (ar_Connections R projectID s)"

end
