(* ===== verification/AuthSpec.thy ===== *)
theory AuthSpec
  imports AuthService
begin

text \<open>
  What authentication promises.  Passwords verify exactly against the hash made from them
  under the fixed cost parameters.  Over every history the service with its in-memory
  repository behaves as a plain table of accounts by email and of live sessions by token: a
  data refinement that removes the blind index, the encryption of emails, the digests of
  tokens, the copies of project settings in the user records and the search over the users.
\<close>

subsection \<open>Passwords\<close>

text \<open>\<^verbatim>\<open>argon2.IDKey\<close> returns a key of the requested length.\<close>

definition argon2_ok :: "auth_host \<Rightarrow> bool" where
  "argon2_ok H \<longleftrightarrow> (\<forall>pw salt t m p n. length (ah_argon2 H pw salt t m p n) = n)"

lemma base64_no_dollar: "CHR ''$'' \<notin> set (raw_encode base64_std bs)"
proof -
  have "CHR ''$'' \<notin> set base64_std" by code_simp
  then show ?thesis using raw_encode_chars [OF base64_alphabets(2), of bs] by blast
qed

lemma password_text_parts:
  "Split (password_text salt hash) (CHR ''$'') =
     [[], ''argon2id'', ''v=19'', ''m=65536,t=1,p=4'', raw_encode base64_std salt, raw_encode base64_std hash]"
proof -
  have "password_text salt hash = [] @ CHR ''$'' # ''argon2id'' @ CHR ''$'' # ''v=19'' @ CHR ''$'' #
      ''m=65536,t=1,p=4'' @ CHR ''$'' # raw_encode base64_std salt @ CHR ''$'' # raw_encode base64_std hash"
    by (simp add: password_text_def)
  then show ?thesis
    by (simp only: Split_append_sep) (simp add: Split_append_sep Split_no_sep base64_no_dollar)
qed

lemma password_params_text: "password_params (Split ''m=65536,t=1,p=4'' (CHR '','')) (0, 0, 0) = Some (65536, 1, 4)"
  by (simp add: Cut_def ParseUint_def digits_val_def digit_val_def)

lemma verifyPassword_text:
  assumes "length hash = 32"
  shows "verifyPassword H (password_text salt hash) pw \<longleftrightarrow> ah_argon2 H pw salt 1 65536 4 32 = hash"
  using assms
  by (simp add: verifyPassword_def password_text_parts password_params_text [simplified] Let_def)

lemma hashPassword_verifies:
  assumes "argon2_ok H" and "hashPassword H rnd pw = Inr enc"
  shows "verifyPassword H enc pw"
  using assms by (auto simp: hashPassword_def argon2_ok_def verifyPassword_text split: sum.splits)

text \<open>
  A stored password is checked exactly: the hash of a password accepts that password, and
  another only if Argon2 maps both to one key under the stored salt.  No encoding is ever
  accepted with other cost parameters than 64 MiB, one pass and four threads or with a key
  of another length, whatever the stored text claims, and the hash an unknown account is
  checked against accepts no password that Argon2 does not map to its key.
\<close>

theorem password_checked:
  assumes "argon2_ok H" and "hashPassword H rnd pw = Inr enc"
  shows "verifyPassword H enc pw \<and>
    (\<exists>salt. rnd 16 = Inr salt \<and> (\<forall>pw'. verifyPassword H enc pw' \<longleftrightarrow>
       ah_argon2 H pw' salt 1 65536 4 32 = ah_argon2 H pw salt 1 65536 4 32)) \<and>
    (\<forall>enc' pw'. verifyPassword H enc' pw' \<longrightarrow> (\<exists>salt. length (Split enc' (CHR ''$'')) = 6 \<and>
       raw_decode base64_std (Split enc' (CHR ''$'') ! 4) = Some salt \<and>
       raw_decode base64_std (Split enc' (CHR ''$'') ! 5) = Some (ah_argon2 H pw' salt 1 65536 4 32))) \<and>
    (\<forall>pw'. verifyPassword H (dummyPasswordHash H) pw' \<longleftrightarrow>
       ah_argon2 H pw' ''paritylab-dummy!'' 1 65536 4 32 =
       ah_argon2 H ''not-a-user-password'' ''paritylab-dummy!'' 1 65536 4 32)"
proof -
  obtain salt where salt: "rnd 16 = Inr salt"
      "enc = password_text salt (ah_argon2 H pw salt 1 65536 4 32)"
    using assms(2) by (auto simp: hashPassword_def split: sum.splits)
  have len: "length (ah_argon2 H p s t m n 32) = 32" for p s t m n
    using assms(1) by (simp add: argon2_ok_def)
  have "\<exists>salt. length (Split enc' (CHR ''$'')) = 6 \<and>
       raw_decode base64_std (Split enc' (CHR ''$'') ! 4) = Some salt \<and>
       raw_decode base64_std (Split enc' (CHR ''$'') ! 5) = Some (ah_argon2 H pw' salt 1 65536 4 32)"
    if "verifyPassword H enc' pw'" for enc' pw'
    using that by (auto simp: verifyPassword_def Let_def split: if_splits option.splits)
  then show ?thesis
    using hashPassword_verifies [OF assms] salt
    by (auto simp: verifyPassword_text len dummyPasswordHash_def Let_def)
qed

definition mock_host :: auth_host where
  "mock_host = \<lparr>ah_crypto = echo_crypto, ah_aead = plain_aead,
     ah_argon2 = \<lambda>pw salt t m p n. take n (pw @ replicate n (CHR ''.'')), ah_unicodeLower = \<lambda>s. s\<rparr>"

lemma argon2_mock: "argon2_ok mock_host"
  by (simp add: argon2_ok_def mock_host_def min_def)

theorem password_checked_witness:
  "\<exists>enc. hashPassword mock_host zero_random ''a fine password'' = Inr enc \<and>
     verifyPassword mock_host enc ''a fine password'' \<and> \<not> verifyPassword mock_host enc ''another password''"
proof -
  obtain enc where enc: "hashPassword mock_host zero_random ''a fine password'' = Inr enc"
    by (simp add: hashPassword_def zero_random_def)
  obtain salt where "\<forall>pw'. verifyPassword mock_host enc pw' \<longleftrightarrow>
       ah_argon2 mock_host pw' salt 1 65536 4 32 = ah_argon2 mock_host ''a fine password'' salt 1 65536 4 32"
    using password_checked [OF argon2_mock enc] by (elim conjE exE) (rule that)
  then show ?thesis
    using enc by (intro exI [of _ enc]) (simp add: mock_host_def)
qed

subsection \<open>The specification\<close>

text \<open>Accounts by their normalised email, projects by identifier, live sessions by token.\<close>

record account =
  ac_UserID :: string
  ac_OrganizationID :: string
  ac_OrganizationName :: string
  ac_ProjectID :: string
  ac_PasswordHash :: string

record auth_spec =
  sp_accounts :: "string \<rightharpoonup> account"
  sp_projects :: "string \<rightharpoonup> ProjectView"
  sp_live :: "string \<rightharpoonup> string \<times> time"

definition account_view :: "auth_spec \<Rightarrow> account \<Rightarrow> string \<Rightarrow> time \<Rightarrow> SessionView" where
  "account_view a ac email expires =
     \<lparr>sv_Authenticated = True, sv_User = \<lparr>uv_ID = ac_UserID ac, uv_Email = email\<rparr>,
      sv_Organization = \<lparr>ov_ID = ac_OrganizationID ac, ov_Name = ac_OrganizationName ac, ov_Role = ''owner''\<rparr>,
      sv_Project = get0 zero_Project (sp_projects a) (ac_ProjectID ac), sv_ExpiresAt = expires\<rparr>"

datatype auth_request =
    Registers time draws string string string string
  | LogsIn time random string string
  | LogsOut string
  | Asks time string
  | Renames SessionView string int

datatype auth_response =
    Started "Error + SessionView \<times> string"
  | Ended "goerr + unit"
  | Shown "Error + SessionView"
  | Updated "Error + ProjectView"

text \<open>The service answers a request.\<close>

fun auth_exec ::
  "auth_host \<Rightarrow> 's AuthService \<Rightarrow> 's AuthRepository \<Rightarrow> auth_request \<Rightarrow> 's \<Rightarrow> 's \<times> auth_response" where
  "auth_exec H S R (Registers now rnd email pw org proj) s =
     apsnd Started (AuthService_Register H S now rnd email pw org proj s)"
| "auth_exec H S R (LogsIn now rnd email pw) s = apsnd Started (AuthService_Login H S now rnd email pw s)"
| "auth_exec H S R (LogsOut token) s = apsnd Ended (AuthService_Logout H S token s)"
| "auth_exec H S R (Asks now token) s = apsnd Shown (AuthService_Session H S now token s)"
| "auth_exec H S R (Renames identity name days) s =
     apsnd Updated (AuthService_UpdateProject R identity name days s)"

text \<open>The tables answer it.  The random draws of a request decide identifiers, salt and token.\<close>

definition missing_names :: Error where
  "missing_names = Invalid ''parameter_missing''
     (Msg ''workspace_name and project_name are required.'') ''workspace_name''"

definition wrong_credentials :: Error where
  "wrong_credentials = Unauthorized ''invalid_credentials'' (Msg ''The email or password is incorrect.'')"

definition no_session :: Error where
  "no_session = Unauthorized ''session_invalid'' (Msg ''The session is invalid or expired.'')"

definition spec_register ::
  "auth_host \<Rightarrow> time \<Rightarrow> draws \<Rightarrow> string \<Rightarrow> string \<Rightarrow> string \<Rightarrow> string \<Rightarrow> auth_spec \<Rightarrow>
   auth_spec \<times> (Error + SessionView \<times> string)" where
  "spec_register H now rnd email pw org proj a =
     (case validateCredentials H email pw of
        Inl e \<Rightarrow> (a, Inl e)
      | Inr n \<Rightarrow>
          if TrimSpace org = [] \<or> TrimSpace proj = [] then (a, Inl missing_names)
          else if sp_accounts a n \<noteq> None
          then (a, Inl (Conflict ''account_exists'' (Msg ''An account with this email already exists.'') ''email''))
          else
            (let p = projr (randomUUID (rnd 2));
                 ac = \<lparr>ac_UserID = projr (randomUUID (rnd 0)), ac_OrganizationID = projr (randomUUID (rnd 1)),
                       ac_OrganizationName = TrimSpace org, ac_ProjectID = p,
                       ac_PasswordHash = projr (hashPassword H (rnd 3) pw)\<rparr>;
                 token = fst (projr (newSessionToken (ah_crypto H) (rnd 5)));
                 a' = a\<lparr>sp_accounts := (sp_accounts a)(n \<mapsto> ac),
                        sp_projects := (sp_projects a)(p \<mapsto>
                          \<lparr>pv_ID = p, pv_Name = TrimSpace proj, pv_RetentionDays = 30\<rparr>),
                        sp_live := (sp_live a)(token \<mapsto> (n, now + SessionTTL))\<rparr>
             in (a', Inr (account_view a' ac n (now + SessionTTL), token))))"

definition spec_login ::
  "auth_host \<Rightarrow> time \<Rightarrow> random \<Rightarrow> string \<Rightarrow> string \<Rightarrow> auth_spec \<Rightarrow>
   auth_spec \<times> (Error + SessionView \<times> string)" where
  "spec_login H now rnd email pw a =
     (let n = normalize_email H email in
      case sp_accounts a n of
        None \<Rightarrow> (a, Inl wrong_credentials)
      | Some ac \<Rightarrow>
          if \<not> verifyPassword H (ac_PasswordHash ac) pw then (a, Inl wrong_credentials)
          else
            (let token = fst (projr (newSessionToken (ah_crypto H) rnd)) in
             (a\<lparr>sp_live := (sp_live a)(token \<mapsto> (n, now + SessionTTL))\<rparr>,
              Inr (account_view a ac n (now + SessionTTL), token))))"

definition spec_session :: "time \<Rightarrow> string \<Rightarrow> auth_spec \<Rightarrow> Error + SessionView" where
  "spec_session now token a =
     (if token = [] then Inl (Unauthorized ''session_required'' (Msg ''Authentication is required.''))
      else case sp_live a token of
        None \<Rightarrow> Inl no_session
      | Some (n, expires) \<Rightarrow>
          if expires \<le> now then Inl no_session
          else Inr (account_view a (the (sp_accounts a n)) n expires))"

definition spec_rename :: "string \<Rightarrow> string \<Rightarrow> int \<Rightarrow> auth_spec \<Rightarrow> auth_spec \<times> (Error + ProjectView)" where
  "spec_rename p name0 days a =
     (let name = TrimSpace name0 in
      if name = [] \<and> days = 0
      then (a, Inl (Invalid ''parameter_missing'' (Msg ''name or retention_days is required.'') []))
      else if length name > 120
      then (a, Inl (Invalid ''invalid_project_name'' (Msg ''name must be at most 120 characters.'') ''name''))
      else if days \<noteq> 0 \<and> (days < 1 \<or> days > 3650)
      then (a, Inl (Invalid ''invalid_retention_days''
        (Msg ''retention_days must be between 1 and 3650.'') ''retention_days''))
      else case sp_projects a p of
        None \<Rightarrow> (a, Inl (NotFound ''project'' p))
      | Some v0 \<Rightarrow>
          (let v = v0\<lparr>pv_Name := if name = [] then pv_Name v0 else name,
                      pv_RetentionDays := if days = 0 then pv_RetentionDays v0 else days\<rparr>
           in (a\<lparr>sp_projects := (sp_projects a)(p \<mapsto> v)\<rparr>, Inr v)))"

fun spec_exec :: "auth_host \<Rightarrow> auth_request \<Rightarrow> auth_spec \<Rightarrow> auth_spec \<times> auth_response" where
  "spec_exec H (Registers now rnd email pw org proj) a =
     apsnd Started (spec_register H now rnd email pw org proj a)"
| "spec_exec H (LogsIn now rnd email pw) a = apsnd Started (spec_login H now rnd email pw a)"
| "spec_exec H (LogsOut token) a =
     (if token = [] then a else a\<lparr>sp_live := (sp_live a)(token := None)\<rparr>, Ended (Inr ()))"
| "spec_exec H (Asks now token) a = (a, Shown (spec_session now token a))"
| "spec_exec H (Renames identity name days) a =
     apsnd Updated (spec_rename (pv_ID (sv_Project identity)) name days a)"

subsection \<open>Simulation\<close>

text \<open>
  What the deployment provides: a sound cipher, no collisions among the emails \<^verbatim>\<open>E\<close> and the tokens
  \<^verbatim>\<open>T\<close> that occur, and iterations that visit every key of a map once.
\<close>

definition deployment_ok ::
  "auth_host \<Rightarrow> Cipher \<Rightarrow> auth_iteration \<Rightarrow> string set \<Rightarrow> string set \<Rightarrow> bool" where
  "deployment_ok H c it E T \<longleftrightarrow> aead_ok (ah_aead H) \<and> inj_on (BlindIndex (ah_crypto H) c) E \<and>
     inj_on (sha256 (ah_crypto H)) T \<and> (\<forall>m. finite (dom m) \<longrightarrow> enumerates (ai_users it m) m)"

text \<open>A stored user is the record of an account; its copy of the project settings is current.\<close>

definition stored_account :: "auth_host \<Rightarrow> Cipher \<Rightarrow> auth_spec \<Rightarrow> string \<Rightarrow> account \<Rightarrow> IdentityRecord \<Rightarrow> bool" where
  "stored_account H c a n ac u \<longleftrightarrow>
     id_UserID u = ac_UserID ac \<and> id_PasswordHash u = ac_PasswordHash ac \<and>
     id_OrganizationID u = ac_OrganizationID ac \<and> id_OrganizationName u = ac_OrganizationName ac \<and>
     id_Role u = ''owner'' \<and> id_ProjectID u = ac_ProjectID ac \<and>
     Decrypt (ah_aead H) c (id_EmailCiphertext u) (ac_UserID ac) = Inr n \<and>
     sp_projects a (ac_ProjectID ac) = Some \<lparr>pv_ID = ac_ProjectID ac, pv_Name = id_ProjectName u,
       pv_RetentionDays = id_RetentionDays u\<rparr>"

definition live_record :: "auth_host \<Rightarrow> auth_spec \<Rightarrow> string \<Rightarrow> string \<times> time \<Rightarrow> SessionRecord \<Rightarrow> bool" where
  "live_record H a token = (\<lambda>(n, expires) s. \<exists>ac. sp_accounts a n = Some ac \<and>
     s = \<lparr>se_TokenHash = sha256 (ah_crypto H) token, se_UserID = ac_UserID ac,
          se_ProjectID = ac_ProjectID ac, se_ExpiresAt = expires\<rparr>)"

lemma sp_live_irrelevant [simp]:
  "stored_account H c (a\<lparr>sp_live := l\<rparr>) = stored_account H c a"
  "live_record H (a\<lparr>sp_live := l\<rparr>) = live_record H a"
  by (simp_all add: fun_eq_iff stored_account_def live_record_def)

definition auth_sim ::
  "auth_host \<Rightarrow> Cipher \<Rightarrow> string set \<Rightarrow> string set \<Rightarrow> AuthMemory \<Rightarrow> auth_spec \<Rightarrow> bool" where
  "auth_sim H c E T r a \<longleftrightarrow>
     finite (dom (am_users r)) \<and> dom (sp_accounts a) \<subseteq> E \<and> dom (sp_live a) \<subseteq> T \<and>
     am_projects r = sp_projects a \<and>
     (\<forall>n \<in> E. rel_option (stored_account H c a n) (sp_accounts a n)
        (am_users r (BlindIndex (ah_crypto H) c n))) \<and>
     dom (am_users r) \<subseteq> BlindIndex (ah_crypto H) c ` E \<and>
     (\<forall>token \<in> T. rel_option (live_record H a token) (sp_live a token)
        (am_sessions r (sha256 (ah_crypto H) token))) \<and>
     dom (am_sessions r) \<subseteq> sha256 (ah_crypto H) ` T \<and>
     inj_on (\<lambda>n. ac_UserID (the (sp_accounts a n))) (dom (sp_accounts a))"

lemma auth_simD:
  assumes "auth_sim H c E T r a"
  shows "finite (dom (am_users r))" "dom (sp_accounts a) \<subseteq> E" "dom (sp_live a) \<subseteq> T"
    "am_projects r = sp_projects a"
    "n \<in> E \<Longrightarrow> rel_option (stored_account H c a n) (sp_accounts a n) (am_users r (BlindIndex (ah_crypto H) c n))"
    "dom (am_users r) \<subseteq> BlindIndex (ah_crypto H) c ` E"
    "token \<in> T \<Longrightarrow> rel_option (live_record H a token) (sp_live a token) (am_sessions r (sha256 (ah_crypto H) token))"
    "dom (am_sessions r) \<subseteq> sha256 (ah_crypto H) ` T"
    "inj_on (\<lambda>n. ac_UserID (the (sp_accounts a n))) (dom (sp_accounts a))"
  using assms by (simp_all add: auth_sim_def)

lemma sim_user:
  assumes "auth_sim H c E T r a" and "sp_accounts a n = Some ac"
  obtains u where "am_users r (BlindIndex (ah_crypto H) c n) = Some u" "stored_account H c a n ac u"
  using auth_simD(5) [OF assms(1), of n] auth_simD(2) [OF assms(1)] assms(2)
  by (auto simp: option_rel_Some1)

lemma sim_user_unique:
  assumes "auth_sim H c E T r a" and "am_users r k = Some u" and "sp_accounts a n = Some ac"
    and "id_UserID u = ac_UserID ac"
  shows "k = BlindIndex (ah_crypto H) c n"
proof -
  obtain m where m: "m \<in> E" "k = BlindIndex (ah_crypto H) c m"
    using auth_simD(6) [OF assms(1)] assms(2) by blast
  then obtain bc where bc: "sp_accounts a m = Some bc" "stored_account H c a m bc u"
    using auth_simD(5) [OF assms(1) m(1)] assms(2) by (auto simp: option_rel_Some2)
  then have "ac_UserID (the (sp_accounts a m)) = ac_UserID (the (sp_accounts a n))"
    using assms(3,4) by (simp add: stored_account_def)
  then have "m = n"
    using auth_simD(9) [OF assms(1)] bc(1) assms(3)
    by (metis (mono_tags, lifting) domI inj_onD)
  with m(2) show ?thesis by simp
qed

lemma sim_session:
  assumes "auth_sim H c E T r a" and "deployment_ok H c it E T" and "token \<in> T"
  shows "Auth_Session (ai_users it (am_users r)) (sha256 (ah_crypto H) token) r =
    (case sp_live a token of
       None \<Rightarrow> Inr (zero_Identity, False)
     | Some (n, expires) \<Rightarrow> Inr ((the (am_users r (BlindIndex (ah_crypto H) c n)))
         \<lparr>id_SessionExpiresAt := expires\<rparr>, True))"
proof (cases "sp_live a token")
  case None
  then show ?thesis
    using auth_simD(7) [OF assms(1,3)] by (simp add: Auth_Session_def)
next
  case (Some y)
  obtain n expires where y: "y = (n, expires)" by fastforce
  obtain ac where ac: "sp_accounts a n = Some ac"
      "am_sessions r (sha256 (ah_crypto H) token) =
       Some \<lparr>se_TokenHash = sha256 (ah_crypto H) token, se_UserID = ac_UserID ac,
          se_ProjectID = ac_ProjectID ac, se_ExpiresAt = expires\<rparr>"
    using auth_simD(7) [OF assms(1,3)] Some by (auto simp: y live_record_def option_rel_Some1)
  obtain u where u: "am_users r (BlindIndex (ah_crypto H) c n) = Some u" "stored_account H c a n ac u"
    using sim_user [OF assms(1) ac(1)] .
  let ?keys = "ai_users it (am_users r)"
  let ?P = "\<lambda>v. id_UserID v = ac_UserID ac \<and> id_ProjectID v = ac_ProjectID ac"
  have keys: "set ?keys = dom (am_users r)"
    using assms(2) auth_simD(1) [OF assms(1)] by (simp add: deployment_ok_def enumerates_def)
  have "find ?P (map (get0 zero_Identity (am_users r)) ?keys) = Some u"
  proof -
    have only: "v = u" if "v \<in> set (map (get0 zero_Identity (am_users r)) ?keys)" "?P v" for v
    proof -
      from that(1) have "\<exists>k \<in> set ?keys. v = get0 zero_Identity (am_users r) k" by auto
      then obtain k where k: "k \<in> set ?keys" "v = get0 zero_Identity (am_users r) k" by blast
      then have "am_users r k = Some v"
        unfolding keys by (auto simp: get0_def)
      with sim_user_unique [OF assms(1) this ac(1)] that(2) u(1) show ?thesis by auto
    qed
    have "u \<in> set (map (get0 zero_Identity (am_users r)) ?keys)" "?P u"
      using u by (auto simp: keys stored_account_def image_iff intro!: bexI [of _ "BlindIndex (ah_crypto H) c n"])
    then obtain v where "find ?P (map (get0 zero_Identity (am_users r)) ?keys) = Some v"
      by (metis (mono_tags, lifting) find_None_iff option.exhaust)
    with only show ?thesis by (metis (mono_tags, lifting) find_SomeD)
  qed
  then show ?thesis
    by (simp add: Auth_Session_def ac(2) Some y u(1))
qed

text \<open>What each write does to the simulation.\<close>

lemma sim_live:
  assumes "auth_sim H c E T r a" and "deployment_ok H c it E T" and "token \<in> T"
    and "sp_accounts a n = Some ac"
  shows "auth_sim H c E T
    (r\<lparr>am_sessions := (am_sessions r)(sha256 (ah_crypto H) token \<mapsto>
       \<lparr>se_TokenHash = sha256 (ah_crypto H) token, se_UserID = ac_UserID ac,
        se_ProjectID = ac_ProjectID ac, se_ExpiresAt = expires\<rparr>)\<rparr>)
    (a\<lparr>sp_live := (sp_live a)(token \<mapsto> (n, expires))\<rparr>)"
proof -
  have inj: "sha256 (ah_crypto H) t = sha256 (ah_crypto H) token \<longleftrightarrow> t = token" if "t \<in> T" for t
    using assms(2,3) that by (auto simp: deployment_ok_def dest: inj_onD)
  have "live_record H a token (n, expires) \<lparr>se_TokenHash = sha256 (ah_crypto H) token,
      se_UserID = ac_UserID ac, se_ProjectID = ac_ProjectID ac, se_ExpiresAt = expires\<rparr>"
    using assms(4) by (simp add: live_record_def)
  with assms(1,3) show ?thesis
    by (auto simp: auth_sim_def inj)
qed

lemma sim_revoke:
  assumes "auth_sim H c E T r a" and "deployment_ok H c it E T" and "token \<in> T"
  shows "auth_sim H c E T (r\<lparr>am_sessions := (am_sessions r)(sha256 (ah_crypto H) token := None)\<rparr>)
    (a\<lparr>sp_live := (sp_live a)(token := None)\<rparr>)"
proof -
  have inj: "sha256 (ah_crypto H) t = sha256 (ah_crypto H) token \<longleftrightarrow> t = token" if "t \<in> T" for t
    using assms(2,3) that by (auto simp: deployment_ok_def dest: inj_onD)
  show ?thesis
    using assms(1,3) by (auto simp: auth_sim_def inj)
qed

lemma sim_account:
  assumes "auth_sim H c E T r a" and "deployment_ok H c it E T" and "n \<in> E"
    and "sp_accounts a n = None" and "sp_projects a (ac_ProjectID ac) = None"
    and "\<forall>m bc. sp_accounts a m = Some bc \<longrightarrow> ac_UserID bc \<noteq> ac_UserID ac"
    and "v = \<lparr>pv_ID = ac_ProjectID ac, pv_Name = id_ProjectName u, pv_RetentionDays = id_RetentionDays u\<rparr>"
    and "stored_account H c (a\<lparr>sp_projects := (sp_projects a)(ac_ProjectID ac \<mapsto> v)\<rparr>) n ac u"
  shows "auth_sim H c E T
    (r\<lparr>am_users := (am_users r)(BlindIndex (ah_crypto H) c n \<mapsto> u),
       am_projects := (am_projects r)(ac_ProjectID ac \<mapsto> v), am_environments := envs\<rparr>)
    (a\<lparr>sp_accounts := (sp_accounts a)(n \<mapsto> ac), sp_projects := (sp_projects a)(ac_ProjectID ac \<mapsto> v)\<rparr>)"
    (is "auth_sim H c E T ?r ?a")
proof -
  have inj: "BlindIndex (ah_crypto H) c m = BlindIndex (ah_crypto H) c n \<longleftrightarrow> m = n" if "m \<in> E" for m
    using assms(2,3) that by (auto simp: deployment_ok_def dest: inj_onD)
  have old: "stored_account H c a m bc w \<Longrightarrow> stored_account H c ?a m bc w" for m bc w
    using assms(5) by (auto simp: stored_account_def)
  have live: "live_record H a t x s \<Longrightarrow> live_record H ?a t x s" for t x s
    using assms(4) by (cases x) (auto simp: live_record_def)
  have new: "stored_account H c ?a n ac u"
    using assms(8) by (simp add: stored_account_def)
  have users: "\<forall>m \<in> E. rel_option (stored_account H c ?a m) (sp_accounts ?a m)
      (am_users ?r (BlindIndex (ah_crypto H) c m))"
  proof
    fix m assume m: "m \<in> E"
    have "rel_option (stored_account H c ?a m) (sp_accounts a m) (am_users r (BlindIndex (ah_crypto H) c m))"
      using auth_simD(5) [OF assms(1) m] by (rule option.rel_mono_strong) (rule old)
    then show "rel_option (stored_account H c ?a m) (sp_accounts ?a m) (am_users ?r (BlindIndex (ah_crypto H) c m))"
      using new inj [OF m] by simp
  qed
  have sessions: "\<forall>t \<in> T. rel_option (live_record H ?a t) (sp_live ?a t) (am_sessions ?r (sha256 (ah_crypto H) t))"
  proof
    fix t assume t: "t \<in> T"
    have "rel_option (live_record H ?a t) (sp_live a t) (am_sessions r (sha256 (ah_crypto H) t))"
      using auth_simD(7) [OF assms(1) t] by (rule option.rel_mono_strong) (rule live)
    then show "rel_option (live_record H ?a t) (sp_live ?a t) (am_sessions ?r (sha256 (ah_crypto H) t))"
      by simp
  qed
  have unique: "inj_on (\<lambda>m. ac_UserID (the (sp_accounts ?a m))) (dom (sp_accounts ?a))"
    using auth_simD(9) [OF assms(1)] assms(4,6) by (auto simp: inj_on_def) (metis option.sel)+
  show ?thesis
    unfolding auth_sim_def
    using auth_simD(1-4,6,8) [OF assms(1)] assms(3) users sessions unique by auto
qed

definition renamed :: "string \<Rightarrow> ProjectView \<Rightarrow> IdentityRecord \<Rightarrow> IdentityRecord" where
  "renamed p v u = (if id_ProjectID u = p
     then u\<lparr>id_ProjectName := pv_Name v, id_RetentionDays := pv_RetentionDays v\<rparr> else u)"

lemma rename_users_distinct:
  assumes "distinct keys" and "set keys \<subseteq> dom users"
  shows "\<forall>k. rename_users p v keys users k =
    (if k \<in> set keys then map_option (renamed p v) (users k) else users k)"
  using assms
proof (induction keys rule: rev_induct)
  case Nil
  then show ?case by (simp add: rename_users_def)
next
  case (snoc j js)
  let ?m = "rename_users p v js users"
  have IH: "?m k = (if k \<in> set js then map_option (renamed p v) (users k) else users k)" for k
    using snoc by auto
  obtain u where u: "users j = Some u" and j: "j \<notin> set js" using snoc.prems by auto
  then have mj: "?m j = Some u" using IH [of j] by simp
  have "rename_users p v (js @ [j]) users =
      (if id_ProjectID u = p then ?m(j \<mapsto> renamed p v u) else ?m)"
    using mj by (simp add: rename_users_def renamed_def Let_def)
  then show ?case
    using IH u j mj by (auto simp: renamed_def)
qed

lemma rename_users_all:
  assumes "enumerates keys users"
  shows "rename_users p v keys users k = map_option (renamed p v) (users k)"
  using rename_users_distinct [of keys users p v] assms
  by (cases "users k") (auto simp: enumerates_def)

lemma sim_rename:
  assumes "auth_sim H c E T r a" and "enumerates keys (am_users r)" and "sp_projects a p = Some v0"
    and "v = v0\<lparr>pv_Name := nm, pv_RetentionDays := days\<rparr>"
  shows "auth_sim H c E T
    (r\<lparr>am_projects := (am_projects r)(p \<mapsto> v), am_users := rename_users p v keys (am_users r)\<rparr>)
    (a\<lparr>sp_projects := (sp_projects a)(p \<mapsto> v)\<rparr>)" (is "auth_sim H c E T ?r ?a")
proof -
  have users: "am_users ?r k = map_option (renamed p v) (am_users r k)" for k
    by (simp add: rename_users_all [OF assms(2)])
  have st: "stored_account H c a m bc w \<Longrightarrow> stored_account H c ?a m bc (renamed p v w)" for m bc w
    using assms(3,4) by (auto simp: stored_account_def renamed_def)
  have live: "live_record H ?a = live_record H a"
    by (simp add: fun_eq_iff live_record_def)
  have "\<forall>m \<in> E. rel_option (stored_account H c ?a m) (sp_accounts ?a m)
      (am_users ?r (BlindIndex (ah_crypto H) c m))"
  proof
    fix m assume "m \<in> E"
    from auth_simD(5) [OF assms(1) this] st
    show "rel_option (stored_account H c ?a m) (sp_accounts ?a m) (am_users ?r (BlindIndex (ah_crypto H) c m))"
      unfolding users by (auto simp: option.rel_map elim: option.rel_mono_strong)
  qed
  moreover have "dom (am_users ?r) = dom (am_users r)"
    unfolding dom_def users by simp
  ultimately show ?thesis
    using auth_simD(1-4,6-9) [OF assms(1)] by (simp add: auth_sim_def live)
qed

subsection \<open>Refinement\<close>

definition working :: "random \<Rightarrow> bool" where
  "working rnd \<longleftrightarrow> (\<forall>n. \<exists>bs. rnd n = Inr bs \<and> length bs = n)"

text \<open>
  A request's emails and tokens are among those that do not collide, its random source works,
  and the identifiers it draws for a new account are new.
\<close>

fun request_ok :: "auth_host \<Rightarrow> string set \<Rightarrow> string set \<Rightarrow> auth_spec \<Rightarrow> auth_request \<Rightarrow> bool" where
  "request_ok H E T a (Registers now rnd email pw org proj) \<longleftrightarrow>
     (\<forall>k. working (rnd k)) \<and> normalize_email H email \<in> E \<and>
     fst (projr (newSessionToken (ah_crypto H) (rnd 5))) \<in> T \<and>
     sp_projects a (projr (randomUUID (rnd 2))) = None \<and>
     (\<forall>n ac. sp_accounts a n = Some ac \<longrightarrow> ac_UserID ac \<noteq> projr (randomUUID (rnd 0)))"
| "request_ok H E T a (LogsIn now rnd email pw) \<longleftrightarrow>
     working rnd \<and> normalize_email H email \<in> E \<and> fst (projr (newSessionToken (ah_crypto H) rnd)) \<in> T"
| "request_ok H E T a (LogsOut token) \<longleftrightarrow> token \<in> T"
| "request_ok H E T a (Asks now token) \<longleftrightarrow> token \<in> T"
| "request_ok H E T a (Renames identity name days) \<longleftrightarrow> True"

lemma working_draws:
  assumes "working rnd"
  shows "\<exists>i. randomUUID rnd = Inr i" "\<exists>e. hashPassword H rnd pw = Inr e"
    "\<exists>t. Encrypt A c rnd p d = Inr t"
    "\<exists>token. newSessionToken C rnd = Inr (token, sha256 C token)" "random_ok rnd"
proof -
  obtain b16 b12 b32 where "rnd 16 = Inr b16" "rnd NonceSize = Inr b12" "rnd 32 = Inr b32"
    using assms unfolding working_def by blast
  then show "\<exists>i. randomUUID rnd = Inr i" "\<exists>e. hashPassword H rnd pw = Inr e"
    "\<exists>t. Encrypt A c rnd p d = Inr t" "\<exists>token. newSessionToken C rnd = Inr (token, sha256 C token)"
    by (simp_all add: randomUUID_def hashPassword_def Encrypt_def newSessionToken_def Let_def)
  show "random_ok rnd"
    using assms unfolding working_def random_ok_def by (metis sum.inject(2))
qed

lemma stored_view:
  assumes "stored_account H c a n ac u"
  shows "sessionView (u\<lparr>id_SessionExpiresAt := expires\<rparr>) n = account_view a ac n expires"
  using assms by (simp add: stored_account_def sessionView_def account_view_def)

lemma auth_port_simps [simp]:
  "ar_Register (auth_memory_port it lister) = Auth_Register"
  "ar_UserByEmailHash (auth_memory_port it lister) = (\<lambda>h. auth_reads (Auth_UserByEmailHash h))"
  "ar_CreateSession (auth_memory_port it lister) = Auth_CreateSession"
  "ar_Session (auth_memory_port it lister) =
     (\<lambda>h. auth_reads (\<lambda>r. Auth_Session (ai_users it (am_users r)) h r))"
  "ar_RevokeSession (auth_memory_port it lister) = Auth_RevokeSession"
  "ar_UpdateProject (auth_memory_port it lister) =
     (\<lambda>i name retention actor r. Auth_UpdateProject (ai_users it (am_users r)) i name retention actor r)"
  "ar_RecordAudit (auth_memory_port it lister) = Auth_RecordAudit"
  by (simp_all add: auth_memory_port_def)

definition memory_auth :: "auth_iteration \<Rightarrow> (string \<Rightarrow> goerr + StripeConnection list) option \<Rightarrow> Cipher \<Rightarrow>
    AuthMemory AuthService" where
  "memory_auth it lister c = \<lparr>au_repo = Some (auth_memory_port it lister), au_cipher = Some c\<rparr>"

lemma memory_auth_parts [simp]:
  "au_repo (memory_auth it lister c) = Some (auth_memory_port it lister)"
  "au_cipher (memory_auth it lister c) = Some c"
  by (simp_all add: memory_auth_def)

lemma refine_session:
  assumes "auth_sim H c E T r a" and "deployment_ok H c it E T" and "token \<in> T"
  shows "AuthService_Session H (memory_auth it lister c) now token r = (r, spec_session now token a)"
proof (cases "sp_live a token")
  case None
  then show ?thesis
    by (simp add: AuthService_Session_def spec_session_def auth_reads_def sim_session [OF assms] no_session_def)
next
  case (Some y)
  obtain n expires where y: "y = (n, expires)" by fastforce
  obtain ac where ac: "sp_accounts a n = Some ac"
    using auth_simD(7) [OF assms(1,3)] Some by (auto simp: y live_record_def option_rel_Some1)
  obtain u where u: "am_users r (BlindIndex (ah_crypto H) c n) = Some u" "stored_account H c a n ac u"
    using sim_user [OF assms(1) ac] .
  have dec: "Decrypt (ah_aead H) c (id_EmailCiphertext u) (id_UserID u) = Inr n"
    using u(2) by (simp add: stored_account_def)
  show ?thesis
    by (simp add: AuthService_Session_def spec_session_def auth_reads_def sim_session [OF assms] no_session_def
        Some y u(1) ac dec stored_view [OF u(2)] After_def)
qed

lemma refine_logout:
  assumes "auth_sim H c E T r a" and "deployment_ok H c it E T" and "token \<in> T"
  shows "\<exists>r'. AuthService_Logout H (memory_auth it lister c) token r = (r', Inr ()) \<and>
    auth_sim H c E T r' (if token = [] then a else a\<lparr>sp_live := (sp_live a)(token := None)\<rparr>)"
proof (cases "token = []")
  case True
  with assms(1) show ?thesis by (simp add: AuthService_Logout_def)
next
  case False
  have "AuthService_Logout H (memory_auth it lister c) token r =
      (r\<lparr>am_sessions := (am_sessions r)(sha256 (ah_crypto H) token := None)\<rparr>, Inr ())"
    using False
    by (auto simp: AuthService_Logout_def auth_reads_def Auth_RevokeSession_def Auth_RecordAudit_def
        Let_def split: sum.split prod.split bool.split)
  with False sim_revoke [OF assms] show ?thesis by simp
qed

lemma refine_login:
  assumes "auth_sim H c E T r a" and "deployment_ok H c it E T"
    and "request_ok H E T a (LogsIn now rnd email pw)"
  shows "\<exists>r'. AuthService_Login H (memory_auth it lister c) now rnd email pw r =
      (r', snd (spec_login H now rnd email pw a)) \<and>
    auth_sim H c E T r' (fst (spec_login H now rnd email pw a))"
proof -
  let ?n = "normalize_email H email"
  have n: "?n \<in> E" using assms(3) by simp
  note rel = auth_simD(5) [OF assms(1) n]
  show ?thesis
  proof (cases "sp_accounts a ?n")
    case None
    then have "am_users r (BlindIndex (ah_crypto H) c ?n) = None" using rel by simp
    then show ?thesis
      using None assms(1)
      by (simp add: AuthService_Login_def spec_login_def auth_reads_def Auth_UserByEmailHash_def
          wrong_credentials_def Let_def)
  next
    case (Some ac)
    obtain u where u: "am_users r (BlindIndex (ah_crypto H) c ?n) = Some u" "stored_account H c a ?n ac u"
      using sim_user [OF assms(1) Some] .
    have f: "id_PasswordHash u = ac_PasswordHash ac" "id_UserID u = ac_UserID ac"
        "id_ProjectID u = ac_ProjectID ac" "Decrypt (ah_aead H) c (id_EmailCiphertext u) (ac_UserID ac) = Inr ?n"
      using u(2) by (simp_all add: stored_account_def)
    show ?thesis
    proof (cases "verifyPassword H (ac_PasswordHash ac) pw")
      case False
      then show ?thesis
        using Some assms(1)
        by (simp add: AuthService_Login_def spec_login_def auth_reads_def Auth_UserByEmailHash_def
            wrong_credentials_def Let_def u(1) f)
    next
      case True
      obtain token where token: "newSessionToken (ah_crypto H) rnd = Inr (token, sha256 (ah_crypto H) token)"
        using working_draws(4) assms(3) by fastforce
      then have "token \<in> T" using assms(3) by simp
      note live = sim_live [OF assms(1,2) this Some, of "now + SessionTTL"]
      show ?thesis
        using live
        by (simp add: AuthService_Login_def spec_login_def auth_reads_def Auth_UserByEmailHash_def Let_def
            Some True u(1) f start_session_def token Auth_CreateSession_def Auth_RecordAudit_def
            stored_view [OF u(2)])
    qed
  qed
qed

lemma refine_register:
  assumes "auth_sim H c E T r a" and "deployment_ok H c it E T"
    and "request_ok H E T a (Registers now rnd email pw org proj)"
  shows "\<exists>r'. AuthService_Register H (memory_auth it lister c) now rnd email pw org proj r =
      (r', snd (spec_register H now rnd email pw org proj a)) \<and>
    auth_sim H c E T r' (fst (spec_register H now rnd email pw org proj a))"
proof (cases "validateCredentials H email pw")
  case (Inl e)
  then show ?thesis
    using assms(1) by (simp add: AuthService_Register_def spec_register_def)
next
  case (Inr n)
  then have n: "n = normalize_email H email" "n \<in> E"
    using assms(3) by (auto simp: validateCredentials_def Let_def split: if_splits)
  have w: "working (rnd k)" for k using assms(3) by simp
  obtain uid oid pid enc ct token where d: "randomUUID (rnd 0) = Inr uid" "randomUUID (rnd 1) = Inr oid"
      "randomUUID (rnd 2) = Inr pid" "hashPassword H (rnd 3) pw = Inr enc"
      "Encrypt (ah_aead H) c (rnd 4) n uid = Inr ct"
      "newSessionToken (ah_crypto H) (rnd 5) = Inr (token, sha256 (ah_crypto H) token)"
    using working_draws [OF w] by metis
  have dec: "Decrypt (ah_aead H) c ct uid = Inr n"
    using Decrypt_Encrypt [OF _ working_draws(5) [OF w] d(5)] assms(2) by (simp add: deployment_ok_def)
  note rel = auth_simD(5) [OF assms(1) n(2)]
  let ?B = "BlindIndex (ah_crypto H) c n"
  show ?thesis
  proof (cases "TrimSpace org = [] \<or> TrimSpace proj = []")
    case True
    then show ?thesis
      using Inr assms(1) by (auto simp: AuthService_Register_def spec_register_def missing_names_def)
  next
    case False
    define reg where "reg = new_registration H c (now + SessionTTL) n org proj uid oid pid enc ct (sha256 (ah_crypto H) token)"
    have run: "AuthService_Register H (memory_auth it lister c) now rnd email pw org proj r =
        store_registration (auth_memory_port it lister) reg n token r"
      using False Inr d by (simp add: AuthService_Register_def reg_def)
    show ?thesis
    proof (cases "sp_accounts a n")
      case (Some ac)
      then have "am_users r ?B \<noteq> None" using rel by (auto simp: option_rel_Some1)
      then show ?thesis
        using Some False Inr assms(1)
        by (simp add: run store_registration_def Auth_Register_def reg_def new_registration_def spec_register_def)
    next
      case None
      then have none: "am_users r ?B = None" using rel by simp
      define ac where "ac = \<lparr>ac_UserID = uid, ac_OrganizationID = oid, ac_OrganizationName = TrimSpace org,
        ac_ProjectID = pid, ac_PasswordHash = enc\<rparr>"
      define v where "v = \<lparr>pv_ID = pid, pv_Name = TrimSpace proj, pv_RetentionDays = (30::int)\<rparr>"
      define u where "u = registered_identity reg"
      define a1 where "a1 = a\<lparr>sp_accounts := (sp_accounts a)(n \<mapsto> ac), sp_projects := (sp_projects a)(pid \<mapsto> v)\<rparr>"
      define r1 where "r1 = r\<lparr>am_users := (am_users r)(?B \<mapsto> u), am_projects := (am_projects r)(pid \<mapsto> v),
        am_environments := (am_environments r)(pid \<mapsto> default_environments pid)\<rparr>"
      have acs: "ac_ProjectID ac = pid" "ac_UserID ac = uid" by (simp_all add: ac_def)
      have fresh: "sp_projects a pid = None" "\<forall>m bc. sp_accounts a m = Some bc \<longrightarrow> ac_UserID bc \<noteq> uid"
        using assms(3) d by simp_all
      have stored: "stored_account H c (a\<lparr>sp_projects := (sp_projects a)(pid \<mapsto> v)\<rparr>) n ac u"
        by (simp add: stored_account_def u_def registered_identity_def reg_def new_registration_def ac_def v_def dec)
      have vu: "v = \<lparr>pv_ID = pid, pv_Name = id_ProjectName u, pv_RetentionDays = id_RetentionDays u\<rparr>"
        by (simp add: v_def u_def registered_identity_def reg_def new_registration_def)
      have sim1: "auth_sim H c E T r1 a1"
        unfolding r1_def a1_def
        by (rule sim_account [where ac = ac, OF assms(1,2) n(2) None, unfolded acs, OF fresh vu stored])
      have tT: "token \<in> T" using assms(3) d(6) by simp
      have a1n: "sp_accounts a1 n = Some ac" by (simp add: a1_def)
      note sim2 = sim_live [OF sim1 assms(2) tT a1n, of "now + SessionTTL"]
      have spec: "spec_register H now rnd email pw org proj a =
          (a1\<lparr>sp_live := (sp_live a1)(token \<mapsto> (n, now + SessionTTL))\<rparr>,
           Inr (account_view a1 ac n (now + SessionTTL), token))"
        using Inr False None d
        by (simp add: spec_register_def Let_def a1_def ac_def v_def account_view_def)
      have impl: "store_registration (auth_memory_port it lister) reg n token r =
          (r1\<lparr>am_sessions := (am_sessions r1)(sha256 (ah_crypto H) token \<mapsto>
             \<lparr>se_TokenHash = sha256 (ah_crypto H) token, se_UserID = ac_UserID ac,
              se_ProjectID = ac_ProjectID ac, se_ExpiresAt = now + SessionTTL\<rparr>)\<rparr>,
           Inr (account_view a1 ac n (now + SessionTTL), token))"
        using none
        by (simp add: store_registration_def Auth_Register_def reg_def new_registration_def r1_def u_def
            v_def ac_def a1_def account_view_def sessionView_def registered_identity_def)
      show ?thesis
        unfolding run impl spec using sim2 by simp
    qed
  qed
qed

lemma refine_rename:
  assumes "auth_sim H c E T r a" and "deployment_ok H c it E T"
  shows "\<exists>r'. AuthService_UpdateProject (auth_memory_port it lister) identity name days r =
      (r', snd (spec_rename (pv_ID (sv_Project identity)) name days a)) \<and>
    auth_sim H c E T r' (fst (spec_rename (pv_ID (sv_Project identity)) name days a))"
proof -
  let ?p = "pv_ID (sv_Project identity)" and ?name = "TrimSpace name"
  let ?keys = "ai_users it (am_users r)"
  have keys: "enumerates ?keys (am_users r)"
    using assms(2) auth_simD(1) [OF assms(1)] by (simp add: deployment_ok_def)
  have proj: "am_projects r = sp_projects a" by (rule auth_simD(4) [OF assms(1)])
  show ?thesis
  proof (cases "?name = [] \<and> days = 0 \<or> length ?name > 120 \<or> days \<noteq> 0 \<and> (days < 1 \<or> days > 3650) \<or>
      sp_projects a ?p = None")
    case True
    then show ?thesis
      using assms(1)
      by (auto simp: AuthService_UpdateProject_def spec_rename_def Auth_UpdateProject_def proj found_or_def Let_def)
  next
    case False
    then obtain v0 where v0: "sp_projects a ?p = Some v0" by auto
    define v where "v = v0\<lparr>pv_Name := if ?name = [] then pv_Name v0 else ?name,
      pv_RetentionDays := if days = 0 then pv_RetentionDays v0 else days\<rparr>"
    have upd: "Auth_UpdateProject ?keys ?p ?name days actor r =
        (r\<lparr>am_projects := (am_projects r)(?p \<mapsto> v), am_users := rename_users ?p v ?keys (am_users r)\<rparr>, Inr (v, True))"
      for actor
      using False v0 by (auto simp: Auth_UpdateProject_def proj v_def Let_def)
    have "AuthService_UpdateProject (auth_memory_port it lister) identity name days r =
        (r\<lparr>am_projects := (am_projects r)(?p \<mapsto> v), am_users := rename_users ?p v ?keys (am_users r)\<rparr>, Inr v)"
      using False by (simp add: AuthService_UpdateProject_def upd found_or_def Let_def)
    moreover have "spec_rename ?p name days a = (a\<lparr>sp_projects := (sp_projects a)(?p \<mapsto> v)\<rparr>, Inr v)"
      using False v0 by (simp add: spec_rename_def v_def Let_def)
    ultimately show ?thesis
      using sim_rename [OF assms(1) keys v0 v_def] by simp
  qed
qed

lemma refine_step:
  assumes "auth_sim H c E T r a" and "deployment_ok H c it E T" and "request_ok H E T a q"
  shows "\<exists>r'. auth_exec H (memory_auth it lister c) (auth_memory_port it lister) q r = (r', snd (spec_exec H q a)) \<and>
    auth_sim H c E T r' (fst (spec_exec H q a))"
proof (cases q)
  case (Registers now rnd email pw org proj)
  with refine_register [OF assms [unfolded Registers], of lister] show ?thesis by auto
next
  case (LogsIn now rnd email pw)
  with refine_login [OF assms [unfolded LogsIn], of lister] show ?thesis by auto
next
  case (LogsOut token)
  with refine_logout [OF assms(1,2), of token lister] assms(3) show ?thesis by auto
next
  case (Asks now token)
  with refine_session [OF assms(1,2), of token lister now] assms(1,3) show ?thesis by simp
next
  case (Renames identity name days)
  with refine_rename [OF assms(1,2), of lister identity name days] show ?thesis by auto
qed

fun auth_run :: "('q \<Rightarrow> 's \<Rightarrow> 's \<times> 'x) \<Rightarrow> 'q list \<Rightarrow> 's \<Rightarrow> 's \<times> 'x list" where
  "auth_run exec [] s = (s, [])"
| "auth_run exec (q # qs) s = (case exec q s of (s1, x) \<Rightarrow> apsnd ((#) x) (auth_run exec qs s1))"

fun history_ok :: "auth_host \<Rightarrow> string set \<Rightarrow> string set \<Rightarrow> auth_request list \<Rightarrow> auth_spec \<Rightarrow> bool" where
  "history_ok H E T [] a \<longleftrightarrow> True"
| "history_ok H E T (q # qs) a \<longleftrightarrow> request_ok H E T a q \<and> history_ok H E T qs (fst (spec_exec H q a))"

definition no_accounts :: auth_spec where
  "no_accounts = \<lparr>sp_accounts = Map.empty, sp_projects = Map.empty, sp_live = Map.empty\<rparr>"

lemma sim_start: "auth_sim H c E T NewAuthMemory no_accounts"
  by (simp add: auth_sim_def NewAuthMemory_def no_accounts_def)

lemma refine_run:
  assumes "auth_sim H c E T r a" and "deployment_ok H c it E T" and "history_ok H E T qs a"
  shows "\<exists>r'. auth_run (auth_exec H (memory_auth it lister c) (auth_memory_port it lister)) qs r =
      (r', snd (auth_run (spec_exec H) qs a)) \<and>
    auth_sim H c E T r' (fst (auth_run (spec_exec H) qs a))"
  using assms
proof (induction qs arbitrary: r a)
  case Nil
  then show ?case by simp
next
  case (Cons q qs)
  obtain a1 x where spec: "spec_exec H q a = (a1, x)" by fastforce
  obtain r1 where r1: "auth_exec H (memory_auth it lister c) (auth_memory_port it lister) q r = (r1, x)"
      "auth_sim H c E T r1 a1"
    using refine_step [OF Cons.prems(1,2), of q lister] Cons.prems(3) spec by auto
  with Cons.IH [OF r1(2) Cons.prems(2)] Cons.prems(3) spec show ?case by auto
qed

text \<open>
  C40. Authentication refines a table.  Over every history of registrations, logins, logouts, session
  checks and project updates, from the empty repository, the service answers each request as a plain
  table of accounts by normalised email and of live sessions by token does: duplicate emails
  are conflicts, wrong credentials and unknown emails are one error, a session shows the account it was
  started for with the current project settings until it expires or is logged out.
\<close>

theorem auth_refines:
  assumes "deployment_ok H c it E T" and "history_ok H E T qs no_accounts"
  shows "snd (auth_run (auth_exec H (memory_auth it lister c) (auth_memory_port it lister)) qs NewAuthMemory) =
    snd (auth_run (spec_exec H) qs no_accounts)"
  using refine_run [OF sim_start assms, of lister] by auto

subsection \<open>The life of a session\<close>

text \<open>The last word on a token in a history is that it was issued, with the view \<^verbatim>\<open>v\<close>.\<close>

definition standing :: "(auth_request \<times> auth_response) list \<Rightarrow> string \<Rightarrow> SessionView \<Rightarrow> bool" where
  "standing tr token v \<longleftrightarrow> (\<exists>before q after. tr = before @ (q, Started (Inr (v, token))) # after \<and>
     (\<forall>(q', x) \<in> set after. q' \<noteq> LogsOut token \<and> (\<forall>w. x \<noteq> Started (Inr (w, token)))))"

lemma standing_snoc:
  "standing (tr @ [(q, x)]) token v \<longleftrightarrow>
     x = Started (Inr (v, token)) \<or>
     (q \<noteq> LogsOut token \<and> (\<forall>w. x \<noteq> Started (Inr (w, token))) \<and> standing tr token v)"
proof
  assume "standing (tr @ [(q, x)]) token v"
  then obtain before q0 after where t: "tr @ [(q, x)] = before @ (q0, Started (Inr (v, token))) # after"
      "\<forall>(q', x) \<in> set after. q' \<noteq> LogsOut token \<and> (\<forall>w. x \<noteq> Started (Inr (w, token)))"
    unfolding standing_def by blast
  show "x = Started (Inr (v, token)) \<or>
     (q \<noteq> LogsOut token \<and> (\<forall>w. x \<noteq> Started (Inr (w, token))) \<and> standing tr token v)"
  proof (cases after rule: rev_cases)
    case Nil
    with t(1) show ?thesis by simp
  next
    case (snoc ys y)
    with t have "tr = before @ (q0, Started (Inr (v, token))) # ys" "y = (q, x)" by auto
    with t(2) snoc show ?thesis unfolding standing_def by auto
  qed
next
  assume "x = Started (Inr (v, token)) \<or>
     (q \<noteq> LogsOut token \<and> (\<forall>w. x \<noteq> Started (Inr (w, token))) \<and> standing tr token v)"
  then show "standing (tr @ [(q, x)]) token v"
  proof (elim disjE conjE)
    assume "x = Started (Inr (v, token))"
    then show ?thesis unfolding standing_def by (intro exI [of _ tr] exI [of _ q] exI [of _ "[]"]) simp
  next
    assume q: "q \<noteq> LogsOut token" "\<forall>w. x \<noteq> Started (Inr (w, token))" and "standing tr token v"
    then obtain before q0 after where "tr = before @ (q0, Started (Inr (v, token))) # after"
        "\<forall>(q', x) \<in> set after. q' \<noteq> LogsOut token \<and> (\<forall>w. x \<noteq> Started (Inr (w, token)))"
      unfolding standing_def by blast
    with q show ?thesis
      unfolding standing_def by (intro exI [of _ before] exI [of _ q0] exI [of _ "after @ [(q, x)]"]) auto
  qed
qed

lemma spec_register_cases:
  obtains (refused) e where "spec_register H now rnd email pw org proj a = (a, Inl e)"
  | (created) n ac p v token a' where "sp_accounts a n = None"
      "a' = a\<lparr>sp_accounts := (sp_accounts a)(n \<mapsto> ac), sp_projects := (sp_projects a)(p \<mapsto> v),
        sp_live := (sp_live a)(token \<mapsto> (n, now + SessionTTL))\<rparr>"
      "spec_register H now rnd email pw org proj a = (a', Inr (account_view a' ac n (now + SessionTTL), token))"
proof (cases "validateCredentials H email pw")
  case (Inl e)
  then show ?thesis by (intro refused [of e]) (simp add: spec_register_def)
next
  case (Inr n)
  show ?thesis
  proof (cases "TrimSpace org = [] \<or> TrimSpace proj = [] \<or> sp_accounts a n \<noteq> None")
    case True
    then have "spec_register H now rnd email pw org proj a =
        (a, Inl (if TrimSpace org = [] \<or> TrimSpace proj = [] then missing_names
          else Conflict ''account_exists'' (Msg ''An account with this email already exists.'') ''email''))"
      using Inr by (cases "sp_accounts a n") (auto simp: spec_register_def)
    then show ?thesis by (rule refused)
  next
    case False
    show ?thesis
      by (rule created [OF _ refl, of n]) (use False Inr in \<open>simp_all add: spec_register_def Let_def\<close>)
  qed
qed

lemma spec_login_cases:
  obtains (refused) "spec_login H now rnd email pw a = (a, Inl wrong_credentials)"
  | (started) n ac token where "sp_accounts a n = Some ac"
      "spec_login H now rnd email pw a = (a\<lparr>sp_live := (sp_live a)(token \<mapsto> (n, now + SessionTTL))\<rparr>,
         Inr (account_view a ac n (now + SessionTTL), token))"
proof (cases "sp_accounts a (normalize_email H email)")
  case None
  then show ?thesis by (intro refused) (simp add: spec_login_def Let_def)
next
  case (Some ac)
  show ?thesis
  proof (cases "verifyPassword H (ac_PasswordHash ac) pw")
    case False
    with Some show ?thesis by (intro refused) (simp add: spec_login_def Let_def)
  next
    case True
    with Some show ?thesis by (intro started [OF Some]) (simp add: spec_login_def Let_def)
  qed
qed

text \<open>What a request does to the tables of accounts and sessions.\<close>

lemma spec_exec_cases:
  obtains (issue) v token ac where "snd (spec_exec H q a) = Started (Inr (v, token))" "\<And>t. q \<noteq> LogsOut t"
      "sp_live (fst (spec_exec H q a)) = (sp_live a)(token \<mapsto> (uv_Email (sv_User v), sv_ExpiresAt v))"
      "sp_accounts (fst (spec_exec H q a)) (uv_Email (sv_User v)) = Some ac" "ac_UserID ac = uv_ID (sv_User v)"
      "sp_accounts a \<subseteq>\<^sub>m sp_accounts (fst (spec_exec H q a))"
  | (revoke) token where "q = LogsOut token" "token \<noteq> []" "\<And>y. snd (spec_exec H q a) \<noteq> Started y"
      "sp_live (fst (spec_exec H q a)) = (sp_live a)(token := None)"
      "sp_accounts (fst (spec_exec H q a)) = sp_accounts a"
  | (keep) "\<And>t. q = LogsOut t \<Longrightarrow> t = []" "\<And>y. snd (spec_exec H q a) \<noteq> Started (Inr y)"
      "sp_live (fst (spec_exec H q a)) = sp_live a" "sp_accounts (fst (spec_exec H q a)) = sp_accounts a"
proof (cases q)
  case (Registers now rnd email pw org proj)
  show ?thesis
  proof (cases rule: spec_register_cases [of H now rnd email pw org proj a])
    case (refused e)
    with Registers show ?thesis by (intro keep) auto
  next
    case (created n ac p v token a')
    then have "sp_accounts a \<subseteq>\<^sub>m sp_accounts a'"
      by (auto simp: map_le_def)
    with Registers created show ?thesis
      by (intro issue [of "account_view a' ac n (now + SessionTTL)" token ac]) (simp_all add: account_view_def)
  qed
next
  case (LogsIn now rnd email pw)
  show ?thesis
  proof (cases rule: spec_login_cases [of H now rnd email pw a])
    case refused
    with LogsIn show ?thesis by (intro keep) auto
  next
    case (started n ac token)
    with LogsIn show ?thesis
      by (intro issue [of "account_view a ac n (now + SessionTTL)" token ac]) (simp_all add: account_view_def)
  qed
next
  case (LogsOut token)
  show ?thesis
  proof (cases "token = []")
    case True
    with LogsOut show ?thesis by (intro keep) auto
  next
    case False
    with LogsOut show ?thesis by (intro revoke [of token]) auto
  qed
next
  case (Asks now token)
  then show ?thesis by (intro keep) auto
next
  case (Renames identity name days)
  then show ?thesis
    by (intro keep) (auto simp: spec_rename_def Let_def split: option.splits if_splits)
qed

definition traced :: "auth_spec \<Rightarrow> (auth_request \<times> auth_response) list \<Rightarrow> bool" where
  "traced a tr \<longleftrightarrow> (\<forall>token. token \<noteq> [] \<longrightarrow>
     (\<forall>v. standing tr token v \<longrightarrow> sp_live a token = Some (uv_Email (sv_User v), sv_ExpiresAt v) \<and>
        (\<exists>ac. sp_accounts a (uv_Email (sv_User v)) = Some ac \<and> ac_UserID ac = uv_ID (sv_User v))) \<and>
     (sp_live a token \<noteq> None \<longrightarrow> (\<exists>v. standing tr token v)))"

lemma traced_step:
  assumes "traced a tr"
  shows "traced (fst (spec_exec H q a)) (tr @ [(q, snd (spec_exec H q a))])"
proof (cases rule: spec_exec_cases [of H q a])
  case (issue v token ac)
  have "(\<forall>w. standing (tr @ [(q, snd (spec_exec H q a))]) t w \<longrightarrow>
       sp_live (fst (spec_exec H q a)) t = Some (uv_Email (sv_User w), sv_ExpiresAt w) \<and>
       (\<exists>ac. sp_accounts (fst (spec_exec H q a)) (uv_Email (sv_User w)) = Some ac \<and> ac_UserID ac = uv_ID (sv_User w))) \<and>
     (sp_live (fst (spec_exec H q a)) t \<noteq> None \<longrightarrow> (\<exists>w. standing (tr @ [(q, snd (spec_exec H q a))]) t w))"
    if "t \<noteq> []" for t
  proof (cases "t = token")
    case True
    then have "standing (tr @ [(q, snd (spec_exec H q a))]) t w \<longleftrightarrow> w = v" for w
      using issue(1) by (auto simp: standing_snoc)
    then show ?thesis using issue True by simp
  next
    case False
    have "standing (tr @ [(q, snd (spec_exec H q a))]) t w \<longleftrightarrow> standing tr t w" for w
      using False issue(1,2) by (auto simp: standing_snoc)
    moreover have "sp_live (fst (spec_exec H q a)) t = sp_live a t"
      using False issue(3) by simp
    moreover have "sp_accounts (fst (spec_exec H q a)) n = Some bc" if "sp_accounts a n = Some bc" for n bc
      using issue(6) that by (metis domI map_le_def)
    ultimately show ?thesis
      using assms that unfolding traced_def by metis
  qed
  then show ?thesis unfolding traced_def by blast
next
  case (revoke token)
  have "standing (tr @ [(q, snd (spec_exec H q a))]) t = (\<lambda>w. t \<noteq> token \<and> standing tr t w)" for t
    using revoke(1,3) by (auto simp: standing_snoc fun_eq_iff)
  then show ?thesis
    using assms revoke(4,5) unfolding traced_def by simp
next
  case keep
  have "t \<noteq> [] \<Longrightarrow> standing (tr @ [(q, snd (spec_exec H q a))]) t = standing tr t" for t
    using keep(1,2) by (auto simp: standing_snoc fun_eq_iff)
  then show ?thesis
    using assms keep(3,4) unfolding traced_def by simp
qed

lemma traced_run:
  "traced a tr \<Longrightarrow> traced (fst (auth_run (spec_exec H) qs a)) (tr @ zip qs (snd (auth_run (spec_exec H) qs a)))"
proof (induction qs arbitrary: a tr)
  case Nil
  then show ?case by simp
next
  case (Cons q qs)
  obtain a1 x where q: "spec_exec H q a = (a1, x)" by fastforce
  with Cons.IH [OF traced_step [OF Cons.prems, of H q]] show ?case by simp
qed

text \<open>When a session was started: the time of the registration or login that issued its token.\<close>

fun asked_at :: "auth_request \<Rightarrow> time option" where
  "asked_at (Registers now rnd email pw org proj) = Some now"
| "asked_at (LogsIn now rnd email pw) = Some now"
| "asked_at q = None"

definition standing_since ::
  "(auth_request \<times> auth_response) list \<Rightarrow> string \<Rightarrow> time \<Rightarrow> SessionView \<Rightarrow> bool" where
  "standing_since tr token t v \<longleftrightarrow> (\<exists>before q after. tr = before @ (q, Started (Inr (v, token))) # after \<and>
     asked_at q = Some t \<and>
     (\<forall>(q', x) \<in> set after. q' \<noteq> LogsOut token \<and> (\<forall>w. x \<noteq> Started (Inr (w, token)))))"

lemma started_expiry:
  assumes "snd (spec_exec H q a) = Started (Inr (v, token))"
  shows "\<exists>t. asked_at q = Some t \<and> sv_ExpiresAt v = t + 24 * 60 * 60 * 1000000000"
proof (cases q)
  case (Registers now rnd email pw org proj)
  with assms show ?thesis
    by (cases rule: spec_register_cases [of H now rnd email pw org proj a])
      (auto simp: account_view_def SessionTTL_def Hour_def)
next
  case (LogsIn now rnd email pw)
  with assms show ?thesis
    by (cases rule: spec_login_cases [of H now rnd email pw a])
      (auto simp: account_view_def SessionTTL_def Hour_def)
qed (use assms in auto)

lemma run_expiry:
  "(q, Started (Inr (v, token))) \<in> set (zip qs (snd (auth_run (spec_exec H) qs a))) \<Longrightarrow>
     \<exists>t. asked_at q = Some t \<and> sv_ExpiresAt v = t + 24 * 60 * 60 * 1000000000"
proof (induction qs arbitrary: a)
  case Nil
  then show ?case by simp
next
  case (Cons q0 qs)
  obtain a1 x where q: "spec_exec H q0 a = (a1, x)" by fastforce
  with Cons.prems consider "q = q0" "x = Started (Inr (v, token))"
    | "(q, Started (Inr (v, token))) \<in> set (zip qs (snd (auth_run (spec_exec H) qs a1)))"
    by (auto split: prod.splits)
  then show ?case
    by cases (use started_expiry [of H q0 a v token] q Cons.IH in auto)
qed

lemma standing_since_iff:
  assumes "tr = zip qs (snd (auth_run (spec_exec H) qs a))"
  shows "standing_since tr token t v \<longleftrightarrow>
    standing tr token v \<and> sv_ExpiresAt v = t + 24 * 60 * 60 * 1000000000"
proof -
  have "asked_at q = Some t \<longleftrightarrow> sv_ExpiresAt v = t + 24 * 60 * 60 * 1000000000"
    if "tr = before @ (q, Started (Inr (v, token))) # after" for before q after
    using run_expiry [of q v token qs H a] that unfolding assms [symmetric] by auto
  then show ?thesis
    unfolding standing_since_def standing_def by blast
qed

text \<open>
  C39. A session lives from its login or registration to its logout or for 24 hours, and no longer.  After
  any history from the empty repository, a non-empty token is accepted at a time if and only if a
  registration or login issued it, no later request logged it out or issued it again, and fewer than
  24 hours (in nanoseconds) have passed since the time of that request; it then shows the account
  that registered or logged in and that expiry.
\<close>

theorem session_lifetime:
  assumes "deployment_ok H c it E T" and "history_ok H E T qs no_accounts" and "token \<in> T" and "token \<noteq> []"
    and "auth_run (auth_exec H (memory_auth it lister c) (auth_memory_port it lister)) qs NewAuthMemory = (r, xs)"
    and "AuthService_Session H (memory_auth it lister c) now token r = (r', y)"
  shows "r' = r \<and>
    (\<forall>t v. standing_since (zip qs xs) token t v \<and> now < t + 24 * 60 * 60 * 1000000000 \<longrightarrow>
       (\<exists>w. y = Inr w \<and> sv_User w = sv_User v \<and> sv_ExpiresAt w = t + 24 * 60 * 60 * 1000000000)) \<and>
    (\<forall>w. y = Inr w \<longrightarrow>
       (\<exists>t v. standing_since (zip qs xs) token t v \<and> now < t + 24 * 60 * 60 * 1000000000))"
proof -
  define a where "a = fst (auth_run (spec_exec H) qs no_accounts)"
  have sim: "auth_sim H c E T r a" and xs: "xs = snd (auth_run (spec_exec H) qs no_accounts)"
    using refine_run [OF sim_start assms(1,2), of lister] assms(5) by (auto simp: a_def)
  have y: "r' = r" "y = spec_session now token a"
    using refine_session [OF sim assms(1,3), of lister now] assms(6) by auto
  have "traced no_accounts []"
    by (simp add: traced_def standing_def no_accounts_def)
  from traced_run [OF this, of H qs] have tr: "traced a (zip qs xs)" by (simp add: a_def xs)
  have on: "sp_live a token = Some (uv_Email (sv_User v), sv_ExpiresAt v) \<and>
      (\<exists>ac. sp_accounts a (uv_Email (sv_User v)) = Some ac \<and> ac_UserID ac = uv_ID (sv_User v))"
    if "standing (zip qs xs) token v" for v
    using tr assms(4) that unfolding traced_def by blast
  have off: "\<exists>v. standing (zip qs xs) token v" if "sp_live a token \<noteq> None"
    using tr assms(4) that unfolding traced_def by blast
  have accepted: "\<exists>w. y = Inr w \<and> sv_User w = sv_User v \<and> sv_ExpiresAt w = sv_ExpiresAt v"
    if "standing (zip qs xs) token v" "now < sv_ExpiresAt v" for v
    using on [OF that(1)] that(2) assms(4) by (auto simp: y(2) spec_session_def account_view_def)
  have needed: "\<exists>v. standing (zip qs xs) token v \<and> now < sv_ExpiresAt v" if "y = Inr w" for w
  proof -
    have "sp_live a token \<noteq> None"
      using that by (auto simp: y(2) spec_session_def split: if_splits option.splits)
    then obtain v where v: "standing (zip qs xs) token v" using off by blast
    from on [OF v] that have "now < sv_ExpiresAt v"
      by (auto simp: y(2) spec_session_def split: if_splits)
    with v show ?thesis by blast
  qed
  have since: "standing_since (zip qs xs) token t v \<longleftrightarrow>
      standing (zip qs xs) token v \<and> sv_ExpiresAt v = t + 24 * 60 * 60 * 1000000000" for t v
    by (rule standing_since_iff [of _ qs H no_accounts]) (simp add: xs)
  have "\<exists>t. sv_ExpiresAt v = t + 24 * 60 * 60 * 1000000000" for v
    by (rule exI [of _ "sv_ExpiresAt v - 24 * 60 * 60 * 1000000000"]) simp
  with y(1) accepted needed show ?thesis
    unfolding since by metis
qed

subsection \<open>A history for the witnesses\<close>

lemma auth_iteration_exists: "\<exists>it :: auth_iteration. \<forall>m. finite (dom m) \<longrightarrow> enumerates (ai_users it m) m"
proof -
  have "\<forall>m :: digest \<rightharpoonup> IdentityRecord. \<exists>ks. finite (dom m) \<longrightarrow> enumerates ks m"
    using finite_distinct_list by (metis enumerates_def)
  then obtain f where "\<forall>m :: digest \<rightharpoonup> IdentityRecord. finite (dom m) \<longrightarrow> enumerates (f m) m"
    by metis
  then show ?thesis
    by (intro exI [of _ "\<lparr>ai_users = f, ai_findings = \<lambda>_. [], ai_notifications = \<lambda>_. []\<rparr>"]) simp
qed

definition sample_history :: "auth_request list" where
  "sample_history = [Registers 0 (\<lambda>k. zero_random) ''ada@x.org'' ''a fine password'' ''Acme'' ''Shop'']"

definition sample_token :: string where
  "sample_token = raw_encode base64_url (replicate 32 (CHR ''0''))"

lemma deployment_sample:
  "\<forall>m. finite (dom m) \<longrightarrow> enumerates (ai_users it m) m \<Longrightarrow> deployment_ok mock_host \<lparr>ci_key = [], ci_indexKey = []\<rparr> it UNIV UNIV"
  by (auto simp: deployment_ok_def mock_host_def aead_ok_plain BlindIndex_def echo_crypto_def inj_on_def)

lemma working_zero: "working zero_random"
  by (simp add: working_def zero_random_def)

lemma history_sample: "history_ok mock_host UNIV UNIV sample_history no_accounts"
  by (simp add: sample_history_def working_zero no_accounts_def)

lemma TrimSpace_names:
  "TrimSpace ''ada@x.org'' = ''ada@x.org''" "TrimSpace ''Acme'' = ''Acme''" "TrimSpace ''Shop'' = ''Shop''"
  by code_simp+

lemma sample_started:
  "\<exists>v. snd (auth_run (spec_exec mock_host) sample_history no_accounts) = [Started (Inr (v, sample_token))] \<and>
     uv_Email (sv_User v) = ''ada@x.org'' \<and> sv_ExpiresAt v = SessionTTL"
proof -
  have "validateCredentials mock_host ''ada@x.org'' ''a fine password'' = Inr ''ada@x.org''"
    by (simp add: validateCredentials_def normalize_email_def TrimSpace_names ToLower_def lower_ascii_def)
  moreover have "fst (projr (newSessionToken (ah_crypto mock_host) zero_random)) = sample_token"
    by (simp add: newSessionToken_def zero_random_def sample_token_def Let_def)
  ultimately show ?thesis
    by (simp add: sample_history_def spec_register_def TrimSpace_names no_accounts_def Let_def account_view_def)
qed

theorem auth_refines_witness:
  "\<exists>it v. snd (auth_run (auth_exec mock_host (memory_auth it None \<lparr>ci_key = [], ci_indexKey = []\<rparr>)
       (auth_memory_port it None)) sample_history NewAuthMemory) = [Started (Inr (v, sample_token))]"
proof -
  obtain it :: auth_iteration where "\<forall>m. finite (dom m) \<longrightarrow> enumerates (ai_users it m) m"
    using auth_iteration_exists by (elim exE) (rule that)
  from auth_refines [OF deployment_sample [OF this] history_sample, of None] sample_started
  show ?thesis by metis
qed

text \<open>Accepted in the last nanosecond of the day, refused in the next.\<close>

theorem session_lifetime_witness:
  "\<exists>it r w e. AuthService_Session mock_host (memory_auth it None \<lparr>ci_key = [], ci_indexKey = []\<rparr>)
       (24 * Hour - 1) sample_token r = (r, Inr w) \<and> uv_Email (sv_User w) = ''ada@x.org'' \<and>
     AuthService_Session mock_host (memory_auth it None \<lparr>ci_key = [], ci_indexKey = []\<rparr>)
       (24 * Hour) sample_token r = (r, Inl e)"
proof -
  obtain it :: auth_iteration where it: "\<forall>m. finite (dom m) \<longrightarrow> enumerates (ai_users it m) m"
    using auth_iteration_exists by (elim exE) (rule that)
  let ?c = "\<lparr>ci_key = [], ci_indexKey = []\<rparr>"
  obtain v where v: "snd (auth_run (spec_exec mock_host) sample_history no_accounts) = [Started (Inr (v, sample_token))]"
      "uv_Email (sv_User v) = ''ada@x.org''"
    using sample_started by blast
  obtain r where r: "auth_run (auth_exec mock_host (memory_auth it None ?c) (auth_memory_port it None))
      sample_history NewAuthMemory = (r, [Started (Inr (v, sample_token))])"
    using refine_run [OF sim_start deployment_sample [OF it] history_sample, of None] v(1) by auto
  have ne: "sample_token \<noteq> []" by code_simp
  let ?tr = "zip sample_history [Started (Inr (v, sample_token))]"
  have st: "standing_since ?tr sample_token 0 v"
    unfolding standing_since_def sample_history_def
    by (intro exI [of _ "[]"] exI [of _ "hd sample_history"]) (simp add: sample_history_def)
  have only: "t = 0" if "standing_since ?tr sample_token t u" for t u
    using that by (auto simp: standing_since_def sample_history_def Cons_eq_append_conv)
  obtain r1 y1 where y1: "AuthService_Session mock_host (memory_auth it None ?c) (24 * Hour - 1) sample_token r = (r1, y1)"
    by fastforce
  obtain r2 y2 where y2: "AuthService_Session mock_host (memory_auth it None ?c) (24 * Hour) sample_token r = (r2, y2)"
    by fastforce
  have "24 * Hour - 1 < 0 + 24 * 60 * 60 * 1000000000" by (simp add: Hour_def)
  with session_lifetime [OF deployment_sample [OF it] history_sample UNIV_I ne r y1] st
  obtain w where "y1 = Inr w" "sv_User w = sv_User v" "r1 = r" by blast
  moreover have "r2 = r" "\<exists>e. y2 = Inl e"
    using session_lifetime [OF deployment_sample [OF it] history_sample UNIV_I ne r y2] only
    by (cases y2; fastforce simp: Hour_def)+
  ultimately show ?thesis
    using y1 y2 v(2) by (intro exI [of _ it] exI [of _ r] exI [of _ w]) auto
qed

end
