(* ===== verification/AuthSettings.thy ===== *)
theory AuthSettings
  imports AuthSpec
begin

text \<open>
  Project settings: over every history each project has one default environment, a settings
  request touches its own project only, and marking notifications read marks each once.
\<close>

subsection \<open>Histories of the repository\<close>

text \<open>One atomic call of the in-memory repository that may change it.\<close>

inductive auth_step :: "AuthMemory \<Rightarrow> AuthMemory \<Rightarrow> bool" where
  register: "auth_step r (fst (Auth_Register input r))"
| create_session: "auth_step r (fst (Auth_CreateSession session r))"
| revoke_session: "auth_step r (fst (Auth_RevokeSession hash r))"
| update_project: "enumerates keys (am_users r) \<Longrightarrow> auth_step r (fst (Auth_UpdateProject keys p name days actor r))"
| select_environment: "auth_step r (fst (Auth_SelectEnvironment p i actor r))"
| set_finding: "auth_step r (fst (Auth_SetFindingResolved p i resolved actor r))"
| mark_read: "auth_step r (fst (Auth_MarkNotificationRead now p i actor r))"
| mark_all_read: "auth_step r (fst (Auth_MarkAllNotificationsRead keys now p actor r))"

definition environments_ok :: "string \<Rightarrow> Environment list \<Rightarrow> bool" where
  "environments_ok p items \<longleftrightarrow>
     map (\<lambda>e. (en_ID e, en_Name e, en_Kind e)) items =
       [(p @ '':local'', ''Local'', ''local''), (p @ '':sandbox'', ''Sandbox'', ''sandbox''),
        (p @ '':staging'', ''Staging'', ''staging'')] \<and>
     length (filter en_IsDefault items) = 1"

definition settings_ok :: "AuthMemory \<Rightarrow> bool" where
  "settings_ok r \<longleftrightarrow> (\<forall>p items. am_environments r p = Some items \<longrightarrow> environments_ok p items) \<and>
     dom (am_environments r) = dom (am_projects r)"

lemma environments_ok_default: "environments_ok p (default_environments p)"
  by (simp add: environments_ok_def default_environments_def)

lemma environments_ok_select:
  assumes "environments_ok p items" and "list_ex (\<lambda>e. en_ID e = i) items"
  shows "environments_ok p (map (\<lambda>e. e\<lparr>en_IsDefault := en_ID e = i\<rparr>) items)"
proof -
  obtain e1 e2 e3 where items: "items = [e1, e2, e3]"
    using assms(1) by (auto simp: environments_ok_def map_eq_Cons_conv)
  then have "en_ID e1 = p @ '':local''" "en_ID e2 = p @ '':sandbox''" "en_ID e3 = p @ '':staging''"
    using assms(1) by (simp_all add: environments_ok_def)
  then show ?thesis
    using assms by (auto simp: environments_ok_def items)
qed

lemma SelectEnvironment_eq:
  "Auth_SelectEnvironment p i actor r =
     (let items = get0 [] (am_environments r) p; items' = map (\<lambda>e. e\<lparr>en_IsDefault := en_ID e = i\<rparr>) items
      in if list_ex (\<lambda>e. en_ID e = i) items
         then (r\<lparr>am_environments := (am_environments r)(p \<mapsto> items')\<rparr>,
               Inr (the (find (\<lambda>e. en_ID e = i) items'), True))
         else (r, Inr (zero_Environment, False)))"
proof -
  have "find (\<lambda>e. en_ID e = i) (map (\<lambda>e. e\<lparr>en_IsDefault := en_ID e = i\<rparr>) items) \<noteq> None"
    if "list_ex (\<lambda>e. en_ID e = i) items" for items
    using that by (auto simp: find_None_iff list_ex_iff)
  from this [of "get0 [] (am_environments r) p"] show ?thesis
    by (auto simp: Auth_SelectEnvironment_def Let_def)
qed

lemma settings_ok_step: "auth_step r r' \<Longrightarrow> settings_ok r \<Longrightarrow> settings_ok r'"
proof (induction rule: auth_step.induct)
  case (register r input)
  then show ?case
    using environments_ok_default by (auto simp: Auth_Register_def settings_ok_def)
next
  case (select_environment r p i actor)
  let ?items = "get0 [] (am_environments r) p"
  show ?case
  proof (cases "list_ex (\<lambda>e. en_ID e = i) ?items")
    case True
    then obtain items where "am_environments r p = Some items"
      by (cases "am_environments r p") auto
    with True select_environment environments_ok_select [of p items i] show ?thesis
      by (auto simp: SelectEnvironment_eq settings_ok_def Let_def)
  next
    case False
    with select_environment show ?thesis by (simp add: SelectEnvironment_eq Let_def)
  qed
next
  case (update_project keys r p name days actor)
  then show ?case
    by (auto simp: Auth_UpdateProject_def settings_ok_def Let_def split: option.splits)
next
  case (mark_all_read r keys now p actor)
  then show ?case
    by (auto simp: Auth_MarkAllNotificationsRead_def settings_ok_def split: option.splits prod.splits)
qed (auto simp: Auth_CreateSession_def Auth_RevokeSession_def Auth_SetFindingResolved_def
    Auth_MarkNotificationRead_def settings_ok_def Let_def split: option.splits)

lemma settings_ok_reachable: "auth_step\<^sup>*\<^sup>* NewAuthMemory r \<Longrightarrow> settings_ok r"
proof (induction rule: rtranclp_induct)
  case base
  show ?case by (simp add: NewAuthMemory_def settings_ok_def)
next
  case (step r r')
  then show ?case by (blast intro: settings_ok_step)
qed

text \<open>
  Every project always has one default environment.  After any history of calls every project
  has its three environments, of which exactly one is the default, and selecting one answers
  with it, makes it the default and the other two not, and changes nothing else; an unknown
  identifier changes nothing.
\<close>

theorem environment_default:
  assumes "auth_step\<^sup>*\<^sup>* NewAuthMemory r" and "am_projects r p = Some v"
    and "Auth_SelectEnvironment p i actor r = (r', x)"
  shows "\<exists>items. Auth_Environments p r = Inr items \<and> environments_ok p items \<and>
    (if i \<in> en_ID ` set items
     then (\<exists>e. x = Inr (e, True) \<and> en_ID e = i \<and> en_IsDefault e \<and>
       (\<exists>items'. Auth_Environments p r' = Inr items' \<and> environments_ok p items' \<and> filter en_IsDefault items' = [e])) \<and>
       r' = r\<lparr>am_environments := am_environments r'\<rparr> \<and>
       (\<forall>q. q \<noteq> p \<longrightarrow> am_environments r' q = am_environments r q)
     else r' = r \<and> x = Inr (zero_Environment, False))"
proof -
  have "settings_ok r" by (rule settings_ok_reachable [OF assms(1)])
  then have "p \<in> dom (am_environments r)" using assms(2) by (auto simp: settings_ok_def)
  then obtain items where items: "am_environments r p = Some items" by blast
  with \<open>settings_ok r\<close> have ok: "environments_ok p items" by (auto simp: settings_ok_def)
  have ex: "list_ex (\<lambda>e. en_ID e = i) items \<longleftrightarrow> i \<in> en_ID ` set items" by (auto simp: list_ex_iff)
  show ?thesis
  proof (cases "i \<in> en_ID ` set items")
    case False
    with assms(3) items ok show ?thesis
      by (simp add: SelectEnvironment_eq Let_def ex Auth_Environments_def)
  next
    case True
    define items' where "items' = map (\<lambda>e. e\<lparr>en_IsDefault := en_ID e = i\<rparr>) items"
    have r': "r' = r\<lparr>am_environments := (am_environments r)(p \<mapsto> items')\<rparr>"
      and x: "x = Inr (the (find (\<lambda>e. en_ID e = i) items'), True)"
      using assms(3) True items by (simp_all add: SelectEnvironment_eq Let_def ex items'_def)
    have ok': "environments_ok p items'"
      using environments_ok_select [OF ok] True ex by (simp add: items'_def)
    obtain e where e: "find (\<lambda>e. en_ID e = i) items' = Some e"
      using True by (cases "find (\<lambda>e. en_ID e = i) items'") (auto simp: find_None_iff items'_def)
    have mem: "e \<in> set items'" "en_ID e = i"
      using find_SomeD [OF e] by blast+
    then obtain d where "e = d\<lparr>en_IsDefault := en_ID d = i\<rparr>" by (auto simp: items'_def)
    with mem(2) have dflt: "en_IsDefault e" by simp
    have "length (filter en_IsDefault items') = 1" using ok' by (simp add: environments_ok_def)
    then obtain d where d: "filter en_IsDefault items' = [d]" by (auto simp: length_Suc_conv)
    moreover have "e \<in> set (filter en_IsDefault items')" using mem dflt by simp
    ultimately have "filter en_IsDefault items' = [e]" by simp
    with True ok ok' mem(2) dflt show ?thesis
      by (simp add: r' x e items Auth_Environments_def)
  qed
qed

subsection \<open>Projects apart\<close>

text \<open>Everything the settings operations show of a project, and its users.\<close>

definition project_settings ::
  "AuthMemory \<Rightarrow> string \<Rightarrow> ProjectView option \<times> Environment list option \<times>
   (string \<rightharpoonup> Finding) option \<times> (string \<rightharpoonup> Notification) option" where
  "project_settings r q = (am_projects r q, am_environments r q, am_findings r q, am_notifications r q)"

definition users_of :: "AuthMemory \<Rightarrow> string \<Rightarrow> digest \<rightharpoonup> IdentityRecord" where
  "users_of r q = (\<lambda>k. case am_users r k of None \<Rightarrow> None
     | Some u \<Rightarrow> if id_ProjectID u = q then Some u else None)"

definition apart :: "string \<Rightarrow> AuthMemory \<Rightarrow> AuthMemory \<Rightarrow> bool" where
  "apart p r r' \<longleftrightarrow> am_sessions r' = am_sessions r \<and>
     (\<forall>q. q \<noteq> p \<longrightarrow> project_settings r' q = project_settings r q \<and> users_of r' q = users_of r q)"

lemma apart_refl [simp]: "apart p r r"
  by (simp add: apart_def)

lemma apart_UpdateProject:
  assumes "enumerates keys (am_users r)"
  shows "apart p r (fst (Auth_UpdateProject keys p name days actor r))"
proof (cases "am_projects r p")
  case None
  then show ?thesis by (simp add: Auth_UpdateProject_def)
next
  case (Some v0)
  then obtain v where "fst (Auth_UpdateProject keys p name days actor r) =
      r\<lparr>am_projects := (am_projects r)(p \<mapsto> v), am_users := rename_users p v keys (am_users r)\<rparr>"
    by (simp add: Auth_UpdateProject_def Let_def)
  moreover have "id_ProjectID (renamed p v u) = id_ProjectID u" "id_ProjectID u \<noteq> p \<Longrightarrow> renamed p v u = u" for u
    by (simp_all add: renamed_def)
  ultimately show ?thesis
    by (auto simp: apart_def project_settings_def users_of_def rename_users_all [OF assms] fun_eq_iff
        split: option.splits)
qed

lemma fst_found_or [simp]: "fst (found_or e m x) = fst x"
  by (auto simp: found_or_def split: prod.splits sum.splits)

lemma fst_all_or [simp]: "fst (all_or e x) = fst x"
  by (auto simp: all_or_def split: prod.splits sum.splits)

lemma auth_port_settings [simp]:
  "ar_SelectEnvironment (auth_memory_port it lister) = Auth_SelectEnvironment"
  "ar_SetFindingResolved (auth_memory_port it lister) = Auth_SetFindingResolved"
  "ar_MarkNotificationRead (auth_memory_port it lister) = Auth_MarkNotificationRead"
  "ar_MarkAllNotificationsRead (auth_memory_port it lister) = (\<lambda>now p actor r.
     Auth_MarkAllNotificationsRead (ai_notifications it (get0 Map.empty (am_notifications r) p)) now p actor r)"
  by (simp_all add: auth_memory_port_def)

text \<open>
  A session changes the settings of its own project only.  Whatever a session asks for, updating
  the project, selecting an environment, resolving or reopening a finding, marking one or all
  notifications read, no session, no user and no setting of another project changes.
\<close>

theorem settings_isolated:
  assumes "enumerates (ai_users it (am_users r)) (am_users r)"
  shows "apart (pv_ID (sv_Project identity)) r
      (fst (AuthService_UpdateProject (auth_memory_port it lister) identity name days r)) \<and>
    apart (pv_ID (sv_Project identity)) r
      (fst (AuthService_SelectEnvironment (auth_memory_port it lister) identity i r)) \<and>
    apart (pv_ID (sv_Project identity)) r
      (fst (AuthService_SetFindingResolved (auth_memory_port it lister) identity i resolved r)) \<and>
    apart (pv_ID (sv_Project identity)) r
      (fst (AuthService_MarkNotificationRead (auth_memory_port it lister) now identity i r)) \<and>
    apart (pv_ID (sv_Project identity)) r
      (fst (AuthService_MarkAllNotificationsRead (auth_memory_port it lister) now identity r))"
proof (intro conjI)
  let ?p = "pv_ID (sv_Project identity)"
  show "apart ?p r (fst (AuthService_UpdateProject (auth_memory_port it lister) identity name days r))"
    using apart_UpdateProject [OF assms] by (simp add: AuthService_UpdateProject_def Let_def)
  show "apart ?p r (fst (AuthService_SelectEnvironment (auth_memory_port it lister) identity i r))"
    by (simp add: AuthService_SelectEnvironment_def SelectEnvironment_eq Let_def)
      (simp add: apart_def project_settings_def users_of_def)
  show "apart ?p r (fst (AuthService_SetFindingResolved (auth_memory_port it lister) identity i resolved r))"
    by (auto simp: AuthService_SetFindingResolved_def Auth_SetFindingResolved_def Let_def apart_def
        project_settings_def users_of_def split: option.splits)
  show "apart ?p r (fst (AuthService_MarkNotificationRead (auth_memory_port it lister) now identity i r))"
    by (auto simp: AuthService_MarkNotificationRead_def Auth_MarkNotificationRead_def Let_def apart_def
        project_settings_def users_of_def split: option.splits)
  show "apart ?p r (fst (AuthService_MarkAllNotificationsRead (auth_memory_port it lister) now identity r))"
    by (auto simp: AuthService_MarkAllNotificationsRead_def Auth_MarkAllNotificationsRead_def apart_def
        project_settings_def users_of_def split: option.splits prod.splits)
qed

subsection \<open>Notifications\<close>

lemma mark_all_distinct:
  assumes "distinct keys" and "set keys \<subseteq> dom items"
  shows "fst (mark_all now keys items) k = (if k \<in> set keys
      then map_option (\<lambda>v. if nt_ReadAt v = None then v\<lparr>nt_ReadAt := Some now\<rparr> else v) (items k) else items k) \<and>
    snd (mark_all now keys items) = int (length (filter (\<lambda>i. nt_ReadAt (the (items i)) = None) keys))"
  using assms
proof (induction keys arbitrary: k rule: rev_induct)
  case Nil
  then show ?case by (simp add: mark_all_def)
next
  case (snoc j js)
  obtain m n where mn: "mark_all now js items = (m, n)" by fastforce
  have IH: "m l = (if l \<in> set js
      then map_option (\<lambda>v. if nt_ReadAt v = None then v\<lparr>nt_ReadAt := Some now\<rparr> else v) (items l) else items l)"
    "n = int (length (filter (\<lambda>i. nt_ReadAt (the (items i)) = None) js))" for l
    using snoc.IH [of l] snoc.prems mn by auto
  obtain v where v: "items j = Some v" and j: "j \<notin> set js" using snoc.prems by auto
  then have mj: "m j = Some v" using IH(1) [of j] by simp
  have "mark_all now (js @ [j]) items =
      (if nt_ReadAt v = None then (m(j \<mapsto> v\<lparr>nt_ReadAt := Some now\<rparr>), n + 1) else (m, n))"
    using mn mj by (simp add: mark_all_def Let_def)
  then show ?case
    using IH v j mj by auto
qed

text \<open>
  Marking all notifications of a project read stamps the unread ones with the time, leaves those
  read before as they were, and counts the stamped ones, in whatever order they are visited.
\<close>

lemma mark_all_read_counts:
  assumes "am_notifications r p = Some items" and "enumerates keys items"
    and "Auth_MarkAllNotificationsRead keys now p actor r = (r', x)"
  shows "x = Inr (int (card {i. \<exists>v. items i = Some v \<and> nt_ReadAt v = None})) \<and>
    am_notifications r' = (am_notifications r)(p \<mapsto> (\<lambda>k. map_option
      (\<lambda>v. if nt_ReadAt v = None then v\<lparr>nt_ReadAt := Some now\<rparr> else v) (items k)))"
proof -
  have keys: "distinct keys" "set keys = dom items" using assms(2) by (simp_all add: enumerates_def)
  have "fst (mark_all now keys items) = (\<lambda>k. map_option
      (\<lambda>v. if nt_ReadAt v = None then v\<lparr>nt_ReadAt := Some now\<rparr> else v) (items k))"
    using mark_all_distinct [of keys items now] keys by (auto simp: fun_eq_iff domIff)
  moreover have "length (filter (\<lambda>i. nt_ReadAt (the (items i)) = None) keys) =
      card {i. \<exists>v. items i = Some v \<and> nt_ReadAt v = None}"
  proof -
    have "set (filter (\<lambda>i. nt_ReadAt (the (items i)) = None) keys) = {i. \<exists>v. items i = Some v \<and> nt_ReadAt v = None}"
      unfolding set_filter keys(2) by (auto simp: dom_def)
    moreover have "distinct (filter (\<lambda>i. nt_ReadAt (the (items i)) = None) keys)" using keys(1) by simp
    ultimately show ?thesis by (simp only: distinct_card [symmetric])
  qed
  moreover have "snd (mark_all now keys items) = int (length (filter (\<lambda>i. nt_ReadAt (the (items i)) = None) keys))"
    using mark_all_distinct [of keys items now] keys by simp
  ultimately show ?thesis
    using assms(1,3) by (cases "mark_all now keys items") (auto simp: Auth_MarkAllNotificationsRead_def)
qed

subsection \<open>Witnesses\<close>

definition sample_registration :: Registration where
  "sample_registration = \<lparr>rg_User = \<lparr>us_ID = ''u'', us_EmailCiphertext = [], us_EmailHash = ''h'', us_PasswordHash = []\<rparr>,
     rg_OrganizationID = ''o'', rg_OrganizationName = ''Acme'', rg_ProjectID = ''p'', rg_ProjectName = ''Shop'',
     rg_RetentionDays = 30, rg_Session = \<lparr>se_TokenHash = ''t'', se_UserID = ''u'', se_ProjectID = ''p'', se_ExpiresAt = 9\<rparr>\<rparr>"

theorem environment_default_witness:
  "\<exists>r r' e. Auth_SelectEnvironment ''p'' ''p:staging'' ''u'' r = (r', Inr (e, True)) \<and> en_IsDefault e \<and>
     (\<exists>items. Auth_Environments ''p'' r' = Inr items \<and> filter en_IsDefault items = [e])"
proof -
  let ?r = "fst (Auth_Register sample_registration NewAuthMemory)"
  have step: "auth_step\<^sup>*\<^sup>* NewAuthMemory ?r" by (intro r_into_rtranclp auth_step.register)
  have env: "am_environments ?r ''p'' = Some (default_environments ''p'')" and "am_projects ?r ''p'' \<noteq> None"
    by (simp_all add: Auth_Register_def NewAuthMemory_def sample_registration_def)
  then obtain v where v: "am_projects ?r ''p'' = Some v" by blast
  obtain r' x where sel: "Auth_SelectEnvironment ''p'' ''p:staging'' ''u'' ?r = (r', x)" by fastforce
  have "''p:staging'' \<in> en_ID ` set (default_environments ''p'')" by (simp add: default_environments_def)
  with environment_default [OF step v sel] env obtain e where "x = Inr (e, True)" "en_IsDefault e"
      "\<exists>items. Auth_Environments ''p'' r' = Inr items \<and> filter en_IsDefault items = [e]"
    by (auto simp: Auth_Environments_def)
  with sel show ?thesis by blast
qed

theorem settings_isolated_witness:
  "\<exists>it identity. apart ''p'' NewAuthMemory
     (fst (AuthService_UpdateProject (auth_memory_port it None) identity ''Store'' 0 NewAuthMemory))"
proof -
  let ?it = "\<lparr>ai_users = \<lambda>_. [], ai_findings = \<lambda>_. [], ai_notifications = \<lambda>_. []\<rparr>"
  let ?v = "account_view no_accounts \<lparr>ac_UserID = [], ac_OrganizationID = [], ac_OrganizationName = [],
    ac_ProjectID = [], ac_PasswordHash = []\<rparr> [] 0"
  let ?id = "?v\<lparr>sv_Project := \<lparr>pv_ID = ''p'', pv_Name = [], pv_RetentionDays = 1\<rparr>\<rparr>"
  have "enumerates (ai_users ?it (am_users NewAuthMemory)) (am_users NewAuthMemory)"
    by (simp add: NewAuthMemory_def)
  from settings_isolated [OF this, of ?id None "''Store''" 0, THEN conjunct1]
  have "apart ''p'' NewAuthMemory
     (fst (AuthService_UpdateProject (auth_memory_port ?it None) ?id ''Store'' 0 NewAuthMemory))"
    by simp
  then show ?thesis by blast
qed

end
