(* ===== verification/LoginLimiter.thy ===== *)
theory LoginLimiter
  imports GoStd
begin

text \<open>
  The limiter of sign-in attempts (\<^verbatim>\<open>loginLimiter\<close> of \<^verbatim>\<open>internal/httpapi/auth_routes.go\<close>).  Its map
  of buckets is ranged over in \<^verbatim>\<open>maintainLocked\<close>; every operation takes the list of keys in the
  order of that iteration.  The operation counter is a 64-bit unsigned integer.
\<close>

subsection \<open>State and operations\<close>

record loginBucket =
  lb_failures :: int
  lb_resetAt :: time

record loginLimiter =
  ll_buckets :: "string \<rightharpoonup> loginBucket"
  ll_ops :: nat

definition maxLoginBuckets :: nat where
  "maxLoginBuckets = 4096"

definition newLoginLimiter :: loginLimiter where
  "newLoginLimiter = \<lparr>ll_buckets = Map.empty, ll_ops = 0\<rparr>"

definition zero_bucket :: loginBucket where
  "zero_bucket = \<lparr>lb_failures = 0, lb_resetAt = zero_time\<rparr>"

text \<open>The first loop drops the expired buckets among the keys.\<close>

definition drop_expired :: "time \<Rightarrow> string list \<Rightarrow> (string \<rightharpoonup> loginBucket) \<Rightarrow> string \<rightharpoonup> loginBucket" where
  "drop_expired now keys buckets =
     foldl (\<lambda>m key. if After (lb_resetAt (get0 zero_bucket m key)) now then m else m(key := None)) buckets keys"

text \<open>
  The second drops some key, over and over, while there are too many: the keys it drops are
  the first of the given order, which lists the keys that are left.
\<close>

fun evict :: "string list \<Rightarrow> (string \<rightharpoonup> loginBucket) \<Rightarrow> string \<rightharpoonup> loginBucket" where
  "evict [] m = m"
| "evict (key # keys) m =
     (if maxLoginBuckets \<le> length (key # keys) then evict keys (m(key := None)) else m)"

definition maintainLocked :: "string list \<Rightarrow> time \<Rightarrow> loginLimiter \<Rightarrow> loginLimiter" where
  "maintainLocked keys now l0 =
     (let l = l0\<lparr>ll_ops := (ll_ops l0 + 1) mod 2 ^ 64\<rparr>
      in if ll_ops l mod 64 \<noteq> 0 \<and> length keys < maxLoginBuckets then l
         else
           (let kept = drop_expired now keys (ll_buckets l)
            in l\<lparr>ll_buckets := evict (filter (\<lambda>key. kept key \<noteq> None) keys) kept\<rparr>))"

definition limited :: "string list \<Rightarrow> time \<Rightarrow> string \<Rightarrow> loginLimiter \<Rightarrow> loginLimiter \<times> bool \<times> duration" where
  "limited keys now key l0 =
     (let l = maintainLocked keys now l0
      in case ll_buckets l key of
           None \<Rightarrow> (l\<lparr>ll_buckets := (ll_buckets l)(key := None)\<rparr>, False, 0)
         | Some bucket \<Rightarrow>
             if \<not> After (lb_resetAt bucket) now
             then (l\<lparr>ll_buckets := (ll_buckets l)(key := None)\<rparr>, False, 0)
             else if lb_failures bucket < 8 then (l, False, 0)
             else (l, True, Sub (lb_resetAt bucket) now))"

definition failure :: "string list \<Rightarrow> time \<Rightarrow> string \<Rightarrow> loginLimiter \<Rightarrow> loginLimiter" where
  "failure keys now key l0 =
     (let l = maintainLocked keys now l0;
          bucket0 = get0 zero_bucket (ll_buckets l) key;
          bucket1 = (if \<not> After (lb_resetAt bucket0) now
                     then \<lparr>lb_failures = 0, lb_resetAt = now + 5 * Minute\<rparr> else bucket0);
          bucket = bucket1\<lparr>lb_failures := lb_failures bucket1 + 1\<rparr>
      in l\<lparr>ll_buckets := (ll_buckets l)(key \<mapsto> bucket)\<rparr>)"

definition success :: "string \<Rightarrow> loginLimiter \<Rightarrow> loginLimiter" where
  "success key l = l\<lparr>ll_buckets := (ll_buckets l)(key := None)\<rparr>"

subsection \<open>Maintenance\<close>

text \<open>A bucket that is still running at a time.\<close>

definition alive :: "time \<Rightarrow> loginBucket option \<Rightarrow> loginBucket option" where
  "alive now b = (case b of None \<Rightarrow> None | Some bucket \<Rightarrow> if now < lb_resetAt bucket then b else None)"

lemma alive_later: "alive t a = alive t b \<Longrightarrow> t \<le> t' \<Longrightarrow> alive t' a = alive t' b"
  by (auto simp: alive_def split: option.splits if_splits)

lemma alive_simps [simp]: "alive t None = None" "alive t (alive t b) = alive t b"
  by (auto simp: alive_def split: option.splits)

lemma drop_expired_spec:
  assumes "distinct keys"
  shows "drop_expired now keys m k = (if k \<in> set keys then alive now (m k) else m k)"
  using assms
proof (induction keys arbitrary: k rule: rev_induct)
  case Nil
  then show ?case by (simp add: drop_expired_def)
next
  case (snoc j js)
  let ?m = "drop_expired now js m"
  have mj: "?m j = m j" using snoc by auto
  have "drop_expired now (js @ [j]) m =
      (if After (lb_resetAt (get0 zero_bucket ?m j)) now then ?m else ?m(j := None))"
    by (simp add: drop_expired_def)
  then show ?case
    using snoc mj by (cases "m j") (auto simp: alive_def After_def get0_def zero_bucket_def)
qed

lemma evict_small: "length keys < maxLoginBuckets \<Longrightarrow> evict keys m = m"
  by (cases keys) auto

lemma evict_bound:
  assumes "distinct keys" and "dom m \<subseteq> set keys"
  shows "finite (dom (evict keys m)) \<and> card (dom (evict keys m)) < maxLoginBuckets"
  using assms
proof (induction keys arbitrary: m)
  case Nil
  then show ?case by (simp add: maxLoginBuckets_def)
next
  case (Cons key keys)
  show ?case
  proof (cases "maxLoginBuckets \<le> length (key # keys)")
    case True
    have "dom (m(key := None)) \<subseteq> set keys" using Cons.prems by auto
    from Cons.IH [OF _ this] Cons.prems(1) show ?thesis
      unfolding evict.simps if_P [OF True] distinct.simps by blast
  next
    case False
    have "card (dom m) \<le> card (set (key # keys))" using Cons.prems(2) by (intro card_mono) auto
    also have "\<dots> \<le> length (key # keys)" by (rule card_length)
    finally show ?thesis
      using False Cons.prems(2) finite_subset by (auto simp: evict.simps)
  qed
qed

lemma maintain_cases:
  assumes "enumerates keys (ll_buckets l)"
  shows "finite (dom (ll_buckets (maintainLocked keys now l))) \<and>
    card (dom (ll_buckets (maintainLocked keys now l))) < maxLoginBuckets"
    and "length keys < maxLoginBuckets \<Longrightarrow>
      alive now (ll_buckets (maintainLocked keys now l) k) = alive now (ll_buckets l k)"
proof -
  have d: "distinct keys" "set keys = dom (ll_buckets l)"
    using assms by (simp_all add: enumerates_def)
  then have card: "length keys = card (dom (ll_buckets l))" "finite (dom (ll_buckets l))"
    using distinct_card [OF d(1)] by (simp, metis List.finite_set)
  let ?kept = "drop_expired now keys (ll_buckets l)"
  have kept: "?kept j = alive now (ll_buckets l j)" for j
    using drop_expired_spec [OF d(1), of now "ll_buckets l" j] d(2) by (auto simp: domIff)
  have sub: "dom ?kept \<subseteq> set (filter (\<lambda>key. ?kept key \<noteq> None) keys)"
    using d(2) by (auto simp: kept alive_def split: option.splits)
  note bound = evict_bound [OF distinct_filter [OF d(1)] sub]
  show "finite (dom (ll_buckets (maintainLocked keys now l))) \<and>
    card (dom (ll_buckets (maintainLocked keys now l))) < maxLoginBuckets"
    using bound card by (simp add: maintainLocked_def Let_def)
  assume small: "length keys < maxLoginBuckets"
  have "length (filter (\<lambda>key. ?kept key \<noteq> None) keys) < maxLoginBuckets"
    using small le_less_trans [OF length_filter_le] by blast
  then show "alive now (ll_buckets (maintainLocked keys now l) k) = alive now (ll_buckets l k)"
    using small by (simp add: maintainLocked_def Let_def evict_small kept)
qed

subsection \<open>Histories\<close>

text \<open>
  The reference for one key: the failures of the current window of five minutes and its end.
\<close>

definition count_failure :: "time \<Rightarrow> loginBucket option \<Rightarrow> loginBucket option" where
  "count_failure now b =
     (case alive now b of
        None \<Rightarrow> Some \<lparr>lb_failures = 1, lb_resetAt = now + 5 * Minute\<rparr>
      | Some bucket \<Rightarrow> Some (bucket\<lparr>lb_failures := lb_failures bucket + 1\<rparr>))"

definition locked :: "time \<Rightarrow> loginBucket option \<Rightarrow> bool" where
  "locked now b = (case alive now b of None \<Rightarrow> False | Some bucket \<Rightarrow> 8 \<le> lb_failures bucket)"

text \<open>
  A history of calls at increasing times: the limiter, the reference counters, the time of the last call
  and whether the table has stayed below its capacity.
\<close>

inductive limiter_history :: "loginLimiter \<Rightarrow> (string \<Rightarrow> loginBucket option) \<Rightarrow> time \<Rightarrow> bool \<Rightarrow> bool" where
  start: "zero_time \<le> t \<Longrightarrow> limiter_history newLoginLimiter (\<lambda>_. None) t True"
| limited: "limiter_history l ref t roomy \<Longrightarrow> t \<le> now \<Longrightarrow> enumerates keys (ll_buckets l) \<Longrightarrow>
    limiter_history (fst (limited keys now key l)) ref now (roomy \<and> length keys < maxLoginBuckets)"
| failure: "limiter_history l ref t roomy \<Longrightarrow> t \<le> now \<Longrightarrow> enumerates keys (ll_buckets l) \<Longrightarrow>
    limiter_history (failure keys now key l) (ref(key := count_failure now (ref key))) now
      (roomy \<and> length keys < maxLoginBuckets)"
| success: "limiter_history l ref t roomy \<Longrightarrow> limiter_history (success key l) (ref(key := None)) t roomy"

lemma zero_bucket_expired: "zero_time \<le> now \<Longrightarrow> \<not> After (lb_resetAt zero_bucket) now"
  by (simp add: zero_bucket_def After_def)

lemma limited_buckets:
  "alive now (ll_buckets (fst (limited keys now key l)) k) = alive now (ll_buckets (maintainLocked keys now l) k)"
  "dom (ll_buckets (fst (limited keys now key l))) \<subseteq> dom (ll_buckets (maintainLocked keys now l))"
  "fst (snd (limited keys now key l)) = locked now (ll_buckets (maintainLocked keys now l) key)"
  by (auto simp: limited_def Let_def alive_def After_def locked_def split: option.splits)

lemma count_failure_alive: "alive now a = alive now b \<Longrightarrow> count_failure now a = count_failure now b"
  by (simp add: count_failure_def)

lemma locked_alive: "alive now a = alive now b \<Longrightarrow> locked now a = locked now b"
  by (simp add: locked_def)

lemma failure_buckets:
  assumes "zero_time \<le> now"
  shows "ll_buckets (failure keys now key l) = (ll_buckets (maintainLocked keys now l))
    (key \<mapsto> the (count_failure now (ll_buckets (maintainLocked keys now l) key)))"
  using zero_bucket_expired [OF assms]
  by (auto simp: failure_def count_failure_def alive_def After_def get0_def Let_def fun_eq_iff
      split: option.splits)

lemma limiter_invariant:
  "limiter_history l ref t roomy \<Longrightarrow>
     zero_time \<le> t \<and> finite (dom (ll_buckets l)) \<and> card (dom (ll_buckets l)) \<le> maxLoginBuckets \<and>
     (\<forall>k b. ref k = Some b \<longrightarrow> lb_resetAt b \<le> t + 5 * Minute) \<and>
     (roomy \<longrightarrow> (\<forall>k t'. t \<le> t' \<longrightarrow> alive t' (ll_buckets l k) = alive t' (ref k)))"
proof (induction rule: limiter_history.induct)
  case (start t)
  then show ?case by (simp add: newLoginLimiter_def)
next
  case (limited l ref t roomy now keys key)
  note m = maintain_cases [OF limited(3)]
  let ?m = "maintainLocked keys now l" and ?l = "fst (LoginLimiter.limited keys now key l)"
  have "finite (dom (ll_buckets ?l))" "card (dom (ll_buckets ?l)) \<le> maxLoginBuckets"
    using limited_buckets(2) [of keys now key l] m(1) [of now] finite_subset card_mono
    by (blast, meson le_trans less_imp_le_nat)
  moreover have "lb_resetAt b \<le> now + 5 * Minute" if "ref k = Some b" for k b
    using limited.IH limited(2) that by force
  moreover have "alive t' (ll_buckets ?l k) = alive t' (ref k)"
    if "roomy" "length keys < maxLoginBuckets" "now \<le> t'" for k t'
  proof -
    have "alive now (ll_buckets ?l k) = alive now (ref k)"
      using limited_buckets(1) [of now keys key l k] m(2) [OF that(2), of now k] limited.IH limited(2) that(1) by simp
    then show ?thesis by (rule alive_later [OF _ that(3)])
  qed
  ultimately show ?case using limited.IH limited(2) by auto
next
  case (failure l ref t roomy now keys key)
  note m = maintain_cases [OF failure(3)]
  let ?m = "maintainLocked keys now l" and ?l = "LoginLimiter.failure keys now key l"
  have z: "zero_time \<le> now" using failure.IH failure(2) by linarith
  have dom: "dom (ll_buckets ?l) = insert key (dom (ll_buckets ?m))"
    by (simp add: failure_buckets [OF z])
  have "finite (dom (ll_buckets ?l))" "card (dom (ll_buckets ?l)) \<le> maxLoginBuckets"
    using m(1) [of now] by (simp_all add: dom card_insert_if)
  moreover have "lb_resetAt b \<le> now + 5 * Minute" if "(ref(key := count_failure now (ref key))) k = Some b" for k b
  proof (cases "k = key")
    case False
    then show ?thesis using failure.IH failure(2) that by force
  next
    case True
    have "lb_resetAt d \<le> now + 5 * Minute" if "ref key = Some d" for d
      using failure.IH failure(2) that by force
    with True that show ?thesis
      by (auto simp: count_failure_def alive_def split: option.splits if_splits)
  qed
  moreover have "alive t' (ll_buckets ?l k) = alive t' ((ref(key := count_failure now (ref key))) k)"
    if "roomy" "length keys < maxLoginBuckets" "now \<le> t'" for k t'
  proof -
    have same: "alive now (ll_buckets ?m j) = alive now (ref j)" for j
      using m(2) [OF that(2), of now j] failure.IH failure(2) that(1) by simp
    have "count_failure now (ll_buckets ?m key) = count_failure now (ref key)"
      by (rule count_failure_alive [OF same])
    moreover obtain d where "count_failure now (ref key) = Some d"
      by (cases "alive now (ref key)") (simp_all add: count_failure_def)
    ultimately have "alive now (ll_buckets ?l k) = alive now ((ref(key := count_failure now (ref key))) k)"
      using same [of k] by (simp add: failure_buckets [OF z])
    then show ?thesis by (rule alive_later [OF _ that(3)])
  qed
  ultimately show ?case using z by auto
next
  case (success l ref t roomy key)
  have "dom (ll_buckets (LoginLimiter.success key l)) \<subseteq> dom (ll_buckets l)"
    by (auto simp: success_def)
  then have "finite (dom (ll_buckets (LoginLimiter.success key l)))"
      "card (dom (ll_buckets (LoginLimiter.success key l))) \<le> maxLoginBuckets"
    using success.IH finite_subset card_mono by (blast, meson le_trans)
  moreover from success.IH have "\<forall>k b. (ref(key := None)) k = Some b \<longrightarrow> lb_resetAt b \<le> t + 5 * Minute"
    "roomy \<longrightarrow> (\<forall>k t'. t \<le> t' \<longrightarrow>
       alive t' (ll_buckets (LoginLimiter.success key l) k) = alive t' ((ref(key := None)) k))"
    by (auto simp: success_def)
  ultimately show ?case using success.IH by blast
qed

text \<open>
  C17. The limiter never holds more than 4096 buckets, whatever addresses and emails try to sign in
  at times that do not run backwards, in whatever order its map is iterated, and right after the maintenance that opens every attempt it
  holds fewer.
\<close>

theorem limiter_bounded:
  assumes "limiter_history l ref t roomy" and "enumerates keys (ll_buckets l)"
  shows "card (dom (ll_buckets l)) \<le> 4096 \<and> card (dom (ll_buckets (maintainLocked keys now l))) < 4096"
  using limiter_invariant [OF assms(1)] maintain_cases(1) [OF assms(2), of now]
  by (simp add: maxLoginBuckets_def)

text \<open>
  While fewer than 4096 keys are held the limiter is a counter per key: whatever is attempted
  under other keys and however maintenance interleaves, a key is locked exactly when its own failures since
  its last success, counted in windows of five minutes from their first failure, have reached eight and
  the window has not ended; the wait it announces is then positive, ends with the window
  and is at most five minutes.
\<close>

theorem limiter_counts:
  assumes "limiter_history l ref t True" and "t \<le> now" and "enumerates keys (ll_buckets l)"
    and "length keys < 4096"
  shows "\<exists>l' wait. limited keys now key l = (l', locked now (ref key), wait) \<and>
    (locked now (ref key) \<longrightarrow> 0 < wait \<and> wait \<le> 5 * Minute \<and> now + wait = lb_resetAt (the (ref key)))"
proof -
  obtain l' yes wait where lim: "limited keys now key l = (l', yes, wait)" by (cases "limited keys now key l") auto
  let ?m = "ll_buckets (maintainLocked keys now l)"
  note inv = limiter_invariant [OF assms(1)]
  have "alive now (?m key) = alive now (ll_buckets l key)"
    using maintain_cases(2) [OF assms(3)] assms(4) by (simp add: maxLoginBuckets_def)
  then have same: "alive now (?m key) = alive now (ref key)"
    using inv assms(2) by simp
  have yes: "yes = locked now (ref key)"
    using limited_buckets(3) [of keys now key l] locked_alive [OF same] lim by simp
  have "0 < wait \<and> wait \<le> 5 * Minute \<and> now + wait = lb_resetAt (the (ref key))"
    if lk: "locked now (ref key)"
  proof -
    obtain b where b: "ref key = Some b" "now < lb_resetAt b" "8 \<le> lb_failures b"
      using lk by (auto simp: locked_def alive_def split: option.splits if_splits)
    then have m: "?m key = Some b"
      using same by (auto simp: alive_def split: option.splits if_splits)
    have up: "lb_resetAt b \<le> now + 5 * Minute"
      using inv b(1) assms(2) by force
    have "wait = Sub (lb_resetAt b) now"
      using lim b m by (simp add: limited_def Let_def After_def)
    also have "\<dots> = lb_resetAt b - now"
      using up b(2) by (simp add: Sub_def Minute_def min_int64_def max_int64_def)
    finally show ?thesis using b up by simp
  qed
  with lim yes show ?thesis by blast
qed

text \<open>Eight failures of one key.\<close>

fun failures :: "nat \<Rightarrow> loginLimiter" where
  "failures 0 = newLoginLimiter"
| "failures (Suc n) = failure (if n = 0 then [] else [''k'']) 0 ''k'' (failures n)"

lemma failures_bucket:
  "n < 60 \<Longrightarrow> failures n = \<lparr>ll_buckets = (if n = 0 then Map.empty
     else [''k'' \<mapsto> \<lparr>lb_failures = int n, lb_resetAt = 5 * Minute\<rparr>]), ll_ops = n\<rparr>"
proof (induction n)
  case 0
  then show ?case by (simp add: newLoginLimiter_def)
next
  case (Suc n)
  then show ?case
    by (auto simp: failure_def maintainLocked_def Let_def maxLoginBuckets_def zero_bucket_def zero_time_def
        After_def Minute_def get0_def)
qed

lemma failures_history: "n < 60 \<Longrightarrow> \<exists>ref. limiter_history (failures n) ref 0 True \<and>
    ref ''k'' = (if n = 0 then None else Some \<lparr>lb_failures = int n, lb_resetAt = 5 * Minute\<rparr>)"
proof (induction n)
  case 0
  show ?case by (intro exI [of _ "\<lambda>_. None"]) (simp add: limiter_history.start zero_time_def)
next
  case (Suc n)
  then obtain ref where ref: "limiter_history (failures n) ref 0 True"
      "ref ''k'' = (if n = 0 then None else Some \<lparr>lb_failures = int n, lb_resetAt = 5 * Minute\<rparr>)"
    by auto
  let ?keys = "if n = 0 then [] else [''k'']"
  have "enumerates ?keys (ll_buckets (failures n))"
    using Suc.prems by (simp add: failures_bucket enumerates_def)
  from limiter_history.failure [OF ref(1) order_refl this, of "''k''"]
  have hist: "limiter_history (failures (Suc n)) (ref(''k'' := count_failure 0 (ref ''k''))) 0 True"
    by (cases n) (simp_all add: maxLoginBuckets_def del: fun_upd_apply)
  show ?case
    by (rule exI [of _ "ref(''k'' := count_failure 0 (ref ''k''))"], intro conjI hist)
      (simp add: count_failure_def alive_def Minute_def ref(2))
qed

theorem limiter_bounded_witness:
  "card (dom (ll_buckets (failures 8))) \<le> 4096"
proof -
  obtain ref where "limiter_history (failures 8) ref 0 True" using failures_history [of 8] by auto
  from limiter_bounded [OF this, of "[''k'']" 0] show ?thesis
    by (simp add: failures_bucket enumerates_def)
qed

theorem limiter_counts_witness:
  "\<exists>l' wait. limited [''k''] (1 * Minute) ''k'' (failures 8) = (l', True, wait) \<and> 0 < wait"
proof -
  obtain ref where ref: "limiter_history (failures 8) ref 0 True"
      "ref ''k'' = Some \<lparr>lb_failures = 8, lb_resetAt = 5 * Minute\<rparr>"
    using failures_history [of 8] by auto
  have "enumerates [''k''] (ll_buckets (failures 8))" by (simp add: failures_bucket enumerates_def)
  moreover have "locked (1 * Minute) (ref ''k'')"
    by (simp add: locked_def alive_def ref(2) Minute_def)
  ultimately show ?thesis
    using limiter_counts [OF ref(1), of "1 * Minute" "[''k'']" "''k''"] by (auto simp: Minute_def)
qed

end
