(* ===== verification/EventStream.thy ===== *)
theory EventStream
  imports MemoryScopes
begin

text \<open>
  The stream of a run's events (\<^verbatim>\<open>eventStream\<close> and its helpers in
  \<^verbatim>\<open>internal/httpapi/handler.go\<close>): what a client gets on a server-sent event connection from the
  first batch on.  The connection is a sequence of operations, each of which may fail; the \<^verbatim>\<open>n\<close>-th
  reading of the repository is an argument too, since other requests run in between.  The loop that
  drains the log asks for batches as long as they are full, so it is a partial function: it
  returns \<^verbatim>\<open>None\<close> when it never ends.
\<close>

subsection \<open>Last-Event-ID\<close>

definition invalid_last_event_id :: Error where
  "invalid_last_event_id = Invalid ''invalid_last_event_id''
     (Msg ''Last-Event-ID must contain one decimal event sequence.'') ''Last-Event-ID''"

definition parseLastEventID :: "string list \<Rightarrow> Error + int" where
  "parseLastEventID values =
     (if length values = 0 then Inr 0
      else if length values \<noteq> 1 then Inl invalid_last_event_id
      else
        (let v = values ! 0
         in if v = [] \<or> (length v > 1 \<and> v ! 0 = CHR ''0'') then Inl invalid_last_event_id
            else if list_ex (\<lambda>c. c < CHR ''0'' \<or> CHR ''9'' < c) v then Inl invalid_last_event_id
            else case ParseInt 32 v of
              None \<Rightarrow> Inl invalid_last_event_id
            | Some parsed \<Rightarrow> Inr parsed))"

subsection \<open>The connection\<close>

text \<open>The frames, and their text; \<^verbatim>\<open>json.Marshal\<close> of an event is a parameter.\<close>

datatype frame = FRetry int | FEvent Event | FComplete string | FError | FHeartbeat

fun frame_text :: "(Event \<Rightarrow> string) \<Rightarrow> (string \<Rightarrow> string) \<Rightarrow> frame \<Rightarrow> string" where
  "frame_text json quote (FRetry ms) = ''retry: '' @ fmt_d ms @ [CHR 10, CHR 10]"
| "frame_text json quote (FEvent e) =
     ''id: '' @ fmt_d (ev_Sequence e) @ [CHR 10] @ ''event: run.event'' @ [CHR 10] @ ''data: '' @ json e @ [CHR 10, CHR 10]"
| "frame_text json quote (FComplete i) =
     ''event: run.complete'' @ [CHR 10] @ ''data: {\"run_id\":'' @ quote i @ ''}'' @ [CHR 10, CHR 10]"
| "frame_text json quote FError =
     ''event: stream.error'' @ [CHR 10] @ ''data: {\"code\":\"stream_unavailable\"}'' @ [CHR 10, CHR 10]"
| "frame_text json quote FHeartbeat = '': heartbeat'' @ [CHR 10, CHR 10]"

record stream =
  st_last :: int
  st_complete :: bool
  st_frames :: "frame list"
  st_io :: nat
  st_reads :: nat

text \<open>Whether the \<^verbatim>\<open>n\<close>-th operation on the connection succeeds; the \<^verbatim>\<open>n\<close>-th reading of a batch.\<close>

record stream_host =
  sh_io :: "nat \<Rightarrow> bool"
  sh_read :: "nat \<Rightarrow> int \<Rightarrow> int \<Rightarrow> goerr + EventStreamBatch \<times> bool"

definition and_then :: "stream \<times> bool \<Rightarrow> (stream \<Rightarrow> stream \<times> bool) \<Rightarrow> stream \<times> bool" where
  "and_then x f = (case x of (st, ok) \<Rightarrow> if ok then f st else (st, False))"

definition refreshSSEWriteDeadline :: "stream_host \<Rightarrow> stream \<Rightarrow> stream \<times> bool" where
  "refreshSSEWriteDeadline S st = (st\<lparr>st_io := st_io st + 1\<rparr>, sh_io S (st_io st))"

definition write_frame :: "stream_host \<Rightarrow> frame \<Rightarrow> stream \<Rightarrow> stream \<times> bool" where
  "write_frame S f st =
     (if sh_io S (st_io st) then (st\<lparr>st_io := st_io st + 1, st_frames := st_frames st @ [f]\<rparr>, True)
      else (st\<lparr>st_io := st_io st + 1\<rparr>, False))"

definition flushSSE :: "stream_host \<Rightarrow> stream \<Rightarrow> stream \<times> bool" where
  "flushSSE S st =
     and_then (refreshSSEWriteDeadline S st)
       (\<lambda>st. (st\<lparr>st_io := st_io st + 1\<rparr>, sh_io S (st_io st)))"

text \<open>A deadline, then a frame.\<close>

definition send_frame :: "stream_host \<Rightarrow> frame \<Rightarrow> stream \<Rightarrow> stream \<times> bool" where
  "send_frame S f st = and_then (refreshSSEWriteDeadline S st) (write_frame S f)"

definition writeStreamError :: "stream_host \<Rightarrow> stream \<Rightarrow> stream" where
  "writeStreamError S st =
     fst (and_then (refreshSSEWriteDeadline S st)
       (\<lambda>st. let st = fst (write_frame S FError st) in (st\<lparr>st_io := st_io st + 1\<rparr>, True)))"

definition isTerminalRun :: "Run \<Rightarrow> bool" where
  "isTerminalRun run \<longleftrightarrow> run_Status run = RunPassed \<or> run_Status run = RunFailed"

fun writeEventBatch :: "stream_host \<Rightarrow> Event list \<Rightarrow> stream \<Rightarrow> stream \<times> bool" where
  "writeEventBatch S [] st = (st, True)"
| "writeEventBatch S (e # es) st =
     (if ev_Sequence e \<le> st_last st then writeEventBatch S es st
      else case send_frame S (FEvent e) st of
        (st', ok) \<Rightarrow>
          if ok then writeEventBatch S es (st'\<lparr>st_last := ev_Sequence e\<rparr>) else (st', False))"

subsection \<open>The stream\<close>

definition batchSize :: int where
  "batchSize = 100"

definition read_batch :: "stream_host \<Rightarrow> stream \<Rightarrow> stream \<times> EventStreamBatch option" where
  "read_batch S st =
     (st\<lparr>st_reads := st_reads st + 1\<rparr>,
      case sh_read S (st_reads st) (st_last st) batchSize of
        Inr (batch, True) \<Rightarrow> Some batch
      | _ \<Rightarrow> None)"

definition complete_run :: "stream_host \<Rightarrow> string \<Rightarrow> EventStreamBatch \<Rightarrow> stream \<Rightarrow> stream \<times> bool" where
  "complete_run S i batch st =
     (if \<not> st_complete st \<and> isTerminalRun (eb_Run batch)
      then and_then (send_frame S (FComplete i) st) (\<lambda>st. (st\<lparr>st_complete := True\<rparr>, True))
      else (st, True))"

text \<open>
  The first loop: batches until one is not full.  It ends with the last batch, or with none when
  the connection failed or the repository did.
\<close>

partial_function (option) open_drain ::
  "stream_host \<Rightarrow> EventStreamBatch \<Rightarrow> stream \<Rightarrow> (stream \<times> EventStreamBatch option) option" where
  "open_drain S batch st =
     (case and_then (writeEventBatch S (eb_Events batch) st) (flushSSE S) of
        (st1, ok) \<Rightarrow>
          if \<not> ok then Some (st1, None)
          else if int (length (eb_Events batch)) < batchSize then Some (st1, Some batch)
          else (case read_batch S st1 of
            (st2, next_batch) \<Rightarrow>
              (case next_batch of
                 None \<Rightarrow> Some (writeStreamError S st2, None)
               | Some batch2 \<Rightarrow> open_drain S batch2 st2)))"

text \<open>The loop of a poll also reports a run that has finished.\<close>

partial_function (option) poll_drain ::
  "stream_host \<Rightarrow> string \<Rightarrow> EventStreamBatch \<Rightarrow> stream \<Rightarrow> (stream \<times> bool) option" where
  "poll_drain S i batch st =
     (case and_then (and_then (writeEventBatch S (eb_Events batch) st) (complete_run S i batch)) (flushSSE S) of
        (st1, ok) \<Rightarrow>
          if \<not> ok then Some (st1, False)
          else if int (length (eb_Events batch)) < batchSize then Some (st1, True)
          else (case read_batch S st1 of
            (st2, next_batch) \<Rightarrow>
              (case next_batch of
                 None \<Rightarrow> Some (writeStreamError S st2, False)
               | Some batch2 \<Rightarrow> poll_drain S i batch2 st2)))"

text \<open>What the \<^verbatim>\<open>select\<close> of the last loop receives; the loop runs until the client is gone.\<close>

datatype stimulus = Done | Poll | Heartbeat

fun stream_loop :: "stream_host \<Rightarrow> string \<Rightarrow> stimulus list \<Rightarrow> stream \<Rightarrow> (stream \<times> bool) option" where
  "stream_loop S i [] st = Some (st, True)"
| "stream_loop S i (Done # stimuli) st = Some (st, False)"
| "stream_loop S i (Poll # stimuli) st =
     (case read_batch S st of
        (st1, None) \<Rightarrow> Some (writeStreamError S st1, False)
      | (st1, Some batch) \<Rightarrow>
          (case poll_drain S i batch st1 of
             None \<Rightarrow> None
           | Some (st2, ok) \<Rightarrow> if ok then stream_loop S i stimuli st2 else Some (st2, False)))"
| "stream_loop S i (Heartbeat # stimuli) st =
     (case and_then (send_frame S FHeartbeat st) (flushSSE S) of
        (st1, ok) \<Rightarrow> if ok then stream_loop S i stimuli st1 else Some (st1, False))"

definition retry_milliseconds :: "duration \<Rightarrow> int" where
  "retry_milliseconds retry = (if Milliseconds retry < 1 then 1 else Milliseconds retry)"

text \<open>From the response header on; \<^verbatim>\<open>batch\<close> is the first batch, read before.\<close>

definition open_stream ::
  "stream_host \<Rightarrow> duration \<Rightarrow> string \<Rightarrow> EventStreamBatch \<Rightarrow> stream \<Rightarrow> (stream \<times> bool) option" where
  "open_stream S retry i batch st =
     (case and_then (send_frame S (FRetry (retry_milliseconds retry)) st) (flushSSE S) of
        (st1, ok) \<Rightarrow>
          if \<not> ok then Some (st1, False)
          else (case open_drain S batch st1 of
            None \<Rightarrow> None
          | Some (st2, None) \<Rightarrow> Some (st2, False)
          | Some (st2, Some last_batch) \<Rightarrow>
              Some (if isTerminalRun (eb_Run last_batch)
                then and_then (complete_run S i last_batch st2) (flushSSE S)
                else (st2, True))))"

definition stream_events ::
  "stream_host \<Rightarrow> duration \<Rightarrow> string \<Rightarrow> EventStreamBatch \<Rightarrow> stimulus list \<Rightarrow> stream \<Rightarrow> (stream \<times> bool) option" where
  "stream_events S retry i batch stimuli st =
     (case open_stream S retry i batch st of
        None \<Rightarrow> None
      | Some (st1, ok) \<Rightarrow> if ok then stream_loop S i stimuli st1 else Some (st1, False))"

subsection \<open>Canonical decimals\<close>

lemma digit_vals_map: "digit_vals s = Some ds \<Longrightarrow> s = map digit_char ds \<and> (\<forall>d \<in> set ds. d < 10)"
proof (induction s arbitrary: ds)
  case Nil
  then show ?case by simp
next
  case (Cons c s)
  then obtain d es where "digit_val c = Some d" "digit_vals s = Some es" "ds = d # es"
    by (auto split: option.splits)
  with Cons.IH [of es] digit_val_char digit_val_bound show ?case by auto
qed

lemma dec_digits_val:
  assumes "ds \<noteq> []" and "\<forall>d \<in> set ds. d < 10" and "length ds = 1 \<or> hd ds \<noteq> 0"
  shows "dec (digits_val ds) = map digit_char ds"
  using assms
proof (induction ds rule: rev_induct)
  case Nil
  then show ?case by simp
next
  case (snoc d ds)
  show ?case
  proof (cases "ds = []")
    case True
    with snoc.prems show ?thesis by (simp add: digits_val_def dec.simps)
  next
    case False
    then have hd: "hd ds \<noteq> 0" using snoc.prems(3) by auto
    have IH: "dec (digits_val ds) = map digit_char ds"
      using snoc.IH False snoc.prems(2) hd by auto
    obtain x xs where ds: "ds = x # xs" using False by (cases ds) auto
    have "0 < x * 10 ^ length xs" using hd ds by simp
    then have pos: "1 \<le> digits_val ds" unfolding ds digits_val_Cons by linarith
    have d: "d < 10" using snoc.prems(2) by simp
    have val: "digits_val (ds @ [d]) = 10 * digits_val ds + d" by (rule digits_val_snoc)
    have "dec (10 * digits_val ds + d) = dec (digits_val ds) @ [digit_char d]"
      by (subst dec.simps) (use pos d in auto)
    with IH val show ?thesis by simp
  qed
qed

lemma digit_val_in: "\<not> (c < CHR ''0'' \<or> CHR ''9'' < c) \<Longrightarrow> \<exists>d. digit_val c = Some d"
  by (simp add: digit_val_def not_less)

lemma digit_vals_all: "\<not> list_ex (\<lambda>c. c < CHR ''0'' \<or> CHR ''9'' < c) v \<Longrightarrow> \<exists>ds. digit_vals v = Some ds"
  by (induction v) (use digit_val_in in fastforce)+

lemma dec_no_other: "\<not> list_ex (\<lambda>c. c < CHR ''0'' \<or> CHR ''9'' < c) (dec n)"
proof -
  have "\<forall>d \<in> set [0..<10]. CHR ''0'' \<le> digit_char d \<and> digit_char d \<le> CHR ''9''" by code_simp
  then have "CHR ''0'' \<le> c \<and> c \<le> CHR ''9''" if "c \<in> set (dec n)" for c
    using dec_digits [OF that] by auto
  then show ?thesis unfolding list_ex_iff by (meson not_le)
qed

lemma dec_no_leading_zero: "1 < length (dec n) \<Longrightarrow> dec n ! 0 \<noteq> CHR ''0''"
proof (induction n rule: dec.induct)
  case (1 n)
  show ?case
  proof (cases "n < 10")
    case True
    with 1(2) show ?thesis by (simp add: dec.simps)
  next
    case False
    have eq: "dec n ! 0 = dec (n div 10) ! 0"
      by (subst dec.simps) (use False in \<open>simp add: nth_append\<close>)
    show ?thesis
    proof (cases "length (dec (n div 10)) > 1")
      case True
      with 1(1) False eq show ?thesis by simp
    next
      case one: False
      have "n div 10 < 10"
      proof (rule ccontr)
        assume "\<not> n div 10 < 10"
        then have "dec (n div 10) = dec (n div 10 div 10) @ [digit_char (n div 10 mod 10)]"
          by (subst dec.simps) simp
        moreover have "dec (n div 10 div 10) \<noteq> []" by simp
        ultimately show False using one by (cases "dec (n div 10 div 10)") auto
      qed
      moreover have "n div 10 \<noteq> 0" using False by simp
      ultimately show ?thesis
        using eq digit_char_inj [of "n div 10" 0] by (simp add: dec.simps) (simp add: digit_char_def)
    qed
  qed
qed

text \<open>
  A client resumes with exactly the identifiers the stream sends: a single \<^verbatim>\<open>Last-Event-ID\<close> is
  accepted if and only if it is the decimal the stream writes for a sequence number that
  fits in 32 bits, and it then means that number; anything else, such as a sign, a leading zero,
  a space or a repeated header, is the error.
\<close>

theorem last_event_id_canonical:
  "(parseLastEventID [v] = Inr n \<longleftrightarrow> 0 \<le> n \<and> n < 2 ^ 31 \<and> v = fmt_d n) \<and>
   (\<forall>e values. parseLastEventID values = Inl e \<longrightarrow> e = invalid_last_event_id) \<and>
   (\<forall>values. 1 < length values \<longrightarrow> parseLastEventID values = Inl invalid_last_event_id)"
proof (intro conjI allI impI)
  show "parseLastEventID [v] = Inr n \<longleftrightarrow> 0 \<le> n \<and> n < 2 ^ 31 \<and> v = fmt_d n"
  proof
    assume "parseLastEventID [v] = Inr n"
    then have ne: "v \<noteq> []" and lz: "\<not> (length v > 1 \<and> v ! 0 = CHR ''0'')"
      and dig: "\<not> list_ex (\<lambda>c. c < CHR ''0'' \<or> CHR ''9'' < c) v" and p: "ParseInt 32 v = Some n"
      by (auto simp: parseLastEventID_def Let_def split: if_splits option.splits)
    from digit_vals_all [OF dig] obtain ds where ds: "digit_vals v = Some ds" by blast
    note v = digit_vals_map [OF ds]
    have can: "length ds = 1 \<or> hd ds \<noteq> 0"
    proof (rule ccontr)
      assume "\<not> ?thesis"
      then obtain d es where "ds = 0 # d # es" using v ne by (cases ds; cases "tl ds") auto
      with v lz show False by (simp add: digit_char_def)
    qed
    have dec: "dec (digits_val ds) = v"
      using dec_digits_val [OF _ _ can] v ne by auto
    from ne obtain c cs where c: "v = c # cs" by (cases v) auto
    with dig have "c \<noteq> CHR ''-''" "c \<noteq> CHR ''+''" by auto
    with p ds c have "n = int (digits_val ds) \<and> digits_val ds < 2 ^ 31"
      by (auto simp: ParseInt_def ParseUint_def Let_def split: if_splits)
    then show "0 \<le> n \<and> n < 2 ^ 31 \<and> v = fmt_d n"
      using dec by (auto simp: fmt_d_def)
  next
    assume n: "0 \<le> n \<and> n < 2 ^ 31 \<and> v = fmt_d n"
    then have v: "v = dec (nat n)" by (simp add: fmt_d_def)
    obtain ds where ds: "digit_vals v = Some ds" "digits_val ds = nat n"
      using digit_vals_dec v by blast
    have "nat n < 2 ^ 31" using n by (simp add: nat_less_iff)
    then have "ParseInt 32 v = Some n"
      using ParseInt_digits [OF ds(1), of 32] n unfolding ds(2) by (simp add: v)
    then show "parseLastEventID [v] = Inr n"
      using dec_no_other [of "nat n"] dec_no_leading_zero [of "nat n"] by (auto simp: parseLastEventID_def v Let_def)
  qed
next
  fix e vs assume "parseLastEventID vs = Inl e"
  then show "e = invalid_last_event_id"
    by (auto simp: parseLastEventID_def Let_def split: if_splits option.splits)
next
  fix vs :: "string list" assume "1 < length vs"
  then show "parseLastEventID vs = Inl invalid_last_event_id"
    by (auto simp: parseLastEventID_def)
qed

subsection \<open>Delivery\<close>

fun frame_events :: "frame \<Rightarrow> Event list" where
  "frame_events (FEvent e) = [e]"
| "frame_events f = []"

definition sent :: "stream \<Rightarrow> Event list" where
  "sent st = concat (map frame_events (st_frames st))"

definition completions :: "stream \<Rightarrow> nat" where
  "completions st = length (filter (\<lambda>f. \<exists>i. f = FComplete i) (st_frames st))"

text \<open>
  The batches come from a growing log: of its events \<^verbatim>\<open>L\<close>, the first \<^verbatim>\<open>k n\<close> are there at the \<^verbatim>\<open>n\<close>-th
  reading, and a reading that succeeds gives the page after the sequence number asked for.
\<close>

definition log_page :: "Event list \<Rightarrow> (nat \<Rightarrow> nat) \<Rightarrow> nat \<Rightarrow> nat \<Rightarrow> Event list" where
  "log_page L k n a = take 100 (drop a (take (k n) L))"

definition reads_log :: "stream_host \<Rightarrow> Event list \<Rightarrow> (nat \<Rightarrow> nat) \<Rightarrow> bool" where
  "reads_log S L k \<longleftrightarrow> sequenced L \<and> mono k \<and> (\<forall>n. k n \<le> length L) \<and>
     (\<forall>n a batch. sh_read S n (int a) batchSize = Inr (batch, True) \<longrightarrow> eb_Events batch = log_page L k n a)"

text \<open>
  The invariant: what has been sent is the part of the log from the client's position up to the last
  sequence number, and the end of the run has been reported once if at all.
\<close>

definition stream_ok :: "Event list \<Rightarrow> (nat \<Rightarrow> nat) \<Rightarrow> nat \<Rightarrow> stream \<Rightarrow> bool" where
  "stream_ok L k a st \<longleftrightarrow>
     (\<exists>l. st_last st = int l \<and> a \<le> l \<and> l \<le> k (st_reads st - 1) \<and> sent st = drop a (take l L)) \<and>
     0 < st_reads st \<and> completions st = (if st_complete st then 1 else 0)"

definition caught_up :: "(nat \<Rightarrow> nat) \<Rightarrow> stream \<Rightarrow> bool" where
  "caught_up k st \<longleftrightarrow> st_last st = int (k (st_reads st - 1))"

lemma and_then_inv:
  assumes "P (fst x)" and "\<And>st. P st \<Longrightarrow> P (fst (f st))"
  shows "P (fst (and_then x f))"
  using assms by (auto simp: and_then_def split: prod.splits)

lemma stream_ok_io [simp]: "stream_ok L k a (st\<lparr>st_io := n\<rparr>) = stream_ok L k a st"
  by (simp add: stream_ok_def sent_def completions_def)

lemma caught_up_io [simp]: "caught_up k (st\<lparr>st_io := n\<rparr>) = caught_up k st"
  by (simp add: caught_up_def)

definition quiet :: "frame \<Rightarrow> bool" where
  "quiet f \<longleftrightarrow> frame_events f = [] \<and> (\<forall>i. f \<noteq> FComplete i)"

lemma write_frame_quiet:
  assumes "quiet f" and "stream_ok L k a st"
  shows "stream_ok L k a (fst (write_frame S f st))"
  using assms by (auto simp: write_frame_def stream_ok_def sent_def completions_def quiet_def)

lemma refresh_ok [simp]:
  "stream_ok L k a (fst (refreshSSEWriteDeadline S st)) = stream_ok L k a st"
  "caught_up k (fst (refreshSSEWriteDeadline S st)) = caught_up k st"
  by (simp_all add: refreshSSEWriteDeadline_def)

lemma flush_ok [simp]:
  "stream_ok L k a (fst (flushSSE S st)) = stream_ok L k a st"
  "caught_up k (fst (flushSSE S st)) = caught_up k st"
  by (auto simp: flushSSE_def and_then_def refreshSSEWriteDeadline_def)

lemma send_frame_fields:
  "send_frame S f st = (st', ok) \<Longrightarrow> st_last st' = st_last st \<and> st_complete st' = st_complete st \<and>
     st_reads st' = st_reads st \<and> st_frames st' = st_frames st @ (if ok then [f] else [])"
  by (auto simp: send_frame_def and_then_def refreshSSEWriteDeadline_def write_frame_def split: if_splits)

lemma send_frame_quiet:
  assumes "quiet f" and "stream_ok L k a st"
  shows "stream_ok L k a (fst (send_frame S f st))"
proof -
  obtain st' ok where s: "send_frame S f st = (st', ok)" by fastforce
  from send_frame_fields [OF s] assms show ?thesis
    by (cases ok) (auto simp: s stream_ok_def sent_def completions_def quiet_def)
qed

lemma caught_up_send [simp]: "caught_up k (fst (send_frame S f st)) = caught_up k st"
  using send_frame_fields [of S f st] by (cases "send_frame S f st") (simp add: caught_up_def)

lemma quiet_simps [simp]: "quiet (FRetry n)" "quiet FError" "quiet FHeartbeat"
  by (simp_all add: quiet_def)

lemma writeStreamError_ok: "stream_ok L k a st \<Longrightarrow> stream_ok L k a (writeStreamError S st)"
  unfolding writeStreamError_def
  by (rule and_then_inv) (simp_all add: Let_def write_frame_quiet)

lemma complete_run_ok:
  assumes "stream_ok L k a st"
  shows "stream_ok L k a (fst (complete_run S i batch st))"
    and "caught_up k (fst (complete_run S i batch st)) = caught_up k st"
proof -
  obtain st' ok where s: "send_frame S (FComplete i) st = (st', ok)" by fastforce
  note f = send_frame_fields [OF s]
  from f assms show "stream_ok L k a (fst (complete_run S i batch st))"
    by (cases ok) (auto simp: complete_run_def and_then_def s stream_ok_def sent_def completions_def)
  from f show "caught_up k (fst (complete_run S i batch st)) = caught_up k st"
    by (cases ok) (auto simp: complete_run_def and_then_def s caught_up_def)
qed

text \<open>A page written from the last sequence number on moves the end of what has been sent.\<close>

lemma writeEventBatch_page:
  assumes "sequenced L" and "j \<le> k (st_reads st - 1)" and "j \<le> length L"
    and "stream_ok L k a st" and "writeEventBatch S (drop (nat (st_last st)) (take j L)) st = (st', ok)"
  shows "stream_ok L k a st' \<and> st_reads st' = st_reads st \<and>
    (ok \<longrightarrow> st_last st' = max (st_last st) (int j))"
  using assms(2,4,5)
proof (induction "j - nat (st_last st)" arbitrary: st)
  case 0
  then obtain l where "st_last st = int l" by (auto simp: stream_ok_def)
  with 0 show ?case by auto
next
  case (Suc m)
  from Suc.prems(2) obtain l where l: "st_last st = int l" "a \<le> l" "sent st = drop a (take l L)"
    "0 < st_reads st" "completions st = (if st_complete st then 1 else 0)"
    by (auto simp: stream_ok_def)
  have lj: "l < j" using Suc.hyps(2) l(1) by simp
  then have cut: "drop l (take j L) = L ! l # drop (l + 1) (take j L)"
    using assms(3) Cons_nth_drop_Suc [of l "take j L"] by simp
  have seq: "ev_Sequence (L ! l) = int l + 1"
    using sequenced_nth [OF assms(1), of l] lj assms(3) by simp
  obtain st1 ok1 where s: "send_frame S (FEvent (L ! l)) st = (st1, ok1)" by fastforce
  note f = send_frame_fields [OF s]
  show ?case
  proof (cases ok1)
    case False
    with Suc.prems(3) have "st' = st1" "\<not> ok" by (simp_all add: l(1) cut seq s)
    with f False Suc.prems(2) show ?thesis by (simp add: stream_ok_def sent_def completions_def)
  next
    case True
    let ?st = "st1\<lparr>st_last := int l + 1\<rparr>"
    have "take (l + 1) L = take l L @ [L ! l]"
      using lj assms(3) by (simp add: take_Suc_conv_app_nth)
    then have "sent ?st = drop a (take (l + 1) L)"
      using f True l(2,3) lj assms(3) by (simp add: sent_def)
    then have ok: "stream_ok L k a ?st"
      using f True l lj Suc.prems(1)
      by (auto simp: stream_ok_def completions_def intro!: exI [of _ "l + 1"])
    have "writeEventBatch S (drop (nat (st_last ?st)) (take j L)) ?st = (st', ok)"
      using Suc.prems(3) True by (simp add: l(1) cut seq s nat_add_distrib)
    from Suc.hyps(1) [OF _ _ ok this] f Suc.prems(1) Suc.hyps(2) l(1) lj show ?thesis
      by (auto simp: nat_add_distrib)
  qed
qed

lemma reads_logD:
  assumes "reads_log S L k"
  shows "sequenced L" and "k n \<le> length L" and "m \<le> n \<Longrightarrow> k m \<le> k n"
    and "sh_read S n (int l) batchSize = Inr (batch, True) \<Longrightarrow> eb_Events batch = log_page L k n l"
  using assms by (auto simp: reads_log_def mono_def)

lemma page_step:
  assumes log: "reads_log S L k" and ok0: "stream_ok L k a st"
    and es: "es = log_page L k (st_reads st - 1) (nat (st_last st))"
    and w: "writeEventBatch S es st = (st', ok)"
  shows "stream_ok L k a st' \<and> st_reads st' = st_reads st \<and>
    (ok \<longrightarrow> (if length es < 100 then caught_up k st' else st_last st' = st_last st + 100))"
proof -
  from ok0 obtain l where l: "st_last st = int l" "l \<le> k (st_reads st - 1)"
    by (auto simp: stream_ok_def)
  define n where "n = k (st_reads st - 1)"
  have n: "n \<le> length L" unfolding n_def by (rule reads_logD(2) [OF log])
  define j where "j = min n (l + 100)"
  have page: "es = drop (nat (st_last st)) (take j L)"
    using l n unfolding es log_page_def n_def [symmetric] j_def
    by (simp add: take_drop min.commute add.commute)
  have len: "length es = j - l" using n by (simp add: page l(1) j_def)
  from writeEventBatch_page [OF reads_logD(1) [OF log], of j k st, OF _ _ ok0 w [unfolded page]] n
  have "stream_ok L k a st' \<and> st_reads st' = st_reads st \<and> (ok \<longrightarrow> st_last st' = max (st_last st) (int j))"
    by (simp add: j_def n_def)
  then show ?thesis
    using len l(2) by (auto simp: l(1) caught_up_def j_def n_def)
qed

lemma read_step:
  assumes log: "reads_log S L k" and ok: "stream_ok L k a st" and r: "read_batch S st = (st', x)"
  shows "stream_ok L k a st' \<and> st_last st' = st_last st \<and>
    (\<forall>batch. x = Some batch \<longrightarrow> eb_Events batch = log_page L k (st_reads st' - 1) (nat (st_last st')))"
proof -
  from ok obtain l where l: "st_last st = int l" "a \<le> l" "l \<le> k (st_reads st - 1)" "0 < st_reads st"
    by (auto simp: stream_ok_def)
  have st': "st' = st\<lparr>st_reads := st_reads st + 1\<rparr>" using r by (simp add: read_batch_def)
  have "l \<le> k (st_reads st)"
    using l(3) reads_logD(3) [OF log, of "st_reads st - 1" "st_reads st"] by linarith
  then have "stream_ok L k a st'"
    using ok l by (auto simp: st' stream_ok_def sent_def completions_def)
  moreover have "eb_Events batch = log_page L k (st_reads st) l" if "x = Some batch" for batch
  proof (rule reads_logD(4) [OF log])
    show "sh_read S (st_reads st) (int l) batchSize = Inr (batch, True)"
      using r that by (auto simp: read_batch_def l(1) split: sum.splits prod.splits bool.splits)
  qed
  ultimately show ?thesis using l(1) by (auto simp: st')
qed

lemma and_thenE:
  assumes "and_then x f = (st, ok)"
  obtains st1 where "x = (st1, False)" "st = st1" "\<not> ok"
  | st1 where "x = (st1, True)" "f st1 = (st, ok)"
  using assms by (cases x) (auto simp: and_then_def split: if_splits)

lemma flush_step:
  "flushSSE S st = (st', ok) \<Longrightarrow> stream_ok L k a st \<Longrightarrow> stream_ok L k a st' \<and> st_reads st' = st_reads st \<and>
     st_last st' = st_last st"
  using flush_ok(1) [of L k a S st]
  by (auto simp: flushSSE_def and_then_def refreshSSEWriteDeadline_def split: if_splits)

text \<open>One round of the first loop, and of the loop of a poll.\<close>

definition round_ok where
  "round_ok L k a st es st1 ok \<longleftrightarrow> stream_ok L k a st1 \<and> st_reads st1 = st_reads st \<and>
     (ok \<longrightarrow> (if length es < 100 then caught_up k st1 else st_last st1 = st_last st + 100))"

lemma open_round:
  assumes "reads_log S L k" and "stream_ok L k a st"
    and "es = log_page L k (st_reads st - 1) (nat (st_last st))"
    and "and_then (writeEventBatch S es st) (flushSSE S) = (st1, ok)"
  shows "round_ok L k a st es st1 ok"
  using assms(4)
proof (cases rule: and_thenE)
  case (1 st2)
  with page_step [OF assms(1-3) 1(1)] show ?thesis by (simp add: round_ok_def)
next
  case (2 st2)
  note w = page_step [OF assms(1-3) 2(1)]
  from flush_step [OF 2(2), of L k a] w show ?thesis by (auto simp: round_ok_def caught_up_def)
qed

lemma complete_step:
  assumes "complete_run S i batch st = (st', ok)" and "stream_ok L k a st"
  shows "stream_ok L k a st' \<and> st_reads st' = st_reads st \<and> st_last st' = st_last st"
  using complete_run_ok(1) [OF assms(2), of S i batch] assms(1) send_frame_fields [of S "FComplete i" st]
  by (auto simp: complete_run_def and_then_def split: if_splits prod.splits)

lemma poll_round:
  assumes "reads_log S L k" and "stream_ok L k a st"
    and "es = log_page L k (st_reads st - 1) (nat (st_last st))"
    and "and_then (and_then (writeEventBatch S es st) (complete_run S i batch)) (flushSSE S) = (st1, ok)"
  shows "round_ok L k a st es st1 ok"
  using assms(4)
proof (cases rule: and_thenE)
  case (1 st2)
  from 1(1) have "stream_ok L k a st2 \<and> st_reads st2 = st_reads st"
  proof (cases rule: and_thenE)
    case (1 st3)
    with page_step [OF assms(1-3) 1(1)] show ?thesis by simp
  next
    case (2 st3)
    from page_step [OF assms(1-3) 2(1)] complete_step [OF 2(2), of L k a] show ?thesis by simp
  qed
  with 1 show ?thesis by (simp add: round_ok_def)
next
  case (2 st2)
  from 2(1) obtain st3 where w: "writeEventBatch S es st = (st3, True)" and c: "complete_run S i batch st3 = (st2, True)"
    by (cases rule: and_thenE) auto
  from page_step [OF assms(1-3) w] complete_step [OF c, of L k a] flush_step [OF 2(2), of L k a]
  show ?thesis by (auto simp: round_ok_def caught_up_def)
qed

lemma left_over:
  assumes "reads_log S L k" and "stream_ok L k a st" and "stream_ok L k a st1" and "st_last st1 = st_last st + 100"
  shows "length L - nat (st_last st1) < length L - nat (st_last st)"
proof -
  from assms(3) obtain l where "st_last st1 = int l" "l \<le> k (st_reads st1 - 1)"
    by (auto simp: stream_ok_def)
  moreover have "k (st_reads st1 - 1) \<le> length L" by (rule reads_logD(2) [OF assms(1)])
  ultimately show ?thesis using assms(2,4) by (auto simp: stream_ok_def)
qed

text \<open>Both loops end, since a full batch leaves less of the log.\<close>

lemma open_drain_ends:
  assumes "reads_log S L k" and "stream_ok L k a st"
    and "eb_Events batch = log_page L k (st_reads st - 1) (nat (st_last st))"
  shows "\<exists>st' r. open_drain S batch st = Some (st', r) \<and> stream_ok L k a st' \<and> (r \<noteq> None \<longrightarrow> caught_up k st')"
  using assms(2,3)
proof (induction "length L - nat (st_last st)" arbitrary: st batch rule: less_induct)
  case less
  obtain st1 ok where r1: "and_then (writeEventBatch S (eb_Events batch) st) (flushSSE S) = (st1, ok)" by fastforce
  from open_round [OF assms(1) less.prems r1] have r: "stream_ok L k a st1"
    "ok \<Longrightarrow> length (eb_Events batch) < 100 \<Longrightarrow> caught_up k st1"
    "ok \<Longrightarrow> \<not> length (eb_Events batch) < 100 \<Longrightarrow> st_last st1 = st_last st + 100"
    by (auto simp: round_ok_def)
  show ?case
  proof (cases "ok \<and> \<not> length (eb_Events batch) < 100")
    case False
    then show ?thesis
      using r by (subst open_drain.simps) (auto simp: r1 batchSize_def)
  next
    case True
    obtain st2 x where rb: "read_batch S st1 = (st2, x)" by fastforce
    note rd = read_step [OF assms(1) r(1) rb]
    show ?thesis
    proof (cases x)
      case None
      then show ?thesis
        using True rd writeStreamError_ok by (subst open_drain.simps) (auto simp: r1 rb batchSize_def)
    next
      case (Some batch2)
      have "length L - nat (st_last st2) < length L - nat (st_last st)"
        using left_over [OF assms(1) less.prems(1) r(1)] r(3) True rd by simp
      from less.hyps [OF this] rd Some show ?thesis
        using True by (subst open_drain.simps) (auto simp: r1 rb batchSize_def)
    qed
  qed
qed

lemma poll_drain_ends:
  assumes "reads_log S L k" and "stream_ok L k a st"
    and "eb_Events batch = log_page L k (st_reads st - 1) (nat (st_last st))"
  shows "\<exists>st' ok. poll_drain S i batch st = Some (st', ok) \<and> stream_ok L k a st' \<and> (ok \<longrightarrow> caught_up k st')"
  using assms(2,3)
proof (induction "length L - nat (st_last st)" arbitrary: st batch rule: less_induct)
  case less
  obtain st1 ok where
    r1: "and_then (and_then (writeEventBatch S (eb_Events batch) st) (complete_run S i batch)) (flushSSE S) = (st1, ok)"
    by fastforce
  from poll_round [OF assms(1) less.prems r1] have r: "stream_ok L k a st1"
    "ok \<Longrightarrow> length (eb_Events batch) < 100 \<Longrightarrow> caught_up k st1"
    "ok \<Longrightarrow> \<not> length (eb_Events batch) < 100 \<Longrightarrow> st_last st1 = st_last st + 100"
    by (auto simp: round_ok_def)
  show ?case
  proof (cases "ok \<and> \<not> length (eb_Events batch) < 100")
    case False
    then show ?thesis
      using r by (subst poll_drain.simps) (auto simp: r1 batchSize_def)
  next
    case True
    obtain st2 x where rb: "read_batch S st1 = (st2, x)" by fastforce
    note rd = read_step [OF assms(1) r(1) rb]
    show ?thesis
    proof (cases x)
      case None
      then show ?thesis
        using True rd writeStreamError_ok by (subst poll_drain.simps) (auto simp: r1 rb batchSize_def)
    next
      case (Some batch2)
      have "length L - nat (st_last st2) < length L - nat (st_last st)"
        using left_over [OF assms(1) less.prems(1) r(1)] r(3) True rd by simp
      from less.hyps [OF this] rd Some show ?thesis
        using True by (subst poll_drain.simps) (auto simp: r1 rb batchSize_def)
    qed
  qed
qed

lemma stream_loop_ends:
  assumes "reads_log S L k" and "stream_ok L k a st"
  shows "\<exists>st' ok. stream_loop S i stimuli st = Some (st', ok) \<and> stream_ok L k a st' \<and>
    (ok \<and> stimuli = [] \<longrightarrow> st' = st) \<and> (ok \<and> stimuli \<noteq> [] \<and> last stimuli = Poll \<longrightarrow> caught_up k st')"
  using assms(2)
proof (induction stimuli arbitrary: st)
  case Nil
  then show ?case by auto
next
  case (Cons x stimuli)
  show ?case
  proof (cases x)
    case Done
    with Cons.prems show ?thesis by auto
  next
    case Heartbeat
    obtain st1 ok where h: "and_then (send_frame S FHeartbeat st) (flushSSE S) = (st1, ok)" by fastforce
    have "stream_ok L k a (fst (and_then (send_frame S FHeartbeat st) (flushSSE S)))"
      by (rule and_then_inv) (simp_all add: Cons.prems send_frame_quiet)
    then have ok: "stream_ok L k a st1" by (simp add: h)
    from Cons.IH [OF this] Heartbeat h show ?thesis
      using ok by (cases ok; cases "stimuli = []") auto
  next
    case Poll
    obtain st1 b where rb: "read_batch S st = (st1, b)" by fastforce
    note rd = read_step [OF assms(1) Cons.prems rb]
    show ?thesis
    proof (cases b)
      case None
      with Poll rb rd show ?thesis by (auto simp: writeStreamError_ok)
    next
      case (Some batch)
      with rd have "stream_ok L k a st1" "eb_Events batch = log_page L k (st_reads st1 - 1) (nat (st_last st1))"
        by simp_all
      from poll_drain_ends [OF assms(1) this, of i] obtain st2 ok where
        d: "poll_drain S i batch st1 = Some (st2, ok)" "stream_ok L k a st2" "ok \<Longrightarrow> caught_up k st2" by blast
      from Cons.IH [OF d(2)] Poll rb Some d show ?thesis
        by (cases ok; cases "stimuli = []") auto
    qed
  qed
qed

lemma open_stream_ends:
  assumes "reads_log S L k" and "stream_ok L k a st"
    and "eb_Events batch = log_page L k (st_reads st - 1) (nat (st_last st))"
  shows "\<exists>st' ok. open_stream S retry i batch st = Some (st', ok) \<and> stream_ok L k a st' \<and> (ok \<longrightarrow> caught_up k st')"
proof -
  let ?f = "FRetry (retry_milliseconds retry)"
  obtain st1 ok where h: "and_then (send_frame S ?f st) (flushSSE S) = (st1, ok)" by fastforce
  have st1: "stream_ok L k a st1 \<and> st_last st1 = st_last st \<and> st_reads st1 = st_reads st" if ok
    using h that
  proof (cases rule: and_thenE)
    case (2 st2)
    from send_frame_fields [OF 2(1)] send_frame_quiet [OF quiet_simps(1) assms(2), of S "retry_milliseconds retry"]
      flush_step [OF 2(2), of L k a]
    show ?thesis by (simp add: 2(1))
  qed simp
  have st1': "stream_ok L k a st1"
    using and_then_inv [of "stream_ok L k a" "send_frame S ?f st" "flushSSE S"] send_frame_quiet [OF _ assms(2)]
    by (simp add: h)
  show ?thesis
  proof (cases ok)
    case False
    with st1' show ?thesis by (auto simp: open_stream_def h)
  next
    case True
    note s = st1 [OF True]
    then obtain st2 r where d: "open_drain S batch st1 = Some (st2, r)" "stream_ok L k a st2"
        "r \<noteq> None \<Longrightarrow> caught_up k st2"
      using open_drain_ends [OF assms(1), of a st1 batch] assms(3) by auto
    show ?thesis
    proof (cases r)
      case None
      with True d show ?thesis by (auto simp: open_stream_def h)
    next
      case (Some b)
      obtain st3 ok3 where c: "and_then (complete_run S i b st2) (flushSSE S) = (st3, ok3)" by fastforce
      have "stream_ok L k a (fst (and_then (complete_run S i b st2) (flushSSE S)))"
        by (rule and_then_inv) (simp_all add: complete_run_ok(1) d(2))
      then have 1: "stream_ok L k a st3" by (simp add: c)
      have "caught_up k (fst (and_then (complete_run S i b st2) (flushSSE S)))"
        by (rule and_then_inv) (use Some d(3) in \<open>simp_all add: complete_run_ok(2) [OF d(2)]\<close>)
      then have 2: "caught_up k st3" by (simp add: c)
      have "open_stream S retry i batch st = Some (if isTerminalRun (eb_Run b) then (st3, ok3) else (st2, True))"
        unfolding open_stream_def h prod.case d(1) option.case Some c using True by simp
      then show ?thesis
        using 1 2 d(2,3) Some by (cases "isTerminalRun (eb_Run b)") auto
    qed
  qed
qed

subsection \<open>Where the events come from\<close>

text \<open>
  Whatever the readings and the connection do, a stream sends no event but those of the batches it was
  given.
\<close>

definition sends_of :: "Event set \<Rightarrow> stream \<Rightarrow> bool" where
  "sends_of X st \<longleftrightarrow> (\<forall>e. FEvent e \<in> set (st_frames st) \<longrightarrow> e \<in> X)"

definition reads_of :: "stream_host \<Rightarrow> Event set \<Rightarrow> bool" where
  "reads_of S X \<longleftrightarrow>
     (\<forall>n a limit batch. sh_read S n a limit = Inr (batch, True) \<longrightarrow> set (eb_Events batch) \<subseteq> X)"

lemma sends_of_send:
  assumes "send_frame S f st = (st', ok)" and "sends_of X st" and "\<And>e. f = FEvent e \<Longrightarrow> e \<in> X"
  shows "sends_of X st'"
  using send_frame_fields [OF assms(1)] assms(2,3) by (auto simp: sends_of_def)

lemma sends_of_flush: "sends_of X (fst (flushSSE S st)) = sends_of X st"
  by (auto simp: flushSSE_def and_then_def refreshSSEWriteDeadline_def sends_of_def)

lemma sends_of_fields [simp]:
  "sends_of X (st\<lparr>st_last := n\<rparr>) = sends_of X st" "sends_of X (st\<lparr>st_reads := m\<rparr>) = sends_of X st"
  "sends_of X (st\<lparr>st_complete := c\<rparr>) = sends_of X st" "sends_of X (st\<lparr>st_io := m\<rparr>) = sends_of X st"
  by (simp_all add: sends_of_def)

lemma sends_of_batch:
  "set es \<subseteq> X \<Longrightarrow> sends_of X st \<Longrightarrow> sends_of X (fst (writeEventBatch S es st))"
proof (induction es arbitrary: st)
  case (Cons e es)
  obtain st1 ok where s: "send_frame S (FEvent e) st = (st1, ok)" by fastforce
  have "sends_of X st1" by (rule sends_of_send [OF s Cons.prems(2)]) (use Cons.prems(1) in simp)
  with Cons s show ?case by (auto split: prod.splits)
qed simp

lemma sends_of_quiet: "quiet f \<Longrightarrow> sends_of X st \<Longrightarrow> sends_of X (fst (send_frame S f st))"
  using sends_of_send [of S f st "fst (send_frame S f st)" "snd (send_frame S f st)" X]
  by (cases f) (auto simp: quiet_def)

lemma sends_of_complete: "sends_of X st \<Longrightarrow> sends_of X (fst (complete_run S i batch st))"
proof -
  assume st: "sends_of X st"
  obtain st1 ok where s: "send_frame S (FComplete i) st = (st1, ok)" by fastforce
  from sends_of_send [OF s st] have "sends_of X st1" by simp
  with st show ?thesis by (simp add: complete_run_def and_then_def s)
qed

lemma sends_of_error: "sends_of X st \<Longrightarrow> sends_of X (writeStreamError S st)"
  by (auto simp: writeStreamError_def and_then_def refreshSSEWriteDeadline_def write_frame_def sends_of_def Let_def)

lemma sends_of_round:
  assumes "set es \<subseteq> X" and "sends_of X st"
  shows "sends_of X (fst (and_then (writeEventBatch S es st) (flushSSE S)))"
    and "sends_of X (fst (and_then (and_then (writeEventBatch S es st) (complete_run S i batch)) (flushSSE S)))"
proof -
  have w: "sends_of X (fst (writeEventBatch S es st))"
    by (rule sends_of_batch [OF assms])
  then show "sends_of X (fst (and_then (writeEventBatch S es st) (flushSSE S)))"
    by (rule and_then_inv) (simp add: sends_of_flush)
  have "sends_of X (fst (and_then (writeEventBatch S es st) (complete_run S i batch)))"
    using w by (rule and_then_inv) (rule sends_of_complete)
  then show "sends_of X (fst (and_then (and_then (writeEventBatch S es st) (complete_run S i batch)) (flushSSE S)))"
    by (rule and_then_inv) (simp add: sends_of_flush)
qed

lemma sends_of_read:
  assumes "reads_of S X" and "read_batch S st = (st', b)" and "sends_of X st"
  shows "sends_of X st'" and "b = Some batch \<Longrightarrow> set (eb_Events batch) \<subseteq> X"
  using assms by (auto simp: read_batch_def reads_of_def split: sum.splits prod.splits bool.splits)

lemma sends_of_open_drain:
  assumes "open_drain S batch st = Some y"
  shows "reads_of S X \<longrightarrow> set (eb_Events batch) \<subseteq> X \<longrightarrow> sends_of X st \<longrightarrow> sends_of X (fst y)"
proof (rule open_drain.raw_induct [OF _ assms])
  fix drain S batch st y
  assume IH: "\<And>S batch st y. drain S batch st = Some y \<Longrightarrow>
      reads_of S X \<longrightarrow> set (eb_Events batch) \<subseteq> X \<longrightarrow> sends_of X st \<longrightarrow> sends_of X (fst y)"
    and body: "(case and_then (writeEventBatch S (eb_Events batch) st) (flushSSE S) of
        (st1, ok) \<Rightarrow>
          if \<not> ok then Some (st1, None)
          else if int (length (eb_Events batch)) < batchSize then Some (st1, Some batch)
          else (case read_batch S st1 of
            (st2, next_batch) \<Rightarrow>
              (case next_batch of
                 None \<Rightarrow> Some (writeStreamError S st2, None)
               | Some batch2 \<Rightarrow> drain S batch2 st2))) = Some y"
  show "reads_of S X \<longrightarrow> set (eb_Events batch) \<subseteq> X \<longrightarrow> sends_of X st \<longrightarrow> sends_of X (fst y)"
  proof (intro impI)
    assume r: "reads_of S X" and b: "set (eb_Events batch) \<subseteq> X" and s: "sends_of X st"
    obtain st1 ok where w: "and_then (writeEventBatch S (eb_Events batch) st) (flushSSE S) = (st1, ok)"
      by fastforce
    have st1: "sends_of X st1" using sends_of_round(1) [OF b s, of S] by (simp add: w)
    obtain st2 c where rb: "read_batch S st1 = (st2, c)" by fastforce
    note st2 = sends_of_read [OF r rb st1]
    show "sends_of X (fst y)"
      using body IH [of S _ st2 y] r st1 st2
      by (auto simp: w rb sends_of_error split: if_splits option.splits)
  qed
qed

lemma sends_of_poll_drain:
  assumes "poll_drain S i batch st = Some y"
  shows "reads_of S X \<longrightarrow> set (eb_Events batch) \<subseteq> X \<longrightarrow> sends_of X st \<longrightarrow> sends_of X (fst y)"
proof (rule poll_drain.raw_induct [OF _ assms])
  fix drain S i batch st y
  assume IH: "\<And>S i batch st y. drain S i batch st = Some y \<Longrightarrow>
      reads_of S X \<longrightarrow> set (eb_Events batch) \<subseteq> X \<longrightarrow> sends_of X st \<longrightarrow> sends_of X (fst y)"
    and body: "(case and_then (and_then (writeEventBatch S (eb_Events batch) st) (complete_run S i batch)) (flushSSE S) of
        (st1, ok) \<Rightarrow>
          if \<not> ok then Some (st1, False)
          else if int (length (eb_Events batch)) < batchSize then Some (st1, True)
          else (case read_batch S st1 of
            (st2, next_batch) \<Rightarrow>
              (case next_batch of
                 None \<Rightarrow> Some (writeStreamError S st2, False)
               | Some batch2 \<Rightarrow> drain S i batch2 st2))) = Some y"
  show "reads_of S X \<longrightarrow> set (eb_Events batch) \<subseteq> X \<longrightarrow> sends_of X st \<longrightarrow> sends_of X (fst y)"
  proof (intro impI)
    assume r: "reads_of S X" and b: "set (eb_Events batch) \<subseteq> X" and s: "sends_of X st"
    obtain st1 ok where w: "and_then (and_then (writeEventBatch S (eb_Events batch) st) (complete_run S i batch))
        (flushSSE S) = (st1, ok)"
      by fastforce
    have st1: "sends_of X st1" using sends_of_round(2) [OF b s, of S i batch] by (simp add: w)
    obtain st2 c where rb: "read_batch S st1 = (st2, c)" by fastforce
    note st2 = sends_of_read [OF r rb st1]
    show "sends_of X (fst y)"
      using body IH [of S i _ st2 y] r st1 st2
      by (auto simp: w rb sends_of_error split: if_splits option.splits)
  qed
qed

lemma sends_of_loop:
  assumes "reads_of S X" and "stream_loop S i stimuli st = Some (st', live)" and "sends_of X st"
  shows "sends_of X st'"
  using assms(2,3)
proof (induction stimuli arbitrary: st)
  case (Cons x stimuli)
  show ?case
  proof (cases x)
    case Done
    with Cons.prems show ?thesis by simp
  next
    case Heartbeat
    obtain st1 ok where h: "and_then (send_frame S FHeartbeat st) (flushSSE S) = (st1, ok)" by fastforce
    have "sends_of X (fst (and_then (send_frame S FHeartbeat st) (flushSSE S)))"
      by (rule and_then_inv) (simp_all add: sends_of_flush sends_of_quiet Cons.prems(2))
    then have "sends_of X st1" by (simp add: h)
    with Cons.IH [of st1] Cons.prems(1) Heartbeat h show ?thesis by (cases ok) simp_all
  next
    case Poll
    obtain st1 b where rb: "read_batch S st = (st1, b)" by fastforce
    note rd = sends_of_read [OF assms(1) rb Cons.prems(2)]
    show ?thesis
    proof (cases b)
      case None
      with Cons.prems Poll rb rd show ?thesis by (auto simp: sends_of_error)
    next
      case (Some batch)
      with Cons.prems(1) Poll rb obtain st2 ok where d: "poll_drain S i batch st1 = Some (st2, ok)"
          "(if ok then stream_loop S i stimuli st2 else Some (st2, False)) = Some (st', live)"
        by (auto split: option.splits)
      have "sends_of X st2"
        using sends_of_poll_drain [OF d(1)] assms(1) rd Some by auto
      with d(2) Cons.IH show ?thesis by (cases ok) auto
    qed
  qed
qed simp

lemma stream_sends_of:
  assumes "reads_of S X" and "set (eb_Events batch) \<subseteq> X" and "sends_of X st"
    and "stream_events S retry i batch stimuli st = Some (st', live)"
  shows "sends_of X st'"
proof -
  obtain st1 ok where h: "and_then (send_frame S (FRetry (retry_milliseconds retry)) st) (flushSSE S) = (st1, ok)"
    by fastforce
  have "sends_of X (fst (and_then (send_frame S (FRetry (retry_milliseconds retry)) st) (flushSSE S)))"
    by (rule and_then_inv) (simp_all add: sends_of_flush sends_of_quiet assms(3))
  then have st1: "sends_of X st1" by (simp add: h)
  have opened: "sends_of X st2" if o: "open_stream S retry i batch st = Some (st2, ok2)" for st2 ok2
  proof (cases ok)
    case False
    with o st1 show ?thesis by (simp add: open_stream_def h)
  next
    case True
    with o obtain st3 r where d: "open_drain S batch st1 = Some (st3, r)"
      by (auto simp: open_stream_def h split: option.splits)
    have st3: "sends_of X st3"
      using sends_of_open_drain [OF d] assms(1,2) st1 by simp
    have "sends_of X (fst (and_then (complete_run S i b st3) (flushSSE S)))" for b
      by (rule and_then_inv) (simp_all add: sends_of_flush sends_of_complete st3)
    moreover have "st2 = st3 \<or> (\<exists>b. st2 = fst (and_then (complete_run S i b st3) (flushSSE S)))"
      using o True by (auto simp: open_stream_def h d split: option.splits if_splits) (metis fst_conv)
    ultimately show ?thesis using st3 by auto
  qed
  obtain st2 ok2 where o: "open_stream S retry i batch st = Some (st2, ok2)"
    using assms(4) by (auto simp: stream_events_def split: option.splits)
  from opened [OF this] assms(4) o sends_of_loop [OF assms(1)] show ?thesis
    by (auto simp: stream_events_def split: if_splits)
qed

text \<open>The readings of an in-memory repository whose log of the run grows between them.\<close>

lemma memory_reads_log:
  assumes "sequenced L" and "mono k" and "\<And>n. k n \<le> length L" and "\<And>n. memory_ok (rs n)"
    and "\<And>n. mr_events (rs n) i = Some (take (k n) L)" and "\<And>n. mr_runs (rs n) i \<noteq> None"
  shows "reads_log \<lparr>sh_io = io, sh_read = \<lambda>n a limit. EventsAfter i a limit (rs n)\<rparr> L k"
proof -
  have "eb_Events batch = log_page L k n a" if "EventsAfter i (int a) batchSize (rs n) = Inr (batch, True)" for n a batch
  proof -
    obtain run where run: "mr_runs (rs n) i = Some run" using assms(6) by blast
    obtain evs where "mr_events (rs n) i = Some evs" "run_ID run = i" "sequenced evs"
      using runs_ok_story [of "rs n" i run] assms(4) [of n] run by (auto simp: memory_ok_def)
    then show ?thesis
      using that assms(5) [of n] run
      by (simp add: EventsAfter_def eventsAfterLocked_page log_page_def batchSize_def page_limit_def)
        (metis EventStreamBatch.select_convs(2))
  qed
  with assms(1-3) show ?thesis by (simp add: reads_log_def)
qed

definition stream_start :: "nat \<Rightarrow> stream" where
  "stream_start a = \<lparr>st_last = int a, st_complete = False, st_frames = [], st_io = 1, st_reads = 1\<rparr>"

text \<open>
  C12. A stream delivers the log of its run without a gap, a repetition or a reordering, from the
  event after \<^verbatim>\<open>Last-Event-ID\<close> on, whatever else happens: the log, which is finite in the end, is only
  extended by other requests between any two readings, readings are polled and heartbeats sent in any order, and the connection may
  fail at any operation.  The stream always comes back from draining the log; its events are then those
  after the client's position up to the last one it delivered, so a client that reconnects
  with the last identifier it saw misses nothing; the end of the run is reported at most once; and a
  stream that is still open after its start or after a poll has delivered the whole log of its last
  reading.
\<close>

theorem stream_gapless:
  assumes "sequenced L" and "mono k" and "\<And>n. k n \<le> length L" and "\<And>n. memory_ok (rs n)"
    and "\<And>n. mr_events (rs n) i = Some (take (k n) L)" and "\<And>n. mr_runs (rs n) i \<noteq> None"
    and "EventsAfter i (int a) batchSize (rs 0) = Inr (batch, True)" and "a \<le> k 0"
    and "S = \<lparr>sh_io = io, sh_read = \<lambda>n a limit. EventsAfter i a limit (rs n)\<rparr>"
  shows "\<exists>st live l. stream_events S retry i batch stimuli (stream_start a) = Some (st, live) \<and>
    st_last st = int l \<and> a \<le> l \<and> l \<le> length L \<and> sent st = drop a (take l L) \<and> completions st \<le> 1 \<and>
    (live \<and> (stimuli = [] \<or> last stimuli = Poll) \<longrightarrow> l = k (st_reads st - 1))"
proof -
  have log: "reads_log S L k"
    unfolding assms(9) by (rule memory_reads_log [OF assms(1-6)])
  have start: "stream_ok L k a (stream_start a)"
    using assms(8) by (auto simp: stream_ok_def stream_start_def sent_def completions_def)
  have "sh_read S 0 (int a) batchSize = Inr (batch, True)" by (simp add: assms(9,7))
  from reads_logD(4) [OF log this]
  have page: "eb_Events batch = log_page L k (st_reads (stream_start a) - 1) (nat (st_last (stream_start a)))"
    by (simp add: stream_start_def)
  obtain st1 ok where o: "open_stream S retry i batch (stream_start a) = Some (st1, ok)" "stream_ok L k a st1"
      "ok \<Longrightarrow> caught_up k st1"
    using open_stream_ends [OF log start page] by blast
  obtain st2 ok2 where r: "stream_loop S i stimuli st1 = Some (st2, ok2)" "stream_ok L k a st2"
      "ok2 \<Longrightarrow> stimuli = [] \<Longrightarrow> st2 = st1" "ok2 \<Longrightarrow> stimuli \<noteq> [] \<Longrightarrow> last stimuli = Poll \<Longrightarrow> caught_up k st2"
    using stream_loop_ends [OF log o(2), of i stimuli] by blast
  define st live where "st = (if ok then st2 else st1)" and "live = (ok \<and> ok2)"
  have run: "stream_events S retry i batch stimuli (stream_start a) = Some (st, live)"
    using o(1) r(1) by (auto simp: stream_events_def st_def live_def)
  have st: "stream_ok L k a st" using o(2) r(2) by (simp add: st_def)
  have cu: "caught_up k st" if "live \<and> (stimuli = [] \<or> last stimuli = Poll)"
    using that o(3) r(3,4) by (cases "stimuli = []") (auto simp: st_def live_def)
  from st obtain l where "st_last st = int l" "a \<le> l" "l \<le> k (st_reads st - 1)" "sent st = drop a (take l L)"
    "completions st \<le> 1" by (auto simp: stream_ok_def split: if_splits)
  with run cu assms(3) [of "st_reads st - 1"] show ?thesis
    by (intro exI [of _ st] exI [of _ live] exI [of _ l]) (auto simp: caught_up_def)
qed

theorem stream_gapless_witness:
  "\<exists>batch st live l. EventsAfter (runID 1) 0 batchSize tenant_sample = Inr (batch, True) \<and>
     stream_events \<lparr>sh_io = \<lambda>n. n \<noteq> 20, sh_read = \<lambda>n a limit. EventsAfter (runID 1) a limit tenant_sample\<rparr>
       (2 * Second) (runID 1) batch [Heartbeat, Poll] (stream_start 0) = Some (st, live) \<and>
     sent st = take l (rb_Events (sample_bundle 1))"
proof -
  let ?L = "rb_Events (sample_bundle 1)"
  note run = tenant_sample_run(1,2)
  have seq: "sequenced ?L"
    using sample_bundle_facts(1) [of 1] by (simp add: bundle_ok_def)
  from run eventsAfterLocked_page [OF _ seq, of tenant_sample "rb_Run (sample_bundle 1)" 0 batchSize]
  obtain batch where read: "EventsAfter (runID 1) (int 0) batchSize tenant_sample = Inr (batch, True)"
    by (simp add: EventsAfter_def)
  have m: "mono (\<lambda>_ :: nat. length ?L)" by (simp add: mono_def)
  have "\<exists>st live l. stream_events \<lparr>sh_io = \<lambda>n. n \<noteq> 20, sh_read = \<lambda>n a limit. EventsAfter (runID 1) a limit tenant_sample\<rparr>
      (2 * Second) (runID 1) batch [Heartbeat, Poll] (stream_start 0) = Some (st, live) \<and>
    st_last st = int l \<and> 0 \<le> l \<and> l \<le> length ?L \<and> sent st = drop 0 (take l ?L) \<and> completions st \<le> 1 \<and>
    (live \<and> ([Heartbeat, Poll] = [] \<or> last [Heartbeat, Poll] = Poll) \<longrightarrow> l = length ?L)"
    by (rule stream_gapless [OF seq m _ memory_ok_tenant_sample _ _ read _ refl]) (simp_all add: run)
  then show ?thesis using read by (elim exE conjE) (intro exI conjI, simp, assumption, simp)
qed

theorem last_event_id_canonical_witness:
  "parseLastEventID [''42''] = Inr 42 \<and> parseLastEventID [''4'', ''2''] = Inl invalid_last_event_id"
proof -
  have "fmt_d 42 = ''42''" by code_simp
  then show ?thesis
    using last_event_id_canonical [of "''42''" 42] by simp
qed

end
