(* ===== verification/StripeSignature.thy ===== *)
theory StripeSignature
  imports GoConv Domain
begin

text \<open>
  The check of a webhook's \<^verbatim>\<open>Stripe-Signature\<close> header (\<^verbatim>\<open>verifyStripeSignature\<close> in
  \<^verbatim>\<open>internal/httpapi/webhook.go\<close>): the fields of the header, the time window and the digest of
  the signed text.  A function that returns only an error gives \<^verbatim>\<open>None\<close> for nil.
\<close>

subsection \<open>The check\<close>

text \<open>
  The loop over the parts of the header: the last timestamp and every \<^verbatim>\<open>v1\<close> value, or the error of
  a timestamp that is no number.
\<close>

fun signature_fields :: "string list \<Rightarrow> int \<times> string list \<Rightarrow> goerr + int \<times> string list" where
  "signature_fields [] (timestamp, signatures) = Inr (timestamp, signatures)"
| "signature_fields (part # parts) (timestamp, signatures) =
     (case Cut (TrimSpace part) (CHR ''='') of
        None \<Rightarrow> signature_fields parts (timestamp, signatures)
      | Some (key, v) \<Rightarrow>
          if key = ''t''
          then (case ParseInt 64 v of
                  None \<Rightarrow> Inl (ErrWrap ''invalid timestamp: '' (ErrFmt ''strconv.ParseInt: parsing %q'' [v]))
                | Some parsed \<Rightarrow> signature_fields parts (parsed, signatures))
          else if key = ''v1'' then signature_fields parts (timestamp, signatures @ [v])
          else signature_fields parts (timestamp, signatures))"

definition signed_text :: "int \<Rightarrow> string \<Rightarrow> string" where
  "signed_text timestamp payload = fmt_d timestamp @ ''.'' @ payload"

definition verifyStripeSignature ::
  "crypto \<Rightarrow> string \<Rightarrow> string \<Rightarrow> string \<Rightarrow> time \<Rightarrow> duration \<Rightarrow> goerr option" where
  "verifyStripeSignature C payload hdr secret now tolerance =
     (case signature_fields (Split hdr (CHR '','')) (0, []) of
        Inl e \<Rightarrow> Some e
      | Inr (timestamp, signatures) \<Rightarrow>
          if timestamp = 0 \<or> length signatures = 0
          then Some (ErrNew ''required signature fields missing'')
          else
            (let signedAt = Unix timestamp
             in if Sub now signedAt > tolerance \<or> Sub signedAt now > tolerance
                then Some (ErrNew ''signature timestamp outside tolerance'')
                else
                  (let expected = hmac_sha256 C secret (signed_text timestamp payload)
                   in if list_ex (\<lambda>candidate. hex_decode candidate = Some expected) signatures
                      then None
                      else Some (ErrNew ''signature mismatch''))))"

subsection \<open>The fields of a header\<close>

definition has_field :: "string \<Rightarrow> string \<Rightarrow> string \<Rightarrow> bool" where
  "has_field hdr key v \<longleftrightarrow>
     (\<exists>part \<in> set (Split hdr (CHR '','')). Cut (TrimSpace part) (CHR ''='') = Some (key, v))"

lemma signature_fields_inv:
  "signature_fields parts (t0, sigs0) = Inr (t, sigs) \<Longrightarrow>
     (t = t0 \<or> (\<exists>part \<in> set parts. \<exists>v. Cut (TrimSpace part) (CHR ''='') = Some (''t'', v) \<and> ParseInt 64 v = Some t)) \<and>
     (\<forall>v \<in> set sigs. v \<in> set sigs0 \<or>
        (\<exists>part \<in> set parts. Cut (TrimSpace part) (CHR ''='') = Some (''v1'', v)))"
proof (induction parts "(t0, sigs0)" arbitrary: t0 sigs0 rule: signature_fields.induct)
  case 1
  then show ?case by simp
next
  case (2 part parts t0 sigs0)
  show ?case
  proof (cases "Cut (TrimSpace part) (CHR ''='')")
    case None
    with 2 show ?thesis by fastforce
  next
    case (Some kv)
    obtain key v where kv: "kv = (key, v)" by (cases kv)
    consider (t) "key = ''t''" | (v1) "key = ''v1''" | (other) "key \<noteq> ''t''" "key \<noteq> ''v1''" by blast
    then show ?thesis
    proof cases
      case t
      with Some kv 2(5) obtain p where p: "ParseInt 64 v = Some p"
        "signature_fields parts (p, sigs0) = Inr (t, sigs)" by (auto split: option.splits)
      from 2(2) [OF Some kv [symmetric, unfolded prod.inject] t p(1) p(2)] show ?thesis
        using Some kv t p(1) by fastforce
    next
      case v1
      with Some kv 2(5) have "signature_fields parts (t0, sigs0 @ [v]) = Inr (t, sigs)" by simp
      with 2(3) [OF Some] kv v1 Some show ?thesis by fastforce
    next
      case other
      with Some kv 2(5) have "signature_fields parts (t0, sigs0) = Inr (t, sigs)" by simp
      with 2(4) [OF Some] kv other show ?thesis by fastforce
    qed
  qed
qed

lemma verify_sound:
  assumes "verifyStripeSignature C payload hdr secret now tolerance = None"
    and "0 \<le> tolerance" and "tolerance < max_int64"
  shows "\<exists>timestamp ts v mac. has_field hdr ''t'' ts \<and> ParseInt 64 ts = Some timestamp \<and>
    \<bar>now - Unix timestamp\<bar> \<le> tolerance \<and> has_field hdr ''v1'' v \<and> hex_decode v = Some mac \<and>
    mac = hmac_sha256 C secret (signed_text timestamp payload)"
proof -
  from assms(1) obtain t sigs v where f: "signature_fields (Split hdr (CHR '','')) (0, []) = Inr (t, sigs)"
    and t: "t \<noteq> 0" and w: "\<not> Sub now (Unix t) > tolerance" "\<not> Sub (Unix t) now > tolerance"
    and v: "v \<in> set sigs" "hex_decode v = Some (hmac_sha256 C secret (signed_text t payload))"
    by (auto simp: verifyStripeSignature_def Let_def list_ex_iff split: sum.splits if_splits)
  from signature_fields_inv [OF f] t v(1) have "\<exists>ts. has_field hdr ''t'' ts \<and> ParseInt 64 ts = Some t"
    "has_field hdr ''v1'' v"
    by (auto simp: has_field_def)
  moreover have "\<bar>now - Unix t\<bar> \<le> tolerance"
    using w assms(2,3) by (auto simp: Sub_def max_int64_def min_int64_def)
  ultimately show ?thesis using v(2) by blast
qed

subsection \<open>The header Stripe sends\<close>

definition stripe_header :: "crypto \<Rightarrow> string \<Rightarrow> int \<Rightarrow> string \<Rightarrow> string" where
  "stripe_header C secret timestamp payload =
     ''t='' @ fmt_d timestamp @ '',v1='' @ hex_encode (hmac_sha256 C secret (signed_text timestamp payload))"

lemma fmt_d_nonneg: "0 \<le> t \<Longrightarrow> fmt_d t = dec (nat t)"
  by (simp add: fmt_d_def)

lemma dec_plain: "c \<in> set (dec n) \<Longrightarrow> c \<in> set ''0123456789''"
  using dec_digits [of c n] digit_cases by (auto simp: digit_char_def nth_Cons' dest!: digit_cases)

lemma signed_text_inj:
  assumes "0 \<le> t" and "0 \<le> t'"
  shows "signed_text t p = signed_text t' p' \<longleftrightarrow> t = t' \<and> p = p'"
proof
  assume eq: "signed_text t p = signed_text t' p'"
  have dot: "CHR ''.'' \<notin> set (dec n)" for n using dec_plain [of "CHR ''.''" n] by auto
  have "takeWhile (\<lambda>c. c \<noteq> CHR ''.'') (signed_text u q) = dec (nat u) \<and>
      dropWhile (\<lambda>c. c \<noteq> CHR ''.'') (signed_text u q) = CHR ''.'' # q" if "0 \<le> u" for u q
    using dot [of "nat u"] that
    by (auto simp: signed_text_def fmt_d_nonneg takeWhile_append dropWhile_append)
  from this [OF assms(1), of p] this [OF assms(2), of p'] eq
  have "dec (nat t) = dec (nat t')" "p = p'" by auto
  with assms show "t = t' \<and> p = p'" by (auto simp: dec_inj)
qed simp

lemma TrimSpace_plain:
  assumes "s \<noteq> []" and "hd s \<in> A" and "last s \<in> A"
    and "\<And>w. w \<in> set space_encodings \<Longrightarrow> hd w \<notin> A \<and> last w \<notin> A"
  shows "TrimSpace s = s"
proof -
  have "\<not> HasPrefix s w" if "w \<in> set space_encodings" "w \<noteq> []" for w
    using assms(1,2) assms(4) [OF that(1)] that(2) by (auto simp: HasPrefix_decomp)
  then have front: "trim_front space_encodings s = s" by (rule trim_front_fixed)
  have "\<not> HasPrefix (rev s) w" if "w \<in> set (map rev space_encodings)" "w \<noteq> []" for w
  proof
    assume "HasPrefix (rev s) w"
    moreover from that obtain u where u: "w = rev u" "u \<in> set space_encodings" "u \<noteq> []" by auto
    ultimately have "last s = last u" using assms(1)
      by (auto simp: HasPrefix_decomp) (metis hd_append hd_rev rev_is_Nil_conv)
    with assms(3) assms(4) [OF u(2)] show False by simp
  qed
  then have "trim_front (map rev space_encodings) (rev s) = rev s" by (rule trim_front_fixed)
  with front show ?thesis by (simp add: TrimSpace_def)
qed

lemma spaces_apart: "w \<in> set space_encodings \<Longrightarrow>
    hd w \<notin> set ''0123456789abcdeftv='' \<and> last w \<notin> set ''0123456789abcdeftv=''"
  by (simp add: space_encodings_def) (elim disjE; simp)

lemma stripe_header_parts:
  assumes "0 < t"
  shows "signature_fields (Split (''t='' @ fmt_d t @ '',v1='' @ hex_encode mac) (CHR '','')) (0, []) =
    (case ParseInt 64 (fmt_d t) of
       None \<Rightarrow> Inl (ErrWrap ''invalid timestamp: '' (ErrFmt ''strconv.ParseInt: parsing %q'' [fmt_d t]))
     | Some u \<Rightarrow> Inr (u, [hex_encode mac]))"
proof -
  have hexc: "c \<in> set (hex_encode mac) \<Longrightarrow> c \<in> set ''0123456789abcdef''" for c
    using hex_encode_chars by (auto simp: is_hex_lower_def)
  have d: "fmt_d t = dec (nat t)" using assms by (simp add: fmt_d_def)
  have comma: "CHR '','' \<notin> set (''t='' @ dec (nat t))" "CHR '','' \<notin> set (''v1='' @ hex_encode mac)"
    using dec_plain [of "CHR '',''" "nat t"] hexc [of "CHR '',''"] by auto
  have split: "Split (''t='' @ fmt_d t @ '',v1='' @ hex_encode mac) (CHR '','') =
      [''t='' @ dec (nat t), ''v1='' @ hex_encode mac]"
    using Split_append_sep [OF comma(1), of "''v1='' @ hex_encode mac"] Split_no_sep [OF comma(2)] by (simp add: d)
  have trim1: "TrimSpace (''t='' @ dec (nat t)) = ''t='' @ dec (nat t)"
    by (rule TrimSpace_plain [OF _ _ _ spaces_apart])
      (use dec_plain [of "last (dec (nat t))" "nat t"] in \<open>auto simp: last_in_set\<close>)
  have trim2: "TrimSpace (''v1='' @ hex_encode mac) = ''v1='' @ hex_encode mac"
  proof (rule TrimSpace_plain [OF _ _ _ spaces_apart])
    show "last (''v1='' @ hex_encode mac) \<in> set ''0123456789abcdeftv=''"
      using hexc [of "last (hex_encode mac)"] by (cases "hex_encode mac = []") (auto simp: last_in_set)
  qed simp_all
  have cut: "Cut (''t='' @ dec (nat t)) (CHR ''='') = Some (''t'', dec (nat t))"
    "Cut (''v1='' @ hex_encode mac) (CHR ''='') = Some (''v1'', hex_encode mac)"
    by (simp_all add: Cut_def)
  show ?thesis
    unfolding split by (simp add: trim1 trim2 cut d del: append_Cons split: option.splits)
qed

lemma verify_stripe_header:
  assumes "0 < timestamp" and "timestamp < 9223371974719179008"
    and "0 \<le> tolerance" and "tolerance < max_int64"
  shows "verifyStripeSignature C received (stripe_header C secret timestamp payload) secret now tolerance = None
    \<longleftrightarrow> hmac_sha256 C secret (signed_text timestamp received) = hmac_sha256 C secret (signed_text timestamp payload) \<and>
      \<bar>now - timestamp * Second\<bar> \<le> tolerance"
proof -
  have "ParseInt 64 (fmt_d timestamp) = Some timestamp"
    using assms(1,2) by (intro ParseInt_fmt_d) simp_all
  with stripe_header_parts [OF assms(1)]
  have fields: "signature_fields (Split (stripe_header C secret timestamp payload) (CHR '','')) (0, []) =
      Inr (timestamp, [hex_encode (hmac_sha256 C secret (signed_text timestamp payload))])"
    by (simp add: stripe_header_def)
  have unix: "Unix timestamp = timestamp * Second"
    using assms(1,2) by (intro Unix_id) simp_all
  show ?thesis
    using assms(1,3,4)
    by (auto simp: verifyStripeSignature_def fields unix Sub_def max_int64_def min_int64_def Let_def)
qed

text \<open>
  A header that was signed for a payload at a time verifies that payload and no other, exactly
  while the clock is within the tolerance of the signing time on either side: a payload that was
  altered after it was signed, a replay after the window and a timestamp from the future are all
  refused.  The digest is assumed free of collisions for the text that was signed.
\<close>

theorem signature_binds_payload:
  assumes "0 < timestamp" and "timestamp < 9223371974719179008"
    and "0 \<le> tolerance" and "tolerance < max_int64"
    and "\<forall>m. hmac_sha256 C secret m = hmac_sha256 C secret (signed_text timestamp payload) \<longrightarrow>
      m = signed_text timestamp payload"
  shows "verifyStripeSignature C received (stripe_header C secret timestamp payload) secret now tolerance = None
    \<longleftrightarrow> received = payload \<and> \<bar>now - timestamp * Second\<bar> \<le> tolerance"
proof -
  have "hmac_sha256 C secret (signed_text timestamp received) = hmac_sha256 C secret (signed_text timestamp payload)
      \<longleftrightarrow> received = payload"
    using assms(1,5) signed_text_inj [of timestamp timestamp received payload] by fastforce
  then show ?thesis
    using verify_stripe_header [OF assms(1-4)] by simp
qed

definition mock_crypto :: crypto where
  "mock_crypto = \<lparr>sha256 = id, hmac_sha256 = (\<lambda>k m. k @ m)\<rparr>"

theorem signature_binds_payload_witness:
  "verifyStripeSignature mock_crypto ''{}'' (stripe_header mock_crypto ''whsec'' 1700000000 ''{}'') ''whsec''
     (1700000010 * Second) (5 * Minute) = None \<and>
   verifyStripeSignature mock_crypto ''[]'' (stripe_header mock_crypto ''whsec'' 1700000000 ''{}'') ''whsec''
     (1700000010 * Second) (5 * Minute) \<noteq> None"
  using signature_binds_payload [of 1700000000 "5 * Minute" mock_crypto "''whsec''" "''{}''"]
  by (simp add: mock_crypto_def max_int64_def Second_def Minute_def)

end
