(* ===== verification/HttpTypes.thy ===== *)
theory HttpTypes
  imports StripeService AuthService LoginLimiter EventStream StripeSignature
begin

text \<open>
  What the handlers of \<^verbatim>\<open>internal/httpapi\<close> read and write: requests, responses, the state behind
  the server, its configuration, and the helpers that answer errors, read bodies and load the
  session of a request.  A handler takes the state and the response written so far and gives
  both back, or \<^verbatim>\<open>None\<close> when it panics or never returns.
\<close>

subsection \<open>Requests and responses\<close>

text \<open>
  \<^verbatim>\<open>rq_Segments\<close> are the segments of the request's path, which the mux matches;
  \<^verbatim>\<open>rq_Path\<close> is the decoded path.  \<^verbatim>\<open>rq_Cookie\<close> is what \<^verbatim>\<open>Request.Cookie\<close> parses, whose one error
  is that there is no such cookie, and \<^verbatim>\<open>rq_Body\<close> the bytes of the body or a failure to read them.
\<close>

record Request =
  rq_Method :: string
  rq_Path :: string
  rq_Segments :: "string list"
  rq_PathValue :: "string \<Rightarrow> string"
  rq_Query :: "string \<Rightarrow> string"
  rq_Header :: "string \<Rightarrow> string list"
  rq_Cookie :: "string \<Rightarrow> string option"
  rq_RemoteAddr :: string
  rq_Body :: "goerr + string"

definition header_get :: "Request \<Rightarrow> string \<Rightarrow> string" where
  "header_get r k = (case rq_Header r k of [] \<Rightarrow> [] | v # _ \<Rightarrow> v)"

text \<open>
  The values the handlers encode.  Of a connection the encoder writes the fields that are not
  tagged \<^verbatim>\<open>json:"-"\<close>, which leaves out the ciphertext of its key.
\<close>

datatype Json =
    JString string
  | JBool bool
  | JInt int
  | JArray "Json list"
  | JObject "(string \<times> Json) list"
  | JError Error
  | JRun Run
  | JEvent Event
  | JReport Report
  | JOverview Overview
  | JScenario Scenario
  | JConnection string string string string time
  | JSession SessionView
  | JProject ProjectView
  | JEnvironment Environment
  | JFinding Finding
  | JNotification Notification

definition connection_json :: "StripeConnection \<Rightarrow> Json" where
  "connection_json c =
     JConnection (sc_ID c) (sc_StripeAccountID c) (sc_SandboxName c) (sc_Status c) (sc_CreatedAt c)"

definition list_json :: "Json list \<Rightarrow> Json" where
  "list_json items =
     JObject [(''object'', JString ''list''), (''data'', JArray items), (''has_more'', JBool False)]"

record Cookie =
  ck_Name :: string
  ck_Value :: string
  ck_Path :: string
  ck_MaxAge :: int
  ck_Expires :: "time option"
  ck_HttpOnly :: bool
  ck_Secure :: bool
  ck_SameSite :: string

text \<open>The status is 0 until a handler writes one; the server then sends 200.\<close>

datatype chunk = CJson Json | CFrame frame | CText string

record Response =
  rs_Status :: int
  rs_Header :: "string \<rightharpoonup> string"
  rs_Cookies :: "Cookie list"
  rs_Body :: "chunk list"

definition empty_response :: Response where
  "empty_response = \<lparr>rs_Status = 0, rs_Header = Map.empty, rs_Cookies = [], rs_Body = []\<rparr>"

definition set_header :: "string \<Rightarrow> string \<Rightarrow> Response \<Rightarrow> Response" where
  "set_header k v w = w\<lparr>rs_Header := (rs_Header w)(k \<mapsto> v)\<rparr>"

definition WriteHeader :: "int \<Rightarrow> Response \<Rightarrow> Response" where
  "WriteHeader status w = w\<lparr>rs_Status := status\<rparr>"

definition writeJSON :: "int \<Rightarrow> Json \<Rightarrow> Response \<Rightarrow> Response" where
  "writeJSON status v w =
     (let w1 = WriteHeader status (set_header ''Content-Type'' ''application/json; charset=utf-8'' w)
      in w1\<lparr>rs_Body := rs_Body w1 @ [CJson v]\<rparr>)"

text \<open>\<^verbatim>\<open>http.Error\<close>, with which the mux answers for itself: plain text.\<close>

definition http_Error :: "string \<Rightarrow> int \<Rightarrow> Response \<Rightarrow> Response" where
  "http_Error msg code w =
     (let w1 = WriteHeader code (set_header ''X-Content-Type-Options'' ''nosniff''
            (set_header ''Content-Type'' ''text/plain; charset=utf-8'' w))
      in w1\<lparr>rs_Body := rs_Body w1 @ [CText (msg @ [CHR 10])]\<rparr>)"

definition writeError :: "Request \<Rightarrow> Error \<Rightarrow> Response \<Rightarrow> Response" where
  "writeError r apiErr0 w =
     (let apiErr = apiErr0\<lparr>er_RequestID := header_get r ''X-ParityLab-Request-ID''\<rparr>;
          status = (if er_HTTPStatus apiErr = 0 then 500 else er_HTTPStatus apiErr)
      in writeJSON status (JObject [(''error'', JError apiErr)]) w)"

subsection \<open>State, configuration and parameters\<close>

record ('s, 'g, 'a) Api =
  api_repo :: 's
  api_gateway :: 'g
  api_auth :: 'a
  api_nextID :: nat
  api_limiter :: loginLimiter

record ('s, 'g, 'a) HttpConfig =
  cf_WebOrigin :: string
  cf_WebhookSecret :: string
  cf_EndpointToken :: string
  cf_SignatureMaxAge :: duration
  cf_Stripe :: "('s, 'g) StripeService option"
  cf_Auth :: "'a AuthService option"
  cf_InsecureCookies :: bool
  cf_SSEPollInterval :: duration
  cf_SSEHeartbeat :: duration
  cf_SSERetry :: duration
  cf_SSEWriteTimeout :: duration

record ('s, 'g, 'a) Handler =
  hd_engine :: "'s Repository"
  hd_config :: "('s, 'g, 'a) HttpConfig"

text \<open>\<^verbatim>\<open>New\<close>, less the clock: the defaults of the configuration, and the first state.\<close>

definition New_handler ::
  "'s Repository \<Rightarrow> ('s, 'g, 'a) HttpConfig \<Rightarrow> 's \<Rightarrow> 'g \<Rightarrow> 'a \<Rightarrow> ('s, 'g, 'a) Handler \<times> ('s, 'g, 'a) Api" where
  "New_handler service config0 s g a =
     (let c1 = (if cf_WebOrigin config0 = [] then config0\<lparr>cf_WebOrigin := ''http://localhost:3000''\<rparr> else config0);
          c2 = (if cf_SignatureMaxAge c1 = 0 then c1\<lparr>cf_SignatureMaxAge := 5 * Minute\<rparr> else c1);
          c3 = (if cf_SSEPollInterval c2 \<le> 0 then c2\<lparr>cf_SSEPollInterval := 500 * Millisecond\<rparr> else c2);
          c4 = (if cf_SSEHeartbeat c3 \<le> 0 then c3\<lparr>cf_SSEHeartbeat := 15 * Second\<rparr> else c3);
          c5 = (if cf_SSERetry c4 \<le> 0 then c4\<lparr>cf_SSERetry := 2 * Second\<rparr> else c4);
          c6 = (if cf_SSEWriteTimeout c5 \<le> 0 then c5\<lparr>cf_SSEWriteTimeout := 10 * Second\<rparr> else c5)
      in (\<lparr>hd_engine = service, hd_config = c6\<rparr>,
          \<lparr>api_repo = s, api_gateway = g, api_auth = a, api_nextID = 0, api_limiter = newLoginLimiter\<rparr>))"

record validateStripeConnectionRequest =
  vc_SecretKey :: string
  vc_SandboxName :: string

record createStripePaymentIntentRunRequest =
  cp_ConnectionID :: string
  cp_AmountMinor :: int
  cp_Currency :: string

record createRunRequest =
  cr_ScenarioID :: string
  cr_Fault :: Fault

record registerRequest =
  rr_Email :: string
  rr_Password :: string
  rr_WorkspaceName :: string
  rr_ProjectName :: string

record loginRequest =
  lr_Email :: string
  lr_Password :: string

record updateProjectRequest =
  up_Name :: string
  up_RetentionDays :: int

record stripeEnvelope =
  sn_ID :: string
  sn_Type :: string
  sn_Livemode :: bool

text \<open>
  The parameters of a request: the hash functions and ciphers, what \<^verbatim>\<open>encoding/json\<close> makes of a body
  (\<^verbatim>\<open>None\<close> for an error) and whether it holds nothing after its first value, the readings of the
  clock and the random bytes in the order they are drawn, the iteration orders of the login limiter's
  map, and what the streaming of events depends on: the states that the readings after the first meet, the
  operations of the connection that succeed, whether the response can be flushed, and the stimuli.
\<close>

record 's http_env =
  he_host :: auth_host
  he_validate :: "string \<Rightarrow> validateStripeConnectionRequest option"
  he_payment :: "string \<Rightarrow> createStripePaymentIntentRunRequest option"
  he_createRun :: "string \<Rightarrow> createRunRequest option"
  he_register :: "string \<Rightarrow> registerRequest option"
  he_login :: "string \<Rightarrow> loginRequest option"
  he_updateProject :: "string \<Rightarrow> updateProjectRequest option"
  he_envelope :: "string \<Rightarrow> stripeEnvelope option"
  he_webhook :: "string \<Rightarrow> webhook_envelope"
  he_single :: "string \<Rightarrow> bool"
  he_now :: "nat \<Rightarrow> time"
  he_uuid :: random
  he_nonce :: random
  he_draws :: draws
  he_keys :: "nat \<Rightarrow> string list"
  he_later :: "nat \<Rightarrow> 's"
  he_io :: "nat \<Rightarrow> bool"
  he_flusher :: bool
  he_stimuli :: "stimulus list"

subsection \<open>Bodies\<close>

definition maxRequestBody :: nat where
  "maxRequestBody = 2 ^ 20"

text \<open>\<^verbatim>\<open>io.ReadAll(http.MaxBytesReader(w, r.Body, maxRequestBody))\<close>.\<close>

definition read_body :: "Request \<Rightarrow> goerr + string" where
  "read_body r =
     (case rq_Body r of
        Inl e \<Rightarrow> Inl e
      | Inr body \<Rightarrow> if maxRequestBody < length body then Inl (ErrNew ''http: request body too large'') else Inr body)"

text \<open>The body and its value, or the response that tells what is wrong with it.\<close>

definition decodeJSONBody ::
  "(string \<Rightarrow> 'v option) \<Rightarrow> (string \<Rightarrow> bool) \<Rightarrow> Request \<Rightarrow> Response \<Rightarrow> Response + string \<times> 'v" where
  "decodeJSONBody decode single r w =
     (case read_body r of
        Inl e \<Rightarrow> Inl (writeError r (Invalid ''request_too_large''
          (Msg ''The request body exceeds 1 MiB.'') []) w)
      | Inr body \<Rightarrow>
          (case decode body of
             None \<Rightarrow> Inl (writeError r (Invalid ''invalid_json''
               (Msg ''The request body must be a valid JSON object with only supported fields.'') []) w)
           | Some v \<Rightarrow>
               if \<not> single body
               then Inl (writeError r (Invalid ''invalid_json''
                 (Msg ''The request body must contain exactly one JSON object.'') []) w)
               else Inr (body, v)))"

subsection \<open>Sessions of a request\<close>

definition sessionCookieName :: string where
  "sessionCookieName = ''paritylab_session''"

type_synonym ('s, 'g, 'a) conn = "('s, 'g, 'a) Api \<times> Response"

definition conn_error :: "Request \<Rightarrow> Error \<Rightarrow> ('s, 'g, 'a) conn \<Rightarrow> ('s, 'g, 'a) conn" where
  "conn_error r apiErr x = (fst x, writeError r apiErr (snd x))"

definition auth_not_configured :: Error where
  "auth_not_configured =
     \<lparr>er_Type = ''api_error'', er_Code = ''auth_not_configured'',
      er_Message = Msg ''Authentication is not configured.'', er_Param = [], er_RequestID = [],
      er_HTTPStatus = 503\<rparr>"

text \<open>The call of \<^verbatim>\<open>Auth.Session\<close> that both of the next functions end with.\<close>

definition load_session ::
  "'s http_env \<Rightarrow> 'a AuthService \<Rightarrow> string \<Rightarrow> Request \<Rightarrow> ('s, 'g, 'a) conn \<Rightarrow>
   ('s, 'g, 'a) conn \<times> SessionView option" where
  "load_session E A token r x =
     (case AuthService_Session (he_host E) A (he_now E 0) token (api_auth (fst x)) of
        (u, Inl apiErr) \<Rightarrow> (conn_error r apiErr ((fst x)\<lparr>api_auth := u\<rparr>, snd x), None)
      | (u, Inr identity) \<Rightarrow> (((fst x)\<lparr>api_auth := u\<rparr>, snd x), Some identity))"

definition requireSession ::
  "('s, 'g, 'a) Handler \<Rightarrow> 's http_env \<Rightarrow> Request \<Rightarrow> ('s, 'g, 'a) conn \<Rightarrow>
   ('s, 'g, 'a) conn \<times> SessionView option" where
  "requireSession h E r x =
     (case cf_Auth (hd_config h) of
        None \<Rightarrow> (x, None)
      | Some A \<Rightarrow>
          (case rq_Cookie r sessionCookieName of
             None \<Rightarrow> (conn_error r (Unauthorized ''session_required'' (Msg ''Authentication is required.'')) x, None)
           | Some v \<Rightarrow>
               if v = []
               then (conn_error r (Unauthorized ''session_required'' (Msg ''Authentication is required.'')) x, None)
               else load_session E A v r x))"

text \<open>
  A request without a cookie is anonymous: \<^verbatim>\<open>None\<close> for a session that is not valid, \<^verbatim>\<open>Some None\<close> for no
  session.  The callers have checked that there is an authentication service.
\<close>

definition optionalSession ::
  "'a AuthService \<Rightarrow> 's http_env \<Rightarrow> Request \<Rightarrow> ('s, 'g, 'a) conn \<Rightarrow>
   ('s, 'g, 'a) conn \<times> SessionView option option" where
  "optionalSession A E r x =
     (case rq_Cookie r sessionCookieName of
        None \<Rightarrow> (x, Some None)
      | Some v \<Rightarrow>
          if v = []
          then (conn_error r (Unauthorized ''session_invalid'' (Msg ''The session is invalid or expired.'')) x, None)
          else (case load_session E A v r x of
                  (x', None) \<Rightarrow> (x', None)
                | (x', Some identity) \<Rightarrow> (x', Some (Some identity))))"

definition setSessionCookie :: "('s, 'g, 'a) Handler \<Rightarrow> string \<Rightarrow> duration \<Rightarrow> Response \<Rightarrow> Response" where
  "setSessionCookie h token ttl w =
     w\<lparr>rs_Cookies := rs_Cookies w @
       [\<lparr>ck_Name = sessionCookieName, ck_Value = token, ck_Path = ''/'', ck_MaxAge = ttl div Second,
         ck_Expires = None, ck_HttpOnly = True, ck_Secure = (\<not> cf_InsecureCookies (hd_config h)),
         ck_SameSite = ''Lax''\<rparr>]\<rparr>"

definition clearSessionCookie :: "('s, 'g, 'a) Handler \<Rightarrow> Response \<Rightarrow> Response" where
  "clearSessionCookie h w =
     w\<lparr>rs_Cookies := rs_Cookies w @
       [\<lparr>ck_Name = sessionCookieName, ck_Value = [], ck_Path = ''/'', ck_MaxAge = -1,
         ck_Expires = Some (Unix 1), ck_HttpOnly = True, ck_Secure = (\<not> cf_InsecureCookies (hd_config h)),
         ck_SameSite = ''Lax''\<rparr>]\<rparr>"

end
