(* ===== verification/HttpAuth.thy ===== *)
theory HttpAuth
  imports HttpTypes
begin

text \<open>
  The handlers of accounts, sessions and project settings (\<^verbatim>\<open>internal/httpapi/auth_routes.go\<close>).
\<close>

subsection \<open>Signing in and out\<close>

definition register ::
  "('s, 'g, 'a) Handler \<Rightarrow> 's http_env \<Rightarrow> Request \<Rightarrow> ('s, 'g, 'a) conn \<Rightarrow> ('s, 'g, 'a) conn option" where
  "register h E r x =
     (case cf_Auth (hd_config h) of
        None \<Rightarrow> Some (conn_error r auth_not_configured x)
      | Some A \<Rightarrow>
          (case decodeJSONBody (he_register E) (he_single E) r (snd x) of
             Inl w \<Rightarrow> Some (fst x, w)
           | Inr (body, input) \<Rightarrow>
               (case AuthService_Register (he_host E) A (he_now E 0) (he_draws E) (rr_Email input)
                       (rr_Password input) (rr_WorkspaceName input) (rr_ProjectName input) (api_auth (fst x)) of
                  (u, Inl apiErr) \<Rightarrow> Some (conn_error r apiErr ((fst x)\<lparr>api_auth := u\<rparr>, snd x))
                | (u, Inr (view, token)) \<Rightarrow>
                    Some ((fst x)\<lparr>api_auth := u\<rparr>,
                      writeJSON 201 (JSession view) (setSessionCookie h token SessionTTL (snd x))))))"

text \<open>
  \<^verbatim>\<open>net.SplitHostPort\<close>: the host of an address, which may be in brackets; an address that has no
  port, a colon too many or a bracket out of place is an error.
\<close>

definition SplitHost :: "string \<Rightarrow> string option" where
  "SplitHost hostport =
     (if CHR '':'' \<notin> set hostport then None
      else
        (let i = length hostport - 1 - length (takeWhile (\<lambda>c. c \<noteq> CHR '':'') (rev hostport))
         in if hostport ! 0 = CHR ''[''
            then
              (let close = length (takeWhile (\<lambda>c. c \<noteq> CHR '']'') hostport)
               in if close = length hostport \<or> close + 1 \<noteq> i then None
                  else if CHR ''['' \<in> set (drop 1 hostport) \<or> CHR '']'' \<in> set (drop (close + 1) hostport) then None
                  else Some (take (close - 1) (drop 1 hostport)))
            else
              (let host = take i hostport
               in if CHR '':'' \<in> set host then None
                  else if CHR ''['' \<in> set hostport \<or> CHR '']'' \<in> set hostport then None
                  else Some host)))"

definition clientAddress :: "Request \<Rightarrow> string" where
  "clientAddress r =
     (case SplitHost (rq_RemoteAddr r) of Some host \<Rightarrow> host | None \<Rightarrow> rq_RemoteAddr r)"

text \<open>The loop fills a buffer of 20 bytes from its end; a 64-bit number has at most 19 digits.\<close>

function retry_digits :: "int \<Rightarrow> string \<Rightarrow> string" where
  "retry_digits seconds buffer =
     (if seconds > 0 then retry_digits (seconds div 10) (''0123456789'' ! nat (seconds mod 10) # buffer) else buffer)"
  by pat_completeness auto
termination
  by (relation "measure (\<lambda>(seconds, _). nat seconds)") auto

declare retry_digits.simps [simp del]

definition formatRetryAfter :: "int \<Rightarrow> string" where
  "formatRetryAfter seconds = (if seconds = 0 then ''0'' else retry_digits seconds [])"

text \<open>
  \<^verbatim>\<open>int(retry.Round(time.Second).Seconds())\<close>: rounded to the nearest second, halves away from zero.
\<close>

definition rounded_seconds :: "duration \<Rightarrow> int" where
  "rounded_seconds d =
     sgn d * (if 2 * (\<bar>d\<bar> mod Second) < Second then \<bar>d\<bar> div Second else \<bar>d\<bar> div Second + 1)"

definition rate_limit_exceeded :: Error where
  "rate_limit_exceeded =
     \<lparr>er_Type = ''rate_limit_error'', er_Code = ''rate_limit_exceeded'',
      er_Message = Msg ''Too many sign-in attempts. Try again later.'', er_Param = [], er_RequestID = [],
      er_HTTPStatus = 429\<rparr>"

text \<open>The limiter is asked at the first reading of the clock, the failure recorded at the third.\<close>

definition login_key :: "'s http_env \<Rightarrow> 'a AuthService \<Rightarrow> Request \<Rightarrow> string \<Rightarrow> string" where
  "login_key E A r email = clientAddress r @ '':'' @ LoginThrottleKey (he_host E) A email"

definition login ::
  "('s, 'g, 'a) Handler \<Rightarrow> 's http_env \<Rightarrow> Request \<Rightarrow> ('s, 'g, 'a) conn \<Rightarrow> ('s, 'g, 'a) conn option" where
  "login h E r x =
     (case cf_Auth (hd_config h) of
        None \<Rightarrow> Some (conn_error r auth_not_configured x)
      | Some A \<Rightarrow>
          (case decodeJSONBody (he_login E) (he_single E) r (snd x) of
             Inl w \<Rightarrow> Some (fst x, w)
           | Inr (body, input) \<Rightarrow>
               (let key = login_key E A r (lr_Email input)
                in case limited (he_keys E 0) (he_now E 0) key (api_limiter (fst x)) of
                     (l1, is_limited, retry) \<Rightarrow>
                       (let a1 = (fst x)\<lparr>api_limiter := l1\<rparr>
                        in if is_limited
                           then
                             (let seconds0 = rounded_seconds retry;
                                  seconds = (if seconds0 < 1 then 1 else seconds0)
                              in Some (a1, writeError r rate_limit_exceeded
                                   (set_header ''Retry-After'' (formatRetryAfter seconds) (snd x))))
                           else
                             (case AuthService_Login (he_host E) A (he_now E 1) (he_draws E 0) (lr_Email input)
                                     (lr_Password input) (api_auth a1) of
                                (u, Inl apiErr) \<Rightarrow>
                                  Some (a1\<lparr>api_auth := u, api_limiter := failure (he_keys E 1) (he_now E 2) key l1\<rparr>,
                                    writeError r apiErr (snd x))
                              | (u, Inr (view, token)) \<Rightarrow>
                                  Some (a1\<lparr>api_auth := u, api_limiter := success key l1\<rparr>,
                                    writeJSON 200 (JSession view)
                                      (setSessionCookie h token SessionTTL (snd x))))))))"

definition logout ::
  "('s, 'g, 'a) Handler \<Rightarrow> 's http_env \<Rightarrow> Request \<Rightarrow> ('s, 'g, 'a) conn \<Rightarrow> ('s, 'g, 'a) conn option" where
  "logout h E r x =
     (case cf_Auth (hd_config h) of
        None \<Rightarrow> Some (conn_error r auth_not_configured x)
      | Some A \<Rightarrow>
          (case rq_Cookie r sessionCookieName of
             None \<Rightarrow> Some (fst x, WriteHeader 204 (clearSessionCookie h (snd x)))
           | Some v \<Rightarrow>
               (case AuthService_Logout (he_host E) A v (api_auth (fst x)) of
                  (u, Inl revokeErr) \<Rightarrow>
                    Some (conn_error r (Internal ''logout_failed'' (Msg ''The session could not be revoked.''))
                      ((fst x)\<lparr>api_auth := u\<rparr>, snd x))
                | (u, Inr _) \<Rightarrow>
                    Some ((fst x)\<lparr>api_auth := u\<rparr>, WriteHeader 204 (clearSessionCookie h (snd x))))))"

definition session ::
  "('s, 'g, 'a) Handler \<Rightarrow> 's http_env \<Rightarrow> Request \<Rightarrow> ('s, 'g, 'a) conn \<Rightarrow> ('s, 'g, 'a) conn option" where
  "session h E r x =
     (case requireSession h E r x of
        (x1, None) \<Rightarrow> Some x1
      | (x1, Some identity) \<Rightarrow> Some (fst x1, writeJSON 200 (JSession identity) (snd x1)))"

subsection \<open>Project settings\<close>

text \<open>
  The shape of every settings handler: a session, one call of the authentication service on the
  repository, which is there when a session was found, and its error or its value.
\<close>

definition answer ::
  "Request \<Rightarrow> ('v \<Rightarrow> Json) \<Rightarrow> ('s, 'g, 'a) conn \<Rightarrow> 'a \<times> (Error + 'v) \<Rightarrow> ('s, 'g, 'a) conn" where
  "answer r json x y =
     (case y of
        (u, Inl apiErr) \<Rightarrow> conn_error r apiErr ((fst x)\<lparr>api_auth := u\<rparr>, snd x)
      | (u, Inr v) \<Rightarrow> ((fst x)\<lparr>api_auth := u\<rparr>, writeJSON 200 (json v) (snd x)))"

definition with_session ::
  "('s, 'g, 'a) Handler \<Rightarrow> 's http_env \<Rightarrow> Request \<Rightarrow>
   ('a AuthRepository \<Rightarrow> SessionView \<Rightarrow> ('s, 'g, 'a) conn \<Rightarrow> ('s, 'g, 'a) conn) \<Rightarrow>
   ('s, 'g, 'a) conn \<Rightarrow> ('s, 'g, 'a) conn option" where
  "with_session h E r f x =
     (case requireSession h E r x of
        (x1, None) \<Rightarrow> Some x1
      | (x1, Some identity) \<Rightarrow>
          (case cf_Auth (hd_config h) of
             None \<Rightarrow> None
           | Some A \<Rightarrow> map_option (\<lambda>R. f R identity x1) (au_repo A)))"

definition projectSettings ::
  "('s, 'g, 'a) Handler \<Rightarrow> 's http_env \<Rightarrow> Request \<Rightarrow> ('s, 'g, 'a) conn \<Rightarrow> ('s, 'g, 'a) conn option" where
  "projectSettings h E r = with_session h E r (\<lambda>R identity x.
     answer r JProject x (AuthService_Project R (pv_ID (sv_Project identity)) (api_auth (fst x))))"

definition updateProjectSettings ::
  "('s, 'g, 'a) Handler \<Rightarrow> 's http_env \<Rightarrow> Request \<Rightarrow> ('s, 'g, 'a) conn \<Rightarrow> ('s, 'g, 'a) conn option" where
  "updateProjectSettings h E r = with_session h E r (\<lambda>R identity x.
     case decodeJSONBody (he_updateProject E) (he_single E) r (snd x) of
       Inl w \<Rightarrow> (fst x, w)
     | Inr (body, input) \<Rightarrow>
         answer r JProject x
           (AuthService_UpdateProject R identity (up_Name input) (up_RetentionDays input) (api_auth (fst x))))"

definition environments ::
  "('s, 'g, 'a) Handler \<Rightarrow> 's http_env \<Rightarrow> Request \<Rightarrow> ('s, 'g, 'a) conn \<Rightarrow> ('s, 'g, 'a) conn option" where
  "environments h E r = with_session h E r (\<lambda>R identity x.
     answer r (\<lambda>items. list_json (map JEnvironment items)) x
       (AuthService_Environments R (pv_ID (sv_Project identity)) (api_auth (fst x))))"

definition selectEnvironment ::
  "('s, 'g, 'a) Handler \<Rightarrow> 's http_env \<Rightarrow> Request \<Rightarrow> ('s, 'g, 'a) conn \<Rightarrow> ('s, 'g, 'a) conn option" where
  "selectEnvironment h E r = with_session h E r (\<lambda>R identity x.
     answer r JEnvironment x
       (AuthService_SelectEnvironment R identity (rq_PathValue r ''id'') (api_auth (fst x))))"

definition findings ::
  "('s, 'g, 'a) Handler \<Rightarrow> 's http_env \<Rightarrow> Request \<Rightarrow> ('s, 'g, 'a) conn \<Rightarrow> ('s, 'g, 'a) conn option" where
  "findings h E r = with_session h E r (\<lambda>R identity x.
     answer r (\<lambda>items. list_json (map JFinding items)) x
       (AuthService_Findings R (pv_ID (sv_Project identity)) (rq_Query r ''status'') (api_auth (fst x))))"

definition setFindingResolution ::
  "('s, 'g, 'a) Handler \<Rightarrow> 's http_env \<Rightarrow> bool \<Rightarrow> Request \<Rightarrow> ('s, 'g, 'a) conn \<Rightarrow> ('s, 'g, 'a) conn option" where
  "setFindingResolution h E resolved r = with_session h E r (\<lambda>R identity x.
     answer r JFinding x
       (AuthService_SetFindingResolved R identity (rq_PathValue r ''id'') resolved (api_auth (fst x))))"

definition resolveFinding ::
  "('s, 'g, 'a) Handler \<Rightarrow> 's http_env \<Rightarrow> Request \<Rightarrow> ('s, 'g, 'a) conn \<Rightarrow> ('s, 'g, 'a) conn option" where
  "resolveFinding h E r = setFindingResolution h E True r"

definition reopenFinding ::
  "('s, 'g, 'a) Handler \<Rightarrow> 's http_env \<Rightarrow> Request \<Rightarrow> ('s, 'g, 'a) conn \<Rightarrow> ('s, 'g, 'a) conn option" where
  "reopenFinding h E r = setFindingResolution h E False r"

definition notifications ::
  "('s, 'g, 'a) Handler \<Rightarrow> 's http_env \<Rightarrow> Request \<Rightarrow> ('s, 'g, 'a) conn \<Rightarrow> ('s, 'g, 'a) conn option" where
  "notifications h E r = with_session h E r (\<lambda>R identity x.
     answer r (\<lambda>items. list_json (map JNotification items)) x
       (AuthService_Notifications R (pv_ID (sv_Project identity)) (api_auth (fst x))))"

definition readNotification ::
  "('s, 'g, 'a) Handler \<Rightarrow> 's http_env \<Rightarrow> Request \<Rightarrow> ('s, 'g, 'a) conn \<Rightarrow> ('s, 'g, 'a) conn option" where
  "readNotification h E r = with_session h E r (\<lambda>R identity x.
     answer r JNotification x
       (AuthService_MarkNotificationRead R (he_now E 1) identity (rq_PathValue r ''id'') (api_auth (fst x))))"

definition readAllNotifications ::
  "('s, 'g, 'a) Handler \<Rightarrow> 's http_env \<Rightarrow> Request \<Rightarrow> ('s, 'g, 'a) conn \<Rightarrow> ('s, 'g, 'a) conn option" where
  "readAllNotifications h E r = with_session h E r (\<lambda>R identity x.
     answer r (\<lambda>count. JObject [(''updated'', JInt count)]) x
       (AuthService_MarkAllNotificationsRead R (he_now E 1) identity (api_auth (fst x))))"

definition connections ::
  "('s, 'g, 'a) Handler \<Rightarrow> 's http_env \<Rightarrow> Request \<Rightarrow> ('s, 'g, 'a) conn \<Rightarrow> ('s, 'g, 'a) conn option" where
  "connections h E r = with_session h E r (\<lambda>R identity x.
     answer r (\<lambda>items. list_json (map connection_json items)) x
       (AuthService_Connections R (pv_ID (sv_Project identity)) (api_auth (fst x))))"

end
