(* ===== verification/HttpApi.thy ===== *)
theory HttpApi
  imports HttpAuth
begin

text \<open>
  The handlers of runs, payments, connections, webhooks and event streams, the routes and the
  entry point of every request (\<^verbatim>\<open>internal/httpapi/handler.go\<close> and \<^verbatim>\<open>webhook.go\<close>).
\<close>

subsection \<open>Stripe\<close>

definition validateStripeConnection ::
  "('s, 'g, 'a) Handler \<Rightarrow> 's http_env \<Rightarrow> Request \<Rightarrow> ('s, 'g, 'a) conn \<Rightarrow> ('s, 'g, 'a) conn option" where
  "validateStripeConnection h E r x0 =
     (case requireSession h E r x0 of (x, identity) \<Rightarrow>
        if identity = None \<and> cf_Auth (hd_config h) \<noteq> None then Some x
        else
     (case decodeJSONBody (he_validate E) (he_single E) r (snd x) of
        Inl w \<Rightarrow> Some (fst x, w)
      | Inr (body, input) \<Rightarrow>
     (case cf_Stripe (hd_config h) of
        None \<Rightarrow> None
      | Some S \<Rightarrow>
          (let sg = (api_repo (fst x), api_gateway (fst x)); A = ah_aead (he_host E)
           in case (case identity of
                  Some i \<Rightarrow> ValidateConnectionForProject A S (he_now E 1) (he_uuid E) (he_nonce E)
                    (pv_ID (sv_Project i)) (vc_SecretKey input) (vc_SandboxName input) sg
                | None \<Rightarrow> ValidateConnection A S (he_now E 1) (he_uuid E) (he_nonce E)
                    (vc_SecretKey input) (vc_SandboxName input) sg) of
                ((s, g), y) \<Rightarrow>
                  (let x1 = ((fst x)\<lparr>api_repo := s, api_gateway := g\<rparr>, snd x)
                   in Some (case y of
                        Inl apiErr \<Rightarrow> conn_error r apiErr x1
                      | Inr connection \<Rightarrow>
                          (fst x1, writeJSON 201 (connection_json connection) (snd x1))))))))"

text \<open>A run that was created or replayed, or the error.\<close>

definition answer_run ::
  "Request \<Rightarrow> ('s, 'g, 'a) conn \<Rightarrow> Error + Run \<times> bool \<Rightarrow> ('s, 'g, 'a) conn" where
  "answer_run r x y =
     (case y of
        Inl apiErr \<Rightarrow> conn_error r apiErr x
      | Inr (run, replayed) \<Rightarrow>
          (fst x, writeJSON 201 (JRun run)
             (if replayed then set_header ''Idempotent-Replayed'' ''true'' (snd x) else snd x)))"

definition createStripePaymentIntentRun ::
  "('s, 'g, 'a) Handler \<Rightarrow> 's http_env \<Rightarrow> Request \<Rightarrow> ('s, 'g, 'a) conn \<Rightarrow> ('s, 'g, 'a) conn option" where
  "createStripePaymentIntentRun h E r x0 =
     (case requireSession h E r x0 of (x, identity) \<Rightarrow>
        if identity = None \<and> cf_Auth (hd_config h) \<noteq> None then Some x
        else
     (case decodeJSONBody (he_payment E) (he_single E) r (snd x) of
        Inl w \<Rightarrow> Some (fst x, w)
      | Inr (body, input) \<Rightarrow>
          if cp_ConnectionID input = []
          then Some (conn_error r (Invalid ''parameter_missing''
            (Msg ''The connection_id parameter is required.'') ''connection_id'') x)
          else
     (case cf_Stripe (hd_config h) of
        None \<Rightarrow> None
      | Some S \<Rightarrow>
          (let sg = (api_repo (fst x), api_gateway (fst x)); H = he_host E
           in case (case identity of
                  Some i \<Rightarrow> CreatePaymentIntentRunForProject (ah_crypto H) (ah_aead H) S (he_now E 1)
                    (pv_ID (sv_Project i)) (cp_ConnectionID input) (cp_AmountMinor input)
                    (cp_Currency input) (header_get r ''Idempotency-Key'') body sg
                | None \<Rightarrow> CreatePaymentIntentRun (ah_crypto H) (ah_aead H) S (he_now E 1)
                    (cp_ConnectionID input) (cp_AmountMinor input) (cp_Currency input)
                    (header_get r ''Idempotency-Key'') body sg) of
                None \<Rightarrow> None
              | Some ((s, g), y) \<Rightarrow>
                  Some (answer_run r ((fst x)\<lparr>api_repo := s, api_gateway := g\<rparr>, snd x) y)))))"

subsection \<open>Runs\<close>

definition health ::
  "('s, 'g, 'a) conn \<Rightarrow> ('s, 'g, 'a) conn option" where
  "health x = Some (fst x, writeJSON 200
     (JObject [(''status'', JString ''ok''), (''service'', JString ''paritylab-api''), (''mode'', JString ''sandbox'')])
     (snd x))"

definition overview ::
  "('s, 'g, 'a) Handler \<Rightarrow> ('s, 'g, 'a) conn \<Rightarrow> ('s, 'g, 'a) conn option" where
  "overview h x =
     (case Service_Overview (hd_engine h) (api_repo (fst x)) of
        (s, v) \<Rightarrow> Some ((fst x)\<lparr>api_repo := s\<rparr>, writeJSON 200 (JOverview v) (snd x)))"

definition scenarios ::
  "('s, 'g, 'a) conn \<Rightarrow> ('s, 'g, 'a) conn option" where
  "scenarios x = Some (fst x, writeJSON 200 (list_json (map JScenario seededScenarios)) (snd x))"

definition runs ::
  "('s, 'g, 'a) Handler \<Rightarrow> 's http_env \<Rightarrow> Request \<Rightarrow> ('s, 'g, 'a) conn \<Rightarrow> ('s, 'g, 'a) conn option" where
  "runs h E r x =
     (case cf_Auth (hd_config h) of
        None \<Rightarrow>
          (case Service_Runs (hd_engine h) (api_repo (fst x)) of
             (s, items) \<Rightarrow> Some ((fst x)\<lparr>api_repo := s\<rparr>, writeJSON 200 (list_json (map JRun items)) (snd x)))
      | Some A \<Rightarrow>
          (case optionalSession A E r x of
             (x1, None) \<Rightarrow> Some x1
           | (x1, Some identity) \<Rightarrow>
               (case Service_PublicRuns (hd_engine h) (api_repo (fst x1)) of
                  (s1, items1) \<Rightarrow>
                    (case (case identity of
                        None \<Rightarrow> (s1, items1)
                      | Some i \<Rightarrow> Service_RunsForProject (hd_engine h) (pv_ID (sv_Project i)) s1) of
                       (s2, items) \<Rightarrow>
                         Some ((fst x1)\<lparr>api_repo := s2\<rparr>, writeJSON 200 (list_json (map JRun items)) (snd x1))))))"

text \<open>From the caller's session on: \<^verbatim>\<open>None\<close> for an anonymous caller.\<close>

definition create_run_as ::
  "('s, 'g, 'a) Handler \<Rightarrow> 's http_env \<Rightarrow> Request \<Rightarrow> SessionView option \<Rightarrow> ('s, 'g, 'a) conn \<Rightarrow>
   ('s, 'g, 'a) conn option" where
  "create_run_as h E r identity x =
     (case read_body r of
        Inl e \<Rightarrow> Some (conn_error r (Invalid ''request_too_large'' (Msg ''The request body exceeds 1 MiB.'') []) x)
      | Inr body \<Rightarrow>
     (case he_createRun E body of
        None \<Rightarrow> Some (conn_error r (Invalid ''invalid_json''
          (Msg ''The request body must be a valid JSON object with scenario_id and optional fault.'') []) x)
      | Some input \<Rightarrow>
          if cr_ScenarioID input = []
          then Some (conn_error r (Invalid ''parameter_missing''
            (Msg ''The scenario_id parameter is required.'') ''scenario_id'') x)
          else
     (case (case identity of
          Some i \<Rightarrow> Service_CreateRunForProject (ah_crypto (he_host E)) (hd_engine h) (he_now E 1)
            (pv_ID (sv_Project i)) (cr_ScenarioID input) (cr_Fault input)
            (header_get r ''Idempotency-Key'') body (api_repo (fst x))
        | None \<Rightarrow> Service_CreateRun (ah_crypto (he_host E)) (hd_engine h) (he_now E 1)
            (cr_ScenarioID input) (cr_Fault input) (header_get r ''Idempotency-Key'') body
            (api_repo (fst x))) of
        None \<Rightarrow> None
      | Some (s, y) \<Rightarrow> Some (answer_run r ((fst x)\<lparr>api_repo := s\<rparr>, snd x) y))))"

definition createRun_handler ::
  "('s, 'g, 'a) Handler \<Rightarrow> 's http_env \<Rightarrow> Request \<Rightarrow> ('s, 'g, 'a) conn \<Rightarrow> ('s, 'g, 'a) conn option" where
  "createRun_handler h E r x =
     (case cf_Auth (hd_config h) of
        None \<Rightarrow> create_run_as h E r None x
      | Some A \<Rightarrow>
          (case optionalSession A E r x of
             (x1, None) \<Rightarrow> Some x1
           | (x1, Some identity) \<Rightarrow> create_run_as h E r identity x1))"

text \<open>
  The reads of one run choose their operation the same way: all runs without an authentication service, the
  project's for a session, the public ones for an anonymous caller.
\<close>

definition scoped_read ::
  "('s, 'g, 'a) Handler \<Rightarrow> 's http_env \<Rightarrow> Request \<Rightarrow> ('v \<Rightarrow> Json) \<Rightarrow> ('s \<Rightarrow> 's \<times> ('v \<times> bool)) \<Rightarrow>
   (string \<Rightarrow> 's \<Rightarrow> 's \<times> ('v \<times> bool)) \<Rightarrow> ('s \<Rightarrow> 's \<times> ('v \<times> bool)) \<Rightarrow> ('s, 'g, 'a) conn \<Rightarrow>
   ('s, 'g, 'a) conn" where
  "scoped_read h E r json all project public x =
     (let found = (\<lambda>x y. case y of
            (s, (v, ok)) \<Rightarrow>
              (let x1 = ((fst x)\<lparr>api_repo := s\<rparr>, snd x)
               in if \<not> ok then conn_error r (NotFound ''run'' (rq_PathValue r ''id'')) x1
                  else (fst x1, writeJSON 200 (json v) (snd x1))))
      in case cf_Auth (hd_config h) of
           None \<Rightarrow> found x (all (api_repo (fst x)))
         | Some A \<Rightarrow>
             (case optionalSession A E r x of
                (x1, None) \<Rightarrow> x1
              | (x1, Some None) \<Rightarrow> found x1 (public (api_repo (fst x1)))
              | (x1, Some (Some i)) \<Rightarrow> found x1 (project (pv_ID (sv_Project i)) (api_repo (fst x1)))))"

definition run_handler ::
  "('s, 'g, 'a) Handler \<Rightarrow> 's http_env \<Rightarrow> Request \<Rightarrow> ('s, 'g, 'a) conn \<Rightarrow> ('s, 'g, 'a) conn option" where
  "run_handler h E r x =
     (let i = rq_PathValue r ''id''; R = hd_engine h
      in Some (scoped_read h E r JRun (Service_Run R i) (\<lambda>p. Service_RunForProject R p i)
           (Service_PublicRun R i) x))"

definition report ::
  "('s, 'g, 'a) Handler \<Rightarrow> 's http_env \<Rightarrow> Request \<Rightarrow> ('s, 'g, 'a) conn \<Rightarrow> ('s, 'g, 'a) conn option" where
  "report h E r x =
     (let i = rq_PathValue r ''id''; R = hd_engine h
      in Some (scoped_read h E r JReport (Service_Report R i) (\<lambda>p. Service_ReportForProject R p i)
           (Service_PublicReport R i) x))"

end
