(* ===== verification/HttpServer.thy ===== *)
theory HttpServer
  imports HttpApi
begin

text \<open>
  Events and their stream, webhooks, the routes and the entry point of every request
  (\<^verbatim>\<open>internal/httpapi/handler.go\<close> and \<^verbatim>\<open>webhook.go\<close>).
\<close>

subsection \<open>Events\<close>

text \<open>\<^verbatim>\<open>eventReader\<close>: who reads which run's batches, as an operation of the repository.\<close>

definition eventReader ::
  "('s, 'g, 'a) Handler \<Rightarrow> 's http_env \<Rightarrow> Request \<Rightarrow> string \<Rightarrow> ('s, 'g, 'a) conn \<Rightarrow>
   ('s, 'g, 'a) conn \<times> (int \<Rightarrow> int \<Rightarrow> ('s, EventStreamBatch \<times> bool) op) option" where
  "eventReader h E r i x =
     (case cf_Auth (hd_config h) of
        None \<Rightarrow> (x, Some (Service_EventsAfter (hd_engine h) i))
      | Some A \<Rightarrow>
          (case optionalSession A E r x of
             (x1, None) \<Rightarrow> (x1, None)
           | (x1, Some (Some identity)) \<Rightarrow>
               (x1, Some (Service_EventsAfterForProject (hd_engine h) (pv_ID (sv_Project identity)) i))
           | (x1, Some None) \<Rightarrow> (x1, Some (Service_PublicEventsAfter (hd_engine h) i))))"

text \<open>
  From the first batch on: the header of the stream, then its frames.  The state is the one after the
  first reading; the later readings meet the states \<^verbatim>\<open>he_later\<close>, which other requests have made.  The
  operations of the connection are numbered from the one after the header.
\<close>

definition start_stream ::
  "('s, 'g, 'a) Handler \<Rightarrow> 's http_env \<Rightarrow> Request \<Rightarrow> string \<Rightarrow>
   (int \<Rightarrow> int \<Rightarrow> ('s, EventStreamBatch \<times> bool) op) \<Rightarrow> int \<Rightarrow> EventStreamBatch \<Rightarrow>
   ('s, 'g, 'a) conn \<Rightarrow> ('s, 'g, 'a) conn option" where
  "start_stream h E r i reader lastSequence batch x =
     (let w = set_header ''X-Accel-Buffering'' ''no'' (set_header ''Connection'' ''keep-alive''
                (set_header ''Content-Type'' ''text/event-stream'' (snd x)))
      in if \<not> he_io E 0
         then Some (conn_error r (Internal ''streaming_unavailable''
           (Msg ''Streaming is unavailable for this response.'')) (fst x, w))
         else
           (case stream_events
                   \<lparr>sh_io = he_io E, sh_read = \<lambda>n after limit. snd (reader after limit (he_later E n))\<rparr>
                   (cf_SSERetry (hd_config h)) i batch (he_stimuli E)
                   \<lparr>st_last = lastSequence, st_complete = False, st_frames = [], st_io = 1, st_reads = 1\<rparr> of
              None \<Rightarrow> None
            | Some (st, live) \<Rightarrow>
                (let w1 = WriteHeader 200 w
                 in Some (fst x, w1\<lparr>rs_Body := rs_Body w1 @ map CFrame (st_frames st)\<rparr>))))"

definition eventStream ::
  "('s, 'g, 'a) Handler \<Rightarrow> 's http_env \<Rightarrow> Request \<Rightarrow> string \<Rightarrow> ('s, 'g, 'a) conn \<Rightarrow> ('s, 'g, 'a) conn option" where
  "eventStream h E r i x0 =
     (case eventReader h E r i x0 of
        (x, None) \<Rightarrow> Some x
      | (x, Some reader) \<Rightarrow>
     (case parseLastEventID (rq_Header r ''Last-Event-ID'') of
        Inl apiErr \<Rightarrow> Some (conn_error r apiErr x)
      | Inr lastSequence \<Rightarrow>
     (case reader lastSequence batchSize (api_repo (fst x)) of
        (s, y) \<Rightarrow>
          (let x1 = ((fst x)\<lparr>api_repo := s\<rparr>, snd x)
           in case y of
                Inl e \<Rightarrow> Some (conn_error r (Internal ''event_stream_unavailable''
                  (Msg ''The event stream could not be opened.'')) x1)
              | Inr (batch, found) \<Rightarrow>
                  if \<not> found then Some (conn_error r (NotFound ''run'' i) x1)
                  else if lastSequence > eb_HighWater batch
                  then Some (conn_error r (Invalid ''last_event_id_ahead''
                    (Msg ''Last-Event-ID is ahead of the latest event for this run.'') ''Last-Event-ID'') x1)
                  else if \<not> he_flusher E
                  then Some (conn_error r (Internal ''streaming_unsupported''
                    (Msg ''Streaming is unavailable for this response.'')) x1)
                  else start_stream h E r i reader lastSequence batch x1))))"

text \<open>\<^verbatim>\<open>strings.Contains\<close>.\<close>

fun Contains :: "string \<Rightarrow> string \<Rightarrow> bool" where
  "Contains [] p \<longleftrightarrow> p = []"
| "Contains (c # s) p \<longleftrightarrow> HasPrefix (c # s) p \<or> Contains s p"

definition events ::
  "('s, 'g, 'a) Handler \<Rightarrow> 's http_env \<Rightarrow> Request \<Rightarrow> ('s, 'g, 'a) conn \<Rightarrow> ('s, 'g, 'a) conn option" where
  "events h E r x =
     (let i = rq_PathValue r ''id''; R = hd_engine h
      in if Contains (header_get r ''Accept'') ''text/event-stream'' then eventStream h E r i x
         else Some (scoped_read h E r (\<lambda>evs. list_json (map JEvent evs)) (Service_Events R i)
                (\<lambda>p. Service_EventsForProject R p i) (Service_PublicEvents R i) x))"

subsection \<open>Webhooks\<close>

definition webhook_not_configured :: Error where
  "webhook_not_configured =
     \<lparr>er_Type = ''api_error'', er_Code = ''webhook_not_configured'',
      er_Message = Msg ''Webhook verification is not configured.'', er_Param = [], er_RequestID = [],
      er_HTTPStatus = 503\<rparr>"

text \<open>
  From the verified body on.  The first reading of the clock checked the signature; the engine reads the
  second.
\<close>

definition record_event ::
  "('s, 'g, 'a) Handler \<Rightarrow> 's http_env \<Rightarrow> Request \<Rightarrow> string \<Rightarrow> ('s, 'g, 'a) conn \<Rightarrow> ('s, 'g, 'a) conn" where
  "record_event h E r body x =
     (let invalid = conn_error r (Invalid ''invalid_event''
            (Msg ''The signed webhook body is not a valid Stripe event envelope.'') []) x
      in case he_envelope E body of
           None \<Rightarrow> invalid
         | Some event \<Rightarrow>
             if sn_ID event = [] \<or> sn_Type event = [] then invalid
             else if sn_Livemode event
             then conn_error r (Invalid ''live_mode_rejected''
               (Msg ''ParityLab v1 accepts Stripe sandbox events only.'') ''livemode'') x
             else
               (case Service_RecordWebhook (ah_crypto (he_host E)) (he_webhook E) (hd_engine h) (he_now E 1)
                       (sn_ID event) (sn_Type event) (rq_PathValue r ''endpoint_token'') body
                       (api_repo (fst x)) of
                  (s, Inl err) \<Rightarrow>
                    conn_error r
                      (if errors_Is err ErrWebhookConflict
                       then Invalid ''webhook_event_conflict''
                         (Msg ''This Stripe event ID was already received with different signed content.'') ''id''
                       else Internal ''webhook_persistence_failed''
                         (Msg ''The verified webhook could not be durably recorded.''))
                      ((fst x)\<lparr>api_repo := s\<rparr>, snd x)
                | (s, Inr duplicate) \<Rightarrow>
                    ((fst x)\<lparr>api_repo := s\<rparr>,
                     writeJSON 200 (JObject [(''received'', JBool True), (''duplicate'', JBool duplicate),
                       (''event'', JObject [(''id'', JString (sn_ID event)), (''type'', JString (sn_Type event))])])
                       (snd x))))"

definition webhook ::
  "('s, 'g, 'a) Handler \<Rightarrow> 's http_env \<Rightarrow> Request \<Rightarrow> ('s, 'g, 'a) conn \<Rightarrow> ('s, 'g, 'a) conn option" where
  "webhook h E r x =
     (let config = hd_config h; token = rq_PathValue r ''endpoint_token''
      in Some
        (if cf_EndpointToken config \<noteq> [] \<and> token \<noteq> cf_EndpointToken config
         then conn_error r (NotFound ''webhook_endpoint'' token) x
         else if cf_WebhookSecret config = [] then conn_error r webhook_not_configured x
         else
           (case read_body r of
              Inl e \<Rightarrow> conn_error r (Invalid ''request_too_large''
                (Msg ''The webhook payload exceeds 1 MiB.'') []) x
            | Inr body \<Rightarrow>
                if verifyStripeSignature (ah_crypto (he_host E)) body (header_get r ''Stripe-Signature'')
                     (cf_WebhookSecret config) (he_now E 0) (cf_SignatureMaxAge config) \<noteq> None
                then conn_error r (Invalid ''signature_verification_failed''
                  (Msg ''The webhook signature is invalid or outside the accepted time window.'')
                  ''Stripe-Signature'') x
                else record_event h E r body x)))"

subsection \<open>Routes\<close>

datatype route =
    RHealth | RRegister | RLogin | RLogout | RSession | RProjectSettings | RUpdateProjectSettings
  | REnvironments | RSelectEnvironment | RFindings | RResolveFinding | RReopenFinding | RNotifications
  | RReadNotification | RReadAllNotifications | RConnections | ROverview | RScenarios | RRuns
  | RCreateRun | RPaymentIntents | RValidateConnection | RRun | REvents | RReport | RWebhook

datatype segment = Lit string | Wild string

definition routes :: "(string \<times> segment list \<times> route) list" where
  "routes =
     [(''GET'', [Lit ''healthz''], RHealth),
      (''POST'', [Lit ''v1'', Lit ''auth'', Lit ''register''], RRegister),
      (''POST'', [Lit ''v1'', Lit ''auth'', Lit ''login''], RLogin),
      (''POST'', [Lit ''v1'', Lit ''auth'', Lit ''logout''], RLogout),
      (''GET'', [Lit ''v1'', Lit ''session''], RSession),
      (''GET'', [Lit ''v1'', Lit ''settings'', Lit ''project''], RProjectSettings),
      (''PATCH'', [Lit ''v1'', Lit ''settings'', Lit ''project''], RUpdateProjectSettings),
      (''GET'', [Lit ''v1'', Lit ''environments''], REnvironments),
      (''POST'', [Lit ''v1'', Lit ''environments'', Wild ''id'', Lit ''select''], RSelectEnvironment),
      (''GET'', [Lit ''v1'', Lit ''findings''], RFindings),
      (''POST'', [Lit ''v1'', Lit ''findings'', Wild ''id'', Lit ''resolve''], RResolveFinding),
      (''POST'', [Lit ''v1'', Lit ''findings'', Wild ''id'', Lit ''reopen''], RReopenFinding),
      (''GET'', [Lit ''v1'', Lit ''notifications''], RNotifications),
      (''POST'', [Lit ''v1'', Lit ''notifications'', Wild ''id'', Lit ''read''], RReadNotification),
      (''POST'', [Lit ''v1'', Lit ''notifications'', Lit ''read-all''], RReadAllNotifications),
      (''GET'', [Lit ''v1'', Lit ''connections''], RConnections),
      (''GET'', [Lit ''v1'', Lit ''overview''], ROverview),
      (''GET'', [Lit ''v1'', Lit ''scenarios''], RScenarios),
      (''GET'', [Lit ''v1'', Lit ''runs''], RRuns),
      (''POST'', [Lit ''v1'', Lit ''runs''], RCreateRun),
      (''POST'', [Lit ''v1'', Lit ''stripe'', Lit ''payment-intents''], RPaymentIntents),
      (''POST'', [Lit ''v1'', Lit ''connections'', Lit ''stripe'', Lit ''validate''], RValidateConnection),
      (''GET'', [Lit ''v1'', Lit ''runs'', Wild ''id''], RRun),
      (''GET'', [Lit ''v1'', Lit ''runs'', Wild ''id'', Lit ''events''], REvents),
      (''GET'', [Lit ''v1'', Lit ''runs'', Wild ''id'', Lit ''report''], RReport),
      (''POST'', [Lit ''hooks'', Lit ''stripe'', Wild ''endpoint_token''], RWebhook)]"

text \<open>
  \<^verbatim>\<open>http.ServeMux\<close>: a wildcard matches one segment, \<^verbatim>\<open>GET\<close> also matches \<^verbatim>\<open>HEAD\<close>, no path matches nothing
  (404) and a path without the method is not allowed (405, with the methods that are), both in plain
  text.  No two patterns of one method match the same path, so their order does not matter; paths are
  those the mux has cleaned.
\<close>

fun match_segments :: "segment list \<Rightarrow> string list \<Rightarrow> (string \<Rightarrow> string) \<Rightarrow> (string \<Rightarrow> string) option" where
  "match_segments [] [] vals = Some vals"
| "match_segments (Lit l # ps) (s # ss) vals = (if l = s then match_segments ps ss vals else None)"
| "match_segments (Wild n # ps) (s # ss) vals =
     (if s = [] then None else match_segments ps ss (vals(n := s)))"
| "match_segments _ _ vals = None"

definition method_matches :: "string \<Rightarrow> string \<Rightarrow> bool" where
  "method_matches pattern method \<longleftrightarrow> pattern = method \<or> pattern = ''GET'' \<and> method = ''HEAD''"

definition find_route :: "Request \<Rightarrow> (route \<times> (string \<Rightarrow> string)) option" where
  "find_route r =
     (case find (\<lambda>(m, ps, _). method_matches m (rq_Method r) \<and>
                   match_segments ps (rq_Segments r) (\<lambda>_. []) \<noteq> None) routes of
        None \<Rightarrow> None
      | Some (_, ps, t) \<Rightarrow> map_option (\<lambda>vals. (t, vals)) (match_segments ps (rq_Segments r) (\<lambda>_. [])))"

definition path_known :: "Request \<Rightarrow> bool" where
  "path_known r \<longleftrightarrow> list_ex (\<lambda>(_, ps, _). match_segments ps (rq_Segments r) (\<lambda>_. []) \<noteq> None) routes"

text \<open>The methods of the patterns that match the path, in order, as the header \<^verbatim>\<open>Allow\<close> lists them.\<close>

definition allowed_methods :: "Request \<Rightarrow> string list" where
  "allowed_methods r =
     filter (\<lambda>m. list_ex (\<lambda>(pattern, ps, _). method_matches pattern m \<and>
         match_segments ps (rq_Segments r) (\<lambda>_. []) \<noteq> None) routes)
       [''GET'', ''HEAD'', ''PATCH'', ''POST'']"

fun comma_separated :: "string list \<Rightarrow> string" where
  "comma_separated [] = []"
| "comma_separated [s] = s"
| "comma_separated (s # ss) = s @ '', '' @ comma_separated ss"

definition serve_route ::
  "('s, 'g, 'a) Handler \<Rightarrow> 's http_env \<Rightarrow> route \<Rightarrow> Request \<Rightarrow> ('s, 'g, 'a) conn \<Rightarrow> ('s, 'g, 'a) conn option" where
  "serve_route h E t r x =
     (case t of
        RHealth \<Rightarrow> health x
      | RRegister \<Rightarrow> register h E r x
      | RLogin \<Rightarrow> login h E r x
      | RLogout \<Rightarrow> logout h E r x
      | RSession \<Rightarrow> session h E r x
      | RProjectSettings \<Rightarrow> projectSettings h E r x
      | RUpdateProjectSettings \<Rightarrow> updateProjectSettings h E r x
      | REnvironments \<Rightarrow> environments h E r x
      | RSelectEnvironment \<Rightarrow> selectEnvironment h E r x
      | RFindings \<Rightarrow> findings h E r x
      | RResolveFinding \<Rightarrow> resolveFinding h E r x
      | RReopenFinding \<Rightarrow> reopenFinding h E r x
      | RNotifications \<Rightarrow> notifications h E r x
      | RReadNotification \<Rightarrow> readNotification h E r x
      | RReadAllNotifications \<Rightarrow> readAllNotifications h E r x
      | RConnections \<Rightarrow> connections h E r x
      | ROverview \<Rightarrow> overview h x
      | RScenarios \<Rightarrow> scenarios x
      | RRuns \<Rightarrow> runs h E r x
      | RCreateRun \<Rightarrow> createRun_handler h E r x
      | RPaymentIntents \<Rightarrow> createStripePaymentIntentRun h E r x
      | RValidateConnection \<Rightarrow> validateStripeConnection h E r x
      | RRun \<Rightarrow> run_handler h E r x
      | REvents \<Rightarrow> events h E r x
      | RReport \<Rightarrow> report h E r x
      | RWebhook \<Rightarrow> webhook h E r x)"

definition mux_serve ::
  "('s, 'g, 'a) Handler \<Rightarrow> 's http_env \<Rightarrow> Request \<Rightarrow> ('s, 'g, 'a) conn \<Rightarrow> ('s, 'g, 'a) conn option" where
  "mux_serve h E r x =
     (case find_route r of
        Some (t, vals) \<Rightarrow> serve_route h E t (r\<lparr>rq_PathValue := vals\<rparr>) x
      | None \<Rightarrow>
          Some (fst x,
            if path_known r
            then http_Error ''Method Not Allowed'' 405
                   (set_header ''Allow'' (comma_separated (allowed_methods r)) (snd x))
            else http_Error ''404 page not found'' 404 (snd x)))"

subsection \<open>Every request\<close>

text \<open>\<^verbatim>\<open>%016x\<close> of an unsigned number.\<close>

fun hex_nat :: "nat \<Rightarrow> string" where
  "hex_nat n = (if n < 16 then [hex_digit n] else hex_nat (n div 16) @ [hex_digit (n mod 16)])"

declare hex_nat.simps [simp del]

definition request_id :: "nat \<Rightarrow> string" where
  "request_id n = ''req_'' @ pad0 16 (hex_nat n)"

text \<open>The headers that are set before anything else; \<^verbatim>\<open>authless\<close> is that there is no authentication service.\<close>

definition common_headers :: "bool \<Rightarrow> string \<Rightarrow> string \<Rightarrow> string \<Rightarrow> Response \<Rightarrow> Response" where
  "common_headers authless webOrigin origin requestID w0 =
     (let w1 = set_header ''X-Request-ID'' requestID w0;
          w2 = set_header ''X-Content-Type-Options'' ''nosniff'' w1;
          w3 = set_header ''Referrer-Policy'' ''no-referrer'' w2;
          w4 = set_header ''Cache-Control'' ''no-store'' w3;
          w5 = (if authless \<or> origin = webOrigin
                then set_header ''Access-Control-Allow-Credentials'' ''true''
                       (set_header ''Access-Control-Allow-Origin'' webOrigin w4)
                else w4);
          w6 = set_header ''Access-Control-Allow-Methods'' ''GET, POST, PATCH, OPTIONS'' w5;
          w7 = set_header ''Access-Control-Allow-Headers''
                 ''Accept, Content-Type, Idempotency-Key, Last-Event-ID, Stripe-Signature'' w6;
          w8 = set_header ''Access-Control-Expose-Headers'' ''Idempotent-Replayed, X-Request-ID'' w7
      in set_header ''Vary'' ''Origin'' w8)"

text \<open>Whether the request carries a session cookie that is not empty.\<close>

definition has_session_cookie :: "Request \<Rightarrow> bool" where
  "has_session_cookie r \<longleftrightarrow> (case rq_Cookie r sessionCookieName of None \<Rightarrow> False | Some v \<Rightarrow> v \<noteq> [])"

definition ServeHTTP ::
  "('s, 'g, 'a) Handler \<Rightarrow> 's http_env \<Rightarrow> Request \<Rightarrow> ('s, 'g, 'a) Api \<Rightarrow> ('s, 'g, 'a) conn option" where
  "ServeHTTP h E r0 a0 =
     (let config = hd_config h;
          authless = (cf_Auth config = None);
          a = a0\<lparr>api_nextID := (api_nextID a0 + 1) mod 2 ^ 64\<rparr>;
          requestID = request_id (api_nextID a);
          r = r0\<lparr>rq_Header := (rq_Header r0)(''X-ParityLab-Request-ID'' := [requestID])\<rparr>;
          origin = header_get r ''Origin'';
          w = common_headers authless (cf_WebOrigin config) origin requestID empty_response
      in if rq_Method r = ''OPTIONS''
         then if \<not> authless \<and> origin \<noteq> cf_WebOrigin config
              then Some (conn_error r (Forbidden ''cors_origin_invalid''
                (Msg ''The request origin is not allowed.'')) (a, w))
              else Some (a, WriteHeader 204 w)
         else if \<not> authless \<and> rq_Method r \<noteq> ''GET'' \<and> rq_Method r \<noteq> ''HEAD'' \<and>
                 \<not> HasPrefix (rq_Path r) ''/hooks/stripe/'' \<and> origin \<noteq> cf_WebOrigin config \<and>
                 has_session_cookie r
         then Some (conn_error r (Forbidden ''csrf_origin_invalid''
           (Msg ''The request origin is not allowed.'')) (a, w))
         else mux_serve h E r (a, w))"

end
