(* ===== verification/ServiceDemo.thy ===== *)
theory ServiceDemo
  imports ServiceSpec
begin

text \<open>
  The parts of the service around run creation: what a recorded webhook may contain, the
  seeding of the demo, and the figures of the overview.
\<close>

subsection \<open>Recorded webhooks are sanitized\<close>

text \<open>The identifiers and statuses that may be stored.\<close>

definition safe_identifier :: "string \<Rightarrow> nat \<Rightarrow> string \<Rightarrow> bool" where
  "safe_identifier pre maxLength v \<longleftrightarrow>
     v \<noteq> [] \<and> length v \<le> maxLength \<and> HasPrefix v pre \<and> (\<forall>c \<in> set v. identifier_char c)"

definition safe_status :: "string \<Rightarrow> bool" where
  "safe_status v \<longleftrightarrow> length v \<le> 64 \<and> (\<forall>c \<in> set v. CHR ''a'' \<le> c \<and> c \<le> CHR ''z'' \<or> c = CHR ''_'')"

lemma safeWebhookIdentifier_spec:
  "safeWebhookIdentifier v pre n = (if safe_identifier pre n v then v else [])"
  by (auto simp: safeWebhookIdentifier_def safe_identifier_def list_all_iff)

lemma safeWebhookStatus_spec: "safeWebhookStatus v = (if safe_status v then v else [])"
  by (auto simp: safeWebhookStatus_def safe_status_def list_all_iff)

text \<open>
  Only sanitized metadata of a webhook is recorded, whatever the body decodes to: the
  receipt keeps the Stripe object and correlation identifiers exactly when they have their
  prefix, their length bound and identifier characters only, keeps the status exactly when
  it is at most 64 lower-case letters and underscores, keeps nothing else of the body but
  its digest and a positive creation time, and leaves every other identifier empty.
\<close>

theorem webhook_receipt_sanitized:
  "\<exists>objectID status correlation created. unmarshal body =
       \<lparr>env_Created = created, env_ObjectID = objectID, env_ObjectStatus = status,
        env_Metadata = correlation\<rparr> \<and>
     webhook_receipt C unmarshal eventID eventType token body =
       \<lparr>wr_EventID = eventID, wr_EventType = eventType, wr_EndpointTokenSHA = sha256 C token,
        wr_BodySHA = sha256 C body,
        wr_StripeCreatedAt = (if 0 < created then Unix created else zero_time),
        wr_StripeObjectID = (if safe_identifier ''pi_'' 255 objectID then objectID else []),
        wr_ObjectStatus = (if safe_status status then status else []),
        wr_CorrelationID =
          (case correlation ''paritylab_correlation_id'' of None \<Rightarrow> []
           | Some v \<Rightarrow> if safe_identifier ''plcorr_'' 128 v then v else [])\<rparr>"
proof -
  have none: "\<not> safe_identifier ''plcorr_'' 128 []" by (simp add: safe_identifier_def)
  show ?thesis
    by (rule exI [of _ "env_ObjectID (unmarshal body)"], rule exI [of _ "env_ObjectStatus (unmarshal body)"],
        rule exI [of _ "env_Metadata (unmarshal body)"], rule exI [of _ "env_Created (unmarshal body)"])
      (simp add: webhook_receipt_def safeWebhookIdentifier_spec safeWebhookStatus_spec none get0_def
        Let_def split: option.splits)
qed

subsection \<open>Seeding\<close>

definition seed_keys :: "string list" where
  "seed_keys = map (\<lambda>(i, f). ''paritylab:seed:'' @ i) seed_table"

text \<open>The bundle of a seed, by its index.\<close>

definition seed_bundle :: "int \<Rightarrow> string \<Rightarrow> Fault \<Rightarrow> RunBundle" where
  "seed_bundle index i fault =
     the (buildRunBundle (runID (index + 1)) (numberFromRunID (runID (index + 1)))
       (the (Service_Scenario i)) fault (demoEpoch + int64 (index * 17 * Minute)))"

definition seed_ids :: "string list" where
  "seed_ids = [runID 1, runID 2, runID 3]"

lemma seed_bundle_facts:
  "buildRunBundle (runID (index + 1)) (numberFromRunID (runID (index + 1)))
       (the (Service_Scenario i)) fault (demoEpoch + int64 (index * 17 * Minute)) =
     Some (seed_bundle index i fault)"
  "bundle_ok (seed_bundle index i fault)" "run_ID (rb_Run (seed_bundle index i fault)) = runID (index + 1)"
  "run_Status (rb_Run (seed_bundle index i fault)) = RunPassed \<longleftrightarrow> fault \<noteq> FaultTamper"
  using buildRunBundle_facts [OF length_runID [of "index + 1"], of "numberFromRunID (runID (index + 1))"
      "the (Service_Scenario i)" fault "demoEpoch + int64 (index * 17 * Minute)"]
  by (auto simp: seed_bundle_def bundle_consistent_ok)

lemma memory_port_reads [simp]:
  "r_Run (memory_port C it) i r = (r, Inr (get0 zero_Run (mr_runs r) i, mr_runs r i \<noteq> None))"
  "r_CreateRun (memory_port C it) = CreateRun"
  by (simp_all add: memory_port_def reads_def Run_get_def)

lemma seed_scenarios: "list_all (\<lambda>(i, f). Service_Scenario i \<noteq> None \<and> f \<noteq> FaultTamper) seed_table"
  by (simp add: seed_table_def Service_Scenario_def seededScenarios_def)

text \<open>The loop goes through the seeds whose runs are missing, and creates each.\<close>

lemma seed_loop_step:
  assumes "memory_ok r" and "Service_Scenario i \<noteq> None" and "0 \<le> index" and "index < 3"
  shows "seed_loop C (memory_port C it) now index ((i, f) # seeds) r =
    (if mr_runs r (runID (index + 1)) \<noteq> None
     then seed_loop C (memory_port C it) now (index + 1) seeds r
     else case CreateRun now (sha256 C (''paritylab:seed:'' @ i)) (sha256 C (i @ '':'' @ f))
                 (seed_bundle index i f) r of
       (r', Inl err) \<Rightarrow> Some (r', Some err)
     | (r', Inr _) \<Rightarrow> seed_loop C (memory_port C it) now (index + 1) seeds r')"
  using assms(2) seed_bundle_facts(1) [of index i f]
  by (auto simp: Let_def split: option.splits)

lemma seed_admitted:
  assumes "memory_ok r" and "0 \<le> index" and "index < 3" and "mr_runs r (runID (index + 1)) = None"
  shows "admits_bundle r (seed_bundle index i f)"
  using assms runs_okD(9) [of r]
  by (auto simp: admits_bundle_def seed_bundle_facts memory_ok_def runID_inj)

lemma ne_of_mem: "x \<notin> A \<Longrightarrow> y \<in> A \<Longrightarrow> x \<noteq> y"
  by blast

text \<open>
  Seeding from a repository that has recorded none of the remaining seed keys, or has their
  runs: it succeeds, keeps the repository well formed, and afterwards every seed has its run.
\<close>

lemma seed_loop_ok:
  assumes "memory_ok r" and "list_all (\<lambda>(i, f). Service_Scenario i \<noteq> None) seeds"
    and "0 \<le> index" and "index + int (length seeds) \<le> 3"
    and "distinct (map (\<lambda>(i, f). sha256 C (''paritylab:seed:'' @ i)) seeds)"
    and "\<And>i f. (i, f) \<in> set seeds \<Longrightarrow> mr_idempotency r (sha256 C (''paritylab:seed:'' @ i)) = None"
  shows "\<exists>r'. seed_loop C (memory_port C it) now index seeds r = Some (r', None) \<and> memory_ok r' \<and>
    dom (mr_runs r') = dom (mr_runs r) \<union> (\<lambda>j. runID (index + 1 + int j)) ` {..< length seeds} \<and>
    (\<forall>i \<in> dom (mr_runs r). mr_runs r' i = mr_runs r i)"
  using assms
proof (induction seeds arbitrary: index r)
  case Nil
  then show ?case by simp
next
  case (Cons seed seeds)
  obtain i f where seed: "seed = (i, f)" by fastforce
  have idx: "0 \<le> index" "index < 3" and scn: "Service_Scenario i \<noteq> None"
    using Cons.prems(2,3,4) seed by auto
  note step = seed_loop_step [OF Cons.prems(1) scn idx, of C it now f seeds]
  have image: "(\<lambda>j. runID (index + 1 + int j)) ` {..< length (seed # seeds)} =
      insert (runID (index + 1)) ((\<lambda>j. runID (index + 1 + 1 + int j)) ` {..< length seeds})"
  proof -
    have "{..< length (seed # seeds)} = insert 0 (Suc ` {..< length seeds})"
      by (simp add: lessThan_Suc_eq_insert_0)
    moreover have "index + 1 + int (Suc j) = index + 1 + 1 + int j" for j by simp
    ultimately show ?thesis
      by (simp only: image_insert image_image) simp
  qed
  show ?case
  proof (cases "mr_runs r (runID (index + 1)) = None")
    case False
    then have skip: "seed_loop C (memory_port C it) now index (seed # seeds) r =
        seed_loop C (memory_port C it) now (index + 1) seeds r"
      unfolding seed step by simp
    have "\<exists>r'. seed_loop C (memory_port C it) now (index + 1) seeds r = Some (r', None) \<and> memory_ok r' \<and>
        dom (mr_runs r') = dom (mr_runs r) \<union> (\<lambda>j. runID (index + 1 + 1 + int j)) ` {..< length seeds} \<and>
        (\<forall>i \<in> dom (mr_runs r). mr_runs r' i = mr_runs r i)"
      by (rule Cons.IH [OF Cons.prems(1)]) (use Cons.prems(2-6) seed in auto)
    moreover have "dom (mr_runs r) \<union> insert (runID (index + 1)) X = dom (mr_runs r) \<union> X" for X
      using False by auto
    ultimately show ?thesis
      unfolding image skip by simp
  next
    case True
    define k h b where "k = sha256 C (''paritylab:seed:'' @ i)" and "h = sha256 C (i @ '':'' @ f)"
      and "b = seed_bundle index i f"
    have b: "run_ID (rb_Run b) = runID (index + 1)" by (simp add: b_def seed_bundle_facts)
    have k: "mr_idempotency r k = None"
      unfolding k_def by (rule Cons.prems(6) [of i f]) (simp add: seed)
    have ad: "admits_bundle r b" unfolding b_def by (rule seed_admitted [OF Cons.prems(1) idx True])
    define r1 where "r1 = fst (CreateRun now k h b r)"
    have r1: "CreateRun now k h b r = (r1, Inr (rb_Run b, False))"
      unfolding r1_def CreateRun_new [OF k] by simp
    have ok: "memory_ok r1"
      unfolding r1_def by (rule memory_ok_CreateRun [OF Cons.prems(1) ad])
    have eq: "mr_runs r1 = (mr_runs r)(runID (index + 1) \<mapsto> rb_Run b)"
        "mr_idempotency r1 = (mr_idempotency r)(k \<mapsto> \<lparr>mi_requestHash = h, mi_runID = runID (index + 1)\<rparr>)"
      unfolding r1_def CreateRun_new [OF k] by (simp_all add: b)
    have none: "mr_idempotency r1 (sha256 C (''paritylab:seed:'' @ j)) = None" if "(j, g) \<in> set seeds" for j g
    proof -
      have "k \<notin> set (map (\<lambda>(i, f). sha256 C (''paritylab:seed:'' @ i)) seeds)"
        using Cons.prems(5) unfolding seed k_def by (simp only: list.map distinct.simps prod.case simp_thms)
      moreover have "(\<lambda>(i, f). sha256 C (''paritylab:seed:'' @ i)) (j, g) \<in>
          set (map (\<lambda>(i, f). sha256 C (''paritylab:seed:'' @ i)) seeds)"
        using that unfolding set_map by (rule imageI)
      ultimately have ne: "sha256 C (''paritylab:seed:'' @ j) \<noteq> k"
        unfolding prod.case by (rule not_sym [OF ne_of_mem])
      show ?thesis
        unfolding eq(2) fun_upd_other [OF ne] by (rule Cons.prems(6) [of j g]) (simp add: that seed)
    qed
    have "\<exists>r'. seed_loop C (memory_port C it) now (index + 1) seeds r1 = Some (r', None) \<and> memory_ok r' \<and>
        dom (mr_runs r') = dom (mr_runs r1) \<union> (\<lambda>j. runID (index + 1 + 1 + int j)) ` {..< length seeds} \<and>
        (\<forall>i \<in> dom (mr_runs r1). mr_runs r' i = mr_runs r1 i)"
      proof (rule Cons.IH [OF ok _ _ _ _ none])
      show "list_all (\<lambda>(i, f). Service_Scenario i \<noteq> None) seeds" "0 \<le> index + 1"
          "index + 1 + int (length seeds) \<le> 3"
        using Cons.prems(2-4) by simp_all
      show "distinct (map (\<lambda>(i, f). sha256 C (''paritylab:seed:'' @ i)) seeds)"
        using Cons.prems(5) by (simp only: list.map distinct.simps simp_thms)
    qed
    then obtain r' where r': "seed_loop C (memory_port C it) now (index + 1) seeds r1 = Some (r', None)"
        "memory_ok r'" "dom (mr_runs r') = dom (mr_runs r1) \<union> (\<lambda>j. runID (index + 1 + 1 + int j)) ` {..< length seeds}"
        "\<And>i. i \<in> dom (mr_runs r1) \<Longrightarrow> mr_runs r' i = mr_runs r1 i"
      by (elim exE conjE) (rule that, assumption+, blast)
    have "seed_loop C (memory_port C it) now index (seed # seeds) r = Some (r', None)"
      unfolding seed step using True r1 r'(1) by (simp add: k_def h_def b_def)
    moreover have "dom (mr_runs r') = dom (mr_runs r) \<union> insert (runID (index + 1))
        ((\<lambda>j. runID (index + 1 + 1 + int j)) ` {..< length seeds})"
      using r'(3) eq(1) by simp
    moreover have "\<forall>i \<in> dom (mr_runs r). mr_runs r' i = mr_runs r i"
    proof
      fix j assume j: "j \<in> dom (mr_runs r)"
      with True have "j \<noteq> runID (index + 1)" by auto
      with j show "mr_runs r' j = mr_runs r j"
        using r'(4) [of j] eq(1) by auto
    qed
    ultimately show ?thesis
      unfolding image using r'(2) by blast
  qed
qed

lemma seed_loop_present:
  assumes "memory_ok r" and "list_all (\<lambda>(i, f). Service_Scenario i \<noteq> None) seeds"
    and "0 \<le> index" and "index + int (length seeds) \<le> 3"
    and "\<And>j. j < length seeds \<Longrightarrow> mr_runs r (runID (index + 1 + int j)) \<noteq> None"
  shows "seed_loop C (memory_port C it) now index seeds r = Some (r, None)"
  using assms(2-5)
proof (induction seeds arbitrary: index)
  case Nil
  then show ?case by simp
next
  case (Cons seed seeds)
  obtain i f where seed: "seed = (i, f)" by fastforce
  have "mr_runs r (runID (index + 1 + 1 + int j)) \<noteq> None" if "j < length seeds" for j
  proof -
    have "index + 1 + int (Suc j) = index + 1 + 1 + int j" by simp
    with Cons.prems(4) [of "Suc j"] that show ?thesis by (metis Suc_less_eq length_Cons)
  qed
  then have "seed_loop C (memory_port C it) now (index + 1) seeds r = Some (r, None)"
    using Cons.prems(1-3) by (intro Cons.IH) auto
  moreover have "mr_runs r (runID (index + 1)) \<noteq> None"
    using Cons.prems(4) [of 0] by simp
  ultimately show ?case
    using seed_loop_step [OF assms(1), of i index C it now f seeds] Cons.prems(1-3) seed by simp
qed

lemma ensureSeedRuns_new:
  assumes "distinct (map (sha256 C) seed_keys)"
  shows "\<exists>r'. ensureSeedRuns C (memory_port C it) now NewMemoryRepository = Some (r', None) \<and>
    memory_ok r' \<and> dom (mr_runs r') = {runID 1, runID 2, runID 3}"
proof -
  have "distinct (map (\<lambda>(i, f). sha256 C (''paritylab:seed:'' @ i)) seed_table)"
    using assms by (simp add: seed_keys_def seed_table_def)
  moreover have "list_all (\<lambda>(i, f). Service_Scenario i \<noteq> None) seed_table"
    using seed_scenarios by (auto simp: list_all_iff)
  ultimately obtain r' where r': "seed_loop C (memory_port C it) now 0 seed_table NewMemoryRepository = Some (r', None)"
      "memory_ok r'" "dom (mr_runs r') = dom (mr_runs NewMemoryRepository) \<union>
        (\<lambda>j. runID (0 + 1 + int j)) ` {..< length seed_table}"
    using seed_loop_ok [OF memory_ok_new, of seed_table 0 C it now]
    by (auto simp: seed_table_def NewMemoryRepository_def)
  have "{..< length seed_table} = {0, 1, 2}" by (auto simp: seed_table_def)
  then have "dom (mr_runs r') = {runID 1, runID 2, runID 3}"
    using r'(3) by (simp add: NewMemoryRepository_def)
  with r'(1,2) show ?thesis by (simp add: ensureSeedRuns_def)
qed

text \<open>
  Starting the service seeds the demo and is repeatable: on an empty repository it succeeds,
  stores exactly the three demo runs and leaves the repository well formed, and starting
  again on the result, as every restart does, succeeds and changes nothing.  The digests of
  the three seed keys must differ.
\<close>

theorem seeding_repeatable:
  assumes "distinct (map (sha256 C) seed_keys)"
  shows "\<exists>r'. NewServiceWithRepository C (memory_port C it) now NewMemoryRepository = Some (r', Inr ()) \<and>
    memory_ok r' \<and> dom (mr_runs r') = {runID 1, runID 2, runID 3} \<and>
    NewServiceWithRepository C (memory_port C it) now' r' = Some (r', Inr ())"
proof -
  obtain r' where r': "ensureSeedRuns C (memory_port C it) now NewMemoryRepository = Some (r', None)"
      "memory_ok r'" "dom (mr_runs r') = {runID 1, runID 2, runID 3}"
    using ensureSeedRuns_new [OF assms] by blast
  have "mr_runs r' (runID (0 + 1 + int j)) \<noteq> None" if "j < length seed_table" for j
  proof -
    have "j \<in> {0, 1, 2}" using that by (auto simp: seed_table_def)
    then have "runID (0 + 1 + int j) \<in> dom (mr_runs r')" unfolding r'(3) by auto
    then show ?thesis by blast
  qed
  moreover have "list_all (\<lambda>(i, f). Service_Scenario i \<noteq> None) seed_table"
    using seed_scenarios by (auto simp: list_all_iff)
  ultimately have "seed_loop C (memory_port C it) now' 0 seed_table r' = Some (r', None)"
    by (intro seed_loop_present [OF r'(2)]) (auto simp: seed_table_def)
  with r' show ?thesis
    by (simp add: NewServiceWithRepository_def ensureSeedRuns_def)
qed

theorem seeding_repeatable_witness:
  "\<exists>r'. NewServiceWithRepository plain_crypto (memory_port plain_crypto some_iteration) 3 NewMemoryRepository =
       Some (r', Inr ()) \<and> dom (mr_runs r') = {runID 1, runID 2, runID 3}"
proof -
  have "distinct (map (sha256 plain_crypto) seed_keys)"
    by (simp add: seed_keys_def seed_table_def plain_crypto_def)
  from seeding_repeatable [OF this] show ?thesis by blast
qed

subsection \<open>The overview counts what is stored\<close>

definition duplicates_of :: "MemoryRepository \<Rightarrow> string \<Rightarrow> int" where
  "duplicates_of r i = int (length (filter ev_IsDuplicate (get0 [] (mr_events r) i)))"

lemma overview_stats_memory:
  "overview_stats (memory_port C it) runs stats r =
     (r, stats\<lparr>os_TotalRuns := os_TotalRuns stats + int (length runs),
           os_PassedRuns := os_PassedRuns stats +
             sum_list (map (\<lambda>run. if run_Status run = RunPassed then 1 else 0) runs),
           os_EventsProcessed := os_EventsProcessed stats + sum_list (map run_EventCount runs),
           os_DuplicatesCaught := os_DuplicatesCaught stats +
             sum_list (map (\<lambda>run. duplicates_of r (run_ID run)) runs)\<rparr>)"
proof (induction runs arbitrary: stats)
  case Nil
  then show ?case by simp
next
  case (Cons run runs)
  have "r_Events (memory_port C it) i r = (r, Inr (get0 [] (mr_events r) i, mr_events r i \<noteq> None))" for i
    by (simp add: memory_port_def reads_def Events_get_def)
  then show ?case
    using Cons by (simp add: Let_def duplicates_of_def)
qed

lemma sum_over_runs:
  assumes "mset runs = runs_where r (\<lambda>i. True)" and "runs_ok r"
  shows "sum_list (map f runs) = (\<Sum>i \<in> dom (mr_runs r). f (the (mr_runs r i)) :: int)"
proof -
  have "sum_list (map f runs) = sum_mset (image_mset f (mset runs))"
    by (metis mset_map sum_mset_sum_list)
  then show ?thesis
    by (simp add: assms(1) runs_where_def sum_unfold_sum_mset image_mset.compositionality comp_def)
qed

text \<open>
  The overview reports the stored evidence: over a well-formed repository it changes nothing
  and counts all runs, the passed ones, all stored events and all duplicate events of every
  run, and its recent runs are five of the stored runs at most, the latest first, none of
  which started before a run left out.
\<close>

theorem overview_counts:
  assumes "memory_ok r" and "enumerates (it_runs it (mr_runs r)) (mr_runs r)"
  shows "\<exists>ov rest. Service_Overview (memory_port C it) r = (r, ov) \<and>
    os_TotalRuns (ov_Stats ov) = int (card (dom (mr_runs r))) \<and>
    os_PassedRuns (ov_Stats ov) = int (card {i \<in> dom (mr_runs r). run_Status (the (mr_runs r i)) = RunPassed}) \<and>
    os_EventsProcessed (ov_Stats ov) = (\<Sum>i \<in> dom (mr_runs r). int (length (the (mr_events r i)))) \<and>
    os_DuplicatesCaught (ov_Stats ov) = (\<Sum>i \<in> dom (mr_runs r). duplicates_of r i) \<and>
    mset (ov_RecentRuns ov @ rest) = runs_where r (\<lambda>i. True) \<and>
    length (ov_RecentRuns ov) = min 5 (card (dom (mr_runs r))) \<and>
    sorted_wrt (\<lambda>x y. run_StartedAt y \<le> run_StartedAt x) (ov_RecentRuns ov @ rest)"
proof -
  have ok: "runs_ok r" and fin: "finite (dom (mr_runs r))"
    using assms(1) runs_okD(1) by (simp_all add: memory_ok_def)
  define runs where "runs = by_start_desc (map (get0 zero_Run (mr_runs r)) (it_runs it (mr_runs r)))"
  have list: "r_ListRuns (memory_port C it) r = (r, Inr runs)"
    by (simp add: memory_port_def reads_def ListRuns_def runs_def)
  have runs: "mset runs = runs_where r (\<lambda>i. True)"
    using list_scope [OF assms(2), of "\<lambda>i. True"] by (simp add: runs_def)
  have len: "length runs = card (dom (mr_runs r))"
    using enumerates_length [OF assms(2)] by (simp add: runs_def by_start_desc_def)
  define latest where "latest = by_start_desc runs"
  have latest: "mset latest = runs_where r (\<lambda>i. True)" "length latest = card (dom (mr_runs r))"
      "sorted_wrt (\<lambda>x y. run_StartedAt y \<le> run_StartedAt x) latest"
    by (simp_all only: latest_def mset_by_start_desc runs sorted_by_start_desc)
      (simp add: by_start_desc_def len)
  have passed: "(\<Sum>i \<in> dom (mr_runs r). if run_Status (the (mr_runs r i)) = RunPassed then 1 else 0 :: int) =
      int (card {i \<in> dom (mr_runs r). run_Status (the (mr_runs r i)) = RunPassed})"
    using fin by (simp add: sum.If_cases Int_def conj_commute)
  have events: "run_EventCount (the (mr_runs r i)) = int (length (the (mr_events r i)))"
    and ids: "run_ID (the (mr_runs r i)) = i" if "i \<in> dom (mr_runs r)" for i
    using that runs_okD(4) [OF ok that] by (auto simp: story_ok_def)
  have sums: "sum_list (map run_EventCount runs) = (\<Sum>i \<in> dom (mr_runs r). int (length (the (mr_events r i))))"
    "sum_list (map (\<lambda>run. duplicates_of r (run_ID run)) runs) = (\<Sum>i \<in> dom (mr_runs r). duplicates_of r i)"
    "sum_list (map (\<lambda>run. if run_Status run = RunPassed then 1 else 0) runs) =
      int (card {i \<in> dom (mr_runs r). run_Status (the (mr_runs r i)) = RunPassed})"
    by (simp_all add: sum_over_runs [OF runs ok] passed events ids cong: sum.cong)
  define ov where "ov = snd (Service_Overview (memory_port C it) r)"
  have ov: "Service_Overview (memory_port C it) r = (r, ov)" "ov_RecentRuns ov = take 5 latest"
      "ov_Stats ov = (snd (overview_stats (memory_port C it) runs zero_stats r))\<lparr>os_P95LatencyMS := 184\<rparr>"
    by (simp_all add: ov_def Service_Overview_def list overview_stats_memory Let_def latest_def)
  show ?thesis
  proof (intro exI [of _ ov] exI [of _ "drop 5 latest"] conjI)
    show "mset (ov_RecentRuns ov @ drop 5 latest) = runs_where r (\<lambda>i. True)"
      and "sorted_wrt (\<lambda>x y. run_StartedAt y \<le> run_StartedAt x) (ov_RecentRuns ov @ drop 5 latest)"
      by (simp_all only: ov(2) append_take_drop_id latest)
  qed (simp_all add: ov overview_stats_memory zero_stats_def sums len latest(2) min.commute)
qed

definition sample_iteration :: iteration where
  "sample_iteration = some_iteration\<lparr>it_runs := \<lambda>m. [runID 1]\<rparr>"

theorem overview_counts_witness:
  "\<exists>ov. Service_Overview (memory_port plain_crypto sample_iteration) tenant_sample = (tenant_sample, ov) \<and>
     os_TotalRuns (ov_Stats ov) = 1 \<and> length (ov_RecentRuns ov) = 1"
proof -
  have "enumerates (it_runs sample_iteration (mr_runs tenant_sample)) (mr_runs tenant_sample)"
    by (simp add: enumerates_def sample_iteration_def tenant_sample_run)
  from overview_counts [OF memory_ok_tenant_sample this, of plain_crypto] show ?thesis
    by (auto simp: tenant_sample_run)
qed

end
