(* ===== verification/HttpSpec.thy ===== *)
theory HttpSpec
  imports HttpServer ServiceDemo AuthSpec
begin

text \<open>
  What the HTTP interface promises: who sees which run, which requests are refused before they have an
  effect, which webhooks are recorded, and when a client is locked out of signing in.
\<close>

subsection \<open>Callers\<close>

text \<open>
  Who sends a request: nobody that can be told (an invalid session), an anonymous client, or the
  identity of a session.
\<close>

datatype caller = Rejected | Anonymous | Member SessionView

definition session_of :: "'s http_env \<Rightarrow> 'a AuthService \<Rightarrow> string \<Rightarrow> 'a \<Rightarrow> caller" where
  "session_of E A token u =
     (case snd (AuthService_Session (he_host E) A (he_now E 0) token u) of
        Inl _ \<Rightarrow> Rejected | Inr identity \<Rightarrow> Member identity)"

definition caller_of :: "'s http_env \<Rightarrow> 'a AuthService \<Rightarrow> Request \<Rightarrow> 'a \<Rightarrow> caller" where
  "caller_of E A r u =
     (case rq_Cookie r sessionCookieName of
        None \<Rightarrow> Anonymous
      | Some v \<Rightarrow> if v = [] then Rejected else session_of E A v u)"

lemma AuthService_Session_unauthorized:
  assumes "AuthService_Session H A now token u = (u', Inl e)"
  shows "er_HTTPStatus e = 401"
proof -
  have "\<exists>c m. e = Unauthorized c m"
  proof (cases "au_repo A")
    case None
    with assms show ?thesis by (auto simp: AuthService_Session_def)
  next
    case R: (Some R)
    show ?thesis
    proof (cases "au_cipher A")
      case None
      with R assms show ?thesis by (auto simp: AuthService_Session_def)
    next
      case (Some c)
      obtain s1 y where y: "ar_Session R (sha256 (ah_crypto H) token) u = (s1, y)" by fastforce
      note eq = assms [unfolded AuthService_Session_def R Some option.case prod.case y]
      show ?thesis
      proof (cases y)
        case (Inl d)
        from eq [unfolded this sum.case] show ?thesis by (auto split: if_splits)
      next
        case (Inr p)
        obtain i ok where p: "p = (i, ok)" by (cases p)
        from eq [unfolded Inr p sum.case prod.case] show ?thesis
          by (cases ok; cases "Decrypt (ah_aead H) c (id_EmailCiphertext i) (id_UserID i)"; cases "token = []";
              cases "After (id_SessionExpiresAt i) now"; simp; blast)
      qed
    qed
  qed
  then show ?thesis by auto
qed

lemma optionalSession_caller:
  assumes "optionalSession A E r x = (x', c)"
  obtains "caller_of E A r (api_auth (fst x)) = Anonymous" "c = Some None" "x' = x"
  | u i where "caller_of E A r (api_auth (fst x)) = Member i" "c = Some (Some i)"
      "x' = ((fst x)\<lparr>api_auth := u\<rparr>, snd x)"
  | u e where "caller_of E A r (api_auth (fst x)) = Rejected" "c = None"
      "x' = conn_error r e ((fst x)\<lparr>api_auth := u\<rparr>, snd x)" "er_HTTPStatus e = 401"
proof (cases "rq_Cookie r sessionCookieName")
  case None
  have "caller_of E A r (api_auth (fst x)) = Anonymous" by (simp add: caller_of_def None)
  moreover have "c = Some None" "x' = x" using assms by (simp_all add: optionalSession_def None)
  ultimately show ?thesis by (rule that(1))
next
  case (Some v)
  show ?thesis
  proof (cases "v = []")
    case True
    define e where "e = Unauthorized ''session_invalid'' (Msg ''The session is invalid or expired.'')"
    have "caller_of E A r (api_auth (fst x)) = Rejected" by (simp add: caller_of_def Some True)
    moreover have "c = None" "x' = conn_error r e ((fst x)\<lparr>api_auth := api_auth (fst x)\<rparr>, snd x)"
      using assms by (simp_all add: optionalSession_def Some True e_def)
    moreover have "er_HTTPStatus e = 401" by (simp add: e_def)
    ultimately show ?thesis by (rule that(3))
  next
    case False
    obtain u y where s: "AuthService_Session (he_host E) A (he_now E 0) v (api_auth (fst x)) = (u, y)" by fastforce
    show ?thesis
    proof (cases y)
      case (Inl e)
      have "caller_of E A r (api_auth (fst x)) = Rejected"
        using s by (simp add: caller_of_def session_of_def Some False Inl)
      moreover have "c = None" "x' = conn_error r e ((fst x)\<lparr>api_auth := u\<rparr>, snd x)"
        using assms s by (simp_all add: optionalSession_def load_session_def Some False Inl)
      moreover have "er_HTTPStatus e = 401"
        by (rule AuthService_Session_unauthorized [OF s [unfolded Inl]])
      ultimately show ?thesis by (rule that(3))
    next
      case (Inr i)
      have "caller_of E A r (api_auth (fst x)) = Member i"
        using s by (simp add: caller_of_def session_of_def Some False Inr)
      moreover have "c = Some (Some i)" "x' = ((fst x)\<lparr>api_auth := u\<rparr>, snd x)"
        using assms s by (simp_all add: optionalSession_def load_session_def Some False Inr)
      ultimately show ?thesis by (rule that(2))
    qed
  qed
qed

text \<open>What a caller may see of a run of the in-memory repository.\<close>

definition sees :: "caller \<Rightarrow> MemoryRepository \<Rightarrow> string \<Rightarrow> bool" where
  "sees c s i \<longleftrightarrow>
     (case c of
        Rejected \<Rightarrow> False
      | Anonymous \<Rightarrow> public_run s i
      | Member identity \<Rightarrow> owned_by (pv_ID (sv_Project identity)) s i)"

definition run_resource :: "MemoryRepository \<Rightarrow> string list \<Rightarrow> string \<Rightarrow> Json option" where
  "run_resource s rest i =
     (if rest = [] then map_option JRun (mr_runs s i)
      else if rest = [''report''] then map_option JReport (mr_reports s i)
      else if rest = [''events''] then map_option (\<lambda>evs. list_json (map JEvent evs)) (mr_events s i)
      else None)"

lemma memory_port_scopes [simp]:
  "r_Public (memory_port C it) = Some (memory_public it)"
  "t_RunForProject (memory_tenant it) = (\<lambda>p i. reads (RunForProject p i))"
  "t_EventsForProject (memory_tenant it) = (\<lambda>p i. reads (EventsForProject p i))"
  "t_ReportForProject (memory_tenant it) = (\<lambda>p i. reads (ReportForProject p i))"
  "p_PublicRun (memory_public it) = (\<lambda>i. reads (PublicRun i))"
  "p_PublicEvents (memory_public it) = (\<lambda>i. reads (PublicEvents i))"
  "p_PublicReport (memory_public it) = (\<lambda>i. reads (PublicReport i))"
  by (simp_all add: memory_port_def memory_tenant_def memory_public_def)

lemma read_ok_visible: "read_ok z y = (case visible y of None \<Rightarrow> (fst (read_ok z y), False) | Some v \<Rightarrow> (v, True))"
  by (auto simp: read_ok_def visible_def split: sum.splits)

text \<open>The answer to a read of one run, from what the caller's scope finds.\<close>

definition found_answer :: "Request \<Rightarrow> Json option \<Rightarrow> Response \<Rightarrow> Response" where
  "found_answer r j w =
     (case j of
        None \<Rightarrow> writeError r (NotFound ''run'' (rq_PathValue r ''id'')) w
      | Some v \<Rightarrow> writeJSON 200 v w)"

lemma scoped_read_caller:
  assumes "cf_Auth (hd_config h) = Some A" and "api_repo (fst x) = s"
    and "\<And>p. \<exists>v. project p s = (s, v, find_p p \<noteq> None) \<and> (find_p p \<noteq> None \<longrightarrow> v = the (find_p p))"
    and "\<exists>v. public s = (s, v, find_o \<noteq> None) \<and> (find_o \<noteq> None \<longrightarrow> v = the find_o)"
  obtains "caller_of E A r (api_auth (fst x)) = Anonymous"
      "scoped_read h E r json all project public x = (fst x, found_answer r (map_option json find_o) (snd x))"
  | i u where "caller_of E A r (api_auth (fst x)) = Member i"
      "scoped_read h E r json all project public x =
         ((fst x)\<lparr>api_auth := u\<rparr>, found_answer r (map_option json (find_p (pv_ID (sv_Project i)))) (snd x))"
  | u e where "caller_of E A r (api_auth (fst x)) = Rejected" "er_HTTPStatus e = 401"
      "scoped_read h E r json all project public x = ((fst x)\<lparr>api_auth := u\<rparr>, writeError r e (snd x))"
proof -
  obtain x' c where o: "optionalSession A E r x = (x', c)" by fastforce
  from o show ?thesis
  proof (cases rule: optionalSession_caller)
    case 1
    from assms(4) obtain v where "public s = (s, v, find_o \<noteq> None)" "find_o \<noteq> None \<longrightarrow> v = the find_o" by blast
    then have "scoped_read h E r json all project public x = (fst x, found_answer r (map_option json find_o) (snd x))"
      using 1(2,3) o assms(1,2) by (cases find_o) (auto simp: scoped_read_def found_answer_def conn_error_def)
    with 1(1) show ?thesis by (rule that(1))
  next
    case (2 u i)
    let ?p = "pv_ID (sv_Project i)"
    from assms(3) [of ?p] obtain v where
      "project ?p s = (s, v, find_p ?p \<noteq> None)" "find_p ?p \<noteq> None \<longrightarrow> v = the (find_p ?p)" by blast
    then have "scoped_read h E r json all project public x =
        ((fst x)\<lparr>api_auth := u\<rparr>, found_answer r (map_option json (find_p ?p)) (snd x))"
      using 2(2,3) o assms(1,2) by (cases "find_p ?p") (auto simp: scoped_read_def found_answer_def conn_error_def)
    with 2(1) show ?thesis by (rule that(2))
  next
    case (3 u e)
    have "scoped_read h E r json all project public x = ((fst x)\<lparr>api_auth := u\<rparr>, writeError r e (snd x))"
      using 3(2,3) o assms(1) by (simp add: scoped_read_def conn_error_def)
    with 3(1,4) show ?thesis by (rule that(3))
  qed
qed

subsection \<open>Requests that reach a handler\<close>

definition entered :: "('s, 'g, 'a) Api \<Rightarrow> ('s, 'g, 'a) Api" where
  "entered a = a\<lparr>api_nextID := (api_nextID a + 1) mod 2 ^ 64\<rparr>"

definition stamped :: "('s, 'g, 'a) Api \<Rightarrow> Request \<Rightarrow> Request" where
  "stamped a r = r\<lparr>rq_Header := (rq_Header r)(''X-ParityLab-Request-ID'' := [request_id (api_nextID (entered a))])\<rparr>"

definition first_response :: "('s, 'g, 'a) Handler \<Rightarrow> Request \<Rightarrow> ('s, 'g, 'a) Api \<Rightarrow> Response" where
  "first_response h r a =
     common_headers (cf_Auth (hd_config h) = None) (cf_WebOrigin (hd_config h)) (header_get r ''Origin'')
       (request_id (api_nextID (entered a))) empty_response"

lemma entered_fields [simp]:
  "api_repo (entered a) = api_repo a" "api_gateway (entered a) = api_gateway a"
  "api_auth (entered a) = api_auth a" "api_limiter (entered a) = api_limiter a"
  by (simp_all add: entered_def)

lemma stamped_fields [simp]:
  "rq_Method (stamped a r) = rq_Method r" "rq_Path (stamped a r) = rq_Path r"
  "rq_Segments (stamped a r) = rq_Segments r" "rq_Cookie (stamped a r) = rq_Cookie r"
  "rq_Body (stamped a r) = rq_Body r" "rq_RemoteAddr (stamped a r) = rq_RemoteAddr r"
  "rq_Query (stamped a r) = rq_Query r"
  "header_get (stamped a r) ''X-ParityLab-Request-ID'' = request_id (api_nextID (entered a))"
  "k \<noteq> ''X-ParityLab-Request-ID'' \<Longrightarrow> header_get (stamped a r) k = header_get r k"
  "k \<noteq> ''X-ParityLab-Request-ID'' \<Longrightarrow> rq_Header (stamped a r) k = rq_Header r k"
  "find_route (stamped a r) = find_route r" "has_session_cookie (stamped a r) = has_session_cookie r"
  "path_known (stamped a r) = path_known r"
  by (simp_all add: stamped_def header_get_def find_route_def has_session_cookie_def path_known_def
      cong: option.case_cong)

lemma routed_fields [simp]:
  "header_get (r\<lparr>rq_PathValue := v\<rparr>) = header_get r" "read_body (r\<lparr>rq_PathValue := v\<rparr>) = read_body r"
  by (simp_all add: header_get_def read_body_def fun_eq_iff)

lemma caller_of_cong: "rq_Cookie r' = rq_Cookie r \<Longrightarrow> caller_of E A r' u = caller_of E A r u"
  by (simp add: caller_of_def)

lemma ServeHTTP_enter:
  assumes "rq_Method r \<noteq> ''OPTIONS''"
  shows "ServeHTTP h E r a =
    (if cf_Auth (hd_config h) \<noteq> None \<and> rq_Method r \<noteq> ''GET'' \<and> rq_Method r \<noteq> ''HEAD'' \<and>
        \<not> HasPrefix (rq_Path r) ''/hooks/stripe/'' \<and> header_get r ''Origin'' \<noteq> cf_WebOrigin (hd_config h) \<and>
        has_session_cookie r
     then Some (conn_error (stamped a r) (Forbidden ''csrf_origin_invalid''
       (Msg ''The request origin is not allowed.'')) (entered a, first_response h r a))
     else mux_serve h E (stamped a r) (entered a, first_response h r a))"
proof -
  have "header_get (r\<lparr>rq_Header := (rq_Header r)(''X-ParityLab-Request-ID'' := v)\<rparr>) ''Origin'' = header_get r ''Origin''" for v
    by (simp add: header_get_def)
  moreover have "has_session_cookie (r\<lparr>rq_Header := v\<rparr>) = has_session_cookie r" for v
    by (simp add: has_session_cookie_def)
  ultimately show ?thesis
    using assms
    by (simp add: ServeHTTP_def Let_def entered_def stamped_def first_response_def)
qed

lemma ServeHTTP_get:
  assumes "rq_Method r = ''GET''" and "find_route r = Some (t, vals)"
  shows "ServeHTTP h E r a = serve_route h E t ((stamped a r)\<lparr>rq_PathValue := vals\<rparr>) (entered a, first_response h r a)"
proof -
  have m: "rq_Method r \<noteq> ''OPTIONS''" using assms(1) by simp
  show ?thesis using assms(1) by (simp add: ServeHTTP_enter [OF m] mux_serve_def assms(2))
qed

lemma response_fields [simp]:
  "rs_Status (writeJSON n v w) = n" "rs_Body (writeJSON n v w) = rs_Body w @ [CJson v]"
  "rs_Status (writeError r e w) = (if er_HTTPStatus e = 0 then 500 else er_HTTPStatus e)"
  "rs_Body (writeError r e w) =
     rs_Body w @ [CJson (JObject [(''error'', JError (e\<lparr>er_RequestID := header_get r ''X-ParityLab-Request-ID''\<rparr>))])]"
  "rs_Body (first_response h r a) = []" "rs_Status (first_response h r a) = 0"
  "rs_Body (set_header k z w) = rs_Body w" "rs_Status (set_header k z w) = rs_Status w"
  by (simp_all add: writeJSON_def writeError_def WriteHeader_def set_header_def Let_def first_response_def
      common_headers_def empty_response_def)

subsection \<open>Reading runs\<close>

lemma route_run:
  assumes "rq_Method r = ''GET''" and "i \<noteq> []"
  shows "rq_Segments r = [''v1'', ''runs'', i] \<Longrightarrow> find_route r = Some (RRun, (\<lambda>_. [])(''id'' := i))"
    and "rq_Segments r = [''v1'', ''runs'', i, ''report''] \<Longrightarrow> find_route r = Some (RReport, (\<lambda>_. [])(''id'' := i))"
    and "rq_Segments r = [''v1'', ''runs'', i, ''events''] \<Longrightarrow> find_route r = Some (REvents, (\<lambda>_. [])(''id'' := i))"
  using assms by (simp_all add: find_route_def routes_def method_matches_def)

definition scope_read where
  "scope_read z y = (\<lambda>s. map_prod id (read_ok z) (reads y s))"

lemma scope_read_finds:
  assumes "visible (y s) = f"
  shows "\<exists>v. scope_read z y s = (s, v, f \<noteq> None) \<and> (f \<noteq> None \<longrightarrow> v = the f)"
  using assms by (cases "y s") (auto simp: scope_read_def reads_def read_ok_def visible_def)

lemma scoped_read_memory:
  fixes i :: string
  assumes "cf_Auth (hd_config h) = Some A" and "api_repo (fst x) = s"
    and proj: "\<And>p. visible (proj p s) = (if owned_by p s i then v else None)"
    and pub: "visible (pub s) = (if public_run s i then v else None)"
  shows "\<exists>u e. scoped_read h E r json all (\<lambda>p. scope_read z (proj p)) (scope_read z pub) x =
      (case caller_of E A r (api_auth (fst x)) of
         Rejected \<Rightarrow> ((fst x)\<lparr>api_auth := u\<rparr>, writeError r e (snd x))
       | c \<Rightarrow> ((fst x)\<lparr>api_auth := u\<rparr>, found_answer r (if sees c s i then map_option json v else None) (snd x))) \<and>
    er_HTTPStatus e = 401"
proof -
  define bad where "bad = Unauthorized [] (Msg [])"
  have bad: "er_HTTPStatus bad = 401" by (simp add: bad_def)
  note P = scope_read_finds [where y = "proj p" and z = z and s = s and f = "if owned_by p s i then v else None" for p, OF proj]
    and Q = scope_read_finds [where y = pub and z = z and s = s and f = "if public_run s i then v else None", OF pub]
  show ?thesis
  proof (cases rule: scoped_read_caller [where x = x and r = r and E = E and json = json and all = all and s = s
      and find_p = "\<lambda>p. if owned_by p s i then v else None" and find_o = "if public_run s i then v else None"
      and project = "\<lambda>p. scope_read z (proj p)" and public = "scope_read z pub", OF assms(1,2) P Q])
    case 1
    then show ?thesis
      using bad by (intro exI [of _ "api_auth (fst x)"] exI [of _ bad]) (simp add: sees_def)
  next
    case (2 j u)
    then show ?thesis
      using bad by (intro exI [of _ u] exI [of _ bad]) (simp add: sees_def)
  next
    case (3 u e)
    then show ?thesis
      by (intro exI [of _ u] exI [of _ e]) simp
  qed
qed

lemma service_scopes:
  "Service_RunForProject (memory_port C it) p i = scope_read zero_Run (RunForProject p i)"
  "Service_EventsForProject (memory_port C it) p i = scope_read [] (EventsForProject p i)"
  "Service_ReportForProject (memory_port C it) p i = scope_read zero_Report (ReportForProject p i)"
  "Service_PublicRun (memory_port C it) i = scope_read zero_Run (PublicRun i)"
  "Service_PublicEvents (memory_port C it) i = scope_read [] (PublicEvents i)"
  "Service_PublicReport (memory_port C it) i = scope_read zero_Report (PublicReport i)"
  by (simp_all add: fun_eq_iff scope_read_def Service_RunForProject_def Service_EventsForProject_def
      Service_ReportForProject_def Service_PublicRun_def Service_PublicEvents_def Service_PublicReport_def)

lemma serve_run_read:
  assumes "memory_ok s" and "hd_engine h = memory_port C it" and "cf_Auth (hd_config h) = Some A"
    and get: "rq_Method r = ''GET''" and segs: "rq_Segments r = [''v1'', ''runs'', i] @ rest"
    and rest: "rest \<in> {[], [''report''], [''events'']}" and i: "i \<noteq> []"
    and accept: "rest = [''events''] \<Longrightarrow> \<not> Contains (header_get r ''Accept'') ''text/event-stream''" and "api_repo a = s"
  shows "\<exists>u e. ServeHTTP h E r a =
      Some (case caller_of E A r (api_auth a) of
         Rejected \<Rightarrow> ((entered a)\<lparr>api_auth := u\<rparr>,
           writeError ((stamped a r)\<lparr>rq_PathValue := (\<lambda>_. [])(''id'' := i)\<rparr>) e (first_response h r a))
       | c \<Rightarrow> ((entered a)\<lparr>api_auth := u\<rparr>,
           found_answer ((stamped a r)\<lparr>rq_PathValue := (\<lambda>_. [])(''id'' := i)\<rparr>)
             (if sees c s i then run_resource s rest i else None) (first_response h r a))) \<and>
    er_HTTPStatus e = 401"
proof -
  have ok: "runs_ok s" using assms(1) by (simp add: memory_ok_def)
  define r' where "r' = (stamped a r)\<lparr>rq_PathValue := (\<lambda>_. [])(''id'' := i)\<rparr>"
  define x where "x = (entered a, first_response h r a)"
  have x: "api_repo (fst x) = s" "api_auth (fst x) = api_auth a" "fst x = entered a" "snd x = first_response h r a"
    using assms(9) by (simp_all add: x_def)
  have caller: "caller_of E A r' (api_auth (fst x)) = caller_of E A r (api_auth a)"
    by (simp add: r'_def x_def caller_of_def)
  have r': "rq_PathValue r' ''id'' = i" "header_get r' ''Accept'' = header_get r ''Accept''"
    by (simp_all add: r'_def)
  note get_route = ServeHTTP_get [OF get, of _ "(\<lambda>_. [])(''id'' := i)" h E a, folded r'_def x_def]
  note reads = scoped_read_memory [OF assms(3) x(1), of _ i, where E = E and r = r', unfolded caller, unfolded x(3,4)]
  consider (run) "rest = []" | (report) "rest = [''report'']" | (events) "rest = [''events'']" using rest by auto
  then show ?thesis
  proof cases
    case run
    with segs have "find_route r = Some (RRun, (\<lambda>_. [])(''id'' := i))" by (intro route_run get i) simp
    from get_route [OF this] accept have step: "ServeHTTP h E r a = Some (scoped_read h E r' JRun
        (Service_Run (memory_port C it) i) (\<lambda>p. scope_read zero_Run (RunForProject p i)) (scope_read zero_Run (PublicRun i)) x)"
      by (simp add: serve_route_def run_handler_def Let_def r' assms(2) service_scopes)
    have res: "run_resource s rest i = map_option JRun (mr_runs s i)" by (simp add: run_resource_def run)
    show ?thesis
      unfolding step res r'_def [symmetric] option.inject
      by (rule reads [where proj = "\<lambda>p. RunForProject p i" and pub = "PublicRun i" and v = "mr_runs s i",
            OF visible_project(1) [OF ok] visible_public(1) [OF ok]])
  next
    case report
    with segs have "find_route r = Some (RReport, (\<lambda>_. [])(''id'' := i))" by (intro route_run get i) simp
    from get_route [OF this] accept have step: "ServeHTTP h E r a = Some (scoped_read h E r' JReport
        (Service_Report (memory_port C it) i) (\<lambda>p. scope_read zero_Report (ReportForProject p i)) (scope_read zero_Report (PublicReport i)) x)"
      by (simp add: serve_route_def HttpApi.report_def Let_def r' assms(2) service_scopes)
    have res: "run_resource s rest i = map_option JReport (mr_reports s i)" by (simp add: run_resource_def report)
    show ?thesis
      unfolding step res r'_def [symmetric] option.inject
      by (rule reads [where proj = "\<lambda>p. ReportForProject p i" and pub = "PublicReport i" and v = "mr_reports s i",
            OF visible_project(3) [OF ok] visible_public(3) [OF ok]])
  next
    case events
    with segs have "find_route r = Some (REvents, (\<lambda>_. [])(''id'' := i))" by (intro route_run get i) simp
    from get_route [OF this] accept [OF events] have step: "ServeHTTP h E r a = Some (scoped_read h E r' (\<lambda>evs. list_json (map JEvent evs))
        (Service_Events (memory_port C it) i) (\<lambda>p. scope_read [] (EventsForProject p i)) (scope_read [] (PublicEvents i)) x)"
      by (simp add: serve_route_def HttpServer.events_def Let_def r' assms(2) service_scopes)
    have res: "run_resource s rest i = map_option (\<lambda>evs. list_json (map JEvent evs)) (mr_events s i)" by (simp add: run_resource_def events)
    show ?thesis
      unfolding step res r'_def [symmetric] option.inject
      by (rule reads [where proj = "\<lambda>p. EventsForProject p i" and pub = "PublicEvents i" and v = "mr_events s i",
            OF visible_project(2) [OF ok] visible_public(2) [OF ok]])
  qed
qed

subsection \<open>Streaming runs\<close>

lemma memory_port_batches [simp]:
  "t_EventsAfterForProject (memory_tenant it) = (\<lambda>p i after limit. reads (EventsAfterForProject p i after limit))"
  "p_PublicEventsAfter (memory_public it) = (\<lambda>i after limit. reads (PublicEventsAfter i after limit))"
  by (simp_all add: memory_tenant_def memory_public_def)

text \<open>The batch a caller reads in a state, which may be another one than that of the request.\<close>

definition batch_for :: "caller \<Rightarrow> string \<Rightarrow> int \<Rightarrow> int \<Rightarrow> MemoryRepository \<Rightarrow> EventStreamBatch \<times> bool" where
  "batch_for c i after limit t =
     (if sees c t i then (eventsAfterLocked (the (mr_runs t i)) after limit t, True)
      else (zero_EventStreamBatch, False))"

lemma scoped_batches:
  "Service_EventsAfterForProject (memory_port C it) (pv_ID (sv_Project m)) i after limit t =
     (t, Inr (batch_for (Member m) i after limit t))"
  "Service_PublicEventsAfter (memory_port C it) i after limit t = (t, Inr (batch_for Anonymous i after limit t))"
  by (auto simp: Service_EventsAfterForProject_def Service_PublicEventsAfter_def reads_def batch_for_def
      sees_def owned_by_def public_run_def EventsAfterForProject_def PublicEventsAfter_def split: option.splits)

lemma eventReader_caller:
  assumes "hd_engine h = memory_port C it" and "cf_Auth (hd_config h) = Some A"
  obtains (rejected) u e where "caller_of E A r (api_auth (fst x)) = Rejected" "er_HTTPStatus e = 401"
      "eventReader h E r i x = (conn_error r e ((fst x)\<lparr>api_auth := u\<rparr>, snd x), None)"
  | (reader) u reader where "caller_of E A r (api_auth (fst x)) \<noteq> Rejected"
      "eventReader h E r i x = (((fst x)\<lparr>api_auth := u\<rparr>, snd x), Some reader)"
      "\<And>after limit t. reader after limit t =
         (t, Inr (batch_for (caller_of E A r (api_auth (fst x))) i after limit t))"
proof -
  obtain x' c where o: "optionalSession A E r x = (x', c)" by fastforce
  from o show ?thesis
  proof (cases rule: optionalSession_caller)
    case 1
    then show ?thesis
      using reader [of "api_auth (fst x)"] o assms scoped_batches(2) [of C it i]
      by (simp add: eventReader_def)
  next
    case (2 u m)
    then show ?thesis
      using reader [of u] o assms scoped_batches(1) [of C it m i] by (simp add: eventReader_def)
  next
    case (3 u e)
    then show ?thesis
      using rejected [of e u] o assms(2) by (simp add: eventReader_def)
  qed
qed

text \<open>The events of a run that a caller can see in the states a stream reads.\<close>

definition seen_events :: "caller \<Rightarrow> string \<Rightarrow> MemoryRepository set \<Rightarrow> Event set" where
  "seen_events c i states = (\<Union>t \<in> states. if sees c t i then set (the (mr_events t i)) else {})"

lemma sees_run: "sees c s i \<Longrightarrow> mr_runs s i \<noteq> None"
  by (auto simp: sees_def public_run_def owned_by_def split: caller.splits)

lemma batch_for_seen:
  assumes "memory_ok t" and "batch_for c i after limit t = (batch, True)"
  shows "sees c t i" and "set (eb_Events batch) \<subseteq> set (the (mr_events t i))"
    and "eb_HighWater batch = int (length (the (mr_events t i)))"
proof -
  show seen: "sees c t i" using assms(2) by (simp add: batch_for_def split: if_splits)
  then obtain run where run: "mr_runs t i = Some run" using sees_run by blast
  obtain evs where evs: "mr_events t i = Some evs" "run_ID run = i" "sequenced evs"
    using runs_ok_story [of t i run] assms(1) run by (auto simp: memory_ok_def)
  have b: "batch = eventsAfterLocked run after limit t"
    using assms(2) seen run by (simp add: batch_for_def)
  note page = eventsAfterLocked_page [of t run evs after limit, unfolded evs(2), OF evs(1,3)]
  show "set (eb_Events batch) \<subseteq> set (the (mr_events t i))"
    unfolding b page evs(1) by (auto dest: in_set_takeD in_set_dropD)
  show "eb_HighWater batch = int (length (the (mr_events t i)))"
    unfolding b page evs(1) by simp
qed

text \<open>What a stream answers to a caller, from its first batch on.\<close>

lemma start_stream_seen:
  assumes "start_stream h E r i reader l batch x = Some x'"
    and "\<And>after limit t. reader after limit t = (t, Inr (batch_for c i after limit t))"
    and "\<And>n. memory_ok (he_later E n)" and "set (eb_Events batch) \<subseteq> seen_events c i states"
    and "range (he_later E) \<subseteq> states" and "rs_Body (snd x) = []"
  shows "fst x' = fst x" and "CFrame (FEvent e) \<in> set (rs_Body (snd x')) \<Longrightarrow> e \<in> seen_events c i states"
    and "he_io E 0 \<Longrightarrow> rs_Status (snd x') = 200"
proof -
  let ?w = "set_header ''X-Accel-Buffering'' ''no'' (set_header ''Connection'' ''keep-alive''
      (set_header ''Content-Type'' ''text/event-stream'' (snd x)))"
  let ?S = "\<lparr>sh_io = he_io E, sh_read = \<lambda>n after limit. snd (reader after limit (he_later E n))\<rparr>"
  let ?st = "\<lparr>st_last = l, st_complete = False, st_frames = [], st_io = 1, st_reads = 1\<rparr>"
  have reads: "reads_of ?S (seen_events c i states)"
    unfolding reads_of_def
  proof (intro allI impI)
    fix n after limit b
    assume "sh_read ?S n after limit = Inr (b, True)"
    then have "batch_for c i after limit (he_later E n) = (b, True)" by (simp add: assms(2))
    note seen = batch_for_seen [OF assms(3) this]
    have "he_later E n \<in> states" using assms(5) by blast
    with seen show "set (eb_Events b) \<subseteq> seen_events c i states"
      by (force simp: seen_events_def)
  qed
  have "fst x' = fst x \<and> (\<forall>e. CFrame (FEvent e) \<in> set (rs_Body (snd x')) \<longrightarrow> e \<in> seen_events c i states) \<and>
    (he_io E 0 \<longrightarrow> rs_Status (snd x') = 200)"
  proof (cases "he_io E 0")
    case False
    with assms(1,6) show ?thesis
      by (auto simp: start_stream_def conn_error_def)
  next
    case True
    with assms(1) obtain st live where
      run: "stream_events ?S (cf_SSERetry (hd_config h)) i batch (he_stimuli E) ?st = Some (st, live)"
      and x': "x' = (fst x, (WriteHeader 200 ?w)\<lparr>rs_Body := rs_Body (WriteHeader 200 ?w) @ map CFrame (st_frames st)\<rparr>)"
      by (auto simp: start_stream_def Let_def split: option.splits)
    have "sends_of (seen_events c i states) st"
      by (rule stream_sends_of [OF reads assms(4) _ run]) (simp add: sends_of_def)
    then show ?thesis
      using assms(6) by (auto simp: x' sends_of_def WriteHeader_def)
  qed
  then show "fst x' = fst x" and "CFrame (FEvent e) \<in> set (rs_Body (snd x')) \<Longrightarrow> e \<in> seen_events c i states"
    and "he_io E 0 \<Longrightarrow> rs_Status (snd x') = 200"
    by blast+
qed

definition error_body :: "Request \<Rightarrow> Error \<Rightarrow> chunk list" where
  "error_body r e =
     [CJson (JObject [(''error'', JError (e\<lparr>er_RequestID := header_get r ''X-ParityLab-Request-ID''\<rparr>))])]"

text \<open>The answer to a stream's request, by who asks.\<close>

lemma eventStream_rejected:
  assumes "hd_engine h = memory_port C it" and "cf_Auth (hd_config h) = Some A"
    and "caller_of E A r (api_auth (fst x)) = Rejected" and "rs_Body (snd x) = []"
  shows "\<exists>x' e. eventStream h E r i x = Some x' \<and> api_repo (fst x') = api_repo (fst x) \<and>
    api_nextID (fst x') = api_nextID (fst x) \<and> rs_Status (snd x') = 401 \<and> rs_Body (snd x') = error_body r e"
  using assms(1,2)
proof (cases rule: eventReader_caller [where E = E and r = r and x = x and i = i])
  case (rejected u e)
  then show ?thesis
    using assms(4) by (auto simp: eventStream_def conn_error_def error_body_def)
qed (use assms(3) in simp)

lemma eventStream_unseen:
  assumes "hd_engine h = memory_port C it" and "cf_Auth (hd_config h) = Some A"
    and "caller_of E A r (api_auth (fst x)) = c" and "c \<noteq> Rejected" and "\<not> sees c (api_repo (fst x)) i"
    and "rs_Body (snd x) = []"
    and "e = (case parseLastEventID (rq_Header r ''Last-Event-ID'') of Inl e \<Rightarrow> e | Inr l \<Rightarrow> NotFound ''run'' i)"
  shows "\<exists>x'. eventStream h E r i x = Some x' \<and> api_repo (fst x') = api_repo (fst x) \<and>
    api_nextID (fst x') = api_nextID (fst x) \<and>
    rs_Status (snd x') = (if er_HTTPStatus e = 0 then 500 else er_HTTPStatus e) \<and> rs_Body (snd x') = error_body r e"
  using assms(1,2)
proof (cases rule: eventReader_caller [where E = E and r = r and x = x and i = i])
  case (reader u rd)
  then show ?thesis
    using assms(3-7)
    by (cases "parseLastEventID (rq_Header r ''Last-Event-ID'')")
      (auto simp: eventStream_def conn_error_def error_body_def batch_for_def)
qed (use assms(3,4) in simp)

lemma eventStream_seen:
  assumes "hd_engine h = memory_port C it" and "cf_Auth (hd_config h) = Some A"
    and "caller_of E A r (api_auth (fst x)) = c" and "sees c (api_repo (fst x)) i"
    and "memory_ok (api_repo (fst x))" and "\<And>n. memory_ok (he_later E n)" and "rs_Body (snd x) = []"
    and "eventStream h E r i x = Some x'"
  shows "api_repo (fst x') = api_repo (fst x) \<and>
    (\<forall>e. CFrame (FEvent e) \<in> set (rs_Body (snd x')) \<longrightarrow>
       e \<in> seen_events c i (insert (api_repo (fst x)) (range (he_later E)))) \<and>
    (\<forall>l. parseLastEventID (rq_Header r ''Last-Event-ID'') = Inr l \<and>
       l \<le> int (length (the (mr_events (api_repo (fst x)) i))) \<and> he_flusher E \<and> he_io E 0 \<longrightarrow>
       rs_Status (snd x') = 200)"
  using assms(1,2)
proof (cases rule: eventReader_caller [where E = E and r = r and x = x and i = i])
  case (rejected u e)
  with assms(3,4) show ?thesis by (auto simp: sees_def)
next
  case (reader u rd)
  let ?s = "api_repo (fst x)" and ?x1 = "((fst x)\<lparr>api_auth := u\<rparr>, snd x)"
  show ?thesis
  proof (cases "parseLastEventID (rq_Header r ''Last-Event-ID'')")
    case (Inl e)
    with assms(7,8) reader(2) show ?thesis by (auto simp: eventStream_def conn_error_def)
  next
    case (Inr l)
    obtain b where b: "batch_for c i l batchSize ?s = (b, True)"
      using assms(4) by (simp add: batch_for_def)
    note seen = batch_for_seen [OF assms(5) b]
    have rd: "rd l batchSize ?s = (?s, Inr (b, True))" using reader(3) b assms(3) by simp
    have x1: "((fst x)\<lparr>api_auth := u, api_repo := ?s\<rparr>, snd x) = ?x1" by simp
    show ?thesis
    proof (cases "l \<le> eb_HighWater b \<and> he_flusher E")
      case False
      with assms(7,8) reader(2) Inr rd seen(3) show ?thesis
        by (auto simp: eventStream_def conn_error_def Let_def split: if_splits)
    next
      case True
      with assms(8) reader(2) Inr rd have "start_stream h E r i rd l b ?x1 = Some x'"
        by (simp add: eventStream_def Let_def)
      moreover have "set (eb_Events b) \<subseteq> seen_events c i (insert ?s (range (he_later E)))"
        using seen(2) assms(4) by (auto simp: seen_events_def)
      moreover have "range (he_later E) \<subseteq> insert ?s (range (he_later E))" by blast
      moreover have "rs_Body (snd ?x1) = []" using assms(7) by simp
      ultimately show ?thesis
        using start_stream_seen [where h = h and E = E and r = r and i = i and reader = rd and c = c
            and l = l and batch = b and x = ?x1 and x' = x' and states = "insert ?s (range (he_later E))",
            OF _ reader(3) [unfolded assms(3)] assms(6)] by simp
    qed
  qed
qed

lemma run_read_plain:
  assumes "memory_ok s" and "hd_engine h = memory_port C it" and auth: "cf_Auth (hd_config h) = Some A"
    and get: "rq_Method r = ''GET''" and segs: "rq_Segments r = [''v1'', ''runs'', i] @ rest"
    and rest: "rest \<in> {[], [''report''], [''events'']}" and i: "i \<noteq> []"
    and accept: "rest = [''events''] \<Longrightarrow> \<not> Contains (header_get r ''Accept'') ''text/event-stream''" and "api_repo a = s"
  shows "\<exists>a' w. ServeHTTP h E r a = Some (a', w) \<and> api_repo a' = s \<and>
    (if caller_of E A r (api_auth a) = Rejected
     then rs_Status w = 401 \<and> (\<exists>e. rs_Body w = error_body (stamped a r) e)
     else if sees (caller_of E A r (api_auth a)) s i
     then rs_Status w = 200 \<and> (\<exists>j. run_resource s rest i = Some j \<and> rs_Body w = [CJson j])
     else rs_Status w = 404 \<and> rs_Body w = error_body (stamped a r) (NotFound ''run'' i))"
proof -
  have ok: "runs_ok s" using assms(1) by (simp add: memory_ok_def)
  obtain u e where sv: "ServeHTTP h E r a =
      Some (case caller_of E A r (api_auth a) of
         Rejected \<Rightarrow> ((entered a)\<lparr>api_auth := u\<rparr>,
           writeError ((stamped a r)\<lparr>rq_PathValue := (\<lambda>_. [])(''id'' := i)\<rparr>) e (first_response h r a))
       | c \<Rightarrow> ((entered a)\<lparr>api_auth := u\<rparr>,
           found_answer ((stamped a r)\<lparr>rq_PathValue := (\<lambda>_. [])(''id'' := i)\<rparr>)
             (if sees c s i then run_resource s rest i else None) (first_response h r a)))"
    "er_HTTPStatus e = 401"
    using serve_run_read [OF assms] by blast
  define c where "c = caller_of E A r (api_auth a)"
  have some: "\<exists>j. run_resource s rest i = Some j" if "sees c s i"
  proof -
    have "mr_runs s i \<noteq> None" using that by (auto simp: sees_def public_run_def owned_by_def split: caller.splits)
    with runs_okD(2,3) [OF ok] rest show ?thesis by (auto simp: run_resource_def)
  qed
  show ?thesis
  proof (cases c)
    case Rejected
    with sv assms(9) show ?thesis by (auto simp: c_def error_body_def)
  next
    case Anonymous
    with sv(1) some assms(9) show ?thesis
      by (cases "sees Anonymous s i") (auto simp: c_def [symmetric] found_answer_def error_body_def)
  next
    case (Member m)
    with sv(1) some assms(9) show ?thesis
      by (cases "sees (Member m) s i") (auto simp: c_def [symmetric] found_answer_def error_body_def)
  qed
qed

lemma serve_stream:
  assumes "rq_Method r = ''GET''" and "rq_Segments r = [''v1'', ''runs'', i, ''events'']" and "i \<noteq> []"
    and "Contains (header_get r ''Accept'') ''text/event-stream''"
  shows "ServeHTTP h E r a = eventStream h E ((stamped a r)\<lparr>rq_PathValue := (\<lambda>_. [])(''id'' := i)\<rparr>) i
    (entered a, first_response h r a)"
  using ServeHTTP_get [OF assms(1) route_run(3) [OF assms(1,3,2)], of h E a] assms(4)
  by (simp add: serve_route_def HttpServer.events_def)

text \<open>
  C10. With an authentication service, a run, its events and its report are answered exactly to
  those who may see them: a run no project owns to a request without a session cookie, and a
  project's run to a session of that project.  To every other valid caller the run does not exist, whether
  another project owns it or nobody has made it: the answers are the same 404 for the
  identifier they asked for, or the same refusal of a malformed \<^verbatim>\<open>Last-Event-ID\<close>.  A session that is
  not valid is a 401, whatever the run.  Events asked for as a stream are scoped in the same way: no
  stream is opened for a caller who may not see the run, and a stream sends only events of that run
  from states in which its caller sees it, over all later readings; with a position within the log it
  is a 200 when the connection can stream.  Reading changes no run.
\<close>

theorem run_reads_scoped:
  assumes "memory_ok s" and "hd_engine h = memory_port C it" and "cf_Auth (hd_config h) = Some A"
    and "rq_Method r = ''GET''" and "rq_Segments r = [''v1'', ''runs'', i] @ rest"
    and "rest \<in> {[], [''report''], [''events'']}" and "i \<noteq> []" and "api_repo a = s"
    and "\<And>n. memory_ok (he_later E n)" and "c = caller_of E A r (api_auth a)"
    and "streaming \<longleftrightarrow> rest = [''events''] \<and> Contains (header_get r ''Accept'') ''text/event-stream''"
    and "after = parseLastEventID (rq_Header r ''Last-Event-ID'')"
    and "missing = (case after of Inl e \<Rightarrow> if streaming then e else NotFound ''run'' i
      | Inr l \<Rightarrow> NotFound ''run'' i)"
  shows "(c = Rejected \<longrightarrow>
      (\<exists>a' w e. ServeHTTP h E r a = Some (a', w) \<and> api_repo a' = s \<and> rs_Status w = 401 \<and>
         rs_Body w = error_body (stamped a r) e)) \<and>
    (c \<noteq> Rejected \<and> \<not> sees c s i \<longrightarrow>
      (\<exists>a' w. ServeHTTP h E r a = Some (a', w) \<and> api_repo a' = s \<and> rs_Status w = er_HTTPStatus missing \<and>
         rs_Body w = error_body (stamped a r) missing)) \<and>
    (sees c s i \<and> \<not> streaming \<longrightarrow>
      (\<exists>a' w j. ServeHTTP h E r a = Some (a', w) \<and> api_repo a' = s \<and> rs_Status w = 200 \<and>
         run_resource s rest i = Some j \<and> rs_Body w = [CJson j])) \<and>
    (sees c s i \<and> streaming \<longrightarrow>
      (\<forall>a' w. ServeHTTP h E r a = Some (a', w) \<longrightarrow> api_repo a' = s \<and>
         (\<forall>e. CFrame (FEvent e) \<in> set (rs_Body w) \<longrightarrow> e \<in> seen_events c i (insert s (range (he_later E)))) \<and>
         (\<forall>l. after = Inr l \<and> l \<le> int (length (the (mr_events s i))) \<and> he_flusher E \<and> he_io E 0 \<longrightarrow>
            rs_Status w = 200)))"
proof (cases streaming)
  case False
  then have missing: "missing = NotFound ''run'' i"
    using assms(13) by (simp split: sum.splits)
  have accept: "rest = [''events''] \<Longrightarrow> \<not> Contains (header_get r ''Accept'') ''text/event-stream''"
    using False assms(11) by simp
  have "\<not> sees Rejected s i" by (simp add: sees_def)
  then show ?thesis
    using run_read_plain [OF assms(1-7) accept assms(8), of E, folded assms(10)] False missing
    by (cases "c = Rejected"; cases "sees c s i"; auto)
next
  case True
  let ?r = "(stamped a r)\<lparr>rq_PathValue := (\<lambda>_. [])(''id'' := i)\<rparr>"
  let ?x = "(entered a, first_response h r a)"
  have serve: "ServeHTTP h E r a = eventStream h E ?r i ?x"
    using True assms(5,11) by (intro serve_stream assms) simp_all
  have x: "api_repo (fst ?x) = s" "rs_Body (snd ?x) = []" "api_auth (fst ?x) = api_auth a"
    using assms(8) by simp_all
  have caller: "caller_of E A ?r (api_auth (fst ?x)) = c"
    unfolding assms(10) x(3) by (rule caller_of_cong) simp
  have body: "error_body ?r e = error_body (stamped a r) e" for e
    by (simp add: error_body_def)
  have header: "rq_Header ?r ''Last-Event-ID'' = rq_Header r ''Last-Event-ID''" by simp
  have missing: "missing = (case parseLastEventID (rq_Header ?r ''Last-Event-ID'') of Inl e \<Rightarrow> e | Inr l \<Rightarrow> NotFound ''run'' i)"
    unfolding header assms(12,13) using True by (simp split: sum.splits)
  have status: "er_HTTPStatus missing \<noteq> 0"
    unfolding missing by (auto simp: parseLastEventID_def invalid_last_event_id_def Let_def split: sum.splits option.splits if_splits)
  note rejected = eventStream_rejected [OF assms(2,3), of E ?r ?x i, unfolded caller serve [symmetric] body x(1)]
  note unseen = eventStream_unseen [OF assms(2,3) caller _ _ x(2) missing, unfolded serve [symmetric] body x(1)]
  note seen = eventStream_seen [OF assms(2,3) caller, of i, unfolded serve [symmetric] x(1) header assms(12) [symmetric],
      OF _ assms(1,9) x(2)]
  have none: "\<not> sees Rejected s i" by (simp add: sees_def)
  consider (rejected) "c = Rejected" | (unseen) "c \<noteq> Rejected" "\<not> sees c s i" | (seen) "c \<noteq> Rejected" "sees c s i"
    by blast
  then show ?thesis
  proof cases
    case c: rejected
    from rejected [OF c x(2)] obtain a' w e where "ServeHTTP h E r a = Some (a', w)" "api_repo a' = s"
        "rs_Status w = 401" "rs_Body w = error_body (stamped a r) e"
      by auto
    with c none show ?thesis by auto
  next
    case c: unseen
    from unseen [OF this] status obtain a' w where "ServeHTTP h E r a = Some (a', w)" "api_repo a' = s"
        "rs_Status w = er_HTTPStatus missing" "rs_Body w = error_body (stamped a r) missing"
      by auto
    with c show ?thesis by auto
  next
    case c: seen
    have "ServeHTTP h E r a = Some (a', w) \<Longrightarrow> api_repo a' = s \<and>
        (\<forall>e. CFrame (FEvent e) \<in> set (rs_Body w) \<longrightarrow> e \<in> seen_events c i (insert s (range (he_later E)))) \<and>
        (\<forall>l. after = Inr l \<and> l \<le> int (length (the (mr_events s i))) \<and> he_flusher E \<and> he_io E 0 \<longrightarrow>
          rs_Status w = 200)" for a' w
      using seen [OF c(2), of "(a', w)"] by simp
    with c True show ?thesis by blast
  qed
qed

end
