(* ===== verification/HttpAnswers.thy ===== *)
theory HttpAnswers
  imports HttpSpec
begin

text \<open>
  The shape of every answer of the HTTP interface: an error is a JSON object under the status it names and
  with the identifier of the request, unless the mux found no route and answers in plain text, and no
  handler touches the headers that every response starts with.
\<close>

subsection \<open>Errors of the services\<close>

definition http_error :: "Error \<Rightarrow> bool" where
  "http_error e \<longleftrightarrow> 400 \<le> er_HTTPStatus e \<and> er_HTTPStatus e < 600"

lemma http_error_simps [simp]:
  "http_error (Invalid c m p)" "http_error (NotFound r i)" "http_error (Conflict c m p)"
  "http_error (Internal c m)" "http_error (Unauthorized c m)" "http_error (Forbidden c m)"
  "http_error auth_not_configured" "http_error rate_limit_exceeded" "http_error webhook_not_configured"
  "http_error unavailable" "http_error connection_storage_not_configured"
  "http_error stripe_payment_intent_failed" "http_error idempotency_conflict"
  by (simp_all add: http_error_def auth_not_configured_def rate_limit_exceeded_def webhook_not_configured_def
      unavailable_def connection_storage_not_configured_def stripe_payment_intent_failed_def
      idempotency_conflict_def)

lemma session_error: "AuthService_Session H A now token u = (u', Inl e) \<Longrightarrow> http_error e"
  using AuthService_Session_unauthorized [of H A now token u u' e] by (simp add: http_error_def)

named_theorems service_errors \<open>the errors of the services are errors of HTTP\<close>

definition fine :: "Error + 'v \<Rightarrow> bool" where
  "fine y \<longleftrightarrow> (case y of Inl e \<Rightarrow> http_error e | Inr _ \<Rightarrow> True)"

lemma fine_simps [simp]: "fine (Inr v)" "fine (Inl e) = http_error e"
  by (simp_all add: fine_def)

lemma create_or_replay_fine:
  "create_or_replay replay create nextID scn f kh rh s = Some (s', y) \<Longrightarrow> fine y"
  by (auto simp: create_or_replay_def Let_def split: prod.splits sum.splits bool.splits if_splits option.splits)

lemma createRun_fine [service_errors]: "createRun C R now p scn f key body s = Some (s', y) \<Longrightarrow> fine y"
  by (auto simp: createRun_def Let_def split: if_splits option.splits dest: create_or_replay_fine)

lemma service_create_fine [service_errors]:
  "Service_CreateRun C R now scn f key body s = Some (s', y) \<Longrightarrow> fine y"
  "Service_CreateRunForProject C R now p scn f key body s = Some (s', y) \<Longrightarrow> fine y"
  by (auto simp: Service_CreateRun_def Service_CreateRunForProject_def split: if_splits dest: createRun_fine)

lemma store_payment_fine: "store_payment_run create kh rh b sg = (sg', y) \<Longrightarrow> fine y"
  by (auto simp: store_payment_run_def split: prod.splits sum.splits if_splits)

lemma pay_and_store_fine: "pay_and_store C A gw c nextID create now conn amt cur key rh sg = Some (sg', y) \<Longrightarrow> fine y"
  by (auto simp: pay_and_store_def split: prod.splits sum.splits if_splits option.splits dest: store_payment_fine)

lemma replay_or_pay_fine:
  "replay_or_pay C A gw c replay create load nextID now cid amt cur key rh sg = Some (sg', y) \<Longrightarrow> fine y"
  by (auto simp: replay_or_pay_def split: prod.splits sum.splits bool.splits if_splits dest: pay_and_store_fine)

lemma createPayment_fine:
  "createPaymentIntentRun C A S now p cid amt cur key body sg = Some (sg', y) \<Longrightarrow> fine y"
  by (auto simp: createPaymentIntentRun_def Let_def split: option.splits if_splits dest: replay_or_pay_fine)

lemma service_payment_fine [service_errors]:
  "CreatePaymentIntentRun C A S now cid amt cur key body sg = Some (sg', y) \<Longrightarrow> fine y"
  "CreatePaymentIntentRunForProject C A S now p cid amt cur key body sg = Some (sg', y) \<Longrightarrow> fine y"
  by (auto simp: CreatePaymentIntentRun_def CreatePaymentIntentRunForProject_def split: if_splits
      dest: createPayment_fine)

lemma validateConnection_fine:
  "validateConnection A S now ub nb p secret name sg = (sg', y) \<Longrightarrow> fine y"
  by (auto simp: validateConnection_def Let_def split: option.splits sum.splits prod.splits if_splits)

lemma service_validate_fine [service_errors]:
  "ValidateConnection A S now ub nb secret name sg = (sg', y) \<Longrightarrow> fine y"
  "ValidateConnectionForProject A S now ub nb p secret name sg = (sg', y) \<Longrightarrow> fine y"
  by (auto simp: ValidateConnection_def ValidateConnectionForProject_def split: if_splits
      dest: validateConnection_fine)

lemma validateCredentials_fine: "validateCredentials H email pw = Inl e \<Longrightarrow> http_error e"
  by (auto simp: validateCredentials_def Let_def split: if_splits)

lemma store_registration_fine: "store_registration R reg n t s = (s', y) \<Longrightarrow> fine y"
  by (auto simp: store_registration_def split: prod.splits sum.splits if_splits)

lemma start_session_fine: "start_session H R c now rnd i s = (s', y) \<Longrightarrow> fine y"
  by (auto simp: start_session_def Let_def split: prod.splits sum.splits)

lemma found_or_fine: "found_or f m z = (s', y) \<Longrightarrow> http_error f \<Longrightarrow> http_error m \<Longrightarrow> fine y"
  by (auto simp: found_or_def split: prod.splits sum.splits if_splits)

lemma all_or_fine: "all_or f z = (s', y) \<Longrightarrow> http_error f \<Longrightarrow> fine y"
  by (auto simp: all_or_def split: prod.splits sum.splits)

lemma settings_fine [service_errors]:
  "AuthService_Project R p s = (s', y1) \<Longrightarrow> fine y1"
  "AuthService_UpdateProject R i name d s = (s', y1) \<Longrightarrow> fine y1"
  "AuthService_Environments R p s = (s', y2) \<Longrightarrow> fine y2"
  "AuthService_SelectEnvironment R i e s = (s', y3) \<Longrightarrow> fine y3"
  "AuthService_Findings R p st s = (s', y4) \<Longrightarrow> fine y4"
  "AuthService_SetFindingResolved R i f b s = (s', y5) \<Longrightarrow> fine y5"
  "AuthService_Notifications R p s = (s', y6) \<Longrightarrow> fine y6"
  "AuthService_MarkNotificationRead R now i n s = (s', y7) \<Longrightarrow> fine y7"
  "AuthService_MarkAllNotificationsRead R now i s = (s', y8) \<Longrightarrow> fine y8"
  "AuthService_Connections R p s = (s', y9) \<Longrightarrow> fine y9"
  by (auto simp: AuthService_Project_def AuthService_UpdateProject_def AuthService_Environments_def
      AuthService_SelectEnvironment_def AuthService_Findings_def AuthService_SetFindingResolved_def
      AuthService_Notifications_def AuthService_MarkNotificationRead_def AuthService_MarkAllNotificationsRead_def
      AuthService_Connections_def Let_def split: if_splits dest: found_or_fine all_or_fine)

lemma register_fine [service_errors]:
  assumes "AuthService_Register H A now rnd email pw org proj s = (s', y)"
  shows "fine y"
proof (cases "(au_repo A, au_cipher A)")
  case (Pair R c)
  with assms show ?thesis
    by (auto simp: AuthService_Register_def validateCredentials_fine
        split: option.splits sum.splits prod.splits if_splits dest: store_registration_fine)
qed

lemma login_fine [service_errors]:
  "AuthService_Login H A now rnd email pw s = (s', y) \<Longrightarrow> fine y"
  by (auto simp: AuthService_Login_def Let_def split: option.splits prod.splits if_splits dest: start_session_fine)

subsection \<open>Answers\<close>

definition handler_headers :: "string set" where
  "handler_headers = {''Content-Type'', ''Retry-After'', ''Idempotent-Replayed'', ''Connection'',
     ''X-Accel-Buffering'', ''Allow''}"

definition decorates :: "Response \<Rightarrow> Response \<Rightarrow> bool" where
  "decorates w w1 \<longleftrightarrow> rs_Status w1 = rs_Status w \<and> rs_Body w1 = rs_Body w \<and>
     (\<forall>k. k \<notin> handler_headers \<longrightarrow> rs_Header w1 k = rs_Header w k)"

fun error_of :: "Json \<Rightarrow> Error option" where
  "error_of (JObject [(k, JError e)]) = (if k = ''error'' then Some e else None)"
| "error_of j = None"

inductive answers :: "Request \<Rightarrow> Response \<Rightarrow> Response \<Rightarrow> bool" for r w where
  plain: "decorates w w1 \<Longrightarrow> answers r w w1"
| refused: "decorates w w1 \<Longrightarrow> http_error e \<Longrightarrow> answers r w (writeError r e w1)"
| json: "decorates w w1 \<Longrightarrow> error_of v = None \<Longrightarrow> n \<in> {200, 201} \<Longrightarrow> answers r w (writeJSON n v w1)"
| status: "decorates w w1 \<Longrightarrow> answers r w (WriteHeader 204 w1)"
| unrouted: "decorates w w1 \<Longrightarrow> find_route r = None \<Longrightarrow> n \<in> {404, 405} \<Longrightarrow>
    answers r w (http_Error msg n w1)"
| stream: "decorates w w1 \<Longrightarrow>
    answers r w ((WriteHeader 200 w1)\<lparr>rs_Body := rs_Body w1 @ map CFrame fs\<rparr>)"

lemma decorates_refl [simp]: "decorates w w"
  by (simp add: decorates_def)

lemma decorates_steps [simp]:
  "k \<in> handler_headers \<Longrightarrow> decorates w w1 \<Longrightarrow> decorates w (set_header k v w1)"
  "decorates w w1 \<Longrightarrow> decorates w (setSessionCookie h t d w1)"
  "decorates w w1 \<Longrightarrow> decorates w (clearSessionCookie h w1)"
  by (auto simp: decorates_def set_header_def setSessionCookie_def clearSessionCookie_def)

lemma handler_headers_mem [simp]:
  "''Content-Type'' \<in> handler_headers" "''Retry-After'' \<in> handler_headers"
  "''Idempotent-Replayed'' \<in> handler_headers" "''Connection'' \<in> handler_headers"
  "''X-Accel-Buffering'' \<in> handler_headers" "''Allow'' \<in> handler_headers"
  by (simp_all add: handler_headers_def)

lemma answers_same [simp]: "answers r w w"
  by (rule answers.plain) simp

lemma answers_error [simp]: "http_error e \<Longrightarrow> answers r (snd x) (snd (conn_error r e y))" if "decorates (snd x) (snd y)"
  using that by (simp add: conn_error_def answers.refused)

lemma answers_writeError [simp]: "http_error e \<Longrightarrow> decorates w w1 \<Longrightarrow> answers r w (writeError r e w1)"
  by (rule answers.refused)

lemma answers_json [simp]:
  "error_of v = None \<Longrightarrow> decorates w w1 \<Longrightarrow> answers r w (writeJSON 200 v w1)"
  "error_of v = None \<Longrightarrow> decorates w w1 \<Longrightarrow> answers r w (writeJSON 201 v w1)"
  by (rule answers.json; simp)+

lemma answers_status [simp]: "decorates w w1 \<Longrightarrow> answers r w (WriteHeader 204 w1)"
  by (rule answers.status)

lemma answers_unrouted [simp]:
  "decorates w w1 \<Longrightarrow> find_route r = None \<Longrightarrow> answers r w (http_Error msg 404 w1)"
  "decorates w w1 \<Longrightarrow> find_route r = None \<Longrightarrow> answers r w (http_Error msg 405 w1)"
  by (rule answers.unrouted; simp)+

lemma error_of_list [simp]: "error_of (list_json xs) = None" "error_of (connection_json c) = None"
  by (simp_all add: list_json_def connection_json_def)

lemma decode_answers:
  "decodeJSONBody decode single r w = Inl w' \<Longrightarrow> answers r w w'"
  by (auto simp: decodeJSONBody_def split: sum.splits option.splits if_splits)

lemma requireSession_answers:
  "requireSession h E r x = (x1, None) \<Longrightarrow> answers r (snd x) (snd x1)"
  "requireSession h E r x = (x1, Some i) \<Longrightarrow> snd x1 = snd x"
  by (auto simp: requireSession_def load_session_def split: option.splits if_splits prod.splits sum.splits
      dest: session_error)

lemma optionalSession_answers:
  assumes "optionalSession A E r x = (x1, c)"
  shows "c = None \<Longrightarrow> answers r (snd x) (snd x1)" and "c \<noteq> None \<Longrightarrow> snd x1 = snd x"
proof -
  from assms have "(c = None \<longrightarrow> answers r (snd x) (snd x1)) \<and> (c \<noteq> None \<longrightarrow> snd x1 = snd x)"
  proof (cases rule: optionalSession_caller)
    case (3 u e)
    from 3(4) have "http_error e" by (simp add: http_error_def)
    with 3(2,3) show ?thesis by simp
  qed simp_all
  then show "c = None \<Longrightarrow> answers r (snd x) (snd x1)" and "c \<noteq> None \<Longrightarrow> snd x1 = snd x" by blast+
qed

lemma fine_error: "fine (Inl e) \<Longrightarrow> http_error e"
  by simp

lemma register_answers: "register h E r x = Some x' \<Longrightarrow> answers r (snd x) (snd x')"
  by (auto simp: register_def split: option.splits sum.splits prod.splits
      dest: decode_answers register_fine)

lemma login_answers: "login h E r x = Some x' \<Longrightarrow> answers r (snd x) (snd x')"
  by (auto simp: login_def Let_def split: option.splits sum.splits prod.splits if_splits
      dest: decode_answers login_fine)

lemma logout_answers: "logout h E r x = Some x' \<Longrightarrow> answers r (snd x) (snd x')"
  by (auto simp: logout_def split: option.splits sum.splits prod.splits)

lemma session_answers: "session h E r x = Some x' \<Longrightarrow> answers r (snd x) (snd x')"
  by (auto simp: session_def split: option.splits prod.splits dest: requireSession_answers)

lemma with_session_answers:
  assumes "with_session h E r f x = Some x'"
    and "\<And>R i y. answers r (snd y) (snd (f R i y))"
  shows "answers r (snd x) (snd x')"
  using assms(1) assms(2)
  by (auto simp: with_session_def split: option.splits prod.splits dest: requireSession_answers)

lemma answer_answers:
  assumes "fine (snd y)" and "\<And>v. error_of (json v) = None"
  shows "answers r (snd x) (snd (answer r json x y))"
  using assms by (cases y; cases "snd y") (auto simp: answer_def)

lemmas settings_results = settings_fine [OF surjective_pairing]

lemma settings_answers:
  "projectSettings h E r x = Some x' \<Longrightarrow> answers r (snd x) (snd x')"
  "updateProjectSettings h E r x = Some x' \<Longrightarrow> answers r (snd x) (snd x')"
  "environments h E r x = Some x' \<Longrightarrow> answers r (snd x) (snd x')"
  "selectEnvironment h E r x = Some x' \<Longrightarrow> answers r (snd x) (snd x')"
  "findings h E r x = Some x' \<Longrightarrow> answers r (snd x) (snd x')"
  "setFindingResolution h E b r x = Some x' \<Longrightarrow> answers r (snd x) (snd x')"
  "notifications h E r x = Some x' \<Longrightarrow> answers r (snd x) (snd x')"
  "readNotification h E r x = Some x' \<Longrightarrow> answers r (snd x) (snd x')"
  "readAllNotifications h E r x = Some x' \<Longrightarrow> answers r (snd x) (snd x')"
  "connections h E r x = Some x' \<Longrightarrow> answers r (snd x) (snd x')"
  unfolding projectSettings_def updateProjectSettings_def environments_def selectEnvironment_def findings_def
    setFindingResolution_def notifications_def readNotification_def readAllNotifications_def connections_def
  by (erule with_session_answers,
      auto split: sum.splits simp: settings_results intro: answer_answers decode_answers)+

text \<open>The answer that creates a run, and the ones that may follow a session.\<close>

lemma answer_run_answers: "fine y \<Longrightarrow> snd x = w \<Longrightarrow> answers r w (snd (answer_run r x y))"
  by (auto simp: answer_run_def split: sum.splits prod.splits)

lemma requireSession_shape:
  assumes "requireSession h E r x = (x1, c)"
  shows "c = None \<Longrightarrow> answers r (snd x) (snd x1)" and "c \<noteq> None \<or> cf_Auth (hd_config h) = None \<Longrightarrow> snd x1 = snd x"
  using assms requireSession_answers [of h E r x x1] by (auto simp: requireSession_def)

lemma validate_answers:
  assumes "validateStripeConnection h E r x = Some x'"
  shows "answers r (snd x) (snd x')"
proof -
  obtain x1 c where rs: "requireSession h E r x = (x1, c)" by fastforce
  note eq = assms [unfolded validateStripeConnection_def rs prod.case]
  show ?thesis
  proof (cases "c = None \<and> cf_Auth (hd_config h) \<noteq> None")
    case True
    with eq requireSession_shape(1) [OF rs] show ?thesis by simp
  next
    case False
    then have "snd x1 = snd x" using requireSession_shape(2) [OF rs] by auto
    with eq False show ?thesis
      by (auto simp: Let_def split: sum.splits option.splits prod.splits if_splits
          dest: decode_answers service_validate_fine)
  qed
qed

lemma payment_answers:
  assumes "createStripePaymentIntentRun h E r x = Some x'"
  shows "answers r (snd x) (snd x')"
proof -
  obtain x1 c where rs: "requireSession h E r x = (x1, c)" by fastforce
  note eq = assms [unfolded createStripePaymentIntentRun_def rs prod.case]
  show ?thesis
  proof (cases "c = None \<and> cf_Auth (hd_config h) \<noteq> None")
    case True
    with eq requireSession_shape(1) [OF rs] show ?thesis by simp
  next
    case False
    then have w: "snd x1 = snd x" using requireSession_shape(2) [OF rs] by auto
    with eq False w show ?thesis
      by (auto simp: Let_def answer_run_answers split: sum.splits option.splits prod.splits if_splits
          dest: decode_answers service_payment_fine)
  qed
qed

lemma overview_answers: "overview h x = Some x' \<Longrightarrow> answers r (snd x) (snd x')"
  by (auto simp: overview_def split: prod.splits)

lemma fixed_answers:
  "health x = Some x' \<Longrightarrow> answers r (snd x) (snd x')" "scenarios x = Some x' \<Longrightarrow> answers r (snd x) (snd x')"
  by (auto simp: health_def scenarios_def)

lemma runs_answers:
  assumes "runs h E r x = Some x'"
  shows "answers r (snd x) (snd x')"
proof (cases "cf_Auth (hd_config h)")
  case None
  with assms show ?thesis by (auto simp: runs_def split: prod.splits)
next
  case (Some A)
  obtain x1 c where o: "optionalSession A E r x = (x1, c)" by fastforce
  note shape = optionalSession_answers [OF o]
  show ?thesis
    using assms Some o shape by (cases c) (auto simp: runs_def split: prod.splits)
qed

lemma create_run_as_answers: "create_run_as h E r c x = Some x' \<Longrightarrow> answers r (snd x) (snd x')"
  by (auto simp: create_run_as_def answer_run_answers split: sum.splits option.splits prod.splits if_splits
      dest!: service_create_fine)

lemma createRun_answers:
  assumes "createRun_handler h E r x = Some x'"
  shows "answers r (snd x) (snd x')"
proof (cases "cf_Auth (hd_config h)")
  case None
  with assms show ?thesis by (auto simp: createRun_handler_def dest: create_run_as_answers)
next
  case (Some A)
  obtain x1 c where o: "optionalSession A E r x = (x1, c)" by fastforce
  note shape = optionalSession_answers [OF o]
  show ?thesis
    using assms Some o shape create_run_as_answers [of h E r _ x1 x']
    by (cases c) (auto simp: createRun_handler_def)
qed

lemma scoped_read_answers:
  assumes "\<And>v. error_of (json v) = None"
  shows "answers r (snd x) (snd (scoped_read h E r json all project public x))"
proof (cases "cf_Auth (hd_config h)")
  case None
  then show ?thesis using assms by (auto simp: scoped_read_def Let_def split: prod.splits)
next
  case (Some A)
  obtain x1 c where o: "optionalSession A E r x = (x1, c)" by fastforce
  note shape = optionalSession_answers [OF o]
  show ?thesis
  proof (cases c)
    case None
    with Some o shape show ?thesis by (simp add: scoped_read_def)
  next
    case c: (Some d)
    with shape have w: "snd x1 = snd x" by simp
    show ?thesis
      using Some o c w assms by (cases d) (auto simp: scoped_read_def Let_def split: prod.splits)
  qed
qed

lemma read_answers:
  "run_handler h E r x = Some x' \<Longrightarrow> answers r (snd x) (snd x')"
  "report h E r x = Some x' \<Longrightarrow> answers r (snd x) (snd x')"
  by (auto simp: run_handler_def HttpApi.report_def Let_def intro: scoped_read_answers)

lemma eventReader_answers:
  assumes "eventReader h E r i x = (x1, c)"
  shows "c = None \<Longrightarrow> answers r (snd x) (snd x1)" and "c \<noteq> None \<Longrightarrow> snd x1 = snd x"
proof -
  have "(c = None \<longrightarrow> answers r (snd x) (snd x1)) \<and> (c \<noteq> None \<longrightarrow> snd x1 = snd x)"
  proof (cases "cf_Auth (hd_config h)")
    case None
    with assms show ?thesis by (auto simp: eventReader_def)
  next
    case (Some A)
    obtain x2 d where o: "optionalSession A E r x = (x2, d)" by fastforce
    from optionalSession_answers [OF o] assms Some o show ?thesis
      by (auto simp: eventReader_def split: option.splits)
  qed
  then show "c = None \<Longrightarrow> answers r (snd x) (snd x1)" and "c \<noteq> None \<Longrightarrow> snd x1 = snd x" by blast+
qed

lemma start_stream_answers:
  assumes "start_stream h E r i reader l b x = Some x'"
  shows "answers r (snd x) (snd x')"
proof -
  define w where "w = set_header ''X-Accel-Buffering'' ''no'' (set_header ''Connection'' ''keep-alive''
      (set_header ''Content-Type'' ''text/event-stream'' (snd x)))"
  have d: "decorates (snd x) w" by (simp add: w_def)
  note eq = assms [unfolded start_stream_def Let_def, folded w_def]
  show ?thesis
  proof (cases "he_io E 0")
    case False
    with eq d show ?thesis by auto
  next
    case True
    with eq obtain fs where "snd x' = (WriteHeader 200 w)\<lparr>rs_Body := rs_Body w @ map CFrame fs\<rparr>"
      by (auto simp: WriteHeader_def split: option.splits)
    then show ?thesis using answers.stream [OF d] by simp
  qed
qed

lemma invalid_last_event_id_error: "parseLastEventID vs = Inl e \<Longrightarrow> http_error e"
  by (auto simp: parseLastEventID_def invalid_last_event_id_def Let_def split: if_splits option.splits)

lemma eventStream_answers:
  assumes "eventStream h E r i x = Some x'"
  shows "answers r (snd x) (snd x')"
proof -
  obtain x1 c where o: "eventReader h E r i x = (x1, c)" by fastforce
  note shape = eventReader_answers [OF o]
  show ?thesis
  proof (cases c)
    case None
    with assms o shape show ?thesis by (simp add: eventStream_def)
  next
    case (Some reader)
    with shape have w: "snd x1 = snd x" by simp
    note eq = assms [unfolded eventStream_def o prod.case Some option.case]
    show ?thesis
    proof (cases "parseLastEventID (rq_Header r ''Last-Event-ID'')")
      case (Inl e)
      with eq w invalid_last_event_id_error [OF Inl] show ?thesis by auto
    next
      case (Inr l)
      obtain s y where y: "reader l batchSize (api_repo (fst x1)) = (s, y)" by fastforce
      let ?x = "((fst x1)\<lparr>api_repo := s\<rparr>, snd x1)"
      note eq2 = eq [unfolded Inr sum.case y prod.case Let_def]
      show ?thesis
      proof (cases y)
        case (Inl e)
        with eq2 w show ?thesis by auto
      next
        case (Inr p)
        obtain b ok where p: "p = (b, ok)" by (cases p)
        show ?thesis
        proof (cases "ok \<and> \<not> eb_HighWater b < l \<and> he_flusher E")
          case True
          with eq2 Inr p have "start_stream h E r i reader l b ?x = Some x'" by simp
          from start_stream_answers [OF this] w show ?thesis by simp
        next
          case False
          with eq2 Inr p w show ?thesis by (auto split: if_splits)
        qed
      qed
    qed
  qed
qed

lemma record_event_answers: "answers r (snd x) (snd (record_event h E r body x))"
  by (auto simp: record_event_def Let_def split: option.splits prod.splits sum.splits)

lemma webhook_answers: "webhook h E r x = Some x' \<Longrightarrow> answers r (snd x) (snd x')"
  by (auto simp: webhook_def Let_def record_event_answers split: sum.splits if_splits)

lemma events_answers: "events h E r x = Some x' \<Longrightarrow> answers r (snd x) (snd x')"
  by (auto simp: HttpServer.events_def Let_def intro: scoped_read_answers eventStream_answers split: if_splits)

lemma serve_route_answers: "serve_route h E t r x = Some x' \<Longrightarrow> answers r (snd x) (snd x')"
  by (cases t)
    (auto simp: serve_route_def resolveFinding_def reopenFinding_def
      intro: fixed_answers register_answers login_answers logout_answers session_answers settings_answers
        overview_answers runs_answers createRun_answers payment_answers validate_answers read_answers
        events_answers webhook_answers)

lemma answers_routed: "answers (r\<lparr>rq_PathValue := vals\<rparr>) w w' \<Longrightarrow> answers r w w'"
proof (induction rule: answers.induct)
  case (refused w1 e)
  have "writeError (r\<lparr>rq_PathValue := vals\<rparr>) e w1 = writeError r e w1"
    by (simp add: writeError_def)
  with refused show ?case by simp
next
  case (unrouted w1 n msg)
  moreover have "find_route (r\<lparr>rq_PathValue := vals\<rparr>) = find_route r"
    by (simp add: find_route_def cong: option.case_cong)
  ultimately show ?case by (simp add: answers.unrouted)
qed (auto intro: answers.intros)

lemma mux_answers: "mux_serve h E r x = Some x' \<Longrightarrow> answers r (snd x) (snd x')"
  by (auto simp: mux_serve_def split: option.splits if_splits dest!: serve_route_answers
      intro: answers_routed)

subsection \<open>Every request\<close>

definition common_ok :: "('s, 'g, 'a) Handler \<Rightarrow> Request \<Rightarrow> string \<Rightarrow> Response \<Rightarrow> bool" where
  "common_ok h r requestID w \<longleftrightarrow>
     rs_Header w ''X-Request-ID'' = Some requestID \<and>
     rs_Header w ''X-Content-Type-Options'' = Some ''nosniff'' \<and>
     rs_Header w ''Referrer-Policy'' = Some ''no-referrer'' \<and>
     rs_Header w ''Cache-Control'' = Some ''no-store'' \<and> rs_Header w ''Vary'' = Some ''Origin'' \<and>
     rs_Header w ''Access-Control-Allow-Methods'' = Some ''GET, POST, PATCH, OPTIONS'' \<and>
     rs_Header w ''Access-Control-Allow-Headers'' =
       Some ''Accept, Content-Type, Idempotency-Key, Last-Event-ID, Stripe-Signature'' \<and>
     rs_Header w ''Access-Control-Expose-Headers'' = Some ''Idempotent-Replayed, X-Request-ID'' \<and>
     (if cf_Auth (hd_config h) = None \<or> header_get r ''Origin'' = cf_WebOrigin (hd_config h)
      then rs_Header w ''Access-Control-Allow-Origin'' = Some (cf_WebOrigin (hd_config h)) \<and>
        rs_Header w ''Access-Control-Allow-Credentials'' = Some ''true''
      else rs_Header w ''Access-Control-Allow-Origin'' = None \<and>
        rs_Header w ''Access-Control-Allow-Credentials'' = None)"

text \<open>The one content of an error: JSON, or the plain text of the mux for a request without a route.\<close>

definition error_content :: "Request \<Rightarrow> Response \<Rightarrow> bool" where
  "error_content r w \<longleftrightarrow>
     (\<exists>e. rs_Body w = [CJson (JObject [(''error'', JError e)])]) \<or>
     find_route r = None \<and> rs_Status w \<in> {404, 405} \<and>
     (\<exists>s. rs_Body w = [CText s]) \<and> rs_Header w ''Content-Type'' = Some ''text/plain; charset=utf-8''"

lemma answers_facts:
  assumes "answers r w w'" and "rs_Body w = []" and "rs_Status w = 0"
    and "rs_Header w ''X-Content-Type-Options'' = Some ''nosniff''"
  shows "(\<forall>k. k \<notin> handler_headers \<longrightarrow> rs_Header w' k = rs_Header w k) \<and>
    (\<forall>v e. CJson v \<in> set (rs_Body w') \<and> error_of v = Some e \<longrightarrow>
       rs_Body w' = [CJson v] \<and> rs_Status w' = er_HTTPStatus e \<and> http_error e \<and>
       er_RequestID e = header_get r ''X-ParityLab-Request-ID'' \<and>
       rs_Header w' ''Content-Type'' = Some ''application/json; charset=utf-8'') \<and>
    (400 \<le> rs_Status w' \<longrightarrow> error_content r w')"
  using assms
proof (induction rule: answers.induct)
  case (plain w1)
  then show ?case by (auto simp: decorates_def)
next
  case (refused w1 e)
  have "rs_Header (writeError r e w1) k = rs_Header w1 k" if "k \<notin> handler_headers" for k
    using that by (auto simp: writeError_def writeJSON_def WriteHeader_def set_header_def handler_headers_def Let_def)
  moreover have "rs_Header (writeError r e w1) ''Content-Type'' = Some ''application/json; charset=utf-8''"
    by (simp add: writeError_def writeJSON_def WriteHeader_def set_header_def Let_def)
  ultimately show ?case
    using refused by (auto simp: decorates_def http_error_def error_content_def)
next
  case (json w1 v n)
  have "rs_Header (writeJSON n v w1) k = rs_Header w1 k" if "k \<notin> handler_headers" for k
    using that by (auto simp: writeJSON_def WriteHeader_def set_header_def handler_headers_def Let_def)
  with json show ?case by (auto simp: decorates_def)
next
  case (status w1)
  then show ?case by (auto simp: decorates_def WriteHeader_def)
next
  case (unrouted w1 n msg)
  then show ?case
    by (auto simp: decorates_def http_Error_def WriteHeader_def set_header_def Let_def error_content_def
        handler_headers_def)
next
  case (stream w1 fs)
  then show ?case by (auto simp: decorates_def WriteHeader_def)
qed

text \<open>
  C14. Whatever the request, the repositories, Stripe and the clock do, an answer of the server carries the
  identifier of its request and the headers against sniffing, referrers and caching, and allows
  cross-origin readers with credentials exactly when the origin is the configured one (or there is no
  authentication to protect).  An answer that holds an error object holds nothing else: it is JSON, its
  status is the one the error names, between 400 and 599, and the error repeats the identifier of the
  request.  Every answer with a status from 400 on is such an error, except that a request no route
  matches gets the plain text of the mux under 404 or 405.
\<close>

theorem error_contract:
  assumes "ServeHTTP h E r a = Some (a', w)"
  shows "common_ok h r (request_id ((api_nextID a + 1) mod 2 ^ 64)) w \<and>
    (\<forall>v e. CJson v \<in> set (rs_Body w) \<and> error_of v = Some e \<longrightarrow>
       rs_Body w = [CJson v] \<and> rs_Status w = er_HTTPStatus e \<and> http_error e \<and>
       er_RequestID e = request_id ((api_nextID a + 1) mod 2 ^ 64) \<and>
       rs_Header w ''Content-Type'' = Some ''application/json; charset=utf-8'') \<and>
    (400 \<le> rs_Status w \<longrightarrow> error_content r w)"
proof -
  have id: "request_id ((api_nextID a + 1) mod 2 ^ 64) = request_id (api_nextID (entered a))"
    by (simp add: entered_def)
  have "answers (stamped a r) (first_response h r a) w"
  proof (cases "rq_Method r = ''OPTIONS''")
    case True
    have "ServeHTTP h E r a =
        (if cf_Auth (hd_config h) \<noteq> None \<and> header_get r ''Origin'' \<noteq> cf_WebOrigin (hd_config h)
         then Some (conn_error (stamped a r) (Forbidden ''cors_origin_invalid''
           (Msg ''The request origin is not allowed.'')) (entered a, first_response h r a))
         else Some (entered a, WriteHeader 204 (first_response h r a)))"
      using True by (simp add: ServeHTTP_def Let_def entered_def stamped_def first_response_def header_get_def)
    with assms show ?thesis by (auto simp: conn_error_def split: if_splits)
  next
    case False
    with assms mux_answers [of h E "stamped a r" "(entered a, first_response h r a)"] show ?thesis
      by (auto simp: ServeHTTP_enter conn_error_def split: if_splits)
  qed
  note answered = this
  have "rs_Header (first_response h r a) ''X-Content-Type-Options'' = Some ''nosniff''"
    by (simp add: first_response_def common_headers_def set_header_def empty_response_def Let_def)
  from answers_facts [OF answered _ _ this] have facts:
    "\<forall>k. k \<notin> handler_headers \<longrightarrow> rs_Header w k = rs_Header (first_response h r a) k"
    "\<forall>v e. CJson v \<in> set (rs_Body w) \<and> error_of v = Some e \<longrightarrow>
       rs_Body w = [CJson v] \<and> rs_Status w = er_HTTPStatus e \<and> http_error e \<and>
       er_RequestID e = request_id (api_nextID (entered a)) \<and>
       rs_Header w ''Content-Type'' = Some ''application/json; charset=utf-8''"
    "400 \<le> rs_Status w \<longrightarrow> error_content r w"
    by (simp_all add: error_content_def)
  have "common_ok h r (request_id (api_nextID (entered a))) (first_response h r a)"
    by (simp add: common_ok_def first_response_def common_headers_def set_header_def empty_response_def Let_def)
  then have "common_ok h r (request_id (api_nextID (entered a))) w"
    using facts(1) by (simp add: common_ok_def handler_headers_def)
  with facts(2,3) show ?thesis unfolding id by blast
qed

end
