(* ===== verification/HttpGuards.thy ===== *)
theory HttpGuards
  imports HttpAnswers
begin

text \<open>
  The refusals of the HTTP interface: requests of another origin, webhooks that Stripe did not sign, and
  clients that guess passwords; and what the overview shows to everybody.
\<close>

subsection \<open>Other origins\<close>

text \<open>
  C15. Where authentication is configured, a request of another origin cannot use a session to change
  anything: if it is a preflight, or changes state and carries the session cookie, and is not under
  \<^verbatim>\<open>/hooks/stripe/\<close>, which takes no cookies, it gets a 403 and nothing happened: neither repository, nor Stripe, nor the limiter has been touched and no
  cookie is set; only the request has been numbered.
\<close>

theorem cross_origin_refused:
  assumes "cf_Auth (hd_config h) \<noteq> None" and "header_get r ''Origin'' \<noteq> cf_WebOrigin (hd_config h)"
    and "rq_Method r = ''OPTIONS'' \<or>
      rq_Method r \<notin> {''GET'', ''HEAD''} \<and> has_session_cookie r \<and> \<not> HasPrefix (rq_Path r) ''/hooks/stripe/''"
  shows "\<exists>w e. ServeHTTP h E r a = Some (a\<lparr>api_nextID := (api_nextID a + 1) mod 2 ^ 64\<rparr>, w) \<and>
    rs_Status w = 403 \<and> rs_Cookies w = [] \<and> rs_Body w = [CJson (JObject [(''error'', JError e)])] \<and>
    er_Code e = (if rq_Method r = ''OPTIONS'' then ''cors_origin_invalid'' else ''csrf_origin_invalid'') \<and>
    rs_Header w ''Access-Control-Allow-Origin'' = None"
proof -
  define e where "e = Forbidden (if rq_Method r = ''OPTIONS'' then ''cors_origin_invalid'' else ''csrf_origin_invalid'')
      (Msg ''The request origin is not allowed.'')"
  have served: "ServeHTTP h E r a = Some (conn_error (stamped a r) e (entered a, first_response h r a))"
  proof (cases "rq_Method r = ''OPTIONS''")
    case True
    with assms(1,2) show ?thesis
      by (simp add: ServeHTTP_def Let_def entered_def stamped_def first_response_def header_get_def e_def)
  next
    case False
    with assms show ?thesis by (simp add: ServeHTTP_enter e_def)
  qed
  have cookies: "rs_Cookies (writeError q e (first_response h r a)) = []" for q
    by (simp add: writeError_def writeJSON_def WriteHeader_def set_header_def Let_def first_response_def
        common_headers_def empty_response_def)
  have origin: "rs_Header (writeError q e (first_response h r a)) ''Access-Control-Allow-Origin'' = None" for q
    using assms(1,2)
    by (simp add: writeError_def writeJSON_def WriteHeader_def set_header_def Let_def first_response_def
        common_headers_def empty_response_def)
  have status: "er_HTTPStatus e = 403" by (simp add: e_def)
  show ?thesis
    unfolding served conn_error_def fst_conv snd_conv
    by (intro exI [of _ "writeError (stamped a r) e (first_response h r a)"]
        exI [of _ "e\<lparr>er_RequestID := request_id (api_nextID (entered a))\<rparr>"])
      (simp add: cookies origin status, simp add: e_def Forbidden_def entered_def)
qed

subsection \<open>The overview\<close>

lemma overview_recent:
  "Service_Overview (memory_port C it) r =
     (r, snd (Service_Overview (memory_port C it) r)) \<and>
   ov_RecentRuns (snd (Service_Overview (memory_port C it) r)) =
     take 5 (by_start_desc (by_start_desc (map (get0 zero_Run (mr_runs r)) (it_runs it (mr_runs r)))))"
proof -
  have "r_ListRuns (memory_port C it) r = (r, Inr (by_start_desc (map (get0 zero_Run (mr_runs r)) (it_runs it (mr_runs r)))))"
    by (simp add: memory_port_def reads_def ListRuns_def)
  then show ?thesis
    by (simp add: Service_Overview_def overview_stats_memory Let_def)
qed

lemma route_overview:
  "rq_Method r = ''GET'' \<Longrightarrow> rq_Segments r = [''v1'', ''overview''] \<Longrightarrow> find_route r = Some (ROverview, \<lambda>_. [])"
  by (simp add: find_route_def routes_def method_matches_def)

text \<open>
  C16. The overview is not scoped.  Whoever asks, with a session or without one, is shown the latest runs of
  all projects: while there are at most five runs, every run is in the answer, also to a caller who may
  not see that run by any other request.
\<close>

theorem overview_unscoped:
  assumes "enumerates (it_runs it (mr_runs s)) (mr_runs s)" and "hd_engine h = memory_port C it"
    and "rq_Method r = ''GET''" and "rq_Segments r = [''v1'', ''overview'']" and "api_repo a = s"
    and "card (dom (mr_runs s)) \<le> 5" and "mr_runs s i = Some run"
  shows "\<exists>a' w ov. ServeHTTP h E r a = Some (a', w) \<and> rs_Status w = 200 \<and>
    rs_Body w = [CJson (JOverview ov)] \<and> run \<in> set (ov_RecentRuns ov)"
proof -
  let ?ids = "it_runs it (mr_runs s)"
  let ?runs = "by_start_desc (by_start_desc (map (get0 zero_Run (mr_runs s)) ?ids))"
  obtain ov where ov: "Service_Overview (memory_port C it) s = (s, ov)" "ov_RecentRuns ov = take 5 ?runs"
    using overview_recent [of C it s] by metis
  have "length ?runs \<le> 5"
    using assms(6) enumerates_length [OF assms(1)] by (simp add: by_start_desc_def)
  then have "take 5 ?runs = ?runs" by simp
  moreover have "mset ?runs = mset (map (get0 zero_Run (mr_runs s)) ?ids)"
    by (simp only: mset_by_start_desc)
  then have "set ?runs = set (map (get0 zero_Run (mr_runs s)) ?ids)" by (rule mset_eq_setD)
  moreover have "i \<in> set ?ids" using assms(1,7) by (auto simp: enumerates_def)
  then have "get0 zero_Run (mr_runs s) i \<in> set (map (get0 zero_Run (mr_runs s)) ?ids)" by simp
  ultimately have mem: "run \<in> set (ov_RecentRuns ov)"
    using assms(7) ov(2) by simp
  from ServeHTTP_get [OF assms(3) route_overview [OF assms(3,4)], of h E a] show ?thesis
    using mem ov(1) assms(2,5) by (simp add: serve_route_def overview_def)
qed

subsection \<open>Webhooks\<close>

lemma route_webhook:
  "rq_Method r = ''POST'' \<Longrightarrow> rq_Segments r = [''hooks'', ''stripe'', token] \<Longrightarrow> token \<noteq> [] \<Longrightarrow>
   find_route r = Some (RWebhook, (\<lambda>_. [])(''endpoint_token'' := token))"
  by (simp add: find_route_def routes_def method_matches_def)

text \<open>A delivery that may be recorded: the token, a body that was read, a signature in time, and a sandbox event.\<close>

definition signed_delivery :: "('s, 'g, 'a) Handler \<Rightarrow> 's http_env \<Rightarrow> Request \<Rightarrow> string \<Rightarrow> string \<Rightarrow> stripeEnvelope \<Rightarrow> bool" where
  "signed_delivery h E r token body event \<longleftrightarrow>
     (cf_EndpointToken (hd_config h) = [] \<or> token = cf_EndpointToken (hd_config h)) \<and>
     rq_Body r = Inr body \<and> length body \<le> 2 ^ 20 \<and> cf_WebhookSecret (hd_config h) \<noteq> [] \<and>
     (\<exists>timestamp ts v. has_field (header_get r ''Stripe-Signature'') ''t'' ts \<and> ParseInt 64 ts = Some timestamp \<and>
        \<bar>he_now E 0 - Unix timestamp\<bar> \<le> cf_SignatureMaxAge (hd_config h) \<and>
        has_field (header_get r ''Stripe-Signature'') ''v1'' v \<and>
        hex_decode v = Some (hmac_sha256 (ah_crypto (he_host E)) (cf_WebhookSecret (hd_config h)) (signed_text timestamp body))) \<and>
     he_envelope E body = Some event \<and> sn_ID event \<noteq> [] \<and> sn_Type event \<noteq> [] \<and> \<not> sn_Livemode event"

lemma record_event_cases:
  obtains e where "record_event h E r body x = conn_error r e x" "er_HTTPStatus e = 400"
  | event s y where "he_envelope E body = Some event" "sn_ID event \<noteq> []" "sn_Type event \<noteq> []" "\<not> sn_Livemode event"
      "Service_RecordWebhook (ah_crypto (he_host E)) (he_webhook E) (hd_engine h) (he_now E 1) (sn_ID event)
         (sn_Type event) (rq_PathValue r ''endpoint_token'') body (api_repo (fst x)) = (s, y)"
      "fst (record_event h E r body x) = (fst x)\<lparr>api_repo := s\<rparr>"
      "rs_Status (snd (record_event h E r body x)) = 200 \<longleftrightarrow> (\<exists>d. y = Inr d)"
proof (cases "he_envelope E body")
  case None
  define e where "e = Invalid ''invalid_event'' (Msg ''The signed webhook body is not a valid Stripe event envelope.'') []"
  have "record_event h E r body x = conn_error r e x" by (simp add: record_event_def None e_def)
  moreover have "er_HTTPStatus e = 400" by (simp add: e_def)
  ultimately show ?thesis by (rule that(1))
next
  case (Some event)
  consider (bad) "sn_ID event = [] \<or> sn_Type event = []" | (live) "\<not> (sn_ID event = [] \<or> sn_Type event = [])" "sn_Livemode event"
    | (ok) "sn_ID event \<noteq> []" "sn_Type event \<noteq> []" "\<not> sn_Livemode event" by blast
  then show ?thesis
  proof cases
    case bad
    define e where "e = Invalid ''invalid_event'' (Msg ''The signed webhook body is not a valid Stripe event envelope.'') []"
    have "record_event h E r body x = conn_error r e x" using bad by (simp add: record_event_def Some e_def)
    moreover have "er_HTTPStatus e = 400" by (simp add: e_def)
    ultimately show ?thesis by (rule that(1))
  next
    case live
    define e where "e = Invalid ''live_mode_rejected'' (Msg ''ParityLab v1 accepts Stripe sandbox events only.'') ''livemode''"
    have "record_event h E r body x = conn_error r e x" using live by (simp add: record_event_def Some e_def)
    moreover have "er_HTTPStatus e = 400" by (simp add: e_def)
    ultimately show ?thesis by (rule that(1))
  next
    case ok
    obtain s y where sy: "Service_RecordWebhook (ah_crypto (he_host E)) (he_webhook E) (hd_engine h) (he_now E 1)
        (sn_ID event) (sn_Type event) (rq_PathValue r ''endpoint_token'') body (api_repo (fst x)) = (s, y)" by fastforce
    have "fst (record_event h E r body x) = (fst x)\<lparr>api_repo := s\<rparr>"
      "rs_Status (snd (record_event h E r body x)) = 200 \<longleftrightarrow> (\<exists>d. y = Inr d)"
      using ok sy by (cases y; simp add: record_event_def Some conn_error_def)+
    with Some ok sy show ?thesis by (rule that(2))
  qed
qed

text \<open>
  C11. Only what Stripe signed is recorded.  A webhook request that is answered with 200, or that changes any
  state beyond the numbering of requests, came to the configured endpoint with a body of at most 1 MiB
  whose header carries, for a timestamp within the accepted window, the digest of exactly that body
  under the webhook secret, and is a sandbox event with an identifier and a type; the one change
  is then what the engine makes of recording that event.
\<close>

theorem webhook_authentic:
  assumes "rq_Method r = ''POST''" and "rq_Segments r = [''hooks'', ''stripe'', token]" and "token \<noteq> []"
    and age: "0 \<le> cf_SignatureMaxAge (hd_config h)" "cf_SignatureMaxAge (hd_config h) < max_int64"
    and "ServeHTTP h E r a = Some (a', w)"
    and "rs_Status w = 200 \<or> a' \<noteq> a\<lparr>api_nextID := (api_nextID a + 1) mod 2 ^ 64\<rparr>"
  shows "\<exists>body event. signed_delivery h E r token body event \<and>
    a' = a\<lparr>api_nextID := (api_nextID a + 1) mod 2 ^ 64,
      api_repo := fst (Service_RecordWebhook (ah_crypto (he_host E)) (he_webhook E) (hd_engine h) (he_now E 1)
        (sn_ID event) (sn_Type event) token body (api_repo a))\<rparr>"
proof -
  have m: "rq_Method r \<noteq> ''OPTIONS''" using assms(1) by simp
  let ?r = "(stamped a r)\<lparr>rq_PathValue := (\<lambda>_. [])(''endpoint_token'' := token)\<rparr>"
  let ?x = "(entered a, first_response h r a)"
  have entered: "entered a = a\<lparr>api_nextID := (api_nextID a + 1) mod 2 ^ 64\<rparr>" by (simp add: entered_def)
  have no_error: "\<not> (\<exists>q e. (a', w) = conn_error q e ?x \<and> er_HTTPStatus e \<noteq> 200)"
    using assms(7) by (auto simp: conn_error_def entered split: if_splits)
  have served: "webhook h E ?r ?x = Some (a', w)"
  proof (rule ccontr)
    assume no: "\<not> ?thesis"
    have "mux_serve h E (stamped a r) ?x = webhook h E ?r ?x"
      by (simp add: mux_serve_def route_webhook [OF assms(1-3)] serve_route_def)
    with no assms(6) have "(a', w) = conn_error (stamped a r) (Forbidden ''csrf_origin_invalid''
        (Msg ''The request origin is not allowed.'')) ?x"
      by (simp add: ServeHTTP_enter [OF m] split: if_splits)
    with no_error show False by fastforce
  qed
  have hdr: "header_get ?r ''Stripe-Signature'' = header_get r ''Stripe-Signature''" by simp
  note w = served [unfolded webhook_def Let_def option.inject]
  have tok: "cf_EndpointToken (hd_config h) = [] \<or> token = cf_EndpointToken (hd_config h)"
  proof (rule ccontr)
    assume "\<not> ?thesis"
    with w have "(a', w) = conn_error ?r (NotFound ''webhook_endpoint'' token) ?x" by simp
    with no_error show False by fastforce
  qed
  have sec: "cf_WebhookSecret (hd_config h) \<noteq> []"
  proof
    assume "cf_WebhookSecret (hd_config h) = []"
    with w tok have "(a', w) = conn_error ?r webhook_not_configured ?x" by auto
    with no_error show False by (fastforce simp: webhook_not_configured_def)
  qed
  have "\<exists>body. read_body ?r = Inr body"
  proof (rule ccontr)
    assume "\<not> ?thesis"
    then obtain d where "read_body ?r = Inl d" by (cases "read_body ?r") auto
    with w tok sec have "(a', w) = conn_error ?r (Invalid ''request_too_large''
        (Msg ''The webhook payload exceeds 1 MiB.'') []) ?x" by auto
    with no_error show False by fastforce
  qed
  then obtain body where read: "read_body ?r = Inr body" by blast
  then have body: "rq_Body r = Inr body" "length body \<le> 2 ^ 20"
    by (auto simp: read_body_def maxRequestBody_def split: sum.splits if_splits)
  have sig: "verifyStripeSignature (ah_crypto (he_host E)) body (header_get r ''Stripe-Signature'')
      (cf_WebhookSecret (hd_config h)) (he_now E 0) (cf_SignatureMaxAge (hd_config h)) = None"
  proof (rule ccontr)
    assume "\<not> ?thesis"
    with w tok sec read have "(a', w) = conn_error ?r (Invalid ''signature_verification_failed''
        (Msg ''The webhook signature is invalid or outside the accepted time window.'') ''Stripe-Signature'') ?x"
      unfolding hdr by auto
    with no_error show False by fastforce
  qed
  have rec: "(a', w) = record_event h E ?r body ?x"
    using w tok sec read sig unfolding hdr by auto
  show ?thesis
  proof (cases rule: record_event_cases [of h E ?r body ?x])
    case (1 e)
    have "er_HTTPStatus e \<noteq> 200" unfolding 1(2) by simp
    with no_error rec [unfolded 1(1)] have False by blast
    then show ?thesis by blast
  next
    case (2 event s y)
    have "signed_delivery h E r token body event"
      unfolding signed_delivery_def using tok body sec verify_sound [OF sig age] 2(1-4) by auto
    moreover have "a' = a\<lparr>api_nextID := (api_nextID a + 1) mod 2 ^ 64, api_repo := s\<rparr>"
      using rec 2(6) by (metis entered fst_conv)
    ultimately show ?thesis
      using 2(5) by (intro exI [of _ body] exI [of _ event]) simp
  qed
qed

subsection \<open>Guessing passwords\<close>

lemma retry_digits_dec: "0 < n \<Longrightarrow> retry_digits n buffer = dec (nat n) @ buffer"
proof (induction n buffer rule: retry_digits.induct)
  case (1 n buffer)
  have digit: "''0123456789'' ! nat (n mod 10) = digit_char (nat n mod 10)"
    using 1(2) by (simp add: digit_char_def nat_mod_distrib)
  have step: "retry_digits n buffer = retry_digits (n div 10) (digit_char (nat n mod 10) # buffer)"
    using 1(2) digit by (subst retry_digits.simps) simp
  show ?case
  proof (cases "n < 10")
    case True
    then have "n div 10 = 0" "nat n < 10" using 1(2) by auto
    then show ?thesis
      using step by (simp add: retry_digits.simps [of 0] dec.simps [of "nat n"])
  next
    case False
    then have "0 < n div 10" by (simp add: pos_imp_zdiv_pos_iff)
    with 1(1) [OF 1(2)] digit
    have "retry_digits (n div 10) (digit_char (nat n mod 10) # buffer) = dec (nat (n div 10)) @ digit_char (nat n mod 10) # buffer"
      by simp
    moreover have "nat (n div 10) = nat n div 10" using 1(2) by (simp add: nat_div_distrib)
    ultimately show ?thesis
      using step False by (subst dec.simps) auto
  qed
qed

lemma formatRetryAfter_decimal: "0 \<le> n \<Longrightarrow> formatRetryAfter n = fmt_d n"
  by (cases "n = 0") (simp_all add: formatRetryAfter_def retry_digits_dec fmt_d_def dec.simps digit_char_def)

lemma rounded_bounds:
  assumes "0 < d" and "d \<le> 5 * Minute"
  shows "0 \<le> rounded_seconds d \<and> rounded_seconds d \<le> 300"
proof -
  have "300 * Second = 5 * Minute" by (simp add: Second_def Minute_def)
  then have le: "d \<le> 300 * Second" using assms(2) by simp
  have whole: "d mod Second = 0" if "d div Second = 300"
  proof -
    have "300 * Second + d mod Second = d"
      using div_mult_mod_eq [of d Second] unfolding that .
    moreover have "0 \<le> d mod Second" by (simp add: Second_def)
    ultimately show ?thesis using le by linarith
  qed
  have "d div Second \<le> 300"
    using le zdiv_mono1 [of d "300 * Second" Second] by (simp add: Second_def)
  moreover have "0 \<le> d div Second" using assms(1) by (simp add: Second_def pos_imp_zdiv_nonneg_iff)
  moreover note whole
  ultimately have "d div Second \<le> 300 \<and> (d div Second = 300 \<longrightarrow> d mod Second = 0) \<and> 0 \<le> d div Second"
    by blast
  then show ?thesis
    using assms(1) by (auto simp: rounded_seconds_def Second_def)
qed

lemma route_login:
  "rq_Method r = ''POST'' \<Longrightarrow> rq_Segments r = [''v1'', ''auth'', ''login''] \<Longrightarrow> find_route r = Some (RLogin, \<lambda>_. [])"
  by (simp add: find_route_def routes_def method_matches_def)

lemma limited_history:
  assumes "limiter_history l ref t True" and "t \<le> now" and "enumerates keys (ll_buckets l)"
    and "length keys < maxLoginBuckets" and "limited keys now key l = (l1, is_limited, retry)"
  shows "is_limited = locked now (ref key)" and "is_limited \<Longrightarrow> 0 < retry \<and> retry \<le> 5 * Minute"
    and "limiter_history l1 ref now True"
proof -
  note inv = limiter_invariant [OF assms(1)]
  have same: "alive now (ll_buckets (maintainLocked keys now l) key) = alive now (ref key)"
    using maintain_cases(2) [OF assms(3,4), of now key] inv assms(2) by simp
  show lim: "is_limited = locked now (ref key)"
    using limited_buckets(3) [of keys now key l] locked_alive [OF same] by (simp add: assms(5))
  show "limiter_history l1 ref now True"
    using limiter_history.limited [OF assms(1-3), of key] assms(4) by (simp add: assms(5))
  assume is_limited
  then obtain b where b: "alive now (ref key) = Some b" using lim by (auto simp: locked_def split: option.splits)
  then have r: "ref key = Some b" "now < lb_resetAt b" by (auto simp: alive_def split: option.splits if_splits)
  from b same have m: "ll_buckets (maintainLocked keys now l) key = Some b"
    by (auto simp: alive_def split: option.splits if_splits)
  have "retry = Sub (lb_resetAt b) now"
    using assms(5) \<open>is_limited\<close> m by (auto simp: limited_def Let_def split: if_splits)
  moreover have "lb_resetAt b \<le> now + 5 * Minute" using inv r(1) assms(2) by force
  ultimately show "0 < retry \<and> retry \<le> 5 * Minute"
    using r(2) by (auto simp: Sub_def Minute_def max_int64_def min_int64_def)
qed


end
