(* ===== verification/HttpDemo.thy ===== *)
theory HttpDemo
  imports HttpGuards
begin

text \<open>A small server, and requests to it that show the properties of the HTTP interface at work.\<close>

definition no_users :: auth_iteration where
  "no_users = \<lparr>ai_users = \<lambda>_. [], ai_findings = \<lambda>_. [], ai_notifications = \<lambda>_. []\<rparr>"

definition sample_config :: "(MemoryRepository, unit, AuthMemory) HttpConfig" where
  "sample_config =
     \<lparr>cf_WebOrigin = ''https://app'', cf_WebhookSecret = ''whsec'', cf_EndpointToken = ''demo'',
      cf_SignatureMaxAge = 5 * Minute, cf_Stripe = None,
      cf_Auth = Some (memory_auth no_users None \<lparr>ci_key = [], ci_indexKey = []\<rparr>), cf_InsecureCookies = False,
      cf_SSEPollInterval = Second, cf_SSEHeartbeat = Second, cf_SSERetry = Second, cf_SSEWriteTimeout = Second\<rparr>"

definition sample_handler :: "(MemoryRepository, unit, AuthMemory) Handler" where
  "sample_handler = \<lparr>hd_engine = memory_port plain_crypto sample_iteration, hd_config = sample_config\<rparr>"

definition sample_env :: "MemoryRepository http_env" where
  "sample_env =
     \<lparr>he_host = mock_host, he_validate = \<lambda>_. None, he_payment = \<lambda>_. None, he_createRun = \<lambda>_. None,
      he_register = \<lambda>_. None, he_login = \<lambda>_. Some \<lparr>lr_Email = ''ada@x.org'', lr_Password = ''a guess''\<rparr>,
      he_updateProject = \<lambda>_. None,
      he_envelope = \<lambda>_. Some \<lparr>sn_ID = ''evt_1'', sn_Type = ''payment_intent.created'', sn_Livemode = False\<rparr>,
      he_webhook = \<lambda>_. \<lparr>env_Created = 0, env_ObjectID = [], env_ObjectStatus = [], env_Metadata = Map.empty\<rparr>,
      he_single = \<lambda>_. True, he_now = \<lambda>_. 1700000000 * Second, he_uuid = zero_random, he_nonce = zero_random,
      he_draws = \<lambda>_. zero_random, he_keys = \<lambda>_. [], he_later = \<lambda>_. NewMemoryRepository, he_io = \<lambda>_. True,
      he_flusher = True, he_stimuli = []\<rparr>"

definition sample_request :: "string \<Rightarrow> string list \<Rightarrow> (string \<Rightarrow> string list) \<Rightarrow> string option \<Rightarrow> Request" where
  "sample_request method segs hdr cookie =
     \<lparr>rq_Method = method, rq_Path = concat (map (\<lambda>s. CHR ''/'' # s) segs), rq_Segments = segs,
      rq_PathValue = \<lambda>_. [], rq_Query = \<lambda>_. [], rq_Header = hdr,
      rq_Cookie = (\<lambda>_. None)(sessionCookieName := cookie), rq_RemoteAddr = ''10.0.0.1:4711'', rq_Body = Inr ''{}''\<rparr>"

definition sample_api :: "MemoryRepository \<Rightarrow> (MemoryRepository, unit, AuthMemory) Api" where
  "sample_api s = \<lparr>api_repo = s, api_gateway = (), api_auth = NewAuthMemory, api_nextID = 0, api_limiter = newLoginLimiter\<rparr>"

lemma sample_fields [simp]:
  "hd_engine sample_handler = memory_port plain_crypto sample_iteration"
  "cf_Auth (hd_config sample_handler) = Some (memory_auth no_users None \<lparr>ci_key = [], ci_indexKey = []\<rparr>)"
  "cf_WebOrigin (hd_config sample_handler) = ''https://app''"
  "cf_SignatureMaxAge (hd_config sample_handler) = 5 * Minute"
  "rq_Method (sample_request m segs hdr c) = m" "rq_Segments (sample_request m segs hdr c) = segs"
  "rq_Header (sample_request m segs hdr c) = hdr" "rq_Body (sample_request m segs hdr c) = Inr ''{}''"
  "rq_Cookie (sample_request m segs hdr c) sessionCookieName = c"
  "header_get (sample_request m segs hdr c) k = (case hdr k of [] \<Rightarrow> [] | v # _ \<Rightarrow> v)"
  "api_repo (sample_api s) = s" "api_auth (sample_api s) = NewAuthMemory"
  "api_limiter (sample_api s) = newLoginLimiter" "api_nextID (sample_api s) = 0"
  by (simp_all add: sample_handler_def sample_config_def sample_request_def sample_api_def header_get_def)

lemma private_sample: "\<not> sees Anonymous tenant_sample (runID 1)"
  using tenant_sample_run(4) by (auto simp: sees_def owned_by_def public_run_def get0_def split: option.splits)

text \<open>Anonymous requests for the private run and for a stream of its events.\<close>

theorem run_reads_scoped_witness:
  "(\<exists>a' w. ServeHTTP sample_handler sample_env
       (sample_request ''GET'' [''v1'', ''runs'', runID 1] (\<lambda>_. []) None) (sample_api tenant_sample) = Some (a', w) \<and>
     rs_Status w = 404) \<and>
   (\<exists>a' w e. ServeHTTP sample_handler sample_env
       (sample_request ''GET'' [''v1'', ''runs'', runID 1, ''events'']
         ((\<lambda>_. [])(''Accept'' := [''text/event-stream''])) None) (sample_api tenant_sample) = Some (a', w) \<and>
     rs_Status w = 404 \<and> rs_Body w = [CJson (JObject [(''error'', JError e)])])"
proof -
  let ?r = "sample_request ''GET'' [''v1'', ''runs'', runID 1] (\<lambda>_. []) None"
  let ?s = "sample_request ''GET'' [''v1'', ''runs'', runID 1, ''events''] ((\<lambda>_. [])(''Accept'' := [''text/event-stream''])) None"
  have caller: "caller_of E A ?r u = Anonymous" "caller_of E A ?s u = Anonymous" for E A u
    by (simp_all add: caller_of_def)
  have id: "runID 1 \<noteq> []" by (simp add: runID_def)
  have later: "memory_ok (he_later sample_env n)" for n
    by (simp add: sample_env_def memory_ok_new)
  have stream: "Contains ''text/event-stream'' ''text/event-stream''"
    by (simp add: HasPrefix_def)
  have first: "parseLastEventID [] = Inr 0" by (simp add: parseLastEventID_def)
  note scoped = run_reads_scoped [OF memory_ok_tenant_sample sample_fields(1,2), where i = "runID 1" and E = sample_env
      and a = "sample_api tenant_sample", OF _ _ _ id _ later refl refl refl refl]
  have header: "header_get ?s ''Accept'' = ''text/event-stream''" "header_get ?r ''Accept'' = []"
    "rq_Header ?s ''Last-Event-ID'' = []" by simp_all
  note plain = scoped [of ?r "[]", unfolded caller]
  note streamed = scoped [of ?s "[''events'']", unfolded caller header first]
  have "\<exists>a' w. ServeHTTP sample_handler sample_env ?r (sample_api tenant_sample) = Some (a', w) \<and> rs_Status w = 404"
    using plain [THEN conjunct2, THEN conjunct1] private_sample by (simp add: first) blast
  moreover have "\<exists>a' w e. ServeHTTP sample_handler sample_env ?s (sample_api tenant_sample) = Some (a', w) \<and>
      rs_Status w = 404 \<and> rs_Body w = [CJson (JObject [(''error'', JError e)])]"
    using streamed [THEN conjunct2, THEN conjunct1] private_sample by (simp add: error_body_def) blast
  ultimately show ?thesis ..
qed

theorem cross_origin_refused_witness:
  "\<exists>w. ServeHTTP sample_handler sample_env
       (sample_request ''POST'' [''v1'', ''runs''] ((\<lambda>_. [])(''Origin'' := [''https://evil''])) (Some ''token''))
       (sample_api tenant_sample) = Some ((sample_api tenant_sample)\<lparr>api_nextID := 1\<rparr>, w) \<and> rs_Status w = 403"
proof -
  let ?r = "sample_request ''POST'' [''v1'', ''runs''] ((\<lambda>_. [])(''Origin'' := [''https://evil''])) (Some ''token'')"
  have "has_session_cookie ?r" "\<not> HasPrefix (rq_Path ?r) ''/hooks/stripe/''"
    by (simp_all add: has_session_cookie_def) (simp add: sample_request_def HasPrefix_def)
  then have "\<exists>w e. ServeHTTP sample_handler sample_env ?r (sample_api tenant_sample) =
      Some ((sample_api tenant_sample)\<lparr>api_nextID := (api_nextID (sample_api tenant_sample) + 1) mod 2 ^ 64\<rparr>, w) \<and>
    rs_Status w = 403 \<and> rs_Cookies w = [] \<and> rs_Body w = [CJson (JObject [(''error'', JError e)])] \<and>
    er_Code e = (if rq_Method ?r = ''OPTIONS'' then ''cors_origin_invalid'' else ''csrf_origin_invalid'') \<and>
    rs_Header w ''Access-Control-Allow-Origin'' = None"
    by (intro cross_origin_refused) simp_all
  then show ?thesis by (auto simp del: sample_fields(10))
qed

theorem overview_unscoped_witness:
  "owned_by ''p'' tenant_sample (runID 1) \<and> \<not> sees Anonymous tenant_sample (runID 1) \<and>
   (\<exists>a' w ov. ServeHTTP sample_handler sample_env (sample_request ''GET'' [''v1'', ''overview''] (\<lambda>_. []) None)
       (sample_api tenant_sample) = Some (a', w) \<and> rs_Body w = [CJson (JOverview ov)] \<and>
     rb_Run (sample_bundle 1) \<in> set (ov_RecentRuns ov))"
proof -
  have en: "enumerates (it_runs sample_iteration (mr_runs tenant_sample)) (mr_runs tenant_sample)"
    by (simp add: enumerates_def sample_iteration_def tenant_sample_run)
  show ?thesis
    using private_sample overview_unscoped [OF en, of sample_handler plain_crypto
        "sample_request ''GET'' [''v1'', ''overview''] (\<lambda>_. []) None" "sample_api tenant_sample" "runID 1" _ sample_env]
      tenant_sample_run by auto
qed

theorem error_contract_witness:
  "\<exists>a' w. ServeHTTP sample_handler sample_env
       (sample_request ''OPTIONS'' [''v1'', ''runs''] ((\<lambda>_. [])(''Origin'' := [''https://evil''])) None)
       (sample_api tenant_sample) = Some (a', w) \<and> rs_Header w ''X-Request-ID'' = Some (request_id 1)"
proof -
  let ?r = "sample_request ''OPTIONS'' [''v1'', ''runs''] ((\<lambda>_. [])(''Origin'' := [''https://evil''])) None"
  have "ServeHTTP sample_handler sample_env ?r (sample_api tenant_sample) \<noteq> None"
    by (simp add: ServeHTTP_def Let_def)
  then obtain a' w where s: "ServeHTTP sample_handler sample_env ?r (sample_api tenant_sample) = Some (a', w)"
    by (cases "ServeHTTP sample_handler sample_env ?r (sample_api tenant_sample)") auto
  from error_contract [OF s] s show ?thesis
    by (auto simp: common_ok_def)
qed


definition sample_signature :: string where
  "sample_signature = stripe_header (ah_crypto mock_host) ''whsec'' 1700000000 ''{}''"

lemma sample_verifies:
  "verifyStripeSignature (ah_crypto mock_host) ''{}'' sample_signature ''whsec'' (1700000000 * Second) (5 * Minute) = None"
  unfolding sample_signature_def
  by (subst verify_stripe_header) (simp_all add: Minute_def max_int64_def)

theorem webhook_authentic_witness:
  "\<exists>a' w body event. ServeHTTP sample_handler sample_env
       (sample_request ''POST'' [''hooks'', ''stripe'', ''demo''] ((\<lambda>_. [])(''Stripe-Signature'' := [sample_signature])) None)
       (sample_api NewMemoryRepository) = Some (a', w) \<and> rs_Status w = 200 \<and>
     signed_delivery sample_handler sample_env
       (sample_request ''POST'' [''hooks'', ''stripe'', ''demo''] ((\<lambda>_. [])(''Stripe-Signature'' := [sample_signature])) None)
       ''demo'' body event"
proof -
  let ?r = "sample_request ''POST'' [''hooks'', ''stripe'', ''demo''] ((\<lambda>_. [])(''Stripe-Signature'' := [sample_signature])) None"
  let ?h = sample_handler and ?a = "sample_api NewMemoryRepository"
  have route: "find_route ?r = Some (RWebhook, (\<lambda>_. [])(''endpoint_token'' := ''demo''))"
    by (rule route_webhook) simp_all
  have fresh: "mr_webhooks NewMemoryRepository k = None" for k
    by (simp add: NewMemoryRepository_def)
  have m: "rq_Method ?r \<noteq> ''OPTIONS''" by simp
  have "\<exists>a' w. ServeHTTP ?h sample_env ?r ?a = Some (a', w) \<and> rs_Status w = 200"
    using sample_verifies fresh
    by (simp add: ServeHTTP_enter [OF m] has_session_cookie_def mux_serve_def route serve_route_def webhook_def Let_def
        read_body_def maxRequestBody_def sample_env_def sample_handler_def sample_config_def record_event_def
        Service_RecordWebhook_def memory_port_def MarkWebhookSeen_def webhook_receipt_def)
  then obtain a' w where served: "ServeHTTP ?h sample_env ?r ?a = Some (a', w)" "rs_Status w = 200" by blast
  from webhook_authentic [OF _ _ _ _ _ served(1), of "''demo''"] served show ?thesis
    by (auto simp: Minute_def max_int64_def)
qed

end
