(* ===== verification/SqlSession.thy ===== *)
theory SqlSession
  imports EngineTypes
begin

text \<open>
  What the Postgres adapters use of SQL and of the driver.  A table is the list of its rows;
  statements insert, update and select with the meaning SQL gives them, and constraint
  violations are errors with their SQLSTATE code.

  A session is a state of the database, the clock of the server, the keys of rows that other
  transactions hold locked, and what the driver is going to do: each round trip to the
  server completes, fails without an effect, or takes effect while its reply is lost.  A
  statement outside a transaction is a transaction of its own.  A transaction works on the
  session's database and gives it back unchanged when it is abandoned.  Transactions are
  atomic steps: \<^verbatim>\<open>FOR UPDATE\<close>, the advisory lock and the serializable level of the code are there
  to make them so.
\<close>

subsection \<open>Tables\<close>

abbreviation unique_violation :: goerr where "unique_violation \<equiv> ErrPg ''23505''"
abbreviation foreign_key_violation :: goerr where "foreign_key_violation \<equiv> ErrPg ''23503''"
abbreviation check_violation :: goerr where "check_violation \<equiv> ErrPg ''23514''"
abbreviation invalid_text :: goerr where "invalid_text \<equiv> ErrPg ''22P02''"

text \<open>The row with a value of a unique column.\<close>

definition row :: "('r \<Rightarrow> 'k) \<Rightarrow> 'r list \<Rightarrow> 'k \<rightharpoonup> 'r" where
  "row key t k = find (\<lambda>r. key r = k) t"

text \<open>\<^verbatim>\<open>INSERT\<close> under a unique column, and \<^verbatim>\<open>UPDATE ... WHERE\<close>.\<close>

definition insert_row :: "('r \<Rightarrow> 'k) \<Rightarrow> 'r \<Rightarrow> 'r list \<Rightarrow> goerr + 'r list" where
  "insert_row key r t = (if row key t (key r) \<noteq> None then Inl unique_violation else Inr (t @ [r]))"

definition update_rows :: "('r \<Rightarrow> bool) \<Rightarrow> ('r \<Rightarrow> 'r) \<Rightarrow> 'r list \<Rightarrow> 'r list" where
  "update_rows P f t = map (\<lambda>r. if P r then f r else r) t"

text \<open>\<^verbatim>\<open>INSERT ... ON CONFLICT DO NOTHING\<close>\<close>

definition insert_new :: "('r \<Rightarrow> 'k) \<Rightarrow> 'r \<Rightarrow> 'r list \<Rightarrow> 'r list" where
  "insert_new key r t = (if row key t (key r) \<noteq> None then t else t @ [r])"

definition keyed :: "('r \<Rightarrow> 'k) \<Rightarrow> 'r list \<Rightarrow> bool" where
  "keyed key t \<longleftrightarrow> distinct (map key t)"

lemma row_Nil [simp]: "row key [] k = None"
  by (simp add: row_def)

lemma row_Cons: "row key (r # t) k = (if key r = k then Some r else row key t k)"
  by (simp add: row_def)

lemma row_append: "row key (t @ u) k = (case row key t k of None \<Rightarrow> row key u k | Some r \<Rightarrow> Some r)"
  by (induction t) (simp_all add: row_Cons)

lemma row_snoc: "row key (t @ [r]) k =
    (case row key t k of None \<Rightarrow> if key r = k then Some r else None | Some r' \<Rightarrow> Some r')"
  by (simp add: row_append row_Cons split: option.split)

lemma row_SomeD: "row key t k = Some r \<Longrightarrow> r \<in> set t \<and> key r = k"
  by (auto simp: row_def dest: find_SomeD)

lemma row_None_iff: "row key t k = None \<longleftrightarrow> k \<notin> key ` set t"
  by (auto simp: row_def find_None_iff)

lemma row_in_dom: "r \<in> set t \<Longrightarrow> row key t (key r) \<noteq> None"
  by (auto simp: row_None_iff)

lemma keyed_row: "keyed key t \<Longrightarrow> r \<in> set t \<Longrightarrow> row key t (key r) = Some r"
  by (induction t) (auto simp: keyed_def row_Cons)

lemma keyed_row_iff: "keyed key t \<Longrightarrow> row key t k = Some r \<longleftrightarrow> r \<in> set t \<and> key r = k"
  using keyed_row [of key t r] row_SomeD [of key t k r] by blast

lemma keyed_Nil [simp]: "keyed key []"
  by (simp add: keyed_def)

lemma keyed_snoc: "keyed key (t @ [r]) \<longleftrightarrow> keyed key t \<and> row key t (key r) = None"
  by (auto simp: keyed_def row_None_iff)

lemma keyed_insert_new: "keyed key t \<Longrightarrow> keyed key (insert_new key r t)"
  by (auto simp: insert_new_def keyed_snoc)

lemma row_insert_new:
  "row key (insert_new key r t) k =
     (case row key t k of None \<Rightarrow> if key r = k then Some r else None | Some r' \<Rightarrow> Some r')"
  by (auto simp: insert_new_def row_snoc split: option.splits)

lemma row_update:
  "(\<And>r. key (f r) = key r) \<Longrightarrow>
     row key (update_rows P f t) k = map_option (\<lambda>r. if P r then f r else r) (row key t k)"
  by (induction t) (auto simp: update_rows_def row_Cons)

lemma map_key_update: "(\<And>r. key (f r) = key r) \<Longrightarrow> map key (update_rows P f t) = map key t"
  by (simp add: update_rows_def)

lemma keyed_update: "(\<And>r. key (f r) = key r) \<Longrightarrow> keyed key (update_rows P f t) = keyed key t"
  by (simp add: keyed_def map_key_update)

text \<open>A condition that only one key meets.\<close>

lemma filter_one:
  assumes "keyed key t" and "row key t k = Some r" and "P r"
    and "\<forall>r' \<in> set t. P r' \<longrightarrow> key r' = k"
  shows "filter P t = [r]"
  using assms
proof (induction t)
  case Nil
  then show ?case by simp
next
  case (Cons x t)
  show ?case
  proof (cases "key x = k")
    case True
    then have "k \<notin> key ` set t" and "x = r"
      using Cons.prems by (auto simp: keyed_def row_Cons)
    then have "filter P t = []"
      using Cons.prems(4) by (auto simp: filter_empty_conv image_iff)
    with \<open>x = r\<close> Cons.prems(3) show ?thesis by simp
  next
    case False
    with Cons show ?thesis by (auto simp: keyed_def row_Cons)
  qed
qed

lemma update_none:
  assumes "filter P t = []"
  shows "update_rows P f t = t"
  using assms by (induction t) (auto simp: update_rows_def split: if_splits)

text \<open>Updating the row of a key.\<close>

lemma row_update_key:
  assumes "\<And>r. key (f r) = key r"
  shows "row key (update_rows (\<lambda>r. key r = k) f t) k' =
    (if k' = k then map_option f (row key t k) else row key t k')"
  by (induction t) (auto simp: update_rows_def row_Cons assms)

lemma filter_update:
  assumes "\<And>r. Q (f r) = Q r" and "\<And>r. Q r \<Longrightarrow> \<not> P r"
  shows "filter Q (update_rows P f t) = filter Q t"
  by (induction t) (auto simp: update_rows_def assms)

subsection \<open>Sessions\<close>

datatype outcome = Completes | Fails goerr | LosesReply goerr

record 'd session =
  ss_db :: 'd
  ss_now :: time
  ss_locked :: "string list"
  ss_driver :: "outcome list"

definition next_outcome :: "'d session \<Rightarrow> outcome \<times> 'd session" where
  "next_outcome s =
     (case ss_driver s of [] \<Rightarrow> (Completes, s) | o1 # os \<Rightarrow> (o1, s\<lparr>ss_driver := os\<rparr>))"

text \<open>
  One statement: its meaning at the server's time, as an error or a value and the new
  database.
\<close>

definition exec :: "(time \<Rightarrow> 'd \<Rightarrow> goerr + 'a \<times> 'd) \<Rightarrow> ('d session, 'a) op" where
  "exec f s0 =
     (case next_outcome s0 of
        (Fails e, s) \<Rightarrow> (s, Inl e)
      | (Completes, s) \<Rightarrow>
          (case f (ss_now s) (ss_db s) of
             Inl e \<Rightarrow> (s, Inl e) | Inr (x, d) \<Rightarrow> (s\<lparr>ss_db := d\<rparr>, Inr x))
      | (LosesReply e, s) \<Rightarrow>
          (case f (ss_now s) (ss_db s) of
             Inl _ \<Rightarrow> (s, Inl e) | Inr (x, d) \<Rightarrow> (s\<lparr>ss_db := d\<rparr>, Inl e)))"

definition query :: "(time \<Rightarrow> 'd \<Rightarrow> goerr + 'a) \<Rightarrow> ('d session, 'a) op" where
  "query f = exec (\<lambda>now d. case f now d of Inl e \<Rightarrow> Inl e | Inr x \<Rightarrow> Inr (x, d))"

text \<open>Sequences of statements, loops of them, and errors with a prefix.\<close>

definition chain :: "('s, 'a) op \<Rightarrow> ('a \<Rightarrow> ('s, 'b) op) \<Rightarrow> ('s, 'b) op" where
  "chain m k s = (case m s of (s', Inl e) \<Rightarrow> (s', Inl e) | (s', Inr x) \<Rightarrow> k x s')"

definition give :: "'a \<Rightarrow> ('s, 'a) op" where
  "give x s = (s, Inr x)"

definition raise :: "goerr \<Rightarrow> ('s, 'a) op" where
  "raise e s = (s, Inl e)"

fun for_each :: "('a \<Rightarrow> ('s, unit) op) \<Rightarrow> 'a list \<Rightarrow> ('s, unit) op" where
  "for_each f [] = give ()"
| "for_each f (x # xs) = chain (f x) (\<lambda>_. for_each f xs)"

definition wrapping :: "string \<Rightarrow> ('s, 'a) op \<Rightarrow> ('s, 'a) op" where
  "wrapping msg m s = (case m s of (s', Inl e) \<Rightarrow> (s', Inl (ErrWrap msg e)) | (s', Inr x) \<Rightarrow> (s', Inr x))"

text \<open>
  A transaction: begin, the body, and the commit the body ends with, if it does; the deferred
  rollback undoes everything else.
\<close>

datatype 'a ending = Commit 'a | Abandon 'a

definition in_tx :: "('d session, 'a ending) op \<Rightarrow> ('d session, 'a) op" where
  "in_tx body s0 =
     (case next_outcome s0 of
        (Completes, s) \<Rightarrow>
          (case body s of
             (s', Inl e) \<Rightarrow> (s'\<lparr>ss_db := ss_db s\<rparr>, Inl e)
           | (s', Inr (Abandon x)) \<Rightarrow> (s'\<lparr>ss_db := ss_db s\<rparr>, Inr x)
           | (s', Inr (Commit x)) \<Rightarrow>
               (case next_outcome s' of
                  (Completes, s2) \<Rightarrow> (s2, Inr x)
                | (Fails e, s2) \<Rightarrow> (s2\<lparr>ss_db := ss_db s\<rparr>, Inl e)
                | (LosesReply e, s2) \<Rightarrow> (s2, Inl e)))
      | (Fails e, s) \<Rightarrow> (s, Inl e)
      | (LosesReply e, s) \<Rightarrow> (s, Inl e))"

subsection \<open>A driver that does what it is asked\<close>

text \<open>With no failure scheduled every round trip completes.\<close>

definition reliable :: "'d session \<Rightarrow> 'd session" where
  "reliable s = s\<lparr>ss_driver := []\<rparr>"

lemma reliable_fields [simp]:
  "ss_db (reliable s) = ss_db s" "ss_now (reliable s) = ss_now s"
  "ss_locked (reliable s) = ss_locked s" "ss_driver (reliable s) = []"
  by (simp_all add: reliable_def)

lemma reliable_id [simp]: "ss_driver s = [] \<Longrightarrow> reliable s = s"
  by (simp add: reliable_def)

lemma reliable_db [simp]: "reliable (s\<lparr>ss_db := d\<rparr>) = (reliable s)\<lparr>ss_db := d\<rparr>"
  by (simp add: reliable_def)

lemma exec_reliable:
  "ss_driver s = [] \<Longrightarrow> exec f s =
     (case f (ss_now s) (ss_db s) of
        Inl e \<Rightarrow> (s, Inl e) | Inr (x, d) \<Rightarrow> (s\<lparr>ss_db := d\<rparr>, Inr x))"
  by (simp add: exec_def next_outcome_def)

lemma query_reliable:
  "ss_driver s = [] \<Longrightarrow> query f s =
     (case f (ss_now s) (ss_db s) of Inl e \<Rightarrow> (s, Inl e) | Inr x \<Rightarrow> (s, Inr x))"
  by (simp add: query_def exec_reliable split: sum.splits)

lemma in_tx_reliable:
  assumes "ss_driver s = []"
  shows "in_tx body s =
    (case body s of
       (s', Inl e) \<Rightarrow> (s'\<lparr>ss_db := ss_db s\<rparr>, Inl e)
     | (s', Inr (Abandon x)) \<Rightarrow> (s'\<lparr>ss_db := ss_db s\<rparr>, Inr x)
     | (s', Inr (Commit x)) \<Rightarrow> (if ss_driver s' = [] then (s', Inr x) else in_tx body s))"
  using assms by (simp add: in_tx_def next_outcome_def split: prod.splits sum.splits ending.splits)

text \<open>What a computation leaves alone, and how far the driver's failures change it.\<close>

definition keeps_time :: "('d session, 'a) op \<Rightarrow> bool" where
  "keeps_time m \<longleftrightarrow>
     (\<forall>s. ss_now (fst (m s)) = ss_now s \<and> ss_locked (fst (m s)) = ss_locked s \<and>
          (ss_driver s = [] \<longrightarrow> ss_driver (fst (m s)) = []))"

text \<open>A value a computation returns in spite of the driver is the one it returns without it.\<close>

definition faithful :: "('d session, 'a) op \<Rightarrow> bool" where
  "faithful m \<longleftrightarrow> keeps_time m \<and>
     (\<forall>s s' x. m s = (s', Inr x) \<longrightarrow> m (reliable s) = (reliable s', Inr x))"

named_theorems faithful_intros \<open>computations the driver can only cut short\<close>

lemma next_outcome_fields:
  "next_outcome s = (c, s') \<Longrightarrow> ss_db s' = ss_db s \<and> ss_now s' = ss_now s \<and>
     ss_locked s' = ss_locked s \<and> reliable s' = reliable s \<and>
     (ss_driver s = [] \<longrightarrow> c = Completes \<and> s' = s)"
  by (auto simp: next_outcome_def reliable_def split: list.splits)

lemma faithful_exec [faithful_intros]: "faithful (exec f)"
proof -
  have "keeps_time (exec f)"
    unfolding keeps_time_def exec_def
    by (auto split: prod.splits outcome.splits sum.splits dest: next_outcome_fields)
  moreover have "exec f (reliable s) = (reliable s', Inr x)" if run: "exec f s = (s', Inr x)" for s s' x
  proof (cases "next_outcome s")
    case (Pair c s1)
    then have s1: "ss_now s1 = ss_now s" "ss_db s1 = ss_db s" "reliable s1 = reliable s"
      by (auto dest: next_outcome_fields)
    have c: "c = Completes"
      using run Pair by (auto simp: exec_def split: outcome.splits sum.splits)
    obtain d where "f (ss_now s) (ss_db s) = Inr (x, d)" "s' = s1\<lparr>ss_db := d\<rparr>"
      using run Pair c s1 by (auto simp: exec_def split: sum.splits)
    then show ?thesis
      by (simp add: exec_reliable s1)
  qed
  ultimately show ?thesis
    by (simp add: faithful_def)
qed

lemma faithful_query [faithful_intros]: "faithful (query f)"
  unfolding query_def by (rule faithful_exec)

lemma faithful_give [faithful_intros]: "faithful (give x)"
  by (simp add: faithful_def keeps_time_def give_def)

lemma faithful_raise [faithful_intros]: "faithful (raise e)"
  by (simp add: faithful_def keeps_time_def raise_def)

lemma faithful_chain [faithful_intros]:
  assumes "faithful m" and "\<And>x. faithful (k x)"
  shows "faithful (chain m k)"
proof -
  have "keeps_time (chain m k)"
    unfolding keeps_time_def
  proof
    fix s
    obtain s1 y where m: "m s = (s1, y)" by fastforce
    then have s1: "ss_now s1 = ss_now s" "ss_locked s1 = ss_locked s"
        "ss_driver s = [] \<Longrightarrow> ss_driver s1 = []"
      using assms(1) unfolding faithful_def keeps_time_def by (metis fst_conv)+
    show "ss_now (fst (chain m k s)) = ss_now s \<and> ss_locked (fst (chain m k s)) = ss_locked s \<and>
        (ss_driver s = [] \<longrightarrow> ss_driver (fst (chain m k s)) = [])"
      using assms(2) s1 m
      by (cases y) (simp_all add: chain_def faithful_def keeps_time_def)
  qed
  moreover have "chain m k (reliable s) = (reliable s', Inr x)" if run: "chain m k s = (s', Inr x)" for s s' x
  proof -
    obtain s1 y where m: "m s = (s1, Inr y)" and k: "k y s1 = (s', Inr x)"
      using run by (auto simp: chain_def split: prod.splits sum.splits)
    have "m (reliable s) = (reliable s1, Inr y)" and "k y (reliable s1) = (reliable s', Inr x)"
      using assms m k by (auto simp: faithful_def)
    then show ?thesis
      by (simp add: chain_def)
  qed
  ultimately show ?thesis
    by (simp add: faithful_def)
qed

lemma faithful_for_each [faithful_intros]:
  "(\<And>x. faithful (f x)) \<Longrightarrow> faithful (for_each f xs)"
  by (induction xs) (simp_all add: faithful_give faithful_chain)

lemma faithful_wrapping [faithful_intros]:
  assumes "faithful m"
  shows "faithful (wrapping msg m)"
proof -
  have "keeps_time (wrapping msg m)"
    unfolding keeps_time_def
  proof
    fix s
    obtain s1 y where m: "m s = (s1, y)" by fastforce
    then show "ss_now (fst (wrapping msg m s)) = ss_now s \<and>
        ss_locked (fst (wrapping msg m s)) = ss_locked s \<and>
        (ss_driver s = [] \<longrightarrow> ss_driver (fst (wrapping msg m s)) = [])"
      using assms unfolding faithful_def keeps_time_def
      by (cases y) (simp_all add: wrapping_def, (metis fst_conv)+)
  qed
  moreover have "wrapping msg m (reliable s) = (reliable s', Inr x)"
    if "wrapping msg m s = (s', Inr x)" for s s' x
  proof -
    have "m s = (s', Inr x)"
      using that by (auto simp: wrapping_def split: prod.splits sum.splits)
    with assms have "m (reliable s) = (reliable s', Inr x)"
      by (simp add: faithful_def)
    then show ?thesis
      by (simp add: wrapping_def)
  qed
  ultimately show ?thesis
    by (simp add: faithful_def)
qed

lemma faithful_if [faithful_intros]:
  "faithful m \<Longrightarrow> faithful m' \<Longrightarrow> faithful (if b then m else m')"
  by simp

lemma faithful_case_option [faithful_intros]:
  "faithful m \<Longrightarrow> (\<And>x. faithful (k x)) \<Longrightarrow> faithful (case v of None \<Rightarrow> m | Some x \<Rightarrow> k x)"
  by (cases v) simp_all

lemma faithful_case_list [faithful_intros]:
  "faithful m \<Longrightarrow> (\<And>x xs. faithful (k x xs)) \<Longrightarrow> faithful (case v of [] \<Rightarrow> m | x # xs \<Rightarrow> k x xs)"
  by (cases v) simp_all

lemma faithful_case_prod [faithful_intros]:
  "(\<And>x y. faithful (k x y)) \<Longrightarrow> faithful (case v of (x, y) \<Rightarrow> k x y)"
  by (cases v) simp

lemma faithful_let [faithful_intros]: "faithful (k v) \<Longrightarrow> faithful (Let v k)"
  by simp

subsection \<open>All or nothing\<close>

text \<open>
  Whatever the driver does, an atomic operation has one of two effects on the database: none,
  together with an error, or the effect it has with a reliable driver.  In the second case it
  answers as it does then, or with the error of a lost reply.
\<close>

definition atomic :: "('d session, 'a) op \<Rightarrow> bool" where
  "atomic m \<longleftrightarrow> keeps_time m \<and>
     (\<forall>s s' x. m s = (s', x) \<longrightarrow>
        (let (t, y) = m (reliable s)
         in x = y \<and> ss_db s' = ss_db t \<or>
            (\<exists>e. x = Inl e) \<and> (ss_db s' = ss_db s \<or> ss_db s' = ss_db t)))"

lemma atomicD:
  assumes "atomic m" and "m s = (s', x)" and "m (reliable s) = (t, y)"
  shows "x = y \<and> ss_db s' = ss_db t \<or>
    (\<exists>e. x = Inl e) \<and> (ss_db s' = ss_db s \<or> ss_db s' = ss_db t)"
proof -
  have "let (t, y) = m (reliable s)
      in x = y \<and> ss_db s' = ss_db t \<or> (\<exists>e. x = Inl e) \<and> (ss_db s' = ss_db s \<or> ss_db s' = ss_db t)"
    using assms(1,2) unfolding atomic_def by blast
  then show ?thesis
    by (simp add: assms(3))
qed

lemma atomic_keeps:
  "atomic m \<Longrightarrow> ss_now (fst (m s)) = ss_now s \<and> ss_locked (fst (m s)) = ss_locked s"
  by (simp add: atomic_def keeps_time_def)

text \<open>An invariant that the reliable operation keeps is kept.\<close>

lemma atomic_invariant:
  assumes "atomic m" and "P (ss_db s)" and "P (ss_db (fst (m (reliable s))))"
  shows "P (ss_db (fst (m s)))"
proof -
  obtain s' x t y where "m s = (s', x)" and "m (reliable s) = (t, y)"
    by fastforce
  with atomicD [OF assms(1) this] assms(2,3) show ?thesis by auto
qed

lemma atomic_exec: "atomic (exec f)"
proof -
  have "keeps_time (exec f)"
    using faithful_exec [of f] by (simp add: faithful_def)
  moreover have "let (t, y) = exec f (reliable s)
      in x = y \<and> ss_db s' = ss_db t \<or> (\<exists>e. x = Inl e) \<and> (ss_db s' = ss_db s \<or> ss_db s' = ss_db t)"
    if run: "exec f s = (s', x)" for s s' x
  proof -
    obtain c s1 where n: "next_outcome s = (c, s1)" by fastforce
    then have "ss_now s1 = ss_now s" "ss_db s1 = ss_db s"
      by (auto dest: next_outcome_fields)
    moreover have "exec f (reliable s) =
        (case f (ss_now s) (ss_db s) of
           Inl e \<Rightarrow> (reliable s, Inl e) | Inr (x, d) \<Rightarrow> ((reliable s)\<lparr>ss_db := d\<rparr>, Inr x))"
      by (simp add: exec_reliable)
    ultimately show ?thesis
      using run n by (cases c; cases "f (ss_now s) (ss_db s)") (auto simp: exec_def)
  qed
  ultimately show ?thesis
    unfolding atomic_def by blast
qed

lemma atomic_query: "atomic (query f)"
  unfolding query_def by (rule atomic_exec)

lemma atomic_in_tx:
  fixes body :: "('d session, 'a ending) op"
  assumes "faithful body"
  shows "atomic (in_tx body)"
proof -
  have keeps: "keeps_time body"
    and body: "\<And>s s' x. body s = (s', Inr x) \<Longrightarrow> body (reliable s) = (reliable s', Inr x)"
    using assms by (simp_all add: faithful_def)
  have kept: "ss_now s' = ss_now s \<and> ss_locked s' = ss_locked s \<and> (ss_driver s = [] \<longrightarrow> ss_driver s' = [])"
    if "body s = (s', x)" for s s' x
    using keeps that unfolding keeps_time_def by (metis fst_conv)
  have "keeps_time (in_tx body)"
    unfolding keeps_time_def
  proof
    fix s :: "'d session"
    obtain c s1 where n: "next_outcome s = (c, s1)" by fastforce
    obtain s2 y where b: "body s1 = (s2, y)" by fastforce
    obtain c' s3 where n': "next_outcome s2 = (c', s3)" by fastforce
    show "ss_now (fst (in_tx body s)) = ss_now s \<and> ss_locked (fst (in_tx body s)) = ss_locked s \<and>
        (ss_driver s = [] \<longrightarrow> ss_driver (fst (in_tx body s)) = [])"
      using next_outcome_fields [OF n] kept [OF b] next_outcome_fields [OF n'] n b n'
      by (auto simp: in_tx_def split: outcome.splits sum.splits ending.splits)
  qed
  moreover have "let (t, y) = in_tx body (reliable s)
      in x = y \<and> ss_db s' = ss_db t \<or> (\<exists>e. x = Inl e) \<and> (ss_db s' = ss_db s \<or> ss_db s' = ss_db t)"
    if run: "in_tx body s = (s', x)" for s s' x
  proof -
    obtain c s1 where n: "next_outcome s = (c, s1)" by fastforce
    then have s1: "ss_db s1 = ss_db s" "reliable s1 = reliable s"
      by (auto dest: next_outcome_fields)
    obtain s2 y where b: "body s1 = (s2, y)" by fastforce
    obtain c' s3 where n': "next_outcome s2 = (c', s3)" by fastforce
    then have s3: "ss_db s3 = ss_db s2"
      by (auto dest: next_outcome_fields)
    show ?thesis
    proof (cases y)
      case (Inl e)
      then show ?thesis
        using run n b s1 by (auto simp: in_tx_def split: outcome.splits prod.splits)
    next
      case (Inr w)
      then have "body (reliable s) = (reliable s2, Inr w)"
        using body b s1 by metis
      then have "in_tx body (reliable s) =
          (case w of Abandon v \<Rightarrow> ((reliable s2)\<lparr>ss_db := ss_db s\<rparr>, Inr v) | Commit v \<Rightarrow> (reliable s2, Inr v))"
        by (cases w) (simp_all add: in_tx_reliable)
      then show ?thesis
        using run n b n' Inr s1 s3
        by (cases w) (auto simp: in_tx_def split: outcome.splits)
    qed
  qed
  ultimately show ?thesis
    unfolding atomic_def by blast
qed

text \<open>What an atomic operation is followed by when that asks the server nothing.\<close>

definition offline :: "('s, 'a) op \<Rightarrow> bool" where
  "offline m \<longleftrightarrow> (\<exists>y. \<forall>s. m s = (s, y))"

lemma offline_give: "offline (give x)"
  by (simp add: offline_def give_def)

lemma offline_raise: "offline (raise e)"
  by (simp add: offline_def raise_def)

lemma atomic_chain_offline:
  fixes m :: "('d session, 'a) op"
  assumes "atomic m" and "\<And>x. offline (k x)"
  shows "atomic (chain m k)"
proof -
  have k: "\<exists>y. \<forall>s. k x s = (s, y)" for x
    using assms(2) by (simp add: offline_def)
  have "keeps_time (chain m k)"
    unfolding keeps_time_def
  proof
    fix s :: "'d session"
    obtain s1 x where m: "m s = (s1, x)" by fastforce
    have "fst (chain m k s) = s1"
      using k by (cases x) (simp_all add: chain_def m, metis fst_conv)
    then show "ss_now (fst (chain m k s)) = ss_now s \<and> ss_locked (fst (chain m k s)) = ss_locked s \<and>
        (ss_driver s = [] \<longrightarrow> ss_driver (fst (chain m k s)) = [])"
      using assms(1) m unfolding atomic_def keeps_time_def by (metis fst_conv)
  qed
  moreover have "let (t, y) = chain m k (reliable s)
      in x = y \<and> ss_db s' = ss_db t \<or> (\<exists>e. x = Inl e) \<and> (ss_db s' = ss_db s \<or> ss_db s' = ss_db t)"
    if run: "chain m k s = (s', x)" for s s' x
  proof -
    obtain s1 y t z where m: "m s = (s1, y)" "m (reliable s) = (t, z)"
      by fastforce
    show ?thesis
    proof (cases z)
      case (Inl e)
      with atomicD [OF assms(1) m] run m show ?thesis
        by (auto simp: chain_def)
    next
      case (Inr w)
      obtain v where v: "\<And>s. k w s = (s, v)" using k by metis
      show ?thesis
        using atomicD [OF assms(1) m] run m Inr v by (auto simp: chain_def)
    qed
  qed
  ultimately show ?thesis
    unfolding atomic_def by blast
qed

text \<open>An operation may depend on the locks it finds.\<close>

lemma atomic_locked:
  assumes "\<And>l. atomic (m l)"
  shows "atomic (\<lambda>s. m (ss_locked s) s)"
proof -
  have "keeps_time (\<lambda>s. m (ss_locked s) s)"
    using assms unfolding atomic_def keeps_time_def by blast
  moreover have "let (t, y) = m (ss_locked (reliable s)) (reliable s)
      in x = y \<and> ss_db s' = ss_db t \<or> (\<exists>e. x = Inl e) \<and> (ss_db s' = ss_db s \<or> ss_db s' = ss_db t)"
    if "m (ss_locked s) s = (s', x)" for s s' x
    using assms [of "ss_locked s"] that unfolding atomic_def by simp
  ultimately show ?thesis
    unfolding atomic_def by blast
qed

subsection \<open>What a computation does with a reliable driver\<close>

text \<open>The effect of a computation on a database, as an error or a value and a new database.\<close>

definition script :: "('d session, 'a) op \<Rightarrow> 'd session \<Rightarrow> 'd \<Rightarrow> goerr + 'a \<times> 'd" where
  "script m s d =
     (case m (s\<lparr>ss_db := d, ss_driver := []\<rparr>) of
        (s', Inl e) \<Rightarrow> Inl e | (s', Inr x) \<Rightarrow> Inr (x, ss_db s'))"

named_theorems script_simps \<open>the effect of a computation from its parts\<close>

lemma faithful_keeps: "faithful m \<Longrightarrow> keeps_time m"
  by (simp add: faithful_def)

lemma keeps_session:
  assumes "keeps_time m" and "m s = (s', x)" and "ss_driver s = []"
  shows "s' = s\<lparr>ss_db := ss_db s'\<rparr>"
proof -
  have "ss_now s' = ss_now s \<and> ss_locked s' = ss_locked s \<and> ss_driver s' = []"
    using assms unfolding keeps_time_def by (metis fst_conv)
  with assms(3) show ?thesis by simp
qed

lemma script_exec [script_simps]: "script (exec f) s d = f (ss_now s) d"
  by (simp add: script_def exec_reliable split: sum.splits)

lemma script_query [script_simps]:
  "script (query f) s d = (case f (ss_now s) d of Inl e \<Rightarrow> Inl e | Inr x \<Rightarrow> Inr (x, d))"
  by (simp add: query_def script_exec)

lemma script_give [script_simps]: "script (give x) s d = Inr (x, d)"
  by (simp add: script_def give_def)

lemma script_raise [script_simps]: "script (raise e) s d = Inl e"
  by (simp add: script_def raise_def)

lemma script_chain [script_simps]:
  assumes "faithful m"
  shows "script (chain m k) s d =
    (case script m s d of Inl e \<Rightarrow> Inl e | Inr (x, d') \<Rightarrow> script (k x) s d')"
proof -
  obtain s1 y where m: "m (s\<lparr>ss_db := d, ss_driver := []\<rparr>) = (s1, y)" by fastforce
  then have "s1 = s\<lparr>ss_db := ss_db s1, ss_driver := []\<rparr>"
    using keeps_session [OF faithful_keeps [OF assms] m] by (cases s; cases s1) simp
  then show ?thesis
    using m by (cases y) (simp_all add: script_def chain_def)
qed

lemma script_wrapping [script_simps]:
  "script (wrapping msg m) s d =
     (case script m s d of Inl e \<Rightarrow> Inl (ErrWrap msg e) | Inr x \<Rightarrow> Inr x)"
  by (simp add: script_def wrapping_def split: prod.splits sum.splits)

lemma script_for_each_Nil [script_simps]: "script (for_each f []) s d = Inr ((), d)"
  by (simp add: script_give)

lemma script_for_each_Cons:
  "(\<And>x. faithful (f x)) \<Longrightarrow> script (for_each f (x # xs)) s d =
     (case script (f x) s d of Inl e \<Rightarrow> Inl e | Inr (u, d') \<Rightarrow> script (for_each f xs) s d')"
  by (simp add: script_chain)

lemma script_in_tx:
  assumes "faithful body" and "ss_driver s = []"
  shows "in_tx body s =
    (case script body s (ss_db s) of
       Inl e \<Rightarrow> (s, Inl e)
     | Inr (Commit x, d) \<Rightarrow> (s\<lparr>ss_db := d\<rparr>, Inr x)
     | Inr (Abandon x, d) \<Rightarrow> (s, Inr x))"
proof -
  have s: "s\<lparr>ss_driver := []\<rparr> = s"
    using assms(2) by simp
  obtain s1 y where b: "body s = (s1, y)" by fastforce
  have s1: "s1 = s\<lparr>ss_db := ss_db s1\<rparr>"
    by (rule keeps_session [OF faithful_keeps [OF assms(1)] b assms(2)])
  then have "ss_driver s1 = []"
    using assms(2) by (metis select_convs(4) session.surjective session.update_convs(1))
  moreover have "s1\<lparr>ss_db := ss_db s\<rparr> = s"
    by (subst s1) simp
  ultimately show ?thesis
    using b s1 by (auto simp: in_tx_reliable [OF assms(2)] script_def s split: sum.splits ending.splits)
qed

text \<open>How a computation can succeed.\<close>

named_theorems script_ok \<open>when the effect of a computation is a value and a database\<close>

lemma script_exec_ok [script_ok]: "script (exec f) s d = Inr (x, d') \<longleftrightarrow> f (ss_now s) d = Inr (x, d')"
  by (simp add: script_exec)

lemma script_query_ok [script_ok]:
  "script (query f) s d = Inr (x, d') \<longleftrightarrow> f (ss_now s) d = Inr x \<and> d' = d"
  by (auto simp: script_query split: sum.splits)

lemma script_give_ok [script_ok]: "script (give x) s d = Inr (y, d') \<longleftrightarrow> y = x \<and> d' = d"
  by (auto simp: script_give)

lemma script_raise_ok [script_ok]: "script (raise e) s d \<noteq> Inr (y, d')"
  by (simp add: script_raise)

lemma script_chain_ok [script_ok]:
  "faithful m \<Longrightarrow> script (chain m k) s d = Inr (y, d2) \<longleftrightarrow>
     (\<exists>x d1. script m s d = Inr (x, d1) \<and> script (k x) s d1 = Inr (y, d2))"
  by (auto simp: script_chain split: sum.splits prod.splits)

lemma script_wrapping_ok [script_ok]:
  "script (wrapping msg m) s d = Inr y \<longleftrightarrow> script m s d = Inr y"
  by (auto simp: script_wrapping split: sum.splits)

text \<open>A part of the database that a computation leaves alone.\<close>

definition leaves :: "('d \<Rightarrow> 'p) \<Rightarrow> ('d session, 'a) op \<Rightarrow> bool" where
  "leaves f m \<longleftrightarrow> faithful m \<and> (\<forall>s d x d'. script m s d = Inr (x, d') \<longrightarrow> f d' = f d)"

named_theorems leaves_intros \<open>parts of the database a computation leaves alone\<close>

lemma leavesD: "leaves f m \<Longrightarrow> script m s d = Inr (x, d') \<Longrightarrow> f d' = f d"
  by (simp add: leaves_def)

lemma leaves_exec:
  "(\<And>now d x d'. g now d = Inr (x, d') \<Longrightarrow> f d' = f d) \<Longrightarrow> leaves f (exec g)"
  by (simp add: leaves_def faithful_exec script_exec)

lemma leaves_query [leaves_intros]: "leaves f (query g)"
  by (auto simp: leaves_def faithful_query script_query split: sum.splits)

lemma leaves_give [leaves_intros]: "leaves f (give x)"
  by (simp add: leaves_def faithful_give script_give)

lemma leaves_raise [leaves_intros]: "leaves f (raise e)"
  by (simp add: leaves_def faithful_raise script_raise)

lemma leaves_chain [leaves_intros]:
  "leaves f m \<Longrightarrow> (\<And>x. leaves f (k x)) \<Longrightarrow> leaves f (chain m k)"
  by (fastforce simp: leaves_def faithful_chain script_chain split: sum.splits prod.splits)

lemma leaves_wrapping [leaves_intros]: "leaves f m \<Longrightarrow> leaves f (wrapping msg m)"
  by (auto simp: leaves_def faithful_wrapping script_wrapping split: sum.splits)

lemma leaves_for_each [leaves_intros]: "(\<And>x. leaves f (g x)) \<Longrightarrow> leaves f (for_each g xs)"
  by (induction xs) (simp_all add: leaves_give leaves_chain)

lemma leaves_if [leaves_intros]: "leaves f m \<Longrightarrow> leaves f m' \<Longrightarrow> leaves f (if b then m else m')"
  by simp

lemma leaves_case_option [leaves_intros]:
  "leaves f m \<Longrightarrow> (\<And>x. leaves f (k x)) \<Longrightarrow> leaves f (case v of None \<Rightarrow> m | Some x \<Rightarrow> k x)"
  by (cases v) simp_all

lemma leaves_case_list [leaves_intros]:
  "leaves f m \<Longrightarrow> (\<And>x xs. leaves f (k x xs)) \<Longrightarrow> leaves f (case v of [] \<Rightarrow> m | x # xs \<Rightarrow> k x xs)"
  by (cases v) simp_all

lemma leaves_case_prod [leaves_intros]:
  "(\<And>x y. leaves f (k x y)) \<Longrightarrow> leaves f (case v of (x, y) \<Rightarrow> k x y)"
  by (cases v) simp

lemma leaves_let [leaves_intros]: "leaves f (k v) \<Longrightarrow> leaves f (Let v k)"
  by simp

text \<open>An invariant of the database that a computation keeps.\<close>

definition preserves :: "('d \<Rightarrow> bool) \<Rightarrow> ('d session, 'a) op \<Rightarrow> bool" where
  "preserves P m \<longleftrightarrow> faithful m \<and> (\<forall>s d x d'. P d \<longrightarrow> script m s d = Inr (x, d') \<longrightarrow> P d')"

named_theorems preserves_intros \<open>computations that keep an invariant\<close>

lemma preservesD: "preserves P m \<Longrightarrow> P d \<Longrightarrow> script m s d = Inr (x, d') \<Longrightarrow> P d'"
  unfolding preserves_def by blast

lemma preserves_exec:
  "(\<And>now d x d'. P d \<Longrightarrow> g now d = Inr (x, d') \<Longrightarrow> P d') \<Longrightarrow> preserves P (exec g)"
  by (auto simp: preserves_def faithful_exec script_exec)

lemma leaves_preserves:
  assumes "leaves f m" and "\<And>d d'. f d' = f d \<Longrightarrow> P d' = P d"
  shows "preserves P m"
  using assms leavesD [OF assms(1)] unfolding preserves_def leaves_def by metis

lemma preserves_query [preserves_intros]: "preserves P (query g)"
  by (auto simp: preserves_def faithful_query script_query split: sum.splits)

lemma preserves_give [preserves_intros]: "preserves P (give x)"
  by (simp add: preserves_def faithful_give script_give)

lemma preserves_raise [preserves_intros]: "preserves P (raise e)"
  by (simp add: preserves_def faithful_raise script_raise)

lemma preserves_chain [preserves_intros]:
  assumes m: "preserves P m" and k: "\<And>x. preserves P (k x)"
  shows "preserves P (chain m k)"
  unfolding preserves_def
proof (intro conjI allI impI)
  have f: "faithful m" "\<And>x. faithful (k x)"
    using m k by (simp_all add: preserves_def)
  then show "faithful (chain m k)"
    by (rule faithful_chain)
  fix s d y d2
  assume d: "P d" and "script (chain m k) s d = Inr (y, d2)"
  then obtain x d1 where "script m s d = Inr (x, d1)" and last: "script (k x) s d1 = Inr (y, d2)"
    using script_chain_ok [OF f(1)] by metis
  then have "P d1"
    using preservesD [OF m d] by metis
  from preservesD [OF k this last] show "P d2" .
qed

lemma preserves_wrapping [preserves_intros]: "preserves P m \<Longrightarrow> preserves P (wrapping msg m)"
  by (auto simp: preserves_def faithful_wrapping script_wrapping_ok)

lemma preserves_if [preserves_intros]:
  "preserves P m \<Longrightarrow> preserves P m' \<Longrightarrow> preserves P (if b then m else m')"
  by simp

lemma preserves_case_option [preserves_intros]:
  "preserves P m \<Longrightarrow> (\<And>x. preserves P (k x)) \<Longrightarrow> preserves P (case v of None \<Rightarrow> m | Some x \<Rightarrow> k x)"
  by (cases v) simp_all

lemma preserves_case_list [preserves_intros]:
  "preserves P m \<Longrightarrow> (\<And>x xs. preserves P (k x xs)) \<Longrightarrow> preserves P (case v of [] \<Rightarrow> m | x # xs \<Rightarrow> k x xs)"
  by (cases v) simp_all

lemma preserves_case_prod [preserves_intros]:
  "(\<And>x y. preserves P (k x y)) \<Longrightarrow> preserves P (case v of (x, y) \<Rightarrow> k x y)"
  by (cases v) simp

lemma preserves_let [preserves_intros]: "preserves P (k v) \<Longrightarrow> preserves P (Let v k)"
  by simp

lemma in_tx_preserves:
  assumes "preserves P body" and "P (ss_db s)"
  shows "P (ss_db (fst (in_tx body s)))"
proof (rule atomic_invariant [of "in_tx body" P])
  show "atomic (in_tx body)"
    using assms(1) by (simp add: preserves_def atomic_in_tx)
  show "P (ss_db s)" by (rule assms(2))
  have "faithful body" using assms(1) by (simp add: preserves_def)
  then show "P (ss_db (fst (in_tx body (reliable s))))"
    using preservesD [OF assms(1)] assms(2)
    by (auto simp: script_in_tx split: sum.split ending.split)
qed

lemma exec_preserves:
  assumes "preserves P (exec g)" and "P (ss_db s)"
  shows "P (ss_db (fst (exec g s)))"
proof (rule atomic_invariant [OF atomic_exec, of P])
  show "P (ss_db s)" by (rule assms(2))
  show "P (ss_db (fst (exec g (reliable s))))"
  proof (cases "g (ss_now s) (ss_db s)")
    case (Inr r)
    then have "script (exec g) s (ss_db s) = Inr (fst r, snd r)"
      by (simp add: script_exec)
    from preservesD [OF assms this] Inr show ?thesis
      by (cases r) (simp add: exec_reliable)
  qed (simp add: exec_reliable assms(2))
qed

lemma chain_offline_db:
  assumes "\<And>x. offline (k x)"
  shows "ss_db (fst (chain m k s)) = ss_db (fst (m s))"
proof -
  obtain s' y where m: "m s = (s', y)" by fastforce
  have "\<exists>z. \<forall>t. k x t = (t, z)" for x
    using assms by (simp add: offline_def)
  then have "fst (k x s') = s'" for x
    by (metis fst_conv)
  then show ?thesis
    by (cases y) (simp_all add: chain_def m)
qed

text \<open>What a computation leaves alone, an operation leaves alone whatever the driver does.\<close>

lemma in_tx_leaves:
  assumes "leaves f body"
  shows "f (ss_db (fst (in_tx body s))) = f (ss_db s)"
  by (rule in_tx_preserves [where P = "\<lambda>d. f d = f (ss_db s)"])
    (use leaves_preserves [OF assms, where P = "\<lambda>d. f d = f (ss_db s)"] in simp_all)

lemma exec_leaves:
  assumes "leaves f (exec g)"
  shows "f (ss_db (fst (exec g s))) = f (ss_db s)"
  by (rule exec_preserves [where P = "\<lambda>d. f d = f (ss_db s)"])
    (use leaves_preserves [OF assms, where P = "\<lambda>d. f d = f (ss_db s)"] in simp_all)

end
