(* ===== verification/PgState.thy ===== *)
theory PgState
  imports SqlSession MemoryRepo AuthMemory "HOL-Library.Product_Lexorder"
begin

text \<open>
  The database behind the Postgres adapters (\<^verbatim>\<open>internal/postgres\<close>): the tables of
  \<^verbatim>\<open>db/migrations\<close> as lists of rows, and the statements that insert into them with the
  constraints the migrations declare.

  A row keeps the columns that the code or a constraint reads.  The columns of \<^verbatim>\<open>runs\<close> and
  \<^verbatim>\<open>run_events\<close> that only repeat the snapshot are not kept.  A \<^verbatim>\<open>snapshot\<close>, \<^verbatim>\<open>payload\<close> or
  \<^verbatim>\<open>metadata\<close> column is JSON the code wrote with \<^verbatim>\<open>json.Marshal\<close> and reads back with
  \<^verbatim>\<open>json.Unmarshal\<close>: the model keeps the value.  A \<^verbatim>\<open>timestamptz\<close> has microseconds, and the
  driver drops what is below.  Texts are taken to be valid UTF-8 without NUL, which the server
  would refuse.
\<close>

subsection \<open>Rows\<close>

record run_row =
  rn_id :: string
  rn_project :: "string option"
  rn_object :: string
  rn_correlation :: "string option"
  rn_started :: time
  rn_snapshot :: Run

record event_row =
  el_id :: string
  el_run :: string
  el_sequence :: int
  el_snapshot :: Event

record report_row =
  rt_run :: string
  rt_snapshot :: Report
  rt_generated :: time
  rt_sha256 :: digest

record assertion_row =
  at_run :: string
  at_assertion :: Assertion
  at_evidence :: "string \<rightharpoonup> any"

record finding_row =
  ft_run :: string
  ft_finding :: Finding
  ft_created :: time
  ft_resolvedAt :: "time option"

record notification_row =
  nf_id :: string
  nf_project :: string
  nf_run :: "string option"
  nf_kind :: string
  nf_payload :: "string \<rightharpoonup> any"
  nf_readAt :: "time option"
  nf_created :: time

record audit_row =
  al_project :: string
  al_actor :: "string option"
  al_action :: string
  al_resourceType :: string
  al_resourceID :: string
  al_metadata :: "string \<rightharpoonup> any"
  al_created :: time

record idempotency_row =
  ik_scope :: string
  ik_key :: digest
  ik_request :: digest
  ik_response :: Run
  ik_expires :: time

record outbox_row =
  ob_id :: string
  ob_topic :: string
  ob_aggregate :: string
  ob_payload :: RawMessage
  ob_created :: time
  ob_published :: "time option"
  ob_failed :: "time option"
  ob_attempts :: int
  ob_available :: time
  ob_lockedAt :: "time option"
  ob_lockedBy :: "string option"
  ob_error :: "string option"

record webhook_row =
  wh_id :: string
  wh_endpoint :: digest
  wh_type :: string
  wh_body :: digest
  wh_createdAt :: "time option"
  wh_object :: "string option"
  wh_objectStatus :: "string option"
  wh_correlation :: "string option"
  wh_status :: WebhookProcessingStatus
  wh_processedAt :: "time option"
  wh_code :: "string option"
  wh_run :: "string option"
  wh_project :: "string option"

record webhook_evidence_row =
  wv_id :: string
  wv_run :: string
  wv_project :: "string option"
  wv_type :: string
  wv_object :: string
  wv_objectStatus :: string
  wv_correlation :: string
  wv_event :: string

record connection_row =
  cn_id :: string
  cn_project :: string
  cn_account :: string
  cn_name :: string
  cn_ciphertext :: string
  cn_keyVersion :: int
  cn_status :: string
  cn_created :: time
  cn_updated :: time

record effect_row =
  ef_id :: string
  ef_sequence :: int

record organization_row =
  og_id :: string
  og_name :: string

record project_row =
  pj_id :: string
  pj_organization :: string
  pj_name :: string
  pj_retention :: int
  pj_created :: time

record user_row =
  ur_id :: string
  ur_emailHash :: digest
  ur_emailCiphertext :: string
  ur_passwordHash :: string

record membership_row =
  mb_organization :: string
  mb_user :: string
  mb_role :: string

record session_row =
  sd_token :: digest
  sd_user :: string
  sd_project :: string
  sd_expires :: time
  sd_revoked :: "time option"

record environment_row =
  nv_id :: string
  nv_project :: string
  nv_name :: string
  nv_kind :: string
  nv_default :: bool

record Database =
  db_runs :: "run_row list"
  db_events :: "event_row list"
  db_reports :: "report_row list"
  db_assertions :: "assertion_row list"
  db_findings :: "finding_row list"
  db_notifications :: "notification_row list"
  db_audit :: "audit_row list"
  db_idempotency :: "idempotency_row list"
  db_outbox :: "outbox_row list"
  db_webhooks :: "webhook_row list"
  db_evidence :: "webhook_evidence_row list"
  db_connections :: "connection_row list"
  db_effects :: "effect_row list"
  db_organizations :: "organization_row list"
  db_projects :: "project_row list"
  db_users :: "user_row list"
  db_memberships :: "membership_row list"
  db_sessions :: "session_row list"
  db_environments :: "environment_row list"
  db_runSequence :: int
  db_uuids :: nat

type_synonym pg = "Database session"

text \<open>
  The state after the migrations: the tables are empty, and the third migration leaves the
  sequence of run numbers at 3.
\<close>

definition migrated :: Database where
  "migrated = \<lparr>db_runs = [], db_events = [], db_reports = [], db_assertions = [], db_findings = [],
     db_notifications = [], db_audit = [], db_idempotency = [], db_outbox = [], db_webhooks = [],
     db_evidence = [], db_connections = [], db_effects = [], db_organizations = [],
     db_projects = [], db_users = [], db_memberships = [], db_sessions = [], db_environments = [],
     db_runSequence = 3, db_uuids = 0\<rparr>"

subsection \<open>The server's functions\<close>

text \<open>
  What the server provides: \<^verbatim>\<open>uuidv7()\<close>, by the number of the call; the canonical form of a text
  read as a \<^verbatim>\<open>uuid\<close>, if it is one; the JSON text of a report, of which the code stores a digest; and
  the place of a row on disk, which decides between rows that an \<^verbatim>\<open>ORDER BY\<close> leaves tied.
\<close>

record pg_env =
  pe_crypto :: crypto
  pe_uuidv7 :: "nat \<Rightarrow> string"
  pe_uuid_in :: "string \<Rightarrow> string option"
  pe_report_json :: "Report \<Rightarrow> string"
  pe_place :: "string \<Rightarrow> nat"

definition timestamptz :: "time \<Rightarrow> time" where
  "timestamptz t = t div 1000 * 1000"

text \<open>\<^verbatim>\<open>ORDER BY\<close>, ties in the order of the rows on disk; \<^verbatim>\<open>DESC\<close> negates the key.\<close>

definition order_by ::
  "pg_env \<Rightarrow> ('r \<Rightarrow> string) \<Rightarrow> ('r \<Rightarrow> 'k::linorder) \<Rightarrow> 'r list \<Rightarrow> 'r list" where
  "order_by E key f rows = sort_key f (sort_key (\<lambda>r. pe_place E (key r)) rows)"

definition nullableString :: "string \<Rightarrow> string option" where
  "nullableString v = (if v = [] then None else Some v)"

definition nullableTime :: "time \<Rightarrow> time option" where
  "nullableTime v = (if IsZero v then None else Some (timestamptz v))"

text \<open>\<^verbatim>\<open>COALESCE(column, '')\<close>\<close>

definition coalesce_text :: "string option \<Rightarrow> string" where
  "coalesce_text v = (case v of None \<Rightarrow> [] | Some x \<Rightarrow> x)"

lemma coalesce_nullable [simp]: "coalesce_text (nullableString v) = v"
  by (simp add: coalesce_text_def nullableString_def)

text \<open>
  The check constraints on runs, events and findings.  Integer columns have 32 bits; the driver
  refuses a larger parameter, which the checks count as a violation of the row.
\<close>

definition int4 :: "int \<Rightarrow> bool" where
  "int4 n \<longleftrightarrow> - 2147483648 \<le> n \<and> n \<le> 2147483647"

definition run_id_pattern :: "string \<Rightarrow> bool" where
  "run_id_pattern s \<longleftrightarrow>
     HasPrefix s ''run_'' \<and> 6 \<le> length (drop 4 s) \<and> digit_vals (drop 4 s) \<noteq> None"

definition run_check :: "Run \<Rightarrow> bool" where
  "run_check run \<longleftrightarrow>
     run_id_pattern (run_ID run) \<and>
     run_Fault run \<in> {FaultNone, FaultDuplicate, FaultReorder, FaultTimeout, FaultTamper} \<and>
     run_Status run \<noteq> RunStatusZero \<and> 0 \<le> run_Score run \<and> run_Score run \<le> 100 \<and>
     run_Environment run = ''sandbox'' \<and> 0 \<le> run_DurationMS run \<and> int4 (run_DurationMS run) \<and>
     0 \<le> run_EventCount run \<and> int4 (run_EventCount run) \<and>
     0 \<le> run_FindingCount run \<and> int4 (run_FindingCount run)"

definition event_check :: "Event \<Rightarrow> bool" where
  "event_check e \<longleftrightarrow>
     0 < ev_Sequence e \<and> int4 (ev_Sequence e) \<and> ev_Status e \<noteq> EventStatusZero \<and>
     0 \<le> ev_LatencyMS e \<and> int4 (ev_LatencyMS e)"

definition severity_check :: "string \<Rightarrow> bool" where
  "severity_check v \<longleftrightarrow> v \<in> {''info'', ''warning'', ''critical''}"

subsection \<open>Inserting\<close>

text \<open>A uuid parameter is read by the server; a null stays null.\<close>

definition uuid_param :: "pg_env \<Rightarrow> string \<Rightarrow> goerr + string" where
  "uuid_param E v = (case pe_uuid_in E v of None \<Rightarrow> Inl invalid_text | Some u \<Rightarrow> Inr u)"

definition uuid_param_null :: "pg_env \<Rightarrow> string option \<Rightarrow> goerr + string option" where
  "uuid_param_null E v =
     (case v of None \<Rightarrow> Inr None
      | Some x \<Rightarrow> (case uuid_param E x of Inl e \<Rightarrow> Inl e | Inr u \<Rightarrow> Inr (Some u)))"

definition references_null :: "('r \<Rightarrow> 'k) \<Rightarrow> 'r list \<Rightarrow> 'k option \<Rightarrow> bool" where
  "references_null key t v \<longleftrightarrow> (case v of None \<Rightarrow> True | Some k \<Rightarrow> row key t k \<noteq> None)"

definition insert_run ::
  "pg_env \<Rightarrow> string option \<Rightarrow> RunBundle \<Rightarrow> Database \<Rightarrow> goerr + unit \<times> Database" where
  "insert_run E projectID b d =
     (let run = rb_Run b in
      case uuid_param_null E projectID of
        Inl e \<Rightarrow> Inl e
      | Inr project \<Rightarrow>
          if \<not> run_check run then Inl check_violation
          else (case insert_row rn_id
                  \<lparr>rn_id = run_ID run, rn_project = project, rn_object = run_StripeObjectID run,
                   rn_correlation = nullableString (rb_StripeCorrelationID b),
                   rn_started = timestamptz (run_StartedAt run), rn_snapshot = run\<rparr> (db_runs d) of
                  Inl e \<Rightarrow> Inl e
                | Inr rows \<Rightarrow>
                    if \<not> references_null pj_id (db_projects d) project then Inl foreign_key_violation
                    else Inr ((), d\<lparr>db_runs := rows\<rparr>)))"

definition insert_event :: "Event \<Rightarrow> Database \<Rightarrow> goerr + unit \<times> Database" where
  "insert_event e d =
     (if \<not> event_check e then Inl check_violation
      else (case insert_row el_id
              \<lparr>el_id = ev_ID e, el_run = ev_RunID e, el_sequence = ev_Sequence e, el_snapshot = e\<rparr>
              (db_events d) of
              Inl err \<Rightarrow> Inl err
            | Inr rows \<Rightarrow>
                if row (\<lambda>r. (el_run r, el_sequence r)) (db_events d) (ev_RunID e, ev_Sequence e) \<noteq> None
                then Inl unique_violation
                else if row rn_id (db_runs d) (ev_RunID e) = None then Inl foreign_key_violation
                else Inr ((), d\<lparr>db_events := rows\<rparr>)))"

definition report_digest :: "pg_env \<Rightarrow> Report \<Rightarrow> digest" where
  "report_digest E rep = sha256 (pe_crypto E) (pe_report_json E rep)"

definition insert_report :: "pg_env \<Rightarrow> string \<Rightarrow> Report \<Rightarrow> Database \<Rightarrow> goerr + unit \<times> Database" where
  "insert_report E i rep d =
     (case insert_row rt_run
        \<lparr>rt_run = i, rt_snapshot = rep, rt_generated = timestamptz (rp_Generated rep),
         rt_sha256 = report_digest E rep\<rparr> (db_reports d) of
        Inl e \<Rightarrow> Inl e
      | Inr rows \<Rightarrow>
          if row rn_id (db_runs d) i = None then Inl foreign_key_violation
          else Inr ((), d\<lparr>db_reports := rows\<rparr>))"

definition insert_assertion ::
  "string \<Rightarrow> (string \<rightharpoonup> any) \<Rightarrow> Assertion \<Rightarrow> Database \<Rightarrow> goerr + unit \<times> Database" where
  "insert_assertion i evidence a d =
     (if row rn_id (db_runs d) i = None then Inl foreign_key_violation
      else Inr ((), d\<lparr>db_assertions := insert_new (\<lambda>r. (at_run r, as_ID (at_assertion r)))
        \<lparr>at_run = i, at_assertion = a, at_evidence = evidence\<rparr> (db_assertions d)\<rparr>))"

definition insert_finding ::
  "string \<Rightarrow> Finding \<Rightarrow> time \<Rightarrow> Database \<Rightarrow> goerr + unit \<times> Database" where
  "insert_finding i f now d =
     (if \<not> severity_check (fd_Severity f) then Inl check_violation
      else if row rn_id (db_runs d) i = None then Inl foreign_key_violation
      else Inr ((), d\<lparr>db_findings := insert_new (\<lambda>r. (ft_run r, fd_ID (ft_finding r)))
        \<lparr>ft_run = i, ft_finding = f, ft_created = now, ft_resolvedAt = None\<rparr> (db_findings d)\<rparr>))"

text \<open>\<^verbatim>\<open>insertAudit\<close> (auth_repository.go): the actor is null when empty.\<close>

definition insertAudit ::
  "pg_env \<Rightarrow> string \<Rightarrow> string \<Rightarrow> string \<Rightarrow> string \<Rightarrow> string \<Rightarrow> (string \<rightharpoonup> any) \<Rightarrow> (pg, unit) op" where
  "insertAudit E projectID actorID action resourceType resourceID metadata =
     exec (\<lambda>now d.
       case uuid_param E projectID of
         Inl e \<Rightarrow> Inl e
       | Inr project \<Rightarrow>
       (case uuid_param_null E (nullableString actorID) of
          Inl e \<Rightarrow> Inl e
        | Inr who \<Rightarrow>
            if row pj_id (db_projects d) project = None \<or>
               \<not> references_null ur_id (db_users d) who then Inl foreign_key_violation
            else Inr ((), d\<lparr>db_audit := db_audit d @
              [\<lparr>al_project = project, al_actor = who, al_action = action,
                al_resourceType = resourceType, al_resourceID = resourceID,
                al_metadata = metadata, al_created = now\<rparr>]\<rparr>)))"

definition insert_notification ::
  "pg_env \<Rightarrow> string \<Rightarrow> string \<Rightarrow> string \<Rightarrow> (string \<rightharpoonup> any) \<Rightarrow> time \<Rightarrow> Database \<Rightarrow>
   goerr + unit \<times> Database" where
  "insert_notification E projectID i kind payload now d =
     (case uuid_param E projectID of
        Inl e \<Rightarrow> Inl e
      | Inr project \<Rightarrow>
          if row pj_id (db_projects d) project = None \<or> row rn_id (db_runs d) i = None
          then Inl foreign_key_violation
          else Inr ((), d\<lparr>db_notifications := db_notifications d @
            [\<lparr>nf_id = pe_uuidv7 E (db_uuids d), nf_project = project, nf_run = Some i,
              nf_kind = kind, nf_payload = payload, nf_readAt = None, nf_created = now\<rparr>],
            db_uuids := db_uuids d + 1\<rparr>))"

definition insert_outbox ::
  "pg_env \<Rightarrow> string \<Rightarrow> string \<Rightarrow> RawMessage \<Rightarrow> time \<Rightarrow> Database \<Rightarrow> goerr + unit \<times> Database" where
  "insert_outbox E aggregate topic payload now d =
     (case insert_row ob_id
        \<lparr>ob_id = pe_uuidv7 E (db_uuids d), ob_topic = topic, ob_aggregate = aggregate,
         ob_payload = payload, ob_created = now, ob_published = None, ob_failed = None,
         ob_attempts = 0, ob_available = now, ob_lockedAt = None, ob_lockedBy = None,
         ob_error = None\<rparr> (db_outbox d) of
        Inl e \<Rightarrow> Inl e
      | Inr rows \<Rightarrow> Inr ((), d\<lparr>db_outbox := rows, db_uuids := db_uuids d + 1\<rparr>))"

end
