(* ===== verification/PgRuns.thy ===== *)
theory PgRuns
  imports PgState
begin

text \<open>
  The run store of the Postgres repository (\<^verbatim>\<open>postgres/repository.go\<close>): idempotent creation
  in one transaction, the reads of the three scopes, event paging, and the evidence the
  worker records.
\<close>

subsection \<open>Creation and replay\<close>

definition Pg_NextRunID :: "(pg, string) op" where
  "Pg_NextRunID =
     exec (\<lambda>now d. let number = db_runSequence d + 1
                   in Inr (''run_'' @ fmt_0d 6 number, d\<lparr>db_runSequence := number\<rparr>))"

definition projectRunScope :: "string \<Rightarrow> string" where
  "projectRunScope projectID = ''projects:'' @ projectID @ '':runs:create''"

definition public_scope :: string where
  "public_scope = ''runs:create''"

text \<open>\<^verbatim>\<open>SELECT request_sha256, response_body FROM idempotency_records ... AND expires_at > now()\<close>\<close>

definition select_idempotency ::
  "string \<Rightarrow> digest \<Rightarrow> time \<Rightarrow> Database \<Rightarrow> (digest \<times> Run) option" where
  "select_idempotency scope keyHash now d =
     (case row (\<lambda>r. (ik_scope r, ik_key r)) (db_idempotency d) (scope, keyHash) of
        None \<Rightarrow> None
      | Some r \<Rightarrow> if now < ik_expires r then Some (ik_request r, ik_response r) else None)"

definition Pg_replayRun ::
  "string \<Rightarrow> digest \<Rightarrow> digest \<Rightarrow> (pg, Run \<times> bool) op" where
  "Pg_replayRun scope keyHash requestHash =
     chain (query (\<lambda>now d. Inr (select_idempotency scope keyHash now d)))
       (\<lambda>found. case found of
          None \<Rightarrow> give (zero_Run, False)
        | Some (storedRequest, replay) \<Rightarrow>
            if storedRequest \<noteq> requestHash then raise ErrIdempotencyConflict
            else give (replay, True))"

definition Pg_ReplayRun :: "digest \<Rightarrow> digest \<Rightarrow> (pg, Run \<times> bool) op" where
  "Pg_ReplayRun = Pg_replayRun public_scope"

definition Pg_ReplayRunForProject :: "string \<Rightarrow> digest \<Rightarrow> digest \<Rightarrow> (pg, Run \<times> bool) op" where
  "Pg_ReplayRunForProject projectID = Pg_replayRun (projectRunScope projectID)"

definition Day :: duration where "Day = 24 * Hour"

definition insert_idempotency ::
  "string \<Rightarrow> digest \<Rightarrow> digest \<Rightarrow> Run \<Rightarrow> time \<Rightarrow> Database \<Rightarrow> goerr + unit \<times> Database" where
  "insert_idempotency scope keyHash requestHash run now d =
     (case insert_row (\<lambda>r. (ik_scope r, ik_key r))
        \<lparr>ik_scope = scope, ik_key = keyHash, ik_request = requestHash, ik_response = run,
         ik_expires = now + Day\<rparr> (db_idempotency d) of
        Inl e \<Rightarrow> Inl e
      | Inr rows \<Rightarrow> Inr ((), d\<lparr>db_idempotency := rows\<rparr>))"

definition pg_bundle_payload :: "RunBundle \<Rightarrow> RawMessage" where
  "pg_bundle_payload b = JSONObject
     [''run_id'' \<mapsto> AnyString (run_ID (rb_Run b)),
      ''scenario_id'' \<mapsto> AnyString (run_ScenarioID (rb_Run b)),
      ''status'' \<mapsto> AnyString (run_status_string (run_Status (rb_Run b))),
      ''environment'' \<mapsto> AnyString ''sandbox'',
      ''verification_fault'' \<mapsto> AnyString (rb_VerificationFault b)]"

definition value_evidence :: "Assertion \<Rightarrow> string \<rightharpoonup> any" where
  "value_evidence a = [''value'' \<mapsto> AnyString (as_Evidence a)]"

text \<open>The inserts of \<^verbatim>\<open>createRun\<close>: the run with its evidence, then what belongs to a project.\<close>

definition store_evidence :: "pg_env \<Rightarrow> string option \<Rightarrow> RunBundle \<Rightarrow> (pg, unit) op" where
  "store_evidence E projectID b =
     (let i = run_ID (rb_Run b); report = rb_Report b in
      chain (wrapping ''insert run'' (exec (\<lambda>now. insert_run E projectID b))) (\<lambda>_.
      chain (for_each (\<lambda>e. wrapping ''insert run event'' (exec (\<lambda>now. insert_event e)))
              (rb_Events b)) (\<lambda>_.
      chain (wrapping ''insert report'' (exec (\<lambda>now. insert_report E i report))) (\<lambda>_.
      chain (for_each (\<lambda>a. wrapping ''insert assertion''
                (exec (\<lambda>now. insert_assertion i (value_evidence a) a)))
              (rp_Assertions report)) (\<lambda>_.
      for_each (\<lambda>f. wrapping ''insert finding'' (exec (insert_finding i f)))
        (rp_Findings report))))))"

definition notify_project :: "pg_env \<Rightarrow> string option \<Rightarrow> RunBundle \<Rightarrow> (pg, unit) op" where
  "notify_project E projectID b =
     (case projectID of
        None \<Rightarrow> give ()
      | Some p \<Rightarrow>
          (let run = rb_Run b in
           chain (wrapping ''insert notification'' (exec (insert_notification E p (run_ID run)
             ''run.completed''
             [''run_id'' \<mapsto> AnyString (run_ID run),
              ''scenario_name'' \<mapsto> AnyString (run_ScenarioName run),
              ''status'' \<mapsto> AnyString (run_status_string (run_Status run))]))) (\<lambda>_.
           wrapping ''insert run audit''
             (insertAudit E p [] ''run.created'' ''run'' (run_ID run)
               [''scenario_id'' \<mapsto> AnyString (run_ScenarioID run)]))))"

definition createRun_tx ::
  "pg_env \<Rightarrow> string option \<Rightarrow> string \<Rightarrow> digest \<Rightarrow> digest \<Rightarrow> RunBundle \<Rightarrow>
   (pg, (Run \<times> bool) ending) op" where
  "createRun_tx E projectID scope keyHash requestHash b =
      (chain (exec (\<lambda>now d. Inr ((), d))) (\<lambda>_.
       chain (query (\<lambda>now d. Inr (select_idempotency scope keyHash now d))) (\<lambda>found.
       case found of
         Some (storedRequest, replay) \<Rightarrow>
           if storedRequest \<noteq> requestHash then raise ErrIdempotencyConflict
           else give (Commit (replay, True))
       | None \<Rightarrow>
           chain (store_evidence E projectID b) (\<lambda>_.
           chain (notify_project E projectID b) (\<lambda>_.
           chain (wrapping ''insert idempotency record''
                   (exec (insert_idempotency scope keyHash requestHash (rb_Run b)))) (\<lambda>_.
           chain (wrapping ''insert outbox record''
                   (exec (insert_outbox E (run_ID (rb_Run b))
                     (if rb_OutboxTopic b = [] then ''run.persisted'' else rb_OutboxTopic b)
                     (pg_bundle_payload b)))) (\<lambda>_.
           give (Commit (rb_Run b, False)))))))))"

definition Pg_createRun ::
  "pg_env \<Rightarrow> string option \<Rightarrow> string \<Rightarrow> digest \<Rightarrow> digest \<Rightarrow> RunBundle \<Rightarrow> (pg, Run \<times> bool) op" where
  "Pg_createRun E projectID scope keyHash requestHash b =
     in_tx (createRun_tx E projectID scope keyHash requestHash b)"

definition Pg_CreateRun ::
  "pg_env \<Rightarrow> digest \<Rightarrow> digest \<Rightarrow> RunBundle \<Rightarrow> (pg, Run \<times> bool) op" where
  "Pg_CreateRun E = Pg_createRun E None public_scope"

definition Pg_CreateRunForProject ::
  "pg_env \<Rightarrow> string \<Rightarrow> digest \<Rightarrow> digest \<Rightarrow> RunBundle \<Rightarrow> (pg, Run \<times> bool) op" where
  "Pg_CreateRunForProject E projectID = Pg_createRun E (Some projectID) (projectRunScope projectID)"

subsection \<open>Reads\<close>

text \<open>The three conditions on runs: any, of a project, of no project.\<close>

datatype run_scope = AnyRun | OfProject string | Unowned

definition scope_rows :: "pg_env \<Rightarrow> run_scope \<Rightarrow> Database \<Rightarrow> goerr + run_row list" where
  "scope_rows E sc d =
     (case sc of
        AnyRun \<Rightarrow> Inr (db_runs d)
      | Unowned \<Rightarrow> Inr (filter (\<lambda>r. rn_project r = None) (db_runs d))
      | OfProject p \<Rightarrow>
          (case uuid_param E p of
             Inl e \<Rightarrow> Inl e
           | Inr u \<Rightarrow> Inr (filter (\<lambda>r. rn_project r = Some u) (db_runs d))))"

definition scanRun :: "pg_env \<Rightarrow> run_scope \<Rightarrow> string \<Rightarrow> (pg, Run \<times> bool) op" where
  "scanRun E sc i =
     query (\<lambda>now d. case scope_rows E sc d of
       Inl e \<Rightarrow> Inl e
     | Inr rows \<Rightarrow>
         Inr (case row rn_id rows i of None \<Rightarrow> (zero_Run, False) | Some r \<Rightarrow> (rn_snapshot r, True)))"

definition run_exists :: "pg_env \<Rightarrow> run_scope \<Rightarrow> string \<Rightarrow> (pg, bool) op" where
  "run_exists E sc i =
     query (\<lambda>now d. case scope_rows E sc d of
       Inl e \<Rightarrow> Inl e | Inr rows \<Rightarrow> Inr (row rn_id rows i \<noteq> None))"

definition Pg_Run :: "pg_env \<Rightarrow> string \<Rightarrow> (pg, Run \<times> bool) op" where
  "Pg_Run E i = scanRun E AnyRun i"

definition Pg_RunForProject :: "pg_env \<Rightarrow> string \<Rightarrow> string \<Rightarrow> (pg, Run \<times> bool) op" where
  "Pg_RunForProject E projectID i = scanRun E (OfProject projectID) i"

definition Pg_PublicRun :: "pg_env \<Rightarrow> string \<Rightarrow> (pg, Run \<times> bool) op" where
  "Pg_PublicRun E i = scanRun E Unowned i"

text \<open>The events of a run, by sequence.\<close>

definition run_log :: "string \<Rightarrow> Database \<Rightarrow> event_row list" where
  "run_log i d = sort_key el_sequence (filter (\<lambda>r. el_run r = i) (db_events d))"

definition Pg_events :: "pg_env \<Rightarrow> string \<Rightarrow> string option \<Rightarrow> (pg, Event list \<times> bool) op" where
  "Pg_events E i projectID =
     chain (case projectID of None \<Rightarrow> give True | Some p \<Rightarrow> run_exists E (OfProject p) i) (\<lambda>ok.
       if \<not> ok then give ([], False)
       else chain (query (\<lambda>now d. Inr (map el_snapshot (run_log i d)))) (\<lambda>items.
         if items = [] then chain (run_exists E AnyRun i) (\<lambda>found. give (items, found))
         else give (items, True)))"

definition Pg_Events :: "pg_env \<Rightarrow> string \<Rightarrow> (pg, Event list \<times> bool) op" where
  "Pg_Events E i = Pg_events E i None"

definition Pg_EventsForProject :: "pg_env \<Rightarrow> string \<Rightarrow> string \<Rightarrow> (pg, Event list \<times> bool) op" where
  "Pg_EventsForProject E projectID i = Pg_events E i (Some projectID)"

definition Pg_PublicEvents :: "pg_env \<Rightarrow> string \<Rightarrow> (pg, Event list \<times> bool) op" where
  "Pg_PublicEvents E i =
     chain (run_exists E Unowned i) (\<lambda>ok. if \<not> ok then give ([], False) else Pg_events E i None)"

text \<open>
  Paging: the greatest sequence number of the run beside a page of its events, in one
  statement.  An empty project identifier does not restrict the run.
\<close>

definition int4_overflow :: goerr where
  "int4_overflow = ErrNew ''greater than maximum value for int4''"

definition high_water :: "event_row list \<Rightarrow> int" where
  "high_water rows = (if rows = [] then 0 else Max (el_sequence ` set rows))"

definition Pg_eventsAfter ::
  "pg_env \<Rightarrow> string \<Rightarrow> string \<Rightarrow> bool \<Rightarrow> int \<Rightarrow> int \<Rightarrow> (pg, EventStreamBatch \<times> bool) op" where
  "Pg_eventsAfter E i projectID publicOnly after limit0 =
     (let limit = (if limit0 \<le> 0 \<or> limit0 > 500 then 100 else limit0);
          sc = (if projectID \<noteq> [] then OfProject projectID else if publicOnly then Unowned else AnyRun)
      in chain (scanRun E sc i) (\<lambda>(run, found).
           if \<not> found then give (zero_EventStreamBatch, False)
           else chain (query (\<lambda>now d. if int4 after then Inr (run_log i d) else Inl int4_overflow)) (\<lambda>rows.
             give (\<lparr>eb_Run = run,
                    eb_Events = map el_snapshot
                      (take (nat limit) (filter (\<lambda>r. after < el_sequence r) rows)),
                    eb_HighWater = high_water rows\<rparr>, True))))"

definition Pg_EventsAfter :: "pg_env \<Rightarrow> string \<Rightarrow> int \<Rightarrow> int \<Rightarrow> (pg, EventStreamBatch \<times> bool) op" where
  "Pg_EventsAfter E i after limit = Pg_eventsAfter E i [] False after limit"

definition Pg_EventsAfterForProject ::
  "pg_env \<Rightarrow> string \<Rightarrow> string \<Rightarrow> int \<Rightarrow> int \<Rightarrow> (pg, EventStreamBatch \<times> bool) op" where
  "Pg_EventsAfterForProject E projectID i after limit = Pg_eventsAfter E i projectID False after limit"

definition Pg_PublicEventsAfter ::
  "pg_env \<Rightarrow> string \<Rightarrow> int \<Rightarrow> int \<Rightarrow> (pg, EventStreamBatch \<times> bool) op" where
  "Pg_PublicEventsAfter E i after limit = Pg_eventsAfter E i [] True after limit"

text \<open>\<^verbatim>\<open>SELECT rp.snapshot FROM reports rp JOIN runs r ON r.id = rp.run_id WHERE ...\<close>\<close>

definition scanReport :: "pg_env \<Rightarrow> run_scope \<Rightarrow> string \<Rightarrow> (pg, Report \<times> bool) op" where
  "scanReport E sc i =
     query (\<lambda>now d. case scope_rows E sc d of
       Inl e \<Rightarrow> Inl e
     | Inr rows \<Rightarrow>
         Inr (case (row rn_id rows i, row rt_run (db_reports d) i) of
                (Some _, Some r) \<Rightarrow> (rt_snapshot r, True)
              | _ \<Rightarrow> (zero_Report, False)))"

definition Pg_Report :: "pg_env \<Rightarrow> string \<Rightarrow> (pg, Report \<times> bool) op" where
  "Pg_Report E i = scanReport E AnyRun i"

definition Pg_ReportForProject :: "pg_env \<Rightarrow> string \<Rightarrow> string \<Rightarrow> (pg, Report \<times> bool) op" where
  "Pg_ReportForProject E projectID i = scanReport E (OfProject projectID) i"

definition Pg_PublicReport :: "pg_env \<Rightarrow> string \<Rightarrow> (pg, Report \<times> bool) op" where
  "Pg_PublicReport E i = scanReport E Unowned i"

text \<open>\<^verbatim>\<open>SELECT snapshot FROM runs ... ORDER BY started_at DESC\<close>\<close>

definition scanRuns :: "pg_env \<Rightarrow> run_scope \<Rightarrow> (pg, Run list) op" where
  "scanRuns E sc =
     query (\<lambda>now d. case scope_rows E sc d of
       Inl e \<Rightarrow> Inl e
     | Inr rows \<Rightarrow> Inr (map rn_snapshot (order_by E rn_id (\<lambda>r. - rn_started r) rows)))"

definition Pg_ListRuns :: "pg_env \<Rightarrow> (pg, Run list) op" where
  "Pg_ListRuns E = scanRuns E AnyRun"

definition Pg_ListRunsForProject :: "pg_env \<Rightarrow> string \<Rightarrow> (pg, Run list) op" where
  "Pg_ListRunsForProject E projectID = scanRuns E (OfProject projectID)"

definition Pg_ListPublicRuns :: "pg_env \<Rightarrow> (pg, Run list) op" where
  "Pg_ListPublicRuns E = scanRuns E Unowned"

subsection \<open>Evidence recorded by the worker\<close>

text \<open>\<^verbatim>\<open>UPDATE reports SET snapshot = $2, content_sha256 = $3 WHERE run_id = $1\<close>\<close>

definition update_report :: "pg_env \<Rightarrow> string \<Rightarrow> Report \<Rightarrow> Database \<Rightarrow> goerr + unit \<times> Database" where
  "update_report E i rep d =
     Inr ((), d\<lparr>db_reports := update_rows (\<lambda>r. rt_run r = i)
       (\<lambda>r. r\<lparr>rt_snapshot := rep, rt_sha256 := report_digest E rep\<rparr>) (db_reports d)\<rparr>)"

definition append_assertion :: "Assertion \<Rightarrow> Report \<Rightarrow> Report" where
  "append_assertion a rep =
     (let assertions = rp_Assertions rep @ [a]
      in rep\<lparr>rp_Assertions := assertions, rp_Summary := assertion_summary ''verification'' assertions\<rparr>)"

definition record_tx :: "pg_env \<Rightarrow> VerificationEvidence \<Rightarrow> (pg, unit ending) op" where
  "record_tx E evidence =
     (let i = ve_RunID evidence; a = ve_Assertion evidence in
       (chain (query (\<lambda>now d. case row rt_run (db_reports d) i of
                 None \<Rightarrow> Inl ErrNoRows | Some r \<Rightarrow> Inr (rt_snapshot r))) (\<lambda>report.
        if HasAssertion (rp_Assertions report) (as_ID a) then give (Commit ())
        else
          chain (exec (\<lambda>now. update_report E i (append_assertion a report))) (\<lambda>_.
          chain (exec (\<lambda>now. insert_assertion i
                  [''reference'' \<mapsto> AnyString (as_Evidence a),
                   ''checkpoint'' \<mapsto> AnyString (ve_Checkpoint evidence)] a)) (\<lambda>_.
          give (Commit ()))))))"

definition Pg_RecordVerification :: "pg_env \<Rightarrow> VerificationEvidence \<Rightarrow> (pg, unit) op" where
  "Pg_RecordVerification E evidence = in_tx (record_tx E evidence)"

text \<open>The upsert of an effect; \<^verbatim>\<open>xmax = 0\<close> tells an insert from an update.\<close>

definition upsert_effect :: "string \<Rightarrow> int \<Rightarrow> Database \<Rightarrow> goerr + bool \<times> Database" where
  "upsert_effect effectID sequence d =
     (if sequence \<le> 0 \<or> \<not> int4 sequence then Inl check_violation
      else if row ef_id (db_effects d) effectID = None
      then Inr (True, d\<lparr>db_effects := db_effects d @ [\<lparr>ef_id = effectID, ef_sequence = sequence\<rparr>]\<rparr>)
      else Inr (False, d\<lparr>db_effects := update_rows (\<lambda>r. ef_id r = effectID)
             (\<lambda>r. r\<lparr>ef_sequence := max (ef_sequence r) sequence\<rparr>) (db_effects d)\<rparr>))"

definition Pg_ApplyReferenceMerchantEffect :: "string \<Rightarrow> int \<Rightarrow> (pg, bool) op" where
  "Pg_ApplyReferenceMerchantEffect effectID sequence =
     chain (exec (\<lambda>now. upsert_effect effectID sequence)) (\<lambda>inserted. give (\<not> inserted))"

end
