(* ===== verification/PgWebhooks.thy ===== *)
theory PgWebhooks
  imports PgRuns
begin

text \<open>
  The webhook store of the Postgres repository: the durable deduplication of deliveries, and
  the correlation of a received event with its run, in one transaction that projects the event
  into the run, its report and the table of webhook evidence.
\<close>

subsection \<open>Deduplication\<close>

definition receipt_row :: "WebhookReceipt \<Rightarrow> webhook_row" where
  "receipt_row receipt =
     \<lparr>wh_id = wr_EventID receipt, wh_endpoint = wr_EndpointTokenSHA receipt,
      wh_type = wr_EventType receipt, wh_body = wr_BodySHA receipt,
      wh_createdAt = nullableTime (wr_StripeCreatedAt receipt),
      wh_object = nullableString (wr_StripeObjectID receipt),
      wh_objectStatus = nullableString (wr_ObjectStatus receipt),
      wh_correlation = nullableString (wr_CorrelationID receipt), wh_status = WebhookPending,
      wh_processedAt = None, wh_code = None, wh_run = None, wh_project = None\<rparr>"

text \<open>The number of rows inserted.\<close>

definition insert_webhook :: "WebhookReceipt \<Rightarrow> Database \<Rightarrow> goerr + nat \<times> Database" where
  "insert_webhook receipt d =
     (if row wh_id (db_webhooks d) (wr_EventID receipt) \<noteq> None then Inr (0, d)
      else Inr (1, d\<lparr>db_webhooks := db_webhooks d @ [receipt_row receipt]\<rparr>))"

definition mark_tx :: "pg_env \<Rightarrow> WebhookReceipt \<Rightarrow> (pg, bool ending) op" where
  "mark_tx E receipt =
      (chain (exec (\<lambda>now. insert_webhook receipt)) (\<lambda>affected.
       if affected = 1
       then chain (exec (insert_outbox E (wr_EventID receipt) ''stripe.webhook.received''
                     (webhook_payload receipt))) (\<lambda>_. give (Commit False))
       else chain (query (\<lambda>now d. case row wh_id (db_webhooks d) (wr_EventID receipt) of
                     None \<Rightarrow> Inl ErrNoRows | Some r \<Rightarrow> Inr r)) (\<lambda>stored.
              if wh_body stored \<noteq> wr_BodySHA receipt \<or>
                 wh_endpoint stored \<noteq> wr_EndpointTokenSHA receipt \<or>
                 wh_type stored \<noteq> wr_EventType receipt
              then raise ErrWebhookConflict else give (Commit True))))"

definition Pg_MarkWebhookSeen :: "pg_env \<Rightarrow> WebhookReceipt \<Rightarrow> (pg, bool) op" where
  "Pg_MarkWebhookSeen E receipt = in_tx (mark_tx E receipt)"

subsection \<open>Correlation\<close>

text \<open>What \<^verbatim>\<open>ProcessStripeWebhook\<close> reads back of a receipt.\<close>

definition stored_receipt :: "webhook_row \<Rightarrow> WebhookReceipt" where
  "stored_receipt r =
     \<lparr>wr_EventID = wh_id r, wr_EventType = wh_type r, wr_EndpointTokenSHA = replicate 32 (CHR 0x00),
      wr_BodySHA = replicate 32 (CHR 0x00),
      wr_StripeCreatedAt = (case wh_createdAt r of None \<Rightarrow> zero_time | Some t \<Rightarrow> t),
      wr_StripeObjectID = coalesce_text (wh_object r),
      wr_ObjectStatus = coalesce_text (wh_objectStatus r),
      wr_CorrelationID = coalesce_text (wh_correlation r)\<rparr>"

definition stored_result :: "webhook_row \<Rightarrow> WebhookProcessingResult" where
  "stored_result r =
     \<lparr>wp_EventID = wh_id r, wp_EventType = wh_type r, wp_Status = wh_status r,
      wp_RunID = coalesce_text (wh_run r), wp_ProjectID = coalesce_text (wh_project r),
      wp_ProcessingCode = coalesce_text (wh_code r), wp_AlreadyProcessed = True\<rparr>"

text \<open>
  \<^verbatim>\<open>finishWebhookProcessing\<close>: the update of the pending receipt, whose run and project are foreign
  keys, and the commit.
\<close>

definition finishWebhookProcessing ::
  "pg_env \<Rightarrow> WebhookReceipt \<Rightarrow> WebhookProcessingStatus \<Rightarrow> string \<Rightarrow> string \<Rightarrow> string \<Rightarrow>
   (pg, WebhookProcessingResult ending) op" where
  "finishWebhookProcessing E receipt status runIdent projectID code =
     chain (exec (\<lambda>now d.
       case uuid_param_null E (nullableString projectID) of
         Inl e \<Rightarrow> Inl e
       | Inr project \<Rightarrow>
           (let P = (\<lambda>r. wh_id r = wr_EventID receipt \<and> wh_status r = WebhookPending) in
            if filter P (db_webhooks d) \<noteq> [] \<and>
               (\<not> references_null rn_id (db_runs d) (nullableString runIdent) \<or>
                \<not> references_null pj_id (db_projects d) project)
            then Inl foreign_key_violation
            else Inr (length (filter P (db_webhooks d)),
              d\<lparr>db_webhooks := update_rows P
                 (\<lambda>r. r\<lparr>wh_status := status, wh_run := nullableString runIdent, wh_project := project,
                        wh_processedAt := Some now, wh_code := nullableString code\<rparr>)
                 (db_webhooks d)\<rparr>)))) (\<lambda>affected.
     if affected \<noteq> 1 then raise (ErrNew ''webhook processing state changed'')
     else give (Commit
       \<lparr>wp_EventID = wr_EventID receipt, wp_EventType = wr_EventType receipt, wp_Status = status,
        wp_RunID = runIdent, wp_ProjectID = projectID, wp_ProcessingCode = code,
        wp_AlreadyProcessed = False\<rparr>))"

text \<open>\<^verbatim>\<open>SELECT id, project_id, stripe_correlation_id FROM runs WHERE stripe_object_id = $1 ORDER BY id\<close>\<close>

definition run_candidates :: "WebhookReceipt \<Rightarrow> Database \<Rightarrow> (string \<times> string \<times> string) list" where
  "run_candidates receipt d =
     map (\<lambda>r. (rn_id r, coalesce_text (rn_project r), coalesce_text (rn_correlation r)))
       (sort_key rn_id (filter (\<lambda>r. rn_object r = wr_StripeObjectID receipt) (db_runs d)))"

text \<open>The statements that project a matched event into its run.\<close>

definition insert_evidence ::
  "pg_env \<Rightarrow> WebhookReceipt \<Rightarrow> string \<Rightarrow> string \<Rightarrow> string \<Rightarrow> Database \<Rightarrow> goerr + unit \<times> Database" where
  "insert_evidence E receipt i projectID eventID d =
     (case uuid_param_null E (nullableString projectID) of
        Inl e \<Rightarrow> Inl e
      | Inr project \<Rightarrow>
          if row wv_id (db_evidence d) (wr_EventID receipt) \<noteq> None then Inr ((), d)
          else if row wv_event (db_evidence d) eventID \<noteq> None then Inl unique_violation
          else if row wh_id (db_webhooks d) (wr_EventID receipt) = None \<or>
                  row rn_id (db_runs d) i = None \<or> row el_id (db_events d) eventID = None \<or>
                  \<not> references_null pj_id (db_projects d) project
          then Inl foreign_key_violation
          else Inr ((), d\<lparr>db_evidence := db_evidence d @
            [\<lparr>wv_id = wr_EventID receipt, wv_run = i, wv_project = project,
              wv_type = wr_EventType receipt, wv_object = wr_StripeObjectID receipt,
              wv_objectStatus = wr_ObjectStatus receipt,
              wv_correlation = wr_CorrelationID receipt, wv_event = eventID\<rparr>]\<rparr>))"

definition update_run_snapshot :: "string \<Rightarrow> Run \<Rightarrow> Database \<Rightarrow> goerr + unit \<times> Database" where
  "update_run_snapshot i run d =
     (if \<not> int4 (run_EventCount run) then Inl check_violation
      else Inr ((), d\<lparr>db_runs := update_rows (\<lambda>r. rn_id r = i)
        (\<lambda>r. r\<lparr>rn_snapshot := run\<rparr>) (db_runs d)\<rparr>))"

definition select_or_no_rows :: "('r \<Rightarrow> 'v) \<Rightarrow> 'r option \<Rightarrow> goerr + 'v" where
  "select_or_no_rows f found = (case found of None \<Rightarrow> Inl ErrNoRows | Some r \<Rightarrow> Inr (f r))"

text \<open>The report with the correlated run, and the assertion if it was not there yet.\<close>

definition project_report ::
  "pg_env \<Rightarrow> WebhookReceipt \<Rightarrow> string \<Rightarrow> Run \<Rightarrow> (pg, unit) op" where
  "project_report E receipt i run =
     chain (query (\<lambda>now d. select_or_no_rows rt_snapshot (row rt_run (db_reports d) i))) (\<lambda>report0.
     (let report = report0\<lparr>rp_Run := run\<rparr>;
          a = WebhookCorrelationAssertion receipt;
          fresh = (\<not> HasAssertion (rp_Assertions report) (as_ID a))
      in chain (if fresh
                then exec (\<lambda>now. insert_assertion i
                       [''reference'' \<mapsto> AnyString (as_Evidence a),
                        ''checkpoint'' \<mapsto> AnyString ''stripe-webhook''] a)
                else give ()) (\<lambda>_.
         exec (\<lambda>now. update_report E i (if fresh then append_assertion a report else report)))))"

definition project_match ::
  "pg_env \<Rightarrow> time \<Rightarrow> WebhookReceipt \<Rightarrow> string \<Rightarrow> string \<Rightarrow> (pg, WebhookProcessingResult ending) op" where
  "project_match E clientNow receipt i projectID =
     chain (query (\<lambda>now d. select_or_no_rows rn_snapshot (row rn_id (db_runs d) i))) (\<lambda>run0.
     chain (query (\<lambda>now d. Inr (high_water (run_log i d) + 1))) (\<lambda>nextSequence.
     (let runEvent = BuildWebhookRunEvent (pe_crypto E) clientNow receipt i nextSequence in
      chain (exec (\<lambda>now. insert_event runEvent)) (\<lambda>_.
      chain (query (\<lambda>now d. Inr (int (length (run_log i d))))) (\<lambda>count.
      (let run = run0\<lparr>run_EventCount := count\<rparr> in
       chain (exec (\<lambda>now. update_run_snapshot i run)) (\<lambda>_.
       chain (project_report E receipt i run) (\<lambda>_.
       chain (exec (\<lambda>now. insert_evidence E receipt i projectID (ev_ID runEvent))) (\<lambda>_.
       finishWebhookProcessing E receipt WebhookMatched i projectID [])))))))))"

text \<open>The decision over the candidates.\<close>

definition correlate ::
  "pg_env \<Rightarrow> time \<Rightarrow> WebhookReceipt \<Rightarrow> (string \<times> string \<times> string) list \<Rightarrow>
   (pg, WebhookProcessingResult ending) op" where
  "correlate E clientNow receipt found =
     (if found = []
      then finishWebhookProcessing E receipt WebhookUnmatched [] [] ''run_not_found''
      else case filter (\<lambda>(i, project, correlation). correlation = wr_CorrelationID receipt) found of
        [] \<Rightarrow> finishWebhookProcessing E receipt WebhookUnmatched [] [] ''correlation_mismatch''
      | (i, project, correlation) # others \<Rightarrow>
          if others \<noteq> []
          then finishWebhookProcessing E receipt WebhookUnmatched [] [] ''ambiguous_run_match''
          else project_match E clientNow receipt i project)"

definition process_tx ::
  "pg_env \<Rightarrow> time \<Rightarrow> string \<Rightarrow> (pg, WebhookProcessingResult ending) op" where
  "process_tx E clientNow eventID =
      (chain (query (\<lambda>now d. select_or_no_rows id (row wh_id (db_webhooks d) eventID))) (\<lambda>stored.
       (let receipt = stored_receipt stored in
        if wh_status stored \<noteq> WebhookPending then give (Commit (stored_result stored))
        else if \<not> IsSupportedStripeWebhookType (wr_EventType receipt)
        then finishWebhookProcessing E receipt WebhookIgnored [] [] ''unsupported_event_type''
        else if wr_StripeObjectID receipt = []
        then finishWebhookProcessing E receipt WebhookUnmatched [] [] ''missing_stripe_object_id''
        else if wr_CorrelationID receipt = []
        then finishWebhookProcessing E receipt WebhookUnmatched [] [] ''missing_correlation_id''
        else chain (query (\<lambda>now d. Inr (run_candidates receipt d))) (correlate E clientNow receipt))))"

definition Pg_ProcessStripeWebhook ::
  "pg_env \<Rightarrow> time \<Rightarrow> string \<Rightarrow> (pg, WebhookProcessingResult) op" where
  "Pg_ProcessStripeWebhook E clientNow eventID = in_tx (process_tx E clientNow eventID)"

end
