(* ===== verification/PgConnections.thy ===== *)
theory PgConnections
  imports PgState
begin

text \<open>
  Stripe connections in the Postgres repository: one row per project and account, updated in
  place by a repeated save; lists leave the secret out.
\<close>

definition demoOrganizationID :: string where
  "demoOrganizationID = ''00000000-0000-7000-8000-000000000001''"

definition demoProjectID :: string where
  "demoProjectID = ''00000000-0000-7000-8000-000000000002''"

definition stored_connection :: "connection_row \<Rightarrow> StripeConnection" where
  "stored_connection r =
     \<lparr>sc_ID = cn_id r, sc_StripeAccountID = cn_account r, sc_SandboxName = cn_name r,
      sc_Status = cn_status r, sc_CreatedAt = cn_created r, sc_SecretCiphertext = cn_ciphertext r,
      sc_SecretEncryptionKeyID = cn_keyVersion r\<rparr>"

definition connection_status :: "string \<Rightarrow> bool" where
  "connection_status v \<longleftrightarrow> v \<in> {''pending'', ''connected'', ''invalid'', ''revoked''}"

text \<open>
  \<^verbatim>\<open>INSERT INTO stripe_connections ... ON CONFLICT (project_id, stripe_account_id) DO UPDATE SET ...
  RETURNING ...\<close>; the key version is a \<^verbatim>\<open>smallint\<close>.
\<close>

definition upsert_connection ::
  "pg_env \<Rightarrow> string \<Rightarrow> StripeConnection \<Rightarrow> time \<Rightarrow> Database \<Rightarrow> goerr + StripeConnection \<times> Database" where
  "upsert_connection E projectID c now d =
     (case (uuid_param E (sc_ID c), uuid_param E projectID) of
        (Inr i, Inr project) \<Rightarrow>
          if sc_SecretEncryptionKeyID c \<le> 0 \<or> 32767 < sc_SecretEncryptionKeyID c \<or>
             \<not> connection_status (sc_Status c) then Inl check_violation
          else (case row (\<lambda>r. (cn_project r, cn_account r)) (db_connections d)
                       (project, sc_StripeAccountID c) of
                  Some r \<Rightarrow>
                    (let r' = r\<lparr>cn_name := sc_SandboxName c, cn_ciphertext := sc_SecretCiphertext c,
                                cn_keyVersion := sc_SecretEncryptionKeyID c,
                                cn_status := sc_Status c, cn_updated := now\<rparr>
                     in Inr (stored_connection r',
                          d\<lparr>db_connections := update_rows (\<lambda>x. cn_id x = cn_id r) (\<lambda>_. r')
                             (db_connections d)\<rparr>))
                | None \<Rightarrow>
                    (let r' = \<lparr>cn_id = i, cn_project = project, cn_account = sc_StripeAccountID c,
                        cn_name = sc_SandboxName c, cn_ciphertext = sc_SecretCiphertext c,
                        cn_keyVersion = sc_SecretEncryptionKeyID c, cn_status = sc_Status c,
                        cn_created = timestamptz (sc_CreatedAt c),
                        cn_updated = timestamptz (sc_CreatedAt c)\<rparr>
                     in case insert_row cn_id r' (db_connections d) of
                          Inl e \<Rightarrow> Inl e
                        | Inr rows \<Rightarrow>
                            if row pj_id (db_projects d) project = None then Inl foreign_key_violation
                            else Inr (stored_connection r', d\<lparr>db_connections := rows\<rparr>)))
      | (Inl e, _) \<Rightarrow> Inl e
      | (_, Inl e) \<Rightarrow> Inl e)"

definition insert_demo_organization :: "Database \<Rightarrow> goerr + unit \<times> Database" where
  "insert_demo_organization d =
     Inr ((), d\<lparr>db_organizations := insert_new og_id
       \<lparr>og_id = demoOrganizationID, og_name = ''ParityLab local workspace''\<rparr> (db_organizations d)\<rparr>)"

text \<open>\<^verbatim>\<open>ON CONFLICT (id)\<close> does not cover the unique name of a project in its organization.\<close>

definition insert_demo_project :: "time \<Rightarrow> Database \<Rightarrow> goerr + unit \<times> Database" where
  "insert_demo_project now d =
     (if row pj_id (db_projects d) demoProjectID \<noteq> None then Inr ((), d)
      else if row (\<lambda>r. (pj_organization r, pj_name r)) (db_projects d)
                (demoOrganizationID, ''Default sandbox'') \<noteq> None then Inl unique_violation
      else Inr ((), d\<lparr>db_projects := db_projects d @
        [\<lparr>pj_id = demoProjectID, pj_organization = demoOrganizationID, pj_name = ''Default sandbox'',
          pj_retention = 30, pj_created = now\<rparr>]\<rparr>))"

definition Pg_SaveStripeConnection ::
  "pg_env \<Rightarrow> StripeConnection \<Rightarrow> (pg, StripeConnection) op" where
  "Pg_SaveStripeConnection E connection =
     in_tx
      (chain (exec (\<lambda>now. insert_demo_organization)) (\<lambda>_.
       chain (exec insert_demo_project) (\<lambda>_.
       chain (exec (upsert_connection E demoProjectID connection)) (\<lambda>stored.
       give (Commit stored)))))"

definition Pg_SaveStripeConnectionForProject ::
  "pg_env \<Rightarrow> string \<Rightarrow> StripeConnection \<Rightarrow> (pg, StripeConnection) op" where
  "Pg_SaveStripeConnectionForProject E projectID connection =
     in_tx
      (chain (exec (upsert_connection E projectID connection)) (\<lambda>stored.
       chain (insertAudit E projectID [] ''connection.validated'' ''stripe_connection'' (sc_ID stored)
               [''stripe_account_id'' \<mapsto> AnyString (sc_StripeAccountID stored)]) (\<lambda>_.
       give (Commit stored))))"

definition found_connection :: "connection_row option \<Rightarrow> StripeConnection \<times> bool" where
  "found_connection v =
     (case v of None \<Rightarrow> (zero_StripeConnection, False) | Some r \<Rightarrow> (stored_connection r, True))"

definition Pg_StripeConnection :: "pg_env \<Rightarrow> string \<Rightarrow> (pg, StripeConnection \<times> bool) op" where
  "Pg_StripeConnection E i =
     query (\<lambda>now d. case uuid_param E i of
       Inl e \<Rightarrow> Inl e | Inr u \<Rightarrow> Inr (found_connection (row cn_id (db_connections d) u)))"

definition Pg_StripeConnectionForProject ::
  "pg_env \<Rightarrow> string \<Rightarrow> string \<Rightarrow> (pg, StripeConnection \<times> bool) op" where
  "Pg_StripeConnectionForProject E projectID i =
     query (\<lambda>now d. case (uuid_param E i, uuid_param E projectID) of
       (Inr u, Inr project) \<Rightarrow>
         Inr (found_connection (row cn_id (filter (\<lambda>r. cn_project r = project) (db_connections d)) u))
     | (Inl e, _) \<Rightarrow> Inl e
     | (_, Inl e) \<Rightarrow> Inl e)"

text \<open>The columns a list selects: neither the secret nor its key.\<close>

definition listed_connection :: "connection_row \<Rightarrow> StripeConnection" where
  "listed_connection r =
     zero_StripeConnection\<lparr>sc_ID := cn_id r, sc_StripeAccountID := cn_account r,
       sc_SandboxName := cn_name r, sc_Status := cn_status r, sc_CreatedAt := cn_created r\<rparr>"

definition Pg_ListStripeConnectionsForProject ::
  "pg_env \<Rightarrow> string \<Rightarrow> (pg, StripeConnection list) op" where
  "Pg_ListStripeConnectionsForProject E projectID =
     query (\<lambda>now d. case uuid_param E projectID of
       Inl e \<Rightarrow> Inl e
     | Inr project \<Rightarrow> Inr (map listed_connection (order_by E cn_id (\<lambda>r. - cn_created r)
         (filter (\<lambda>r. cn_project r = project) (db_connections d)))))"

end
