(* ===== verification/PgOutbox.thy ===== *)
theory PgOutbox
  imports PgState
begin

text \<open>
  The outbox of the Postgres repository: claiming with a lease, heartbeats, completion, retry
  and failure.  A claim is a transaction that locks the row it selects and skips rows that
  other transactions hold; the other operations are single statements guarded by the owner.
\<close>

definition outbox_open :: "outbox_row \<Rightarrow> bool" where
  "outbox_open r \<longleftrightarrow> ob_published r = None \<and> ob_failed r = None"

text \<open>
  \<^verbatim>\<open>published_at IS NULL AND failed_at IS NULL AND available_at <= now() AND topic = ANY($2) AND
  (locked_at IS NULL OR locked_at < now() - ($1 * interval '1 millisecond'))\<close>
\<close>

definition row_claimable :: "time \<Rightarrow> int \<Rightarrow> string list \<Rightarrow> outbox_row \<Rightarrow> bool" where
  "row_claimable now leaseMS topics r \<longleftrightarrow>
     outbox_open r \<and> ob_available r \<le> now \<and> ob_topic r \<in> set topics \<and>
     (case ob_lockedAt r of None \<Rightarrow> True | Some t \<Rightarrow> t < now - leaseMS * Millisecond)"

text \<open>\<^verbatim>\<open>ORDER BY created_at, id FOR UPDATE SKIP LOCKED LIMIT 1\<close>\<close>

definition select_claim ::
  "string list \<Rightarrow> int \<Rightarrow> string list \<Rightarrow> time \<Rightarrow> Database \<Rightarrow> outbox_row option" where
  "select_claim locked leaseMS topics now d =
     (case sort_key (\<lambda>r. (ob_created r, ob_id r))
        (filter (\<lambda>r. row_claimable now leaseMS topics r \<and> ob_id r \<notin> set locked) (db_outbox d)) of
        [] \<Rightarrow> None | r # rs \<Rightarrow> Some r)"

definition update_outbox ::
  "(outbox_row \<Rightarrow> bool) \<Rightarrow> (outbox_row \<Rightarrow> outbox_row) \<Rightarrow> Database \<Rightarrow> goerr + nat \<times> Database" where
  "update_outbox P f d =
     Inr (length (filter P (db_outbox d)), d\<lparr>db_outbox := update_rows P f (db_outbox d)\<rparr>)"

text \<open>
  \<^verbatim>\<open>ClaimOutbox\<close>: \<^verbatim>\<open>clientNow\<close> is \<^verbatim>\<open>time.Now()\<close> of the process, which only goes into the message it
  returns; the row gets the time of the server.
\<close>

definition claim_tx ::
  "time \<Rightarrow> string \<Rightarrow> duration \<Rightarrow> string list \<Rightarrow> string list \<Rightarrow>
   (pg, (OutboxMessage \<times> bool) ending) op" where
  "claim_tx clientNow owner lease topics locked =
      (chain (query (\<lambda>now d. Inr (select_claim locked (Milliseconds lease) topics now d)))
        (\<lambda>found. case found of
           None \<Rightarrow> give (Abandon (zero_OutboxMessage, False))
         | Some r \<Rightarrow>
             chain (exec (\<lambda>now. update_outbox (\<lambda>r'. ob_id r' = ob_id r)
               (\<lambda>r'. r'\<lparr>ob_lockedAt := Some now, ob_lockedBy := Some owner,
                       ob_attempts := ob_attempts r' + 1\<rparr>))) (\<lambda>_.
             give (Commit
               (\<lparr>om_ID = ob_id r, om_Topic = ob_topic r, om_AggregateID = ob_aggregate r,
                 om_Payload = ob_payload r, om_Attempts = ob_attempts r + 1,
                 om_LockedBy = owner, om_LockedAt = clientNow\<rparr>, True)))))"

definition Pg_ClaimOutbox ::
  "time \<Rightarrow> string \<Rightarrow> duration \<Rightarrow> string list \<Rightarrow> (pg, OutboxMessage \<times> bool) op" where
  "Pg_ClaimOutbox clientNow owner lease topics s =
     in_tx (claim_tx clientNow owner lease topics (ss_locked s)) s"

text \<open>\<^verbatim>\<open>WHERE id = $1 AND locked_by = $2 AND published_at IS NULL AND failed_at IS NULL\<close>\<close>

definition held_by :: "string \<Rightarrow> string \<Rightarrow> outbox_row \<Rightarrow> bool" where
  "held_by u owner r \<longleftrightarrow> ob_id r = u \<and> ob_lockedBy r = Some owner \<and> outbox_open r"

definition update_held ::
  "pg_env \<Rightarrow> string \<Rightarrow> string \<Rightarrow> (time \<Rightarrow> outbox_row \<Rightarrow> outbox_row) \<Rightarrow> (pg, nat) op" where
  "update_held E i owner f =
     exec (\<lambda>now d. case uuid_param E i of
       Inl e \<Rightarrow> Inl e | Inr u \<Rightarrow> update_outbox (held_by u owner) (f now) d)"

definition Pg_HeartbeatOutbox ::
  "pg_env \<Rightarrow> string \<Rightarrow> string \<Rightarrow> duration \<Rightarrow> (pg, bool) op" where
  "Pg_HeartbeatOutbox E i owner lease =
     chain (update_held E i owner (\<lambda>now r. r\<lparr>ob_lockedAt := Some now\<rparr>)) (\<lambda>affected. give (affected = 1))"

definition lease_lost_unless_one :: "nat \<Rightarrow> (pg, unit) op" where
  "lease_lost_unless_one affected =
     (if affected \<noteq> 1 then raise (ErrNew ''outbox lease lost'') else give ())"

definition Pg_CompleteOutbox :: "pg_env \<Rightarrow> string \<Rightarrow> string \<Rightarrow> (pg, unit) op" where
  "Pg_CompleteOutbox E i owner =
     chain (update_held E i owner (\<lambda>now r. r\<lparr>ob_published := Some now, ob_lockedAt := None,
              ob_lockedBy := None\<rparr>))
       lease_lost_unless_one"

definition Pg_RetryOutbox ::
  "pg_env \<Rightarrow> string \<Rightarrow> string \<Rightarrow> duration \<Rightarrow> string \<Rightarrow> (pg, unit) op" where
  "Pg_RetryOutbox E i owner delay code =
     chain (update_held E i owner (\<lambda>now r. r\<lparr>ob_available := now + Milliseconds delay * Millisecond,
              ob_lockedAt := None, ob_lockedBy := None, ob_error := Some code\<rparr>))
       lease_lost_unless_one"

definition Pg_FailOutbox :: "pg_env \<Rightarrow> string \<Rightarrow> string \<Rightarrow> string \<Rightarrow> (pg, unit) op" where
  "Pg_FailOutbox E i owner code =
     chain (update_held E i owner (\<lambda>now r. r\<lparr>ob_failed := Some now, ob_lockedAt := None,
              ob_lockedBy := None, ob_error := Some code\<rparr>))
       lease_lost_unless_one"

end
