(* ===== verification/PgRepo.thy ===== *)
theory PgRepo
  imports PgWebhooks PgConnections PgOutbox
begin

text \<open>
  The Postgres repository as a provider of the persistence port, and that every operation of
  it is atomic whatever the driver does.
\<close>

subsection \<open>The port\<close>

definition pg_tenant :: "pg_env \<Rightarrow> pg TenantRepository" where
  "pg_tenant E =
     \<lparr>t_ReplayRunForProject = Pg_ReplayRunForProject,
      t_CreateRunForProject = \<lambda>now. Pg_CreateRunForProject E,
      t_RunForProject = Pg_RunForProject E, t_EventsForProject = Pg_EventsForProject E,
      t_EventsAfterForProject = Pg_EventsAfterForProject E,
      t_ReportForProject = Pg_ReportForProject E, t_ListRunsForProject = Pg_ListRunsForProject E,
      t_SaveStripeConnectionForProject = Pg_SaveStripeConnectionForProject E,
      t_StripeConnectionForProject = Pg_StripeConnectionForProject E,
      t_ListStripeConnectionsForProject = Pg_ListStripeConnectionsForProject E\<rparr>"

definition pg_public :: "pg_env \<Rightarrow> pg PublicRepository" where
  "pg_public E =
     \<lparr>p_PublicRun = Pg_PublicRun E, p_PublicEvents = Pg_PublicEvents E,
      p_PublicEventsAfter = Pg_PublicEventsAfter E, p_PublicReport = Pg_PublicReport E,
      p_ListPublicRuns = Pg_ListPublicRuns E\<rparr>"

definition pg_port :: "pg_env \<Rightarrow> pg Repository" where
  "pg_port E =
     \<lparr>r_NextRunID = Pg_NextRunID, r_ReplayRun = Pg_ReplayRun,
      r_CreateRun = \<lambda>now. Pg_CreateRun E, r_Run = Pg_Run E, r_Events = Pg_Events E,
      r_EventsAfter = Pg_EventsAfter E, r_Report = Pg_Report E, r_ListRuns = Pg_ListRuns E,
      r_MarkWebhookSeen = \<lambda>now. Pg_MarkWebhookSeen E,
      r_ProcessStripeWebhook = Pg_ProcessStripeWebhook E,
      r_SaveStripeConnection = Pg_SaveStripeConnection E,
      r_StripeConnection = Pg_StripeConnection E, r_ClaimOutbox = Pg_ClaimOutbox,
      r_HeartbeatOutbox = \<lambda>now. Pg_HeartbeatOutbox E, r_CompleteOutbox = Pg_CompleteOutbox E,
      r_RetryOutbox = \<lambda>now. Pg_RetryOutbox E, r_FailOutbox = Pg_FailOutbox E,
      r_RecordVerification = Pg_RecordVerification E,
      r_ApplyReferenceMerchantEffect = Pg_ApplyReferenceMerchantEffect,
      r_Tenant = Some (pg_tenant E), r_Public = Some (pg_public E)\<rparr>"

subsection \<open>Every operation is atomic\<close>

lemma faithful_insertAudit [faithful_intros]: "faithful (insertAudit E p a act ty i md)"
  unfolding insertAudit_def by (rule faithful_exec)

lemma faithful_finish [faithful_intros]: "faithful (finishWebhookProcessing E rc st i p c)"
  unfolding finishWebhookProcessing_def by (intro faithful_intros)

lemma faithful_store_evidence [faithful_intros]: "faithful (store_evidence E p b)"
  unfolding store_evidence_def by (intro faithful_intros)

lemma faithful_notify_project [faithful_intros]: "faithful (notify_project E p b)"
  unfolding notify_project_def by (intro faithful_intros)

lemma faithful_project_report [faithful_intros]: "faithful (project_report E rc i run)"
  unfolding project_report_def by (intro faithful_intros)

lemma faithful_project_match [faithful_intros]: "faithful (project_match E now rc i p)"
  unfolding project_match_def by (intro faithful_intros)

lemma faithful_correlate [faithful_intros]: "faithful (correlate E now rc found)"
  unfolding correlate_def by (intro faithful_intros)

lemma faithful_create_tx [faithful_intros]: "faithful (createRun_tx E p scope k h b)"
  unfolding createRun_tx_def by (intro faithful_intros)

lemma faithful_record_tx [faithful_intros]: "faithful (record_tx E ev)"
  unfolding record_tx_def by (intro faithful_intros)

lemma faithful_mark_tx [faithful_intros]: "faithful (mark_tx E rc)"
  unfolding mark_tx_def by (intro faithful_intros)

lemma faithful_claim_tx [faithful_intros]: "faithful (claim_tx now owner lease topics locked)"
  unfolding claim_tx_def by (intro faithful_intros)

lemma faithful_process_tx [faithful_intros]: "faithful (process_tx E now i)"
  unfolding process_tx_def by (intro faithful_intros)

named_theorems atomic_ops \<open>the operations that change the database are atomic\<close>

lemma atomic_next [atomic_ops]: "atomic Pg_NextRunID"
  unfolding Pg_NextRunID_def by (rule atomic_exec)

lemma atomic_create [atomic_ops]: "atomic (Pg_createRun E p scope k h b)"
  unfolding Pg_createRun_def by (intro atomic_in_tx faithful_intros)

lemma atomic_mark [atomic_ops]: "atomic (Pg_MarkWebhookSeen E rc)"
  unfolding Pg_MarkWebhookSeen_def by (intro atomic_in_tx faithful_intros)

lemma atomic_process [atomic_ops]: "atomic (Pg_ProcessStripeWebhook E now i)"
  unfolding Pg_ProcessStripeWebhook_def by (intro atomic_in_tx faithful_intros)

lemma atomic_save [atomic_ops]: "atomic (Pg_SaveStripeConnection E c)"
  unfolding Pg_SaveStripeConnection_def by (intro atomic_in_tx faithful_intros)

lemma atomic_save_project [atomic_ops]: "atomic (Pg_SaveStripeConnectionForProject E p c)"
  unfolding Pg_SaveStripeConnectionForProject_def by (intro atomic_in_tx faithful_intros)

lemma atomic_claim [atomic_ops]: "atomic (Pg_ClaimOutbox now owner lease topics)"
proof -
  have "atomic (in_tx (claim_tx now owner lease topics locked))" for locked
    by (intro atomic_in_tx faithful_claim_tx)
  then have "atomic (\<lambda>s. in_tx (claim_tx now owner lease topics (ss_locked s)) s)"
    by (rule atomic_locked)
  moreover have "Pg_ClaimOutbox now owner lease topics =
      (\<lambda>s. in_tx (claim_tx now owner lease topics (ss_locked s)) s)"
    by (simp add: fun_eq_iff Pg_ClaimOutbox_def)
  ultimately show ?thesis by simp
qed

lemma atomic_update_held: "atomic (update_held E i owner f)"
  unfolding update_held_def by (rule atomic_exec)

lemma offline_lease_lost: "offline (lease_lost_unless_one n)"
  by (simp add: lease_lost_unless_one_def offline_give offline_raise)

lemma atomic_heartbeat [atomic_ops]: "atomic (Pg_HeartbeatOutbox E i owner lease)"
  unfolding Pg_HeartbeatOutbox_def by (intro atomic_chain_offline atomic_update_held offline_give)

lemma atomic_settle [atomic_ops]:
  "atomic (Pg_CompleteOutbox E i owner)" "atomic (Pg_RetryOutbox E i owner delay code)"
  "atomic (Pg_FailOutbox E i owner code)"
  unfolding Pg_CompleteOutbox_def Pg_RetryOutbox_def Pg_FailOutbox_def
  by (intro atomic_chain_offline atomic_update_held offline_lease_lost)+

lemma atomic_verify [atomic_ops]: "atomic (Pg_RecordVerification E ev)"
  unfolding Pg_RecordVerification_def by (intro atomic_in_tx faithful_intros)

lemma atomic_effect [atomic_ops]: "atomic (Pg_ApplyReferenceMerchantEffect e n)"
  unfolding Pg_ApplyReferenceMerchantEffect_def
  by (intro atomic_chain_offline atomic_exec offline_give)

subsection \<open>The parts of the database an operation leaves alone\<close>

text \<open>Only the last statement of a creation, and the one of a new webhook, touch the outbox.\<close>

lemma leaves_insertAudit [leaves_intros]:
  assumes "\<And>d rows. f (d\<lparr>db_audit := rows\<rparr>) = f d"
  shows "leaves f (insertAudit E p a act ty i md)"
  unfolding insertAudit_def
  by (rule leaves_exec) (auto simp: assms split: sum.splits if_splits)

lemma outbox_inserts:
  "insert_run E p b d = Inr (u, d') \<Longrightarrow> db_outbox d' = db_outbox d"
  "insert_event e d = Inr (u, d') \<Longrightarrow> db_outbox d' = db_outbox d"
  "insert_report E i rep d = Inr (u, d') \<Longrightarrow> db_outbox d' = db_outbox d"
  "insert_assertion i md a d = Inr (u, d') \<Longrightarrow> db_outbox d' = db_outbox d"
  "insert_finding i f now d = Inr (u, d') \<Longrightarrow> db_outbox d' = db_outbox d"
  "insert_notification E q i knd md now d = Inr (u, d') \<Longrightarrow> db_outbox d' = db_outbox d"
  "insert_idempotency scope k h run now d = Inr (u, d') \<Longrightarrow> db_outbox d' = db_outbox d"
  "insert_webhook rc d = Inr (n, d') \<Longrightarrow> db_outbox d' = db_outbox d"
  by (auto simp: insert_run_def insert_event_def insert_report_def insert_assertion_def
      insert_finding_def insert_notification_def insert_idempotency_def insert_webhook_def Let_def
      split: sum.splits if_splits)

lemma leaves_store_evidence: "leaves db_outbox (store_evidence E p b)"
  unfolding store_evidence_def by (intro leaves_intros leaves_exec; erule outbox_inserts)

lemma leaves_notify_project: "leaves db_outbox (notify_project E p b)"
  unfolding notify_project_def by (intro leaves_intros leaves_exec; (erule outbox_inserts | simp))

text \<open>The effect of a creation: a replay, an error, or the evidence and then the job.\<close>

definition creation_statements ::
  "pg_env \<Rightarrow> string option \<Rightarrow> string \<Rightarrow> digest \<Rightarrow> digest \<Rightarrow> RunBundle \<Rightarrow> (pg, unit) op" where
  "creation_statements E p scope k h b =
     chain (store_evidence E p b) (\<lambda>_.
     chain (notify_project E p b) (\<lambda>_.
     wrapping ''insert idempotency record'' (exec (insert_idempotency scope k h (rb_Run b)))))"

lemma faithful_creation [faithful_intros]: "faithful (creation_statements E p scope k h b)"
  unfolding creation_statements_def by (intro faithful_intros)

lemma leaves_creation: "leaves db_outbox (creation_statements E p scope k h b)"
  unfolding creation_statements_def
  by (intro leaves_intros leaves_store_evidence leaves_notify_project leaves_exec; erule outbox_inserts)

definition job_topic :: "RunBundle \<Rightarrow> string" where
  "job_topic b = (if rb_OutboxTopic b = [] then ''run.persisted'' else rb_OutboxTopic b)"

lemma create_reliable:
  assumes "ss_driver s = []"
  shows "Pg_createRun E p scope k h b s =
    (case select_idempotency scope k (ss_now s) (ss_db s) of
       Some (h', run) \<Rightarrow> if h' \<noteq> h then (s, Inl ErrIdempotencyConflict) else (s, Inr (run, True))
     | None \<Rightarrow>
         (case script (creation_statements E p scope k h b) s (ss_db s) of
            Inl e \<Rightarrow> (s, Inl e)
          | Inr (u, d) \<Rightarrow>
              (case insert_outbox E (run_ID (rb_Run b)) (job_topic b) (pg_bundle_payload b) (ss_now s) d of
                 Inl e \<Rightarrow> (s, Inl (ErrWrap ''insert outbox record'' e))
               | Inr (u', d') \<Rightarrow> (s\<lparr>ss_db := d'\<rparr>, Inr (rb_Run b, False)))))"
  unfolding Pg_createRun_def script_in_tx [OF faithful_create_tx assms]
  unfolding createRun_tx_def creation_statements_def
  by (simp add: script_simps faithful_intros job_topic_def split: option.split prod.split sum.split)

lemma mark_reliable:
  assumes "ss_driver s = []"
  shows "Pg_MarkWebhookSeen E rc s =
    (case row wh_id (db_webhooks (ss_db s)) (wr_EventID rc) of
       Some r \<Rightarrow>
         if wh_body r \<noteq> wr_BodySHA rc \<or> wh_endpoint r \<noteq> wr_EndpointTokenSHA rc \<or>
            wh_type r \<noteq> wr_EventType rc then (s, Inl ErrWebhookConflict) else (s, Inr True)
     | None \<Rightarrow>
         (case insert_outbox E (wr_EventID rc) ''stripe.webhook.received'' (webhook_payload rc) (ss_now s)
                 ((ss_db s)\<lparr>db_webhooks := db_webhooks (ss_db s) @ [receipt_row rc]\<rparr>) of
            Inl e \<Rightarrow> (s, Inl e)
          | Inr (u, d') \<Rightarrow> (s\<lparr>ss_db := d'\<rparr>, Inr False)))"
  unfolding Pg_MarkWebhookSeen_def script_in_tx [OF faithful_mark_tx assms]
  unfolding mark_tx_def
  by (simp add: script_simps faithful_intros insert_webhook_def split: option.split prod.split sum.split)

end
