(* ===== verification/PgStore.thy ===== *)
theory PgStore
  imports PgRepo
begin

text \<open>
  The effect of the transactions of the run store on the tables, and the invariant of the
  tables: keys are unique, references resolve, the log of a run is numbered without a gap, and
  the report of a run, its digest and the table of assertions agree with the snapshot of the
  run.
\<close>

subsection \<open>Lists in order\<close>

lemma insort_key_snoc: "f y \<le> f x \<Longrightarrow> insort_key f y (l @ [x]) = insort_key f y l @ [x]"
  by (induction l) auto

lemma sort_key_snoc:
  assumes "\<forall>y \<in> set xs. f y \<le> f x"
  shows "sort_key f (xs @ [x]) = sort_key f xs @ [x]"
proof -
  have "foldr (insort_key f) xs [x] = foldr (insort_key f) xs [] @ [x]"
    using assms by (induction xs) (simp_all add: insort_key_snoc)
  then show ?thesis
    by (simp add: sort_key_def)
qed

subsection \<open>The inserts of a creation\<close>

definition event_row_of :: "Event \<Rightarrow> event_row" where
  "event_row_of e =
     \<lparr>el_id = ev_ID e, el_run = ev_RunID e, el_sequence = ev_Sequence e, el_snapshot = e\<rparr>"

abbreviation el_place :: "event_row \<Rightarrow> string \<times> int" where
  "el_place r \<equiv> (el_run r, el_sequence r)"

abbreviation at_key :: "assertion_row \<Rightarrow> string \<times> string" where
  "at_key r \<equiv> (at_run r, as_ID (at_assertion r))"

abbreviation ft_key :: "finding_row \<Rightarrow> string \<times> string" where
  "ft_key r \<equiv> (ft_run r, fd_ID (ft_finding r))"

abbreviation ik_place :: "idempotency_row \<Rightarrow> string \<times> digest" where
  "ik_place r \<equiv> (ik_scope r, ik_key r)"

lemma event_row_fields [simp]:
  "el_id (event_row_of e) = ev_ID e" "el_run (event_row_of e) = ev_RunID e"
  "el_sequence (event_row_of e) = ev_Sequence e" "el_snapshot (event_row_of e) = e"
  by (simp_all add: event_row_of_def)

lemma row_snoc_None: "row key (t @ [r]) k = None \<longleftrightarrow> row key t k = None \<and> key r \<noteq> k"
  by (auto simp: row_snoc split: option.splits)

definition ev_place :: "Event \<Rightarrow> string \<times> int" where
  "ev_place e = (ev_RunID e, ev_Sequence e)"

definition event_fits :: "Database \<Rightarrow> Event \<Rightarrow> bool" where
  "event_fits d e \<longleftrightarrow>
     event_check e \<and> row rn_id (db_runs d) (ev_RunID e) \<noteq> None \<and>
     row el_id (db_events d) (ev_ID e) = None \<and> row el_place (db_events d) (ev_place e) = None"

lemma insert_event_iff:
  "insert_event e d = Inr ((), d') \<longleftrightarrow>
     event_fits d e \<and> d' = d\<lparr>db_events := db_events d @ [event_row_of e]\<rparr>"
  by (auto simp: insert_event_def insert_row_def event_row_of_def event_fits_def ev_place_def)

lemma event_fits_snoc:
  "event_fits (d\<lparr>db_events := db_events d @ [event_row_of e]\<rparr>) x \<longleftrightarrow>
     event_fits d x \<and> ev_ID e \<noteq> ev_ID x \<and> ev_place e \<noteq> ev_place x"
  by (auto simp: event_fits_def row_snoc_None ev_place_def)

lemma events_script:
  "script (for_each (\<lambda>e. wrapping m (exec (\<lambda>now. insert_event e))) es) s d = Inr ((), d') \<longleftrightarrow>
     (\<forall>e \<in> set es. event_fits d e) \<and> distinct (map ev_ID es) \<and> distinct (map ev_place es) \<and>
     d' = d\<lparr>db_events := db_events d @ map event_row_of es\<rparr>"
proof (induction es arbitrary: d d')
  case Nil
  then show ?case by (auto simp: script_simps)
next
  case (Cons e es)
  have "script (for_each (\<lambda>e. wrapping m (exec (\<lambda>now. insert_event e))) (e # es)) s d = Inr ((), d') \<longleftrightarrow>
      (\<exists>d1. insert_event e d = Inr ((), d1) \<and>
         script (for_each (\<lambda>e. wrapping m (exec (\<lambda>now. insert_event e))) es) s d1 = Inr ((), d'))"
    by (simp add: script_for_each_Cons faithful_intros script_simps split: sum.split prod.split)
  also have "\<dots> \<longleftrightarrow> event_fits d e \<and>
      script (for_each (\<lambda>e. wrapping m (exec (\<lambda>now. insert_event e))) es) s
        (d\<lparr>db_events := db_events d @ [event_row_of e]\<rparr>) = Inr ((), d')"
    by (simp add: insert_event_iff)
  finally show ?case
    by (auto simp: Cons.IH event_fits_snoc)
qed

definition assertion_rows :: "string \<Rightarrow> Assertion list \<Rightarrow> assertion_row list \<Rightarrow> assertion_row list" where
  "assertion_rows i as t =
     foldl (\<lambda>t a. insert_new at_key
       \<lparr>at_run = i, at_assertion = a, at_evidence = value_evidence a\<rparr> t) t as"

lemma assertions_script:
  "script (for_each (\<lambda>a. wrapping m
      (exec (\<lambda>now. insert_assertion i (value_evidence a) a))) as) s d = Inr ((), d') \<longleftrightarrow>
     (as \<noteq> [] \<longrightarrow> row rn_id (db_runs d) i \<noteq> None) \<and>
     d' = d\<lparr>db_assertions := assertion_rows i as (db_assertions d)\<rparr>"
proof (induction "as" arbitrary: d)
  case Nil
  then show ?case by (auto simp: script_simps assertion_rows_def)
next
  case (Cons a as)
  then show ?case
    by (auto simp: script_for_each_Cons faithful_intros script_simps insert_assertion_def
        assertion_rows_def split: sum.split prod.split)
qed

definition finding_rows :: "string \<Rightarrow> time \<Rightarrow> Finding list \<Rightarrow> finding_row list \<Rightarrow> finding_row list" where
  "finding_rows i now fs t =
     foldl (\<lambda>t f. insert_new ft_key
       \<lparr>ft_run = i, ft_finding = f, ft_created = now, ft_resolvedAt = None\<rparr> t) t fs"

lemma findings_script:
  "script (for_each (\<lambda>f. wrapping m (exec (insert_finding i f))) fs) s d = Inr ((), d') \<longleftrightarrow>
     (\<forall>f \<in> set fs. severity_check (fd_Severity f)) \<and> (fs \<noteq> [] \<longrightarrow> row rn_id (db_runs d) i \<noteq> None) \<and>
     d' = d\<lparr>db_findings := finding_rows i (ss_now s) fs (db_findings d)\<rparr>"
proof (induction fs arbitrary: d)
  case Nil
  then show ?case by (auto simp: script_simps finding_rows_def)
next
  case (Cons f fs)
  then show ?case
    by (auto simp: script_for_each_Cons faithful_intros script_simps insert_finding_def
        finding_rows_def split: sum.split prod.split)
qed

text \<open>All inserts of the evidence: when they succeed and what they leave.\<close>

definition run_row_of :: "string option \<Rightarrow> RunBundle \<Rightarrow> run_row" where
  "run_row_of project b =
     \<lparr>rn_id = run_ID (rb_Run b), rn_project = project, rn_object = run_StripeObjectID (rb_Run b),
      rn_correlation = nullableString (rb_StripeCorrelationID b),
      rn_started = timestamptz (run_StartedAt (rb_Run b)), rn_snapshot = rb_Run b\<rparr>"

definition report_row_of :: "pg_env \<Rightarrow> RunBundle \<Rightarrow> report_row" where
  "report_row_of E b =
     \<lparr>rt_run = run_ID (rb_Run b), rt_snapshot = rb_Report b,
      rt_generated = timestamptz (rp_Generated (rb_Report b)),
      rt_sha256 = report_digest E (rb_Report b)\<rparr>"

definition evidence_db :: "pg_env \<Rightarrow> string option \<Rightarrow> RunBundle \<Rightarrow> time \<Rightarrow> Database \<Rightarrow> Database" where
  "evidence_db E project b now d =
     d\<lparr>db_runs := db_runs d @ [run_row_of project b],
       db_events := db_events d @ map event_row_of (rb_Events b),
       db_reports := db_reports d @ [report_row_of E b],
       db_assertions := assertion_rows (run_ID (rb_Run b)) (rp_Assertions (rb_Report b)) (db_assertions d),
       db_findings := finding_rows (run_ID (rb_Run b)) now (rp_Findings (rb_Report b)) (db_findings d)\<rparr>"

definition evidence_fits :: "pg_env \<Rightarrow> string option \<Rightarrow> string option \<Rightarrow> RunBundle \<Rightarrow> Database \<Rightarrow> bool" where
  "evidence_fits E p project b d \<longleftrightarrow>
     uuid_param_null E p = Inr project \<and> run_check (rb_Run b) \<and>
     row rn_id (db_runs d) (run_ID (rb_Run b)) = None \<and> references_null pj_id (db_projects d) project \<and>
     (\<forall>e \<in> set (rb_Events b). event_fits (d\<lparr>db_runs := db_runs d @ [run_row_of project b]\<rparr>) e) \<and>
     distinct (map ev_ID (rb_Events b)) \<and> distinct (map ev_place (rb_Events b)) \<and>
     row rt_run (db_reports d) (run_ID (rb_Run b)) = None \<and>
     (\<forall>f \<in> set (rp_Findings (rb_Report b)). severity_check (fd_Severity f))"

lemma insert_run_iff:
  "insert_run E p b d = Inr ((), d') \<longleftrightarrow>
     (\<exists>project. uuid_param_null E p = Inr project \<and> run_check (rb_Run b) \<and>
        row rn_id (db_runs d) (run_ID (rb_Run b)) = None \<and>
        references_null pj_id (db_projects d) project \<and>
        d' = d\<lparr>db_runs := db_runs d @ [run_row_of project b]\<rparr>)"
  by (auto simp: insert_run_def insert_row_def run_row_of_def Let_def split: sum.splits)

lemma insert_report_iff:
  "insert_report E (run_ID (rb_Run b)) (rb_Report b) d = Inr ((), d') \<longleftrightarrow>
     row rt_run (db_reports d) (run_ID (rb_Run b)) = None \<and>
     row rn_id (db_runs d) (run_ID (rb_Run b)) \<noteq> None \<and>
     d' = d\<lparr>db_reports := db_reports d @ [report_row_of E b]\<rparr>"
  by (auto simp: insert_report_def insert_row_def report_row_of_def)

lemma store_evidence_iff:
  "script (store_evidence E p b) s d = Inr ((), d') \<longleftrightarrow>
     (\<exists>project. evidence_fits E p project b d \<and> d' = evidence_db E project b (ss_now s) d)"
proof -
  have run_row: "row rn_id (db_runs d @ [run_row_of project b]) (run_ID (rb_Run b)) \<noteq> None" for project
    by (simp add: row_snoc_None run_row_of_def)
  have "script (store_evidence E p b) s d = Inr ((), d') \<longleftrightarrow>
    (\<exists>d1. insert_run E p b d = Inr ((), d1) \<and>
     (\<forall>e \<in> set (rb_Events b). event_fits d1 e) \<and> distinct (map ev_ID (rb_Events b)) \<and>
     distinct (map ev_place (rb_Events b)) \<and>
     row rt_run (db_reports d1) (run_ID (rb_Run b)) = None \<and>
     row rn_id (db_runs d1) (run_ID (rb_Run b)) \<noteq> None \<and>
     (\<forall>f \<in> set (rp_Findings (rb_Report b)). severity_check (fd_Severity f)) \<and>
     d' = d1\<lparr>db_events := db_events d1 @ map event_row_of (rb_Events b),
       db_reports := db_reports d1 @ [report_row_of E b],
       db_assertions := assertion_rows (run_ID (rb_Run b)) (rp_Assertions (rb_Report b)) (db_assertions d1),
       db_findings := finding_rows (run_ID (rb_Run b)) (ss_now s) (rp_Findings (rb_Report b)) (db_findings d1)\<rparr>)"
    unfolding store_evidence_def Let_def
    by (simp add: script_ok faithful_intros insert_report_iff events_script assertions_script
        findings_script cong: conj_cong)
  also have "\<dots> \<longleftrightarrow> (\<exists>project. evidence_fits E p project b d \<and> d' = evidence_db E project b (ss_now s) d)"
    unfolding insert_run_iff evidence_fits_def evidence_db_def
    using run_row by auto
  finally show ?thesis .
qed

subsection \<open>The effect of a creation\<close>

definition run_notification ::
  "pg_env \<Rightarrow> string \<Rightarrow> RunBundle \<Rightarrow> time \<Rightarrow> Database \<Rightarrow> notification_row" where
  "run_notification E project b now d =
     \<lparr>nf_id = pe_uuidv7 E (db_uuids d), nf_project = project, nf_run = Some (run_ID (rb_Run b)),
      nf_kind = ''run.completed'',
      nf_payload = [''run_id'' \<mapsto> AnyString (run_ID (rb_Run b)),
        ''scenario_name'' \<mapsto> AnyString (run_ScenarioName (rb_Run b)),
        ''status'' \<mapsto> AnyString (run_status_string (run_Status (rb_Run b)))],
      nf_readAt = None, nf_created = now\<rparr>"

definition run_audit :: "string \<Rightarrow> RunBundle \<Rightarrow> time \<Rightarrow> audit_row" where
  "run_audit project b now =
     \<lparr>al_project = project, al_actor = None, al_action = ''run.created'', al_resourceType = ''run'',
      al_resourceID = run_ID (rb_Run b),
      al_metadata = [''scenario_id'' \<mapsto> AnyString (run_ScenarioID (rb_Run b))], al_created = now\<rparr>"

definition notified_db :: "pg_env \<Rightarrow> string option \<Rightarrow> RunBundle \<Rightarrow> time \<Rightarrow> Database \<Rightarrow> Database" where
  "notified_db E project b now d =
     (case project of None \<Rightarrow> d
      | Some u \<Rightarrow> d\<lparr>db_notifications := db_notifications d @ [run_notification E u b now d],
                   db_uuids := db_uuids d + 1, db_audit := db_audit d @ [run_audit u b now]\<rparr>)"

lemma notify_project_script:
  assumes "row rn_id (db_runs d) (run_ID (rb_Run b)) \<noteq> None"
    and "uuid_param_null E p = Inr project" and "references_null pj_id (db_projects d) project"
  shows "script (notify_project E p b) s d = Inr ((), notified_db E project b (ss_now s) d)"
proof (cases p)
  case None
  with assms(2) show ?thesis
    by (simp add: notify_project_def notified_db_def uuid_param_null_def script_simps)
next
  case (Some q)
  then obtain u where u: "uuid_param E q = Inr u" "project = Some u"
    using assms(2) by (auto simp: uuid_param_null_def split: sum.splits)
  then have "row pj_id (db_projects d) u \<noteq> None"
    using assms(3) by (simp add: references_null_def)
  then show ?thesis
    using assms(1) u Some
    by (simp add: notify_project_def script_simps faithful_intros insertAudit_def notified_db_def
        insert_notification_def nullableString_def uuid_param_null_def references_null_def
        run_notification_def run_audit_def Let_def)
qed

definition idempotency_row_of ::
  "string \<Rightarrow> digest \<Rightarrow> digest \<Rightarrow> Run \<Rightarrow> time \<Rightarrow> idempotency_row" where
  "idempotency_row_of scope k h run now =
     \<lparr>ik_scope = scope, ik_key = k, ik_request = h, ik_response = run, ik_expires = now + Day\<rparr>"

definition job_row :: "pg_env \<Rightarrow> RunBundle \<Rightarrow> time \<Rightarrow> nat \<Rightarrow> outbox_row" where
  "job_row E b now n =
     \<lparr>ob_id = pe_uuidv7 E n, ob_topic = job_topic b, ob_aggregate = run_ID (rb_Run b),
      ob_payload = pg_bundle_payload b, ob_created = now, ob_published = None, ob_failed = None,
      ob_attempts = 0, ob_available = now, ob_lockedAt = None, ob_lockedBy = None, ob_error = None\<rparr>"

definition creation_db ::
  "pg_env \<Rightarrow> string option \<Rightarrow> string \<Rightarrow> digest \<Rightarrow> digest \<Rightarrow> RunBundle \<Rightarrow> time \<Rightarrow> Database \<Rightarrow> Database" where
  "creation_db E project scope k h b now d =
     (let d1 = notified_db E project b now (evidence_db E project b now d)
      in d1\<lparr>db_idempotency := db_idempotency d @ [idempotency_row_of scope k h (rb_Run b) now],
            db_outbox := db_outbox d @ [job_row E b now (db_uuids d1)], db_uuids := db_uuids d1 + 1\<rparr>)"

definition creation_fits ::
  "pg_env \<Rightarrow> string option \<Rightarrow> string option \<Rightarrow> string \<Rightarrow> digest \<Rightarrow> RunBundle \<Rightarrow> Database \<Rightarrow> bool" where
  "creation_fits E p project scope k b d \<longleftrightarrow>
     evidence_fits E p project b d \<and> row ik_place (db_idempotency d) (scope, k) = None \<and>
     row ob_id (db_outbox d)
       (pe_uuidv7 E (db_uuids d + (case project of None \<Rightarrow> 0 | Some u \<Rightarrow> 1))) = None"

lemma evidence_db_fields [simp]:
  "db_runs (evidence_db E project b now d) = db_runs d @ [run_row_of project b]"
  "db_events (evidence_db E project b now d) = db_events d @ map event_row_of (rb_Events b)"
  "db_reports (evidence_db E project b now d) = db_reports d @ [report_row_of E b]"
  "db_projects (evidence_db E project b now d) = db_projects d"
  "db_idempotency (evidence_db E project b now d) = db_idempotency d"
  "db_outbox (evidence_db E project b now d) = db_outbox d"
  "db_uuids (evidence_db E project b now d) = db_uuids d"
  by (simp_all add: evidence_db_def)

lemma notified_db_fields [simp]:
  "db_idempotency (notified_db E project b now d) = db_idempotency d"
  "db_outbox (notified_db E project b now d) = db_outbox d"
  "db_uuids (notified_db E project b now d) = db_uuids d + (case project of None \<Rightarrow> 0 | Some u \<Rightarrow> 1)"
  by (simp_all add: notified_db_def split: option.split)

lemma creation_statements_iff:
  "script (creation_statements E p scope k h b) s d = Inr ((), d') \<longleftrightarrow>
     (\<exists>project. evidence_fits E p project b d \<and> row ik_place (db_idempotency d) (scope, k) = None \<and>
        d' = (notified_db E project b (ss_now s) (evidence_db E project b (ss_now s) d))
          \<lparr>db_idempotency := db_idempotency d @ [idempotency_row_of scope k h (rb_Run b) (ss_now s)]\<rparr>)"
proof -
  have notify: "script (notify_project E p b) s (evidence_db E project b (ss_now s) d) =
      Inr ((), notified_db E project b (ss_now s) (evidence_db E project b (ss_now s) d))"
    if "evidence_fits E p project b d" for project
    using that by (intro notify_project_script)
      (simp_all add: evidence_fits_def row_snoc_None run_row_of_def)
  have key: "insert_idempotency scope k h (rb_Run b) now d1 = Inr ((), d') \<longleftrightarrow>
      row ik_place (db_idempotency d1) (scope, k) = None \<and>
      d' = d1\<lparr>db_idempotency := db_idempotency d1 @ [idempotency_row_of scope k h (rb_Run b) now]\<rparr>" for now d1
    by (auto simp: insert_idempotency_def insert_row_def idempotency_row_of_def)
  show ?thesis
    unfolding creation_statements_def
    by (auto simp: script_ok faithful_intros store_evidence_iff faithful_store_evidence
        faithful_notify_project notify key) blast
qed

lemma creation_fits_project:
  "creation_fits E p project scope k b d \<Longrightarrow> uuid_param_null E p = Inr project"
  by (simp add: creation_fits_def evidence_fits_def)

text \<open>
  With a reliable driver a creation answers from the record of its key, or stores everything, or
  fails and stores nothing.
\<close>

lemma create_cases:
  assumes "ss_driver s = []"
  obtains (known) h' run where "select_idempotency scope k (ss_now s) (ss_db s) = Some (h', run)"
      "Pg_createRun E p scope k h b s = (s, idempotent_answer (Some (h', run)) h)"
  | (created) project where "select_idempotency scope k (ss_now s) (ss_db s) = None"
      "creation_fits E p project scope k b (ss_db s)"
      "Pg_createRun E p scope k h b s =
         (s\<lparr>ss_db := creation_db E project scope k h b (ss_now s) (ss_db s)\<rparr>, Inr (rb_Run b, False))"
  | (refused) e where "select_idempotency scope k (ss_now s) (ss_db s) = None"
      "\<And>project. \<not> creation_fits E p project scope k b (ss_db s)"
      "Pg_createRun E p scope k h b s = (s, Inl e)"
proof (cases "select_idempotency scope k (ss_now s) (ss_db s)")
  case (Some known)
  then show ?thesis
    using known create_reliable [OF assms, of E p scope k h b]
    by (cases known) (auto simp: idempotent_answer_def split: if_splits)
next
  case None
  let ?d = "ss_db s"
  show ?thesis
  proof (cases "script (creation_statements E p scope k h b) s ?d")
    case (Inl e)
    have "\<not> creation_fits E p project scope k b ?d" for project
      using Inl creation_statements_iff [of E p scope k h b s ?d]
      by (auto simp: creation_fits_def)
    with None Inl refused create_reliable [OF assms, of E p scope k h b] show ?thesis
      by simp
  next
    case (Inr r)
    then obtain d1 where r: "r = ((), d1)" by (cases r) simp
    obtain project where fits: "evidence_fits E p project b ?d"
        "row ik_place (db_idempotency ?d) (scope, k) = None"
      and d1: "d1 = (notified_db E project b (ss_now s) (evidence_db E project b (ss_now s) ?d))
          \<lparr>db_idempotency := db_idempotency ?d @ [idempotency_row_of scope k h (rb_Run b) (ss_now s)]\<rparr>"
      using Inr r creation_statements_iff [of E p scope k h b s ?d d1] by auto
    let ?id = "pe_uuidv7 E (db_uuids ?d + (case project of None \<Rightarrow> 0 | Some u \<Rightarrow> 1))"
    have id: "db_outbox d1 = db_outbox ?d" "pe_uuidv7 E (db_uuids d1) = ?id"
      by (simp_all add: d1)
    have only: "project' = project" if "uuid_param_null E p = Inr project'" for project'
      using that fits(1) by (simp add: evidence_fits_def)
    show ?thesis
    proof (cases "row ob_id (db_outbox ?d) ?id")
      case None': None
      then have "creation_fits E p project scope k b ?d"
        using fits by (simp add: creation_fits_def)
      moreover have "Pg_createRun E p scope k h b s =
          (s\<lparr>ss_db := creation_db E project scope k h b (ss_now s) ?d\<rparr>, Inr (rb_Run b, False))"
        using None None' Inr r id create_reliable [OF assms, of E p scope k h b]
        by (simp add: insert_outbox_def insert_row_def creation_db_def job_row_def Let_def d1)
      ultimately show ?thesis
        using created None by blast
    next
      case (Some r')
      have "\<not> creation_fits E p project' scope k b ?d" for project'
      proof
        assume fits': "creation_fits E p project' scope k b ?d"
        then have "project' = project"
          by (rule only [OF creation_fits_project])
        with fits' Some show False by (simp add: creation_fits_def)
      qed
      moreover have "\<exists>e. Pg_createRun E p scope k h b s = (s, Inl e)"
        using None Some Inr r id create_reliable [OF assms, of E p scope k h b]
        by (simp add: insert_outbox_def insert_row_def)
      ultimately show ?thesis
        using refused None by blast
    qed
  qed
qed

end
