(* ===== verification/OutboxProtocol.thy ===== *)
theory OutboxProtocol
  imports MemoryOutbox
begin

text \<open>
  The outbox as its clients may understand it: a queue of jobs under leases, without the
  representation.  \<^verbatim>\<open>lease_change\<close> specifies what each action may do to one job.  The locale
  \<^verbatim>\<open>lease_queue\<close> is the contract of a provider: every step puts a job, changes one job as
  specified, or changes none; a reply may be lost after the change.  Settling once, the
  exclusion of a lease and the bound on attempts are proved from the contract, and the
  in-memory outbox is interpreted here; the Postgres outbox is in \<^verbatim>\<open>PgProtocol\<close>.
\<close>

subsection \<open>The specification\<close>

record lease_job =
  lj_topic :: string
  lj_attempts :: int
  lj_available :: time
  lj_lock :: "(string \<times> time) option"
  lj_published :: bool
  lj_failed :: bool

definition job_settled :: "lease_job \<Rightarrow> bool" where
  "job_settled j \<longleftrightarrow> lj_published j \<or> lj_failed j"

definition job_ok :: "lease_job \<Rightarrow> bool" where
  "job_ok j \<longleftrightarrow> (job_settled j \<longrightarrow> lj_lock j = None) \<and> \<not> (lj_published j \<and> lj_failed j) \<and>
     0 \<le> lj_attempts j \<and> (lj_lock j \<noteq> None \<longrightarrow> 1 \<le> lj_attempts j)"

definition job_due :: "time \<Rightarrow> duration \<Rightarrow> string list \<Rightarrow> lease_job \<Rightarrow> bool" where
  "job_due now lease topics j \<longleftrightarrow>
     lj_topic j \<in> set topics \<and> \<not> job_settled j \<and> lj_available j \<le> now \<and>
     (case lj_lock j of None \<Rightarrow> True | Some (owner, since) \<Rightarrow> since + lease < now)"

definition lock_owner :: "lease_job \<Rightarrow> string option" where
  "lock_owner j = map_option fst (lj_lock j)"

text \<open>What an action does to a job it changes, and the answer it gives.\<close>

definition lease_change ::
  "time \<Rightarrow> outbox_action \<Rightarrow> string \<Rightarrow> lease_job \<Rightarrow> lease_job \<Rightarrow> outbox_answer \<Rightarrow> bool" where
  "lease_change now act i j j' ans \<longleftrightarrow>
     (case act of
        Put t a p \<Rightarrow> False
      | Claim owner lease topics \<Rightarrow>
          job_due now lease topics j \<and>
          j' = j\<lparr>lj_lock := Some (owner, now), lj_attempts := lj_attempts j + 1\<rparr> \<and>
          (\<exists>m. ans = Claimed m \<and> om_ID m = i \<and> om_Attempts m = lj_attempts j + 1)
      | Heartbeat k owner lease \<Rightarrow>
          k = i \<and> lock_owner j = Some owner \<and> j' = j\<lparr>lj_lock := Some (owner, now)\<rparr> \<and> ans = Alive True
      | Complete k owner \<Rightarrow>
          k = i \<and> lock_owner j = Some owner \<and> j' = j\<lparr>lj_published := True, lj_lock := None\<rparr> \<and> ans = Done
      | Retry k owner delay code \<Rightarrow>
          k = i \<and> lock_owner j = Some owner \<and>
          j' = j\<lparr>lj_available := now + delay, lj_lock := None\<rparr> \<and> ans = Done
      | FailJob k owner code \<Rightarrow>
          k = i \<and> lock_owner j = Some owner \<and> j' = j\<lparr>lj_failed := True, lj_lock := None\<rparr> \<and> ans = Done)"

definition fresh_job :: "string \<Rightarrow> lease_job \<Rightarrow> bool" where
  "fresh_job t j \<longleftrightarrow> lj_topic j = t \<and> lj_attempts j = 0 \<and> lj_lock j = None \<and> \<not> job_settled j"

text \<open>Attempts and settlement of one job, and the lease that still runs.\<close>

definition job_attempts :: "(string \<rightharpoonup> lease_job) \<Rightarrow> string \<Rightarrow> int" where
  "job_attempts m i = (case m i of None \<Rightarrow> 0 | Some j \<Rightarrow> lj_attempts j)"

definition settled_job :: "(string \<rightharpoonup> lease_job) \<Rightarrow> string \<Rightarrow> bool" where
  "settled_job m i \<longleftrightarrow> (case m i of None \<Rightarrow> False | Some j \<Rightarrow> job_settled j)"

fun breaks_lease :: "outbox_action \<Rightarrow> time \<Rightarrow> string \<Rightarrow> time \<Rightarrow> bool" where
  "breaks_lease (Claim owner lease topics) now holder since \<longleftrightarrow> since + lease < now"
| "breaks_lease act now holder since \<longleftrightarrow> actor act = holder"

lemma change_ok: "job_ok j \<Longrightarrow> lease_change now act i j j' ans \<Longrightarrow> job_ok j'"
  by (cases act) (auto simp: lease_change_def job_ok_def job_settled_def job_due_def lock_owner_def)

lemma change_open: "job_ok j \<Longrightarrow> lease_change now act i j j' ans \<Longrightarrow> \<not> job_settled j"
  by (cases act) (auto simp: lease_change_def job_ok_def job_due_def lock_owner_def)

lemma change_attempts:
  "lease_change now act i j j' ans \<Longrightarrow>
     lj_attempts j' = lj_attempts j + (if hands_out i (now, act, ans) then 1 else 0)"
  by (cases act) (auto simp: lease_change_def)

lemma change_settles:
  "lease_change now act i j j' ans \<Longrightarrow> \<not> job_settled j \<Longrightarrow>
     job_settled j' \<longleftrightarrow> settles i (now, act, ans)"
  by (cases act) (auto simp: lease_change_def job_settled_def)

lemma change_only:
  "lease_change now act k j j' ans \<Longrightarrow> i \<noteq> k \<Longrightarrow>
     \<not> hands_out i (now, act, ans) \<and> \<not> settles i (now, act, ans)"
  by (cases act) (auto simp: lease_change_def)

lemma change_needs_lease:
  "lease_change now act i j j' ans \<Longrightarrow> lj_lock j = Some (holder, since) \<Longrightarrow>
     breaks_lease act now holder since"
  by (cases act) (auto simp: lease_change_def job_due_def lock_owner_def)

subsection \<open>The contract\<close>

text \<open>
  A provider has jobs and makes steps.  A step that changes a job either gives the answer of
  the specification or, if the reply is lost, an answer that says nothing.
\<close>

definition answer_lost :: "outbox_answer \<Rightarrow> outbox_answer \<Rightarrow> bool" where
  "answer_lost ans ans' \<longleftrightarrow> ans' = ans \<or> idle_answer ans'"

locale lease_queue =
  fixes step :: "'s \<Rightarrow> time \<Rightarrow> outbox_action \<Rightarrow> outbox_answer \<Rightarrow> 's \<Rightarrow> bool"
    and jobs :: "'s \<Rightarrow> string \<rightharpoonup> lease_job"
    and wf :: "'s \<Rightarrow> bool"
  assumes step_wf: "step s now act ans s' \<Longrightarrow> wf s \<Longrightarrow> wf s'"
    and wf_jobs: "wf s \<Longrightarrow> jobs s i = Some j \<Longrightarrow> job_ok j"
    and step_kind: "step s now act ans s' \<Longrightarrow> wf s \<Longrightarrow>
      jobs s' = jobs s \<and> idle_answer ans \<or>
      (\<exists>t a p i j. act = Put t a p \<and> jobs s i = None \<and> fresh_job t j \<and>
         answer_lost (Queued i) ans \<and> jobs s' = (jobs s)(i \<mapsto> j)) \<or>
      (\<exists>i j j' ans'. jobs s i = Some j \<and> lease_change now act i j j' ans' \<and>
         answer_lost ans' ans \<and> jobs s' = (jobs s)(i \<mapsto> j'))"
begin

text \<open>Histories with the log of what was asked and answered.\<close>

inductive history :: "'s \<Rightarrow> outbox_log \<Rightarrow> 's \<Rightarrow> bool" where
  start: "history s [] s"
| extend: "history s log s1 \<Longrightarrow> step s1 now act ans s2 \<Longrightarrow> history s (log @ [(now, act, ans)]) s2"

lemma history_wf: "history s log s' \<Longrightarrow> wf s \<Longrightarrow> wf s'"
  by (induction rule: history.induct) (auto intro: step_wf)

text \<open>One step: attempts never fall behind the jobs handed out, settling is seen and final.\<close>

lemma step_job:
  assumes "step s now act ans s'" and "wf s"
  shows "job_attempts (jobs s) i + (if hands_out i (now, act, ans) then 1 else 0) \<le>
      job_attempts (jobs s') i"
    and "settled_job (jobs s) i \<Longrightarrow> jobs s' i = jobs s i \<and>
      \<not> settles i (now, act, ans) \<and> \<not> hands_out i (now, act, ans)"
    and "settles i (now, act, ans) \<Longrightarrow> settled_job (jobs s') i"
proof -
  have all: "job_attempts (jobs s) i + (if hands_out i (now, act, ans) then 1 else 0) \<le>
      job_attempts (jobs s') i \<and>
    (settled_job (jobs s) i \<longrightarrow> jobs s' i = jobs s i \<and>
      \<not> settles i (now, act, ans) \<and> \<not> hands_out i (now, act, ans)) \<and>
    (settles i (now, act, ans) \<longrightarrow> settled_job (jobs s') i)"
    using step_kind [OF assms]
  proof (elim disjE exE conjE)
    assume "jobs s' = jobs s" and "idle_answer ans"
    then show ?thesis by simp
  next
    fix t a p k j
    assume put: "act = Put t a p" "jobs s k = None" "fresh_job t j" "answer_lost (Queued k) ans"
      "jobs s' = (jobs s)(k \<mapsto> j)"
    then have "\<not> hands_out i (now, act, ans)" and "\<not> settles i (now, act, ans)"
      by (auto simp: answer_lost_def)
    with put show ?thesis
      by (auto simp: job_attempts_def settled_job_def fresh_job_def)
  next
    fix k j j' ans'
    assume c: "jobs s k = Some j" "lease_change now act k j j' ans'" "answer_lost ans' ans"
      "jobs s' = (jobs s)(k \<mapsto> j')"
    have ok: "job_ok j" by (rule wf_jobs [OF assms(2) c(1)])
    have seen: "hands_out i (now, act, ans) \<Longrightarrow> hands_out i (now, act, ans')"
        "settles i (now, act, ans) \<Longrightarrow> settles i (now, act, ans')"
      using c(3) by (auto simp: answer_lost_def)
    show ?thesis
    proof (cases "i = k")
      case True
      then show ?thesis
        using c(1,4) change_attempts [OF c(2)] change_settles [OF c(2)] change_open [OF ok c(2)] seen
        by (auto simp: job_attempts_def settled_job_def)
    next
      case False
      then show ?thesis
        using c(1,4) change_only [OF c(2) False] seen
        by (auto simp: job_attempts_def settled_job_def)
    qed
  qed
  then show "job_attempts (jobs s) i + (if hands_out i (now, act, ans) then 1 else 0) \<le>
      job_attempts (jobs s') i"
    and "settled_job (jobs s) i \<Longrightarrow> jobs s' i = jobs s i \<and>
      \<not> settles i (now, act, ans) \<and> \<not> hands_out i (now, act, ans)"
    and "settles i (now, act, ans) \<Longrightarrow> settled_job (jobs s') i"
    by blast+
qed

text \<open>Over a history: attempts count at least the jobs handed out, and a job settles once.\<close>

lemma history_jobs:
  assumes "history s log s'" and "wf s"
  shows "job_attempts (jobs s) i + int (length (filter (hands_out i) log)) \<le> job_attempts (jobs s') i \<and>
    (settled_job (jobs s) i \<longrightarrow> jobs s' i = jobs s i \<and> filter (settles i) log = [] \<and>
       filter (hands_out i) log = []) \<and>
    length (filter (settles i) log) \<le> (if settled_job (jobs s') i then 1 else 0)"
  using assms
proof (induction rule: history.induct)
  case (start s)
  then show ?case by simp
next
  case (extend s log s1 now act ans s2)
  have wf1: "wf s1" using extend by (blast intro: history_wf)
  have same: "settled_job (jobs s1) i = settled_job (jobs s) i" if "jobs s1 i = jobs s i"
    using that by (simp add: settled_job_def)
  have same': "settled_job (jobs s2) i" if "settled_job (jobs s1) i"
    using step_job(2) [OF extend.hyps(2) wf1 that] that by (simp add: settled_job_def)
  show ?case
    using extend.IH [OF extend.prems] same same' step_job [OF extend.hyps(2) wf1, of i]
    by (auto split: if_splits)
qed

text \<open>While a lease runs nobody but its holder changes the job.\<close>

lemma step_lease:
  assumes "step s now act ans s'" and "wf s" and "jobs s i = Some j"
    and "lj_lock j = Some (holder, since)" and "\<not> breaks_lease act now holder since"
  shows "jobs s' i = Some j \<and> \<not> hands_out i (now, act, ans)"
  using step_kind [OF assms(1,2)]
proof (elim disjE exE conjE)
  assume "jobs s' = jobs s" and "idle_answer ans"
  then show ?thesis using assms(3) by simp
next
  fix t a p k j'
  assume "act = Put t a p" "jobs s k = None" "answer_lost (Queued k) ans" "jobs s' = (jobs s)(k \<mapsto> j')"
  then show ?thesis using assms(3) by (auto simp: answer_lost_def)
next
  fix k j0 j' ans'
  assume c: "jobs s k = Some j0" "lease_change now act k j0 j' ans'" "answer_lost ans' ans"
    "jobs s' = (jobs s)(k \<mapsto> j')"
  then have "i \<noteq> k"
    using change_needs_lease [of now act k j0 j' ans' holder since] assms(3-5) by auto
  then show ?thesis
    using c assms(3) change_only [OF c(2)] by (auto simp: answer_lost_def)
qed

end

subsection \<open>The in-memory outbox is a lease queue\<close>

definition memory_job :: "memoryOutbox \<Rightarrow> lease_job" where
  "memory_job item =
     (let m = mo_message item
      in \<lparr>lj_topic = om_Topic m, lj_attempts = om_Attempts m, lj_available = mo_availableAt item,
          lj_lock = (if om_LockedBy m = [] then None else Some (om_LockedBy m, om_LockedAt m)),
          lj_published = mo_published item, lj_failed = mo_failed item\<rparr>)"

definition memory_jobs :: "MemoryRepository \<Rightarrow> string \<rightharpoonup> lease_job" where
  "memory_jobs r i = map_option memory_job (mr_outbox r i)"

lemma memory_jobs_upd:
  "memory_jobs (r\<lparr>mr_outbox := (mr_outbox r)(i \<mapsto> item)\<rparr>) = (memory_jobs r)(i \<mapsto> memory_job item)"
  by (auto simp: memory_jobs_def fun_eq_iff)

lemma memory_change:
  "item_ok i item \<Longrightarrow> changes_to r now act i item item' ans \<Longrightarrow>
     lease_change now act i (memory_job item) (memory_job item') ans"
  by (cases act)
    (auto simp: changes_to_def lease_change_def memory_job_def Let_def job_due_def job_settled_def
      claimable_def claimed_def settled_def lock_owner_def item_ok_def)

interpretation memory_queue: lease_queue outbox_step memory_jobs outbox_ok
proof unfold_locales
  fix s s' :: MemoryRepository and now act ans i j
  show "outbox_step s now act ans s' \<Longrightarrow> outbox_ok s \<Longrightarrow> outbox_ok s'"
    by (rule outbox_step_ok)
  show "job_ok j" if "outbox_ok s" and "memory_jobs s i = Some j"
    using that outbox_okD [of s i]
    by (auto simp: memory_jobs_def memory_job_def job_ok_def job_settled_def item_ok_def settled_def
        Let_def)
  show "memory_jobs s' = memory_jobs s \<and> idle_answer ans \<or>
      (\<exists>t a p i j. act = Put t a p \<and> memory_jobs s i = None \<and> fresh_job t j \<and>
         answer_lost (Queued i) ans \<and> memory_jobs s' = (memory_jobs s)(i \<mapsto> j)) \<or>
      (\<exists>i j j' ans'. memory_jobs s i = Some j \<and> lease_change now act i j j' ans' \<and>
         answer_lost ans' ans \<and> memory_jobs s' = (memory_jobs s)(i \<mapsto> j'))"
    if step: "outbox_step s now act ans s'" and ok: "outbox_ok s"
    using step
  proof (cases rule: outbox_step_cases)
    case (put t a p)
    let ?item = "new_outbox_item now (outboxID (mr_nextOutbox s)) t a p"
    have "memory_jobs s' = (memory_jobs s)(outboxID (mr_nextOutbox s) \<mapsto> memory_job ?item)"
      by (auto simp: put putOutboxLocked_def Let_def memory_jobs_def fun_eq_iff)
    moreover have "memory_jobs s (outboxID (mr_nextOutbox s)) = None"
      by (simp add: memory_jobs_def outbox_ok_fresh [OF ok])
    moreover have "fresh_job t (memory_job ?item)"
      by (simp add: fresh_job_def memory_job_def job_settled_def Let_def)
    ultimately show ?thesis
      using put by (auto simp: answer_lost_def)
  next
    case idle
    then show ?thesis by simp
  next
    case (change k item item')
    have "memory_jobs s k = Some (memory_job item)"
      by (simp add: memory_jobs_def change)
    moreover have "lease_change now act k (memory_job item) (memory_job item') ans"
      using memory_change change outbox_okD [OF ok] by blast
    moreover have "memory_jobs s' = (memory_jobs s)(k \<mapsto> memory_job item')"
      by (simp add: change memory_jobs_upd)
    ultimately show ?thesis
      by (auto simp: answer_lost_def)
  qed
qed

end
