(* ===== verification/PgProtocol.thy ===== *)
theory PgProtocol
  imports PgRepo OutboxProtocol
begin

text \<open>
  The Postgres outbox implements the lease queue of \<^verbatim>\<open>OutboxProtocol\<close>, whatever the driver does,
  so that settling once, the exclusion of leases and the bound on attempts hold of it.
\<close>

subsection \<open>Jobs in the table\<close>

definition row_job :: "outbox_row \<Rightarrow> lease_job" where
  "row_job r =
     \<lparr>lj_topic = ob_topic r, lj_attempts = ob_attempts r, lj_available = ob_available r,
      lj_lock = (case (ob_lockedBy r, ob_lockedAt r) of
                   (Some owner, Some since) \<Rightarrow> Some (owner, since) | _ \<Rightarrow> None),
      lj_published = (ob_published r \<noteq> None), lj_failed = (ob_failed r \<noteq> None)\<rparr>"

definition pg_jobs :: "Database \<Rightarrow> string \<rightharpoonup> lease_job" where
  "pg_jobs d i = map_option row_job (row ob_id (db_outbox d) i)"

definition outbox_row_ok :: "outbox_row \<Rightarrow> bool" where
  "outbox_row_ok r \<longleftrightarrow> (ob_lockedAt r = None \<longleftrightarrow> ob_lockedBy r = None) \<and> job_ok (row_job r)"

definition pg_outbox_ok :: "Database \<Rightarrow> bool" where
  "pg_outbox_ok d \<longleftrightarrow> keyed ob_id (db_outbox d) \<and> (\<forall>r \<in> set (db_outbox d). outbox_row_ok r)"

lemma pg_outbox_okD:
  assumes "pg_outbox_ok d" and "row ob_id (db_outbox d) i = Some r"
  shows "outbox_row_ok r" and "ob_id r = i"
  using assms row_SomeD [OF assms(2)] by (auto simp: pg_outbox_ok_def)

lemma pg_outbox_ok_cong: "db_outbox d' = db_outbox d \<Longrightarrow> pg_outbox_ok d' = pg_outbox_ok d"
  by (simp add: pg_outbox_ok_def)

lemma pg_jobs_cong: "db_outbox d' = db_outbox d \<Longrightarrow> pg_jobs d' = pg_jobs d"
  by (simp add: pg_jobs_def fun_eq_iff)

subsection \<open>Steps\<close>

text \<open>The canonical text of an identifier a caller gives.\<close>

definition canonical :: "pg_env \<Rightarrow> string \<Rightarrow> string" where
  "canonical E i = (case pe_uuid_in E i of None \<Rightarrow> i | Some u \<Rightarrow> u)"

text \<open>
  The operations as actions of the protocol; leases and delays count whole milliseconds.
  Creating a run and receiving a webhook put a job, and answer nothing about it.  Every other
  operation is logged as a put that queued nothing.
\<close>

inductive pg_outbox_step ::
  "pg_env \<Rightarrow> Database \<Rightarrow> time \<Rightarrow> outbox_action \<Rightarrow> outbox_answer \<Rightarrow> Database \<Rightarrow> bool" for E where
  pg_claim: "Pg_ClaimOutbox clientNow owner lease topics s = (s', x) \<Longrightarrow>
    pg_outbox_step E (ss_db s) (ss_now s) (Claim owner (Milliseconds lease * Millisecond) topics)
      (claim_answer x) (ss_db s')"
| pg_heartbeat: "Pg_HeartbeatOutbox E i owner lease s = (s', x) \<Longrightarrow>
    pg_outbox_step E (ss_db s) (ss_now s) (Heartbeat (canonical E i) owner lease)
      (alive_answer x) (ss_db s')"
| pg_complete: "Pg_CompleteOutbox E i owner s = (s', x) \<Longrightarrow>
    pg_outbox_step E (ss_db s) (ss_now s) (Complete (canonical E i) owner)
      (lease_answer x) (ss_db s')"
| pg_retry: "Pg_RetryOutbox E i owner delay code s = (s', x) \<Longrightarrow>
    pg_outbox_step E (ss_db s) (ss_now s)
      (Retry (canonical E i) owner (Milliseconds delay * Millisecond) code) (lease_answer x) (ss_db s')"
| pg_fail: "Pg_FailOutbox E i owner code s = (s', x) \<Longrightarrow>
    pg_outbox_step E (ss_db s) (ss_now s) (FailJob (canonical E i) owner code)
      (lease_answer x) (ss_db s')"
| pg_create: "Pg_createRun E p scope k h b s = (s', x) \<Longrightarrow>
    pg_outbox_step E (ss_db s) (ss_now s)
      (Put (if rb_OutboxTopic b = [] then ''run.persisted'' else rb_OutboxTopic b)
        (run_ID (rb_Run b)) (pg_bundle_payload b)) NothingToClaim (ss_db s')"
| pg_mark: "Pg_MarkWebhookSeen E rc s = (s', x) \<Longrightarrow>
    pg_outbox_step E (ss_db s) (ss_now s)
      (Put ''stripe.webhook.received'' (wr_EventID rc) (webhook_payload rc)) NothingToClaim (ss_db s')"
| pg_other: "db_outbox d' = db_outbox d \<Longrightarrow>
    pg_outbox_step E d now (Put [] [] Malformed) NothingToClaim d'"

text \<open>What a step may be, as the contract has it.\<close>

definition queue_step :: "time \<Rightarrow> outbox_action \<Rightarrow> Database \<Rightarrow> outbox_answer \<Rightarrow> Database \<Rightarrow> bool" where
  "queue_step now act d ans d' \<longleftrightarrow>
     pg_outbox_ok d' \<and>
     (pg_jobs d' = pg_jobs d \<and> idle_answer ans \<or>
      (\<exists>t a p i j. act = Put t a p \<and> pg_jobs d i = None \<and> fresh_job t j \<and>
         answer_lost (Queued i) ans \<and> pg_jobs d' = (pg_jobs d)(i \<mapsto> j)) \<or>
      (\<exists>i j j' ans'. pg_jobs d i = Some j \<and> lease_change now act i j j' ans' \<and>
         answer_lost ans' ans \<and> pg_jobs d' = (pg_jobs d)(i \<mapsto> j')))"

lemma queue_step_lost:
  "queue_step now act d ans d' \<Longrightarrow> idle_answer ans' \<Longrightarrow> queue_step now act d ans' d'"
  unfolding queue_step_def answer_lost_def by blast

lemma queue_step_same:
  "pg_outbox_ok d \<Longrightarrow> db_outbox d' = db_outbox d \<Longrightarrow> idle_answer ans \<Longrightarrow> queue_step now act d ans d'"
  by (simp add: queue_step_def pg_jobs_cong [of d' d] pg_outbox_ok_cong [of d' d])

lemma queue_step_change:
  "pg_outbox_ok d' \<Longrightarrow> pg_jobs d i = Some j \<Longrightarrow> lease_change now act i j j' ans' \<Longrightarrow>
     answer_lost ans' ans \<Longrightarrow> pg_jobs d' = (pg_jobs d)(i \<mapsto> j') \<Longrightarrow> queue_step now act d ans d'"
  unfolding queue_step_def by blast

lemma queue_step_put:
  "pg_outbox_ok d' \<Longrightarrow> pg_jobs d i = None \<Longrightarrow> fresh_job t j \<Longrightarrow> idle_answer ans \<Longrightarrow>
     pg_jobs d' = (pg_jobs d)(i \<mapsto> j) \<Longrightarrow> queue_step now (Put t a p) d ans d'"
  unfolding queue_step_def answer_lost_def by blast

text \<open>It is enough to look at a reliable driver.\<close>

lemma queue_step_atomic:
  assumes "atomic m" and "m s = (s', x)" and "pg_outbox_ok (ss_db s)"
    and "\<And>e. idle_answer (ans (Inl e))"
    and "queue_step now act (ss_db s) (ans (snd (m (reliable s)))) (ss_db (fst (m (reliable s))))"
  shows "queue_step now act (ss_db s) (ans x) (ss_db s')"
proof -
  obtain t y where t: "m (reliable s) = (t, y)" by fastforce
  with assms(5) have k: "queue_step now act (ss_db s) (ans y) (ss_db t)" by simp
  from atomicD [OF assms(1,2) t] show ?thesis
  proof (elim disjE conjE exE)
    assume "x = y" and "ss_db s' = ss_db t"
    with k show ?thesis by simp
  next
    fix e assume "x = Inl e" and "ss_db s' = ss_db s"
    then show ?thesis
      using queue_step_same [OF assms(3) refl, where ans = "ans (Inl e)"] assms(4) by simp
  next
    fix e assume "x = Inl e" and "ss_db s' = ss_db t"
    then show ?thesis
      using queue_step_lost [OF k] assms(4) by simp
  qed
qed

subsection \<open>Updates of one row\<close>

lemma pg_jobs_update:
  assumes "pg_outbox_ok d" and "row ob_id (db_outbox d) i = Some r"
    and "P r" and "\<And>r'. r' \<in> set (db_outbox d) \<Longrightarrow> P r' \<Longrightarrow> ob_id r' = i"
    and "\<And>r'. ob_id (f r') = ob_id r'" and "outbox_row_ok (f r)"
  shows "pg_jobs (d\<lparr>db_outbox := update_rows P f (db_outbox d)\<rparr>) = (pg_jobs d)(i \<mapsto> row_job (f r))"
    and "pg_outbox_ok (d\<lparr>db_outbox := update_rows P f (db_outbox d)\<rparr>)"
    and "length (filter P (db_outbox d)) = 1"
proof -
  have keyed: "keyed ob_id (db_outbox d)"
    using assms(1) by (simp add: pg_outbox_ok_def)
  have only: "r' = r" if "r' \<in> set (db_outbox d)" "P r'" for r'
    using keyed_row [OF keyed that(1)] assms(2) assms(4) [OF that] by simp
  have r: "r \<in> set (db_outbox d)" using row_SomeD [OF assms(2)] by simp
  have "row ob_id (update_rows P f (db_outbox d)) k =
      (if k = i then Some (f r) else row ob_id (db_outbox d) k)" for k
  proof (cases "row ob_id (db_outbox d) k")
    case None
    then show ?thesis
      using assms(2) by (auto simp: row_update [of ob_id f, OF assms(5)])
  next
    case (Some r')
    then have "r' \<in> set (db_outbox d)" and "ob_id r' = k"
      using row_SomeD [OF Some] by simp_all
    have "P r' \<longleftrightarrow> k = i"
    proof
      assume "P r'"
      then have "r' = r" using \<open>r' \<in> set (db_outbox d)\<close> by (rule only [rotated])
      then show "k = i" using \<open>ob_id r' = k\<close> row_SomeD [OF assms(2)] by simp
    next
      assume "k = i"
      then show "P r'" using Some assms(2,3) by simp
    qed
    then show ?thesis
      using Some assms(2) by (auto simp: row_update [of ob_id f, OF assms(5)])
  qed
  then show "pg_jobs (d\<lparr>db_outbox := update_rows P f (db_outbox d)\<rparr>) = (pg_jobs d)(i \<mapsto> row_job (f r))"
    by (simp add: pg_jobs_def fun_eq_iff)
  show "pg_outbox_ok (d\<lparr>db_outbox := update_rows P f (db_outbox d)\<rparr>)"
  proof -
    have "keyed ob_id (update_rows P f (db_outbox d))"
      by (simp add: keyed_update [of ob_id f, OF assms(5)] keyed)
    moreover have "outbox_row_ok r'" if "r' \<in> set (update_rows P f (db_outbox d))" for r'
      using that assms(1,6) only by (auto simp: pg_outbox_ok_def update_rows_def)
    ultimately show ?thesis
      by (simp add: pg_outbox_ok_def)
  qed
  show "length (filter P (db_outbox d)) = 1"
    using filter_one [where P = P, OF keyed assms(2,3)] assms(4) by simp
qed

text \<open>The guarded updates: with a reliable driver the row of the owner's running lease changes, or nothing.\<close>

lemma update_held_cases:
  assumes "pg_outbox_ok (ss_db s)" and "ss_driver s = []" and "\<And>r. ob_id (f (ss_now s) r) = ob_id r"
  obtains (none) e where "update_held E i owner f s = (s, Inl e)"
  | (zero) "update_held E i owner f s = (s, Inr 0)"
  | (one) r where "row ob_id (db_outbox (ss_db s)) (canonical E i) = Some r"
      "held_by (canonical E i) owner r"
      "update_held E i owner f s =
         (s\<lparr>ss_db := (ss_db s)\<lparr>db_outbox :=
            update_rows (held_by (canonical E i) owner) (f (ss_now s)) (db_outbox (ss_db s))\<rparr>\<rparr>, Inr 1)"
proof (cases "pe_uuid_in E i")
  case None
  then show ?thesis
    using none by (simp add: update_held_def exec_reliable assms(2) uuid_param_def)
next
  case (Some u)
  let ?P = "held_by u owner" and ?t = "db_outbox (ss_db s)"
  have u: "canonical E i = u" by (simp add: canonical_def Some)
  have keyed: "keyed ob_id ?t"
    using assms(1) by (simp add: pg_outbox_ok_def)
  have eq: "update_held E i owner f s =
      (s\<lparr>ss_db := (ss_db s)\<lparr>db_outbox := update_rows ?P (f (ss_now s)) ?t\<rparr>\<rparr>, Inr (length (filter ?P ?t)))"
    by (simp add: update_held_def exec_reliable assms(2) uuid_param_def Some update_outbox_def)
  show ?thesis
  proof (cases "\<exists>r \<in> set ?t. ?P r")
    case True
    then obtain r where r: "r \<in> set ?t" "?P r" by blast
    then have row: "row ob_id ?t u = Some r"
      using keyed_row [OF keyed r(1)] by (simp add: held_by_def)
    have "filter ?P ?t = [r]"
      by (rule filter_one [where P = ?P, OF keyed row r(2)]) (simp add: held_by_def)
    then have affected: "update_held E i owner f s =
        (s\<lparr>ss_db := (ss_db s)\<lparr>db_outbox := update_rows ?P (f (ss_now s)) ?t\<rparr>\<rparr>, Inr 1)"
      by (simp add: eq)
    show ?thesis
      by (rule one [of r]) (simp_all only: u row r affected)
  next
    case False
    then have "filter ?P ?t = []" by (simp add: filter_empty_conv)
    moreover from this have "update_rows ?P (f (ss_now s)) ?t = ?t" by (rule update_none)
    ultimately have "update_held E i owner f s = (s, Inr 0)"
      by (simp only: eq) simp
    then show ?thesis by (rule zero)
  qed
qed

text \<open>A guarded update as a step, from what it does to the job of its owner.\<close>

lemma held_job:
  assumes "outbox_row_ok r" and "held_by u owner r"
  shows "lock_owner (row_job r) = Some owner" and "\<not> job_settled (row_job r)"
    and "1 \<le> ob_attempts r"
  using assms
  by (auto simp: held_by_def outbox_row_ok_def row_job_def lock_owner_def job_settled_def outbox_open_def
      job_ok_def split: option.splits)

lemma held_step:
  assumes ok: "pg_outbox_ok (ss_db s)" and driver: "ss_driver s = []"
    and key: "\<And>now r. ob_id (f now r) = ob_id r"
    and k: "\<And>n. k n = (if n = 1 then give y else m n)" and others: "\<And>n. offline (m n)"
    and no_answer: "\<And>e. idle_answer (ans (Inl e))" "\<And>s'. idle_answer (ans (snd (m 0 s')))"
    and change: "\<And>r. outbox_row_ok r \<Longrightarrow> held_by (canonical E i) owner r \<Longrightarrow>
      outbox_row_ok (f (ss_now s) r) \<and>
      lease_change (ss_now s) act (canonical E i) (row_job r) (row_job (f (ss_now s) r)) (ans (Inr y))"
  shows "queue_step (ss_now s) act (ss_db s) (ans (snd (chain (update_held E i owner f) k s)))
    (ss_db (fst (chain (update_held E i owner f) k s)))"
proof -
  from ok driver key show ?thesis
  proof (cases rule: update_held_cases [where E = E and i = i and owner = owner and f = f])
    case (none e)
    then show ?thesis
      using no_answer by (simp add: chain_def queue_step_same ok)
  next
    case zero
    obtain y' where y': "\<And>s. m 0 s = (s, y')" using others unfolding offline_def by metis
    then have "idle_answer (ans y')"
      using no_answer(2) [of s] by simp
    with zero y' show ?thesis
      by (simp add: chain_def k queue_step_same ok)
  next
    case (one r)
    let ?d = "(ss_db s)\<lparr>db_outbox :=
      update_rows (held_by (canonical E i) owner) (f (ss_now s)) (db_outbox (ss_db s))\<rparr>"
    have row: "outbox_row_ok r" by (rule pg_outbox_okD [OF ok one(1)])
    have new: "outbox_row_ok (f (ss_now s) r)"
      and step: "lease_change (ss_now s) act (canonical E i) (row_job r) (row_job (f (ss_now s) r))
        (ans (Inr y))"
      using change [OF row one(2)] by simp_all
    have only: "\<And>r'. r' \<in> set (db_outbox (ss_db s)) \<Longrightarrow> held_by (canonical E i) owner r' \<Longrightarrow>
        ob_id r' = canonical E i"
      by (simp add: held_by_def)
    note up = pg_jobs_update [where f = "f (ss_now s)" and P = "held_by (canonical E i) owner",
        OF ok one(1,2) only key new]
    have job: "pg_jobs (ss_db s) (canonical E i) = Some (row_job r)"
      by (simp add: pg_jobs_def one(1))
    have "queue_step (ss_now s) act (ss_db s) (ans (Inr y)) ?d"
      by (rule queue_step_change [OF up(2) job step _ up(1)]) (simp_all add: answer_lost_def)
    moreover have "chain (update_held E i owner f) k s = (s\<lparr>ss_db := ?d\<rparr>, Inr y)"
      by (simp add: chain_def one(3) k give_def)
    ultimately show ?thesis by simp
  qed
qed

subsection \<open>Each operation is a step of the queue\<close>

lemma uuid_held_change:
  assumes "outbox_row_ok r" and "held_by u owner r"
  shows "outbox_row_ok (r\<lparr>ob_lockedAt := Some now\<rparr>) \<and>
      lease_change now (Heartbeat u owner lease) u (row_job r) (row_job (r\<lparr>ob_lockedAt := Some now\<rparr>)) (Alive True)"
    and "let r' = r\<lparr>ob_published := Some now, ob_lockedAt := None, ob_lockedBy := None\<rparr>
      in outbox_row_ok r' \<and> lease_change now (Complete u owner) u (row_job r) (row_job r') Done"
    and "let r' = r\<lparr>ob_available := t, ob_lockedAt := None, ob_lockedBy := None, ob_error := c\<rparr>
      in outbox_row_ok r' \<and> (now + delay = t \<longrightarrow>
        lease_change now (Retry u owner delay code) u (row_job r) (row_job r') Done)"
    and "let r' = r\<lparr>ob_failed := Some now, ob_lockedAt := None, ob_lockedBy := None, ob_error := c\<rparr>
      in outbox_row_ok r' \<and> lease_change now (FailJob u owner code) u (row_job r) (row_job r') Done"
proof -
  obtain since where lock: "ob_lockedBy r = Some owner" "ob_lockedAt r = Some since"
    using assms by (auto simp: held_by_def outbox_row_ok_def)
  have free: "ob_published r = None" "ob_failed r = None"
    using assms(2) by (simp_all add: held_by_def outbox_open_def)
  have tried: "1 \<le> ob_attempts r" "0 \<le> ob_attempts r"
    using held_job [OF assms] by simp_all
  note facts = lock free tried outbox_row_ok_def row_job_def job_ok_def job_settled_def
    lease_change_def lock_owner_def Let_def
  show "outbox_row_ok (r\<lparr>ob_lockedAt := Some now\<rparr>) \<and>
      lease_change now (Heartbeat u owner lease) u (row_job r) (row_job (r\<lparr>ob_lockedAt := Some now\<rparr>)) (Alive True)"
    by (simp add: facts)
  show "let r' = r\<lparr>ob_published := Some now, ob_lockedAt := None, ob_lockedBy := None\<rparr>
      in outbox_row_ok r' \<and> lease_change now (Complete u owner) u (row_job r) (row_job r') Done"
    using tried by (simp add: facts)
  show "let r' = r\<lparr>ob_available := t, ob_lockedAt := None, ob_lockedBy := None, ob_error := c\<rparr>
      in outbox_row_ok r' \<and> (now + delay = t \<longrightarrow>
        lease_change now (Retry u owner delay code) u (row_job r) (row_job r') Done)"
    using tried by (simp add: facts)
  show "let r' = r\<lparr>ob_failed := Some now, ob_lockedAt := None, ob_lockedBy := None, ob_error := c\<rparr>
      in outbox_row_ok r' \<and> lease_change now (FailJob u owner code) u (row_job r) (row_job r') Done"
    using tried by (simp add: facts)
qed

lemma lease_answers_idle [simp]:
  "idle_answer (lease_answer (Inl e))" "idle_answer (alive_answer (Inl e))"
  "idle_answer (claim_answer (Inl e))" "idle_answer (Alive False)" "idle_answer NothingToClaim"
  "idle_answer LeaseLost"
  by (simp_all add: idle_answer_def)

lemma heartbeat_step:
  assumes "pg_outbox_ok (ss_db s)" and "ss_driver s = []"
  shows "queue_step (ss_now s) (Heartbeat (canonical E i) owner lease) (ss_db s)
    (alive_answer (snd (Pg_HeartbeatOutbox E i owner lease s))) (ss_db (fst (Pg_HeartbeatOutbox E i owner lease s)))"
  unfolding Pg_HeartbeatOutbox_def
  by (rule held_step [OF assms, where y = True and m = "\<lambda>n. give (n = 1)"])
    (use uuid_held_change(1) in \<open>auto simp: offline_give give_def\<close>)

lemma settle_steps:
  assumes "pg_outbox_ok (ss_db s)" and "ss_driver s = []"
  shows "queue_step (ss_now s) (Complete (canonical E i) owner) (ss_db s)
      (lease_answer (snd (Pg_CompleteOutbox E i owner s))) (ss_db (fst (Pg_CompleteOutbox E i owner s)))"
    and "queue_step (ss_now s) (Retry (canonical E i) owner (Milliseconds delay * Millisecond) code) (ss_db s)
      (lease_answer (snd (Pg_RetryOutbox E i owner delay code s)))
      (ss_db (fst (Pg_RetryOutbox E i owner delay code s)))"
    and "queue_step (ss_now s) (FailJob (canonical E i) owner code) (ss_db s)
      (lease_answer (snd (Pg_FailOutbox E i owner code s))) (ss_db (fst (Pg_FailOutbox E i owner code s)))"
proof -
  note rule = held_step [OF assms, where y = "()" and m = lease_lost_unless_one and
      ans = lease_answer and E = E and i = i and owner = owner]
  note simps = offline_give offline_raise lease_lost_unless_one_def
  show "queue_step (ss_now s) (Complete (canonical E i) owner) (ss_db s)
      (lease_answer (snd (Pg_CompleteOutbox E i owner s))) (ss_db (fst (Pg_CompleteOutbox E i owner s)))"
    unfolding Pg_CompleteOutbox_def
    by (rule rule) (use uuid_held_change(2) in \<open>auto simp: simps Let_def raise_def\<close>)
  show "queue_step (ss_now s) (Retry (canonical E i) owner (Milliseconds delay * Millisecond) code) (ss_db s)
      (lease_answer (snd (Pg_RetryOutbox E i owner delay code s)))
      (ss_db (fst (Pg_RetryOutbox E i owner delay code s)))"
    unfolding Pg_RetryOutbox_def
    by (rule rule) (use uuid_held_change(3) in \<open>auto simp: simps Let_def raise_def\<close>)
  show "queue_step (ss_now s) (FailJob (canonical E i) owner code) (ss_db s)
      (lease_answer (snd (Pg_FailOutbox E i owner code s))) (ss_db (fst (Pg_FailOutbox E i owner code s)))"
    unfolding Pg_FailOutbox_def
    by (rule rule) (use uuid_held_change(4) in \<open>auto simp: simps Let_def raise_def\<close>)
qed

lemma insert_outbox_jobs:
  assumes "insert_outbox E a t p now d = Inr (u, d')" and "pg_outbox_ok d"
  shows "\<exists>i j. pg_jobs d i = None \<and> fresh_job t j \<and> pg_jobs d' = (pg_jobs d)(i \<mapsto> j)" and "pg_outbox_ok d'"
proof -
  let ?r = "\<lparr>ob_id = pe_uuidv7 E (db_uuids d), ob_topic = t, ob_aggregate = a, ob_payload = p,
    ob_created = now, ob_published = None, ob_failed = None, ob_attempts = 0, ob_available = now,
    ob_lockedAt = None, ob_lockedBy = None, ob_error = None\<rparr>"
  have new: "row ob_id (db_outbox d) (ob_id ?r) = None" and d': "db_outbox d' = db_outbox d @ [?r]"
    using assms(1) by (auto simp: insert_outbox_def insert_row_def split: if_splits)
  have "pg_jobs d' = (pg_jobs d)(ob_id ?r \<mapsto> row_job ?r)"
    using new by (auto simp: pg_jobs_def d' row_snoc fun_eq_iff split: option.split)
  moreover have "pg_jobs d (ob_id ?r) = None"
    using new by (simp add: pg_jobs_def)
  moreover have "fresh_job t (row_job ?r)"
    by (simp add: fresh_job_def row_job_def job_settled_def)
  ultimately show "\<exists>i j. pg_jobs d i = None \<and> fresh_job t j \<and> pg_jobs d' = (pg_jobs d)(i \<mapsto> j)"
    by blast
  have "outbox_row_ok ?r"
    by (simp add: outbox_row_ok_def row_job_def job_ok_def job_settled_def)
  then show "pg_outbox_ok d'"
    using assms(2) new by (auto simp: pg_outbox_ok_def d' keyed_snoc)
qed

lemma queue_step_insert:
  assumes "insert_outbox E a t p now d1 = Inr (u, d')" and "pg_outbox_ok d"
    and "db_outbox d1 = db_outbox d" and "idle_answer ans"
  shows "queue_step now0 (Put t a' p') d ans d'"
proof -
  have ok: "pg_outbox_ok d1" and jobs: "pg_jobs d1 = pg_jobs d"
    using assms(2,3) by (simp_all add: pg_outbox_ok_cong [of d1 d] pg_jobs_cong [of d1 d])
  obtain i j where "pg_jobs d i = None" "fresh_job t j" "pg_jobs d' = (pg_jobs d)(i \<mapsto> j)"
    using insert_outbox_jobs(1) [OF assms(1) ok] jobs by auto
  with insert_outbox_jobs(2) [OF assms(1) ok] assms(4) show ?thesis
    by (intro queue_step_put)
qed

lemma create_step:
  assumes "pg_outbox_ok (ss_db s)" and "ss_driver s = []"
  shows "queue_step (ss_now s) (Put (job_topic b) a' p') (ss_db s) NothingToClaim
    (ss_db (fst (Pg_createRun E p scope k h b s)))"
proof -
  note same = queue_step_same [OF assms(1) refl]
  show ?thesis
    unfolding create_reliable [OF assms(2)]
    using queue_step_insert [OF _ assms(1)] leavesD [OF leaves_creation]
    by (auto split: option.split sum.split prod.split intro: same)
qed

lemma mark_step:
  assumes "pg_outbox_ok (ss_db s)" and "ss_driver s = []"
  shows "queue_step (ss_now s) (Put ''stripe.webhook.received'' a' p') (ss_db s) NothingToClaim
    (ss_db (fst (Pg_MarkWebhookSeen E rc s)))"
proof -
  note same = queue_step_same [OF assms(1) refl]
  show ?thesis
    unfolding mark_reliable [OF assms(2)]
    using queue_step_insert [OF _ assms(1)]
    by (auto split: option.split sum.split prod.split intro: same)
qed

lemma claim_reliable:
  assumes "ss_driver s = []"
  shows "Pg_ClaimOutbox clientNow owner lease topics s =
    (case select_claim (ss_locked s) (Milliseconds lease) topics (ss_now s) (ss_db s) of
       None \<Rightarrow> (s, Inr (zero_OutboxMessage, False))
     | Some r \<Rightarrow>
         (s\<lparr>ss_db := (ss_db s)\<lparr>db_outbox := update_rows (\<lambda>r'. ob_id r' = ob_id r)
            (\<lambda>r'. r'\<lparr>ob_lockedAt := Some (ss_now s), ob_lockedBy := Some owner,
                    ob_attempts := ob_attempts r' + 1\<rparr>) (db_outbox (ss_db s))\<rparr>\<rparr>,
          Inr (\<lparr>om_ID = ob_id r, om_Topic = ob_topic r, om_AggregateID = ob_aggregate r,
                om_Payload = ob_payload r, om_Attempts = ob_attempts r + 1,
                om_LockedBy = owner, om_LockedAt = clientNow\<rparr>, True)))"
  unfolding Pg_ClaimOutbox_def script_in_tx [OF faithful_claim_tx assms]
  unfolding claim_tx_def
  by (simp add: script_simps faithful_intros update_outbox_def split: option.split)

lemma select_claimD:
  assumes "select_claim locked ms topics now d = Some r"
  shows "r \<in> set (db_outbox d)" and "row_claimable now ms topics r" and "ob_id r \<notin> set locked"
proof -
  let ?found = "filter (\<lambda>r. row_claimable now ms topics r \<and> ob_id r \<notin> set locked) (db_outbox d)"
  have "\<exists>rs. sort_key (\<lambda>r. (ob_created r, ob_id r)) ?found = r # rs"
    using assms by (auto simp: select_claim_def split: list.splits)
  then have "r \<in> set (sort_key (\<lambda>r. (ob_created r, ob_id r)) ?found)"
    by (metis list.set_intros(1))
  then have "r \<in> set ?found" by simp
  then show "r \<in> set (db_outbox d)" and "row_claimable now ms topics r" and "ob_id r \<notin> set locked"
    by simp_all
qed

lemma claim_step:
  assumes ok: "pg_outbox_ok (ss_db s)" and driver: "ss_driver s = []"
  shows "queue_step (ss_now s) (Claim owner (Milliseconds lease * Millisecond) topics) (ss_db s)
    (claim_answer (snd (Pg_ClaimOutbox clientNow owner lease topics s)))
    (ss_db (fst (Pg_ClaimOutbox clientNow owner lease topics s)))"
proof (cases "select_claim (ss_locked s) (Milliseconds lease) topics (ss_now s) (ss_db s)")
  case None
  then show ?thesis
    by (simp add: claim_reliable [OF driver] queue_step_same ok)
next
  case (Some r)
  let ?f = "\<lambda>r'. r'\<lparr>ob_lockedAt := Some (ss_now s), ob_lockedBy := Some owner,
    ob_attempts := ob_attempts r' + 1\<rparr>"
  let ?P = "\<lambda>r'. ob_id r' = ob_id r"
  have r: "r \<in> set (db_outbox (ss_db s))" "row_claimable (ss_now s) (Milliseconds lease) topics r"
    using select_claimD [OF Some] by simp_all
  have row: "row ob_id (db_outbox (ss_db s)) (ob_id r) = Some r"
    using keyed_row [OF _ r(1), of ob_id] ok by (simp add: pg_outbox_ok_def)
  have row_ok: "outbox_row_ok r"
    by (rule pg_outbox_okD [OF ok row])
  have new: "outbox_row_ok (?f r)"
    using row_ok r(2)
    by (auto simp: outbox_row_ok_def row_job_def job_ok_def job_settled_def row_claimable_def outbox_open_def)
  have job: "pg_jobs (ss_db s) (ob_id r) = Some (row_job r)"
    by (simp add: pg_jobs_def row)
  note up = pg_jobs_update [where P = ?P and f = ?f, OF ok row refl _ _ new]
  let ?d = "(ss_db s)\<lparr>db_outbox := update_rows ?P ?f (db_outbox (ss_db s))\<rparr>"
  let ?m = "\<lparr>om_ID = ob_id r, om_Topic = ob_topic r, om_AggregateID = ob_aggregate r,
    om_Payload = ob_payload r, om_Attempts = ob_attempts r + 1, om_LockedBy = owner,
    om_LockedAt = clientNow\<rparr>"
  have step: "lease_change (ss_now s) (Claim owner (Milliseconds lease * Millisecond) topics) (ob_id r)
      (row_job r) (row_job (?f r)) (Claimed ?m)"
    using row_ok r(2)
    by (auto simp: lease_change_def job_due_def row_job_def job_settled_def row_claimable_def
        outbox_open_def outbox_row_ok_def split: option.splits)
  have jobs: "pg_jobs ?d = (pg_jobs (ss_db s))(ob_id r \<mapsto> row_job (?f r))"
    and ok': "pg_outbox_ok ?d"
    by (rule up(1), simp_all) (rule up(2), simp_all)
  have "queue_step (ss_now s) (Claim owner (Milliseconds lease * Millisecond) topics) (ss_db s)
      (Claimed ?m) ?d"
    by (rule queue_step_change [OF ok' job step _ jobs]) (simp add: answer_lost_def)
  then show ?thesis
    by (simp add: claim_reliable [OF driver] Some)
qed

subsection \<open>The interpretation\<close>

lemma pg_step_queue:
  assumes "pg_outbox_step E d now act ans d'" and "pg_outbox_ok d"
  shows "queue_step now act d ans d'"
  using assms
proof (induction rule: pg_outbox_step.induct)
  case (pg_claim clientNow owner lease topics s s' x)
  show ?case
    by (rule queue_step_atomic [where ans = claim_answer, OF atomic_claim pg_claim])
      (use claim_step [of "reliable s"] pg_claim(2) in simp_all)
next
  case (pg_heartbeat i owner lease s s' x)
  show ?case
    by (rule queue_step_atomic [where ans = alive_answer, OF atomic_heartbeat pg_heartbeat])
      (use heartbeat_step [of "reliable s"] pg_heartbeat(2) in simp_all)
next
  case (pg_complete i owner s s' x)
  show ?case
    by (rule queue_step_atomic [where ans = lease_answer, OF atomic_settle(1) pg_complete])
      (use settle_steps(1) [of "reliable s"] pg_complete(2) in simp_all)
next
  case (pg_retry i owner delay code s s' x)
  show ?case
    by (rule queue_step_atomic [where ans = lease_answer, OF atomic_settle(2) pg_retry])
      (use settle_steps(2) [of "reliable s"] pg_retry(2) in simp_all)
next
  case (pg_fail i owner code s s' x)
  show ?case
    by (rule queue_step_atomic [where ans = lease_answer, OF atomic_settle(3) pg_fail])
      (use settle_steps(3) [of "reliable s"] pg_fail(2) in simp_all)
next
  case (pg_create p scope k h b s s' x)
  show ?case
    unfolding job_topic_def [symmetric]
    by (rule queue_step_atomic [where ans = "\<lambda>_. NothingToClaim", OF atomic_create pg_create])
      (use create_step [of "reliable s"] pg_create(2) in simp_all)
next
  case (pg_mark rc s s' x)
  show ?case
    by (rule queue_step_atomic [where ans = "\<lambda>_. NothingToClaim", OF atomic_mark pg_mark])
      (use mark_step [of "reliable s"] pg_mark(2) in simp_all)
next
  case (pg_other d' d now)
  then show ?case by (simp add: queue_step_same)
qed

interpretation pg_queue: lease_queue "pg_outbox_step E" pg_jobs pg_outbox_ok for E
proof unfold_locales
  fix d d' now act ans i j
  show "pg_outbox_ok d'" if "pg_outbox_step E d now act ans d'" and "pg_outbox_ok d"
    using pg_step_queue [OF that] by (simp add: queue_step_def)
  show "job_ok j" if "pg_outbox_ok d" and "pg_jobs d i = Some j"
    using that pg_outbox_okD(1) [OF that(1)] by (auto simp: pg_jobs_def outbox_row_ok_def)
  show "pg_jobs d' = pg_jobs d \<and> idle_answer ans \<or>
      (\<exists>t a p i j. act = Put t a p \<and> pg_jobs d i = None \<and> fresh_job t j \<and>
         answer_lost (Queued i) ans \<and> pg_jobs d' = (pg_jobs d)(i \<mapsto> j)) \<or>
      (\<exists>i j j' ans'. pg_jobs d i = Some j \<and> lease_change now act i j j' ans' \<and>
         answer_lost ans' ans \<and> pg_jobs d' = (pg_jobs d)(i \<mapsto> j'))"
    if "pg_outbox_step E d now act ans d'" and "pg_outbox_ok d"
    using pg_step_queue [OF that] unfolding queue_step_def by (rule conjunct2)
qed

subsection \<open>Properties of the protocol\<close>

text \<open>
  The database settles a job once.  Over every history of operations on the database after
  the migrations, with any failures and lost replies of the driver, the answers that report a
  job completed or failed are at most one, and none while the job is not settled; a job is
  handed out at most as often as its attempts say; and from the moment it is settled it stays
  as it is and is never handed out or settled again.
\<close>

theorem pg_settled_once:
  assumes "pg_queue.history E migrated log d" and "pg_queue.history E d log' d'"
  shows "length (filter (settles i) log) \<le> (if settled_job (pg_jobs d) i then 1 else 0) \<and>
    int (length (filter (hands_out i) log)) \<le> job_attempts (pg_jobs d) i \<and>
    (settled_job (pg_jobs d) i \<longrightarrow> pg_jobs d' i = pg_jobs d i \<and>
       filter (settles i) log' = [] \<and> filter (hands_out i) log' = [])"
proof -
  have start: "pg_outbox_ok migrated" "job_attempts (pg_jobs migrated) i = 0"
    by (simp_all add: pg_outbox_ok_def migrated_def pg_jobs_def job_attempts_def)
  then have "pg_outbox_ok d"
    using pg_queue.history_wf [OF assms(1)] by simp
  with pg_queue.history_jobs [OF assms(1) start(1), of i] pg_queue.history_jobs [OF assms(2), of i]
    start(2)
  show ?thesis by simp
qed

text \<open>
  C9. A running lease in the database excludes everyone but its holder: as long as the lease on
  a job has not expired by the clock of the server, no operation of another worker or of a
  producer changes the job, and no claim hands it out, whatever the driver does.
\<close>

theorem pg_lease_exclusive:
  assumes "pg_outbox_step E d now act ans d'" and "pg_outbox_ok d" and "pg_jobs d i = Some j"
    and "lj_lock j = Some (holder, since)" and "\<not> breaks_lease act now holder since"
  shows "pg_jobs d' i = Some j \<and> \<not> hands_out i (now, act, ans)"
  using pg_queue.step_lease [OF assms] .

text \<open>A small server for the examples, and a job received, claimed and completed on it.\<close>

definition sample_pg :: pg_env where
  "sample_pg = \<lparr>pe_crypto = \<lparr>sha256 = id, hmac_sha256 = \<lambda>k m. k @ m\<rparr>,
     pe_uuidv7 = \<lambda>n. replicate (Suc n) (CHR ''u''), pe_uuid_in = Some,
     pe_report_json = rp_Summary, pe_place = length\<rparr>"

definition at_server :: "Database \<Rightarrow> time \<Rightarrow> outcome list \<Rightarrow> pg" where
  "at_server d now os = \<lparr>ss_db = d, ss_now = now, ss_locked = [], ss_driver = os\<rparr>"

definition pg_received :: Database where
  "pg_received = ss_db (fst (Pg_MarkWebhookSeen sample_pg (sample_receipt ''evt_1'') (at_server migrated 5 [])))"

definition pg_claimed :: Database where
  "pg_claimed = ss_db (fst (Pg_ClaimOutbox 6 ''w'' Second [''stripe.webhook.received'']
     (at_server pg_received 6 [])))"

definition pg_settled :: Database where
  "pg_settled = ss_db (fst (Pg_CompleteOutbox sample_pg ''u'' ''w'' (at_server pg_claimed 7 [])))"

lemma pg_received_outbox:
  "db_outbox pg_received = [\<lparr>ob_id = ''u'', ob_topic = ''stripe.webhook.received'',
     ob_aggregate = ''evt_1'', ob_payload = webhook_payload (sample_receipt ''evt_1''), ob_created = 5,
     ob_published = None, ob_failed = None, ob_attempts = 0, ob_available = 5, ob_lockedAt = None,
     ob_lockedBy = None, ob_error = None\<rparr>]"
  by (simp add: pg_received_def mark_reliable at_server_def migrated_def insert_outbox_def insert_row_def
      sample_pg_def sample_receipt_def)

lemma pg_claimed_outbox:
  "db_outbox pg_claimed = [(hd (db_outbox pg_received))\<lparr>ob_lockedAt := Some 6, ob_lockedBy := Some ''w'',
     ob_attempts := 1\<rparr>]"
  by (simp add: pg_claimed_def claim_reliable at_server_def select_claim_def pg_received_outbox
      row_claimable_def outbox_open_def update_rows_def)

lemma pg_settled_outbox:
  "db_outbox pg_settled = [(hd (db_outbox pg_claimed))\<lparr>ob_published := Some 7, ob_lockedAt := None,
     ob_lockedBy := None\<rparr>]"
  by (simp add: pg_settled_def Pg_CompleteOutbox_def chain_def update_held_def exec_reliable at_server_def
      uuid_param_def sample_pg_def update_outbox_def pg_claimed_outbox pg_received_outbox held_by_def
      outbox_open_def update_rows_def lease_lost_unless_one_def give_def)

definition claimed_message :: OutboxMessage where
  "claimed_message = \<lparr>om_ID = ''u'', om_Topic = ''stripe.webhook.received'', om_AggregateID = ''evt_1'',
     om_Payload = webhook_payload (sample_receipt ''evt_1''), om_Attempts = 1, om_LockedBy = ''w'',
     om_LockedAt = 6\<rparr>"

lemma sample_canonical [simp]: "canonical sample_pg i = i"
  by (simp add: canonical_def sample_pg_def)

lemma sample_put_step:
  "\<exists>t a p. pg_outbox_step sample_pg migrated 5 (Put t a p) NothingToClaim pg_received"
proof -
  obtain s' x where run: "Pg_MarkWebhookSeen sample_pg (sample_receipt ''evt_1'') (at_server migrated 5 []) = (s', x)"
    by fastforce
  from pg_mark [OF run] show ?thesis
    using run by (auto simp: pg_received_def at_server_def)
qed

lemma sample_claim_step:
  "pg_outbox_step sample_pg pg_received 6 (Claim ''w'' Second [''stripe.webhook.received''])
     (Claimed claimed_message) pg_claimed"
proof -
  let ?s = "at_server pg_received 6 []"
  have ms: "Milliseconds Second * Millisecond = Second"
    by (simp add: Milliseconds_def Second_def Millisecond_def)
  have ans: "snd (Pg_ClaimOutbox 6 ''w'' Second [''stripe.webhook.received''] ?s) =
      Inr (claimed_message, True)"
    by (simp add: claim_reliable at_server_def select_claim_def pg_received_outbox row_claimable_def
        outbox_open_def claimed_message_def)
  obtain s' x where run: "Pg_ClaimOutbox 6 ''w'' Second [''stripe.webhook.received''] ?s = (s', x)"
    by fastforce
  from pg_claim [OF run, of sample_pg] show ?thesis
    using run ans ms by (simp add: pg_claimed_def at_server_def)
qed

lemma sample_complete_step:
  "pg_outbox_step sample_pg pg_claimed 7 (Complete ''u'' ''w'') Done pg_settled"
proof -
  let ?s = "at_server pg_claimed 7 []"
  have ans: "snd (Pg_CompleteOutbox sample_pg ''u'' ''w'' ?s) = Inr ()"
    by (simp add: Pg_CompleteOutbox_def chain_def update_held_def exec_reliable at_server_def
      uuid_param_def sample_pg_def update_outbox_def pg_claimed_outbox pg_received_outbox held_by_def
      outbox_open_def update_rows_def lease_lost_unless_one_def give_def)
  obtain s' x where run: "Pg_CompleteOutbox sample_pg ''u'' ''w'' ?s = (s', x)"
    by fastforce
  from pg_complete [OF run] show ?thesis
    using run ans by (simp add: pg_settled_def at_server_def)
qed

lemma pg_jobs_settled: "settled_job (pg_jobs pg_settled) ''u''"
  by (simp add: settled_job_def pg_jobs_def pg_settled_outbox row_Cons pg_claimed_outbox
      pg_received_outbox row_job_def job_settled_def)

theorem pg_settled_once_witness:
  "\<exists>log. pg_queue.history sample_pg migrated log pg_settled \<and>
     length (filter (settles ''u'') log) = 1 \<and> job_attempts (pg_jobs pg_settled) ''u'' \<ge> 1"
proof -
  obtain t a p where put: "pg_outbox_step sample_pg migrated 5 (Put t a p) NothingToClaim pg_received"
    using sample_put_step by blast
  let ?log = "[] @ [(5, Put t a p, NothingToClaim)] @
    [(6, Claim ''w'' Second [''stripe.webhook.received''], Claimed claimed_message)] @
    [(7, Complete ''u'' ''w'', Done)]"
  have h: "pg_queue.history sample_pg migrated ?log pg_settled"
    using pg_queue.history.extend [OF pg_queue.history.extend [OF pg_queue.history.extend
        [OF pg_queue.history.start put] sample_claim_step] sample_complete_step] by simp
  from pg_settled_once [OF h pg_queue.history.start, of "''u''"] h show ?thesis
    by (intro exI [of _ ?log]) (simp add: claimed_message_def pg_jobs_settled)
qed

theorem pg_lease_exclusive_witness:
  "\<exists>ans d' j. pg_outbox_step sample_pg pg_claimed 8 (Complete ''u'' ''thief'') ans d' \<and>
     pg_jobs pg_claimed ''u'' = Some j \<and> pg_jobs d' ''u'' = Some j"
proof -
  let ?s = "at_server pg_claimed 8 [LosesReply (ErrNew ''connection reset'')]"
  obtain s' x where run: "Pg_CompleteOutbox sample_pg ''u'' ''thief'' ?s = (s', x)"
    by fastforce
  from pg_complete [OF run] have step: "pg_outbox_step sample_pg pg_claimed 8 (Complete ''u'' ''thief'')
      (lease_answer x) (ss_db s')"
    by (simp add: at_server_def)
  have job: "pg_jobs pg_claimed ''u'' = Some (row_job (hd (db_outbox pg_claimed)))"
    by (simp add: pg_jobs_def pg_claimed_outbox row_Cons pg_received_outbox)
  have lock: "lj_lock (row_job (hd (db_outbox pg_claimed))) = Some (''w'', 6)"
    by (simp add: pg_claimed_outbox row_job_def)
  have ok: "pg_outbox_ok pg_claimed"
    by (simp add: pg_outbox_ok_def keyed_def pg_claimed_outbox pg_received_outbox outbox_row_ok_def
        row_job_def job_ok_def job_settled_def)
  from pg_lease_exclusive [OF step ok job lock] step job show ?thesis
    by (intro exI [of _ "lease_answer x"] exI [of _ "ss_db s'"]) simp
qed

end
