(* ===== verification/PgInvariant.thy ===== *)
theory PgInvariant
  imports PgStore PgProtocol
begin

text \<open>
  The invariant of the tables of runs and its preservation by every operation of the Postgres
  repository: identifiers are unique and references resolve; the log of a run is numbered from
  1 without a gap and counted in the run; the report of a run holds the same run, has the digest of
  its text, and its assertions are the rows of the table of assertions, in order; a creation on
  record names a stored run of its scope.
\<close>

subsection \<open>The invariant\<close>

abbreviation events_of :: "string \<Rightarrow> Database \<Rightarrow> event_row list" where
  "events_of i d \<equiv> filter (\<lambda>e. el_run e = i) (db_events d)"

abbreviation assertions_of :: "string \<Rightarrow> Database \<Rightarrow> Assertion list" where
  "assertions_of i d \<equiv> map at_assertion (filter (\<lambda>a. at_run a = i) (db_assertions d))"

definition report_row_ok :: "pg_env \<Rightarrow> Database \<Rightarrow> run_row \<Rightarrow> report_row \<Rightarrow> bool" where
  "report_row_ok E d r t \<longleftrightarrow>
     rp_Run (rt_snapshot t) = rn_snapshot r \<and> rt_sha256 t = report_digest E (rt_snapshot t) \<and>
     rp_Assertions (rt_snapshot t) = assertions_of (rn_id r) d"

definition run_row_ok :: "pg_env \<Rightarrow> Database \<Rightarrow> run_row \<Rightarrow> bool" where
  "run_row_ok E d r \<longleftrightarrow>
     run_ID (rn_snapshot r) = rn_id r \<and> sequenced (map el_snapshot (events_of (rn_id r) d)) \<and>
     run_EventCount (rn_snapshot r) = int (length (events_of (rn_id r) d)) \<and>
     (\<exists>t. row rt_run (db_reports d) (rn_id r) = Some t \<and> report_row_ok E d r t)"

definition event_row_ok :: "Database \<Rightarrow> event_row \<Rightarrow> bool" where
  "event_row_ok d e \<longleftrightarrow> e = event_row_of (el_snapshot e) \<and> row rn_id (db_runs d) (el_run e) \<noteq> None"

text \<open>A record of a key is of the public scope or of a project, as its run is.\<close>

definition scope_of :: "pg_env \<Rightarrow> string option \<Rightarrow> string \<Rightarrow> bool" where
  "scope_of E project scope \<longleftrightarrow>
     (case project of None \<Rightarrow> scope = public_scope
      | Some u \<Rightarrow> \<exists>p. scope = projectRunScope p \<and> pe_uuid_in E p = Some u)"

definition key_row_ok :: "pg_env \<Rightarrow> Database \<Rightarrow> idempotency_row \<Rightarrow> bool" where
  "key_row_ok E d k \<longleftrightarrow>
     (\<exists>r. row rn_id (db_runs d) (run_ID (ik_response k)) = Some r \<and> scope_of E (rn_project r) (ik_scope k))"

text \<open>Findings are unique in a run and belong to a stored run.\<close>

definition findings_linked :: "Database \<Rightarrow> bool" where
  "findings_linked d \<longleftrightarrow>
     keyed ft_key (db_findings d) \<and> (\<forall>f \<in> set (db_findings d). row rn_id (db_runs d) (ft_run f) \<noteq> None)"

lemma findings_linked_keys:
  "findings_linked d \<longleftrightarrow> distinct (map ft_key (db_findings d)) \<and>
     (\<forall>k \<in> set (map ft_key (db_findings d)). row rn_id (db_runs d) (fst k) \<noteq> None)"
  by (auto simp: findings_linked_def keyed_def)

definition pg_runs_ok :: "pg_env \<Rightarrow> Database \<Rightarrow> bool" where
  "pg_runs_ok E d \<longleftrightarrow>
     keyed rn_id (db_runs d) \<and> keyed el_id (db_events d) \<and> keyed rt_run (db_reports d) \<and>
     keyed at_key (db_assertions d) \<and> keyed ik_place (db_idempotency d) \<and>
     (\<forall>r \<in> set (db_runs d). run_row_ok E d r) \<and> (\<forall>e \<in> set (db_events d). event_row_ok d e) \<and>
     (\<forall>t \<in> set (db_reports d). row rn_id (db_runs d) (rt_run t) \<noteq> None) \<and>
     (\<forall>a \<in> set (db_assertions d). row rn_id (db_runs d) (at_run a) \<noteq> None) \<and>
     (\<forall>k \<in> set (db_idempotency d). key_row_ok E d k) \<and> findings_linked d"

lemma pg_runs_okD:
  assumes "pg_runs_ok E d"
  shows "keyed rn_id (db_runs d)" "keyed el_id (db_events d)" "keyed rt_run (db_reports d)"
    "keyed at_key (db_assertions d)" "keyed ik_place (db_idempotency d)"
    "r \<in> set (db_runs d) \<Longrightarrow> run_row_ok E d r" "e \<in> set (db_events d) \<Longrightarrow> event_row_ok d e"
    "t \<in> set (db_reports d) \<Longrightarrow> row rn_id (db_runs d) (rt_run t) \<noteq> None"
    "a \<in> set (db_assertions d) \<Longrightarrow> row rn_id (db_runs d) (at_run a) \<noteq> None"
    "k \<in> set (db_idempotency d) \<Longrightarrow> key_row_ok E d k" "findings_linked d"
  using assms unfolding pg_runs_ok_def by blast+

text \<open>The invariant reads only these tables.\<close>

definition run_tables where
  "run_tables d = (db_runs d, db_events d, db_reports d, db_assertions d, db_idempotency d,
     map ft_key (db_findings d))"

lemma pg_runs_ok_cong: "run_tables d' = run_tables d \<Longrightarrow> pg_runs_ok E d' = pg_runs_ok E d"
  by (simp add: run_tables_def pg_runs_ok_def run_row_ok_def report_row_ok_def event_row_ok_def key_row_ok_def
      findings_linked_keys)

lemma pg_runs_ok_migrated: "pg_runs_ok E migrated"
  by (simp add: pg_runs_ok_def findings_linked_def migrated_def)

text \<open>The log of a run is in order already.\<close>

lemma rows_sequenced:
  assumes "sequenced (map el_snapshot es)" and "\<forall>e \<in> set es. e = event_row_of (el_snapshot e)"
  shows "map el_sequence es = map (\<lambda>i. int i + 1) [0..<length es]" and "sorted (map el_sequence es)"
proof -
  have "map el_sequence es = map ev_Sequence (map el_snapshot es)"
    using assms(2) by (induction es) (auto, metis event_row_fields(3))
  then show "map el_sequence es = map (\<lambda>i. int i + 1) [0..<length es]"
    using assms(1) by (simp only: sequenced_def length_map)
  then show "sorted (map el_sequence es)"
    by (simp add: sorted_iff_nth_mono)
qed

lemma run_log_ok:
  assumes "pg_runs_ok E d" and "r \<in> set (db_runs d)"
  shows "run_log (rn_id r) d = events_of (rn_id r) d"
proof -
  have "sequenced (map el_snapshot (events_of (rn_id r) d))"
    using pg_runs_okD(6) [OF assms] by (simp add: run_row_ok_def)
  moreover have "\<forall>e \<in> set (events_of (rn_id r) d). e = event_row_of (el_snapshot e)"
    using pg_runs_okD(7) [OF assms(1)] by (auto simp: event_row_ok_def)
  ultimately show ?thesis
    unfolding run_log_def by (intro sort_key_id_if_sorted rows_sequenced(2))
qed

lemma high_water_log:
  assumes "map el_sequence es = map (\<lambda>i. int i + 1) [0..<length es]"
  shows "high_water es = int (length es)"
proof (cases "es = []")
  case True
  then show ?thesis by (simp add: high_water_def)
next
  case False
  have "el_sequence ` set es = (\<lambda>i. int i + 1) ` {0..<length es}"
    by (metis assms list.set_map set_upt)
  moreover have "Max ((\<lambda>i. int i + 1) ` {0..<length es}) = int (length es)"
    using False by (intro Max_eqI) (auto intro!: image_eqI [of _ _ "length es - 1"] simp: Suc_le_eq of_nat_diff)
  ultimately show ?thesis
    using False by (simp add: high_water_def)
qed

subsection \<open>Creation\<close>

text \<open>A bundle whose parts agree and whose assertions and findings have different names.\<close>

definition bundle_sound :: "RunBundle \<Rightarrow> bool" where
  "bundle_sound b \<longleftrightarrow> bundle_ok b \<and> distinct (map as_ID (rp_Assertions (rb_Report b))) \<and>
     distinct (map fd_ID (rp_Findings (rb_Report b)))"

definition value_row :: "string \<Rightarrow> Assertion \<Rightarrow> assertion_row" where
  "value_row i a = \<lparr>at_run = i, at_assertion = a, at_evidence = value_evidence a\<rparr>"

lemma assertion_rows_fresh:
  assumes "distinct (map as_ID as)" and "\<forall>a \<in> set as. row at_key t (i, as_ID a) = None"
  shows "assertion_rows i as t = t @ map (value_row i) as"
  using assms
proof (induction "as" arbitrary: t)
  case Nil
  then show ?case by (simp add: assertion_rows_def)
next
  case (Cons a as)
  have "insert_new at_key (value_row i a) t = t @ [value_row i a]"
    using Cons.prems(2) by (simp add: insert_new_def value_row_def)
  then have "assertion_rows i (a # as) t = assertion_rows i as (t @ [value_row i a])"
    by (simp add: assertion_rows_def value_row_def)
  also have "\<dots> = (t @ [value_row i a]) @ map (value_row i) as"
    using Cons.prems by (intro Cons.IH) (auto simp: row_snoc_None value_row_def)
  finally show ?case by simp
qed

definition open_finding :: "string \<Rightarrow> time \<Rightarrow> Finding \<Rightarrow> finding_row" where
  "open_finding i now f = \<lparr>ft_run = i, ft_finding = f, ft_created = now, ft_resolvedAt = None\<rparr>"

lemma open_finding_fields [simp]:
  "ft_run (open_finding i now f) = i" "ft_finding (open_finding i now f) = f"
  by (simp_all add: open_finding_def)

lemma finding_rows_fresh:
  assumes "distinct (map fd_ID fs)" and "\<forall>f \<in> set fs. row ft_key t (i, fd_ID f) = None"
  shows "finding_rows i now fs t = t @ map (open_finding i now) fs"
  using assms
proof (induction fs arbitrary: t)
  case Nil
  then show ?case by (simp add: finding_rows_def)
next
  case (Cons f fs)
  have "insert_new ft_key (open_finding i now f) t = t @ [open_finding i now f]"
    using Cons.prems(2) by (simp add: insert_new_def)
  then have "finding_rows i now (f # fs) t = finding_rows i now fs (t @ [open_finding i now f])"
    by (simp add: finding_rows_def open_finding_def)
  also have "\<dots> = (t @ [open_finding i now f]) @ map (open_finding i now) fs"
    using Cons.prems by (intro Cons.IH) (auto simp: row_snoc_None)
  finally show ?case by simp
qed

lemma events_of_other:
  "i \<noteq> run_ID (rb_Run b) \<Longrightarrow> bundle_ok b \<Longrightarrow>
     filter (\<lambda>e. el_run e = i) (map event_row_of (rb_Events b)) = []"
  by (auto simp: bundle_ok_def list_all_iff filter_empty_conv)

lemma events_of_own:
  "bundle_ok b \<Longrightarrow> filter (\<lambda>e. el_run e = run_ID (rb_Run b)) (map event_row_of (rb_Events b)) =
     map event_row_of (rb_Events b)"
  by (auto simp: bundle_ok_def list_all_iff filter_id_conv)

lemma map_snapshot [simp]: "map (el_snapshot \<circ> event_row_of) es = es"
  by (induction es) simp_all

lemma keyed_append:
  "keyed key (t @ u) \<longleftrightarrow> keyed key t \<and> keyed key u \<and> (\<forall>r \<in> set u. row key t (key r) = None)"
  by (auto simp: keyed_def row_None_iff) (metis image_eqI)

text \<open>The tables of runs after the evidence of a bundle.\<close>

lemma evidence_tables:
  assumes "pg_runs_ok E d" and "evidence_fits E p project b d" and "bundle_sound b"
  shows "db_assertions (evidence_db E project b now d) =
      db_assertions d @ map (value_row (run_ID (rb_Run b))) (rp_Assertions (rb_Report b))"
    and "db_findings (evidence_db E project b now d) =
      db_findings d @ map (open_finding (run_ID (rb_Run b)) now) (rp_Findings (rb_Report b))"
proof -
  have "row at_key (db_assertions d) (run_ID (rb_Run b), j) = None"
      "row ft_key (db_findings d) (run_ID (rb_Run b), j) = None" for j
    using pg_runs_okD(9,11) [OF assms(1)] assms(2)
    by (auto simp: row_None_iff evidence_fits_def findings_linked_def)
  then show "db_assertions (evidence_db E project b now d) =
      db_assertions d @ map (value_row (run_ID (rb_Run b))) (rp_Assertions (rb_Report b))"
    and "db_findings (evidence_db E project b now d) =
      db_findings d @ map (open_finding (run_ID (rb_Run b)) now) (rp_Findings (rb_Report b))"
    using assms(3) by (simp_all add: evidence_db_def bundle_sound_def assertion_rows_fresh finding_rows_fresh)
qed

lemma pg_runs_ok_evidence:
  assumes ok: "pg_runs_ok E d" and fits: "evidence_fits E p project b d" and b: "bundle_sound b"
    and k: "row ik_place (db_idempotency d) (scope, k) = None" and scope: "scope_of E project scope"
    and d': "db_runs d' = db_runs (evidence_db E project b now d)"
      "db_events d' = db_events (evidence_db E project b now d)"
      "db_reports d' = db_reports (evidence_db E project b now d)"
      "db_assertions d' = db_assertions (evidence_db E project b now d)"
      "db_findings d' = db_findings (evidence_db E project b now d)"
      "db_idempotency d' = db_idempotency d @ [idempotency_row_of scope k h (rb_Run b) now]"
  shows "pg_runs_ok E d'"
proof -
  let ?i = "run_ID (rb_Run b)"
  have i: "row rn_id (db_runs d) ?i = None" "row rt_run (db_reports d) ?i = None"
    and bok: "bundle_ok b" "distinct (map as_ID (rp_Assertions (rb_Report b)))"
      "distinct (map fd_ID (rp_Findings (rb_Report b)))"
    using fits b by (auto simp: evidence_fits_def bundle_sound_def)
  have t: "db_runs d' = db_runs d @ [run_row_of project b]"
    "db_events d' = db_events d @ map event_row_of (rb_Events b)"
    "db_reports d' = db_reports d @ [report_row_of E b]"
    "db_assertions d' = db_assertions d @ map (value_row ?i) (rp_Assertions (rb_Report b))"
    "db_findings d' = db_findings d @ map (open_finding ?i now) (rp_Findings (rb_Report b))"
    using d' evidence_tables [OF ok fits b, of now] by simp_all
  have old: "row rn_id (db_runs d) j \<noteq> None \<Longrightarrow> row rn_id (db_runs d') j = row rn_id (db_runs d) j" for j
    by (auto simp: t row_snoc)
  have new: "row rn_id (db_runs d') ?i = Some (run_row_of project b)"
    using i by (simp add: t row_snoc run_row_of_def)
  have there: "row rn_id (db_runs d) j \<noteq> None \<Longrightarrow> row rn_id (db_runs d') j \<noteq> None" for j
    using old by simp
  have ev: "e \<in> set (rb_Events b) \<Longrightarrow> ev_RunID e = ?i" for e
    using bok(1) by (simp add: bundle_ok_def list_all_iff)
  have fits_ev: "e \<in> set (rb_Events b) \<Longrightarrow> row el_id (db_events d) (ev_ID e) = None" for e
    using fits by (simp add: evidence_fits_def event_fits_def)
  have ev_old: "el_run e \<noteq> ?i" if "e \<in> set (db_events d)" for e
    using pg_runs_okD(7) [OF ok that] i(1) by (auto simp: event_row_ok_def)
  have at_old: "at_run a \<noteq> ?i" if "a \<in> set (db_assertions d)" for a
    using pg_runs_okD(9) [OF ok that] i(1) by auto
  have none: "events_of ?i d = []" "assertions_of ?i d = []"
    by (auto simp: filter_empty_conv ev_old at_old)
  have run_old: "run_row_ok E d' r" if r: "r \<in> set (db_runs d)" for r
  proof -
    have ne: "rn_id r \<noteq> ?i"
      using i(1) r row_in_dom [of r "db_runs d" rn_id] by auto
    have "events_of (rn_id r) d' = events_of (rn_id r) d"
      using events_of_other [OF ne bok(1)] by (simp add: t)
    moreover have "assertions_of (rn_id r) d' = assertions_of (rn_id r) d"
      using ne by (auto simp: t value_row_def filter_empty_conv)
    ultimately show ?thesis
      using pg_runs_okD(6) [OF ok r] by (auto simp: run_row_ok_def report_row_ok_def t row_snoc)
  qed
  have run_new: "run_row_ok E d' (run_row_of project b)"
  proof -
    have "events_of ?i d' = map event_row_of (rb_Events b)"
      using none(1) events_of_own [OF bok(1)] by (simp add: t)
    moreover have "assertions_of ?i d' = rp_Assertions (rb_Report b)"
      using none(2) by (simp add: t value_row_def comp_def)
    ultimately show ?thesis
      using bok(1) i(2)
      by (simp add: run_row_ok_def report_row_ok_def run_row_of_def report_row_of_def t row_snoc bundle_ok_def)
  qed
  have ev_rows: "e \<in> set (db_events d) \<Longrightarrow> event_row_ok d' e"
      "x \<in> set (rb_Events b) \<Longrightarrow> event_row_ok d' (event_row_of x)" for e x
    using pg_runs_okD(7) [OF ok, of e] there [of "el_run e"] ev [of x] new
    by (simp_all add: event_row_ok_def)
  have new_ids: "keyed el_id (map event_row_of (rb_Events b))"
      "keyed at_key (map (value_row ?i) (rp_Assertions (rb_Report b)))"
    using fits bok(2)
    by (simp_all add: evidence_fits_def keyed_def comp_def value_row_def distinct_map inj_on_def)
  have at_fresh: "row at_key (db_assertions d) (at_key (value_row ?i a)) = None" for a
    by (auto simp: row_None_iff value_row_def dest: at_old)
  show ?thesis
    unfolding pg_runs_ok_def
  proof (intro conjI)
    show "keyed rn_id (db_runs d')"
      using pg_runs_okD(1) [OF ok] i(1) by (simp add: t keyed_snoc run_row_of_def)
    show "keyed el_id (db_events d')"
      using pg_runs_okD(2) [OF ok] fits_ev new_ids(1) by (simp add: t keyed_append)
    show "keyed rt_run (db_reports d')"
      using pg_runs_okD(3) [OF ok] i(2) by (simp add: t keyed_snoc report_row_of_def)
    show "keyed at_key (db_assertions d')"
      using pg_runs_okD(4) [OF ok] new_ids(2) at_fresh by (simp add: t keyed_append)
    show "keyed ik_place (db_idempotency d')"
      using pg_runs_okD(5) [OF ok] k by (simp add: d' keyed_snoc idempotency_row_of_def)
    show "\<forall>r \<in> set (db_runs d'). run_row_ok E d' r"
      using run_old run_new by (auto simp: t)
    show "\<forall>e \<in> set (db_events d'). event_row_ok d' e"
      using ev_rows by (auto simp: t(2))
    show "\<forall>r \<in> set (db_reports d'). row rn_id (db_runs d') (rt_run r) \<noteq> None"
      using pg_runs_okD(8) [OF ok] there new by (auto simp: t(3) report_row_of_def)
    show "\<forall>a \<in> set (db_assertions d'). row rn_id (db_runs d') (at_run a) \<noteq> None"
      using pg_runs_okD(9) [OF ok] there new by (auto simp: t(4) value_row_def)
    show "\<forall>key \<in> set (db_idempotency d'). key_row_ok E d' key"
      using pg_runs_okD(10) [OF ok] old new scope
      by (fastforce simp: d' key_row_ok_def idempotency_row_of_def run_row_of_def)
    have "keyed ft_key (map (open_finding ?i now) (rp_Findings (rb_Report b)))"
      using bok(3) by (simp add: keyed_def comp_def distinct_map inj_on_def)
    moreover have "row ft_key (db_findings d) (?i, j) = None" for j
      using pg_runs_okD(11) [OF ok] i(1) by (auto simp: row_None_iff findings_linked_def)
    ultimately show "findings_linked d'"
      using pg_runs_okD(11) [OF ok] there new by (auto simp: findings_linked_def t(5) keyed_append)
  qed
qed

text \<open>A creation in a scope, whatever the driver does.\<close>

definition creation_scope :: "string option \<Rightarrow> string" where
  "creation_scope p = (case p of None \<Rightarrow> public_scope | Some q \<Rightarrow> projectRunScope q)"

lemma scope_of_creation: "uuid_param_null E p = Inr project \<Longrightarrow> scope_of E project (creation_scope p)"
  by (auto simp: uuid_param_null_def uuid_param_def scope_of_def creation_scope_def
      split: option.splits sum.splits)

lemma creation_db_fields [simp]:
  "db_runs (creation_db E project scope k h b now d) = db_runs (evidence_db E project b now d)"
  "db_events (creation_db E project scope k h b now d) = db_events (evidence_db E project b now d)"
  "db_reports (creation_db E project scope k h b now d) = db_reports (evidence_db E project b now d)"
  "db_assertions (creation_db E project scope k h b now d) = db_assertions (evidence_db E project b now d)"
  "db_findings (creation_db E project scope k h b now d) = db_findings (evidence_db E project b now d)"
  "db_idempotency (creation_db E project scope k h b now d) =
     db_idempotency d @ [idempotency_row_of scope k h (rb_Run b) now]"
  by (simp_all add: creation_db_def notified_db_def Let_def split: option.split)

lemma pg_runs_ok_creation:
  assumes "pg_runs_ok E d" and "creation_fits E p project (creation_scope p) k b d" and "bundle_sound b"
  shows "pg_runs_ok E (creation_db E project (creation_scope p) k h b now d)"
  using assms(2) scope_of_creation [OF creation_fits_project [OF assms(2)]]
  by (intro pg_runs_ok_evidence [OF assms(1) _ assms(3), of p project "creation_scope p" k _ now h])
    (simp_all add: creation_fits_def)

lemma create_keeps:
  assumes "pg_runs_ok E (ss_db s)" and "bundle_sound b"
  shows "pg_runs_ok E (ss_db (fst (Pg_createRun E p (creation_scope p) k h b s)))"
proof (rule atomic_invariant [OF atomic_create, of "pg_runs_ok E"])
  show "pg_runs_ok E (ss_db s)" by (rule assms(1))
  have "ss_driver (reliable s) = []" by simp
  then show "pg_runs_ok E (ss_db (fst (Pg_createRun E p (creation_scope p) k h b (reliable s))))"
    by (cases rule: create_cases [where E = E and p = p and scope = "creation_scope p" and k = k and h = h and b = b])
      (use assms in \<open>simp_all add: pg_runs_ok_creation\<close>)
qed

subsection \<open>Evidence from the worker\<close>

lemma append_assertion_fields [simp]:
  "rp_Run (append_assertion a rep) = rp_Run rep"
  "rp_Assertions (append_assertion a rep) = rp_Assertions rep @ [a]"
  by (simp_all add: append_assertion_def Let_def)

text \<open>
  The report of a run and its table of assertions change together: to the same assertions with
  another run, or with one more.
\<close>

definition report_db :: "pg_env \<Rightarrow> string \<Rightarrow> Report \<Rightarrow> assertion_row list \<Rightarrow> Database \<Rightarrow> Database" where
  "report_db E i rep rows d =
     d\<lparr>db_reports := update_rows (\<lambda>t. rt_run t = i)
         (\<lambda>t. t\<lparr>rt_snapshot := rep, rt_sha256 := report_digest E rep\<rparr>) (db_reports d),
       db_assertions := rows\<rparr>"

lemma insert_assertion_new:
  assumes "pg_runs_ok E d" and "row rn_id (db_runs d) i = Some r"
    and "row rt_run (db_reports d) i = Some t" and "\<not> HasAssertion (rp_Assertions (rt_snapshot t)) (as_ID a)"
  shows "row at_key (db_assertions d) (i, as_ID a) = None"
proof (rule ccontr)
  assume "row at_key (db_assertions d) (i, as_ID a) \<noteq> None"
  then obtain x where x: "x \<in> set (db_assertions d)" "at_run x = i" "as_ID (at_assertion x) = as_ID a"
    using row_SomeD [of at_key "db_assertions d" "(i, as_ID a)"] by fastforce
  have r: "r \<in> set (db_runs d)" "rn_id r = i"
    using assms(2) row_SomeD by fastforce+
  then have "rp_Assertions (rt_snapshot t) = assertions_of i d"
    using pg_runs_okD(6) [OF assms(1) r(1)] assms(3) by (auto simp: run_row_ok_def report_row_ok_def)
  then show False
    using x assms(4) by (auto simp: HasAssertion_iff image_iff)
qed

lemma pg_runs_ok_report:
  assumes ok: "pg_runs_ok E d" and r: "row rn_id (db_runs d) i = Some r"
    and t: "row rt_run (db_reports d) i = Some t"
    and a: "\<not> HasAssertion (rp_Assertions (rt_snapshot t)) (as_ID a)"
  shows "pg_runs_ok E (report_db E i (append_assertion a (rt_snapshot t))
    (db_assertions d @ [\<lparr>at_run = i, at_assertion = a, at_evidence = md\<rparr>]) d)"
proof -
  let ?d = "report_db E i (append_assertion a (rt_snapshot t))
    (db_assertions d @ [\<lparr>at_run = i, at_assertion = a, at_evidence = md\<rparr>]) d"
  have fields: "db_runs ?d = db_runs d" "db_events ?d = db_events d" "db_idempotency ?d = db_idempotency d"
    by (simp_all add: report_db_def)
  have reports: "row rt_run (db_reports ?d) j = (if j = i
      then Some (t\<lparr>rt_snapshot := append_assertion a (rt_snapshot t),
        rt_sha256 := report_digest E (append_assertion a (rt_snapshot t))\<rparr>)
      else row rt_run (db_reports d) j)" for j
    using t by (simp add: report_db_def row_update_key)
  have keys: "keyed rt_run (db_reports ?d)"
    using pg_runs_okD(3) [OF ok] by (simp add: report_db_def keyed_update)
  have refs: "x \<in> set (db_reports ?d) \<Longrightarrow> \<exists>y \<in> set (db_reports d). rt_run y = rt_run x" for x
    by (auto simp: report_db_def update_rows_def split: if_splits)
  have rows: "run_row_ok E ?d x" if x: "x \<in> set (db_runs d)" for x
  proof (cases "rn_id x = i")
    case True
    then have "x = r"
      using keyed_row [OF pg_runs_okD(1) [OF ok] x] r by simp
    then show ?thesis
      using pg_runs_okD(6) [OF ok x] t True reports
      by (auto simp: run_row_ok_def report_row_ok_def fields) (simp_all add: report_db_def)
  next
    case False
    then have "assertions_of (rn_id x) ?d = assertions_of (rn_id x) d"
      by (simp add: report_db_def)
    then show ?thesis
      using pg_runs_okD(6) [OF ok x] reports False by (auto simp: run_row_ok_def report_row_ok_def fields)
  qed
  show ?thesis
    unfolding pg_runs_ok_def
  proof (intro conjI)
    show "keyed at_key (db_assertions ?d)"
      using pg_runs_okD(4) [OF ok] insert_assertion_new [OF ok r t a] by (simp add: report_db_def keyed_snoc)
    show "\<forall>x \<in> set (db_reports ?d). row rn_id (db_runs ?d) (rt_run x) \<noteq> None"
      using refs pg_runs_okD(8) [OF ok] unfolding fields by metis
    show "\<forall>x \<in> set (db_assertions ?d). row rn_id (db_runs ?d) (at_run x) \<noteq> None"
      using pg_runs_okD(9) [OF ok] r unfolding fields by (auto simp: report_db_def)
    show "\<forall>x \<in> set (db_runs ?d). run_row_ok E ?d x"
      using rows by (simp add: fields)
    show "\<forall>x \<in> set (db_events ?d). event_row_ok ?d x"
      using pg_runs_okD(7) [OF ok] by (simp add: fields event_row_ok_def)
    show "\<forall>x \<in> set (db_idempotency ?d). key_row_ok E ?d x"
      using pg_runs_okD(10) [OF ok] by (simp add: fields key_row_ok_def)
    show "findings_linked ?d"
      using pg_runs_okD(11) [OF ok] by (simp add: findings_linked_def report_db_def)
  qed (use pg_runs_okD(1,2,5) [OF ok] keys in \<open>simp_all add: fields\<close>)
qed

lemma report_has_run:
  assumes "pg_runs_ok E d" and "row rt_run (db_reports d) i = Some t"
  shows "\<exists>r. row rn_id (db_runs d) i = Some r"
  using pg_runs_okD(8) [OF assms(1), of t] row_SomeD [OF assms(2)] by auto

lemma record_tx_keeps:
  assumes ok: "pg_runs_ok E d" and run: "script (record_tx E ev) s d = Inr (x, d')"
  shows "pg_runs_ok E d'"
proof -
  let ?i = "ve_RunID ev" and ?a = "ve_Assertion ev"
  obtain t where t: "row rt_run (db_reports d) ?i = Some t"
    and d': "HasAssertion (rp_Assertions (rt_snapshot t)) (as_ID ?a) \<and> d' = d \<or>
      \<not> HasAssertion (rp_Assertions (rt_snapshot t)) (as_ID ?a) \<and>
      (\<exists>d1. update_report E ?i (append_assertion ?a (rt_snapshot t)) d = Inr ((), d1) \<and>
         insert_assertion ?i [''reference'' \<mapsto> AnyString (as_Evidence ?a),
           ''checkpoint'' \<mapsto> AnyString (ve_Checkpoint ev)] ?a d1 = Inr ((), d'))"
    using run unfolding record_tx_def
    by (auto simp: script_ok faithful_intros Let_def split: option.splits if_splits)
  obtain r where r: "row rn_id (db_runs d) ?i = Some r"
    using report_has_run [OF ok t] by blast
  show ?thesis
  proof (cases "HasAssertion (rp_Assertions (rt_snapshot t)) (as_ID ?a)")
    case True
    with d' ok show ?thesis by simp
  next
    case False
    then have "d' = report_db E ?i (append_assertion ?a (rt_snapshot t))
        (db_assertions d @ [\<lparr>at_run = ?i, at_assertion = ?a,
           at_evidence = [''reference'' \<mapsto> AnyString (as_Evidence ?a),
             ''checkpoint'' \<mapsto> AnyString (ve_Checkpoint ev)]\<rparr>]) d"
      using d' insert_assertion_new [OF ok r t False]
      by (auto simp: update_report_def insert_assertion_def insert_new_def report_db_def split: if_splits)
    then show ?thesis
      using pg_runs_ok_report [OF ok r t False] by simp
  qed
qed

subsection \<open>Webhooks\<close>

text \<open>An event appended to the log of a run, counted in the run and in the run its report holds.\<close>

definition logged_db :: "pg_env \<Rightarrow> string \<Rightarrow> Event \<Rightarrow> Run \<Rightarrow> Report \<Rightarrow> Database \<Rightarrow> Database" where
  "logged_db E i ev run rep d =
     d\<lparr>db_events := db_events d @ [event_row_of ev],
       db_runs := update_rows (\<lambda>r. rn_id r = i) (\<lambda>r. r\<lparr>rn_snapshot := run\<rparr>) (db_runs d),
       db_reports := update_rows (\<lambda>t. rt_run t = i)
         (\<lambda>t. t\<lparr>rt_snapshot := rep, rt_sha256 := report_digest E rep\<rparr>) (db_reports d)\<rparr>"

lemma logged_db_fields [simp]:
  "db_assertions (logged_db E i ev run rep d) = db_assertions d"
  "db_idempotency (logged_db E i ev run rep d) = db_idempotency d"
  "db_events (logged_db E i ev run rep d) = db_events d @ [event_row_of ev]"
  by (simp_all add: logged_db_def)

lemma pg_runs_ok_logged:
  assumes ok: "pg_runs_ok E d" and r: "row rn_id (db_runs d) i = Some r"
    and t: "row rt_run (db_reports d) i = Some t"
    and ev: "ev_RunID ev = i" "ev_Sequence ev = int (length (events_of i d)) + 1"
      "row el_id (db_events d) (ev_ID ev) = None"
    and run: "run = (rn_snapshot r)\<lparr>run_EventCount := int (length (events_of i d)) + 1\<rparr>"
  shows "pg_runs_ok E (logged_db E i ev run ((rt_snapshot t)\<lparr>rp_Run := run\<rparr>) d)"
proof -
  let ?d = "logged_db E i ev run ((rt_snapshot t)\<lparr>rp_Run := run\<rparr>) d"
  have new: "run_ID run = run_ID (rn_snapshot r)" "run_EventCount run = int (length (events_of i d)) + 1"
    by (simp_all add: run)
  have runs: "row rn_id (db_runs ?d) j =
      (if j = i then Some (r\<lparr>rn_snapshot := run\<rparr>) else row rn_id (db_runs d) j)" for j
    using r by (simp add: logged_db_def row_update_key)
  have reports: "row rt_run (db_reports ?d) j = (if j = i
      then Some (t\<lparr>rt_snapshot := (rt_snapshot t)\<lparr>rp_Run := run\<rparr>,
        rt_sha256 := report_digest E ((rt_snapshot t)\<lparr>rp_Run := run\<rparr>)\<rparr>)
      else row rt_run (db_reports d) j)" for j
    using t by (simp add: logged_db_def row_update_key)
  have keys: "keyed rt_run (db_reports ?d)" "keyed rn_id (db_runs ?d)"
    using pg_runs_okD(1,3) [OF ok] by (simp_all add: logged_db_def keyed_update)
  have refs: "x \<in> set (db_reports ?d) \<Longrightarrow> \<exists>y \<in> set (db_reports d). rt_run y = rt_run x" for x
    by (auto simp: logged_db_def update_rows_def split: if_splits)
  have there: "row rn_id (db_runs d) j \<noteq> None \<Longrightarrow> row rn_id (db_runs ?d) j \<noteq> None" for j
    by (simp add: runs)
  have r_in: "r \<in> set (db_runs d)" "rn_id r = i"
    using row_SomeD [OF r] by auto
  note ok_r = pg_runs_okD(6) [OF ok r_in(1)]
  have row_i: "run_row_ok E ?d (r\<lparr>rn_snapshot := run\<rparr>)"
    using ok_r t ev new r_in(2) reports
    by (auto simp: run_row_ok_def report_row_ok_def sequenced_snoc)
  have row_other: "run_row_ok E ?d x" if x: "x \<in> set (db_runs d)" "rn_id x \<noteq> i" for x
    using pg_runs_okD(6) [OF ok x(1)] x(2) ev(1) reports
    by (auto simp: run_row_ok_def report_row_ok_def)
  have rows: "run_row_ok E ?d x" if x: "x \<in> set (db_runs ?d)" for x
  proof (cases "rn_id x = i")
    case True
    then have "x = r\<lparr>rn_snapshot := run\<rparr>"
      using keyed_row [OF keys(2) x] runs [of i] by simp
    with row_i show ?thesis by simp
  next
    case False
    then have "x \<in> set (db_runs d)"
      using x by (auto simp: logged_db_def update_rows_def split: if_splits)
    with row_other False show ?thesis by simp
  qed
  show ?thesis
    unfolding pg_runs_ok_def
  proof (intro conjI)
    show "keyed el_id (db_events ?d)"
      using pg_runs_okD(2) [OF ok] ev(3) by (simp add: keyed_snoc)
    show "\<forall>x \<in> set (db_reports ?d). row rn_id (db_runs ?d) (rt_run x) \<noteq> None"
      using refs pg_runs_okD(8) [OF ok] there by metis
    show "\<forall>x \<in> set (db_assertions ?d). row rn_id (db_runs ?d) (at_run x) \<noteq> None"
      using pg_runs_okD(9) [OF ok] there by simp
    show "\<forall>x \<in> set (db_runs ?d). run_row_ok E ?d x"
      using rows by simp
    show "\<forall>x \<in> set (db_events ?d). event_row_ok ?d x"
      using pg_runs_okD(7) [OF ok] there ev(1) runs [of i] by (auto simp: event_row_ok_def)
    show "\<forall>x \<in> set (db_idempotency ?d). key_row_ok E ?d x"
    proof
      fix x assume "x \<in> set (db_idempotency ?d)"
      then obtain y where "row rn_id (db_runs d) (run_ID (ik_response x)) = Some y"
          "scope_of E (rn_project y) (ik_scope x)"
        using pg_runs_okD(10) [OF ok] by (auto simp: key_row_ok_def)
      then show "key_row_ok E ?d x"
        using r by (auto simp: key_row_ok_def runs)
    qed
    show "findings_linked ?d"
      using pg_runs_okD(11) [OF ok] there by (simp add: findings_linked_def logged_db_def)
  qed (use pg_runs_okD(4,5) [OF ok] keys in simp_all)
qed

lemma update_rows_twice:
  assumes "\<And>r. P (g r) = P r" and "\<And>r. f (g r) = f r"
  shows "update_rows P f (update_rows P g t) = update_rows P f t"
  using assms by (induction t) (auto simp: update_rows_def)

lemma leaves_finish: "leaves run_tables (finishWebhookProcessing E rc st i p c)"
  unfolding finishWebhookProcessing_def
  by (intro leaves_intros leaves_exec)
    (auto simp: run_tables_def Let_def split: sum.splits if_splits)

lemma insert_evidence_tables: "insert_evidence E rc i p j d = Inr (u, d') \<Longrightarrow> run_tables d' = run_tables d"
  by (auto simp: insert_evidence_def run_tables_def split: sum.splits if_splits)

lemma project_report_ok:
  assumes "script (project_report E rc i run) s d = Inr ((), d')"
  obtains t where "row rt_run (db_reports d) i = Some t"
    "HasAssertion (rp_Assertions (rt_snapshot t)) (as_ID (WebhookCorrelationAssertion rc)) \<and>
       update_report E i ((rt_snapshot t)\<lparr>rp_Run := run\<rparr>) d = Inr ((), d') \<or>
     \<not> HasAssertion (rp_Assertions (rt_snapshot t)) (as_ID (WebhookCorrelationAssertion rc)) \<and>
       (\<exists>d1 md. insert_assertion i md (WebhookCorrelationAssertion rc) d = Inr ((), d1) \<and>
         update_report E i (append_assertion (WebhookCorrelationAssertion rc)
           ((rt_snapshot t)\<lparr>rp_Run := run\<rparr>)) d1 = Inr ((), d'))"
  using assms unfolding project_report_def
  by (auto simp: script_ok faithful_intros Let_def select_or_no_rows_def split: option.splits if_splits)

lemma project_match_keeps:
  assumes ok: "pg_runs_ok E d" and run: "script (project_match E now rc i p) s d = Inr (x, d')"
  shows "pg_runs_ok E d'"
proof -
  let ?a = "WebhookCorrelationAssertion rc"
  define ev where "ev = BuildWebhookRunEvent (pe_crypto E) now rc i (high_water (run_log i d) + 1)"
  obtain r d1 d2 d3 d4 where r: "row rn_id (db_runs d) i = Some r"
    and d1: "insert_event ev d = Inr ((), d1)"
    and d2: "update_run_snapshot i ((rn_snapshot r)\<lparr>run_EventCount := int (length (run_log i d1))\<rparr>) d1 = Inr ((), d2)"
    and d3: "script (project_report E rc i ((rn_snapshot r)\<lparr>run_EventCount := int (length (run_log i d1))\<rparr>)) s d2 = Inr ((), d3)"
    and d4: "insert_evidence E rc i p (ev_ID ev) d3 = Inr ((), d4)"
    and d': "script (finishWebhookProcessing E rc WebhookMatched i p []) s d4 = Inr (x, d')"
    using run unfolding project_match_def
    by (auto simp: script_ok faithful_intros Let_def select_or_no_rows_def ev_def split: option.splits)
  define new where "new = (rn_snapshot r)\<lparr>run_EventCount := int (length (run_log i d1))\<rparr>"
  have r_in: "r \<in> set (db_runs d)" "rn_id r = i"
    using row_SomeD [OF r] by auto
  have fits: "event_fits d ev" "d1 = d\<lparr>db_events := db_events d @ [event_row_of ev]\<rparr>"
    using d1 by (simp_all add: insert_event_iff)
  have log: "run_log i d = events_of i d" "high_water (run_log i d) = int (length (events_of i d))"
  proof -
    show log: "run_log i d = events_of i d"
      using run_log_ok [OF ok r_in(1)] r_in(2) by simp
    have "map el_sequence (events_of i d) = map (\<lambda>i. int i + 1) [0..<length (events_of i d)]"
      using pg_runs_okD(6) [OF ok r_in(1)] pg_runs_okD(7) [OF ok] r_in(2)
      by (intro rows_sequenced(1)) (auto simp: run_row_ok_def event_row_ok_def)
    then show "high_water (run_log i d) = int (length (events_of i d))"
      unfolding log by (rule high_water_log)
  qed
  have ev: "ev_RunID ev = i" "ev_Sequence ev = int (length (events_of i d)) + 1"
      "row el_id (db_events d) (ev_ID ev) = None"
    using fits(1) log(2) by (auto simp: ev_def event_fits_def BuildWebhookRunEvent_def Let_def)
  have count: "new = (rn_snapshot r)\<lparr>run_EventCount := int (length (events_of i d)) + 1\<rparr>"
    using ev(1) by (simp add: new_def fits(2) run_log_def)
  obtain t where t: "row rt_run (db_reports d2) i = Some t"
    and rep: "HasAssertion (rp_Assertions (rt_snapshot t)) (as_ID ?a) \<and>
       update_report E i ((rt_snapshot t)\<lparr>rp_Run := new\<rparr>) d2 = Inr ((), d3) \<or>
     \<not> HasAssertion (rp_Assertions (rt_snapshot t)) (as_ID ?a) \<and>
       (\<exists>d1 md. insert_assertion i md ?a d2 = Inr ((), d1) \<and>
         update_report E i (append_assertion ?a ((rt_snapshot t)\<lparr>rp_Run := new\<rparr>)) d1 = Inr ((), d3))"
    by (rule project_report_ok [OF d3 [folded new_def]])
  have d2': "d2 = d1\<lparr>db_runs := update_rows (\<lambda>r. rn_id r = i) (\<lambda>r. r\<lparr>rn_snapshot := new\<rparr>) (db_runs d)\<rparr>"
    using d2 unfolding new_def [symmetric] by (simp add: update_run_snapshot_def fits(2) split: if_splits)
  have t': "row rt_run (db_reports d) i = Some t"
    using t by (simp add: d2' fits(2))
  let ?l = "logged_db E i ev new ((rt_snapshot t)\<lparr>rp_Run := new\<rparr>) d"
  have l: "pg_runs_ok E ?l"
    by (rule pg_runs_ok_logged [OF ok r t' ev count])
  have l_rows: "row rn_id (db_runs ?l) i = Some (r\<lparr>rn_snapshot := new\<rparr>)"
      "row rt_run (db_reports ?l) i = Some (t\<lparr>rt_snapshot := (rt_snapshot t)\<lparr>rp_Run := new\<rparr>,
        rt_sha256 := report_digest E ((rt_snapshot t)\<lparr>rp_Run := new\<rparr>)\<rparr>)"
    using r t' by (simp_all add: logged_db_def row_update_key)
  have "pg_runs_ok E d3"
  proof (cases "HasAssertion (rp_Assertions (rt_snapshot t)) (as_ID ?a)")
    case True
    then have "run_tables d3 = run_tables ?l"
      using rep by (auto simp: update_report_def run_tables_def logged_db_def d2' fits(2))
    then show ?thesis
      using pg_runs_ok_cong l by metis
  next
    case False
    then obtain d5 md where d5: "insert_assertion i md ?a d2 = Inr ((), d5)"
        "update_report E i (append_assertion ?a ((rt_snapshot t)\<lparr>rp_Run := new\<rparr>)) d5 = Inr ((), d3)"
      using rep by auto
    have fresh: "\<not> HasAssertion (rp_Assertions (rt_snapshot
        (t\<lparr>rt_snapshot := (rt_snapshot t)\<lparr>rp_Run := new\<rparr>,
          rt_sha256 := report_digest E ((rt_snapshot t)\<lparr>rp_Run := new\<rparr>)\<rparr>))) (as_ID ?a)"
      using False by simp
    have none: "row at_key (db_assertions d) (i, as_ID ?a) = None"
      using insert_assertion_new [OF l l_rows fresh] by simp
    have tables: "run_tables d3 = run_tables (report_db E i (append_assertion ?a ((rt_snapshot t)\<lparr>rp_Run := new\<rparr>))
        (db_assertions ?l @ [\<lparr>at_run = i, at_assertion = ?a, at_evidence = md\<rparr>]) ?l)"
      using d5 none
      by (auto simp: update_report_def insert_assertion_def insert_new_def run_tables_def report_db_def
          d2' fits(2) logged_db_def update_rows_twice split: if_splits)
    have "pg_runs_ok E (report_db E i (append_assertion ?a ((rt_snapshot t)\<lparr>rp_Run := new\<rparr>))
        (db_assertions ?l @ [\<lparr>at_run = i, at_assertion = ?a, at_evidence = md\<rparr>]) ?l)"
      using pg_runs_ok_report [OF l l_rows fresh] by simp
    then show ?thesis
      by (simp only: pg_runs_ok_cong [OF tables])
  qed
  moreover have tables: "run_tables d' = run_tables d3"
    using insert_evidence_tables [OF d4] leavesD [OF leaves_finish d'] by simp
  ultimately show ?thesis
    by (simp only: pg_runs_ok_cong [OF tables])
qed

lemma tables_preserves: "leaves run_tables m \<Longrightarrow> preserves (pg_runs_ok E) m"
  by (rule leaves_preserves [where f = run_tables]) (assumption | erule pg_runs_ok_cong)+

lemma preserves_finish: "preserves (pg_runs_ok E) (finishWebhookProcessing E' rc st i p c)"
  by (rule tables_preserves [OF leaves_finish])

lemma preserves_project_match: "preserves (pg_runs_ok E) (project_match E now rc i p)"
  by (auto simp: preserves_def faithful_project_match intro: project_match_keeps)

lemma preserves_process: "preserves (pg_runs_ok E) (process_tx E now j)"
  unfolding process_tx_def correlate_def
  by (intro preserves_intros preserves_finish preserves_project_match)

lemma preserves_record: "preserves (pg_runs_ok E) (record_tx E ev)"
  by (auto simp: preserves_def faithful_record_tx intro: record_tx_keeps)

subsection \<open>The other operations\<close>

text \<open>Operations outside the run store touch none of its tables; most leave the outbox alone, too.\<close>

lemma tables_exec:
  "(\<And>now d x d'. g now d = Inr (x, d') \<Longrightarrow> run_tables d' = run_tables d) \<Longrightarrow>
     preserves (pg_runs_ok E) (exec g)"
  by (rule tables_preserves [OF leaves_exec])

lemma preserves_mark: "preserves (pg_runs_ok E) (mark_tx E' rc)"
  unfolding mark_tx_def
  by (intro preserves_intros tables_exec)
    (auto simp: insert_webhook_def insert_outbox_def run_tables_def split: if_splits sum.splits)

lemma preserves_claim: "preserves (pg_runs_ok E) (claim_tx now owner lease topics locked)"
  unfolding claim_tx_def
  by (intro preserves_intros tables_exec) (auto simp: update_outbox_def run_tables_def)

lemma upsert_connection_tables:
  "upsert_connection E p c now d = Inr (x, d') \<Longrightarrow> run_tables d' = run_tables d"
  by (auto simp: upsert_connection_def run_tables_def Let_def split: sum.splits if_splits option.splits)

lemma insert_demo_tables:
  "insert_demo_organization d = Inr (u, d') \<Longrightarrow> run_tables d' = run_tables d"
  "insert_demo_project now d = Inr (u, d') \<Longrightarrow> run_tables d' = run_tables d"
  by (auto simp: insert_demo_organization_def insert_demo_project_def run_tables_def split: if_splits)

text \<open>One history of the whole store: any operation, any driver.\<close>

inductive pg_step :: "pg_env \<Rightarrow> Database \<Rightarrow> Database \<Rightarrow> bool" for E where
  step_create: "bundle_sound b \<Longrightarrow>
    pg_step E (ss_db s) (ss_db (fst (Pg_createRun E p (creation_scope p) k h b s)))"
| step_next: "pg_step E (ss_db s) (ss_db (fst (Pg_NextRunID s)))"
| step_mark: "pg_step E (ss_db s) (ss_db (fst (Pg_MarkWebhookSeen E rc s)))"
| step_process: "pg_step E (ss_db s) (ss_db (fst (Pg_ProcessStripeWebhook E clientNow j s)))"
| step_verify: "pg_step E (ss_db s) (ss_db (fst (Pg_RecordVerification E ev s)))"
| step_effect: "pg_step E (ss_db s) (ss_db (fst (Pg_ApplyReferenceMerchantEffect i n s)))"
| step_save: "pg_step E (ss_db s) (ss_db (fst (Pg_SaveStripeConnection E c s)))"
| step_save_project: "pg_step E (ss_db s) (ss_db (fst (Pg_SaveStripeConnectionForProject E p c s)))"
| step_claim: "pg_step E (ss_db s) (ss_db (fst (Pg_ClaimOutbox clientNow owner lease topics s)))"
| step_heartbeat: "pg_step E (ss_db s) (ss_db (fst (Pg_HeartbeatOutbox E i owner lease s)))"
| step_complete: "pg_step E (ss_db s) (ss_db (fst (Pg_CompleteOutbox E i owner s)))"
| step_retry: "pg_step E (ss_db s) (ss_db (fst (Pg_RetryOutbox E i owner delay code s)))"
| step_fail: "pg_step E (ss_db s) (ss_db (fst (Pg_FailOutbox E i owner code s)))"

definition pg_ok :: "pg_env \<Rightarrow> Database \<Rightarrow> bool" where
  "pg_ok E d \<longleftrightarrow> pg_runs_ok E d \<and> pg_outbox_ok d"

lemma update_held_tables: "preserves (pg_runs_ok E) (update_held E' i owner f)"
  unfolding update_held_def
  by (rule tables_exec) (auto simp: update_outbox_def run_tables_def split: sum.splits)

lemma held_keeps:
  "pg_runs_ok E (ss_db s) \<Longrightarrow> pg_runs_ok E (ss_db (fst (update_held E' i owner f s)))"
  using update_held_tables unfolding update_held_def by (rule exec_preserves)

lemma pg_step_runs_ok:
  assumes "pg_step E d d'" and "pg_runs_ok E d"
  shows "pg_runs_ok E d'"
  using assms
proof (induction rule: pg_step.induct)
  case (step_create b s p k h)
  then show ?case by (intro create_keeps)
next
  case (step_next s)
  have "preserves (pg_runs_ok E) Pg_NextRunID"
    unfolding Pg_NextRunID_def by (rule tables_exec) (auto simp: run_tables_def Let_def)
  then show ?case
    using step_next unfolding Pg_NextRunID_def by (rule exec_preserves)
next
  case (step_mark s rc)
  then show ?case
    unfolding Pg_MarkWebhookSeen_def by (rule in_tx_preserves [OF preserves_mark])
next
  case (step_process s clientNow j)
  then show ?case
    unfolding Pg_ProcessStripeWebhook_def by (rule in_tx_preserves [OF preserves_process])
next
  case (step_verify s ev)
  then show ?case
    unfolding Pg_RecordVerification_def by (rule in_tx_preserves [OF preserves_record])
next
  case (step_effect s i n)
  have "preserves (pg_runs_ok E) (exec (\<lambda>now. upsert_effect i n))"
    by (rule tables_exec) (auto simp: upsert_effect_def run_tables_def split: if_splits)
  from exec_preserves [OF this step_effect] show ?case
    unfolding Pg_ApplyReferenceMerchantEffect_def by (simp add: chain_offline_db offline_give)
next
  case (step_save s c)
  have "preserves (pg_runs_ok E)
      (chain (exec (\<lambda>now. insert_demo_organization)) (\<lambda>_.
       chain (exec insert_demo_project) (\<lambda>_.
       chain (exec (upsert_connection E demoProjectID c)) (\<lambda>stored. give (Commit stored)))))"
    by (intro preserves_intros tables_exec; erule insert_demo_tables upsert_connection_tables)
  then show ?case
    using step_save unfolding Pg_SaveStripeConnection_def by (rule in_tx_preserves)
next
  case (step_save_project s p c)
  have audit: "preserves (pg_runs_ok E) (insertAudit E p [] a ty i md)" for a ty i md
    unfolding insertAudit_def
    by (rule tables_exec) (auto simp: run_tables_def split: sum.splits if_splits)
  have "preserves (pg_runs_ok E) (exec (upsert_connection E p c))"
    by (rule tables_exec) (erule upsert_connection_tables)
  then have "preserves (pg_runs_ok E)
      (chain (exec (upsert_connection E p c)) (\<lambda>stored.
       chain (insertAudit E p [] ''connection.validated'' ''stripe_connection'' (sc_ID stored)
               [''stripe_account_id'' \<mapsto> AnyString (sc_StripeAccountID stored)]) (\<lambda>_.
       give (Commit stored))))"
    by (intro preserves_intros audit)
  then show ?case
    using step_save_project unfolding Pg_SaveStripeConnectionForProject_def by (rule in_tx_preserves)
next
  case (step_claim s clientNow owner lease topics)
  then show ?case
    unfolding Pg_ClaimOutbox_def by (rule in_tx_preserves [OF preserves_claim])
next
  case (step_heartbeat s i owner lease)
  then show ?case
    unfolding Pg_HeartbeatOutbox_def by (simp add: chain_offline_db offline_give held_keeps)
next
  case (step_complete s i owner)
  then show ?case
    unfolding Pg_CompleteOutbox_def by (simp add: chain_offline_db offline_lease_lost held_keeps)
next
  case (step_retry s i owner delay code)
  then show ?case
    unfolding Pg_RetryOutbox_def by (simp add: chain_offline_db offline_lease_lost held_keeps)
next
  case (step_fail s i owner code)
  then show ?case
    unfolding Pg_FailOutbox_def by (simp add: chain_offline_db offline_lease_lost held_keeps)
qed

text \<open>
  What happens to the jobs and to the keys on record: most operations leave both alone, and the
  others are steps of the outbox, of which only a creation records a key.
\<close>

definition queue_tables where
  "queue_tables d = (db_outbox d, db_idempotency d)"

lemma queue_tables_statements:
  "update_report E i rep d = Inr (u, d') \<Longrightarrow> queue_tables d' = queue_tables d"
  "update_run_snapshot i run d = Inr (u, d') \<Longrightarrow> queue_tables d' = queue_tables d"
  "insert_event e d = Inr (u, d') \<Longrightarrow> queue_tables d' = queue_tables d"
  "insert_assertion i md a d = Inr (u, d') \<Longrightarrow> queue_tables d' = queue_tables d"
  "insert_evidence E rc i p j d = Inr (u, d') \<Longrightarrow> queue_tables d' = queue_tables d"
  "upsert_effect i n d = Inr (inserted, d') \<Longrightarrow> queue_tables d' = queue_tables d"
  "upsert_connection E p c now d = Inr (x, d') \<Longrightarrow> queue_tables d' = queue_tables d"
  "insert_demo_organization d = Inr (u, d') \<Longrightarrow> queue_tables d' = queue_tables d"
  "insert_demo_project now d = Inr (u, d') \<Longrightarrow> queue_tables d' = queue_tables d"
  by (auto simp: queue_tables_def update_report_def update_run_snapshot_def insert_event_def
      insert_assertion_def insert_evidence_def upsert_effect_def upsert_connection_def Let_def
      insert_demo_organization_def insert_demo_project_def
      split: sum.splits if_splits option.splits)

lemma queue_tables_process: "leaves queue_tables (process_tx E now j)"
proof -
  have finish: "leaves queue_tables (finishWebhookProcessing E rc st i p c)" for rc st i p c
    unfolding finishWebhookProcessing_def
    by (intro leaves_intros leaves_exec) (auto simp: queue_tables_def Let_def split: sum.splits if_splits)
  have "leaves queue_tables (project_match E now rc i p)" for rc i p
    unfolding project_match_def project_report_def
    by (intro leaves_intros finish leaves_exec; erule queue_tables_statements)
  with finish show ?thesis
    unfolding process_tx_def correlate_def by (intro leaves_intros)
qed

lemma queue_tables_record: "leaves queue_tables (record_tx E ev)"
  unfolding record_tx_def by (intro leaves_intros leaves_exec; erule queue_tables_statements)

lemma keys_held: "db_idempotency (ss_db (fst (update_held E i owner f s))) = db_idempotency (ss_db s)"
  unfolding update_held_def
  by (rule exec_leaves [OF leaves_exec]) (auto simp: update_outbox_def split: sum.splits)

lemma keys_claim: "leaves db_idempotency (claim_tx now owner lease topics locked)"
  unfolding claim_tx_def by (intro leaves_intros leaves_exec) (auto simp: update_outbox_def)

lemma keys_mark: "leaves db_idempotency (mark_tx E rc)"
  unfolding mark_tx_def
  by (intro leaves_intros leaves_exec)
    (auto simp: insert_webhook_def insert_outbox_def split: if_splits sum.splits)

lemma pg_step_queue_tables:
  assumes "pg_step E d d'"
  obtains (quiet) "queue_tables d' = queue_tables d"
  | (outbox) now act ans where "pg_outbox_step E d now act ans d'" "db_idempotency d' = db_idempotency d"
  | (created) p k h b s where "bundle_sound b" "d = ss_db s"
      "d' = ss_db (fst (Pg_createRun E p (creation_scope p) k h b s))"
  using assms
proof (cases rule: pg_step.cases)
  case (step_create b s p k h)
  then show thesis using created by blast
next
  case (step_next s)
  have "queue_tables (ss_db (fst (Pg_NextRunID s))) = queue_tables (ss_db s)"
    unfolding Pg_NextRunID_def
    by (rule exec_leaves [OF leaves_exec]) (auto simp: queue_tables_def Let_def)
  with step_next show thesis by (intro quiet) simp
next
  case (step_mark s rc)
  have "db_idempotency (ss_db (fst (Pg_MarkWebhookSeen E rc s))) = db_idempotency (ss_db s)"
    unfolding Pg_MarkWebhookSeen_def by (rule in_tx_leaves [OF keys_mark])
  with step_mark pg_mark [where E = E and rc = rc and s = s, OF prod.collapse [symmetric]] show thesis
    by (intro outbox) auto
next
  case (step_process s clientNow j)
  then show thesis
    by (intro quiet) (simp add: Pg_ProcessStripeWebhook_def in_tx_leaves [OF queue_tables_process])
next
  case (step_verify s ev)
  then show thesis
    by (intro quiet) (simp add: Pg_RecordVerification_def in_tx_leaves [OF queue_tables_record])
next
  case (step_effect s i n)
  have "queue_tables (ss_db (fst (exec (\<lambda>now. upsert_effect i n) s))) = queue_tables (ss_db s)"
    by (rule exec_leaves [OF leaves_exec]) (erule queue_tables_statements)
  with step_effect show thesis
    by (intro quiet) (simp add: Pg_ApplyReferenceMerchantEffect_def chain_offline_db offline_give)
next
  case (step_save s c)
  have "leaves queue_tables
      (chain (exec (\<lambda>now. insert_demo_organization)) (\<lambda>_.
       chain (exec insert_demo_project) (\<lambda>_.
       chain (exec (upsert_connection E demoProjectID c)) (\<lambda>stored. give (Commit stored)))))"
    by (intro leaves_intros leaves_exec; erule queue_tables_statements)
  from in_tx_leaves [OF this, of s] step_save show thesis
    by (intro quiet) (simp add: Pg_SaveStripeConnection_def)
next
  case (step_save_project s p c)
  have "leaves queue_tables
      (chain (exec (upsert_connection E p c)) (\<lambda>stored.
       chain (insertAudit E p [] ''connection.validated'' ''stripe_connection'' (sc_ID stored)
               [''stripe_account_id'' \<mapsto> AnyString (sc_StripeAccountID stored)]) (\<lambda>_.
       give (Commit stored))))"
    by (intro leaves_intros leaves_exec; (erule queue_tables_statements | simp add: queue_tables_def))
  from in_tx_leaves [OF this, of s] step_save_project show thesis
    by (intro quiet) (simp add: Pg_SaveStripeConnectionForProject_def)
next
  case (step_claim s clientNow owner lease topics)
  have "db_idempotency (ss_db (fst (Pg_ClaimOutbox clientNow owner lease topics s))) = db_idempotency (ss_db s)"
    unfolding Pg_ClaimOutbox_def by (rule in_tx_leaves [OF keys_claim])
  with step_claim pg_claim [where E = E and clientNow = clientNow and owner = owner and lease = lease
      and topics = topics and s = s, OF prod.collapse [symmetric]] show thesis
    by (intro outbox) auto
next
  case (step_heartbeat s i owner lease)
  with pg_heartbeat [where E = E and i = i and owner = owner and lease = lease and s = s,
      OF prod.collapse [symmetric]] show thesis
    by (intro outbox) (auto simp: Pg_HeartbeatOutbox_def chain_offline_db offline_give keys_held)
next
  case (step_complete s i owner)
  with pg_complete [where E = E and i = i and owner = owner and s = s, OF prod.collapse [symmetric]] show thesis
    by (intro outbox) (auto simp: Pg_CompleteOutbox_def chain_offline_db offline_lease_lost keys_held)
next
  case (step_retry s i owner delay code)
  with pg_retry [where E = E and i = i and owner = owner and delay = delay and code = code and s = s,
      OF prod.collapse [symmetric]] show thesis
    by (intro outbox) (auto simp: Pg_RetryOutbox_def chain_offline_db offline_lease_lost keys_held)
next
  case (step_fail s i owner code)
  with pg_fail [where E = E and i = i and owner = owner and code = code and s = s,
      OF prod.collapse [symmetric]] show thesis
    by (intro outbox) (auto simp: Pg_FailOutbox_def chain_offline_db offline_lease_lost keys_held)
qed

lemma pg_step_outbox_ok:
  assumes "pg_step E d d'" and "pg_outbox_ok d"
  shows "pg_outbox_ok d'"
proof -
  have queue: "pg_outbox_step E d now act ans d' \<Longrightarrow> pg_outbox_ok d'" for now act ans
    using pg_step_queue assms(2) by (auto simp: queue_step_def)
  from assms(1) show ?thesis
  proof (cases rule: pg_step_queue_tables)
    case quiet
    then show ?thesis
      using assms(2) pg_outbox_ok_cong [of d' d] by (simp add: queue_tables_def)
  next
    case (outbox now act ans)
    then show ?thesis by (intro queue)
  next
    case (created p k h b s)
    with pg_create [where E = E and p = p and scope = "creation_scope p" and k = k and h = h
      and b = b and s = s, OF prod.collapse [symmetric]] queue
    show ?thesis by simp
  qed
qed

text \<open>
  The tables of Postgres agree with each other over every history of operations, whatever the
  driver does: identifiers are unique and references resolve, the log of a run is numbered from
  1 without a gap and counted in its snapshot, its report shows the same snapshot, carries the
  digest of its own text and lists exactly the rows of the table of assertions, a key on record
  names a run of its scope, and the outbox is consistent.
\<close>

theorem pg_invariant:
  assumes "(pg_step E)\<^sup>*\<^sup>* migrated d"
  shows "pg_ok E d"
  using assms
proof (induction rule: rtranclp_induct)
  case base
  show ?case
    using pg_runs_ok_migrated by (simp add: pg_ok_def pg_outbox_ok_def migrated_def)
next
  case (step d d')
  then show ?case
    using pg_step_runs_ok pg_step_outbox_ok unfolding pg_ok_def by blast
qed

end
