(* ===== verification/PgCreate.thy ===== *)
theory PgCreate
  imports PgInvariant
begin

text \<open>
  Creating a run on Postgres under failures: all or nothing, at most once however often it is
  retried, and what becomes of a key whose record has expired.
\<close>

subsection \<open>One creation, any driver\<close>

lemma select_idempotency_row:
  "select_idempotency scope k now d =
     (case row ik_place (db_idempotency d) (scope, k) of
        None \<Rightarrow> None
      | Some r \<Rightarrow> if now < ik_expires r then Some (ik_request r, ik_response r) else None)"
  by (simp add: select_idempotency_def)

text \<open>
  Whatever the driver does, a creation leaves the database as it was or as the whole creation
  leaves it; an answer other than an error is the right one.
\<close>

lemma create_any:
  assumes "Pg_createRun E p scope k h b s = (s', x)"
  obtains (known) h' run where "select_idempotency scope k (ss_now s) (ss_db s) = Some (h', run)"
      "ss_db s' = ss_db s" "x = idempotent_answer (Some (h', run)) h \<or> (\<exists>e. x = Inl e)"
  | (created) project where "select_idempotency scope k (ss_now s) (ss_db s) = None"
      "creation_fits E p project scope k b (ss_db s)"
      "ss_db s' = creation_db E project scope k h b (ss_now s) (ss_db s)"
      "x = Inr (rb_Run b, False) \<or> (\<exists>e. x = Inl e)"
  | (refused) e where "select_idempotency scope k (ss_now s) (ss_db s) = None" "ss_db s' = ss_db s" "x = Inl e"
proof -
  have driver: "ss_driver (reliable s) = []" by simp
  show thesis
    using driver
  proof (cases rule: create_cases [where E = E and p = p and scope = scope and k = k and h = h and b = b])
    case (known h' run)
    with that(1) [of h' run] atomicD [OF atomic_create assms known(2)] show ?thesis
      by auto
  next
    case (created project)
    from atomicD [OF atomic_create assms created(3)] show ?thesis
    proof (elim disjE conjE exE)
      assume "x = Inr (rb_Run b, False)"
        and "ss_db s' = ss_db (reliable s\<lparr>ss_db := creation_db E project scope k h b (ss_now (reliable s)) (ss_db (reliable s))\<rparr>)"
      with that(2) [of project] created show ?thesis by simp
    next
      fix e assume "x = Inl e" and "ss_db s' = ss_db s"
      with that(3) created show ?thesis by simp
    next
      fix e assume "x = Inl e"
        and "ss_db s' = ss_db (reliable s\<lparr>ss_db := creation_db E project scope k h b (ss_now (reliable s)) (ss_db (reliable s))\<rparr>)"
      with that(2) [of project] created show ?thesis by simp
    qed
  next
    case (refused e)
    with that(3) atomicD [OF atomic_create assms refused(3)] show ?thesis by auto
  qed
qed

lemma created_now_simps [simp]:
  "\<not> created_now (Inl e)" "created_now (Inr (run, replayed)) \<longleftrightarrow> \<not> replayed"
  by (simp_all add: created_now_def)

text \<open>
  Everything a bundle brings, row by row.  First the run and its evidence: all rows with its
  identifier, in every table that has one.
\<close>

definition stored_evidence ::
  "pg_env \<Rightarrow> string option \<Rightarrow> RunBundle \<Rightarrow> time \<Rightarrow> Database \<Rightarrow> Database \<Rightarrow> bool" where
  "stored_evidence E project b now d d' \<longleftrightarrow>
     (let i = run_ID (rb_Run b); rep = rb_Report b in
        db_runs d' = db_runs d @
          [\<lparr>rn_id = i, rn_project = project, rn_object = run_StripeObjectID (rb_Run b),
            rn_correlation = nullableString (rb_StripeCorrelationID b),
            rn_started = timestamptz (run_StartedAt (rb_Run b)), rn_snapshot = rb_Run b\<rparr>] \<and>
        db_events d' = db_events d @
          map (\<lambda>e. \<lparr>el_id = ev_ID e, el_run = i, el_sequence = ev_Sequence e, el_snapshot = e\<rparr>) (rb_Events b) \<and>
        db_reports d' = db_reports d @
          [\<lparr>rt_run = i, rt_snapshot = rep, rt_generated = timestamptz (rp_Generated rep),
            rt_sha256 = report_digest E rep\<rparr>] \<and>
        db_assertions d' = db_assertions d @
          map (\<lambda>a. \<lparr>at_run = i, at_assertion = a, at_evidence = value_evidence a\<rparr>) (rp_Assertions rep) \<and>
        db_findings d' = db_findings d @
          map (\<lambda>f. \<lparr>ft_run = i, ft_finding = f, ft_created = now, ft_resolvedAt = None\<rparr>) (rp_Findings rep))"

text \<open>What the members of the project are told and what is recorded for them; nothing in public.\<close>

definition told_project ::
  "string option \<Rightarrow> RunBundle \<Rightarrow> time \<Rightarrow> Database \<Rightarrow> Database \<Rightarrow> bool" where
  "told_project project b now d d' \<longleftrightarrow>
     (case project of
        None \<Rightarrow> db_notifications d' = db_notifications d \<and> db_audit d' = db_audit d
      | Some u \<Rightarrow>
          (\<exists>j. db_notifications d' = db_notifications d @
             [\<lparr>nf_id = j, nf_project = u, nf_run = Some (run_ID (rb_Run b)), nf_kind = ''run.completed'',
               nf_payload = [''run_id'' \<mapsto> AnyString (run_ID (rb_Run b)),
                 ''scenario_name'' \<mapsto> AnyString (run_ScenarioName (rb_Run b)),
                 ''status'' \<mapsto> AnyString (run_status_string (run_Status (rb_Run b)))],
               nf_readAt = None, nf_created = now\<rparr>]) \<and>
          db_audit d' = db_audit d @
            [\<lparr>al_project = u, al_actor = None, al_action = ''run.created'', al_resourceType = ''run'',
              al_resourceID = run_ID (rb_Run b),
              al_metadata = [''scenario_id'' \<mapsto> AnyString (run_ScenarioID (rb_Run b))], al_created = now\<rparr>])"

text \<open>The record of the key, for 24 hours, and one open job that is available at once.\<close>

definition stored_key ::
  "string \<Rightarrow> digest \<Rightarrow> digest \<Rightarrow> RunBundle \<Rightarrow> time \<Rightarrow> Database \<Rightarrow> Database \<Rightarrow> bool" where
  "stored_key scope k h b now d d' \<longleftrightarrow>
     db_idempotency d' = db_idempotency d @
       [\<lparr>ik_scope = scope, ik_key = k, ik_request = h, ik_response = rb_Run b,
         ik_expires = now + 24 * 60 * 60 * 10 ^ 9\<rparr>]"

definition queued_job :: "RunBundle \<Rightarrow> time \<Rightarrow> Database \<Rightarrow> Database \<Rightarrow> bool" where
  "queued_job b now d d' \<longleftrightarrow>
     (\<exists>j. db_outbox d' = db_outbox d @
        [\<lparr>ob_id = j,
          ob_topic = (if rb_OutboxTopic b = [] then ''run.persisted'' else rb_OutboxTopic b),
          ob_aggregate = run_ID (rb_Run b), ob_payload = pg_bundle_payload b, ob_created = now,
          ob_published = None, ob_failed = None, ob_attempts = 0, ob_available = now,
          ob_lockedAt = None, ob_lockedBy = None, ob_error = None\<rparr>])"

definition other_tables where
  "other_tables d =
     ((db_webhooks d, db_evidence d, db_connections d, db_effects d, db_organizations d),
      (db_projects d, db_users d, db_memberships d, db_sessions d, db_environments d, db_runSequence d))"

definition stored_whole ::
  "pg_env \<Rightarrow> string option \<Rightarrow> digest \<Rightarrow> digest \<Rightarrow> RunBundle \<Rightarrow> time \<Rightarrow> Database \<Rightarrow> Database \<Rightarrow> bool" where
  "stored_whole E p k h b now d d' \<longleftrightarrow>
     (\<exists>project. uuid_param_null E p = Inr project \<and> stored_evidence E project b now d d' \<and>
        told_project project b now d d') \<and>
     stored_key (creation_scope p) k h b now d d' \<and> queued_job b now d d' \<and>
     other_tables d' = other_tables d"

text \<open>No row with another run's identifier is added, changed or removed.\<close>

definition others_kept :: "string \<Rightarrow> Database \<Rightarrow> Database \<Rightarrow> bool" where
  "others_kept i d d' \<longleftrightarrow>
     (\<forall>j. j \<noteq> i \<longrightarrow> row rn_id (db_runs d') j = row rn_id (db_runs d) j \<and>
        events_of j d' = events_of j d \<and> row rt_run (db_reports d') j = row rt_run (db_reports d) j \<and>
        assertions_of j d' = assertions_of j d \<and>
        filter (\<lambda>f. ft_run f = j) (db_findings d') = filter (\<lambda>f. ft_run f = j) (db_findings d))"

lemma stored_evidence_others:
  "stored_evidence E project b now d d' \<Longrightarrow> others_kept (run_ID (rb_Run b)) d d'"
  by (auto simp: stored_evidence_def others_kept_def Let_def row_snoc filter_empty_conv split: option.splits)

lemma creation_evidence:
  assumes "pg_runs_ok E d" and "creation_fits E p project scope k b d" and "bundle_sound b"
  shows "stored_evidence E project b now d (creation_db E project scope k h b now d)"
proof -
  have ev: "evidence_fits E p project b d"
    using assms(2) by (simp add: creation_fits_def)
  have "map event_row_of (rb_Events b) = map (\<lambda>e. \<lparr>el_id = ev_ID e, el_run = run_ID (rb_Run b),
      el_sequence = ev_Sequence e, el_snapshot = e\<rparr>) (rb_Events b)"
    using assms(3) by (auto simp: bundle_sound_def bundle_ok_def list_all_iff event_row_of_def)
  then show ?thesis
    using evidence_tables [OF assms(1) ev assms(3), of now]
    by (simp add: stored_evidence_def Let_def run_row_of_def report_row_of_def value_row_def [abs_def]
        open_finding_def [abs_def])
qed

lemma creation_stored:
  assumes ok: "pg_runs_ok E d" and fits: "creation_fits E p project (creation_scope p) k b d"
    and b: "bundle_sound b"
  shows "stored_whole E p k h b now d (creation_db E project (creation_scope p) k h b now d)"
    and "others_kept (run_ID (rb_Run b)) d (creation_db E project (creation_scope p) k h b now d)"
proof -
  let ?d = "creation_db E project (creation_scope p) k h b now d"
  have evidence: "stored_evidence E project b now d ?d"
    by (rule creation_evidence [OF assms])
  then show "others_kept (run_ID (rb_Run b)) d ?d"
    by (rule stored_evidence_others)
  have told: "told_project project b now d ?d"
    by (simp add: told_project_def creation_db_def notified_db_def evidence_db_def run_notification_def
        run_audit_def Let_def split: option.split)
  have key: "stored_key (creation_scope p) k h b now d ?d"
    by (simp add: stored_key_def idempotency_row_of_def Day_def Hour_def Minute_def Second_def)
  have job: "queued_job b now d ?d"
    by (simp add: queued_job_def creation_db_def job_row_def job_topic_def Let_def)
  have rest: "other_tables ?d = other_tables d"
    by (simp add: other_tables_def creation_db_def notified_db_def evidence_db_def Let_def split: option.split)
  show "stored_whole E p k h b now d ?d"
    unfolding stored_whole_def
    using creation_fits_project [OF fits] evidence told key job rest by blast
qed

text \<open>
  C4. A creation is all or nothing, whatever the driver does.  Either the database is unchanged and
  nothing is reported as created, or every part of the bundle is stored as exactly these new rows:
  the run, its log, its report with its digest, its assertions, its findings, the record of the key
  for 24 hours, one open job, and in a project one notification and one audit record; the evidence
  of other runs and every other table are untouched.  An answer that reports a creation implies the
  second; a lost reply may hide it.
\<close>

theorem pg_creation_whole:
  assumes "pg_runs_ok E (ss_db s)" and "bundle_sound b"
    and "Pg_createRun E p (creation_scope p) k h b s = (s', x)"
  shows "ss_db s' = ss_db s \<and> \<not> created_now x \<or>
    stored_whole E p k h b (ss_now s) (ss_db s) (ss_db s') \<and>
    others_kept (run_ID (rb_Run b)) (ss_db s) (ss_db s') \<and>
    (x = Inr (rb_Run b, False) \<or> (\<exists>e. x = Inl e))"
  using assms(3)
proof (cases rule: create_any)
  case (known h' run)
  then show ?thesis
    by (auto simp: idempotent_answer_def split: if_splits)
next
  case (created project)
  then show ?thesis
    using creation_stored [OF assms(1) created(2) assms(2)] by simp
next
  case (refused e)
  then show ?thesis by simp
qed

subsection \<open>Retries\<close>

text \<open>
  Attempts to create under one key, as a client makes them that gets errors: each at its time, with
  its own driver, and with its own bundle, because every attempt allocates an identifier.
\<close>

record pg_attempt =
  pa_now :: time
  pa_locked :: "string list"
  pa_driver :: "outcome list"
  pa_bundle :: RunBundle

fun pg_attempts ::
  "pg_env \<Rightarrow> string option \<Rightarrow> digest \<Rightarrow> digest \<Rightarrow> pg_attempt list \<Rightarrow> Database \<Rightarrow>
   Database \<times> (goerr + Run \<times> bool) list" where
  "pg_attempts E p k h [] d = (d, [])"
| "pg_attempts E p k h (q # qs) d =
     (let (s', x) = Pg_createRun E p (creation_scope p) k h (pa_bundle q)
            \<lparr>ss_db = d, ss_now = pa_now q, ss_locked = pa_locked q, ss_driver = pa_driver q\<rparr>;
          (d', xs) = pg_attempts E p k h qs (ss_db s')
      in (d', x # xs))"

lemma attempts_known:
  assumes "row ik_place (db_idempotency d) (creation_scope p, k) = Some r" and "ik_request r = h"
    and "\<forall>q \<in> set qs. pa_now q < ik_expires r" and "pg_attempts E p k h qs d = (d', xs)"
  shows "d' = d \<and> (\<forall>x \<in> set xs. x = Inr (ik_response r, True) \<or> (\<exists>e. x = Inl e))"
  using assms(3,4)
proof (induction qs arbitrary: xs)
  case Nil
  then show ?case by simp
next
  case (Cons q qs)
  let ?s = "\<lparr>ss_db = d, ss_now = pa_now q, ss_locked = pa_locked q, ss_driver = pa_driver q\<rparr>"
  obtain s1 x where s1: "Pg_createRun E p (creation_scope p) k h (pa_bundle q) ?s = (s1, x)"
    by fastforce
  have found: "select_idempotency (creation_scope p) k (ss_now ?s) (ss_db ?s) = Some (h, ik_response r)"
    using assms(1,2) Cons.prems(1) by (simp add: select_idempotency_row)
  have x: "ss_db s1 = d \<and> (x = Inr (ik_response r, True) \<or> (\<exists>e. x = Inl e))"
    using s1
  proof (cases rule: create_any)
    case (known h' run)
    with found show ?thesis by (auto simp: idempotent_answer_def)
  qed (use found in simp_all)
  obtain xs1 where "pg_attempts E p k h qs d = (d', xs1)" "xs = x # xs1"
    using Cons.prems(2) s1 x by (auto simp: split: prod.splits)
  with Cons.IH [of xs1] Cons.prems(1) x show ?case by simp
qed

text \<open>
  C5. However often a creation is retried under one key and request within a day, and whatever the
  driver does to each attempt, at most one run is created: the database ends as it was, with every
  attempt answered by an error, or as one attempt left it; then every answer that is not an
  error is the run of that attempt, and at most one of them reports a creation.
\<close>

theorem pg_retries_create_once:
  assumes "row ik_place (db_idempotency d) (creation_scope p, k) = None"
    and "\<forall>q \<in> set qs. t0 \<le> pa_now q \<and> pa_now q < t0 + Day"
    and "pg_attempts E p k h qs d = (d', xs)"
  shows "d' = d \<and> (\<forall>x \<in> set xs. \<exists>e. x = Inl e) \<or>
    (\<exists>q \<in> set qs. \<exists>project.
       d' = creation_db E project (creation_scope p) k h (pa_bundle q) (pa_now q) d \<and>
       (\<forall>x \<in> set xs. (\<exists>e. x = Inl e) \<or> (\<exists>replayed. x = Inr (rb_Run (pa_bundle q), replayed))) \<and>
       length (filter created_now xs) \<le> 1)"
  using assms(2,3)
proof (induction qs arbitrary: xs)
  case Nil
  then show ?case by simp
next
  case (Cons q qs)
  let ?s = "\<lparr>ss_db = d, ss_now = pa_now q, ss_locked = pa_locked q, ss_driver = pa_driver q\<rparr>"
  obtain s1 x where s1: "Pg_createRun E p (creation_scope p) k h (pa_bundle q) ?s = (s1, x)"
    by fastforce
  obtain xs1 where xs: "pg_attempts E p k h qs (ss_db s1) = (d', xs1)" "xs = x # xs1"
    using Cons.prems(2) s1 by (auto split: prod.splits)
  have missing: "select_idempotency (creation_scope p) k (ss_now ?s) (ss_db ?s) = None"
    using assms(1) by (simp add: select_idempotency_row)
  from s1 show ?case
  proof (cases rule: create_any)
    case (known h' run)
    with missing show ?thesis by simp
  next
    case (refused e)
    then have "d' = d \<and> (\<forall>x \<in> set xs1. \<exists>e. x = Inl e) \<or>
      (\<exists>q \<in> set qs. \<exists>project.
         d' = creation_db E project (creation_scope p) k h (pa_bundle q) (pa_now q) d \<and>
         (\<forall>x \<in> set xs1. (\<exists>e. x = Inl e) \<or> (\<exists>replayed. x = Inr (rb_Run (pa_bundle q), replayed))) \<and>
         length (filter created_now xs1) \<le> 1)"
      using Cons.IH [of xs1] Cons.prems(1) xs(1) by simp
    then show ?thesis
    proof (elim disjE bexE exE conjE)
      assume "d' = d" and "\<forall>x \<in> set xs1. \<exists>e. x = Inl e"
      with refused(3) xs(2) show ?thesis by simp
    next
      fix q' project
      assume "q' \<in> set qs"
        and "d' = creation_db E project (creation_scope p) k h (pa_bundle q') (pa_now q') d"
        and "\<forall>x \<in> set xs1. (\<exists>e. x = Inl e) \<or> (\<exists>replayed. x = Inr (rb_Run (pa_bundle q'), replayed))"
        and "length (filter created_now xs1) \<le> 1"
      with refused(3) xs(2) show ?thesis
        by (intro disjI2 bexI [of _ q'] exI [of _ project]) simp_all
    qed
  next
    case (created project)
    let ?d = "creation_db E project (creation_scope p) k h (pa_bundle q) (pa_now q) d"
    let ?r = "idempotency_row_of (creation_scope p) k h (rb_Run (pa_bundle q)) (pa_now q)"
    have "row ik_place (db_idempotency ?d) (creation_scope p, k) = Some ?r"
      using assms(1) by (simp add: row_snoc idempotency_row_of_def)
    moreover have "\<forall>q' \<in> set qs. pa_now q' < ik_expires ?r"
      using Cons.prems(1) by (auto simp: idempotency_row_of_def)
    ultimately have rest: "d' = ?d \<and> (\<forall>x \<in> set xs1. x = Inr (rb_Run (pa_bundle q), True) \<or> (\<exists>e. x = Inl e))"
      using attempts_known [of ?d p k ?r h qs E d' xs1] created(3) xs(1)
      by (simp add: idempotency_row_of_def)
    then have "filter created_now xs1 = []"
      by (auto simp: filter_empty_conv)
    with rest created(4) xs(2) show ?thesis
      by (intro disjI2 bexI [of _ q] exI [of _ project]) auto
  qed
qed

subsection \<open>Expired keys\<close>

lemma pg_step_keys:
  assumes "pg_step E d d'" and "row ik_place (db_idempotency d) key = Some r"
  shows "row ik_place (db_idempotency d') key = Some r"
  using assms(1)
proof (cases rule: pg_step_queue_tables)
  case (created p k h b s)
  obtain s' x where c: "Pg_createRun E p (creation_scope p) k h b s = (s', x)" by fastforce
  then show ?thesis
    by (cases rule: create_any) (use assms(2) created c in \<open>simp_all add: row_snoc\<close>)
qed (use assms(2) in \<open>simp_all add: queue_tables_def\<close>)

lemma created_key_independent:
  assumes "ss_driver s = []" and "Pg_createRun E p scope k' h' b s = (s', Inr (rb_Run b, False))"
  shows "\<exists>project. evidence_fits E p project b (ss_db s)"
  using assms(1)
proof (cases rule: create_cases [where E = E and p = p and scope = scope and k = k' and h = h' and b = b])
  case (known h'' run)
  with assms(2) show ?thesis by (simp add: idempotent_answer_def split: if_splits)
next
  case (created project)
  then show ?thesis by (auto simp: creation_fits_def)
next
  case (refused e)
  with assms(2) show ?thesis by simp
qed

lemma replay_misses:
  assumes "select_idempotency scope k (ss_now s) (ss_db s) = None"
  shows "\<exists>s' x. Pg_replayRun scope k h s = (s', x) \<and> ss_db s' = ss_db s \<and>
    (x = Inr (zero_Run, False) \<or> (ss_driver s \<noteq> [] \<and> (\<exists>e. x = Inl e)))"
proof (cases "ss_driver s")
  case Nil
  with assms show ?thesis
    by (simp add: Pg_replayRun_def chain_def query_def exec_def give_def next_outcome_def)
next
  case (Cons outcome os)
  with assms show ?thesis
    by (cases outcome) (simp_all add: Pg_replayRun_def chain_def query_def exec_def give_def next_outcome_def)
qed

text \<open>The statement that a record of the key stops.\<close>

lemma create_on_stale_key:
  assumes "ss_driver s = []" and "evidence_fits E p project b (ss_db s)"
    and "row ik_place (db_idempotency (ss_db s)) (scope, k) = Some r"
    and "select_idempotency scope k (ss_now s) (ss_db s) = None"
  shows "Pg_createRun E p scope k h b s = (s, Inl (ErrWrap ''insert idempotency record'' unique_violation))"
proof -
  let ?d = "evidence_db E project b (ss_now s) (ss_db s)"
  have evidence: "script (store_evidence E p b) s (ss_db s) = Inr ((), ?d)"
    using assms(2) store_evidence_iff by blast
  have told: "script (notify_project E p b) s ?d = Inr ((), notified_db E project b (ss_now s) ?d)"
    using assms(2) by (intro notify_project_script)
      (simp_all add: evidence_fits_def row_snoc_None run_row_of_def)
  have "script (creation_statements E p scope k h b) s (ss_db s) =
      Inl (ErrWrap ''insert idempotency record'' unique_violation)"
    unfolding creation_statements_def
    by (simp add: script_simps faithful_intros faithful_store_evidence faithful_notify_project evidence told
        insert_idempotency_def insert_row_def assms(3))
  then show ?thesis
    using create_reliable [OF assms(1), of E p scope k h b] assms(4) by simp
qed

text \<open>
  C7. A key whose record has expired is stuck for good, after any history of operations: a replay
  leaves the database alone and does not see the record, it answers not found or the driver's error;
  and a creation with whatever request, bundle and driver fails and changes nothing, with the unique
  violation of its idempotency record in every case in which the same run could be created under
  some other key.
\<close>

theorem pg_expired_key_stuck:
  assumes "row ik_place (db_idempotency d) (creation_scope p, k) = Some r"
    and "(pg_step E)\<^sup>*\<^sup>* d (ss_db s)" and "ik_expires r \<le> ss_now s"
  shows "(\<exists>s' x. Pg_replayRun (creation_scope p) k h s = (s', x) \<and> ss_db s' = ss_db s \<and>
      (x = Inr (zero_Run, False) \<or> (ss_driver s \<noteq> [] \<and> (\<exists>e. x = Inl e)))) \<and>
    (\<exists>s' e. Pg_createRun E p (creation_scope p) k h b s = (s', Inl e) \<and> ss_db s' = ss_db s \<and>
      (ss_driver s = [] \<and>
       (\<exists>k' h' s''. Pg_createRun E p (creation_scope p) k' h' b s = (s'', Inr (rb_Run b, False))) \<longrightarrow>
       e = ErrWrap ''insert idempotency record'' unique_violation))"
proof -
  have kept: "row ik_place (db_idempotency (ss_db s)) (creation_scope p, k) = Some r"
    using assms(2,1) by (induction rule: rtranclp_induct) (auto dest: pg_step_keys)
  then have missing: "select_idempotency (creation_scope p) k (ss_now s) (ss_db s) = None"
    using assms(3) by (simp add: select_idempotency_row)
  note replay = replay_misses [OF missing, of h]
  obtain s' x where c: "Pg_createRun E p (creation_scope p) k h b s = (s', x)" by fastforce
  then have "ss_db s' = ss_db s \<and> (\<exists>e. x = Inl e)"
    by (cases rule: create_any) (use missing kept in \<open>auto simp: creation_fits_def\<close>)
  moreover have "x = Inl (ErrWrap ''insert idempotency record'' unique_violation)"
    if "ss_driver s = []" "Pg_createRun E p (creation_scope p) k' h' b s = (s'', Inr (rb_Run b, False))" for k' h' s''
    using created_key_independent [OF that] create_on_stale_key [OF that(1) _ kept missing] c by fastforce
  ultimately show ?thesis
    using replay c by blast
qed

end
