(* ===== verification/PgAccepts.thy ===== *)
theory PgAccepts
  imports PgCreate ServiceSpec
begin

text \<open>
  The builder and the database agree: every bundle that \<^verbatim>\<open>buildRunBundle\<close> makes under an
  identifier that \<^verbatim>\<open>NextRunID\<close> hands out passes the checks of the tables, so that its creation
  succeeds whenever identifiers and key are new.
\<close>

subsection \<open>The parts of a bundle\<close>

lemma bundle_parts:
  assumes "buildRunBundle (runID n) m scn fault started = Some b"
  shows "rb_Events b = map (seed_event (runID n) (fmt_0d 6 n) started) (List.enumerate 0 (timeline_seeds fault))"
    "run_ID (rb_Run b) = runID n" "run_Fault (rb_Run b) = fault" "run_Score (rb_Run b) = scoreForFault fault"
    "run_Environment (rb_Run b) = ''sandbox''" "run_FindingCount (rb_Run b) = findingCount fault"
    "run_EventCount (rb_Run b) = int (length (timeline_seeds fault))"
    "run_Status (rb_Run b) = (if fault = FaultTamper then RunFailed else RunPassed)"
    "rp_Assertions (rb_Report b) = report_assertions (rb_Run b) fault"
    "report_findings (runID n) fault = Some (rp_Findings (rb_Report b))"
    "rb_OutboxTopic b = []" "rb_StripeCorrelationID b = []"
  using assms
  by (auto simp: buildRunBundle_def buildEvents_def slice4_runID buildReport_def Let_def
      split: option.splits)

lemma findings_built:
  assumes "report_findings i fault = Some fs"
  shows "distinct (map fd_ID fs)"
  using assms by (auto simp: report_findings_def Let_def split: if_splits option.splits)

lemma bundle_sound_built:
  assumes "buildRunBundle (runID n) m scn fault started = Some b"
  shows "bundle_sound b"
proof -
  obtain b' where "buildRunBundle (runID n) m scn fault started = Some b'" "bundle_consistent b'"
    using buildRunBundle_facts [OF length_runID, of n m scn fault started] by blast
  then have "bundle_ok b"
    using assms by (simp add: bundle_consistent_ok)
  then show ?thesis
    using bundle_parts(9) [OF assms] findings_built [OF bundle_parts(10) [OF assms]]
    by (simp add: bundle_sound_def report_assertions_def Let_def)
qed

lemma duration_built:
  assumes "buildRunBundle (runID n) m scn fault started = Some b"
  shows "run_DurationMS (rb_Run b) \<in> {2260, 4200}"
  using buildRunBundle_facts [OF length_runID, of n m scn fault started] assms by auto

subsection \<open>The checks\<close>

lemma run_id_pattern_runID: "0 \<le> n \<Longrightarrow> run_id_pattern (runID n)"
  using digit_vals_append [of "replicate (6 - length (dec (nat n))) (CHR ''0'')" "dec (nat n)"]
    digit_vals_dec [of "nat n"]
  by (auto simp: run_id_pattern_def runID_def fmt_0d_def pad0_def HasPrefix_def digit_vals_zeros)

lemma seed_checks:
  "list_all (\<lambda>s. seed_status s \<noteq> EventStatusZero \<and> 0 \<le> seed_latency s \<and> seed_latency s \<le> 500)
     (timeline_seeds fault)"
  "length (timeline_seeds fault) \<le> 9"
  by (simp_all add: timeline_seeds_def base_seeds_def fault_seeds_def closing_seeds_def)

lemma run_check_built:
  assumes "buildRunBundle (runID n) m scn fault started = Some b" and "fault \<in> set all_faults" and "0 \<le> n"
  shows "run_check (rb_Run b)"
proof -
  have "fault \<in> {FaultNone, FaultDuplicate, FaultReorder, FaultTimeout, FaultTamper}"
    using assms(2) by (simp add: all_faults_def)
  moreover have "0 \<le> scoreForFault fault" "scoreForFault fault \<le> 100"
      "0 \<le> findingCount fault" "findingCount fault \<le> 1"
    by (simp_all add: scoreForFault_def findingCount_def)
  moreover have "0 \<le> run_DurationMS (rb_Run b)" "run_DurationMS (rb_Run b) \<le> 4200"
    using duration_built [OF assms(1)] by auto
  ultimately show ?thesis
    using run_id_pattern_runID [OF assms(3)] seed_checks(2) [of fault]
    unfolding run_check_def bundle_parts [OF assms(1)] int4_def
    by simp
qed

lemma event_check_built:
  assumes "buildRunBundle (runID n) m scn fault started = Some b" and "e \<in> set (rb_Events b)"
  shows "event_check e"
proof -
  obtain i where i: "i < length (timeline_seeds fault)"
      "e = seed_event (runID n) (fmt_0d 6 n) started (i, timeline_seeds fault ! i)"
    using assms(2) unfolding bundle_parts(1) [OF assms(1)]
    by (auto simp: in_set_enumerate_eq)
  then have "seed_status (timeline_seeds fault ! i) \<noteq> EventStatusZero"
      "0 \<le> seed_latency (timeline_seeds fault ! i)" "seed_latency (timeline_seeds fault ! i) \<le> 500"
    using seed_checks(1) [of fault] by (auto simp: list_all_length)
  moreover have "i < 9" using i(1) seed_checks(2) [of fault] by simp
  ultimately show ?thesis
    using i(2) by (simp add: event_check_def seed_event_def int4_def)
qed

lemma event_ids_built:
  assumes "buildRunBundle (runID n) m scn fault started = Some b"
  shows "map ev_ID (rb_Events b) =
    map (\<lambda>i. ''evt_'' @ fmt_0d 6 n @ ''_'' @ fmt_0d 2 (int i + 1)) [0..<length (timeline_seeds fault)]"
  unfolding bundle_parts(1) [OF assms]
  by (rule nth_equalityI) (simp_all add: nth_enumerate_eq seed_event_def)

lemma severity_built:
  assumes "report_findings i fault = Some fs" and "f \<in> set fs"
  shows "severity_check (fd_Severity f)"
  using assms by (auto simp: report_findings_def severity_check_def Let_def split: if_splits option.splits)

subsection \<open>Creation succeeds\<close>

text \<open>What a creation of run number \<open>n\<close> needs of the database: names nobody took.\<close>

definition room_for :: "pg_env \<Rightarrow> string option \<Rightarrow> digest \<Rightarrow> int \<Rightarrow> Database \<Rightarrow> bool" where
  "room_for E p k n d \<longleftrightarrow>
     (\<exists>project. uuid_param_null E p = Inr project \<and> references_null pj_id (db_projects d) project) \<and>
     row rn_id (db_runs d) (runID n) = None \<and>
     (\<forall>j. row el_id (db_events d) (''evt_'' @ fmt_0d 6 n @ ''_'' @ j) = None) \<and>
     row ik_place (db_idempotency d) (creation_scope p, k) = None \<and>
     (\<forall>m. row ob_id (db_outbox d) (pe_uuidv7 E (db_uuids d + m)) = None)"

lemma distinct_built:
  assumes "buildRunBundle (runID n) m scn fault started = Some b"
  shows "distinct (map ev_ID (rb_Events b))" "distinct (map ev_place (rb_Events b))"
proof -
  show "distinct (map ev_ID (rb_Events b))"
    unfolding event_ids_built [OF assms] by (simp add: distinct_map inj_on_def fmt_0d_inj)
  have "sequenced (rb_Events b)"
    using bundle_sound_built [OF assms] by (simp add: bundle_sound_def bundle_ok_def)
  then have "distinct (map ev_Sequence (rb_Events b))"
    by (simp add: sequenced_def distinct_map inj_on_def)
  then have "distinct (map snd (map ev_place (rb_Events b)))"
    by (simp add: ev_place_def comp_def)
  then show "distinct (map ev_place (rb_Events b))"
    by (rule distinct_map [THEN iffD1, THEN conjunct1])
qed

lemma built_fits:
  assumes b: "buildRunBundle (runID n) m scn fault started = Some b" and "fault \<in> set all_faults" "0 \<le> n"
    and ok: "pg_runs_ok E d" and room: "room_for E p k n d"
  shows "\<exists>project. creation_fits E p project (creation_scope p) k b d"
proof -
  obtain project where p: "uuid_param_null E p = Inr project" "references_null pj_id (db_projects d) project"
    using room by (auto simp: room_for_def)
  have i: "row rn_id (db_runs d) (runID n) = None" and id: "run_ID (rb_Run b) = runID n"
    using room bundle_parts(2) [OF b] by (simp_all add: room_for_def)
  have report: "row rt_run (db_reports d) (runID n) = None"
    using report_has_run [OF ok, of "runID n"] i by (cases "row rt_run (db_reports d) (runID n)") auto
  have place: "row el_place (db_events d) (runID n, j) = None" for j
    using pg_runs_okD(7) [OF ok] i by (fastforce simp: row_None_iff event_row_ok_def)
  have "event_fits (d\<lparr>db_runs := db_runs d @ [run_row_of project b]\<rparr>) e" if e: "e \<in> set (rb_Events b)" for e
  proof -
    have "ev_ID e \<in> set (map ev_ID (rb_Events b))" using e by simp
    then obtain j where "ev_ID e = ''evt_'' @ fmt_0d 6 n @ ''_'' @ j"
      unfolding event_ids_built [OF b] by auto
    then have "row el_id (db_events d) (ev_ID e) = None"
      using room by (simp add: room_for_def)
    moreover have "ev_RunID e = runID n"
      using bundle_sound_built [OF b] e id by (simp add: bundle_sound_def bundle_ok_def list_all_iff)
    ultimately show ?thesis
      using event_check_built [OF b e] place i
      by (simp add: event_fits_def ev_place_def row_snoc_None run_row_of_def id)
  qed
  then have "creation_fits E p project (creation_scope p) k b d"
    using p i report id distinct_built [OF b] run_check_built [OF assms(1-3)] room
      severity_built [OF bundle_parts(10) [OF b]]
    by (auto simp: creation_fits_def evidence_fits_def room_for_def)
  then show ?thesis by blast
qed

lemma built_created:
  assumes "buildRunBundle (runID n) m scn fault started = Some b" and "fault \<in> set all_faults" and "0 \<le> n"
    and "pg_runs_ok E (ss_db s)" and "room_for E p k n (ss_db s)" and "ss_driver s = []"
  shows "\<exists>s'. Pg_createRun E p (creation_scope p) k h b s = (s', Inr (rb_Run b, False)) \<and>
    stored_whole E p k h b (ss_now s) (ss_db s) (ss_db s')"
proof -
  obtain project where fits: "creation_fits E p project (creation_scope p) k b (ss_db s)"
    using built_fits [OF assms(1-5)] by blast
  have missing: "select_idempotency (creation_scope p) k (ss_now s) (ss_db s) = None"
    using assms(5) by (simp add: select_idempotency_row room_for_def)
  from assms(6) show ?thesis
  proof (cases rule: create_cases [where E = E and p = p and scope = "creation_scope p" and k = k and h = h and b = b])
    case (created project')
    then show ?thesis
      using creation_stored(1) [OF assms(4) created(2) bundle_sound_built [OF assms(1)]] by simp
  qed (use missing fits in auto)
qed

text \<open>
  C6. The database accepts every run the service builds: under a free identifier and a free key, and
  for a known project if any, creating the bundle that \<^verbatim>\<open>buildRunBundle\<close> makes of any scenario and
  fault succeeds, passes every check and every unique and foreign key of the tables, and stores all
  of it, its findings included.
\<close>

theorem pg_accepts_built_runs:
  assumes "buildRunBundle (runID n) m scn fault started = Some b" and "fault \<in> set all_faults" and "0 \<le> n"
    and "pg_runs_ok E (ss_db s)" and "room_for E p k n (ss_db s)" and "ss_driver s = []"
  shows "\<exists>s'. Pg_createRun E p (creation_scope p) k h b s = (s', Inr (rb_Run b, False)) \<and>
    stored_whole E p k h b (ss_now s) (ss_db s) (ss_db s')"
  by (rule built_created [OF assms])

subsection \<open>Examples\<close>

definition sample_run :: RunBundle where
  "sample_run = the (buildRunBundle (runID 4) 4 (hd seededScenarios) FaultDuplicate 0)"

lemma sample_run_built: "buildRunBundle (runID 4) 4 (hd seededScenarios) FaultDuplicate 0 = Some sample_run"
  using buildRunBundle_facts [OF length_runID, of 4 4 "hd seededScenarios" FaultDuplicate 0]
  by (auto simp: sample_run_def)

lemma room_migrated: "room_for sample_pg None k 4 migrated"
  by (simp add: room_for_def migrated_def uuid_param_null_def references_null_def)

theorem pg_accepts_built_runs_witness:
  "\<exists>s'. Pg_createRun sample_pg None public_scope ''k'' ''h'' sample_run (at_server migrated 5 []) =
      (s', Inr (rb_Run sample_run, False)) \<and>
    stored_whole sample_pg None ''k'' ''h'' sample_run 5 migrated (ss_db s')"
  using pg_accepts_built_runs [OF sample_run_built, of sample_pg "at_server migrated 5 []" None "''k''" "''h''"]
    pg_runs_ok_migrated room_migrated
  by (simp add: all_faults_def at_server_def creation_scope_def)

text \<open>The same creation, as it runs without a theorem, and after it.\<close>

lemma sample_created:
  "Pg_createRun sample_pg None public_scope ''k'' ''h'' sample_run (at_server migrated now []) =
    (at_server (creation_db sample_pg None public_scope ''k'' ''h'' sample_run now migrated) now [],
     Inr (rb_Run sample_run, False))"
proof -
  have fits: "\<exists>project. creation_fits sample_pg None project public_scope ''k'' sample_run migrated"
    using built_fits [OF sample_run_built _ _ pg_runs_ok_migrated room_migrated]
    by (simp add: all_faults_def creation_scope_def)
  have "ss_driver (at_server migrated now []) = []" by (simp add: at_server_def)
  then show ?thesis
  proof (cases rule: create_cases [where E = sample_pg and p = None and scope = public_scope and k = "''k''" and h = "''h''" and b = sample_run])
    case (created project)
    then have "project = None"
      using creation_fits_project [OF created(2)] by (simp add: uuid_param_null_def)
    with created show ?thesis by (simp add: at_server_def)
  qed (use fits in \<open>simp_all add: at_server_def migrated_def select_idempotency_def\<close>)
qed

definition pg_created :: Database where
  "pg_created = creation_db sample_pg None public_scope ''k'' ''h'' sample_run 5 migrated"

lemma public_creation [simp]: "creation_scope None = public_scope"
  by (simp add: creation_scope_def)

lemma sample_sound: "bundle_sound sample_run"
  by (rule bundle_sound_built [OF sample_run_built])

lemma pg_created_step: "pg_step sample_pg migrated pg_created"
  using step_create [OF sample_sound, of sample_pg "at_server migrated 5 []" None "''k''" "''h''"]
    sample_created [of 5]
  by (simp add: at_server_def pg_created_def)

theorem pg_invariant_witness: "pg_ok sample_pg pg_created"
  by (rule pg_invariant [OF r_into_rtranclp [where r = "pg_step sample_pg", OF pg_created_step]])

theorem pg_creation_whole_witness:
  "stored_whole sample_pg None ''k'' ''h'' sample_run 5 migrated pg_created \<and>
   others_kept (run_ID (rb_Run sample_run)) migrated pg_created"
proof -
  have "pg_runs_ok sample_pg (ss_db (at_server migrated 5 []))"
    using pg_runs_ok_migrated by (simp add: at_server_def)
  from pg_creation_whole [OF this sample_sound, of None "''k''" "''h''"] sample_created [of 5]
  show ?thesis by (simp add: at_server_def pg_created_def)
qed

definition sample_attempt :: "time \<Rightarrow> outcome list \<Rightarrow> pg_attempt" where
  "sample_attempt now os = \<lparr>pa_now = now, pa_locked = [], pa_driver = os, pa_bundle = sample_run\<rparr>"

theorem pg_retries_create_once_witness:
  "\<exists>d xs. pg_attempts sample_pg None ''k'' ''h''
      [sample_attempt 5 [Fails ErrNoRows], sample_attempt 6 (replicate 30 Completes @ [LosesReply ErrNoRows]),
       sample_attempt 7 []] migrated = (d, xs) \<and>
    length xs = 3 \<and> length (filter created_now xs) \<le> 1"
proof -
  let ?qs = "[sample_attempt 5 [Fails ErrNoRows],
    sample_attempt 6 (replicate 30 Completes @ [LosesReply ErrNoRows]), sample_attempt 7 []]"
  obtain d xs where run: "pg_attempts sample_pg None ''k'' ''h'' ?qs migrated = (d, xs)"
    by (rule prod.exhaust)
  have times: "\<forall>q \<in> set ?qs. 5 \<le> pa_now q \<and> pa_now q < 5 + Day"
    by (simp add: sample_attempt_def Day_def Hour_def Minute_def Second_def)
  have none: "row ik_place (db_idempotency migrated) (creation_scope None, ''k'') = None"
    by (simp add: migrated_def)
  from pg_retries_create_once [OF none times run] have "length (filter created_now xs) \<le> 1"
  proof (elim disjE bexE exE conjE)
    assume "\<forall>x \<in> set xs. \<exists>e. x = Inl e"
    then have "filter created_now xs = []"
      by (fastforce simp: filter_empty_conv)
    then show ?thesis by simp
  qed
  moreover have "length xs = 3"
    using run by (auto split: prod.splits)
  ultimately show ?thesis
    using run by blast
qed

text \<open>
  A day later the same request, which gets run number 5, is not found, and fails; under another key
  it would succeed.
\<close>

definition next_run :: RunBundle where
  "next_run = the (buildRunBundle (runID 5) 5 (hd seededScenarios) FaultDuplicate 0)"

lemma next_run_built: "buildRunBundle (runID 5) 5 (hd seededScenarios) FaultDuplicate 0 = Some next_run"
  using buildRunBundle_facts [OF length_runID, of 5 5 "hd seededScenarios" FaultDuplicate 0]
  by (auto simp: next_run_def)

lemma pg_created_tables:
  "db_runs pg_created = [run_row_of None sample_run]"
  "db_events pg_created = map event_row_of (rb_Events sample_run)"
  "db_idempotency pg_created = [idempotency_row_of public_scope ''k'' ''h'' (rb_Run sample_run) 5]"
  "db_outbox pg_created = [job_row sample_pg sample_run 5 0]" "db_uuids pg_created = 1"
  by (simp_all add: pg_created_def creation_db_def notified_db_def evidence_db_def Let_def migrated_def)

lemma room_next: "room_for sample_pg None ''other'' 5 pg_created"
proof -
  have "row el_id (db_events pg_created) (''evt_'' @ fmt_0d 6 5 @ ''_'' @ j) = None" for j
  proof (rule ccontr)
    assume "row el_id (db_events pg_created) (''evt_'' @ fmt_0d 6 5 @ ''_'' @ j) \<noteq> None"
    then have "''evt_'' @ fmt_0d 6 5 @ ''_'' @ j \<in> set (map ev_ID (rb_Events sample_run))"
      by (auto simp: row_None_iff pg_created_tables)
    then show False
      unfolding event_ids_built [OF sample_run_built] by (auto simp: fmt_0d_def pad0_def dec.simps [of 4] dec.simps [of 5] digit_char_def)
  qed
  then show ?thesis
    using bundle_parts(2) [OF sample_run_built]
    by (simp add: room_for_def pg_created_tables row_Cons uuid_param_null_def references_null_def
        run_row_of_def idempotency_row_of_def job_row_def sample_pg_def runID_inj)
qed

theorem pg_expired_key_stuck_witness:
  "\<exists>s'. Pg_createRun sample_pg None public_scope ''k'' ''h'' next_run
      (at_server pg_created (5 + Day) []) =
      (s', Inl (ErrWrap ''insert idempotency record'' unique_violation)) \<and> ss_db s' = pg_created"
proof -
  let ?s = "at_server pg_created (5 + Day) []"
  have row: "row ik_place (db_idempotency pg_created) (creation_scope None, ''k'') =
      Some (idempotency_row_of public_scope ''k'' ''h'' (rb_Run sample_run) 5)"
    by (simp add: pg_created_def migrated_def row_Cons idempotency_row_of_def)
  have "pg_runs_ok sample_pg (ss_db ?s)"
    using pg_invariant_witness by (simp add: at_server_def pg_ok_def)
  from built_created [OF next_run_built _ _ this, of None "''other''" "''h''"] room_next
  have "\<exists>s''. Pg_createRun sample_pg None (creation_scope None) ''other'' ''h'' next_run ?s =
      (s'', Inr (rb_Run next_run, False))"
    by (auto simp: all_faults_def at_server_def)
  with pg_expired_key_stuck [OF row, where E = sample_pg and s = ?s and h = "''h''" and b = next_run] show ?thesis
    by (auto simp: at_server_def idempotency_row_of_def)
qed

end
