(* ===== verification/PgScopes.thy ===== *)
theory PgScopes
  imports PgAccepts
begin

text \<open>
  Who sees which run on Postgres: the reads of the three scopes, answered from the rows of the
  tables.
\<close>

definition in_scope :: "pg_env \<Rightarrow> run_scope \<Rightarrow> run_row \<Rightarrow> bool" where
  "in_scope E sc r \<longleftrightarrow>
     (case sc of AnyRun \<Rightarrow> True | Unowned \<Rightarrow> rn_project r = None
      | OfProject p \<Rightarrow> rn_project r = pe_uuid_in E p \<and> rn_project r \<noteq> None)"

definition scope_ok :: "pg_env \<Rightarrow> run_scope \<Rightarrow> bool" where
  "scope_ok E sc \<longleftrightarrow> (case sc of OfProject p \<Rightarrow> pe_uuid_in E p \<noteq> None | _ \<Rightarrow> True)"

text \<open>The row of a run as a scope sees it.\<close>

definition seen :: "pg_env \<Rightarrow> run_scope \<Rightarrow> string \<Rightarrow> Database \<Rightarrow> run_row option" where
  "seen E sc i d =
     (case row rn_id (db_runs d) i of None \<Rightarrow> None | Some r \<Rightarrow> if in_scope E sc r then Some r else None)"

lemma scope_rows_ok: "scope_ok E sc \<Longrightarrow> scope_rows E sc d = Inr (filter (in_scope E sc) (db_runs d))"
  by (auto simp: scope_rows_def scope_ok_def in_scope_def uuid_param_def intro!: filter_cong
      split: run_scope.splits option.splits)

lemma row_filter:
  assumes "keyed key t"
  shows "row key (filter P t) k = (case row key t k of None \<Rightarrow> None | Some r \<Rightarrow> if P r then Some r else None)"
  using assms
proof (induction t)
  case Nil
  then show ?case by simp
next
  case (Cons x t)
  then have t: "keyed key t" "key x \<notin> key ` set t"
    by (auto simp: keyed_def)
  then have "row key t (key x) = None"
    by (simp add: row_None_iff)
  with Cons.IH [OF t(1)] show ?case
    by (auto simp: row_Cons split: option.splits)
qed

lemma seen_row:
  assumes "pg_runs_ok E d" and "scope_ok E sc"
  shows "row rn_id (filter (in_scope E sc) (db_runs d)) i = seen E sc i d"
  using row_filter [OF pg_runs_okD(1) [OF assms(1)]] by (simp add: seen_def)

lemma seen_iff: "seen E sc i d = Some r \<longleftrightarrow> row rn_id (db_runs d) i = Some r \<and> in_scope E sc r"
  by (auto simp: seen_def split: option.splits)

lemma seenD:
  assumes "pg_runs_ok E d" and "seen E sc i d = Some r"
  shows "row rn_id (db_runs d) i = Some r" "r \<in> set (db_runs d)" "rn_id r = i" "in_scope E sc r"
    "run_row_ok E d r"
proof -
  show r: "row rn_id (db_runs d) i = Some r" "in_scope E sc r"
    using assms(2) by (auto simp: seen_def split: option.splits if_splits)
  show "r \<in> set (db_runs d)" "rn_id r = i"
    using row_SomeD [OF r(1)] by auto
  then show "run_row_ok E d r"
    using pg_runs_okD(6) [OF assms(1)] by simp
qed

subsection \<open>The reads\<close>

lemma scanRun_seen:
  assumes "pg_runs_ok E (ss_db s)" and "scope_ok E sc" and "ss_driver s = []"
  shows "scanRun E sc i s =
    (s, Inr (case seen E sc i (ss_db s) of None \<Rightarrow> (zero_Run, False) | Some r \<Rightarrow> (rn_snapshot r, True)))"
  using scope_rows_ok [OF assms(2)] seen_row [OF assms(1,2)]
  by (simp add: scanRun_def query_reliable [OF assms(3)])

lemma run_exists_seen:
  assumes "pg_runs_ok E (ss_db s)" and "scope_ok E sc" and "ss_driver s = []"
  shows "run_exists E sc i s = (s, Inr (seen E sc i (ss_db s) \<noteq> None))"
  using scope_rows_ok [OF assms(2)] seen_row [OF assms(1,2)]
  by (simp add: run_exists_def query_reliable [OF assms(3)])

lemma scanReport_seen:
  assumes "pg_runs_ok E (ss_db s)" and "scope_ok E sc" and "ss_driver s = []"
  shows "scanReport E sc i s =
    (s, Inr (case seen E sc i (ss_db s) of None \<Rightarrow> (zero_Report, False)
      | Some r \<Rightarrow> (rt_snapshot (the (row rt_run (db_reports (ss_db s)) i)), True)))"
proof (cases "seen E sc i (ss_db s)")
  case None
  with scope_rows_ok [OF assms(2)] seen_row [OF assms(1,2), of i] show ?thesis
    by (simp add: scanReport_def query_reliable [OF assms(3)])
next
  case (Some r)
  have "row rt_run (db_reports (ss_db s)) i \<noteq> None"
    using seenD(3,5) [OF assms(1) Some] by (auto simp: run_row_ok_def)
  with Some scope_rows_ok [OF assms(2)] seen_row [OF assms(1,2), of i] show ?thesis
    by (auto simp: scanReport_def query_reliable [OF assms(3)])
qed

definition log_of :: "string \<Rightarrow> Database \<Rightarrow> Event list" where
  "log_of i d = map el_snapshot (events_of i d)"

lemma Pg_events_seen:
  assumes "pg_runs_ok E (ss_db s)" and "ss_driver s = []"
    and "row rn_id (db_runs (ss_db s)) i = Some r"
  shows "Pg_events E i None s = (s, Inr (log_of i (ss_db s), True))"
proof -
  have "run_log i (ss_db s) = events_of i (ss_db s)"
    using run_log_ok [OF assms(1)] row_SomeD [OF assms(3)] by auto
  moreover have "run_exists E AnyRun i s = (s, Inr True)"
    using run_exists_seen [OF assms(1) _ assms(2), of AnyRun i] assms(3)
    by (simp add: scope_ok_def seen_def in_scope_def)
  ultimately show ?thesis
    by (simp add: Pg_events_def chain_def give_def query_reliable [OF assms(2)] log_of_def)
qed

text \<open>What a page holds.\<close>

definition page_of :: "string \<Rightarrow> int \<Rightarrow> int \<Rightarrow> Database \<Rightarrow> Event list" where
  "page_of i after limit d =
     take (nat (if limit \<le> 0 \<or> limit > 500 then 100 else limit))
       (filter (\<lambda>e. after < ev_Sequence e) (log_of i d))"

lemma filter_snapshots:
  assumes "\<forall>e \<in> set es. e = event_row_of (el_snapshot e)"
  shows "map el_snapshot (filter (\<lambda>e. after < el_sequence e) es) =
    filter (\<lambda>e. after < ev_Sequence e) (map el_snapshot es)"
proof -
  have "el_sequence e = ev_Sequence (el_snapshot e)" if "e \<in> set es" for e
    using assms that event_row_fields(3) by metis
  then show ?thesis
    by (induction es) simp_all
qed

lemma eventsAfter_seen:
  assumes ok: "pg_runs_ok E (ss_db s)" and driver: "ss_driver s = []" and after: "int4 after"
    and scope: "scope_ok E sc"
    and sc: "sc = (if p \<noteq> [] then OfProject p else if publicOnly then Unowned else AnyRun)"
  shows "Pg_eventsAfter E i p publicOnly after limit s =
    (s, Inr (case seen E sc i (ss_db s) of None \<Rightarrow> (zero_EventStreamBatch, False)
      | Some r \<Rightarrow> (\<lparr>eb_Run = rn_snapshot r, eb_Events = page_of i after limit (ss_db s),
                    eb_HighWater = int (length (log_of i (ss_db s)))\<rparr>, True)))"
proof (cases "seen E sc i (ss_db s)")
  case None
  with scanRun_seen [OF ok scope driver, of i] show ?thesis
    by (simp add: Pg_eventsAfter_def Let_def chain_def give_def sc [symmetric])
next
  case (Some r)
  let ?d = "ss_db s"
  have r: "r \<in> set (db_runs ?d)" "rn_id r = i" and "run_row_ok E ?d r"
    using seenD [OF ok Some] by auto
  then have seq: "sequenced (map el_snapshot (events_of i ?d))"
    by (simp add: run_row_ok_def)
  have rows: "\<forall>e \<in> set (events_of i ?d). e = event_row_of (el_snapshot e)"
    using pg_runs_okD(7) [OF ok] by (auto simp: event_row_ok_def)
  have log: "run_log i ?d = events_of i ?d"
    using run_log_ok [OF ok r(1)] r(2) by simp
  have "high_water (events_of i ?d) = int (length (events_of i ?d))"
    by (rule high_water_log [OF rows_sequenced(1) [OF seq rows]])
  moreover have "map el_snapshot (filter (\<lambda>e. after < el_sequence e) (events_of i ?d)) =
      filter (\<lambda>e. after < ev_Sequence e) (map el_snapshot (events_of i ?d))"
    by (rule filter_snapshots [OF rows])
  ultimately show ?thesis
    using scanRun_seen [OF ok scope driver, of i] Some after
    by (simp add: Pg_eventsAfter_def Let_def chain_def give_def sc [symmetric] query_reliable [OF driver]
        log log_of_def page_of_def take_map [symmetric])
qed

lemma scanRuns_set:
  assumes "scope_ok E sc" and "ss_driver s = []"
  shows "\<exists>runs. scanRuns E sc s = (s, Inr runs) \<and>
    mset runs = mset (map rn_snapshot (filter (in_scope E sc) (db_runs (ss_db s))))"
  using scope_rows_ok [OF assms(1)]
  by (auto simp: scanRuns_def query_reliable [OF assms(2)] order_by_def)

subsection \<open>The scopes\<close>

text \<open>
  C8. A project reads its own runs and no others.  On consistent tables the five reads of a project
  answer from the row of the run if the project owns it, with the whole log, the report, the page
  after the cursor and the length of the log, and otherwise with nothing; the list holds the runs
  of the project, each once.
\<close>

theorem pg_project_reads:
  assumes "pg_runs_ok E (ss_db s)" and "ss_driver s = []" and "pe_uuid_in E p = Some u" and "p \<noteq> []"
    and "int4 after"
  shows "Pg_RunForProject E p i s =
      (s, Inr (case seen E (OfProject p) i (ss_db s) of None \<Rightarrow> (zero_Run, False) | Some r \<Rightarrow> (rn_snapshot r, True))) \<and>
    Pg_EventsForProject E p i s =
      (s, Inr (case seen E (OfProject p) i (ss_db s) of None \<Rightarrow> ([], False) | Some r \<Rightarrow> (log_of i (ss_db s), True))) \<and>
    Pg_ReportForProject E p i s =
      (s, Inr (case seen E (OfProject p) i (ss_db s) of None \<Rightarrow> (zero_Report, False)
        | Some r \<Rightarrow> (rt_snapshot (the (row rt_run (db_reports (ss_db s)) i)), True))) \<and>
    Pg_EventsAfterForProject E p i after limit s =
      (s, Inr (case seen E (OfProject p) i (ss_db s) of None \<Rightarrow> (zero_EventStreamBatch, False)
        | Some r \<Rightarrow> (\<lparr>eb_Run = rn_snapshot r, eb_Events = page_of i after limit (ss_db s),
                      eb_HighWater = int (length (log_of i (ss_db s)))\<rparr>, True))) \<and>
    (\<exists>runs. Pg_ListRunsForProject E p s = (s, Inr runs) \<and>
       mset runs = mset (map rn_snapshot (filter (\<lambda>r. rn_project r = Some u) (db_runs (ss_db s))))) \<and>
    (\<forall>r. seen E (OfProject p) i (ss_db s) = Some r \<longleftrightarrow>
       r \<in> set (db_runs (ss_db s)) \<and> rn_id r = i \<and> rn_project r = Some u)"
proof -
  let ?sc = "OfProject p" and ?d = "ss_db s"
  have ok: "scope_ok E ?sc" using assms(3) by (simp add: scope_ok_def)
  have scope: "in_scope E ?sc = (\<lambda>r. rn_project r = Some u)"
    using assms(3) by (auto simp: in_scope_def)
  note reads = scanRun_seen [OF assms(1) ok assms(2), of i] scanReport_seen [OF assms(1) ok assms(2), of i]
    run_exists_seen [OF assms(1) ok assms(2), of i]
  have events: "Pg_EventsForProject E p i s =
      (s, Inr (case seen E ?sc i ?d of None \<Rightarrow> ([], False) | Some r \<Rightarrow> (log_of i ?d, True)))"
  proof (cases "seen E ?sc i ?d")
    case None
    with reads(3) show ?thesis
      by (simp add: Pg_EventsForProject_def Pg_events_def chain_def give_def)
  next
    case (Some r)
    with reads(3) Pg_events_seen [OF assms(1,2) seenD(1) [OF assms(1) Some]] show ?thesis
      by (simp add: Pg_EventsForProject_def Pg_events_def chain_def give_def)
  qed
  have page: "Pg_EventsAfterForProject E p i after limit s =
      (s, Inr (case seen E ?sc i ?d of None \<Rightarrow> (zero_EventStreamBatch, False)
        | Some r \<Rightarrow> (\<lparr>eb_Run = rn_snapshot r, eb_Events = page_of i after limit ?d,
                      eb_HighWater = int (length (log_of i ?d))\<rparr>, True)))"
    unfolding Pg_EventsAfterForProject_def
    by (rule eventsAfter_seen [OF assms(1,2,5) ok]) (simp add: assms(4))
  have "\<forall>r. seen E ?sc i ?d = Some r \<longleftrightarrow> r \<in> set (db_runs ?d) \<and> rn_id r = i \<and> rn_project r = Some u"
    by (simp add: seen_iff scope keyed_row_iff [OF pg_runs_okD(1) [OF assms(1)]])
  with reads(1,2) events page scanRuns_set [OF ok assms(2)] show ?thesis
    by (simp add: Pg_RunForProject_def Pg_ReportForProject_def Pg_ListRunsForProject_def scope)
qed

text \<open>
  The same for everybody without a project: the public reads show the runs of no project.
\<close>

theorem pg_public_reads:
  assumes "pg_runs_ok E (ss_db s)" and "ss_driver s = []" and "int4 after"
  shows "Pg_PublicRun E i s =
      (s, Inr (case seen E Unowned i (ss_db s) of None \<Rightarrow> (zero_Run, False) | Some r \<Rightarrow> (rn_snapshot r, True))) \<and>
    Pg_PublicEvents E i s =
      (s, Inr (case seen E Unowned i (ss_db s) of None \<Rightarrow> ([], False) | Some r \<Rightarrow> (log_of i (ss_db s), True))) \<and>
    Pg_PublicReport E i s =
      (s, Inr (case seen E Unowned i (ss_db s) of None \<Rightarrow> (zero_Report, False)
        | Some r \<Rightarrow> (rt_snapshot (the (row rt_run (db_reports (ss_db s)) i)), True))) \<and>
    Pg_PublicEventsAfter E i after limit s =
      (s, Inr (case seen E Unowned i (ss_db s) of None \<Rightarrow> (zero_EventStreamBatch, False)
        | Some r \<Rightarrow> (\<lparr>eb_Run = rn_snapshot r, eb_Events = page_of i after limit (ss_db s),
                      eb_HighWater = int (length (log_of i (ss_db s)))\<rparr>, True)))"
proof -
  have ok: "scope_ok E Unowned" by (simp add: scope_ok_def)
  note reads = scanRun_seen [OF assms(1) ok assms(2), of i] scanReport_seen [OF assms(1) ok assms(2), of i]
    run_exists_seen [OF assms(1) ok assms(2), of i]
  have "Pg_PublicEvents E i s =
      (s, Inr (case seen E Unowned i (ss_db s) of None \<Rightarrow> ([], False) | Some r \<Rightarrow> (log_of i (ss_db s), True)))"
  proof (cases "seen E Unowned i (ss_db s)")
    case None
    with reads(3) show ?thesis
      by (simp add: Pg_PublicEvents_def chain_def give_def)
  next
    case (Some r)
    with reads(3) Pg_events_seen [OF assms(1,2) seenD(1) [OF assms(1) Some]] show ?thesis
      by (simp add: Pg_PublicEvents_def chain_def)
  qed
  moreover have "Pg_PublicEventsAfter E i after limit s =
      (s, Inr (case seen E Unowned i (ss_db s) of None \<Rightarrow> (zero_EventStreamBatch, False)
        | Some r \<Rightarrow> (\<lparr>eb_Run = rn_snapshot r, eb_Events = page_of i after limit (ss_db s),
                      eb_HighWater = int (length (log_of i (ss_db s)))\<rparr>, True)))"
    unfolding Pg_PublicEventsAfter_def
    by (rule eventsAfter_seen [OF assms(1,2,3) ok]) simp
  ultimately show ?thesis
    using reads(1,2) by (simp add: Pg_PublicRun_def Pg_PublicReport_def)
qed

text \<open>
  An empty project identifier restricts nothing: the page of a project then is the page of
  any run, where the other reads of a project refuse the identifier.
\<close>

theorem pg_empty_project_unscoped:
  assumes "pe_uuid_in E [] = None" and "ss_driver s = []"
  shows "Pg_EventsAfterForProject E [] i after limit s = Pg_EventsAfter E i after limit s \<and>
    Pg_RunForProject E [] i s = (s, Inl invalid_text)"
  using assms(1)
  by (simp add: Pg_EventsAfterForProject_def Pg_EventsAfter_def Pg_RunForProject_def scanRun_def
      query_reliable [OF assms(2)] scope_rows_def uuid_param_def)

theorem pg_project_reads_witness:
  "Pg_RunForProject sample_pg ''p'' (runID 4) (at_server pg_created 6 []) =
     (at_server pg_created 6 [], Inr (zero_Run, False)) \<and>
   Pg_EventsForProject sample_pg ''p'' (runID 4) (at_server pg_created 6 []) =
     (at_server pg_created 6 [], Inr ([], False))"
proof -
  have ok: "pg_runs_ok sample_pg (ss_db (at_server pg_created 6 []))"
    using pg_step_runs_ok [OF pg_created_step pg_runs_ok_migrated] by (simp add: at_server_def)
  have runs: "db_runs pg_created = [run_row_of None sample_run]"
    by (simp add: pg_created_def migrated_def)
  have "seen sample_pg (OfProject ''p'') (runID 4) pg_created = None"
    by (simp add: seen_def runs row_Cons in_scope_def run_row_of_def)
  with pg_project_reads [OF ok, of "''p''" "''p''" 0 "runID 4" 100] show ?thesis
    by (simp add: at_server_def sample_pg_def int4_def)
qed

theorem pg_public_reads_witness:
  "Pg_PublicRun sample_pg (runID 4) (at_server pg_created 6 []) =
     (at_server pg_created 6 [], Inr (rb_Run sample_run, True))"
proof -
  have ok: "pg_runs_ok sample_pg (ss_db (at_server pg_created 6 []))"
    using pg_step_runs_ok [OF pg_created_step pg_runs_ok_migrated] by (simp add: at_server_def)
  have runs: "db_runs pg_created = [run_row_of None sample_run]"
    by (simp add: pg_created_def migrated_def)
  have "seen sample_pg Unowned (runID 4) pg_created = Some (run_row_of None sample_run)"
    using bundle_parts(2) [OF sample_run_built]
    by (simp add: seen_def runs row_Cons in_scope_def run_row_of_def)
  with pg_public_reads [OF ok, of 0 "runID 4" 100] show ?thesis
    by (simp add: at_server_def int4_def run_row_of_def)
qed

theorem pg_empty_project_unscoped_witness:
  "Pg_EventsAfterForProject (sample_pg\<lparr>pe_uuid_in := \<lambda>v. if v = [] then None else Some v\<rparr>) [] ''run_x'' 0 10
      (at_server pg_created 6 []) =
   Pg_EventsAfter (sample_pg\<lparr>pe_uuid_in := \<lambda>v. if v = [] then None else Some v\<rparr>) ''run_x'' 0 10
      (at_server pg_created 6 [])"
  using pg_empty_project_unscoped [of "sample_pg\<lparr>pe_uuid_in := \<lambda>v. if v = [] then None else Some v\<rparr>"
      "at_server pg_created 6 []" "''run_x''" 0 10]
  by (simp add: at_server_def)

end
