(* ===== verification/PgAuth.thy ===== *)
theory PgAuth
  imports PgRepo
begin

text \<open>
  Accounts, sessions and project settings on Postgres (\<^verbatim>\<open>postgres/auth_repository.go\<close>), behind the
  port of \<^verbatim>\<open>auth/models.go\<close>.  A digest has 32 bytes by its Go type, which is what the checks
  on the columns ask.
\<close>

subsection \<open>Registration\<close>

text \<open>\<^verbatim>\<open>length\<close> counts characters: the bytes of a UTF-8 text that do not continue one.\<close>

definition text_length :: "string \<Rightarrow> nat" where
  "text_length s = length (filter (\<lambda>c. of_char c < (128::nat) \<or> 192 \<le> (of_char c :: nat)) s)"

definition name_check :: "string \<Rightarrow> bool" where
  "name_check s \<longleftrightarrow> 1 \<le> text_length s \<and> text_length s \<le> 120"

definition retention_check :: "int \<Rightarrow> bool" where
  "retention_check n \<longleftrightarrow> 1 \<le> n \<and> n \<le> 3650"

definition insert_user :: "pg_env \<Rightarrow> User \<Rightarrow> Database \<Rightarrow> goerr + unit \<times> Database" where
  "insert_user E u d =
     (case uuid_param E (us_ID u) of
        Inl e \<Rightarrow> Inl e
      | Inr i \<Rightarrow>
          if row ur_emailHash (db_users d) (us_EmailHash u) \<noteq> None then Inl unique_violation
          else (case insert_row ur_id
                  \<lparr>ur_id = i, ur_emailHash = us_EmailHash u, ur_emailCiphertext = us_EmailCiphertext u,
                   ur_passwordHash = us_PasswordHash u\<rparr> (db_users d) of
                  Inl e \<Rightarrow> Inl e | Inr rows \<Rightarrow> Inr ((), d\<lparr>db_users := rows\<rparr>)))"

definition insert_organization :: "pg_env \<Rightarrow> string \<Rightarrow> string \<Rightarrow> Database \<Rightarrow> goerr + unit \<times> Database" where
  "insert_organization E i name d =
     (case uuid_param E i of
        Inl e \<Rightarrow> Inl e
      | Inr u \<Rightarrow>
          if \<not> name_check name then Inl check_violation
          else (case insert_row og_id \<lparr>og_id = u, og_name = name\<rparr> (db_organizations d) of
                  Inl e \<Rightarrow> Inl e | Inr rows \<Rightarrow> Inr ((), d\<lparr>db_organizations := rows\<rparr>)))"

definition insert_project ::
  "pg_env \<Rightarrow> string \<Rightarrow> string \<Rightarrow> string \<Rightarrow> int \<Rightarrow> time \<Rightarrow> Database \<Rightarrow> goerr + unit \<times> Database" where
  "insert_project E i organization name retention now d =
     (case (uuid_param E i, uuid_param E organization) of
        (Inr u, Inr o1) \<Rightarrow>
          if \<not> name_check name \<or> \<not> retention_check retention then Inl check_violation
          else if row (\<lambda>r. (pj_organization r, pj_name r)) (db_projects d) (o1, name) \<noteq> None
          then Inl unique_violation
          else (case insert_row pj_id
                  \<lparr>pj_id = u, pj_organization = o1, pj_name = name, pj_retention = retention,
                   pj_created = now\<rparr> (db_projects d) of
                  Inl e \<Rightarrow> Inl e
                | Inr rows \<Rightarrow>
                    if row og_id (db_organizations d) o1 = None then Inl foreign_key_violation
                    else Inr ((), d\<lparr>db_projects := rows\<rparr>))
      | (Inl e, _) \<Rightarrow> Inl e
      | (_, Inl e) \<Rightarrow> Inl e)"

definition insert_membership ::
  "pg_env \<Rightarrow> string \<Rightarrow> string \<Rightarrow> Database \<Rightarrow> goerr + unit \<times> Database" where
  "insert_membership E organization user d =
     (case (uuid_param E organization, uuid_param E user) of
        (Inr o1, Inr u) \<Rightarrow>
          (case insert_row (\<lambda>r. (mb_organization r, mb_user r))
             \<lparr>mb_organization = o1, mb_user = u, mb_role = ''owner''\<rparr> (db_memberships d) of
             Inl e \<Rightarrow> Inl e
           | Inr rows \<Rightarrow>
               if row og_id (db_organizations d) o1 = None \<or> row ur_id (db_users d) u = None
               then Inl foreign_key_violation
               else Inr ((), d\<lparr>db_memberships := rows\<rparr>))
      | (Inl e, _) \<Rightarrow> Inl e
      | (_, Inl e) \<Rightarrow> Inl e)"

definition insert_session :: "pg_env \<Rightarrow> SessionRecord \<Rightarrow> Database \<Rightarrow> goerr + unit \<times> Database" where
  "insert_session E session d =
     (case (uuid_param E (se_UserID session), uuid_param E (se_ProjectID session)) of
        (Inr u, Inr p) \<Rightarrow>
          (case insert_row sd_token
             \<lparr>sd_token = se_TokenHash session, sd_user = u, sd_project = p,
              sd_expires = timestamptz (se_ExpiresAt session), sd_revoked = None\<rparr> (db_sessions d) of
             Inl e \<Rightarrow> Inl e
           | Inr rows \<Rightarrow>
               if row ur_id (db_users d) u = None \<or> row pj_id (db_projects d) p = None
               then Inl foreign_key_violation
               else Inr ((), d\<lparr>db_sessions := rows\<rparr>))
      | (Inl e, _) \<Rightarrow> Inl e
      | (_, Inl e) \<Rightarrow> Inl e)"

text \<open>The three environments of a new project, in one statement, with identifiers the server draws.\<close>

definition environment_rows :: "pg_env \<Rightarrow> string \<Rightarrow> nat \<Rightarrow> environment_row list" where
  "environment_rows E project n =
     [\<lparr>nv_id = pe_uuidv7 E n, nv_project = project, nv_name = ''Local'', nv_kind = ''local'',
       nv_default = False\<rparr>,
      \<lparr>nv_id = pe_uuidv7 E (n + 1), nv_project = project, nv_name = ''Stripe Sandbox'',
       nv_kind = ''sandbox'', nv_default = True\<rparr>,
      \<lparr>nv_id = pe_uuidv7 E (n + 2), nv_project = project, nv_name = ''Staging'', nv_kind = ''staging'',
       nv_default = False\<rparr>]"

definition insert_environments :: "pg_env \<Rightarrow> string \<Rightarrow> Database \<Rightarrow> goerr + unit \<times> Database" where
  "insert_environments E projectID d =
     (case uuid_param E projectID of
        Inl e \<Rightarrow> Inl e
      | Inr p \<Rightarrow>
          (let rows = environment_rows E p (db_uuids d) in
           if list_ex (\<lambda>r. row nv_id (db_environments d) (nv_id r) \<noteq> None) rows \<or>
              \<not> distinct (map nv_id rows) \<or>
              list_ex (\<lambda>r. nv_project r = p) (db_environments d) then Inl unique_violation
           else if row pj_id (db_projects d) p = None then Inl foreign_key_violation
           else Inr ((), d\<lparr>db_environments := db_environments d @ rows, db_uuids := db_uuids d + 3\<rparr>)))"

text \<open>\<^verbatim>\<open>if errors.As(err, &pgErr) && pgErr.Code == "23505"\<close>\<close>

definition on_error :: "(goerr \<Rightarrow> goerr) \<Rightarrow> ('s, 'a) op \<Rightarrow> ('s, 'a) op" where
  "on_error f m s = (case m s of (s', Inl e) \<Rightarrow> (s', Inl (f e)) | (s', Inr x) \<Rightarrow> (s', Inr x))"

definition account_exists_if_unique :: "goerr \<Rightarrow> goerr" where
  "account_exists_if_unique e = (if e = unique_violation then ErrAccountExists else e)"

definition register_tx :: "pg_env \<Rightarrow> Registration \<Rightarrow> (pg, unit ending) op" where
  "register_tx E input =
     (let user = us_ID (rg_User input); project = rg_ProjectID input in
      chain (on_error account_exists_if_unique (exec (\<lambda>now. insert_user E (rg_User input)))) (\<lambda>_.
      chain (exec (\<lambda>now. insert_organization E (rg_OrganizationID input) (rg_OrganizationName input))) (\<lambda>_.
      chain (exec (insert_project E project (rg_OrganizationID input) (rg_ProjectName input)
               (rg_RetentionDays input))) (\<lambda>_.
      chain (exec (\<lambda>now. insert_membership E (rg_OrganizationID input) user)) (\<lambda>_.
      chain (exec (\<lambda>now. insert_session E (rg_Session input))) (\<lambda>_.
      chain (exec (\<lambda>now. insert_environments E project)) (\<lambda>_.
      chain (insertAudit E project user ''project.created'' ''project'' project
               [''source'' \<mapsto> AnyString ''registration'']) (\<lambda>_.
      chain (insertAudit E project user ''auth.registered'' ''user'' user Map.empty) (\<lambda>_.
      give (Commit ()))))))))))"

definition Pg_Register :: "pg_env \<Rightarrow> Registration \<Rightarrow> (pg, unit) op" where
  "Pg_Register E input = in_tx (register_tx E input)"

subsection \<open>Identities and sessions\<close>

text \<open>The columns \<^verbatim>\<open>scanIdentity\<close> reads of a joined row.\<close>

definition scanIdentity ::
  "time option \<Rightarrow> user_row \<times> membership_row \<times> organization_row \<times> project_row \<Rightarrow> IdentityRecord" where
  "scanIdentity expires = (\<lambda>(u, m, o1, p).
     \<lparr>id_UserID = ur_id u, id_EmailCiphertext = ur_emailCiphertext u, id_PasswordHash = ur_passwordHash u,
      id_OrganizationID = og_id o1, id_OrganizationName = og_name o1, id_Role = mb_role m,
      id_ProjectID = pj_id p, id_ProjectName = pj_name p, id_RetentionDays = pj_retention p,
      id_SessionExpiresAt = (case expires of None \<Rightarrow> zero_time | Some t \<Rightarrow> t)\<rparr>)"

definition first_identity :: "IdentityRecord list \<Rightarrow> IdentityRecord \<times> bool" where
  "first_identity found = (case found of [] \<Rightarrow> (zero_Identity, False) | r # rs \<Rightarrow> (r, True))"

text \<open>\<^verbatim>\<open>users u JOIN memberships m ... JOIN organizations o ... JOIN projects p ... WHERE u.email_hash = $1\<close>\<close>

definition join_accounts ::
  "digest \<Rightarrow> Database \<Rightarrow> (user_row \<times> membership_row \<times> organization_row \<times> project_row) list" where
  "join_accounts hash d =
     [(u, m, o1, p). u \<leftarrow> db_users d, ur_emailHash u = hash, m \<leftarrow> db_memberships d, mb_user m = ur_id u,
        o1 \<leftarrow> db_organizations d, og_id o1 = mb_organization m, p \<leftarrow> db_projects d, pj_organization p = og_id o1]"

definition Pg_UserByEmailHash :: "pg_env \<Rightarrow> digest \<Rightarrow> (pg, IdentityRecord \<times> bool) op" where
  "Pg_UserByEmailHash E hash =
     query (\<lambda>now d. Inr (first_identity (map (scanIdentity None)
       (order_by E (\<lambda>(u, m, o1, p). pj_id p) (\<lambda>(u, m, o1, p). pj_created p) (join_accounts hash d)))))"

definition Pg_CreateSession :: "pg_env \<Rightarrow> SessionRecord \<Rightarrow> (pg, unit) op" where
  "Pg_CreateSession E session = exec (\<lambda>now. insert_session E session)"

definition join_sessions :: "digest \<Rightarrow> time \<Rightarrow> Database \<Rightarrow> IdentityRecord list" where
  "join_sessions hash now d =
     [scanIdentity (Some (sd_expires s)) (u, m, o1, p).
        s \<leftarrow> db_sessions d, sd_token s = hash \<and> sd_revoked s = None \<and> now < sd_expires s,
        u \<leftarrow> db_users d, ur_id u = sd_user s, p \<leftarrow> db_projects d, pj_id p = sd_project s,
        o1 \<leftarrow> db_organizations d, og_id o1 = pj_organization p,
        m \<leftarrow> db_memberships d, mb_organization m = og_id o1 \<and> mb_user m = ur_id u]"

definition Pg_Session :: "digest \<Rightarrow> (pg, IdentityRecord \<times> bool) op" where
  "Pg_Session hash = query (\<lambda>now d. Inr (first_identity (join_sessions hash now d)))"

definition Pg_RevokeSession :: "digest \<Rightarrow> (pg, unit) op" where
  "Pg_RevokeSession hash =
     exec (\<lambda>now d. Inr ((), d\<lparr>db_sessions := update_rows (\<lambda>r. sd_token r = hash)
       (\<lambda>r. r\<lparr>sd_revoked := (case sd_revoked r of None \<Rightarrow> Some now | Some t \<Rightarrow> Some t)\<rparr>)
       (db_sessions d)\<rparr>))"

subsection \<open>Projects and environments\<close>

definition project_view :: "project_row \<Rightarrow> ProjectView" where
  "project_view r = \<lparr>pv_ID = pj_id r, pv_Name = pj_name r, pv_RetentionDays = pj_retention r\<rparr>"

definition Pg_Project :: "pg_env \<Rightarrow> string \<Rightarrow> (pg, ProjectView \<times> bool) op" where
  "Pg_Project E projectID =
     query (\<lambda>now d. case uuid_param E projectID of
       Inl e \<Rightarrow> Inl e
     | Inr p \<Rightarrow> Inr (case row pj_id (db_projects d) p of
         None \<Rightarrow> (zero_Project, False) | Some r \<Rightarrow> (project_view r, True)))"

text \<open>\<^verbatim>\<open>UPDATE projects SET name = CASE ... RETURNING ...\<close>: nothing, or the new row.\<close>

definition rename_project ::
  "pg_env \<Rightarrow> string \<Rightarrow> string \<Rightarrow> int \<Rightarrow> Database \<Rightarrow> goerr + project_row option \<times> Database" where
  "rename_project E projectID name retention d =
     (case uuid_param E projectID of
        Inl e \<Rightarrow> Inl e
      | Inr p \<Rightarrow>
          if \<not> int4 retention then Inl int4_overflow
          else (case row pj_id (db_projects d) p of
             None \<Rightarrow> Inr (None, d)
           | Some r \<Rightarrow>
               (let r' = r\<lparr>pj_name := (if name = [] then pj_name r else name),
                          pj_retention := (if retention = 0 then pj_retention r else retention)\<rparr>
                in if \<not> name_check (pj_name r') \<or> \<not> retention_check (pj_retention r') then Inl check_violation
                   else if list_ex (\<lambda>x. pj_id x \<noteq> p \<and> pj_organization x = pj_organization r \<and>
                             pj_name x = pj_name r') (db_projects d) then Inl unique_violation
                   else Inr (Some r', d\<lparr>db_projects := update_rows (\<lambda>x. pj_id x = p) (\<lambda>_. r')
                          (db_projects d)\<rparr>))))"

definition update_project_tx ::
  "pg_env \<Rightarrow> string \<Rightarrow> string \<Rightarrow> int \<Rightarrow> string \<Rightarrow> (pg, (ProjectView \<times> bool) ending) op" where
  "update_project_tx E projectID name retention actorID =
     chain (exec (\<lambda>now. rename_project E projectID name retention)) (\<lambda>found.
     case found of
       None \<Rightarrow> give (Abandon (zero_Project, False))
     | Some r \<Rightarrow>
         chain (insertAudit E projectID actorID ''project.updated'' ''project'' projectID
                  [''name'' \<mapsto> AnyString (pj_name r), ''retention_days'' \<mapsto> AnyInt (pj_retention r)]) (\<lambda>_.
         give (Commit (project_view r, True))))"

definition Pg_UpdateProject ::
  "pg_env \<Rightarrow> string \<Rightarrow> string \<Rightarrow> int \<Rightarrow> string \<Rightarrow> (pg, ProjectView \<times> bool) op" where
  "Pg_UpdateProject E projectID name retention actorID =
     in_tx (update_project_tx E projectID name retention actorID)"

definition environment_view :: "environment_row \<Rightarrow> Environment" where
  "environment_view r =
     \<lparr>en_ID = nv_id r, en_Name = nv_name r, en_Kind = nv_kind r, en_IsDefault = nv_default r\<rparr>"

text \<open>\<^verbatim>\<open>ORDER BY kind\<close>; a kind occurs once in a project.\<close>

definition Pg_Environments :: "pg_env \<Rightarrow> string \<Rightarrow> (pg, Environment list) op" where
  "Pg_Environments E projectID =
     query (\<lambda>now d. case uuid_param E projectID of
       Inl e \<Rightarrow> Inl e
     | Inr p \<Rightarrow> Inr (map environment_view
         (order_by E nv_id nv_kind (filter (\<lambda>r. nv_project r = p) (db_environments d)))))"

definition find_environment ::
  "pg_env \<Rightarrow> string \<Rightarrow> string \<Rightarrow> Database \<Rightarrow> goerr + environment_row option" where
  "find_environment E environmentID projectID d =
     (case (uuid_param E environmentID, uuid_param E projectID) of
        (Inr i, Inr p) \<Rightarrow> Inr (row nv_id (filter (\<lambda>r. nv_project r = p) (db_environments d)) i)
      | (Inl e, _) \<Rightarrow> Inl e
      | (_, Inl e) \<Rightarrow> Inl e)"

definition clear_default :: "pg_env \<Rightarrow> string \<Rightarrow> Database \<Rightarrow> goerr + unit \<times> Database" where
  "clear_default E projectID d =
     (case uuid_param E projectID of
        Inl e \<Rightarrow> Inl e
      | Inr p \<Rightarrow> Inr ((), d\<lparr>db_environments := update_rows (\<lambda>r. nv_project r = p \<and> nv_default r)
          (\<lambda>r. r\<lparr>nv_default := False\<rparr>) (db_environments d)\<rparr>))"

text \<open>The index \<^verbatim>\<open>environments_one_default_idx\<close> refuses a second default.\<close>

definition set_default :: "pg_env \<Rightarrow> string \<Rightarrow> string \<Rightarrow> Database \<Rightarrow> goerr + unit \<times> Database" where
  "set_default E projectID environmentID d =
     (case (uuid_param E projectID, uuid_param E environmentID) of
        (Inr p, Inr i) \<Rightarrow>
          (let rows = update_rows (\<lambda>r. nv_project r = p \<and> nv_id r = i)
                 (\<lambda>r. r\<lparr>nv_default := True\<rparr>) (db_environments d)
           in if 1 < length (filter (\<lambda>r. nv_project r = p \<and> nv_default r) rows) then Inl unique_violation
              else Inr ((), d\<lparr>db_environments := rows\<rparr>))
      | (Inl e, _) \<Rightarrow> Inl e
      | (_, Inl e) \<Rightarrow> Inl e)"

definition select_environment_tx ::
  "pg_env \<Rightarrow> string \<Rightarrow> string \<Rightarrow> string \<Rightarrow> (pg, (Environment \<times> bool) ending) op" where
  "select_environment_tx E projectID environmentID actorID =
     chain (query (\<lambda>now d. find_environment E environmentID projectID d)) (\<lambda>found.
     case found of
       None \<Rightarrow> give (Abandon (zero_Environment, False))
     | Some r \<Rightarrow>
         chain (exec (\<lambda>now. clear_default E projectID)) (\<lambda>_.
         chain (exec (\<lambda>now. set_default E projectID environmentID)) (\<lambda>_.
         chain (insertAudit E projectID actorID ''environment.selected'' ''environment'' environmentID
                  [''kind'' \<mapsto> AnyString (nv_kind r)]) (\<lambda>_.
         give (Commit ((environment_view r)\<lparr>en_IsDefault := True\<rparr>, True))))))"

definition Pg_SelectEnvironment ::
  "pg_env \<Rightarrow> string \<Rightarrow> string \<Rightarrow> string \<Rightarrow> (pg, Environment \<times> bool) op" where
  "Pg_SelectEnvironment E projectID environmentID actorID =
     in_tx (select_environment_tx E projectID environmentID actorID)"

subsection \<open>Findings\<close>

text \<open>\<^verbatim>\<open>findings f JOIN runs r ON r.id = f.run_id WHERE r.project_id = $1\<close>\<close>

definition project_findings :: "string \<Rightarrow> Database \<Rightarrow> finding_row list" where
  "project_findings p d =
     [f. f \<leftarrow> db_findings d, r \<leftarrow> db_runs d, rn_id r = ft_run f \<and> rn_project r = Some p]"

definition finding_place :: "finding_row \<Rightarrow> string" where
  "finding_place f = ft_run f @ fd_ID (ft_finding f)"

definition Pg_Findings :: "pg_env \<Rightarrow> string \<Rightarrow> string \<Rightarrow> (pg, Finding list) op" where
  "Pg_Findings E projectID status =
     query (\<lambda>now d. case uuid_param E projectID of
       Inl e \<Rightarrow> Inl e
     | Inr p \<Rightarrow> Inr (map ft_finding (order_by E finding_place (\<lambda>f. - ft_created f)
         (filter (\<lambda>f. status = [] \<or> (status = ''resolved'') = fd_Resolved (ft_finding f))
           (project_findings p d)))))"

definition resolve_row :: "bool \<Rightarrow> time \<Rightarrow> finding_row \<Rightarrow> finding_row" where
  "resolve_row resolved now f =
     f\<lparr>ft_finding := (ft_finding f)\<lparr>fd_Resolved := resolved\<rparr>,
       ft_resolvedAt := (if resolved then Some now else None)\<rparr>"

text \<open>The newest finding of that name in the project, updated; nothing, or the new row.\<close>

definition resolve_finding ::
  "pg_env \<Rightarrow> string \<Rightarrow> string \<Rightarrow> bool \<Rightarrow> time \<Rightarrow> Database \<Rightarrow> goerr + finding_row option \<times> Database" where
  "resolve_finding E projectID findingID resolved now d =
     (case uuid_param E projectID of
        Inl e \<Rightarrow> Inl e
      | Inr p \<Rightarrow>
          (case order_by E finding_place (\<lambda>f. - ft_created f)
                  (filter (\<lambda>f. fd_ID (ft_finding f) = findingID) (project_findings p d)) of
             [] \<Rightarrow> Inr (None, d)
           | t # ts \<Rightarrow>
               Inr (Some (resolve_row resolved now t),
                 d\<lparr>db_findings := update_rows
                    (\<lambda>f. ft_run f = ft_run t \<and> fd_ID (ft_finding f) = fd_ID (ft_finding t))
                    (resolve_row resolved now) (db_findings d)\<rparr>)))"

definition resolve_tx ::
  "pg_env \<Rightarrow> string \<Rightarrow> string \<Rightarrow> bool \<Rightarrow> string \<Rightarrow> (pg, (Finding \<times> bool) ending) op" where
  "resolve_tx E projectID findingID resolved actorID =
     chain (exec (resolve_finding E projectID findingID resolved)) (\<lambda>found.
     case found of
       None \<Rightarrow> give (Abandon (zero_Finding, False))
     | Some f \<Rightarrow>
         chain (insertAudit E projectID actorID
                  (if resolved then ''finding.resolved'' else ''finding.reopened'') ''finding'' findingID
                  Map.empty) (\<lambda>_.
         give (Commit (ft_finding f, True))))"

definition Pg_SetFindingResolved ::
  "pg_env \<Rightarrow> string \<Rightarrow> string \<Rightarrow> bool \<Rightarrow> string \<Rightarrow> (pg, Finding \<times> bool) op" where
  "Pg_SetFindingResolved E projectID findingID resolved actorID =
     in_tx (resolve_tx E projectID findingID resolved actorID)"

subsection \<open>Notifications\<close>

definition notification_view :: "notification_row \<Rightarrow> Notification" where
  "notification_view r =
     \<lparr>nt_ID = nf_id r, nt_RunID = coalesce_text (nf_run r), nt_Kind = nf_kind r,
      nt_Payload = nf_payload r, nt_ReadAt = nf_readAt r, nt_CreatedAt = nf_created r\<rparr>"

definition Pg_Notifications :: "pg_env \<Rightarrow> string \<Rightarrow> (pg, Notification list) op" where
  "Pg_Notifications E projectID =
     query (\<lambda>now d. case uuid_param E projectID of
       Inl e \<Rightarrow> Inl e
     | Inr p \<Rightarrow> Inr (map notification_view (order_by E nf_id (\<lambda>r. - nf_created r)
         (filter (\<lambda>r. nf_project r = p) (db_notifications d)))))"

definition read_row :: "time \<Rightarrow> notification_row \<Rightarrow> notification_row" where
  "read_row now r = r\<lparr>nf_readAt := (case nf_readAt r of None \<Rightarrow> Some now | Some t \<Rightarrow> Some t)\<rparr>"

definition read_notification ::
  "pg_env \<Rightarrow> string \<Rightarrow> string \<Rightarrow> time \<Rightarrow> Database \<Rightarrow> goerr + notification_row option \<times> Database" where
  "read_notification E projectID notificationID now d =
     (case (uuid_param E notificationID, uuid_param E projectID) of
        (Inr i, Inr p) \<Rightarrow>
          (let P = (\<lambda>r. nf_id r = i \<and> nf_project r = p)
           in Inr (map_option (read_row now) (find P (db_notifications d)),
                d\<lparr>db_notifications := update_rows P (read_row now) (db_notifications d)\<rparr>))
      | (Inl e, _) \<Rightarrow> Inl e
      | (_, Inl e) \<Rightarrow> Inl e)"

definition markNotificationRead ::
  "pg_env \<Rightarrow> string \<Rightarrow> string \<Rightarrow> (pg, Notification \<times> bool) op" where
  "markNotificationRead E projectID notificationID =
     chain (exec (read_notification E projectID notificationID)) (\<lambda>found.
       give (case found of None \<Rightarrow> (zero_Notification, False) | Some r \<Rightarrow> (notification_view r, True)))"

definition mark_read_tx ::
  "pg_env \<Rightarrow> string \<Rightarrow> string \<Rightarrow> string \<Rightarrow> (pg, (Notification \<times> bool) ending) op" where
  "mark_read_tx E projectID notificationID actorID =
     chain (markNotificationRead E projectID notificationID) (\<lambda>(item, ok).
       if \<not> ok then give (Abandon (item, ok))
       else chain (insertAudit E projectID actorID ''notification.read'' ''notification'' notificationID
                     Map.empty) (\<lambda>_. give (Commit (item, True))))"

definition Pg_MarkNotificationRead ::
  "pg_env \<Rightarrow> string \<Rightarrow> string \<Rightarrow> string \<Rightarrow> (pg, Notification \<times> bool) op" where
  "Pg_MarkNotificationRead E projectID notificationID actorID =
     in_tx (mark_read_tx E projectID notificationID actorID)"

definition read_all :: "pg_env \<Rightarrow> string \<Rightarrow> time \<Rightarrow> Database \<Rightarrow> goerr + nat \<times> Database" where
  "read_all E projectID now d =
     (case uuid_param E projectID of
        Inl e \<Rightarrow> Inl e
      | Inr p \<Rightarrow>
          (let P = (\<lambda>r. nf_project r = p \<and> nf_readAt r = None)
           in Inr (length (filter P (db_notifications d)),
                d\<lparr>db_notifications := update_rows P (\<lambda>r. r\<lparr>nf_readAt := Some now\<rparr>) (db_notifications d)\<rparr>)))"

definition mark_all_tx :: "pg_env \<Rightarrow> string \<Rightarrow> string \<Rightarrow> (pg, int ending) op" where
  "mark_all_tx E projectID actorID =
     chain (exec (read_all E projectID)) (\<lambda>count.
     chain (insertAudit E projectID actorID ''notifications.read_all'' ''project'' projectID
              [''updated'' \<mapsto> AnyInt (int count)]) (\<lambda>_.
     give (Commit (int count))))"

definition Pg_MarkAllNotificationsRead :: "pg_env \<Rightarrow> string \<Rightarrow> string \<Rightarrow> (pg, int) op" where
  "Pg_MarkAllNotificationsRead E projectID actorID = in_tx (mark_all_tx E projectID actorID)"

subsection \<open>Connections, audit, and the port\<close>

definition Pg_Connections :: "pg_env \<Rightarrow> string \<Rightarrow> (pg, StripeConnection list) op" where
  "Pg_Connections E projectID =
     query (\<lambda>now d. case uuid_param E projectID of
       Inl e \<Rightarrow> Inl e
     | Inr project \<Rightarrow> Inr (map listed_connection (order_by E cn_id (\<lambda>r. - cn_created r)
         (filter (\<lambda>r. cn_project r = project) (db_connections d)))))"

definition Pg_RecordAudit ::
  "pg_env \<Rightarrow> string \<Rightarrow> string \<Rightarrow> string \<Rightarrow> string \<Rightarrow> string \<Rightarrow> (string \<rightharpoonup> any) \<Rightarrow> (pg, unit) op" where
  "Pg_RecordAudit E projectID actorID action resourceType resourceID metadata =
     in_tx (chain (insertAudit E projectID actorID action resourceType resourceID metadata) (\<lambda>_.
       give (Commit ())))"

definition pg_auth_port :: "pg_env \<Rightarrow> pg AuthRepository" where
  "pg_auth_port E =
     \<lparr>ar_Register = Pg_Register E, ar_UserByEmailHash = Pg_UserByEmailHash E,
      ar_CreateSession = Pg_CreateSession E, ar_Session = Pg_Session,
      ar_RevokeSession = Pg_RevokeSession, ar_Project = Pg_Project E,
      ar_UpdateProject = Pg_UpdateProject E, ar_Environments = Pg_Environments E,
      ar_SelectEnvironment = Pg_SelectEnvironment E, ar_Findings = Pg_Findings E,
      ar_SetFindingResolved = Pg_SetFindingResolved E, ar_Notifications = Pg_Notifications E,
      ar_MarkNotificationRead = \<lambda>now. Pg_MarkNotificationRead E,
      ar_MarkAllNotificationsRead = \<lambda>now. Pg_MarkAllNotificationsRead E,
      ar_Connections = Pg_Connections E,
      ar_RecordAudit = \<lambda>p actor action ty i. Pg_RecordAudit E p actor action ty i Map.empty\<rparr>"

end
