(* ===== verification/AccountStore.thy ===== *)
theory AccountStore
  imports AuthMemory
begin

text \<open>
  What the authentication service relies on of its repository, as a table of accounts by the
  digest of the email and of sessions by the digest of the token.  The locale \<^verbatim>\<open>account_store\<close> states
  the contract; from it follows that every history of requests is answered as the table
  answers it.  The in-memory repository provides it here, Postgres in \<^verbatim>\<open>PgAccounts\<close>.
\<close>

subsection \<open>The table\<close>

text \<open>A session is the account it belongs to and the time it expires.\<close>

record account_table =
  tb_accounts :: "digest \<rightharpoonup> IdentityRecord"
  tb_live :: "digest \<rightharpoonup> digest \<times> time"
  tb_ids :: "string set"
  tb_tokens :: "digest set"

definition empty_table :: account_table where
  "empty_table = \<lparr>tb_accounts = Map.empty, tb_live = Map.empty, tb_ids = {}, tb_tokens = {}\<rparr>"

datatype account_request =
  RegisterAccount Registration | LookUpAccount digest | StartSession digest SessionRecord
  | CheckSession digest | EndSession digest

datatype account_answer =
  Registered | AccountTaken | FoundAccount "IdentityRecord option" | Started
  | OpenSession "IdentityRecord option" | Ended | Failed

abbreviation rg_hash :: "Registration \<Rightarrow> digest" where
  "rg_hash r \<equiv> us_EmailHash (rg_User r)"

abbreviation rg_token :: "Registration \<Rightarrow> digest" where
  "rg_token r \<equiv> se_TokenHash (rg_Session r)"

definition rg_ids :: "Registration \<Rightarrow> string set" where
  "rg_ids r = {us_ID (rg_User r), rg_OrganizationID r, rg_ProjectID r}"

text \<open>\<open>stamp\<close> is what the store keeps of the time of expiry.\<close>

definition table_register :: "(time \<Rightarrow> time) \<Rightarrow> Registration \<Rightarrow> account_table \<Rightarrow> account_table" where
  "table_register stamp r t =
     t\<lparr>tb_accounts := (tb_accounts t)(rg_hash r \<mapsto> registered_identity r),
       tb_live := (tb_live t)(rg_token r \<mapsto> (rg_hash r, stamp (se_ExpiresAt (rg_Session r)))),
       tb_ids := rg_ids r \<union> tb_ids t, tb_tokens := insert (rg_token r) (tb_tokens t)\<rparr>"

definition table_start :: "(time \<Rightarrow> time) \<Rightarrow> digest \<Rightarrow> SessionRecord \<Rightarrow> account_table \<Rightarrow> account_table" where
  "table_start stamp h session t =
     t\<lparr>tb_live := (tb_live t)(se_TokenHash session \<mapsto> (h, stamp (se_ExpiresAt session))),
       tb_tokens := insert (se_TokenHash session) (tb_tokens t)\<rparr>"

definition table_end :: "digest \<Rightarrow> account_table \<Rightarrow> account_table" where
  "table_end k t = t\<lparr>tb_live := (tb_live t)(k := None)\<rparr>"

definition open_session :: "time \<Rightarrow> digest \<Rightarrow> account_table \<Rightarrow> IdentityRecord option" where
  "open_session now k t =
     (case tb_live t k of
        None \<Rightarrow> None
      | Some (h, expires) \<Rightarrow>
          if now < expires
          then Some ((get0 zero_Identity (tb_accounts t) h)\<lparr>id_SessionExpiresAt := expires\<rparr>)
          else None)"

fun table_step ::
  "(time \<Rightarrow> time) \<Rightarrow> time \<Rightarrow> account_request \<Rightarrow> account_table \<Rightarrow> account_table \<times> account_answer" where
  "table_step stamp now (RegisterAccount r) t =
     (if tb_accounts t (rg_hash r) \<noteq> None then (t, AccountTaken) else (table_register stamp r t, Registered))"
| "table_step stamp now (LookUpAccount h) t = (t, FoundAccount (tb_accounts t h))"
| "table_step stamp now (StartSession h session) t = (table_start stamp h session t, Started)"
| "table_step stamp now (CheckSession k) t = (t, OpenSession (open_session now k t))"
| "table_step stamp now (EndSession k) t = (table_end k t, Ended)"

text \<open>
  Requests as the service makes them: a new account has identifiers and a token nobody had, and a
  session is started for the account that was looked up, under a new token.
\<close>

fun admitted :: "(Registration \<Rightarrow> bool) \<Rightarrow> account_table \<Rightarrow> account_request \<Rightarrow> bool" where
  "admitted form t (RegisterAccount r) \<longleftrightarrow>
     form r \<and> se_UserID (rg_Session r) = us_ID (rg_User r) \<and> se_ProjectID (rg_Session r) = rg_ProjectID r \<and>
     rg_ids r \<inter> tb_ids t = {} \<and> rg_token r \<notin> tb_tokens t"
| "admitted form t (StartSession h session) \<longleftrightarrow>
     (\<exists>a. tb_accounts t h = Some a \<and> se_UserID session = id_UserID a \<and> se_ProjectID session = id_ProjectID a) \<and>
     se_TokenHash session \<notin> tb_tokens t"
| "admitted form t _ \<longleftrightarrow> True"

fun table_run ::
  "(time \<Rightarrow> time) \<Rightarrow> (time \<times> account_request) list \<Rightarrow> account_table \<Rightarrow> account_table \<times> account_answer list" where
  "table_run stamp [] t = (t, [])"
| "table_run stamp ((now, q) # qs) t =
     (let (t', x) = table_step stamp now q t; (t2, xs) = table_run stamp qs t' in (t2, x # xs))"

fun admitted_all ::
  "(time \<Rightarrow> time) \<Rightarrow> (Registration \<Rightarrow> bool) \<Rightarrow> (time \<times> account_request) list \<Rightarrow> account_table \<Rightarrow> bool" where
  "admitted_all stamp form [] t \<longleftrightarrow> True"
| "admitted_all stamp form ((now, q) # qs) t \<longleftrightarrow>
     admitted form t q \<and> admitted_all stamp form qs (fst (table_step stamp now q t))"

subsection \<open>A store\<close>

text \<open>
  The operations of a store at a time, and what a caller makes of their answers: a session counts
  when it is found and has not expired, which the service checks again.
\<close>

record 's store_ops =
  so_register :: "time \<Rightarrow> Registration \<Rightarrow> ('s, unit) op"
  so_lookup :: "time \<Rightarrow> digest \<Rightarrow> ('s, IdentityRecord \<times> bool) op"
  so_start :: "time \<Rightarrow> SessionRecord \<Rightarrow> ('s, unit) op"
  so_session :: "time \<Rightarrow> digest \<Rightarrow> ('s, IdentityRecord \<times> bool) op"
  so_revoke :: "time \<Rightarrow> digest \<Rightarrow> ('s, unit) op"

definition open_identity :: "time \<Rightarrow> IdentityRecord \<times> bool \<Rightarrow> IdentityRecord option" where
  "open_identity now = (\<lambda>(r, ok). if ok \<and> After (id_SessionExpiresAt r) now then Some r else None)"

fun store_step :: "'s store_ops \<Rightarrow> time \<Rightarrow> account_request \<Rightarrow> 's \<Rightarrow> 's \<times> account_answer" where
  "store_step S now (RegisterAccount r) s =
     (case so_register S now r s of
        (s', Inl e) \<Rightarrow> (s', if errors_Is e ErrAccountExists then AccountTaken else Failed)
      | (s', Inr _) \<Rightarrow> (s', Registered))"
| "store_step S now (LookUpAccount h) s =
     (case so_lookup S now h s of
        (s', Inl e) \<Rightarrow> (s', Failed)
      | (s', Inr (r, ok)) \<Rightarrow> (s', FoundAccount (if ok then Some r else None)))"
| "store_step S now (StartSession h session) s =
     (case so_start S now session s of (s', Inl e) \<Rightarrow> (s', Failed) | (s', Inr _) \<Rightarrow> (s', Started))"
| "store_step S now (CheckSession k) s =
     (case so_session S now k s of
        (s', Inl e) \<Rightarrow> (s', Failed) | (s', Inr found) \<Rightarrow> (s', OpenSession (open_identity now found)))"
| "store_step S now (EndSession k) s =
     (case so_revoke S now k s of (s', Inl e) \<Rightarrow> (s', Failed) | (s', Inr _) \<Rightarrow> (s', Ended))"

fun store_run ::
  "'s store_ops \<Rightarrow> (time \<times> account_request) list \<Rightarrow> 's \<Rightarrow> 's \<times> account_answer list" where
  "store_run S [] s = (s, [])"
| "store_run S ((now, q) # qs) s =
     (let (s', x) = store_step S now q s; (s2, xs) = store_run S qs s' in (s2, x # xs))"

locale account_store =
  fixes S :: "'s store_ops"
    and holds :: "'s \<Rightarrow> account_table \<Rightarrow> bool"
    and stamp :: "time \<Rightarrow> time"
    and form :: "Registration \<Rightarrow> bool"
  assumes register_taken: "holds s t \<Longrightarrow> admitted form t (RegisterAccount r) \<Longrightarrow>
      tb_accounts t (rg_hash r) \<noteq> None \<Longrightarrow> \<exists>s'. so_register S now r s = (s', Inl ErrAccountExists) \<and> holds s' t"
    and register_new: "holds s t \<Longrightarrow> admitted form t (RegisterAccount r) \<Longrightarrow>
      tb_accounts t (rg_hash r) = None \<Longrightarrow>
      \<exists>s'. so_register S now r s = (s', Inr ()) \<and> holds s' (table_register stamp r t)"
    and look_up: "holds s t \<Longrightarrow> \<exists>s'. so_lookup S now h s =
      (s', Inr (get0 zero_Identity (tb_accounts t) h, tb_accounts t h \<noteq> None)) \<and> holds s' t"
    and start_new: "holds s t \<Longrightarrow> admitted form t (StartSession h session) \<Longrightarrow>
      \<exists>s'. so_start S now session s = (s', Inr ()) \<and> holds s' (table_start stamp h session t)"
    and check_open: "holds s t \<Longrightarrow>
      \<exists>s' found. so_session S now k s = (s', Inr found) \<and> open_identity now found = open_session now k t \<and> holds s' t"
    and revoke_ends: "holds s t \<Longrightarrow> \<exists>s'. so_revoke S now k s = (s', Inr ()) \<and> holds s' (table_end k t)"
begin

lemma step_answers:
  assumes "holds s t" and "admitted form t q"
  shows "\<exists>s'. store_step S now q s = (s', snd (table_step stamp now q t)) \<and>
    holds s' (fst (table_step stamp now q t))"
proof (cases q)
  case (RegisterAccount r)
  then show ?thesis
    using register_taken [OF assms(1), of r now] register_new [OF assms(1), of r now] assms(2)
    by (cases "tb_accounts t (rg_hash r)") fastforce+
next
  case (LookUpAccount h)
  obtain s' where "so_lookup S now h s =
      (s', Inr (get0 zero_Identity (tb_accounts t) h, tb_accounts t h \<noteq> None))" "holds s' t"
    using look_up [OF assms(1)] by blast
  then show ?thesis
    using LookUpAccount by (cases "tb_accounts t h") simp_all
next
  case (StartSession h session)
  then show ?thesis
    using start_new [OF assms(1), of h session now] assms(2) by fastforce
next
  case (CheckSession k)
  then show ?thesis
    using check_open [OF assms(1), of now k] by fastforce
next
  case (EndSession k)
  then show ?thesis
    using revoke_ends [OF assms(1), of now k] by fastforce
qed

lemma run_answers:
  assumes "holds s t" and "admitted_all stamp form qs t"
  shows "\<exists>s'. store_run S qs s = (s', snd (table_run stamp qs t)) \<and> holds s' (fst (table_run stamp qs t))"
  using assms
proof (induction qs arbitrary: s t)
  case Nil
  then show ?case by simp
next
  case (Cons q qs)
  obtain now q' where q: "q = (now, q')" by fastforce
  obtain s1 where s1: "store_step S now q' s = (s1, snd (table_step stamp now q' t))"
      "holds s1 (fst (table_step stamp now q' t))"
    using step_answers [OF Cons.prems(1), of q' now] Cons.prems(2) q by auto
  obtain s2 where "store_run S qs s1 = (s2, snd (table_run stamp qs (fst (table_step stamp now q' t))))"
      "holds s2 (fst (table_run stamp qs (fst (table_step stamp now q' t))))"
    using Cons.IH [OF s1(2)] Cons.prems(2) q by auto
  with s1(1) q show ?case
    by (simp add: Let_def case_prod_beta)
qed

end

subsection \<open>The in-memory repository\<close>

definition memory_store :: "auth_iteration \<Rightarrow> AuthMemory store_ops" where
  "memory_store it =
     \<lparr>so_register = \<lambda>now. Auth_Register,
      so_lookup = \<lambda>now h. auth_reads (Auth_UserByEmailHash h),
      so_start = \<lambda>now. Auth_CreateSession,
      so_session = \<lambda>now h. auth_reads (\<lambda>r. Auth_Session (ai_users it (am_users r)) h r),
      so_revoke = \<lambda>now. Auth_RevokeSession\<rparr>"

text \<open>The session stored for an account.\<close>

definition session_for :: "(digest \<rightharpoonup> IdentityRecord) \<Rightarrow> digest \<Rightarrow> digest \<Rightarrow> time \<Rightarrow> SessionRecord" where
  "session_for accounts k h expires =
     \<lparr>se_TokenHash = k, se_UserID = id_UserID (get0 zero_Identity accounts h),
      se_ProjectID = id_ProjectID (get0 zero_Identity accounts h), se_ExpiresAt = expires\<rparr>"

definition iterates :: "auth_iteration \<Rightarrow> bool" where
  "iterates it \<longleftrightarrow> (\<forall>m. finite (dom m) \<longrightarrow> enumerates (ai_users it m) m)"

definition memory_holds :: "auth_iteration \<Rightarrow> AuthMemory \<Rightarrow> account_table \<Rightarrow> bool" where
  "memory_holds it r t \<longleftrightarrow>
     iterates it \<and> finite (dom (tb_accounts t)) \<and> am_users r = tb_accounts t \<and>
     inj_on (\<lambda>h. id_UserID (get0 zero_Identity (tb_accounts t) h)) (dom (tb_accounts t)) \<and>
     (\<forall>h \<in> dom (tb_accounts t). id_UserID (get0 zero_Identity (tb_accounts t) h) \<in> tb_ids t) \<and>
     (\<forall>k h e. tb_live t k = Some (h, e) \<longrightarrow> h \<in> dom (tb_accounts t)) \<and>
     (\<forall>k. am_sessions r k = map_option (\<lambda>(h, e). session_for (tb_accounts t) k h e) (tb_live t k))"

lemma memory_finds:
  assumes r: "memory_holds it r t" and h: "tb_accounts t h = Some a"
  shows "find (\<lambda>u. id_UserID u = id_UserID a \<and> id_ProjectID u = id_ProjectID a)
    (map (get0 zero_Identity (am_users r)) (ai_users it (am_users r))) = Some a"
    (is "find ?P ?us = _")
proof -
  have keys: "set (ai_users it (am_users r)) = dom (tb_accounts t)" and users: "am_users r = tb_accounts t"
    using r by (simp_all add: memory_holds_def iterates_def enumerates_def)
  have "a \<in> set ?us"
    using h keys by (auto simp: users image_iff intro!: bexI [of _ h])
  then obtain v where v: "find ?P ?us = Some v"
    by (metis (mono_tags, lifting) find_None_iff option.exhaust)
  then have "v \<in> set ?us" and P: "?P v"
    by (auto dest: find_SomeD)
  then obtain h' where h': "h' \<in> dom (tb_accounts t)" "v = get0 zero_Identity (tb_accounts t) h'"
    using keys by (auto simp: users)
  have "inj_on (\<lambda>h. id_UserID (get0 zero_Identity (tb_accounts t) h)) (dom (tb_accounts t))"
    using r by (simp add: memory_holds_def)
  from inj_onD [OF this _ h'(1), of h] P h h' have "h' = h"
    by (auto simp: domIff)
  with v h h' show ?thesis by simp
qed

lemma memory_holds_register:
  assumes r: "memory_holds it r t" and q: "admitted form t (RegisterAccount input)"
    and new: "tb_accounts t (rg_hash input) = None"
  shows "memory_holds it (fst (Auth_Register input r)) (table_register id input t)"
proof -
  have fresh: "id_UserID a \<noteq> us_ID (rg_User input)" if "tb_accounts t h = Some a" for h a
  proof -
    have "id_UserID (get0 zero_Identity (tb_accounts t) h) \<in> tb_ids t"
      using r that unfolding memory_holds_def by blast
    with q that show ?thesis by (auto simp: rg_ids_def)
  qed
  have live: "h \<noteq> rg_hash input" if "tb_live t k = Some (h, e)" for k h e
    using r that new unfolding memory_holds_def by blast
  note m = r [unfolded memory_holds_def]
  let ?acc = "(tb_accounts t)(rg_hash input \<mapsto> registered_identity input)"
  have "inj_on (\<lambda>h. id_UserID (get0 zero_Identity ?acc h)) (dom ?acc)"
  proof (rule inj_onI)
    fix x y
    assume xy: "x \<in> dom ?acc" "y \<in> dom ?acc"
      "id_UserID (get0 zero_Identity ?acc x) = id_UserID (get0 zero_Identity ?acc y)"
    have old: "inj_on (\<lambda>h. id_UserID (get0 zero_Identity (tb_accounts t) h)) (dom (tb_accounts t))"
      using r by (simp add: memory_holds_def)
    show "x = y"
      using xy fresh inj_onD [OF old, of x y]
      by (cases "x = rg_hash input"; cases "y = rg_hash input"; force simp: registered_identity_def)
  qed
  moreover have "map_option (\<lambda>(h, e). session_for ?acc k h e) (tb_live t k) =
      map_option (\<lambda>(h, e). session_for (tb_accounts t) k h e) (tb_live t k)" for k
    using live by (cases "tb_live t k") (auto simp: session_for_def)
  moreover have "am_sessions (fst (Auth_Register input r)) k =
      map_option (\<lambda>(h, e). session_for ?acc k h e) (tb_live (table_register id input t) k)" for k
  proof (cases "k = rg_token input")
    case True
    then show ?thesis
      using q m new by (simp add: Auth_Register_def table_register_def session_for_def registered_identity_def)
  next
    case False
    have "am_sessions r k = map_option (\<lambda>(h, e). session_for (tb_accounts t) k h e) (tb_live t k)"
      using m by blast
    with False calculation(2) [of k] m new show ?thesis
      by (simp add: Auth_Register_def table_register_def)
  qed
  moreover have "am_users (fst (Auth_Register input r)) = ?acc"
    using m new by (simp add: Auth_Register_def)
  moreover have "tb_accounts (table_register id input t) = ?acc"
      "tb_ids (table_register id input t) = rg_ids input \<union> tb_ids t"
      "tb_live (table_register id input t) k = Some (h, e) \<Longrightarrow> h \<in> dom ?acc" for k h e
    using m unfolding table_register_def by (simp_all split: if_splits, blast)
  moreover have "\<forall>h \<in> dom ?acc. id_UserID (get0 zero_Identity ?acc h) \<in> rg_ids input \<union> tb_ids t"
    using m by (auto simp: rg_ids_def registered_identity_def)
  ultimately show ?thesis
    using m unfolding memory_holds_def by auto
qed

interpretation memory_accounts: account_store "memory_store it" "memory_holds it" id "\<lambda>_. True" for it
proof unfold_locales
  fix r :: AuthMemory and t now input h session k
  assume r: "memory_holds it r t"
  note m = r [unfolded memory_holds_def]
  show "\<exists>r'. so_register (memory_store it) now input r = (r', Inl ErrAccountExists) \<and> memory_holds it r' t"
    if "tb_accounts t (rg_hash input) \<noteq> None"
    using r that by (auto simp: memory_store_def Auth_Register_def memory_holds_def)
  show "\<exists>r'. so_register (memory_store it) now input r = (r', Inr ()) \<and>
      memory_holds it r' (table_register id input t)"
    if q: "admitted (\<lambda>_. True) t (RegisterAccount input)" and new: "tb_accounts t (rg_hash input) = None"
    using memory_holds_register [OF r q new] m new
    by (auto simp: memory_store_def Auth_Register_def)
  show "\<exists>r'. so_lookup (memory_store it) now h r =
      (r', Inr (get0 zero_Identity (tb_accounts t) h, tb_accounts t h \<noteq> None)) \<and> memory_holds it r' t"
    using r by (simp add: memory_store_def auth_reads_def Auth_UserByEmailHash_def memory_holds_def)
  show "\<exists>r'. so_start (memory_store it) now session r = (r', Inr ()) \<and>
      memory_holds it r' (table_start id h session t)" if "admitted (\<lambda>_. True) t (StartSession h session)"
  proof -
    from that obtain a where a: "tb_accounts t h = Some a"
        and "se_UserID session = id_UserID a" "se_ProjectID session = id_ProjectID a"
      by auto
    then have "session_for (tb_accounts t) (se_TokenHash session) h (se_ExpiresAt session) = session"
      by (simp add: session_for_def)
    then show ?thesis
      using m a by (auto simp: memory_store_def Auth_CreateSession_def memory_holds_def table_start_def)
  qed
  show "\<exists>r' found. so_session (memory_store it) now k r = (r', Inr found) \<and>
      open_identity now found = open_session now k t \<and> memory_holds it r' t"
  proof (cases "tb_live t k")
    case None
    then show ?thesis
      using r m by (auto simp: memory_store_def auth_reads_def Auth_Session_def open_session_def open_identity_def)
  next
    case (Some x)
    obtain h' e where x: "x = (h', e)" by fastforce
    obtain a where a: "tb_accounts t h' = Some a"
      using m Some x by blast
    have "am_sessions r k = Some (session_for (tb_accounts t) k h' e)"
      using m Some x by simp
    then show ?thesis
      using memory_finds [OF r a] r Some x a
      by (simp add: memory_store_def auth_reads_def Auth_Session_def open_session_def open_identity_def
          session_for_def After_def)
  qed
  show "\<exists>r'. so_revoke (memory_store it) now k r = (r', Inr ()) \<and> memory_holds it r' (table_end k t)"
    using m by (auto simp: memory_store_def Auth_RevokeSession_def memory_holds_def table_end_def)
qed

end
