(* ===== verification/PgAccounts.thy ===== *)
theory PgAccounts
  imports PgAuth AccountStore AuthSpec
begin

text \<open>
  Postgres as a store of accounts and sessions: the second provider of the contract
  \<^verbatim>\<open>account_store\<close>, next to the in-memory repository.  Both answer as the table, so what the
  authentication service gets to see does not depend on where its accounts are kept.
\<close>

subsection \<open>Joins\<close>

text \<open>A comprehension is a join of the rows that meet its conditions.\<close>

lemma concat_map_if: "concat (map (\<lambda>x. if P x then f x else []) xs) = concat (map f (filter P xs))"
  by (induction xs) simp_all

lemma filter_key:
  "keyed key t \<Longrightarrow> filter (\<lambda>r. key r = k) t = (case row key t k of None \<Rightarrow> [] | Some r \<Rightarrow> [r])"
  using filter_one [of key t k _ "\<lambda>r. key r = k"] row_SomeD [of key t k]
  by (fastforce simp: row_None_iff filter_empty_conv split: option.split)

lemma order_by_one [simp]: "order_by E key f [x] = [x]" "order_by E key f [] = []"
  by (simp_all add: order_by_def)

subsection \<open>What the tables hold\<close>

text \<open>The rows that make an account.\<close>

definition account_rows ::
  "Database \<Rightarrow> digest \<Rightarrow> user_row \<times> membership_row \<times> organization_row \<times> project_row \<Rightarrow> bool" where
  "account_rows d h = (\<lambda>(u, m, o1, p).
     row ur_emailHash (db_users d) h = Some u \<and> row mb_user (db_memberships d) (ur_id u) = Some m \<and>
     row og_id (db_organizations d) (mb_organization m) = Some o1 \<and>
     row pj_organization (db_projects d) (og_id o1) = Some p)"

definition account_tables_keyed :: "Database \<Rightarrow> bool" where
  "account_tables_keyed d \<longleftrightarrow>
     keyed ur_id (db_users d) \<and> keyed ur_emailHash (db_users d) \<and> keyed mb_user (db_memberships d) \<and>
     keyed og_id (db_organizations d) \<and> keyed pj_id (db_projects d) \<and>
     keyed pj_organization (db_projects d) \<and> keyed sd_token (db_sessions d)"

definition canonical_uuid :: "pg_env \<Rightarrow> string \<Rightarrow> bool" where
  "canonical_uuid E i \<longleftrightarrow> pe_uuid_in E i = Some i"

text \<open>The identifiers and tokens that occur, and identifiers of environments still to be drawn.\<close>

definition identifiers_used :: "pg_env \<Rightarrow> Database \<Rightarrow> string set \<Rightarrow> digest set \<Rightarrow> bool" where
  "identifiers_used E d ids tokens \<longleftrightarrow>
     ur_id ` set (db_users d) \<subseteq> ids \<and> mb_user ` set (db_memberships d) \<subseteq> ids \<and>
     og_id ` set (db_organizations d) \<subseteq> ids \<and> pj_id ` set (db_projects d) \<subseteq> ids \<and>
     pj_organization ` set (db_projects d) \<subseteq> ids \<and> nv_project ` set (db_environments d) \<subseteq> ids \<and>
     sd_token ` set (db_sessions d) \<subseteq> tokens \<and>
     (\<forall>u \<in> set (db_users d). canonical_uuid E (ur_id u)) \<and> (\<forall>p \<in> set (db_projects d). canonical_uuid E (pj_id p)) \<and>
     inj (pe_uuidv7 E) \<and> (\<forall>n \<ge> db_uuids d. pe_uuidv7 E n \<notin> nv_id ` set (db_environments d))"

definition accounts_held :: "Database \<Rightarrow> (digest \<rightharpoonup> IdentityRecord) \<Rightarrow> bool" where
  "accounts_held d accounts \<longleftrightarrow>
     (\<forall>h. case accounts h of
        None \<Rightarrow> row ur_emailHash (db_users d) h = None
      | Some a \<Rightarrow> \<exists>x. account_rows d h x \<and> a = scanIdentity None x)"

definition session_held ::
  "(digest \<rightharpoonup> IdentityRecord) \<Rightarrow> session_row option \<Rightarrow> (digest \<times> time) option \<Rightarrow> bool" where
  "session_held accounts r v \<longleftrightarrow>
     (case v of
        None \<Rightarrow> (case r of None \<Rightarrow> True | Some x \<Rightarrow> sd_revoked x \<noteq> None)
      | Some (h, e) \<Rightarrow>
          \<exists>a x. accounts h = Some a \<and> r = Some x \<and> sd_revoked x = None \<and> sd_user x = id_UserID a \<and>
            sd_project x = id_ProjectID a \<and> sd_expires x = e)"

definition pg_holds :: "pg_env \<Rightarrow> pg \<Rightarrow> account_table \<Rightarrow> bool" where
  "pg_holds E s t \<longleftrightarrow>
     ss_driver s = [] \<and> account_tables_keyed (ss_db s) \<and>
     identifiers_used E (ss_db s) (tb_ids t) (tb_tokens t) \<and> accounts_held (ss_db s) (tb_accounts t) \<and>
     (\<forall>k. session_held (tb_accounts t) (row sd_token (db_sessions (ss_db s)) k) (tb_live t k))"

text \<open>What a registration must look like for the server to take it.\<close>

definition pg_form :: "pg_env \<Rightarrow> Registration \<Rightarrow> bool" where
  "pg_form E r \<longleftrightarrow>
     (\<forall>i \<in> rg_ids r. canonical_uuid E i) \<and> name_check (rg_OrganizationName r) \<and> name_check (rg_ProjectName r) \<and>
     retention_check (rg_RetentionDays r)"

text \<open>The operations at a time of the server's clock.\<close>

definition pg_at :: "time \<Rightarrow> (pg, 'a) op \<Rightarrow> (pg, 'a) op" where
  "pg_at now m s = m (s\<lparr>ss_now := now\<rparr>)"

definition pg_store :: "pg_env \<Rightarrow> pg store_ops" where
  "pg_store E =
     \<lparr>so_register = \<lambda>now r. pg_at now (Pg_Register E r),
      so_lookup = \<lambda>now h. pg_at now (Pg_UserByEmailHash E h),
      so_start = \<lambda>now session. pg_at now (Pg_CreateSession E session),
      so_session = \<lambda>now h. pg_at now (Pg_Session h),
      so_revoke = \<lambda>now h. pg_at now (Pg_RevokeSession h)\<rparr>"

lemma pg_holds_time [simp]: "pg_holds E (s\<lparr>ss_now := now\<rparr>) t = pg_holds E s t"
  by (simp add: pg_holds_def)

subsection \<open>Looking up\<close>

lemma join_accounts_held:
  assumes "account_tables_keyed d" and "accounts_held d accounts"
  shows "map (scanIdentity None) (join_accounts h d) = (case accounts h of None \<Rightarrow> [] | Some a \<Rightarrow> [a]) \<and>
    length (join_accounts h d) \<le> 1"
proof -
  note k = assms(1) [unfolded account_tables_keyed_def]
  have a: "case accounts h of None \<Rightarrow> row ur_emailHash (db_users d) h = None
      | Some a \<Rightarrow> \<exists>x. account_rows d h x \<and> a = scanIdentity None x"
    using assms(2) by (simp add: accounts_held_def)
  show ?thesis
  proof (cases "accounts h")
    case None
    with a k show ?thesis by (simp add: join_accounts_def concat_map_if filter_key)
  next
    case (Some x)
    with a obtain u m o1 p where rows: "account_rows d h (u, m, o1, p)" "x = scanIdentity None (u, m, o1, p)"
      by auto
    then have "row ur_emailHash (db_users d) h = Some u" "row mb_user (db_memberships d) (ur_id u) = Some m"
      "row og_id (db_organizations d) (mb_organization m) = Some o1"
      "row pj_organization (db_projects d) (og_id o1) = Some p"
      by (simp_all add: account_rows_def)
    with k Some rows(2) show ?thesis
      by (simp add: join_accounts_def concat_map_if filter_key)
  qed
qed

lemma pg_look_up:
  assumes "pg_holds E s t"
  shows "Pg_UserByEmailHash E h s = (s, Inr (get0 zero_Identity (tb_accounts t) h, tb_accounts t h \<noteq> None))"
proof -
  have s: "ss_driver s = []" "account_tables_keyed (ss_db s)" "accounts_held (ss_db s) (tb_accounts t)"
    using assms by (simp_all add: pg_holds_def)
  note j = join_accounts_held [OF s(2,3), of h]
  then have "join_accounts h (ss_db s) = [] \<or> (\<exists>x. join_accounts h (ss_db s) = [x])"
    by (cases "join_accounts h (ss_db s)") auto
  with j show ?thesis
    by (auto simp: Pg_UserByEmailHash_def query_reliable [OF s(1)] first_identity_def split: option.splits)
qed

subsection \<open>Sessions\<close>

lemma held_account:
  assumes "accounts_held d accounts" and "accounts h = Some a"
  obtains u m o1 p where "account_rows d h (u, m, o1, p)" and "a = scanIdentity None (u, m, o1, p)"
proof -
  from assms obtain x where x: "account_rows d h x" "a = scanIdentity None x"
    by (auto simp: accounts_held_def split: option.splits dest!: spec [of _ h])
  obtain u m o1 p where "x = (u, m, o1, p)" by (cases x)
  with x that show thesis by simp
qed

text \<open>The rows of an account are found under their own keys.\<close>

lemma account_rows_keys:
  assumes "account_tables_keyed d" and "account_rows d h (u, m, o1, p)"
  shows "row ur_id (db_users d) (ur_id u) = Some u" and "row pj_id (db_projects d) (pj_id p) = Some p"
    and "row og_id (db_organizations d) (og_id o1) = Some o1" and "mb_user m = ur_id u"
    and "mb_organization m = og_id o1" and "pj_organization p = og_id o1"
    and "row mb_user (db_memberships d) (ur_id u) = Some m"
    and "u \<in> set (db_users d)" and "p \<in> set (db_projects d)"
proof -
  note k = assms(1) [unfolded account_tables_keyed_def]
  have rows: "row ur_emailHash (db_users d) h = Some u" "row mb_user (db_memberships d) (ur_id u) = Some m"
      "row og_id (db_organizations d) (mb_organization m) = Some o1"
      "row pj_organization (db_projects d) (og_id o1) = Some p"
    using assms(2) by (simp_all add: account_rows_def)
  note found = row_SomeD [OF rows(1)] row_SomeD [OF rows(2)] row_SomeD [OF rows(3)] row_SomeD [OF rows(4)]
  show "row ur_id (db_users d) (ur_id u) = Some u" "row pj_id (db_projects d) (pj_id p) = Some p"
    using k found by (simp_all add: keyed_row)
  show "row og_id (db_organizations d) (og_id o1) = Some o1" "mb_user m = ur_id u"
      "mb_organization m = og_id o1" "pj_organization p = og_id o1"
      "row mb_user (db_memberships d) (ur_id u) = Some m" "u \<in> set (db_users d)" "p \<in> set (db_projects d)"
    using rows(2,3) found by simp_all
qed

lemma join_sessions_held:
  assumes k: "account_tables_keyed d" and a: "accounts_held d accounts"
    and s: "session_held accounts (row sd_token (db_sessions d) k) v"
  shows "join_sessions k now d =
    (case v of None \<Rightarrow> []
     | Some (h, e) \<Rightarrow>
         if now < e then [(get0 zero_Identity accounts h)\<lparr>id_SessionExpiresAt := e\<rparr>] else [])"
proof -
  note keyed = k [unfolded account_tables_keyed_def]
  have split: "filter (\<lambda>r. sd_token r = k \<and> sd_revoked r = None \<and> now < sd_expires r) (db_sessions d) =
      filter (\<lambda>r. sd_revoked r = None \<and> now < sd_expires r) (filter (\<lambda>r. sd_token r = k) (db_sessions d))"
    by (simp add: conj_commute conj_left_commute)
  show ?thesis
  proof (cases v)
    case None
    with s keyed show ?thesis
      by (cases "row sd_token (db_sessions d) k")
        (auto simp: join_sessions_def concat_map_if split filter_key session_held_def)
  next
    case (Some w)
    obtain h e where w: "w = (h, e)" by fastforce
    with s Some obtain x y where x: "accounts h = Some x" "row sd_token (db_sessions d) k = Some y"
        "sd_revoked y = None" "sd_user y = id_UserID x" "sd_project y = id_ProjectID x" "sd_expires y = e"
      by (auto simp: session_held_def)
    obtain u m o1 p where rows: "account_rows d h (u, m, o1, p)" "x = scanIdentity None (u, m, o1, p)"
      using held_account [OF a x(1)] .
    note r = account_rows_keys [OF k rows(1)]
    have "filter (\<lambda>m. mb_organization m = og_id o1 \<and> mb_user m = ur_id u) (db_memberships d) = [m]"
      using filter_one [of mb_user "db_memberships d" "ur_id u" m] keyed r by simp
    moreover have "sd_user y = ur_id u" "sd_project y = pj_id p"
      using x(4,5) rows(2) by (simp_all add: scanIdentity_def)
    ultimately show ?thesis
      using keyed r x Some w rows(2)
      by (simp add: join_sessions_def concat_map_if split filter_key scanIdentity_def)
  qed
qed

lemma pg_check_open:
  assumes "pg_holds E s t"
  shows "\<exists>found. Pg_Session k s = (s, Inr found) \<and> open_identity (ss_now s) found = open_session (ss_now s) k t"
proof -
  have s: "ss_driver s = []"
    using assms by (simp add: pg_holds_def)
  have "join_sessions k (ss_now s) (ss_db s) = (case tb_live t k of None \<Rightarrow> [] | Some (h, e) \<Rightarrow>
      if ss_now s < e then [(get0 zero_Identity (tb_accounts t) h)\<lparr>id_SessionExpiresAt := e\<rparr>] else [])"
    using assms by (intro join_sessions_held) (simp_all add: pg_holds_def)
  then show ?thesis
    by (auto simp: Pg_Session_def query_reliable [OF s] first_identity_def open_identity_def open_session_def
        After_def split: option.splits)
qed

lemma accounts_held_cong:
  assumes "db_users d' = db_users d" "db_memberships d' = db_memberships d"
    "db_organizations d' = db_organizations d" "db_projects d' = db_projects d"
  shows "accounts_held d' accounts = accounts_held d accounts"
proof -
  have rows: "account_rows d' = account_rows d"
    by (simp add: fun_eq_iff account_rows_def assms)
  show ?thesis unfolding accounts_held_def assms rows ..
qed

lemma pg_revoke_ends:
  assumes "pg_holds E s t"
  shows "\<exists>s'. Pg_RevokeSession k s = (s', Inr ()) \<and> pg_holds E s' (table_end k t)"
proof -
  have s: "ss_driver s = []"
    using assms by (simp add: pg_holds_def)
  let ?f = "\<lambda>r. r\<lparr>sd_revoked := (case sd_revoked r of None \<Rightarrow> Some (ss_now s) | Some t \<Rightarrow> Some t)\<rparr>"
  let ?d = "(ss_db s)\<lparr>db_sessions := update_rows (\<lambda>r. sd_token r = k) ?f (db_sessions (ss_db s))\<rparr>"
  have rows: "row sd_token (db_sessions ?d) j =
      (if j = k then map_option ?f (row sd_token (db_sessions (ss_db s)) k) else row sd_token (db_sessions (ss_db s)) j)" for j
    by (simp add: row_update_key)
  have tokens: "map sd_token (db_sessions ?d) = map sd_token (db_sessions (ss_db s))"
    by (simp add: map_key_update)
  have "account_tables_keyed ?d" "accounts_held ?d (tb_accounts t)"
    using assms tokens accounts_held_cong [of ?d "ss_db s"]
    by (simp_all add: pg_holds_def account_tables_keyed_def keyed_def)
  moreover have "identifiers_used E ?d (tb_ids t) (tb_tokens t)"
    using assms arg_cong [OF tokens, of set] by (simp add: pg_holds_def identifiers_used_def)
  moreover have "session_held (tb_accounts t) (row sd_token (db_sessions ?d) j) (tb_live (table_end k t) j)" for j
    using assms unfolding rows
    by (cases "row sd_token (db_sessions (ss_db s)) k")
      (auto simp: pg_holds_def table_end_def session_held_def split: option.split)
  ultimately have "pg_holds E (s\<lparr>ss_db := ?d\<rparr>) (table_end k t)"
    using s by (simp add: pg_holds_def table_end_def)
  then show ?thesis
    by (auto simp: Pg_RevokeSession_def exec_reliable [OF s])
qed

text \<open>A new row of \<^verbatim>\<open>sessions\<close>.\<close>

definition stored_session :: "SessionRecord \<Rightarrow> session_row" where
  "stored_session session =
     \<lparr>sd_token = se_TokenHash session, sd_user = se_UserID session, sd_project = se_ProjectID session,
      sd_expires = timestamptz (se_ExpiresAt session), sd_revoked = None\<rparr>"

lemma insert_session_new:
  assumes "canonical_uuid E (se_UserID session)" and "canonical_uuid E (se_ProjectID session)"
    and "row sd_token (db_sessions d) (se_TokenHash session) = None"
    and "row ur_id (db_users d) (se_UserID session) \<noteq> None"
    and "row pj_id (db_projects d) (se_ProjectID session) \<noteq> None"
  shows "insert_session E session d = Inr ((), d\<lparr>db_sessions := db_sessions d @ [stored_session session]\<rparr>)"
  using assms by (simp add: insert_session_def uuid_param_def canonical_uuid_def insert_row_def stored_session_def)

lemma stored_session_row:
  assumes "row sd_token rows (se_TokenHash session) = None"
  shows "row sd_token (rows @ [stored_session session]) k =
    (if k = se_TokenHash session then Some (stored_session session) else row sd_token rows k)"
  using assms by (auto simp: row_snoc stored_session_def split: option.split)

lemma unused_token:
  "identifiers_used E d ids tokens \<Longrightarrow> k \<notin> tokens \<Longrightarrow> row sd_token (db_sessions d) k = None"
  by (auto simp: identifiers_used_def row_None_iff)

lemma pg_start_new:
  assumes s: "pg_holds E s t" and q: "admitted form t (StartSession h session)"
  shows "\<exists>s'. Pg_CreateSession E session s = (s', Inr ()) \<and> pg_holds E s' (table_start timestamptz h session t)"
proof -
  let ?k = "se_TokenHash session"
  have d: "ss_driver s = []" "account_tables_keyed (ss_db s)"
      "identifiers_used E (ss_db s) (tb_ids t) (tb_tokens t)" "accounts_held (ss_db s) (tb_accounts t)"
      "\<And>k. session_held (tb_accounts t) (row sd_token (db_sessions (ss_db s)) k) (tb_live t k)"
    using s by (simp_all add: pg_holds_def)
  obtain a where a: "tb_accounts t h = Some a" "se_UserID session = id_UserID a"
      "se_ProjectID session = id_ProjectID a" and new: "?k \<notin> tb_tokens t"
    using q by auto
  obtain u m o1 p where rows: "account_rows (ss_db s) h (u, m, o1, p)" "a = scanIdentity None (u, m, o1, p)"
    using held_account [OF d(4) a(1)] .
  note r = account_rows_keys [OF d(2) rows(1)]
  have ids: "se_UserID session = ur_id u" "se_ProjectID session = pj_id p"
    using a rows(2) by (simp_all add: scanIdentity_def)
  have free: "row sd_token (db_sessions (ss_db s)) ?k = None"
    by (rule unused_token [OF d(3) new])
  let ?d = "(ss_db s)\<lparr>db_sessions := db_sessions (ss_db s) @ [stored_session session]\<rparr>"
  have "insert_session E session (ss_db s) = Inr ((), ?d)"
    using free r d(3) by (intro insert_session_new) (simp_all add: ids identifiers_used_def)
  then have run: "Pg_CreateSession E session s = (s\<lparr>ss_db := ?d\<rparr>, Inr ())"
    by (simp add: Pg_CreateSession_def exec_reliable [OF d(1)])
  have "account_tables_keyed ?d" "accounts_held ?d (tb_accounts t)"
    using d(2,4) free accounts_held_cong [of ?d "ss_db s"]
    by (simp_all add: account_tables_keyed_def keyed_snoc stored_session_def)
  moreover have "identifiers_used E ?d (tb_ids t) (insert ?k (tb_tokens t))"
    using d(3) by (auto simp: identifiers_used_def stored_session_def)
  moreover have "session_held (tb_accounts t) (row sd_token (db_sessions ?d) k)
      (tb_live (table_start timestamptz h session t) k)" for k
    using d(5) [of k] a by (simp add: stored_session_row [OF free] table_start_def)
      (simp add: session_held_def stored_session_def)
  ultimately have "pg_holds E (s\<lparr>ss_db := ?d\<rparr>) (table_start timestamptz h session t)"
    using d(1) by (simp add: pg_holds_def table_start_def)
  with run show ?thesis by blast
qed

subsection \<open>Registration\<close>

lemma fst_on_error [simp]: "fst (on_error f m s) = fst (m s)"
  by (simp add: on_error_def split: prod.split sum.split)

lemma on_error_Inr: "on_error f m s = (s', Inr x) \<longleftrightarrow> m s = (s', Inr x)"
  by (simp add: on_error_def split: prod.split sum.split)

lemma faithful_on_error [faithful_intros]: "faithful m \<Longrightarrow> faithful (on_error f m)"
  by (simp add: faithful_def keeps_time_def on_error_Inr)

lemma script_on_error [script_simps]:
  "script (on_error f m) s d = (case script m s d of Inl e \<Rightarrow> Inl (f e) | Inr x \<Rightarrow> Inr x)"
  by (simp add: script_def on_error_def split: prod.splits sum.splits)

lemma faithful_register [faithful_intros]: "faithful (register_tx E r)"
  unfolding register_tx_def Let_def by (intro faithful_intros)

definition audit_entry ::
  "string \<Rightarrow> string \<Rightarrow> string \<Rightarrow> string \<Rightarrow> string \<Rightarrow> (string \<rightharpoonup> any) \<Rightarrow> time \<Rightarrow> audit_row" where
  "audit_entry project who action ty i metadata now =
     \<lparr>al_project = project, al_actor = nullableString who, al_action = action, al_resourceType = ty,
      al_resourceID = i, al_metadata = metadata, al_created = now\<rparr>"

lemma script_audit:
  assumes "canonical_uuid E project" and "canonical_uuid E who"
    and "row pj_id (db_projects d) project \<noteq> None" and "row ur_id (db_users d) who \<noteq> None"
  shows "script (insertAudit E project who action ty i metadata) s d =
    Inr ((), d\<lparr>db_audit := db_audit d @ [audit_entry project who action ty i metadata (ss_now s)]\<rparr>)"
  using assms
  by (auto simp: insertAudit_def script_exec uuid_param_def uuid_param_null_def canonical_uuid_def
      nullableString_def references_null_def audit_entry_def)

text \<open>The rows a registration stores.\<close>

definition user_stored :: "User \<Rightarrow> user_row" where
  "user_stored u =
     \<lparr>ur_id = us_ID u, ur_emailHash = us_EmailHash u, ur_emailCiphertext = us_EmailCiphertext u,
      ur_passwordHash = us_PasswordHash u\<rparr>"

definition project_stored :: "Registration \<Rightarrow> time \<Rightarrow> project_row" where
  "project_stored r now =
     \<lparr>pj_id = rg_ProjectID r, pj_organization = rg_OrganizationID r, pj_name = rg_ProjectName r,
      pj_retention = rg_RetentionDays r, pj_created = now\<rparr>"

definition membership_stored :: "Registration \<Rightarrow> membership_row" where
  "membership_stored r =
     \<lparr>mb_organization = rg_OrganizationID r, mb_user = us_ID (rg_User r), mb_role = ''owner''\<rparr>"

definition organization_stored :: "Registration \<Rightarrow> organization_row" where
  "organization_stored r = \<lparr>og_id = rg_OrganizationID r, og_name = rg_OrganizationName r\<rparr>"

definition registered_db :: "pg_env \<Rightarrow> Registration \<Rightarrow> time \<Rightarrow> Database \<Rightarrow> Database" where
  "registered_db E r now d =
     (let p = rg_ProjectID r; u = us_ID (rg_User r) in
      d\<lparr>db_users := db_users d @ [user_stored (rg_User r)],
        db_organizations := db_organizations d @ [organization_stored r],
        db_projects := db_projects d @ [project_stored r now],
        db_memberships := db_memberships d @ [membership_stored r],
        db_sessions := db_sessions d @ [stored_session (rg_Session r)],
        db_environments := db_environments d @ environment_rows E p (db_uuids d),
        db_uuids := db_uuids d + 3,
        db_audit := db_audit d @
          [audit_entry p u ''project.created'' ''project'' p [''source'' \<mapsto> AnyString ''registration''] now,
           audit_entry p u ''auth.registered'' ''user'' u Map.empty now]\<rparr>)"

text \<open>When the identifiers and the token of a registration occur nowhere.\<close>

definition unused :: "pg_env \<Rightarrow> Database \<Rightarrow> Registration \<Rightarrow> bool" where
  "unused E d r \<longleftrightarrow>
     row ur_id (db_users d) (us_ID (rg_User r)) = None \<and> row mb_user (db_memberships d) (us_ID (rg_User r)) = None \<and>
     row og_id (db_organizations d) (rg_OrganizationID r) = None \<and>
     row pj_id (db_projects d) (rg_ProjectID r) = None \<and>
     row pj_organization (db_projects d) (rg_OrganizationID r) = None \<and>
     row nv_project (db_environments d) (rg_ProjectID r) = None \<and>
     row sd_token (db_sessions d) (rg_token r) = None \<and>
     inj (pe_uuidv7 E) \<and> (\<forall>n \<ge> db_uuids d. pe_uuidv7 E n \<notin> nv_id ` set (db_environments d))"

lemma unused_registration:
  assumes "identifiers_used E d ids tokens" and "rg_ids r \<inter> ids = {}" and "rg_token r \<notin> tokens"
  shows "unused E d r"
  using assms by (auto simp: unused_def identifiers_used_def rg_ids_def row_None_iff)

lemma row_pair_None: "row f t a = None \<Longrightarrow> row (\<lambda>r. (f r, g r)) t (a, b) = None"
  by (auto simp: row_None_iff image_iff)

lemma row_pair_None2: "row g t b = None \<Longrightarrow> row (\<lambda>r. (f r, g r)) t (a, b) = None"
  by (auto simp: row_None_iff image_iff)

lemma environments_inserted:
  assumes "canonical_uuid E p" and "row nv_project (db_environments d) p = None" and "inj (pe_uuidv7 E)"
    and "\<forall>n \<ge> db_uuids d. pe_uuidv7 E n \<notin> nv_id ` set (db_environments d)"
    and "row pj_id (db_projects d) p \<noteq> None"
  shows "insert_environments E p d = Inr ((), d\<lparr>db_environments := db_environments d @
    environment_rows E p (db_uuids d), db_uuids := db_uuids d + 3\<rparr>)"
proof -
  have "pe_uuidv7 E n \<noteq> pe_uuidv7 E m" if "n \<noteq> m" for n m
    using assms(3) that by (auto dest: injD)
  moreover have "row nv_id (db_environments d) (pe_uuidv7 E n) = None" if "n \<ge> db_uuids d" for n
    using assms(4) that by (simp add: row_None_iff)
  moreover have "\<not> list_ex (\<lambda>r. nv_project r = p) (db_environments d)"
    using assms(2) by (auto simp: row_None_iff list_ex_iff)
  ultimately show ?thesis
    using assms(1,5) by (simp add: insert_environments_def uuid_param_def canonical_uuid_def environment_rows_def)
qed

lemma script_register:
  assumes f: "pg_form E r" and q: "admitted form t (RegisterAccount r)" and new: "unused E d r"
    and free: "row ur_emailHash (db_users d) (rg_hash r) = None"
  shows "script (register_tx E r) s d = Inr (Commit (), registered_db E r (ss_now s) d)"
proof -
  let ?u = "us_ID (rg_User r)" and ?p = "rg_ProjectID r" and ?o = "rg_OrganizationID r"
  have can: "canonical_uuid E ?u" "canonical_uuid E ?p" "canonical_uuid E ?o"
    using f by (simp_all add: pg_form_def rg_ids_def)
  then have par: "uuid_param E ?u = Inr ?u" "uuid_param E ?p = Inr ?p" "uuid_param E ?o = Inr ?o"
    by (simp_all add: uuid_param_def canonical_uuid_def)
  note n = new [unfolded unused_def]
  let ?d1 = "d\<lparr>db_users := db_users d @ [user_stored (rg_User r)]\<rparr>"
  let ?d2 = "?d1\<lparr>db_organizations := db_organizations d @ [organization_stored r]\<rparr>"
  let ?d3 = "?d2\<lparr>db_projects := db_projects d @ [project_stored r (ss_now s)]\<rparr>"
  let ?d4 = "?d3\<lparr>db_memberships := db_memberships d @ [membership_stored r]\<rparr>"
  let ?d5 = "?d4\<lparr>db_sessions := db_sessions d @ [stored_session (rg_Session r)]\<rparr>"
  let ?d6 = "?d5\<lparr>db_environments := db_environments d @ environment_rows E ?p (db_uuids d),
    db_uuids := db_uuids d + 3\<rparr>"
  have "insert_user E (rg_User r) d = Inr ((), ?d1)"
    using par n free by (simp add: insert_user_def insert_row_def user_stored_def)
  moreover have "insert_organization E ?o (rg_OrganizationName r) ?d1 = Inr ((), ?d2)"
    using par n f by (simp add: insert_organization_def insert_row_def organization_stored_def pg_form_def)
  moreover have "insert_project E ?p ?o (rg_ProjectName r) (rg_RetentionDays r) (ss_now s) ?d2 = Inr ((), ?d3)"
    using par n f by (simp add: insert_project_def insert_row_def project_stored_def pg_form_def
        row_pair_None row_snoc organization_stored_def split: option.split)
  moreover have "insert_membership E ?o ?u ?d3 = Inr ((), ?d4)"
    using par n by (simp add: insert_membership_def insert_row_def membership_stored_def row_pair_None2
        row_snoc organization_stored_def user_stored_def split: option.split)
  moreover have "insert_session E (rg_Session r) ?d4 = Inr ((), ?d5)"
    using can n q by (subst insert_session_new)
      (simp_all add: row_snoc user_stored_def project_stored_def split: option.split)
  moreover have "insert_environments E ?p ?d5 = Inr ((), ?d6)"
    using can n by (subst environments_inserted)
      (simp_all add: row_snoc project_stored_def split: option.split)
  ultimately show ?thesis
    using can
    by (simp add: register_tx_def Let_def script_simps faithful_intros script_audit row_snoc user_stored_def
        project_stored_def registered_db_def split: option.split)
qed

lemma registered_keyed:
  assumes "account_tables_keyed d" and "unused E d r"
    and "row ur_emailHash (db_users d) (rg_hash r) = None"
  shows "account_tables_keyed (registered_db E r now d)"
  using assms
  by (simp add: account_tables_keyed_def registered_db_def Let_def keyed_snoc unused_def user_stored_def
      organization_stored_def project_stored_def membership_stored_def stored_session_def)

lemma registered_used:
  assumes "identifiers_used E d ids tokens" and "pg_form E r"
  shows "identifiers_used E (registered_db E r now d) (rg_ids r \<union> ids) (insert (rg_token r) tokens)"
  using assms
  by (auto simp: identifiers_used_def registered_db_def Let_def rg_ids_def pg_form_def user_stored_def
      organization_stored_def project_stored_def membership_stored_def stored_session_def
      environment_rows_def dest: injD)

lemma old_account_rows:
  assumes "account_rows d h x"
  shows "account_rows (registered_db E r now d) h x"
  using assms by (auto simp: account_rows_def registered_db_def Let_def row_append)

lemma new_account_rows:
  assumes "unused E d r" and "row ur_emailHash (db_users d) (rg_hash r) = None"
  shows "account_rows (registered_db E r now d) (rg_hash r)
    (user_stored (rg_User r), membership_stored r, organization_stored r, project_stored r now)"
  using assms
  by (simp add: account_rows_def registered_db_def Let_def row_snoc unused_def user_stored_def
      organization_stored_def project_stored_def membership_stored_def)

lemma registered_held:
  assumes a: "accounts_held d accounts" and u: "unused E d r" and free: "accounts (rg_hash r) = None"
  shows "accounts_held (registered_db E r now d) (accounts(rg_hash r \<mapsto> registered_identity r))"
proof -
  have none: "row ur_emailHash (db_users d) (rg_hash r) = None"
    using a free by (auto simp: accounts_held_def split: option.splits dest!: spec [of _ "rg_hash r"])
  have "registered_identity r = scanIdentity None
      (user_stored (rg_User r), membership_stored r, organization_stored r, project_stored r now)"
    by (simp add: registered_identity_def scanIdentity_def user_stored_def organization_stored_def
        project_stored_def membership_stored_def)
  with new_account_rows [OF u none, of now]
  have new: "\<exists>x. account_rows (registered_db E r now d) (rg_hash r) x \<and> registered_identity r = scanIdentity None x"
    by blast
  show ?thesis
    unfolding accounts_held_def
  proof
    fix h
    have old: "case accounts h of None \<Rightarrow> row ur_emailHash (db_users d) h = None
        | Some a \<Rightarrow> \<exists>x. account_rows d h x \<and> a = scanIdentity None x"
      using a by (simp add: accounts_held_def)
    have "row ur_emailHash (db_users (registered_db E r now d)) h = row ur_emailHash (db_users d) h"
      if "h \<noteq> rg_hash r"
      using that by (auto simp: registered_db_def Let_def row_snoc user_stored_def split: option.split)
    with old new show "case (accounts(rg_hash r \<mapsto> registered_identity r)) h of
        None \<Rightarrow> row ur_emailHash (db_users (registered_db E r now d)) h = None
      | Some a \<Rightarrow> \<exists>x. account_rows (registered_db E r now d) h x \<and> a = scanIdentity None x"
      using old_account_rows [of d h _ E r now]
      by (cases "h = rg_hash r"; cases "accounts h") (simp_all, blast)
  qed
qed

lemma registered_sessions:
  assumes "session_held (tb_accounts t) (row sd_token (db_sessions d) k) (tb_live t k)"
    and "tb_accounts t (rg_hash r) = None" and "unused E d r" and "admitted form t (RegisterAccount r)"
  shows "session_held (tb_accounts (table_register timestamptz r t))
    (row sd_token (db_sessions (registered_db E r now d)) k) (tb_live (table_register timestamptz r t) k)"
proof -
  have "row sd_token (db_sessions (registered_db E r now d)) k =
      (if k = rg_token r then Some (stored_session (rg_Session r)) else row sd_token (db_sessions d) k)"
    using assms(3) stored_session_row by (simp add: registered_db_def Let_def unused_def)
  with assms(1,2,4) show ?thesis
    by (auto simp: table_register_def session_held_def stored_session_def registered_identity_def
        split: option.splits)
qed

lemma pg_register_new:
  assumes s: "pg_holds E s t" and q: "admitted (pg_form E) t (RegisterAccount r)"
    and free: "tb_accounts t (rg_hash r) = None"
  shows "Pg_Register E r s = (s\<lparr>ss_db := registered_db E r (ss_now s) (ss_db s)\<rparr>, Inr ()) \<and>
    pg_holds E (s\<lparr>ss_db := registered_db E r (ss_now s) (ss_db s)\<rparr>) (table_register timestamptz r t)"
proof -
  have d: "ss_driver s = []" "account_tables_keyed (ss_db s)"
      "identifiers_used E (ss_db s) (tb_ids t) (tb_tokens t)" "accounts_held (ss_db s) (tb_accounts t)"
      "\<And>k. session_held (tb_accounts t) (row sd_token (db_sessions (ss_db s)) k) (tb_live t k)"
    using s by (simp_all add: pg_holds_def)
  have f: "pg_form E r" and u: "unused E (ss_db s) r"
    using q unused_registration [OF d(3)] by simp_all
  have none: "row ur_emailHash (db_users (ss_db s)) (rg_hash r) = None"
    using d(4) free by (auto simp: accounts_held_def split: option.splits dest!: spec [of _ "rg_hash r"])
  have "Pg_Register E r s = (s\<lparr>ss_db := registered_db E r (ss_now s) (ss_db s)\<rparr>, Inr ())"
    by (simp add: Pg_Register_def script_in_tx faithful_register d(1) script_register [OF f q u none])
  moreover have "pg_holds E (s\<lparr>ss_db := registered_db E r (ss_now s) (ss_db s)\<rparr>) (table_register timestamptz r t)"
    using registered_keyed [OF d(2) u none] registered_used [OF d(3) f] registered_held [OF d(4) u free]
      registered_sessions [OF d(5) free u q] d(1)
    by (simp add: pg_holds_def table_register_def)
  ultimately show ?thesis ..
qed

text \<open>A taken email violates the unique column, and the transaction undoes nothing but itself.\<close>

lemma pg_register_taken:
  assumes s: "pg_holds E s t" and q: "admitted (pg_form E) t (RegisterAccount r)"
    and taken: "tb_accounts t (rg_hash r) \<noteq> None"
  shows "Pg_Register E r s = (s, Inl ErrAccountExists)"
proof -
  have d: "ss_driver s = []" "accounts_held (ss_db s) (tb_accounts t)"
    using s by (simp_all add: pg_holds_def)
  have "row ur_emailHash (db_users (ss_db s)) (rg_hash r) \<noteq> None"
    using d(2) taken by (auto simp: accounts_held_def account_rows_def split: option.splits
        dest!: spec [of _ "rg_hash r"])
  moreover have "uuid_param E (us_ID (rg_User r)) = Inr (us_ID (rg_User r))"
    using q by (simp add: pg_form_def rg_ids_def canonical_uuid_def uuid_param_def)
  ultimately have "insert_user E (rg_User r) (ss_db s) = Inl unique_violation"
    by (simp add: insert_user_def)
  then have "script (register_tx E r) s (ss_db s) = Inl ErrAccountExists"
    by (simp add: register_tx_def Let_def script_simps faithful_intros account_exists_if_unique_def)
  then show ?thesis
    by (simp add: Pg_Register_def script_in_tx faithful_register d(1))
qed

interpretation pg_accounts: account_store "pg_store E" "pg_holds E" timestamptz "pg_form E" for E
proof unfold_locales
  fix s :: pg and t now r h session k
  assume s: "pg_holds E s t"
  then have s': "pg_holds E (s\<lparr>ss_now := now\<rparr>) t" by simp
  show "\<exists>s'. so_register (pg_store E) now r s = (s', Inl ErrAccountExists) \<and> pg_holds E s' t"
    if "admitted (pg_form E) t (RegisterAccount r)" "tb_accounts t (rg_hash r) \<noteq> None"
    using pg_register_taken [OF s' that] s by (simp add: pg_store_def pg_at_def)
  show "\<exists>s'. so_register (pg_store E) now r s = (s', Inr ()) \<and> pg_holds E s' (table_register timestamptz r t)"
    if "admitted (pg_form E) t (RegisterAccount r)" "tb_accounts t (rg_hash r) = None"
    using pg_register_new [OF s' that] by (auto simp: pg_store_def pg_at_def)
  show "\<exists>s'. so_lookup (pg_store E) now h s =
      (s', Inr (get0 zero_Identity (tb_accounts t) h, tb_accounts t h \<noteq> None)) \<and> pg_holds E s' t"
    using pg_look_up [OF s'] s by (simp add: pg_store_def pg_at_def)
  show "\<exists>s'. so_start (pg_store E) now session s = (s', Inr ()) \<and>
      pg_holds E s' (table_start timestamptz h session t)" if "admitted (pg_form E) t (StartSession h session)"
    using pg_start_new [OF s' that] by (simp add: pg_store_def pg_at_def)
  show "\<exists>s' found. so_session (pg_store E) now k s = (s', Inr found) \<and>
      open_identity now found = open_session now k t \<and> pg_holds E s' t"
    using pg_check_open [OF s', of k] s by (auto simp: pg_store_def pg_at_def)
  show "\<exists>s'. so_revoke (pg_store E) now k s = (s', Inr ()) \<and> pg_holds E s' (table_end k t)"
    using pg_revoke_ends [OF s', of k] by (simp add: pg_store_def pg_at_def)
qed

subsection \<open>Both stores answer alike\<close>

lemma pg_holds_migrated:
  "ss_driver s = [] \<Longrightarrow> ss_db s = migrated \<Longrightarrow> inj (pe_uuidv7 E) \<Longrightarrow> pg_holds E s empty_table"
  by (simp add: pg_holds_def migrated_def empty_table_def account_tables_keyed_def identifiers_used_def
      accounts_held_def session_held_def)

lemma memory_holds_new: "iterates it \<Longrightarrow> memory_holds it NewAuthMemory empty_table"
  by (simp add: memory_holds_def NewAuthMemory_def empty_table_def)

text \<open>Requests whose times of expiry have whole microseconds.\<close>

fun whole :: "account_request \<Rightarrow> bool" where
  "whole (RegisterAccount r) \<longleftrightarrow> timestamptz (se_ExpiresAt (rg_Session r)) = se_ExpiresAt (rg_Session r)"
| "whole (StartSession h session) \<longleftrightarrow> timestamptz (se_ExpiresAt session) = se_ExpiresAt session"
| "whole _ \<longleftrightarrow> True"

lemma whole_step: "whole q \<Longrightarrow> table_step timestamptz now q t = table_step id now q t"
  by (cases q) (simp_all add: table_register_def table_start_def)

lemma whole_run: "\<forall>(now, q) \<in> set qs. whole q \<Longrightarrow> table_run timestamptz qs t = table_run id qs t"
  by (induction qs arbitrary: t) (auto simp: whole_step)

lemma admitted_weaker: "admitted form t q \<Longrightarrow> admitted (\<lambda>_. True) t q"
  by (cases q) auto

lemma admitted_memory:
  "admitted_all timestamptz form qs t \<Longrightarrow> \<forall>(now, q) \<in> set qs. whole q \<Longrightarrow> admitted_all id (\<lambda>_. True) qs t"
proof (induction qs arbitrary: t)
  case (Cons q qs)
  obtain now q' where q: "q = (now, q')" by fastforce
  with Cons show ?case by (auto simp: whole_step admitted_weaker id_def)
qed simp

text \<open>
  C30. Postgres keeps accounts and sessions as the table does.  From the migrated database and with a
  driver that does not fail, over every admitted history of registrations, look-ups, session starts,
  checks and revocations, in any order and at any times, every answer is the one of a plain table of
  accounts by email and sessions by token: a taken email is refused, an account is found with what it
  was registered with, and a session is open exactly from its start until it is revoked or expires,
  in microseconds.  A history is admitted when identifiers and tokens are fresh and in the server's
  form, sessions are started for accounts that exist, retention is 1 to 3650 days, and the names of
  an organization and its project have 1 to 120 characters: the columns refuse longer ones, which
  the service does not check.
\<close>

theorem pg_accounts_refine:
  assumes "ss_driver s = []" and "ss_db s = migrated" and "inj (pe_uuidv7 E)"
    and "admitted_all timestamptz (pg_form E) qs empty_table"
  shows "snd (store_run (pg_store E) qs s) = snd (table_run timestamptz qs empty_table)"
  using pg_accounts.run_answers [OF pg_holds_migrated [OF assms(1-3)] assms(4)] by auto

text \<open>
  C29. Within what the columns take, the two authentication repositories cannot be told apart: over every
  history of requests that is admitted as above (names of 1 to 120 characters, which the in-memory
  repository does not ask for), with whole microseconds and a driver that does not fail, Postgres and the
  in-memory repository give the same answers.
\<close>

theorem stores_alike:
  assumes "ss_driver s = []" and "ss_db s = migrated" and "inj (pe_uuidv7 E)" and "iterates it"
    and "admitted_all timestamptz (pg_form E) qs empty_table" and "\<forall>(now, q) \<in> set qs. whole q"
  shows "snd (store_run (pg_store E) qs s) = snd (store_run (memory_store it) qs NewAuthMemory)"
  using pg_accounts.run_answers [OF pg_holds_migrated [OF assms(1-3)] assms(5)]
    memory_accounts.run_answers [OF memory_holds_new [OF assms(4)] admitted_memory [OF assms(5,6)]]
    whole_run [OF assms(6)]
  by auto

subsection \<open>A history\<close>

definition sample_server :: pg_env where
  "sample_server = \<lparr>pe_crypto = undefined, pe_uuidv7 = \<lambda>n. replicate n CHR ''x'', pe_uuid_in = Some,
     pe_report_json = \<lambda>_. [], pe_place = \<lambda>_. 0\<rparr>"

definition sample_session :: "digest \<Rightarrow> time \<Rightarrow> SessionRecord" where
  "sample_session k expires =
     \<lparr>se_TokenHash = k, se_UserID = ''u'', se_ProjectID = ''p'', se_ExpiresAt = expires\<rparr>"

definition shop_registration :: "string \<Rightarrow> string \<Rightarrow> digest \<Rightarrow> Registration" where
  "shop_registration tag name k =
     \<lparr>rg_User = \<lparr>us_ID = ''u'' @ tag, us_EmailCiphertext = ''sealed'', us_EmailHash = ''mail'',
        us_PasswordHash = ''argon''\<rparr>,
      rg_OrganizationID = ''o'' @ tag, rg_OrganizationName = name, rg_ProjectID = ''p'' @ tag,
      rg_ProjectName = name, rg_RetentionDays = 30,
      rg_Session = \<lparr>se_TokenHash = k, se_UserID = ''u'' @ tag, se_ProjectID = ''p'' @ tag,
        se_ExpiresAt = 5000\<rparr>\<rparr>"

definition account_history :: "(time \<times> account_request) list" where
  "account_history =
     [(1000, RegisterAccount (shop_registration [] ''Shop'' ''k1'')),
      (1500, RegisterAccount (shop_registration ''2'' ''Shop'' ''k2'')),
      (2000, StartSession ''mail'' (sample_session ''k3'' 9000)),
      (4999, CheckSession ''k1''), (5000, CheckSession ''k1''),
      (6000, EndSession ''k3''), (6001, CheckSession ''k3''), (7000, LookUpAccount ''nobody'')]"

definition sample_answers :: "account_answer list" where
  "sample_answers =
     (let a = registered_identity (shop_registration [] ''Shop'' ''k1'')
      in [Registered, AccountTaken, account_answer.Started, OpenSession (Some (a\<lparr>id_SessionExpiresAt := 5000\<rparr>)),
          OpenSession None, account_answer.Ended, OpenSession None, FoundAccount None])"

lemmas sample_simps = account_history_def shop_registration_def sample_session_def rg_ids_def
  empty_table_def table_register_def table_start_def table_end_def timestamptz_def registered_identity_def
  open_session_def

lemma sample_admitted: "admitted_all timestamptz (pg_form sample_server) account_history empty_table"
  by (simp add: sample_simps pg_form_def canonical_uuid_def sample_server_def name_check_def text_length_def
      retention_check_def)

lemma sample_run: "snd (table_run timestamptz account_history empty_table) = sample_answers"
  by (simp add: sample_simps sample_answers_def)

lemma sample_inj: "inj (pe_uuidv7 sample_server)"
  by (auto simp: inj_def sample_server_def)

abbreviation sample_database :: pg where
  "sample_database \<equiv> \<lparr>ss_db = migrated, ss_now = 0, ss_locked = [], ss_driver = []\<rparr>"

theorem pg_accounts_refine_witness:
  "snd (store_run (pg_store sample_server) account_history sample_database) = sample_answers"
  using pg_accounts_refine [of sample_database sample_server account_history] sample_admitted sample_run sample_inj
  by simp

theorem stores_alike_witness:
  "\<exists>it. snd (store_run (pg_store sample_server) account_history sample_database) =
     snd (store_run (memory_store it) account_history NewAuthMemory)"
proof -
  obtain it :: auth_iteration where "iterates it"
    using auth_iteration_exists unfolding iterates_def by blast
  moreover have "\<forall>(now, q) \<in> set account_history. whole q"
    by (simp add: sample_simps)
  ultimately have "snd (store_run (pg_store sample_server) account_history sample_database) =
      snd (store_run (memory_store it) account_history NewAuthMemory)"
    using sample_admitted sample_inj
    by (intro stores_alike) simp_all
  then show ?thesis ..
qed

end
