(* ===== verification/PgSettings.thy ===== *)
theory PgSettings
  imports PgAccounts PgInvariant
begin

text \<open>
  The settings of projects on Postgres over every history, under any driver: the statements of
  the authentication repository are one more kind of step of the database, which leave the
  runs and the outbox alone, and the environments and the checked columns of projects keep
  their invariants over the steps of both repositories.
\<close>

subsection \<open>Steps\<close>

text \<open>One operation of the authentication repository that may change the database.\<close>

inductive pg_auth_step :: "pg_env \<Rightarrow> Database \<Rightarrow> Database \<Rightarrow> bool" for E where
  auth_register: "pg_auth_step E (ss_db s) (ss_db (fst (Pg_Register E r s)))"
| auth_start: "pg_auth_step E (ss_db s) (ss_db (fst (Pg_CreateSession E session s)))"
| auth_revoke: "pg_auth_step E (ss_db s) (ss_db (fst (Pg_RevokeSession k s)))"
| auth_update: "pg_auth_step E (ss_db s) (ss_db (fst (Pg_UpdateProject E p name days who s)))"
| auth_select: "pg_auth_step E (ss_db s) (ss_db (fst (Pg_SelectEnvironment E p i who s)))"
| auth_resolve: "pg_auth_step E (ss_db s) (ss_db (fst (Pg_SetFindingResolved E p i resolved who s)))"
| auth_read: "pg_auth_step E (ss_db s) (ss_db (fst (Pg_MarkNotificationRead E p i who s)))"
| auth_read_all: "pg_auth_step E (ss_db s) (ss_db (fst (Pg_MarkAllNotificationsRead E p who s)))"
| auth_audit: "pg_auth_step E (ss_db s) (ss_db (fst (Pg_RecordAudit E p who action ty i metadata s)))"

lemma leaves_on_error [leaves_intros]: "leaves f m \<Longrightarrow> leaves f (on_error g m)"
  by (auto simp: leaves_def faithful_on_error script_on_error split: sum.splits)

lemma preserves_on_error [preserves_intros]: "preserves P m \<Longrightarrow> preserves P (on_error g m)"
  by (fastforce simp: preserves_def faithful_on_error script_on_error split: sum.splits)

text \<open>Tables that the statements of a computation do not touch.\<close>

definition engine_tables where
  "engine_tables d = (run_tables d, queue_tables d)"

lemma resolved_keys [simp]:
  "map ft_key (update_rows P (resolve_row resolved now) t) = map ft_key t"
  by (rule map_key_update) (simp add: resolve_row_def)

lemma engine_tables_statements:
  "insert_user E u d = Inr (x1, d') \<Longrightarrow> engine_tables d' = engine_tables d"
  "insert_organization E i name d = Inr (x1, d') \<Longrightarrow> engine_tables d' = engine_tables d"
  "insert_project E i o1 name days now d = Inr (x1, d') \<Longrightarrow> engine_tables d' = engine_tables d"
  "insert_membership E o1 i d = Inr (x1, d') \<Longrightarrow> engine_tables d' = engine_tables d"
  "insert_session E session d = Inr (x1, d') \<Longrightarrow> engine_tables d' = engine_tables d"
  "insert_environments E i d = Inr (x1, d') \<Longrightarrow> engine_tables d' = engine_tables d"
  "rename_project E i name days d = Inr (x2, d') \<Longrightarrow> engine_tables d' = engine_tables d"
  "clear_default E i d = Inr (x1, d') \<Longrightarrow> engine_tables d' = engine_tables d"
  "set_default E i j d = Inr (x1, d') \<Longrightarrow> engine_tables d' = engine_tables d"
  "resolve_finding E i j resolved now d = Inr (x3, d') \<Longrightarrow> engine_tables d' = engine_tables d"
  "read_notification E i j now d = Inr (x4, d') \<Longrightarrow> engine_tables d' = engine_tables d"
  "read_all E i now d = Inr (x5, d') \<Longrightarrow> engine_tables d' = engine_tables d"
  by (auto simp: engine_tables_def run_tables_def queue_tables_def insert_user_def insert_organization_def
      insert_project_def insert_membership_def insert_session_def insert_environments_def
      rename_project_def clear_default_def set_default_def resolve_finding_def read_notification_def
      read_all_def Let_def split: sum.splits if_splits option.splits list.splits)

lemma engine_tables_audit: "leaves engine_tables (insertAudit E p who action ty i metadata)"
  by (rule leaves_insertAudit) (simp add: engine_tables_def run_tables_def queue_tables_def)

lemma auth_leaves_engine:
  assumes "pg_auth_step E d d'"
  shows "engine_tables d' = engine_tables d"
  using assms
proof cases
  case (auth_register s r)
  have "leaves engine_tables (register_tx E r)"
    unfolding register_tx_def Let_def
    by (intro leaves_intros engine_tables_audit leaves_exec; erule engine_tables_statements)
  from in_tx_leaves [OF this] show ?thesis
    by (simp add: auth_register Pg_Register_def)
next
  case (auth_start s session)
  have "leaves engine_tables (exec (\<lambda>now. insert_session E session))"
    by (rule leaves_exec) (erule engine_tables_statements)
  from exec_leaves [OF this] show ?thesis
    by (simp add: auth_start Pg_CreateSession_def)
next
  case (auth_revoke s k)
  show ?thesis
    unfolding auth_revoke Pg_RevokeSession_def
    by (rule exec_leaves [OF leaves_exec]) (auto simp: engine_tables_def run_tables_def queue_tables_def)
next
  case (auth_update s p name days who)
  have "leaves engine_tables (update_project_tx E p name days who)"
    unfolding update_project_tx_def
    by (intro leaves_intros engine_tables_audit leaves_exec; erule engine_tables_statements)
  from in_tx_leaves [OF this] show ?thesis
    by (simp add: auth_update Pg_UpdateProject_def)
next
  case (auth_select s p i who)
  have "leaves engine_tables (select_environment_tx E p i who)"
    unfolding select_environment_tx_def
    by (intro leaves_intros engine_tables_audit leaves_exec; erule engine_tables_statements)
  from in_tx_leaves [OF this] show ?thesis
    by (simp add: auth_select Pg_SelectEnvironment_def)
next
  case (auth_resolve s p i resolved who)
  have "leaves engine_tables (resolve_tx E p i resolved who)"
    unfolding resolve_tx_def
    by (intro leaves_intros engine_tables_audit leaves_exec; erule engine_tables_statements)
  from in_tx_leaves [OF this] show ?thesis
    by (simp add: auth_resolve Pg_SetFindingResolved_def)
next
  case (auth_read s p i who)
  have "leaves engine_tables (mark_read_tx E p i who)"
    unfolding mark_read_tx_def markNotificationRead_def
    by (intro leaves_intros engine_tables_audit leaves_exec; erule engine_tables_statements)
  from in_tx_leaves [OF this] show ?thesis
    by (simp add: auth_read Pg_MarkNotificationRead_def)
next
  case (auth_read_all s p who)
  have "leaves engine_tables (mark_all_tx E p who)"
    unfolding mark_all_tx_def
    by (intro leaves_intros engine_tables_audit leaves_exec; erule engine_tables_statements)
  from in_tx_leaves [OF this] show ?thesis
    by (simp add: auth_read_all Pg_MarkAllNotificationsRead_def)
next
  case (auth_audit s p who action ty i metadata)
  have "leaves engine_tables (chain (insertAudit E p who action ty i metadata) (\<lambda>_. give (Commit ())))"
    by (intro leaves_intros engine_tables_audit)
  from in_tx_leaves [OF this] show ?thesis
    by (simp add: auth_audit Pg_RecordAudit_def)
qed

subsection \<open>Environments\<close>

definition environments_of :: "Database \<Rightarrow> string \<Rightarrow> environment_row list" where
  "environments_of d p = filter (\<lambda>r. nv_project r = p) (db_environments d)"

text \<open>The three environments of a project, one of them the default.\<close>

definition three_environments :: "environment_row list \<Rightarrow> bool" where
  "three_environments es \<longleftrightarrow>
     map nv_kind es = [''local'', ''sandbox'', ''staging''] \<and> length (filter nv_default es) = 1"

definition pg_environments_ok :: "Database \<Rightarrow> bool" where
  "pg_environments_ok d \<longleftrightarrow>
     keyed nv_id (db_environments d) \<and>
     (\<forall>p. environments_of d p = [] \<or> three_environments (environments_of d p))"

lemma pg_environments_ok_cong:
  "db_environments d' = db_environments d \<Longrightarrow> pg_environments_ok d' = pg_environments_ok d"
  by (simp add: pg_environments_ok_def environments_of_def)

lemma environments_of_rows:
  "filter (\<lambda>r. nv_project r = q) (environment_rows E p n) = (if q = p then environment_rows E p n else [])"
  by (simp add: environment_rows_def)

lemma insert_environments_ok:
  assumes "insert_environments E projectID d = Inr (u, d')" and "pg_environments_ok d"
  shows "pg_environments_ok d'"
proof -
  from assms(1) obtain p where p: "uuid_param E projectID = Inr p"
    by (auto simp: insert_environments_def split: sum.splits)
  let ?rows = "environment_rows E p (db_uuids d)"
  have new: "list_all (\<lambda>r. row nv_id (db_environments d) (nv_id r) = None) ?rows" "distinct (map nv_id ?rows)"
      "environments_of d p = []" "db_environments d' = db_environments d @ ?rows"
    using assms(1) p
    by (auto simp: insert_environments_def Let_def environments_of_def filter_empty_conv list_ex_iff
        list_all_iff split: if_splits)
  have "keyed nv_id (db_environments d')"
    using assms(2) new(1,2)
    by (auto simp: new(4) pg_environments_ok_def keyed_def list_all_iff row_None_iff) (metis image_eqI)
  moreover have "three_environments ?rows"
    by (simp add: three_environments_def environment_rows_def)
  moreover have "environments_of d' q = (if q = p then ?rows else environments_of d q)" for q
    using new(3) by (simp add: environments_of_def new(4) environments_of_rows)
  ultimately show ?thesis
    using assms(2) by (simp add: pg_environments_ok_def)
qed

text \<open>What selecting an environment does to the table.\<close>

definition selected_rows :: "string \<Rightarrow> string \<Rightarrow> environment_row list \<Rightarrow> environment_row list" where
  "selected_rows p i es = update_rows (\<lambda>r. nv_project r = p) (\<lambda>r. r\<lparr>nv_default := nv_id r = i\<rparr>) es"

lemma clear_then_set:
  "update_rows (\<lambda>r. nv_project r = p \<and> nv_id r = i) (\<lambda>r. r\<lparr>nv_default := True\<rparr>)
     (update_rows (\<lambda>r. nv_project r = p \<and> nv_default r) (\<lambda>r. r\<lparr>nv_default := False\<rparr>) es) = selected_rows p i es"
proof -
  have "r\<lparr>nv_default := False\<rparr> = r" if "\<not> nv_default r" for r :: environment_row
    using that by (cases r) simp
  then show ?thesis
    by (auto simp: selected_rows_def update_rows_def)
qed

lemma select_effect:
  assumes "script (select_environment_tx E projectID environmentID who) s d = Inr (Commit (e, ok), d')"
  obtains p i r where "uuid_param E projectID = Inr p" and "uuid_param E environmentID = Inr i"
    and "r \<in> set (environments_of d p)" and "nv_id r = i"
    and "e = (environment_view r)\<lparr>en_IsDefault := True\<rparr>" and "ok"
    and "\<exists>rows. d' = d\<lparr>db_environments := selected_rows p i (db_environments d), db_audit := rows\<rparr>"
proof -
  from assms obtain r d1 d2 where r: "find_environment E environmentID projectID d = Inr (Some r)"
    and clear: "clear_default E projectID d = Inr ((), d1)"
    and set: "set_default E projectID environmentID d1 = Inr ((), d2)"
    and audit: "script (insertAudit E projectID who ''environment.selected'' ''environment'' environmentID
      [''kind'' \<mapsto> AnyString (nv_kind r)]) s d2 = Inr ((), d')"
    and e: "e = (environment_view r)\<lparr>en_IsDefault := True\<rparr>" "ok"
    by (auto simp: select_environment_tx_def script_ok faithful_intros split: option.splits)
  from r obtain p i where p: "uuid_param E projectID = Inr p" "uuid_param E environmentID = Inr i"
      and "row nv_id (filter (\<lambda>r. nv_project r = p) (db_environments d)) i = Some r"
    by (auto simp: find_environment_def split: sum.splits)
  then have "r \<in> set (environments_of d p)" "nv_id r = i"
    by (auto simp: environments_of_def dest!: row_SomeD)
  moreover have "d2 = d\<lparr>db_environments := selected_rows p i (db_environments d)\<rparr>"
    using clear set by (auto simp: clear_default_def set_default_def p Let_def clear_then_set split: if_splits)
  moreover from audit have "\<exists>rows. d' = d2\<lparr>db_audit := rows\<rparr>"
    by (auto simp: insertAudit_def script_exec_ok split: sum.splits if_splits)
  ultimately show thesis
    using that p e by auto
qed

lemma filter_selected:
  "filter (\<lambda>r. nv_project r = q) (selected_rows p i es) =
     (if q = p then map (\<lambda>r. r\<lparr>nv_default := nv_id r = i\<rparr>) (filter (\<lambda>r. nv_project r = p) es)
      else filter (\<lambda>r. nv_project r = q) es)"
  by (induction es) (auto simp: selected_rows_def update_rows_def)

lemma selected_environments:
  "db_environments d' = selected_rows p i (db_environments d) \<Longrightarrow>
     environments_of d' q =
       (if q = p then map (\<lambda>r. r\<lparr>nv_default := nv_id r = i\<rparr>) (environments_of d p) else environments_of d q)"
  by (simp add: environments_of_def filter_selected)

lemma keyed_filter: "keyed key t \<Longrightarrow> keyed key (filter P t)"
  by (simp add: keyed_def distinct_map_filter)

text \<open>Exactly the selected row is the default afterwards.\<close>

lemma selected_default:
  assumes "keyed nv_id es" and "r \<in> set es" and "nv_id r = i"
  shows "filter nv_default (map (\<lambda>r. r\<lparr>nv_default := nv_id r = i\<rparr>) es) = [r\<lparr>nv_default := True\<rparr>]"
proof -
  have "filter nv_default (map (\<lambda>r. r\<lparr>nv_default := nv_id r = i\<rparr>) es) =
      map (\<lambda>r. r\<lparr>nv_default := True\<rparr>) (filter (\<lambda>r. nv_id r = i) es)"
    by (induction es) auto
  with assms filter_key [of nv_id es i] keyed_row [of nv_id es r] show ?thesis by simp
qed

lemma selected_ok:
  assumes ok: "pg_environments_ok d" and r: "r \<in> set (environments_of d p)"
    and d': "db_environments d' = selected_rows p (nv_id r) (db_environments d)"
  shows "pg_environments_ok d'"
proof -
  have "keyed nv_id (environments_of d p)"
    using ok by (simp add: pg_environments_ok_def environments_of_def keyed_filter)
  moreover have "three_environments (environments_of d p)"
    using ok r unfolding pg_environments_ok_def by (metis list.set(1) empty_iff)
  ultimately have "three_environments (map (\<lambda>x. x\<lparr>nv_default := nv_id x = nv_id r\<rparr>) (environments_of d p))"
    using selected_default [OF _ r refl] by (simp add: three_environments_def o_def)
  moreover have "keyed nv_id (db_environments d')"
    using ok by (simp add: d' selected_rows_def keyed_update pg_environments_ok_def)
  ultimately show ?thesis
    using ok by (simp add: pg_environments_ok_def selected_environments [OF d'])
qed

lemma faithful_select [faithful_intros]: "faithful (select_environment_tx E p i who)"
  unfolding select_environment_tx_def by (intro faithful_intros)

text \<open>A selection ends in a commit or finds nothing.\<close>

lemma select_endings:
  assumes "script (select_environment_tx E p i who) s d = Inr (x, d')"
  shows "(\<exists>e. x = Commit (e, True)) \<or> x = Abandon (zero_Environment, False)"
  using assms
  by (auto simp: select_environment_tx_def script_ok faithful_intros split: option.splits)

subsection \<open>Projects\<close>

text \<open>What the checks and the unique columns of \<^verbatim>\<open>projects\<close> promise of its rows.\<close>

definition pg_projects_ok :: "Database \<Rightarrow> bool" where
  "pg_projects_ok d \<longleftrightarrow>
     keyed pj_id (db_projects d) \<and> keyed (\<lambda>r. (pj_organization r, pj_name r)) (db_projects d) \<and>
     (\<forall>r \<in> set (db_projects d). name_check (pj_name r) \<and> retention_check (pj_retention r))"

lemma pg_projects_ok_cong: "db_projects d' = db_projects d \<Longrightarrow> pg_projects_ok d' = pg_projects_ok d"
  by (simp add: pg_projects_ok_def)

lemma pg_projects_ok_snoc:
  assumes "pg_projects_ok d" and "row pj_id (db_projects d) (pj_id r) = None"
    and "row (\<lambda>r. (pj_organization r, pj_name r)) (db_projects d) (pj_organization r, pj_name r) = None"
    and "name_check (pj_name r)" and "retention_check (pj_retention r)"
  shows "pg_projects_ok (d\<lparr>db_projects := db_projects d @ [r]\<rparr>)"
  using assms by (auto simp: pg_projects_ok_def keyed_snoc)

lemma insert_project_ok:
  assumes "insert_project E i o1 name days now d = Inr (u, d')" and "pg_projects_ok d"
  shows "pg_projects_ok d'"
  using assms
  by (auto simp: insert_project_def insert_row_def split: sum.splits if_splits intro!: pg_projects_ok_snoc)

lemma insert_demo_project_ok:
  assumes "insert_demo_project now d = Inr (u, d')" and "pg_projects_ok d"
  shows "pg_projects_ok d'"
  using assms
  by (auto simp: insert_demo_project_def name_check_def text_length_def retention_check_def
      split: if_splits intro!: pg_projects_ok_snoc)

text \<open>Replacing the one row of a key.\<close>

lemma keyed_replace:
  assumes t: "keyed key t" and k: "keyed k t" and r: "r \<in> set t" "k r = j" "k r' = j"
    and other: "\<forall>x \<in> set t. k x \<noteq> j \<longrightarrow> key x \<noteq> key r'"
  shows "keyed key (update_rows (\<lambda>x. k x = j) (\<lambda>_. r') t)"
proof -
  have "key (if k x = j then r' else x) \<noteq> key (if k y = j then r' else y)"
    if "x \<in> set t" "y \<in> set t" "x \<noteq> y" for x y
  proof -
    have "inj_on k (set t)" "inj_on key (set t)"
      using t k by (simp_all add: keyed_def distinct_map)
    with that have "k x \<noteq> k y" "key x \<noteq> key y"
      by (auto dest: inj_onD)
    moreover have "k x = j \<or> key x \<noteq> key r'" "k y = j \<or> key y \<noteq> key r'"
      using other that by blast+
    ultimately show ?thesis by auto
  qed
  then have "inj_on (\<lambda>x. key (if k x = j then r' else x)) (set t)"
    by (meson inj_onI)
  with t show ?thesis
    by (simp add: keyed_def update_rows_def distinct_map o_def)
qed

lemma rename_project_ok:
  assumes "rename_project E projectID name days d = Inr (x, d')" and ok: "pg_projects_ok d"
  shows "pg_projects_ok d'"
proof (cases x)
  case None
  with assms show ?thesis
    by (auto simp: rename_project_def Let_def split: sum.splits if_splits option.splits)
next
  case (Some r')
  with assms(1) obtain p where p: "uuid_param E projectID = Inr p" "int4 days"
    by (auto simp: rename_project_def split: sum.splits if_splits)
  with assms(1) Some obtain r where row: "row pj_id (db_projects d) p = Some r"
    by (cases "row pj_id (db_projects d) p") (simp_all add: rename_project_def)
  have refuse: "(if b then Inl e else y) = Inr z \<longleftrightarrow> \<not> b \<and> y = Inr z" for b and e :: goerr and y z
    by simp
  note eq = assms(1) [unfolded rename_project_def p sum.case row option.case Let_def Some refuse
      sum.inject prod.inject option.inject]
  have r': "r\<lparr>pj_name := if name = [] then pj_name r else name,
      pj_retention := if days = 0 then pj_retention r else days\<rparr> = r'"
    using eq by (elim conjE)
  have r: "row pj_id (db_projects d) p = Some r" "pj_id r' = pj_id r" "pj_organization r' = pj_organization r"
    by (rule row) (simp_all flip: r')
  have d': "d' = d\<lparr>db_projects := update_rows (\<lambda>x. pj_id x = p) (\<lambda>_. r') (db_projects d)\<rparr>"
    and checks: "name_check (pj_name r')" "retention_check (pj_retention r')"
    and free: "\<not> list_ex (\<lambda>x. pj_id x \<noteq> p \<and> pj_organization x = pj_organization r \<and> pj_name x = pj_name r')
      (db_projects d)"
    using eq [unfolded r'] by blast+
  note found = row_SomeD [OF r(1)]
  have "keyed pj_id (db_projects d')"
    using ok found r(2) by (auto simp: d' pg_projects_ok_def intro!: keyed_replace)
  moreover have "keyed (\<lambda>r. (pj_organization r, pj_name r)) (db_projects d')"
    using ok found r free unfolding d' pg_projects_ok_def
    by (simp, intro keyed_replace [where r = r]) (auto simp: list_ex_iff)
  ultimately show ?thesis
    using ok checks by (auto simp: pg_projects_ok_def d' update_rows_def)
qed

subsection \<open>Both invariants over every step\<close>

definition pg_settings_ok :: "Database \<Rightarrow> bool" where
  "pg_settings_ok d \<longleftrightarrow> pg_environments_ok d \<and> pg_projects_ok d"

definition settings_tables where
  "settings_tables d = (db_environments d, db_projects d)"

lemma pg_settings_ok_cong: "settings_tables d' = settings_tables d \<Longrightarrow> pg_settings_ok d' = pg_settings_ok d"
  by (simp add: pg_settings_ok_def settings_tables_def pg_environments_ok_def environments_of_def
      pg_projects_ok_def)

lemma settings_tables_statements:
  "insert_user E u d = Inr (x1, d') \<Longrightarrow> settings_tables d' = settings_tables d"
  "insert_organization E i name d = Inr (x1, d') \<Longrightarrow> settings_tables d' = settings_tables d"
  "insert_membership E o1 i d = Inr (x1, d') \<Longrightarrow> settings_tables d' = settings_tables d"
  "insert_session E session d = Inr (x1, d') \<Longrightarrow> settings_tables d' = settings_tables d"
  "resolve_finding E i j resolved now d = Inr (x3, d') \<Longrightarrow> settings_tables d' = settings_tables d"
  "read_notification E i j now d = Inr (x4, d') \<Longrightarrow> settings_tables d' = settings_tables d"
  "read_all E i now d = Inr (x5, d') \<Longrightarrow> settings_tables d' = settings_tables d"
  by (auto simp: settings_tables_def insert_user_def insert_organization_def insert_membership_def
      insert_session_def resolve_finding_def read_notification_def read_all_def Let_def
      split: sum.splits if_splits option.splits list.splits)

lemma settings_tables_inserts:
  "insert_run E p b d = Inr (u, d') \<Longrightarrow> settings_tables d' = settings_tables d"
  "insert_event e d = Inr (u, d') \<Longrightarrow> settings_tables d' = settings_tables d"
  "insert_report E i rep d = Inr (u, d') \<Longrightarrow> settings_tables d' = settings_tables d"
  "insert_assertion i md a d = Inr (u, d') \<Longrightarrow> settings_tables d' = settings_tables d"
  "insert_finding i f now d = Inr (u, d') \<Longrightarrow> settings_tables d' = settings_tables d"
  "insert_notification E q i knd md now d = Inr (u, d') \<Longrightarrow> settings_tables d' = settings_tables d"
  "insert_idempotency scope k h run now d = Inr (u, d') \<Longrightarrow> settings_tables d' = settings_tables d"
  "insert_outbox E i topic payload now d = Inr (u, d') \<Longrightarrow> settings_tables d' = settings_tables d"
  "insert_webhook rc d = Inr (n, d') \<Longrightarrow> settings_tables d' = settings_tables d"
  "update_report E i rep d = Inr (u, d') \<Longrightarrow> settings_tables d' = settings_tables d"
  "update_run_snapshot i run d = Inr (u, d') \<Longrightarrow> settings_tables d' = settings_tables d"
  "insert_evidence E rc i p1 j d = Inr (u, d') \<Longrightarrow> settings_tables d' = settings_tables d"
  "upsert_effect i m d = Inr (inserted, d') \<Longrightarrow> settings_tables d' = settings_tables d"
  "upsert_connection E q c now d = Inr (x, d') \<Longrightarrow> settings_tables d' = settings_tables d"
  "insert_demo_organization d = Inr (u, d') \<Longrightarrow> settings_tables d' = settings_tables d"
  by (auto simp: settings_tables_def insert_run_def insert_event_def insert_report_def insert_assertion_def
      insert_finding_def insert_notification_def insert_idempotency_def insert_outbox_def
      insert_webhook_def update_report_def update_run_snapshot_def insert_evidence_def upsert_effect_def
      upsert_connection_def insert_demo_organization_def Let_def
      split: sum.splits if_splits option.splits)

lemma settings_audit [leaves_intros]: "leaves settings_tables (insertAudit E p who action ty i metadata)"
  by (rule leaves_insertAudit) (simp add: settings_tables_def)

lemma settings_kept:
  "leaves settings_tables body \<Longrightarrow> settings_tables (ss_db (fst (in_tx body s))) = settings_tables (ss_db s)"
  by (rule in_tx_leaves)

lemma settings_leaves:
  "leaves settings_tables (createRun_tx E p scope k h b)" "leaves settings_tables (mark_tx E rc)"
  "leaves settings_tables (process_tx E now j)" "leaves settings_tables (record_tx E evd)"
  "leaves settings_tables (claim_tx now owner lease topics locked)"
  "leaves settings_tables (update_held E i owner f)"
proof -
  note kept = settings_tables_inserts
  show "leaves settings_tables (createRun_tx E p scope k h b)"
    unfolding createRun_tx_def store_evidence_def notify_project_def Let_def
    by (intro leaves_intros settings_audit leaves_exec; (erule kept | simp))
  show "leaves settings_tables (mark_tx E rc)"
    unfolding mark_tx_def by (intro leaves_intros leaves_exec; erule kept)
  show "leaves settings_tables (record_tx E evd)"
    unfolding record_tx_def by (intro leaves_intros leaves_exec; erule kept)
  show "leaves settings_tables (claim_tx now owner lease topics locked)"
    unfolding claim_tx_def
    by (intro leaves_intros leaves_exec) (auto simp: update_outbox_def settings_tables_def)
  show "leaves settings_tables (update_held E i owner f)"
    unfolding update_held_def
    by (rule leaves_exec) (auto simp: update_outbox_def settings_tables_def split: sum.splits)
  have finish: "leaves settings_tables (finishWebhookProcessing E rc1 st i1 p1 c)" for rc1 st i1 p1 c
    unfolding finishWebhookProcessing_def
    by (intro leaves_intros leaves_exec) (auto simp: settings_tables_def Let_def split: sum.splits if_splits)
  have "leaves settings_tables (project_match E now rc1 i1 p1)" for rc1 i1 p1
    unfolding project_match_def project_report_def
    by (intro leaves_intros finish leaves_exec; erule kept)
  with finish show "leaves settings_tables (process_tx E now j)"
    unfolding process_tx_def correlate_def by (intro leaves_intros)
qed

lemma engine_keeps_settings:
  assumes "pg_step E d d'" and ok: "pg_settings_ok d"
  shows "pg_settings_ok d'"
proof -
  have kept: "settings_tables d' = settings_tables d \<Longrightarrow> pg_settings_ok d'"
    using ok pg_settings_ok_cong [of d' d] by blast
  have held: "settings_tables (ss_db (fst (update_held E' i owner f s))) = settings_tables (ss_db s)" for E' i owner f s
    using settings_leaves(6) [of E' i owner f] unfolding update_held_def by (rule exec_leaves)
  note tx = settings_kept [OF settings_leaves(1)] settings_kept [OF settings_leaves(2)]
    settings_kept [OF settings_leaves(3)] settings_kept [OF settings_leaves(4)] settings_kept [OF settings_leaves(5)]
  from assms(1) show ?thesis
  proof cases
    case (step_create b s p k h)
    then show ?thesis by (intro kept) (simp add: Pg_createRun_def tx)
  next
    case (step_next s)
    have "settings_tables (ss_db (fst (Pg_NextRunID s))) = settings_tables (ss_db s)"
      unfolding Pg_NextRunID_def
      by (rule exec_leaves [OF leaves_exec]) (auto simp: settings_tables_def Let_def)
    with step_next show ?thesis by (intro kept) simp
  next
    case (step_mark s rc)
    then show ?thesis by (intro kept) (simp add: Pg_MarkWebhookSeen_def tx)
  next
    case (step_process s clientNow j)
    then show ?thesis by (intro kept) (simp add: Pg_ProcessStripeWebhook_def tx)
  next
    case (step_verify s evd)
    then show ?thesis by (intro kept) (simp add: Pg_RecordVerification_def tx)
  next
    case (step_effect s i n)
    have "settings_tables (ss_db (fst (exec (\<lambda>now. upsert_effect i n) s))) = settings_tables (ss_db s)"
      by (rule exec_leaves [OF leaves_exec]) (erule settings_tables_inserts)
    with step_effect show ?thesis
      by (intro kept) (simp add: Pg_ApplyReferenceMerchantEffect_def chain_offline_db offline_give)
  next
    case (step_save s c)
    have "preserves pg_settings_ok (exec (\<lambda>now. insert_demo_organization))"
        "preserves pg_settings_ok (exec (upsert_connection E demoProjectID c))"
      by (rule leaves_preserves [OF leaves_exec pg_settings_ok_cong]; (erule settings_tables_inserts)?; assumption?)+
    moreover have "preserves pg_settings_ok (exec insert_demo_project)"
    proof (rule preserves_exec)
      fix now d1 x d2
      assume "pg_settings_ok d1" and ins: "insert_demo_project now d1 = Inr (x, d2)"
      moreover from ins have "db_environments d2 = db_environments d1"
        by (auto simp: insert_demo_project_def split: if_splits)
      ultimately show "pg_settings_ok d2"
        using insert_demo_project_ok [OF ins] by (simp add: pg_settings_ok_def pg_environments_ok_def environments_of_def)
    qed
    ultimately have "preserves pg_settings_ok
        (chain (exec (\<lambda>now. insert_demo_organization)) (\<lambda>_.
         chain (exec insert_demo_project) (\<lambda>_.
         chain (exec (upsert_connection E demoProjectID c)) (\<lambda>stored. give (Commit stored)))))"
      by (intro preserves_intros)
    from in_tx_preserves [OF this] step_save ok show ?thesis
      by (simp add: Pg_SaveStripeConnection_def)
  next
    case (step_save_project s p c)
    have "leaves settings_tables
        (chain (exec (upsert_connection E p c)) (\<lambda>stored.
         chain (insertAudit E p [] ''connection.validated'' ''stripe_connection'' (sc_ID stored)
                 [''stripe_account_id'' \<mapsto> AnyString (sc_StripeAccountID stored)]) (\<lambda>_.
         give (Commit stored))))"
      by (intro leaves_intros settings_audit leaves_exec; erule settings_tables_inserts)
    from settings_kept [OF this] step_save_project show ?thesis
      by (intro kept) (simp add: Pg_SaveStripeConnectionForProject_def)
  next
    case (step_claim s clientNow owner lease topics)
    then show ?thesis by (intro kept) (simp add: Pg_ClaimOutbox_def tx)
  next
    case (step_heartbeat s i owner lease)
    then show ?thesis by (intro kept) (simp add: Pg_HeartbeatOutbox_def chain_offline_db offline_give held)
  next
    case (step_complete s i owner)
    then show ?thesis by (intro kept) (simp add: Pg_CompleteOutbox_def chain_offline_db offline_lease_lost held)
  next
    case (step_retry s i owner delay code)
    then show ?thesis by (intro kept) (simp add: Pg_RetryOutbox_def chain_offline_db offline_lease_lost held)
  next
    case (step_fail s i owner code)
    then show ?thesis by (intro kept) (simp add: Pg_FailOutbox_def chain_offline_db offline_lease_lost held)
  qed
qed

text \<open>The statements of the authentication repository that do touch the settings.\<close>

lemma settings_statements:
  "preserves pg_settings_ok (exec (\<lambda>now. insert_environments E i))"
  "preserves pg_settings_ok (exec (insert_project E i o1 name days))"
  "preserves pg_settings_ok (exec (\<lambda>now. rename_project E i name days))"
proof -
  show "preserves pg_settings_ok (exec (\<lambda>now. insert_environments E i))"
  proof (rule preserves_exec)
    fix now d x d'
    assume "pg_settings_ok d" and ins: "insert_environments E i d = Inr (x, d')"
    moreover from ins have "db_projects d' = db_projects d"
      by (auto simp: insert_environments_def Let_def split: sum.splits if_splits)
    ultimately show "pg_settings_ok d'"
      using insert_environments_ok [OF ins] by (simp add: pg_settings_ok_def pg_projects_ok_def)
  qed
  show "preserves pg_settings_ok (exec (insert_project E i o1 name days))"
  proof (rule preserves_exec)
    fix now d x d'
    assume "pg_settings_ok d" and ins: "insert_project E i o1 name days now d = Inr (x, d')"
    moreover from ins have "db_environments d' = db_environments d"
      by (auto simp: insert_project_def split: sum.splits if_splits)
    ultimately show "pg_settings_ok d'"
      using insert_project_ok [OF ins] by (simp add: pg_settings_ok_def pg_environments_ok_def environments_of_def)
  qed
  show "preserves pg_settings_ok (exec (\<lambda>now. rename_project E i name days))"
  proof (rule preserves_exec)
    fix now :: time and d x d'
    assume "pg_settings_ok d" and ins: "rename_project E i name days d = Inr (x, d')"
    moreover from ins have "db_environments d' = db_environments d"
      by (auto simp: rename_project_def Let_def split: sum.splits if_splits option.splits)
    ultimately show "pg_settings_ok d'"
      using rename_project_ok [OF ins] by (simp add: pg_settings_ok_def pg_environments_ok_def environments_of_def)
  qed
qed

lemma preserves_select: "preserves pg_settings_ok (select_environment_tx E p i who)"
  unfolding preserves_def
proof (intro conjI allI impI)
  show "faithful (select_environment_tx E p i who)" by (rule faithful_select)
  fix s d x d'
  assume ok: "pg_settings_ok d" and run: "script (select_environment_tx E p i who) s d = Inr (x, d')"
  from select_endings [OF run] show "pg_settings_ok d'"
  proof
    assume "\<exists>e. x = Commit (e, True)"
    with run obtain e where "script (select_environment_tx E p i who) s d = Inr (Commit (e, True), d')"
      by blast
    from select_effect [OF this] obtain q r rows where "r \<in> set (environments_of d q)"
        and d': "d' = d\<lparr>db_environments := selected_rows q (nv_id r) (db_environments d), db_audit := rows\<rparr>"
      by metis
    with selected_ok [of d r q d'] ok show ?thesis
      by (simp add: pg_settings_ok_def pg_projects_ok_def)
  next
    assume "x = Abandon (zero_Environment, False)"
    with run ok show ?thesis
      by (auto simp: select_environment_tx_def script_ok faithful_intros split: option.splits)
  qed
qed

lemma leaves_settings: "leaves settings_tables m \<Longrightarrow> preserves pg_settings_ok m"
  by (erule leaves_preserves) (rule pg_settings_ok_cong)

lemma auth_keeps_settings:
  assumes "pg_auth_step E d d'" and ok: "pg_settings_ok d"
  shows "pg_settings_ok d'"
proof -
  have kept: "settings_tables d' = settings_tables d \<Longrightarrow> pg_settings_ok d'"
    using ok pg_settings_ok_cong [of d' d] by blast
  have quiet: "preserves pg_settings_ok (exec (\<lambda>now. insert_user E u))"
      "preserves pg_settings_ok (exec (\<lambda>now. insert_organization E i name))"
      "preserves pg_settings_ok (exec (\<lambda>now. insert_membership E i j))"
      "preserves pg_settings_ok (exec (\<lambda>now. insert_session E session))"
      "preserves pg_settings_ok (insertAudit E p who action ty k metadata)"
    for u i name j session p who action ty k metadata
    by (rule leaves_settings, rule leaves_exec, erule settings_tables_statements)+
      (rule leaves_settings [OF settings_audit])
  from assms(1) show ?thesis
  proof cases
    case (auth_register s r)
    have "preserves pg_settings_ok (register_tx E r)"
      unfolding register_tx_def Let_def by (intro preserves_intros quiet settings_statements)
    from in_tx_preserves [OF this] ok show ?thesis
      by (simp add: auth_register Pg_Register_def)
  next
    case (auth_start s session)
    from exec_preserves [OF quiet(4)] ok show ?thesis
      by (simp add: auth_start Pg_CreateSession_def)
  next
    case (auth_revoke s k)
    have "settings_tables (ss_db (fst (Pg_RevokeSession k s))) = settings_tables (ss_db s)"
      unfolding Pg_RevokeSession_def by (rule exec_leaves [OF leaves_exec]) (auto simp: settings_tables_def)
    with auth_revoke show ?thesis by (intro kept) simp
  next
    case (auth_update s p name days who)
    have "preserves pg_settings_ok (update_project_tx E p name days who)"
      unfolding update_project_tx_def by (intro preserves_intros quiet settings_statements)
    from in_tx_preserves [OF this] ok show ?thesis
      by (simp add: auth_update Pg_UpdateProject_def)
  next
    case (auth_select s p i who)
    from in_tx_preserves [OF preserves_select] ok show ?thesis
      by (simp add: auth_select Pg_SelectEnvironment_def)
  next
    case (auth_resolve s p i resolved who)
    have "leaves settings_tables (resolve_tx E p i resolved who)"
      unfolding resolve_tx_def by (intro leaves_intros settings_audit leaves_exec; erule settings_tables_statements)
    from settings_kept [OF this] show ?thesis
      by (intro kept) (simp add: auth_resolve Pg_SetFindingResolved_def)
  next
    case (auth_read s p i who)
    have "leaves settings_tables (mark_read_tx E p i who)"
      unfolding mark_read_tx_def markNotificationRead_def
      by (intro leaves_intros settings_audit leaves_exec; erule settings_tables_statements)
    from settings_kept [OF this] show ?thesis
      by (intro kept) (simp add: auth_read Pg_MarkNotificationRead_def)
  next
    case (auth_read_all s p who)
    have "leaves settings_tables (mark_all_tx E p who)"
      unfolding mark_all_tx_def by (intro leaves_intros settings_audit leaves_exec; erule settings_tables_statements)
    from settings_kept [OF this] show ?thesis
      by (intro kept) (simp add: auth_read_all Pg_MarkAllNotificationsRead_def)
  next
    case (auth_audit s p who action ty i metadata)
    have "leaves settings_tables (chain (insertAudit E p who action ty i metadata) (\<lambda>_. give (Commit ())))"
      by (intro leaves_intros settings_audit)
    from settings_kept [OF this] show ?thesis
      by (intro kept) (simp add: auth_audit Pg_RecordAudit_def)
  qed
qed

subsection \<open>The whole database\<close>

abbreviation pg_system_step :: "pg_env \<Rightarrow> Database \<Rightarrow> Database \<Rightarrow> bool" where
  "pg_system_step E d d' \<equiv> pg_step E d d' \<or> pg_auth_step E d d'"

lemma auth_keeps_engine:
  assumes "pg_auth_step E d d'" and "pg_ok E d"
  shows "pg_ok E d'"
proof -
  have "run_tables d' = run_tables d" "db_outbox d' = db_outbox d"
    using auth_leaves_engine [OF assms(1)] by (simp_all add: engine_tables_def queue_tables_def)
  from pg_runs_ok_cong [OF this(1)] pg_outbox_ok_cong [OF this(2)] assms(2) show ?thesis
    unfolding pg_ok_def by blast
qed

lemma system_settings_ok: "(pg_system_step E)\<^sup>*\<^sup>* migrated d \<Longrightarrow> pg_settings_ok d"
proof (induction rule: rtranclp_induct)
  case base
  show ?case
    by (simp add: pg_settings_ok_def pg_environments_ok_def environments_of_def pg_projects_ok_def migrated_def)
next
  case (step d d')
  then show ?case
    using engine_keeps_settings auth_keeps_settings by blast
qed

text \<open>
  C3. All tables stay consistent while both repositories work on the database, over every history of
  their operations, creations being of bundles as the builder makes them, and whatever the driver
  does: runs, logs, reports, keys and the outbox as
  the engine needs them, a project either without environments or with its three of which exactly
  one is the default, and every project with a name of 1 to 120 characters that its organization
  has once and a retention of 1 to 3650 days.
\<close>

theorem pg_system_invariant:
  assumes "(pg_system_step E)\<^sup>*\<^sup>* migrated d"
  shows "pg_ok E d \<and> pg_settings_ok d"
proof
  show "pg_settings_ok d"
    using assms by (rule system_settings_ok)
  from assms show "pg_ok E d"
  proof (induction rule: rtranclp_induct)
    case base
    show ?case
      using pg_runs_ok_migrated by (simp add: pg_ok_def pg_outbox_ok_def migrated_def)
  next
    case (step d d')
    then show ?case
      using pg_step_runs_ok pg_step_outbox_ok auth_keeps_engine unfolding pg_ok_def by blast
  qed
qed


subsection \<open>A registration and a selection\<close>

abbreviation sample_shop :: Registration where
  "sample_shop \<equiv> shop_registration [] ''Shop'' ''k1''"

definition shop_database :: pg where
  "shop_database = sample_database\<lparr>ss_db := registered_db sample_server sample_shop 0 migrated\<rparr>"

lemma shop_registered: "Pg_Register sample_server sample_shop sample_database = (shop_database, Inr ())"
proof -
  have "admitted (pg_form sample_server) empty_table (RegisterAccount sample_shop)"
    using sample_admitted by (simp add: account_history_def)
  then show ?thesis
    using pg_register_new [OF pg_holds_migrated [OF _ _ sample_inj], of sample_database sample_shop]
    by (simp add: shop_database_def empty_table_def)
qed

lemma shop_reachable: "(pg_system_step sample_server)\<^sup>*\<^sup>* migrated (ss_db shop_database)"
  using auth_register [of sample_server sample_database sample_shop] shop_registered by auto

lemma shop_environments: "environments_of (ss_db shop_database) ''p'' = environment_rows sample_server ''p'' 0"
  by (simp add: shop_database_def registered_db_def Let_def environments_of_def migrated_def
      shop_registration_def environments_of_rows)

theorem pg_system_invariant_witness:
  "pg_ok sample_server (ss_db shop_database) \<and> pg_settings_ok (ss_db shop_database) \<and>
   db_users (ss_db shop_database) \<noteq> [] \<and> three_environments (environments_of (ss_db shop_database) ''p'')"
  using pg_system_invariant [OF shop_reachable]
  by (simp add: shop_environments three_environments_def environment_rows_def)
    (simp add: shop_database_def registered_db_def Let_def)

lemma shop_selects:
  "snd (Pg_SelectEnvironment sample_server ''p'' ''xx'' ''u'' shop_database) =
     Inr (\<lparr>en_ID = ''xx'', en_Name = ''Staging'', en_Kind = ''staging'', en_IsDefault = True\<rparr>, True)"
  by (simp add: Pg_SelectEnvironment_def script_in_tx faithful_select shop_database_def)
    (simp add: select_environment_tx_def script_simps faithful_intros find_environment_def clear_default_def
      set_default_def insertAudit_def uuid_param_def uuid_param_null_def sample_server_def registered_db_def Let_def
      migrated_def shop_registration_def environment_rows_def row_Cons update_rows_def user_stored_def
      project_stored_def references_null_def nullableString_def environment_view_def)


end
