(* ===== verification/PgMigrate.thy ===== *)
theory PgMigrate
  imports SqlSession GoConv
begin

text \<open>
  The migrations the Postgres adapter runs when it opens a database (\<^verbatim>\<open>postgres/migrate.go\<close>):
  every \<^verbatim>\<open>.up.sql\<close> file in the order of the names, each in a transaction together with its row of
  \<^verbatim>\<open>schema_migrations\<close>.  What the SQL of a file does to the schema is a parameter.
\<close>

subsection \<open>The source of the migrations and the server\<close>

text \<open>What \<^verbatim>\<open>os.ReadDir\<close> answers, as names and whether they are directories, and \<^verbatim>\<open>os.ReadFile\<close>.\<close>

record migration_source =
  ms_directory :: string
  ms_entries :: "goerr + (string \<times> bool) list"
  ms_file :: "string \<Rightarrow> goerr + string"

text \<open>
  The server runs SQL on the schema, which does not touch \<^verbatim>\<open>schema_migrations\<close>; the table does not exist
  before the first migration.  \<^verbatim>\<open>strings.ToUpper\<close> on text that is not ASCII is a parameter.
\<close>

record 'd migration_server =
  mv_crypto :: crypto
  mv_run :: "string \<Rightarrow> 'd \<Rightarrow> goerr + 'd"
  mv_upper :: "string \<Rightarrow> string"

record 'd migration_db =
  mg_log :: "(string \<times> string) list option"
  mg_schema :: 'd

abbreviation undefined_table :: goerr where "undefined_table \<equiv> ErrPg ''42P01''"

definition upper_ascii :: "char \<Rightarrow> char" where
  "upper_ascii c = (if 97 \<le> (of_char c :: nat) \<and> of_char c \<le> (122 :: nat)
     then char_of (of_char c - 32 :: nat) else c)"

definition ToUpper :: "'d migration_server \<Rightarrow> string \<Rightarrow> string" where
  "ToUpper V s = (if list_all (\<lambda>c. of_char c < (128 :: nat)) s then map upper_ascii s else mv_upper V s)"

definition stripTransactionWrapper :: "'d migration_server \<Rightarrow> string \<Rightarrow> goerr + string" where
  "stripTransactionWrapper V sql =
     (let trimmed = TrimSpace sql in
      if \<not> HasPrefix (ToUpper V trimmed) ''BEGIN;'' \<or> \<not> HasSuffix (ToUpper V trimmed) ''COMMIT;''
      then Inl (ErrNew ''migration must be wrapped in BEGIN/COMMIT'')
      else (let inner = TrimSpace (drop 6 trimmed)
            in Inr (TrimSpace (take (length inner - 7) inner))))"

subsection \<open>Migrating\<close>

definition migration_names :: "(string \<times> bool) list \<Rightarrow> string list" where
  "migration_names entries =
     sort (map fst (filter (\<lambda>(name, isDir). \<not> isDir \<and> HasSuffix name ''.up.sql'') entries))"

definition file_checksum :: "'d migration_server \<Rightarrow> string \<Rightarrow> string" where
  "file_checksum V body = hex_encode (sha256 (mv_crypto V) body)"

definition create_log :: "'d migration_db \<Rightarrow> goerr + unit \<times> 'd migration_db" where
  "create_log d = Inr ((), d\<lparr>mg_log := Some (case mg_log d of None \<Rightarrow> [] | Some l \<Rightarrow> l)\<rparr>)"

definition stored_checksum :: "string \<Rightarrow> 'd migration_db \<Rightarrow> goerr + string option" where
  "stored_checksum name d =
     (case mg_log d of None \<Rightarrow> Inl undefined_table | Some l \<Rightarrow> Inr (map_of l name))"

definition run_migration ::
  "'d migration_server \<Rightarrow> string \<Rightarrow> 'd migration_db \<Rightarrow> goerr + unit \<times> 'd migration_db" where
  "run_migration V sql d =
     (case mv_run V sql (mg_schema d) of Inl e \<Rightarrow> Inl e | Inr x \<Rightarrow> Inr ((), d\<lparr>mg_schema := x\<rparr>))"

definition record_migration :: "string \<Rightarrow> string \<Rightarrow> 'd migration_db \<Rightarrow> goerr + unit \<times> 'd migration_db" where
  "record_migration name checksum d =
     (case mg_log d of
        None \<Rightarrow> Inl undefined_table
      | Some l \<Rightarrow> if map_of l name \<noteq> None then Inl unique_violation
                  else Inr ((), d\<lparr>mg_log := Some (l @ [(name, checksum)])\<rparr>))"

text \<open>A transaction whose failing commit gets a prefix of its own, unlike its failing begin.\<close>

definition named_tx :: "string \<Rightarrow> ('d session, 'a) op \<Rightarrow> ('d session, 'a) op" where
  "named_tx msg body s0 =
     (case next_outcome s0 of
        (Completes, s) \<Rightarrow>
          (case body s of
             (s', Inl e) \<Rightarrow> (s'\<lparr>ss_db := ss_db s\<rparr>, Inl e)
           | (s', Inr x) \<Rightarrow>
               (case next_outcome s' of
                  (Completes, s2) \<Rightarrow> (s2, Inr x)
                | (Fails e, s2) \<Rightarrow> (s2\<lparr>ss_db := ss_db s\<rparr>, Inl (ErrWrap msg e))
                | (LosesReply e, s2) \<Rightarrow> (s2, Inl (ErrWrap msg e))))
      | (Fails e, s) \<Rightarrow> (s, Inl e)
      | (LosesReply e, s) \<Rightarrow> (s, Inl e))"

definition apply_migration ::
  "'d migration_server \<Rightarrow> string \<Rightarrow> string \<Rightarrow> string \<Rightarrow> ('d migration_db session, unit) op" where
  "apply_migration V name body checksum =
     named_tx (''commit migration '' @ name)
       (case stripTransactionWrapper V body of
          Inl e \<Rightarrow> raise (ErrWrap (''prepare migration '' @ name) e)
        | Inr sql \<Rightarrow>
            chain (wrapping (''apply migration '' @ name) (exec (\<lambda>now. run_migration V sql))) (\<lambda>_.
            wrapping (''record migration '' @ name) (exec (\<lambda>now. record_migration name checksum))))"

text \<open>One round of the loop.\<close>

definition migrate_file ::
  "'d migration_server \<Rightarrow> migration_source \<Rightarrow> string \<Rightarrow> ('d migration_db session, unit) op" where
  "migrate_file V M name =
     (case ms_file M name of
        Inl e \<Rightarrow> raise e
      | Inr body \<Rightarrow>
          (let checksum = file_checksum V body in
           chain (wrapping (''read migration state '' @ name) (query (\<lambda>now. stored_checksum name))) (\<lambda>stored.
           case stored of
             Some c \<Rightarrow> if c \<noteq> checksum
                       then raise (ErrFmt ''migration %s checksum changed after application'' [name])
                       else give ()
           | None \<Rightarrow> apply_migration V name body checksum)))"

text \<open>
  Taking a connection, the advisory lock and releasing it are round trips without an effect on the
  tables; \<^verbatim>\<open>defer\<close> releases the lock on every path after it was taken and ignores the outcome.
\<close>

definition round_trip :: "('d session, unit) op" where
  "round_trip = exec (\<lambda>now d. Inr ((), d))"

definition deferring :: "('s, unit) op \<Rightarrow> ('s, 'a) op \<Rightarrow> ('s, 'a) op" where
  "deferring cleanup m s = (case m s of (s', x) \<Rightarrow> (fst (cleanup s'), x))"

definition migrate ::
  "'d migration_server \<Rightarrow> migration_source \<Rightarrow> ('d migration_db session, unit) op" where
  "migrate V M =
     (case ms_entries M of
        Inl e \<Rightarrow> raise (ErrWrap (''read migrations directory '' @ ms_directory M) e)
      | Inr entries \<Rightarrow>
          chain round_trip (\<lambda>_. chain round_trip (\<lambda>_.
          deferring round_trip
            (chain (exec (\<lambda>now. create_log)) (\<lambda>_.
             for_each (migrate_file V M) (migration_names entries))))))"

subsection \<open>What a computation does to the database\<close>

text \<open>
  A computation \<open>yields\<close> an effect when its successes have the effect and a driver without failures
  makes it succeed where the effect is defined; it is \<open>undivided\<close> when moreover its failures have either
  the whole effect or none.
\<close>

definition yields :: "('d session, 'a) op \<Rightarrow> ('d \<Rightarrow> 'd option) \<Rightarrow> bool" where
  "yields m f \<longleftrightarrow>
     (\<forall>s s' x. m s = (s', Inr x) \<longrightarrow> f (ss_db s) = Some (ss_db s')) \<and>
     (\<forall>s. ss_driver s = [] \<longrightarrow> ss_driver (fst (m s)) = [] \<and>
        (f (ss_db s) \<noteq> None \<longrightarrow> (\<exists>x. snd (m s) = Inr x)))"

definition undivided :: "('d session, 'a) op \<Rightarrow> ('d \<Rightarrow> 'd option) \<Rightarrow> bool" where
  "undivided m f \<longleftrightarrow> yields m f \<and>
     (\<forall>s s' e. m s = (s', Inl e) \<longrightarrow> ss_db s' = ss_db s \<or> f (ss_db s) = Some (ss_db s'))"

lemma yieldsD:
  assumes "yields m f"
  shows "m s = (s', Inr x) \<Longrightarrow> f (ss_db s) = Some (ss_db s')"
    and "ss_driver s = [] \<Longrightarrow> ss_driver (fst (m s)) = []"
    and "ss_driver s = [] \<Longrightarrow> f (ss_db s) = Some d \<Longrightarrow> \<exists>s' x. m s = (s', Inr x) \<and> ss_db s' = d"
proof -
  show first: "m s = (s', Inr x) \<Longrightarrow> f (ss_db s) = Some (ss_db s')" for s s' x
    using assms unfolding yields_def by blast
  show "ss_driver s = [] \<Longrightarrow> ss_driver (fst (m s)) = []"
    using assms unfolding yields_def by blast
  assume s: "ss_driver s = []" "f (ss_db s) = Some d"
  then obtain x where "snd (m s) = Inr x"
    using assms unfolding yields_def by fastforce
  then have "m s = (fst (m s), Inr x)"
    by (metis prod.collapse)
  with first [OF this] s(2) show "\<exists>s' x. m s = (s', Inr x) \<and> ss_db s' = d" by auto
qed

lemma undivided_yields: "undivided m f \<Longrightarrow> yields m f"
  by (simp add: undivided_def)

lemma undividedD: "undivided m f \<Longrightarrow> m s = (s', Inl e) \<Longrightarrow> ss_db s' = ss_db s \<or> f (ss_db s) = Some (ss_db s')"
  unfolding undivided_def by blast

lemma yields_exec:
  "(\<And>d. f d = (case g d of Inl e \<Rightarrow> None | Inr (x, d') \<Rightarrow> Some d')) \<Longrightarrow> yields (exec (\<lambda>now. g)) f"
  unfolding yields_def exec_def
  by (auto dest: next_outcome_fields split: prod.splits outcome.splits sum.splits)

lemma undivided_exec:
  assumes "\<And>d. f d = (case g d of Inl e \<Rightarrow> None | Inr (x, d') \<Rightarrow> Some d')"
  shows "undivided (exec (\<lambda>now. g)) f"
proof -
  have "ss_db s' = ss_db s \<or> f (ss_db s) = Some (ss_db s')" if "exec (\<lambda>now. g) s = (s', Inl e)" for s s' e
    using that assms
    by (auto simp: exec_def dest: next_outcome_fields split: prod.splits outcome.splits sum.splits)
  moreover have "yields (exec (\<lambda>now. g)) f"
    using assms by (rule yields_exec)
  ultimately show ?thesis
    unfolding undivided_def by blast
qed

lemma yields_raise: "yields (raise e) (\<lambda>d. None)"
  by (simp add: yields_def raise_def)

lemma yields_wrapping:
  assumes "yields m f"
  shows "yields (wrapping msg m) f"
proof -
  have "fst (wrapping msg m s) = fst (m s)" "wrapping msg m s = (s', Inr x) \<longleftrightarrow> m s = (s', Inr x)"
      "(\<exists>x. snd (wrapping msg m s) = Inr x) \<longleftrightarrow> (\<exists>x. snd (m s) = Inr x)" for s s' x
    by (auto simp: wrapping_def split: prod.splits sum.splits)
  with assms show ?thesis
    by (simp add: yields_def)
qed

lemma yields_chain:
  assumes m: "yields m f" and k: "\<And>x. yields (k x) g"
  shows "yields (chain m k) (\<lambda>d. case f d of None \<Rightarrow> None | Some d' \<Rightarrow> g d')" (is "yields _ ?h")
  unfolding yields_def
proof (intro conjI allI impI)
  fix s s' x
  assume "chain m k s = (s', Inr x)"
  then obtain s1 y where "m s = (s1, Inr y)" "k y s1 = (s', Inr x)"
    by (auto simp: chain_def split: prod.splits sum.splits)
  with yieldsD(1) [OF m] yieldsD(1) [OF k] show "?h (ss_db s) = Some (ss_db s')"
    by fastforce
next
  fix s :: "'a session"
  assume s: "ss_driver s = []"
  obtain s1 y where run: "m s = (s1, y)" by fastforce
  then have "ss_driver s1 = []"
    using yieldsD(2) [OF m s] by simp
  with run yieldsD(2) [OF k] show "ss_driver (fst (chain m k s)) = []"
    by (cases y) (simp_all add: chain_def)
next
  fix s :: "'a session"
  assume s: "ss_driver s = []" and "?h (ss_db s) \<noteq> None"
  then obtain d1 d2 where d: "f (ss_db s) = Some d1" "g d1 = Some d2"
    by (auto split: option.splits)
  obtain s1 y where y: "m s = (s1, Inr y)" "ss_db s1 = d1"
    using yieldsD(3) [OF m s d(1)] by blast
  moreover have "ss_driver s1 = []"
    using yieldsD(2) [OF m s] y(1) by simp
  ultimately obtain s2 z where "k y s1 = (s2, Inr z)"
    using yieldsD(3) [OF k] d(2) by metis
  with y(1) show "\<exists>x. snd (chain m k s) = Inr x"
    by (simp add: chain_def)
qed

lemma undivided_named_tx:
  assumes b: "yields body f"
  shows "undivided (named_tx msg body) f"
proof -
  have "f (ss_db s) = Some (ss_db s')" if run: "named_tx msg body s = (s', Inr x)" for s s' x
  proof -
    obtain c s1 where n: "next_outcome s = (c, s1)" by fastforce
    with run obtain s2 c2 where c: "c = Completes" "body s1 = (s2, Inr x)" "next_outcome s2 = (c2, s')"
      by (auto simp: named_tx_def split: outcome.splits prod.splits sum.splits)
    with yieldsD(1) [OF b c(2)] next_outcome_fields [OF n] next_outcome_fields [OF c(3)] show ?thesis by simp
  qed
  moreover have "ss_db s' = ss_db s \<or> f (ss_db s) = Some (ss_db s')"
    if run: "named_tx msg body s = (s', Inl e)" for s s' e
  proof -
    obtain c s1 where n: "next_outcome s = (c, s1)" by fastforce
    obtain s2 y where body: "body s1 = (s2, y)" by fastforce
    obtain c2 s3 where n2: "next_outcome s2 = (c2, s3)" by fastforce
    show ?thesis
    proof (cases y)
      case (Inr x)
      with yieldsD(1) [OF b] body have "f (ss_db s1) = Some (ss_db s2)" by blast
      with run n n2 body Inr next_outcome_fields [OF n] next_outcome_fields [OF n2] show ?thesis
        by (cases c; cases c2) (auto simp: named_tx_def)
    next
      case (Inl e')
      with run n body next_outcome_fields [OF n] show ?thesis
        by (cases c) (auto simp: named_tx_def)
    qed
  qed
  moreover have "ss_driver (fst (named_tx msg body s)) = [] \<and>
      (f (ss_db s) \<noteq> None \<longrightarrow> (\<exists>x. snd (named_tx msg body s) = Inr x))" if s: "ss_driver s = []" for s
  proof -
    have n: "next_outcome s = (Completes, s)"
      using s by (simp add: next_outcome_def)
    obtain s1 y where body: "body s = (s1, y)" by fastforce
    then have s1: "ss_driver s1 = []"
      using yieldsD(2) [OF b s] by simp
    then have n1: "next_outcome s1 = (Completes, s1)"
      by (simp add: next_outcome_def)
    have "f (ss_db s) \<noteq> None \<Longrightarrow> \<exists>x. y = Inr x"
      using yieldsD(3) [OF b s] body by auto
    with s1 n n1 body show ?thesis
      by (cases y; cases "f (ss_db s)") (auto simp: named_tx_def)
  qed
  ultimately show ?thesis
    unfolding undivided_def yields_def by blast
qed

text \<open>A read, and then what it decides on.\<close>

lemma undivided_query:
  assumes k: "\<And>x. undivided (k x) (f x)"
  shows "undivided (chain (wrapping msg (query (\<lambda>now. g))) k)
    (\<lambda>d. case g d of Inl e \<Rightarrow> None | Inr x \<Rightarrow> f x d)" (is "undivided ?m ?h")
proof -
  have read: "(\<exists>e s1. ?m s = (s1, Inl e) \<and> ss_db s1 = ss_db s \<and>
        (ss_driver s = [] \<longrightarrow> ss_driver s1 = [] \<and> (\<exists>e. g (ss_db s) = Inl e))) \<or>
      (\<exists>x s1. g (ss_db s) = Inr x \<and> ?m s = k x s1 \<and> ss_db s1 = ss_db s \<and>
        (ss_driver s = [] \<longrightarrow> ss_driver s1 = []))" for s
  proof -
    obtain c s1 where n: "next_outcome s = (c, s1)" by fastforce
    note s1 = next_outcome_fields [OF n]
    show ?thesis
      using n s1 by (cases c; cases "g (ss_db s)")
        (auto simp: chain_def wrapping_def query_def exec_def next_outcome_def split: list.splits)
  qed
  show ?thesis
    unfolding undivided_def yields_def
  proof (intro conjI allI impI)
    fix s s' x
    assume "?m s = (s', Inr x)"
    with read [of s] yieldsD(1) [OF undivided_yields [OF k]] show "?h (ss_db s) = Some (ss_db s')"
      by fastforce
  next
    fix s :: "'b session"
    assume "ss_driver s = []"
    with read [of s] yieldsD(2) [OF undivided_yields [OF k]] show "ss_driver (fst (?m s)) = []"
      by fastforce
  next
    fix s :: "'b session"
    assume s: "ss_driver s = []" "?h (ss_db s) \<noteq> None"
    then obtain x d where x: "g (ss_db s) = Inr x" "f x (ss_db s) = Some d"
      by (auto split: sum.splits)
    with read [of s] s(1) obtain s1 where "?m s = k x s1" "ss_db s1 = ss_db s" "ss_driver s1 = []"
      by auto
    with yieldsD(3) [OF undivided_yields [OF k], of s1 x d] x show "\<exists>y. snd (?m s) = Inr y"
      by auto
  next
    fix s s' e
    assume "?m s = (s', Inl e)"
    with read [of s] undividedD [OF k] show "ss_db s' = ss_db s \<or> ?h (ss_db s) = Some (ss_db s')"
      by fastforce
  qed
qed

subsection \<open>The effect of a file\<close>

definition migration_effect ::
  "'d migration_server \<Rightarrow> string \<Rightarrow> string \<Rightarrow> string \<Rightarrow> 'd migration_db \<Rightarrow> 'd migration_db option" where
  "migration_effect V name body checksum d =
     (case (stripTransactionWrapper V body, mg_log d) of
        (Inr sql, Some l) \<Rightarrow>
          (case mv_run V sql (mg_schema d) of
             Inl e \<Rightarrow> None
           | Inr x \<Rightarrow> if map_of l name \<noteq> None then None
                      else Some (d\<lparr>mg_schema := x, mg_log := Some (l @ [(name, checksum)])\<rparr>))
      | _ \<Rightarrow> None)"

definition file_effect ::
  "'d migration_server \<Rightarrow> migration_source \<Rightarrow> string \<Rightarrow> 'd migration_db \<Rightarrow> 'd migration_db option" where
  "file_effect V M name d =
     (case ms_file M name of
        Inl e \<Rightarrow> None
      | Inr body \<Rightarrow>
          (case stored_checksum name d of
             Inl e \<Rightarrow> None
           | Inr (Some c) \<Rightarrow> if c = file_checksum V body then Some d else None
           | Inr None \<Rightarrow> migration_effect V name body (file_checksum V body) d))"

lemma apply_undivided: "undivided (apply_migration V name body checksum) (migration_effect V name body checksum)"
proof (cases "stripTransactionWrapper V body")
  case (Inl e)
  then have "migration_effect V name body checksum = (\<lambda>d. None)"
    by (simp add: fun_eq_iff migration_effect_def)
  with Inl show ?thesis
    by (simp add: apply_migration_def undivided_named_tx yields_raise)
next
  case (Inr sql)
  let ?run = "\<lambda>d. case run_migration V sql d of Inl e \<Rightarrow> None | Inr (x, d') \<Rightarrow> Some d'"
  let ?note = "\<lambda>d. case record_migration name checksum d of Inl e \<Rightarrow> None | Inr (x, d') \<Rightarrow> Some d'"
  have "migration_effect V name body checksum d = (case ?run d of None \<Rightarrow> None | Some d' \<Rightarrow> ?note d')" for d
    by (auto simp: migration_effect_def Inr run_migration_def record_migration_def split: option.split sum.split)
  then have eq: "migration_effect V name body checksum = (\<lambda>d. case ?run d of None \<Rightarrow> None | Some d' \<Rightarrow> ?note d')"
    by (simp only: fun_eq_iff) simp
  show ?thesis
    unfolding apply_migration_def Inr sum.case eq
    by (intro undivided_named_tx yields_chain yields_wrapping yields_exec refl)
qed

lemma migrate_file_undivided: "undivided (migrate_file V M name) (file_effect V M name)"
proof (cases "ms_file M name")
  case (Inl e)
  then have "file_effect V M name = (\<lambda>d. None)" "migrate_file V M name = raise e"
    by (simp_all add: fun_eq_iff file_effect_def migrate_file_def)
  then show ?thesis
    using yields_raise [of e] by (auto simp: undivided_def raise_def)
next
  case (Inr body)
  let ?k = "\<lambda>stored. case stored of
      Some c \<Rightarrow> if c \<noteq> file_checksum V body
                then raise (ErrFmt ''migration %s checksum changed after application'' [name]) else give ()
    | None \<Rightarrow> apply_migration V name body (file_checksum V body)"
  let ?f = "\<lambda>stored d. case stored of
      Some c \<Rightarrow> if c = file_checksum V body then Some d else None
    | None \<Rightarrow> migration_effect V name body (file_checksum V body) d"
  have k: "undivided (?k x) (?f x)" for x
    using apply_undivided [of V name body]
    by (cases x) (auto simp: undivided_def yields_def raise_def give_def)
  have "file_effect V M name = (\<lambda>d. case stored_checksum name d of Inl e \<Rightarrow> None | Inr x \<Rightarrow> ?f x d)"
    by (simp add: fun_eq_iff file_effect_def Inr split: sum.split option.split)
  with undivided_query [where k = ?k and f = ?f and g = "stored_checksum name", OF k] Inr show ?thesis
    by (simp add: migrate_file_def Let_def)
qed

subsection \<open>The effect of the loop\<close>

fun files_effect ::
  "'d migration_server \<Rightarrow> migration_source \<Rightarrow> string list \<Rightarrow> 'd migration_db \<Rightarrow> 'd migration_db option" where
  "files_effect V M [] d = Some d"
| "files_effect V M (name # names) d =
     (case file_effect V M name d of None \<Rightarrow> None | Some d' \<Rightarrow> files_effect V M names d')"

text \<open>However the loop ends, the effect of some first files is in the database.\<close>

lemma loop_prefix:
  assumes "for_each (migrate_file V M) names s = (s', x)"
  shows "\<exists>first rest. names = first @ rest \<and> files_effect V M first (ss_db s) = Some (ss_db s') \<and>
    (x = Inr () \<longrightarrow> rest = [])"
  using assms
proof (induction names arbitrary: s)
  case Nil
  then show ?case by (simp add: give_def)
next
  case (Cons name names)
  obtain s1 y where y: "migrate_file V M name s = (s1, y)" by fastforce
  note w = migrate_file_undivided [of V M name]
  show ?case
  proof (cases y)
    case (Inl e)
    then have stop: "s' = s1" "x = Inl e"
      using Cons.prems y by (simp_all add: chain_def)
    from undividedD [OF w] y Inl have "ss_db s1 = ss_db s \<or> file_effect V M name (ss_db s) = Some (ss_db s1)"
      by blast
    then show ?thesis
    proof
      assume "ss_db s1 = ss_db s"
      with stop show ?thesis by (intro exI [of _ "[]"] exI [of _ "name # names"]) simp
    next
      assume "file_effect V M name (ss_db s) = Some (ss_db s1)"
      with stop show ?thesis by (intro exI [of _ "[name]"] exI [of _ names]) simp
    qed
  next
    case (Inr u)
    then have "for_each (migrate_file V M) names s1 = (s', x)"
      using Cons.prems y by (simp add: chain_def)
    from Cons.IH [OF this] obtain first rest where "names = first @ rest"
        "files_effect V M first (ss_db s1) = Some (ss_db s')" "x = Inr () \<longrightarrow> rest = []"
      by blast
    moreover have "file_effect V M name (ss_db s) = Some (ss_db s1)"
      using yieldsD(1) [OF undivided_yields [OF w]] y Inr by blast
    ultimately show ?thesis
      by (intro exI [of _ "name # first"] exI [of _ rest]) simp
  qed
qed

lemma loop_reliable:
  assumes "ss_driver s = []" and "files_effect V M names (ss_db s) = Some d"
  shows "\<exists>s'. for_each (migrate_file V M) names s = (s', Inr ()) \<and> ss_db s' = d"
  using assms
proof (induction names arbitrary: s)
  case Nil
  then show ?case by (simp add: give_def)
next
  case (Cons name names)
  note w = undivided_yields [OF migrate_file_undivided [of V M name]]
  from Cons.prems(2) obtain d1 where d1: "file_effect V M name (ss_db s) = Some d1"
      "files_effect V M names d1 = Some d"
    by (auto split: option.splits)
  obtain s1 y where y: "migrate_file V M name s = (s1, Inr y)" "ss_db s1 = d1"
    using yieldsD(3) [OF w Cons.prems(1) d1(1)] by blast
  then have "ss_driver s1 = []"
    using yieldsD(2) [OF w Cons.prems(1)] by simp
  with Cons.IH [of s1] y d1(2) show ?case
    by (simp add: chain_def)
qed

subsection \<open>What a file leaves behind\<close>

text \<open>A file that is on record under its checksum.\<close>

definition on_record :: "'d migration_server \<Rightarrow> migration_source \<Rightarrow> 'd migration_db \<Rightarrow> string \<Rightarrow> bool" where
  "on_record V M d name \<longleftrightarrow>
     (\<exists>body l. ms_file M name = Inr body \<and> mg_log d = Some l \<and> map_of l name = Some (file_checksum V body))"

lemma on_record_noop: "on_record V M d name \<Longrightarrow> file_effect V M name d = Some d"
  by (auto simp: on_record_def file_effect_def stored_checksum_def)

lemma file_effect_records:
  assumes "file_effect V M name d = Some d'"
  shows "on_record V M d' name" and "on_record V M d other \<Longrightarrow> on_record V M d' other"
  using assms
  by (auto simp: file_effect_def migration_effect_def on_record_def stored_checksum_def map_add_def
      split: sum.splits option.splits if_splits)

lemma files_effect_records:
  assumes "files_effect V M names d = Some d'"
  shows "name \<in> set names \<Longrightarrow> on_record V M d' name" and "on_record V M d other \<Longrightarrow> on_record V M d' other"
proof -
  have "(\<forall>name \<in> set names. on_record V M d' name) \<and> (\<forall>other. on_record V M d other \<longrightarrow> on_record V M d' other)"
    using assms
  proof (induction names arbitrary: d)
    case (Cons n names)
    from Cons.prems obtain d1 where d1: "file_effect V M n d = Some d1" "files_effect V M names d1 = Some d'"
      by (auto split: option.splits)
    with Cons.IH [OF d1(2)] file_effect_records [OF d1(1)] show ?case by auto
  qed simp
  then show "name \<in> set names \<Longrightarrow> on_record V M d' name" "on_record V M d other \<Longrightarrow> on_record V M d' other"
    by blast+
qed

lemma files_effect_noop: "\<forall>name \<in> set names. on_record V M d name \<Longrightarrow> files_effect V M names d = Some d"
  by (induction names) (simp_all add: on_record_noop)

lemma files_effect_append:
  "files_effect V M (first @ rest) d =
     (case files_effect V M first d of None \<Rightarrow> None | Some d' \<Rightarrow> files_effect V M rest d')"
  by (induction first arbitrary: d) (simp_all split: option.split)

text \<open>Files done once are skipped.\<close>

lemma files_effect_resumes:
  assumes "files_effect V M (first @ rest) d = Some d2" and "files_effect V M first d = Some d1"
  shows "files_effect V M (first @ rest) d1 = Some d2"
proof -
  have "files_effect V M first d1 = Some d1"
    using files_effect_records(1) [OF assms(2)] by (intro files_effect_noop) blast
  with assms show ?thesis
    by (simp add: files_effect_append)
qed

lemma files_effect_log: "files_effect V M names d = Some d' \<Longrightarrow> mg_log d \<noteq> None \<Longrightarrow> mg_log d' \<noteq> None"
proof (induction names arbitrary: d)
  case (Cons n names)
  then obtain d1 where d1: "file_effect V M n d = Some d1" "files_effect V M names d1 = Some d'"
    by (auto split: option.splits)
  with file_effect_records(1) [OF d1(1)] Cons show ?case
    by (auto simp: on_record_def)
qed simp

subsection \<open>Opening the database again and again\<close>

definition created :: "'d migration_db \<Rightarrow> 'd migration_db" where
  "created d = d\<lparr>mg_log := Some (case mg_log d of None \<Rightarrow> [] | Some l \<Rightarrow> l)\<rparr>"

lemma created_log [simp]: "mg_log (created d) \<noteq> None" "mg_log d \<noteq> None \<Longrightarrow> created d = d"
  by (auto simp: created_def)

lemma deferring_round_trip:
  "ss_db (fst (deferring round_trip m s)) = ss_db (fst (m s)) \<and> snd (deferring round_trip m s) = snd (m s)"
proof -
  have "ss_db (fst (round_trip s1)) = ss_db s1" for s1 :: "'a session"
    by (auto simp: round_trip_def exec_def dest: next_outcome_fields split: prod.split outcome.split)
  then show ?thesis
    by (simp add: deferring_def split: prod.split)
qed

lemma round_trip_cases:
  obtains e s1 where "round_trip s = (s1, Inl e)" "ss_db s1 = ss_db s" "ss_driver s \<noteq> []"
  | s1 where "round_trip s = (s1, Inr ())" "ss_db s1 = ss_db s" "ss_driver s = [] \<longrightarrow> ss_driver s1 = []"
proof -
  obtain c s1 where n: "next_outcome s = (c, s1)" by fastforce
  with next_outcome_fields [OF n] that show thesis
    by (cases c) (auto simp: round_trip_def exec_def)
qed

text \<open>Any run leaves the database as it was or with some first files done.\<close>

lemma migrate_prefix:
  assumes run: "migrate V M s = (s', x)"
  shows "ss_db s' = ss_db s \<and> x \<noteq> Inr () \<or>
    (\<exists>entries first rest. ms_entries M = Inr entries \<and> migration_names entries = first @ rest \<and>
      files_effect V M first (created (ss_db s)) = Some (ss_db s') \<and> (x = Inr () \<longrightarrow> rest = []))"
proof (cases "ms_entries M")
  case (Inl e)
  with run show ?thesis by (auto simp: migrate_def raise_def)
next
  case (Inr entries)
  let ?loop = "for_each (migrate_file V M) (migration_names entries)"
  let ?body = "chain (exec (\<lambda>now. create_log)) (\<lambda>_. ?loop)"
  have body: "ss_db (fst (?body s1)) = ss_db s1 \<and> snd (?body s1) \<noteq> Inr () \<or>
      (\<exists>first rest. migration_names entries = first @ rest \<and>
        files_effect V M first (created (ss_db s1)) = Some (ss_db (fst (?body s1))) \<and>
        (snd (?body s1) = Inr () \<longrightarrow> rest = []))" for s1
  proof -
    obtain s2 y where c: "exec (\<lambda>now. create_log) s1 = (s2, y)" by fastforce
    have u: "undivided (exec (\<lambda>now. create_log)) (\<lambda>d. Some (created d))"
      by (rule undivided_exec) (simp add: create_log_def created_def)
    show ?thesis
    proof (cases y)
      case (Inl e)
      have "ss_db s2 = ss_db s1 \<or> created (ss_db s1) = ss_db s2"
        using undividedD [OF u] c Inl by (metis option.inject)
      with c Inl show ?thesis
        by (auto simp: chain_def intro: exI [of _ "[]"])
    next
      case (Inr u1)
      have "ss_db s2 = created (ss_db s1)"
        using yieldsD(1) [OF undivided_yields [OF u]] c Inr by (metis option.inject)
      with loop_prefix [of V M "migration_names entries" s2 "fst (?loop s2)" "snd (?loop s2)"] c Inr show ?thesis
        by (simp add: chain_def)
    qed
  qed
  have m: "migrate V M = chain round_trip (\<lambda>_. chain round_trip (\<lambda>_. deferring round_trip ?body))"
    by (simp add: migrate_def Inr)
  show ?thesis
  proof (cases rule: round_trip_cases [of s])
    case (1 e s1)
    with run show ?thesis by (auto simp: m chain_def)
  next
    case (2 s1)
    show ?thesis
    proof (cases rule: round_trip_cases [of s1])
      case (1 e s2)
      with run 2 show ?thesis by (auto simp: m chain_def)
    next
      case second: (2 s2)
      then have "migrate V M s = deferring round_trip ?body s2"
        using 2 by (simp add: m chain_def)
      with run deferring_round_trip [of ?body s2] body [of s2] 2 second Inr show ?thesis by simp
    qed
  qed
qed

lemma migrate_reliable:
  assumes s: "ss_driver s = []" and "ms_entries M = Inr entries"
    and "files_effect V M (migration_names entries) (created (ss_db s)) = Some d"
  shows "\<exists>s'. migrate V M s = (s', Inr ()) \<and> ss_db s' = d"
proof -
  let ?loop = "for_each (migrate_file V M) (migration_names entries)"
  let ?body = "chain (exec (\<lambda>now. create_log)) (\<lambda>_. ?loop)"
  obtain s1 where s1: "round_trip s = (s1, Inr ())" "ss_db s1 = ss_db s" "ss_driver s1 = []"
    by (cases rule: round_trip_cases [of s]) (use s in auto)
  obtain s2 where s2: "round_trip s1 = (s2, Inr ())" "ss_db s2 = ss_db s" "ss_driver s2 = []"
    by (cases rule: round_trip_cases [of s1]) (use s1 in auto)
  have "?body s2 = ?loop (s2\<lparr>ss_db := created (ss_db s)\<rparr>)"
    using s2 by (simp add: chain_def exec_reliable create_log_def created_def)
  with loop_reliable [of "s2\<lparr>ss_db := created (ss_db s)\<rparr>" V M "migration_names entries" d] s2(3) assms(3)
  have "snd (?body s2) = Inr ()" "ss_db (fst (?body s2)) = d"
    by auto
  with deferring_round_trip [of ?body s2] s1 s2 assms(2) show ?thesis
    by (cases "deferring round_trip ?body s2") (simp add: migrate_def chain_def)
qed

text \<open>The process opens the database, is cut off by the driver, and starts again.\<close>

fun reopened ::
  "'d migration_server \<Rightarrow> migration_source \<Rightarrow> outcome list list \<Rightarrow> 'd migration_db session \<Rightarrow>
   'd migration_db session" where
  "reopened V M [] s = s"
| "reopened V M (os # oss) s = reopened V M oss (fst (migrate V M (s\<lparr>ss_driver := os\<rparr>)))"

lemma reopened_resumes:
  assumes "ms_entries M = Inr entries"
    and "files_effect V M (migration_names entries) (created (ss_db s)) = Some d"
  shows "files_effect V M (migration_names entries) (created (ss_db (reopened V M oss s))) = Some d"
  using assms(2)
proof (induction oss arbitrary: s)
  case (Cons os oss)
  let ?t = "fst (migrate V M (s\<lparr>ss_driver := os\<rparr>))"
  have "files_effect V M (migration_names entries) (created (ss_db ?t)) = Some d"
    using migrate_prefix [OF prod.collapse [symmetric], of V M "s\<lparr>ss_driver := os\<rparr>"]
  proof (elim disjE exE conjE)
    assume "ss_db ?t = ss_db (s\<lparr>ss_driver := os\<rparr>)"
    with Cons.prems show ?thesis by simp
  next
    fix entries' first rest
    assume "ms_entries M = Inr entries'" and names: "migration_names entries' = first @ rest"
      and first: "files_effect V M first (created (ss_db (s\<lparr>ss_driver := os\<rparr>))) = Some (ss_db ?t)"
    then have "entries' = entries"
      using assms(1) by simp
    moreover have "mg_log (ss_db ?t) \<noteq> None"
      using files_effect_log [OF first] by simp
    ultimately show ?thesis
      using files_effect_resumes [of V M first rest "created (ss_db s)" d "ss_db ?t"] Cons.prems names first by simp
  qed
  from Cons.IH [OF this] show ?case by simp
qed simp

text \<open>
  C32. Migrations survive interruptions.  Let opening the database over a driver without failures
  succeed.  If it is instead cut off any number of times, each time anywhere, with replies lost or
  statements failed, then opening it over a good driver still succeeds and ends in the very
  database the uninterrupted run gives, with every \<^verbatim>\<open>.up.sql\<close> file of the directory on record under its
  checksum.
\<close>

theorem migrate_converges:
  assumes "migrate V M (s\<lparr>ss_driver := []\<rparr>) = (t, Inr ())"
  shows "\<exists>u entries. migrate V M ((reopened V M oss s)\<lparr>ss_driver := []\<rparr>) = (u, Inr ()) \<and>
    ss_db u = ss_db t \<and> ms_entries M = Inr entries \<and>
    (\<forall>name \<in> set (migration_names entries). on_record V M (ss_db u) name)"
proof -
  from migrate_prefix [OF assms] obtain entries where entries: "ms_entries M = Inr entries"
    and full: "files_effect V M (migration_names entries) (created (ss_db s)) = Some (ss_db t)"
    by auto
  let ?s = "(reopened V M oss s)\<lparr>ss_driver := []\<rparr>"
  have "files_effect V M (migration_names entries) (created (ss_db ?s)) = Some (ss_db t)"
    using reopened_resumes [OF entries full] by simp
  from migrate_reliable [OF _ entries this] files_effect_records(1) [OF full] entries show ?thesis
    by auto
qed

text \<open>A log that explains a schema: each entry is a file with that checksum whose SQL was run.\<close>

inductive replays :: "'d migration_server \<Rightarrow> 'd \<Rightarrow> (string \<times> string) list \<Rightarrow> 'd \<Rightarrow> bool" for V x where
  replays_Nil: "replays V x [] x"
| replays_snoc: "replays V x l y \<Longrightarrow> stripTransactionWrapper V body = Inr sql \<Longrightarrow> mv_run V sql y = Inr z \<Longrightarrow>
    replays V x (l @ [(name, file_checksum V body)]) z"

definition explained :: "'d migration_server \<Rightarrow> 'd \<Rightarrow> 'd migration_db \<Rightarrow> bool" where
  "explained V x d \<longleftrightarrow>
     (case mg_log d of
        None \<Rightarrow> mg_schema d = x
      | Some l \<Rightarrow> distinct (map fst l) \<and> replays V x l (mg_schema d))"

lemma explained_file: "file_effect V M name d = Some d' \<Longrightarrow> explained V x d \<Longrightarrow> explained V x d'"
  by (auto simp: file_effect_def migration_effect_def stored_checksum_def explained_def map_of_eq_None_iff
      intro: replays_snoc split: sum.splits option.splits if_splits)

lemma explained_files: "files_effect V M names d = Some d' \<Longrightarrow> explained V x d \<Longrightarrow> explained V x d'"
  by (induction names arbitrary: d) (auto intro: explained_file split: option.splits)

lemma explained_created: "explained V x d \<Longrightarrow> explained V x (created d)"
  by (auto simp: explained_def created_def intro: replays_Nil split: option.splits)

text \<open>One start of the program, with the directory as it is then and any driver.\<close>

inductive migration_step :: "'d migration_server \<Rightarrow> 'd migration_db \<Rightarrow> 'd migration_db \<Rightarrow> bool" for V where
  migration_run: "migration_step V (ss_db s) (ss_db (fst (migrate V M s)))"

text \<open>
  C33. The log of migrations tells the truth.  After any number of starts, with directories that may
  change between them and drivers that fail or lose replies at any point, no name is on record
  twice and the schema is exactly the result of running the recorded files once each, in the order
  of the log.
\<close>

theorem migrations_recorded:
  assumes "(migration_step V)\<^sup>*\<^sup>* \<lparr>mg_log = None, mg_schema = x\<rparr> d"
  shows "explained V x d"
  using assms
proof (induction rule: rtranclp_induct)
  case base
  show ?case by (simp add: explained_def)
next
  case (step d d')
  from step.hyps(2) obtain s M where s: "d = ss_db s" "d' = ss_db (fst (migrate V M s))"
    by (auto elim: migration_step.cases)
  from migrate_prefix [OF prod.collapse [symmetric], of V M s] show ?case
  proof (elim disjE exE conjE)
    assume "ss_db (fst (migrate V M s)) = ss_db s"
    with step.IH s show ?thesis by simp
  next
    fix entries first rest
    assume "files_effect V M first (created (ss_db s)) = Some (ss_db (fst (migrate V M s)))"
    from explained_files [OF this explained_created] step.IH s show ?thesis by simp
  qed
qed

subsection \<open>Two files\<close>

definition sample_migrations :: migration_source where
  "sample_migrations =
     \<lparr>ms_directory = ''db/migrations'',
      ms_entries = Inr [(''b.up.sql'', False), (''a.down.sql'', False), (''a.up.sql'', False), (''c.up.sql'', True)],
      ms_file = (\<lambda>name. Inr (if name = ''a.up.sql'' then ''begin; A COMMIT;'' else ''BEGIN; B COMMIT; ''))\<rparr>"

definition sample_schema :: "string list migration_server" where
  "sample_schema =
     \<lparr>mv_crypto = \<lparr>sha256 = (\<lambda>s. take 1 (drop 7 s)), hmac_sha256 = (\<lambda>k m. m)\<rparr>,
      mv_run = (\<lambda>sql x. Inr (x @ [sql])), mv_upper = id\<rparr>"

definition empty_schema :: "string list migration_db session" where
  "empty_schema = \<lparr>ss_db = \<lparr>mg_log = None, mg_schema = []\<rparr>, ss_now = 0, ss_locked = [], ss_driver = []\<rparr>"

definition migrated_schema :: "string list migration_db" where
  "migrated_schema = \<lparr>mg_log = Some [(''a.up.sql'', ''41''), (''b.up.sql'', ''42'')], mg_schema = [''A'', ''B'']\<rparr>"

lemma sample_names:
  "migration_names [(''b.up.sql'', False), (''a.down.sql'', False), (''a.up.sql'', False), (''c.up.sql'', True)] =
     [''a.up.sql'', ''b.up.sql'']"
  by code_simp

lemma sample_stripped:
  "stripTransactionWrapper sample_schema ''begin; A COMMIT;'' = Inr ''A''"
  "stripTransactionWrapper sample_schema ''BEGIN; B COMMIT; '' = Inr ''B''"
  by code_simp+

lemma sample_checksums:
  "file_checksum sample_schema ''begin; A COMMIT;'' = ''41''"
  "file_checksum sample_schema ''BEGIN; B COMMIT; '' = ''42''"
  by code_simp+

lemma sample_parts:
  "mv_run sample_schema sql x = Inr (x @ [sql])"
  "ms_file sample_migrations name =
     Inr (if name = ''a.up.sql'' then ''begin; A COMMIT;'' else ''BEGIN; B COMMIT; '')"
  by (simp_all add: sample_schema_def sample_migrations_def)

lemma sample_migrates:
  "\<exists>t. migrate sample_schema sample_migrations empty_schema = (t, Inr ()) \<and> ss_db t = migrated_schema"
proof (rule migrate_reliable)
  show "files_effect sample_schema sample_migrations
      (migration_names [(''b.up.sql'', False), (''a.down.sql'', False), (''a.up.sql'', False), (''c.up.sql'', True)])
      (created (ss_db empty_schema)) = Some migrated_schema"
    unfolding sample_names
    by (simp add: file_effect_def stored_checksum_def migration_effect_def created_def empty_schema_def
        sample_parts sample_stripped sample_checksums migrated_schema_def)
qed (simp_all add: empty_schema_def sample_migrations_def)

theorem migrate_converges_witness:
  "\<exists>u. migrate sample_schema sample_migrations
      ((reopened sample_schema sample_migrations
          [[Fails ErrNoRows], [Completes, Completes, Completes, Completes, Completes, Completes, Completes, LosesReply ErrNoRows]]
          empty_schema)\<lparr>ss_driver := []\<rparr>) = (u, Inr ()) \<and> ss_db u = migrated_schema"
proof -
  obtain t where t: "migrate sample_schema sample_migrations empty_schema = (t, Inr ())" "ss_db t = migrated_schema"
    using sample_migrates by blast
  have "empty_schema\<lparr>ss_driver := []\<rparr> = empty_schema"
    by (simp add: empty_schema_def)
  with migrate_converges [of sample_schema sample_migrations empty_schema t] t show ?thesis
    by (metis (no_types, lifting))
qed

theorem migrations_recorded_witness:
  "explained sample_schema [] migrated_schema"
proof -
  obtain t where t: "migrate sample_schema sample_migrations empty_schema = (t, Inr ())" "ss_db t = migrated_schema"
    using sample_migrates by blast
  have "migration_step sample_schema (ss_db empty_schema) migrated_schema"
    using migration_run [of sample_schema empty_schema sample_migrations] t by simp
  then show ?thesis
    by (intro migrations_recorded r_into_rtranclp) (simp add: empty_schema_def)
qed

end
