(* ===== verification/Startup.thy ===== *)
theory Startup
  imports StripeService
begin

text \<open>
  The adapter to Stripe's SDK (\<^verbatim>\<open>stripeadapter/client.go\<close>) and what the two programs decide from their
  environment before they serve (\<^verbatim>\<open>cmd/paritylab/main.go\<close>, \<^verbatim>\<open>cmd/worker/main.go\<close>).  The SDK and the
  parsers of URLs and IP addresses are parameters; listening, signals and logging are left out.
\<close>

subsection \<open>The adapter to the SDK\<close>

text \<open>What the SDK does with an API base and a key.\<close>

record 'g stripe_sdk =
  sk_Retrieve :: "string \<Rightarrow> string \<Rightarrow> ('g, string) op"
  sk_Create :: "string \<Rightarrow> string \<Rightarrow> StripePaymentIntentParams \<Rightarrow> ('g, StripePaymentIntent) op"

record StripeClient =
  cl_apiBase :: string

definition productionAPIBase :: string where
  "productionAPIBase = ''https://api.stripe.com''"

definition New_Client :: "string \<Rightarrow> StripeClient" where
  "New_Client apiBase = \<lparr>cl_apiBase = (if apiBase = [] then productionAPIBase else apiBase)\<rparr>"

definition Client_ValidateAccount :: "'g stripe_sdk \<Rightarrow> StripeClient \<Rightarrow> string \<Rightarrow> ('g, string) op" where
  "Client_ValidateAccount K c secret g =
     (case ValidateSandboxSecret secret of
        Some e \<Rightarrow> (g, Inl e)
      | None \<Rightarrow> sk_Retrieve K (cl_apiBase c) secret g)"

definition Client_CreatePaymentIntent ::
  "'g stripe_sdk \<Rightarrow> StripeClient \<Rightarrow> string \<Rightarrow> StripePaymentIntentParams \<Rightarrow> ('g, StripePaymentIntent) op" where
  "Client_CreatePaymentIntent K c secret input g =
     (case ValidateSandboxSecret secret of
        Some e \<Rightarrow> (g, Inl e)
      | None \<Rightarrow> sk_Create K (cl_apiBase c) secret input g)"

definition client_gateway :: "'g stripe_sdk \<Rightarrow> StripeClient \<Rightarrow> 'g StripeGateway" where
  "client_gateway K c =
     \<lparr>gw_ValidateAccount = Client_ValidateAccount K c, gw_CreatePaymentIntent = Client_CreatePaymentIntent K c\<rparr>"

subsection \<open>The environment\<close>

text \<open>\<^verbatim>\<open>os.Getenv\<close> gives the empty text for a variable that is not set.\<close>

type_synonym environ = "string \<Rightarrow> string"

definition envOr :: "environ \<Rightarrow> string \<Rightarrow> string \<Rightarrow> string" where
  "envOr env key fallback = (if env key \<noteq> [] then env key else fallback)"

record url =
  ur_Scheme :: string
  ur_Host :: string
  ur_Hostname :: string

text \<open>\<^verbatim>\<open>url.Parse\<close>, \<^verbatim>\<open>net.ParseIP\<close> and \<^verbatim>\<open>IP.IsLoopback\<close>.\<close>

record startup_host =
  su_Parse :: "string \<Rightarrow> goerr + url"
  su_ParseIP :: "string \<Rightarrow> string option"
  su_IsLoopback :: "string \<Rightarrow> bool"

definition configuredCookiePolicy :: "startup_host \<Rightarrow> environ \<Rightarrow> string \<Rightarrow> goerr + bool" where
  "configuredCookiePolicy H env webOrigin =
     (if env ''PARITYLAB_INSECURE_COOKIES'' \<noteq> ''true'' then Inr False
      else
        (let refused = Inl (ErrNew ''PARITYLAB_INSECURE_COOKIES requires an absolute loopback HTTP WEB_ORIGIN'')
         in case su_Parse H webOrigin of
              Inl e \<Rightarrow> refused
            | Inr parsed \<Rightarrow>
                if ur_Scheme parsed \<noteq> ''http'' \<or> ur_Hostname parsed = [] then refused
                else (let host = ur_Hostname parsed
                      in if host = ''localhost'' then Inr True
                         else (case su_ParseIP H host of
                                 None \<Rightarrow> Inl (ErrNew ''PARITYLAB_INSECURE_COOKIES is allowed only for a loopback WEB_ORIGIN'')
                               | Some ip \<Rightarrow>
                                   if \<not> su_IsLoopback H ip
                                   then Inl (ErrNew ''PARITYLAB_INSECURE_COOKIES is allowed only for a loopback WEB_ORIGIN'')
                                   else Inr True))))"

text \<open>\<^verbatim>\<open>strings.TrimRight(value, "/")\<close>\<close>

definition trim_slashes :: "string \<Rightarrow> string" where
  "trim_slashes s = rev (dropWhile (\<lambda>c. c = CHR ''/'') (rev s))"

definition configuredStripeAPIBase :: "startup_host \<Rightarrow> environ \<Rightarrow> goerr + string" where
  "configuredStripeAPIBase H env =
     (let value = TrimSpace (env ''STRIPE_API_BASE'')
      in if value = [] then Inr []
         else if env ''PARITYLAB_ALLOW_STRIPE_MOCK'' \<noteq> ''true''
         then Inl (ErrNew ''STRIPE_API_BASE requires PARITYLAB_ALLOW_STRIPE_MOCK=true'')
         else (case su_Parse H value of
                 Inl e \<Rightarrow> Inl (ErrNew ''STRIPE_API_BASE must be an absolute HTTP(S) URL'')
               | Inr parsed \<Rightarrow>
                   if ur_Host parsed = [] \<or> ur_Scheme parsed \<noteq> ''http'' \<and> ur_Scheme parsed \<noteq> ''https''
                   then Inl (ErrNew ''STRIPE_API_BASE must be an absolute HTTP(S) URL'')
                   else Inr (trim_slashes value)))"

definition validateSandboxKey :: "string \<Rightarrow> goerr option" where
  "validateSandboxKey key =
     (if list_ex (\<lambda>prefix. HasPrefix (TrimSpace key) prefix) [''sk_live_'', ''rk_live_'', ''pk_live_'']
      then Some (ErrNew ''refusing to start with a live Stripe key'') else None)"

subsection \<open>Starting the API\<close>

text \<open>Where accounts are kept: nowhere without a cipher, else where the runs are.\<close>

datatype account_place = NoAccounts | AccountsInMemory | AccountsInPostgres

record api_settings =
  ap_postgres :: bool
  ap_cipher :: "Cipher option"
  ap_stripe :: StripeClient
  ap_accounts :: account_place
  ap_webOrigin :: string
  ap_webhookSecret :: string
  ap_endpointToken :: string
  ap_insecureCookies :: bool
  ap_address :: string

text \<open>
  \<^verbatim>\<open>run\<close> up to the server it starts.  \<open>opened\<close> is how opening a database with a directory of
  migrations ends, \<open>seeded\<close> how starting the service on the repository does.
\<close>

definition api_run ::
  "crypto \<Rightarrow> startup_host \<Rightarrow> environ \<Rightarrow> (string \<Rightarrow> string \<Rightarrow> goerr option) \<Rightarrow> (bool \<Rightarrow> goerr option) \<Rightarrow>
   goerr + api_settings" where
  "api_run C H env opened seeded =
     (case validateSandboxKey (env ''STRIPE_SECRET_KEY'') of
        Some e \<Rightarrow> Inl e
      | None \<Rightarrow>
     (let databaseURL = env ''DATABASE_URL''; postgres = databaseURL \<noteq> [] in
      case (if postgres then opened databaseURL (envOr env ''PARITYLAB_MIGRATIONS_DIR'' ''db/migrations'')
            else None) of
        Some e \<Rightarrow> Inl e
      | None \<Rightarrow>
     (case seeded postgres of
        Some e \<Rightarrow> Inl e
      | None \<Rightarrow>
     (let encryptionKey = env ''PARITYLAB_ENCRYPTION_KEY'' in
      case (if encryptionKey = [] then Inr None
            else case New_Cipher C encryptionKey of Inl e \<Rightarrow> Inl e | Inr c \<Rightarrow> Inr (Some c)) of
        Inl e \<Rightarrow> Inl e
      | Inr cipher \<Rightarrow>
     (case configuredStripeAPIBase H env of
        Inl e \<Rightarrow> Inl e
      | Inr stripeBase \<Rightarrow>
     (let webOrigin = envOr env ''WEB_ORIGIN'' ''http://127.0.0.1:3000'' in
      case configuredCookiePolicy H env webOrigin of
        Inl e \<Rightarrow> Inl e
      | Inr insecureCookies \<Rightarrow>
          Inr \<lparr>ap_postgres = postgres, ap_cipher = cipher, ap_stripe = New_Client stripeBase,
               ap_accounts = (if cipher = None then NoAccounts
                              else if postgres then AccountsInPostgres else AccountsInMemory),
               ap_webOrigin = webOrigin,
               ap_webhookSecret = envOr env ''STRIPE_WEBHOOK_SECRET'' ''whsec_paritylab_demo'',
               ap_endpointToken = envOr env ''STRIPE_ENDPOINT_TOKEN'' ''demo'',
               ap_insecureCookies = insecureCookies,
               ap_address = envOr env ''API_ADDRESS'' '':8080''\<rparr>))))))"

record http_timeouts =
  ht_ReadHeader :: duration
  ht_Read :: duration
  ht_Write :: duration
  ht_Idle :: duration

definition newHTTPServer :: http_timeouts where
  "newHTTPServer = \<lparr>ht_ReadHeader = 5 * Second, ht_Read = 10 * Second, ht_Write = 15 * Second, ht_Idle = 60 * Second\<rparr>"

subsection \<open>Starting the worker\<close>

text \<open>The signer and the name of the worker; \<open>process\<close> is host name and process number.\<close>

definition worker_run ::
  "environ \<Rightarrow> (string \<Rightarrow> string \<Rightarrow> goerr option) \<Rightarrow> string \<times> int \<Rightarrow> goerr + Signer \<times> string" where
  "worker_run env opened process =
     (let databaseURL = env ''DATABASE_URL'' in
      if databaseURL = [] then Inl (ErrNew ''DATABASE_URL is required for the durable worker'')
      else (case NewSigner (env ''PARITYLAB_SIGNING_SECRET'') of
              Inl e \<Rightarrow> Inl e
            | Inr signer \<Rightarrow>
                (case opened databaseURL (envOr env ''PARITYLAB_MIGRATIONS_DIR'' ''db/migrations'') of
                   Some e \<Rightarrow> Inl e
                 | None \<Rightarrow> Inr (signer, envOr env ''PARITYLAB_WORKER_ID''
                     (fst process @ ''-'' @ fmt_d (snd process))))))"

subsection \<open>What a started program may do\<close>

lemma cookies_policy:
  "configuredCookiePolicy H env webOrigin = Inr True \<longleftrightarrow>
     env ''PARITYLAB_INSECURE_COOKIES'' = ''true'' \<and>
     (\<exists>u. su_Parse H webOrigin = Inr u \<and> ur_Scheme u = ''http'' \<and> ur_Hostname u \<noteq> [] \<and>
        (ur_Hostname u = ''localhost'' \<or>
         (\<exists>ip. su_ParseIP H (ur_Hostname u) = Some ip \<and> su_IsLoopback H ip)))"
  by (auto simp: configuredCookiePolicy_def Let_def split: sum.splits option.splits if_splits)

lemma trim_slashes_end: "trim_slashes s \<noteq> [] \<Longrightarrow> last (trim_slashes s) \<noteq> CHR ''/''"
  using hd_dropWhile [of "\<lambda>c. c = CHR ''/''" "rev s"] by (simp add: trim_slashes_def last_rev)

lemma stripe_base:
  assumes "configuredStripeAPIBase H env = Inr base" and "base \<noteq> []"
  shows "env ''PARITYLAB_ALLOW_STRIPE_MOCK'' = ''true'' \<and>
    (\<exists>u. su_Parse H (TrimSpace (env ''STRIPE_API_BASE'')) = Inr u \<and> ur_Host u \<noteq> [] \<and>
      ur_Scheme u \<in> {''http'', ''https''}) \<and> last base \<noteq> CHR ''/''"
  using assms trim_slashes_end
  by (auto simp: configuredStripeAPIBase_def Let_def split: sum.splits if_splits)

lemma not_live:
  assumes "validateSandboxKey key = None"
  shows "take 8 (TrimSpace key) \<notin> {''sk_live_'', ''rk_live_'', ''pk_live_''}"
proof -
  have "take 8 s = p \<longleftrightarrow> HasPrefix s p" if "length p = 8" for s p
    using that by (simp add: HasPrefix_def)
  then have "take 8 (TrimSpace key) = p \<longleftrightarrow> HasPrefix (TrimSpace key) p"
    if "p \<in> {''sk_live_'', ''rk_live_'', ''pk_live_''}" for p
    using that by auto
  with assms show ?thesis
    by (auto simp: validateSandboxKey_def split: if_splits)
qed

text \<open>
  C34. A program that started is safe in its configuration.  Whatever its environment: the Stripe key,
  stripped of the space around it, does not start with \<^verbatim>\<open>sk_live_\<close>, \<^verbatim>\<open>rk_live_\<close> or \<^verbatim>\<open>pk_live_\<close>; cookies are sent without \<^verbatim>\<open>Secure\<close> only when asked for and only to a plain-HTTP origin
  on this machine; the SDK talks to \<^verbatim>\<open>https://api.stripe.com\<close> unless a mock was allowed explicitly, and then to
  an absolute URL; and accounts exist exactly when an encryption key is configured, with a cipher of a
  32-byte key, next to the runs they belong to: in the database when one is configured, else in memory.
\<close>

theorem startup_guards:
  assumes "api_run C H env opened seeded = Inr a"
  shows "take 8 (TrimSpace (env ''STRIPE_SECRET_KEY'')) \<notin> {''sk_live_'', ''rk_live_'', ''pk_live_''} \<and>
    (ap_insecureCookies a \<longrightarrow> env ''PARITYLAB_INSECURE_COOKIES'' = ''true'' \<and>
      (\<exists>u. su_Parse H (ap_webOrigin a) = Inr u \<and> ur_Scheme u = ''http'' \<and>
        (ur_Hostname u = ''localhost'' \<or> (\<exists>ip. su_ParseIP H (ur_Hostname u) = Some ip \<and> su_IsLoopback H ip)))) \<and>
    (cl_apiBase (ap_stripe a) = ''https://api.stripe.com'' \<or> env ''PARITYLAB_ALLOW_STRIPE_MOCK'' = ''true'' \<and>
      (\<exists>u. su_Parse H (TrimSpace (env ''STRIPE_API_BASE'')) = Inr u \<and> ur_Host u \<noteq> [] \<and>
        ur_Scheme u \<in> {''http'', ''https''})) \<and>
    (ap_cipher a = None \<longleftrightarrow> env ''PARITYLAB_ENCRYPTION_KEY'' = []) \<and>
    (case ap_cipher a of
       None \<Rightarrow> ap_accounts a = NoAccounts
     | Some c \<Rightarrow> length (ci_key c) = 32 \<and>
         ap_accounts a = (if env ''DATABASE_URL'' = [] then AccountsInMemory else AccountsInPostgres))"
proof -
  from assms obtain cipher base insecure where
    key: "validateSandboxKey (env ''STRIPE_SECRET_KEY'') = None" and
    cipher: "(if env ''PARITYLAB_ENCRYPTION_KEY'' = [] then Inr None
      else case New_Cipher C (env ''PARITYLAB_ENCRYPTION_KEY'') of Inl e \<Rightarrow> Inl e | Inr c \<Rightarrow> Inr (Some c)) = Inr cipher" and
    base: "configuredStripeAPIBase H env = Inr base" and
    cookies: "configuredCookiePolicy H env (envOr env ''WEB_ORIGIN'' ''http://127.0.0.1:3000'') = Inr insecure" and
    a: "ap_cipher a = cipher" "ap_stripe a = New_Client base" "ap_insecureCookies a = insecure"
      "ap_webOrigin a = envOr env ''WEB_ORIGIN'' ''http://127.0.0.1:3000''"
      "ap_accounts a = (if cipher = None then NoAccounts
         else if env ''DATABASE_URL'' = [] then AccountsInMemory else AccountsInPostgres)"
    by (auto simp: api_run_def Let_def split: option.splits sum.splits)
  have "length (ci_key c) = 32" if "cipher = Some c" for c
    using cipher that by (auto simp: New_Cipher_def Let_def split: if_splits sum.splits option.splits)
  then have "case ap_cipher a of None \<Rightarrow> ap_accounts a = NoAccounts
      | Some c \<Rightarrow> length (ci_key c) = 32 \<and>
          ap_accounts a = (if env ''DATABASE_URL'' = [] then AccountsInMemory else AccountsInPostgres)"
    using a(1,5) by (cases cipher) simp_all
  moreover have "ap_cipher a = None \<longleftrightarrow> env ''PARITYLAB_ENCRYPTION_KEY'' = []"
    using cipher unfolding a(1) by (auto split: if_splits sum.splits)
  moreover have "take 8 (TrimSpace (env ''STRIPE_SECRET_KEY'')) \<notin> {''sk_live_'', ''rk_live_'', ''pk_live_''}"
    using key by (rule not_live)
  moreover have "cl_apiBase (ap_stripe a) = ''https://api.stripe.com'' \<or> env ''PARITYLAB_ALLOW_STRIPE_MOCK'' = ''true'' \<and>
      (\<exists>u. su_Parse H (TrimSpace (env ''STRIPE_API_BASE'')) = Inr u \<and> ur_Host u \<noteq> [] \<and>
        ur_Scheme u \<in> {''http'', ''https''})"
    using stripe_base [OF base] a(2) by (cases "base = []") (auto simp: New_Client_def productionAPIBase_def)
  moreover have "ap_insecureCookies a \<Longrightarrow> env ''PARITYLAB_INSECURE_COOKIES'' = ''true'' \<and>
      (\<exists>u. su_Parse H (ap_webOrigin a) = Inr u \<and> ur_Scheme u = ''http'' \<and>
        (ur_Hostname u = ''localhost'' \<or> (\<exists>ip. su_ParseIP H (ur_Hostname u) = Some ip \<and> su_IsLoopback H ip)))"
    using cookies cookies_policy [of H env "ap_webOrigin a"] a(3,4) by auto
  ultimately show ?thesis by blast
qed

text \<open>A laptop with accounts in memory, without a mock, and with cookies for localhost.\<close>

definition laptop :: environ where
  "laptop key =
     (if key = ''PARITYLAB_ENCRYPTION_KEY'' then replicate 43 CHR ''A'' @ ''=''
      else if key = ''PARITYLAB_INSECURE_COOKIES'' then ''true''
      else if key = ''WEB_ORIGIN'' then ''http://localhost:3000'' else [])"

definition laptop_host :: startup_host where
  "laptop_host =
     \<lparr>su_Parse = (\<lambda>s. Inr \<lparr>ur_Scheme = takeWhile (\<lambda>c. c \<noteq> CHR '':'') s, ur_Host = drop 7 s,
        ur_Hostname = takeWhile (\<lambda>c. c \<noteq> CHR '':'') (drop 7 s)\<rparr>),
      su_ParseIP = (\<lambda>_. None), su_IsLoopback = (\<lambda>_. False)\<rparr>"

definition plain_hash :: crypto where
  "plain_hash = \<lparr>sha256 = (\<lambda>s. s), hmac_sha256 = (\<lambda>k m. m)\<rparr>"

definition laptop_key_accepted :: bool where
  "laptop_key_accepted \<longleftrightarrow>
     (case api_run plain_hash laptop_host laptop (\<lambda>_ _. None) (\<lambda>_. None) of
        Inl e \<Rightarrow> False | Inr a \<Rightarrow> ap_insecureCookies a \<and> ap_accounts a = AccountsInMemory)"

lemma laptop_starts: "laptop_key_accepted"
  by code_simp

theorem startup_guards_witness:
  "\<exists>a u c. api_run plain_hash laptop_host laptop (\<lambda>_ _. None) (\<lambda>_. None) = Inr a \<and>
     su_Parse laptop_host (ap_webOrigin a) = Inr u \<and> ur_Hostname u = ''localhost'' \<and>
     ap_cipher a = Some c \<and> length (ci_key c) = 32"
proof -
  obtain a where a: "api_run plain_hash laptop_host laptop (\<lambda>_ _. None) (\<lambda>_. None) = Inr a"
      "ap_insecureCookies a" "ap_accounts a = AccountsInMemory"
    using laptop_starts by (auto simp: laptop_key_accepted_def split: sum.splits)
  from startup_guards [OF a(1)] a(2,3) show ?thesis
    using a(1) by (auto simp: laptop_host_def split: option.splits)
qed

end
