(* ===== verification/Spec2Isabelle.thy ===== *)
theory Spec2Isabelle
  imports WorkerLoop StripeSpec AuthSettings HttpDemo PgScopes PgSettings PgMigrate Startup
begin

text \<open>
  A verification library for ParityLab, the service that runs payment scenarios against a
  Stripe sandbox under injected faults and reports whether a merchant's state converges.
  The Go code under \<^verbatim>\<open>src/services/api\<close> is modelled, package by package, and proved
  correct against what its components promise each other.

  \<^bold>\<open>Parts and how they interact.\<close>  The service (\<^verbatim>\<open>engine/service.go\<close>) creates runs for the public
  demo and for the projects of tenants, each identified by an idempotency key; it builds the
  whole evidence of a run at once (\<^verbatim>\<open>timeline.go\<close>, \<^verbatim>\<open>scenarios.go\<close>) and stores it through a
  persistence port (\<^verbatim>\<open>repository.go\<close>).  The in-memory repository (\<^verbatim>\<open>memory_repository.go\<close>)
  implements the port and queues a job in its outbox for every run and every received
  webhook; the Postgres repository (\<^verbatim>\<open>postgres/\<close>) implements the same port, and the one of the
  authentication service, by SQL transactions on the tables of \<^verbatim>\<open>db/migrations\<close>.  Workers (\<^verbatim>\<open>worker/worker.go\<close>) claim the jobs under leases: a verification job sends
  signed deliveries through the relay that injects the fault (\<^verbatim>\<open>verification/contract.go\<close>) to a
  merchant that applies each effect once, and records the outcome as evidence; a webhook job
  correlates the event with a run.

  \<^bold>\<open>Theories.\<close>
    \<^item> \<^verbatim>\<open>Prelude\<close>, \<^verbatim>\<open>GoStd\<close>, \<^verbatim>\<open>GoConv\<close>: maps read with a zero value and enumerated in an arbitrary
      order; 64-bit integers, times, strings; decimal and hexadecimal conversions with their
      round trips.
    \<^item> \<^verbatim>\<open>Domain\<close> (\<^verbatim>\<open>domain/\<close>): the records of the API, its errors, Go errors as values, the
      hash functions as the parameter \<^verbatim>\<open>crypto\<close>.
    \<^item> \<^verbatim>\<open>Verification\<close> (\<^verbatim>\<open>verification/contract.go\<close>): deliveries, signatures, the reference
      merchant and the relay.  The locales \<^verbatim>\<open>verification_target\<close>, \<^verbatim>\<open>relay_target\<close> and \<^verbatim>\<open>late_target\<close>
      (which applies nothing for a negative sequence number) say what the relay needs of a target; the
      reference merchant here and the repository merchant in \<^verbatim>\<open>Worker\<close> are their interpretations.
    \<^item> \<^verbatim>\<open>EngineTypes\<close> (\<^verbatim>\<open>repository.go\<close>): the persisted types and the port as records of operations.
    \<^item> \<^verbatim>\<open>Timeline\<close> (\<^verbatim>\<open>scenarios.go\<close>, \<^verbatim>\<open>timeline.go\<close>, the builders of \<^verbatim>\<open>service.go\<close>): the evidence of a
      run under each fault.
    \<^item> \<^verbatim>\<open>MemoryState\<close>, \<^verbatim>\<open>MemoryOutbox\<close>, \<^verbatim>\<open>MemoryRuns\<close>, \<^verbatim>\<open>MemoryScopes\<close>, \<^verbatim>\<open>MemoryWebhooks\<close>,
      \<^verbatim>\<open>MemoryConnections\<close>, \<^verbatim>\<open>MemoryRepo\<close> (\<^verbatim>\<open>memory_repository.go\<close>): the state, the outbox protocol, the
      run store with the locale \<^verbatim>\<open>idempotent_store\<close> interpreted for the public scope and for every
      project, what each scope sees, webhooks, Stripe connections, and the whole as a provider
      of the port with its invariant, its evidence that only grows, and the deduplication of webhooks
      over every later history.
    \<^item> \<^verbatim>\<open>EngineService\<close>, \<^verbatim>\<open>ServiceSpec\<close>, \<^verbatim>\<open>ServiceDemo\<close> (\<^verbatim>\<open>service.go\<close>): the operations of the service
      over any port; creation on every branch and under interleaving, from the locale
      \<^verbatim>\<open>run_service\<close>; recorded webhooks, seeding and the overview.
    \<^item> \<^verbatim>\<open>Base64\<close>, \<^verbatim>\<open>Secrets\<close> (\<^verbatim>\<open>secrets/cipher.go\<close>), \<^verbatim>\<open>StripeService\<close>, \<^verbatim>\<open>StripeSpec\<close>
      (\<^verbatim>\<open>stripe_service.go\<close>): the cipher over an abstract AES-GCM; connections and payment runs over the
      port and the gateway to Stripe; what is stored, when Stripe is charged, and that the
      webhook of a payment finds its run.
    \<^item> \<^verbatim>\<open>AuthMemory\<close>, \<^verbatim>\<open>AuthService\<close>, \<^verbatim>\<open>AuthSpec\<close>, \<^verbatim>\<open>AuthSettings\<close> (\<^verbatim>\<open>auth/\<close>): accounts, sessions and
      project settings over their port; passwords; the refinement of a plain table of accounts and
      sessions over every history, the life of a session, and project settings kept apart.
    \<^item> \<^verbatim>\<open>StripeSignature\<close>, \<^verbatim>\<open>LoginLimiter\<close>, \<^verbatim>\<open>EventStream\<close>, \<^verbatim>\<open>HttpTypes\<close>, \<^verbatim>\<open>HttpAuth\<close>,
      \<^verbatim>\<open>HttpApi\<close>, \<^verbatim>\<open>HttpServer\<close> (\<^verbatim>\<open>httpapi/\<close>): signatures of webhooks, the limiter of sign-in attempts, the
      stream of events, and every handler, up to \<^verbatim>\<open>ServeHTTP\<close>, as a function of the state behind the
      server and the response written so far; where no route matches, the mux of \<^verbatim>\<open>net/http\<close> answers with
      its plain text.  \<^verbatim>\<open>HttpSpec\<close>, \<^verbatim>\<open>HttpAnswers\<close>, \<^verbatim>\<open>HttpGuards\<close> prove who
      sees which run, also in a stream of its events, the shape of every answer, and which requests are refused without an effect;
      \<^verbatim>\<open>HttpDemo\<close> is a small server for the examples.
    \<^item> \<^verbatim>\<open>Worker\<close>, \<^verbatim>\<open>WorkerSpec\<close>, \<^verbatim>\<open>WorkerLoop\<close> (\<^verbatim>\<open>worker/\<close>): jobs, iterations and fleets of workers.
    \<^item> \<^verbatim>\<open>SqlSession\<close>: tables as lists of rows, statements, transactions, and drivers that fail or lose
      replies; what a computation does to the database, leaves alone and preserves under any driver.
    \<^item> \<^verbatim>\<open>PgState\<close>, \<^verbatim>\<open>PgRuns\<close>, \<^verbatim>\<open>PgWebhooks\<close>, \<^verbatim>\<open>PgConnections\<close>, \<^verbatim>\<open>PgOutbox\<close>, \<^verbatim>\<open>PgRepo\<close>
      (\<^verbatim>\<open>postgres/repository.go\<close>): the tables with their constraints and every operation of the
      port.  \<^verbatim>\<open>PgStore\<close>, \<^verbatim>\<open>PgInvariant\<close>, \<^verbatim>\<open>PgCreate\<close>, \<^verbatim>\<open>PgAccepts\<close>, \<^verbatim>\<open>PgScopes\<close> prove that the tables
      agree with each other, findings included, that a creation is all or nothing and is done once however it is retried,
      that the database accepts what the service builds, and who reads what.
    \<^item> \<^verbatim>\<open>OutboxProtocol\<close>, \<^verbatim>\<open>PgProtocol\<close>: the locale \<^verbatim>\<open>lease_queue\<close>, which both outboxes interpret:
      jobs are settled once and a running lease excludes everybody else.
    \<^item> \<^verbatim>\<open>AccountStore\<close>, \<^verbatim>\<open>PgAuth\<close>, \<^verbatim>\<open>PgAccounts\<close>, \<^verbatim>\<open>PgSettings\<close> (\<^verbatim>\<open>postgres/auth_repository.go\<close>): the
      locale \<^verbatim>\<open>account_store\<close>, which the in-memory and the Postgres repository interpret, so that both
      answer alike; the invariant of the whole database under the steps of both repositories; and
      the selection of environments.
    \<^item> \<^verbatim>\<open>PgMigrate\<close> (\<^verbatim>\<open>postgres/migrate.go\<close>): migrations, their log, and that interrupted starts converge.
    \<^item> \<^verbatim>\<open>Startup\<close> (\<^verbatim>\<open>stripeadapter/client.go\<close>, \<^verbatim>\<open>cmd/\<close>): the adapter to Stripe's SDK and what both programs
      decide from their environment before they serve.

  \<^bold>\<open>Conventions.\<close>  A method under the repository's mutex is one atomic function of its state, and
  concurrency is the interleaving of such functions.  Errors are values: \<^verbatim>\<open>(T, error)\<close> is a sum,
  a panic is \<^verbatim>\<open>None\<close>.  \<^verbatim>\<open>time.Now()\<close> is an argument.  A \<^verbatim>\<open>range\<close> over a map takes the list of its
  keys in any order, and theorems quantify over it.  Counters of runs and jobs are unbounded
  integers, as are the attempts of a job; they would need two to the 63 calls to wrap.  JSON texts are kept as what they denote:
  decoders are parameters, and a job's payload is the object its producer wrote.  No
  definition uses fuel: every loop is over a finite list or schedule, except the two loops that drain
  the log of a run into a stream, which are partial functions proved to end (\<^verbatim>\<open>stream_gapless\<close>).

  \<^bold>\<open>Postgres.\<close>  A transaction is one atomic step: the row locks, the advisory locks and the serializable
  level of the code are there to make it so, and retries of the server on serialization conflicts are not
  modelled.  Each round trip completes, fails, or takes effect while its reply is lost, as the schedule in
  the session says.  A \<^verbatim>\<open>timestamptz\<close> has microseconds.  JSON columns keep the value that was written.
  The server's clock is the time of the session and the client's an argument of its own.

  \<^bold>\<open>Not modelled.\<close>  The context of an iteration of the worker is cancelled by a lost lease only, not
  by the shutdown of the process in the middle of a job (a crash between two steps of a fleet is modelled
  in \<^verbatim>\<open>WorkerLoop\<close>).  A request is served as one step, so the check of a sign-in and the
  counting of its failure are not separated by other requests.  Opening and closing the connection pool, the SDK of Stripe, the HTTP server's sockets,
  shutdown on signals, the health port of the worker and logging are effects of libraries; the tests
  and the web application are outside the Go services.
\<close>

end
